(* ===== verification/Prelude.thy ===== *)
theory Prelude
  imports Main "HOL-Library.Word"
begin

text \<open>
  Shared vocabulary of the development. It holds no model of a component: only the shape of
  a database-backed operation (a result that is an exception or a value, together with the
  state the transaction has reached) and the generic list and option lemmas.
\<close>

named_theorems tx_simps \<open>laws of the sequencing operators\<close>
named_theorems store_simps \<open>what one SQL statement changes and what it leaves\<close>

section \<open>Operations that may raise\<close>

text \<open>
  An operation returns \<open>Inl e\<close> (the exception that left it) or \<open>Inr a\<close>, and in both cases the
  state of the open transaction: a statement that ran before the exception stays in the
  transaction until somebody rolls it back, and a caller may catch the exception and go on.
\<close>

type_synonym ('e, 'a, 's) outcome = "('e + 'a) \<times> 's"

definition and_then ::
  "('e, 'a, 's) outcome \<Rightarrow> ('a \<Rightarrow> 's \<Rightarrow> ('e, 'b, 's) outcome) \<Rightarrow> ('e, 'b, 's) outcome" where
  "and_then r k = (case fst r of Inl e \<Rightarrow> (Inl e, snd r) | Inr a \<Rightarrow> k a (snd r))"

lemma and_then_simps [simp, tx_simps]:
  "and_then (Inl e, s) k = (Inl e, s)"
  "and_then (Inr a, s) k = k a s"
  by (simp_all add: and_then_def)

lemma and_then_InrE:
  assumes "and_then r k = (Inr b, t)"
  obtains a s where "r = (Inr a, s)" and "k a s = (Inr b, t)"
  using assms by (cases r; cases "fst r") (auto simp: and_then_def)

lemma and_then_cases:
  obtains (raised) e s where "r = (Inl e, s)" and "and_then r k = (Inl e, s)"
  | (returned) a s where "r = (Inr a, s)" and "and_then r k = k a s"
  by (cases r; cases "fst r") (auto simp: and_then_def)

text \<open>A request's session: commit on success, roll everything back on an exception
  (\<open>db.session_scope\<close>).\<close>

definition session_scope :: "('s \<Rightarrow> ('e, 'a, 's) outcome) \<Rightarrow> 's \<Rightarrow> ('e, 'a, 's) outcome" where
  "session_scope f s = (case fst (f s) of Inl e \<Rightarrow> (Inl e, s) | Inr a \<Rightarrow> f s)"

lemma session_scope_raise: "f s = (Inl e, t) \<Longrightarrow> session_scope f s = (Inl e, s)"
  by (simp add: session_scope_def)

lemma session_scope_return: "f s = (Inr a, t) \<Longrightarrow> session_scope f s = (Inr a, t)"
  by (simp add: session_scope_def)

lemma session_scope_preserves:
  assumes "I s" and "\<And>a t. f s = (Inr a, t) \<Longrightarrow> I t"
  shows "I (snd (session_scope f s))"
  using assms by (cases "f s"; cases "fst (f s)") (auto simp: session_scope_def)

section \<open>Lists and options\<close>

lemma find_None_append: "find P (xs @ ys) = (case find P xs of None \<Rightarrow> find P ys | Some x \<Rightarrow> Some x)"
  by (induction xs) auto

lemma find_SomeD: "find P xs = Some x \<Longrightarrow> P x \<and> x \<in> set xs"
  by (induction xs) (auto split: if_splits)

lemma find_None_setD: "find P xs = None \<Longrightarrow> x \<in> set xs \<Longrightarrow> \<not> P x"
  by (induction xs) (auto split: if_splits)

fun first_some :: "('a \<Rightarrow> 'b option) \<Rightarrow> 'a list \<Rightarrow> 'b option" where
  "first_some f [] = None"
| "first_some f (x # xs) = (case f x of Some y \<Rightarrow> Some y | None \<Rightarrow> first_some f xs)"

lemma first_some_SomeE:
  assumes "first_some f xs = Some y"
  obtains x where "x \<in> set xs" and "f x = Some y"
  using assms by (induction xs) (auto split: option.splits)

lemma set_map_filter_iff: "set (List.map_filter f xs) = {y. \<exists>x \<in> set xs. f x = Some y}"
  by (induction xs) (auto simp: map_filter_def)

lemma ex_Not [simp]: "Ex Not" "Ex (\<lambda>b :: bool. b)"
  by blast+

definition opt_or :: "'a option \<Rightarrow> 'a option \<Rightarrow> 'a option" where
  "opt_or a b = (case a of None \<Rightarrow> b | Some _ \<Rightarrow> a)"

lemma opt_or_simps [simp]: "opt_or None b = b" "opt_or (Some x) b = Some x"
  by (simp_all add: opt_or_def)

definition or_default :: "'a option \<Rightarrow> 'a \<Rightarrow> 'a" where
  "or_default a d = (case a of None \<Rightarrow> d | Some x \<Rightarrow> x)"

lemma or_default_simps [simp]: "or_default None d = d" "or_default (Some x) d = x"
  by (simp_all add: or_default_def)

end
