(* ===== verification/PyText.thy ===== *)
theory PyText
  imports Prelude
begin

text \<open>
  The part of Python's standard library the modelled sources use on text: \<open>str.lower\<close>,
  \<open>str.strip\<close>, \<open>str.replace\<close>, \<open>str.split\<close> without an argument, the \<open>int\<close> constructor on text, the decimal
  rendering of an integer, and \<open>uuid.UUID\<close> with its \<open>str\<close>. A \<open>str\<close> is a \<open>string\<close>: its code points
  below 256 (Latin-1); on those \<open>py_lower\<close> and \<open>py_isspace\<close> agree with Python.
\<close>

section \<open>Strings\<close>

definition py_isspace :: "char \<Rightarrow> bool" where
  "py_isspace c = (let n = of_char c :: nat in (9 \<le> n \<and> n \<le> 13) \<or> (28 \<le> n \<and> n \<le> 32) \<or> n = 133 \<or> n = 160)"

definition lower_char :: "char \<Rightarrow> char" where
  "lower_char c = (let n = of_char c :: nat in
     if (65 \<le> n \<and> n \<le> 90) \<or> (192 \<le> n \<and> n \<le> 222 \<and> n \<noteq> 215) then char_of (n + 32) else c)"

definition py_lower :: "string \<Rightarrow> string" where
  "py_lower s = map lower_char s"

definition strip_by :: "(char \<Rightarrow> bool) \<Rightarrow> string \<Rightarrow> string" where
  "strip_by p s = rev (dropWhile p (rev (dropWhile p s)))"

definition py_strip :: "string \<Rightarrow> string" where
  "py_strip s = strip_by py_isspace s"

text \<open>\<open>py_remove p 0 s\<close> is \<open>s.replace(p, "")\<close> for a non-empty \<open>p\<close>: occurrences are taken from the
  left and do not overlap. The number counts the characters of a match still to be skipped.\<close>

fun py_remove :: "string \<Rightarrow> nat \<Rightarrow> string \<Rightarrow> string" where
  "py_remove p k [] = []"
| "py_remove p (Suc k) (c # cs) = py_remove p k cs"
| "py_remove p 0 (c # cs) =
     (if take (length p) (c # cs) = p then py_remove p (length p - 1) cs else c # py_remove p 0 cs)"

text \<open>\<open>p in s\<close>, \<open>s.startswith(p)\<close> and \<open>s.endswith(p)\<close>.\<close>

fun py_contains :: "string \<Rightarrow> string \<Rightarrow> bool" where
  "py_contains p [] = (p = [])"
| "py_contains p (c # cs) = (take (length p) (c # cs) = p \<or> py_contains p cs)"

definition py_startswith :: "string \<Rightarrow> string \<Rightarrow> bool" where
  "py_startswith p s = (take (length p) s = p)"

definition py_endswith :: "string \<Rightarrow> string \<Rightarrow> bool" where
  "py_endswith p s = (take (length p) (rev s) = rev p)"

text \<open>\<open>s.replace(p, r)\<close> for a non-empty \<open>p\<close>; the number counts the characters of a match still to be skipped.\<close>

fun py_replace :: "string \<Rightarrow> string \<Rightarrow> nat \<Rightarrow> string \<Rightarrow> string" where
  "py_replace p r k [] = []"
| "py_replace p r (Suc k) (c # cs) = py_replace p r k cs"
| "py_replace p r 0 (c # cs) =
     (if take (length p) (c # cs) = p then r @ py_replace p r (length p - 1) cs else c # py_replace p r 0 cs)"

text \<open>\<open>s.split()\<close> and \<open>" ".join(words)\<close>. The second argument is the word being read.\<close>

fun py_words :: "string \<Rightarrow> string \<Rightarrow> string list" where
  "py_words w [] = (if w = [] then [] else [w])"
| "py_words w (c # cs) = (if py_isspace c then (if w = [] then [] else [w]) @ py_words [] cs else py_words (w @ [c]) cs)"

fun py_join_words :: "string list \<Rightarrow> string" where
  "py_join_words [] = []"
| "py_join_words [w] = w"
| "py_join_words (w # v # ws) = w @ '' '' @ py_join_words (v # ws)"

text \<open>\<open>\w\<close> of a regular expression.\<close>

definition word_char :: "char \<Rightarrow> bool" where
  "word_char c = (let n = of_char c :: nat in
     (48 \<le> n \<and> n \<le> 57) \<or> (65 \<le> n \<and> n \<le> 90) \<or> n = 95 \<or> (97 \<le> n \<and> n \<le> 122) \<or> n \<in> {170, 178, 179, 181, 185, 186}
     \<or> (188 \<le> n \<and> n \<le> 190) \<or> (192 \<le> n \<and> n \<noteq> 215 \<and> n \<noteq> 247))"

lemma lower_char_of_char:
  "of_char (lower_char c) = (let n = of_char c :: nat in
     if (65 \<le> n \<and> n \<le> 90) \<or> (192 \<le> n \<and> n \<le> 222 \<and> n \<noteq> 215) then n + 32 else n)"
  by (simp add: lower_char_def Let_def of_char_of)

lemma lower_char_idem: "lower_char (lower_char c) = lower_char c"
proof -
  have "of_char (lower_char (lower_char c)) = (of_char (lower_char c) :: nat)"
    unfolding lower_char_of_char[of "lower_char c"] lower_char_of_char[of c]
    by (simp add: Let_def)
  then show ?thesis by (simp only: of_char_eq_iff)
qed

lemma py_lower_idem [simp]: "py_lower (py_lower s) = py_lower s"
  by (simp add: py_lower_def lower_char_idem)

lemma strip_by_idle:
  assumes "\<And>c. c \<in> set s \<Longrightarrow> \<not> p c"
  shows "strip_by p s = s"
proof -
  have "dropWhile p xs = xs" if "set xs = set s" for xs
    using assms that by (cases xs) auto
  then show ?thesis by (simp add: strip_by_def)
qed

lemma py_remove_idle:
  assumes "p \<noteq> []" and "hd p \<notin> set s"
  shows "py_remove p 0 s = s"
  using assms(2)
proof (induction s)
  case (Cons c cs)
  then have "take (length p) (c # cs) \<noteq> p"
    using assms(1) by (cases p) auto
  with Cons show ?case by simp
qed simp

section \<open>Integers as text\<close>

definition digit_value :: "char \<Rightarrow> nat option" where
  "digit_value c = (let n = of_char c :: nat in
     if 48 \<le> n \<and> n \<le> 57 then Some (n - 48)
     else if 97 \<le> n \<and> n \<le> 122 then Some (n - 87)
     else if 65 \<le> n \<and> n \<le> 90 then Some (n - 55) else None)"

definition digit_char :: "nat \<Rightarrow> char" where
  "digit_char d = (if d < 10 then char_of (48 + d) else char_of (87 + d))"

text \<open>The digits of an \<open>int\<close> literal: one underscore may stand between two digits; the flag
  says whether the previous character was a digit.\<close>

fun int_digits :: "nat \<Rightarrow> nat \<Rightarrow> bool \<Rightarrow> string \<Rightarrow> nat option" where
  "int_digits b acc pd [] = (if pd then Some acc else None)"
| "int_digits b acc pd (c # cs) =
     (if c = CHR ''_'' then (if pd then int_digits b acc False cs else None)
      else case digit_value c of
          None \<Rightarrow> None
        | Some d \<Rightarrow> if d < b then int_digits b (acc * b + d) True cs else None)"

definition int_body :: "nat \<Rightarrow> string \<Rightarrow> nat option" where
  "int_body b s =
     (if b = 16 \<and> (take 2 s = ''0x'' \<or> take 2 s = ''0X'')
      then (case drop 2 s of
              [] \<Rightarrow> None
            | c # cs \<Rightarrow> int_digits b 0 False (if c = CHR ''_'' then cs else c # cs))
      else int_digits b 0 False s)"

text \<open>\<open>int(s, base)\<close> for base 10 and 16: \<open>None\<close> is a \<open>ValueError\<close>. A decimal text of more than
  4300 digits is one too (\<open>sys.set_int_max_str_digits\<close>, the default limit).\<close>

definition py_int_base :: "nat \<Rightarrow> string \<Rightarrow> int option" where
  "py_int_base b s = (let t = py_strip s in
     if b = 10 \<and> 4300 < length (filter (\<lambda>c. digit_value c \<noteq> None) t) then None
     else case t of
       [] \<Rightarrow> None
     | c # cs \<Rightarrow>
         if c = CHR ''-'' then map_option (\<lambda>n. - int n) (int_body b cs)
         else if c = CHR ''+'' then map_option int (int_body b cs)
         else map_option int (int_body b (c # cs)))"

text \<open>\<open>fixed_digits b k n\<close>: the \<open>k\<close> lowest base-\<open>b\<close> digits of \<open>n\<close>, most significant first.\<close>

fun fixed_digits :: "nat \<Rightarrow> nat \<Rightarrow> nat \<Rightarrow> string" where
  "fixed_digits b 0 n = []"
| "fixed_digits b (Suc k) n = fixed_digits b k (n div b) @ [digit_char (n mod b)]"

fun nat_str :: "nat \<Rightarrow> string" where
  "nat_str n = (if n < 10 then [digit_char n] else nat_str (n div 10) @ [digit_char (n mod 10)])"

declare nat_str.simps [simp del]

definition int_str :: "int \<Rightarrow> string" where
  "int_str i = (if i < 0 then CHR ''-'' # nat_str (nat (- i)) else nat_str (nat i))"

lemma digit_char_code: "d < 16 \<Longrightarrow> of_char (digit_char d) = (if d < 10 then 48 + d else 87 + d)"
  by (simp add: digit_char_def of_char_of)

lemma digit_value_char [simp]: "d < 16 \<Longrightarrow> digit_value (digit_char d) = Some d"
  by (simp add: digit_value_def digit_char_code Let_def)

lemma fixed_digits_length [simp]: "length (fixed_digits b k n) = k"
  by (induction k arbitrary: n) auto

lemma fixed_digits_set:
  "0 < b \<Longrightarrow> set (fixed_digits b k n) \<subseteq> digit_char ` {..<b}"
  by (induction k arbitrary: n) (auto intro!: imageI)

lemma digit_char_plain:
  assumes "d < 16"
  shows "digit_char d \<noteq> CHR ''_''" "digit_char d \<noteq> CHR ''-''" "digit_char d \<noteq> CHR ''+''"
    "digit_char d \<noteq> CHR ''{''" "digit_char d \<noteq> CHR ''}''" "digit_char d \<noteq> CHR ''u''"
    "digit_char d \<noteq> CHR ''x''" "digit_char d \<noteq> CHR ''X''" "\<not> py_isspace (digit_char d)"
  using digit_char_code[OF assms] assms
  by (auto simp: py_isspace_def Let_def split: if_splits)

lemma int_digits_append:
  assumes "set xs \<subseteq> digit_char ` {..<b}" and "b \<le> 16"
  shows "int_digits b acc pd (xs @ ys) = int_digits b (fold (\<lambda>c a. a * b + the (digit_value c)) xs acc) (pd \<or> xs \<noteq> []) ys"
  using assms
proof (induction xs arbitrary: acc pd)
  case (Cons c cs)
  then obtain d where d: "d < b" "c = digit_char d" by auto
  with Cons.prems have "d < 16" by simp
  with d digit_char_plain(1)[of d] Cons show ?case by simp
qed simp

lemma fixed_digits_value:
  assumes "0 < b" and "b \<le> 16"
  shows "fold (\<lambda>c a. a * b + the (digit_value c)) (fixed_digits b k n) acc = acc * b ^ k + n mod b ^ k"
  using assms
proof (induction k arbitrary: n)
  case (Suc k)
  have "digit_value (digit_char (n mod b)) = Some (n mod b)"
    using Suc.prems by (intro digit_value_char) (meson less_le_trans mod_less_divisor)
  moreover have "n mod (b * b ^ k) = b * (n div b mod b ^ k) + n mod b"
    by (rule mod_mult2_eq)
  ultimately show ?case
    using Suc by (simp add: algebra_simps)
qed simp

lemma int_digits_fixed:
  assumes "0 < b" "b \<le> 16" "0 < k"
  shows "int_digits b 0 False (fixed_digits b k n) = Some (n mod b ^ k)"
  using int_digits_append[of "fixed_digits b k n" b 0 False "[]"] fixed_digits_set[OF assms(1), of k n]
    fixed_digits_value[OF assms(1,2), of k n 0] assms fixed_digits_length[of b k n]
  by (cases "fixed_digits b k n") auto

section \<open>Identifiers\<close>

type_synonym uuid = "128 word"

text \<open>\<open>str(uuid)\<close>: \<open>'%032x' % self.int\<close>, cut 8-4-4-4-12.\<close>

definition uuid_hex :: "uuid \<Rightarrow> string" where
  "uuid_hex u = fixed_digits 16 32 (unat u)"

definition uuid_str :: "uuid \<Rightarrow> string" where
  "uuid_str u = (let h = uuid_hex u in
     take 8 h @ ''-'' @ take 4 (drop 8 h) @ ''-'' @ take 4 (drop 12 h) @ ''-'' @ take 4 (drop 16 h) @ ''-'' @ drop 20 h)"

text \<open>\<open>uuid.UUID(text)\<close>; \<open>None\<close> is its \<open>ValueError\<close>.\<close>

definition uuid_parse :: "string \<Rightarrow> uuid option" where
  "uuid_parse s =
     (let h = filter (\<lambda>c. c \<noteq> CHR ''-'')
                (strip_by (\<lambda>c. c = CHR ''{'' \<or> c = CHR ''}'') (py_remove ''uuid:'' 0 (py_remove ''urn:'' 0 s)))
      in if length h \<noteq> 32 then None
         else case py_int_base 16 h of
             None \<Rightarrow> None
           | Some i \<Rightarrow> if 0 \<le> i \<and> i < 2 ^ 128 then Some (word_of_int i) else None)"

lemma uuid_hex_plain:
  assumes "c \<in> set (uuid_hex u)"
  shows "c \<noteq> CHR ''_''" "c \<noteq> CHR ''-''" "c \<noteq> CHR ''+''" "c \<noteq> CHR ''{''" "c \<noteq> CHR ''}''" "c \<noteq> CHR ''u''"
    "c \<noteq> CHR ''x''" "c \<noteq> CHR ''X''" "\<not> py_isspace c"
proof -
  obtain d where d: "d < 16" "c = digit_char d"
    using assms fixed_digits_set[of 16 32 "unat u"] unfolding uuid_hex_def by auto
  show "c \<noteq> CHR ''_''" "c \<noteq> CHR ''-''" "c \<noteq> CHR ''+''" "c \<noteq> CHR ''{''" "c \<noteq> CHR ''}''" "c \<noteq> CHR ''u''"
    "c \<noteq> CHR ''x''" "c \<noteq> CHR ''X''" "\<not> py_isspace c"
    unfolding d(2) by (fact digit_char_plain[OF d(1)])+
qed

lemma uuid_hex_length [simp]: "length (uuid_hex u) = 32"
  unfolding uuid_hex_def by simp

lemma uuid_str_set: "c \<in> set (uuid_str u) \<Longrightarrow> c = CHR ''-'' \<or> c \<in> set (uuid_hex u)"
  unfolding uuid_str_def Let_def set_append
  by (elim UnE) (simp_all, (blast dest: in_set_takeD in_set_dropD)+)

lemma filter_dash_id: "(\<And>c. c \<in> set xs \<Longrightarrow> c \<noteq> CHR ''-'') \<Longrightarrow> filter (\<lambda>c. c \<noteq> CHR ''-'') xs = xs"
  by (rule filter_True) simp

lemma pieces_8_4_4_4_12:
  "take 8 h @ take 4 (drop 8 h) @ take 4 (drop 12 h) @ take 4 (drop 16 h) @ drop 20 h = h"
proof -
  have cut: "take 4 (drop n h) @ drop (n + 4) h = drop n h" for n
    using append_take_drop_id[of 4 "drop n h"] by (simp add: add.commute)
  show ?thesis
    using cut[of 8] cut[of 12] cut[of 16] by simp
qed

lemma uuid_str_undash: "filter (\<lambda>c. c \<noteq> CHR ''-'') (uuid_str u) = uuid_hex u"
proof -
  have nd: "c \<noteq> CHR ''-''" if "c \<in> set (uuid_hex u)" for c
    using uuid_hex_plain(2)[OF that] .
  have "filter (\<lambda>c. c \<noteq> CHR ''-'') (take n (drop m (uuid_hex u))) = take n (drop m (uuid_hex u))" for n m
    by (rule filter_dash_id) (meson in_set_dropD in_set_takeD nd)
  note this this[of _ 0, simplified]
  moreover have "filter (\<lambda>c. c \<noteq> CHR ''-'') (drop m (uuid_hex u)) = drop m (uuid_hex u)" for m
    by (rule filter_dash_id) (meson in_set_dropD nd)
  ultimately show ?thesis
    using pieces_8_4_4_4_12[of "uuid_hex u"] unfolding uuid_str_def Let_def by simp
qed

lemma int_of_uuid_hex: "py_int_base 16 (uuid_hex u) = Some (uint u)"
proof -
  obtain c d cs where h: "uuid_hex u = c # d # cs"
    using uuid_hex_length[of u] by (cases "uuid_hex u" rule: remdups_adj.cases) simp_all
  have hd: "c \<in> set (uuid_hex u)" "d \<in> set (uuid_hex u)" by (simp_all add: h)
  have strip: "py_strip (uuid_hex u) = uuid_hex u"
    unfolding py_strip_def by (rule strip_by_idle) (rule uuid_hex_plain)
  have "int_digits 16 0 False (uuid_hex u) = Some (unat u)"
    using int_digits_fixed[of 16 32 "unat u"] unsigned_less[of u, where 'a = nat]
    by (simp add: uuid_hex_def)
  then have "int_body 16 (uuid_hex u) = Some (unat u)"
    using uuid_hex_plain[OF hd(2)] by (simp add: int_body_def h)
  then show ?thesis
    using uuid_hex_plain[OF hd(1)] strip by (simp add: py_int_base_def h)
qed

lemma uuid_parse_str: "uuid_parse (uuid_str u) = Some u"
proof -
  have not_dash: "c \<noteq> CHR ''u''" "c \<noteq> CHR ''{''" "c \<noteq> CHR ''}''" if "c \<in> set (uuid_str u)" for c
    using uuid_str_set[OF that] uuid_hex_plain[of c u] by auto
  then have "CHR ''u'' \<notin> set (uuid_str u)" by blast
  then have "py_remove ''urn:'' 0 (uuid_str u) = uuid_str u" "py_remove ''uuid:'' 0 (uuid_str u) = uuid_str u"
    by (auto intro: py_remove_idle)
  moreover have "strip_by (\<lambda>c. c = CHR ''{'' \<or> c = CHR ''}'') (uuid_str u) = uuid_str u"
    by (rule strip_by_idle) (use not_dash in blast)
  moreover have "uint u < 2 ^ 128"
    using unsigned_less[of u, where 'a = int] by simp
  ultimately show ?thesis
    by (simp add: uuid_parse_def uuid_str_undash int_of_uuid_hex)
qed

lemma uuid_str_inject [simp]: "uuid_str u = uuid_str v \<longleftrightarrow> u = v"
  by (metis option.inject uuid_parse_str)

lemma uuid_str_length: "length (uuid_str u) = 36"
  by (simp add: uuid_str_def Let_def)

lemma lower_digit_char: "d < 16 \<Longrightarrow> lower_char (digit_char d) = digit_char d"
  using digit_char_code[of d] by (auto simp: lower_char_def Let_def)

lemma py_lower_uuid_str: "py_lower (uuid_str u) = uuid_str u"
proof -
  have "lower_char c = c" if "c \<in> set (uuid_hex u)" for c
    using that fixed_digits_set[of 16 32 "unat u"] lower_digit_char unfolding uuid_hex_def by auto
  moreover have "lower_char (CHR ''-'') = CHR ''-''" by (simp add: lower_char_def)
  ultimately show ?thesis
    unfolding py_lower_def using uuid_str_set[of _ u] by (intro map_idI) auto
qed

end
