(* ===== verification/Errors.thy ===== *)
theory Errors
  imports PyText
begin

text \<open>
  \<open>errors.py\<close>: the technical errors, one constant per class in the order of the file. A class carries
  its name, its base and the class attributes its own body assigns; \<open>status_code\<close> and \<open>code\<close> follow
  Python's attribute lookup along the bases, \<open>is_a\<close> is what an \<open>except\<close> clause tests. An exception in
  flight is an instance of one of them, a fault of the database statement or a Python exception
  that no handler of the program names. \<open>ModerationInputRejectedError\<close>, which is not an \<open>AppError\<close>, belongs
  to the moderation client and is not modelled.
\<close>

named_theorems error_defs \<open>the class declarations\<close>

datatype error_class =
  ErrorClass (class_name: string) (base_class: "error_class option") (own_status: "nat option") (own_code: "string option")

fun inherited_status :: "error_class \<Rightarrow> nat option" where
  "inherited_status (ErrorClass n b st c) =
     (case st of Some s \<Rightarrow> Some s | None \<Rightarrow> (case b of None \<Rightarrow> None | Some b' \<Rightarrow> inherited_status b'))"

fun inherited_code :: "error_class \<Rightarrow> string option" where
  "inherited_code (ErrorClass n b st c) =
     (case c of Some s \<Rightarrow> Some s | None \<Rightarrow> (case b of None \<Rightarrow> None | Some b' \<Rightarrow> inherited_code b'))"

fun is_a :: "error_class \<Rightarrow> error_class \<Rightarrow> bool" where
  "is_a (ErrorClass n b st c) target =
     (ErrorClass n b st c = target \<or> (case b of None \<Rightarrow> False | Some b' \<Rightarrow> is_a b' target))"

section \<open>The classes\<close>

definition AppError :: error_class where [error_defs]:
  "AppError = ErrorClass ''AppError'' None (Some 500) (Some ''internal_error'')"

definition UnauthorizedError :: error_class where [error_defs]:
  "UnauthorizedError = ErrorClass ''UnauthorizedError'' (Some AppError) (Some 401) (Some ''unauthorized'')"

definition ForbiddenError :: error_class where [error_defs]:
  "ForbiddenError = ErrorClass ''ForbiddenError'' (Some AppError) (Some 403) (Some ''forbidden'')"

definition SubscriptionRequiredError :: error_class where [error_defs]:
  "SubscriptionRequiredError = ErrorClass ''SubscriptionRequiredError'' (Some ForbiddenError) None (Some ''subscription_required'')"

definition NotFoundError :: error_class where [error_defs]:
  "NotFoundError = ErrorClass ''NotFoundError'' (Some AppError) (Some 404) (Some ''not_found'')"

definition SessionNotFoundError :: error_class where [error_defs]:
  "SessionNotFoundError = ErrorClass ''SessionNotFoundError'' (Some NotFoundError) None (Some ''session_not_found'')"

definition UserNotFoundError :: error_class where [error_defs]:
  "UserNotFoundError = ErrorClass ''UserNotFoundError'' (Some NotFoundError) None (Some ''user_not_found'')"

definition WorkspaceNotFoundError :: error_class where [error_defs]:
  "WorkspaceNotFoundError = ErrorClass ''WorkspaceNotFoundError'' (Some NotFoundError) None (Some ''workspace_not_found'')"

definition MessageNotFoundError :: error_class where [error_defs]:
  "MessageNotFoundError = ErrorClass ''MessageNotFoundError'' (Some NotFoundError) None (Some ''message_not_found'')"

definition ConflictError :: error_class where [error_defs]:
  "ConflictError = ErrorClass ''ConflictError'' (Some AppError) (Some 409) (Some ''conflict'')"

definition InsufficientCreditsError :: error_class where [error_defs]:
  "InsufficientCreditsError = ErrorClass ''InsufficientCreditsError'' (Some ConflictError) None (Some ''insufficient_credits'')"

definition JobNotTerminalError :: error_class where [error_defs]:
  "JobNotTerminalError = ErrorClass ''JobNotTerminalError'' (Some ConflictError) None (Some ''job_not_terminal'')"

definition PayloadTooLargeError :: error_class where [error_defs]:
  "PayloadTooLargeError = ErrorClass ''PayloadTooLargeError'' (Some AppError) (Some 413) (Some ''payload_too_large'')"

definition ValidationFailedError :: error_class where [error_defs]:
  "ValidationFailedError = ErrorClass ''ValidationFailedError'' (Some AppError) (Some 422) (Some ''validation_error'')"

definition CharactersDisabledError :: error_class where [error_defs]:
  "CharactersDisabledError = ErrorClass ''CharactersDisabledError'' (Some ValidationFailedError) None (Some ''characters_disabled'')"

definition UnknownCharacterError :: error_class where [error_defs]:
  "UnknownCharacterError = ErrorClass ''UnknownCharacterError'' (Some ValidationFailedError) None (Some ''unknown_character'')"

definition VoiceOutputDisabledError :: error_class where [error_defs]:
  "VoiceOutputDisabledError = ErrorClass ''VoiceOutputDisabledError'' (Some ValidationFailedError) None (Some ''voice_output_disabled'')"

definition UnknownVoiceError :: error_class where [error_defs]:
  "UnknownVoiceError = ErrorClass ''UnknownVoiceError'' (Some ValidationFailedError) None (Some ''unknown_voice'')"

definition NothingToSpeakError :: error_class where [error_defs]:
  "NothingToSpeakError = ErrorClass ''NothingToSpeakError'' (Some ValidationFailedError) None (Some ''nothing_to_speak'')"

definition VoiceModeDisabledError :: error_class where [error_defs]:
  "VoiceModeDisabledError = ErrorClass ''VoiceModeDisabledError'' (Some ValidationFailedError) None (Some ''voice_mode_disabled'')"

definition StepNotFoundError :: error_class where [error_defs]:
  "StepNotFoundError = ErrorClass ''StepNotFoundError'' (Some NotFoundError) None (Some ''step_not_found'')"

definition TooManyAttachmentsError :: error_class where [error_defs]:
  "TooManyAttachmentsError = ErrorClass ''TooManyAttachmentsError'' (Some ValidationFailedError) None (Some ''too_many_attachments'')"

definition AttachmentTooLargeError :: error_class where [error_defs]:
  "AttachmentTooLargeError = ErrorClass ''AttachmentTooLargeError'' (Some ValidationFailedError) None (Some ''attachment_too_large'')"

definition AttachmentsTotalTooLargeError :: error_class where [error_defs]:
  "AttachmentsTotalTooLargeError = ErrorClass ''AttachmentsTotalTooLargeError'' (Some ValidationFailedError) None (Some ''attachments_total_too_large'')"

definition UnsupportedMediaTypeError :: error_class where [error_defs]:
  "UnsupportedMediaTypeError = ErrorClass ''UnsupportedMediaTypeError'' (Some ValidationFailedError) None (Some ''unsupported_media_type'')"

definition AttachmentMediaTypeMismatchError :: error_class where [error_defs]:
  "AttachmentMediaTypeMismatchError = ErrorClass ''AttachmentMediaTypeMismatchError'' (Some ValidationFailedError) None (Some ''attachment_media_type_mismatch'')"

definition InvalidBase64Error :: error_class where [error_defs]:
  "InvalidBase64Error = ErrorClass ''InvalidBase64Error'' (Some ValidationFailedError) None (Some ''invalid_base64'')"

definition PdfUnreadableError :: error_class where [error_defs]:
  "PdfUnreadableError = ErrorClass ''PdfUnreadableError'' (Some ValidationFailedError) None (Some ''pdf_unreadable'')"

definition PdfTooManyPagesError :: error_class where [error_defs]:
  "PdfTooManyPagesError = ErrorClass ''PdfTooManyPagesError'' (Some ValidationFailedError) None (Some ''pdf_too_many_pages'')"

definition DocumentTooLargeError :: error_class where [error_defs]:
  "DocumentTooLargeError = ErrorClass ''DocumentTooLargeError'' (Some ValidationFailedError) None (Some ''document_too_large'')"

definition TooManyDocumentsError :: error_class where [error_defs]:
  "TooManyDocumentsError = ErrorClass ''TooManyDocumentsError'' (Some ValidationFailedError) None (Some ''too_many_documents'')"

definition DocumentsTotalTooLargeError :: error_class where [error_defs]:
  "DocumentsTotalTooLargeError = ErrorClass ''DocumentsTotalTooLargeError'' (Some ValidationFailedError) None (Some ''documents_total_too_large'')"

definition DocumentNotFoundError :: error_class where [error_defs]:
  "DocumentNotFoundError = ErrorClass ''DocumentNotFoundError'' (Some NotFoundError) None (Some ''document_not_found'')"

definition ContentPolicyViolationError :: error_class where [error_defs]:
  "ContentPolicyViolationError = ErrorClass ''ContentPolicyViolationError'' (Some ValidationFailedError) None (Some ''content_policy_violation'')"

definition ModerationUnavailableError :: error_class where [error_defs]:
  "ModerationUnavailableError = ErrorClass ''ModerationUnavailableError'' (Some AppError) (Some 503) (Some ''moderation_unavailable'')"

definition ModerationNotConfiguredError :: error_class where [error_defs]:
  "ModerationNotConfiguredError = ErrorClass ''ModerationNotConfiguredError'' (Some AppError) (Some 503) (Some ''moderation_not_configured'')"

definition RateLimitedError :: error_class where [error_defs]:
  "RateLimitedError = ErrorClass ''RateLimitedError'' (Some AppError) (Some 429) (Some ''rate_limited'')"

definition UpstreamError :: error_class where [error_defs]:
  "UpstreamError = ErrorClass ''UpstreamError'' (Some AppError) (Some 502) (Some ''upstream_error'')"

definition UpstreamJobGoneError :: error_class where [error_defs]:
  "UpstreamJobGoneError = ErrorClass ''UpstreamJobGoneError'' (Some UpstreamError) None (Some ''upstream_job_gone'')"

definition GatewayTimeoutError :: error_class where [error_defs]:
  "GatewayTimeoutError = ErrorClass ''GatewayTimeoutError'' (Some AppError) (Some 504) (Some ''gateway_timeout'')"

definition ServiceUnavailableError :: error_class where [error_defs]:
  "ServiceUnavailableError = ErrorClass ''ServiceUnavailableError'' (Some AppError) (Some 503) (Some ''service_unavailable'')"

definition CloudPaymentsWebhookMisconfiguredError :: error_class where [error_defs]:
  "CloudPaymentsWebhookMisconfiguredError = ErrorClass ''CloudPaymentsWebhookMisconfiguredError'' (Some ServiceUnavailableError) (Some 500) (Some ''cloudpayments_webhook_misconfigured'')"

definition CloudPaymentsVerificationUnavailableError :: error_class where [error_defs]:
  "CloudPaymentsVerificationUnavailableError = ErrorClass ''CloudPaymentsVerificationUnavailableError'' (Some AppError) (Some 500) (Some ''cloudpayments_verification_unavailable'')"

definition MediaGenerationNotConfiguredError :: error_class where [error_defs]:
  "MediaGenerationNotConfiguredError = ErrorClass ''MediaGenerationNotConfiguredError'' (Some ServiceUnavailableError) None (Some ''media_generation_not_configured'')"

definition AvatarSpeechDisabledError :: error_class where [error_defs]:
  "AvatarSpeechDisabledError = ErrorClass ''AvatarSpeechDisabledError'' (Some ValidationFailedError) None (Some ''avatar_speech_disabled'')"

definition MakeupDisabledError :: error_class where [error_defs]:
  "MakeupDisabledError = ErrorClass ''MakeupDisabledError'' (Some ValidationFailedError) None (Some ''makeup_disabled'')"

definition VoiceOutputNotConfiguredError :: error_class where [error_defs]:
  "VoiceOutputNotConfiguredError = ErrorClass ''VoiceOutputNotConfiguredError'' (Some ServiceUnavailableError) None (Some ''voice_output_not_configured'')"

definition VoiceModeNotConfiguredError :: error_class where [error_defs]:
  "VoiceModeNotConfiguredError = ErrorClass ''VoiceModeNotConfiguredError'' (Some ServiceUnavailableError) None (Some ''voice_mode_not_configured'')"

definition CloudPaymentsCheckoutNotConfiguredError :: error_class where [error_defs]:
  "CloudPaymentsCheckoutNotConfiguredError = ErrorClass ''CloudPaymentsCheckoutNotConfiguredError'' (Some ServiceUnavailableError) None (Some ''cloudpayments_checkout_not_configured'')"

definition PromptRequiredError :: error_class where [error_defs]:
  "PromptRequiredError = ErrorClass ''PromptRequiredError'' (Some ValidationFailedError) None (Some ''prompt_required'')"

definition PromptTooLongError :: error_class where [error_defs]:
  "PromptTooLongError = ErrorClass ''PromptTooLongError'' (Some ValidationFailedError) None (Some ''prompt_too_long'')"

definition RunAtTimezoneRequiredError :: error_class where [error_defs]:
  "RunAtTimezoneRequiredError = ErrorClass ''RunAtTimezoneRequiredError'' (Some ValidationFailedError) None (Some ''run_at_timezone_required'')"

definition RunAtNotInFutureError :: error_class where [error_defs]:
  "RunAtNotInFutureError = ErrorClass ''RunAtNotInFutureError'' (Some ValidationFailedError) None (Some ''run_at_not_in_future'')"

definition RunAtTooSoonError :: error_class where [error_defs]:
  "RunAtTooSoonError = ErrorClass ''RunAtTooSoonError'' (Some ValidationFailedError) None (Some ''run_at_too_soon'')"

definition RunAtTooFarError :: error_class where [error_defs]:
  "RunAtTooFarError = ErrorClass ''RunAtTooFarError'' (Some ValidationFailedError) None (Some ''run_at_too_far'')"

definition UnsupportedModeError :: error_class where [error_defs]:
  "UnsupportedModeError = ErrorClass ''UnsupportedModeError'' (Some ValidationFailedError) None (Some ''unsupported_mode'')"

definition UnsupportedAssistantModeError :: error_class where [error_defs]:
  "UnsupportedAssistantModeError = ErrorClass ''UnsupportedAssistantModeError'' (Some ValidationFailedError) None (Some ''unsupported_assistant_mode'')"

definition UnsupportedGenerationModeError :: error_class where [error_defs]:
  "UnsupportedGenerationModeError = ErrorClass ''UnsupportedGenerationModeError'' (Some ValidationFailedError) None (Some ''unsupported_generation_mode'')"

definition UnsupportedModelError :: error_class where [error_defs]:
  "UnsupportedModelError = ErrorClass ''UnsupportedModelError'' (Some ValidationFailedError) None (Some ''unsupported_model'')"

definition EmptyPatchError :: error_class where [error_defs]:
  "EmptyPatchError = ErrorClass ''EmptyPatchError'' (Some ValidationFailedError) None (Some ''empty_patch'')"

definition ActiveLimitExceededError :: error_class where [error_defs]:
  "ActiveLimitExceededError = ErrorClass ''ActiveLimitExceededError'' (Some ConflictError) None (Some ''active_limit_exceeded'')"

definition NotPatchableError :: error_class where [error_defs]:
  "NotPatchableError = ErrorClass ''NotPatchableError'' (Some ConflictError) None (Some ''not_patchable'')"

definition NotCancellableError :: error_class where [error_defs]:
  "NotCancellableError = ErrorClass ''NotCancellableError'' (Some ConflictError) None (Some ''not_cancellable'')"

definition ScheduledChatNotFoundError :: error_class where [error_defs]:
  "ScheduledChatNotFoundError = ErrorClass ''ScheduledChatNotFoundError'' (Some NotFoundError) None (Some ''scheduled_chat_not_found'')"

definition app_error_classes :: "error_class list" where
  "app_error_classes = [
     AppError, UnauthorizedError, ForbiddenError, SubscriptionRequiredError, NotFoundError,
     SessionNotFoundError, UserNotFoundError, WorkspaceNotFoundError, MessageNotFoundError,
     ConflictError, InsufficientCreditsError, JobNotTerminalError, PayloadTooLargeError,
     ValidationFailedError, CharactersDisabledError, UnknownCharacterError, VoiceOutputDisabledError,
     UnknownVoiceError, NothingToSpeakError, VoiceModeDisabledError, StepNotFoundError,
     TooManyAttachmentsError, AttachmentTooLargeError, AttachmentsTotalTooLargeError,
     UnsupportedMediaTypeError, AttachmentMediaTypeMismatchError, InvalidBase64Error, PdfUnreadableError,
     PdfTooManyPagesError, DocumentTooLargeError, TooManyDocumentsError, DocumentsTotalTooLargeError,
     DocumentNotFoundError, ContentPolicyViolationError, ModerationUnavailableError,
     ModerationNotConfiguredError, RateLimitedError, UpstreamError, UpstreamJobGoneError,
     GatewayTimeoutError, ServiceUnavailableError, CloudPaymentsWebhookMisconfiguredError,
     CloudPaymentsVerificationUnavailableError, MediaGenerationNotConfiguredError,
     AvatarSpeechDisabledError, MakeupDisabledError, VoiceOutputNotConfiguredError,
     VoiceModeNotConfiguredError, CloudPaymentsCheckoutNotConfiguredError, PromptRequiredError,
     PromptTooLongError, RunAtTimezoneRequiredError, RunAtNotInFutureError, RunAtTooSoonError,
     RunAtTooFarError, UnsupportedModeError, UnsupportedAssistantModeError,
     UnsupportedGenerationModeError, UnsupportedModelError, EmptyPatchError, ActiveLimitExceededError,
     NotPatchableError, NotCancellableError, ScheduledChatNotFoundError]"

section \<open>Exceptions in flight\<close>

datatype db_fault = ForeignKeyViolation | OutOfRange | UniqueViolation | CheckViolation

datatype exn =
    Raised error_class string
  | DbFault db_fault
  | PyFault string

definition status_code :: "error_class \<Rightarrow> nat" where
  "status_code c = (case inherited_status c of Some s \<Rightarrow> s | None \<Rightarrow> 500)"

definition code :: "error_class \<Rightarrow> string" where
  "code c = (case inherited_code c of Some s \<Rightarrow> s | None \<Rightarrow> ''internal_error'')"

text \<open>\<open>AppError.__init__\<close>: an absent or empty message becomes the code.\<close>

definition app_error :: "error_class \<Rightarrow> string option \<Rightarrow> exn" where
  "app_error c message =
     Raised c (case message of Some m \<Rightarrow> if m \<noteq> [] then m else code c | None \<Rightarrow> code c)"

fun raised_as :: "error_class \<Rightarrow> exn \<Rightarrow> bool" where
  "raised_as target (Raised c m) = is_a c target"
| "raised_as target _ = False"

text \<open>The handlers \<open>create_app\<close> registers: (status, code, message) of the error envelope.\<close>

fun error_response :: "exn \<Rightarrow> nat \<times> string \<times> string" where
  "error_response (Raised c m) = (status_code c, code c, m)"
| "error_response (DbFault f) = (500, ''internal_error'', ''internal error'')"
| "error_response (PyFault s) = (500, ''internal_error'', ''internal error'')"

lemma is_a_refl [simp]: "is_a c c"
  by (cases c) simp

lemma is_a_base: "base_class c = Some b \<Longrightarrow> is_a b t \<Longrightarrow> is_a c t"
  by (cases c) auto

end
