(* ===== verification/Error_Codes.thy ===== *)
theory Error_Codes
  imports Errors
begin

text \<open>
  What the class declarations of \<open>errors.py\<close> promise to a client of the API.
\<close>

text \<open>
  Every declared technical error answers with a client or server error status, no two of them
  share the machine-readable code, and no code is empty: a client that branches on \<open>code\<close> can tell
  all of them apart.
\<close>

theorem error_codes_distinguish:
  "distinct (map code app_error_classes) \<and>
   list_all (\<lambda>c. 400 \<le> status_code c \<and> status_code c \<le> 599 \<and> code c \<noteq> [] \<and> is_a c AppError) app_error_classes"
  by code_simp

end
