(* ===== verification/PyJson.thy ===== *)
theory PyJson
  imports PyText
begin

text \<open>
  The values \<open>json.loads\<close> returns, with the Python operations the parsers apply to them: \<open>dict.get\<close>,
  truth value, \<open>str\<close> and \<open>repr\<close>; and the readers \<open>_as_dict\<close>, \<open>_first_str\<close>, \<open>_first_bool\<close> that the Adapty
  parser and the CloudPayments parser each declare with the same body.

  A number that is not an integer is kept as what the sources read of it: its \<open>repr\<close> and the
  value of \<open>int(x)\<close> (\<open>None\<close> for NaN and the infinities, where \<open>int\<close> raises). An object lists its keys
  once each. \<open>datetime.fromisoformat\<close> is an argument of the functions that use it: it returns an
  instant in microseconds, \<open>Aware\<close> when the text has an offset and \<open>Naive\<close> when it has not.
\<close>

datatype json =
    JNull
  | JBool bool
  | JInt int
  | JFloat string "int option"
  | JStr string
  | JArr "json list"
  | JObj "(string \<times> json) list"

type_synonym json_obj = "(string \<times> json) list"
type_synonym instant = int

datatype pydt = Naive instant | Aware instant

fun as_utc :: "pydt \<Rightarrow> instant" where
  "as_utc (Naive t) = t"
| "as_utc (Aware t) = t"

type_synonym iso_reader = "string \<Rightarrow> pydt option"
type_synonym json_reader = "string \<Rightarrow> json option"

abbreviation microseconds_per_second :: int where "microseconds_per_second \<equiv> 1000000"
abbreviation seconds :: "int \<Rightarrow> int" where "seconds n \<equiv> n * 1000000"
abbreviation hours :: "int \<Rightarrow> int" where "hours n \<equiv> n * 3600000000"
abbreviation days :: "int \<Rightarrow> int" where "days n \<equiv> n * 86400000000"

text \<open>\<open>d.get(k)\<close>: \<open>None\<close> is \<open>JNull\<close>, as a stored \<open>null\<close> is.\<close>

definition jget :: "string \<Rightarrow> json_obj \<Rightarrow> json" where
  "jget k d = (case map_of d k of None \<Rightarrow> JNull | Some v \<Rightarrow> v)"

lemma jget_Nil [simp]: "jget k [] = JNull"
  by (simp add: jget_def)

lemma jget_Cons [simp]: "jget k ((k', v) # d) = (if k = k' then v else jget k d)"
  by (simp add: jget_def)

fun truthy :: "json \<Rightarrow> bool" where
  "truthy JNull = False"
| "truthy (JBool b) = b"
| "truthy (JInt i) = (i \<noteq> 0)"
| "truthy (JFloat r t) = (r \<noteq> ''0.0'' \<and> r \<noteq> ''-0.0'')"
| "truthy (JStr s) = (s \<noteq> [])"
| "truthy (JArr xs) = (xs \<noteq> [])"
| "truthy (JObj d) = (d \<noteq> [])"

definition repr_char :: "char \<Rightarrow> char \<Rightarrow> string" where
  "repr_char q c = (let n = of_char c :: nat in
     if c = q \<or> n = 92 then [CHR 0x5C, c]
     else if n = 9 then [CHR 0x5C, CHR ''t'']
     else if n = 10 then [CHR 0x5C, CHR ''n'']
     else if n = 13 then [CHR 0x5C, CHR ''r'']
     else if (32 \<le> n \<and> n \<le> 126) \<or> (161 \<le> n \<and> n \<noteq> 173) then [c]
     else CHR 0x5C # CHR ''x'' # fixed_digits 16 2 n)"

definition repr_str :: "string \<Rightarrow> string" where
  "repr_str s = (let q = (if CHR 0x27 \<in> set s \<and> CHR 0x22 \<notin> set s then CHR 0x22 else CHR 0x27)
                 in q # concat (map (repr_char q) s) @ [q])"

fun comma_sep :: "string list \<Rightarrow> string" where
  "comma_sep [] = []"
| "comma_sep [x] = x"
| "comma_sep (x # y # ys) = x @ '', '' @ comma_sep (y # ys)"

fun py_repr :: "json \<Rightarrow> string" where
  "py_repr JNull = ''None''"
| "py_repr (JBool b) = (if b then ''True'' else ''False'')"
| "py_repr (JInt i) = int_str i"
| "py_repr (JFloat r t) = r"
| "py_repr (JStr s) = repr_str s"
| "py_repr (JArr xs) = ''['' @ comma_sep (map py_repr xs) @ '']''"
| "py_repr (JObj d) = ''{'' @ comma_sep (map (\<lambda>(k, v). repr_str k @ '': '' @ py_repr v) d) @ ''}''"

fun py_str :: "json \<Rightarrow> string" where
  "py_str (JStr s) = s"
| "py_str v = py_repr v"

text \<open>\<open>str(value or "")\<close>\<close>

definition str_or_empty :: "json \<Rightarrow> string" where
  "str_or_empty v = (if truthy v then py_str v else [])"

fun as_dict :: "json \<Rightarrow> json_obj" where
  "as_dict (JObj d) = d"
| "as_dict _ = []"

fun str_candidate :: "json \<Rightarrow> string option" where
  "str_candidate (JStr s) = (if s \<noteq> [] then Some s else None)"
| "str_candidate (JInt i) = Some (int_str i)"
| "str_candidate _ = None"

definition first_str :: "json list \<Rightarrow> string option" where
  "first_str candidates = first_some str_candidate candidates"

fun bool_candidate :: "json \<Rightarrow> bool option" where
  "bool_candidate (JBool b) = Some b"
| "bool_candidate _ = None"

definition first_bool :: "json list \<Rightarrow> bool option" where
  "first_bool candidates = first_some bool_candidate candidates"

lemma nat_str_nonempty [simp]: "nat_str n \<noteq> []"
  by (subst nat_str.simps) simp

lemma int_str_nonempty [simp]: "int_str i \<noteq> []"
  by (simp add: int_str_def)

lemma int_str_nonempty' [simp]: "[] \<noteq> int_str i"
  using int_str_nonempty by metis

lemma first_str_nonempty: "first_str cs = Some s \<Longrightarrow> s \<noteq> []"
  unfolding first_str_def
  by (erule first_some_SomeE) (auto elim!: str_candidate.elims split: if_splits)

lemma first_str_Nil [simp]: "first_str [] = None"
  by (simp add: first_str_def)

lemma first_str_Cons [simp]:
  "first_str (c # cs) = (case str_candidate c of Some s \<Rightarrow> Some s | None \<Rightarrow> first_str cs)"
  by (simp add: first_str_def split: option.split)

lemma first_bool_simps [simp]:
  "first_bool [] = None"
  "first_bool (c # cs) = (case bool_candidate c of Some s \<Rightarrow> Some s | None \<Rightarrow> first_bool cs)"
  by (simp_all add: first_bool_def split: option.split)

end
