(* ===== verification/Redaction.thy ===== *)
theory Redaction
  imports PyJson
begin

text \<open>
  \<open>observability/redaction.py\<close>: what the audit trail and the logs replace before they keep a value.
  The two functions are the source's mutual recursion; \<open>clean\<close> says that every sensitive key of a
  value already carries the placeholder.
\<close>

definition REDACTED :: json where
  "REDACTED = JStr ''***REDACTED***''"

definition deny_substrings :: "string list" where
  "deny_substrings = [''key'', ''token'', ''secret'', ''password'', ''authorization'', ''credential'']"

definition deny_exact :: "string list" where
  "deny_exact = [''apikey'', ''transaction'', ''jws'', ''receipt'', ''dek'', ''nonce'', ''encrypted_key'',
     ''x-admin-token'', ''x_admin_token'']"

text \<open>\<open>sub in s\<close> and \<open>s.endswith(suffix)\<close>\<close>

fun is_substring :: "string \<Rightarrow> string \<Rightarrow> bool" where
  "is_substring p [] = (p = [])"
| "is_substring p (c # cs) = (take (length p) (c # cs) = p \<or> is_substring p cs)"

definition ends_with :: "string \<Rightarrow> string \<Rightarrow> bool" where
  "ends_with s suffix = (take (length suffix) (rev s) = rev suffix)"

definition is_sensitive_key :: "string \<Rightarrow> bool" where
  "is_sensitive_key key = (let lowered = py_lower key in
     if ends_with lowered ''status'' then False
     else if lowered \<in> set deny_exact then True
     else list_ex (\<lambda>sub. is_substring sub lowered) deny_substrings)"

lemma size_obj_value: "(k, v) \<in> set d \<Longrightarrow> size v < Suc (size_list (size_prod (\<lambda>_. 0) size) d)"
  by (induction d) auto

lemma size_obj_in: "JObj d \<in> set xs \<Longrightarrow> (k, v) \<in> set d \<Longrightarrow> size v < Suc (size_list size xs)"
  by (induction xs) (auto dest: size_obj_value)

lemma size_arr_item: "x \<in> set xs \<Longrightarrow> size x < Suc (size_list size xs)"
  by (induction xs) auto

function (sequential) redact :: "json \<Rightarrow> json" and redact_attachments :: "json \<Rightarrow> json" where
  "redact (JObj d) = JObj (map (\<lambda>(k, v). (k,
     if is_sensitive_key k then REDACTED
     else if py_lower k = ''attachments'' then redact_attachments v
     else redact v)) d)"
| "redact (JArr xs) = JArr (map redact xs)"
| "redact v = v"
| "redact_attachments (JArr xs) = JArr (map (\<lambda>i. case i of
       JObj d \<Rightarrow> JObj (map (\<lambda>(k, v). (k, if k = ''data'' then REDACTED else redact v)) d)
     | other \<Rightarrow> redact other) xs)"
| "redact_attachments v = redact v"
  by pat_completeness auto

termination
  by (relation "measure (case_sum (\<lambda>v. 2 * size v) (\<lambda>v. 2 * size v + 1))")
    (auto dest: size_obj_value size_obj_in size_arr_item)

function (sequential) clean :: "json \<Rightarrow> bool" and clean_attachments :: "json \<Rightarrow> bool" where
  "clean (JObj d) = list_all (\<lambda>(k, v).
     if is_sensitive_key k then v = REDACTED
     else if py_lower k = ''attachments'' then clean_attachments v
     else clean v) d"
| "clean (JArr xs) = list_all clean xs"
| "clean v = True"
| "clean_attachments (JArr xs) = list_all (\<lambda>i. case i of
       JObj d \<Rightarrow> list_all (\<lambda>(k, v). if k = ''data'' then v = REDACTED else clean v) d
     | other \<Rightarrow> clean other) xs"
| "clean_attachments v = clean v"
  by pat_completeness auto

termination
  by (relation "measure (case_sum (\<lambda>v. 2 * size v) (\<lambda>v. 2 * size v + 1))")
    (auto dest: size_obj_value size_obj_in size_arr_item)

lemma REDACTED_clean [simp]: "clean REDACTED" "redact REDACTED = REDACTED"
  by (simp_all add: REDACTED_def)

lemma clean_redact:
  "clean (redact v)" "clean_attachments (redact_attachments v)"
proof (induction v and v rule: redact_redact_attachments.induct)
  case (1 d)
  then show ?case by (force simp: list_all_iff)
next
  case (4 xs)
  show ?case
    unfolding redact_attachments.simps clean_attachments.simps list_all_iff set_map ball_simps
    using 4 by (auto simp: list_all_iff split: json.splits)
qed (simp_all add: list_all_iff)

lemma redact_clean_id:
  "clean v \<Longrightarrow> redact v = v" "clean_attachments v \<Longrightarrow> redact_attachments v = v"
proof (induction v and v rule: redact_redact_attachments.induct)
  case (1 d)
  then show ?case by (fastforce simp: list_all_iff intro: map_idI)
next
  case (4 xs)
  then show ?case by (fastforce simp: list_all_iff intro!: map_idI split: json.splits)
qed (auto simp: list_all_iff intro!: map_idI)

end
