(* ===== verification/Store.thy ===== *)
theory Store
  imports Errors Redaction
begin

text \<open>
  The part of the database the billing operations share (\<open>models/tables.py\<close>): one field per table,
  a keyed table as a map from its primary key, an append-only table as a list in insertion order. A
  value of type \<open>db\<close> is what the open transaction sees. \<open>sql_now\<close> is PostgreSQL's \<open>now()\<close>, the
  time the transaction began, and \<open>request_id\<close> the request identifier of the logging context.
  Columns nothing modelled reads (\<open>users.display_name\<close>, the \<open>updated_at\<close> of wallets) are left out.

  Database-generated identifiers are numbers drawn from a counter: the sources only copy them and
  compare them, and \<open>gen_random_uuid()\<close> is used as a source of fresh values. Values bound to a
  \<open>TEXT\<close> or \<open>JSONB\<close> column contain no NUL character.
\<close>

section \<open>Rows\<close>

datatype SubscriptionStatus = Sub_active | Sub_expired | Sub_none

datatype tx_type = Debit | Credit

datatype ByokState = Byok_missing | Byok_disabled | Byok_invalid | Byok_valid | Byok_validating | Byok_offline | Byok_expired

text \<open>A value of an audit payload: JSON, or an instant that the source renders with \<open>isoformat\<close>, or
  the text of a database-generated identifier.\<close>

datatype audit_value = Val json | Instant instant | RowId nat

type_synonym payload = "(string \<times> audit_value) list"

record subscription_row =
  sub_status :: SubscriptionStatus
  sub_plan :: "string option"
  sub_expires_at :: "instant option"
  sub_will_renew :: "bool option"
  sub_updated_at :: instant

record ledger_tx =
  tx_id :: nat
  tx_user :: uuid
  tx_type :: tx_type
  tx_amount :: int
  tx_meta :: payload
  tx_key :: string
  tx_created_at :: instant

record audit_row =
  au_user :: "uuid option"
  au_session :: "uuid option"
  au_event :: string
  au_payload :: payload

record byok_row =
  bk_encrypted_key :: string
  bk_encrypted_dek :: string
  bk_nonce :: string
  bk_key_status :: ByokState
  bk_enabled :: bool
  bk_provider :: "string option"
  bk_updated_at :: instant

record adapty_event_row =
  ae_user :: uuid
  ae_type :: string
  ae_payload :: json

record cp_event_row =
  ce_user :: uuid
  ce_product :: string
  ce_kind :: string
  ce_payload :: payload

record db =
  users :: "uuid \<rightharpoonup> bool"
  subscriptions :: "uuid \<rightharpoonup> subscription_row"
  wallets :: "uuid \<rightharpoonup> int"
  ledger :: "ledger_tx list"
  byok_keys :: "uuid \<rightharpoonup> byok_row"
  chat_sessions :: "uuid \<rightharpoonup> uuid"
  auth_devices :: "(string \<times> uuid) list"
  legacy_user_ids :: "uuid \<rightharpoonup> uuid"
  adapty_events :: "string \<rightharpoonup> adapty_event_row"
  cp_events :: "string \<rightharpoonup> cp_event_row"
  audit_log :: "audit_row list"
  next_id :: nat
  sql_now :: instant
  request_id :: json

type_synonym 'a tx = "db \<Rightarrow> (exn, 'a, db) outcome"

definition empty_db :: db where
  "empty_db = \<lparr> users = Map.empty, subscriptions = Map.empty, wallets = Map.empty, ledger = [],
     byok_keys = Map.empty, chat_sessions = Map.empty, auth_devices = [], legacy_user_ids = Map.empty,
     adapty_events = Map.empty, cp_events = Map.empty, audit_log = [], next_id = 0, sql_now = 0, request_id = JNull \<rparr>"

text \<open>A Python \<open>str | None\<close> in a payload.\<close>

definition opt_str :: "string option \<Rightarrow> audit_value" where
  "opt_str v = Val (case v of None \<Rightarrow> JNull | Some s \<Rightarrow> JStr s)"

definition opt_bool :: "bool option \<Rightarrow> audit_value" where
  "opt_bool v = Val (case v of None \<Rightarrow> JNull | Some b \<Rightarrow> JBool b)"

definition opt_instant :: "instant option \<Rightarrow> audit_value" where
  "opt_instant v = (case v of None \<Rightarrow> Val JNull | Some t \<Rightarrow> Instant t)"

text \<open>\<open>payload.get(k)\<close>\<close>

definition pget :: "string \<Rightarrow> payload \<Rightarrow> audit_value" where
  "pget k p = (case map_of p k of None \<Rightarrow> Val JNull | Some v \<Rightarrow> v)"

section \<open>The audit trail\<close>

fun redact_value :: "audit_value \<Rightarrow> audit_value" where
  "redact_value (Val j) = Val (redact j)"
| "redact_value v = v"

text \<open>\<open>assert_no_secrets\<close> on a payload: the top level of \<open>redact\<close>.\<close>

fun redact_attachments_value :: "audit_value \<Rightarrow> audit_value" where
  "redact_attachments_value (Val j) = Val (redact_attachments j)"
| "redact_attachments_value v = v"

definition assert_no_secrets :: "payload \<Rightarrow> payload" where
  "assert_no_secrets p = map (\<lambda>(k, v). (k,
     if is_sensitive_key k then Val REDACTED
     else if py_lower k = ''attachments'' then redact_attachments_value v
     else redact_value v)) p"

text \<open>\<open>AuditService.record\<close>: append one redacted row. The two foreign keys are those of the table.\<close>

definition audit_record :: "uuid option \<Rightarrow> uuid option \<Rightarrow> string \<Rightarrow> payload \<Rightarrow> unit tx" where
  "audit_record user session event p s =
     (if (case user of None \<Rightarrow> False | Some u \<Rightarrow> users s u = None)
         \<or> (case session of None \<Rightarrow> False | Some i \<Rightarrow> chat_sessions s i = None)
      then (Inl (DbFault ForeignKeyViolation), s)
      else (Inr (), s\<lparr>audit_log := audit_log s @
        [\<lparr>au_user = user, au_session = session, au_event = event,
          au_payload = assert_no_secrets (p @ [(''requestId'', Val (request_id s))])\<rparr>]\<rparr>))"

lemma audit_record_ok:
  "users s u \<noteq> None \<Longrightarrow>
   \<exists>row. audit_record (Some u) None event p s = (Inr (), s\<lparr>audit_log := audit_log s @ [row]\<rparr>)"
  by (auto simp: audit_record_def)

lemma audit_record_returns:
  assumes "users s u \<noteq> None"
  shows "\<exists>t. audit_record (Some u) None event p s = (Inr (), t) \<and> users t = users s"
  using assms by (simp add: audit_record_def)

lemma audit_record_cases:
  obtains (fault) "audit_record u i e p s = (Inl (DbFault ForeignKeyViolation), s)"
  | (stored) row where "audit_record u i e p s = (Inr (), s\<lparr>audit_log := audit_log s @ [row]\<rparr>)"
proof (cases "(case u of None \<Rightarrow> False | Some u \<Rightarrow> users s u = None)
         \<or> (case i of None \<Rightarrow> False | Some i \<Rightarrow> chat_sessions s i = None)")
  case True
  then show ?thesis by (intro fault) (simp only: audit_record_def if_True)
next
  case False
  then show ?thesis by (intro stored) (simp only: audit_record_def if_False)
qed

section \<open>Integers at their column width\<close>

definition bigint_ok :: "int \<Rightarrow> bool" where
  "bigint_ok i = (- (2 ^ 63) \<le> i \<and> i < 2 ^ 63)"

end
