(* ===== verification/Single_Grant.thy ===== *)
theory Single_Grant
  imports Store
begin

text \<open>
  \<open>billing_common/single_grant.py\<close>: one store payment is credited once, whatever channel reports it.
  \<open>grant_once\<close> takes the wallet as an argument, as the source does; \<open>credit_ledger\<close> is the contract it
  needs of it and holds the lemmas about \<open>grant_once\<close>. \<open>Wallet\<close> interprets it.
\<close>

definition grant_once ::
  "(uuid \<Rightarrow> string \<Rightarrow> 's \<Rightarrow> bool) \<Rightarrow>
   (uuid \<Rightarrow> int \<Rightarrow> string \<Rightarrow> payload \<Rightarrow> string \<Rightarrow> 's \<Rightarrow> (exn, 'r, 's) outcome) \<Rightarrow> ('r \<Rightarrow> bool) \<Rightarrow>
   uuid \<Rightarrow> int \<Rightarrow> string \<Rightarrow> string list \<Rightarrow> payload \<Rightarrow> string \<Rightarrow> 's \<Rightarrow> (exn, 'r option, 's) outcome" where
  "grant_once has_key grant replayed u amount key check_keys meta reason s =
     (if list_ex (\<lambda>k. has_key u k s) check_keys then (Inr None, s)
      else case grant u amount key meta reason s of
          (Inl e, t) \<Rightarrow> if raised_as ConflictError e \<and> has_key u key t then (Inr None, t) else (Inl e, t)
        | (Inr r, t) \<Rightarrow> if replayed r then (Inr None, t) else (Inr (Some r), t))"

text \<open>The predicate of ADR-106 C1. Stored instants are aware, so \<open>_aware\<close> is \<open>as_utc\<close> on the event's.\<close>

definition is_stale :: "subscription_row option \<Rightarrow> instant option \<Rightarrow> bool" where
  "is_stale row incoming =
     (case row of
        None \<Rightarrow> False
      | Some r \<Rightarrow> sub_status r = Sub_active \<and>
          (case (sub_expires_at r, incoming) of
             (Some stored, Some new) \<Rightarrow> new < stored
           | _ \<Rightarrow> False))"

definition signal_unmapped_product :: "uuid \<Rightarrow> string \<Rightarrow> string option \<Rightarrow> int \<Rightarrow> string \<Rightarrow> unit tx" where
  "signal_unmapped_product u channel product_id amount transaction_id =
     audit_record (Some u) None ''subscription_product_unmapped''
       [(''channel'', Val (JStr channel)), (''productId'', opt_str product_id),
        (''amount'', Val (JInt amount)), (''transactionId'', Val (JStr transaction_id))]"

section \<open>The contract of the wallet\<close>

locale credit_ledger =
  fixes has_key :: "uuid \<Rightarrow> string \<Rightarrow> 's \<Rightarrow> bool"
    and grant :: "uuid \<Rightarrow> int \<Rightarrow> string \<Rightarrow> payload \<Rightarrow> string \<Rightarrow> 's \<Rightarrow> (exn, 'r, 's) outcome"
    and replayed :: "'r \<Rightarrow> bool"
    and balance :: "uuid \<Rightarrow> 's \<Rightarrow> int"
    and ok :: "'s \<Rightarrow> bool"
  assumes grant_ok: "ok s \<Longrightarrow> grant u amount key meta reason s = (Inr r, t) \<Longrightarrow> ok t"
    and grant_replayed: "ok s \<Longrightarrow> grant u amount key meta reason s = (Inr r, t) \<Longrightarrow> replayed r = has_key u key s"
    and grant_replay_same: "ok s \<Longrightarrow> grant u amount key meta reason s = (Inr r, t) \<Longrightarrow> has_key u key s \<Longrightarrow> t = s"
    and grant_keys: "ok s \<Longrightarrow> grant u amount key meta reason s = (Inr r, t) \<Longrightarrow>
       has_key v k t \<longleftrightarrow> has_key v k s \<or> (v = u \<and> k = key)"
    and grant_balance: "ok s \<Longrightarrow> grant u amount key meta reason s = (Inr r, t) \<Longrightarrow> \<not> has_key u key s \<Longrightarrow>
       balance v t = balance v s + (if v = u then amount else 0)"
    and grant_refused: "ok s \<Longrightarrow> grant u amount key meta reason s = (Inl e, t) \<Longrightarrow> raised_as ConflictError e \<Longrightarrow> t = s"
begin

lemma once_credited:
  assumes "ok s" and "grant_once has_key grant replayed u amount key check_keys meta reason s = (Inr (Some r), t)"
  shows "ok t" and "\<not> list_ex (\<lambda>k. has_key u k s) check_keys" and "\<not> has_key u key s"
    and "has_key v k t \<longleftrightarrow> has_key v k s \<or> (v = u \<and> k = key)"
    and "balance v t = balance v s + (if v = u then amount else 0)"
    and "grant u amount key meta reason s = (Inr r, t)"
proof -
  have free: "\<not> list_ex (\<lambda>k. has_key u k s) check_keys" and run: "grant u amount key meta reason s = (Inr r, t)"
    and new: "\<not> replayed r"
    using assms(2) unfolding grant_once_def by (auto split: if_splits prod.splits sum.splits)
  show "\<not> list_ex (\<lambda>k. has_key u k s) check_keys" by (rule free)
  show "grant u amount key meta reason s = (Inr r, t)" by (rule run)
  show "ok t" by (rule grant_ok[OF assms(1) run])
  show fresh: "\<not> has_key u key s" using new grant_replayed[OF assms(1) run] by simp
  show "has_key v k t \<longleftrightarrow> has_key v k s \<or> (v = u \<and> k = key)" by (rule grant_keys[OF assms(1) run])
  show "balance v t = balance v s + (if v = u then amount else 0)" by (rule grant_balance[OF assms(1) run fresh])
qed

lemma once_already:
  assumes "ok s" and "grant_once has_key grant replayed u amount key check_keys meta reason s = (Inr None, t)"
  shows "t = s" and "list_ex (\<lambda>k. has_key u k s) (key # check_keys)"
proof -
  show "t = s"
    using assms unfolding grant_once_def
    by (auto split: if_splits prod.splits sum.splits dest: grant_refused grant_replay_same simp: grant_replayed)
  then show "list_ex (\<lambda>k. has_key u k s) (key # check_keys)"
    using assms unfolding grant_once_def
    by (auto split: if_splits prod.splits sum.splits simp: grant_replayed)
qed

lemma once_ok: "ok s \<Longrightarrow> grant_once has_key grant replayed u amount key check_keys meta reason s = (Inr x, t) \<Longrightarrow> ok t"
  by (cases x) (auto dest: once_already(1) once_credited(1))

lemma once_keeps_key:
  assumes "ok s" and "grant_once has_key grant replayed u amount key check_keys meta reason s = (Inr x, t)" and "has_key v k s"
  shows "has_key v k t"
  using assms by (cases x) (auto dest: once_already(1) once_credited(4))

lemma once_records:
  assumes "ok s" and "grant_once has_key grant replayed u amount key check_keys meta reason s = (Inr x, t)"
  shows "list_ex (\<lambda>k. has_key u k t) (key # check_keys)"
proof (cases x)
  case None
  with assms(2) have run: "grant_once has_key grant replayed u amount key check_keys meta reason s = (Inr None, t)" by simp
  show ?thesis
    unfolding once_already(1)[OF assms(1) run] by (rule once_already(2)[OF assms(1) run])
next
  case (Some r)
  with assms once_credited(4)[OF assms(1)] show ?thesis by auto
qed

text \<open>When the key is among the checked ones, as in every channel, the call is decided by them alone.\<close>

lemma once_effect:
  assumes "ok s" and "grant_once has_key grant replayed u amount key check_keys meta reason s = (Inr x, t)"
    and "key \<in> set check_keys"
  shows "ok t" and "(x = None) = list_ex (\<lambda>k. has_key u k s) check_keys"
    and "balance v t = balance v s + (if v = u \<and> x \<noteq> None then amount else 0)"
    and "has_key v k t \<longleftrightarrow> has_key v k s \<or> (x \<noteq> None \<and> v = u \<and> k = key)"
proof -
  show "ok t" by (rule once_ok[OF assms(1,2)])
  have none: "t = s \<and> list_ex (\<lambda>k. has_key u k s) check_keys" if "x = None"
    using once_already[OF assms(1), of u amount key check_keys meta reason t] assms(2,3) that by (auto simp: list_ex_iff)
  have some: "\<not> list_ex (\<lambda>k. has_key u k s) check_keys" "balance v t = balance v s + (if v = u then amount else 0)"
    "has_key v k t \<longleftrightarrow> has_key v k s \<or> (v = u \<and> k = key)" if "x = Some r" for r v k
    using once_credited[OF assms(1), of u amount key check_keys meta reason r t] assms(2) that by blast+
  show "(x = None) = list_ex (\<lambda>k. has_key u k s) check_keys"
    using none some(1) by (cases x) auto
  show "balance v t = balance v s + (if v = u \<and> x \<noteq> None then amount else 0)"
    using none some(2) by (cases x) auto
  show "has_key v k t \<longleftrightarrow> has_key v k s \<or> (x \<noteq> None \<and> v = u \<and> k = key)"
    using none some(3) by (cases x) auto
qed

text \<open>Any later report of the same payment that checks the key finds it credited.\<close>

lemma once_then_already:
  assumes "list_ex (\<lambda>k. has_key u k s) check_keys"
  shows "grant_once has_key grant replayed u amount key check_keys meta reason s = (Inr None, s)"
  using assms by (simp add: grant_once_def)

end

end
