(* ===== verification/Wallet.thy ===== *)
theory Wallet
  imports Single_Grant
begin

text \<open>
  \<open>wallet/service.py\<close>: the wallet and its ledger. One definition per SQL statement, then one per
  method of \<open>WalletService\<close>, with every early return and raise as a branch. An operation that raises
  leaves the statements it has already run in the open transaction; \<open>session_scope\<close> is what removes
  them. Afterwards: the ledger invariant, the abstract per-user account the two operations refine,
  and the interface the billing channels rely on (\<open>credit_ledger\<close>), interpreted here.
\<close>

section \<open>Statements\<close>

definition find_tx :: "uuid \<Rightarrow> string \<Rightarrow> ledger_tx list \<Rightarrow> ledger_tx option" where
  "find_tx u key txs = find (\<lambda>t. tx_user t = u \<and> tx_key t = key) txs"

definition ensure_wallet :: "uuid \<Rightarrow> unit tx" where
  "ensure_wallet u s =
     (if wallets s u \<noteq> None then (Inr (), s)
      else if users s u = None then (Inl (DbFault ForeignKeyViolation), s)
      else (Inr (), s\<lparr>wallets := (wallets s)(u \<mapsto> 0)\<rparr>))"

definition existing_tx :: "uuid \<Rightarrow> string \<Rightarrow> db \<Rightarrow> ledger_tx option" where
  "existing_tx u key s = find_tx u key (ledger s)"

definition current_balance :: "uuid \<Rightarrow> db \<Rightarrow> int" where
  "current_balance u s = (case wallets s u of Some b \<Rightarrow> b | None \<Rightarrow> 0)"

definition has_idempotency_key :: "uuid \<Rightarrow> string \<Rightarrow> db \<Rightarrow> bool" where
  "has_idempotency_key u key s = (existing_tx u key s \<noteq> None)"

text \<open>\<open>INSERT INTO ledger_transactions ... ON CONFLICT (user_id, idempotency_key) DO NOTHING RETURNING id\<close>\<close>

definition insert_ledger :: "uuid \<Rightarrow> tx_type \<Rightarrow> int \<Rightarrow> payload \<Rightarrow> string \<Rightarrow> (nat option) tx" where
  "insert_ledger u ty amount meta key s =
     (if \<not> bigint_ok amount then (Inl (DbFault OutOfRange), s)
      else if amount \<le> 0 then (Inl (DbFault CheckViolation), s)
      else if existing_tx u key s \<noteq> None then (Inr None, s)
      else if users s u = None then (Inl (DbFault ForeignKeyViolation), s)
      else (Inr (Some (next_id s)),
            s\<lparr>ledger := ledger s @ [\<lparr>tx_id = next_id s, tx_user = u, tx_type = ty, tx_amount = amount,
                tx_meta = meta, tx_key = key, tx_created_at = sql_now s\<rparr>],
              next_id := next_id s + 1\<rparr>))"

text \<open>\<open>UPDATE wallets SET balance = balance - :amount WHERE user_id = :uid AND balance >= :amount RETURNING balance\<close>\<close>

definition debit_wallet :: "uuid \<Rightarrow> int \<Rightarrow> (int option) tx" where
  "debit_wallet u amount s =
     (case wallets s u of
        None \<Rightarrow> (Inr None, s)
      | Some b \<Rightarrow> if amount \<le> b then (Inr (Some (b - amount)), s\<lparr>wallets := (wallets s)(u \<mapsto> b - amount)\<rparr>)
                  else (Inr None, s))"

text \<open>\<open>UPDATE wallets SET balance = balance + :amount WHERE user_id = :uid RETURNING balance\<close>\<close>

definition credit_wallet :: "uuid \<Rightarrow> int \<Rightarrow> (int option) tx" where
  "credit_wallet u amount s =
     (case wallets s u of
        None \<Rightarrow> (Inr None, s)
      | Some b \<Rightarrow> if bigint_ok (b + amount) then (Inr (Some (b + amount)), s\<lparr>wallets := (wallets s)(u \<mapsto> b + amount)\<rparr>)
                  else (Inl (DbFault OutOfRange), s))"

definition validate_session :: "uuid \<Rightarrow> uuid \<Rightarrow> unit tx" where
  "validate_session u session s =
     (case chat_sessions s session of
        None \<Rightarrow> (Inl (Raised SessionNotFoundError ''session not found''), s)
      | Some owner \<Rightarrow> if owner \<noteq> u then (Inl (Raised ForbiddenError ''session does not belong to user''), s)
                      else (Inr (), s))"

section \<open>Operations\<close>

record ledger_result =
  new_balance :: int
  ledger_tx_id :: nat
  idempotent_replay :: bool

text \<open>The branch both operations share when the key is taken.\<close>

definition replay :: "uuid \<Rightarrow> tx_type \<Rightarrow> int \<Rightarrow> string \<Rightarrow> ledger_result tx" where
  "replay u ty amount key s =
     (case existing_tx u key s of
        None \<Rightarrow> (Inl (Raised ConflictError ''idempotency conflict''), s)
      | Some t \<Rightarrow>
          if tx_type t \<noteq> ty \<or> tx_amount t \<noteq> amount
          then (Inl (Raised ConflictError ''idempotency key reused with different payload''), s)
          else (Inr \<lparr>new_balance = current_balance u s, ledger_tx_id = tx_id t, idempotent_replay = True\<rparr>, s))"

definition consume_checked :: "uuid \<Rightarrow> int \<Rightarrow> string \<Rightarrow> payload \<Rightarrow> uuid option \<Rightarrow> ledger_result tx" where
  "consume_checked u amount key meta session s =
     and_then (ensure_wallet u s) (\<lambda>_ s.
     and_then (insert_ledger u Debit amount meta key s) (\<lambda>inserted s.
       case inserted of
         None \<Rightarrow> replay u Debit amount key s
       | Some i \<Rightarrow>
           and_then (debit_wallet u amount s) (\<lambda>updated s.
             case updated of
               None \<Rightarrow> (Inl (Raised InsufficientCreditsError ''insufficient_credits''), s)
             | Some b \<Rightarrow>
                 and_then (audit_record (Some u) session ''billing_debit''
                   [(''ledgerTxId'', RowId i), (''amount'', Val (JInt amount)), (''newBalance'', Val (JInt b)),
                    (''sessionId'', opt_str (map_option uuid_str session)), (''model'', pget ''model'' meta)] s) (\<lambda>_ s.
                 (Inr \<lparr>new_balance = b, ledger_tx_id = i, idempotent_replay = False\<rparr>, s)))))"

definition wallet_consume :: "uuid \<Rightarrow> int \<Rightarrow> string \<Rightarrow> payload \<Rightarrow> uuid option \<Rightarrow> ledger_result tx" where
  "wallet_consume u amount key meta session s =
     (if amount \<le> 0 then (Inl (Raised ConflictError ''amount must be positive''), s)
      else case session of
             None \<Rightarrow> consume_checked u amount key meta session s
           | Some i \<Rightarrow> and_then (validate_session u i s) (\<lambda>_ s. consume_checked u amount key meta session s))"

definition wallet_grant :: "uuid \<Rightarrow> int \<Rightarrow> string \<Rightarrow> payload \<Rightarrow> string \<Rightarrow> ledger_result tx" where
  "wallet_grant u amount key meta reason s =
     (if amount \<le> 0 then (Inl (Raised ConflictError ''amount must be positive''), s)
      else and_then (ensure_wallet u s) (\<lambda>_ s.
           and_then (insert_ledger u Credit amount meta key s) (\<lambda>inserted s.
             case inserted of
               None \<Rightarrow> replay u Credit amount key s
             | Some i \<Rightarrow>
                 and_then (credit_wallet u amount s) (\<lambda>updated s.
                 let b = (case updated of Some b \<Rightarrow> b | None \<Rightarrow> amount) in
                 and_then (audit_record (Some u) None ''billing_credit''
                   [(''ledgerTxId'', RowId i), (''amount'', Val (JInt amount)), (''newBalance'', Val (JInt b)),
                    (''reason'', Val (JStr reason))] s) (\<lambda>_ s.
                 (Inr \<lparr>new_balance = b, ledger_tx_id = i, idempotent_replay = False\<rparr>, s))))))"

text \<open>\<open>ORDER BY created_at DESC LIMIT n\<close>: rows of equal time in insertion order (PostgreSQL leaves
  it open).\<close>

definition get_wallet_view :: "uuid \<Rightarrow> nat \<Rightarrow> (int \<times> ledger_tx list) tx" where
  "get_wallet_view u last_n s =
     and_then (ensure_wallet u s) (\<lambda>_ s.
       (Inr (current_balance u s,
             take last_n (sort_key (\<lambda>t. - tx_created_at t) (filter (\<lambda>t. tx_user t = u) (ledger s)))), s))"

section \<open>The ledger invariant\<close>

definition signed_amount :: "ledger_tx \<Rightarrow> int" where
  "signed_amount t = (case tx_type t of Credit \<Rightarrow> tx_amount t | Debit \<Rightarrow> - tx_amount t)"

definition net :: "uuid \<Rightarrow> ledger_tx list \<Rightarrow> int" where
  "net u txs = sum_list (map signed_amount (filter (\<lambda>t. tx_user t = u) txs))"

definition tx_ref :: "ledger_tx \<Rightarrow> uuid \<times> string" where
  "tx_ref t = (tx_user t, tx_key t)"

definition wallet_ok :: "db \<Rightarrow> bool" where
  "wallet_ok s \<longleftrightarrow>
     (\<forall>u b. wallets s u = Some b \<longrightarrow> b = net u (ledger s) \<and> 0 \<le> b \<and> bigint_ok b \<and> users s u \<noteq> None) \<and>
     (\<forall>t \<in> set (ledger s). wallets s (tx_user t) \<noteq> None \<and> 0 < tx_amount t \<and> tx_id t < next_id s) \<and>
     distinct (map tx_ref (ledger s)) \<and> distinct (map tx_id (ledger s))"

text \<open>The state after a new ledger row: the row, the balance it leads to, one audit row.\<close>

definition post_tx :: "uuid \<Rightarrow> tx_type \<Rightarrow> int \<Rightarrow> payload \<Rightarrow> string \<Rightarrow> int \<Rightarrow> audit_row \<Rightarrow> db \<Rightarrow> db" where
  "post_tx u ty amount meta key b row s =
     s\<lparr>wallets := (wallets s)(u \<mapsto> b),
       ledger := ledger s @ [\<lparr>tx_id = next_id s, tx_user = u, tx_type = ty, tx_amount = amount,
                              tx_meta = meta, tx_key = key, tx_created_at = sql_now s\<rparr>],
       audit_log := audit_log s @ [row],
       next_id := next_id s + 1\<rparr>"

definition debit_row :: "uuid \<Rightarrow> uuid option \<Rightarrow> int \<Rightarrow> payload \<Rightarrow> int \<Rightarrow> db \<Rightarrow> audit_row" where
  "debit_row u session amount meta b s =
     \<lparr>au_user = Some u, au_session = session, au_event = ''billing_debit'', au_payload = assert_no_secrets
        ([(''ledgerTxId'', RowId (next_id s)), (''amount'', Val (JInt amount)), (''newBalance'', Val (JInt b)),
          (''sessionId'', opt_str (map_option uuid_str session)), (''model'', pget ''model'' meta)]
         @ [(''requestId'', Val (request_id s))])\<rparr>"

definition credit_row :: "uuid \<Rightarrow> int \<Rightarrow> string \<Rightarrow> int \<Rightarrow> db \<Rightarrow> audit_row" where
  "credit_row u amount reason b s =
     \<lparr>au_user = Some u, au_session = None, au_event = ''billing_credit'', au_payload = assert_no_secrets
        ([(''ledgerTxId'', RowId (next_id s)), (''amount'', Val (JInt amount)), (''newBalance'', Val (JInt b)),
          (''reason'', Val (JStr reason))] @ [(''requestId'', Val (request_id s))])\<rparr>"

lemma find_tx_None: "find_tx u key txs = None \<longleftrightarrow> (u, key) \<notin> set (map tx_ref txs)"
  by (auto simp: find_tx_def find_None_iff tx_ref_def)

lemma find_tx_Some: "find_tx u key txs = Some t \<Longrightarrow> t \<in> set txs \<and> tx_user t = u \<and> tx_key t = key"
  unfolding find_tx_def by (drule find_SomeD) auto

lemma find_tx_append:
  "find_tx u key (txs @ [t]) =
     (case find_tx u key txs of Some x \<Rightarrow> Some x | None \<Rightarrow> if tx_ref t = (u, key) then Some t else None)"
  by (auto simp: find_tx_def find_None_append tx_ref_def split: option.split)

lemma net_append [simp]: "net u (txs @ [t]) = net u txs + (if tx_user t = u then signed_amount t else 0)"
  by (simp add: net_def)

lemma net_no_rows: "(\<And>t. t \<in> set txs \<Longrightarrow> tx_user t \<noteq> u) \<Longrightarrow> net u txs = 0"
  by (simp add: net_def filter_False)

lemma wallet_ok_balance: "wallet_ok s \<Longrightarrow> current_balance u s = net u (ledger s)"
  unfolding wallet_ok_def current_balance_def
  by (cases "wallets s u") (auto intro!: net_no_rows)

lemma wallet_ok_nonneg: "wallet_ok s \<Longrightarrow> 0 \<le> current_balance u s"
  unfolding wallet_ok_def current_balance_def by (auto split: option.split)

lemma wallet_ok_row:
  assumes "wallet_ok s" and "existing_tx u key s = Some t"
  shows "\<exists>b. wallets s u = Some b" and "users s u \<noteq> None" and "0 < tx_amount t"
  using assms find_tx_Some[of u key "ledger s" t] unfolding wallet_ok_def existing_tx_def by force+

lemma wallet_ok_post:
  assumes "wallet_ok s" and "existing_tx u key s = None" and "users s u \<noteq> None" and "0 < amount"
    and "b = current_balance u s + (case ty of Credit \<Rightarrow> amount | Debit \<Rightarrow> - amount)" and "0 \<le> b" and "bigint_ok b"
  shows "wallet_ok (post_tx u ty amount meta key b row s)"
  using assms wallet_ok_balance[OF assms(1), of u]
  unfolding wallet_ok_def post_tx_def existing_tx_def find_tx_None
  by (cases ty) (auto simp: signed_amount_def tx_ref_def)

lemma wallet_ok_frame:
  assumes "wallet_ok s" "users t = users s" "wallets t = wallets s" "ledger t = ledger s" "next_id s \<le> next_id t"
  shows "wallet_ok t"
  using assms unfolding wallet_ok_def by force

lemma wallet_ok_other_tables [simp]:
  "wallet_ok (s\<lparr>subscriptions := x1\<rparr>) = wallet_ok s"
  "wallet_ok (s\<lparr>adapty_events := x2\<rparr>) = wallet_ok s"
  "wallet_ok (s\<lparr>cp_events := x3\<rparr>) = wallet_ok s"
  "wallet_ok (s\<lparr>audit_log := x4\<rparr>) = wallet_ok s"
  by (simp_all add: wallet_ok_def)

lemma wallet_ok_user: "wallet_ok s \<Longrightarrow> wallets s u = Some b \<Longrightarrow> users s u \<noteq> None"
  unfolding wallet_ok_def by blast

lemma wallet_ok_no_wallet:
  assumes "wallet_ok s" and "wallets s u = None"
  shows "t \<in> set (ledger s) \<Longrightarrow> tx_user t \<noteq> u" and "net u (ledger s) = 0" and "existing_tx u key s = None"
proof -
  show other: "t \<in> set (ledger s) \<Longrightarrow> tx_user t \<noteq> u" for t
    using assms unfolding wallet_ok_def by auto
  show "net u (ledger s) = 0" by (rule net_no_rows) (rule other)
  show "existing_tx u key s = None"
    using other find_tx_Some[of u key "ledger s"] unfolding existing_tx_def by (cases "find_tx u key (ledger s)") auto
qed

lemma wallet_ok_provision: "wallet_ok s \<Longrightarrow> ensure_wallet u s = (Inr x, t) \<Longrightarrow> wallet_ok t"
  using wallet_ok_no_wallet[of s u] unfolding ensure_wallet_def
  by (auto simp: wallet_ok_def bigint_ok_def split: if_splits)

section \<open>What the operations do\<close>

text \<open>The value \<open>replay\<close> returns on a taken key, and the two operations seen from outside their
  transaction.\<close>

definition replay_outcome :: "uuid \<Rightarrow> tx_type \<Rightarrow> int \<Rightarrow> ledger_tx \<Rightarrow> db \<Rightarrow> exn + ledger_result" where
  "replay_outcome u ty amount t s =
     (if tx_type t = ty \<and> tx_amount t = amount
      then Inr \<lparr>new_balance = current_balance u s, ledger_tx_id = tx_id t, idempotent_replay = True\<rparr>
      else Inl (Raised ConflictError ''idempotency key reused with different payload''))"

lemma replay_eq: "existing_tx u key s = Some t \<Longrightarrow> replay u ty amount key s = (replay_outcome u ty amount t s, s)"
  by (auto simp: replay_def replay_outcome_def)

lemma session_scope_eq: "session_scope f s = (case f s of (Inl e, _) \<Rightarrow> (Inl e, s) | (Inr a, t) \<Rightarrow> (Inr a, t))"
  by (cases "f s"; cases "fst (f s)") (auto simp: session_scope_def)

lemma session_scope_same: "session_scope (\<lambda>s. (r, s)) s = (r, s)"
  by (cases r) (auto simp: session_scope_def)

lemma grant_committed:
  assumes "wallet_ok s"
  shows "session_scope (wallet_grant u amount key meta reason) s =
    (if amount \<le> 0 then (Inl (Raised ConflictError ''amount must be positive''), s)
     else if users s u = None then (Inl (DbFault ForeignKeyViolation), s)
     else if \<not> bigint_ok amount then (Inl (DbFault OutOfRange), s)
     else case existing_tx u key s of
         Some t \<Rightarrow> (replay_outcome u Credit amount t s, s)
       | None \<Rightarrow>
           let b = current_balance u s + amount in
           if bigint_ok b
           then (Inr \<lparr>new_balance = b, ledger_tx_id = next_id s, idempotent_replay = False\<rparr>,
                 post_tx u Credit amount meta key b (credit_row u amount reason b s) s)
           else (Inl (DbFault OutOfRange), s))"
proof (cases "amount \<le> 0 \<or> users s u = None \<or> \<not> bigint_ok amount")
  case True
  then show ?thesis
    using wallet_ok_user[OF assms, of u]
    by (cases "wallets s u") (auto simp: session_scope_eq wallet_grant_def ensure_wallet_def insert_ledger_def)
next
  case False
  show ?thesis
  proof (cases "wallets s u")
    case None
    note fresh = wallet_ok_no_wallet(3)[OF assms None, of key]
    with None False show ?thesis
      by (auto simp: session_scope_eq wallet_grant_def ensure_wallet_def insert_ledger_def existing_tx_def
          current_balance_def credit_wallet_def audit_record_def post_tx_def credit_row_def)
  next
    case (Some b0)
    with False show ?thesis
      by (auto simp: session_scope_eq wallet_grant_def ensure_wallet_def insert_ledger_def replay_eq replay_outcome_def
          current_balance_def credit_wallet_def audit_record_def post_tx_def credit_row_def Let_def split: option.split)
  qed
qed

definition session_fault :: "uuid \<Rightarrow> uuid option \<Rightarrow> db \<Rightarrow> exn option" where
  "session_fault u session s =
     (case session of
        None \<Rightarrow> None
      | Some i \<Rightarrow> (case chat_sessions s i of
            None \<Rightarrow> Some (Raised SessionNotFoundError ''session not found'')
          | Some owner \<Rightarrow> if owner \<noteq> u then Some (Raised ForbiddenError ''session does not belong to user'') else None))"

lemma consume_validated:
  "0 < amount \<Longrightarrow> wallet_consume u amount key meta session s =
     (case session_fault u session s of Some e \<Rightarrow> (Inl e, s) | None \<Rightarrow> consume_checked u amount key meta session s)"
  by (auto simp: wallet_consume_def session_fault_def validate_session_def split: option.split)

lemma consume_nonpositive:
  "amount \<le> 0 \<Longrightarrow> wallet_consume u amount key meta session s = (Inl (Raised ConflictError ''amount must be positive''), s)"
  by (simp add: wallet_consume_def)

lemma session_fault_NoneD:
  "session_fault u session s = None \<Longrightarrow> \<not> (case session of None \<Rightarrow> False | Some i \<Rightarrow> chat_sessions s i = None)"
  by (auto simp: session_fault_def split: option.splits)

lemma consume_committed:
  assumes "wallet_ok s"
  shows "session_scope (wallet_consume u amount key meta session) s =
    (if amount \<le> 0 then (Inl (Raised ConflictError ''amount must be positive''), s)
     else case session_fault u session s of Some e \<Rightarrow> (Inl e, s) | None \<Rightarrow>
     if users s u = None then (Inl (DbFault ForeignKeyViolation), s)
     else if \<not> bigint_ok amount then (Inl (DbFault OutOfRange), s)
     else case existing_tx u key s of
         Some t \<Rightarrow> (replay_outcome u Debit amount t s, s)
       | None \<Rightarrow>
           let b = current_balance u s - amount in
           if 0 \<le> b
           then (Inr \<lparr>new_balance = b, ledger_tx_id = next_id s, idempotent_replay = False\<rparr>,
                 post_tx u Debit amount meta key b (debit_row u session amount meta b s) s)
           else (Inl (Raised InsufficientCreditsError ''insufficient_credits''), s))"
proof (cases "amount \<le> 0 \<or> session_fault u session s \<noteq> None \<or> users s u = None \<or> \<not> bigint_ok amount")
  case True
  then show ?thesis
    using wallet_ok_user[OF assms, of u]
    by (cases "amount \<le> 0"; cases "session_fault u session s"; cases "wallets s u")
      (auto simp: session_scope_eq consume_nonpositive consume_validated consume_checked_def ensure_wallet_def insert_ledger_def)
next
  case False
  then have known: "\<not> (case session of None \<Rightarrow> False | Some i \<Rightarrow> chat_sessions s i = None)"
    using session_fault_NoneD by blast
  show ?thesis
  proof (cases "wallets s u")
    case None
    note fresh = wallet_ok_no_wallet(3)[OF assms None, of key]
    with None False known show ?thesis
      by (auto simp: session_scope_eq consume_validated consume_checked_def ensure_wallet_def insert_ledger_def existing_tx_def
          current_balance_def debit_wallet_def)
  next
    case (Some b0)
    with False known show ?thesis
      by (auto simp: session_scope_eq consume_validated consume_checked_def ensure_wallet_def insert_ledger_def replay_eq
          replay_outcome_def current_balance_def debit_wallet_def audit_record_def post_tx_def debit_row_def Let_def
          split: option.split)
  qed
qed

lemma wallet_ok_start: "wallets s = Map.empty \<Longrightarrow> ledger s = [] \<Longrightarrow> wallet_ok s"
  by (simp add: wallet_ok_def)

lemma post_tx_fields [simp]:
  "users (post_tx u ty a meta key b row s) = users s"
  "subscriptions (post_tx u ty a meta key b row s) = subscriptions s"
  "chat_sessions (post_tx u ty a meta key b row s) = chat_sessions s"
  "adapty_events (post_tx u ty a meta key b row s) = adapty_events s"
  "cp_events (post_tx u ty a meta key b row s) = cp_events s"
  "next_id (post_tx u ty a meta key b row s) = next_id s + 1"
  "current_balance u (post_tx u ty a meta key b row s) = b"
  by (simp_all add: post_tx_def current_balance_def)

lemma post_tx_balance_other [simp]: "v \<noteq> u \<Longrightarrow> current_balance v (post_tx u ty a meta key b row s) = current_balance v s"
  by (simp add: post_tx_def current_balance_def)

lemma post_tx_existing:
  "existing_tx u key s = None \<Longrightarrow> existing_tx v k (post_tx u ty a meta key b row s) =
     (if v = u \<and> k = key
      then Some \<lparr>tx_id = next_id s, tx_user = u, tx_type = ty, tx_amount = a, tx_meta = meta, tx_key = key, tx_created_at = sql_now s\<rparr>
      else existing_tx v k s)"
  by (auto simp: post_tx_def existing_tx_def find_tx_append tx_ref_def split: option.split)

lemma session_fault_post [simp]: "session_fault u i (post_tx v ty a meta key b row s) = session_fault u i s"
  by (simp add: session_fault_def split: option.split)

text \<open>A successful call, as its three possible shapes.\<close>

lemma grant_returned:
  assumes "wallet_ok s" and "session_scope (wallet_grant u amount key meta reason) s = (Inr r, t)"
  obtains (replayed) x where "existing_tx u key s = Some x" and "tx_type x = Credit" and "tx_amount x = amount"
      and "r = \<lparr>new_balance = current_balance u s, ledger_tx_id = tx_id x, idempotent_replay = True\<rparr>" and "t = s"
  | (posted) row where "existing_tx u key s = None" and "users s u \<noteq> None" and "0 < amount" and "bigint_ok amount"
      and "bigint_ok (current_balance u s + amount)"
      and "r = \<lparr>new_balance = current_balance u s + amount, ledger_tx_id = next_id s, idempotent_replay = False\<rparr>"
      and "t = post_tx u Credit amount meta key (current_balance u s + amount) row s"
proof -
  note run = assms(2)[unfolded grant_committed[OF assms(1)]]
  from run have sane: "0 < amount" "users s u \<noteq> None" "bigint_ok amount"
    by (simp_all split: if_splits)
  show thesis
  proof (cases "existing_tx u key s")
    case None
    with run sane have "bigint_ok (current_balance u s + amount)"
      "r = \<lparr>new_balance = current_balance u s + amount, ledger_tx_id = next_id s, idempotent_replay = False\<rparr>"
      "t = post_tx u Credit amount meta key (current_balance u s + amount)
         (credit_row u amount reason (current_balance u s + amount) s) s"
      by (simp_all add: Let_def split: if_splits)
    then show thesis by (rule posted[OF None sane(2,1,3)])
  next
    case (Some x)
    with run sane have "tx_type x = Credit" "tx_amount x = amount"
      "r = \<lparr>new_balance = current_balance u s, ledger_tx_id = tx_id x, idempotent_replay = True\<rparr>" "t = s"
      by (auto simp: replay_outcome_def split: if_splits)
    then show thesis by (rule replayed[OF Some])
  qed
qed

lemma consume_returned:
  assumes "wallet_ok s" and "session_scope (wallet_consume u amount key meta session) s = (Inr r, t)"
  obtains (replayed) x where "existing_tx u key s = Some x" and "tx_type x = Debit" and "tx_amount x = amount"
      and "r = \<lparr>new_balance = current_balance u s, ledger_tx_id = tx_id x, idempotent_replay = True\<rparr>" and "t = s"
  | (posted) row where "existing_tx u key s = None" and "users s u \<noteq> None" and "0 < amount" and "bigint_ok amount"
      and "amount \<le> current_balance u s"
      and "r = \<lparr>new_balance = current_balance u s - amount, ledger_tx_id = next_id s, idempotent_replay = False\<rparr>"
      and "t = post_tx u Debit amount meta key (current_balance u s - amount) row s"
proof -
  note run = assms(2)[unfolded consume_committed[OF assms(1)]]
  from run have valid: "session_fault u session s = None"
    by (cases "session_fault u session s") (simp_all split: if_splits)
  with run have sane: "0 < amount" "users s u \<noteq> None" "bigint_ok amount"
    by (simp_all split: if_splits)
  show thesis
  proof (cases "existing_tx u key s")
    case None
    with run sane valid have "amount \<le> current_balance u s"
      "r = \<lparr>new_balance = current_balance u s - amount, ledger_tx_id = next_id s, idempotent_replay = False\<rparr>"
      "t = post_tx u Debit amount meta key (current_balance u s - amount)
         (debit_row u session amount meta (current_balance u s - amount) s) s"
      by (simp_all add: Let_def split: if_splits)
    then show thesis by (rule posted[OF None sane(2,1,3)])
  next
    case (Some x)
    with run sane valid have "tx_type x = Debit" "tx_amount x = amount"
      "r = \<lparr>new_balance = current_balance u s, ledger_tx_id = tx_id x, idempotent_replay = True\<rparr>" "t = s"
      by (auto simp: replay_outcome_def split: if_splits)
    then show thesis by (rule replayed[OF Some])
  qed
qed

lemma wallet_ok_bigint: "wallet_ok s \<Longrightarrow> bigint_ok (current_balance u s)"
  unfolding wallet_ok_def current_balance_def by (auto simp: bigint_ok_def split: option.split)

lemma grant_keeps_ok:
  assumes "wallet_ok s" and "session_scope (wallet_grant u amount key meta reason) s = (Inr r, t)"
  shows "wallet_ok t"
  using assms
proof (cases rule: grant_returned)
  case (posted row)
  then show ?thesis
    using wallet_ok_nonneg[OF assms(1), of u] by (auto intro!: wallet_ok_post[OF assms(1)])
qed (use assms in simp)

lemma consume_keeps_ok:
  assumes "wallet_ok s" and "session_scope (wallet_consume u amount key meta session) s = (Inr r, t)"
  shows "wallet_ok t"
  using assms
proof (cases rule: consume_returned)
  case (posted row)
  then show ?thesis
    using wallet_ok_nonneg[OF assms(1), of u] wallet_ok_bigint[OF assms(1), of u]
    by (auto simp: bigint_ok_def intro!: wallet_ok_post[OF assms(1)])
qed (use assms in simp)

section \<open>The account the two operations implement\<close>

text \<open>
  Seen by one user the wallet is a balance and the keys already spent, each with what it stands
  for. \<open>account_apply\<close> is the whole contract of \<open>consume\<close> and \<open>grant\<close> on it.
\<close>

type_synonym account = "int \<times> (string \<rightharpoonup> tx_type \<times> int)"

definition account :: "uuid \<Rightarrow> db \<Rightarrow> account" where
  "account u s = (current_balance u s, \<lambda>key. map_option (\<lambda>t. (tx_type t, tx_amount t)) (existing_tx u key s))"

fun account_apply :: "tx_type \<Rightarrow> int \<Rightarrow> string \<Rightarrow> account \<Rightarrow> (exn, int \<times> bool, account) outcome" where
  "account_apply ty amount key (b, m) =
     (case m key of
        Some spent \<Rightarrow>
          if spent = (ty, amount) then (Inr (b, True), (b, m))
          else (Inl (Raised ConflictError ''idempotency key reused with different payload''), (b, m))
      | None \<Rightarrow>
          let b' = (case ty of Credit \<Rightarrow> b + amount | Debit \<Rightarrow> b - amount) in
          if b' < 0 then (Inl (Raised InsufficientCreditsError ''insufficient_credits''), (b, m))
          else (Inr (b', False), (b', m(key \<mapsto> (ty, amount)))))"

text \<open>What a caller of the account sees of a call's outcome.\<close>

definition account_view :: "uuid \<Rightarrow> (exn, ledger_result, db) outcome \<Rightarrow> (exn, int \<times> bool, account) outcome" where
  "account_view u out = (map_sum id (\<lambda>r. (new_balance r, idempotent_replay r)) (fst out), account u (snd out))"

lemma account_post:
  "existing_tx u key s = None \<Longrightarrow>
   account u (post_tx u ty a meta key b row s) = (b, (snd (account u s))(key \<mapsto> (ty, a)))"
  by (auto simp: account_def post_tx_existing fun_eq_iff)

lemma account_post_other:
  "existing_tx u key s = None \<Longrightarrow> v \<noteq> u \<Longrightarrow> account v (post_tx u ty a meta key b row s) = account v s"
  by (auto simp: account_def post_tx_existing fun_eq_iff)

text \<open>
  C3. \<open>grant\<close> refines the account: for a known user and an amount that fits the columns, the committed
  call returns what \<open>account_apply\<close> returns (the new balance and whether it was a replay, or the
  conflict) and leaves the account \<open>account_apply\<close> leaves.
\<close>

theorem grant_refines:
  assumes "wallet_ok s" and "users s u \<noteq> None" and "0 < amount" and "bigint_ok amount"
    and "bigint_ok (current_balance u s + amount)"
  shows "account_view u (session_scope (wallet_grant u amount key meta reason) s) =
         account_apply Credit amount key (account u s)"
  using assms wallet_ok_nonneg[OF assms(1), of u]
  by (cases "existing_tx u key s")
    (auto simp: grant_committed account_view_def account_def post_tx_existing fun_eq_iff replay_outcome_def Let_def)

text \<open>
  C2. \<open>consume\<close> refines the account in the same way, with a debit instead of a credit: a balance that
  does not cover the amount is refused and nothing is spent.
\<close>

theorem consume_refines:
  assumes "wallet_ok s" and "users s u \<noteq> None" and "0 < amount" and "bigint_ok amount"
    and "session_fault u session s = None"
  shows "account_view u (session_scope (wallet_consume u amount key meta session) s) =
         account_apply Debit amount key (account u s)"
  using assms
  by (cases "existing_tx u key s")
    (auto simp: consume_committed account_view_def account_def post_tx_existing fun_eq_iff replay_outcome_def Let_def)

section \<open>Retries\<close>

lemma posted_replay:
  assumes "existing_tx u key s = None"
  shows "replay_outcome u ty amount
      (the (existing_tx u key (post_tx u ty amount meta key b row s))) (post_tx u ty amount meta key b row s) =
    Inr \<lparr>new_balance = b, ledger_tx_id = next_id s, idempotent_replay = True\<rparr>"
  using assms by (simp add: post_tx_existing replay_outcome_def)

text \<open>
  A client that retries a debit whose answer it lost pays once: after a call that returned, the
  same call returns the same ledger row, says it is a replay, and leaves the database exactly as
  it was.
\<close>

theorem consume_retry:
  assumes "wallet_ok s" and "session_scope (wallet_consume u amount key meta session) s = (Inr r, t)"
  shows "session_scope (wallet_consume u amount key meta session) t =
         (Inr \<lparr>new_balance = current_balance u t, ledger_tx_id = ledger_tx_id r, idempotent_replay = True\<rparr>, t)"
  using assms
proof (cases rule: consume_returned)
  case (replayed x)
  then show ?thesis using assms(2) by simp
next
  case (posted row)
  have "session_fault u session s = None"
    using assms(2) posted(3) by (cases "session_fault u session s") (auto simp: session_scope_eq consume_validated)
  with posted consume_keeps_ok[OF assms] show ?thesis
    by (simp add: consume_committed post_tx_existing replay_outcome_def)
qed

text \<open>
  The same for a credit: a grant repeated with its key and amount (whatever metadata and
  reason it is repeated with) credits nothing more.
\<close>

theorem grant_retry:
  assumes "wallet_ok s" and "session_scope (wallet_grant u amount key meta reason) s = (Inr r, t)"
  shows "session_scope (wallet_grant u amount key meta' reason') t =
         (Inr \<lparr>new_balance = current_balance u t, ledger_tx_id = ledger_tx_id r, idempotent_replay = True\<rparr>, t)"
  using assms
proof (cases rule: grant_returned)
  case (replayed x)
  have "0 < amount" "users s u \<noteq> None" "bigint_ok amount"
    using assms(2) unfolding grant_committed[OF assms(1)] by (simp_all split: if_splits)
  with replayed assms(1) show ?thesis by (auto simp: grant_committed replay_outcome_def)
next
  case (posted row)
  with grant_keeps_ok[OF assms] show ?thesis
    by (simp add: grant_committed post_tx_existing replay_outcome_def)
qed

section \<open>The interface of the billing channels\<close>

lemma grant_refused_raw:
  assumes "wallet_ok s" and "wallet_grant u amount key meta reason s = (Inl e, t)" and "raised_as ConflictError e"
  shows "t = s"
proof (cases "wallets s u")
  case None
  with assms wallet_ok_no_wallet(3)[OF assms(1) None, of key] show ?thesis
    by (auto simp: wallet_grant_def ensure_wallet_def insert_ledger_def credit_wallet_def audit_record_def existing_tx_def
        split: if_splits)
next
  case (Some b)
  with assms show ?thesis
    by (auto simp: wallet_grant_def ensure_wallet_def insert_ledger_def credit_wallet_def audit_record_def replay_eq Let_def
        split: if_splits option.splits)
qed

lemma grant_raw:
  assumes "wallet_grant u amount key meta reason s = (Inr r, t)"
  shows "session_scope (wallet_grant u amount key meta reason) s = (Inr r, t)"
  using assms by (simp add: session_scope_eq)

interpretation wl: credit_ledger has_idempotency_key wallet_grant idempotent_replay current_balance wallet_ok
proof unfold_locales
  fix s t u amount key meta reason r
  assume ok: "wallet_ok s" and raw: "wallet_grant u amount key meta reason s = (Inr r, t)"
  note run = grant_raw[OF raw]
  show "wallet_ok t" by (rule grant_keeps_ok[OF ok run])
  show "idempotent_replay r = has_idempotency_key u key s"
    using ok run by (cases rule: grant_returned) (simp_all add: has_idempotency_key_def)
  show "t = s" if "has_idempotency_key u key s"
    using ok run that by (cases rule: grant_returned) (simp_all add: has_idempotency_key_def)
  show "has_idempotency_key v k t = (has_idempotency_key v k s \<or> v = u \<and> k = key)" for v k
    using ok run by (cases rule: grant_returned) (auto simp: has_idempotency_key_def post_tx_existing)
  show "current_balance v t = current_balance v s + (if v = u then amount else 0)" if "\<not> has_idempotency_key u key s" for v
    using ok run that by (cases rule: grant_returned) (auto simp: has_idempotency_key_def)
qed (rule grant_refused_raw)

abbreviation wallet_grant_once ::
  "uuid \<Rightarrow> int \<Rightarrow> string \<Rightarrow> string list \<Rightarrow> payload \<Rightarrow> string \<Rightarrow> (ledger_result option) tx" where
  "wallet_grant_once \<equiv> grant_once has_idempotency_key wallet_grant idempotent_replay"

text \<open>What the billing operations leave alone: everything but wallets, ledger, audit trail and the
  identifier counter.\<close>

definition same_but_wallet :: "db \<Rightarrow> db \<Rightarrow> bool" where
  "same_but_wallet s t \<longleftrightarrow> users t = users s \<and> subscriptions t = subscriptions s \<and> byok_keys t = byok_keys s \<and>
     chat_sessions t = chat_sessions s \<and> auth_devices t = auth_devices s \<and> legacy_user_ids t = legacy_user_ids s \<and>
     adapty_events t = adapty_events s \<and> cp_events t = cp_events s"

lemma same_but_wallet_refl [simp]: "same_but_wallet s s"
  by (simp add: same_but_wallet_def)

lemma same_but_wallet_trans: "same_but_wallet s t \<Longrightarrow> same_but_wallet t v \<Longrightarrow> same_but_wallet s v"
  by (simp add: same_but_wallet_def)

lemma audit_record_same: "audit_record u i e p s = (r, t) \<Longrightarrow> same_but_wallet s t"
  by (cases rule: audit_record_cases[of u i e p s]) (auto simp: same_but_wallet_def)

lemma audit_record_wallet:
  assumes "audit_record u i e p s = (r, t)"
  shows "ledger t = ledger s" and "wallets t = wallets s" and "wallet_ok s \<Longrightarrow> wallet_ok t"
    and "has_idempotency_key v k t = has_idempotency_key v k s" and "current_balance v t = current_balance v s"
proof -
  show *: "ledger t = ledger s" "wallets t = wallets s"
    using assms by (cases rule: audit_record_cases[of u i e p s]; auto)+
  have "next_id t = next_id s" "users t = users s"
    using assms by (cases rule: audit_record_cases[of u i e p s]; auto)+
  with * show "wallet_ok s \<Longrightarrow> wallet_ok t" by (auto intro: wallet_ok_frame[of s t])
  show "has_idempotency_key v k t = has_idempotency_key v k s" "current_balance v t = current_balance v s"
    using * by (simp_all add: has_idempotency_key_def existing_tx_def current_balance_def)
qed

lemma wallet_grant_same:
  assumes "wallet_ok s" and "wallet_grant u amount key meta reason s = (Inr r, t)"
  shows "same_but_wallet s t"
  using assms(1) grant_raw[OF assms(2)]
  by (cases rule: grant_returned) (simp_all add: same_but_wallet_def post_tx_def)

lemma grant_once_same:
  assumes "wallet_ok s" and "wallet_grant_once u amount key check_keys meta reason s = (Inr r, t)"
  shows "same_but_wallet s t"
proof (cases r)
  case None
  with assms wl.once_already(1) show ?thesis by fastforce
next
  case (Some x)
  with assms wl.once_credited(6) wallet_grant_same show ?thesis by fastforce
qed

text \<open>When the two calls return. An amount that is not positive is refused, also by \<open>grant_once\<close>.\<close>

lemma session_scope_InrD: "session_scope f s = (Inr r, t) \<Longrightarrow> f s = (Inr r, t)"
  by (auto simp: session_scope_eq split: prod.splits sum.splits)

lemma session_scope_InlD: "session_scope f s = (Inl e, t) \<Longrightarrow> \<exists>t'. f s = (Inl e, t')"
  by (auto simp: session_scope_eq split: prod.splits sum.splits)

lemma grant_posts:
  assumes "wallet_ok s" and "users s u \<noteq> None" and "0 < amount" and "bigint_ok amount"
    and "bigint_ok (current_balance u s + amount)" and "existing_tx u key s = None"
  shows "wallet_grant u amount key meta reason s =
      (Inr \<lparr>new_balance = current_balance u s + amount, ledger_tx_id = next_id s, idempotent_replay = False\<rparr>,
       post_tx u Credit amount meta key (current_balance u s + amount) (credit_row u amount reason (current_balance u s + amount) s) s)"
proof (rule session_scope_InrD[of "wallet_grant u amount key meta reason"])
qed (use assms in \<open>simp add: grant_committed Let_def\<close>)

lemma grant_once_returns:
  assumes "wallet_ok s" and "users s u \<noteq> None" and "0 < amount" and "bigint_ok amount"
    and "bigint_ok (current_balance u s + amount)"
  shows "\<exists>x t. wallet_grant_once u amount key check_keys meta reason s = (Inr x, t)"
proof (cases "existing_tx u key s")
  case None
  show ?thesis unfolding grant_once_def grant_posts[OF assms None] by simp
next
  case (Some t)
  with assms have out: "session_scope (wallet_grant u amount key meta reason) s = (replay_outcome u Credit amount t s, s)"
    by (auto simp: grant_committed)
  show ?thesis
  proof (cases "replay_outcome u Credit amount t s")
    case (Inr r)
    with out session_scope_InrD[of "wallet_grant u amount key meta reason" s r s] show ?thesis
      by (auto simp: grant_once_def)
  next
    case (Inl e)
    then have conflict: "raised_as ConflictError e"
      by (auto simp: replay_outcome_def split: if_splits)
    obtain t' where raw: "wallet_grant u amount key meta reason s = (Inl e, t')"
      using out Inl session_scope_InlD by metis
    with conflict grant_refused_raw[OF assms(1)] have "t' = s" by blast
    with raw conflict Some show ?thesis
      by (auto simp: grant_once_def has_idempotency_key_def)
  qed
qed

lemma grant_once_nonpositive:
  assumes "amount \<le> 0" and "\<not> list_ex (\<lambda>k. has_idempotency_key u k s) check_keys" and "\<not> has_idempotency_key u key s"
  shows "wallet_grant_once u amount key check_keys meta reason s = (Inl (Raised ConflictError ''amount must be positive''), s)"
  using assms by (simp add: grant_once_def wallet_grant_def)

section \<open>Witnesses\<close>

text \<open>One user, a wallet of 40 credits bought under one key.\<close>

definition small_db :: db where
  "small_db = empty_db\<lparr>users := [1 \<mapsto> False], wallets := [1 \<mapsto> 40], next_id := 1,
     ledger := [\<lparr>tx_id = 0, tx_user = 1, tx_type = Credit, tx_amount = 40, tx_meta = [], tx_key = ''k'', tx_created_at = 0\<rparr>]\<rparr>"

lemma small_db_ok: "wallet_ok small_db"
  by (simp add: wallet_ok_def small_db_def empty_db_def net_def signed_amount_def bigint_ok_def)

lemma small_db_values [simp]:
  "users small_db = [1 \<mapsto> False]" "current_balance 1 small_db = 40" "chat_sessions small_db = Map.empty"
  by (simp_all add: small_db_def empty_db_def current_balance_def)

lemma small_db_user: "users small_db 1 \<noteq> None"
  by (simp del: not_None_eq)

lemma small_db_spent [simp]: "existing_tx 1 ''n'' small_db = None" "next_id small_db = 1"
  by (simp_all add: existing_tx_def find_tx_def small_db_def empty_db_def)

lemma account_small: "account 1 small_db = (40, [''k'' \<mapsto> (Credit, 40)])"
  by (auto simp: account_def existing_tx_def find_tx_def small_db_def empty_db_def current_balance_def)

theorem grant_refines_witness:
  "account_view 1 (session_scope (wallet_grant 1 2 ''n'' [] ''r'') small_db) =
   (Inr (42, False), (42, [''k'' \<mapsto> (Credit, 40), ''n'' \<mapsto> (Credit, 2)]))"
  using grant_refines[OF small_db_ok small_db_user, of 2 "''n''" "[]" "''r''"]
  by (auto simp: account_small bigint_ok_def)

theorem consume_refines_witness:
  "account_view 1 (session_scope (wallet_consume 1 41 ''n'' [] None) small_db) =
   (Inl (Raised InsufficientCreditsError ''insufficient_credits''), (40, [''k'' \<mapsto> (Credit, 40)]))"
  using consume_refines[OF small_db_ok small_db_user, of 41 None "''n''" "[]"]
  by (auto simp: account_small bigint_ok_def session_fault_def)

theorem consume_retry_witness:
  "session_scope (wallet_consume 1 2 ''n'' [] None) (snd (session_scope (wallet_consume 1 2 ''n'' [] None) small_db)) =
   (Inr \<lparr>new_balance = 38, ledger_tx_id = 1, idempotent_replay = True\<rparr>,
    snd (session_scope (wallet_consume 1 2 ''n'' [] None) small_db))"
proof -
  obtain r t where run: "session_scope (wallet_consume 1 2 ''n'' [] None) small_db = (Inr r, t)"
      and "ledger_tx_id r = 1" and "current_balance 1 t = 38"
    using small_db_user by (auto simp: consume_committed[OF small_db_ok] small_db_spent bigint_ok_def session_fault_def Let_def)
  with consume_retry[OF small_db_ok run] show ?thesis by simp
qed

theorem grant_retry_witness:
  "session_scope (wallet_grant 1 2 ''n'' [] ''again'') (snd (session_scope (wallet_grant 1 2 ''n'' [] ''r'') small_db)) =
   (Inr \<lparr>new_balance = 42, ledger_tx_id = 1, idempotent_replay = True\<rparr>,
    snd (session_scope (wallet_grant 1 2 ''n'' [] ''r'') small_db))"
proof -
  obtain r t where run: "session_scope (wallet_grant 1 2 ''n'' [] ''r'') small_db = (Inr r, t)"
      and "ledger_tx_id r = 1" and "current_balance 1 t = 42"
    using small_db_user by (auto simp: grant_committed[OF small_db_ok] small_db_spent bigint_ok_def Let_def)
  with grant_retry[OF small_db_ok run, of "[]" "''again''"] show ?thesis by simp
qed

end
