(* ===== verification/Storekit.thy ===== *)
theory Storekit
  imports Errors PyJson
begin

text \<open>
  \<open>subscription/storekit.py\<close>: which signed transactions the StoreKit verifier accepts and what it makes
  of them. Certificates, signatures, base64 and JSON are library code: they are the fields of
  \<open>crypto\<close>, functions the verifier is given. \<open>jws_json\<close> decodes a base64url segment and reads it as
  JSON (\<open>None\<close>: \<open>ValueError\<close>), \<open>load_cert\<close> reads an entry of \<open>x5c\<close>, \<open>signed_by child issuer\<close> checks a
  certificate's signature, \<open>decode_es256\<close> and \<open>decode_hs256\<close> are \<open>jwt.decode\<close> with the one admitted
  algorithm, \<open>from_ms\<close> is \<open>datetime.fromtimestamp(ms / 1000, UTC)\<close>.
\<close>

record 'c crypto =
  jws_json :: "string \<Rightarrow> json option"
  load_cert :: "json \<Rightarrow> 'c option"
  signed_by :: "'c \<Rightarrow> 'c \<Rightarrow> bool"
  decode_es256 :: "'c \<Rightarrow> string \<Rightarrow> json_obj option"
  decode_hs256 :: "string \<Rightarrow> string \<Rightarrow> json_obj option"
  from_ms :: "int \<Rightarrow> instant option"

record VerifiedTransaction =
  vt_transaction_id :: string
  vt_original_transaction_id :: string
  vt_product_id :: string
  vt_expires_at :: "instant option"
  vt_revoked :: bool
  vt_environment :: string
  vt_upgraded :: bool

text \<open>The settings the verifier captures (\<open>verifier_inputs\<close>) and the verifier built from them.\<close>

record 'c verifier_settings =
  mode_from_overlay :: bool
  appstore_bundle_id :: string
  appstore_environment :: string
  appstore_roots :: "'c list"
  skip_cert_chain :: bool
  storekit_test_mode :: bool
  storekit_test_secret :: string

record 'c verifier =
  v_bundle_id :: string
  v_check_bundle_id :: bool
  v_environment :: string
  v_roots :: "'c list"
  v_test_secret :: string
  v_test_mode :: bool
  v_skip_chain_verification :: bool

definition is_production :: "'c verifier_settings \<Rightarrow> bool" where
  "is_production cfg = (py_lower (py_strip (appstore_environment cfg)) = ''production'')"

definition make_verifier :: "'c verifier_settings \<Rightarrow> 'c verifier" where
  "make_verifier cfg = \<lparr>v_bundle_id = appstore_bundle_id cfg,
     v_check_bundle_id = (is_production cfg \<or> \<not> mode_from_overlay cfg),
     v_environment = appstore_environment cfg, v_roots = appstore_roots cfg,
     v_test_secret = storekit_test_secret cfg,
     v_test_mode = (storekit_test_mode cfg \<and> storekit_test_secret cfg \<noteq> []),
     v_skip_chain_verification = (skip_cert_chain cfg \<and> \<not> is_production cfg)\<rparr>"

definition invalid :: "string \<Rightarrow> exn" where
  "invalid m = Raised ValidationFailedError m"

definition jws_header :: "'c crypto \<Rightarrow> string \<Rightarrow> exn + json_obj" where
  "jws_header cr jws =
     (case jws_json cr (takeWhile (\<lambda>c. c \<noteq> CHR ''.'') jws) of
        None \<Rightarrow> Inl (invalid ''StoreKit JWS header is not valid base64url JSON'')
      | Some (JObj h) \<Rightarrow> Inr h
      | Some _ \<Rightarrow> Inl (invalid ''StoreKit JWS header must be a JSON object''))"

fun load_all :: "'c crypto \<Rightarrow> json list \<Rightarrow> 'c list option" where
  "load_all cr [] = Some []"
| "load_all cr (x # xs) = (case load_cert cr x of None \<Rightarrow> None | Some c \<Rightarrow> map_option ((#) c) (load_all cr xs))"

definition load_certificate_chain :: "'c crypto \<Rightarrow> string \<Rightarrow> exn + 'c list" where
  "load_certificate_chain cr jws =
     (case jws_header cr jws of
        Inl e \<Rightarrow> Inl e
      | Inr h \<Rightarrow> (case jget ''x5c'' h of
            JArr (x # xs) \<Rightarrow> (case load_all cr (x # xs) of None \<Rightarrow> Inl (PyFault ''certificate'') | Some chain \<Rightarrow> Inr chain)
          | _ \<Rightarrow> Inl (invalid ''StoreKit JWS missing x5c certificate chain'')))"

text \<open>The loop over neighbours of the chain.\<close>

fun links_signed :: "'c crypto \<Rightarrow> 'c list \<Rightarrow> bool" where
  "links_signed cr (child # issuer # rest) = (signed_by cr child issuer \<and> links_signed cr (issuer # rest))"
| "links_signed cr _ = True"

definition verify_chain :: "'c crypto \<Rightarrow> 'c list \<Rightarrow> 'c list \<Rightarrow> exn + unit" where
  "verify_chain cr chain roots =
     (if \<not> links_signed cr chain then Inl (PyFault ''InvalidSignature'')
      else if last chain \<in> set roots then Inr ()
      else if list_ex (signed_by cr (last chain)) roots then Inr ()
      else Inl (invalid ''StoreKit certificate chain not anchored to a trusted root''))"

text \<open>\<open>int(value)\<close> of a JSON value; \<open>None\<close>: \<open>TypeError\<close> or \<open>ValueError\<close>.\<close>

fun json_int :: "json \<Rightarrow> int option" where
  "json_int (JInt i) = Some i"
| "json_int (JBool b) = Some (if b then 1 else 0)"
| "json_int (JFloat r t) = t"
| "json_int (JStr s) = py_int_base 10 s"
| "json_int _ = None"

definition get_default :: "string \<Rightarrow> json \<Rightarrow> json_obj \<Rightarrow> json" where
  "get_default k d obj = (case map_of obj k of None \<Rightarrow> d | Some v \<Rightarrow> v)"

definition normalize_payload :: "'c crypto \<Rightarrow> 'c verifier \<Rightarrow> json_obj \<Rightarrow> exn + VerifiedTransaction" where
  "normalize_payload cr v payload =
     (if v_check_bundle_id v \<and> v_bundle_id v \<noteq> [] \<and> jget ''bundleId'' payload \<noteq> JStr (v_bundle_id v)
      then Inl (invalid ''StoreKit transaction bundleId mismatch'')
      else
        let expires = (case jget ''expiresDate'' payload of
              JNull \<Rightarrow> Inr None
            | ms \<Rightarrow> (case Option.bind (json_int ms) (from_ms cr) of
                  None \<Rightarrow> Inl (PyFault ''expiresDate'') | Some t \<Rightarrow> Inr (Some t)))
        in case expires of
             Inl e \<Rightarrow> Inl e
           | Inr expires_at \<Rightarrow>
               (case map_of payload ''transactionId'' of
                  None \<Rightarrow> Inl (invalid ''StoreKit transaction missing transactionId'')
                | Some txn \<Rightarrow> Inr \<lparr>vt_transaction_id = py_str txn,
                    vt_original_transaction_id = py_str (get_default ''originalTransactionId'' txn payload),
                    vt_product_id = py_str (get_default ''productId'' (JStr []) payload),
                    vt_expires_at = expires_at,
                    vt_revoked = (jget ''revocationDate'' payload \<noteq> JNull),
                    vt_environment = py_lower (py_str (get_default ''environment'' (JStr (v_environment v)) payload)),
                    vt_upgraded = (jget ''isUpgraded'' payload = JBool True)\<rparr>))"

definition verify_real_transaction :: "'c crypto \<Rightarrow> 'c verifier \<Rightarrow> string \<Rightarrow> exn + VerifiedTransaction" where
  "verify_real_transaction cr v jws =
     (case load_certificate_chain cr jws of
        Inl e \<Rightarrow> Inl e
      | Inr chain \<Rightarrow>
          (case (if v_skip_chain_verification v then Inr ()
                 else if v_roots v = [] then Inl (invalid ''App Store root certificates not configured (APPSTORE_ROOT_CERT_DIR); cannot verify StoreKit transaction'')
                 else verify_chain cr chain (v_roots v)) of
             Inl e \<Rightarrow> Inl e
           | Inr _ \<Rightarrow> (case decode_es256 cr (hd chain) jws of
                 None \<Rightarrow> Inl (invalid ''StoreKit JWS signature invalid'')
               | Some payload \<Rightarrow> normalize_payload cr v payload)))"

definition verify_test_transaction :: "'c crypto \<Rightarrow> 'c verifier \<Rightarrow> string \<Rightarrow> exn + VerifiedTransaction" where
  "verify_test_transaction cr v jws =
     (case decode_hs256 cr (v_test_secret v) jws of
        None \<Rightarrow> Inl (invalid ''StoreKit JWS signature invalid'')
      | Some payload \<Rightarrow> normalize_payload cr v payload)"

definition verify :: "'c crypto \<Rightarrow> 'c verifier \<Rightarrow> string \<Rightarrow> exn + VerifiedTransaction" where
  "verify cr v jws =
     (if count_list jws (CHR ''.'') \<noteq> 2 then Inl (invalid ''StoreKit transaction must be a compact JWS string'')
      else case jws_header cr jws of
          Inl e \<Rightarrow> Inl e
        | Inr h \<Rightarrow>
            if py_str (get_default ''alg'' (JStr []) h) = ''HS256'' then
              if \<not> v_test_mode v then Inl (invalid ''StoreKit JWS signature invalid'')
              else verify_test_transaction cr v jws
            else verify_real_transaction cr v jws)"

text \<open>
  The verifier is fail-closed in production: built from production settings with the test mode
  off, it accepts a text only if the certificate chain of its header is link by link signed and
  anchored in a configured root, the leaf verifies the ES256 signature, and, when a bundle is
  configured, the payload names it. The development flag that skips the chain has no effect.
\<close>

theorem production_verify_anchored:
  assumes "is_production cfg" and "\<not> storekit_test_mode cfg"
    and "verify cr (make_verifier cfg) jws = Inr t"
  shows "\<exists>chain payload. load_certificate_chain cr jws = Inr chain \<and> links_signed cr chain \<and>
     (\<exists>root \<in> set (appstore_roots cfg). last chain = root \<or> signed_by cr (last chain) root) \<and>
     decode_es256 cr (hd chain) jws = Some payload \<and>
     (appstore_bundle_id cfg = [] \<or> jget ''bundleId'' payload = JStr (appstore_bundle_id cfg)) \<and>
     normalize_payload cr (make_verifier cfg) payload = Inr t"
proof -
  let ?v = "make_verifier cfg"
  have v: "\<not> v_test_mode ?v" "\<not> v_skip_chain_verification ?v" "v_roots ?v = appstore_roots cfg"
    "v_check_bundle_id ?v" "v_bundle_id ?v = appstore_bundle_id cfg"
    using assms(1,2) by (simp_all add: make_verifier_def)
  have real: "verify_real_transaction cr ?v jws = Inr t"
    using assms(3) v(1) unfolding verify_def by (cases "jws_header cr jws") (simp_all split: if_splits)
  then obtain chain where chain: "load_certificate_chain cr jws = Inr chain"
    unfolding verify_real_transaction_def by (cases "load_certificate_chain cr jws") simp_all
  have anchored: "verify_chain cr chain (appstore_roots cfg) = Inr ()"
    using real chain v unfolding verify_real_transaction_def
    by (cases "verify_chain cr chain (appstore_roots cfg)") (simp_all split: if_splits)
  with real chain v obtain payload where payload: "decode_es256 cr (hd chain) jws = Some payload"
      "normalize_payload cr ?v payload = Inr t"
    unfolding verify_real_transaction_def
    by (cases "decode_es256 cr (hd chain) jws") (auto split: if_splits)
  have "links_signed cr chain" "\<exists>root \<in> set (appstore_roots cfg). last chain = root \<or> signed_by cr (last chain) root"
    using anchored by (auto simp: verify_chain_def list_ex_iff split: if_splits)
  moreover have "appstore_bundle_id cfg = [] \<or> jget ''bundleId'' payload = JStr (appstore_bundle_id cfg)"
    using payload(2) v unfolding normalize_payload_def by (cases "appstore_bundle_id cfg = []") (simp_all split: if_splits)
  ultimately show ?thesis using chain payload by blast
qed

text \<open>A leaf 1 signed by the root 2, and a payload for the bundle \<open>app\<close>.\<close>

definition demo_crypto :: "nat crypto" where
  "demo_crypto = \<lparr>jws_json = (\<lambda>_. Some (JObj [(''alg'', JStr ''ES256''), (''x5c'', JArr [JInt 1, JInt 2])])),
     load_cert = (\<lambda>j. map_option nat (json_int j)), signed_by = (\<lambda>c i. i = Suc c),
     decode_es256 = (\<lambda>c jws. Some [(''bundleId'', JStr ''app''), (''transactionId'', JStr ''9'')]),
     decode_hs256 = (\<lambda>_ _. None), from_ms = (\<lambda>ms. Some (ms * 1000))\<rparr>"

definition demo_verifier_settings :: "nat verifier_settings" where
  "demo_verifier_settings = \<lparr>mode_from_overlay = True, appstore_bundle_id = ''app'', appstore_environment = ''Production'',
     appstore_roots = [2], skip_cert_chain = True, storekit_test_mode = False, storekit_test_secret = ''x''\<rparr>"

definition demo_transaction :: VerifiedTransaction where
  "demo_transaction = \<lparr>vt_transaction_id = ''9'', vt_original_transaction_id = ''9'', vt_product_id = [],
     vt_expires_at = None, vt_revoked = False, vt_environment = ''production'', vt_upgraded = False\<rparr>"

lemma demo_verified: "verify demo_crypto (make_verifier demo_verifier_settings) ''a.b.c'' = Inr demo_transaction"
  by code_simp

theorem production_verify_anchored_witness:
  "\<exists>chain payload. load_certificate_chain demo_crypto ''a.b.c'' = Inr chain \<and> links_signed demo_crypto chain \<and>
     decode_es256 demo_crypto (hd chain) ''a.b.c'' = Some payload \<and> jget ''bundleId'' payload = JStr ''app''"
proof -
  have "is_production demo_verifier_settings" "\<not> storekit_test_mode demo_verifier_settings"
    "appstore_bundle_id demo_verifier_settings = ''app''"
    by code_simp+
  then show ?thesis
    using production_verify_anchored[OF _ _ demo_verified] by auto
qed

end
