(* ===== verification/Products.thy ===== *)
theory Products
  imports PyJson
begin

text \<open>
  The product catalog of an instance and the resolution of credit amounts:
  \<open>instance_config/products.py\<close>, the overlay rows of \<open>instance_config/snapshot.py\<close> and the methods of
  \<open>config.Settings\<close> that parse the product maps. \<open>json.loads\<close> is an argument. A mapping that the
  source keeps as a \<open>dict\<close> is its list of items; the overlay snapshot is keyed by \<open>product_id\<close>, so it is
  the list of its rows.
\<close>

section \<open>Settings\<close>

record settings =
  token_products_raw :: string
  adapty_product_tokens_raw :: string
  cloudpayments_product_tokens_raw :: string
  products_catalog_raw :: string
  cloudpayments_paid_statuses_raw :: string
  subscription_credits_per_period :: int
  adapty_subscription_tokens_grant :: int
  cloudpayments_subscription_tokens_grant :: int
  cloudpayments_payment_freshness_hours :: int
  cloudpayments_api_token :: string

text \<open>The body the three product maps share.\<close>

definition positive_items :: "json_obj \<Rightarrow> (string \<times> int) list" where
  "positive_items d = List.map_filter (\<lambda>(k, v). case v of JInt i \<Rightarrow> if i \<le> 0 then None else Some (k, i) | _ \<Rightarrow> None) d"

definition parse_product_map :: "json_reader \<Rightarrow> string \<Rightarrow> (string \<times> int) list" where
  "parse_product_map loads raw =
     (case loads (if raw = [] then ''{}'' else raw) of
        Some (JObj d) \<Rightarrow> positive_items d
      | _ \<Rightarrow> [])"

definition token_products :: "json_reader \<Rightarrow> settings \<Rightarrow> (string \<times> int) list" where
  "token_products loads cfg = parse_product_map loads (token_products_raw cfg)"

definition adapty_product_tokens :: "json_reader \<Rightarrow> settings \<Rightarrow> (string \<times> int) list" where
  "adapty_product_tokens loads cfg = parse_product_map loads (adapty_product_tokens_raw cfg)"

definition cloudpayments_product_tokens :: "json_reader \<Rightarrow> settings \<Rightarrow> (string \<times> int) list" where
  "cloudpayments_product_tokens loads cfg = parse_product_map loads (cloudpayments_product_tokens_raw cfg)"

definition products_catalog :: "json_reader \<Rightarrow> settings \<Rightarrow> json_obj list" where
  "products_catalog loads cfg =
     (case loads (if products_catalog_raw cfg = [] then ''[]'' else products_catalog_raw cfg) of
        Some (JArr items) \<Rightarrow> List.map_filter (\<lambda>item. case item of
            JObj d \<Rightarrow> (case jget ''productId'' d of JStr p \<Rightarrow> if p \<noteq> [] then Some d else None | _ \<Rightarrow> None)
          | _ \<Rightarrow> None) items
      | _ \<Rightarrow> [])"

definition comma_split :: "string \<Rightarrow> string list" where
  "comma_split s = foldr (\<lambda>c acc. case acc of [] \<Rightarrow> [[c]] | p # ps \<Rightarrow> if c = CHR '','' then [] # p # ps else (c # p) # ps) s [[]]"

definition cloudpayments_paid_statuses :: "json_reader \<Rightarrow> settings \<Rightarrow> string list" where
  "cloudpayments_paid_statuses loads cfg =
     (let raw = py_strip (cloudpayments_paid_statuses_raw cfg) in
      if raw = [] then [''succeeded'']
      else
        let statuses =
          (if take 1 raw = ''['' then
             (case loads raw of
                Some (JArr items) \<Rightarrow> List.map_filter (\<lambda>i. case i of
                    JStr s \<Rightarrow> if py_strip s \<noteq> [] then Some (py_lower (py_strip s)) else None
                  | _ \<Rightarrow> None) items
              | _ \<Rightarrow> [])
           else filter (\<lambda>t. t \<noteq> []) (map (\<lambda>p. py_lower (py_strip p)) (comma_split raw)))
        in if statuses \<noteq> [] then statuses else [''succeeded''])"

definition clamp_freshness_hours :: "int \<Rightarrow> int" where
  "clamp_freshness_hours v = (if v > 0 then v else 72)"

section \<open>The overlay and the catalog\<close>

record ProductOverlay =
  ov_product_id :: string
  ov_name :: "string option"
  ov_purchase_kind :: "string option"
  ov_tokens :: "int option"
  ov_archived :: bool
  ov_updated_at :: instant

type_synonym snapshot = "ProductOverlay list"

definition overlay_of :: "snapshot \<Rightarrow> string \<Rightarrow> ProductOverlay option" where
  "overlay_of snap p = find (\<lambda>ov. ov_product_id ov = p) snap"

definition PURCHASE_KIND_ONE_TIME :: string where "PURCHASE_KIND_ONE_TIME = ''one_time''"
definition PURCHASE_KIND_SUBSCRIPTION :: string where "PURCHASE_KIND_SUBSCRIPTION = ''subscription''"

record ProductRow =
  pr_product_id :: string
  pr_name :: string
  pr_tokens :: "int option"
  pr_purchase_kind :: "string option"
  pr_archived :: bool
  pr_updated_at :: "instant option"
  pr_source :: string

definition json_or :: "json \<Rightarrow> json \<Rightarrow> json" where
  "json_or a b = (if truthy a then a else b)"

definition catalog_entry_id :: "json_obj \<Rightarrow> string option" where
  "catalog_entry_id entry =
     (case json_or (jget ''productId'' entry) (jget ''product_id'' entry) of
        JStr p \<Rightarrow> if p \<noteq> [] then Some p else None
      | _ \<Rightarrow> None)"

definition catalog_entry_kind :: "json_obj \<Rightarrow> string option" where
  "catalog_entry_kind entry =
     (if jget ''kind'' entry = JStr PURCHASE_KIND_SUBSCRIPTION then Some PURCHASE_KIND_SUBSCRIPTION
      else if jget ''kind'' entry = JStr ''tokens'' then Some PURCHASE_KIND_ONE_TIME
      else None)"

definition catalog_entry_credits :: "json_obj \<Rightarrow> int option" where
  "catalog_entry_credits entry = (case jget ''credits'' entry of JInt i \<Rightarrow> Some i | _ \<Rightarrow> None)"

definition apply_overlay :: "ProductRow \<Rightarrow> snapshot \<Rightarrow> ProductRow" where
  "apply_overlay row snap =
     (case overlay_of snap (pr_product_id row) of
        None \<Rightarrow> row
      | Some ov \<Rightarrow> \<lparr>pr_product_id = pr_product_id row,
          pr_name = (case ov_name ov of None \<Rightarrow> pr_name row | Some n \<Rightarrow> n),
          pr_tokens = (case ov_tokens ov of None \<Rightarrow> pr_tokens row | Some t \<Rightarrow> Some t),
          pr_purchase_kind = (case ov_purchase_kind ov of None \<Rightarrow> pr_purchase_kind row | Some k \<Rightarrow> Some k),
          pr_archived = ov_archived ov, pr_updated_at = Some (ov_updated_at ov), pr_source = pr_source row\<rparr>)"

text \<open>The closure \<open>add\<close> of \<open>catalog_rows\<close>: the first row of an identifier wins.\<close>

definition add_row :: "snapshot \<Rightarrow> ProductRow \<Rightarrow> ProductRow list \<Rightarrow> ProductRow list" where
  "add_row snap row rows =
     (if pr_product_id row \<in> set (map pr_product_id rows) then rows else rows @ [apply_overlay row snap])"

definition source_row :: "string \<Rightarrow> string \<Rightarrow> int option \<Rightarrow> string option \<Rightarrow> string \<Rightarrow> ProductRow" where
  "source_row p name tokens kind source =
     \<lparr>pr_product_id = p, pr_name = name, pr_tokens = tokens, pr_purchase_kind = kind, pr_archived = False,
      pr_updated_at = None, pr_source = source\<rparr>"

definition operator_row :: "ProductOverlay \<Rightarrow> ProductRow" where
  "operator_row ov =
     \<lparr>pr_product_id = ov_product_id ov, pr_name = (case ov_name ov of None \<Rightarrow> ov_product_id ov | Some n \<Rightarrow> n),
      pr_tokens = ov_tokens ov, pr_purchase_kind = ov_purchase_kind ov, pr_archived = ov_archived ov,
      pr_updated_at = Some (ov_updated_at ov), pr_source = ''admin_products''\<rparr>"

definition entry_row :: "json_obj \<Rightarrow> ProductRow option" where
  "entry_row entry = map_option (\<lambda>p. source_row p
       (py_str (json_or (json_or (jget ''title'' entry) (jget ''name'' entry)) (JStr p)))
       (catalog_entry_credits entry) (catalog_entry_kind entry) ''products_catalog'') (catalog_entry_id entry)"

text \<open>The rows the four env sources offer, in the order \<open>catalog_rows\<close> reads them.\<close>

definition source_rows :: "json_reader \<Rightarrow> settings \<Rightarrow> ProductRow list" where
  "source_rows loads cfg =
     map (\<lambda>(p, c). source_row p (int_str c @ '' tokens'') (Some c) (Some PURCHASE_KIND_ONE_TIME) ''token_products'') (token_products loads cfg) @
     map (\<lambda>(p, c). source_row p p (Some c) (Some PURCHASE_KIND_SUBSCRIPTION) ''adapty_product_tokens'') (adapty_product_tokens loads cfg) @
     map (\<lambda>(p, c). source_row p p (Some c) (Some PURCHASE_KIND_SUBSCRIPTION) ''cloudpayments_product_tokens'')
       (cloudpayments_product_tokens loads cfg) @
     List.map_filter entry_row (products_catalog loads cfg)"

definition catalog_rows :: "json_reader \<Rightarrow> settings \<Rightarrow> snapshot \<Rightarrow> ProductRow list" where
  "catalog_rows loads cfg snap =
     fold (\<lambda>ov rows. if ov_product_id ov \<in> set (map pr_product_id rows) then rows else rows @ [operator_row ov]) snap
       (fold (add_row snap) (source_rows loads cfg) [])"

definition find_product :: "json_reader \<Rightarrow> settings \<Rightarrow> snapshot \<Rightarrow> string \<Rightarrow> ProductRow option" where
  "find_product loads cfg snap p = find (\<lambda>r. pr_product_id r = p) (catalog_rows loads cfg snap)"

definition known_product_ids :: "json_reader \<Rightarrow> settings \<Rightarrow> snapshot \<Rightarrow> string set" where
  "known_product_ids loads cfg snap = set (map pr_product_id (catalog_rows loads cfg snap))"

section \<open>Credit amounts\<close>

definition one_time_credits :: "json_reader \<Rightarrow> settings \<Rightarrow> snapshot \<Rightarrow> string \<Rightarrow> int option" where
  "one_time_credits loads cfg snap p =
     (case overlay_of snap p of
        Some ov \<Rightarrow>
          if ov_purchase_kind ov = Some PURCHASE_KIND_ONE_TIME \<and> ov_tokens ov \<noteq> None then ov_tokens ov
          else map_of (token_products loads cfg) p
      | None \<Rightarrow> map_of (token_products loads cfg) p)"

definition one_time_product_ids :: "json_reader \<Rightarrow> settings \<Rightarrow> snapshot \<Rightarrow> string set" where
  "one_time_product_ids loads cfg snap =
     fold (\<lambda>ov ids.
        if ov_purchase_kind ov = Some PURCHASE_KIND_ONE_TIME then insert (ov_product_id ov) ids
        else if ov_purchase_kind ov = Some PURCHASE_KIND_SUBSCRIPTION then ids - {ov_product_id ov}
        else ids) snap (set (map fst (token_products loads cfg)))"

record SubscriptionCredits =
  sc_amount :: int
  sc_source :: string

definition map_or_fallback :: "int option \<Rightarrow> int \<Rightarrow> SubscriptionCredits" where
  "map_or_fallback mapped fallback =
     (case mapped of
        Some m \<Rightarrow> if m \<noteq> 0 then \<lparr>sc_amount = m, sc_source = ''channel_map''\<rparr>
                  else \<lparr>sc_amount = fallback, sc_source = ''channel_fallback''\<rparr>
      | None \<Rightarrow> \<lparr>sc_amount = fallback, sc_source = ''channel_fallback''\<rparr>)"

definition channel_credits :: "json_reader \<Rightarrow> settings \<Rightarrow> string \<Rightarrow> string \<Rightarrow> SubscriptionCredits" where
  "channel_credits loads cfg channel key =
     (if channel = ''cloudpayments'' then
        map_or_fallback (map_of (cloudpayments_product_tokens loads cfg) key) (cloudpayments_subscription_tokens_grant cfg)
      else if channel = ''adapty'' then
        map_or_fallback (map_of (adapty_product_tokens loads cfg) key) (adapty_subscription_tokens_grant cfg)
      else if channel = ''manual'' then
        map_or_fallback (map_of (cloudpayments_product_tokens loads cfg) key) (subscription_credits_per_period cfg)
      else \<lparr>sc_amount = subscription_credits_per_period cfg, sc_source = ''channel_fallback''\<rparr>)"

definition subscription_credits :: "json_reader \<Rightarrow> settings \<Rightarrow> snapshot \<Rightarrow> string option \<Rightarrow> string \<Rightarrow> SubscriptionCredits" where
  "subscription_credits loads cfg snap product_id channel =
     (let p = (case product_id of None \<Rightarrow> [] | Some p \<Rightarrow> p) in
      case (if p \<noteq> [] then overlay_of snap p else None) of
        Some ov \<Rightarrow>
          if ov_purchase_kind ov = Some PURCHASE_KIND_SUBSCRIPTION \<and> ov_tokens ov \<noteq> None
          then \<lparr>sc_amount = the (ov_tokens ov), sc_source = ''overlay''\<rparr>
          else channel_credits loads cfg channel p
      | None \<Rightarrow> channel_credits loads cfg channel p)"

definition is_product_unmapped :: "json_reader \<Rightarrow> settings \<Rightarrow> snapshot \<Rightarrow> string option \<Rightarrow> string \<Rightarrow> SubscriptionCredits \<Rightarrow> bool" where
  "is_product_unmapped loads cfg snap product_id channel credits =
     (if sc_source credits \<noteq> ''channel_fallback'' then False
      else if channel = ''adapty'' \<or> channel = ''cloudpayments'' then True
      else if channel = ''storekit'' then
        (case product_id of None \<Rightarrow> True | Some p \<Rightarrow> p = [] \<or> find_product loads cfg snap p = None)
      else False)"

definition is_archived :: "snapshot \<Rightarrow> string \<Rightarrow> bool" where
  "is_archived snap p = (case overlay_of snap p of None \<Rightarrow> False | Some ov \<Rightarrow> ov_archived ov)"

definition operator_created_rows :: "json_reader \<Rightarrow> settings \<Rightarrow> snapshot \<Rightarrow> ProductRow list" where
  "operator_created_rows loads cfg snap =
     filter (\<lambda>r. pr_source r = ''admin_products'' \<and> \<not> pr_archived r \<and> pr_purchase_kind r \<noteq> None \<and> pr_tokens r \<noteq> None)
       (catalog_rows loads cfg snap)"

section \<open>The catalog lists each product once\<close>

lemma apply_overlay_id [simp]: "pr_product_id (apply_overlay row snap) = pr_product_id row"
  by (simp add: apply_overlay_def split: option.split)

lemma fold_add_row:
  assumes "distinct (map pr_product_id rows)"
  shows "distinct (map pr_product_id (fold (add_row snap) new rows))"
    and "set (map pr_product_id (fold (add_row snap) new rows)) = set (map pr_product_id rows) \<union> set (map pr_product_id new)"
  using assms by (induction new arbitrary: rows) (auto simp: add_row_def image_iff)

lemma fold_operator_rows:
  assumes "distinct (map pr_product_id rows)"
  shows "distinct (map pr_product_id (fold (\<lambda>ov rows. if ov_product_id ov \<in> set (map pr_product_id rows) then rows
            else rows @ [operator_row ov]) snap rows))"
    and "set (map pr_product_id (fold (\<lambda>ov rows. if ov_product_id ov \<in> set (map pr_product_id rows) then rows
            else rows @ [operator_row ov]) snap rows)) = set (map pr_product_id rows) \<union> set (map ov_product_id snap)"
  using assms by (induction snap arbitrary: rows) (auto simp: operator_row_def image_iff)

text \<open>
  The merged catalog has one row per product, whatever the five sources repeat, and its products
  are exactly those of the sources and of the overlay: no product is lost in the merge and none is
  invented.
\<close>

theorem catalog_rows_distinct:
  "distinct (map pr_product_id (catalog_rows loads cfg snap)) \<and>
   known_product_ids loads cfg snap = set (map fst (token_products loads cfg)) \<union> set (map fst (adapty_product_tokens loads cfg))
     \<union> set (map fst (cloudpayments_product_tokens loads cfg))
     \<union> set (List.map_filter catalog_entry_id (products_catalog loads cfg)) \<union> set (map ov_product_id snap)"
proof -
  have rows: "distinct (map pr_product_id (fold (add_row snap) (source_rows loads cfg) []))"
    by (rule fold_add_row) simp
  have entries: "map pr_product_id (List.map_filter entry_row es) = List.map_filter catalog_entry_id es" for es
    by (induction es) (auto simp: List.map_filter_def entry_row_def source_row_def)
  have "set (map pr_product_id (source_rows loads cfg)) = set (map fst (token_products loads cfg))
     \<union> set (map fst (adapty_product_tokens loads cfg)) \<union> set (map fst (cloudpayments_product_tokens loads cfg))
     \<union> set (map pr_product_id (List.map_filter entry_row (products_catalog loads cfg)))"
    by (auto simp: source_rows_def source_row_def image_iff split_beta)
  with rows show ?thesis
    unfolding known_product_ids_def catalog_rows_def fold_operator_rows(2)[OF rows] entries[symmetric]
    using fold_operator_rows(1)[OF rows] fold_add_row(2)[of "[]" snap "source_rows loads cfg"] by simp
qed

section \<open>Which rule credits a product\<close>

lemma overlay_of_Nil [simp]: "overlay_of [] p = None"
  by (simp add: overlay_of_def)

lemma overlay_of_append: "overlay_of (snap @ snap') p = (case overlay_of snap p of None \<Rightarrow> overlay_of snap' p | Some ov \<Rightarrow> Some ov)"
  by (simp add: overlay_of_def find_None_append split: option.split)

lemma overlay_of_one [simp]: "overlay_of [ov] p = (if ov_product_id ov = p then Some ov else None)"
  by (simp add: overlay_of_def)

lemma overlay_of_None: "overlay_of snap p = None \<longleftrightarrow> p \<notin> set (map ov_product_id snap)"
  by (auto simp: overlay_of_def find_None_iff)

lemma one_time_ids_append:
  "one_time_product_ids loads cfg (snap @ [ov]) =
    (if ov_purchase_kind ov = Some PURCHASE_KIND_ONE_TIME then insert (ov_product_id ov) (one_time_product_ids loads cfg snap)
     else if ov_purchase_kind ov = Some PURCHASE_KIND_SUBSCRIPTION then one_time_product_ids loads cfg snap - {ov_product_id ov}
     else one_time_product_ids loads cfg snap)"
  by (simp add: one_time_product_ids_def)

lemma kinds_differ [simp]:
  "PURCHASE_KIND_ONE_TIME \<noteq> PURCHASE_KIND_SUBSCRIPTION" "PURCHASE_KIND_SUBSCRIPTION \<noteq> PURCHASE_KIND_ONE_TIME"
  by (simp_all add: PURCHASE_KIND_ONE_TIME_def PURCHASE_KIND_SUBSCRIPTION_def)

lemma in_one_time_ids:
  assumes "distinct (map ov_product_id snap)"
  shows "p \<in> one_time_product_ids loads cfg snap \<longleftrightarrow>
    (case Option.bind (overlay_of snap p) ov_purchase_kind of
       None \<Rightarrow> map_of (token_products loads cfg) p \<noteq> None
     | Some k \<Rightarrow> k = PURCHASE_KIND_ONE_TIME \<or> (k \<noteq> PURCHASE_KIND_SUBSCRIPTION \<and> map_of (token_products loads cfg) p \<noteq> None))"
  using assms
proof (induction snap rule: rev_induct)
  case Nil
  then show ?case
    by (auto simp: one_time_product_ids_def map_of_eq_None_iff)
next
  case (snoc ov snap)
  then have "overlay_of snap (ov_product_id ov) = None"
    by (simp add: overlay_of_None)
  with snoc show ?case
    by (cases "ov_product_id ov = p")
      (auto simp: one_time_ids_append overlay_of_append split: option.splits)
qed

text \<open>
  The two readings of "one-time product" and where they part. An identifier is in the one-time
  class exactly when its overlay says so, or does not speak of the class and the env map knows it;
  and of the identifiers outside the class, \<open>one_time_credits\<close> still finds an amount exactly for those
  whose overlay makes them a subscription while the env map lists them: such a product is sized by
  both rules.
\<close>

theorem one_time_class_and_amount:
  assumes "distinct (map ov_product_id snap)"
    and "\<forall>ov \<in> set snap. ov_purchase_kind ov \<in> {None, Some PURCHASE_KIND_ONE_TIME, Some PURCHASE_KIND_SUBSCRIPTION}"
  shows "(p \<notin> one_time_product_ids loads cfg snap \<and> one_time_credits loads cfg snap p \<noteq> None) =
     (Option.bind (overlay_of snap p) ov_purchase_kind = Some PURCHASE_KIND_SUBSCRIPTION
        \<and> map_of (token_products loads cfg) p \<noteq> None)"
proof (cases "overlay_of snap p")
  case None
  then show ?thesis by (auto simp: in_one_time_ids[OF assms(1)] one_time_credits_def)
next
  case (Some ov)
  then have "ov \<in> set snap" unfolding overlay_of_def by (auto dest: find_SomeD)
  with assms(2) have "ov_purchase_kind ov \<in> {None, Some PURCHASE_KIND_ONE_TIME, Some PURCHASE_KIND_SUBSCRIPTION}" by blast
  with Some show ?thesis
    by (elim insertE emptyE) (auto simp: in_one_time_ids[OF assms(1)] one_time_credits_def)
qed

text \<open>
  Archiving is not a price change: an overlay row that sets neither class nor amount, added for
  a product that had none, changes no credit amount of any product on any channel and leaves the
  one-time class as it was.
\<close>

theorem archive_row_neutral:
  assumes "ov_purchase_kind ov = None" and "ov_tokens ov = None" and "overlay_of snap (ov_product_id ov) = None"
  shows "one_time_credits loads cfg (snap @ [ov]) = one_time_credits loads cfg snap \<and>
         one_time_product_ids loads cfg (snap @ [ov]) = one_time_product_ids loads cfg snap \<and>
         subscription_credits loads cfg (snap @ [ov]) = subscription_credits loads cfg snap"
  using assms
  by (auto simp: fun_eq_iff one_time_credits_def one_time_ids_append subscription_credits_def overlay_of_append Let_def
      split: option.split)

text \<open>The constraints of \<open>admin_products\<close>: an amount comes with a class, at least 1 for a one-time product,
  at least 0 for a subscription.\<close>

definition overlay_row_ok :: "ProductOverlay \<Rightarrow> bool" where
  "overlay_row_ok ov \<longleftrightarrow>
     ov_purchase_kind ov \<in> {None, Some PURCHASE_KIND_ONE_TIME, Some PURCHASE_KIND_SUBSCRIPTION} \<and>
     (case ov_tokens ov of
        None \<Rightarrow> True
      | Some t \<Rightarrow> (ov_purchase_kind ov = Some PURCHASE_KIND_ONE_TIME \<and> 1 \<le> t)
                \<or> (ov_purchase_kind ov = Some PURCHASE_KIND_SUBSCRIPTION \<and> 0 \<le> t))"

text \<open>
  Amounts: with positive fallbacks and overlay rows the table admits, every known one-time purchase
  credits at least one unit whatever the env maps contain, and a subscription period credits
  nothing only when an operator's overlay says zero.
\<close>

theorem credit_amounts_positive:
  assumes "0 < subscription_credits_per_period cfg" and "0 < adapty_subscription_tokens_grant cfg"
    and "0 < cloudpayments_subscription_tokens_grant cfg" and "list_all overlay_row_ok snap"
  shows "0 \<le> sc_amount (subscription_credits loads cfg snap product_id channel) \<and>
         (sc_amount (subscription_credits loads cfg snap product_id channel) = 0)
            \<le> (sc_source (subscription_credits loads cfg snap product_id channel) = ''overlay'') \<and>
         Ball (set_option (one_time_credits loads cfg snap p)) ((<) 0)"
proof -
  have items: "map_of (positive_items d) k = Some c \<Longrightarrow> 0 < c" for d k c
    by (auto simp: positive_items_def List.map_filter_def split: json.splits if_splits dest!: map_of_SomeD)
  then have map_pos: "map_of (parse_product_map loads raw) k = Some c \<Longrightarrow> 0 < c" for raw k c
    by (auto simp: parse_product_map_def split: option.splits json.splits)
  have "0 < sc_amount (map_or_fallback (map_of (parse_product_map loads raw) k) f)" if "0 < f" for raw k f
    using that map_pos[of raw k] by (auto simp: map_or_fallback_def split: option.split)
  then have chan: "0 < sc_amount (channel_credits loads cfg channel k)" for k
    using assms(1-3)
    by (auto simp: channel_credits_def adapty_product_tokens_def cloudpayments_product_tokens_def)
  have overlay: "overlay_row_ok ov" if "overlay_of snap q = Some ov" for q ov
    using that assms(4) by (auto simp: overlay_of_def list_all_iff dest!: find_SomeD)
  have sub: "0 < sc_amount (subscription_credits loads cfg snap product_id channel) \<or>
      (0 \<le> sc_amount (subscription_credits loads cfg snap product_id channel) \<and>
       sc_source (subscription_credits loads cfg snap product_id channel) = ''overlay'')"
    using chan overlay
    by (force simp: subscription_credits_def Let_def overlay_row_ok_def split: option.splits)
  have "0 < t" if "one_time_credits loads cfg snap p = Some t" for t
    using that overlay[of p] map_pos
    by (force simp: one_time_credits_def token_products_def overlay_row_ok_def split: option.splits if_splits)
  with sub show ?thesis by auto
qed

section \<open>Witnesses\<close>

definition demo_loads :: json_reader where
  "demo_loads s = (if s = ''T'' then Some (JObj [(''pack'', JInt 100), (''bad'', JBool True)]) else None)"

definition demo_settings :: settings where
  "demo_settings = \<lparr>token_products_raw = ''T'', adapty_product_tokens_raw = ''{}'', cloudpayments_product_tokens_raw = ''{}'',
     products_catalog_raw = ''[]'', cloudpayments_paid_statuses_raw = [], subscription_credits_per_period = 50,
     adapty_subscription_tokens_grant = 60, cloudpayments_subscription_tokens_grant = 70,
     cloudpayments_payment_freshness_hours = 72, cloudpayments_api_token = ''t''\<rparr>"

definition demo_overlay :: "string \<Rightarrow> string option \<Rightarrow> int option \<Rightarrow> ProductOverlay" where
  "demo_overlay p kind tokens = \<lparr>ov_product_id = p, ov_name = None, ov_purchase_kind = kind, ov_tokens = tokens,
     ov_archived = False, ov_updated_at = 0\<rparr>"

lemma demo_token_products: "token_products demo_loads demo_settings = [(''pack'', 100)]"
  by (simp add: token_products_def parse_product_map_def demo_loads_def demo_settings_def positive_items_def List.map_filter_def)

theorem one_time_class_and_amount_witness:
  "''pack'' \<notin> one_time_product_ids demo_loads demo_settings [demo_overlay ''pack'' (Some PURCHASE_KIND_SUBSCRIPTION) (Some 300)] \<and>
   one_time_credits demo_loads demo_settings [demo_overlay ''pack'' (Some PURCHASE_KIND_SUBSCRIPTION) (Some 300)] ''pack'' \<noteq> None"
  using one_time_class_and_amount[of "[demo_overlay ''pack'' (Some PURCHASE_KIND_SUBSCRIPTION) (Some 300)]" "''pack''" demo_loads demo_settings]
  by (simp add: demo_token_products demo_overlay_def overlay_of_def)

theorem archive_row_neutral_witness:
  "one_time_credits demo_loads demo_settings ([] @ [demo_overlay ''pack'' None None]) ''pack'' = Some 100"
  using archive_row_neutral[of "demo_overlay ''pack'' None None" "[]" demo_loads demo_settings]
  by (simp add: demo_overlay_def demo_token_products one_time_credits_def)

theorem credit_amounts_positive_witness:
  "0 \<le> sc_amount (subscription_credits demo_loads demo_settings
     [demo_overlay ''sub'' (Some PURCHASE_KIND_SUBSCRIPTION) (Some 0)] (Some ''sub'') ''adapty'')"
  using credit_amounts_positive[of demo_settings "[demo_overlay ''sub'' (Some PURCHASE_KIND_SUBSCRIPTION) (Some 0)]"
      demo_loads "Some ''sub''" "''adapty''" "''pack''"]
  by (simp add: demo_settings_def demo_overlay_def overlay_row_ok_def)

end
