(* ===== verification/Subscription_Sync.thy ===== *)
theory Subscription_Sync
  imports Wallet Storekit Products
begin

text \<open>
  \<open>subscription/service.py\<close>: \<open>POST /v1/subscription/sync\<close>. The StoreKit verifier is the function \<open>verifier\<close>
  (\<open>Storekit.verify\<close> of the running process); the clock is read once per call.
\<close>

record SubscriptionResult =
  sr_is_subscribed :: bool
  sr_expires_at :: "instant option"
  sr_plan :: "string option"

definition row_is_subscribed :: "instant \<Rightarrow> subscription_row \<Rightarrow> bool" where
  "row_is_subscribed now row =
     (case sub_expires_at row of
        None \<Rightarrow> False
      | Some e \<Rightarrow> sub_status row = Sub_active \<and> now < e)"

definition or_none :: "string \<Rightarrow> string option" where
  "or_none s = (if s = [] then None else Some s)"

definition transaction_active :: "instant \<Rightarrow> VerifiedTransaction \<Rightarrow> bool" where
  "transaction_active now t \<longleftrightarrow> \<not> vt_revoked t \<and> \<not> vt_upgraded t \<and>
     (case vt_expires_at t of None \<Rightarrow> False | Some e \<Rightarrow> now < e)"

text \<open>\<open>session.add\<close> and \<open>flush\<close> of a subscription row: a new row needs its user.\<close>

definition store_subscription :: "uuid \<Rightarrow> subscription_row \<Rightarrow> unit tx" where
  "store_subscription u row s =
     (if subscriptions s u = None \<and> users s u = None then (Inl (DbFault ForeignKeyViolation), s)
      else (Inr (), s\<lparr>subscriptions := (subscriptions s)(u \<mapsto> row)\<rparr>))"

definition reconcile_subscription :: "instant \<Rightarrow> uuid \<Rightarrow> VerifiedTransaction \<Rightarrow> unit tx" where
  "reconcile_subscription now u t s =
     (let status = (if transaction_active now t then Sub_active else Sub_expired) in
      case subscriptions s u of
        None \<Rightarrow> store_subscription u \<lparr>sub_status = status, sub_plan = or_none (vt_product_id t),
                  sub_expires_at = vt_expires_at t, sub_will_renew = None, sub_updated_at = sql_now s\<rparr> s
      | Some row \<Rightarrow>
          if is_stale (Some row) (vt_expires_at t) then (Inr (), s)
          else store_subscription u (row\<lparr>sub_status := status, sub_plan := or_none (vt_product_id t),
                  sub_expires_at := vt_expires_at t, sub_updated_at := now\<rparr>) s)"

definition sub_grant_key :: "string \<Rightarrow> string" where "sub_grant_key txn = ''sub-grant:'' @ txn"
definition adapty_txn_key :: "string \<Rightarrow> string" where "adapty_txn_key txn = ''adapty-txn:'' @ txn"

definition grant_period :: "json_reader \<Rightarrow> settings \<Rightarrow> snapshot \<Rightarrow> uuid \<Rightarrow> VerifiedTransaction \<Rightarrow> unit tx" where
  "grant_period loads cfg snap u t s =
     (let product_id = or_none (vt_product_id t);
          credits = subscription_credits loads cfg snap product_id ''storekit'';
          txn = vt_transaction_id t
      in and_then (wallet_grant_once u (sc_amount credits) (sub_grant_key txn) [sub_grant_key txn, adapty_txn_key txn]
           [(''reason'', Val (JStr ''subscription_period'')), (''transactionId'', Val (JStr txn)),
            (''productId'', Val (JStr (vt_product_id t)))] ''subscription_period'' s) (\<lambda>granted s.
         if granted \<noteq> None \<and> is_product_unmapped loads cfg snap product_id ''storekit'' credits
         then signal_unmapped_product u ''storekit'' product_id (sc_amount credits) txn s
         else (Inr (), s)))"

definition sync_payload :: "instant \<Rightarrow> VerifiedTransaction \<Rightarrow> bool \<Rightarrow> payload" where
  "sync_payload now t stale =
     [(''status'', Val (JStr (if transaction_active now t then ''active'' else ''expired''))), (''plan'', opt_str (or_none (vt_product_id t))),
      (''transactionId'', Val (JStr (vt_transaction_id t))), (''environment'', Val (JStr (vt_environment t))),
      (''revoked'', Val (JBool (vt_revoked t))), (''upgraded'', Val (JBool (vt_upgraded t))), (''stale'', Val (JBool stale))]"

text \<open>A stale transaction is answered with the row as it is.\<close>

definition sync_answer :: "instant \<Rightarrow> VerifiedTransaction \<Rightarrow> subscription_row option \<Rightarrow> SubscriptionResult" where
  "sync_answer now t stale_row =
     (case stale_row of
        Some row \<Rightarrow> \<lparr>sr_is_subscribed = row_is_subscribed now row, sr_expires_at = sub_expires_at row, sr_plan = sub_plan row\<rparr>
      | None \<Rightarrow> \<lparr>sr_is_subscribed = transaction_active now t, sr_expires_at = vt_expires_at t, sr_plan = or_none (vt_product_id t)\<rparr>)"

definition sync_verified ::
  "json_reader \<Rightarrow> settings \<Rightarrow> snapshot \<Rightarrow> instant \<Rightarrow> uuid \<Rightarrow> VerifiedTransaction \<Rightarrow> SubscriptionResult tx" where
  "sync_verified loads cfg snap now u t s0 =
     (let stale = is_stale (subscriptions s0 u) (vt_expires_at t)
      in and_then (reconcile_subscription now u t s0) (\<lambda>_ s.
         and_then (if transaction_active now t then grant_period loads cfg snap u t s else (Inr (), s)) (\<lambda>_ s.
         and_then (audit_record (Some u) None ''subscription_change'' (sync_payload now t stale) s) (\<lambda>_ s.
         (Inr (sync_answer now t (if stale then subscriptions s u else None)), s)))))"

definition subscription_sync ::
  "json_reader \<Rightarrow> settings \<Rightarrow> snapshot \<Rightarrow> (string \<Rightarrow> exn + VerifiedTransaction) \<Rightarrow> instant \<Rightarrow> uuid \<Rightarrow> string \<Rightarrow> SubscriptionResult tx" where
  "subscription_sync loads cfg snap verifier now u jws s =
     (case verifier jws of
        Inl e \<Rightarrow> (Inl e, s)
      | Inr t \<Rightarrow> sync_verified loads cfg snap now u t s)"

section \<open>What a sync changes\<close>

text \<open>The keys under which a store period may already be paid for.\<close>

definition period_paid :: "uuid \<Rightarrow> string \<Rightarrow> db \<Rightarrow> bool" where
  "period_paid u txn s = (has_idempotency_key u (sub_grant_key txn) s \<or> has_idempotency_key u (adapty_txn_key txn) s)"

lemma wallet_part:
  assumes "ledger t = ledger s" "wallets t = wallets s"
  shows "has_idempotency_key v k t = has_idempotency_key v k s" "current_balance v t = current_balance v s"
  using assms by (simp_all add: has_idempotency_key_def existing_tx_def current_balance_def)

lemma store_subscription_effect:
  assumes "store_subscription u row s = (Inr x, t)"
  shows "t = s\<lparr>subscriptions := (subscriptions s)(u \<mapsto> row)\<rparr>"
  using assms by (auto simp: store_subscription_def split: if_splits)

lemma reconcile_frame:
  assumes "reconcile_subscription now u v s = (Inr x, t)"
  shows "ledger t = ledger s" "wallets t = wallets s" "wallet_ok s \<Longrightarrow> wallet_ok t"
proof -
  obtain subs where t: "t = s \<or> t = s\<lparr>subscriptions := subs\<rparr>"
    using assms unfolding reconcile_subscription_def Let_def
    by (cases "subscriptions s u") (auto dest: store_subscription_effect split: if_splits)
  then show "ledger t = ledger s" "wallets t = wallets s" by auto
  show "wallet_ok s \<Longrightarrow> wallet_ok t" using t by auto
qed

lemma audit_unmapped_frame:
  assumes "signal_unmapped_product u ch p a txn s = (r, t)"
  shows "same_but_wallet s t" "ledger t = ledger s" "wallets t = wallets s" "wallet_ok s \<Longrightarrow> wallet_ok t"
  using assms unfolding signal_unmapped_product_def
  by (blast dest: audit_record_same, (blast dest: audit_record_wallet)+)

lemma grant_period_effect:
  assumes "wallet_ok s" and "grant_period loads cfg snap u v s = (Inr x, t)"
  shows "wallet_ok t" and "same_but_wallet s t" and "period_paid u (vt_transaction_id v) t"
    and "current_balance w t = current_balance w s +
      (if w = u \<and> \<not> period_paid u (vt_transaction_id v) s
       then sc_amount (subscription_credits loads cfg snap (or_none (vt_product_id v)) ''storekit'') else 0)"
    and "has_idempotency_key w k t \<longleftrightarrow> has_idempotency_key w k s \<or>
      (\<not> period_paid u (vt_transaction_id v) s \<and> w = u \<and> k = sub_grant_key (vt_transaction_id v))"
proof -
  let ?txn = "vt_transaction_id v"
  let ?keys = "[sub_grant_key ?txn, adapty_txn_key ?txn]"
  obtain granted t1 where once: "wallet_grant_once u
        (sc_amount (subscription_credits loads cfg snap (or_none (vt_product_id v)) ''storekit'')) (sub_grant_key ?txn) ?keys
        [(''reason'', Val (JStr ''subscription_period'')), (''transactionId'', Val (JStr ?txn)),
         (''productId'', Val (JStr (vt_product_id v)))] ''subscription_period'' s = (Inr granted, t1)"
    and rest: "(t1 = t) \<or> (\<exists>ch p a txn x. signal_unmapped_product u ch p a txn t1 = (Inr x, t))"
    using assms(2) unfolding grant_period_def Let_def
    by (elim and_then_InrE) (force split: if_splits)
  have member: "sub_grant_key ?txn \<in> set ?keys" by simp
  note eff = wl.once_effect[OF assms(1) once member]
  have taken: "list_ex (\<lambda>k. has_idempotency_key u k s) ?keys = period_paid u ?txn s"
    by (simp add: period_paid_def)
  have same1: "same_but_wallet s t1" by (rule grant_once_same[OF assms(1) once])
  have t: "wallet_ok t" "same_but_wallet t1 t" "ledger t = ledger t1" "wallets t = wallets t1"
    using rest eff(1) audit_unmapped_frame by fastforce+
  show "wallet_ok t" by (rule t(1))
  show "same_but_wallet s t" by (rule same_but_wallet_trans[OF same1 t(2)])
  note kept = wallet_part[OF t(3,4)]
  show "current_balance w t = current_balance w s + (if w = u \<and> \<not> period_paid u ?txn s
       then sc_amount (subscription_credits loads cfg snap (or_none (vt_product_id v)) ''storekit'') else 0)"
    unfolding kept eff(3) using eff(2) taken by auto
  show key: "has_idempotency_key w k t \<longleftrightarrow> has_idempotency_key w k s \<or>
      (\<not> period_paid u ?txn s \<and> w = u \<and> k = sub_grant_key ?txn)" for w k
    unfolding kept eff(4) using eff(2) taken by auto
  show "period_paid u ?txn t"
    unfolding period_paid_def key by (auto simp: period_paid_def)
qed

lemma sync_returned:
  assumes "wallet_ok s" and "sync_verified loads cfg snap now u v s = (Inr r, t)"
  obtains (steps) s1 s2 x y where "reconcile_subscription now u v s = (Inr x, s1)" and "wallet_ok s1"
    and "(if transaction_active now v then grant_period loads cfg snap u v s1 else (Inr (), s1)) = (Inr y, s2)"
    and "same_but_wallet s2 t" and "ledger t = ledger s2" and "wallets t = wallets s2" and "wallet_ok t"
    and "r = sync_answer now v (if is_stale (subscriptions s u) (vt_expires_at v) then subscriptions t u else None)"
proof -
  obtain x s1 y s2 z where r1: "reconcile_subscription now u v s = (Inr x, s1)"
    and r2: "(if transaction_active now v then grant_period loads cfg snap u v s1 else (Inr (), s1)) = (Inr y, s2)"
    and r3: "audit_record (Some u) None ''subscription_change'' (sync_payload now v (is_stale (subscriptions s u) (vt_expires_at v))) s2 = (Inr z, t)"
    and result: "r = sync_answer now v (if is_stale (subscriptions s u) (vt_expires_at v) then subscriptions t u else None)"
    using assms(2) unfolding sync_verified_def Let_def by (elim and_then_InrE) simp
  have ok1: "wallet_ok s1" by (rule reconcile_frame(3)[OF r1 assms(1)])
  then have ok2: "wallet_ok s2" using r2 grant_period_effect(1) by (auto split: if_splits)
  show thesis
    by (rule steps[OF r1 ok1 r2 audit_record_same[OF r3] audit_record_wallet(1,2)[OF r3] audit_record_wallet(3)[OF r3 ok2] result])
qed

text \<open>
  C10. Reports of store periods may arrive in any order, late or repeated. A transaction of a period that ends before the one an active row is
  paid for changes nothing and is answered with that row; any other is what the row says afterwards, active exactly if it is neither revoked
  nor replaced by an upgrade and still runs. So of what a user was entitled to at some time to come, a sync takes away exactly what Apple
  took back: a transaction without an end, or a revoked or replaced one whose period ends no earlier than the one paid for. Nobody else's
  row is touched.
\<close>

theorem sync_settles_entitlement:
  assumes "wallet_ok s" and "sync_verified loads cfg snap now u v s = (Inr r, t)" and "subscriptions s u = Some row"
  shows "\<exists>row'. subscriptions t u = Some row' \<and> (\<forall>other. other \<noteq> u \<longrightarrow> subscriptions t other = subscriptions s other)
    \<and> (if is_stale (Some row) (vt_expires_at v)
       then row' = row \<and> r = \<lparr>sr_is_subscribed = row_is_subscribed now row, sr_expires_at = sub_expires_at row, sr_plan = sub_plan row\<rparr>
       else sub_status row' = (if transaction_active now v then Sub_active else Sub_expired) \<and> sub_expires_at row' = vt_expires_at v
         \<and> sub_plan row' = or_none (vt_product_id v) \<and> sub_will_renew row' = sub_will_renew row
         \<and> r = \<lparr>sr_is_subscribed = transaction_active now v, sr_expires_at = vt_expires_at v, sr_plan = or_none (vt_product_id v)\<rparr>)
    \<and> (\<forall>at \<ge> now. row_is_subscribed at row \<longrightarrow>
         row_is_subscribed at row' = (case vt_expires_at v of
             None \<Rightarrow> False | Some e \<Rightarrow> (\<exists>e0. sub_expires_at row = Some e0 \<and> e < e0) \<or> \<not> vt_revoked v \<and> \<not> vt_upgraded v))"
  using assms(1,2)
proof (cases rule: sync_returned)
  case (steps s1 s2 x y)
  let ?stale = "is_stale (Some row) (vt_expires_at v)"
  define new where "new = row\<lparr>sub_status := (if transaction_active now v then Sub_active else Sub_expired),
      sub_plan := or_none (vt_product_id v), sub_expires_at := vt_expires_at v, sub_updated_at := now\<rparr>"
  have subs: "subscriptions t = subscriptions s1"
    using steps(3,4) grant_period_effect(2)[OF steps(2)] by (auto simp: same_but_wallet_def split: if_splits)
  have s1: "subscriptions s1 = (if ?stale then subscriptions s else (subscriptions s)(u \<mapsto> new))"
    using steps(1) assms(3) by (auto simp: reconcile_subscription_def Let_def new_def dest!: store_subscription_effect split: if_splits)
  show ?thesis
  proof (cases ?stale)
    case True
    then obtain e0 e where "sub_expires_at row = Some e0" "vt_expires_at v = Some e" "e < e0"
      by (auto simp: is_stale_def split: option.splits)
    then show ?thesis
      using True subs s1 assms(3) steps(8) by (simp add: sync_answer_def)
  next
    case False
    have kept: "row_is_subscribed at new = (case vt_expires_at v of None \<Rightarrow> False | Some e \<Rightarrow> (\<exists>e0. sub_expires_at row = Some e0 \<and> e < e0) \<or> \<not> vt_revoked v \<and> \<not> vt_upgraded v)"
      if "row_is_subscribed at row" "now \<le> at" for at
      using that False
      by (auto simp: row_is_subscribed_def new_def transaction_active_def is_stale_def split: option.splits if_splits)
    show ?thesis
      using False subs s1 assms(3) steps(8) kept by (simp add: sync_answer_def) (simp add: new_def)
  qed
qed

text \<open>
  C11. One store period is credited once: a sync credits its user the amount of the product exactly
  when the transaction is active and neither key of the period is taken, nobody else anything; and
  the period counts as paid afterwards exactly when it did before or has just been credited, so a
  second sync of the same transaction, whatever the price list by then, credits nothing.
\<close>

theorem sync_credits_once:
  assumes "wallet_ok s" and "sync_verified loads cfg snap now u v s = (Inr r, t)"
  shows "current_balance w t = current_balance w s +
           (if w = u \<and> transaction_active now v \<and> \<not> period_paid u (vt_transaction_id v) s
            then sc_amount (subscription_credits loads cfg snap (or_none (vt_product_id v)) ''storekit'') else 0) \<and>
         (period_paid u (vt_transaction_id v) t \<longleftrightarrow> period_paid u (vt_transaction_id v) s \<or> transaction_active now v)"
  using assms
proof (cases rule: sync_returned)
  case (steps s1 s2 x y)
  note fr = wallet_part[OF reconcile_frame(1,2)[OF steps(1)]] and fr2 = wallet_part[OF steps(5,6)]
  show ?thesis
  proof (cases "transaction_active now v")
    case True
    with steps(3) have g: "grant_period loads cfg snap u v s1 = (Inr y, s2)" by simp
    note eff = grant_period_effect[OF steps(2) g]
    show ?thesis
      using True eff(3) unfolding fr2 eff(4) by (simp add: fr fr2 period_paid_def)
  next
    case False
    with steps(3) have "s2 = s1" by simp
    with False show ?thesis by (simp add: fr fr2 period_paid_def)
  qed
qed

lemma reconcile_returns: "users s u \<noteq> None \<Longrightarrow> \<exists>t. reconcile_subscription now u v s = (Inr (), t) \<and> users t = users s"
  by (cases "subscriptions s u") (auto simp: reconcile_subscription_def store_subscription_def Let_def)

lemma grant_period_returns:
  assumes "wallet_ok s" and "users s u \<noteq> None"
    and "credits = sc_amount (subscription_credits loads cfg snap (or_none (vt_product_id v)) ''storekit'')"
    and "0 < credits" and "bigint_ok credits" and "bigint_ok (current_balance u s + credits)"
  shows "\<exists>t. grant_period loads cfg snap u v s = (Inr (), t) \<and> users t = users s"
proof -
  obtain x t where once: "wallet_grant_once u credits (sub_grant_key (vt_transaction_id v))
      [sub_grant_key (vt_transaction_id v), adapty_txn_key (vt_transaction_id v)]
      [(''reason'', Val (JStr ''subscription_period'')), (''transactionId'', Val (JStr (vt_transaction_id v))),
       (''productId'', Val (JStr (vt_product_id v)))] ''subscription_period'' s = (Inr x, t)"
    using grant_once_returns[OF assms(1,2,4,5,6)] by blast
  have "users t = users s" using grant_once_same[OF assms(1) once] by (simp add: same_but_wallet_def)
  with assms(2) once show ?thesis
    unfolding grant_period_def Let_def assms(3)[symmetric] once and_then_simps signal_unmapped_product_def
    using audit_record_returns[of t u] by (simp del: not_None_eq)
qed

text \<open>A verified transaction of a known user is answered, provided its amount is positive and fits.\<close>

lemma sync_returns:
  assumes "wallet_ok s" and "users s u \<noteq> None"
    and "credits = sc_amount (subscription_credits loads cfg snap (or_none (vt_product_id v)) ''storekit'')"
    and "0 < credits" and "bigint_ok credits" and "bigint_ok (current_balance u s + credits)"
  shows "\<exists>r t. sync_verified loads cfg snap now u v s = (Inr r, t)"
proof -
  obtain s1 where r1: "reconcile_subscription now u v s = (Inr (), s1)" "users s1 = users s"
    using reconcile_returns[OF assms(2)] by blast
  have bal: "current_balance u s1 = current_balance u s"
    by (rule wallet_part(2)[OF reconcile_frame(1,2)[OF r1(1)]])
  obtain s2 where r2: "(if transaction_active now v then grant_period loads cfg snap u v s1 else (Inr (), s1)) = (Inr (), s2)"
      "users s2 = users s"
    using grant_period_returns[OF reconcile_frame(3)[OF r1(1) assms(1)] _ assms(3-5), of u] assms(2,6) r1(2) bal
    by (cases "transaction_active now v") auto
  obtain s3 where r3: "audit_record (Some u) None ''subscription_change''
      (sync_payload now v (is_stale (subscriptions s u) (vt_expires_at v))) s2 = (Inr (), s3)"
    using audit_record_returns[of s2 u] assms(2) r2(2) by (metis (no_types))
  show ?thesis
    unfolding sync_verified_def Let_def r1(1) and_then_simps(2) r2(1) r3 by simp
qed

section \<open>Witnesses\<close>

text \<open>Two periods of one chain, the first until 100, the second until 200, synced at time 10.\<close>

definition demo_period :: "string \<Rightarrow> instant \<Rightarrow> VerifiedTransaction" where
  "demo_period txn e = \<lparr>vt_transaction_id = txn, vt_original_transaction_id = ''1'', vt_product_id = ''week'',
     vt_expires_at = Some e, vt_revoked = False, vt_environment = ''sandbox'', vt_upgraded = False\<rparr>"

definition demo_subscribed :: db where
  "demo_subscribed = small_db\<lparr>subscriptions := [1 \<mapsto> \<lparr>sub_status = Sub_active, sub_plan = Some ''week'', sub_expires_at = Some 200,
     sub_will_renew = None, sub_updated_at = 0\<rparr>]\<rparr>"

lemma demo_subscribed_facts:
  "wallet_ok demo_subscribed" "users demo_subscribed 1 \<noteq> None" "current_balance 1 demo_subscribed = 40"
  using small_db_ok small_db_user by (simp_all add: demo_subscribed_def current_balance_def small_db_def)

lemma demo_amount: "sc_amount (subscription_credits demo_loads demo_settings [] (or_none (vt_product_id (demo_period txn e))) ''storekit'') = 50"
  by (simp add: subscription_credits_def channel_credits_def demo_settings_def demo_period_def or_none_def)

lemma demo_sync_returns:
  "\<exists>r t. sync_verified demo_loads demo_settings [] 10 1 (demo_period txn e) demo_subscribed = (Inr r, t)"
  by (rule sync_returns[OF demo_subscribed_facts(1,2) refl])
    (simp_all add: demo_amount bigint_ok_def demo_subscribed_facts(3) del: not_None_eq)

theorem sync_settles_entitlement_witness:
  "\<exists>r t row. sync_verified demo_loads demo_settings [] 10 1 (demo_period ''7'' 100) demo_subscribed = (Inr r, t) \<and>
     subscriptions t 1 = Some row \<and> sub_expires_at row = Some 200 \<and> row_is_subscribed 150 row"
proof -
  obtain r t where run: "sync_verified demo_loads demo_settings [] 10 1 (demo_period ''7'' 100) demo_subscribed = (Inr r, t)"
    using demo_sync_returns by blast
  have "subscriptions demo_subscribed 1 = Some \<lparr>sub_status = Sub_active, sub_plan = Some ''week'', sub_expires_at = Some 200,
     sub_will_renew = None, sub_updated_at = 0\<rparr>" by (simp add: demo_subscribed_def)
  from sync_settles_entitlement [OF demo_subscribed_facts(1) run this] show ?thesis
    using run by (auto simp: demo_period_def is_stale_def row_is_subscribed_def)
qed

theorem sync_credits_once_witness:
  "\<exists>r t. sync_verified demo_loads demo_settings [] 10 1 (demo_period ''7'' 300) demo_subscribed = (Inr r, t) \<and>
     current_balance 1 t = 90 \<and> period_paid 1 ''7'' t"
proof -
  obtain r t where run: "sync_verified demo_loads demo_settings [] 10 1 (demo_period ''7'' 300) demo_subscribed = (Inr r, t)"
    using demo_sync_returns by blast
  have "transaction_active 10 (demo_period ''7'' 300)" "\<not> period_paid 1 ''7'' demo_subscribed" "vt_transaction_id (demo_period ''7'' 300) = ''7''"
    by (simp_all add: transaction_active_def demo_period_def period_paid_def has_idempotency_key_def existing_tx_def find_tx_def
        demo_subscribed_def small_db_def sub_grant_key_def adapty_txn_key_def)
  with run sync_credits_once[OF demo_subscribed_facts(1) run, of 1] show ?thesis
    by (simp add: demo_amount demo_subscribed_facts(3))
qed

end
