(* ===== verification/Admin_Grant.thy ===== *)
theory Admin_Grant
  imports Subscription_Sync
begin

text \<open>
  \<open>admin/service.py\<close>: what an operator can do to a user's wallet and subscription.
\<close>

record AdminSubscriptionGrantResult =
  ag_expires_at :: instant
  ag_plan :: string
  ag_credits_granted :: int
  ag_new_balance :: "int option"
  ag_ledger_tx_id :: "nat option"
  ag_replay :: "bool option"

definition require_user_exists :: "uuid \<Rightarrow> unit tx" where
  "require_user_exists u s =
     (if users s u = None then (Inl (Raised UserNotFoundError ''user not found''), s) else (Inr (), s))"

definition admin_grant :: "uuid \<Rightarrow> int \<Rightarrow> string \<Rightarrow> string \<Rightarrow> ledger_result tx" where
  "admin_grant u amount key reason s =
     and_then (require_user_exists u s) (\<lambda>_ s.
     and_then (wallet_grant u amount key [(''source'', Val (JStr ''admin'')), (''reason'', Val (JStr reason))] reason s) (\<lambda>r s.
     and_then (audit_record (Some u) None ''admin_grant''
       [(''actor'', Val (JStr ''admin'')), (''userId'', Val (JStr (uuid_str u))), (''amount'', Val (JInt amount)),
        (''reason'', Val (JStr reason)), (''idempotencyKey'', Val (JStr key)), (''ledgerTxId'', RowId (ledger_tx_id r)),
        (''idempotentReplay'', Val (JBool (idempotent_replay r)))] s) (\<lambda>_ s.
     (Inr r, s))))"

text \<open>\<open>INSERT ... ON CONFLICT (user_id) DO UPDATE\<close>: auto-renew is kept from an existing row.\<close>

definition activate_subscription :: "uuid \<Rightarrow> string \<Rightarrow> instant \<Rightarrow> unit tx" where
  "activate_subscription u plan expires_at s =
     store_subscription u \<lparr>sub_status = Sub_active, sub_plan = Some plan, sub_expires_at = Some expires_at,
       sub_will_renew = Option.bind (subscriptions s u) sub_will_renew, sub_updated_at = sql_now s\<rparr> s"

definition admin_sub_key :: "string \<Rightarrow> string" where "admin_sub_key key = ''admin-sub-grant:'' @ key"

definition effective_credits :: "settings \<Rightarrow> int option \<Rightarrow> int" where
  "effective_credits cfg credits = (case credits of None \<Rightarrow> subscription_credits_per_period cfg | Some c \<Rightarrow> c)"

definition admin_sub_payload :: "uuid \<Rightarrow> string \<Rightarrow> instant \<Rightarrow> int \<Rightarrow> string \<Rightarrow> ledger_result option \<Rightarrow> payload" where
  "admin_sub_payload u plan expires_at credits key granted =
     [(''actor'', Val (JStr ''admin'')), (''userId'', Val (JStr (uuid_str u))), (''plan'', Val (JStr plan)),
      (''status'', Val (JStr ''active'')), (''expiresAt'', Instant expires_at), (''creditsGranted'', Val (JInt credits)),
      (''idempotencyKey'', Val (JStr key))]
     @ (case granted of None \<Rightarrow> [] | Some r \<Rightarrow> [(''ledgerTxId'', RowId (ledger_tx_id r))])"

definition grant_subscription ::
  "settings \<Rightarrow> uuid \<Rightarrow> instant \<Rightarrow> string \<Rightarrow> string \<Rightarrow> int option \<Rightarrow> AdminSubscriptionGrantResult tx" where
  "grant_subscription cfg u expires_at plan key credits s =
     and_then (require_user_exists u s) (\<lambda>_ s.
     let amount = effective_credits cfg credits in
     and_then (activate_subscription u plan expires_at s) (\<lambda>_ s.
     and_then (if amount > 0
               then and_then (wallet_grant u amount (admin_sub_key key)
                      [(''source'', Val (JStr ''admin'')), (''reason'', Val (JStr ''admin_subscription_grant''))]
                      ''admin_subscription_grant'' s) (\<lambda>r s. (Inr (Some r), s))
               else (Inr None, s)) (\<lambda>granted s.
     and_then (audit_record (Some u) None ''admin_subscription_grant'' (admin_sub_payload u plan expires_at amount key granted) s) (\<lambda>_ s.
     (Inr \<lparr>ag_expires_at = expires_at, ag_plan = plan, ag_credits_granted = amount,
           ag_new_balance = map_option new_balance granted, ag_ledger_tx_id = map_option ledger_tx_id granted,
           ag_replay = map_option idempotent_replay granted\<rparr>, s)))))"

definition admin_wallet_view :: "uuid \<Rightarrow> nat \<Rightarrow> (int \<times> ledger_tx list) tx" where
  "admin_wallet_view u last_n s = and_then (require_user_exists u s) (\<lambda>_ s. get_wallet_view u last_n s)"

section \<open>What a subscription grant does\<close>

lemma activate_effect:
  assumes "activate_subscription u plan e s = (Inr x, t)"
  shows "ledger t = ledger s" "wallets t = wallets s" "users t = users s" "wallet_ok s \<Longrightarrow> wallet_ok t"
    "\<exists>row. subscriptions t u = Some row \<and> sub_status row = Sub_active \<and> sub_plan row = Some plan \<and> sub_expires_at row = Some e"
  using assms unfolding activate_subscription_def by (auto dest!: store_subscription_effect)

text \<open>
  An operator's subscription grant that is answered has done all of it: the user existed, the
  subscription is active with the given plan and end, and the credits (the given number, or the
  instance's period amount) were added exactly once per idempotency key, to that user only; an
  explicit zero adds nothing.
\<close>

theorem grant_subscription_effect:
  assumes "wallet_ok s" and "grant_subscription cfg u e plan key credits s = (Inr r, t)"
  shows "users s u \<noteq> None \<and>
    (\<exists>row. subscriptions t u = Some row \<and> sub_status row = Sub_active \<and> sub_plan row = Some plan \<and> sub_expires_at row = Some e) \<and>
    current_balance w t = current_balance w s +
      (if w = u \<and> 0 < effective_credits cfg credits \<and> \<not> has_idempotency_key u (admin_sub_key key) s
       then effective_credits cfg credits else 0) \<and>
    (has_idempotency_key u (admin_sub_key key) t \<longleftrightarrow>
       has_idempotency_key u (admin_sub_key key) s \<or> 0 < effective_credits cfg credits) \<and> wallet_ok t"
proof -
  let ?a = "effective_credits cfg credits" and ?k = "admin_sub_key key"
  let ?meta = "[(''source'', Val (JStr ''admin'')), (''reason'', Val (JStr ''admin_subscription_grant''))]"
  obtain x s1 granted s2 z where known: "users s u \<noteq> None" and act: "activate_subscription u plan e s = (Inr x, s1)"
    and pay: "(if ?a > 0 then and_then (wallet_grant u ?a ?k ?meta ''admin_subscription_grant'' s1) (\<lambda>r s. (Inr (Some r), s))
               else (Inr None, s1)) = (Inr granted, s2)"
    and aud: "audit_record (Some u) None ''admin_subscription_grant'' (admin_sub_payload u plan e ?a key granted) s2 = (Inr z, t)"
    using assms(2) unfolding grant_subscription_def Let_def
    by (elim and_then_InrE) (auto simp: require_user_exists_def split: if_splits)
  note a = activate_effect[OF act] and au = audit_record_wallet[OF aud]
  note pre = wallet_part[OF a(1,2)]
  have ok1: "wallet_ok s1" by (rule a(4)[OF assms(1)])
  have subs: "subscriptions t = subscriptions s1" and main: "wallet_ok s2"
    "current_balance w s2 = current_balance w s1 + (if w = u \<and> 0 < ?a \<and> \<not> has_idempotency_key u ?k s1 then ?a else 0)"
    "has_idempotency_key u ?k s2 \<longleftrightarrow> has_idempotency_key u ?k s1 \<or> 0 < ?a"
  proof -
    have "wallet_ok s2 \<and> same_but_wallet s1 s2 \<and>
      current_balance w s2 = current_balance w s1 + (if w = u \<and> 0 < ?a \<and> \<not> has_idempotency_key u ?k s1 then ?a else 0) \<and>
      (has_idempotency_key u ?k s2 \<longleftrightarrow> has_idempotency_key u ?k s1 \<or> 0 < ?a)"
    proof (cases "0 < ?a")
      case True
      with pay obtain g where g: "wallet_grant u ?a ?k ?meta ''admin_subscription_grant'' s1 = (Inr g, s2)"
        by (auto elim!: and_then_InrE)
      with True wl.grant_ok[OF ok1 g] wallet_grant_same[OF ok1 g] wl.grant_keys[OF ok1 g] wl.grant_balance[OF ok1 g]
        wl.grant_replay_same[OF ok1 g] show ?thesis by (cases "has_idempotency_key u ?k s1") auto
    qed (use pay ok1 in auto)
    then show "subscriptions t = subscriptions s1" "wallet_ok s2"
      "current_balance w s2 = current_balance w s1 + (if w = u \<and> 0 < ?a \<and> \<not> has_idempotency_key u ?k s1 then ?a else 0)"
      "has_idempotency_key u ?k s2 \<longleftrightarrow> has_idempotency_key u ?k s1 \<or> 0 < ?a"
      using audit_record_same[OF aud] by (simp_all add: same_but_wallet_def)
  qed
  have "current_balance w t = current_balance w s + (if w = u \<and> 0 < ?a \<and> \<not> has_idempotency_key u ?k s then ?a else 0)"
    "has_idempotency_key u ?k t \<longleftrightarrow> has_idempotency_key u ?k s \<or> 0 < ?a"
    unfolding au(4,5) main(2,3) pre by (rule refl)+
  with known a(5) subs au(3)[OF main(1)] show ?thesis by simp
qed

text \<open>
  Refusals leave nothing behind: for an unknown user the grant answers 404; and when the
  idempotency key was already spent on another amount it answers 409, with the request's
  transaction rolled back, so the subscription is not activated either.
\<close>

theorem grant_subscription_refused:
  assumes "wallet_ok s" and "users s u = None \<or> (0 < effective_credits cfg credits \<and> bigint_ok (effective_credits cfg credits) \<and>
      existing_tx u (admin_sub_key key) s = Some x \<and> (tx_type x, tx_amount x) \<noteq> (Credit, effective_credits cfg credits))"
  shows "session_scope (grant_subscription cfg u e plan key credits) s =
    (Inl (if users s u = None then Raised UserNotFoundError ''user not found''
          else Raised ConflictError ''idempotency key reused with different payload''), s) \<and>
    status_code UserNotFoundError = 404 \<and> status_code ConflictError = 409"
proof -
  have codes: "status_code UserNotFoundError = 404" "status_code ConflictError = 409"
    by (simp_all add: status_code_def error_defs)
  show ?thesis
  proof (cases "users s u = None")
    case True
    with codes show ?thesis by (simp add: session_scope_eq grant_subscription_def require_user_exists_def)
  next
    case False
    let ?a = "effective_credits cfg credits"
    from False assms(2) have pre: "0 < ?a" "bigint_ok ?a" "existing_tx u (admin_sub_key key) s = Some x"
      "(tx_type x, tx_amount x) \<noteq> (Credit, ?a)" by auto
    obtain s1 where act: "activate_subscription u plan e s = (Inr (), s1)"
      using False by (auto simp: activate_subscription_def store_subscription_def)
    note a = activate_effect[OF act]
    have "session_scope (wallet_grant u ?a (admin_sub_key key) meta reason) s1 =
        (Inl (Raised ConflictError ''idempotency key reused with different payload''), s1)" for meta reason
      using pre False a(1,2,3) a(4)[OF assms(1)]
      by (auto simp: grant_committed replay_outcome_def existing_tx_def)
    from session_scope_InlD[OF this] have "\<exists>t'. wallet_grant u ?a (admin_sub_key key) meta reason s1 =
        (Inl (Raised ConflictError ''idempotency key reused with different payload''), t')" for meta reason .
    then obtain t' where "wallet_grant u ?a (admin_sub_key key) [(''source'', Val (JStr ''admin'')), (''reason'', Val (JStr ''admin_subscription_grant''))]
        ''admin_subscription_grant'' s1 = (Inl (Raised ConflictError ''idempotency key reused with different payload''), t')" by blast
    with act pre(1) False codes show ?thesis
      by (auto simp: session_scope_eq grant_subscription_def require_user_exists_def Let_def)
  qed
qed

section \<open>Witnesses\<close>

lemma demo_admin_returns: "\<exists>r t. grant_subscription demo_settings 1 500 ''pro'' ''a1'' (Some 7) small_db = (Inr r, t)"
proof -
  obtain s1 where act: "activate_subscription 1 ''pro'' 500 small_db = (Inr (), s1)"
    by (auto simp: activate_subscription_def store_subscription_def)
  note a = activate_effect[OF act]
  have ok: "wallet_ok s1" and known: "users s1 1 \<noteq> None" and bal: "current_balance 1 s1 = 40"
    and fresh: "existing_tx 1 (admin_sub_key ''a1'') s1 = None"
    using a(4)[OF small_db_ok] small_db_user a(3) wallet_part(2)[OF a(1,2)] a(1)
    by (simp_all add: existing_tx_def find_tx_def small_db_def admin_sub_key_def current_balance_def del: not_None_eq)
  obtain g s2 where g: "wallet_grant 1 7 (admin_sub_key ''a1'') [(''source'', Val (JStr ''admin'')), (''reason'', Val (JStr ''admin_subscription_grant''))]
      ''admin_subscription_grant'' s1 = (Inr g, s2)"
    using grant_posts[OF ok known _ _ _ fresh, of 7] by (auto simp: bal bigint_ok_def)
  have "users s2 1 \<noteq> None" using known wallet_grant_same[OF ok g] by (simp add: same_but_wallet_def)
  from audit_record_returns[OF this] obtain t where
    "audit_record (Some 1) None ''admin_subscription_grant'' (admin_sub_payload 1 ''pro'' 500 7 ''a1'' (Some g)) s2 = (Inr (), t)" by blast
  then show ?thesis
    using small_db_user act g by (auto simp: grant_subscription_def require_user_exists_def effective_credits_def Let_def)
qed

theorem grant_subscription_effect_witness:
  "\<exists>r t. grant_subscription demo_settings 1 500 ''pro'' ''a1'' (Some 7) small_db = (Inr r, t) \<and> current_balance 1 t = 47"
proof -
  obtain r t where run: "grant_subscription demo_settings 1 500 ''pro'' ''a1'' (Some 7) small_db = (Inr r, t)"
    using demo_admin_returns by blast
  have "\<not> has_idempotency_key 1 (admin_sub_key ''a1'') small_db"
    by (simp add: has_idempotency_key_def existing_tx_def find_tx_def small_db_def admin_sub_key_def)
  with run grant_subscription_effect[OF small_db_ok run, of 1] show ?thesis
    by (auto simp: effective_credits_def)
qed

theorem grant_subscription_refused_witness:
  "session_scope (grant_subscription demo_settings 9 500 ''pro'' ''a1'' None) small_db =
     (Inl (Raised UserNotFoundError ''user not found''), small_db)"
  using grant_subscription_refused[OF small_db_ok, of 9 demo_settings None "''a1''" undefined 500 "''pro''"] by simp

end
