(* ===== verification/Adapty_Parser.thy ===== *)
theory Adapty_Parser
  imports PyJson
begin

text \<open>
  \<open>billing_adapty/parser.py\<close>: defensive reading of an Adapty webhook body, and the meaning of an event.
  One definition per parse function, over the body as the members of a JSON object.
\<close>

definition GRANTING_EVENTS :: "string list" where
  "GRANTING_EVENTS = [''trial_started'', ''subscription_started'', ''subscription_renewed'']"
definition EXPIRING_EVENTS :: "string list" where
  "EXPIRING_EVENTS = [''subscription_expired'', ''subscription_cancelled'']"
definition NOOP_EVENTS :: "string list" where
  "NOOP_EVENTS = [''subscription_renewal_cancelled'', ''trial_renewal_cancelled'']"
definition CONDITIONAL_EVENTS :: "string list" where
  "CONDITIONAL_EVENTS = [''access_level_updated'']"
definition ONE_TIME_PURCHASE_EVENTS :: "string list" where
  "ONE_TIME_PURCHASE_EVENTS = [''non_subscription_purchase'']"
definition KNOWN_EVENTS :: "string list" where
  "KNOWN_EVENTS = GRANTING_EVENTS @ EXPIRING_EVENTS @ NOOP_EVENTS @ CONDITIONAL_EVENTS @ ONE_TIME_PURCHASE_EVENTS"

datatype semantics = SEM_GRANTING | SEM_EXPIRING | SEM_NOOP | SEM_ONE_TIME_PURCHASE

fun semantics_str :: "semantics \<Rightarrow> string" where
  "semantics_str SEM_GRANTING = ''granting''"
| "semantics_str SEM_EXPIRING = ''expiring''"
| "semantics_str SEM_NOOP = ''noop''"
| "semantics_str SEM_ONE_TIME_PURCHASE = ''one_time_purchase''"

datatype resolved_from = From_customer_user_id | From_profile_id

fun resolved_from_str :: "resolved_from \<Rightarrow> string" where
  "resolved_from_str From_customer_user_id = ''customer_user_id''"
| "resolved_from_str From_profile_id = ''profile_id''"

record ParsedEvent =
  event_id :: string
  event_type :: string
  customer_user_id :: "uuid option"
  vendor_product_id :: "string option"
  expires_at :: "instant option"
  transaction_id :: "string option"
  original_transaction_id :: "string option"
  is_active :: "bool option"
  access_level_id :: "string option"
  will_renew :: "bool option"
  profile_id :: "uuid option"
  ev_resolved_from :: resolved_from

abbreviation ep :: "json_obj \<Rightarrow> json_obj" where
  "ep body \<equiv> as_dict (jget ''event_properties'' body)"

abbreviation profile :: "json_obj \<Rightarrow> json_obj" where
  "profile body \<equiv> as_dict (jget ''profile'' body)"

definition parse_event_id :: "json_obj \<Rightarrow> string option" where
  "parse_event_id body = first_str
     [jget ''profile_event_id'' body, jget ''profile_event_id'' (ep body), jget ''event_id'' body, jget ''id'' body]"

definition parse_event_type :: "json_obj \<Rightarrow> string" where
  "parse_event_type body =
     (case first_str [jget ''event_type'' body, jget ''event'' body, jget ''event_type'' (ep body), jget ''type'' body] of
        None \<Rightarrow> []
      | Some raw \<Rightarrow> py_lower raw)"

definition parse_customer_user_id :: "json_obj \<Rightarrow> uuid option" where
  "parse_customer_user_id body =
     Option.bind (first_str [jget ''customer_user_id'' body, jget ''customer_user_id'' (profile body),
        jget ''customer_user_id'' (ep body), jget ''user_id'' body]) uuid_parse"

definition parse_profile_id :: "json_obj \<Rightarrow> uuid option" where
  "parse_profile_id body =
     Option.bind (first_str [jget ''profile_id'' body, jget ''profile_id'' (profile body), jget ''profile_id'' (ep body)]) uuid_parse"

definition parse_vendor_product_id :: "json_obj \<Rightarrow> string option" where
  "parse_vendor_product_id body = first_str
     [jget ''vendor_product_id'' (ep body), jget ''product_id'' (ep body), jget ''vendor_product_id'' body, jget ''product_id'' body]"

text \<open>A trailing \<open>Z\<close> becomes an offset; a naive result is UTC; what \<open>fromisoformat\<close> rejects is \<open>None\<close>.\<close>

definition parse_expires_at :: "iso_reader \<Rightarrow> json_obj \<Rightarrow> instant option" where
  "parse_expires_at from_iso body =
     (case first_str [jget ''subscription_expires_at'' (ep body), jget ''expires_at'' (ep body),
         jget ''subscription_expires_at'' body, jget ''expires_at'' body, jget ''expires_at'' (profile body)] of
        None \<Rightarrow> None
      | Some raw \<Rightarrow>
          let candidate = (if last raw = CHR ''Z'' then butlast raw @ ''+00:00'' else raw)
          in map_option as_utc (from_iso candidate))"

definition parse_transaction_id :: "json_obj \<Rightarrow> string option" where
  "parse_transaction_id body = first_str [jget ''transaction_id'' (ep body), jget ''transaction_id'' body]"

definition parse_original_transaction_id :: "json_obj \<Rightarrow> string option" where
  "parse_original_transaction_id body =
     first_str [jget ''original_transaction_id'' (ep body), jget ''original_transaction_id'' body]"

definition parse_is_active :: "json_obj \<Rightarrow> bool option" where
  "parse_is_active body = first_bool [jget ''is_active'' (ep body), jget ''is_active'' body]"

definition parse_access_level_id :: "json_obj \<Rightarrow> string option" where
  "parse_access_level_id body = first_str [jget ''access_level_id'' (ep body), jget ''access_level_id'' body]"

definition parse_will_renew :: "json_obj \<Rightarrow> bool option" where
  "parse_will_renew body = first_bool [jget ''will_renew'' (ep body), jget ''will_renew'' body]"

definition classify_event :: "ParsedEvent \<Rightarrow> semantics" where
  "classify_event event =
     (if event_type event \<in> set ONE_TIME_PURCHASE_EVENTS then SEM_ONE_TIME_PURCHASE
      else if event_type event \<in> set GRANTING_EVENTS then SEM_GRANTING
      else if event_type event \<in> set EXPIRING_EVENTS then SEM_EXPIRING
      else if event_type event \<in> set NOOP_EVENTS then SEM_NOOP
      else if is_active event = Some True \<and> access_level_id event = Some ''premium'' then SEM_GRANTING
      else if is_active event = Some False then SEM_EXPIRING
      else SEM_NOOP)"

lemma event_id_nonempty: "parse_event_id body = Some e \<Longrightarrow> e \<noteq> []"
  unfolding parse_event_id_def by (rule first_str_nonempty)

lemma transaction_id_nonempty: "parse_transaction_id body = Some e \<Longrightarrow> e \<noteq> []"
  unfolding parse_transaction_id_def by (rule first_str_nonempty)

text \<open>
  An event revokes access only on an explicit report: \<open>classify_event\<close> is \<open>SEM_EXPIRING\<close> exactly for
  the two expiring event types and for an access-level update that says \<open>is_active: false\<close>, and it
  grants exactly for the three granting types and for a premium, active update. So an update that
  does not report its activity never revokes and never grants.
\<close>

theorem classify_event_exact:
  assumes "event_type event \<in> set KNOWN_EVENTS"
  shows "(classify_event event = SEM_EXPIRING) =
      (event_type event \<in> set EXPIRING_EVENTS \<or> (event_type event \<in> set CONDITIONAL_EVENTS \<and> is_active event = Some False)) \<and>
    (classify_event event = SEM_GRANTING) =
      (event_type event \<in> set GRANTING_EVENTS \<or> (event_type event \<in> set CONDITIONAL_EVENTS \<and> is_active event = Some True
         \<and> access_level_id event = Some ''premium''))"
proof -
  note lists = ONE_TIME_PURCHASE_EVENTS_def GRANTING_EVENTS_def EXPIRING_EVENTS_def NOOP_EVENTS_def CONDITIONAL_EVENTS_def
  from assms have "event_type event = ''trial_started'' \<or> event_type event = ''subscription_started'' \<or>
      event_type event = ''subscription_renewed'' \<or> event_type event = ''subscription_expired'' \<or>
      event_type event = ''subscription_cancelled'' \<or> event_type event = ''subscription_renewal_cancelled'' \<or>
      event_type event = ''trial_renewal_cancelled'' \<or> event_type event = ''access_level_updated'' \<or>
      event_type event = ''non_subscription_purchase''"
    by (simp add: KNOWN_EVENTS_def lists)
  then show ?thesis
    unfolding classify_event_def lists by (elim disjE) simp_all
qed

theorem classify_event_exact_witness:
  "classify_event \<lparr>event_id = ''e'', event_type = ''access_level_updated'', customer_user_id = None, vendor_product_id = None,
     expires_at = None, transaction_id = None, original_transaction_id = None, is_active = None, access_level_id = None,
     will_renew = None, profile_id = None, ev_resolved_from = From_profile_id\<rparr> \<noteq> SEM_EXPIRING"
  using classify_event_exact[of "\<lparr>event_id = ''e'', event_type = ''access_level_updated'', customer_user_id = None,
     vendor_product_id = None, expires_at = None, transaction_id = None, original_transaction_id = None, is_active = None,
     access_level_id = None, will_renew = None, profile_id = None, ev_resolved_from = From_profile_id\<rparr>"]
  by (simp add: KNOWN_EVENTS_def EXPIRING_EVENTS_def CONDITIONAL_EVENTS_def)

end
