(* ===== verification/Resolve.thy ===== *)
theory Resolve
  imports Store "HOL-Library.Multiset"
begin

text \<open>
  \<open>billing_common/resolve.py\<close>: from the identifier a payment aggregator sends to our user, in three
  steps (our own user id, a device id in any casing, an id of the previous service).
\<close>

definition RESOLVED_VIA_USER_ID :: string where "RESOLVED_VIA_USER_ID = ''user_id''"
definition RESOLVED_VIA_DEVICE_ID :: string where "RESOLVED_VIA_DEVICE_ID = ''device_id''"
definition RESOLVED_VIA_LEGACY_ID :: string where "RESOLVED_VIA_LEGACY_ID = ''legacy_user_id''"

text \<open>\<open>SELECT user_id FROM auth_devices WHERE lower(device_id) = :x ORDER BY user_id LIMIT 1\<close>\<close>

definition device_user :: "uuid \<Rightarrow> (string \<times> uuid) list \<Rightarrow> uuid option" where
  "device_user x devices =
     (case map snd (filter (\<lambda>(d, u). py_lower d = uuid_str x) devices) of
        [] \<Rightarrow> None
      | u # us \<Rightarrow> Some (fold min us u))"

definition resolve_user :: "uuid \<Rightarrow> db \<Rightarrow> (uuid \<times> string) option" where
  "resolve_user x s =
     (if users s x \<noteq> None then Some (x, RESOLVED_VIA_USER_ID)
      else case device_user x (auth_devices s) of
          Some u \<Rightarrow> Some (u, RESOLVED_VIA_DEVICE_ID)
        | None \<Rightarrow> (case legacy_user_ids s x of
              Some u \<Rightarrow> Some (u, RESOLVED_VIA_LEGACY_ID)
            | None \<Rightarrow> None))"

lemma fold_min_Min: "fold min us (u :: 'a :: linorder) = Min (set (u # us))"
  by (rule Min.set_eq_fold[symmetric])

lemma device_user_Min:
  "device_user x devices =
     (let us = snd ` {p \<in> set devices. py_lower (fst p) = uuid_str x} in if us = {} then None else Some (Min us))"
proof -
  let ?ids = "map snd (filter (\<lambda>(d, u). py_lower d = uuid_str x) devices)"
  have ids: "set ?ids = snd ` {p \<in> set devices. py_lower (fst p) = uuid_str x}"
    by auto
  have "(case ids of [] \<Rightarrow> None | u # us \<Rightarrow> Some (fold min us u)) = (if set ids = {} then None else Some (Min (set ids)))" for ids :: "uuid list"
    by (cases ids) (simp_all only: fold_min_Min list.case set_empty list.distinct if_True if_False simp_thms)
  then show ?thesis
    unfolding device_user_def Let_def ids[symmetric] .
qed

text \<open>The tables the resolution reads point at users.\<close>

definition links_ok :: "db \<Rightarrow> bool" where
  "links_ok s \<longleftrightarrow> (\<forall>(d, u) \<in> set (auth_devices s). users s u \<noteq> None) \<and> (\<forall>x u. legacy_user_ids s x = Some u \<longrightarrow> users s u \<noteq> None)"

lemma resolved_is_user:
  assumes "links_ok s" and "resolve_user x s = Some (u, via)"
  shows "users s u \<noteq> None"
proof (cases "users s x = None \<and> device_user x (auth_devices s) \<noteq> None")
  case True
  then obtain v where v: "device_user x (auth_devices s) = Some v" by auto
  let ?us = "snd ` {p \<in> set (auth_devices s). py_lower (fst p) = uuid_str x}"
  from v have ne: "?us \<noteq> {}" and m: "v = Min ?us"
    unfolding device_user_Min by (auto simp: Let_def split: if_splits)
  have "Min ?us \<in> ?us"
    by (rule Min_in) (use ne in auto)
  with assms True v m show ?thesis by (auto simp: resolve_user_def links_ok_def)
next
  case False
  with assms show ?thesis
    by (auto simp: resolve_user_def links_ok_def split: if_splits option.splits)
qed

text \<open>
  A payment that names a device reaches the device's owner: if the identifier is not itself a user
  and every device row that spells it, in whatever casing, belongs to \<open>u\<close>, it resolves to \<open>u\<close>; the
  order in which the table returns its rows is irrelevant; and an identifier that is a user is
  never redirected.
\<close>

theorem resolve_device_any_case:
  assumes "(d, u) \<in> set (auth_devices s)" and "py_lower d = uuid_str x"
    and "\<And>d' u'. (d', u') \<in> set (auth_devices s) \<Longrightarrow> py_lower d' = uuid_str x \<Longrightarrow> u' = u"
    and "mset devices = mset (auth_devices s)"
  shows "resolve_user x (s\<lparr>auth_devices := devices\<rparr>) =
    Some (if users s x = None then (u, RESOLVED_VIA_DEVICE_ID) else (x, RESOLVED_VIA_USER_ID))"
proof -
  have same: "set devices = set (auth_devices s)" using assms(4) by (metis set_mset_mset)
  have "snd ` {p \<in> set devices. py_lower (fst p) = uuid_str x} = {u}"
  proof (rule equalityI; rule subsetI)
    fix v assume "v \<in> snd ` {p \<in> set devices. py_lower (fst p) = uuid_str x}"
    then obtain d' where "(d', v) \<in> set (auth_devices s)" "py_lower d' = uuid_str x" unfolding same by auto
    then show "v \<in> {u}" using assms(3) by blast
  next
    fix v assume "v \<in> {u}"
    with assms(1,2) have "(d, v) \<in> {p \<in> set devices. py_lower (fst p) = uuid_str x}" unfolding same by simp
    then show "v \<in> snd ` {p \<in> set devices. py_lower (fst p) = uuid_str x}" by (rule rev_image_eqI) simp
  qed
  then show ?thesis by (auto simp: resolve_user_def device_user_Min Let_def)
qed

theorem resolve_device_any_case_witness:
  "resolve_user 171 (empty_db\<lparr>auth_devices := [(''x'', 7), (uuid_str 171, 5)]\<rparr>) = Some (5, RESOLVED_VIA_DEVICE_ID)"
proof -
  let ?s = "empty_db\<lparr>auth_devices := [(uuid_str 171, 5), (''x'', 7)]\<rparr>"
  have "py_lower ''x'' \<noteq> uuid_str 171"
    using uuid_str_length[of 171] by (auto simp: py_lower_def dest: arg_cong[of _ _ length])
  then show ?thesis
    using resolve_device_any_case[of "uuid_str 171" 5 ?s 171 "[(''x'', 7), (uuid_str 171, 5)]"] py_lower_uuid_str[of 171]
    by (auto simp: empty_db_def)
qed

end
