(* ===== verification/Policy.thy ===== *)
theory Policy
  imports Store
begin

text \<open>
  \<open>policy/engine.py\<close> and \<open>policy/loader.py\<close>: the access decision for a chat turn. \<open>evaluate\<close> is the
  source's order of checks; \<open>load_policy_state\<close> reads its input from the store with the lazy expiry of
  a subscription; \<open>effective\<close> is what \<open>/policy/effective\<close> answers.
\<close>

datatype Mode = Mode_credits | Mode_byok

datatype BlockReason =
    Block_trial_used | Block_subscription_required | Block_subscription_expired | Block_credits_empty
  | Block_byok_disabled | Block_byok_invalid | Block_rate_limited | Block_policy_denied | Block_max_tokens

record PolicyState =
  subscription_status :: SubscriptionStatus
  trial_used :: bool
  credits_balance :: int
  byok_enabled :: bool
  byok_status :: ByokState

record Decision =
  allow :: bool
  block_reason :: "BlockReason option"

definition allowed :: Decision where
  "allowed = \<lparr>allow = True, block_reason = None\<rparr>"

definition blocked :: "BlockReason \<Rightarrow> Decision" where
  "blocked r = \<lparr>allow = False, block_reason = Some r\<rparr>"

definition byok_state :: "bool \<Rightarrow> ByokState \<Rightarrow> ByokState" where
  "byok_state enabled status = (if \<not> enabled then Byok_disabled else status)"

definition evaluate :: "PolicyState \<Rightarrow> Mode \<Rightarrow> int \<Rightarrow> Decision" where
  "evaluate state mode required_credits =
     (if mode = Mode_byok then
        if subscription_status state \<noteq> Sub_active then
          if subscription_status state = Sub_expired then blocked Block_subscription_expired
          else blocked Block_subscription_required
        else
          let effective = byok_state (byok_enabled state) (byok_status state) in
          if effective = Byok_disabled then blocked Block_byok_disabled
          else if effective \<noteq> Byok_valid then blocked Block_byok_invalid
          else allowed
      else if subscription_status state = Sub_active then
        if credits_balance state < max 1 required_credits then blocked Block_credits_empty
        else allowed
      else if subscription_status state = Sub_expired then blocked Block_subscription_expired
      else if trial_used state then blocked Block_trial_used
      else allowed)"

section \<open>Loading the state\<close>

definition effective_subscription_status :: "instant \<Rightarrow> SubscriptionStatus option \<Rightarrow> instant option \<Rightarrow> SubscriptionStatus" where
  "effective_subscription_status now status expires_at =
     (if status = None \<or> status = Some Sub_none then Sub_none
      else if status = Some Sub_expired then Sub_expired
      else if (case expires_at of None \<Rightarrow> False | Some e \<Rightarrow> e \<le> now) then Sub_expired
      else Sub_active)"

definition load_policy_state :: "instant \<Rightarrow> uuid \<Rightarrow> db \<Rightarrow> PolicyState" where
  "load_policy_state now u s =
     \<lparr>subscription_status = (case subscriptions s u of
          None \<Rightarrow> effective_subscription_status now None None
        | Some row \<Rightarrow> effective_subscription_status now (Some (sub_status row)) (sub_expires_at row)),
      trial_used = (case users s u of None \<Rightarrow> False | Some used \<Rightarrow> used),
      credits_balance = (case wallets s u of None \<Rightarrow> 0 | Some b \<Rightarrow> b),
      byok_enabled = (case byok_keys s u of None \<Rightarrow> False | Some k \<Rightarrow> bk_enabled k),
      byok_status = (case byok_keys s u of None \<Rightarrow> Byok_missing | Some k \<Rightarrow> bk_key_status k)\<rparr>"

record EffectivePolicy =
  is_subscribed :: bool
  trial_remaining :: int
  ep_credits_balance :: int
  ep_byok_enabled :: bool
  can_generate_credits_mode :: bool
  can_generate_byok_mode :: bool
  reasons :: "BlockReason list"
  subscription_expires_at :: "instant option"
  subscription_plan :: "string option"
  subscription_will_renew :: "bool option"

definition effective_reasons :: "Decision \<Rightarrow> Decision \<Rightarrow> BlockReason list" where
  "effective_reasons credits_decision byok_decision =
     (let first = (if \<not> allow credits_decision then (case block_reason credits_decision of None \<Rightarrow> [] | Some r \<Rightarrow> [r]) else [])
      in if \<not> allow byok_decision
         then (case block_reason byok_decision of None \<Rightarrow> first | Some r \<Rightarrow> if r \<in> set first then first else first @ [r])
         else first)"

definition effective :: "instant \<Rightarrow> uuid \<Rightarrow> db \<Rightarrow> EffectivePolicy" where
  "effective now u s =
     (let state = load_policy_state now u s;
          credits_decision = evaluate state Mode_credits 1;
          byok_decision = evaluate state Mode_byok 1;
          subscribed = (subscription_status state = Sub_active);
          row = (if subscribed then subscriptions s u else None)
      in \<lparr>is_subscribed = subscribed,
          trial_remaining = (if subscription_status state = Sub_none \<and> \<not> trial_used state then 1 else 0),
          ep_credits_balance = credits_balance state,
          ep_byok_enabled = (byok_enabled state \<and> byok_status state = Byok_valid),
          can_generate_credits_mode = allow credits_decision,
          can_generate_byok_mode = allow byok_decision,
          reasons = effective_reasons credits_decision byok_decision,
          subscription_expires_at = Option.bind row sub_expires_at,
          subscription_plan = Option.bind row sub_plan,
          subscription_will_renew = Option.bind row sub_will_renew\<rparr>)"

section \<open>Properties\<close>

lemma decision_simps [simp]:
  "allow allowed" "block_reason allowed = None" "\<not> allow (blocked r)" "block_reason (blocked r) = Some r"
  by (simp_all add: allowed_def blocked_def)

text \<open>The reasons the engine can give: those of the gateway and of the orchestrator never appear.\<close>

definition policy_reasons :: "BlockReason list" where
  "policy_reasons = [Block_trial_used, Block_subscription_required, Block_subscription_expired,
     Block_credits_empty, Block_byok_disabled, Block_byok_invalid]"

lemma evaluate_shape:
  "evaluate state mode n = allowed \<or> (\<exists>r \<in> set policy_reasons. evaluate state mode n = blocked r)"
  unfolding evaluate_def policy_reasons_def by (simp add: Let_def)

text \<open>
  The decision is monotone: a state with at least the credits of another and otherwise equal, asked
  for at most as many, is allowed wherever the other is; and a decision blocks exactly when it
  gives a reason, which is always one of the six reasons of the policy.
\<close>

theorem evaluate_monotone:
  assumes "credits_balance st \<le> b" and "n' \<le> n"
  shows "(allow (evaluate st mode n) \<le> allow (evaluate (st\<lparr>credits_balance := b\<rparr>) mode n')) \<and>
         (allow (evaluate st mode n) = (block_reason (evaluate st mode n) = None)) \<and>
         set_option (block_reason (evaluate st mode n)) \<subseteq> set policy_reasons"
proof (intro conjI)
  show "allow (evaluate st mode n) \<le> allow (evaluate (st\<lparr>credits_balance := b\<rparr>) mode n')"
    using assms by (auto simp: evaluate_def Let_def)
  show "allow (evaluate st mode n) = (block_reason (evaluate st mode n) = None)"
    "set_option (block_reason (evaluate st mode n)) \<subseteq> set policy_reasons"
    using evaluate_shape[of st mode n] by auto
qed

lemma effective_reasons_sound:
  assumes "c = allowed \<or> (\<exists>r. c = blocked r)" and "d = allowed \<or> (\<exists>r. d = blocked r)"
  shows "distinct (effective_reasons c d) \<and> (effective_reasons c d = [] \<longleftrightarrow> allow c \<and> allow d) \<and>
    set (effective_reasons c d) = set_option (block_reason c) \<union> set_option (block_reason d)"
  using assms by (elim disjE exE) (auto simp: effective_reasons_def Let_def)

text \<open>
  \<open>/policy/effective\<close> tells what \<open>/chat/run\<close> will decide: its two flags are the decisions of
  \<open>evaluate\<close> on the same state; its reasons are distinct, empty exactly when both modes are allowed,
  and contain a mode's reason whenever that mode is blocked; it reports the one free trial only
  while the credits mode is open; and it shows a plan only to a subscriber.
\<close>

theorem effective_agrees:
  "let st = load_policy_state now u s; ep = effective now u s in
     can_generate_credits_mode ep = allow (evaluate st Mode_credits 1) \<and>
     can_generate_byok_mode ep = allow (evaluate st Mode_byok 1) \<and>
     distinct (reasons ep) \<and>
     (reasons ep = [] \<longleftrightarrow> can_generate_credits_mode ep \<and> can_generate_byok_mode ep) \<and>
     set (reasons ep) = set_option (block_reason (evaluate st Mode_credits 1)) \<union> set_option (block_reason (evaluate st Mode_byok 1)) \<and>
     (trial_remaining ep = 1) \<le> can_generate_credits_mode ep \<and>
     (subscription_plan ep \<noteq> None) \<le> is_subscribed ep"
proof -
  define st where "st = load_policy_state now u s"
  define c where "c = evaluate st Mode_credits 1"
  define d where "d = evaluate st Mode_byok 1"
  have c: "c = allowed \<or> (\<exists>r. c = blocked r)" and d: "d = allowed \<or> (\<exists>r. d = blocked r)"
    unfolding c_def d_def using evaluate_shape by blast+
  have trial: "trial_remaining (effective now u s) = 1 \<Longrightarrow> allow c"
    unfolding effective_def c_def evaluate_def Let_def st_def by (simp split: if_splits)
  have plan: "subscription_plan (effective now u s) \<noteq> None \<Longrightarrow> is_subscribed (effective now u s)"
    unfolding effective_def Let_def by (auto split: if_splits)
  have reasons: "reasons (effective now u s) = effective_reasons c d"
    "can_generate_credits_mode (effective now u s) = allow c" "can_generate_byok_mode (effective now u s) = allow d"
    unfolding effective_def Let_def c_def d_def st_def by simp_all
  have "distinct (effective_reasons c d)" "effective_reasons c d = [] \<longleftrightarrow> allow c \<and> allow d"
    "set (effective_reasons c d) = set_option (block_reason c) \<union> set_option (block_reason d)"
    using effective_reasons_sound[OF c d] by simp_all
  with trial plan reasons show ?thesis
    by (simp add: Let_def st_def[symmetric] c_def[symmetric] d_def[symmetric] le_bool_def)
qed

theorem evaluate_monotone_witness:
  "allow (evaluate \<lparr>subscription_status = Sub_active, trial_used = True, credits_balance = 9, byok_enabled = False,
     byok_status = Byok_missing\<rparr> Mode_credits 3)"
  using evaluate_monotone[of "\<lparr>subscription_status = Sub_active, trial_used = True, credits_balance = 5,
     byok_enabled = False, byok_status = Byok_missing\<rparr>" 9 3 5 Mode_credits]
  by (simp add: evaluate_def)

end
