(* ===== verification/Token_Purchase.thy ===== *)
theory Token_Purchase
  imports Subscription_Sync Policy
begin

text \<open>
  \<open>token_purchase/service.py\<close>: \<open>POST /v1/tokens/purchase\<close>, a consumable StoreKit purchase turned into
  credits. The amount comes from the server's tables only, the ledger key is the one the Adapty
  webhook uses for the same purchase.
\<close>

record PurchaseResult =
  credits_added :: int
  pu_new_balance :: int
  pu_transaction_id :: string

definition token_purchase_key :: "string \<Rightarrow> string" where
  "token_purchase_key txn = ''token-purchase:'' @ txn"

definition require_active_subscription :: "instant \<Rightarrow> uuid \<Rightarrow> unit tx" where
  "require_active_subscription now u s =
     (if subscription_status (load_policy_state now u s) \<noteq> Sub_active
      then (Inl (Raised SubscriptionRequiredError ''an active subscription is required to buy tokens''), s)
      else (Inr (), s))"

definition credits_for_product :: "json_reader \<Rightarrow> settings \<Rightarrow> snapshot \<Rightarrow> string \<Rightarrow> exn + int" where
  "credits_for_product loads cfg snap p =
     (case one_time_credits loads cfg snap p of
        None \<Rightarrow> Inl (Raised ValidationFailedError ''unknown token product'')
      | Some c \<Rightarrow> Inr c)"

definition purchase ::
  "json_reader \<Rightarrow> settings \<Rightarrow> snapshot \<Rightarrow> (string \<Rightarrow> exn + VerifiedTransaction) \<Rightarrow> instant \<Rightarrow> uuid \<Rightarrow> string \<Rightarrow> PurchaseResult tx" where
  "purchase loads cfg snap verifier now u jws s =
     and_then (require_active_subscription now u s) (\<lambda>_ s.
     case verifier jws of
       Inl e \<Rightarrow> (Inl e, s)
     | Inr v \<Rightarrow>
         (case credits_for_product loads cfg snap (vt_product_id v) of
            Inl e \<Rightarrow> (Inl e, s)
          | Inr credits \<Rightarrow>
              let key = token_purchase_key (vt_transaction_id v) in
              and_then (wallet_grant_once u credits key [key]
                [(''source'', Val (JStr ''token_purchase'')), (''productId'', Val (JStr (vt_product_id v))),
                 (''transactionId'', Val (JStr (vt_transaction_id v)))] ''token_purchase'' s) (\<lambda>result s.
              case result of
                None \<Rightarrow> (Inr \<lparr>credits_added = 0, pu_new_balance = current_balance u s, pu_transaction_id = vt_transaction_id v\<rparr>, s)
              | Some r \<Rightarrow> (Inr \<lparr>credits_added = credits, pu_new_balance = new_balance r, pu_transaction_id = vt_transaction_id v\<rparr>, s))))"

text \<open>
  Without an active subscription (none, expired, or active in the row but past its end) a purchase
  is refused with \<open>subscription_required\<close> and a 403, whatever the transaction and the price list are:
  the verifier is not even consulted and the store is untouched.
\<close>

theorem purchase_requires_subscription:
  assumes "\<And>row. subscriptions s u = Some row \<Longrightarrow>
    sub_status row \<noteq> Sub_active \<or> (\<exists>e. sub_expires_at row = Some e \<and> e \<le> now)"
  shows "purchase loads cfg snap verifier now u jws s =
      (Inl (Raised SubscriptionRequiredError ''an active subscription is required to buy tokens''), s) \<and>
    status_code SubscriptionRequiredError = 403 \<and> code SubscriptionRequiredError = ''subscription_required''"
proof -
  have "subscription_status (load_policy_state now u s) \<noteq> Sub_active"
  proof (cases "subscriptions s u")
    case (Some row)
    with assms[OF Some] show ?thesis
      by (cases "sub_status row") (auto simp: load_policy_state_def effective_subscription_status_def)
  qed (simp add: load_policy_state_def effective_subscription_status_def)
  then show ?thesis
    by (simp add: purchase_def require_active_subscription_def status_code_def code_def SubscriptionRequiredError_def ForbiddenError_def)
qed

lemma grant_new_balance:
  assumes "wallet_ok s" and "wallet_grant u amount key meta reason s = (Inr r, t)"
  shows "new_balance r = current_balance u t"
  using assms(1) grant_raw[OF assms(2)] by (cases rule: grant_returned) simp_all

text \<open>
  A purchase that is answered added exactly what it says: the amount of the product under a key
  not yet taken and nothing otherwise, to the buyer alone; the balance it reports is the balance
  in the store; afterwards the transaction's key is taken, so that no channel using it pays
  again; and it touches no table but the wallet's.
\<close>

theorem purchase_credits_once:
  assumes "wallet_ok s" and "purchase loads cfg snap verifier now u jws s = (Inr r, t)"
  shows "\<exists>v c. verifier jws = Inr v \<and> one_time_credits loads cfg snap (vt_product_id v) = Some c \<and>
      credits_added r = (if has_idempotency_key u (token_purchase_key (vt_transaction_id v)) s then 0 else c) \<and>
      current_balance w t = current_balance w s + (if w = u then credits_added r else 0) \<and>
      pu_new_balance r = current_balance u t \<and>
      has_idempotency_key u (token_purchase_key (vt_transaction_id v)) t \<and> same_but_wallet s t \<and> wallet_ok t"
proof -
  obtain v where v: "verifier jws = Inr v"
    using assms(2) unfolding purchase_def require_active_subscription_def
    by (cases "verifier jws") (auto split: if_splits)
  obtain c where c: "one_time_credits loads cfg snap (vt_product_id v) = Some c"
    using assms(2) v unfolding purchase_def require_active_subscription_def credits_for_product_def
    by (cases "one_time_credits loads cfg snap (vt_product_id v)") (auto split: if_splits)
  let ?k = "token_purchase_key (vt_transaction_id v)"
  obtain x where once: "wallet_grant_once u c ?k [?k]
        [(''source'', Val (JStr ''token_purchase'')), (''productId'', Val (JStr (vt_product_id v))),
         (''transactionId'', Val (JStr (vt_transaction_id v)))] ''token_purchase'' s = (Inr x, t)"
    and r: "r = (case x of None \<Rightarrow> \<lparr>credits_added = 0, pu_new_balance = current_balance u t, pu_transaction_id = vt_transaction_id v\<rparr>
       | Some g \<Rightarrow> \<lparr>credits_added = c, pu_new_balance = new_balance g, pu_transaction_id = vt_transaction_id v\<rparr>)"
    using assms(2) unfolding purchase_def require_active_subscription_def credits_for_product_def Let_def
    by (auto simp: v c elim!: and_then_InrE split: if_splits option.splits)
  have key: "?k \<in> set [?k]" by simp
  note eff = wl.once_effect[OF assms(1) once key]
  have "new_balance g = current_balance u t" if "x = Some g" for g
    using that once grant_new_balance[OF assms(1)] wl.once_credited(6)[OF assms(1)] by blast
  then have "pu_new_balance r = current_balance u t" using r by (cases x) auto
  with v c r eff grant_once_same[OF assms(1) once] show ?thesis
    by (cases x) auto
qed

section \<open>Witnesses\<close>

definition demo_pack :: VerifiedTransaction where
  "demo_pack = \<lparr>vt_transaction_id = ''8'', vt_original_transaction_id = ''8'', vt_product_id = ''pack'',
     vt_expires_at = None, vt_revoked = False, vt_environment = ''sandbox'', vt_upgraded = False\<rparr>"

theorem purchase_requires_subscription_witness:
  "purchase demo_loads demo_settings [] (\<lambda>_. Inr demo_pack) 300 1 ''jws'' demo_subscribed =
     (Inl (Raised SubscriptionRequiredError ''an active subscription is required to buy tokens''), demo_subscribed)"
  using purchase_requires_subscription[of demo_subscribed 1 300 demo_loads demo_settings "[]" "\<lambda>_. Inr demo_pack" "''jws''"]
  by (simp add: demo_subscribed_def)

lemma demo_purchase_returns:
  "\<exists>r t. purchase demo_loads demo_settings [] (\<lambda>_. Inr demo_pack) 10 1 ''jws'' demo_subscribed = (Inr r, t)"
proof -
  have active: "require_active_subscription 10 1 demo_subscribed = (Inr (), demo_subscribed)"
    by (simp add: require_active_subscription_def load_policy_state_def effective_subscription_status_def demo_subscribed_def)
  have credits: "credits_for_product demo_loads demo_settings [] (vt_product_id demo_pack) = Inr 100"
    by (simp add: credits_for_product_def one_time_credits_def demo_token_products demo_pack_def)
  obtain x t where "wallet_grant_once 1 100 (token_purchase_key (vt_transaction_id demo_pack)) [token_purchase_key (vt_transaction_id demo_pack)]
      [(''source'', Val (JStr ''token_purchase'')), (''productId'', Val (JStr (vt_product_id demo_pack))),
       (''transactionId'', Val (JStr (vt_transaction_id demo_pack)))] ''token_purchase'' demo_subscribed = (Inr x, t)"
    using grant_once_returns[OF demo_subscribed_facts(1,2), of 100] by (fastforce simp: demo_subscribed_facts(3) bigint_ok_def)
  then show ?thesis
    by (cases x) (simp_all add: purchase_def active credits Let_def)
qed

theorem purchase_credits_once_witness:
  "\<exists>r t. purchase demo_loads demo_settings [] (\<lambda>_. Inr demo_pack) 10 1 ''jws'' demo_subscribed = (Inr r, t) \<and>
     credits_added r = 100 \<and> current_balance 1 t = 140"
proof -
  obtain r t where run: "purchase demo_loads demo_settings [] (\<lambda>_. Inr demo_pack) 10 1 ''jws'' demo_subscribed = (Inr r, t)"
    using demo_purchase_returns by blast
  have "\<not> has_idempotency_key 1 (token_purchase_key ''8'') demo_subscribed"
    by (simp add: has_idempotency_key_def existing_tx_def find_tx_def demo_subscribed_def small_db_def token_purchase_key_def)
  with run purchase_credits_once[OF demo_subscribed_facts(1) run, of 1] show ?thesis
    by (auto simp: demo_pack_def one_time_credits_def demo_token_products demo_subscribed_facts(3))
qed

end
