(* ===== verification/Event_Journal.thy ===== *)
theory Event_Journal
  imports Wallet Resolve
begin

text \<open>
  What the two payment webhooks share. \<open>once_per_event\<close> is the shape of both: insert the delivery into a
  journal keyed by its identifier, answer a duplicate if it was there, process it otherwise, all in
  one transaction. \<open>event_journal\<close> is the contract of the journal's insert. And the outcomes with the
  log level each service gives them, and the tables an event does not touch.
\<close>

definition once_per_event ::
  "(string \<Rightarrow> 'e \<Rightarrow> 's \<Rightarrow> (exn, bool, 's) outcome) \<Rightarrow> 'r \<Rightarrow> ('s \<Rightarrow> (exn, 'r, 's) outcome) \<Rightarrow>
   string \<Rightarrow> 'e \<Rightarrow> 's \<Rightarrow> (exn, 'r, 's) outcome" where
  "once_per_event insert_event duplicate body i e s =
     and_then (insert_event i e s) (\<lambda>inserted s. if \<not> inserted then (Inr duplicate, s) else body s)"

locale event_journal =
  fixes recorded :: "string \<Rightarrow> 's \<Rightarrow> bool"
    and insert_event :: "string \<Rightarrow> 'e \<Rightarrow> 's \<Rightarrow> (exn, bool, 's) outcome"
  assumes insert_known: "recorded i s \<Longrightarrow> insert_event i e s = (Inr False, s)"
    and insert_new: "\<not> recorded i s \<Longrightarrow> insert_event i e s = (Inr b, t) \<Longrightarrow> b \<and> recorded i t"
    and insert_keeps: "insert_event i e s = (Inr b, t) \<Longrightarrow> recorded j s \<Longrightarrow> recorded j t"
begin

lemma known_is_duplicate: "recorded i s \<Longrightarrow> once_per_event insert_event d body i e s = (Inr d, s)"
  by (simp add: once_per_event_def insert_known)

lemma processed_once:
  assumes "once_per_event insert_event d body i e s = (Inr r, t)"
  obtains (repeated) "recorded i s" and "r = d" and "t = s"
  | (processed) s1 where "\<not> recorded i s" and "insert_event i e s = (Inr True, s1)" and "recorded i s1" and "body s1 = (Inr r, t)"
proof (cases "recorded i s")
  case True
  with assms have "r = d" "t = s" by (simp_all add: known_is_duplicate)
  with True show ?thesis by (rule repeated)
next
  case False
  obtain b s1 where ins: "insert_event i e s = (Inr b, s1)"
    and rest: "(if \<not> b then (Inr d, s1) else body s1) = (Inr r, t)"
    using assms unfolding once_per_event_def by (elim and_then_InrE)
  from insert_new[OF False ins] have "b" "recorded i s1" by simp_all
  with ins rest show ?thesis by (intro processed[OF False]) simp_all
qed

lemma redelivery_is_duplicate:
  assumes "once_per_event insert_event d body i e s = (Inr r, t)"
    and "\<And>s1 r. body s1 = (Inr r, t) \<Longrightarrow> recorded i s1 \<Longrightarrow> recorded i t"
  shows "once_per_event insert_event d body' i e' t = (Inr d, t)"
  using assms(1)
proof (cases rule: processed_once)
  case repeated
  then show ?thesis by (simp add: known_is_duplicate)
next
  case (processed s1)
  from assms(2)[OF processed(4,3)] show ?thesis by (rule known_is_duplicate)
qed

end

section \<open>Outcomes and log levels\<close>

datatype webhook_result = Ignored | Duplicate | Applied

record WebhookOutcome =
  wo_result :: webhook_result
  wo_reason :: "string option"
  wo_event_type :: "string option"

definition outcome_ignored :: "string \<Rightarrow> WebhookOutcome" where
  "outcome_ignored reason = \<lparr>wo_result = Ignored, wo_reason = Some reason, wo_event_type = None\<rparr>"

definition outcome_of :: "webhook_result \<Rightarrow> WebhookOutcome" where
  "outcome_of r = \<lparr>wo_result = r, wo_reason = None, wo_event_type = None\<rparr>"

datatype log_level = DEBUG | INFO | WARNING

fun level_number :: "log_level \<Rightarrow> nat" where
  "level_number DEBUG = 10"
| "level_number INFO = 20"
| "level_number WARNING = 30"

text \<open>Levels compare as the numbers of the \<open>logging\<close> module.\<close>

instantiation log_level :: linorder
begin

definition less_eq_log_level :: "log_level \<Rightarrow> log_level \<Rightarrow> bool" where
  "less_eq_log_level a b \<longleftrightarrow> level_number a \<le> level_number b"

definition less_log_level :: "log_level \<Rightarrow> log_level \<Rightarrow> bool" where
  "less_log_level a b \<longleftrightarrow> level_number a < level_number b"

instance
proof
  fix x y z :: log_level
  show "(x < y) = (x \<le> y \<and> \<not> y \<le> x)" by (auto simp: less_eq_log_level_def less_log_level_def)
  show "x \<le> x" by (simp add: less_eq_log_level_def)
  show "x \<le> y \<Longrightarrow> y \<le> z \<Longrightarrow> x \<le> z" by (simp add: less_eq_log_level_def)
  show "x \<le> y \<Longrightarrow> y \<le> x \<Longrightarrow> x = y" by (cases x; cases y) (simp_all add: less_eq_log_level_def)
  show "x \<le> y \<or> y \<le> x" by (auto simp: less_eq_log_level_def)
qed

end

section \<open>What a payment event leaves alone\<close>

text \<open>The tables that no payment event writes, but for its own journal.\<close>

definition same_links :: "db \<Rightarrow> db \<Rightarrow> bool" where
  "same_links s t \<longleftrightarrow> users t = users s \<and> auth_devices t = auth_devices s \<and> legacy_user_ids t = legacy_user_ids s \<and>
     adapty_events t = adapty_events s \<and> cp_events t = cp_events s \<and> chat_sessions t = chat_sessions s \<and> byok_keys t = byok_keys s"

lemma same_links_refl [simp]: "same_links s s"
  by (simp add: same_links_def)

lemma same_links_trans: "same_links s t \<Longrightarrow> same_links t v \<Longrightarrow> same_links s v"
  by (simp add: same_links_def)

lemma same_links_wallet: "same_but_wallet s t \<Longrightarrow> same_links s t"
  by (simp add: same_links_def same_but_wallet_def)

lemma same_links_resolve: "same_links s t \<Longrightarrow> resolve_user x t = resolve_user x s"
  by (simp add: same_links_def resolve_user_def split: option.split)

end
