(* ===== verification/Adapty.thy ===== *)
theory Adapty
  imports Adapty_Parser Resolve Token_Purchase Event_Journal
begin

text \<open>
  \<open>billing_adapty/service.py\<close>: the Adapty webhook, from the raw body to the committed effects. \<open>decode\<close> is
  \<open>json.loads\<close> on the request body (\<open>None\<close>: it raises); the clock is read once per call; the structured
  log record is reduced to its level (\<open>level_for\<close>).
\<close>

definition level_for :: "webhook_result \<Rightarrow> string option \<Rightarrow> log_level" where
  "level_for result reason =
     (if result \<in> {Applied, Duplicate} then INFO
      else if reason \<in> {Some ''user_not_found'', Some ''missing_customer_user_id'', Some ''missing_transaction_id'', Some ''unknown_product''}
      then WARNING
      else if reason = None then WARNING
      else if reason = Some ''empty_body'' then DEBUG
      else INFO)"

text \<open>\<open>INSERT INTO adapty_webhook_events ... ON CONFLICT (event_id) DO NOTHING RETURNING event_id\<close>\<close>

definition insert_event :: "string \<Rightarrow> adapty_event_row \<Rightarrow> bool tx" where
  "insert_event i row s =
     (if adapty_events s i \<noteq> None then (Inr False, s)
      else if users s (ae_user row) = None then (Inl (DbFault ForeignKeyViolation), s)
      else (Inr True, s\<lparr>adapty_events := (adapty_events s)(i \<mapsto> row)\<rparr>))"

definition adapty_recorded :: "string \<Rightarrow> db \<Rightarrow> bool" where
  "adapty_recorded i s = (adapty_events s i \<noteq> None)"

interpretation aj: event_journal adapty_recorded insert_event
  by unfold_locales (auto simp: adapty_recorded_def insert_event_def split: if_splits)

text \<open>\<open>_customer_id\<close>: the identifier the user was resolved by.\<close>

definition uuid_or_none :: "uuid option \<Rightarrow> string" where
  "uuid_or_none u = (case u of None \<Rightarrow> ''None'' | Some x \<Rightarrow> uuid_str x)"

definition customer_id :: "ParsedEvent \<Rightarrow> string" where
  "customer_id event =
     (if ev_resolved_from event = From_profile_id then uuid_or_none (profile_id event)
      else uuid_or_none (customer_user_id event))"

section \<open>Token packs\<close>

definition purchase_payload :: "ParsedEvent \<Rightarrow> payload" where
  "purchase_payload event =
     [(''adaptyEventId'', Val (JStr (event_id event))), (''eventType'', Val (JStr (event_type event))),
      (''semantics'', Val (JStr (semantics_str SEM_ONE_TIME_PURCHASE))), (''productId'', opt_str (vendor_product_id event)),
      (''transactionId'', opt_str (transaction_id event)), (''resolvedFrom'', Val (JStr (resolved_from_str (ev_resolved_from event)))),
      (''customerId'', Val (JStr (customer_id event)))]"

definition purchase_body :: "ParsedEvent \<Rightarrow> string \<Rightarrow> int \<Rightarrow> uuid \<Rightarrow> WebhookOutcome tx" where
  "purchase_body event txn credits u s =
     and_then (wallet_grant_once u credits (token_purchase_key txn) [token_purchase_key txn]
        [(''source'', Val (JStr ''token_purchase'')), (''productId'', opt_str (vendor_product_id event)),
         (''transactionId'', Val (JStr txn)), (''eventType'', Val (JStr (event_type event)))] ''token_purchase'' s) (\<lambda>_ s.
     and_then (audit_record (Some u) None ''adapty_subscription'' (purchase_payload event) s) (\<lambda>_ s.
     (Inr (outcome_of Applied), s)))"

definition apply_purchase ::
  "json_reader \<Rightarrow> settings \<Rightarrow> snapshot \<Rightarrow> ParsedEvent \<Rightarrow> json_obj \<Rightarrow> uuid \<Rightarrow> WebhookOutcome tx" where
  "apply_purchase loads cfg snap event body u s =
     (case transaction_id event of
        None \<Rightarrow> (Inr (outcome_ignored ''missing_transaction_id''), s)
      | Some txn \<Rightarrow>
          (case Option.bind (vendor_product_id event) (one_time_credits loads cfg snap) of
             None \<Rightarrow> (Inr (outcome_ignored ''unknown_product''), s)
           | Some credits \<Rightarrow>
               once_per_event insert_event (outcome_of Duplicate) (purchase_body event txn credits u)
                 (event_id event) \<lparr>ae_user = u, ae_type = event_type event, ae_payload = JObj body\<rparr> s))"

section \<open>Subscription events\<close>

text \<open>The status, plan and staleness the audit row echoes.\<close>

type_synonym echo = "SubscriptionStatus option \<times> string option \<times> bool"

definition read_subscription :: "instant \<Rightarrow> uuid \<Rightarrow> bool option \<Rightarrow> instant option \<Rightarrow> echo tx" where
  "read_subscription now u renew expires s =
     (case subscriptions s u of
        None \<Rightarrow> (Inr (None, None, False), s)
      | Some row \<Rightarrow>
          let stale = is_stale (Some row) expires;
              row' = (if \<not> stale \<and> renew \<noteq> None \<and> sub_will_renew row \<noteq> renew
                      then row\<lparr>sub_will_renew := renew, sub_updated_at := now\<rparr> else row)
          in (Inr (Some (sub_status row'), sub_plan row', stale), s\<lparr>subscriptions := (subscriptions s)(u \<mapsto> row')\<rparr>))"

definition upsert_subscription :: "instant \<Rightarrow> ParsedEvent \<Rightarrow> semantics \<Rightarrow> uuid \<Rightarrow> echo tx" where
  "upsert_subscription now event sem u s =
     (if is_stale (subscriptions s u) (expires_at event)
      then (Inr (map_option sub_status (subscriptions s u), Option.bind (subscriptions s u) sub_plan, True), s)
      else if sem = SEM_GRANTING then
        and_then (store_subscription u
          (case subscriptions s u of
             None \<Rightarrow> \<lparr>sub_status = Sub_active, sub_plan = vendor_product_id event, sub_expires_at = expires_at event,
                      sub_will_renew = will_renew event, sub_updated_at = sql_now s\<rparr>
           | Some row \<Rightarrow> row\<lparr>sub_status := Sub_active, sub_plan := vendor_product_id event, sub_expires_at := expires_at event,
                      sub_will_renew := will_renew event, sub_updated_at := now\<rparr>) s) (\<lambda>_ s.
        (Inr (Some Sub_active, vendor_product_id event, False), s))
      else
        and_then (store_subscription u
          (case subscriptions s u of
             None \<Rightarrow> \<lparr>sub_status = Sub_expired, sub_plan = None, sub_expires_at = None,
                      sub_will_renew = will_renew event, sub_updated_at = sql_now s\<rparr>
           | Some row \<Rightarrow> row\<lparr>sub_status := Sub_expired, sub_will_renew := will_renew event, sub_updated_at := now\<rparr>) s) (\<lambda>_ s'.
        (Inr (Some Sub_expired, Option.bind (subscriptions s u) sub_plan, False), s')))"

text \<open>The ledger key of a subscription event and the keys it checks.\<close>

definition event_txn :: "ParsedEvent \<Rightarrow> string" where
  "event_txn event =
     (case opt_or (transaction_id event) (original_transaction_id event) of Some t \<Rightarrow> t | None \<Rightarrow> event_id event)"

definition grant_keys :: "ParsedEvent \<Rightarrow> string \<times> string list" where
  "grant_keys event =
     (case transaction_id event of
        Some t \<Rightarrow> (sub_grant_key t, [sub_grant_key t, adapty_txn_key t])
      | None \<Rightarrow> (adapty_txn_key (event_txn event), [adapty_txn_key (event_txn event)]))"

definition grant_event :: "json_reader \<Rightarrow> settings \<Rightarrow> snapshot \<Rightarrow> ParsedEvent \<Rightarrow> uuid \<Rightarrow> unit tx" where
  "grant_event loads cfg snap event u s =
     (let credits = subscription_credits loads cfg snap (vendor_product_id event) ''adapty'' in
      and_then (wallet_grant_once u (sc_amount credits) (fst (grant_keys event)) (snd (grant_keys event))
        [(''transactionId'', Val (JStr (event_txn event))), (''eventType'', Val (JStr (event_type event))),
         (''vendorProductId'', opt_str (vendor_product_id event))] ''adapty_subscription'' s) (\<lambda>granted s.
      if granted \<noteq> None \<and> is_product_unmapped loads cfg snap (vendor_product_id event) ''adapty'' credits
      then signal_unmapped_product u ''adapty'' (vendor_product_id event) (sc_amount credits) (event_txn event) s
      else (Inr (), s)))"

fun status_str :: "SubscriptionStatus \<Rightarrow> string" where
  "status_str Sub_active = ''active''"
| "status_str Sub_expired = ''expired''"
| "status_str Sub_none = ''none''"

definition event_payload :: "ParsedEvent \<Rightarrow> semantics \<Rightarrow> echo \<Rightarrow> payload" where
  "event_payload event sem e =
     [(''adaptyEventId'', Val (JStr (event_id event))), (''eventType'', Val (JStr (event_type event))),
      (''semantics'', Val (JStr (semantics_str sem))), (''status'', opt_str (map_option status_str (fst e))),
      (''plan'', opt_str (fst (snd e))), (''expiresAt'', opt_instant (expires_at event)), (''transactionId'', Val (JStr (event_txn event))),
      (''willRenew'', opt_bool (will_renew event)), (''customerId'', Val (JStr (customer_id event))),
      (''resolvedFrom'', Val (JStr (resolved_from_str (ev_resolved_from event)))), (''stale'', Val (JBool (snd (snd e))))]"

definition apply_semantics :: "json_reader \<Rightarrow> settings \<Rightarrow> snapshot \<Rightarrow> instant \<Rightarrow> ParsedEvent \<Rightarrow> semantics \<Rightarrow> uuid \<Rightarrow> echo tx" where
  "apply_semantics loads cfg snap now event sem u s =
     (if sem = SEM_NOOP then read_subscription now u (will_renew event) (expires_at event) s
      else and_then (upsert_subscription now event sem u s) (\<lambda>e s.
           if sem = SEM_GRANTING then and_then (grant_event loads cfg snap event u s) (\<lambda>_ s. (Inr e, s))
           else (Inr e, s)))"

definition apply_body :: "json_reader \<Rightarrow> settings \<Rightarrow> snapshot \<Rightarrow> instant \<Rightarrow> ParsedEvent \<Rightarrow> uuid \<Rightarrow> WebhookOutcome tx" where
  "apply_body loads cfg snap now event u s =
     and_then (apply_semantics loads cfg snap now event (classify_event event) u s) (\<lambda>e s.
     and_then (audit_record (Some u) None ''adapty_subscription'' (event_payload event (classify_event event) e) s) (\<lambda>_ s.
     (Inr (outcome_of Applied), s)))"

definition apply_event ::
  "json_reader \<Rightarrow> settings \<Rightarrow> snapshot \<Rightarrow> instant \<Rightarrow> ParsedEvent \<Rightarrow> json_obj \<Rightarrow> uuid \<Rightarrow> WebhookOutcome tx" where
  "apply_event loads cfg snap now event body u s =
     once_per_event insert_event (outcome_of Duplicate) (apply_body loads cfg snap now event u)
       (event_id event) \<lparr>ae_user = u, ae_type = event_type event, ae_payload = JObj body\<rparr> s"

section \<open>The webhook\<close>

text \<open>Stage 3: \<open>customer_user_id\<close> first, \<open>profile_id\<close> when it is absent or unknown. The result carries the
  identifier that was used and the profile id if it was tried.\<close>

definition resolve_event :: "uuid option \<Rightarrow> uuid option \<Rightarrow> db \<Rightarrow> (uuid \<times> string) option \<times> resolved_from \<times> uuid option" where
  "resolve_event customer prof s =
     (let first = Option.bind customer (\<lambda>c. resolve_user c s) in
      case (first, prof) of
        (None, Some p) \<Rightarrow> (resolve_user p s, From_profile_id, Some p)
      | _ \<Rightarrow> (first, From_customer_user_id, None))"

definition parse_event :: "iso_reader \<Rightarrow> string \<Rightarrow> resolved_from \<Rightarrow> uuid option \<Rightarrow> json_obj \<Rightarrow> ParsedEvent" where
  "parse_event from_iso i rfrom tried body =
     \<lparr>event_id = i, event_type = parse_event_type body, customer_user_id = parse_customer_user_id body,
      vendor_product_id = parse_vendor_product_id body, expires_at = parse_expires_at from_iso body,
      transaction_id = parse_transaction_id body, original_transaction_id = parse_original_transaction_id body,
      is_active = parse_is_active body, access_level_id = parse_access_level_id body, will_renew = parse_will_renew body,
      profile_id = tried, ev_resolved_from = rfrom\<rparr>"

definition dispatch ::
  "iso_reader \<Rightarrow> json_reader \<Rightarrow> settings \<Rightarrow> snapshot \<Rightarrow> instant \<Rightarrow> json_obj \<Rightarrow> WebhookOutcome tx" where
  "dispatch from_iso loads cfg snap now body s =
     (case parse_event_id body of
        None \<Rightarrow> (Inr (outcome_ignored ''missing_event_id''), s)
      | Some i \<Rightarrow>
          let customer = parse_customer_user_id body; prof = parse_profile_id body in
          if customer = None \<and> prof = None then (Inr (outcome_ignored ''missing_customer_user_id''), s)
          else case resolve_event customer prof s of
              (None, _, _) \<Rightarrow> (Inr (outcome_ignored ''user_not_found''), s)
            | (Some (u, via), rfrom, tried) \<Rightarrow>
                if parse_event_type body \<notin> set KNOWN_EVENTS
                then (Inr \<lparr>wo_result = Ignored, wo_reason = None, wo_event_type = Some (parse_event_type body)\<rparr>, s)
                else
                  let event = parse_event from_iso i rfrom tried body in
                  if classify_event event = SEM_ONE_TIME_PURCHASE then apply_purchase loads cfg snap event body u s
                  else apply_event loads cfg snap now event body u s)"

definition handle ::
  "json_reader \<Rightarrow> iso_reader \<Rightarrow> json_reader \<Rightarrow> settings \<Rightarrow> snapshot \<Rightarrow> instant \<Rightarrow> string \<Rightarrow> WebhookOutcome tx" where
  "handle decode from_iso loads cfg snap now raw s =
     (if raw = [] then (Inr (outcome_ignored ''empty_body''), s)
      else case decode raw of
          None \<Rightarrow> (Inr (outcome_ignored ''invalid_json''), s)
        | Some (JObj body) \<Rightarrow> dispatch from_iso loads cfg snap now body s
        | Some _ \<Rightarrow> (Inr (outcome_ignored ''not_an_object''), s))"

section \<open>Frames\<close>

lemma same_links_resolve_event:
  assumes "same_links s t"
  shows "resolve_event c p t = resolve_event c p s"
proof -
  have "(\<lambda>x. resolve_user x t) = (\<lambda>x. resolve_user x s)" using same_links_resolve[OF assms] by auto
  then show ?thesis by (simp add: resolve_event_def fun_eq_iff Let_def split: option.split)
qed

lemma resolve_journal [simp]:
  "resolve_user x (s\<lparr>adapty_events := m\<rparr>) = resolve_user x s"
  "resolve_event c p (s\<lparr>adapty_events := m\<rparr>) = resolve_event c p s"
proof -
  show *: "resolve_user x (s\<lparr>adapty_events := m\<rparr>) = resolve_user x s" for x
    by (simp add: resolve_user_def split: option.split)
  show "resolve_event c p (s\<lparr>adapty_events := m\<rparr>) = resolve_event c p s"
    by (simp add: resolve_event_def * Let_def split: option.split)
qed

lemma store_subscription_frame:
  assumes "store_subscription u row s = (Inr x, t)"
  shows "same_links s t" "ledger t = ledger s" "wallets t = wallets s" "wallet_ok s \<Longrightarrow> wallet_ok t" "subscriptions t u = Some row"
  unfolding store_subscription_effect[OF assms] by (simp_all add: same_links_def)

lemma read_subscription_frame:
  assumes "read_subscription now u w e s = (Inr x, t)"
  shows "same_links s t" "ledger t = ledger s" "wallets t = wallets s" "wallet_ok s \<Longrightarrow> wallet_ok t"
  using assms unfolding read_subscription_def by (auto simp: same_links_def Let_def split: option.splits)

lemma upsert_subscription_frame:
  assumes "upsert_subscription now event sem u s = (Inr x, t)"
  shows "same_links s t" "ledger t = ledger s" "wallets t = wallets s" "wallet_ok s \<Longrightarrow> wallet_ok t"
  using assms unfolding upsert_subscription_def
  by (auto elim!: and_then_InrE dest: store_subscription_frame split: if_splits)

definition event_taken :: "ParsedEvent \<Rightarrow> uuid \<Rightarrow> db \<Rightarrow> bool" where
  "event_taken event u s = list_ex (\<lambda>k. has_idempotency_key u k s) (snd (grant_keys event))"

lemma grant_key_checked: "fst (grant_keys event) \<in> set (snd (grant_keys event))"
  by (simp add: grant_keys_def split: option.split)

lemma grant_event_effect:
  assumes "wallet_ok s" and "grant_event loads cfg snap event u s = (Inr x, t)"
  shows "wallet_ok t" and "same_but_wallet s t" and "event_taken event u t"
    and "current_balance w t = current_balance w s +
      (if w = u \<and> \<not> event_taken event u s then sc_amount (subscription_credits loads cfg snap (vendor_product_id event) ''adapty'') else 0)"
    and "has_idempotency_key w k t \<longleftrightarrow> has_idempotency_key w k s \<or> (\<not> event_taken event u s \<and> w = u \<and> k = fst (grant_keys event))"
proof -
  let ?a = "sc_amount (subscription_credits loads cfg snap (vendor_product_id event) ''adapty'')"
  obtain granted t1 where once: "wallet_grant_once u ?a (fst (grant_keys event)) (snd (grant_keys event))
        [(''transactionId'', Val (JStr (event_txn event))), (''eventType'', Val (JStr (event_type event))),
         (''vendorProductId'', opt_str (vendor_product_id event))] ''adapty_subscription'' s = (Inr granted, t1)"
    and rest: "(t1 = t) \<or> (\<exists>ch p a txn x. signal_unmapped_product u ch p a txn t1 = (Inr x, t))"
    using assms(2) unfolding grant_event_def Let_def
    by (elim and_then_InrE) (force split: if_splits)
  note eff = wl.once_effect[OF assms(1) once grant_key_checked, folded event_taken_def]
  have same1: "same_but_wallet s t1" by (rule grant_once_same[OF assms(1) once])
  have t: "wallet_ok t" "same_but_wallet t1 t" "ledger t = ledger t1" "wallets t = wallets t1"
    using rest eff(1) audit_unmapped_frame by fastforce+
  note kept = wallet_part[OF t(3,4)]
  show "wallet_ok t" by (rule t(1))
  show "same_but_wallet s t" by (rule same_but_wallet_trans[OF same1 t(2)])
  show "current_balance w t = current_balance w s + (if w = u \<and> \<not> event_taken event u s then ?a else 0)"
    unfolding kept eff(3) using eff(2) by auto
  show keys: "has_idempotency_key w k t \<longleftrightarrow> has_idempotency_key w k s \<or> (\<not> event_taken event u s \<and> w = u \<and> k = fst (grant_keys event))" for w k
    unfolding kept eff(4) using eff(2) by auto
  show "event_taken event u t"
    using grant_key_checked[of event] unfolding event_taken_def list_ex_iff keys by blast
qed

lemma apply_semantics_effect:
  assumes "wallet_ok s" and "apply_semantics loads cfg snap now event sem u s = (Inr e, t)"
  shows "wallet_ok t" and "same_links s t"
    and "current_balance w t = current_balance w s + (if w = u \<and> sem = SEM_GRANTING \<and> \<not> event_taken event u s
       then sc_amount (subscription_credits loads cfg snap (vendor_product_id event) ''adapty'') else 0)"
    and "has_idempotency_key w k t \<longleftrightarrow> has_idempotency_key w k s \<or>
       (sem = SEM_GRANTING \<and> \<not> event_taken event u s \<and> w = u \<and> k = fst (grant_keys event))"
proof -
  have "\<exists>s1. same_links s s1 \<and> ledger s1 = ledger s \<and> wallets s1 = wallets s \<and> wallet_ok s1 \<and>
      (if sem = SEM_GRANTING then \<exists>x. grant_event loads cfg snap event u s1 = (Inr x, t) else t = s1)"
  proof (cases "sem = SEM_NOOP")
    case True
    with assms(2) have "read_subscription now u (will_renew event) (expires_at event) s = (Inr e, t)"
      by (simp add: apply_semantics_def)
    from read_subscription_frame[OF this] True assms(1) show ?thesis by auto
  next
    case False
    then obtain e1 s1 where up: "upsert_subscription now event sem u s = (Inr e1, s1)"
      and rest: "(if sem = SEM_GRANTING then and_then (grant_event loads cfg snap event u s1) (\<lambda>_ s. (Inr e1, s)) else (Inr e1, s1)) = (Inr e, t)"
      using assms(2) unfolding apply_semantics_def by (auto elim!: and_then_InrE)
    from upsert_subscription_frame[OF up] rest assms(1) show ?thesis
      by (intro exI[of _ s1]) (auto elim!: and_then_InrE split: if_splits)
  qed
  then obtain s1 where s1: "same_links s s1" "ledger s1 = ledger s" "wallets s1 = wallets s" "wallet_ok s1"
    and rest: "if sem = SEM_GRANTING then \<exists>x. grant_event loads cfg snap event u s1 = (Inr x, t) else t = s1" by blast
  note kept = wallet_part[OF s1(2,3)]
  have taken: "event_taken event u s1 = event_taken event u s" by (simp add: event_taken_def kept)
  have "wallet_ok t \<and> same_links s1 t \<and>
    current_balance w t = current_balance w s1 + (if w = u \<and> sem = SEM_GRANTING \<and> \<not> event_taken event u s1
       then sc_amount (subscription_credits loads cfg snap (vendor_product_id event) ''adapty'') else 0) \<and>
    (has_idempotency_key w k t \<longleftrightarrow> has_idempotency_key w k s1 \<or>
       (sem = SEM_GRANTING \<and> \<not> event_taken event u s1 \<and> w = u \<and> k = fst (grant_keys event)))" for w k
    using rest s1(4) grant_event_effect[OF s1(4)] same_links_wallet by (cases "sem = SEM_GRANTING") auto
  then show "wallet_ok t" "same_links s t"
    "current_balance w t = current_balance w s + (if w = u \<and> sem = SEM_GRANTING \<and> \<not> event_taken event u s
       then sc_amount (subscription_credits loads cfg snap (vendor_product_id event) ''adapty'') else 0)"
    "has_idempotency_key w k t \<longleftrightarrow> has_idempotency_key w k s \<or>
       (sem = SEM_GRANTING \<and> \<not> event_taken event u s \<and> w = u \<and> k = fst (grant_keys event))"
    using same_links_trans[OF s1(1)] unfolding kept taken by blast+
qed

lemma insert_event_True:
  assumes "insert_event i row s = (Inr True, t)"
  shows "t = s\<lparr>adapty_events := (adapty_events s)(i \<mapsto> row)\<rparr>" and "adapty_recorded i t" and "users s (ae_user row) \<noteq> None"
  using assms by (auto simp: insert_event_def adapty_recorded_def split: if_splits)

lemma journal_update [simp]:
  "ledger (s\<lparr>adapty_events := m\<rparr>) = ledger s" "wallets (s\<lparr>adapty_events := m\<rparr>) = wallets s"
  "event_taken event u (s\<lparr>adapty_events := m\<rparr>) = event_taken event u s"
  "current_balance u (s\<lparr>adapty_events := m\<rparr>) = current_balance u s"
  "has_idempotency_key u k (s\<lparr>adapty_events := m\<rparr>) = has_idempotency_key u k s"
  by (simp_all add: event_taken_def has_idempotency_key_def existing_tx_def current_balance_def)

lemma purchase_body_effect:
  assumes "wallet_ok s" and "purchase_body event txn credits u s = (Inr r, t)"
  shows "wallet_ok t" and "same_links s t" and "r = outcome_of Applied"
    and "current_balance w t = current_balance w s +
      (if w = u \<and> \<not> has_idempotency_key u (token_purchase_key txn) s then credits else 0)"
    and "has_idempotency_key u (token_purchase_key txn) t"
proof -
  obtain x s1 y where once: "wallet_grant_once u credits (token_purchase_key txn) [token_purchase_key txn]
        [(''source'', Val (JStr ''token_purchase'')), (''productId'', opt_str (vendor_product_id event)),
         (''transactionId'', Val (JStr txn)), (''eventType'', Val (JStr (event_type event)))] ''token_purchase'' s = (Inr x, s1)"
    and aud: "audit_record (Some u) None ''adapty_subscription'' (purchase_payload event) s1 = (Inr y, t)"
    and r: "r = outcome_of Applied"
    using assms(2) unfolding purchase_body_def by (elim and_then_InrE) simp
  have key: "token_purchase_key txn \<in> set [token_purchase_key txn]" by simp
  note eff = wl.once_effect[OF assms(1) once key]
  note au = audit_record_wallet[OF aud]
  show "r = outcome_of Applied" by (rule r)
  show "wallet_ok t" by (rule au(3)[OF eff(1)])
  show "same_links s t"
    using grant_once_same[OF assms(1) once] audit_record_same[OF aud] by (blast intro: same_links_wallet same_but_wallet_trans)
  show "current_balance w t = current_balance w s + (if w = u \<and> \<not> has_idempotency_key u (token_purchase_key txn) s then credits else 0)"
    unfolding au(5) eff(3) using eff(2) by auto
  show "has_idempotency_key u (token_purchase_key txn) t"
    unfolding au(4) eff(4) using eff(2) by auto
qed

lemma apply_body_effect:
  assumes "wallet_ok s" and "apply_body loads cfg snap now event u s = (Inr r, t)"
  shows "wallet_ok t" and "same_links s t" and "r = outcome_of Applied"
    and "current_balance w t = current_balance w s + (if w = u \<and> classify_event event = SEM_GRANTING \<and> \<not> event_taken event u s
       then sc_amount (subscription_credits loads cfg snap (vendor_product_id event) ''adapty'') else 0)"
    and "has_idempotency_key w k t \<longleftrightarrow> has_idempotency_key w k s \<or>
       (classify_event event = SEM_GRANTING \<and> \<not> event_taken event u s \<and> w = u \<and> k = fst (grant_keys event))"
    and "\<exists>e s1. apply_semantics loads cfg snap now event (classify_event event) u s = (Inr e, s1) \<and> subscriptions t = subscriptions s1"
proof -
  obtain e s1 y where sem: "apply_semantics loads cfg snap now event (classify_event event) u s = (Inr e, s1)"
    and aud: "audit_record (Some u) None ''adapty_subscription'' (event_payload event (classify_event event) e) s1 = (Inr y, t)"
    and r: "r = outcome_of Applied"
    using assms(2) unfolding apply_body_def by (elim and_then_InrE) simp
  note eff = apply_semantics_effect[OF assms(1) sem] and au = audit_record_wallet[OF aud]
  show "r = outcome_of Applied" by (rule r)
  show "wallet_ok t" by (rule au(3)[OF eff(1)])
  show "same_links s t" by (rule same_links_trans[OF eff(2) same_links_wallet[OF audit_record_same[OF aud]]])
  show "current_balance w t = current_balance w s + (if w = u \<and> classify_event event = SEM_GRANTING \<and> \<not> event_taken event u s
       then sc_amount (subscription_credits loads cfg snap (vendor_product_id event) ''adapty'') else 0)"
    unfolding au(5) by (rule eff(3))
  show "has_idempotency_key w k t \<longleftrightarrow> has_idempotency_key w k s \<or>
       (classify_event event = SEM_GRANTING \<and> \<not> event_taken event u s \<and> w = u \<and> k = fst (grant_keys event))"
    unfolding au(4) by (rule eff(4))
  show "\<exists>e s1. apply_semantics loads cfg snap now event (classify_event event) u s = (Inr e, s1) \<and> subscriptions t = subscriptions s1"
    using sem audit_record_same[OF aud] unfolding same_but_wallet_def by blast
qed

section \<open>Deliveries\<close>

text \<open>
  C13. What a subscription event does to the money: it credits the resolved user the amount of the
  product on the Adapty channel exactly when the delivery is new, its meaning is granting and none
  of its ledger keys is taken; no other event and nobody else's balance moves. It is answered
  \<open>applied\<close> exactly when it is new, and the ledger stays consistent.
\<close>

theorem event_money:
  assumes "wallet_ok s" and "apply_event loads cfg snap now event body u s = (Inr r, t)"
  shows "current_balance w t = current_balance w s +
      (if w = u \<and> \<not> adapty_recorded (event_id event) s \<and> classify_event event = SEM_GRANTING \<and> \<not> event_taken event u s
       then sc_amount (subscription_credits loads cfg snap (vendor_product_id event) ''adapty'') else 0) \<and>
    (wo_result r = Applied) = (\<not> adapty_recorded (event_id event) s) \<and> wallet_ok t"
  using assms(2) unfolding apply_event_def
proof (cases rule: aj.processed_once)
  case repeated
  with assms(1) show ?thesis by (simp add: outcome_of_def)
next
  case (processed s1)
  note ins = insert_event_True[OF processed(2)]
  have "wallet_ok s1" using assms(1) ins(1) by simp
  from apply_body_effect[OF this processed(4)] processed(1) ins(1) show ?thesis
    by (simp add: outcome_of_def)
qed

lemma dispatch_returned:
  assumes "wallet_ok s" and "dispatch from_iso loads cfg snap now body s = (Inr r, t)"
  obtains (unapplied) "wo_result r \<noteq> Applied" and "t = s"
  | (purchase) i u via rfrom tried txn credits event s1 where "parse_event_id body = Some i"
      and "parse_customer_user_id body \<noteq> None \<or> parse_profile_id body \<noteq> None"
      and "resolve_event (parse_customer_user_id body) (parse_profile_id body) s = (Some (u, via), rfrom, tried)"
      and "parse_event_type body \<in> set KNOWN_EVENTS" and "event = parse_event from_iso i rfrom tried body"
      and "classify_event event = SEM_ONE_TIME_PURCHASE" and "transaction_id event = Some txn"
      and "Option.bind (vendor_product_id event) (one_time_credits loads cfg snap) = Some credits"
      and "insert_event i \<lparr>ae_user = u, ae_type = event_type event, ae_payload = JObj body\<rparr> s = (Inr True, s1)"
      and "purchase_body event txn credits u s1 = (Inr r, t)"
  | (subscription) i u via rfrom tried event s1 where "parse_event_id body = Some i"
      and "parse_customer_user_id body \<noteq> None \<or> parse_profile_id body \<noteq> None"
      and "resolve_event (parse_customer_user_id body) (parse_profile_id body) s = (Some (u, via), rfrom, tried)"
      and "parse_event_type body \<in> set KNOWN_EVENTS" and "event = parse_event from_iso i rfrom tried body"
      and "classify_event event \<noteq> SEM_ONE_TIME_PURCHASE"
      and "insert_event i \<lparr>ae_user = u, ae_type = event_type event, ae_payload = JObj body\<rparr> s = (Inr True, s1)"
      and "apply_body loads cfg snap now event u s1 = (Inr r, t)"
proof (cases "\<exists>i u via rfrom tried. parse_event_id body = Some i \<and> (parse_customer_user_id body \<noteq> None \<or> parse_profile_id body \<noteq> None) \<and>
    resolve_event (parse_customer_user_id body) (parse_profile_id body) s = (Some (u, via), rfrom, tried) \<and> parse_event_type body \<in> set KNOWN_EVENTS")
  case False
  then show thesis
    using assms(2) unfolding dispatch_def Let_def
    by (intro unapplied) (auto simp: outcome_ignored_def split: option.splits prod.splits if_splits)
next
  case True
  then obtain i u via rfrom tried where id: "parse_event_id body = Some i"
    and who: "parse_customer_user_id body \<noteq> None \<or> parse_profile_id body \<noteq> None"
    and res: "resolve_event (parse_customer_user_id body) (parse_profile_id body) s = (Some (u, via), rfrom, tried)"
    and known: "parse_event_type body \<in> set KNOWN_EVENTS" by blast
  define event where "event = parse_event from_iso i rfrom tried body"
  have eid: "event_id event = i" by (simp add: event_def parse_event_def)
  have run: "(if classify_event event = SEM_ONE_TIME_PURCHASE then apply_purchase loads cfg snap event body u s
      else apply_event loads cfg snap now event body u s) = (Inr r, t)"
    using assms(2) who known unfolding dispatch_def Let_def id option.case res prod.case event_def[symmetric] by auto
  show thesis
  proof (cases "classify_event event = SEM_ONE_TIME_PURCHASE")
    case False
    with run have "apply_event loads cfg snap now event body u s = (Inr r, t)" by simp
    then show thesis
      unfolding apply_event_def eid
    proof (cases rule: aj.processed_once)
      case repeated
      then show thesis by (intro unapplied) (simp_all add: outcome_of_def)
    next
      case (processed s1)
      from subscription[OF id who res known event_def False processed(2,4)] show thesis .
    qed
  next
    case True
    with run have pur: "apply_purchase loads cfg snap event body u s = (Inr r, t)" by simp
    show thesis
    proof (cases "transaction_id event = None \<or> Option.bind (vendor_product_id event) (one_time_credits loads cfg snap) = None")
      case True
      with pur show thesis
        by (intro unapplied) (auto simp: apply_purchase_def outcome_ignored_def split: option.splits)
    next
      case False
      then obtain txn credits where t: "transaction_id event = Some txn"
        and c: "Option.bind (vendor_product_id event) (one_time_credits loads cfg snap) = Some credits" by auto
      from pur have "once_per_event insert_event (outcome_of Duplicate) (purchase_body event txn credits u) i
          \<lparr>ae_user = u, ae_type = event_type event, ae_payload = JObj body\<rparr> s = (Inr r, t)"
        unfolding apply_purchase_def t option.case c eid .
      then show thesis
      proof (cases rule: aj.processed_once)
        case repeated
        then show thesis by (intro unapplied) (simp_all add: outcome_of_def)
      next
        case (processed s1)
        from purchase[OF id who res known event_def True t c processed(2,4)] show thesis .
      qed
    qed
  qed
qed

text \<open>
  A webhook call that is not answered \<open>applied\<close> has written nothing, not even in its open transaction:
  malformed bodies, unknown users, unknown event types, refused purchases and duplicates leave the
  store exactly as it was.
\<close>

theorem unapplied_writes_nothing:
  assumes "wallet_ok s" and "handle decode from_iso loads cfg snap now raw s = (Inr r, t)" and "wo_result r \<noteq> Applied"
  shows "t = s"
proof -
  have disp: "t = s" if d: "dispatch from_iso loads cfg snap now body s = (Inr r, t)" for body
    using assms(1) d
  proof (cases rule: dispatch_returned)
    case (purchase i u via rfrom tried txn credits event s1)
    have "wallet_ok s1" using assms(1) insert_event_True(1)[OF purchase(9)] by simp
    from purchase_body_effect(3)[OF this purchase(10)] assms(3) show ?thesis by (simp add: outcome_of_def)
  next
    case (subscription i u via rfrom tried event s1)
    have "wallet_ok s1" using assms(1) insert_event_True(1)[OF subscription(7)] by simp
    from apply_body_effect(3)[OF this subscription(8)] assms(3) show ?thesis by (simp add: outcome_of_def)
  qed
  then show ?thesis
    using assms(2) unfolding handle_def by (auto split: if_splits option.splits json.splits)
qed

text \<open>
  Redelivery is harmless: after a call answered \<open>applied\<close>, the same body delivered again, at any later
  time, is answered \<open>duplicate\<close> and changes nothing.
\<close>

theorem adapty_redelivery:
  assumes "wallet_ok s" and "handle decode from_iso loads cfg snap now raw s = (Inr r, t)" and "wo_result r = Applied"
  shows "handle decode from_iso loads cfg snap now' raw t = (Inr (outcome_of Duplicate), t)"
proof -
  obtain body where raw: "raw \<noteq> []" "decode raw = Some (JObj body)"
    and d: "dispatch from_iso loads cfg snap now body s = (Inr r, t)"
    using assms(2,3) unfolding handle_def by (auto simp: outcome_ignored_def split: if_splits option.splits json.splits)
  have "dispatch from_iso loads cfg snap now' body t = (Inr (outcome_of Duplicate), t)"
    using assms(1) d
  proof (cases rule: dispatch_returned)
    case (purchase i u via rfrom tried txn credits event s1)
    note ins = insert_event_True[OF purchase(9)]
    have "wallet_ok s1" using assms(1) ins(1) by simp
    note eff = purchase_body_effect[OF this purchase(10)]
    have rec: "adapty_recorded i t" using ins(2) eff(2) by (simp add: adapty_recorded_def same_links_def)
    have res: "resolve_event (parse_customer_user_id body) (parse_profile_id body) t = (Some (u, via), rfrom, tried)"
      using same_links_resolve_event[OF eff(2)] purchase(3) ins(1)
      by simp
    have eid: "event_id event = i" by (simp add: purchase(5) parse_event_def)
    have "apply_purchase loads cfg snap event body u t = (Inr (outcome_of Duplicate), t)"
      unfolding apply_purchase_def purchase(7,8) option.case eid by (rule aj.known_is_duplicate[OF rec])
    with purchase(2,4,6) show ?thesis
      unfolding dispatch_def Let_def purchase(1) option.case res prod.case purchase(5)[symmetric] by auto
  next
    case (subscription i u via rfrom tried event s1)
    note ins = insert_event_True[OF subscription(7)]
    have "wallet_ok s1" using assms(1) ins(1) by simp
    note eff = apply_body_effect[OF this subscription(8)]
    have rec: "adapty_recorded i t" using ins(2) eff(2) by (simp add: adapty_recorded_def same_links_def)
    have "resolve_event (parse_customer_user_id body) (parse_profile_id body) t = (Some (u, via), rfrom, tried)"
      using same_links_resolve_event[OF eff(2)] subscription(3) ins(1)
      by simp
    moreover have "event_id (parse_event from_iso i rfrom tried body) = i" by (simp add: parse_event_def)
    ultimately show ?thesis
      using subscription rec by (auto simp: dispatch_def Let_def apply_event_def aj.known_is_duplicate)
  qed (use assms(3) in simp)
  with raw show ?thesis by (simp add: handle_def)
qed

text \<open>
  Events may arrive late or out of order: an event about a period that ends before the end of the
  active row, whatever its meaning (grant, expiry or cancelled renewal), leaves the whole
  subscription row as it is.
\<close>

theorem stale_event_untouched:
  assumes "wallet_ok s" and "apply_event loads cfg snap now event body u s = (Inr r, t)"
    and "subscriptions s u = Some row" and "sub_status row = Sub_active" and "sub_expires_at row = Some e0"
    and "expires_at event = Some e" and "e < e0"
  shows "subscriptions t u = Some row"
  using assms(2) unfolding apply_event_def
proof (cases rule: aj.processed_once)
  case repeated
  with assms(3) show ?thesis by simp
next
  case (processed s1)
  note ins = insert_event_True[OF processed(2)]
  have ok: "wallet_ok s1" and row: "subscriptions s1 u = Some row" using assms(1,3) ins(1) by simp_all
  have stale: "is_stale (Some row) (expires_at event)" using assms(4-7) by (simp add: is_stale_def)
  obtain e s2 where sem: "apply_semantics loads cfg snap now event (classify_event event) u s1 = (Inr e, s2)"
    and subs: "subscriptions t = subscriptions s2"
    using apply_body_effect(6)[OF ok processed(4)] by blast
  have "subscriptions s2 u = Some row"
  proof (cases "classify_event event = SEM_NOOP")
    case True
    with sem row stale show ?thesis by (auto simp: apply_semantics_def read_subscription_def Let_def)
  next
    case False
    with sem row stale grant_event_effect(2)[OF ok] show ?thesis
      by (auto simp: apply_semantics_def upsert_subscription_def same_but_wallet_def elim!: and_then_InrE split: if_splits)
  qed
  with subs show ?thesis by simp
qed

text \<open>
  A defect: an operator may set a subscription product's amount to zero (the overlay's constraints
  and the CRM contract admit it), and then every granting event of that product fails: the wallet
  refuses a non-positive amount with a conflict, so the webhook answers 409, its transaction is rolled
  back, the paid subscription is not activated and the delivery is not recorded, and a
  redelivery meets the same failure.
\<close>

theorem zero_overlay_blocks_event:
  assumes "overlay_of snap p = Some ov" and "ov_purchase_kind ov = Some PURCHASE_KIND_SUBSCRIPTION" and "ov_tokens ov = Some 0"
    and "p \<noteq> []" and "vendor_product_id event = Some p" and "classify_event event = SEM_GRANTING"
    and "users s u \<noteq> None" and "\<not> adapty_recorded (event_id event) s" and "\<not> event_taken event u s"
  shows "session_scope (apply_event loads cfg snap now event body u) s =
    (Inl (Raised ConflictError ''amount must be positive''), s)"
proof -
  let ?row = "\<lparr>ae_user = u, ae_type = event_type event, ae_payload = JObj body\<rparr>"
  obtain s1 where ins: "insert_event (event_id event) ?row s = (Inr True, s1)"
    using assms(7,8) by (auto simp: insert_event_def adapty_recorded_def)
  note i = insert_event_True(1)[OF ins]
  have amount: "sc_amount (subscription_credits loads cfg snap (Some p) ''adapty'') = 0"
    using assms(1-4) by (simp add: subscription_credits_def Let_def)
  obtain e s2 where up: "upsert_subscription now event SEM_GRANTING u s1 = (Inr e, s2)"
    using assms(7) i by (cases "is_stale (subscriptions s1 u) (expires_at event)")
      (auto simp: upsert_subscription_def store_subscription_def)
  note kept = wallet_part[OF upsert_subscription_frame(2,3)[OF up]]
  have free: "\<not> event_taken event u s2"
    using assms(9) i by (simp add: event_taken_def kept)
  then have "\<not> has_idempotency_key u (fst (grant_keys event)) s2"
    using grant_key_checked[of event] by (auto simp: event_taken_def list_ex_iff)
  with free have "wallet_grant_once u 0 (fst (grant_keys event)) (snd (grant_keys event)) meta reason s2
      = (Inl (Raised ConflictError ''amount must be positive''), s2)" for meta reason
    by (intro grant_once_nonpositive) (simp_all add: event_taken_def)
  then have "grant_event loads cfg snap event u s2 = (Inl (Raised ConflictError ''amount must be positive''), s2)"
    by (simp add: grant_event_def amount assms(5))
  then show ?thesis
    by (simp add: session_scope_eq apply_event_def once_per_event_def ins apply_body_def apply_semantics_def assms(6) up)
qed

section \<open>Progress\<close>

lemma grant_event_returns:
  assumes "wallet_ok s" and "users s u \<noteq> None"
    and "credits = sc_amount (subscription_credits loads cfg snap (vendor_product_id event) ''adapty'')"
    and "0 < credits" and "bigint_ok credits" and "bigint_ok (current_balance u s + credits)"
  shows "\<exists>t. grant_event loads cfg snap event u s = (Inr (), t) \<and> users t = users s"
proof -
  obtain x t where once: "wallet_grant_once u credits (fst (grant_keys event)) (snd (grant_keys event))
        [(''transactionId'', Val (JStr (event_txn event))), (''eventType'', Val (JStr (event_type event))),
         (''vendorProductId'', opt_str (vendor_product_id event))] ''adapty_subscription'' s = (Inr x, t)"
    using grant_once_returns[OF assms(1,2,4,5,6)] by blast
  have "users t = users s" using grant_once_same[OF assms(1) once] by (simp add: same_but_wallet_def)
  with assms(2) once show ?thesis
    unfolding grant_event_def Let_def assms(3)[symmetric] once and_then_simps signal_unmapped_product_def
    using audit_record_returns[of t u] by (simp del: not_None_eq)
qed

lemma apply_semantics_returns:
  assumes "wallet_ok s" and "users s u \<noteq> None"
    and "credits = sc_amount (subscription_credits loads cfg snap (vendor_product_id event) ''adapty'')"
    and "0 < credits" and "bigint_ok credits" and "bigint_ok (current_balance u s + credits)"
  shows "\<exists>e t. apply_semantics loads cfg snap now event sem u s = (Inr e, t) \<and> users t = users s"
proof (cases "sem = SEM_NOOP")
  case True
  then show ?thesis
    by (auto simp: apply_semantics_def read_subscription_def Let_def split: option.split)
next
  case False
  obtain e s1 where up: "upsert_subscription now event sem u s = (Inr e, s1)"
    using assms(2) by (cases "is_stale (subscriptions s u) (expires_at event)"; cases "sem = SEM_GRANTING")
      (auto simp: upsert_subscription_def store_subscription_def)
  note fr = upsert_subscription_frame[OF up]
  have users: "users s1 = users s" using fr(1) by (simp add: same_links_def)
  have bal: "current_balance u s1 = current_balance u s" by (rule wallet_part(2)[OF fr(2,3)])
  show ?thesis
  proof (cases "sem = SEM_GRANTING")
    case True
    obtain t where "grant_event loads cfg snap event u s1 = (Inr (), t)" "users t = users s1"
      using grant_event_returns[OF fr(4)[OF assms(1)] _ assms(3-5), of u] assms(2,6) users bal by auto
    with False True up users show ?thesis by (cases e) (simp add: apply_semantics_def)
  qed (use False up users in \<open>cases e; simp add: apply_semantics_def\<close>)
qed

lemma apply_event_returns:
  assumes "wallet_ok s" and "users s u \<noteq> None" and "\<not> adapty_recorded (event_id event) s"
    and "credits = sc_amount (subscription_credits loads cfg snap (vendor_product_id event) ''adapty'')"
    and "0 < credits" and "bigint_ok credits" and "bigint_ok (current_balance u s + credits)"
  shows "\<exists>t. apply_event loads cfg snap now event body u s = (Inr (outcome_of Applied), t)"
proof -
  let ?row = "\<lparr>ae_user = u, ae_type = event_type event, ae_payload = JObj body\<rparr>"
  obtain s1 where ins: "insert_event (event_id event) ?row s = (Inr True, s1)"
    using assms(2,3) by (auto simp: insert_event_def adapty_recorded_def)
  note i = insert_event_True(1)[OF ins]
  have s1: "wallet_ok s1" "users s1 u \<noteq> None" "bigint_ok (current_balance u s1 + credits)"
    using assms(1,2,7) i by simp_all
  obtain e s2 where sem: "apply_semantics loads cfg snap now event (classify_event event) u s1 = (Inr e, s2)" "users s2 = users s1"
    using apply_semantics_returns[OF s1(1,2) assms(4-6) s1(3)] by blast
  obtain t where "audit_record (Some u) None ''adapty_subscription'' (event_payload event (classify_event event) e) s2 = (Inr (), t)"
    using audit_record_returns[of s2 u] s1(2) sem(2) by (metis (no_types))
  with ins sem show ?thesis
    by (simp add: apply_event_def once_per_event_def apply_body_def)
qed

text \<open>
  No paid event is lost on the server's side: a delivery that is new, for a known user, with a positive
  amount that the columns can hold, is always applied, whatever its meaning; if it grants a period
  that was not paid yet, its credits are on the balance afterwards, and in every case the delivery
  is recorded.
\<close>

theorem new_event_applied:
  assumes "wallet_ok s" and "users s u \<noteq> None" and "\<not> adapty_recorded (event_id event) s"
    and "credits = sc_amount (subscription_credits loads cfg snap (vendor_product_id event) ''adapty'')"
    and "0 < credits" and "bigint_ok credits" and "bigint_ok (current_balance u s + credits)"
  shows "\<exists>t. apply_event loads cfg snap now event body u s = (Inr (outcome_of Applied), t) \<and> adapty_recorded (event_id event) t \<and>
    current_balance u t = current_balance u s + (if classify_event event = SEM_GRANTING \<and> \<not> event_taken event u s then credits else 0)"
proof -
  obtain t where run: "apply_event loads cfg snap now event body u s = (Inr (outcome_of Applied), t)"
    using apply_event_returns[OF assms] by blast
  then have once: "once_per_event insert_event (outcome_of Duplicate) (apply_body loads cfg snap now event u)
      (event_id event) \<lparr>ae_user = u, ae_type = event_type event, ae_payload = JObj body\<rparr> s = (Inr (outcome_of Applied), t)"
    by (simp add: apply_event_def)
  from once show ?thesis
  proof (cases rule: aj.processed_once)
    case (processed s1)
    note ins = insert_event_True[OF processed(2)]
    have "wallet_ok s1" using assms(1) ins(1) by simp
    note eff = apply_body_effect[OF this processed(4)]
    have "adapty_recorded (event_id event) t" using ins(2) eff(2) by (simp add: adapty_recorded_def same_links_def)
    with run eff(4)[of u] ins(1) show ?thesis by (simp add: assms(4))
  qed (use assms(3) in simp)
qed

section \<open>Witnesses\<close>

definition demo_event :: "string \<Rightarrow> string \<Rightarrow> ParsedEvent" where
  "demo_event ty product = \<lparr>event_id = ''e1'', event_type = ty, customer_user_id = Some 1, vendor_product_id = Some product,
     expires_at = Some 100, transaction_id = Some ''7'', original_transaction_id = None, is_active = None, access_level_id = None,
     will_renew = Some True, profile_id = None, ev_resolved_from = From_customer_user_id\<rparr>"

lemma demo_event_facts:
  "classify_event (demo_event ''subscription_renewed'' p) = SEM_GRANTING"
  "sc_amount (subscription_credits demo_loads demo_settings [] (vendor_product_id (demo_event ty ''week'')) ''adapty'') = 60"
  "\<not> adapty_recorded (event_id (demo_event ty p)) demo_subscribed"
  "\<not> event_taken (demo_event ty p) 1 demo_subscribed"
  by (simp_all add: demo_event_def classify_event_def ONE_TIME_PURCHASE_EVENTS_def GRANTING_EVENTS_def subscription_credits_def
      channel_credits_def map_or_fallback_def adapty_product_tokens_def parse_product_map_def demo_settings_def demo_loads_def
      adapty_recorded_def demo_subscribed_def small_db_def empty_db_def event_taken_def grant_keys_def has_idempotency_key_def
      existing_tx_def find_tx_def sub_grant_key_def adapty_txn_key_def)

theorem new_event_applied_witness:
  "\<exists>t. apply_event demo_loads demo_settings [] 10 (demo_event ''subscription_renewed'' ''week'') [] 1 demo_subscribed = (Inr (outcome_of Applied), t)
     \<and> current_balance 1 t = 100"
  using new_event_applied[OF demo_subscribed_facts(1,2) demo_event_facts(3) refl, of demo_loads demo_settings "[]" "''subscription_renewed''" "''week''"]
  by (auto simp: demo_event_facts demo_subscribed_facts(3) bigint_ok_def)

lemma demo_event_returns:
  "\<exists>r t. apply_event demo_loads demo_settings [] 10 (demo_event ''subscription_renewed'' ''week'') [] 1 demo_subscribed = (Inr r, t)"
proof -
  have "\<exists>t. apply_event demo_loads demo_settings [] 10 (demo_event ''subscription_renewed'' ''week'') [] 1 demo_subscribed = (Inr (outcome_of Applied), t)"
    by (rule apply_event_returns[OF demo_subscribed_facts(1,2) demo_event_facts(3) refl])
      (simp_all add: demo_event_facts demo_subscribed_facts(3) bigint_ok_def)
  then show ?thesis by blast
qed

theorem event_money_witness:
  "\<exists>r t. apply_event demo_loads demo_settings [] 10 (demo_event ''subscription_renewed'' ''week'') [] 1 demo_subscribed = (Inr r, t) \<and>
     current_balance 1 t = 100 \<and> wo_result r = Applied"
proof -
  obtain r t where run: "apply_event demo_loads demo_settings [] 10 (demo_event ''subscription_renewed'' ''week'') [] 1 demo_subscribed = (Inr r, t)"
    using demo_event_returns by blast
  from run event_money[OF demo_subscribed_facts(1) run, of 1] show ?thesis
    by (simp add: demo_event_facts demo_subscribed_facts(3))
qed

theorem stale_event_untouched_witness:
  "\<exists>r t row. apply_event demo_loads demo_settings [] 10 (demo_event ''subscription_renewed'' ''week'') [] 1 demo_subscribed = (Inr r, t) \<and>
     subscriptions t 1 = Some row \<and> sub_expires_at row = Some 200"
proof -
  obtain r t where run: "apply_event demo_loads demo_settings [] 10 (demo_event ''subscription_renewed'' ''week'') [] 1 demo_subscribed = (Inr r, t)"
    using demo_event_returns by blast
  have "subscriptions demo_subscribed 1 = Some \<lparr>sub_status = Sub_active, sub_plan = Some ''week'', sub_expires_at = Some 200,
     sub_will_renew = None, sub_updated_at = 0\<rparr>" by (simp add: demo_subscribed_def)
  from stale_event_untouched[OF demo_subscribed_facts(1) run this, of 200 100] run show ?thesis
    by (auto simp: demo_event_def)
qed

theorem zero_overlay_blocks_event_witness:
  "session_scope (apply_event demo_loads demo_settings [demo_overlay ''gold'' (Some PURCHASE_KIND_SUBSCRIPTION) (Some 0)] 10
      (demo_event ''subscription_renewed'' ''gold'') [] 1) demo_subscribed =
    (Inl (Raised ConflictError ''amount must be positive''), demo_subscribed)"
  by (rule zero_overlay_blocks_event[OF _ _ _ _ _ demo_event_facts(1) demo_subscribed_facts(2) demo_event_facts(3,4),
        of _ "''gold''" "demo_overlay ''gold'' (Some PURCHASE_KIND_SUBSCRIPTION) (Some 0)"])
    (simp_all add: demo_overlay_def demo_event_def)

definition demo_body :: json_obj where
  "demo_body = [(''profile_event_id'', JStr ''e1''), (''event_type'', JStr ''subscription_renewal_cancelled''),
     (''customer_user_id'', JStr (uuid_str 1))]"

lemma small_db_tables: "subscriptions small_db = Map.empty" "adapty_events small_db = Map.empty"
  by (simp_all add: small_db_def empty_db_def)

lemma demo_handle:
  "\<exists>t. handle (\<lambda>_. Some (JObj demo_body)) (\<lambda>_. None) demo_loads demo_settings [] 10 ''x'' small_db = (Inr (outcome_of Applied), t)"
proof -
  have "uuid_str 1 \<noteq> []" using uuid_str_length[of 1] by auto
  then have parsed: "parse_event_id demo_body = Some ''e1''" "parse_customer_user_id demo_body = Some 1"
    "parse_event_type demo_body = ''subscription_renewal_cancelled''"
    by (simp_all add: demo_body_def parse_event_id_def parse_customer_user_id_def parse_event_type_def uuid_parse_str py_lower_def lower_char_def)
  have res: "resolve_event (Some 1) p small_db = (Some (1, RESOLVED_VIA_USER_ID), From_customer_user_id, None)" for p
    by (simp add: resolve_event_def resolve_user_def)
  show ?thesis
    by (simp add: handle_def dispatch_def parsed res Let_def KNOWN_EVENTS_def NOOP_EVENTS_def ONE_TIME_PURCHASE_EVENTS_def
        GRANTING_EVENTS_def EXPIRING_EVENTS_def classify_event_def parse_event_def apply_event_def once_per_event_def insert_event_def
        apply_body_def apply_semantics_def read_subscription_def audit_record_def small_db_tables)
qed

theorem adapty_redelivery_witness:
  "\<exists>t. handle (\<lambda>_. Some (JObj demo_body)) (\<lambda>_. None) demo_loads demo_settings [] 99 ''x'' t = (Inr (outcome_of Duplicate), t)"
proof -
  obtain t where "handle (\<lambda>_. Some (JObj demo_body)) (\<lambda>_. None) demo_loads demo_settings [] 10 ''x'' small_db = (Inr (outcome_of Applied), t)"
    using demo_handle by blast
  from adapty_redelivery[OF small_db_ok this, of 99] show ?thesis by (auto simp: outcome_of_def)
qed

theorem unapplied_writes_nothing_witness:
  "\<exists>r t. handle (\<lambda>_. None) (\<lambda>_. None) demo_loads demo_settings [] 10 ''x'' small_db = (Inr r, t) \<and> t = small_db"
proof -
  have run: "handle (\<lambda>_. None) (\<lambda>_. None) demo_loads demo_settings [] 10 ''x'' small_db = (Inr (outcome_ignored ''invalid_json''), small_db)"
    by (simp add: handle_def)
  from unapplied_writes_nothing[OF small_db_ok run] run show ?thesis by (simp add: outcome_ignored_def)
qed

end
