(* ===== verification/Cloudpay_Parser.thy ===== *)
theory Cloudpay_Parser
  imports Products Errors
begin

text \<open>
  The pure part of the RU payment channel: \<open>billing_cloudpayments/parser.py\<close> (reading a callback,
  classifying a product, the length of a period), the reconciliation of \<open>billing_cloudpayments/verify.py\<close>
  and the product gate of \<open>billing_cloudpayments/checkout.py\<close>. The aggregator's HTTP answer is a value of
  \<open>http_reply\<close>; its client is third-party code.
\<close>

section \<open>Text\<close>

text \<open>\<open>_TOKENS_NAME_RE.match(s)\<close>, the pattern \<open>^\d+_tokens\<close> without regard to case.\<close>

definition is_decimal :: "char \<Rightarrow> bool" where
  "is_decimal c = (let n = of_char c :: nat in 48 \<le> n \<and> n \<le> 57)"

definition tokens_name :: "string \<Rightarrow> bool" where
  "tokens_name s = (s \<noteq> [] \<and> is_decimal (hd s) \<and> py_lower (take 7 (dropWhile is_decimal s)) = ''_tokens'')"

section \<open>Reading a callback\<close>

definition parse_positive_int :: "json \<Rightarrow> int \<Rightarrow> int" where
  "parse_positive_int v dflt =
     (case v of
        JInt i \<Rightarrow> if 1 \<le> i then i else dflt
      | JStr s \<Rightarrow> (case py_int_base 10 (py_strip s) of None \<Rightarrow> dflt | Some i \<Rightarrow> if 1 \<le> i then i else dflt)
      | _ \<Rightarrow> dflt)"

definition parse_data :: "json_reader \<Rightarrow> json_obj \<Rightarrow> json_obj option" where
  "parse_data loads body =
     (case jget ''Data'' body of
        JObj d \<Rightarrow> Some d
      | JStr s \<Rightarrow> (case loads s of Some (JObj d) \<Rightarrow> Some d | _ \<Rightarrow> None)
      | _ \<Rightarrow> None)"

definition parse_transaction :: "json_obj \<Rightarrow> string option" where
  "parse_transaction body = first_str [jget ''TransactionId'' body]"

definition parse_status :: "json_obj \<Rightarrow> string" where
  "parse_status body = py_lower (py_strip (str_or_empty (jget ''Status'' body)))"

definition parse_operation_type :: "json_obj \<Rightarrow> string" where
  "parse_operation_type body = py_lower (py_strip (str_or_empty (jget ''OperationType'' body)))"

definition parse_gate :: "string \<Rightarrow> string \<Rightarrow> bool" where
  "parse_gate status operation_type = (status = ''completed'' \<and> operation_type = ''payment'')"

definition parse_user_id :: "json_obj \<Rightarrow> json_obj \<Rightarrow> uuid option" where
  "parse_user_id body data =
     Option.bind (first_str [jget ''AccountId'' body, jget ''user_id'' data]) (\<lambda>raw. uuid_parse (py_lower raw))"

definition parse_product_id :: "json_obj \<Rightarrow> string option" where
  "parse_product_id data = first_str [jget ''product_id'' data]"

definition parse_billing_interval_unit :: "json_obj \<Rightarrow> string option" where
  "parse_billing_interval_unit data = map_option py_lower (first_str [jget ''billing_interval_unit'' data])"

definition parse_billing_interval_count :: "json_obj \<Rightarrow> int" where
  "parse_billing_interval_count data = parse_positive_int (jget ''billing_interval_count'' data) 1"

definition parse_billing_phase :: "json_obj \<Rightarrow> string option" where
  "parse_billing_phase data = first_str [jget ''billing_phase'' data]"

definition parse_subscription_id :: "json_obj \<Rightarrow> json_obj \<Rightarrow> string option" where
  "parse_subscription_id data body = first_str [jget ''subscription_id'' data, jget ''SubscriptionId'' body]"

definition parse_trial_flags :: "json_obj \<Rightarrow> bool option \<times> bool option \<times> bool option" where
  "parse_trial_flags data =
     (first_bool [jget ''is_trial_initial'' data], first_bool [jget ''is_trial_conversion'' data],
      first_bool [jget ''is_initial_payment'' data])"

text \<open>\<open>int(value)\<close> raises on NaN and the infinities, which \<open>json.loads\<close> accepts.\<close>

definition parse_amount :: "json_obj \<Rightarrow> exn + int option" where
  "parse_amount body =
     (case jget ''Amount'' body of
        JInt i \<Rightarrow> Inr (Some i)
      | JFloat r (Some t) \<Rightarrow> Inr (Some t)
      | JFloat r None \<Rightarrow> Inl (PyFault (if r = ''nan'' then ''ValueError'' else ''OverflowError''))
      | _ \<Rightarrow> Inr None)"

definition parse_currency :: "json_obj \<Rightarrow> string option" where
  "parse_currency body = first_str [jget ''Currency'' body]"

definition parse_test_mode :: "json_obj \<Rightarrow> bool option" where
  "parse_test_mode body = first_bool [jget ''TestMode'' body]"

section \<open>The class of a product\<close>

datatype product_kind = KIND_SUBSCRIPTION | KIND_TOKENS | KIND_UNKNOWN

fun kind_str :: "product_kind \<Rightarrow> string" where
  "kind_str KIND_SUBSCRIPTION = ''subscription''"
| "kind_str KIND_TOKENS = ''tokens''"
| "kind_str KIND_UNKNOWN = ''unknown''"

definition SUB_KEYWORDS :: "string list" where
  "SUB_KEYWORDS = [''week'', ''month'', ''year'', ''day'']"
definition SUB_SUFFIXES :: "string list" where
  "SUB_SUFFIXES = [''_nottrial'', ''_trial'']"
definition INTERVAL_UNITS :: "string list" where
  "INTERVAL_UNITS = [''year'', ''month'', ''week'', ''day'']"

definition looks_like_subscription :: "string \<Rightarrow> bool" where
  "looks_like_subscription product =
     (list_ex (\<lambda>k. py_contains k (py_lower product)) SUB_KEYWORDS \<or> list_ex (\<lambda>x. py_endswith x (py_lower product)) SUB_SUFFIXES)"

definition classify_product :: "string \<Rightarrow> string option \<Rightarrow> string set \<Rightarrow> product_kind" where
  "classify_product product unit ids =
     (if product \<in> ids then KIND_TOKENS
      else if (case unit of None \<Rightarrow> False | Some x \<Rightarrow> x \<in> set INTERVAL_UNITS) then KIND_SUBSCRIPTION
      else if tokens_name product then KIND_TOKENS
      else if looks_like_subscription product then KIND_SUBSCRIPTION
      else KIND_UNKNOWN)"

definition infer_interval_unit_from_code :: "string \<Rightarrow> string option" where
  "infer_interval_unit_from_code product = find (\<lambda>k. py_contains k (py_lower product)) SUB_KEYWORDS"

definition EXPIRY_DAYS :: "(string \<times> int) list" where
  "EXPIRY_DAYS = [(''day'', 1), (''week'', 7), (''month'', 30), (''year'', 365)]"

definition compute_expiry :: "instant \<Rightarrow> string option \<Rightarrow> int \<Rightarrow> instant" where
  "compute_expiry now unit count =
     now + days ((case map_of EXPIRY_DAYS (or_default unit []) of None \<Rightarrow> 30 | Some d \<Rightarrow> d) * max count 1)"

text \<open>The product gate of checkout (\<open>CloudPaymentsCheckoutClient.validate_product\<close>).\<close>

definition validate_product :: "json_reader \<Rightarrow> settings \<Rightarrow> snapshot \<Rightarrow> string \<Rightarrow> exn + unit" where
  "validate_product loads cfg snap product =
     (let kind = classify_product product None (one_time_product_ids loads cfg snap) in
      if kind = KIND_UNKNOWN then Inl (Raised ValidationFailedError ''unknown_product'')
      else if kind = KIND_TOKENS \<and> or_default (one_time_credits loads cfg snap product) 0 \<le> 0
      then Inl (Raised ValidationFailedError ''unknown_product'')
      else Inr ())"

section \<open>Asking the aggregator\<close>

text \<open>What the HTTP client gives \<open>list_payments\<close>: a timeout, a connection error, or a status with the
  decoded body (\<open>None\<close> when it is not JSON).\<close>

datatype http_reply = Timed_out | Request_failed | Response int "json option"

definition unavailable :: exn where
  "unavailable = Raised CloudPaymentsVerificationUnavailableError ''cloudpayments verification unavailable''"

definition list_payments :: "(uuid \<Rightarrow> http_reply) \<Rightarrow> uuid \<Rightarrow> exn + json_obj list" where
  "list_payments ask device =
     (case ask device of
        Timed_out \<Rightarrow> Inl unavailable
      | Request_failed \<Rightarrow> Inl unavailable
      | Response status body \<Rightarrow>
          if status = 404 then Inr []
          else if \<not> (200 \<le> status \<and> status < 300) then Inl unavailable
          else case body of
              Some (JObj d) \<Rightarrow>
                (case jget ''data'' d of
                   JArr items \<Rightarrow> Inr (List.map_filter (\<lambda>v. case v of JObj i \<Rightarrow> Some i | _ \<Rightarrow> None) items)
                 | _ \<Rightarrow> Inl unavailable)
            | _ \<Rightarrow> Inl unavailable)"

text \<open>\<open>_list_payments_both\<close>: the answers under the user's identifier and under the reported one, with
  the repeated payments dropped. A payment identifier that is an array or an object has no hash, and a
  number equals another of the same value whatever its type.\<close>

fun hashable :: "json \<Rightarrow> bool" where
  "hashable (JArr _) = False"
| "hashable (JObj _) = False"
| "hashable _ = True"

fun number_value :: "json \<Rightarrow> int option" where
  "number_value (JBool b) = Some (if b then 1 else 0)"
| "number_value (JInt i) = Some i"
| "number_value (JFloat r t) = (if py_endswith ''.0'' r \<or> py_contains ''e+'' r then t else None)"
| "number_value _ = None"

definition same_key :: "json \<Rightarrow> json \<Rightarrow> bool" where
  "same_key a b = (a = b \<or> (number_value a \<noteq> None \<and> number_value a = number_value b))"

fun unique_payments :: "json list \<Rightarrow> json_obj list \<Rightarrow> exn + json_obj list" where
  "unique_payments seen [] = Inr []"
| "unique_payments seen (item # items) =
     (let key = jget ''payment_id'' item in
      if key = JNull then map_sum id ((#) item) (unique_payments seen items)
      else if \<not> hashable key then Inl (PyFault ''TypeError'')
      else if list_ex (same_key key) seen then unique_payments seen items
      else map_sum id ((#) item) (unique_payments (key # seen) items))"

definition list_payments_both :: "(uuid \<Rightarrow> http_reply) \<Rightarrow> uuid \<Rightarrow> uuid option \<Rightarrow> exn + json_obj list" where
  "list_payments_both ask user other =
     (case list_payments ask user of
        Inl e \<Rightarrow> Inl e
      | Inr first \<Rightarrow>
          (case other of
             None \<Rightarrow> unique_payments [] first
           | Some x \<Rightarrow>
               if x = user then unique_payments [] first
               else case list_payments ask x of
                   Inl e \<Rightarrow> Inl e
                 | Inr second \<Rightarrow> unique_payments [] (first @ second)))"

section \<open>Which payments are credited\<close>

record CreditablePayment =
  payment_id :: string
  product_code :: string
  payment_type :: string
  cp_status :: string
  paid_at :: instant

definition parse_paid_at :: "iso_reader \<Rightarrow> json \<Rightarrow> instant option" where
  "parse_paid_at from_iso v =
     (case v of
        JStr s \<Rightarrow>
          let t = py_strip s in
          if t = [] then None
          else map_option as_utc (from_iso (if last t = CHR ''Z'' \<or> last t = CHR ''z'' then butlast t @ ''+00:00'' else t))
      | _ \<Rightarrow> None)"

definition payment_statuses :: "json_obj list \<Rightarrow> string list" where
  "payment_statuses items = map (\<lambda>item. py_str (jget ''status'' item)) items"

text \<open>A text field that must not be blank, stripped.\<close>

definition text_field :: "json \<Rightarrow> string option" where
  "text_field v = (case v of JStr s \<Rightarrow> if py_strip s \<noteq> [] then Some (py_strip s) else None | _ \<Rightarrow> None)"

definition creditable_payment :: "iso_reader \<Rightarrow> string list \<Rightarrow> instant \<Rightarrow> int \<Rightarrow> json_obj \<Rightarrow> CreditablePayment option" where
  "creditable_payment from_iso paid_statuses now freshness_hours item =
     (let status = py_lower (py_strip (str_or_empty (jget ''status'' item))) in
      if status \<notin> set paid_statuses then None
      else case parse_paid_at from_iso (jget ''paid_at'' item) of
          None \<Rightarrow> None
        | Some paid \<Rightarrow>
            if paid < now - hours freshness_hours then None
            else case (text_field (jget ''payment_id'' item), jget ''product'' item) of
                (Some i, JObj product) \<Rightarrow>
                  (case (text_field (jget ''code'' product), text_field (jget ''payment_type'' product)) of
                     (Some sku, Some ty) \<Rightarrow> Some \<lparr>payment_id = i, product_code = sku, payment_type = py_lower ty,
                        cp_status = status, paid_at = paid\<rparr>
                   | _ \<Rightarrow> None)
              | _ \<Rightarrow> None)"

definition select_creditable_payments ::
  "iso_reader \<Rightarrow> string list \<Rightarrow> instant \<Rightarrow> int \<Rightarrow> json_obj list \<Rightarrow> CreditablePayment list" where
  "select_creditable_payments from_iso paid_statuses now freshness_hours items =
     List.map_filter (creditable_payment from_iso paid_statuses now freshness_hours) items"


lemma creditable_later:
  "creditable_payment from_iso paid now' h item = Some p \<Longrightarrow> now \<le> now' \<Longrightarrow> creditable_payment from_iso paid now h item = Some p"
  by (auto simp: creditable_payment_def Let_def split: if_splits option.splits)

lemma select_later:
  assumes "now \<le> now'"
  shows "set (select_creditable_payments from_iso paid now' h items) \<subseteq> set (select_creditable_payments from_iso paid now h items)"
  unfolding select_creditable_payments_def set_map_filter_iff using creditable_later[OF _ assms] by blast

definition text_ids :: "json_obj list \<Rightarrow> string list" where
  "text_ids items = List.map_filter (\<lambda>item. case jget ''payment_id'' item of JStr i \<Rightarrow> Some i | _ \<Rightarrow> None) items"

lemma text_ids_simps:
  "text_ids [] = []"
  "text_ids (item # items) = (case jget ''payment_id'' item of JStr i \<Rightarrow> i # text_ids items | _ \<Rightarrow> text_ids items)"
  by (simp_all add: text_ids_def map_filter_def split: json.split)

lemma same_key_text [simp]: "same_key (JStr i) b \<longleftrightarrow> b = JStr i" "same_key b (JStr i) \<longleftrightarrow> b = JStr i"
  unfolding same_key_def number_value.simps by auto

lemma unique_payments_ok:
  assumes "unique_payments seen items = Inr out"
  shows "\<forall>item \<in> set items. hashable (jget ''payment_id'' item)" and "distinct (text_ids out)"
    and "set (text_ids out) = set (text_ids items) - {i. JStr i \<in> set seen}"
proof -
  have "(\<forall>item \<in> set items. hashable (jget ''payment_id'' item)) \<and> distinct (text_ids out) \<and>
      set (text_ids out) = set (text_ids items) - {i. JStr i \<in> set seen}"
    using assms
  proof (induction seen items arbitrary: out rule: unique_payments.induct)
    case (1 seen)
    then show ?case by (simp add: text_ids_simps)
  next
    case (2 seen item items)
    let ?key = "jget ''payment_id'' item"
    have out_cases: "\<exists>out'. unique_payments seen' items = Inr out' \<and> out = item # out'"
      if "map_sum id ((#) item) (unique_payments seen' items) = Inr out" for seen'
      using that by (cases "unique_payments seen' items") auto
    consider (null) "?key = JNull" | (seen) "?key \<noteq> JNull" "hashable ?key" "list_ex (same_key ?key) seen"
      | (new) "?key \<noteq> JNull" "hashable ?key" "\<not> list_ex (same_key ?key) seen"
      using 2(4) by (fastforce simp: Let_def split: if_splits)
    then show ?case
    proof cases
      case null
      with 2(4) obtain out' where o: "unique_payments seen items = Inr out'" "out = item # out'"
        using out_cases by auto
      from 2(1)[OF refl null o(1)] null show ?thesis by (simp add: o text_ids_simps)
    next
      case seen
      with 2(4) have "unique_payments seen items = Inr out" by (simp add: Let_def)
      from 2(2)[OF refl seen(1) _ seen(3) this] seen show ?thesis
        by (cases ?key) (auto simp: text_ids_simps list_ex_iff)
    next
      case new
      with 2(4) obtain out' where o: "unique_payments (?key # seen) items = Inr out'" "out = item # out'"
        using out_cases by (auto simp: Let_def)
      from 2(3)[OF refl new(1) _ new(3) o(1)] new show ?thesis
        by (cases ?key) (auto simp: o text_ids_simps list_ex_iff)
    qed
  qed
  then show "\<forall>item \<in> set items. hashable (jget ''payment_id'' item)" "distinct (text_ids out)"
    "set (text_ids out) = set (text_ids items) - {i. JStr i \<in> set seen}" by blast+
qed

lemma unique_payments_fault:
  "unique_payments seen items = Inl e \<Longrightarrow>
     e = PyFault ''TypeError'' \<and> (\<exists>item \<in> set items. \<not> hashable (jget ''payment_id'' item))"
proof (induction seen items rule: unique_payments.induct)
  case (2 seen item items)
  let ?key = "jget ''payment_id'' item"
  have down: "unique_payments seen' items = Inl e" if "map_sum id ((#) item) (unique_payments seen' items) = Inl e" for seen'
    using that by (cases "unique_payments seen' items") auto
  consider (null) "?key = JNull" | (unhashable) "?key \<noteq> JNull" "\<not> hashable ?key"
    | (seen) "?key \<noteq> JNull" "hashable ?key" "list_ex (same_key ?key) seen"
    | (new) "?key \<noteq> JNull" "hashable ?key" "\<not> list_ex (same_key ?key) seen" by blast
  then show ?case
  proof cases
    case null
    with 2(4) have "unique_payments seen items = Inl e" by (intro down) simp
    from 2(1)[OF refl null this] show ?thesis by auto
  next
    case unhashable
    with 2(4) show ?thesis by (simp add: Let_def)
  next
    case seen
    with 2(4) have "unique_payments seen items = Inl e" by (simp add: Let_def)
    from 2(2)[OF refl seen(1) _ seen(3) this] seen(2) show ?thesis by auto
  next
    case new
    with 2(4) have "unique_payments (?key # seen) items = Inl e" by (intro down) (simp add: Let_def)
    from 2(3)[OF refl new(1) _ new(3) this] new(2) show ?thesis by auto
  qed
qed simp

text \<open>
  The two answers of the aggregator are merged without loss and without repetition: every payment
  identifier of either answer occurs exactly once in the merged list. The merge itself fails exactly
  when some entry carries an array or an object as its identifier, and then with a \<open>TypeError\<close>,
  although such an entry would only be skipped later.
\<close>

theorem merged_payments_exact:
  assumes "list_payments ask user = Inr first" and "list_payments ask other = Inr second" and "user \<noteq> other"
  shows "(case list_payments_both ask user (Some other) of
      Inr items \<Rightarrow> distinct (text_ids items) \<and> set (text_ids items) = set (text_ids (first @ second))
    | Inl e \<Rightarrow> e = PyFault ''TypeError'') \<and>
    (\<exists>items. list_payments_both ask user (Some other) = Inr items) =
      list_all (\<lambda>item. hashable (jget ''payment_id'' item)) (first @ second)"
proof -
  have both: "list_payments_both ask user (Some other) = unique_payments [] (first @ second)"
    using assms by (simp add: list_payments_both_def)
  show ?thesis
  proof (cases "unique_payments [] (first @ second)")
    case (Inl e)
    from unique_payments_fault[OF this] Inl show ?thesis by (auto simp: both list_all_iff)
  next
    case (Inr items)
    from unique_payments_ok[OF this] Inr show ?thesis by (auto simp: both list_all_iff)
  qed
qed

section \<open>Witnesses\<close>

definition demo_ask :: "uuid \<Rightarrow> http_reply" where
  "demo_ask u = Response 200 (Some (JObj [(''data'', JArr (if u = 1 then [JObj [(''payment_id'', JStr ''p'')]]
     else [JObj [(''payment_id'', JStr ''p'')], JObj [(''payment_id'', JArr [])]]))]))"

theorem merged_payments_exact_witness: "list_payments_both demo_ask 1 (Some 2) = Inl (PyFault ''TypeError'')"
proof -
  have "list_payments demo_ask 1 = Inr [[(''payment_id'', JStr ''p'')]]"
    "list_payments demo_ask 2 = Inr [[(''payment_id'', JStr ''p'')], [(''payment_id'', JArr [])]]"
    by (simp_all add: list_payments_def demo_ask_def map_filter_def)
  from merged_payments_exact[OF this] show ?thesis
    by (cases "list_payments_both demo_ask 1 (Some 2)") auto
qed

end
