(* ===== verification/Cloudpay.thy ===== *)
theory Cloudpay
  imports Cloudpay_Parser Event_Journal Subscription_Sync
begin

text \<open>
  \<open>billing_cloudpayments/service.py\<close>: the RU payment webhook. The callback is only a trigger: the payments
  come from the aggregator (\<open>ask\<close>, see \<open>Cloudpay_Parser\<close>) and each is credited in its own transaction, so
  the state is the committed one and \<open>apply_payment\<close> is the unit of rollback. \<open>decode\<close> is \<open>json.loads\<close> on
  the raw body, \<open>loads\<close> on a text; the clock is read once per call. The cache of payment links that
  \<open>handle\<close> clears after a credit is not part of the model.
\<close>

section \<open>The journal\<close>

definition cp_insert_event :: "string \<Rightarrow> cp_event_row \<Rightarrow> bool tx" where
  "cp_insert_event i row s =
     (if cp_events s i \<noteq> None then (Inr False, s)
      else if users s (ce_user row) = None then (Inl (DbFault ForeignKeyViolation), s)
      else (Inr True, s\<lparr>cp_events := (cp_events s)(i \<mapsto> row)\<rparr>))"

definition cp_recorded :: "string \<Rightarrow> db \<Rightarrow> bool" where
  "cp_recorded i s = (cp_events s i \<noteq> None)"

interpretation cj: event_journal cp_recorded cp_insert_event
  by unfold_locales (auto simp: cp_recorded_def cp_insert_event_def split: if_splits)

definition cp_level_for :: "webhook_result \<Rightarrow> string option \<Rightarrow> log_level" where
  "cp_level_for result reason =
     (if result \<in> {Applied, Duplicate} then INFO
      else if reason \<in> {Some ''user_not_found'', Some ''no_creditable_payment'', Some ''payment_skipped''} then WARNING
      else if reason = Some ''empty_body'' then DEBUG
      else INFO)"

section \<open>One payment\<close>

text \<open>What a payment buys: its class, the credits, the reason in the ledger, and whether the amount is the
  channel's fallback. \<open>None\<close> is a payment that is skipped.\<close>

record payment_plan =
  pl_kind :: product_kind
  pl_credits :: int
  pl_reason :: string
  pl_unmapped :: bool

definition payment_kind :: "json_reader \<Rightarrow> settings \<Rightarrow> snapshot \<Rightarrow> CreditablePayment \<Rightarrow> product_kind option" where
  "payment_kind loads cfg snap p =
     (if payment_type p = ''one_time'' then
        let ids = one_time_product_ids loads cfg snap in
        Some (if product_code p \<notin> ids \<and> classify_product (product_code p) None ids = KIND_SUBSCRIPTION
              then KIND_SUBSCRIPTION else KIND_TOKENS)
      else if payment_type p = ''subscription'' then Some KIND_SUBSCRIPTION
      else None)"

definition payment_plan :: "json_reader \<Rightarrow> settings \<Rightarrow> snapshot \<Rightarrow> CreditablePayment \<Rightarrow> payment_plan option" where
  "payment_plan loads cfg snap p =
     (case payment_kind loads cfg snap p of
        None \<Rightarrow> None
      | Some kind \<Rightarrow>
          if kind = KIND_TOKENS then
            (case one_time_credits loads cfg snap (product_code p) of
               None \<Rightarrow> None
             | Some c \<Rightarrow> if c \<le> 0 then None
                 else Some \<lparr>pl_kind = kind, pl_credits = c, pl_reason = ''cloudpayments_tokens'', pl_unmapped = False\<rparr>)
          else
            let sub = subscription_credits loads cfg snap (Some (product_code p)) ''cloudpayments'' in
            Some \<lparr>pl_kind = kind, pl_credits = sc_amount sub, pl_reason = ''cloudpayments_subscription'',
                  pl_unmapped = is_product_unmapped loads cfg snap (Some (product_code p)) ''cloudpayments'' sub\<rparr>)"

definition cp_upsert_subscription :: "uuid \<Rightarrow> string \<Rightarrow> instant \<Rightarrow> unit tx" where
  "cp_upsert_subscription u plan e s =
     store_subscription u \<lparr>sub_status = Sub_active, sub_plan = Some plan, sub_expires_at = Some e,
       sub_will_renew = Some True, sub_updated_at = sql_now s\<rparr> s"

definition cp_txn_key :: "string \<Rightarrow> string" where "cp_txn_key i = ''cp-txn:'' @ i"

definition period_end :: "instant \<Rightarrow> CreditablePayment \<Rightarrow> payment_plan \<Rightarrow> instant option" where
  "period_end now p plan =
     (if pl_kind plan = KIND_SUBSCRIPTION
      then Some (compute_expiry now (infer_interval_unit_from_code (product_code p)) 1) else None)"

definition cp_event_payload :: "CreditablePayment \<Rightarrow> payment_plan \<Rightarrow> payload" where
  "cp_event_payload p plan =
     [(''paymentId'', Val (JStr (payment_id p))), (''productCode'', Val (JStr (product_code p))),
      (''paymentType'', Val (JStr (payment_type p))), (''status'', Val (JStr (cp_status p))),
      (''kind'', Val (JStr (kind_str (pl_kind plan))))]"

definition cp_audit_payload :: "instant \<Rightarrow> CreditablePayment \<Rightarrow> payment_plan \<Rightarrow> payload" where
  "cp_audit_payload now p plan =
     (let sub = (pl_kind plan = KIND_SUBSCRIPTION) in
     [(''transactionId'', Val (JStr (payment_id p))), (''paymentId'', Val (JStr (payment_id p))),
      (''productId'', Val (JStr (product_code p))), (''kind'', Val (JStr (kind_str (pl_kind plan)))),
      (''semantics'', Val (JStr (kind_str (pl_kind plan)))), (''paymentType'', Val (JStr (payment_type p))),
      (''status'', opt_str (if sub then Some ''active'' else None)),
      (''plan'', opt_str (if sub then Some (product_code p) else None)),
      (''expiresAt'', opt_instant (period_end now p plan)), (''creditsGranted'', Val (JInt (pl_credits plan))),
      (''paidAt'', Instant (paid_at p))])"

datatype payment_result = Pay_credited | Pay_duplicate | Pay_skipped

definition credit_payment :: "instant \<Rightarrow> uuid \<Rightarrow> CreditablePayment \<Rightarrow> payment_plan \<Rightarrow> payment_result tx" where
  "credit_payment now u p plan s =
     and_then (case period_end now p plan of None \<Rightarrow> (Inr (), s) | Some e \<Rightarrow> cp_upsert_subscription u (product_code p) e s) (\<lambda>_ s.
     and_then (wallet_grant u (pl_credits plan) (cp_txn_key (payment_id p))
        [(''paymentId'', Val (JStr (payment_id p))), (''productCode'', Val (JStr (product_code p))),
         (''kind'', Val (JStr (kind_str (pl_kind plan))))] (pl_reason plan) s) (\<lambda>granted s.
     and_then (if pl_unmapped plan \<and> \<not> idempotent_replay granted
               then signal_unmapped_product u ''cloudpayments'' (Some (product_code p)) (pl_credits plan) (payment_id p) s
               else (Inr (), s)) (\<lambda>_ s.
     and_then (audit_record (Some u) None ''cloudpayments_payment'' (cp_audit_payload now p plan) s) (\<lambda>_ s.
     (Inr Pay_credited, s)))))"

definition apply_payment :: "json_reader \<Rightarrow> settings \<Rightarrow> snapshot \<Rightarrow> instant \<Rightarrow> uuid \<Rightarrow> CreditablePayment \<Rightarrow> payment_result tx" where
  "apply_payment loads cfg snap now u p s =
     (case payment_plan loads cfg snap p of
        None \<Rightarrow> (Inr Pay_skipped, s)
      | Some plan \<Rightarrow>
          session_scope (once_per_event cp_insert_event Pay_duplicate (credit_payment now u p plan) (payment_id p)
            \<lparr>ce_user = u, ce_product = product_code p, ce_kind = kind_str (pl_kind plan), ce_payload = cp_event_payload p plan\<rparr>) s)"

section \<open>The callback\<close>

text \<open>The loop over the selected payments: how many were credited and how many skipped.\<close>

fun apply_all :: "json_reader \<Rightarrow> settings \<Rightarrow> snapshot \<Rightarrow> instant \<Rightarrow> uuid \<Rightarrow> CreditablePayment list \<Rightarrow> (nat \<times> nat) tx" where
  "apply_all loads cfg snap now u [] s = (Inr (0, 0), s)"
| "apply_all loads cfg snap now u (p # ps) s =
     and_then (apply_payment loads cfg snap now u p s) (\<lambda>r s.
     and_then (apply_all loads cfg snap now u ps s) (\<lambda>(credited, skipped) s.
       (Inr (if r = Pay_credited then credited + 1 else credited, if r = Pay_skipped then skipped + 1 else skipped), s)))"

definition selected :: "iso_reader \<Rightarrow> json_reader \<Rightarrow> settings \<Rightarrow> instant \<Rightarrow> json_obj list \<Rightarrow> CreditablePayment list" where
  "selected from_iso loads cfg now items =
     select_creditable_payments from_iso (cloudpayments_paid_statuses loads cfg) now (cloudpayments_payment_freshness_hours cfg) items"

definition callback_outcome :: "nat \<times> nat \<Rightarrow> WebhookOutcome" where
  "callback_outcome n =
     (if 1 \<le> fst n then outcome_of Applied
      else if 1 \<le> snd n then outcome_ignored ''payment_skipped''
      else outcome_of Duplicate)"

text \<open>Stages 4 to 6.\<close>

definition settle :: "iso_reader \<Rightarrow> json_reader \<Rightarrow> (uuid \<Rightarrow> http_reply) \<Rightarrow> settings \<Rightarrow> snapshot \<Rightarrow> instant \<Rightarrow> uuid \<Rightarrow> uuid \<Rightarrow> WebhookOutcome tx" where
  "settle from_iso loads ask cfg snap now u x s =
     (case list_payments_both ask u (Some x) of
        Inl e \<Rightarrow> (Inl e, s)
      | Inr items \<Rightarrow>
          if selected from_iso loads cfg now items = [] then (Inr (outcome_ignored ''no_creditable_payment''), s)
          else and_then (apply_all loads cfg snap now u (selected from_iso loads cfg now items) s) (\<lambda>n s.
               (Inr (callback_outcome n), s)))"

definition reported_device :: "json_reader \<Rightarrow> json_obj \<Rightarrow> uuid option" where
  "reported_device loads body = parse_user_id body (or_default (parse_data loads body) [])"

definition cp_handle ::
  "json_reader \<Rightarrow> iso_reader \<Rightarrow> json_reader \<Rightarrow> (uuid \<Rightarrow> http_reply) \<Rightarrow> settings \<Rightarrow> snapshot \<Rightarrow> instant \<Rightarrow> string \<Rightarrow> WebhookOutcome tx" where
  "cp_handle decode from_iso loads ask cfg snap now raw s =
     (if cloudpayments_api_token cfg = []
      then (Inl (Raised CloudPaymentsWebhookMisconfiguredError ''cloudpayments api token not configured''), s)
      else if raw = [] then (Inr (outcome_ignored ''empty_body''), s)
      else case decode raw of
          None \<Rightarrow> (Inr (outcome_ignored ''invalid_json''), s)
        | Some (JObj body) \<Rightarrow>
            if \<not> parse_gate (parse_status body) (parse_operation_type body)
            then (Inr (outcome_ignored ''not_a_completed_payment''), s)
            else (case reported_device loads body of
                None \<Rightarrow> (Inr (outcome_ignored ''invalid_account_id''), s)
              | Some x \<Rightarrow>
                  (case resolve_user x s of
                     None \<Rightarrow> (Inr (outcome_ignored ''user_not_found''), s)
                   | Some (u, via) \<Rightarrow> settle from_iso loads ask cfg snap now u x s))
        | Some _ \<Rightarrow> (Inr (outcome_ignored ''not_an_object''), s))"

text \<open>\<open>reconcile_device\<close>, and its caller in \<open>api_gateway/routers/auth.py\<close>, which swallows every exception.\<close>

definition reconcile_device :: "iso_reader \<Rightarrow> json_reader \<Rightarrow> (uuid \<Rightarrow> http_reply) \<Rightarrow> settings \<Rightarrow> snapshot \<Rightarrow> instant \<Rightarrow> uuid \<Rightarrow> uuid \<Rightarrow> nat tx" where
  "reconcile_device from_iso loads ask cfg snap now device u s =
     (case list_payments_both ask u (Some device) of
        Inl e \<Rightarrow> (Inl e, s)
      | Inr items \<Rightarrow>
          and_then (apply_all loads cfg snap now u (selected from_iso loads cfg now items) s) (\<lambda>n s. (Inr (fst n), s)))"

definition reconcile_ru_payments :: "iso_reader \<Rightarrow> json_reader \<Rightarrow> (uuid \<Rightarrow> http_reply) \<Rightarrow> settings \<Rightarrow> snapshot \<Rightarrow> instant \<Rightarrow> string \<Rightarrow> uuid \<Rightarrow> unit tx" where
  "reconcile_ru_payments from_iso loads ask cfg snap now device_id u s =
     (if cloudpayments_api_token cfg = [] then (Inr (), s)
      else case uuid_parse device_id of
          None \<Rightarrow> (Inr (), s)
        | Some device \<Rightarrow> (Inr (), snd (reconcile_device from_iso loads ask cfg snap now device u s)))"

section \<open>Effects of one payment\<close>

lemma cp_insert_True:
  assumes "cp_insert_event i row s = (Inr True, t)"
  shows "t = s\<lparr>cp_events := (cp_events s)(i \<mapsto> row)\<rparr>" and "\<not> cp_recorded i s" and "users s (ce_user row) \<noteq> None"
  using assms by (auto simp: cp_insert_event_def cp_recorded_def split: if_splits)

lemma cp_journal_update [simp]:
  "wallet_ok (s\<lparr>cp_events := m\<rparr>) = wallet_ok s"
  "current_balance u (s\<lparr>cp_events := m\<rparr>) = current_balance u s"
  "has_idempotency_key u k (s\<lparr>cp_events := m\<rparr>) = has_idempotency_key u k s"
  "existing_tx u k (s\<lparr>cp_events := m\<rparr>) = existing_tx u k s"
  by (simp_all add: has_idempotency_key_def existing_tx_def current_balance_def)


lemma period_step:
  assumes "(case e of None \<Rightarrow> (Inr (), s) | Some x \<Rightarrow> cp_upsert_subscription u plan x s) = (Inr r, t)"
  shows "same_links s t" and "ledger t = ledger s" and "wallets t = wallets s" and "wallet_ok s \<Longrightarrow> wallet_ok t"
    and "subscriptions t = (case e of None \<Rightarrow> subscriptions s | Some x \<Rightarrow> (subscriptions s)(u \<mapsto>
      \<lparr>sub_status = Sub_active, sub_plan = Some plan, sub_expires_at = Some x, sub_will_renew = Some True, sub_updated_at = sql_now s\<rparr>))"
  using assms by (auto simp: cp_upsert_subscription_def same_links_def dest!: store_subscription_effect split: option.splits)

lemma credit_payment_effect:
  assumes "wallet_ok s" and "credit_payment now u p plan s = (Inr r, t)"
  shows "wallet_ok t" and "same_links s t" and "r = Pay_credited"
    and "current_balance w t = current_balance w s +
      (if w = u \<and> \<not> has_idempotency_key u (cp_txn_key (payment_id p)) s then pl_credits plan else 0)"
    and "subscriptions t = (case period_end now p plan of None \<Rightarrow> subscriptions s | Some e \<Rightarrow> (subscriptions s)(u \<mapsto>
      \<lparr>sub_status = Sub_active, sub_plan = Some (product_code p), sub_expires_at = Some e, sub_will_renew = Some True, sub_updated_at = sql_now s\<rparr>))"
    and "has_idempotency_key w k t \<longleftrightarrow> has_idempotency_key w k s \<or> (w = u \<and> k = cp_txn_key (payment_id p))"
proof -
  let ?meta = "[(''paymentId'', Val (JStr (payment_id p))), (''productCode'', Val (JStr (product_code p))),
         (''kind'', Val (JStr (kind_str (pl_kind plan))))]"
  obtain x s1 g s2 y s3 z where
    r1: "(case period_end now p plan of None \<Rightarrow> (Inr (), s) | Some e \<Rightarrow> cp_upsert_subscription u (product_code p) e s) = (Inr x, s1)"
    and r2: "wallet_grant u (pl_credits plan) (cp_txn_key (payment_id p)) ?meta (pl_reason plan) s1 = (Inr g, s2)"
    and r3: "(if pl_unmapped plan \<and> \<not> idempotent_replay g
               then signal_unmapped_product u ''cloudpayments'' (Some (product_code p)) (pl_credits plan) (payment_id p) s2
               else (Inr (), s2)) = (Inr y, s3)"
    and r4: "audit_record (Some u) None ''cloudpayments_payment'' (cp_audit_payload now p plan) s3 = (Inr z, t)"
    and r: "r = Pay_credited"
    using assms(2) unfolding credit_payment_def by (elim and_then_InrE) simp
  note one = period_step[OF r1]
  note ok1 = one(4)[OF assms(1)]
  have three: "same_but_wallet s2 s3" "ledger s3 = ledger s2" "wallets s3 = wallets s2" "wallet_ok s2 \<Longrightarrow> wallet_ok s3"
    using r3 audit_unmapped_frame by (auto split: if_splits)
  note four = audit_record_wallet[OF r4]
  have same: "same_but_wallet s1 t"
    using wallet_grant_same[OF ok1 r2] three(1) audit_record_same[OF r4] same_but_wallet_trans by blast
  note kept = wallet_part[OF one(2,3)] wallet_part[OF three(2,3)]
  show "r = Pay_credited" by (rule r)
  show "wallet_ok t" by (intro four(3) three(4) wl.grant_ok[OF ok1 r2])
  show "same_links s t" by (rule same_links_trans[OF one(1) same_links_wallet[OF same]])
  have bal: "current_balance w s2 = current_balance w s1 +
      (if w = u \<and> \<not> has_idempotency_key u (cp_txn_key (payment_id p)) s1 then pl_credits plan else 0)"
    using wl.grant_balance[OF ok1 r2] wl.grant_replay_same[OF ok1 r2]
    by (cases "has_idempotency_key u (cp_txn_key (payment_id p)) s1") auto
  show "current_balance w t = current_balance w s +
      (if w = u \<and> \<not> has_idempotency_key u (cp_txn_key (payment_id p)) s then pl_credits plan else 0)"
    unfolding four(5) kept(4) bal kept(1,2) ..
  show "has_idempotency_key w k t \<longleftrightarrow> has_idempotency_key w k s \<or> (w = u \<and> k = cp_txn_key (payment_id p))"
    unfolding four(4) kept(3) wl.grant_keys[OF ok1 r2] kept(1) ..
  have "subscriptions t = subscriptions s1" using same by (simp add: same_but_wallet_def)
  with one(5) show "subscriptions t = (case period_end now p plan of None \<Rightarrow> subscriptions s | Some e \<Rightarrow> (subscriptions s)(u \<mapsto>
      \<lparr>sub_status = Sub_active, sub_plan = Some (product_code p), sub_expires_at = Some e, sub_will_renew = Some True, sub_updated_at = sql_now s\<rparr>))"
    by simp
qed

lemma apply_payment_cases:
  assumes "wallet_ok s" and "apply_payment loads cfg snap now u p s = (Inr r, t)"
  obtains (skipped) "payment_plan loads cfg snap p = None" and "r = Pay_skipped" and "t = s"
  | (duplicate) plan where "payment_plan loads cfg snap p = Some plan" and "cp_recorded (payment_id p) s"
      and "r = Pay_duplicate" and "t = s"
  | (credited) plan m where "payment_plan loads cfg snap p = Some plan" and "\<not> cp_recorded (payment_id p) s"
      and "r = Pay_credited" and "dom m = insert (payment_id p) (dom (cp_events s))"
      and "credit_payment now u p plan (s\<lparr>cp_events := m\<rparr>) = (Inr r, t)" and "wallet_ok t" and "same_links (s\<lparr>cp_events := m\<rparr>) t"
proof (cases "payment_plan loads cfg snap p")
  case None
  with assms(2) show ?thesis by (intro skipped) (simp_all add: apply_payment_def)
next
  case (Some plan)
  let ?row = "\<lparr>ce_user = u, ce_product = product_code p, ce_kind = kind_str (pl_kind plan), ce_payload = cp_event_payload p plan\<rparr>"
  have "once_per_event cp_insert_event Pay_duplicate (credit_payment now u p plan) (payment_id p) ?row s = (Inr r, t)"
    using assms(2) Some unfolding apply_payment_def by (auto dest: session_scope_InrD)
  then show ?thesis
  proof (cases rule: cj.processed_once)
    case repeated
    with Some show ?thesis by (intro duplicate) simp_all
  next
    case (processed s1)
    note ins = cp_insert_True[OF processed(2)]
    have "wallet_ok s1" using assms(1) ins(1) by simp
    note eff = credit_payment_effect[OF this processed(4)]
    show ?thesis
      by (rule credited[OF Some processed(1) eff(3) _ processed(4)[unfolded ins(1)] eff(1) eff(2)[unfolded ins(1)]]) simp
  qed
qed

lemma recorded_links: "same_links s t \<Longrightarrow> cp_recorded i t = cp_recorded i s"
  by (simp add: same_links_def cp_recorded_def)

text \<open>
  C12. What one verified payment does to the money. It is answered \<open>credited\<close> exactly when it can be
  sized and its identifier is not in the journal, for whichever user; then its own user gets the
  credits of its product unless the ledger already has them, a subscription payment leaves the row
  active until its period from now, and the identifier is in the journal. In every other case
  nothing changes.
\<close>

theorem payment_money:
  assumes "wallet_ok s" and "apply_payment loads cfg snap now u p s = (Inr r, t)"
  shows "(r = Pay_credited) = (payment_plan loads cfg snap p \<noteq> None \<and> \<not> cp_recorded (payment_id p) s) \<and>
    (\<forall>i. cp_recorded i t = (cp_recorded i s \<or> (i = payment_id p \<and> r = Pay_credited))) \<and>
    (case payment_plan loads cfg snap p of
      None \<Rightarrow> t = s
    | Some plan \<Rightarrow>
       if r = Pay_credited then
         current_balance w t = current_balance w s +
           (if w = u \<and> \<not> has_idempotency_key u (cp_txn_key (payment_id p)) s then pl_credits plan else 0) \<and>
         subscriptions t w = (if w = u \<and> pl_kind plan = KIND_SUBSCRIPTION then
             Some \<lparr>sub_status = Sub_active, sub_plan = Some (product_code p), sub_expires_at = period_end now p plan,
               sub_will_renew = Some True, sub_updated_at = sql_now s\<rparr>
           else subscriptions s w)
       else t = s)"
  using assms
proof (cases rule: apply_payment_cases)
  case (credited plan m)
  have ok: "wallet_ok (s\<lparr>cp_events := m\<rparr>)" using assms(1) by simp
  note eff = credit_payment_effect[OF ok credited(5)]
  have "cp_recorded i t \<longleftrightarrow> cp_recorded i s \<or> i = payment_id p" for i
    unfolding recorded_links[OF credited(7)] using credited(4) by (auto simp: cp_recorded_def dom_def)
  then show ?thesis
    using credited(1-3) eff(4)[of w] eff(5) by (simp add: period_end_def)
qed simp_all


section \<open>The loop\<close>

text \<open>What crediting payments of \<open>u\<close> among \<open>ids\<close> may have changed between two committed states.\<close>

definition confined :: "uuid \<Rightarrow> string set \<Rightarrow> db \<Rightarrow> db \<Rightarrow> bool" where
  "confined u ids s t \<longleftrightarrow> wallet_ok t \<and>
     users t = users s \<and> auth_devices t = auth_devices s \<and> legacy_user_ids t = legacy_user_ids s \<and>
     adapty_events t = adapty_events s \<and> chat_sessions t = chat_sessions s \<and> byok_keys t = byok_keys s \<and>
     (\<forall>w. w \<noteq> u \<longrightarrow> current_balance w t = current_balance w s \<and> subscriptions t w = subscriptions s w) \<and>
     (\<forall>i. cp_recorded i s \<longrightarrow> cp_recorded i t) \<and> (\<forall>i. cp_recorded i t \<longrightarrow> cp_recorded i s \<or> i \<in> ids)"

lemma confined_refl: "wallet_ok s \<Longrightarrow> confined u ids s s"
  by (simp add: confined_def)

lemma confined_trans: "confined u ids s t \<Longrightarrow> confined u ids' t v \<Longrightarrow> confined u (ids \<union> ids') s v"
  by (auto simp: confined_def)

lemma confined_ok: "confined u ids s t \<Longrightarrow> wallet_ok t"
  by (simp add: confined_def)

lemma apply_payment_raises: "apply_payment loads cfg snap now u p s = (Inl e, t) \<Longrightarrow> t = s"
  by (auto simp: apply_payment_def session_scope_def split: option.splits sum.splits)

lemma apply_payment_confined:
  assumes "wallet_ok s" and "apply_payment loads cfg snap now u p s = (r, t)"
  shows "confined u {payment_id p} s t"
proof (cases r)
  case (Inl e)
  with assms apply_payment_raises show ?thesis by (metis confined_refl)
next
  case (Inr x)
  from assms(1) assms(2)[unfolded Inr] show ?thesis
  proof (cases rule: apply_payment_cases)
    case (credited plan m)
    have ok: "wallet_ok (s\<lparr>cp_events := m\<rparr>)" using assms(1) by simp
    note eff = credit_payment_effect[OF ok credited(5)]
    have "cp_recorded i t \<longleftrightarrow> cp_recorded i s \<or> i = payment_id p" for i
      unfolding recorded_links[OF credited(7)] using credited(4) by (auto simp: cp_recorded_def dom_def)
    with eff(4,5) credited(6,7) show ?thesis
      by (auto simp: confined_def same_links_def split: option.splits)
  qed (use assms(1) confined_refl in auto)
qed

lemma apply_all_confined:
  "wallet_ok s \<Longrightarrow> apply_all loads cfg snap now u ps s = (r, t) \<Longrightarrow> confined u (payment_id ` set ps) s t"
proof (induction ps arbitrary: s r t)
  case (Cons p ps)
  obtain r1 s1 where one: "apply_payment loads cfg snap now u p s = (r1, s1)" by fastforce
  note conf = apply_payment_confined[OF Cons.prems(1) one]
  show ?case
  proof (cases r1)
    case (Inl e)
    with Cons.prems(2) one have "t = s1" by simp
    with conf show ?thesis by (auto simp: confined_def)
  next
    case (Inr x)
    obtain r2 s2 where two: "apply_all loads cfg snap now u ps s1 = (r2, s2)" by fastforce
    have "t = s2" using Cons.prems(2) one two Inr by (cases r2) auto
    with confined_trans[OF conf Cons.IH[OF confined_ok[OF conf] two]] show ?thesis by simp
  qed
qed (simp add: confined_refl)

lemma apply_all_settles:
  "wallet_ok s \<Longrightarrow> apply_all loads cfg snap now u ps s = (Inr n, t) \<Longrightarrow>
   \<forall>p \<in> set ps. payment_plan loads cfg snap p = None \<or> cp_recorded (payment_id p) t"
proof (induction ps arbitrary: s n t)
  case (Cons p ps)
  obtain r s1 n1 s2 where one: "apply_payment loads cfg snap now u p s = (Inr r, s1)"
    and two: "apply_all loads cfg snap now u ps s1 = (Inr n1, s2)" and t: "t = s2"
    using Cons.prems(2) by (auto elim!: and_then_InrE split: prod.splits)
  note conf = apply_payment_confined[OF Cons.prems(1) one]
  from Cons.IH[OF confined_ok[OF conf] two] have rest: "\<forall>p \<in> set ps. payment_plan loads cfg snap p = None \<or> cp_recorded (payment_id p) t"
    by (simp add: t)
  have "payment_plan loads cfg snap p = None \<or> cp_recorded (payment_id p) s1"
    using Cons.prems(1) one
  proof (cases rule: apply_payment_cases)
    case (credited plan m)
    show ?thesis unfolding recorded_links[OF credited(7)] using credited(4) by (auto simp: cp_recorded_def dom_def)
  qed simp_all
  with apply_all_confined[OF confined_ok[OF conf] two] rest show ?case
    by (auto simp: confined_def t)
qed simp

lemma apply_payment_idle:
  assumes "payment_plan loads cfg snap p = None \<or> cp_recorded (payment_id p) s"
  shows "\<exists>r. apply_payment loads cfg snap now u p s = (Inr r, s) \<and> r \<noteq> Pay_credited"
proof (cases "payment_plan loads cfg snap p")
  case (Some plan)
  with assms have "cp_recorded (payment_id p) s" by simp
  then show ?thesis by (simp add: apply_payment_def Some session_scope_def cj.known_is_duplicate)
qed (simp add: apply_payment_def)

lemma apply_all_idle:
  "\<forall>p \<in> set ps. payment_plan loads cfg snap p = None \<or> cp_recorded (payment_id p) s \<Longrightarrow>
   \<exists>k. apply_all loads cfg snap now u ps s = (Inr (0, k), s)"
proof (induction ps)
  case (Cons p ps)
  then obtain r k where "apply_payment loads cfg snap now u p s = (Inr r, s)" "r \<noteq> Pay_credited"
    "apply_all loads cfg snap now u ps s = (Inr (0, k), s)"
    using apply_payment_idle[of loads cfg snap p s now u] by auto
  then show ?case by simp
qed simp

section \<open>The callback\<close>

lemma cp_handle_cases:
  obtains (still) "snd (cp_handle decode from_iso loads ask cfg snap now raw s) = s"
      and "\<And>r. fst (cp_handle decode from_iso loads ask cfg snap now raw s) = Inr r \<Longrightarrow> wo_result r = Ignored"
      and "\<And>now' r. fst (cp_handle decode from_iso loads ask cfg snap now raw s) = Inr r \<Longrightarrow>
        cp_handle decode from_iso loads ask cfg snap now' raw s = cp_handle decode from_iso loads ask cfg snap now raw s"
  | (settled) body x u via where "decode raw = Some (JObj body)" and "parse_gate (parse_status body) (parse_operation_type body)"
      and "reported_device loads body = Some x" and "resolve_user x s = Some (u, via)"
      and "\<And>now' t. resolve_user x t = resolve_user x s \<Longrightarrow>
        cp_handle decode from_iso loads ask cfg snap now' raw t = settle from_iso loads ask cfg snap now' u x t"
proof (cases "cloudpayments_api_token cfg \<noteq> [] \<and> raw \<noteq> [] \<and> (\<exists>body x u via. decode raw = Some (JObj body) \<and>
    parse_gate (parse_status body) (parse_operation_type body) \<and> reported_device loads body = Some x \<and> resolve_user x s = Some (u, via))")
  case True
  then obtain body x u via where c: "cloudpayments_api_token cfg \<noteq> []" "raw \<noteq> []" "decode raw = Some (JObj body)"
    "parse_gate (parse_status body) (parse_operation_type body)" "reported_device loads body = Some x"
    "resolve_user x s = Some (u, via)" by blast
  show thesis by (rule settled[OF c(3-6)]) (simp add: cp_handle_def c)
next
  case False
  then show thesis
    by (intro still) (auto simp: cp_handle_def outcome_ignored_def split: option.splits json.splits if_splits)
qed


text \<open>
  A callback cannot move money by what it says. Whatever the body and whatever the outcome, an exception
  included, either nothing is committed, or the body is a completed payment of an identifier that
  resolves to a user, and then only that user's wallet and subscription may differ, the ledger is
  consistent, and every identifier added to the journal is one of a payment that the aggregator
  itself reports as paid within the window.
\<close>

theorem callback_confined:
  assumes "wallet_ok s" and "cp_handle decode from_iso loads ask cfg snap now raw s = (r, t)"
  shows "t = s \<or> (\<exists>body x u via items. decode raw = Some (JObj body) \<and>
    parse_gate (parse_status body) (parse_operation_type body) \<and> reported_device loads body = Some x \<and>
    resolve_user x s = Some (u, via) \<and> list_payments_both ask u (Some x) = Inr items \<and>
    confined u (payment_id ` set (selected from_iso loads cfg now items)) s t)"
proof (cases rule: cp_handle_cases[of decode from_iso loads ask cfg snap now raw s])
  case still
  with assms(2) show ?thesis by simp
next
  case (settled body x u via)
  from settled(5)[OF refl, of now] assms(2) have run: "settle from_iso loads ask cfg snap now u x s = (r, t)" by simp
  show ?thesis
  proof (cases "list_payments_both ask u (Some x)")
    case (Inl e)
    with run show ?thesis by (simp add: settle_def)
  next
    case (Inr items)
    obtain n t1 where loop: "apply_all loads cfg snap now u (selected from_iso loads cfg now items) s = (n, t1)" by fastforce
    have "t = s \<or> t = t1" using run Inr loop by (cases n) (auto simp: settle_def split: if_splits)
    with apply_all_confined[OF assms(1) loop] settled(1-4) Inr show ?thesis by blast
  qed
qed

text \<open>
  A callback can be delivered any number of times: after it has been answered, delivering it again,
  at any later time and with the same answer of the aggregator, credits nothing, changes nothing
  and is not answered \<open>applied\<close>. So the payments of one callback are settled by it for good.
\<close>

theorem callback_redelivery:
  assumes "wallet_ok s" and "cp_handle decode from_iso loads ask cfg snap now raw s = (Inr r, t)" and "now \<le> now'"
  shows "snd (cp_handle decode from_iso loads ask cfg snap now' raw t) = t \<and>
    (case fst (cp_handle decode from_iso loads ask cfg snap now' raw t) of Inl e \<Rightarrow> False | Inr r' \<Rightarrow> wo_result r' \<noteq> Applied)"
proof (cases rule: cp_handle_cases[of decode from_iso loads ask cfg snap now raw s])
  case still
  from still(1) assms(2) have "t = s" by simp
  with still(2,3)[of r] assms(2) show ?thesis by simp
next
  case (settled body x u via)
  from settled(5)[OF refl, of now] assms(2) have run: "settle from_iso loads ask cfg snap now u x s = (Inr r, t)" by simp
  then obtain items where items: "list_payments_both ask u (Some x) = Inr items"
    by (cases "list_payments_both ask u (Some x)") (simp_all add: settle_def)
  let ?sel = "\<lambda>now. selected from_iso loads cfg now items"
  have sub: "set (?sel now') \<subseteq> set (?sel now)" unfolding selected_def by (rule select_later[OF assms(3)])
  have "(\<forall>p \<in> set (?sel now'). payment_plan loads cfg snap p = None \<or> cp_recorded (payment_id p) t) \<and> resolve_user x t = resolve_user x s"
  proof (cases "?sel now = []")
    case True
    with run items sub show ?thesis by (simp add: settle_def)
  next
    case False
    then obtain n where loop: "apply_all loads cfg snap now u (?sel now) s = (Inr n, t)"
      using run items by (auto simp: settle_def elim!: and_then_InrE)
    note conf = apply_all_confined[OF assms(1) loop]
    have "resolve_user x t = resolve_user x s"
      using conf by (simp add: confined_def resolve_user_def split: option.split)
    with apply_all_settles[OF assms(1) loop] sub show ?thesis by blast
  qed
  then obtain k where idle: "apply_all loads cfg snap now' u (?sel now') t = (Inr (0, k), t)" and res: "resolve_user x t = resolve_user x s"
    using apply_all_idle by blast
  show ?thesis
    by (simp add: settled(5)[OF res, of now'] settle_def items idle callback_outcome_def outcome_of_def outcome_ignored_def)
qed

text \<open>
  The gate of checkout is symmetric to the webhook: a product that checkout accepts is never
  skipped when its payment arrives, whether the aggregator reports it as one-time or as a
  subscription, as long as the price configuration is the same.
\<close>

theorem checkout_symmetry:
  assumes "validate_product loads cfg snap (product_code p) = Inr ()"
    and "payment_type p = ''one_time'' \<or> payment_type p = ''subscription''"
  shows "payment_plan loads cfg snap p \<noteq> None"
proof -
  let ?ids = "one_time_product_ids loads cfg snap" and ?c = "one_time_credits loads cfg snap (product_code p)"
  have kind: "classify_product (product_code p) None ?ids \<noteq> KIND_UNKNOWN"
    and sized: "classify_product (product_code p) None ?ids = KIND_TOKENS \<Longrightarrow> 0 < or_default ?c 0"
    using assms(1) by (auto simp: validate_product_def Let_def split: if_splits)
  have tokens: "0 < or_default ?c 0" if "payment_kind loads cfg snap p = Some KIND_TOKENS"
  proof -
    from that have "product_code p \<in> ?ids \<or> classify_product (product_code p) None ?ids \<noteq> KIND_SUBSCRIPTION"
      by (auto simp: payment_kind_def Let_def split: if_splits)
    then have "classify_product (product_code p) None ?ids = KIND_TOKENS"
      using kind by (cases "classify_product (product_code p) None ?ids") (auto simp: classify_product_def)
    then show ?thesis by (rule sized)
  qed
  show ?thesis
  proof (cases "payment_kind loads cfg snap p = Some KIND_TOKENS")
    case True
    with tokens show ?thesis by (cases ?c) (auto simp: payment_plan_def)
  next
    case False
    moreover have "payment_kind loads cfg snap p \<noteq> None" using assms(2) by (auto simp: payment_kind_def Let_def)
    ultimately show ?thesis by (auto simp: payment_plan_def Let_def)
  qed
qed

text \<open>
  A defect: a subscription product whose amount the operator has set to zero stops the whole
  callback. The wallet refuses the amount, the exception leaves the loop, and no later payment of
  the same user is reached, on this delivery and on every other.
\<close>

theorem zero_overlay_blocks_callback:
  assumes "overlay_of snap (product_code p) = Some ov" and "ov_purchase_kind ov = Some PURCHASE_KIND_SUBSCRIPTION"
    and "ov_tokens ov = Some 0" and "product_code p \<noteq> []" and "payment_type p = ''subscription''"
    and "users s u \<noteq> None" and "\<not> cp_recorded (payment_id p) s"
  shows "apply_all loads cfg snap now u (p # ps) s = (Inl (Raised ConflictError ''amount must be positive''), s)"
proof -
  obtain plan where plan: "payment_plan loads cfg snap p = Some plan" and amount: "pl_credits plan = 0"
    using assms(1-5) by (simp add: payment_plan_def payment_kind_def subscription_credits_def Let_def)
  let ?row = "\<lparr>ce_user = u, ce_product = product_code p, ce_kind = kind_str (pl_kind plan), ce_payload = cp_event_payload p plan\<rparr>"
  obtain s1 where ins: "cp_insert_event (payment_id p) ?row s = (Inr True, s1)" and s1: "users s1 = users s"
    using assms(6,7) by (auto simp: cp_insert_event_def cp_recorded_def)
  have "\<exists>s2. (case period_end now p plan of None \<Rightarrow> (Inr (), s1) | Some e \<Rightarrow> cp_upsert_subscription u (product_code p) e s1) = (Inr (), s2)"
    using assms(6) s1 by (auto simp: cp_upsert_subscription_def store_subscription_def split: option.split)
  then obtain s2 where "(case period_end now p plan of None \<Rightarrow> (Inr (), s1) | Some e \<Rightarrow> cp_upsert_subscription u (product_code p) e s1) = (Inr (), s2)" ..
  then have "credit_payment now u p plan s1 = (Inl (Raised ConflictError ''amount must be positive''), s2)"
    by (simp add: credit_payment_def amount wallet_grant_def)
  then show ?thesis
    by (simp add: apply_payment_def plan session_scope_eq once_per_event_def ins)
qed


lemma apply_payment_returns:
  assumes "wallet_ok s" and "users s u \<noteq> None" and "\<not> cp_recorded (payment_id p) s"
    and "payment_plan loads cfg snap p = Some plan" and "\<not> has_idempotency_key u (cp_txn_key (payment_id p)) s"
    and "0 < pl_credits plan" and "bigint_ok (pl_credits plan)" and "bigint_ok (current_balance u s + pl_credits plan)"
  shows "\<exists>t. apply_payment loads cfg snap now u p s = (Inr Pay_credited, t)"
proof -
  let ?row = "\<lparr>ce_user = u, ce_product = product_code p, ce_kind = kind_str (pl_kind plan), ce_payload = cp_event_payload p plan\<rparr>"
  obtain s1 where ins: "cp_insert_event (payment_id p) ?row s = (Inr True, s1)"
    using assms(2,3) by (auto simp: cp_insert_event_def cp_recorded_def)
  note i = cp_insert_True(1)[OF ins]
  obtain s2 where up: "(case period_end now p plan of None \<Rightarrow> (Inr (), s1) | Some e \<Rightarrow> cp_upsert_subscription u (product_code p) e s1) = (Inr (), s2)"
    using assms(2) i by (cases "period_end now p plan") (auto simp: cp_upsert_subscription_def store_subscription_def)
  note two = period_step[OF up]
  note kept = wallet_part[OF two(2,3)]
  have ok2: "wallet_ok s2" and users2: "users s2 u \<noteq> None" and room: "bigint_ok (current_balance u s2 + pl_credits plan)"
    using assms(1,2,8) two(1,4) i kept by (auto simp: same_links_def)
  have "\<not> has_idempotency_key u (cp_txn_key (payment_id p)) s2" using assms(5) i by (simp add: kept)
  then have free: "existing_tx u (cp_txn_key (payment_id p)) s2 = None" by (simp add: has_idempotency_key_def)
  let ?meta = "[(''paymentId'', Val (JStr (payment_id p))), (''productCode'', Val (JStr (product_code p))),
         (''kind'', Val (JStr (kind_str (pl_kind plan))))]"
  obtain g s3 where grant: "wallet_grant u (pl_credits plan) (cp_txn_key (payment_id p)) ?meta (pl_reason plan) s2 = (Inr g, s3)"
    using grant_posts[OF ok2 users2 assms(6,7) room free] by blast
  have users3: "users s3 u \<noteq> None" using wallet_grant_same[OF ok2 grant] users2 by (simp add: same_but_wallet_def)
  obtain s4 where signal: "(if pl_unmapped plan \<and> \<not> idempotent_replay g
               then signal_unmapped_product u ''cloudpayments'' (Some (product_code p)) (pl_credits plan) (payment_id p) s3
               else (Inr (), s3)) = (Inr (), s4)" and users4: "users s4 u \<noteq> None"
    using audit_record_returns[OF users3] users3 unfolding signal_unmapped_product_def by (metis (no_types))
  from audit_record_returns[OF users4] obtain s5 where
    "audit_record (Some u) None ''cloudpayments_payment'' (cp_audit_payload now p plan) s4 = (Inr (), s5)" by blast
  then have "credit_payment now u p plan s1 = (Inr Pay_credited, s5)"
    unfolding credit_payment_def up and_then_simps(2) grant signal by simp
  then show ?thesis
    by (simp add: apply_payment_def assms(4) session_scope_eq once_per_event_def ins)
qed

text \<open>
  No verified payment is lost on the server's side: one that can be sized to a positive amount the
  columns hold, of a known user and not yet in the journal or the ledger, is credited, and both the
  balance and the journal show it.
\<close>

theorem payment_credited:
  assumes "wallet_ok s" and "users s u \<noteq> None" and "\<not> cp_recorded (payment_id p) s"
    and "payment_plan loads cfg snap p = Some plan" and "\<not> has_idempotency_key u (cp_txn_key (payment_id p)) s"
    and "0 < pl_credits plan" and "bigint_ok (pl_credits plan)" and "bigint_ok (current_balance u s + pl_credits plan)"
  shows "\<exists>t. apply_payment loads cfg snap now u p s = (Inr Pay_credited, t) \<and> cp_recorded (payment_id p) t \<and>
    current_balance u t = current_balance u s + pl_credits plan"
proof -
  obtain t where run: "apply_payment loads cfg snap now u p s = (Inr Pay_credited, t)"
    using apply_payment_returns[OF assms] by blast
  from assms(1) run show ?thesis
  proof (cases rule: apply_payment_cases)
    case (credited plan' m)
    have ok: "wallet_ok (s\<lparr>cp_events := m\<rparr>)" using assms(1) by simp
    note eff = credit_payment_effect[OF ok credited(5)]
    have "cp_recorded (payment_id p) t"
      unfolding recorded_links[OF credited(7)] using credited(4) by (auto simp: cp_recorded_def dom_def)
    with run eff(4)[of u] credited(1) assms(4,5) show ?thesis by simp
  qed simp_all
qed

section \<open>Witnesses\<close>

definition demo_payment :: "string \<Rightarrow> string \<Rightarrow> CreditablePayment" where
  "demo_payment ty sku = \<lparr>payment_id = ''p1'', product_code = sku, payment_type = ty, cp_status = ''succeeded'', paid_at = 5\<rparr>"

lemma demo_payment_facts:
  "payment_plan demo_loads demo_settings [] (demo_payment ''one_time'' ''pack'') =
     Some \<lparr>pl_kind = KIND_TOKENS, pl_credits = 100, pl_reason = ''cloudpayments_tokens'', pl_unmapped = False\<rparr>"
  "\<not> cp_recorded i small_db" "\<not> has_idempotency_key 1 (cp_txn_key i) small_db" "current_balance 1 small_db = 40"
  by (simp_all add: payment_plan_def payment_kind_def demo_payment_def one_time_product_ids_def one_time_credits_def
      overlay_of_def demo_token_products cp_recorded_def small_db_def empty_db_def has_idempotency_key_def existing_tx_def
      find_tx_def cp_txn_key_def current_balance_def)

theorem payment_credited_witness:
  "\<exists>t. apply_payment demo_loads demo_settings [] 10 1 (demo_payment ''one_time'' ''pack'') small_db = (Inr Pay_credited, t) \<and>
     current_balance 1 t = 140"
  using payment_credited[OF small_db_ok small_db_user demo_payment_facts(2,1,3), of 10]
  by (auto simp: demo_payment_facts(4) bigint_ok_def)

theorem payment_money_witness:
  "\<exists>r t. apply_payment demo_loads demo_settings [] 10 1 (demo_payment ''one_time'' ''pack'') small_db = (Inr r, t) \<and>
     r = Pay_credited \<and> current_balance 1 t = 140 \<and> current_balance 2 t = current_balance 2 small_db"
proof -
  obtain t where run: "apply_payment demo_loads demo_settings [] 10 1 (demo_payment ''one_time'' ''pack'') small_db = (Inr Pay_credited, t)"
    using apply_payment_returns[OF small_db_ok small_db_user demo_payment_facts(2,1,3), of 10]
    by (auto simp: demo_payment_facts(4) bigint_ok_def)
  from payment_money[OF small_db_ok run, of 1] payment_money[OF small_db_ok run, of 2] run show ?thesis
    by (simp add: demo_payment_facts)
qed

theorem checkout_symmetry_witness: "payment_plan demo_loads demo_settings [] (demo_payment ''subscription'' ''pack'') \<noteq> None"
  by (rule checkout_symmetry)
    (simp_all add: validate_product_def demo_payment_def one_time_product_ids_def one_time_credits_def overlay_of_def
      demo_token_products classify_product_def)

theorem zero_overlay_blocks_callback_witness:
  "apply_all demo_loads demo_settings [demo_overlay ''gold'' (Some PURCHASE_KIND_SUBSCRIPTION) (Some 0)] 10 1
      [demo_payment ''subscription'' ''gold'', demo_payment ''one_time'' ''pack''] small_db =
    (Inl (Raised ConflictError ''amount must be positive''), small_db)"
  by (rule zero_overlay_blocks_callback[of _ _ "demo_overlay ''gold'' (Some PURCHASE_KIND_SUBSCRIPTION) (Some 0)"])
    (use small_db_user demo_payment_facts(2) in \<open>simp_all add: demo_payment_def demo_overlay_def overlay_of_def\<close>)

text \<open>A completed callback about user 1, to which the aggregator answers with one paid token pack.\<close>

definition demo_callback :: json_obj where
  "demo_callback = [(''Status'', JStr ''Completed''), (''OperationType'', JStr ''Payment''), (''AccountId'', JStr (uuid_str 1))]"

definition demo_paid :: json_obj where
  "demo_paid = [(''status'', JStr ''succeeded''), (''paid_at'', JStr ''t''), (''payment_id'', JStr ''p1''),
     (''product'', JObj [(''code'', JStr ''pack''), (''payment_type'', JStr ''one_time'')])]"

definition demo_aggregator :: "uuid \<Rightarrow> http_reply" where
  "demo_aggregator u = Response 200 (Some (JObj [(''data'', JArr [JObj demo_paid])]))"

abbreviation demo_delivery :: "instant \<Rightarrow> db \<Rightarrow> (exn, WebhookOutcome, db) outcome" where
  "demo_delivery now \<equiv> cp_handle (\<lambda>_. Some (JObj demo_callback)) (\<lambda>_. Some (Aware 5)) demo_loads demo_aggregator demo_settings [] now ''x''"

lemma demo_callback_reads:
  "parse_gate (parse_status demo_callback) (parse_operation_type demo_callback)"
  "reported_device loads demo_callback = Some 1"
proof -
  have "char_of (99 :: nat) = CHR ''c''" "char_of (112 :: nat) = CHR ''p''" by code_simp+
  then show "parse_gate (parse_status demo_callback) (parse_operation_type demo_callback)"
    by (simp add: demo_callback_def parse_gate_def parse_status_def parse_operation_type_def str_or_empty_def py_strip_def
        strip_by_def py_isspace_def py_lower_def lower_char_def)
  have "uuid_str 1 \<noteq> []" using uuid_str_length[of 1] by auto
  then show "reported_device loads demo_callback = Some 1"
    by (simp add: demo_callback_def reported_device_def parse_user_id_def parse_data_def py_lower_uuid_str uuid_parse_str)
qed

lemma demo_selected: "selected (\<lambda>_. Some (Aware 5)) demo_loads demo_settings 10 [demo_paid] = [demo_payment ''one_time'' ''pack'']"
  by (simp add: selected_def select_creditable_payments_def creditable_payment_def demo_paid_def demo_payment_def map_filter_def
      str_or_empty_def text_field_def parse_paid_at_def cloudpayments_paid_statuses_def demo_settings_def py_strip_def strip_by_def
      py_isspace_def py_lower_def lower_char_def)

lemma demo_delivery_applied: "\<exists>t. demo_delivery 10 small_db = (Inr (outcome_of Applied), t)"
proof -
  obtain t where run: "apply_payment demo_loads demo_settings [] 10 1 (demo_payment ''one_time'' ''pack'') small_db = (Inr Pay_credited, t)"
    using apply_payment_returns[OF small_db_ok small_db_user demo_payment_facts(2,1,3), of 10]
    by (auto simp: demo_payment_facts(4) bigint_ok_def)
  have res: "resolve_user 1 small_db = Some (1, RESOLVED_VIA_USER_ID)"
    using small_db_user by (auto simp: resolve_user_def)
  have items: "list_payments_both demo_aggregator 1 (Some 1) = Inr [demo_paid]"
    by (simp add: list_payments_both_def list_payments_def demo_aggregator_def map_filter_def demo_paid_def)
  have "demo_delivery 10 small_db = settle (\<lambda>_. Some (Aware 5)) demo_loads demo_aggregator demo_settings [] 10 1 1 small_db"
    by (simp add: cp_handle_def demo_callback_reads res) (simp add: demo_settings_def)
  also have "\<dots> = (Inr (outcome_of Applied), t)"
    by (simp add: settle_def items demo_selected run callback_outcome_def)
  finally show ?thesis by blast
qed

theorem callback_confined_witness:
  "\<exists>r t. demo_delivery 10 small_db = (r, t) \<and> (t = small_db \<or> current_balance 2 t = current_balance 2 small_db)"
proof -
  obtain t where run: "demo_delivery 10 small_db = (Inr (outcome_of Applied), t)" using demo_delivery_applied by blast
  have "parse_gate (parse_status demo_callback) (parse_operation_type demo_callback)" by (rule demo_callback_reads)
  from callback_confined[OF small_db_ok run] run demo_callback_reads show ?thesis
    by (auto simp: confined_def resolve_user_def small_db_def)
qed

theorem callback_redelivery_witness: "\<exists>t. snd (demo_delivery 99 t) = t \<and> fst (demo_delivery 10 small_db) = Inr (outcome_of Applied)"
proof -
  obtain t where run: "demo_delivery 10 small_db = (Inr (outcome_of Applied), t)" using demo_delivery_applied by blast
  from callback_redelivery[OF small_db_ok run, of 99] run show ?thesis by auto
qed

end
