(* ===== verification/Auth.thy ===== *)
theory Auth
  imports Store
begin

text \<open>
  \<open>auth/service.py\<close>, \<open>auth/issuer.py\<close> and the acceptance rules of \<open>auth/apple.py\<close>: device identities,
  Sign in with Apple, and the rotation of refresh tokens. The state is the billing database with
  two more tables. What the sources take from elsewhere is an argument: \<open>sha256\<close> (its hex digest),
  \<open>jwt_encode\<close>, the JWT decoders, the generated UUIDs and the opaque token of a call. A call is one
  request and its result state is the committed one: an exception rolls the request back, except
  where the source commits before it raises. \<open>last_seen_at\<close> of a device, which nothing modelled
  reads, is left out.
\<close>

section \<open>Tables\<close>

record refresh_row =
  rt_user :: uuid
  rt_device :: string
  rt_hash :: string
  rt_expires_at :: instant
  rt_used_at :: "instant option"
  rt_revoked_at :: "instant option"

record identity_row =
  ai_user :: uuid
  ai_provider :: string
  ai_subject :: string
  ai_email :: "string option"

record auth_db = db +
  identities :: "identity_row list"
  refresh_tokens :: "refresh_row list"

type_synonym 'a atx = "auth_db \<Rightarrow> (exn, 'a, auth_db) outcome"

section \<open>Access tokens\<close>

record issuer =
  private_key :: string
  iss_claim :: string
  aud_claim :: string
  key_id :: string
  access_ttl :: int
  refresh_ttl :: int

definition issuer_configured :: "issuer \<Rightarrow> bool" where
  "issuer_configured cfg = (private_key cfg \<noteq> [])"

text \<open>An instant in microseconds as \<open>int(t.timestamp())\<close>; times are after 1970.\<close>

definition unix_seconds :: "instant \<Rightarrow> int" where
  "unix_seconds t = t div microseconds_per_second"

definition access_claims :: "issuer \<Rightarrow> instant \<Rightarrow> uuid \<Rightarrow> string \<Rightarrow> json_obj" where
  "access_claims cfg now u device =
     [(''sub'', JStr (uuid_str u)), (''device_id'', JStr device), (''iat'', JInt (unix_seconds now)),
      (''exp'', JInt (unix_seconds (now + seconds (access_ttl cfg))))]
     @ (if iss_claim cfg \<noteq> [] then [(''iss'', JStr (iss_claim cfg))] else [])
     @ (if aud_claim cfg \<noteq> [] then [(''aud'', JStr (aud_claim cfg))] else [])"

type_synonym encoder = "string \<Rightarrow> json_obj \<Rightarrow> string option \<Rightarrow> string"

definition issue_access_token :: "encoder \<Rightarrow> issuer \<Rightarrow> instant \<Rightarrow> uuid \<Rightarrow> string \<Rightarrow> string option" where
  "issue_access_token jwt_encode cfg now u device =
     (if private_key cfg = [] then None
      else Some (jwt_encode (private_key cfg) (access_claims cfg now u device) (if key_id cfg \<noteq> [] then Some (key_id cfg) else None)))"

section \<open>Apple identity tokens\<close>

record VerifiedAppleIdentity =
  apple_sub :: string
  apple_email :: json
  apple_email_verified :: bool

record apple_verifier =
  av_audience :: string
  av_test_mode :: bool
  av_header :: "string \<Rightarrow> json_obj option"
  av_decode_real :: "string \<Rightarrow> json_obj option"
  av_decode_test :: "string \<Rightarrow> json_obj option"

definition bad_apple_token :: exn where
  "bad_apple_token = Raised UnauthorizedError ''invalid apple identity token''"

definition nonce_ok :: "(string \<Rightarrow> string) \<Rightarrow> json_obj \<Rightarrow> string option \<Rightarrow> bool" where
  "nonce_ok sha256 claims nonce =
     (case nonce of
        None \<Rightarrow> True
      | Some n \<Rightarrow> truthy (jget ''nonce'' claims) \<and> n \<noteq> [] \<longrightarrow> sha256 n = py_str (jget ''nonce'' claims))"

definition apple_claims :: "apple_verifier \<Rightarrow> string \<Rightarrow> json_obj option" where
  "apple_claims v token =
     (case av_header v token of
        None \<Rightarrow> None
      | Some header \<Rightarrow>
          if py_str (case map_of header ''alg'' of None \<Rightarrow> JStr [] | Some a \<Rightarrow> a) = ''HS256''
          then if av_test_mode v then av_decode_test v token else None
          else av_decode_real v token)"

definition apple_verify :: "(string \<Rightarrow> string) \<Rightarrow> apple_verifier \<Rightarrow> string \<Rightarrow> string option \<Rightarrow> exn + VerifiedAppleIdentity" where
  "apple_verify sha256 v token nonce =
     (if av_audience v = [] then Inl (Raised ServiceUnavailableError ''apple sign-in is not configured'')
      else case apple_claims v token of
          None \<Rightarrow> Inl bad_apple_token
        | Some claims \<Rightarrow>
            if \<not> nonce_ok sha256 claims nonce then Inl bad_apple_token
            else if \<not> truthy (jget ''sub'' claims) then Inl bad_apple_token
            else Inr \<lparr>apple_sub = py_str (jget ''sub'' claims), apple_email = jget ''email'' claims,
                      apple_email_verified = truthy (jget ''email_verified'' claims)\<rparr>)"

section \<open>Identities\<close>

definition require_issuer :: "issuer \<Rightarrow> unit atx" where
  "require_issuer cfg s =
     (if \<not> issuer_configured cfg then (Inl (Raised ServiceUnavailableError ''auth issuer is not configured''), s) else (Inr (), s))"

text \<open>\<open>INSERT ... ON CONFLICT DO NOTHING\<close> into the two tables, and \<open>DO UPDATE\<close> for a device.\<close>

definition insert_user :: "uuid \<Rightarrow> auth_db \<Rightarrow> auth_db" where
  "insert_user u s = (if users s u = None then s\<lparr>users := (users s)(u \<mapsto> False)\<rparr> else s)"

definition insert_device :: "string \<Rightarrow> uuid \<Rightarrow> auth_db \<Rightarrow> auth_db" where
  "insert_device d u s =
     (if map_of (auth_devices s) d = None then s\<lparr>auth_devices := auth_devices s @ [(d, u)]\<rparr> else s)"

definition find_or_create_identity :: "uuid \<Rightarrow> string \<Rightarrow> uuid atx" where
  "find_or_create_identity new_user d s =
     (case map_of (auth_devices s) d of
        Some u \<Rightarrow> (Inr u, s)
      | None \<Rightarrow>
          let s = insert_device d new_user (insert_user new_user s) in
          (case map_of (auth_devices s) d of
             None \<Rightarrow> (Inl (Raised ServiceUnavailableError ''failed to provision device identity''), s)
           | Some winner \<Rightarrow> (Inr winner, s)))"

record IssuedTokens =
  it_user :: uuid
  it_device :: string
  it_access :: string
  it_expires_in :: int
  it_refresh :: string
  it_refresh_expires_in :: int

text \<open>What one call draws from outside: the clock, the opaque token, and the UUIDs it may need.\<close>

record draw =
  now_at :: instant
  opaque_token :: string
  device_uuid :: uuid
  user_uuid :: uuid
  second_user_uuid :: uuid

definition issue_pair :: "encoder \<Rightarrow> (string \<Rightarrow> string) \<Rightarrow> issuer \<Rightarrow> draw \<Rightarrow> uuid \<Rightarrow> string \<Rightarrow> IssuedTokens atx" where
  "issue_pair jwt_encode sha256 cfg dr u d s =
     (case issue_access_token jwt_encode cfg (now_at dr) u d of
        None \<Rightarrow> (Inl (Raised ServiceUnavailableError ''auth issuer is not configured''), s)
      | Some access \<Rightarrow>
          let h = sha256 (opaque_token dr) in
          if h \<in> set (map rt_hash (refresh_tokens s)) then (Inl (DbFault UniqueViolation), s)
          else if users s u = None \<or> map_of (auth_devices s) d = None then (Inl (DbFault ForeignKeyViolation), s)
          else (Inr \<lparr>it_user = u, it_device = d, it_access = access,
                   it_expires_in = access_ttl cfg, it_refresh = opaque_token dr, it_refresh_expires_in = refresh_ttl cfg\<rparr>,
                s\<lparr>refresh_tokens := refresh_tokens s @ [\<lparr>rt_user = u, rt_device = d, rt_hash = h,
                   rt_expires_at = now_at dr + seconds (refresh_ttl cfg), rt_used_at = None, rt_revoked_at = None\<rparr>]\<rparr>))"

text \<open>\<open>device_id or str(uuid.uuid4())\<close>\<close>

definition chosen_device :: "draw \<Rightarrow> string option \<Rightarrow> string" where
  "chosen_device dr device_id = (if or_default device_id [] \<noteq> [] then or_default device_id [] else uuid_str (device_uuid dr))"

definition register_or_token :: "encoder \<Rightarrow> (string \<Rightarrow> string) \<Rightarrow> issuer \<Rightarrow> draw \<Rightarrow> string option \<Rightarrow> IssuedTokens atx" where
  "register_or_token jwt_encode sha256 cfg dr device_id =
     session_scope (\<lambda>s. and_then (require_issuer cfg s) (\<lambda>_ s.
       and_then (find_or_create_identity (user_uuid dr) (chosen_device dr device_id) s) (\<lambda>u s.
       issue_pair jwt_encode sha256 cfg dr u (chosen_device dr device_id) s)))"

definition find_identity :: "string \<Rightarrow> auth_db \<Rightarrow> uuid option" where
  "find_identity subject s =
     map_option ai_user (find (\<lambda>r. ai_provider r = ''apple'' \<and> ai_subject r = subject) (identities s))"

definition insert_identity :: "uuid \<Rightarrow> string \<Rightarrow> string option \<Rightarrow> auth_db \<Rightarrow> auth_db" where
  "insert_identity u subject email s =
     (if find_identity subject s = None
      then s\<lparr>identities := identities s @ [\<lparr>ai_user = u, ai_provider = ''apple'', ai_subject = subject, ai_email = email\<rparr>]\<rparr>
      else s)"

definition resolve_apple_user :: "draw \<Rightarrow> string \<Rightarrow> string option \<Rightarrow> string \<Rightarrow> uuid atx" where
  "resolve_apple_user dr subject email d s =
     (case find_identity subject s of
        Some u \<Rightarrow> (Inr u, s)
      | None \<Rightarrow>
          and_then (find_or_create_identity (user_uuid dr) d s) (\<lambda>device_user s.
          let linked = list_ex (\<lambda>r. ai_user r = device_user \<and> ai_provider r = ''apple'') (identities s);
              link_to = (if linked then second_user_uuid dr else device_user);
              s = insert_identity link_to subject email (if linked then insert_user link_to s else s)
          in (case find_identity subject s of
                None \<Rightarrow> (Inl (Raised ServiceUnavailableError ''failed to link apple identity''), s)
              | Some winner \<Rightarrow> (Inr winner, s))))"

definition upsert_device :: "string \<Rightarrow> uuid \<Rightarrow> unit atx" where
  "upsert_device d u s =
     (if users s u = None then (Inl (DbFault ForeignKeyViolation), s)
      else (Inr (), (case map_of (auth_devices s) d of
          None \<Rightarrow> s\<lparr>auth_devices := auth_devices s @ [(d, u)]\<rparr>
        | Some _ \<Rightarrow> s\<lparr>auth_devices := map (\<lambda>(d', v). (d', if d' = d then u else v)) (auth_devices s)\<rparr>)))"

definition sign_in_with_apple ::
  "encoder \<Rightarrow> (string \<Rightarrow> string) \<Rightarrow> issuer \<Rightarrow> apple_verifier \<Rightarrow> draw \<Rightarrow> string \<Rightarrow> string option \<Rightarrow> string option \<Rightarrow> IssuedTokens atx" where
  "sign_in_with_apple jwt_encode sha256 cfg v dr token device_id nonce =
     session_scope (\<lambda>s. and_then (require_issuer cfg s) (\<lambda>_ s.
       case apple_verify sha256 v token nonce of
         Inl e \<Rightarrow> (Inl e, s)
       | Inr identity \<Rightarrow>
           let d = chosen_device dr device_id;
               email = (case apple_email identity of JStr e \<Rightarrow> Some e | _ \<Rightarrow> None) in
           and_then (resolve_apple_user dr (apple_sub identity) email d s) (\<lambda>u s.
           and_then (upsert_device d u s) (\<lambda>_ s.
           issue_pair jwt_encode sha256 cfg dr u d s))))"

section \<open>Refresh tokens\<close>

definition find_refresh :: "string \<Rightarrow> auth_db \<Rightarrow> refresh_row option" where
  "find_refresh h s = find (\<lambda>r. rt_hash r = h) (refresh_tokens s)"

definition mark_used :: "string \<Rightarrow> auth_db \<Rightarrow> auth_db" where
  "mark_used h s =
     s\<lparr>refresh_tokens := map (\<lambda>r. if rt_hash r = h then r\<lparr>rt_used_at := Some (sql_now s)\<rparr> else r) (refresh_tokens s)\<rparr>"

definition revoke_chain :: "uuid \<Rightarrow> string \<Rightarrow> auth_db \<Rightarrow> auth_db" where
  "revoke_chain u d s =
     s\<lparr>refresh_tokens := map (\<lambda>r. if rt_user r = u \<and> rt_device r = d \<and> rt_revoked_at r = None
        then r\<lparr>rt_revoked_at := Some (sql_now s)\<rparr> else r) (refresh_tokens s)\<rparr>"

text \<open>The part of \<open>refresh\<close> after its SELECT, with the row that was read.\<close>

definition refresh_with ::
  "encoder \<Rightarrow> (string \<Rightarrow> string) \<Rightarrow> issuer \<Rightarrow> draw \<Rightarrow> refresh_row option \<Rightarrow> IssuedTokens atx" where
  "refresh_with jwt_encode sha256 cfg dr row s =
     (case row of
        None \<Rightarrow> (Inl (Raised UnauthorizedError ''invalid refresh token''), s)
      | Some r \<Rightarrow>
          if rt_used_at r \<noteq> None
          then (Inl (Raised UnauthorizedError ''refresh token reuse detected''), revoke_chain (rt_user r) (rt_device r) s)
          else if rt_revoked_at r \<noteq> None then (Inl (Raised UnauthorizedError ''refresh token revoked''), s)
          else if rt_expires_at r \<le> now_at dr then (Inl (Raised UnauthorizedError ''refresh token expired''), s)
          else session_scope (\<lambda>s. issue_pair jwt_encode sha256 cfg dr (rt_user r) (rt_device r) (mark_used (rt_hash r) s)) s)"

definition refresh :: "encoder \<Rightarrow> (string \<Rightarrow> string) \<Rightarrow> issuer \<Rightarrow> draw \<Rightarrow> string \<Rightarrow> IssuedTokens atx" where
  "refresh jwt_encode sha256 cfg dr token s =
     and_then (require_issuer cfg s) (\<lambda>_ s. refresh_with jwt_encode sha256 cfg dr (find_refresh (sha256 token) s) s)"


section \<open>The tables stay consistent\<close>

definition auth_ok :: "auth_db \<Rightarrow> bool" where
  "auth_ok s \<longleftrightarrow> distinct (map fst (auth_devices s)) \<and> (\<forall>u \<in> snd ` set (auth_devices s). users s u \<noteq> None) \<and>
     distinct (map (\<lambda>r. (ai_provider r, ai_subject r)) (identities s)) \<and> (\<forall>r \<in> set (identities s). users s (ai_user r) \<noteq> None) \<and>
     distinct (map rt_hash (refresh_tokens s)) \<and> (\<forall>r \<in> set (refresh_tokens s). map_of (auth_devices s) (rt_device r) \<noteq> None \<and> users s (rt_user r) \<noteq> None)"

text \<open>What every step keeps: known users, known devices, the clock of the transaction.\<close>

definition grows :: "auth_db \<Rightarrow> auth_db \<Rightarrow> bool" where
  "grows s t \<longleftrightarrow> (\<forall>u. users s u \<noteq> None \<longrightarrow> users t u \<noteq> None) \<and>
     (\<forall>d. map_of (auth_devices s) d \<noteq> None \<longrightarrow> map_of (auth_devices t) d \<noteq> None) \<and> sql_now t = sql_now s"

lemma grows_refl: "grows s s"
  by (simp add: grows_def)

lemma grows_trans: "grows s t \<Longrightarrow> grows t v \<Longrightarrow> grows s v"
  by (simp add: grows_def)

lemma insert_user_facts:
  "users (insert_user u s) u \<noteq> None" "users s v \<noteq> None \<Longrightarrow> users (insert_user u s) v \<noteq> None"
  "auth_devices (insert_user u s) = auth_devices s" "identities (insert_user u s) = identities s"
  "refresh_tokens (insert_user u s) = refresh_tokens s" "sql_now (insert_user u s) = sql_now s"
  by (simp_all add: insert_user_def)

lemma insert_user_ok: "auth_ok s \<Longrightarrow> auth_ok (insert_user u s)" "grows s (insert_user u s)"
  using insert_user_facts(2)[of s _ u] by (auto simp: auth_ok_def grows_def insert_user_facts(3-6) simp del: not_None_eq)

lemma map_of_rebind:
  "map_of (map (\<lambda>(d', v). (d', if d' = d then u else v)) xs) = (\<lambda>d'. if d' = d then map_option (\<lambda>_. u) (map_of xs d) else map_of xs d')"
  by (induction xs) auto

lemma add_device_ok:
  assumes "auth_ok s" and "map_of (auth_devices s) d = None" and "users s u \<noteq> None"
  shows "auth_ok (s\<lparr>auth_devices := auth_devices s @ [(d, u)]\<rparr>)" and "grows s (s\<lparr>auth_devices := auth_devices s @ [(d, u)]\<rparr>)"
    and "map_of (auth_devices s @ [(d, u)]) = (map_of (auth_devices s))(d \<mapsto> u)"
proof -
  show new: "map_of (auth_devices s @ [(d, u)]) = (map_of (auth_devices s))(d \<mapsto> u)"
    using assms(2) by (auto simp: map_add_def fun_eq_iff split: option.split)
  have "d \<notin> fst ` set (auth_devices s)" using assms(2) by (simp add: map_of_eq_None_iff)
  with assms(1,3) show "auth_ok (s\<lparr>auth_devices := auth_devices s @ [(d, u)]\<rparr>)"
    unfolding auth_ok_def by (simp add: new del: map_of_append not_None_eq)
  show "grows s (s\<lparr>auth_devices := auth_devices s @ [(d, u)]\<rparr>)"
    by (simp add: grows_def new del: map_of_append)
qed

lemma find_or_create_returns:
  assumes "auth_ok s" and "find_or_create_identity n d s = (Inr u, t)"
  shows "auth_ok t" and "grows s t" and "map_of (auth_devices t) d = Some u" and "users t u \<noteq> None"
    and "identities t = identities s" and "refresh_tokens t = refresh_tokens s"
    and "d' \<noteq> d \<Longrightarrow> map_of (auth_devices t) d' = map_of (auth_devices s) d'"
    and "map_of (auth_devices s) d = Some v \<Longrightarrow> u = v"
proof -
  let ?s1 = "insert_user n s"
  have "auth_ok t \<and> grows s t \<and> map_of (auth_devices t) d = Some u \<and> users t u \<noteq> None \<and>
    identities t = identities s \<and> refresh_tokens t = refresh_tokens s \<and>
    (\<forall>d'. d' \<noteq> d \<longrightarrow> map_of (auth_devices t) d' = map_of (auth_devices s) d') \<and> (\<forall>v. map_of (auth_devices s) d = Some v \<longrightarrow> u = v)"
  proof (cases "map_of (auth_devices s) d")
    case (Some w)
    with assms(2) have t: "t = s" "u = w" by (simp_all add: find_or_create_identity_def)
    from Some have "w \<in> snd ` set (auth_devices s)" by (force dest: map_of_SomeD)
    with assms(1) have "users s w \<noteq> None" unfolding auth_ok_def by blast
    with assms(1) Some show ?thesis by (simp add: t grows_refl del: not_None_eq)
  next
    case None
    have ok1: "auth_ok ?s1" and none1: "map_of (auth_devices ?s1) d = None"
      using insert_user_ok(1)[OF assms(1)] None by (simp_all add: insert_user_facts)
    note add = add_device_ok[OF ok1 none1 insert_user_facts(1)]
    have t: "t = ?s1\<lparr>auth_devices := auth_devices ?s1 @ [(d, n)]\<rparr>" "u = n"
      using assms(2) None none1 add(3) by (auto simp: find_or_create_identity_def insert_device_def Let_def split: option.splits)
    show ?thesis
      unfolding t using add grows_trans[OF insert_user_ok(2) add(2)] None insert_user_facts(1)[of n s]
      by (simp add: insert_user_facts(3-6) del: map_of_append not_None_eq)
  qed
  then show "auth_ok t" "grows s t" "map_of (auth_devices t) d = Some u" "users t u \<noteq> None"
    "identities t = identities s" "refresh_tokens t = refresh_tokens s"
    "d' \<noteq> d \<Longrightarrow> map_of (auth_devices t) d' = map_of (auth_devices s) d'" "map_of (auth_devices s) d = Some v \<Longrightarrow> u = v" by blast+
qed

lemma issue_pair_returns:
  assumes "issue_pair enc sha256 cfg dr u d s = (Inr p, t)"
  shows "it_user p = u" and "it_device p = d" and "it_refresh p = opaque_token dr"
    and "t = s\<lparr>refresh_tokens := refresh_tokens s @ [\<lparr>rt_user = u, rt_device = d, rt_hash = sha256 (opaque_token dr),
           rt_expires_at = now_at dr + seconds (refresh_ttl cfg), rt_used_at = None, rt_revoked_at = None\<rparr>]\<rparr>"
    and "sha256 (opaque_token dr) \<notin> rt_hash ` set (refresh_tokens s)" and "map_of (auth_devices s) d \<noteq> None"
    and "users s u \<noteq> None"
  using assms by (auto simp: issue_pair_def Let_def split: option.splits if_splits)

lemma issue_pair_ok:
  assumes "auth_ok s" and "issue_pair enc sha256 cfg dr u d s = (Inr p, t)"
  shows "auth_ok t" and "grows s t"
proof -
  note r = issue_pair_returns[OF assms(2)]
  show "auth_ok t" using assms(1) r(5-7) unfolding r(4) auth_ok_def by (simp del: not_None_eq)
  show "grows s t" unfolding r(4) by (simp add: grows_def)
qed

lemma insert_identity_ok:
  assumes "auth_ok s" and "users s u \<noteq> None"
  shows "auth_ok (insert_identity u subject email s)"
proof (cases "find_identity subject s")
  case None
  then have "(''apple'', subject) \<notin> (\<lambda>r. (ai_provider r, ai_subject r)) ` set (identities s)"
    by (auto simp: find_identity_def find_None_iff)
  with None assms show ?thesis by (simp add: insert_identity_def auth_ok_def del: not_None_eq)
qed (use assms(1) in \<open>simp add: insert_identity_def\<close>)

lemma find_identity_insert: "find_identity subject (insert_identity u subject email s) =
    (case find_identity subject s of None \<Rightarrow> Some u | Some v \<Rightarrow> Some v)"
  by (auto simp: insert_identity_def find_identity_def find_None_append split: option.split)

lemma insert_identity_fields [simp]:
  "users (insert_identity u subject email s) = users s" "auth_devices (insert_identity u subject email s) = auth_devices s"
  "refresh_tokens (insert_identity u subject email s) = refresh_tokens s" "sql_now (insert_identity u subject email s) = sql_now s"
  by (simp_all add: insert_identity_def)

lemma find_identity_user: "auth_ok s \<Longrightarrow> find_identity subject s = Some u \<Longrightarrow> users s u \<noteq> None"
  by (auto simp: find_identity_def auth_ok_def dest!: find_SomeD simp del: not_None_eq)

lemma resolve_apple_returns:
  assumes "auth_ok s" and "resolve_apple_user dr subject email d s = (Inr u, t)"
  shows "auth_ok t" and "grows s t" and "find_identity subject t = Some u" and "users t u \<noteq> None"
    and "find_identity subject s = Some v \<Longrightarrow> u = v" and "refresh_tokens t = refresh_tokens s"
proof -
  have main: "auth_ok t \<and> grows s t \<and> find_identity subject t = Some u \<and> (\<forall>v. find_identity subject s = Some v \<longrightarrow> u = v) \<and>
      refresh_tokens t = refresh_tokens s"
  proof (cases "find_identity subject s")
    case (Some w)
    with assms show ?thesis by (simp add: resolve_apple_user_def grows_refl)
  next
    case None
    from assms(2) None obtain du s1 where foc: "find_or_create_identity (user_uuid dr) d s = (Inr du, s1)"
      and rest: "(let linked = list_ex (\<lambda>r. ai_user r = du \<and> ai_provider r = ''apple'') (identities s1);
              link_to = (if linked then second_user_uuid dr else du);
              s = insert_identity link_to subject email (if linked then insert_user link_to s1 else s1)
          in (case find_identity subject s of
                None \<Rightarrow> (Inl (Raised ServiceUnavailableError ''failed to link apple identity''), s)
              | Some winner \<Rightarrow> (Inr winner, s))) = (Inr u, t)"
      unfolding resolve_apple_user_def by (auto elim!: and_then_InrE)
    note one = find_or_create_returns[OF assms(1) foc]
    define linked where "linked = list_ex (\<lambda>r. ai_user r = du \<and> ai_provider r = ''apple'') (identities s1)"
    define link_to where "link_to = (if linked then second_user_uuid dr else du)"
    define s2 where "s2 = (if linked then insert_user link_to s1 else s1)"
    have s2: "auth_ok s2" "grows s1 s2" "users s2 link_to \<noteq> None" "refresh_tokens s2 = refresh_tokens s1"
      using one(1,4) insert_user_ok insert_user_facts by (auto simp: s2_def link_to_def grows_refl simp del: not_None_eq)
    have t: "t = insert_identity link_to subject email s2" "find_identity subject t = Some u"
      using rest unfolding Let_def linked_def[symmetric] link_to_def[symmetric] s2_def[symmetric]
      by (auto split: option.splits)
    have "grows s2 t" by (simp add: t(1) grows_def)
    with one(2) s2(2) have "grows s t" using grows_trans by blast
    with None insert_identity_ok[OF s2(1,3)] t(2) one(6) s2(4) show ?thesis by (simp add: t(1))
  qed
  then show "auth_ok t" "grows s t" "find_identity subject t = Some u" "find_identity subject s = Some v \<Longrightarrow> u = v"
    "refresh_tokens t = refresh_tokens s" by blast+
  with find_identity_user show "users t u \<noteq> None" by blast
qed


lemma upsert_device_returns:
  assumes "auth_ok s" and "upsert_device d u s = (Inr x, t)"
  shows "auth_ok t" and "grows s t" and "map_of (auth_devices t) d = Some u" and "identities t = identities s"
    and "refresh_tokens t = refresh_tokens s" and "d' \<noteq> d \<Longrightarrow> map_of (auth_devices t) d' = map_of (auth_devices s) d'"
proof -
  have u: "users s u \<noteq> None" using assms(2) by (auto simp: upsert_device_def split: if_splits)
  have "auth_ok t \<and> grows s t \<and> map_of (auth_devices t) d = Some u \<and> identities t = identities s \<and> refresh_tokens t = refresh_tokens s \<and>
      (\<forall>d'. d' \<noteq> d \<longrightarrow> map_of (auth_devices t) d' = map_of (auth_devices s) d')"
  proof (cases "map_of (auth_devices s) d")
    case None
    with assms(2) u have t: "t = s\<lparr>auth_devices := auth_devices s @ [(d, u)]\<rparr>" by (simp add: upsert_device_def del: not_None_eq)
    from add_device_ok[OF assms(1) None u] show ?thesis by (simp add: t del: map_of_append)
  next
    case (Some w)
    define devs where "devs = map (\<lambda>(d', v). (d', if d' = d then u else v)) (auth_devices s)"
    have keys: "map fst devs = map fst (auth_devices s)" unfolding devs_def by auto
    have vals: "snd ` set devs \<subseteq> insert u (snd ` set (auth_devices s))"
      unfolding devs_def by (auto split: if_splits intro: rev_image_eqI)
    have look: "map_of devs x = (if x = d then Some u else map_of (auth_devices s) x)" for x
      unfolding devs_def by (simp add: map_of_rebind Some)
    from assms(2) u Some have t: "t = s\<lparr>auth_devices := devs\<rparr>" by (simp add: upsert_device_def devs_def del: not_None_eq)
    have "\<forall>w \<in> snd ` set devs. users s w \<noteq> None" using vals u assms(1) unfolding auth_ok_def by blast
    with assms(1) have "auth_ok t" unfolding auth_ok_def t by (simp add: keys look del: not_None_eq)
    moreover have "grows s t" unfolding t grows_def by (simp add: look)
    ultimately show ?thesis by (simp add: t look)
  qed
  then show "auth_ok t" "grows s t" "map_of (auth_devices t) d = Some u" "identities t = identities s" "refresh_tokens t = refresh_tokens s"
    "d' \<noteq> d \<Longrightarrow> map_of (auth_devices t) d' = map_of (auth_devices s) d'" by blast+
qed

lemma register_returns:
  assumes "auth_ok s" and "register_or_token enc sha256 cfg dr device_id s = (Inr p, t)"
  shows "auth_ok t" and "grows s t" and "it_device p = chosen_device dr device_id"
    and "map_of (auth_devices t) (it_device p) = Some (it_user p)"
    and "map_of (auth_devices s) (it_device p) = Some v \<Longrightarrow> it_user p = v"
    and "identities t = identities s"
proof -
  obtain x s0 u s1 where req: "require_issuer cfg s = (Inr x, s0)"
    and foc: "find_or_create_identity (user_uuid dr) (chosen_device dr device_id) s0 = (Inr u, s1)"
    and iss: "issue_pair enc sha256 cfg dr u (chosen_device dr device_id) s1 = (Inr p, t)"
    using assms(2) unfolding register_or_token_def session_scope_def by (auto split: sum.splits elim!: and_then_InrE)
  have "s0 = s" using req by (simp add: require_issuer_def split: if_splits)
  note one = find_or_create_returns[OF assms(1) foc[unfolded this]] and two = issue_pair_ok[OF _ iss]
  note eqs = issue_pair_returns[OF iss]
  show "auth_ok t" by (rule two(1)[OF one(1)])
  show "grows s t" by (rule grows_trans[OF one(2) two(2)[OF one(1)]])
  show "it_device p = chosen_device dr device_id" by (rule eqs(2))
  show "map_of (auth_devices t) (it_device p) = Some (it_user p)" using one(3) by (simp add: eqs(1,2,4))
  show "identities t = identities s" using one(5) by (simp add: eqs(4))
  show "it_user p = v" if "map_of (auth_devices s) (it_device p) = Some v"
    using one(8)[of v] that by (simp add: eqs(1,2))
qed

lemma apple_steps:
  assumes "sign_in_with_apple enc sha256 cfg v dr token device_id nonce s = (Inr p, t)"
  obtains identity email u s1 s2 where "apple_verify sha256 v token nonce = Inr identity"
    and "resolve_apple_user dr (apple_sub identity) email (chosen_device dr device_id) s = (Inr u, s1)"
    and "upsert_device (chosen_device dr device_id) u s1 = (Inr (), s2)"
    and "issue_pair enc sha256 cfg dr u (chosen_device dr device_id) s2 = (Inr p, t)"
proof -
  obtain x s0 identity email u s1 y s2 where req: "require_issuer cfg s = (Inr x, s0)"
    and steps: "apple_verify sha256 v token nonce = Inr identity"
      "resolve_apple_user dr (apple_sub identity) email (chosen_device dr device_id) s0 = (Inr u, s1)"
      "upsert_device (chosen_device dr device_id) u s1 = (Inr y, s2)"
      "issue_pair enc sha256 cfg dr u (chosen_device dr device_id) s2 = (Inr p, t)"
    using assms unfolding sign_in_with_apple_def session_scope_def Let_def
    by (auto split: sum.splits elim!: and_then_InrE)
  moreover have "s0 = s" using req by (simp add: require_issuer_def split: if_splits)
  ultimately show thesis using that by simp
qed

lemma apple_returns:
  assumes "auth_ok s" and "sign_in_with_apple enc sha256 cfg v dr token device_id nonce s = (Inr p, t)"
  obtains identity where "apple_verify sha256 v token nonce = Inr identity" and "auth_ok t" and "grows s t"
    and "it_device p = chosen_device dr device_id" and "map_of (auth_devices t) (it_device p) = Some (it_user p)"
    and "find_identity (apple_sub identity) t = Some (it_user p)"
    and "\<And>w. find_identity (apple_sub identity) s = Some w \<Longrightarrow> it_user p = w"
proof -
  obtain identity email u s1 s2 where ver: "apple_verify sha256 v token nonce = Inr identity"
    and res: "resolve_apple_user dr (apple_sub identity) email (chosen_device dr device_id) s = (Inr u, s1)"
    and ups: "upsert_device (chosen_device dr device_id) u s1 = (Inr (), s2)"
    and iss: "issue_pair enc sha256 cfg dr u (chosen_device dr device_id) s2 = (Inr p, t)"
    by (rule apple_steps[OF assms(2)])
  note one = resolve_apple_returns[OF assms(1) res]
  note two = upsert_device_returns[OF one(1) ups] and three = issue_pair_ok[OF _ iss] and eqs = issue_pair_returns[OF iss]
  show thesis
  proof (rule that[OF ver three(1)[OF two(1)] _ eqs(2)])
    show "grows s t" using one(2) two(2) three(2)[OF two(1)] grows_trans by blast
    show "map_of (auth_devices t) (it_device p) = Some (it_user p)" using two(3) by (simp add: eqs(1,2,4))
    show "find_identity (apple_sub identity) t = Some (it_user p)" using one(3) two(4) by (simp add: find_identity_def eqs(1,4))
    show "it_user p = w" if "find_identity (apple_sub identity) s = Some w" for w
      using one(5)[OF that] by (simp add: eqs(1))
  qed
qed

lemma session_scope_returned: "session_scope f s = (Inr a, t) \<Longrightarrow> f s = (Inr a, t)"
  by (auto simp: session_scope_def split: sum.splits)

lemma session_scope_failed: "session_scope f s = (Inl e, t) \<Longrightarrow> t = s"
  by (auto simp: session_scope_def split: sum.splits)

lemma rows_changed_ok:
  assumes "auth_ok s" and "\<And>r. rt_hash (f r) = rt_hash r" and "\<And>r. rt_device (f r) = rt_device r" and "\<And>r. rt_user (f r) = rt_user r"
  shows "auth_ok (s\<lparr>refresh_tokens := map f (refresh_tokens s)\<rparr>)" and "grows s (s\<lparr>refresh_tokens := map f (refresh_tokens s)\<rparr>)"
proof -
  have "map rt_hash (map f xs) = map rt_hash xs" for xs using assms(2) by simp
  with assms(1,3,4) show "auth_ok (s\<lparr>refresh_tokens := map f (refresh_tokens s)\<rparr>)" unfolding auth_ok_def by (simp del: map_map not_None_eq)
  show "grows s (s\<lparr>refresh_tokens := map f (refresh_tokens s)\<rparr>)" by (simp add: grows_def)
qed

lemma mark_used_ok: "auth_ok s \<Longrightarrow> auth_ok (mark_used h s)" "grows s (mark_used h s)"
  unfolding mark_used_def by (rule rows_changed_ok, auto) (simp add: grows_def)

lemma revoke_chain_ok: "auth_ok s \<Longrightarrow> auth_ok (revoke_chain u d s)" "grows s (revoke_chain u d s)"
  unfolding revoke_chain_def by (rule rows_changed_ok, auto) (simp add: grows_def)

lemma refresh_with_ok:
  assumes "auth_ok s" and "refresh_with enc sha256 cfg dr row s = (r, t)"
  shows "auth_ok t" and "grows s t"
proof -
  let ?issue = "\<lambda>(x :: refresh_row) s. issue_pair enc sha256 cfg dr (rt_user x) (rt_device x) (mark_used (rt_hash x) s)"
  consider (same) "t = s" | (revoked) x :: refresh_row where "t = revoke_chain (rt_user x) (rt_device x) s"
    | (issued) x where "session_scope (?issue x) s = (r, t)"
  proof (cases row)
    case None
    with assms(2) show ?thesis by (intro same) (simp add: refresh_with_def)
  next
    case (Some x)
    with assms(2) show ?thesis
      using same revoked[of x] issued[of x] by (simp add: refresh_with_def split: if_splits)
  qed
  then have "auth_ok t \<and> grows s t"
  proof cases
    case same
    with assms(1) show ?thesis by (simp add: grows_refl)
  next
    case revoked
    with revoke_chain_ok assms(1) show ?thesis by blast
  next
    case (issued x)
    show ?thesis
    proof (cases r)
      case (Inl e)
      with issued have "t = s" using session_scope_failed[of "?issue x" s e t] by simp
      with assms(1) show ?thesis by (simp add: grows_refl)
    next
      case (Inr p)
      with issued have run: "issue_pair enc sha256 cfg dr (rt_user x) (rt_device x) (mark_used (rt_hash x) s) = (Inr p, t)"
        using session_scope_returned[of "?issue x" s p t] by simp
      note new = issue_pair_ok[OF mark_used_ok(1)[OF assms(1)] run]
      show ?thesis using new(1) grows_trans[OF mark_used_ok(2) new(2)] by simp
    qed
  qed
  then show "auth_ok t" "grows s t" by blast+
qed

lemma refresh_ok:
  assumes "auth_ok s" and "refresh enc sha256 cfg dr token s = (r, t)"
  shows "auth_ok t" and "grows s t"
proof -
  have "t = s \<or> (\<exists>row. refresh_with enc sha256 cfg dr row s = (r, t))"
    using assms(2) by (auto simp: refresh_def require_issuer_def split: if_splits)
  then show "auth_ok t" "grows s t" using refresh_with_ok[OF assms(1)] assms(1) grows_refl by blast+
qed

text \<open>
  Registration, Sign in with Apple and refresh keep the identity tables consistent, whether they
  return or raise: a device belongs to one existing user, an Apple account to one existing user, a
  refresh token is stored once and for a known device; and no call forgets a user or a device.
\<close>

theorem auth_invariant:
  assumes "auth_ok s"
  shows "auth_ok (snd (register_or_token enc sha256 cfg dr device_id s)) \<and>
    auth_ok (snd (sign_in_with_apple enc sha256 cfg v dr token device_id nonce s)) \<and>
    auth_ok (snd (refresh enc sha256 cfg dr token s)) \<and>
    (\<forall>t \<in> {snd (register_or_token enc sha256 cfg dr device_id s), snd (sign_in_with_apple enc sha256 cfg v dr token device_id nonce s),
        snd (refresh enc sha256 cfg dr token s)}. grows s t)"
proof -
  have reg: "auth_ok t \<and> grows s t" if "register_or_token enc sha256 cfg dr device_id s = (r, t)" for r t
  proof (cases r)
    case (Inl e)
    with that assms session_scope_failed[of _ s e t] grows_refl show ?thesis by (auto simp: register_or_token_def)
  next
    case (Inr p)
    with that register_returns[OF assms, of enc sha256 cfg dr device_id p t] show ?thesis by blast
  qed
  have app: "auth_ok t \<and> grows s t" if "sign_in_with_apple enc sha256 cfg v dr token device_id nonce s = (r, t)" for r t
  proof (cases r)
    case (Inl e)
    with that assms session_scope_failed[of _ s e t] grows_refl show ?thesis by (auto simp: sign_in_with_apple_def)
  next
    case (Inr p)
    with that apple_returns[OF assms, of enc sha256 cfg v dr token device_id nonce p t] show ?thesis by blast
  qed
  obtain r1 t1 r2 t2 r3 t3 where run: "register_or_token enc sha256 cfg dr device_id s = (r1, t1)"
    "sign_in_with_apple enc sha256 cfg v dr token device_id nonce s = (r2, t2)" "refresh enc sha256 cfg dr token s = (r3, t3)"
    by (metis surj_pair)
  from reg[OF run(1)] app[OF run(2)] refresh_ok[OF assms run(3)] show ?thesis by (simp add: run)
qed


section \<open>Histories\<close>

text \<open>One request to the service, whatever it answers, or time passing between requests.\<close>

inductive auth_step :: "encoder \<Rightarrow> (string \<Rightarrow> string) \<Rightarrow> issuer \<Rightarrow> apple_verifier \<Rightarrow> auth_db \<Rightarrow> auth_db \<Rightarrow> bool"
  for enc sha256 cfg v where
  step_register: "register_or_token enc sha256 cfg dr device_id s = (r, t) \<Longrightarrow> auth_step enc sha256 cfg v s t"
| step_apple: "sign_in_with_apple enc sha256 cfg v dr token device_id nonce s = (r, t) \<Longrightarrow> auth_step enc sha256 cfg v s t"
| step_refresh: "refresh enc sha256 cfg dr token s = (r, t) \<Longrightarrow> auth_step enc sha256 cfg v s t"
| step_clock: "auth_step enc sha256 cfg v s (s\<lparr>sql_now := n\<rparr>)"

lemma find_identity_cong: "identities t = identities s \<Longrightarrow> find_identity x t = find_identity x s"
  by (simp add: find_identity_def)

lemma find_identity_insert_mono: "find_identity x s = Some u \<Longrightarrow> find_identity x (insert_identity w subject email s) = Some u"
  by (auto simp: insert_identity_def find_identity_def find_None_append split: option.splits)

lemma resolve_apple_keeps:
  assumes "auth_ok s" and "resolve_apple_user dr subject email d s = (Inr u, t)" and "find_identity x s = Some w"
  shows "find_identity x t = Some w"
proof (cases "find_identity subject s")
  case Some
  with assms show ?thesis by (simp add: resolve_apple_user_def)
next
  case None
  with assms(2) obtain du s1 link s2 where foc: "find_or_create_identity (user_uuid dr) d s = (Inr du, s1)"
    and t: "t = insert_identity link subject email s2" and s2: "identities s2 = identities s1"
    unfolding resolve_apple_user_def Let_def
    by (force elim!: and_then_InrE simp: insert_user_facts split: option.splits if_splits)
  from find_or_create_returns(5)[OF assms(1) foc] assms(3) have "find_identity x s2 = Some w"
    using s2 by (simp add: find_identity_def)
  then show ?thesis unfolding t by (rule find_identity_insert_mono)
qed

lemma apple_keeps:
  assumes "auth_ok s" and "sign_in_with_apple enc sha256 cfg v dr token device_id nonce s = (Inr p, t)" and "find_identity x s = Some w"
  shows "find_identity x t = Some w"
proof -
  obtain identity email u s1 s2 where "apple_verify sha256 v token nonce = Inr identity"
    and res: "resolve_apple_user dr (apple_sub identity) email (chosen_device dr device_id) s = (Inr u, s1)"
    and ups: "upsert_device (chosen_device dr device_id) u s1 = (Inr (), s2)"
    and iss: "issue_pair enc sha256 cfg dr u (chosen_device dr device_id) s2 = (Inr p, t)"
    by (rule apple_steps[OF assms(2)])
  have "identities t = identities s1"
    using upsert_device_returns(4)[OF resolve_apple_returns(1)[OF assms(1) res] ups] issue_pair_returns(4)[OF iss] by simp
  with resolve_apple_keeps[OF assms(1) res assms(3)] show ?thesis by (simp add: find_identity_def)
qed

lemma refresh_identities: "refresh enc sha256 cfg dr token s = (r, t) \<Longrightarrow> identities t = identities s"
  by (auto simp: refresh_def refresh_with_def require_issuer_def session_scope_def issue_pair_def mark_used_def revoke_chain_def Let_def
      split: option.splits if_splits sum.splits)

lemma auth_step_keeps:
  assumes "auth_step enc sha256 cfg v s t" and "auth_ok s"
  shows "auth_ok t \<and> (\<forall>x w. find_identity x s = Some w \<longrightarrow> find_identity x t = Some w)"
  using assms(1)
proof cases
  case (step_register dr device_id r)
  show ?thesis
  proof (cases r)
    case (Inl e)
    with step_register have "t = s" using session_scope_failed[of _ s e t] by (simp add: register_or_token_def)
    with assms(2) show ?thesis by simp
  next
    case (Inr p)
    with step_register have run: "register_or_token enc sha256 cfg dr device_id s = (Inr p, t)" by simp
    with register_returns(1,6)[OF assms(2) run] show ?thesis by (simp add: find_identity_def)
  qed
next
  case (step_apple dr token device_id nonce r)
  show ?thesis
  proof (cases r)
    case (Inl e)
    with step_apple have "t = s" using session_scope_failed[of _ s e t] by (simp add: sign_in_with_apple_def)
    with assms(2) show ?thesis by simp
  next
    case (Inr p)
    with step_apple have run: "sign_in_with_apple enc sha256 cfg v dr token device_id nonce s = (Inr p, t)" by simp
    have "auth_ok t" by (rule apple_returns[OF assms(2) run])
    with apple_keeps[OF assms(2) run] show ?thesis by blast
  qed
next
  case (step_refresh dr token r)
  with refresh_ok(1)[OF assms(2)] refresh_identities find_identity_cong show ?thesis by metis
next
  case (step_clock n)
  with assms(2) show ?thesis by (simp add: auth_ok_def find_identity_def del: not_None_eq)
qed

lemma auth_history:
  assumes "(auth_step enc sha256 cfg v)\<^sup>*\<^sup>* s t" and "auth_ok s"
  shows "auth_ok t" and "find_identity x s = Some w \<Longrightarrow> find_identity x t = Some w"
proof -
  have "auth_ok t \<and> (\<forall>x w. find_identity x s = Some w \<longrightarrow> find_identity x t = Some w)"
    using assms
  proof (induction rule: rtranclp_induct)
    case (step t t')
    then show ?case using auth_step_keeps[OF step(2)] by blast
  qed simp
  then show "auth_ok t" "find_identity x s = Some w \<Longrightarrow> find_identity x t = Some w" by blast+
qed

text \<open>
  C17. One Apple account is one user for good: once an identity token of an account has been accepted, every
  later accepted token of that account, on any device and after any history of the service, signs
  in the same user, and the device it came from is bound to that user.
\<close>

theorem apple_account_is_one_user:
  assumes "auth_ok s" and "sign_in_with_apple enc sha256 cfg v dr token device_id nonce s = (Inr p, t)"
    and "(auth_step enc sha256 cfg v)\<^sup>*\<^sup>* t t'"
    and "sign_in_with_apple enc sha256 cfg v dr' token' device_id' nonce' t' = (Inr p', t'')"
    and "apple_verify sha256 v token nonce = Inr i" and "apple_verify sha256 v token' nonce' = Inr i'" and "apple_sub i' = apple_sub i"
  shows "it_user p' = it_user p \<and> map_of (auth_devices t'') (it_device p') = Some (it_user p)"
proof -
  obtain j where j: "apple_verify sha256 v token nonce = Inr j" "auth_ok t" "find_identity (apple_sub j) t = Some (it_user p)"
    by (rule apple_returns[OF assms(1,2)])
  note hist = auth_history[OF assms(3) j(2)]
  from j(1,3) assms(5) hist(2) have found: "find_identity (apple_sub i') t' = Some (it_user p)" by (simp add: assms(7))
  show ?thesis
  proof (rule apple_returns[OF hist(1) assms(4)])
    fix k assume k: "apple_verify sha256 v token' nonce' = Inr k" "map_of (auth_devices t'') (it_device p') = Some (it_user p')"
      "\<And>w. find_identity (apple_sub k) t' = Some w \<Longrightarrow> it_user p' = w"
    from k(1) assms(6) found have "it_user p' = it_user p" by (intro k(3)) simp
    with k(2) show ?thesis by simp
  qed
qed

section \<open>Refresh tokens are used once\<close>

lemma find_refresh_map:
  assumes "\<And>r. rt_hash (f r) = rt_hash r"
  shows "find (\<lambda>r. rt_hash r = h) (map f rows) = map_option f (find (\<lambda>r. rt_hash r = h) rows)"
  using assms by (induction rows) simp_all

lemma mark_used_hashes: "rt_hash ` set (refresh_tokens (mark_used h s)) = rt_hash ` set (refresh_tokens s)"
proof -
  have same: "rt_hash ` (f ` A) = rt_hash ` A" if "\<And>r. rt_hash (f r) = rt_hash r" for f :: "refresh_row \<Rightarrow> refresh_row" and A
    by (simp add: image_image that)
  define f where "f r = (if rt_hash r = h then r\<lparr>rt_used_at := Some (sql_now s)\<rparr> else r)" for r :: refresh_row
  have "refresh_tokens (mark_used h s) = map f (refresh_tokens s)" by (simp add: mark_used_def f_def[abs_def])
  then show ?thesis by (simp only: set_map) (rule same, simp add: f_def)
qed

lemma refresh_returns:
  assumes "refresh enc sha256 cfg dr token s = (Inr p, t)"
  obtains row where "find_refresh (sha256 token) s = Some row" and "issuer_configured cfg"
    and "rt_used_at row = None" and "it_user p = rt_user row" and "it_device p = rt_device row" and "it_refresh p = opaque_token dr"
    and "sha256 (opaque_token dr) \<notin> rt_hash ` set (refresh_tokens s)"
    and "t = mark_used (sha256 token) s \<lparr>refresh_tokens := refresh_tokens (mark_used (sha256 token) s) @
       [\<lparr>rt_user = rt_user row, rt_device = rt_device row, rt_hash = sha256 (opaque_token dr),
         rt_expires_at = now_at dr + seconds (refresh_ttl cfg), rt_used_at = None, rt_revoked_at = None\<rparr>]\<rparr>"
proof -
  have conf: "issuer_configured cfg" and run: "refresh_with enc sha256 cfg dr (find_refresh (sha256 token) s) s = (Inr p, t)"
    using assms by (auto simp: refresh_def require_issuer_def split: if_splits)
  then obtain row where row: "find_refresh (sha256 token) s = Some row" "rt_used_at row = None"
    and scope: "session_scope (\<lambda>s. issue_pair enc sha256 cfg dr (rt_user row) (rt_device row) (mark_used (rt_hash row) s)) s = (Inr p, t)"
    by (auto simp: refresh_with_def split: option.splits if_splits)
  have h: "rt_hash row = sha256 token" using row(1) by (auto simp: find_refresh_def dest: find_SomeD)
  note new = issue_pair_returns[OF session_scope_returned[OF scope, simplified h]]
  have "rt_hash ` set (refresh_tokens (mark_used (sha256 token) s)) = rt_hash ` set (refresh_tokens s)"
    by (rule mark_used_hashes)
  with that[OF row(1) conf row(2)] new show thesis by metis
qed

text \<open>
  C14. A refresh token works once, and showing it again ends the session: after a successful rotation the
  old token is answered with 401, every token of that user and device is revoked by that answer, and
  so the new token of the rotation is refused from then on.
\<close>

theorem reuse_revokes_chain:
  assumes "refresh enc sha256 cfg dr token s = (Inr p, t)" and "refresh enc sha256 cfg dr2 token t = (r2, t2)"
  shows "r2 = Inl (Raised UnauthorizedError ''refresh token reuse detected'') \<and> status_code UnauthorizedError = 401 \<and>
    (\<forall>r \<in> set (refresh_tokens t2). rt_user r = it_user p \<and> rt_device r = it_device p \<longrightarrow> rt_revoked_at r \<noteq> None) \<and>
    refresh enc sha256 cfg dr3 (it_refresh p) t2 = (Inl (Raised UnauthorizedError ''refresh token revoked''), t2)"
  using assms(1)
proof (cases rule: refresh_returns)
  case (1 row)
  let ?h = "sha256 token" and ?h' = "sha256 (opaque_token dr)"
  let ?used = "\<lambda>r. if rt_hash r = ?h then r\<lparr>rt_used_at := Some (sql_now s)\<rparr> else r"
  let ?new = "\<lparr>rt_user = rt_user row, rt_device = rt_device row, rt_hash = ?h', rt_expires_at = now_at dr + seconds (refresh_ttl cfg),
      rt_used_at = None, rt_revoked_at = None\<rparr>"
  have rows: "refresh_tokens t = map ?used (refresh_tokens s) @ [?new]"
    unfolding 1(8) by (simp add: mark_used_def)
  have h: "rt_hash row = ?h" using 1(1) by (auto simp: find_refresh_def dest: find_SomeD)
  have old: "find_refresh ?h t = Some (row\<lparr>rt_used_at := Some (sql_now s)\<rparr>)"
    using 1(1) h by (simp add: find_refresh_def rows find_None_append find_refresh_map)
  then have r2: "r2 = Inl (Raised UnauthorizedError ''refresh token reuse detected'')"
    and t2: "t2 = revoke_chain (rt_user row) (rt_device row) t"
    using assms(2) 1(2) by (simp_all add: refresh_def require_issuer_def refresh_with_def)
  let ?rev = "\<lambda>r. if rt_user r = rt_user row \<and> rt_device r = rt_device row \<and> rt_revoked_at r = None
      then r\<lparr>rt_revoked_at := Some (sql_now t)\<rparr> else r"
  have rows2: "refresh_tokens t2 = map ?rev (refresh_tokens t)" by (simp add: t2 revoke_chain_def)
  have "find (\<lambda>r. rt_hash r = ?h') (refresh_tokens s) = None"
    unfolding find_None_iff using 1(7) by force
  then have "find (\<lambda>r. rt_hash r = ?h') (map ?used (refresh_tokens s)) = None"
    by (subst find_refresh_map) auto
  then have "find_refresh ?h' t = Some ?new" by (simp add: find_refresh_def rows find_None_append)
  then have "find_refresh ?h' t2 = Some (?rev ?new)"
    unfolding find_refresh_def rows2 by (subst find_refresh_map) auto
  then have last: "refresh enc sha256 cfg dr3 (it_refresh p) t2 = (Inl (Raised UnauthorizedError ''refresh token revoked''), t2)"
    using 1(2) by (simp add: 1(6) refresh_def require_issuer_def refresh_with_def)
  have "status_code UnauthorizedError = 401" by (simp add: status_code_def error_defs)
  moreover have "\<forall>r \<in> set (refresh_tokens t2). rt_user r = it_user p \<and> rt_device r = it_device p \<longrightarrow> rt_revoked_at r \<noteq> None"
    unfolding rows2 1(4,5) by auto
  ultimately show ?thesis using r2 last by blast
qed


lemma refresh_with_issues:
  assumes "users s (rt_user row) \<noteq> None" and "map_of (auth_devices s) (rt_device row) \<noteq> None" and "issuer_configured cfg"
    and "rt_used_at row = None" and "rt_revoked_at row = None" and "now_at dr < rt_expires_at row"
    and "sha256 (opaque_token dr) \<notin> rt_hash ` set (refresh_tokens s)"
  shows "\<exists>p. refresh_with enc sha256 cfg dr (Some row) s = (Inr p, mark_used (rt_hash row) s \<lparr>refresh_tokens :=
      refresh_tokens (mark_used (rt_hash row) s) @ [\<lparr>rt_user = rt_user row, rt_device = rt_device row,
        rt_hash = sha256 (opaque_token dr), rt_expires_at = now_at dr + seconds (refresh_ttl cfg), rt_used_at = None,
        rt_revoked_at = None\<rparr>]\<rparr>) \<and> it_refresh p = opaque_token dr \<and> it_user p = rt_user row"
proof -
  have fields: "users (mark_used h s) = users s" "auth_devices (mark_used h s) = auth_devices s" for h
    by (simp_all add: mark_used_def)
  obtain access where "issue_access_token enc cfg (now_at dr) (rt_user row) (rt_device row) = Some access"
    using assms(3) by (simp add: issue_access_token_def issuer_configured_def)
  then show ?thesis
    using assms mark_used_hashes[of "rt_hash row" s]
    by (simp add: refresh_with_def session_scope_def issue_pair_def Let_def fields del: not_None_eq)
qed

text \<open>
  A defect: two refreshes of one token that overlap both succeed. The SELECT of the row takes no lock and
  the UPDATE does not ask again whether the token is still unused, so when both have read the row
  before either has marked it, each issues its own pair, both new tokens are stored, unused and
  unrevoked, and the reuse is not detected.
\<close>

theorem overlapping_refresh_forks:
  assumes "auth_ok s" and "issuer_configured cfg" and "find_refresh (sha256 token) s = Some row"
    and "rt_used_at row = None" and "rt_revoked_at row = None"
    and "now_at dra < rt_expires_at row" and "now_at drb < rt_expires_at row"
    and "distinct (sha256 token # sha256 (opaque_token dra) # sha256 (opaque_token drb) # [])"
    and "sha256 (opaque_token dra) \<notin> rt_hash ` set (refresh_tokens s)" and "sha256 (opaque_token drb) \<notin> rt_hash ` set (refresh_tokens s)"
  shows "\<exists>p1 s1 p2 s2 r1 r2. refresh_with enc sha256 cfg dra (find_refresh (sha256 token) s) s = (Inr p1, s1) \<and>
    refresh_with enc sha256 cfg drb (find_refresh (sha256 token) s) s1 = (Inr p2, s2) \<and>
    find_refresh (sha256 (it_refresh p1)) s2 = Some r1 \<and> rt_used_at r1 = None \<and> rt_revoked_at r1 = None \<and>
    find_refresh (sha256 (it_refresh p2)) s2 = Some r2 \<and> rt_used_at r2 = None \<and> rt_revoked_at r2 = None \<and>
    it_user p1 = rt_user row \<and> it_user p2 = rt_user row"
proof -
  have "row \<in> set (refresh_tokens s)" and h: "rt_hash row = sha256 token"
    using assms(3) by (auto simp: find_refresh_def dest: find_SomeD)
  with assms(1) have known: "users s (rt_user row) \<noteq> None" "map_of (auth_devices s) (rt_device row) \<noteq> None"
    unfolding auth_ok_def by blast+
  let ?new = "\<lambda>dr. \<lparr>rt_user = rt_user row, rt_device = rt_device row, rt_hash = sha256 (opaque_token dr),
      rt_expires_at = now_at dr + seconds (refresh_ttl cfg), rt_used_at = None, rt_revoked_at = None\<rparr>"
  define s1 where "s1 = mark_used (sha256 token) s \<lparr>refresh_tokens := refresh_tokens (mark_used (sha256 token) s) @ [?new dra]\<rparr>"
  define s2 where "s2 = mark_used (sha256 token) s1 \<lparr>refresh_tokens := refresh_tokens (mark_used (sha256 token) s1) @ [?new drb]\<rparr>"
  obtain p1 where run1: "refresh_with enc sha256 cfg dra (Some row) s = (Inr p1, s1)" "it_refresh p1 = opaque_token dra" "it_user p1 = rt_user row"
    using refresh_with_issues[of s row cfg dra sha256 enc] known assms(2,4,5,6,9) by (auto simp: h s1_def)
  have old1: "rt_hash ` set (refresh_tokens s1) = insert (sha256 (opaque_token dra)) (rt_hash ` set (refresh_tokens s))"
    using mark_used_hashes[of "sha256 token" s] by (simp add: s1_def)
  have known1: "users s1 = users s" "auth_devices s1 = auth_devices s" by (simp_all add: s1_def mark_used_def)
  obtain p2 where run2: "refresh_with enc sha256 cfg drb (Some row) s1 = (Inr p2, s2)" "it_refresh p2 = opaque_token drb" "it_user p2 = rt_user row"
    using refresh_with_issues[of s1 row cfg drb sha256 enc] known assms(2,4,5,7,8,10) by (auto simp: h s2_def old1 known1)
  let ?used = "\<lambda>r. if rt_hash r = sha256 token then r\<lparr>rt_used_at := Some (sql_now s)\<rparr> else r"
  have rows1: "refresh_tokens s1 = map ?used (refresh_tokens s) @ [?new dra]" by (simp add: s1_def mark_used_def)
  have rows2: "refresh_tokens s2 = map ?used (map ?used (refresh_tokens s) @ [?new dra]) @ [?new drb]"
    by (simp add: s2_def mark_used_def rows1) (simp add: s1_def mark_used_def)
  have none: "find (\<lambda>r. rt_hash r = h') (map ?used (map ?used (refresh_tokens s))) = None" if "h' \<notin> rt_hash ` set (refresh_tokens s)" for h'
  proof -
    have "find (\<lambda>r. rt_hash r = h') (refresh_tokens s) = None" unfolding find_None_iff using that by force
    then show ?thesis by (subst find_refresh_map, simp)+ simp
  qed
  have ne: "sha256 (opaque_token dra) \<noteq> sha256 token" "sha256 (opaque_token drb) \<noteq> sha256 (opaque_token dra)"
    "sha256 (opaque_token dra) \<noteq> sha256 (opaque_token drb)" using assms(8) by auto
  have "find_refresh (sha256 (opaque_token dra)) s2 = Some (?new dra)" "find_refresh (sha256 (opaque_token drb)) s2 = Some (?new drb)"
    using none[OF assms(9)] none[OF assms(10)] ne by (simp_all add: find_refresh_def rows2 find_None_append del: map_map)
  with run1 run2 show ?thesis unfolding assms(3) by (intro exI[of _ p1] exI[of _ s1] exI[of _ p2] exI[of _ s2]) simp
qed

section \<open>Witnesses\<close>

text \<open>One user with one device and one live token. Hashing is the identity here.\<close>

definition demo_auth :: auth_db where
  "demo_auth = db.extend (empty_db\<lparr>users := [1 \<mapsto> False], auth_devices := [(''d'', 1)]\<rparr>)
     \<lparr>identities = [], refresh_tokens = [\<lparr>rt_user = 1, rt_device = ''d'', rt_hash = ''t0'', rt_expires_at = 100,
        rt_used_at = None, rt_revoked_at = None\<rparr>]\<rparr>"

definition demo_issuer :: issuer where
  "demo_issuer = \<lparr>private_key = ''k'', iss_claim = [], aud_claim = [], key_id = [], access_ttl = 900, refresh_ttl = 1000\<rparr>"

definition demo_draw :: "string \<Rightarrow> draw" where
  "demo_draw token = \<lparr>now_at = 10, opaque_token = token, device_uuid = 7, user_uuid = 8, second_user_uuid = 9\<rparr>"

definition demo_apple :: apple_verifier where
  "demo_apple = \<lparr>av_audience = ''app'', av_test_mode = False, av_header = (\<lambda>_. Some []), av_decode_real = (\<lambda>_. Some [(''sub'', JStr ''a'')]),
     av_decode_test = (\<lambda>_. None)\<rparr>"

lemma demo_auth_fields [simp]:
  "users demo_auth = [1 \<mapsto> False]" "auth_devices demo_auth = [(''d'', 1)]" "identities demo_auth = []"
  "refresh_tokens demo_auth = [\<lparr>rt_user = 1, rt_device = ''d'', rt_hash = ''t0'', rt_expires_at = 100, rt_used_at = None, rt_revoked_at = None\<rparr>]"
  by (simp_all add: demo_auth_def empty_db_def db.extend_def)

lemma demo_auth_ok: "auth_ok demo_auth"
  by (simp add: auth_ok_def)

lemma demo_find: "find_refresh ''t0'' demo_auth = Some \<lparr>rt_user = 1, rt_device = ''d'', rt_hash = ''t0'', rt_expires_at = 100,
    rt_used_at = None, rt_revoked_at = None\<rparr>"
  by (simp add: find_refresh_def)

theorem auth_invariant_witness:
  "auth_ok (snd (refresh (\<lambda>_ _ _. ''j'') (\<lambda>t. t) demo_issuer (demo_draw ''t1'') ''t0'' demo_auth))"
  using auth_invariant[OF demo_auth_ok, of "\<lambda>_ _ _. ''j''" "\<lambda>t. t" demo_issuer "demo_draw ''t1''" None demo_apple "''t0''" None] by blast

theorem overlapping_refresh_forks_witness:
  "\<exists>p1 s1 p2 s2. refresh_with (\<lambda>_ _ _. ''j'') (\<lambda>t. t) demo_issuer (demo_draw ''t1'') (find_refresh ''t0'' demo_auth) demo_auth = (Inr p1, s1) \<and>
    refresh_with (\<lambda>_ _ _. ''j'') (\<lambda>t. t) demo_issuer (demo_draw ''t2'') (find_refresh ''t0'' demo_auth) s1 = (Inr p2, s2)"
  using overlapping_refresh_forks[of demo_auth demo_issuer "\<lambda>t. t" "''t0''" _ "demo_draw ''t1''" "demo_draw ''t2''" "\<lambda>_ _ _. ''j''",
      OF demo_auth_ok _ demo_find]
  by (simp add: demo_issuer_def demo_draw_def issuer_configured_def) blast

theorem reuse_revokes_chain_witness:
  "\<exists>p t r2 t2. refresh (\<lambda>_ _ _. ''j'') (\<lambda>t. t) demo_issuer (demo_draw ''t1'') ''t0'' demo_auth = (Inr p, t) \<and>
    refresh (\<lambda>_ _ _. ''j'') (\<lambda>t. t) demo_issuer (demo_draw ''t2'') ''t0'' t = (r2, t2) \<and>
    fst (refresh (\<lambda>_ _ _. ''j'') (\<lambda>t. t) demo_issuer (demo_draw ''t3'') (it_refresh p) t2) =
      Inl (Raised UnauthorizedError ''refresh token revoked'')"
proof -
  have conf: "issuer_configured demo_issuer" by (simp add: demo_issuer_def issuer_configured_def)
  have "\<exists>p t. refresh_with (\<lambda>_ _ _. ''j'') (\<lambda>t. t) demo_issuer (demo_draw ''t1'') (find_refresh ''t0'' demo_auth) demo_auth = (Inr p, t)"
    unfolding demo_find by (rule exE[OF refresh_with_issues[of demo_auth _ demo_issuer "demo_draw ''t1''" "\<lambda>t. t"]])
      (use conf in \<open>auto simp: demo_draw_def\<close>)
  then obtain p t where run: "refresh (\<lambda>_ _ _. ''j'') (\<lambda>t. t) demo_issuer (demo_draw ''t1'') ''t0'' demo_auth = (Inr p, t)"
    using conf by (auto simp: refresh_def require_issuer_def)
  obtain r2 t2 where run2: "refresh (\<lambda>_ _ _. ''j'') (\<lambda>t. t) demo_issuer (demo_draw ''t2'') ''t0'' t = (r2, t2)" by fastforce
  from reuse_revokes_chain[OF run run2, of "demo_draw ''t3''"] run run2 show ?thesis by auto
qed

definition demo_linked :: auth_db where
  "demo_linked = demo_auth\<lparr>identities := [\<lparr>ai_user = 1, ai_provider = ''apple'', ai_subject = ''a'', ai_email = None\<rparr>]\<rparr>"

lemma demo_apple_verify: "apple_verify (\<lambda>t. t) demo_apple tok None = Inr \<lparr>apple_sub = ''a'', apple_email = JNull, apple_email_verified = False\<rparr>"
  by (simp add: apple_verify_def apple_claims_def demo_apple_def nonce_ok_def)

lemma demo_sign_in:
  assumes "find_identity ''a'' s = Some 1" and "users s 1 \<noteq> None" and "x \<notin> rt_hash ` set (refresh_tokens s)"
  shows "\<exists>p t. sign_in_with_apple (\<lambda>_ _ _. ''j'') (\<lambda>t. t) demo_issuer demo_apple (demo_draw x) tok (Some ''d'') None s = (Inr p, t) \<and>
    rt_hash ` set (refresh_tokens t) \<subseteq> insert x (rt_hash ` set (refresh_tokens s)) \<and> identities t = identities s \<and> users t = users s"
  using assms by (cases "map_of (auth_devices s) ''d''") (auto simp: sign_in_with_apple_def session_scope_def require_issuer_def issuer_configured_def
      demo_apple_verify chosen_device_def Let_def resolve_apple_user_def upsert_device_def issue_pair_def issue_access_token_def
      demo_issuer_def demo_draw_def map_of_rebind)

theorem apple_account_is_one_user_witness:
  "\<exists>p t p' t''. sign_in_with_apple (\<lambda>_ _ _. ''j'') (\<lambda>t. t) demo_issuer demo_apple (demo_draw ''t1'') ''x'' (Some ''d'') None demo_linked = (Inr p, t) \<and>
    sign_in_with_apple (\<lambda>_ _ _. ''j'') (\<lambda>t. t) demo_issuer demo_apple (demo_draw ''t2'') ''y'' (Some ''d'') None t = (Inr p', t'') \<and> it_user p' = it_user p"
proof -
  have ok: "auth_ok demo_linked" by (simp add: demo_linked_def auth_ok_def)
  have start: "find_identity ''a'' demo_linked = Some 1" "users demo_linked 1 \<noteq> None" "''t1'' \<notin> rt_hash ` set (refresh_tokens demo_linked)"
    "rt_hash ` set (refresh_tokens demo_linked) = {''t0''}"
    by (simp_all add: demo_linked_def find_identity_def)
  obtain p t where one: "sign_in_with_apple (\<lambda>_ _ _. ''j'') (\<lambda>t. t) demo_issuer demo_apple (demo_draw ''t1'') ''x'' (Some ''d'') None demo_linked = (Inr p, t)"
    and t: "rt_hash ` set (refresh_tokens t) \<subseteq> insert ''t1'' (rt_hash ` set (refresh_tokens demo_linked))"
      "identities t = identities demo_linked" "users t = users demo_linked"
    using demo_sign_in[OF start(1-3)] by blast
  have "find_identity ''a'' t = Some 1" "users t 1 \<noteq> None" "''t2'' \<notin> rt_hash ` set (refresh_tokens t)"
    using start t by (auto simp: find_identity_def)
  then obtain p' t'' where two: "sign_in_with_apple (\<lambda>_ _ _. ''j'') (\<lambda>t. t) demo_issuer demo_apple (demo_draw ''t2'') ''y'' (Some ''d'') None t = (Inr p', t'')"
    using demo_sign_in by blast
  from apple_account_is_one_user[OF ok one rtranclp.rtrancl_refl two demo_apple_verify demo_apple_verify refl] one two show ?thesis by blast
qed

end
