(* ===== verification/PyBytes.thy ===== *)
theory PyBytes
  imports PyText
begin

text \<open>
  Bytes, UTF-8 and URL-safe Base64 as Python has them. A byte is a number below 256. Encoding is
  \<open>str.encode('utf-8')\<close> on Latin-1 text; decoding yields code points, since a byte string from outside
  may hold any. \<open>a2b\<close> is \<open>binascii.a2b_base64\<close> without \<open>strict_mode\<close>, character by character: other
  characters are skipped, a complete pad sequence ends the input, an incomplete quantum raises.
\<close>

section \<open>UTF-8\<close>

definition utf8_char :: "nat \<Rightarrow> nat list" where
  "utf8_char n = (if n < 128 then [n] else [192 + n div 64, 128 + n mod 64])"

definition utf8_encode :: "string \<Rightarrow> nat list" where
  "utf8_encode s = concat (map (\<lambda>c. utf8_char (of_char c)) s)"

definition continuation :: "nat \<Rightarrow> bool" where
  "continuation b = (128 \<le> b \<and> b < 192)"

text \<open>\<open>None\<close> is \<open>UnicodeDecodeError\<close>: a stray or missing continuation byte, an overlong form, a
  surrogate, a code point above \<open>U+10FFFF\<close>.\<close>

fun utf8_decode :: "nat list \<Rightarrow> nat list option" where
  "utf8_decode [] = Some []"
| "utf8_decode (a # bs) =
     (if a < 128 then map_option (Cons a) (utf8_decode bs)
      else if 194 \<le> a \<and> a < 224 then
        (case bs of b # r \<Rightarrow> if continuation b then map_option (Cons ((a - 192) * 64 + (b - 128))) (utf8_decode r) else None
         | _ \<Rightarrow> None)
      else if 224 \<le> a \<and> a < 240 then
        (case bs of b # c # r \<Rightarrow>
            let n = (a - 224) * 4096 + (b - 128) * 64 + (c - 128) in
            if continuation b \<and> continuation c \<and> 2048 \<le> n \<and> \<not> (55296 \<le> n \<and> n < 57344)
            then map_option (Cons n) (utf8_decode r) else None
         | _ \<Rightarrow> None)
      else if 240 \<le> a \<and> a < 245 then
        (case bs of b # c # d # r \<Rightarrow>
            let n = (a - 240) * 262144 + (b - 128) * 4096 + (c - 128) * 64 + (d - 128) in
            if continuation b \<and> continuation c \<and> continuation d \<and> 65536 \<le> n \<and> n < 1114112
            then map_option (Cons n) (utf8_decode r) else None
         | _ \<Rightarrow> None)
      else None)"

text \<open>\<open>str.encode('ascii')\<close>; \<open>None\<close> is \<open>UnicodeEncodeError\<close>.\<close>

definition ascii_encode :: "string \<Rightarrow> nat list option" where
  "ascii_encode s = (if \<forall>c \<in> set s. of_char c < (128 :: nat) then Some (map of_char s) else None)"

lemma utf8_char_decode:
  assumes "n < 256"
  shows "utf8_decode (utf8_char n @ bs) = map_option (Cons n) (utf8_decode bs)"
proof (cases "n < 128")
  case True
  then show ?thesis by (simp add: utf8_char_def)
next
  case False
  define q r where "q = n div 64" and "r = n mod 64"
  have n: "n = q * 64 + r" and r: "r < 64" by (simp_all add: q_def r_def)
  with False assms have q: "q = 2 \<or> q = 3" by linarith
  have "utf8_char n = [192 + q, 128 + r]" using False by (simp add: utf8_char_def q_def r_def)
  with q r show ?thesis by (auto simp: continuation_def n)
qed

lemma utf8_roundtrip: "utf8_decode (utf8_encode s) = Some (map of_char s)"
proof (induction s)
  case (Cons c cs)
  have "(of_char c :: nat) < 256" by (rule nat_of_char_less_256)
  from utf8_char_decode[OF this] Cons show ?case by (simp add: utf8_encode_def)
qed (simp add: utf8_encode_def)

lemma utf8_char_bytes: "n < 256 \<Longrightarrow> b \<in> set (utf8_char n) \<Longrightarrow> b < 256"
  by (auto simp: utf8_char_def less_mult_imp_div_less split: if_splits)

lemma utf8_encode_bytes: "b \<in> set (utf8_encode s) \<Longrightarrow> b < 256"
  by (auto simp: utf8_encode_def intro: utf8_char_bytes[OF nat_of_char_less_256])

section \<open>Base64\<close>

text \<open>The URL-safe alphabet.\<close>

definition b64_char :: "nat \<Rightarrow> char" where
  "b64_char v = (if v < 26 then char_of (65 + v) else if v < 52 then char_of (71 + v)
     else if v < 62 then char_of (v - 4) else if v = 62 then CHR ''-'' else CHR ''_'')"

text \<open>\<open>urlsafe_b64decode\<close> first replaces \<open>-\<close> and \<open>_\<close> by \<open>+\<close> and \<open>/\<close>, which stay valid.\<close>

definition b64_value :: "nat \<Rightarrow> nat option" where
  "b64_value n =
     (if 65 \<le> n \<and> n \<le> 90 then Some (n - 65) else if 97 \<le> n \<and> n \<le> 122 then Some (n - 71)
      else if 48 \<le> n \<and> n \<le> 57 then Some (n + 4) else if n = 43 \<or> n = 45 then Some 62
      else if n = 47 \<or> n = 95 then Some 63 else None)"

fun urlsafe_b64encode :: "nat list \<Rightarrow> string" where
  "urlsafe_b64encode [] = []"
| "urlsafe_b64encode [a] = [b64_char (a div 4), b64_char (a mod 4 * 16), CHR ''='', CHR ''='']"
| "urlsafe_b64encode [a, b] =
     [b64_char (a div 4), b64_char (a mod 4 * 16 + b div 16), b64_char (b mod 16 * 4), CHR ''='']"
| "urlsafe_b64encode (a # b # c # r) =
     b64_char (a div 4) # b64_char (a mod 4 * 16 + b div 16) # b64_char (b mod 16 * 4 + c div 64) # b64_char (c mod 64)
     # urlsafe_b64encode r"

text \<open>\<open>a2b quad_pos leftchar pads\<close>.\<close>

fun a2b :: "nat \<Rightarrow> nat \<Rightarrow> nat \<Rightarrow> nat list \<Rightarrow> nat list option" where
  "a2b q l p [] = (if q = 0 then Some [] else None)"
| "a2b q l p (n # ns) =
     (if n = 61 then
        (if 2 \<le> q then (if 4 \<le> q + p + 1 then Some [] else a2b q l (p + 1) ns) else a2b q l p ns)
      else case b64_value n of
          None \<Rightarrow> a2b q l p ns
        | Some v \<Rightarrow>
            if q = 0 then a2b 1 v 0 ns
            else if q = 1 then map_option (Cons (l * 4 + v div 16)) (a2b 2 (v mod 16) 0 ns)
            else if q = 2 then map_option (Cons (l * 16 + v div 4)) (a2b 3 (v mod 4) 0 ns)
            else map_option (Cons (l * 64 + v)) (a2b 0 0 0 ns))"

definition urlsafe_b64decode :: "nat list \<Rightarrow> nat list option" where
  "urlsafe_b64decode ns = a2b 0 0 0 ns"

lemma b64_char_code:
  assumes "v < 64"
  shows "(of_char (b64_char v) :: nat) = (if v < 26 then 65 + v else if v < 52 then 71 + v else if v < 62 then v - 4 else if v = 62 then 45 else 95)"
  using assms by (auto simp: b64_char_def of_char_of)

lemma b64_char_value:
  assumes "v < 64"
  shows "b64_value (of_char (b64_char v)) = Some v" and "(of_char (b64_char v) :: nat) \<noteq> 61" and "(of_char (b64_char v) :: nat) < 128"
  unfolding b64_char_code[OF assms] using assms by (auto simp: b64_value_def)

lemma base64_roundtrip:
  assumes "\<forall>b \<in> set bs. b < 256"
  shows "urlsafe_b64decode (map of_char (urlsafe_b64encode bs)) = Some bs"
  using assms unfolding urlsafe_b64decode_def
proof (induction bs rule: urlsafe_b64encode.induct)
  case (2 a)
  then have "a div 4 < 64" "a mod 4 * 16 < 64" by simp_all
  then show ?case by (simp add: b64_char_value)
next
  case (3 a b)
  then have "a div 4 < 64" "b div 16 < 16" "a mod 4 * 16 + b div 16 < 64" "b mod 16 * 4 < 64" by auto
  then show ?case by (simp add: b64_char_value)
next
  case (4 a b c r)
  then have "a div 4 < 64" "b div 16 < 16" "c div 64 < 4" "c mod 64 < 64"
    "a mod 4 * 16 + b div 16 < 64" "b mod 16 * 4 + c div 64 < 64" by auto
  with 4 show ?case by (simp add: b64_char_value)
qed simp

lemma urlsafe_b64encode_ascii:
  assumes "\<forall>b \<in> set bs. b < 256" and "c \<in> set (urlsafe_b64encode bs)"
  shows "(of_char c :: nat) < 128"
  using assms
proof (induction bs rule: urlsafe_b64encode.induct)
  case (2 a)
  then have "a div 4 < 64" "a mod 4 * 16 < 64" by simp_all
  with 2 show ?case by (auto simp: b64_char_value(3))
next
  case (3 a b)
  then have "a div 4 < 64" "b div 16 < 16" "a mod 4 * 16 + b div 16 < 64" "b mod 16 * 4 < 64" by auto
  with 3 show ?case by (auto simp: b64_char_value(3))
next
  case (4 a b c r)
  then have "a div 4 < 64" "b div 16 < 16" "c div 64 < 4" "c mod 64 < 64"
    "a mod 4 * 16 + b div 16 < 64" "b mod 16 * 4 + c div 64 < 64" by auto
  with 4 show ?case by (auto simp: b64_char_value(3))
qed simp

end
