(* ===== verification/Cursor.thy ===== *)
theory Cursor
  imports PyBytes PyJson
begin

text \<open>
  \<open>scheduled_chats/cursor.py\<close>: the opaque keyset cursor, a timestamp and an identifier in URL-safe Base64. The
  rendering \<open>iso_text\<close> (\<open>datetime.isoformat\<close> of an aware time) and the reader \<open>from_iso\<close> are arguments; \<open>iso_ok\<close>
  is what the round trip needs of them. A decoded text that leaves Latin-1 is handed to the argument \<open>wide\<close>.
  \<open>None\<close> is \<open>InvalidCursorError\<close>: every failure of the steps is an exception the source turns into it.
\<close>

record ScheduledChatCursor =
  cur_created_at :: instant
  cur_id :: uuid

type_synonym wide_reader = "nat list \<Rightarrow> ScheduledChatCursor option"

definition cursor_encode :: "(instant \<Rightarrow> string) \<Rightarrow> ScheduledChatCursor \<Rightarrow> string" where
  "cursor_encode iso_text c =
     urlsafe_b64encode (utf8_encode (iso_text (cur_created_at c) @ ''|'' @ uuid_str (cur_id c)))"

text \<open>From \<open>raw.split("|", 1)\<close> on.\<close>

definition cursor_fields :: "iso_reader \<Rightarrow> string \<Rightarrow> ScheduledChatCursor option" where
  "cursor_fields from_iso raw =
     (case dropWhile (\<lambda>c. c \<noteq> CHR ''|'') raw of
        [] \<Rightarrow> None
      | bar # id_str \<Rightarrow>
          (case from_iso (takeWhile (\<lambda>c. c \<noteq> CHR ''|'') raw) of
             None \<Rightarrow> None
           | Some created \<Rightarrow>
               (case uuid_parse id_str of
                  None \<Rightarrow> None
                | Some u \<Rightarrow> Some \<lparr>cur_created_at = as_utc created, cur_id = u\<rparr>)))"

definition cursor_decode :: "iso_reader \<Rightarrow> wide_reader \<Rightarrow> string \<Rightarrow> ScheduledChatCursor option" where
  "cursor_decode from_iso wide s =
     (case ascii_encode s of
        None \<Rightarrow> None
      | Some ascii \<Rightarrow>
          (case urlsafe_b64decode ascii of
             None \<Rightarrow> None
           | Some bs \<Rightarrow>
               (case utf8_decode bs of
                  None \<Rightarrow> None
                | Some ps \<Rightarrow> if list_ex (\<lambda>p. 256 \<le> p) ps then wide ps else cursor_fields from_iso (map char_of ps))))"

definition iso_ok :: "(instant \<Rightarrow> string) \<Rightarrow> iso_reader \<Rightarrow> instant \<Rightarrow> bool" where
  "iso_ok iso_text from_iso t \<longleftrightarrow> from_iso (iso_text t) = Some (Aware t) \<and> CHR ''|'' \<notin> set (iso_text t)"

section \<open>Round trip\<close>

lemma cursor_fields_of_text:
  assumes "iso_ok iso_text from_iso t"
  shows "cursor_fields from_iso (iso_text t @ ''|'' @ uuid_str u) = Some \<lparr>cur_created_at = t, cur_id = u\<rparr>"
proof -
  let ?p = "\<lambda>c. c \<noteq> CHR ''|''"
  have plain: "\<forall>c \<in> set (iso_text t). ?p c" and iso: "from_iso (iso_text t) = Some (Aware t)"
    using assms by (auto simp: iso_ok_def)
  then have "takeWhile ?p (iso_text t @ ''|'' @ uuid_str u) = iso_text t"
    and "dropWhile ?p (iso_text t @ ''|'' @ uuid_str u) = CHR ''|'' # uuid_str u" by simp_all
  with iso show ?thesis by (simp add: cursor_fields_def uuid_parse_str)
qed

lemma cursor_text:
  "ascii_encode (cursor_encode iso_text c) = Some (map of_char (cursor_encode iso_text c))"
  using utf8_encode_bytes urlsafe_b64encode_ascii[of "utf8_encode (iso_text (cur_created_at c) @ ''|'' @ uuid_str (cur_id c))"]
  by (auto simp: ascii_encode_def cursor_encode_def)

lemma cursor_decode_encode:
  assumes "iso_ok iso_text from_iso (cur_created_at c)"
  shows "cursor_decode from_iso wide (cursor_encode iso_text c) = Some c"
proof -
  let ?raw = "iso_text (cur_created_at c) @ ''|'' @ uuid_str (cur_id c)"
  have "urlsafe_b64decode (map of_char (cursor_encode iso_text c)) = Some (utf8_encode ?raw)"
    unfolding cursor_encode_def using utf8_encode_bytes by (intro base64_roundtrip) blast
  moreover have "\<not> list_ex (\<lambda>p. (256 :: nat) \<le> p) (map of_char ?raw)"
    by (auto simp: list_ex_iff not_le)
  moreover have "map (char_of :: nat \<Rightarrow> char) (map of_char ?raw) = ?raw"
    unfolding map_map by (rule map_idI) simp
  ultimately show ?thesis
    using cursor_fields_of_text[OF assms, of "cur_id c"]
    by (simp add: cursor_decode_def cursor_text utf8_roundtrip del: map_append map_map)
qed

text \<open>
  A pagination cursor survives the wire: the text a list answer carries in \<open>nextCursor\<close> is accepted and
  read back as exactly the timestamp and the identifier it was made of, whatever they are, so two different
  positions never share a text. The text is ASCII and the timestamp's rendering is the only assumption.
\<close>

theorem cursor_roundtrip:
  assumes "iso_ok iso_text from_iso (cur_created_at c)"
  shows "cursor_decode from_iso wide (cursor_encode iso_text c) = Some c
    \<and> (\<forall>ch \<in> set (cursor_encode iso_text c). of_char ch < (128 :: nat))
    \<and> (\<forall>d. iso_ok iso_text from_iso (cur_created_at d) \<and> cursor_encode iso_text c = cursor_encode iso_text d \<longrightarrow> c = d)"
proof (intro conjI allI impI)
  show decoded: "cursor_decode from_iso wide (cursor_encode iso_text c) = Some c"
    by (rule cursor_decode_encode) fact
  show "\<forall>ch \<in> set (cursor_encode iso_text c). of_char ch < (128 :: nat)"
    using utf8_encode_bytes urlsafe_b64encode_ascii unfolding cursor_encode_def by blast
  show "c = d" if "iso_ok iso_text from_iso (cur_created_at d) \<and> cursor_encode iso_text c = cursor_encode iso_text d" for d
  proof -
    from that have "cursor_decode from_iso wide (cursor_encode iso_text d) = Some d" by (intro cursor_decode_encode) (rule conjunct1)
    with that have "cursor_decode from_iso wide (cursor_encode iso_text c) = Some d" by (metis (no_types))
    with decoded show ?thesis by (metis (no_types) option.inject)
  qed
qed

definition demo_iso :: "instant \<Rightarrow> string" where
  "demo_iso t = (if t = 0 then ''1970-01-01T00:00:00+00:00'' else ''1970-01-01T00:00:01+00:00'')"

definition demo_from_iso :: iso_reader where
  "demo_from_iso s = (if s = ''1970-01-01T00:00:00+00:00'' then Some (Aware 0)
     else if s = ''1970-01-01T00:00:01+00:00'' then Some (Aware 1000000) else None)"

lemma demo_iso_ok: "iso_ok demo_iso demo_from_iso 0" "iso_ok demo_iso demo_from_iso 1000000"
  by (simp_all add: iso_ok_def demo_iso_def demo_from_iso_def)

theorem cursor_roundtrip_witness:
  "cursor_decode demo_from_iso (\<lambda>_. None) (cursor_encode demo_iso \<lparr>cur_created_at = 0, cur_id = 7\<rparr>)
     = Some \<lparr>cur_created_at = 0, cur_id = 7\<rparr>
   \<and> cursor_encode demo_iso \<lparr>cur_created_at = 0, cur_id = 7\<rparr> \<noteq> cursor_encode demo_iso \<lparr>cur_created_at = 1000000, cur_id = 7\<rparr>"
proof -
  note at = cursor_roundtrip[of demo_iso demo_from_iso "\<lparr>cur_created_at = 0, cur_id = 7\<rparr>" "\<lambda>_. None", simplified, OF demo_iso_ok(1)]
  have "\<not> (cursor_encode demo_iso \<lparr>cur_created_at = 0, cur_id = 7\<rparr> = cursor_encode demo_iso \<lparr>cur_created_at = 1000000, cur_id = 7\<rparr>)"
    using at[THEN conjunct2, THEN conjunct2, THEN spec, of "\<lparr>cur_created_at = 1000000, cur_id = 7\<rparr>"] demo_iso_ok(2) by auto
  with at[THEN conjunct1] show ?thesis by (rule conjI)
qed

end
