(* ===== verification/Scheduled.thy ===== *)
theory Scheduled
  imports Store Cursor
begin

text \<open>
  Scheduled chat tasks (\<open>scheduled_chats/repository.py\<close> and \<open>service.py\<close>): the table, its queries, and the five
  operations of the API. The state is the database with two more tables: of a chat session only its owner
  and its billing mode. \<open>offered_models\<close> stands for \<open>instance_config.offered_model_ids()\<close>. The response of an
  operation has the row's columns under their JSON names, so an operation returns the row, once its
  response schema accepts it. Times are instants in UTC; the reads of the clock are arguments.
\<close>

section \<open>Rows\<close>

record scheduled_task =
  st_id :: uuid
  st_user :: uuid
  st_session :: "uuid option"
  st_prompt :: string
  st_mode :: string
  st_assistant_mode :: "string option"
  st_model :: "string option"
  st_generation_mode :: "string option"
  st_run_at :: instant
  st_status :: string
  st_claimed_at :: "instant option"
  st_started_at :: "instant option"
  st_finished_at :: "instant option"
  st_result_session :: "uuid option"
  st_result_step :: "uuid option"
  st_error_code :: "string option"
  st_error_message :: "string option"
  st_push_sent_at :: "instant option"
  st_created_at :: instant
  st_updated_at :: instant

record chat_row =
  ch_user :: uuid
  ch_mode :: string

record sched_db = db +
  chats :: "uuid \<rightharpoonup> chat_row"
  tasks :: "scheduled_task list"

type_synonym 'a stx = "sched_db \<Rightarrow> (exn, 'a, sched_db) outcome"

record sched_settings =
  max_active_per_user :: int
  prompt_max_chars :: int
  min_lead_seconds :: int
  max_lead_days :: int
  batch_size :: int
  running_ttl_seconds :: int
  offered_models :: "string list"

definition ACTIVE_STATUSES :: "string list" where
  "ACTIVE_STATUSES = [''scheduled'', ''running'']"

definition TERMINAL_STATUSES :: "string list" where
  "TERMINAL_STATUSES = [''completed'', ''failed'', ''cancelled'']"

definition VALID_STATUSES :: "string list" where
  "VALID_STATUSES = [''scheduled'', ''running'', ''completed'', ''failed'', ''cancelled'']"

definition VALID_MODES :: "string list" where
  "VALID_MODES = [''credits'', ''byok'']"

definition VALID_ASSISTANT_MODES :: "string list" where
  "VALID_ASSISTANT_MODES = [''chat'', ''code'']"

definition GENERATION_MODE_ORDER :: "string list" where
  "GENERATION_MODE_ORDER = [''general'', ''research'', ''reasoning'', ''study_learn'']"

definition null_or_in :: "string list \<Rightarrow> string option \<Rightarrow> bool" where
  "null_or_in xs v = (case v of None \<Rightarrow> True | Some x \<Rightarrow> x \<in> set xs)"

text \<open>The CHECK constraints of the table, and the literals of the response schema.\<close>

definition row_checks :: "scheduled_task \<Rightarrow> bool" where
  "row_checks r = (st_status r \<in> set VALID_STATUSES \<and> st_mode r \<in> set VALID_MODES \<and> null_or_in VALID_ASSISTANT_MODES (st_assistant_mode r))"

definition response_valid :: "scheduled_task \<Rightarrow> bool" where
  "response_valid r = (st_mode r \<in> set VALID_MODES \<and> null_or_in VALID_ASSISTANT_MODES (st_assistant_mode r)
     \<and> null_or_in GENERATION_MODE_ORDER (st_generation_mode r) \<and> st_status r \<in> set VALID_STATUSES)"

definition to_response :: "scheduled_task \<Rightarrow> exn + scheduled_task" where
  "to_response r = (if response_valid r then Inr r else Inl (PyFault ''ValidationError''))"

section \<open>Repository\<close>

definition update_task :: "uuid \<Rightarrow> (scheduled_task \<Rightarrow> scheduled_task) \<Rightarrow> sched_db \<Rightarrow> sched_db" where
  "update_task i f s = s\<lparr>tasks := map (\<lambda>r. if st_id r = i then f r else r) (tasks s)\<rparr>"

definition find_task :: "uuid \<Rightarrow> sched_db \<Rightarrow> scheduled_task option" where
  "find_task i s = find (\<lambda>r. st_id r = i) (tasks s)"

text \<open>\<open>create\<close>: the INSERT with the constraints of the table; the identifier is the database's.\<close>

definition create_row :: "scheduled_task \<Rightarrow> scheduled_task stx" where
  "create_row r s =
     (if \<not> row_checks r then (Inl (DbFault CheckViolation), s)
      else if find_task (st_id r) s \<noteq> None then (Inl (DbFault UniqueViolation), s)
      else if users s (st_user r) = None then (Inl (DbFault ForeignKeyViolation), s)
      else (Inr r, s\<lparr>tasks := tasks s @ [r]\<rparr>))"

definition get_for_user :: "uuid \<Rightarrow> uuid \<Rightarrow> sched_db \<Rightarrow> scheduled_task option" where
  "get_for_user i u s = find (\<lambda>r. st_id r = i \<and> st_user r = u) (tasks s)"

definition count_active :: "uuid \<Rightarrow> sched_db \<Rightarrow> nat" where
  "count_active u s = length (filter (\<lambda>r. st_user r = u \<and> st_status r \<in> set ACTIVE_STATUSES) (tasks s))"

definition delete_row :: "uuid \<Rightarrow> sched_db \<Rightarrow> sched_db" where
  "delete_row i s = s\<lparr>tasks := filter (\<lambda>r. st_id r \<noteq> i) (tasks s)\<rparr>"

text \<open>\<open>ChatRepository.get_session\<close>\<close>

definition get_session :: "uuid \<Rightarrow> uuid \<Rightarrow> sched_db \<Rightarrow> chat_row option" where
  "get_session i u s = (case chats s i of Some c \<Rightarrow> if ch_user c = u then Some c else None | None \<Rightarrow> None)"

section \<open>Validation\<close>

definition validate_prompt :: "sched_settings \<Rightarrow> string \<Rightarrow> exn + string" where
  "validate_prompt cfg prompt =
     (let stripped = py_strip prompt in
      if stripped = [] then Inl (Raised PromptRequiredError ''prompt is required'')
      else if prompt_max_chars cfg < int (length stripped) then Inl (Raised PromptTooLongError ''prompt is too long'')
      else Inr stripped)"

fun validate_run_at :: "sched_settings \<Rightarrow> instant \<Rightarrow> pydt \<Rightarrow> exn + instant" where
  "validate_run_at cfg now (Naive t) = Inl (Raised RunAtTimezoneRequiredError ''runAt must be timezone-aware'')"
| "validate_run_at cfg now (Aware t) =
     (if t \<le> now then Inl (Raised RunAtNotInFutureError ''runAt must be in the future'')
      else if t < now + seconds (min_lead_seconds cfg) then Inl (Raised RunAtTooSoonError ''runAt is too soon'')
      else if now + days (max_lead_days cfg) < t then Inl (Raised RunAtTooFarError ''runAt is too far in the future'')
      else Inr t)"

definition validate_mode :: "string \<Rightarrow> exn + string" where
  "validate_mode mode = (if mode \<in> set VALID_MODES then Inr mode else Inl (Raised UnsupportedModeError ''unsupported mode''))"

definition validate_assistant_mode :: "string option \<Rightarrow> exn + string option" where
  "validate_assistant_mode v =
     (if null_or_in VALID_ASSISTANT_MODES v then Inr v else Inl (Raised UnsupportedAssistantModeError ''unsupported assistantMode''))"

definition validate_generation_mode :: "string option \<Rightarrow> exn + string option" where
  "validate_generation_mode v =
     (if null_or_in GENERATION_MODE_ORDER v then Inr v else Inl (Raised UnsupportedGenerationModeError ''unsupported generationMode''))"

definition validate_model :: "sched_settings \<Rightarrow> string option \<Rightarrow> exn + string option" where
  "validate_model cfg v =
     (case v of
        None \<Rightarrow> Inr None
      | Some m \<Rightarrow>
          if py_strip m = [] \<or> py_strip m \<notin> set (offered_models cfg) then Inl (Raised UnsupportedModelError ''unsupported model'')
          else Inr (Some (py_strip m)))"

text \<open>Validators in sequence: the first exception leaves.\<close>

definition checked :: "exn + 'a \<Rightarrow> ('a \<Rightarrow> exn + 'b) \<Rightarrow> exn + 'b" where
  "checked r k = (case r of Inl e \<Rightarrow> Inl e | Inr a \<Rightarrow> k a)"

lemma checked_simps [simp]: "checked (Inl e) k = Inl e" "checked (Inr a) k = k a"
  by (simp_all add: checked_def)

lemma checked_Inr_iff: "checked r k = Inr b \<longleftrightarrow> (\<exists>a. r = Inr a \<and> k a = Inr b)"
  by (cases r) simp_all

section \<open>Operations\<close>

record create_request =
  cr_prompt :: string
  cr_run_at :: pydt
  cr_session :: "uuid option"
  cr_mode :: "string option"
  cr_assistant_mode :: "string option"
  cr_model :: "string option"
  cr_generation_mode :: "string option"

definition resolve_create_fields ::
  "sched_settings \<Rightarrow> uuid \<Rightarrow> create_request \<Rightarrow> sched_db \<Rightarrow> exn + string \<times> string option \<times> string option" where
  "resolve_create_fields cfg u body s =
     checked
       (case cr_session body of
          Some i \<Rightarrow> (case get_session i u s of
                       None \<Rightarrow> Inl (Raised SessionNotFoundError ''session not found'')
                     | Some c \<Rightarrow> Inr (ch_mode c))
        | None \<Rightarrow> validate_mode (or_default (cr_mode body) ''credits''))
       (\<lambda>mode. checked (validate_assistant_mode (cr_assistant_mode body))
       (\<lambda>assistant. checked (validate_model cfg (cr_model body))
       (\<lambda>model. Inr (mode, assistant, model))))"

definition create_task :: "sched_settings \<Rightarrow> uuid \<Rightarrow> instant \<Rightarrow> instant \<Rightarrow> uuid \<Rightarrow> create_request \<Rightarrow> scheduled_task stx" where
  "create_task cfg new_id validated_at now u body = session_scope (\<lambda>s.
     case checked (validate_prompt cfg (cr_prompt body)) (\<lambda>prompt.
          checked (validate_run_at cfg validated_at (cr_run_at body)) (\<lambda>run_at.
          checked (validate_generation_mode (cr_generation_mode body)) (\<lambda>generation.
          checked (resolve_create_fields cfg u body s) (\<lambda>(mode, assistant, model).
          if max_active_per_user cfg \<le> int (count_active u s)
          then Inl (Raised ActiveLimitExceededError ''too many active scheduled chats'')
          else Inr \<lparr>st_id = new_id, st_user = u, st_session = cr_session body, st_prompt = prompt, st_mode = mode,
              st_assistant_mode = assistant, st_model = model, st_generation_mode = generation, st_run_at = run_at,
              st_status = ''scheduled'', st_claimed_at = None, st_started_at = None, st_finished_at = None,
              st_result_session = None, st_result_step = None, st_error_code = None, st_error_message = None,
              st_push_sent_at = None, st_created_at = now, st_updated_at = now\<rparr>)))) of
       Inl e \<Rightarrow> (Inl e, s)
     | Inr row \<Rightarrow> and_then (create_row row s) (\<lambda>row s. (to_response row, s)))"

definition get_task :: "uuid \<Rightarrow> uuid \<Rightarrow> sched_db \<Rightarrow> exn + scheduled_task" where
  "get_task u i s =
     (case get_for_user i u s of
        None \<Rightarrow> Inl (Raised ScheduledChatNotFoundError ''scheduled chat not found'')
      | Some r \<Rightarrow> to_response r)"

text \<open>A PATCH body: \<open>None\<close> is a field the client did not send, \<open>Some None\<close> an explicit null.\<close>

record patch_request =
  pr_prompt :: "string option option"
  pr_run_at :: "pydt option option"
  pr_session :: "uuid option option"
  pr_mode :: "string option option"
  pr_assistant_mode :: "string option option"
  pr_model :: "string option option"
  pr_generation_mode :: "string option option"

definition empty_patch :: "patch_request \<Rightarrow> bool" where
  "empty_patch b = (pr_prompt b = None \<and> pr_run_at b = None \<and> pr_session b = None \<and> pr_mode b = None
     \<and> pr_assistant_mode b = None \<and> pr_model b = None \<and> pr_generation_mode b = None)"

text \<open>A field that is validated whenever it was sent, and one whose null means no change.\<close>

definition sent :: "'a option \<Rightarrow> 'b \<Rightarrow> ('a \<Rightarrow> exn + 'b) \<Rightarrow> exn + 'b" where
  "sent field old f = (case field of None \<Rightarrow> Inr old | Some v \<Rightarrow> f v)"

definition sent_value :: "'a option option \<Rightarrow> 'b \<Rightarrow> ('a \<Rightarrow> exn + 'b) \<Rightarrow> exn + 'b" where
  "sent_value field old f = (case field of Some (Some v) \<Rightarrow> f v | _ \<Rightarrow> Inr old)"

definition patch_mode :: "uuid \<Rightarrow> uuid option \<Rightarrow> string \<Rightarrow> patch_request \<Rightarrow> sched_db \<Rightarrow> exn + string" where
  "patch_mode u session old b s =
     (case session of
        Some i \<Rightarrow> (case get_session i u s of
                     None \<Rightarrow> Inl (Raised SessionNotFoundError ''session not found'')
                   | Some c \<Rightarrow> Inr (ch_mode c))
      | None \<Rightarrow> sent (pr_mode b) old (\<lambda>m. validate_mode (or_default m ''credits'')))"

definition patched :: "sched_settings \<Rightarrow> uuid \<Rightarrow> instant \<Rightarrow> instant \<Rightarrow> patch_request \<Rightarrow> sched_db \<Rightarrow> scheduled_task \<Rightarrow> exn + scheduled_task" where
  "patched cfg u validated_at now b s r =
     checked (sent_value (pr_prompt b) (st_prompt r) (validate_prompt cfg)) (\<lambda>prompt.
     checked (sent_value (pr_run_at b) (st_run_at r) (validate_run_at cfg validated_at)) (\<lambda>run_at.
     checked (sent (pr_generation_mode b) (st_generation_mode r) validate_generation_mode) (\<lambda>generation.
     checked (sent (pr_assistant_mode b) (st_assistant_mode r) validate_assistant_mode) (\<lambda>assistant.
     checked (sent (pr_model b) (st_model r) (validate_model cfg)) (\<lambda>model.
     let session = or_default (pr_session b) (st_session r) in
     checked (patch_mode u session (st_mode r) b s) (\<lambda>mode.
     Inr (r\<lparr>st_prompt := prompt, st_run_at := run_at, st_session := session, st_generation_mode := generation,
            st_assistant_mode := assistant, st_model := model, st_mode := mode, st_updated_at := now\<rparr>)))))))"

text \<open>The flush of a loaded row writes the columns whose value changed, \<open>WHERE id = ...\<close>.\<close>

definition changed :: "'a \<Rightarrow> 'a \<Rightarrow> 'a \<Rightarrow> 'a" where
  "changed old new stored = (if new = old then stored else new)"

definition apply_changes :: "scheduled_task \<Rightarrow> scheduled_task \<Rightarrow> scheduled_task \<Rightarrow> scheduled_task" where
  "apply_changes old new r = r\<lparr>st_prompt := changed (st_prompt old) (st_prompt new) (st_prompt r),
     st_run_at := changed (st_run_at old) (st_run_at new) (st_run_at r),
     st_session := changed (st_session old) (st_session new) (st_session r),
     st_generation_mode := changed (st_generation_mode old) (st_generation_mode new) (st_generation_mode r),
     st_assistant_mode := changed (st_assistant_mode old) (st_assistant_mode new) (st_assistant_mode r),
     st_model := changed (st_model old) (st_model new) (st_model r),
     st_mode := changed (st_mode old) (st_mode new) (st_mode r),
     st_updated_at := changed (st_updated_at old) (st_updated_at new) (st_updated_at r)\<rparr>"

text \<open>\<open>patch\<close> after its SELECT, with the row that was read.\<close>

definition patch_with :: "sched_settings \<Rightarrow> instant \<Rightarrow> instant \<Rightarrow> uuid \<Rightarrow> patch_request \<Rightarrow> scheduled_task option \<Rightarrow> scheduled_task stx" where
  "patch_with cfg validated_at now u b row s =
     (case row of
        None \<Rightarrow> (Inl (Raised ScheduledChatNotFoundError ''scheduled chat not found''), s)
      | Some r \<Rightarrow>
         if st_status r \<noteq> ''scheduled'' then (Inl (Raised NotPatchableError ''scheduled chat is not patchable''), s)
         else case patched cfg u validated_at now b s r of
             Inl e \<Rightarrow> (Inl e, s)
           | Inr r' \<Rightarrow>
               if \<not> row_checks r' then (Inl (DbFault CheckViolation), s)
               else (to_response r', update_task (st_id r) (apply_changes r r') s))"

definition patch_task :: "sched_settings \<Rightarrow> uuid \<Rightarrow> instant \<Rightarrow> instant \<Rightarrow> uuid \<Rightarrow> patch_request \<Rightarrow> scheduled_task stx" where
  "patch_task cfg i validated_at now u b = session_scope (\<lambda>s.
     if empty_patch b then (Inl (Raised EmptyPatchError ''empty patch''), s)
     else patch_with cfg validated_at now u b (get_for_user i u s) s)"

definition cancelled :: "instant \<Rightarrow> scheduled_task \<Rightarrow> scheduled_task" where
  "cancelled now r = r\<lparr>st_status := ''cancelled'', st_finished_at := Some now, st_updated_at := now\<rparr>"

text \<open>\<open>delete\<close> after its SELECT, with the row that was read. The flush is an UPDATE of the three changed columns
  \<open>WHERE id = ...\<close>; the result is the \<open>status\<close> of the response.\<close>

definition delete_with :: "instant \<Rightarrow> scheduled_task option \<Rightarrow> string option stx" where
  "delete_with now row s =
     (case row of
        None \<Rightarrow> (Inl (Raised ScheduledChatNotFoundError ''scheduled chat not found''), s)
      | Some r \<Rightarrow>
          if st_status r = ''scheduled'' then (Inr (Some ''cancelled''), update_task (st_id r) (cancelled now) s)
          else if st_status r = ''running'' then (Inl (Raised NotCancellableError ''running scheduled chat cannot be cancelled''), s)
          else if st_status r \<in> set TERMINAL_STATUSES then (Inr None, delete_row (st_id r) s)
          else (Inl (Raised ScheduledChatNotFoundError ''scheduled chat not found''), s))"

definition delete_task :: "instant \<Rightarrow> uuid \<Rightarrow> uuid \<Rightarrow> string option stx" where
  "delete_task now u i s = delete_with now (get_for_user i u s) s"

section \<open>Listing\<close>

definition before_cursor :: "ScheduledChatCursor option \<Rightarrow> scheduled_task \<Rightarrow> bool" where
  "before_cursor cursor r =
     (case cursor of
        None \<Rightarrow> True
      | Some c \<Rightarrow> st_created_at r < cur_created_at c \<or> st_created_at r = cur_created_at c \<and> st_id r < cur_id c)"

text \<open>\<open>ORDER BY created_at DESC, id DESC\<close>: a stable sort by the identifier, then one by the time.\<close>

definition newest_first :: "scheduled_task list \<Rightarrow> scheduled_task list" where
  "newest_first rs = rev (sort_key st_created_at (sort_key st_id rs))"

definition list_for_user ::
  "uuid \<Rightarrow> string option \<Rightarrow> ScheduledChatCursor option \<Rightarrow> nat \<Rightarrow> sched_db \<Rightarrow> scheduled_task list" where
  "list_for_user u status cursor limit s =
     take limit (newest_first (filter (\<lambda>r. st_user r = u \<and> (case status of None \<Rightarrow> True | Some x \<Rightarrow> st_status r = x)
        \<and> before_cursor cursor r) (tasks s)))"

fun all_responses :: "scheduled_task list \<Rightarrow> exn + scheduled_task list" where
  "all_responses [] = Inr []"
| "all_responses (r # rs) = checked (to_response r) (\<lambda>x. checked (all_responses rs) (\<lambda>xs. Inr (x # xs)))"

definition decode_cursor :: "iso_reader \<Rightarrow> wide_reader \<Rightarrow> string option \<Rightarrow> exn + ScheduledChatCursor option" where
  "decode_cursor from_iso wide cursor =
     (case cursor of
        None \<Rightarrow> Inr None
      | Some v \<Rightarrow> (case cursor_decode from_iso wide v of
                     None \<Rightarrow> Inl (Raised ValidationFailedError ''invalid cursor'')
                   | Some c \<Rightarrow> Inr (Some c)))"

text \<open>A page: its items and \<open>nextCursor\<close>. The router admits a limit from 1 to 100.\<close>

definition list_tasks ::
  "(instant \<Rightarrow> string) \<Rightarrow> iso_reader \<Rightarrow> wide_reader \<Rightarrow> uuid \<Rightarrow> string option \<Rightarrow> string option \<Rightarrow> nat \<Rightarrow>
   sched_db \<Rightarrow> exn + scheduled_task list \<times> string option" where
  "list_tasks iso_text from_iso wide u status cursor limit s =
     (if status \<noteq> None \<and> \<not> null_or_in VALID_STATUSES status then Inl (Raised ValidationFailedError ''invalid status filter'')
      else checked (decode_cursor from_iso wide cursor) (\<lambda>decoded.
        let rows = list_for_user u status decoded (limit + 1) s in
        if limit < length rows then
          let last_row = rows ! (limit - 1);
              next_cursor = cursor_encode iso_text \<lparr>cur_created_at = st_created_at last_row, cur_id = st_id last_row\<rparr> in
          checked (all_responses (take limit rows)) (\<lambda>items. Inr (items, Some next_cursor))
        else checked (all_responses rows) (\<lambda>items. Inr (items, None))))"

section \<open>Well-formed tables\<close>

text \<open>A row is as its stage says: what is set, and only then.\<close>

definition stage_ok :: "scheduled_task \<Rightarrow> bool" where
  "stage_ok r \<longleftrightarrow>
     (st_status r = ''scheduled'' \<longrightarrow> st_claimed_at r = None \<and> st_started_at r = None \<and> st_finished_at r = None) \<and>
     (st_status r = ''running'' \<longrightarrow> st_claimed_at r \<noteq> None \<and> st_started_at r = st_claimed_at r \<and> st_finished_at r = None) \<and>
     (st_status r \<in> set TERMINAL_STATUSES \<longrightarrow> st_finished_at r \<noteq> None) \<and>
     (st_push_sent_at r \<noteq> None \<longrightarrow> st_status r = ''completed'' \<or> st_status r = ''failed'') \<and>
     (st_error_code r \<noteq> None \<longrightarrow> st_status r = ''failed'') \<and>
     (st_result_session r \<noteq> None \<or> st_result_step r \<noteq> None \<longrightarrow> st_status r = ''completed'' \<or> st_status r = ''failed'')"

definition task_ok :: "scheduled_task \<Rightarrow> bool" where
  "task_ok r \<longleftrightarrow> row_checks r \<and> response_valid r \<and> stage_ok r"

definition sched_ok :: "sched_db \<Rightarrow> bool" where
  "sched_ok s \<longleftrightarrow> distinct (map st_id (tasks s)) \<and> (\<forall>r \<in> set (tasks s). task_ok r \<and> users s (st_user r) \<noteq> None)
     \<and> (\<forall>i c. chats s i = Some c \<longrightarrow> ch_mode c \<in> set VALID_MODES)"

lemmas status_lists = ACTIVE_STATUSES_def TERMINAL_STATUSES_def VALID_STATUSES_def VALID_MODES_def

lemma sched_okD:
  assumes "sched_ok s"
  shows "distinct (map st_id (tasks s))" and "r \<in> set (tasks s) \<Longrightarrow> task_ok r"
    and "r \<in> set (tasks s) \<Longrightarrow> users s (st_user r) \<noteq> None" and "get_session i u s = Some c \<Longrightarrow> ch_mode c \<in> set VALID_MODES"
proof -
  note ok = assms[unfolded sched_ok_def]
  show "distinct (map st_id (tasks s))" using ok by (rule conjunct1)
  show "task_ok r" if "r \<in> set (tasks s)" using ok that by (meson)
  show "users s (st_user r) \<noteq> None" if "r \<in> set (tasks s)" using ok that by (meson)
  show "ch_mode c \<in> set VALID_MODES" if "get_session i u s = Some c"
    using ok that by (auto simp: get_session_def split: option.splits if_splits)
qed

lemma to_response_ok: "task_ok r \<Longrightarrow> to_response r = Inr r"
  by (simp add: to_response_def task_ok_def)

lemma find_task_Some: "find_task i s = Some r \<Longrightarrow> r \<in> set (tasks s) \<and> st_id r = i"
  by (auto simp: find_task_def dest: find_SomeD)

lemma get_for_user_Some: "get_for_user i u s = Some r \<Longrightarrow> r \<in> set (tasks s) \<and> st_id r = i \<and> st_user r = u"
  by (auto simp: get_for_user_def dest: find_SomeD)

lemma find_unique: "distinct (map f xs) \<Longrightarrow> x \<in> set xs \<Longrightarrow> find (\<lambda>y. f y = f x) xs = Some x"
  by (induction xs) (force split: if_splits)+

lemma find_task_unique: "sched_ok s \<Longrightarrow> r \<in> set (tasks s) \<Longrightarrow> find_task (st_id r) s = Some r"
  unfolding find_task_def by (rule find_unique) (auto dest: sched_okD(1))

lemma update_task_fields [simp]:
  "users (update_task i f s) = users s" "chats (update_task i f s) = chats s"
  by (simp_all add: update_task_def)

lemma find_map_where:
  "(\<And>x. st_id (f x) = st_id x) \<Longrightarrow>
   find (\<lambda>r. st_id r = j) (map (\<lambda>r. if st_id r = i then f r else r) rs)
   = map_option (\<lambda>r. if j = i then f r else r) (find (\<lambda>r. st_id r = j) rs)"
  by (induction rs) auto

lemma find_update_task:
  "(\<And>r. st_id (f r) = st_id r) \<Longrightarrow>
   find_task j (update_task i f s) = map_option (\<lambda>r. if j = i then f r else r) (find_task j s)"
  unfolding find_task_def update_task_def by (simp add: find_map_where)

lemma update_task_ok:
  assumes "sched_ok s" and "\<And>r. st_id (f r) = st_id r \<and> st_user (f r) = st_user r"
    and "\<And>r. r \<in> set (tasks s) \<Longrightarrow> st_id r = i \<Longrightarrow> task_ok (f r)"
  shows "sched_ok (update_task i f s)"
proof -
  have "map st_id (tasks (update_task i f s)) = map st_id (tasks s)" using assms(2) by (simp add: update_task_def)
  moreover have "task_ok r \<and> users s (st_user r) \<noteq> None" if "r \<in> set (tasks (update_task i f s))" for r
  proof -
    from that obtain r0 where r0: "r0 \<in> set (tasks s)" "r = (if st_id r0 = i then f r0 else r0)" by (auto simp: update_task_def)
    then show ?thesis using assms(2,3) sched_okD(2,3)[OF assms(1) r0(1)] by (metis (full_types))
  qed
  ultimately show ?thesis using assms(1) unfolding sched_ok_def by (simp del: not_None_eq)
qed

lemma delete_row_ok: "sched_ok s \<Longrightarrow> sched_ok (delete_row i s)"
  unfolding sched_ok_def delete_row_def by (simp add: distinct_map_filter del: not_None_eq)

section \<open>What a successful operation did\<close>

lemma session_scope_Inr: "session_scope f s = (Inr a, t) \<Longrightarrow> f s = (Inr a, t)"
  by (auto simp: session_scope_def split: sum.splits)

lemma create_row_returns:
  assumes "create_row r s = (Inr x, t)"
  shows "x = r" and "t = s\<lparr>tasks := tasks s @ [r]\<rparr>" and "find_task (st_id r) s = None" and "users s (st_user r) \<noteq> None" and "row_checks r"
  using assms by (auto simp: create_row_def split: if_splits)

lemma create_task_returns:
  assumes "create_task cfg i v now u body s = (Inr r, t)"
  shows "create_row r s = (Inr r, t)" and "response_valid r" and "st_id r = i \<and> st_user r = u \<and> st_status r = ''scheduled'' \<and> st_push_sent_at r = None"
    and "stage_ok r" and "max_active_per_user cfg > int (count_active u s)"
    and "validate_prompt cfg (cr_prompt body) = Inr (st_prompt r)" and "validate_run_at cfg v (cr_run_at body) = Inr (st_run_at r)"
proof -
  obtain prompt run_at generation mode assistant model row where
    steps: "validate_prompt cfg (cr_prompt body) = Inr prompt" "validate_run_at cfg v (cr_run_at body) = Inr run_at"
      "max_active_per_user cfg > int (count_active u s)"
    and row: "row = \<lparr>st_id = i, st_user = u, st_session = cr_session body, st_prompt = prompt, st_mode = mode,
              st_assistant_mode = assistant, st_model = model, st_generation_mode = generation, st_run_at = run_at,
              st_status = ''scheduled'', st_claimed_at = None, st_started_at = None, st_finished_at = None,
              st_result_session = None, st_result_step = None, st_error_code = None, st_error_message = None,
              st_push_sent_at = None, st_created_at = now, st_updated_at = now\<rparr>"
    and made: "and_then (create_row row s) (\<lambda>row s. (to_response row, s)) = (Inr r, t)"
    using session_scope_Inr[OF assms[unfolded create_task_def]]
    by (auto simp: checked_def split: sum.splits if_splits)
  from made obtain x where x: "create_row row s = (Inr x, t)" "to_response x = Inr r"
    by (auto elim!: and_then_InrE)
  have r: "row = r" using x create_row_returns(1)[OF x(1)] by (simp add: to_response_def split: if_splits)
  show "create_row r s = (Inr r, t)" using x(1) create_row_returns(1)[OF x(1)] r by simp
  show "response_valid r" using x(2) by (simp add: to_response_def split: if_splits)
  show "st_id r = i \<and> st_user r = u \<and> st_status r = ''scheduled'' \<and> st_push_sent_at r = None" unfolding r[symmetric] row by simp
  show "stage_ok r" unfolding r[symmetric] row by (simp add: stage_ok_def TERMINAL_STATUSES_def)
  show "max_active_per_user cfg > int (count_active u s)" by (rule steps)
  show "validate_prompt cfg (cr_prompt body) = Inr (st_prompt r)" "validate_run_at cfg v (cr_run_at body) = Inr (st_run_at r)"
    using steps(1,2) unfolding r[symmetric] row by simp_all
qed

end
