(* ===== verification/Keyset.thy ===== *)
theory Keyset
  imports Prelude
begin

text \<open>
  Listing by cursor, as the services that page through rows share it. The locale \<open>keyset\<close> states what a page promises its client: after
  the rows already read, the next ones of the list, and a cursor exactly when there are more. What follows, for every provider of such
  pages, is that a client that follows the cursors ends and has read the whole list.
\<close>

section \<open>The client\<close>

text \<open>Ask, keep the page, ask again with its cursor until there is none. The loop has no bound of its own.\<close>

partial_function (option) follow ::
  "(string option \<Rightarrow> 'e + 'p \<times> string option) \<Rightarrow> string option \<Rightarrow> ('e + 'p list) option" where
  "follow page cursor =
     (case page cursor of
        Inl e \<Rightarrow> Some (Inl e)
      | Inr (items, None) \<Rightarrow> Some (Inr [items])
      | Inr (items, Some c) \<Rightarrow>
          Option.bind (follow page (Some c)) (\<lambda>rest. Some (map_sum id (Cons items) rest)))"

text \<open>Where a client stands: nothing read yet, or at the cursor of the last row read.\<close>

definition place :: "('a \<Rightarrow> string) \<Rightarrow> 'a list \<Rightarrow> string option" where
  "place mark read = (if read = [] then None else Some (mark (List.last read)))"

lemma place_simps [simp]: "place mark [] = None" "place mark (A @ [x]) = Some (mark x)"
  by (simp_all add: place_def)

section \<open>The order\<close>

text \<open>Rows of a later stamp first, of one stamp those with the greater key. \<open>precedes\<close> is the position of a cursor in it.\<close>

definition descending :: "('a \<Rightarrow> 'k :: linorder) \<Rightarrow> ('a \<Rightarrow> 'i :: linorder) \<Rightarrow> 'a list \<Rightarrow> 'a list" where
  "descending stamp key rows = rev (sort_key stamp (sort_key key rows))"

definition precedes :: "('a \<Rightarrow> 'k :: linorder) \<Rightarrow> ('a \<Rightarrow> 'i :: linorder) \<Rightarrow> 'a \<Rightarrow> 'a \<Rightarrow> bool" where
  "precedes stamp key x y \<longleftrightarrow> stamp x < stamp y \<or> stamp x = stamp y \<and> key x < key y"

lemma lexicographic:
  assumes "sorted (map f ys)" and "\<And>k. sorted (map g (filter (\<lambda>y. f y = k) ys))"
  shows "sorted_wrt (\<lambda>x y. f x < f y \<or> f x = f y \<and> g x \<le> g y) ys"
  using assms
proof (induction ys)
  case (Cons y ys)
  have "f y < f z \<or> f y = f z \<and> g y \<le> g z" if "z \<in> set ys" for z
    using Cons.prems(1) Cons.prems(2)[of "f y"] that by (auto simp: less_le)
  moreover have "sorted (map g (filter (\<lambda>y. f y = k) ys))" for k
    using Cons.prems(2)[of k] by (simp split: if_splits)
  ultimately show ?case using Cons.IH Cons.prems(1) by simp
qed simp

lemma descending_sorted:
  assumes "distinct (map key rows)"
  shows "sorted_wrt (\<lambda>x y. precedes stamp key y x) (descending stamp key rows)"
proof -
  let ?ys = "sort_key stamp (sort_key key rows)"
  have "sorted (map key (filter (\<lambda>y. stamp y = k) ?ys))" for k
    by (simp add: sort_key_stable sorted_filter)
  then have lex: "sorted_wrt (\<lambda>x y. stamp x < stamp y \<or> stamp x = stamp y \<and> key x \<le> key y) ?ys"
    by (intro lexicographic) simp_all
  have "distinct (map key ?ys)" using assms by (simp add: distinct_map)
  then have "sorted_wrt (\<lambda>x y. key x \<noteq> key y) ?ys" by (simp add: distinct_map sorted_wrt_map distinct_conv_nth sorted_wrt_iff_nth_less inj_on_def)
  with lex have "sorted_wrt (\<lambda>x y. precedes stamp key x y) ?ys"
    unfolding sorted_wrt_iff_nth_less precedes_def by (metis order_le_imp_less_or_eq)
  then show ?thesis unfolding descending_def by (simp add: sorted_wrt_rev)
qed

lemma descending_filter: "descending stamp key (filter P rows) = filter P (descending stamp key rows)"
  by (simp add: descending_def filter_sort rev_filter[symmetric])

lemma set_descending [simp]: "set (descending stamp key rows) = set rows" and distinct_descending [simp]: "distinct (descending stamp key rows) = distinct rows"
  by (simp_all add: descending_def)

lemma precedes_asym: "precedes stamp key x y \<Longrightarrow> \<not> precedes stamp key y x"
  by (auto simp: precedes_def)

text \<open>What precedes an element of a descending list is what follows it there.\<close>

lemma filter_precedes:
  assumes "sorted_wrt (\<lambda>x y. precedes stamp key y x) (A @ x # B)"
  shows "filter (\<lambda>r. precedes stamp key r x) (A @ x # B) = B"
proof -
  have "\<not> precedes stamp key r x" if "r \<in> set A" for r
    using assms that precedes_asym by (fastforce simp: sorted_wrt_append)
  moreover have "precedes stamp key r x" if "r \<in> set B" for r
    using assms that by (auto simp: sorted_wrt_append)
  ultimately show ?thesis
    by (simp add: filter_empty_conv precedes_asym [of stamp key x x] precedes_def)
qed

section \<open>The interface\<close>

locale keyset =
  fixes ok :: "'s \<Rightarrow> bool" and listed :: "'s \<Rightarrow> 'a list" and mark :: "'s \<Rightarrow> 'a \<Rightarrow> string"
    and shown :: "'s \<Rightarrow> 'a list \<Rightarrow> 'p" and page :: "'s \<Rightarrow> nat \<Rightarrow> string option \<Rightarrow> 'e + 'p \<times> string option"
    and allowed_limit :: "nat \<Rightarrow> bool"
  assumes limit_positive: "allowed_limit limit \<Longrightarrow> 0 < limit"
    and page_at: "ok s \<Longrightarrow> allowed_limit limit \<Longrightarrow> listed s = A @ B \<Longrightarrow>
      page s limit (place (mark s) A) =
        Inr (shown s (take limit B), if limit < length B then place (mark s) (A @ take limit B) else None)"
begin

lemma follow_from:
  assumes "ok s" and "allowed_limit limit" and "listed s = A @ B"
  shows "\<exists>chunks. follow (page s limit) (place (mark s) A) = Some (Inr (map (shown s) chunks)) \<and> concat chunks = B \<and> chunks \<noteq> []
    \<and> (\<forall>p \<in> set (butlast chunks). length p = limit) \<and> length (List.last chunks) \<le> limit"
  using assms(3)
proof (induction "length B" arbitrary: A B rule: less_induct)
  case less
  note at = page_at [OF assms(1,2) less.prems]
  show ?case
  proof (cases "limit < length B")
    case False
    with at have "follow (page s limit) (place (mark s) A) = Some (Inr [shown s B])"
      by (subst follow.simps) simp
    with False show ?thesis
      by (intro exI [of _ "[B]"]) simp
  next
    case True
    have split: "listed s = (A @ take limit B) @ drop limit B"
      using less.prems by simp
    have "length (drop limit B) < length B"
      using limit_positive [OF assms(2)] True by simp
    from less.hyps [OF this split] obtain chunks where
      rest: "follow (page s limit) (place (mark s) (A @ take limit B)) = Some (Inr (map (shown s) chunks))" "concat chunks = drop limit B"
        "\<forall>p \<in> set (butlast chunks). length p = limit" "length (List.last chunks) \<le> limit"
      by blast
    obtain c where c: "place (mark s) (A @ take limit B) = Some c"
      using True limit_positive [OF assms(2)] by (cases B) (auto simp: place_def)
    from True at have "follow (page s limit) (place (mark s) A) = Some (Inr (map (shown s) (take limit B # chunks)))"
      by (subst follow.simps) (simp add: c rest(1) [unfolded c])
    moreover have "chunks \<noteq> []"
      using rest(2) True by auto
    ultimately show ?thesis
      using rest(2-4) True by (intro exI [of _ "take limit B # chunks"]) auto
  qed
qed

lemma follow_reads_all:
  assumes "ok s" and "allowed_limit limit"
  obtains chunks where "follow (page s limit) None = Some (Inr (map (shown s) chunks))" and "concat chunks = listed s" and "chunks \<noteq> []"
    and "\<forall>p \<in> set (butlast chunks). length p = limit" and "length (List.last chunks) \<le> limit"
  using follow_from [OF assms append_Nil [symmetric]] by auto

end

end
