(* ===== verification/Scheduled_Pages.thy ===== *)
theory Scheduled_Pages
  imports Scheduled Keyset
begin

text \<open>
  Listing by cursor. A client that follows \<open>nextCursor\<close> until it is null reads the whole list: the walk
  ends, and its pages put together are the matching rows, newest first, each once. \<open>below\<close> is the
  order of the keyset, the position of a cursor in it.
\<close>

section \<open>The order of the keyset\<close>

definition below :: "scheduled_task \<Rightarrow> scheduled_task \<Rightarrow> bool" where
  "below = precedes st_created_at st_id"

definition cursor_at :: "scheduled_task \<Rightarrow> ScheduledChatCursor" where
  "cursor_at r = \<lparr>cur_created_at = st_created_at r, cur_id = st_id r\<rparr>"

lemma before_cursor_at: "before_cursor (Some (cursor_at x)) r \<longleftrightarrow> below r x"
  by (simp add: before_cursor_def cursor_at_def below_def precedes_def)

lemma newest_first_descending: "newest_first = descending st_created_at st_id"
  by (simp add: newest_first_def descending_def fun_eq_iff)

lemma newest_first_filter: "newest_first (filter P rs) = filter P (newest_first rs)"
  by (simp add: newest_first_descending descending_filter)

lemma newest_first_sorted: "distinct (map st_id rs) \<Longrightarrow> sorted_wrt (\<lambda>x y. below y x) (newest_first rs)"
  unfolding newest_first_descending below_def by (rule descending_sorted)

lemma filter_below: "sorted_wrt (\<lambda>x y. below y x) (A @ x # B) \<Longrightarrow> filter (\<lambda>r. below r x) (A @ x # B) = B"
  unfolding below_def by (rule filter_precedes)

lemma set_newest_first [simp]: "set (newest_first rs) = set rs" and distinct_newest_first [simp]: "distinct (newest_first rs) = distinct rs"
  by (simp_all add: newest_first_descending)

section \<open>Following the cursors\<close>

definition listed :: "uuid \<Rightarrow> string option \<Rightarrow> sched_db \<Rightarrow> scheduled_task list" where
  "listed u status s = newest_first (filter (\<lambda>r. st_user r = u \<and> (case status of None \<Rightarrow> True | Some x \<Rightarrow> st_status r = x)) (tasks s))"

lemma list_for_user_filter:
  "list_for_user u status cursor n s = take n (filter (before_cursor cursor) (listed u status s))"
  unfolding list_for_user_def listed_def newest_first_filter[symmetric] by (simp add: conj_ac)

lemma all_responses_ok: "(\<And>r. r \<in> set rs \<Longrightarrow> task_ok r) \<Longrightarrow> all_responses rs = Inr rs"
  by (induction rs) (simp_all add: to_response_ok)

lemma listed_ok: "sched_ok s \<Longrightarrow> r \<in> set (listed u status s) \<Longrightarrow> task_ok r \<and> r \<in> set (tasks s)"
  using sched_okD(2) by (auto simp: listed_def)

lemma listed_sorted: "sched_ok s \<Longrightarrow> sorted_wrt (\<lambda>x y. below y x) (listed u status s)"
  unfolding listed_def using sched_okD(1) by (intro newest_first_sorted) (simp add: distinct_map_filter)

abbreviation position :: "(instant \<Rightarrow> string) \<Rightarrow> scheduled_task list \<Rightarrow> string option" where
  "position iso_text \<equiv> place (\<lambda>r. cursor_encode iso_text (cursor_at r))"

lemma page_at:
  assumes "sched_ok s" and "null_or_in VALID_STATUSES status" and "listed u status s = A @ B" and "0 < limit"
    and "\<And>r. r \<in> set A \<Longrightarrow> iso_ok iso_text from_iso (st_created_at r)"
  shows "list_tasks iso_text from_iso wide u status (position iso_text A) limit s
    = Inr (take limit B, if limit < length B then position iso_text (A @ take limit B) else None)"
proof -
  let ?c = "if A = [] then None else Some (cursor_at (last A))"
  have "decode_cursor from_iso wide (position iso_text A) = Inr ?c"
    using assms(5) by (simp add: decode_cursor_def place_def cursor_decode_encode cursor_at_def)
  moreover have "filter (before_cursor ?c) (listed u status s) = B"
  proof (cases A rule: rev_cases)
    case Nil
    then show ?thesis using assms(3) by (simp add: before_cursor_def)
  next
    case (snoc A' x)
    then have split: "listed u status s = A' @ x # B" using assms(3) by simp
    have "filter (\<lambda>r. below r x) (A' @ x # B) = B"
      using listed_sorted[OF assms(1), of u status] unfolding split by (rule filter_below)
    with split show ?thesis by (simp add: snoc before_cursor_at[abs_def])
  qed
  then have rows: "list_for_user u status ?c (limit + 1) s = take (limit + 1) B" by (simp only: list_for_user_filter)
  have items: "all_responses (take n B) = Inr (take n B)" for n
    using listed_ok[OF assms(1), of _ u status] assms(3) by (intro all_responses_ok) (auto dest: in_set_takeD)
  have last_row: "last (A @ take limit B) = take (limit + 1) B ! (limit - 1)" if "limit < length B"
  proof -
    have ne: "take limit B \<noteq> []" and len: "length (take limit B) = limit" using that assms(4) by auto
    have "last (A @ take limit B) = last (take limit B)" using ne by (rule last_appendR)
    also have "\<dots> = take limit B ! (limit - 1)" unfolding last_conv_nth[OF ne] len ..
    finally show ?thesis using assms(4) by simp
  qed
  have "status = None \<or> null_or_in VALID_STATUSES status" using assms(2) by simp
  ultimately show ?thesis
    using assms(2,4) items rows last_row[symmetric]
    by (auto simp: list_tasks_def Let_def place_def cursor_at_def min_def)
qed

text \<open>The rows whose timestamps \<open>iso_text\<close> renders, as the keyset wants them.\<close>

definition readable :: "(instant \<Rightarrow> string) \<Rightarrow> iso_reader \<Rightarrow> uuid \<Rightarrow> string option \<Rightarrow> sched_db \<Rightarrow> bool" where
  "readable iso_text from_iso u status s \<longleftrightarrow> sched_ok s \<and> null_or_in VALID_STATUSES status
     \<and> (\<forall>r \<in> set (listed u status s). iso_ok iso_text from_iso (st_created_at r))"

interpretation tasks: keyset "readable iso_text from_iso u status" "listed u status" "\<lambda>_ r. cursor_encode iso_text (cursor_at r)"
    "\<lambda>_ rows. rows" "\<lambda>s limit c. list_tasks iso_text from_iso wide u status c limit s" "\<lambda>limit. 0 < limit"
  for iso_text from_iso wide u status
proof unfold_locales
  fix s and limit :: nat and A B
  assume "readable iso_text from_iso u status s" and "0 < limit" and "listed u status s = A @ B"
  then show "list_tasks iso_text from_iso wide u status (position iso_text A) limit s =
      Inr (take limit B, if limit < length B then position iso_text (A @ take limit B) else None)"
    by (intro page_at) (auto simp: readable_def)
qed simp

text \<open>
  Paging through \<open>GET /v1/scheduled-chats\<close> terminates and is complete: whatever the page size, a client that
  follows \<open>nextCursor\<close> until it is null receives finitely many pages; all but the last are full, and put
  together they are exactly the user's rows with the status asked for, newest first, each row once.
\<close>

theorem paging_complete:
  assumes "sched_ok s" and "null_or_in VALID_STATUSES status" and "0 < limit"
    and "\<forall>r \<in> set (tasks s). iso_ok iso_text from_iso (st_created_at r)"
  shows "\<exists>pages. follow (\<lambda>c. list_tasks iso_text from_iso wide u status c limit s) None = Some (Inr pages)
    \<and> set (concat pages) = {r \<in> set (tasks s). st_user r = u \<and> (case status of None \<Rightarrow> True | Some x \<Rightarrow> st_status r = x)}
    \<and> distinct (concat pages) \<and> sorted_wrt (\<lambda>x y. below y x) (concat pages)
    \<and> (\<forall>p \<in> set (butlast pages). length p = limit) \<and> length (last pages) \<le> limit"
proof -
  have "readable iso_text from_iso u status s"
    using assms(1,2,4) listed_ok by (auto simp: readable_def)
  from tasks.follow_reads_all [OF this assms(3), of wide] obtain pages where
    pages: "follow (\<lambda>c. list_tasks iso_text from_iso wide u status c limit s) None = Some (Inr pages)"
    "concat pages = listed u status s" "\<forall>p \<in> set (butlast pages). length p = limit" "length (last pages) \<le> limit"
    unfolding list.map_ident by blast
  have "distinct (tasks s)" using sched_okD(1)[OF assms(1)] by (simp add: distinct_map)
  then have "distinct (concat pages)" by (simp add: pages(2) listed_def)
  moreover have "set (concat pages) = {r \<in> set (tasks s). st_user r = u \<and> (case status of None \<Rightarrow> True | Some x \<Rightarrow> st_status r = x)}"
    unfolding pages(2) listed_def by simp
  ultimately show ?thesis
    using pages(1,3,4) listed_sorted[OF assms(1), of u status] unfolding pages(2)[symmetric] by (intro exI[of _ pages] conjI)
qed

text \<open>Two tasks of one user, one second apart.\<close>

definition demo_task :: "uuid \<Rightarrow> instant \<Rightarrow> scheduled_task" where
  "demo_task i t = \<lparr>st_id = i, st_user = 1, st_session = None, st_prompt = ''hi'', st_mode = ''credits'', st_assistant_mode = None,
     st_model = None, st_generation_mode = None, st_run_at = t, st_status = ''scheduled'', st_claimed_at = None, st_started_at = None,
     st_finished_at = None, st_result_session = None, st_result_step = None, st_error_code = None, st_error_message = None,
     st_push_sent_at = None, st_created_at = t, st_updated_at = t\<rparr>"

definition demo_sched_db :: "scheduled_task list \<Rightarrow> sched_db" where
  "demo_sched_db rs = db.extend (empty_db\<lparr>users := [1 \<mapsto> False]\<rparr>) \<lparr>chats = Map.empty, tasks = rs\<rparr>"

lemma demo_sched_db_fields [simp]:
  "tasks (demo_sched_db rs) = rs" "users (demo_sched_db rs) = [1 \<mapsto> False]" "chats (demo_sched_db rs) = Map.empty"
  by (simp_all add: demo_sched_db_def db.defs empty_db_def)

lemma demo_task_ok: "task_ok (demo_task i t)"
  by (simp add: task_ok_def row_checks_def response_valid_def stage_ok_def null_or_in_def demo_task_def status_lists)

lemma demo_sched_ok: "sched_ok (demo_sched_db [demo_task 1 0, demo_task 2 1000000])"
  using demo_task_ok by (simp add: sched_ok_def demo_task_def)

theorem paging_complete_witness:
  "\<exists>pages. follow (\<lambda>c. list_tasks demo_iso demo_from_iso (\<lambda>_. None) 1 None c 1 (demo_sched_db [demo_task 1 0, demo_task 2 1000000])) None
     = Some (Inr pages) \<and> set (concat pages) = {demo_task 1 0, demo_task 2 1000000}"
proof -
  let ?s = "demo_sched_db [demo_task 1 0, demo_task 2 1000000]"
  have "\<forall>r \<in> set (tasks ?s). iso_ok demo_iso demo_from_iso (st_created_at r)"
    using demo_iso_ok by (simp add: demo_task_def)
  note at = paging_complete[OF demo_sched_ok _ _ this, of None 1 "\<lambda>_. None" 1]
  have mine: "{r \<in> set (tasks ?s). st_user r = 1 \<and> (case (None :: string option) of None \<Rightarrow> True | Some x \<Rightarrow> st_status r = x)} = {demo_task 1 0, demo_task 2 1000000}"
    by (auto simp: demo_task_def)
  from at[unfolded mine] show ?thesis by (fastforce simp: null_or_in_def)
qed

end
