(* ===== verification/Scheduled_Worker.thy ===== *)
theory Scheduled_Worker
  imports Scheduled_Pages
begin

text \<open>
  The worker of the scheduled chats (\<open>scheduled_chats/worker.py\<close>) with the queries it uses and the claim of a
  notification (\<open>notifications/push_service.py\<close>). \<open>run\<close>, the chat orchestrator, is an argument: it takes the
  request and the state and returns a \<open>ChatRunOut\<close> or an exception. So is \<open>reread\<close>, what the ORM session
  answers when \<open>mark_terminal\<close> selects a row it already holds. The last section interleaves workers and
  API requests at the granularity of transactions.
\<close>

section \<open>Queries of the worker\<close>

definition claim_ids :: "uuid set \<Rightarrow> instant \<Rightarrow> nat \<Rightarrow> sched_db \<Rightarrow> uuid list" where
  "claim_ids locked now batch s =
     map st_id (take batch (sort_key st_run_at
       (filter (\<lambda>r. st_status r = ''scheduled'' \<and> st_run_at r \<le> now \<and> st_id r \<notin> locked) (tasks s))))"

definition claimed :: "instant \<Rightarrow> scheduled_task \<Rightarrow> scheduled_task" where
  "claimed now r = r\<lparr>st_status := ''running'', st_claimed_at := Some now, st_started_at := Some now, st_updated_at := now\<rparr>"

text \<open>\<open>FOR UPDATE SKIP LOCKED\<close> passes over the rows \<open>locked\<close> by other transactions.\<close>

definition claim_due :: "uuid set \<Rightarrow> instant \<Rightarrow> nat \<Rightarrow> sched_db \<Rightarrow> scheduled_task list \<times> sched_db" where
  "claim_due locked now batch s =
     (let ids = claim_ids locked now batch s in
      if ids = [] then ([], s)
      else let t = s\<lparr>tasks := map (\<lambda>r. if st_id r \<in> set ids \<and> st_status r = ''scheduled'' then claimed now r else r) (tasks s)\<rparr>
           in (filter (\<lambda>r. st_id r \<in> set ids \<and> st_status r = ''running'') (tasks t), t))"

definition is_stuck :: "instant \<Rightarrow> scheduled_task \<Rightarrow> bool" where
  "is_stuck cutoff r = (st_status r = ''running''
     \<and> (case opt_or (st_started_at r) (st_claimed_at r) of None \<Rightarrow> False | Some t \<Rightarrow> t < cutoff))"

definition interrupted :: "instant \<Rightarrow> scheduled_task \<Rightarrow> scheduled_task" where
  "interrupted now r = r\<lparr>st_status := ''failed'', st_error_code := Some ''worker_interrupted'',
     st_error_message := Some ''worker interrupted before completion'', st_finished_at := Some now, st_updated_at := now\<rparr>"

definition recover_stuck_running :: "instant \<Rightarrow> instant \<Rightarrow> sched_db \<Rightarrow> scheduled_task list \<times> sched_db" where
  "recover_stuck_running cutoff now s =
     (map (interrupted now) (filter (is_stuck cutoff) (tasks s)),
      s\<lparr>tasks := map (\<lambda>r. if is_stuck cutoff r then interrupted now r else r) (tasks s)\<rparr>)"

record terminal_fields =
  tf_status :: string
  tf_session :: "uuid option"
  tf_step :: "uuid option"
  tf_code :: "string option"
  tf_message :: "string option"

definition finished :: "terminal_fields \<Rightarrow> instant \<Rightarrow> scheduled_task \<Rightarrow> scheduled_task" where
  "finished f now r = r\<lparr>st_status := tf_status f, st_finished_at := Some now, st_updated_at := now,
     st_result_session := tf_session f, st_result_step := tf_step f, st_error_code := tf_code f,
     st_error_message := (case tf_message f of None \<Rightarrow> None | Some m \<Rightarrow> if m = [] then None else Some (take 500 m))\<rparr>"

definition set_terminal :: "terminal_fields \<Rightarrow> instant \<Rightarrow> uuid \<Rightarrow> sched_db \<Rightarrow> sched_db" where
  "set_terminal f now i s = update_task i (\<lambda>r. if st_status r = ''running'' then finished f now r else r) s"

type_synonym reader = "uuid \<Rightarrow> sched_db \<Rightarrow> scheduled_task option"

definition mark_terminal :: "reader \<Rightarrow> terminal_fields \<Rightarrow> instant \<Rightarrow> uuid \<Rightarrow> sched_db \<Rightarrow> scheduled_task option \<times> sched_db" where
  "mark_terminal reread f now i s =
     (let t = set_terminal f now i s in
      (case reread i t of None \<Rightarrow> None | Some r \<Rightarrow> if st_status r \<noteq> tf_status f then None else Some r, t))"

section \<open>Notifications\<close>

record scheduled_push =
  sp_task :: uuid
  sp_status :: string
  sp_session :: "uuid option"
  sp_step :: "uuid option"
  sp_code :: "string option"
  sp_token :: string

text \<open>What the notification reads elsewhere: preferences, device tokens, the APNs configuration.\<close>

record push_env =
  pe_enabled :: "uuid \<Rightarrow> bool"
  pe_tokens :: "uuid \<Rightarrow> string list"
  pe_configured :: bool

definition claim_push_sent :: "instant \<Rightarrow> uuid \<Rightarrow> sched_db \<Rightarrow> bool \<times> sched_db" where
  "claim_push_sent now i s =
     (case find_task i s of
        None \<Rightarrow> (False, s)
      | Some r \<Rightarrow>
          if (st_status r = ''completed'' \<or> st_status r = ''failed'') \<and> st_push_sent_at r = None
          then (True, update_task i (\<lambda>r. r\<lparr>st_push_sent_at := Some now, st_updated_at := now\<rparr>) s)
          else (False, s))"

text \<open>\<open>_snapshot\<close>, \<open>_push_snapshot\<close> and \<open>notify_scheduled_chat_ready\<close>: the pushes handed to APNs.\<close>

definition notify :: "push_env \<Rightarrow> instant \<Rightarrow> scheduled_task \<Rightarrow> sched_db \<Rightarrow> scheduled_push list \<times> sched_db" where
  "notify env now r s =
     (case claim_push_sent now (st_id r) s of
        (False, t) \<Rightarrow> ([], t)
      | (True, t) \<Rightarrow>
          (if pe_enabled env (st_user r) \<and> pe_configured env
           then map (\<lambda>token. \<lparr>sp_task = st_id r,
               sp_status = (if st_status r = ''completed'' \<or> st_status r = ''failed'' then st_status r else ''failed''),
               sp_session = opt_or (st_result_session r) (st_session r), sp_step = st_result_step r,
               sp_code = st_error_code r, sp_token = token\<rparr>) (pe_tokens env (st_user r))
           else [], t))"

section \<open>One task\<close>

record ChatRunOut =
  co_status :: string
  co_session :: uuid
  co_block_reason :: "string option"
  co_message_step :: "uuid option"

record run_request =
  rq_user :: uuid
  rq_session :: "uuid option"
  rq_message :: string
  rq_mode :: string
  rq_assistant_mode :: "string option"
  rq_model :: "string option"
  rq_generation_mode :: string
  rq_resume_only :: bool

definition map_run_outcome :: "ChatRunOut \<Rightarrow> string \<times> string option \<times> string option" where
  "map_run_outcome out =
     (if co_status out = ''assistant_message'' then (''completed'', None, None)
      else if co_status out = ''tool_call''
      then (''failed'', Some ''tool_loop_unsupported'', Some ''client-side tool loop is not supported'')
      else if co_status out = ''blocked''
      then let reason = (if or_default (co_block_reason out) [] \<noteq> [] then or_default (co_block_reason out) [] else ''blocked'') in
           if reason = ''max_tokens'' then (''failed'', Some ''max_tokens'', Some ''response truncated at max tokens'')
           else (''failed'', Some reason, Some reason)
      else (''failed'', Some ''upstream_error'', Some (''unexpected chat status: '' @ co_status out)))"

definition worker_generation_mode :: "string option \<Rightarrow> string" where
  "worker_generation_mode raw =
     (if or_default raw [] \<in> set GENERATION_MODE_ORDER then or_default raw [] else ''general'')"

definition request_of :: "scheduled_task \<Rightarrow> run_request" where
  "request_of r = \<lparr>rq_user = st_user r, rq_session = st_session r, rq_message = st_prompt r, rq_mode = st_mode r,
     rq_assistant_mode = (if st_session r = None then st_assistant_mode r else None),
     rq_model = (if st_session r = None then st_model r else None),
     rq_generation_mode = worker_generation_mode (st_generation_mode r), rq_resume_only = (st_session r \<noteq> None)\<rparr>"

datatype run_start = Not_running | Session_gone | Start run_request

text \<open>\<open>_execute_task\<close> up to the call of the orchestrator.\<close>

definition begin_run :: "uuid \<Rightarrow> sched_db \<Rightarrow> run_start" where
  "begin_run i s =
     (case find_task i s of
        None \<Rightarrow> Not_running
      | Some r \<Rightarrow>
          if st_status r \<noteq> ''running'' then Not_running
          else if (case st_session r of None \<Rightarrow> False | Some sid \<Rightarrow> get_session sid (st_user r) s = None) then Session_gone
          else Start (request_of r))"

definition session_gone_fields :: terminal_fields where
  "session_gone_fields = \<lparr>tf_status = ''failed'', tf_session = None, tf_step = None,
     tf_code = Some ''session_not_found'', tf_message = Some ''planned session no longer exists''\<rparr>"

text \<open>What a result of the orchestrator is recorded as. A fault of the database leaves the transaction aborted,
  so the UPDATE that would record it fails too and the exception leaves \<open>_execute_task\<close>: \<open>None\<close>.\<close>

definition result_fields :: "uuid option \<Rightarrow> exn + ChatRunOut \<Rightarrow> terminal_fields option" where
  "result_fields planned result =
     (case result of
        Inr out \<Rightarrow>
          (case map_run_outcome out of (status, err_code, message) \<Rightarrow>
             if planned \<noteq> None \<and> planned \<noteq> Some (co_session out)
             then Some \<lparr>tf_status = ''failed'', tf_session = None, tf_step = None, tf_code = Some ''session_not_found'',
                    tf_message = Some ''planned session was replaced during run''\<rparr>
             else Some \<lparr>tf_status = status, tf_session = Some (co_session out), tf_step = co_message_step out,
                    tf_code = err_code, tf_message = message\<rparr>)
      | Inl (Raised c m) \<Rightarrow> Some \<lparr>tf_status = ''failed'', tf_session = None, tf_step = None, tf_code = Some (Errors.code c), tf_message = Some m\<rparr>
      | Inl (PyFault _) \<Rightarrow> Some \<lparr>tf_status = ''failed'', tf_session = None, tf_step = None, tf_code = Some ''upstream_error'',
             tf_message = Some ''unexpected error during scheduled chat run''\<rparr>
      | Inl (DbFault _) \<Rightarrow> None)"

text \<open>The clock of a poll: when it recovers and claims, and when a task starts, ends and is notified.\<close>

record poll_clock =
  recover_at :: instant
  claim_at :: instant
  start_at :: "uuid \<Rightarrow> instant"
  done_at :: "uuid \<Rightarrow> instant"
  push_at :: "uuid \<Rightarrow> instant"

definition notify_marked ::
  "push_env \<Rightarrow> poll_clock \<Rightarrow> scheduled_task option \<times> sched_db \<Rightarrow> scheduled_push list \<times> sched_db" where
  "notify_marked env clk marked =
     (case marked of (None, s) \<Rightarrow> ([], s) | (Some r, s) \<Rightarrow> notify env (push_at clk (st_id r)) r s)"

type_synonym orchestrator = "run_request \<Rightarrow> sched_db \<Rightarrow> (exn, ChatRunOut, sched_db) outcome"

definition execute_task ::
  "orchestrator \<Rightarrow> reader \<Rightarrow> push_env \<Rightarrow> poll_clock \<Rightarrow> uuid \<Rightarrow> sched_db \<Rightarrow> scheduled_push list \<times> sched_db" where
  "execute_task run reread env clk i s =
     (case begin_run i s of
        Not_running \<Rightarrow> ([], s)
      | Session_gone \<Rightarrow> notify_marked env clk (mark_terminal reread session_gone_fields (start_at clk i) i s)
      | Start rq \<Rightarrow>
          (case run rq s of (result, s) \<Rightarrow>
             (case result_fields (rq_session rq) result of
                None \<Rightarrow> ([], s)
              | Some f \<Rightarrow> notify_marked env clk (mark_terminal reread f (done_at clk i) i s))))"

section \<open>One poll\<close>

fun each :: "('a \<Rightarrow> sched_db \<Rightarrow> scheduled_push list \<times> sched_db) \<Rightarrow> 'a list \<Rightarrow> sched_db \<Rightarrow> scheduled_push list \<times> sched_db" where
  "each f [] s = ([], s)"
| "each f (x # xs) s = (case f x s of (ps, s) \<Rightarrow> (case each f xs s of (qs, s) \<Rightarrow> (ps @ qs, s)))"

definition poll_once ::
  "sched_settings \<Rightarrow> orchestrator \<Rightarrow> reader \<Rightarrow> push_env \<Rightarrow> poll_clock \<Rightarrow> uuid set \<Rightarrow> sched_db \<Rightarrow> nat \<times> scheduled_push list \<times> sched_db" where
  "poll_once cfg run reread env clk locked s =
     (let batch = max 1 (batch_size cfg); ttl = max 1 (running_ttl_seconds cfg) in
      case recover_stuck_running (recover_at clk - seconds ttl) (recover_at clk) s of (recovered, s) \<Rightarrow>
      (case each (\<lambda>r. notify env (push_at clk (st_id r)) r) recovered s of (ps, s) \<Rightarrow>
      (case claim_due locked (claim_at clk) (nat batch) s of (rows, s) \<Rightarrow>
      (case each (execute_task run reread env clk) (map st_id rows) s of (qs, s) \<Rightarrow>
      (length rows, ps @ qs, s)))))"

end
