(* ===== verification/Scheduled_Lifecycle.thy ===== *)
theory Scheduled_Lifecycle
  imports Scheduled_Worker
begin

text \<open>
  What the scheduled chats guarantee over time. \<open>world_step\<close> interleaves any number of workers with API requests
  whose SELECT and flush are separate steps. The sets \<open>waiting\<close>, \<open>unnotified\<close> and \<open>known\<close> of task identifiers never grow but by a creation, which is
  why no task runs or is notified twice.
\<close>

section \<open>Sets that only shrink\<close>

definition known :: "sched_db \<Rightarrow> uuid set" where
  "known s = st_id ` set (tasks s)"

definition waiting :: "sched_db \<Rightarrow> uuid set" where
  "waiting s = st_id ` {r \<in> set (tasks s). st_status r = ''scheduled''}"

definition unnotified :: "sched_db \<Rightarrow> uuid set" where
  "unnotified s = st_id ` {r \<in> set (tasks s). st_push_sent_at r = None}"

definition quiet :: "sched_db \<Rightarrow> sched_db \<Rightarrow> bool" where
  "quiet s t \<longleftrightarrow> known t \<subseteq> known s \<and> waiting t \<subseteq> waiting s \<and> unnotified t \<subseteq> unnotified s
     \<and> (distinct (map st_id (tasks s)) \<longrightarrow> distinct (map st_id (tasks t)))"

lemma quiet_refl [simp]: "quiet s s"
  by (simp add: quiet_def)

lemma quiet_trans: "quiet s t \<Longrightarrow> quiet t v \<Longrightarrow> quiet s v"
  unfolding quiet_def by blast

text \<open>A change of a row that keeps its identifier, and cannot make it waiting or unnotified.\<close>

definition quiet_change :: "(scheduled_task \<Rightarrow> scheduled_task) \<Rightarrow> bool" where
  "quiet_change f \<longleftrightarrow> (\<forall>r. st_id (f r) = st_id r \<and> (st_status (f r) = ''scheduled'' \<longrightarrow> st_status r = ''scheduled'')
     \<and> (st_push_sent_at (f r) = None \<longrightarrow> st_push_sent_at r = None))"

lemma quiet_map:
  assumes "quiet_change f" and "tasks t = map (\<lambda>r. if p r then f r else r) (tasks s)"
  shows "quiet s t"
proof -
  have "map st_id (tasks t) = map st_id (tasks s)" using assms by (simp add: quiet_change_def)
  then have "distinct (map st_id (tasks s)) \<longrightarrow> distinct (map st_id (tasks t))" by (simp only: simp_thms)
  moreover have "known t \<subseteq> known s \<and> waiting t \<subseteq> waiting s \<and> unnotified t \<subseteq> unnotified s"
    using assms unfolding known_def waiting_def unnotified_def quiet_change_def by (auto simp: image_iff split: if_splits)
  ultimately show ?thesis unfolding quiet_def by blast
qed

lemma quiet_update: "quiet_change f \<Longrightarrow> quiet s (update_task i f s)"
  by (rule quiet_map[where f = f and p = "\<lambda>r. st_id r = i"]) (simp_all add: update_task_def)

lemma quiet_changes [simp, intro]:
  "quiet_change (apply_changes old new)" "quiet_change (cancelled now)" "quiet_change (claimed now)"
  "quiet_change (interrupted now)" "quiet_change (\<lambda>r. r\<lparr>st_push_sent_at := Some now, st_updated_at := now\<rparr>)"
  by (simp_all add: quiet_change_def apply_changes_def cancelled_def claimed_def interrupted_def)

lemma quiet_change_finished: "tf_status f \<noteq> ''scheduled'' \<Longrightarrow> quiet_change (finished f now)"
  by (simp add: quiet_change_def finished_def)

lemma quiet_delete_row: "quiet s (delete_row i s)"
  unfolding quiet_def known_def waiting_def unnotified_def delete_row_def by (auto simp: distinct_map_filter)

lemma patch_with_quiet: "quiet s (snd (patch_with cfg v now u b row s))"
  by (auto simp: patch_with_def quiet_update split: option.split sum.split)

lemma scope_quiet: "quiet s (snd (f s)) \<Longrightarrow> quiet s (snd (session_scope f s))"
  by (simp add: session_scope_def split: sum.split)

lemma delete_with_quiet: "quiet s (snd (delete_with now row s))"
  by (auto simp: delete_with_def quiet_update quiet_delete_row split: option.split)

lemma recover_quiet: "quiet s (snd (recover_stuck_running cutoff now s))"
  by (rule quiet_map[where f = "interrupted now" and p = "is_stuck cutoff"]) (auto simp: recover_stuck_running_def)

lemma set_terminal_quiet:
  assumes "tf_status f \<noteq> ''scheduled''"
  shows "quiet s (set_terminal f now i s)"
  using quiet_change_finished[OF assms]
  by (intro quiet_map[where f = "finished f now" and p = "\<lambda>r. st_id r = i \<and> st_status r = ''running''"])
    (auto simp: set_terminal_def update_task_def)

lemma claim_push_quiet: "quiet s (snd (claim_push_sent now i s))"
  by (auto simp: claim_push_sent_def quiet_update split: option.split)

lemma claim_due_quiet: "quiet s (snd (claim_due locked now n s))"
  by (rule quiet_map[where f = "claimed now" and p = "\<lambda>r. st_id r \<in> set (claim_ids locked now n s) \<and> st_status r = ''scheduled''"])
    (auto simp: claim_due_def Let_def cong: map_cong if_cong)

lemma result_fields_status:
  assumes "result_fields planned result = Some f"
  shows "tf_status f = ''completed'' \<or> tf_status f = ''failed''"
  using assms by (auto simp: result_fields_def map_run_outcome_def Let_def split: sum.splits exn.splits if_splits)


lemma claim_ids_facts:
  assumes "distinct (map st_id (tasks s))"
  shows "set (claim_ids locked now n s) \<subseteq> waiting s" and "distinct (claim_ids locked now n s)"
  using assms unfolding claim_ids_def waiting_def
  by (auto dest!: in_set_takeD simp: distinct_map inj_on_def)

lemma same_row: "distinct (map st_id (tasks s)) \<Longrightarrow> r \<in> set (tasks s) \<Longrightarrow> r' \<in> set (tasks s) \<Longrightarrow> st_id r = st_id r' \<Longrightarrow> r = r'"
  by (auto simp: distinct_map inj_on_def)

lemma claim_due_tasks:
  "tasks (snd (claim_due locked now n s))
    = map (\<lambda>r. if st_id r \<in> set (claim_ids locked now n s) \<and> st_status r = ''scheduled'' then claimed now r else r) (tasks s)"
  by (auto simp: claim_due_def Let_def cong: map_cong if_cong)

lemma claim_due_rows:
  assumes "distinct (map st_id (tasks s))"
  shows "fst (claim_due locked now n s) = map (claimed now) (filter (\<lambda>r. st_id r \<in> set (claim_ids locked now n s)) (tasks s))"
proof -
  let ?ids = "set (claim_ids locked now n s)"
  have waits: "st_status r = ''scheduled''" if "r \<in> set (tasks s)" "st_id r \<in> ?ids" for r
    using claim_ids_facts(1)[OF assms] that same_row[OF assms] unfolding waiting_def by blast
  have "filter (\<lambda>r. st_id r \<in> ?ids \<and> st_status r = ''running'') (map (\<lambda>r. if st_id r \<in> ?ids \<and> st_status r = ''scheduled'' then claimed now r else r) rs)
    = map (claimed now) (filter (\<lambda>r. st_id r \<in> ?ids) rs)" if "set rs \<subseteq> set (tasks s)" for rs
    using that by (induction rs) (auto simp: claimed_def waits)
  from this[of "tasks s"] show ?thesis by (cases "claim_ids locked now n s") (simp_all add: claim_due_def Let_def)
qed

lemma claim_due_ids:
  assumes "distinct (map st_id (tasks s))"
    and ids_def: "ids = map st_id (fst (claim_due locked now n s))"
  shows "distinct ids" and "set ids = set (claim_ids locked now n s)" and "set ids \<subseteq> waiting s"
    and "set ids \<inter> waiting (snd (claim_due locked now n s)) = {}"
proof -
  let ?ids = "set (claim_ids locked now n s)"
  have ids: "ids = map st_id (filter (\<lambda>r. st_id r \<in> ?ids) (tasks s))"
    unfolding ids_def claim_due_rows[OF assms(1)] by (simp add: claimed_def)
  show "distinct ids" unfolding ids using assms(1) by (simp add: distinct_map_filter)
  show set_ids: "set ids = ?ids" using claim_ids_facts(1)[OF assms(1)] unfolding ids waiting_def by fastforce
  show "set ids \<subseteq> waiting s" unfolding set_ids by (rule claim_ids_facts) fact
  show "set ids \<inter> waiting (snd (claim_due locked now n s)) = {}"
    unfolding set_ids waiting_def claim_due_tasks by (auto simp: claimed_def split: if_splits)
qed

section \<open>Interleaved workers and requests\<close>

text \<open>Beside the database: what each worker has claimed and not started, the task it is running, the runs of the
  orchestrator and the notifications so far, the identifiers ever drawn, the rows that open requests have read.\<close>

record world =
  w_db :: sched_db
  w_pending :: "nat \<Rightarrow> uuid list"
  w_flight :: "nat \<Rightarrow> uuid option"
  w_runs :: "uuid list"
  w_notified :: "uuid list"
  w_used :: "uuid set"
  w_reads :: "scheduled_task set"

inductive world_step :: "sched_settings \<Rightarrow> world \<Rightarrow> world \<Rightarrow> bool" for cfg where
  Create: "create_task cfg i v now u body (w_db w) = (Inr r, t) \<Longrightarrow> i \<notin> w_used w
    \<Longrightarrow> world_step cfg w (w\<lparr>w_db := t, w_used := insert i (w_used w)\<rparr>)"
| Read: "r \<in> set (tasks (w_db w)) \<Longrightarrow> world_step cfg w (w\<lparr>w_reads := insert r (w_reads w)\<rparr>)"
| Patch: "r \<in> w_reads w \<Longrightarrow> world_step cfg w (w\<lparr>w_db := snd (session_scope (patch_with cfg v now u b (Some r)) (w_db w))\<rparr>)"
| Delete: "r \<in> w_reads w \<Longrightarrow> world_step cfg w (w\<lparr>w_db := snd (delete_with now (Some r) (w_db w))\<rparr>)"
| Recover: "world_step cfg w (w\<lparr>w_db := snd (recover_stuck_running cutoff now (w_db w))\<rparr>)"
| Claim: "w_pending w k = [] \<Longrightarrow> w_flight w k = None \<Longrightarrow> claim_due locked now n (w_db w) = (rows, t)
    \<Longrightarrow> world_step cfg w (w\<lparr>w_db := t, w_pending := (w_pending w)(k := map st_id rows)\<rparr>)"
| Skip: "w_pending w k = i # is \<Longrightarrow> w_flight w k = None \<Longrightarrow> begin_run i (w_db w) = Not_running
    \<Longrightarrow> world_step cfg w (w\<lparr>w_pending := (w_pending w)(k := is)\<rparr>)"
| Gone: "w_pending w k = i # is \<Longrightarrow> w_flight w k = None \<Longrightarrow> begin_run i (w_db w) = Session_gone
    \<Longrightarrow> world_step cfg w (w\<lparr>w_db := set_terminal session_gone_fields now i (w_db w), w_pending := (w_pending w)(k := is)\<rparr>)"
| Begin: "w_pending w k = i # is \<Longrightarrow> w_flight w k = None \<Longrightarrow> begin_run i (w_db w) = Start rq
    \<Longrightarrow> world_step cfg w (w\<lparr>w_pending := (w_pending w)(k := is), w_flight := (w_flight w)(k \<mapsto> i), w_runs := w_runs w @ [i]\<rparr>)"
| Finish: "w_flight w k = Some i \<Longrightarrow> result_fields planned result = Some f
    \<Longrightarrow> world_step cfg w (w\<lparr>w_db := set_terminal f now i (w_db w), w_flight := (w_flight w)(k := None)\<rparr>)"
| Crash: "world_step cfg w (w\<lparr>w_pending := (w_pending w)(k := []), w_flight := (w_flight w)(k := None)\<rparr>)"
| Notify: "claim_push_sent now i (w_db w) = (True, t)
    \<Longrightarrow> world_step cfg w (w\<lparr>w_db := t, w_notified := w_notified w @ [i]\<rparr>)"
| Sessions: "world_step cfg w (w\<lparr>w_db := (w_db w)\<lparr>chats := c\<rparr>\<rparr>)"

definition start_world :: "sched_db \<Rightarrow> world" where
  "start_world s = \<lparr>w_db = s, w_pending = (\<lambda>_. []), w_flight = Map.empty, w_runs = [], w_notified = [], w_used = known s, w_reads = {}\<rparr>"

text \<open>What the database allows: identifiers are unique and drawn once, and what was claimed, run or notified is
  not waiting or unnotified any more.\<close>

definition world_ok :: "world \<Rightarrow> bool" where
  "world_ok w \<longleftrightarrow> distinct (map st_id (tasks (w_db w))) \<and> known (w_db w) \<subseteq> w_used w
     \<and> (\<forall>k. distinct (w_pending w k) \<and> set (w_pending w k) \<subseteq> w_used w - waiting (w_db w) \<and> set (w_pending w k) \<inter> set (w_runs w) = {})
     \<and> (\<forall>k l. k \<noteq> l \<longrightarrow> set (w_pending w k) \<inter> set (w_pending w l) = {})
     \<and> distinct (w_runs w) \<and> set (w_runs w) \<subseteq> w_used w - waiting (w_db w)
     \<and> distinct (w_notified w) \<and> set (w_notified w) \<subseteq> w_used w - unnotified (w_db w)"

lemma world_ok_db:
  assumes "world_ok w" and "quiet (w_db w) t"
  shows "world_ok (w\<lparr>w_db := t\<rparr>)"
proof -
  from assms(2) have t: "known t \<subseteq> known (w_db w)" "waiting t \<subseteq> waiting (w_db w)" "unnotified t \<subseteq> unnotified (w_db w)"
    "distinct (map st_id (tasks (w_db w))) \<Longrightarrow> distinct (map st_id (tasks t))"
    by (simp_all add: quiet_def)
  have shrink: "A \<subseteq> U - waiting (w_db w) \<Longrightarrow> A \<subseteq> U - waiting t" "A \<subseteq> U - unnotified (w_db w) \<Longrightarrow> A \<subseteq> U - unnotified t" for A U
    using t(2,3) by blast+
  show ?thesis
    using assms(1) t(4) order_trans[OF t(1)] shrink unfolding world_ok_def by simp
qed

lemma world_ok_drop:
  assumes "world_ok w" and "w_pending w k = i # is"
  shows "world_ok (w\<lparr>w_pending := (w_pending w)(k := is)\<rparr>)"
proof -
  have sub: "set (((w_pending w)(k := is)) l) \<subseteq> set (w_pending w l)" "distinct (w_pending w l) \<Longrightarrow> distinct (((w_pending w)(k := is)) l)" for l
    using assms(2) by auto
  have apart: "set (((w_pending w)(k := is)) l) \<inter> B = {}" if "set (w_pending w l) \<inter> B = {}" for l B
    using sub(1) that by blast
  have apart2: "set (((w_pending w)(k := is)) l) \<inter> set (((w_pending w)(k := is)) m) = {}"
    if "set (w_pending w l) \<inter> set (w_pending w m) = {}" for l m
    using sub(1)[of l] sub(1)[of m] that by blast
  show ?thesis
    using assms(1) sub(2) order_trans[OF sub(1)] apart apart2 unfolding world_ok_def
    by (simp del: fun_upd_apply)
qed

lemma world_ok_flight [simp]: "world_ok (w\<lparr>w_flight := f\<rparr>) = world_ok w" "world_ok (w\<lparr>w_reads := rs\<rparr>) = world_ok w"
  "world_ok (w\<lparr>w_pending := p, w_flight := f, w_runs := r\<rparr>) = world_ok (w\<lparr>w_pending := p, w_runs := r\<rparr>)"
  by (simp_all add: world_ok_def)

lemma world_ok_add:
  assumes "world_ok w" and "i \<notin> w_used w" and "distinct (map st_id (tasks t))"
    and "known t \<subseteq> insert i (known (w_db w))" and "waiting t \<subseteq> insert i (waiting (w_db w))" and "unnotified t \<subseteq> insert i (unnotified (w_db w))"
  shows "world_ok (w\<lparr>w_db := t, w_used := insert i (w_used w)\<rparr>)"
proof -
  have grow: "A \<subseteq> insert i (w_used w) - waiting t" if "A \<subseteq> w_used w - waiting (w_db w)" for A
    using that assms(2,5) by blast
  have grow2: "A \<subseteq> insert i (w_used w) - unnotified t" if "A \<subseteq> w_used w - unnotified (w_db w)" for A
    using that assms(2,6) by blast
  have "known (w_db w) \<subseteq> w_used w \<Longrightarrow> known t \<subseteq> insert i (w_used w)" using assms(4) by blast
  then show ?thesis using assms(1,3) grow grow2 unfolding world_ok_def by simp
qed

lemma world_ok_claim:
  assumes "world_ok (w\<lparr>w_db := t\<rparr>)" and "distinct ids" and "set ids \<subseteq> w_used w - waiting t" and "set ids \<inter> set (w_runs w) = {}"
    and "\<And>l. set ids \<inter> set (w_pending w l) = {}"
  shows "world_ok (w\<lparr>w_db := t, w_pending := (w_pending w)(k := ids)\<rparr>)"
  using assms unfolding world_ok_def by (simp add: Int_commute)

lemma world_ok_begin:
  assumes "world_ok w" and "w_pending w k = i # is"
  shows "world_ok (w\<lparr>w_pending := (w_pending w)(k := is), w_runs := w_runs w @ [i]\<rparr>)"
proof -
  have dropped: "world_ok (w\<lparr>w_pending := (w_pending w)(k := is)\<rparr>)" by (rule world_ok_drop) fact+
  have mine: "distinct (i # is)" "set (i # is) \<subseteq> w_used w - waiting (w_db w)" "set (i # is) \<inter> set (w_runs w) = {}"
    and others: "\<forall>l. l \<noteq> k \<longrightarrow> set (w_pending w l) \<inter> set (i # is) = {}"
    using assms(1) unfolding world_ok_def assms(2)[symmetric] by simp_all
  have "i \<notin> set (((w_pending w)(k := is)) l)" for l
    using mine(1) others by auto
  moreover have "i \<in> w_used w - waiting (w_db w)" "i \<notin> set (w_runs w)" using mine(2,3) by auto
  ultimately show ?thesis using dropped unfolding world_ok_def by (simp del: fun_upd_apply)
qed

lemma world_ok_notify:
  assumes "world_ok (w\<lparr>w_db := t\<rparr>)" and "i \<in> w_used w - unnotified t" and "i \<notin> set (w_notified w)"
  shows "world_ok (w\<lparr>w_db := t, w_notified := w_notified w @ [i]\<rparr>)"
  using assms unfolding world_ok_def by simp

lemma mapped_away:
  assumes "\<And>r. st_id (f r) = st_id r" and "\<And>r. st_id r = i \<Longrightarrow> \<not> p (f r)"
  shows "i \<notin> st_id ` {r \<in> set (tasks (update_task i f s)). p r}"
  using assms unfolding update_task_def by (auto split: if_splits)

lemma claimed_push: "i \<notin> unnotified (update_task i (\<lambda>r. r\<lparr>st_push_sent_at := Some now, st_updated_at := now\<rparr>) s)"
  unfolding unnotified_def by (rule mapped_away) simp_all

lemma world_ok_step:
  assumes "world_step cfg w w'" and "world_ok w"
  shows "world_ok w'"
  using assms
proof (cases rule: world_step.cases)
  case (Create i v now u body r t)
  note made = create_task_returns(1,3)[OF Create(2)]
  from create_row_returns(2)[OF made(1)] made(2) have t: "t = (w_db w)\<lparr>tasks := tasks (w_db w) @ [r]\<rparr>" "st_id r = i" by blast+
  have "distinct (map st_id (tasks (w_db w)))" "known (w_db w) \<subseteq> w_used w" using assms(2) by (simp_all add: world_ok_def)
  with Create(3) have "distinct (map st_id (tasks t))" unfolding t known_def by (auto simp: t(2))
  then show ?thesis unfolding Create(1)
    by (intro world_ok_add[OF assms(2) Create(3)]) (auto simp: t known_def waiting_def unnotified_def)
next
  case (Claim k locked now n rows t)
  let ?ids = "map st_id rows"
  have dist: "distinct (map st_id (tasks (w_db w)))" and used: "known (w_db w) \<subseteq> w_used w"
    and runs: "set (w_runs w) \<subseteq> w_used w - waiting (w_db w)" and pending: "\<And>l. set (w_pending w l) \<subseteq> w_used w - waiting (w_db w)"
    using assms(2) by (simp_all add: world_ok_def)
  note ids = claim_due_ids[OF dist, of ?ids locked now n, unfolded Claim(4) fst_conv snd_conv, OF refl]
  have "waiting (w_db w) \<subseteq> known (w_db w)" unfolding waiting_def known_def by auto
  then have mine: "set ?ids \<subseteq> w_used w - waiting t" using ids(3,4) used by blast
  have apart: "set ?ids \<inter> set (w_runs w) = {}" using ids(3) runs by blast
  have apart2: "set ?ids \<inter> set (w_pending w l) = {}" for l using ids(3) pending[of l] by blast
  have ok: "world_ok (w\<lparr>w_db := t\<rparr>)"
    using claim_due_quiet[of "w_db w" locked now n] unfolding Claim(4) snd_conv by (rule world_ok_db[OF assms(2)])
  show ?thesis unfolding Claim(1) by (rule world_ok_claim[OF ok ids(1) mine apart apart2])
next
  case (Begin k i "is" rq)
  show ?thesis unfolding Begin(1) world_ok_flight by (rule world_ok_begin[OF assms(2) Begin(2)])
next
  case (Notify now i t)
  obtain r where r: "find_task i (w_db w) = Some r" "st_push_sent_at r = None"
    and t: "t = update_task i (\<lambda>r. r\<lparr>st_push_sent_at := Some now, st_updated_at := now\<rparr>) (w_db w)"
    using Notify(2) by (auto simp: claim_push_sent_def split: option.splits if_splits)
  have quiet: "quiet (w_db w) t" using claim_push_quiet[of "w_db w" now i] unfolding Notify(2) by simp
  have "i \<in> unnotified (w_db w)" "i \<in> known (w_db w)" using r find_task_Some[OF r(1)] unfolding unnotified_def known_def by auto
  moreover have "i \<notin> unnotified t" unfolding t by (rule claimed_push)
  moreover have "known (w_db w) \<subseteq> w_used w" "set (w_notified w) \<subseteq> w_used w - unnotified (w_db w)"
    using assms(2) by (simp_all add: world_ok_def)
  ultimately have "i \<in> w_used w - unnotified t" "i \<notin> set (w_notified w)" by blast+
  then show ?thesis unfolding Notify(1) by (intro world_ok_notify world_ok_db[OF assms(2) quiet])
next
  case (Patch r v now u b)
  show ?thesis unfolding Patch(1) by (rule world_ok_db[OF assms(2)]) (rule scope_quiet, rule patch_with_quiet)
next
  case (Delete r now)
  show ?thesis unfolding Delete(1) by (rule world_ok_db[OF assms(2) delete_with_quiet])
next
  case (Recover cutoff now)
  show ?thesis unfolding Recover(1) by (rule world_ok_db[OF assms(2) recover_quiet])
next
  case (Finish k i planned result f now)
  have "tf_status f \<noteq> ''scheduled''" using result_fields_status[OF Finish(3)] by auto
  then have "world_ok ((w\<lparr>w_db := set_terminal f now i (w_db w)\<rparr>)\<lparr>w_flight := (w_flight w)(k := None)\<rparr>)"
    unfolding world_ok_flight by (intro world_ok_db[OF assms(2)] set_terminal_quiet)
  then show ?thesis unfolding Finish(1) by simp
next
  case (Gone k i "is" now)
  have "world_ok (w\<lparr>w_db := set_terminal session_gone_fields now i (w_db w)\<rparr>)"
    by (intro world_ok_db[OF assms(2)] set_terminal_quiet) (simp add: session_gone_fields_def)
  from world_ok_drop[OF this, of k i "is"] show ?thesis unfolding Gone(1) by (simp add: Gone(2))
next
  case (Skip k i "is")
  show ?thesis unfolding Skip(1) by (rule world_ok_drop[OF assms(2) Skip(2)])
next
  case (Crash k)
  have "world_ok ((w\<lparr>w_pending := (w_pending w)(k := [])\<rparr>)\<lparr>w_flight := (w_flight w)(k := None)\<rparr>)"
    unfolding world_ok_flight using assms(2) by (simp add: world_ok_def)
  then show ?thesis unfolding Crash(1) by simp
next
  case (Sessions c)
  have "quiet (w_db w) ((w_db w)\<lparr>chats := c\<rparr>)" by (simp add: quiet_def known_def waiting_def unnotified_def)
  then show ?thesis unfolding Sessions(1) by (rule world_ok_db[OF assms(2)])
next
  case (Read r)
  then show ?thesis using assms(2) by simp
qed

lemma world_ok_reachable:
  assumes "(world_step cfg)\<^sup>*\<^sup>* (start_world s) w" and "distinct (map st_id (tasks s))"
  shows "world_ok w"
  using assms(1)
proof (induction rule: rtranclp_induct)
  case base
  show ?case using assms(2) by (simp add: world_ok_def start_world_def)
next
  case (step v w)
  then show ?case using world_ok_step by blast
qed

text \<open>
  C15. A scheduled chat runs at most once, and its owner is notified at most once. Any number of workers
  claim, start, finish, recover and crash, and requests create, change, cancel and delete tasks between any two
  of their steps, with the row a request acts on possibly read long before: in every reachable state no
  task has been given to the orchestrator twice, no worker holds a task another worker has, and no task has
  had two notifications, although a stuck run may be failed by one worker and finished by another.
\<close>

theorem runs_and_notifies_once:
  assumes "(world_step cfg)\<^sup>*\<^sup>* (start_world s) w" and "distinct (map st_id (tasks s))"
  shows "distinct (w_runs w) \<and> distinct (w_notified w)
    \<and> (\<forall>k l. k \<noteq> l \<longrightarrow> set (w_pending w k) \<inter> set (w_pending w l) = {}) \<and> (\<forall>k. set (w_pending w k) \<inter> set (w_runs w) = {})"
  using world_ok_reachable[OF assms] unfolding world_ok_def by simp

section \<open>The life of one task\<close>

text \<open>The transitions of the status, and what never changes.\<close>

definition advances :: "string \<Rightarrow> string \<Rightarrow> bool" where
  "advances a b \<longleftrightarrow> a = b \<or> a = ''scheduled'' \<and> (b = ''running'' \<or> b = ''cancelled'')
     \<or> a = ''running'' \<and> (b = ''completed'' \<or> b = ''failed'')"

definition successor_of :: "scheduled_task \<Rightarrow> scheduled_task \<Rightarrow> bool" where
  "successor_of r r' \<longleftrightarrow> advances (st_status r) (st_status r') \<and> st_user r' = st_user r \<and> st_created_at r' = st_created_at r
     \<and> (st_status r \<noteq> ''scheduled'' \<longrightarrow> st_prompt r' = st_prompt r \<and> st_session r' = st_session r \<and> st_run_at r' = st_run_at r)
     \<and> (st_status r \<in> set TERMINAL_STATUSES \<longrightarrow> r' = r\<lparr>st_push_sent_at := st_push_sent_at r', st_updated_at := st_updated_at r'\<rparr>)
     \<and> (st_push_sent_at r \<noteq> None \<longrightarrow> r' = r)"

lemma successor_refl: "successor_of r r"
  by (simp add: successor_of_def advances_def)

text \<open>A request that read a waiting row and flushes over the row a worker has meanwhile taken.\<close>

definition overlapped :: "scheduled_task set \<Rightarrow> scheduled_task \<Rightarrow> scheduled_task \<Rightarrow> bool" where
  "overlapped reads r r' \<longleftrightarrow> st_status r \<noteq> ''scheduled''
     \<and> (\<exists>q \<in> reads. st_id q = st_id r \<and> st_status q = ''scheduled'' \<and> ((\<exists>now. r' = cancelled now r) \<or> (\<exists>q'. r' = apply_changes q q' r)))"

definition task_moves :: "scheduled_task set \<Rightarrow> scheduled_task \<Rightarrow> scheduled_task \<Rightarrow> bool" where
  "task_moves reads r r' \<longleftrightarrow> successor_of r r' \<or> overlapped reads r r'"

lemma task_moves_refl: "task_moves reads r r"
  by (simp add: task_moves_def successor_refl)

text \<open>A row as the table may hold it: in order, but for a cancelled one, which an overlapping cancellation may have put on top of a run.\<close>

definition row_ok :: "scheduled_task \<Rightarrow> bool" where
  "row_ok r \<longleftrightarrow> row_checks r \<and> response_valid r \<and> (stage_ok r \<or> st_status r = ''cancelled'' \<and> st_finished_at r \<noteq> None)"

definition rows_ok :: "sched_db \<Rightarrow> bool" where
  "rows_ok s \<longleftrightarrow> distinct (map st_id (tasks s)) \<and> (\<forall>r \<in> set (tasks s). row_ok r)"

definition all_move :: "scheduled_task set \<Rightarrow> sched_db \<Rightarrow> sched_db \<Rightarrow> bool" where
  "all_move reads s t \<longleftrightarrow> (\<forall>r \<in> set (tasks s). \<forall>r' \<in> set (tasks t). st_id r' = st_id r \<longrightarrow> task_moves reads r r')"

text \<open>One lemma for every step that rewrites rows in place.\<close>

lemma rewrite_rows:
  assumes "rows_ok s" and "tasks t = map f (tasks s)" and "\<And>r. st_id (f r) = st_id r"
    and "\<And>r. r \<in> set (tasks s) \<Longrightarrow> row_ok r \<Longrightarrow> row_ok (f r) \<and> task_moves reads r (f r)"
  shows "rows_ok t \<and> all_move reads s t"
proof -
  have row: "row_ok (f r) \<and> task_moves reads r (f r)" if "r \<in> set (tasks s)" for r
    using assms(1,4) that by (simp add: rows_ok_def)
  have dist: "distinct (map st_id (tasks s))"
    using assms(1) by (simp add: rows_ok_def)
  have "map st_id (tasks t) = map st_id (tasks s)"
    using assms(2,3) by simp
  then have "distinct (map st_id (tasks t))"
    using dist by (simp only:)
  then have "rows_ok t"
    using row unfolding rows_ok_def assms(2) by auto
  moreover have "all_move reads s t"
    unfolding all_move_def assms(2) using row assms(3) same_row[OF dist] by auto
  ultimately show ?thesis ..
qed

lemma unchanged_rows: "rows_ok s \<Longrightarrow> tasks t = tasks s \<Longrightarrow> rows_ok t \<and> all_move reads s t"
  by (rule rewrite_rows[where f = "\<lambda>r. r"]) (simp_all add: task_moves_refl)

text \<open>What the rewrites do to a well-formed row.\<close>

lemmas row_defs = task_ok_def row_checks_def response_valid_def stage_ok_def successor_of_def advances_def null_or_in_def status_lists

lemma claimed_row: "task_ok r \<Longrightarrow> st_status r = ''scheduled'' \<Longrightarrow> task_ok (claimed now r) \<and> successor_of r (claimed now r)"
  by (auto simp: row_defs claimed_def)

lemma interrupted_row: "task_ok r \<Longrightarrow> st_status r = ''running'' \<Longrightarrow> task_ok (interrupted now r) \<and> successor_of r (interrupted now r)"
  by (auto simp: row_defs interrupted_def)

lemma finished_row:
  assumes "task_ok r" and "st_status r = ''running''" and "tf_status f = ''failed'' \<or> tf_status f = ''completed'' \<and> tf_code f = None"
  shows "task_ok (finished f now r) \<and> successor_of r (finished f now r)"
  using assms by (auto simp: row_defs finished_def)

lemma cancelled_row: "task_ok r \<Longrightarrow> st_status r = ''scheduled'' \<Longrightarrow> task_ok (cancelled now r) \<and> successor_of r (cancelled now r)"
  by (auto simp: row_defs cancelled_def)

lemma notified_row:
  assumes "task_ok r" and "st_status r = ''completed'' \<or> st_status r = ''failed''" and "st_push_sent_at r = None"
  shows "task_ok (r\<lparr>st_push_sent_at := Some now, st_updated_at := now\<rparr>) \<and> successor_of r (r\<lparr>st_push_sent_at := Some now, st_updated_at := now\<rparr>)"
  using assms by (auto simp: row_defs)

lemma result_fields_code:
  assumes "result_fields planned result = Some f \<or> f = session_gone_fields"
  shows "tf_status f = ''failed'' \<or> tf_status f = ''completed'' \<and> tf_code f = None"
  using assms
  by (auto simp: result_fields_def map_run_outcome_def session_gone_fields_def Let_def split: sum.splits exn.splits if_splits)

lemma row_task: "row_ok r \<Longrightarrow> st_status r \<noteq> ''cancelled'' \<Longrightarrow> task_ok r"
  by (simp add: row_ok_def task_ok_def)

lemma task_row: "task_ok r \<and> successor_of r' r \<Longrightarrow> row_ok r \<and> task_moves reads r' r"
  by (simp add: row_ok_def task_ok_def task_moves_def)

text \<open>The two flushes of a request, over the row it read or over a later one.\<close>

lemma cancelled_over:
  assumes "row_ok r" and "q \<in> reads" and "st_id q = st_id r" and "st_status q = ''scheduled''"
  shows "row_ok (cancelled now r) \<and> task_moves reads r (cancelled now r)"
proof (cases "st_status r = ''scheduled''")
  case True
  then show ?thesis
    using cancelled_row[OF row_task[OF assms(1)] True] by (intro task_row) simp
next
  case False
  have "row_ok (cancelled now r)"
    using assms(1) by (auto simp: row_ok_def row_checks_def response_valid_def cancelled_def status_lists)
  then show ?thesis
    using False assms(2-4) unfolding task_moves_def overlapped_def by blast
qed

lemma sent_Inr: "sent field old f = Inr x \<Longrightarrow> x = old \<or> (\<exists>v. field = Some v \<and> f v = Inr x)"
  by (auto simp: sent_def split: option.splits)

lemma patched_over:
  assumes "patched cfg u v now b s q = Inr q'" and "row_checks q'" and "row_ok r"
    and "q \<in> reads" and "st_id q = st_id r" and "st_status q = ''scheduled''"
  shows "row_ok (apply_changes q q' r) \<and> task_moves reads r (apply_changes q q' r)"
proof -
  obtain prompt run_at generation assistant model mode where
    parts: "sent (pr_generation_mode b) (st_generation_mode q) validate_generation_mode = Inr generation"
      "sent (pr_assistant_mode b) (st_assistant_mode q) validate_assistant_mode = Inr assistant"
    and q': "q' = q\<lparr>st_prompt := prompt, st_run_at := run_at, st_session := or_default (pr_session b) (st_session q), st_generation_mode := generation,
            st_assistant_mode := assistant, st_model := model, st_mode := mode, st_updated_at := now\<rparr>"
    using assms(1) by (auto simp: patched_def checked_Inr_iff Let_def)
  have new: "generation = st_generation_mode q \<or> null_or_in GENERATION_MODE_ORDER generation"
    "assistant = st_assistant_mode q \<or> null_or_in VALID_ASSISTANT_MODES assistant" "mode \<in> set VALID_MODES"
    using sent_Inr[OF parts(1)] sent_Inr[OF parts(2)] assms(2)
    by (auto simp: validate_generation_mode_def validate_assistant_mode_def row_checks_def q' split: if_splits)
  have checks: "row_checks (apply_changes q q' r)" "response_valid (apply_changes q q' r)"
    using new assms(3) by (auto simp: row_ok_def row_checks_def response_valid_def apply_changes_def changed_def q')
  moreover have "stage_ok (apply_changes q q' r) = stage_ok r" "st_status (apply_changes q q' r) = st_status r"
    "st_finished_at (apply_changes q q' r) = st_finished_at r"
    by (simp_all add: apply_changes_def stage_ok_def)
  ultimately have ok: "row_ok (apply_changes q q' r)"
    using assms(3) by (simp add: row_ok_def)
  show ?thesis
  proof (cases "st_status r = ''scheduled''")
    case True
    then have "successor_of r (apply_changes q q' r)"
      using row_task[OF assms(3)] by (simp add: successor_of_def advances_def apply_changes_def status_lists task_ok_def stage_ok_def)
    then show ?thesis
      using ok by (simp add: task_moves_def)
  next
    case False
    then show ?thesis
      using ok assms(4-6) unfolding task_moves_def overlapped_def by blast
  qed
qed

lemma patch_moves:
  assumes "rows_ok s" and "q \<in> reads"
  shows "rows_ok (snd (session_scope (patch_with cfg v now u b (Some q)) s)) \<and> all_move reads s (snd (session_scope (patch_with cfg v now u b (Some q)) s))"
proof -
  let ?t = "snd (session_scope (patch_with cfg v now u b (Some q)) s)"
  have scoped: "?t = s \<or> ?t = snd (patch_with cfg v now u b (Some q) s)"
    by (simp add: session_scope_def split: sum.split)
  consider "?t = s"
    | q' where "st_status q = ''scheduled''" "patched cfg u v now b s q = Inr q'" "row_checks q'" "?t = update_task (st_id q) (apply_changes q q') s"
  proof (cases "st_status q = ''scheduled''")
    case True
    show thesis
    proof (cases "patched cfg u v now b s q")
      case (Inr q')
      then show thesis
        using that scoped True by (cases "row_checks q'") (auto simp: patch_with_def)
    qed (use that(1) scoped True in \<open>simp add: patch_with_def\<close>)
  qed (use that(1) scoped in \<open>simp add: patch_with_def\<close>)
  then show ?thesis
  proof cases
    case 2
    show ?thesis unfolding 2(4)
      by (rule rewrite_rows[OF assms(1), where f = "\<lambda>r. if st_id r = st_id q then apply_changes q q' r else r"])
        (use patched_over[OF 2(2,3) _ assms(2) _ 2(1)] task_moves_refl in \<open>auto simp: update_task_def apply_changes_def[THEN arg_cong[of _ _ st_id]]\<close>)
  qed (simp add: unchanged_rows[OF assms(1)])
qed

lemma delete_moves:
  assumes "rows_ok s" and "q \<in> reads"
  shows "rows_ok (snd (delete_with now (Some q) s)) \<and> all_move reads s (snd (delete_with now (Some q) s))"
proof -
  have "snd (delete_with now (Some q) s) = s \<or> snd (delete_with now (Some q) s) = delete_row (st_id q) s
      \<or> st_status q = ''scheduled'' \<and> snd (delete_with now (Some q) s) = update_task (st_id q) (cancelled now) s"
    by (simp add: delete_with_def)
  then consider "snd (delete_with now (Some q) s) = s" | "snd (delete_with now (Some q) s) = delete_row (st_id q) s"
    | "st_status q = ''scheduled''" "snd (delete_with now (Some q) s) = update_task (st_id q) (cancelled now) s"
    by blast
  then show ?thesis
  proof cases
    case 2
    have dist: "distinct (map st_id (tasks s))"
      using assms(1) by (simp add: rows_ok_def)
    show ?thesis
      unfolding 2 using assms(1) same_row[OF dist] task_moves_refl
      by (auto simp: rows_ok_def all_move_def delete_row_def distinct_map_filter)
  next
    case 3
    show ?thesis unfolding 3(2)
      by (rule rewrite_rows[OF assms(1), where f = "\<lambda>r. if st_id r = st_id q then cancelled now r else r"])
        (use cancelled_over[OF _ assms(2) _ 3(1)] task_moves_refl in \<open>auto simp: update_task_def cancelled_def[THEN arg_cong[of _ _ st_id]]\<close>)
  qed (simp add: unchanged_rows[OF assms(1)])
qed

lemma terminal_moves:
  assumes "rows_ok s" and "tf_status f = ''failed'' \<or> tf_status f = ''completed'' \<and> tf_code f = None"
  shows "rows_ok (set_terminal f now i s) \<and> all_move reads s (set_terminal f now i s)"
proof (rule rewrite_rows[OF assms(1), where f = "\<lambda>r. if st_id r = i then if st_status r = ''running'' then finished f now r else r else r"])
  fix r
  assume ok: "row_ok r"
  have "row_ok (finished f now r) \<and> task_moves reads r (finished f now r)" if "st_status r = ''running''"
    using finished_row[OF row_task[OF ok] that assms(2)] that by (intro task_row) simp
  then show "row_ok (if st_id r = i then if st_status r = ''running'' then finished f now r else r else r)
      \<and> task_moves reads r (if st_id r = i then if st_status r = ''running'' then finished f now r else r else r)"
    using ok task_moves_refl by simp
qed (simp_all add: set_terminal_def update_task_def finished_def)

lemma recover_moves:
  assumes "rows_ok s"
  shows "rows_ok (snd (recover_stuck_running cutoff now s)) \<and> all_move reads s (snd (recover_stuck_running cutoff now s))"
proof (rule rewrite_rows[OF assms, where f = "\<lambda>r. if is_stuck cutoff r then interrupted now r else r"])
  fix r
  assume ok: "row_ok r"
  have "row_ok (interrupted now r) \<and> task_moves reads r (interrupted now r)" if "is_stuck cutoff r"
    using interrupted_row[OF row_task[OF ok]] that by (intro task_row) (simp add: is_stuck_def)
  then show "row_ok (if is_stuck cutoff r then interrupted now r else r) \<and> task_moves reads r (if is_stuck cutoff r then interrupted now r else r)"
    using ok task_moves_refl by simp
qed (simp_all add: recover_stuck_running_def interrupted_def)

lemma claim_moves:
  assumes "rows_ok s"
  shows "rows_ok (snd (claim_due locked now n s)) \<and> all_move reads s (snd (claim_due locked now n s))"
proof (rule rewrite_rows[OF assms claim_due_tasks])
  fix r
  assume ok: "row_ok r"
  have "row_ok (claimed now r) \<and> task_moves reads r (claimed now r)" if "st_status r = ''scheduled''"
    using claimed_row[OF row_task[OF ok] that] that by (intro task_row) simp
  then show "row_ok (if st_id r \<in> set (claim_ids locked now n s) \<and> st_status r = ''scheduled'' then claimed now r else r)
      \<and> task_moves reads r (if st_id r \<in> set (claim_ids locked now n s) \<and> st_status r = ''scheduled'' then claimed now r else r)"
    using ok task_moves_refl by simp
qed (simp add: claimed_def)

lemma notify_moves:
  assumes "rows_ok s" and "claim_push_sent now i s = (True, t)"
  shows "rows_ok t \<and> all_move reads s t"
proof -
  let ?f = "\<lambda>r. r\<lparr>st_push_sent_at := Some now, st_updated_at := now\<rparr>"
  have dist: "distinct (map st_id (tasks s))"
    using assms(1) by (simp add: rows_ok_def)
  obtain r where r: "find_task i s = Some r" "st_status r = ''completed'' \<or> st_status r = ''failed''" "st_push_sent_at r = None"
    and t: "t = update_task i ?f s"
    using assms(2) by (auto simp: claim_push_sent_def split: option.splits if_splits)
  have mem: "r \<in> set (tasks s)" "st_id r = i"
    using find_task_Some[OF r(1)] by simp_all
  show ?thesis
  proof (rule rewrite_rows[OF assms(1), where f = "\<lambda>x. if st_id x = i then ?f x else x"])
    fix x
    assume x: "x \<in> set (tasks s)" and ok: "row_ok x"
    have "row_ok (?f x) \<and> task_moves reads x (?f x)" if "st_id x = i"
    proof -
      have "x = r"
        using same_row[OF dist x mem(1)] that mem(2) by simp
      then show ?thesis
        using notified_row[OF row_task[OF ok], of now] r(2,3) by (intro task_row) auto
    qed
    then show "row_ok (if st_id x = i then ?f x else x) \<and> task_moves reads x (if st_id x = i then ?f x else x)"
      using ok task_moves_refl by simp
  qed (simp_all add: t update_task_def)
qed

lemma create_moves:
  assumes "rows_ok s" and "create_task cfg i v now u body s = (Inr r, t)"
  shows "rows_ok t \<and> all_move reads s t"
proof -
  note made = create_task_returns[OF assms(2)]
  note row = create_row_returns[OF made(1)]
  have dist: "distinct (map st_id (tasks s))" and fresh: "st_id r \<notin> st_id ` set (tasks s)"
    using assms(1) row(3) by (force simp: rows_ok_def find_task_def find_None_iff)+
  have "row_ok r"
    using made(2,4) row(5) by (simp add: row_ok_def)
  then have "rows_ok t"
    using assms(1) fresh unfolding row(2) rows_ok_def by auto
  moreover have "all_move reads s t"
  proof (unfold all_move_def, intro ballI impI)
    fix x y
    assume x: "x \<in> set (tasks s)" and y: "y \<in> set (tasks t)" and same: "st_id y = st_id x"
    then have "y \<noteq> r"
      using fresh by auto
    then have "y \<in> set (tasks s)"
      using y by (simp add: row(2))
    then show "task_moves reads x y"
      using same_row[OF dist x _ same[symmetric]] task_moves_refl by simp
  qed
  ultimately show ?thesis ..
qed

lemma world_step_moves:
  assumes "world_step cfg w w'" and "rows_ok (w_db w)"
  shows "rows_ok (w_db w') \<and> all_move (w_reads w) (w_db w) (w_db w')"
  using assms(1)
proof (cases rule: world_step.cases)
  case (Create i v now u body r t)
  show ?thesis using create_moves[OF assms(2) Create(2)] by (simp add: Create(1))
next
  case (Patch r v now u b)
  show ?thesis using patch_moves[OF assms(2) Patch(2)] by (simp add: Patch(1))
next
  case (Delete r now)
  show ?thesis using delete_moves[OF assms(2) Delete(2)] by (simp add: Delete(1))
next
  case (Recover cutoff now)
  show ?thesis using recover_moves[OF assms(2)] by (simp add: Recover(1))
next
  case (Claim k locked now n rows t)
  show ?thesis using claim_moves[OF assms(2), of locked now n] by (simp add: Claim(1,4))
next
  case (Gone k i "is" now)
  show ?thesis using terminal_moves[OF assms(2), of session_gone_fields] by (simp add: Gone(1) session_gone_fields_def)
next
  case (Finish k i planned result f now)
  show ?thesis using terminal_moves[OF assms(2) result_fields_code[OF disjI1[OF Finish(3)]]] by (simp add: Finish(1))
next
  case (Notify now i t)
  show ?thesis using notify_moves[OF assms(2) Notify(2)] by (simp add: Notify(1))
qed (simp_all add: unchanged_rows[OF assms(2)])

lemma reachable_rows_ok:
  assumes "(world_step cfg)\<^sup>*\<^sup>* (start_world s) w" and "rows_ok s"
  shows "rows_ok (w_db w)"
  using assms(1)
proof (induction rule: rtranclp_induct)
  case base
  show ?case using assms(2) by (simp add: start_world_def)
next
  case (step v w)
  then show ?case using world_step_moves by blast
qed

text \<open>
  C16. The life of a scheduled chat, with any number of workers and requests between any two of whose statements others act. From a
  well-formed table on, identifiers stay unique and every row satisfies the CHECK constraints and the response schema, and has the
  timestamps, result and error that its status calls for and no others, but that a cancelled row may bear those of a run. A status moves
  only from scheduled to running or cancelled, or from running to completed or failed; once claimed a task keeps its prompt, session and
  time; a finished task changes only by its notification mark, and once notified not at all. The one exception is a request that
  read the task while it waited and flushes after a worker has claimed it: a DELETE then cancels the task whatever has become of it, and a PATCH
  writes the columns it changes, which do not include the status.
\<close>

theorem scheduled_chat_life:
  assumes "sched_ok s" and "(world_step cfg)\<^sup>*\<^sup>* (start_world s) w" and "world_step cfg w w'"
  shows "distinct (map st_id (tasks (w_db w')))
    \<and> (\<forall>r \<in> set (tasks (w_db w')). row_checks r \<and> response_valid r \<and> (stage_ok r \<or> st_status r = ''cancelled'' \<and> st_finished_at r \<noteq> None))
    \<and> (\<forall>r \<in> set (tasks (w_db w)). \<forall>r' \<in> set (tasks (w_db w')). st_id r' = st_id r \<longrightarrow>
         successor_of r r' \<or> overlapped (w_reads w) r r')"
proof -
  have "rows_ok s"
    using assms(1) by (auto simp: sched_ok_def rows_ok_def row_ok_def task_ok_def)
  from world_step_moves[OF assms(3) reachable_rows_ok[OF assms(2) this]] show ?thesis
    unfolding rows_ok_def row_ok_def all_move_def task_moves_def by blast
qed

section \<open>What a poll does\<close>

text \<open>Equal up to the notification mark.\<close>

definition upto_push :: "scheduled_task \<Rightarrow> scheduled_task \<Rightarrow> bool" where
  "upto_push r r' \<longleftrightarrow> r' = r\<lparr>st_push_sent_at := st_push_sent_at r', st_updated_at := st_updated_at r'\<rparr>"

lemma upto_push_refl: "upto_push r r"
  by (simp add: upto_push_def)

lemma upto_push_trans: "upto_push r r' \<Longrightarrow> upto_push r' r'' \<Longrightarrow> upto_push r r''"
  unfolding upto_push_def by (cases r; cases r'; cases r'') simp

lemma upto_pushD:
  assumes "upto_push r r'"
  shows "st_id r' = st_id r" "st_status r' = st_status r" "st_run_at r' = st_run_at r" "st_started_at r' = st_started_at r"
  using assms unfolding upto_push_def by (cases r; cases r'; simp)+

definition push_only :: "sched_db \<Rightarrow> sched_db \<Rightarrow> bool" where
  "push_only s t \<longleftrightarrow> (\<exists>g. tasks t = map g (tasks s) \<and> (\<forall>r. upto_push r (g r)))"

lemma push_only_refl: "push_only s s"
  unfolding push_only_def by (intro exI[of _ "\<lambda>r. r"]) (simp add: upto_push_refl)

lemma push_only_trans: "push_only s t \<Longrightarrow> push_only t v \<Longrightarrow> push_only s v"
  unfolding push_only_def by (force intro: upto_push_trans simp: comp_def)

lemma notify_push_only: "push_only s (snd (notify env now r s))"
proof -
  have "push_only s (update_task i (\<lambda>r. r\<lparr>st_push_sent_at := Some now, st_updated_at := now\<rparr>) s)" for i
    unfolding push_only_def
    by (intro exI[of _ "\<lambda>r. if st_id r = i then r\<lparr>st_push_sent_at := Some now, st_updated_at := now\<rparr> else r"])
      (simp add: update_task_def upto_push_def)
  then show ?thesis
    by (auto simp: notify_def claim_push_sent_def push_only_refl split: option.split prod.split if_split)
qed

lemma each_push_only:
  assumes "\<And>x s. push_only s (snd (f x s))"
  shows "push_only s (snd (each f xs s))"
proof (induction xs arbitrary: s)
  case (Cons x xs)
  show ?case using push_only_trans[OF assms[of s x] Cons] by (auto split: prod.splits)
qed (simp add: push_only_refl)

text \<open>How a run ends: some answer \<open>f\<close> of the orchestrator to this task's request, or the missing session.\<close>

definition answer :: "orchestrator \<Rightarrow> scheduled_task \<Rightarrow> terminal_fields \<Rightarrow> bool" where
  "answer run r f \<longleftrightarrow> f = session_gone_fields \<or> (\<exists>s. result_fields (st_session r) (fst (run (request_of r) s)) = Some f)"

lemma request_of_same [simp]:
  "request_of (r\<lparr>st_push_sent_at := p, st_updated_at := u\<rparr>) = request_of r"
  "request_of (claimed now (r\<lparr>st_push_sent_at := p, st_updated_at := u\<rparr>)) = request_of (claimed now r)"
  by (simp_all add: request_of_def claimed_def cong: if_cong)

definition ended :: "orchestrator \<Rightarrow> scheduled_task \<Rightarrow> scheduled_task \<Rightarrow> bool" where
  "ended run r r' \<longleftrightarrow> (\<exists>f now. answer run r f \<and> upto_push (finished f now r) r')"

definition faultless :: "orchestrator \<Rightarrow> bool" where
  "faultless run \<longleftrightarrow> (\<forall>rq s. tasks (snd (run rq s)) = tasks s \<and> (\<forall>f. fst (run rq s) \<noteq> Inl (DbFault f)))"

definition runs_task :: "orchestrator \<Rightarrow> uuid set \<Rightarrow> sched_db \<Rightarrow> sched_db \<Rightarrow> bool" where
  "runs_task run is s t \<longleftrightarrow> (\<exists>g. tasks t = map g (tasks s)
     \<and> (\<forall>r \<in> set (tasks s). st_id (g r) = st_id r \<and> (st_id r \<notin> is \<longrightarrow> upto_push r (g r))
          \<and> (st_id r \<in> is \<and> st_status r = ''running'' \<longrightarrow> ended run r (g r))))"

lemma mark_then_notify:
  assumes "answer run r f" and "find_task i s = Some r" and "st_status r = ''running''" and "distinct (map st_id (tasks s))"
    and "tasks s' = tasks s"
  shows "runs_task run {i} s (snd (notify_marked env clk (mark_terminal reread f now i s')))"
proof -
  let ?s1 = "set_terminal f now i s'"
  have "push_only ?s1 (snd (notify_marked env clk (mark_terminal reread f now i s')))"
    using notify_push_only push_only_refl
    by (auto simp: notify_marked_def mark_terminal_def Let_def split: option.split prod.split if_split)
  then obtain g where g: "tasks (snd (notify_marked env clk (mark_terminal reread f now i s'))) = map g (tasks ?s1)" "\<And>r. upto_push r (g r)"
    by (auto simp: push_only_def)
  define h where "h = (\<lambda>r. if st_id r = i then if st_status r = ''running'' then finished f now r else r else r)"
  have h: "tasks ?s1 = map h (tasks s)" by (simp add: set_terminal_def update_task_def h_def assms(5))
  have id_h: "st_id (h x) = st_id x" for x by (simp add: h_def finished_def)
  have mine: "x = r" if "x \<in> set (tasks s)" "st_id x = i" for x
    using same_row[OF assms(4) that(1)] find_task_Some[OF assms(2)] that(2) by simp
  have "ended run x (g (h x))" if "x \<in> set (tasks s)" "st_id x = i" for x
    unfolding ended_def mine[OF that] using assms(1,3) g(2)[of "h r"] find_task_Some[OF assms(2)]
    by (intro exI[of _ f] exI[of _ now]) (simp add: h_def)
  then show ?thesis
    unfolding runs_task_def g(1) h using g(2) upto_pushD(1)[OF g(2)]
    by (intro exI[of _ "\<lambda>x. g (h x)"]) (auto simp: comp_def id_h, simp add: h_def)
qed

lemma result_fields_total:
  assumes "\<And>f. result \<noteq> Inl (DbFault f)"
  shows "\<exists>f. result_fields planned result = Some f"
proof -
  have "result_fields planned result \<noteq> None"
    using assms by (auto simp: result_fields_def split: sum.splits exn.splits prod.splits if_splits)
  then show ?thesis by blast
qed

lemma execute_task_runs:
  assumes "faultless run" and "distinct (map st_id (tasks s))" and "find_task i s = Some r" and "st_status r = ''running''"
  shows "runs_task run {i} s (snd (execute_task run reread env clk i s))"
proof (cases "begin_run i s")
  case Not_running
  then show ?thesis using assms(3,4) by (simp add: begin_run_def split: if_splits)
next
  case Session_gone
  have "answer run r session_gone_fields" by (simp add: answer_def)
  from mark_then_notify[OF this assms(3,4,2) refl] show ?thesis by (simp add: execute_task_def Session_gone)
next
  case (Start rq)
  then have rq: "rq = request_of r" "rq_session rq = st_session r" using assms(3,4) by (auto simp: begin_run_def request_of_def split: if_splits)
  obtain result s' where res: "run rq s = (result, s')" by fastforce
  have fields: "tasks s' = tasks s" "\<And>f. result \<noteq> Inl (DbFault f)"
    using assms(1) res unfolding faultless_def by (metis snd_conv, metis fst_conv)
  obtain f where f: "result_fields (rq_session rq) result = Some f"
    using result_fields_total[OF fields(2)] by blast
  have "answer run r f" unfolding answer_def using f res rq by (metis fst_conv)
  from mark_then_notify[OF this assms(3,4,2) fields(1)] show ?thesis by (simp add: execute_task_def Start res f)
qed

lemma runs_task_trans:
  assumes "runs_task run is s t" and "runs_task run js t v" and "is \<inter> js = {}"
  shows "runs_task run (is \<union> js) s v"
proof -
  obtain g h where g: "tasks t = map g (tasks s)" "\<forall>r \<in> set (tasks s). st_id (g r) = st_id r \<and> (st_id r \<notin> is \<longrightarrow> upto_push r (g r))
        \<and> (st_id r \<in> is \<and> st_status r = ''running'' \<longrightarrow> ended run r (g r))"
    and h: "tasks v = map h (tasks t)" "\<forall>r \<in> set (tasks t). st_id (h r) = st_id r \<and> (st_id r \<notin> js \<longrightarrow> upto_push r (h r))
        \<and> (st_id r \<in> js \<and> st_status r = ''running'' \<longrightarrow> ended run r (h r))"
    using assms(1,2) unfolding runs_task_def by blast
  have "st_id (h (g r)) = st_id r \<and> (st_id r \<notin> is \<union> js \<longrightarrow> upto_push r (h (g r)))
      \<and> (st_id r \<in> is \<union> js \<and> st_status r = ''running'' \<longrightarrow> ended run r (h (g r)))" if "r \<in> set (tasks s)" for r
  proof -
    have gr: "st_id (g r) = st_id r" "st_id r \<notin> is \<Longrightarrow> upto_push r (g r)" "st_id r \<in> is \<Longrightarrow> st_status r = ''running'' \<Longrightarrow> ended run r (g r)"
      using g(2) that by blast+
    have hr: "st_id (h (g r)) = st_id r" "st_id r \<notin> js \<Longrightarrow> upto_push (g r) (h (g r))"
      "st_id r \<in> js \<Longrightarrow> st_status (g r) = ''running'' \<Longrightarrow> ended run (g r) (h (g r))"
      using h(2) g(1) that gr(1) by auto
    have "ended run r (h (g r))" if "st_id r \<in> js" "st_status r = ''running''"
    proof -
      have up: "upto_push r (g r)" using that(1) assms(3) gr(2) by blast
      then have "ended run (g r) (h (g r))" using hr(3) that upto_pushD(2)[OF up] by simp
      then obtain f now where fn: "answer run (g r) f" "upto_push (finished f now (g r)) (h (g r))" unfolding ended_def by blast
      obtain p u where gr_eq: "g r = r\<lparr>st_push_sent_at := p, st_updated_at := u\<rparr>" using up unfolding upto_push_def by blast
      have "upto_push (finished f now r) (finished f now (g r))" by (simp add: gr_eq upto_push_def finished_def)
      moreover have "answer run r f" using fn(1) by (simp add: gr_eq answer_def request_of_same)
      ultimately show ?thesis using fn(2) upto_push_trans unfolding ended_def by blast
    qed
    moreover have "ended run r (h (g r))" if "st_id r \<in> is" "st_status r = ''running''"
      using gr(3)[OF that] hr(2) that(1) assms(3) upto_push_trans unfolding ended_def by blast
    moreover have "upto_push r (h (g r))" if "st_id r \<notin> is \<union> js" using gr(2) hr(2) that upto_push_trans by blast
    ultimately show ?thesis using hr(1) by blast
  qed
  then show ?thesis unfolding runs_task_def h(1) g(1) by (intro exI[of _ "\<lambda>r. h (g r)"]) (simp add: comp_def)
qed

lemma runs_task_ids: "runs_task run is s t \<Longrightarrow> map st_id (tasks t) = map st_id (tasks s)"
  by (auto simp: runs_task_def)

lemma each_runs:
  assumes "faultless run" and "distinct is" and "distinct (map st_id (tasks s))"
    and "\<And>i. i \<in> set is \<Longrightarrow> \<exists>r. find_task i s = Some r \<and> st_status r = ''running''"
  shows "runs_task run (set is) s (snd (each (execute_task run reread env clk) is s))"
  using assms(2-4)
proof (induction "is" arbitrary: s)
  case Nil
  have "runs_task run {} s s" unfolding runs_task_def by (intro exI[of _ "\<lambda>r. r"]) (simp add: upto_push_refl)
  then show ?case by simp
next
  case (Cons i "is")
  let ?t = "snd (execute_task run reread env clk i s)"
  obtain r where "find_task i s = Some r" "st_status r = ''running''" using Cons.prems(3) by auto
  from execute_task_runs[OF assms(1) Cons.prems(2) this] have one: "runs_task run {i} s ?t" .
  have dist: "distinct (map st_id (tasks ?t))" using runs_task_ids[OF one] Cons.prems(2) by (simp only:)
  have still: "\<exists>r. find_task j ?t = Some r \<and> st_status r = ''running''" if j: "j \<in> set is" for j
  proof -
    obtain x where x: "find_task j s = Some x" "st_status x = ''running''" using Cons.prems(3) j by auto
    obtain g where g: "tasks ?t = map g (tasks s)" "\<forall>r \<in> set (tasks s). st_id (g r) = st_id r \<and> (st_id r \<notin> {i} \<longrightarrow> upto_push r (g r))"
      using one unfolding runs_task_def by blast
    have mem: "x \<in> set (tasks s)" "st_id x = j" using find_task_Some[OF x(1)] by simp_all
    have "j \<noteq> i" using Cons.prems(1) j by auto
    then have gx: "upto_push x (g x)" using g(2) mem by auto
    have "g x \<in> set (tasks ?t)" using g(1) mem(1) by simp
    moreover have "find_task (st_id (g x)) ?t = Some (g x)"
      unfolding find_task_def by (rule find_unique[OF dist]) fact
    ultimately show ?thesis using upto_pushD[OF gx] x(2) mem(2) by auto
  qed
  have "runs_task run (set is) ?t (snd (each (execute_task run reread env clk) is ?t))"
    using Cons.prems(1) by (intro Cons.IH dist still) simp
  from runs_task_trans[OF one this] Cons.prems(1) show ?case by (auto split: prod.split)
qed

definition is_due :: "instant \<Rightarrow> scheduled_task \<Rightarrow> bool" where
  "is_due now r \<longleftrightarrow> st_status r = ''scheduled'' \<and> st_run_at r \<le> now"

lemma filter_map_same: "(\<And>r. r \<in> set rs \<Longrightarrow> p (h r) = p r) \<Longrightarrow> length (filter p (map h rs)) = length (filter p rs)"
  by (induction rs) auto

lemma claim_all_due:
  assumes "length (filter (is_due now) (tasks s)) \<le> n"
  shows "set (claim_ids {} now n s) = st_id ` {r \<in> set (tasks s). is_due now r}"
proof -
  have "claim_ids {} now n s = map st_id (sort_key st_run_at (filter (is_due now) (tasks s)))"
    using assms unfolding claim_ids_def is_due_def by simp
  then show ?thesis by simp
qed

lemma ended_upto: "upto_push r x \<Longrightarrow> ended run (claimed now x) r' \<Longrightarrow> ended run (claimed now r) r'"
proof -
  assume "upto_push r x" and "ended run (claimed now x) r'"
  then obtain p u f at where x: "x = r\<lparr>st_push_sent_at := p, st_updated_at := u\<rparr>"
    and f: "answer run (claimed now x) f" "upto_push (finished f at (claimed now x)) r'"
    unfolding upto_push_def ended_def by blast
  have "answer run (claimed now r) f" using f(1) by (simp add: x answer_def) (simp add: claimed_def)
  moreover have "upto_push (finished f at (claimed now r)) (finished f at (claimed now x))"
    by (simp add: x upto_push_def finished_def claimed_def)
  ultimately show ?thesis using f(2) upto_push_trans unfolding ended_def by blast
qed

lemma ended_status: "ended run r r' \<Longrightarrow> st_status r' = ''completed'' \<or> st_status r' = ''failed''"
  using result_fields_status upto_pushD(2)
  by (fastforce simp: ended_def answer_def finished_def session_gone_fields_def)

text \<open>Claiming and executing: what happens to each row when there is room for all that is due.\<close>

lemma claim_and_run:
  assumes "distinct (map st_id (tasks s))" and "faultless run" and "length (filter (is_due now) (tasks s)) \<le> n"
    and r_def: "r = claim_due {} now n s"
    and t_def: "t = snd (each (execute_task run reread env clk) (map st_id (fst r)) (snd r))"
  shows "\<exists>H. tasks t = map H (tasks s) \<and> (\<forall>x \<in> set (tasks s). st_id (H x) = st_id x
    \<and> (is_due now x \<longrightarrow> ended run (claimed now x) (H x)) \<and> (\<not> is_due now x \<longrightarrow> upto_push x (H x)))"
proof -
  define ids where "ids = map st_id (fst (claim_due {} now n s))"
  define f where "f = (\<lambda>r. if st_id r \<in> set ids \<and> st_status r = ''scheduled'' then claimed now r else r)"
  note claim = claim_due_ids[OF assms(1) ids_def]
  have ids: "set ids = st_id ` {x \<in> set (tasks s). is_due now x}"
    unfolding claim(2) by (rule claim_all_due) fact
  have due: "st_id x \<in> set ids \<longleftrightarrow> is_due now x" if "x \<in> set (tasks s)" for x
    using same_row[OF assms(1) that] that unfolding ids by auto
  have s3: "tasks (snd r) = map f (tasks s)" unfolding r_def claim_due_tasks f_def claim(2) ..
  have id_f: "st_id (f x) = st_id x" for x by (simp add: f_def claimed_def)
  have dist: "distinct (map st_id (tasks (snd r)))" unfolding s3 using assms(1) id_f by (simp add: comp_def)
  have f_due: "f x = (if is_due now x then claimed now x else x)" if "x \<in> set (tasks s)" for x
    using due[OF that] by (auto simp: f_def is_due_def)
  have running: "\<exists>x. find_task i (snd r) = Some x \<and> st_status x = ''running''" if i: "i \<in> set ids" for i
  proof -
    obtain x where x: "x \<in> set (tasks s)" "is_due now x" "st_id x = i" using i unfolding ids by blast
    then have "find_task i (snd r) = Some (f x)"
      unfolding find_task_def using find_unique[OF dist, of "f x"] by (simp add: s3 id_f)
    then show ?thesis using f_due[OF x(1)] x(2) by (simp add: claimed_def)
  qed
  have "runs_task run (set ids) (snd r) t"
    unfolding t_def r_def ids_def[symmetric] by (rule each_runs[OF assms(2) claim(1) dist[unfolded r_def] running[unfolded r_def]])
  then obtain h where h: "tasks t = map h (tasks (snd r))" "\<forall>x \<in> set (tasks (snd r)). st_id (h x) = st_id x
        \<and> (st_id x \<notin> set ids \<longrightarrow> upto_push x (h x)) \<and> (st_id x \<in> set ids \<and> st_status x = ''running'' \<longrightarrow> ended run x (h x))"
    unfolding runs_task_def by blast
  have "st_id (h (f x)) = st_id x \<and> (is_due now x \<longrightarrow> ended run (claimed now x) (h (f x))) \<and> (\<not> is_due now x \<longrightarrow> upto_push x (h (f x)))"
    if x: "x \<in> set (tasks s)" for x
  proof -
    have "f x \<in> set (tasks (snd r))" using x by (simp add: s3)
    from h(2)[rule_format, OF this] show ?thesis
      using due[OF x] f_due[OF x] id_f[of x] by (auto simp: claimed_def)
  qed
  then show ?thesis unfolding h(1) s3 by (intro exI[of _ "\<lambda>x. h (f x)"]) (simp add: comp_def)
qed

lemma poll_rewrites:
  assumes "sched_ok s" and "faultless run" and "int (length (filter (is_due (claim_at clk)) (tasks s))) \<le> batch_size cfg"
    and "poll_once cfg run reread env clk {} s = (n, pushes, t)" and cutoff: "cutoff = recover_at clk - seconds (max 1 (running_ttl_seconds cfg))"
  shows "\<exists>H. tasks t = map H (tasks s) \<and> (\<forall>r \<in> set (tasks s). st_id (H r) = st_id r
    \<and> (is_due (claim_at clk) r \<longrightarrow> ended run (claimed (claim_at clk) r) (H r))
    \<and> (\<not> is_due (claim_at clk) r \<longrightarrow> upto_push (if is_stuck cutoff r then interrupted (recover_at clk) r else r) (H r)))"
proof -
  let ?due = "is_due (claim_at clk)"
  define f where "f = (\<lambda>r. if is_stuck cutoff r then interrupted (recover_at clk) r else r)"
  define s1 where "s1 = snd (recover_stuck_running cutoff (recover_at clk) s)"
  define s2 where "s2 = snd (each (\<lambda>r. notify env (push_at clk (st_id r)) r) (fst (recover_stuck_running cutoff (recover_at clk) s)) s1)"
  define c where "c = claim_due {} (claim_at clk) (nat (max 1 (batch_size cfg))) s2"
  have t: "t = snd (each (execute_task run reread env clk) (map st_id (fst c)) (snd c))"
    using assms(4) by (simp add: poll_once_def Let_def s1_def s2_def c_def cutoff split: prod.splits)
  have s1: "tasks s1 = map f (tasks s)" by (simp add: s1_def f_def recover_stuck_running_def)
  have "push_only s1 s2" unfolding s2_def by (intro each_push_only notify_push_only)
  then obtain g where g: "tasks s2 = map g (tasks s1)" "\<And>r. upto_push r (g r)" unfolding push_only_def by blast
  have s2: "tasks s2 = map (\<lambda>r. g (f r)) (tasks s)" unfolding g(1) s1 by (simp add: comp_def)
  have id2: "st_id (g (f r)) = st_id r" for r using upto_pushD(1)[OF g(2)] by (simp add: f_def interrupted_def)
  have due2: "?due (g (f r)) = ?due r" for r
    using upto_pushD[OF g(2)[of "f r"]] by (auto simp: f_def interrupted_def is_due_def is_stuck_def)
  have f_due: "f r = r" if "?due r" for r using that by (simp add: f_def is_stuck_def is_due_def)
  have "map st_id (tasks s2) = map st_id (tasks s)" unfolding s2 by (simp add: comp_def id2)
  then have dist: "distinct (map st_id (tasks s2))" using sched_okD(1)[OF assms(1)] by (simp only:)
  have "length (filter ?due (tasks s2)) = length (filter ?due (tasks s))" unfolding s2 by (rule filter_map_same) (rule due2)
  then have room: "length (filter ?due (tasks s2)) \<le> nat (max 1 (batch_size cfg))" using assms(3) by linarith
  obtain H where H: "tasks t = map H (tasks s2)" "\<forall>x \<in> set (tasks s2). st_id (H x) = st_id x
      \<and> (?due x \<longrightarrow> ended run (claimed (claim_at clk) x) (H x)) \<and> (\<not> ?due x \<longrightarrow> upto_push x (H x))"
    using claim_and_run[OF dist assms(2) room c_def t] by blast
  have "st_id (H (g (f r))) = st_id r \<and> (?due r \<longrightarrow> ended run (claimed (claim_at clk) r) (H (g (f r))))
      \<and> (\<not> ?due r \<longrightarrow> upto_push (f r) (H (g (f r))))" if "r \<in> set (tasks s)" for r
  proof -
    have "g (f r) \<in> set (tasks s2)" using that by (simp add: s2)
    from H(2)[rule_format, OF this] show ?thesis
      unfolding id2 due2 using ended_upto[OF g(2)[of "f r"]] f_due[of r] upto_push_trans[OF g(2)[of "f r"]] by metis
  qed
  moreover have "(if is_stuck cutoff r then interrupted (recover_at clk) r else r) = f r" for r by (simp add: f_def)
  ultimately show ?thesis unfolding H(1) s2 by (intro exI[of _ "\<lambda>r. H (g (f r))"]) (simp only: map_map comp_def, simp)
qed

text \<open>
  C18. A due task ends. When a poll has room for every due task and no row is locked, then, whatever the
  orchestrator answers short of a database fault, each task that was due is finished afterwards: completed or
  failed, with the status, result and error of the orchestrator's answer to this task's request, or failed for
  its missing session. And no task is left running that had started before the time to live.
\<close>

theorem due_tasks_end:
  assumes "sched_ok s" and "faultless run" and "int (length (filter (is_due (claim_at clk)) (tasks s))) \<le> batch_size cfg"
    and "poll_once cfg run reread env clk {} s = (n, pushes, t)"
  shows "(\<forall>r \<in> set (tasks s). is_due (claim_at clk) r \<longrightarrow>
      (\<exists>r' \<in> set (tasks t). st_id r' = st_id r \<and> ended run (claimed (claim_at clk) r) r' \<and> (st_status r' = ''completed'' \<or> st_status r' = ''failed'')))
    \<and> (\<forall>r' \<in> set (tasks t). \<forall>start. st_status r' = ''running'' \<and> st_started_at r' = Some start \<longrightarrow>
      recover_at clk - seconds (max 1 (running_ttl_seconds cfg)) \<le> start)"
proof -
  define cutoff where "cutoff = recover_at clk - seconds (max 1 (running_ttl_seconds cfg))"
  obtain H where H: "tasks t = map H (tasks s)" and row: "\<And>r. r \<in> set (tasks s) \<Longrightarrow> st_id (H r) = st_id r
    \<and> (is_due (claim_at clk) r \<longrightarrow> ended run (claimed (claim_at clk) r) (H r))
    \<and> (\<not> is_due (claim_at clk) r \<longrightarrow> upto_push (if is_stuck cutoff r then interrupted (recover_at clk) r else r) (H r))"
    using poll_rewrites[OF assms cutoff_def] by blast
  have "cutoff \<le> start" if "r \<in> set (tasks s)" "st_status (H r) = ''running''" "st_started_at (H r) = Some start" for r start
  proof -
    have "\<not> is_due (claim_at clk) r" using row[OF that(1)] ended_status that(2) by fastforce
    then have up: "upto_push (if is_stuck cutoff r then interrupted (recover_at clk) r else r) (H r)" using row[OF that(1)] by blast
    have "\<not> is_stuck cutoff r" using upto_pushD(2)[OF up] that(2) by (auto simp: interrupted_def)
    with up have same: "upto_push r (H r)" by simp
    have "st_status r = ''running''" "st_started_at r = Some start" using upto_pushD(2,4)[OF same] that(2,3) by simp_all
    then show ?thesis using \<open>\<not> is_stuck cutoff r\<close> by (simp add: is_stuck_def)
  qed
  moreover have "H r \<in> set (tasks t) \<and> st_id (H r) = st_id r \<and> ended run (claimed (claim_at clk) r) (H r)
      \<and> (st_status (H r) = ''completed'' \<or> st_status (H r) = ''failed'')"
    if "r \<in> set (tasks s)" "is_due (claim_at clk) r" for r
    using row[OF that(1)] that ended_status by (auto simp: H)
  ultimately show ?thesis by (intro conjI ballI impI) (blast, auto simp: H cutoff_def)
qed

section \<open>A cancellation that overlaps a claim\<close>

text \<open>
  A defect: a cancellation can overtake a run that has begun. A running task is refused with 409, but a DELETE
  that read the row before a worker claimed it and flushes afterwards writes its three columns by identifier alone:
  it is answered as a cancellation, the running task becomes cancelled, and whatever the orchestrator then returns
  is never recorded, although the run goes on and is charged.
\<close>

theorem overlapping_cancel_hides_run:
  assumes "sched_ok s" and "get_for_user i u s = Some r" and "st_status r = ''scheduled''"
    and "claim_due locked now n s = (rows, t)" and "i \<in> set (map st_id rows)"
  shows "fst (delete_task at u i t) = Inl (Raised NotCancellableError ''running scheduled chat cannot be cancelled'')
    \<and> fst (delete_with at (get_for_user i u s) t) = Inr (Some ''cancelled'')
    \<and> find_task i (snd (delete_with at (get_for_user i u s) t)) = Some (cancelled at (claimed now r))
    \<and> (\<forall>f later. set_terminal f later i (snd (delete_with at (get_for_user i u s) t)) = snd (delete_with at (get_for_user i u s) t))"
proof -
  note dist = sched_okD(1)[OF assms(1)]
  have r: "r \<in> set (tasks s)" "st_id r = i" "st_user r = u" using get_for_user_Some[OF assms(2)] by simp_all
  have t: "t = snd (claim_due locked now n s)" "rows = fst (claim_due locked now n s)" using assms(4) by simp_all
  define ids where "ids = map st_id rows"
  note claim = claim_due_ids[OF dist, of ids locked now n, folded t, OF ids_def]
  define f where "f = (\<lambda>x. if st_id x \<in> set ids \<and> st_status x = ''scheduled'' then claimed now x else x)"
  have ts: "tasks t = map f (tasks s)" unfolding t(1) claim_due_tasks f_def claim(2) t(2)[symmetric] ..
  have fr: "f r = claimed now r" using assms(3,5) r(2) by (simp add: f_def ids_def)
  have id_f: "st_id (f x) = st_id x" "st_user (f x) = st_user x" for x by (simp_all add: f_def claimed_def)
  have idr: "st_id (claimed now r) = i" using r(2) by (simp add: claimed_def)
  have dist_t: "distinct (map st_id (tasks t))" unfolding ts using dist by (simp add: comp_def id_f)
  have "find (\<lambda>x. st_id x = i \<and> st_user x = u) (map f xs) = map_option f (find (\<lambda>x. st_id x = i \<and> st_user x = u) xs)" for xs
    by (induction xs) (simp_all add: id_f)
  then have now_running: "get_for_user i u t = Some (claimed now r)" using assms(2) by (simp add: get_for_user_def ts fr)
  have found: "find_task i t = Some (claimed now r)"
    unfolding find_task_def using find_unique[OF dist_t, of "f r"] r(1) unfolding ts fr idr by (metis fr image_eqI list.set_map)
  let ?v = "update_task i (cancelled at) t"
  have v: "delete_with at (get_for_user i u s) t = (Inr (Some ''cancelled''), ?v)" using assms(2,3) r(2) by (simp add: delete_with_def)
  have hidden: "set_terminal f later i ?v = ?v" for f later
    unfolding set_terminal_def update_task_def by (simp add: cancelled_def comp_def)
  have "find_task i ?v = Some (cancelled at (claimed now r))"
    using found by (subst find_update_task) (simp_all add: cancelled_def)
  then show ?thesis using now_running hidden unfolding v by (simp add: delete_task_def delete_with_def claimed_def)
qed

section \<open>Examples\<close>

definition demo_cfg :: sched_settings where
  "demo_cfg = \<lparr>max_active_per_user = 20, prompt_max_chars = 100, min_lead_seconds = 60, max_lead_days = 90, batch_size = 10,
     running_ttl_seconds = 900, offered_models = []\<rparr>"

definition demo_run :: orchestrator where
  "demo_run rq s = (Inr \<lparr>co_status = ''assistant_message'', co_session = 5, co_block_reason = None, co_message_step = Some 6\<rparr>, s)"

lemma demo_one_ok: "sched_ok (demo_sched_db [demo_task 1 0])"
  using demo_task_ok by (simp add: sched_ok_def demo_task_def)

lemma demo_claim:
  "claim_due {} 0 5 (demo_sched_db [demo_task 1 0]) = ([claimed 0 (demo_task 1 0)], demo_sched_db [claimed 0 (demo_task 1 0)])"
  by (simp add: claim_due_def claim_ids_def demo_task_def claimed_def demo_sched_db_def db.defs)

theorem runs_and_notifies_once_witness:
  "\<exists>w. (world_step demo_cfg)\<^sup>*\<^sup>* (start_world (demo_sched_db [demo_task 1 0])) w \<and> w_runs w = [1] \<and> distinct (w_runs w)"
proof -
  let ?w0 = "start_world (demo_sched_db [demo_task 1 0])"
  let ?w1 = "?w0\<lparr>w_db := demo_sched_db [claimed 0 (demo_task 1 0)], w_pending := (w_pending ?w0)(0 := map st_id [claimed 0 (demo_task 1 0)])\<rparr>"
  let ?w2 = "?w1\<lparr>w_pending := (w_pending ?w1)(0 := []), w_flight := (w_flight ?w1)(0 \<mapsto> 1), w_runs := w_runs ?w1 @ [1]\<rparr>"
  have "world_step demo_cfg ?w0 ?w1"
    by (rule world_step.Claim[of ?w0 0 "{}" 0 5]) (simp_all add: start_world_def demo_claim)
  moreover have "world_step demo_cfg ?w1 ?w2"
    by (rule world_step.Begin[of ?w1 0 1 "[]" "request_of (claimed 0 (demo_task 1 0))"])
      (simp_all add: start_world_def begin_run_def find_task_def claimed_def demo_task_def)
  ultimately have reach: "(world_step demo_cfg)\<^sup>*\<^sup>* ?w0 ?w2" by (rule converse_rtranclp_into_rtranclp[OF _ r_into_rtranclp])
  have "distinct (map st_id (tasks (demo_sched_db [demo_task 1 0])))" by simp
  from runs_and_notifies_once[OF reach this] have "distinct (w_runs ?w2)" by blast
  moreover have "w_runs ?w2 = [1]" by (simp add: start_world_def)
  ultimately show ?thesis using reach by (intro exI[of _ ?w2] conjI)
qed

theorem scheduled_chat_life_witness:
  "\<exists>w. (world_step demo_cfg)\<^sup>*\<^sup>* (start_world (demo_sched_db [demo_task 1 0])) w
     \<and> tasks (w_db w) = [cancelled 7 (claimed 0 (demo_task 1 0))]
     \<and> overlapped {demo_task 1 0} (claimed 0 (demo_task 1 0)) (cancelled 7 (claimed 0 (demo_task 1 0)))"
proof -
  define r where "r = demo_task 1 0"
  define w0 where "w0 = start_world (demo_sched_db [r])"
  define w1 where "w1 = w0\<lparr>w_reads := {r}\<rparr>"
  define w2 where "w2 = w1\<lparr>w_db := demo_sched_db [claimed 0 r], w_pending := (w_pending w1)(0 := map st_id [claimed 0 r])\<rparr>"
  define w3 where "w3 = w2\<lparr>w_db := snd (delete_with 7 (Some r) (w_db w2))\<rparr>"
  have "world_step demo_cfg w0 w1"
    using world_step.Read[of r w0 demo_cfg] by (simp add: w1_def w0_def start_world_def)
  moreover have "world_step demo_cfg w1 w2"
    unfolding w2_def r_def by (rule world_step.Claim[of w1 0 "{}" 0 5]) (simp_all add: w1_def w0_def r_def start_world_def demo_claim)
  ultimately have reach: "(world_step demo_cfg)\<^sup>*\<^sup>* w0 w2"
    by (rule converse_rtranclp_into_rtranclp[OF _ r_into_rtranclp])
  have last: "world_step demo_cfg w2 w3"
    unfolding w3_def by (rule world_step.Delete) (simp add: w2_def w1_def)
  have rows: "tasks (w_db w3) = [cancelled 7 (claimed 0 r)]" "tasks (w_db w2) = [claimed 0 r]" "w_reads w2 = {r}"
    by (simp_all add: w3_def w2_def w1_def delete_with_def update_task_def r_def demo_task_def claimed_def)
  have "successor_of (claimed 0 r) (cancelled 7 (claimed 0 r)) \<or> overlapped {r} (claimed 0 r) (cancelled 7 (claimed 0 r))"
    using scheduled_chat_life[OF demo_one_ok reach[unfolded w0_def r_def] last] unfolding rows by (simp add: cancelled_def)
  moreover have "\<not> successor_of (claimed 0 r) (cancelled 7 (claimed 0 r))"
    by (simp add: successor_of_def advances_def claimed_def cancelled_def)
  ultimately have "overlapped {r} (claimed 0 r) (cancelled 7 (claimed 0 r))"
    by (simp only: simp_thms)
  moreover have "(world_step demo_cfg)\<^sup>*\<^sup>* w0 w3"
    using reach last by (rule rtranclp.rtrancl_into_rtrancl)
  ultimately show ?thesis
    using rows(1) unfolding r_def w0_def by blast
qed

theorem due_tasks_end_witness:
  "\<exists>n pushes t. poll_once demo_cfg demo_run find_task \<lparr>pe_enabled = (\<lambda>_. True), pe_tokens = (\<lambda>_. []), pe_configured = True\<rparr>
      \<lparr>recover_at = 0, claim_at = 0, start_at = (\<lambda>_. 1), done_at = (\<lambda>_. 2), push_at = (\<lambda>_. 3)\<rparr> {} (demo_sched_db [demo_task 1 0]) = (n, pushes, t)
    \<and> (\<exists>r' \<in> set (tasks t). st_id r' = 1 \<and> (st_status r' = ''completed'' \<or> st_status r' = ''failed''))"
proof -
  let ?clk = "\<lparr>recover_at = 0, claim_at = 0, start_at = (\<lambda>_. 1), done_at = (\<lambda>_. 2), push_at = (\<lambda>_. 3)\<rparr>"
  let ?env = "\<lparr>pe_enabled = (\<lambda>_. True), pe_tokens = (\<lambda>_. []), pe_configured = True\<rparr>"
  obtain n pushes t where poll: "poll_once demo_cfg demo_run find_task ?env ?clk {} (demo_sched_db [demo_task 1 0]) = (n, pushes, t)"
    by (cases "poll_once demo_cfg demo_run find_task ?env ?clk {} (demo_sched_db [demo_task 1 0])") blast
  have run: "faultless demo_run" by (simp add: faultless_def demo_run_def)
  have room: "int (length (filter (is_due (claim_at ?clk)) (tasks (demo_sched_db [demo_task 1 0])))) \<le> batch_size demo_cfg"
    by (simp add: demo_cfg_def)
  have "is_due (claim_at ?clk) (demo_task 1 0)" "st_id (demo_task 1 0) = 1" by (simp_all add: is_due_def demo_task_def)
  then have "\<exists>r' \<in> set (tasks t). st_id r' = 1 \<and> (st_status r' = ''completed'' \<or> st_status r' = ''failed'')"
    using due_tasks_end[OF demo_one_ok run room poll] by auto
  with poll show ?thesis by blast
qed

theorem overlapping_cancel_hides_run_witness:
  "fst (delete_with 7 (get_for_user 1 1 (demo_sched_db [demo_task 1 0])) (demo_sched_db [claimed 0 (demo_task 1 0)])) = Inr (Some ''cancelled'')"
proof -
  have "get_for_user 1 1 (demo_sched_db [demo_task 1 0]) = Some (demo_task 1 0)" "st_status (demo_task 1 0) = ''scheduled''"
    by (simp_all add: get_for_user_def demo_task_def)
  from overlapping_cancel_hides_run[OF demo_one_ok this demo_claim, of 7] show ?thesis
    by (simp add: claimed_def demo_task_def)
qed

end
