(* ===== verification/Media_Catalog.thy ===== *)
theory Media_Catalog
  imports PyJson
begin

text \<open>
  The registry of media models (\<open>media_generation/catalog.py\<close>), the price of a run with the operator's tariff
  overlay (\<open>instance_config/tariffs.py\<close>) and the three numbers older apps compute a price from
  (\<open>instance_config/media_pricing.py\<close>). A request's values are a Python dict, \<open>json_obj\<close>. A fractional
  multiplier is a fraction: the floats of the source, 1.5 and multiples of 1/20, are exact in the range of
  prices. The overlay is a map from tariff identifiers, \<open>overrides\<close> the parsed \<open>MEDIA_MODEL_CREDITS\<close>.
\<close>

section \<open>Variants and models\<close>

record FalVariant =
  fv_endpoint :: string
  fv_fields :: "string list"
  fv_aspect_ratios :: "string list"
  fv_resolutions :: "string list"
  fv_durations :: "string list"
  fv_defaults :: json_obj

definition variant_allowed :: "string \<Rightarrow> FalVariant \<Rightarrow> string list" where
  "variant_allowed request_field v =
     (if request_field = ''aspectRatio'' then fv_aspect_ratios v
      else if request_field = ''resolution'' then fv_resolutions v else fv_durations v)"

record FalModel =
  fm_id :: string
  fm_kind :: string
  fm_default_credits :: int
  fm_text_variant :: FalVariant
  fm_image_variant :: "FalVariant option"
  fm_image_field :: "string option"
  fm_image_field_is_list :: bool
  fm_max_input_images :: nat
  fm_base_duration_seconds :: "int option"
  fm_supports_audio :: bool
  fm_resolution_credits :: "(string \<times> int) list"
  fm_resolution_multipliers :: "(string \<times> int) list"
  fm_audio_multiplier :: "(int \<times> int) option"

definition KIND_IMAGE :: string where "KIND_IMAGE = ''image''"
definition KIND_VIDEO :: string where "KIND_VIDEO = ''video''"

definition variant_for :: "bool \<Rightarrow> FalModel \<Rightarrow> FalVariant option" where
  "variant_for with_image model = (if with_image then fm_image_variant model else Some (fm_text_variant model))"

definition FAL_FIELD_NAMES :: "(string \<times> string) list" where
  "FAL_FIELD_NAMES = [(''prompt'', ''prompt''), (''negativePrompt'', ''negative_prompt''), (''aspectRatio'', ''aspect_ratio''),
     (''resolution'', ''resolution''), (''numImages'', ''num_images''), (''outputFormat'', ''output_format''), (''duration'', ''duration''),
     (''generateAudio'', ''generate_audio''), (''cfgScale'', ''cfg_scale''), (''seed'', ''seed'')]"

definition IMAGE_ASPECT_RATIOS :: "string list" where
  "IMAGE_ASPECT_RATIOS = [''auto'', ''21:9'', ''16:9'', ''3:2'', ''4:3'', ''5:4'', ''1:1'', ''4:5'', ''3:4'', ''2:3'', ''9:16'']"

definition NB2_ASPECT_RATIOS :: "string list" where
  "NB2_ASPECT_RATIOS = IMAGE_ASPECT_RATIOS @ [''4:1'', ''1:4'', ''8:1'', ''1:8'']"

definition IMAGE_FIELDS :: "string list" where
  "IMAGE_FIELDS = [''prompt'', ''aspectRatio'', ''resolution'', ''numImages'', ''outputFormat'', ''seed'']"

definition KLING_25_FIELDS :: "string list" where
  "KLING_25_FIELDS = [''prompt'', ''negativePrompt'', ''duration'', ''cfgScale'']"

definition KLING_V3_FIELDS :: "string list" where
  "KLING_V3_FIELDS = [''prompt'', ''negativePrompt'', ''duration'', ''cfgScale'', ''generateAudio'']"

definition KLING_ASPECT_RATIOS :: "string list" where
  "KLING_ASPECT_RATIOS = [''16:9'', ''9:16'', ''1:1'']"

definition KLING_V3_DURATIONS :: "string list" where
  "KLING_V3_DURATIONS = map nat_str [3..<16]"

definition VEO_FIELDS :: "string list" where
  "VEO_FIELDS = [''prompt'', ''negativePrompt'', ''aspectRatio'', ''duration'', ''resolution'', ''generateAudio'', ''seed'']"

definition IMAGE_DEFAULTS :: json_obj where
  "IMAGE_DEFAULTS = [(''resolution'', JStr ''1K''), (''numImages'', JInt 1)]"

definition KLING_25_DEFAULTS :: json_obj where
  "KLING_25_DEFAULTS = [(''duration'', JStr ''5'')]"

definition KLING_V3_DEFAULTS :: json_obj where
  "KLING_V3_DEFAULTS = [(''duration'', JStr ''5''), (''generateAudio'', JBool False)]"

definition VEO_DEFAULTS :: json_obj where
  "VEO_DEFAULTS = [(''duration'', JStr ''8s''), (''resolution'', JStr ''720p''), (''generateAudio'', JBool False)]"

definition image_variant :: "string \<Rightarrow> string list \<Rightarrow> string list \<Rightarrow> FalVariant" where
  "image_variant endpoint ratios resolutions = \<lparr>fv_endpoint = endpoint, fv_fields = IMAGE_FIELDS, fv_aspect_ratios = ratios,
     fv_resolutions = resolutions, fv_durations = [], fv_defaults = IMAGE_DEFAULTS\<rparr>"

definition video_variant :: "string \<Rightarrow> string list \<Rightarrow> string list \<Rightarrow> string list \<Rightarrow> string list \<Rightarrow> json_obj \<Rightarrow> FalVariant" where
  "video_variant endpoint flds ratios resolutions durations defaults = \<lparr>fv_endpoint = endpoint, fv_fields = flds,
     fv_aspect_ratios = ratios, fv_resolutions = resolutions, fv_durations = durations, fv_defaults = defaults\<rparr>"

definition nano_banana_pro :: FalModel where
  "nano_banana_pro = \<lparr>fm_id = ''nano-banana-pro'', fm_kind = KIND_IMAGE, fm_default_credits = 8,
     fm_text_variant = image_variant ''fal-ai/nano-banana-pro'' IMAGE_ASPECT_RATIOS [''1K'', ''2K'', ''4K''],
     fm_image_variant = Some (image_variant ''fal-ai/nano-banana-pro/edit'' IMAGE_ASPECT_RATIOS [''1K'', ''2K'', ''4K'']),
     fm_image_field = Some ''image_urls'', fm_image_field_is_list = True, fm_max_input_images = 14,
     fm_base_duration_seconds = None, fm_supports_audio = False, fm_resolution_credits = [(''1K'', 8), (''2K'', 12), (''4K'', 16)],
     fm_resolution_multipliers = [], fm_audio_multiplier = None\<rparr>"

definition nano_banana_2 :: FalModel where
  "nano_banana_2 = \<lparr>fm_id = ''nano-banana-2'', fm_kind = KIND_IMAGE, fm_default_credits = 4,
     fm_text_variant = image_variant ''fal-ai/nano-banana-2'' NB2_ASPECT_RATIOS [''0.5K'', ''1K'', ''2K'', ''4K''],
     fm_image_variant = Some (image_variant ''fal-ai/nano-banana-2/edit'' NB2_ASPECT_RATIOS [''0.5K'', ''1K'', ''2K'', ''4K'']),
     fm_image_field = Some ''image_urls'', fm_image_field_is_list = True, fm_max_input_images = 14,
     fm_base_duration_seconds = None, fm_supports_audio = False,
     fm_resolution_credits = [(''0.5K'', 3), (''1K'', 4), (''2K'', 6), (''4K'', 8)],
     fm_resolution_multipliers = [], fm_audio_multiplier = None\<rparr>"

definition kling_video :: FalModel where
  "kling_video = \<lparr>fm_id = ''kling-video'', fm_kind = KIND_VIDEO, fm_default_credits = 14,
     fm_text_variant = video_variant ''fal-ai/kling-video/v2.5-turbo/pro/text-to-video'' (KLING_25_FIELDS @ [''aspectRatio''])
       KLING_ASPECT_RATIOS [] [''5'', ''10''] KLING_25_DEFAULTS,
     fm_image_variant = Some (video_variant ''fal-ai/kling-video/v2.5-turbo/pro/image-to-video'' KLING_25_FIELDS
       [] [] [''5'', ''10''] KLING_25_DEFAULTS),
     fm_image_field = Some ''image_url'', fm_image_field_is_list = False, fm_max_input_images = 1,
     fm_base_duration_seconds = Some 5, fm_supports_audio = False, fm_resolution_credits = [],
     fm_resolution_multipliers = [], fm_audio_multiplier = None\<rparr>"

definition kling_video_v3 :: FalModel where
  "kling_video_v3 = \<lparr>fm_id = ''kling-video-v3'', fm_kind = KIND_VIDEO, fm_default_credits = 23,
     fm_text_variant = video_variant ''fal-ai/kling-video/v3/pro/text-to-video'' (KLING_V3_FIELDS @ [''aspectRatio''])
       KLING_ASPECT_RATIOS [] KLING_V3_DURATIONS KLING_V3_DEFAULTS,
     fm_image_variant = Some (video_variant ''fal-ai/kling-video/v3/pro/image-to-video'' KLING_V3_FIELDS
       [] [] KLING_V3_DURATIONS KLING_V3_DEFAULTS),
     fm_image_field = Some ''start_image_url'', fm_image_field_is_list = False, fm_max_input_images = 1,
     fm_base_duration_seconds = Some 5, fm_supports_audio = True, fm_resolution_credits = [],
     fm_resolution_multipliers = [], fm_audio_multiplier = Some (3, 2)\<rparr>"

definition veo_31 :: FalModel where
  "veo_31 = \<lparr>fm_id = ''veo-3.1'', fm_kind = KIND_VIDEO, fm_default_credits = 32,
     fm_text_variant = video_variant ''fal-ai/veo3.1'' VEO_FIELDS [''16:9'', ''9:16''] [''720p'', ''1080p'', ''4k'']
       [''4s'', ''6s'', ''8s''] VEO_DEFAULTS,
     fm_image_variant = Some (video_variant ''fal-ai/veo3.1/image-to-video'' VEO_FIELDS [''auto'', ''16:9'', ''9:16'']
       [''720p'', ''1080p'', ''4k''] [''4s'', ''6s'', ''8s''] VEO_DEFAULTS),
     fm_image_field = Some ''image_url'', fm_image_field_is_list = False, fm_max_input_images = 1,
     fm_base_duration_seconds = Some 4, fm_supports_audio = True, fm_resolution_credits = [],
     fm_resolution_multipliers = [(''720p'', 1), (''1080p'', 1), (''4k'', 2)], fm_audio_multiplier = Some (2, 1)\<rparr>"

definition MODELS :: "FalModel list" where
  "MODELS = [nano_banana_pro, nano_banana_2, kling_video, kling_video_v3, veo_31]"

definition find_model :: "string \<Rightarrow> FalModel option" where
  "find_model model_id = find (\<lambda>m. fm_id m = model_id) MODELS"

definition fal_field_name :: "string \<Rightarrow> string" where
  "fal_field_name f = or_default (map_of FAL_FIELD_NAMES f) f"

section \<open>The request's values\<close>

text \<open>\<open>values\<close> in the order of the dict; a later \<open>d[k] = v\<close> keeps the place of an existing key.\<close>

definition resolve_values :: "FalVariant \<Rightarrow> json_obj \<Rightarrow> json_obj" where
  "resolve_values v vals =
     (let resolved = filter (\<lambda>(k, x). x \<noteq> JNull) vals in
      resolved @ filter (\<lambda>(k, d). k \<in> set (fv_fields v) \<and> k \<notin> fst ` set resolved) (fv_defaults v))"

definition build_fal_input :: "FalModel \<Rightarrow> FalVariant \<Rightarrow> json_obj \<Rightarrow> string list \<Rightarrow> json_obj" where
  "build_fal_input model v vals image_urls =
     map (\<lambda>(k, x). (fal_field_name k, x)) (filter (\<lambda>(k, x). x \<noteq> JNull \<and> k \<in> set (fv_fields v)) vals)
     @ (case fm_image_field model of
          None \<Rightarrow> []
        | Some f \<Rightarrow> if image_urls = [] then []
            else [(f, if fm_image_field_is_list model then JArr (map JStr image_urls) else JStr (hd image_urls))])"

section \<open>The price of a run\<close>

text \<open>\<open>int(s)\<close> of a text of ASCII digits; \<open>str.isdigit\<close> also holds of superscripts, which no duration has.\<close>

fun digits_nat :: "nat \<Rightarrow> string \<Rightarrow> nat option" where
  "digits_nat acc [] = Some acc"
| "digits_nat acc (c # cs) =
     (let n = of_char c in if 48 \<le> n \<and> n \<le> 57 then digits_nat (acc * 10 + (n - 48)) cs else None)"

definition duration_seconds :: "string \<Rightarrow> int option" where
  "duration_seconds s =
     (let digits = rev (dropWhile (\<lambda>c. c = CHR ''s'') (rev s)) in
      if digits = [] then None else map_option int (digits_nat 0 digits))"

definition ceil_div :: "int \<Rightarrow> int \<Rightarrow> int" where
  "ceil_div a b = - (- a div b)"

text \<open>\<open>num_images or 1\<close>, and the truth of an optional text.\<close>

definition price_multiplier :: "FalModel \<Rightarrow> int option \<Rightarrow> string option \<Rightarrow> int" where
  "price_multiplier model num_images duration =
     (if fm_kind model = KIND_IMAGE then max 1 (case num_images of None \<Rightarrow> 1 | Some n \<Rightarrow> if n = 0 then 1 else n)
      else case (fm_base_duration_seconds model, case duration of None \<Rightarrow> None | Some d \<Rightarrow> if d = [] then None else duration_seconds d) of
          (Some base, Some secs) \<Rightarrow> max 1 (ceil_div secs base)
        | _ \<Rightarrow> 1)"

definition image_unit_credits :: "FalModel \<Rightarrow> string option \<Rightarrow> int \<Rightarrow> int" where
  "image_unit_credits model resolution base_credits =
     (let table = fm_resolution_credits model in
      if table = [] then base_credits
      else let listed = (case map_of table (or_default resolution ''1K'') of
                           Some x \<Rightarrow> x
                         | None \<Rightarrow> (case map_of table ''1K'' of Some x \<Rightarrow> x | None \<Rightarrow> snd (hd table))) in
           if base_credits = fm_default_credits model \<or> fm_default_credits model \<le> 0 then listed
           else max 1 ((listed * base_credits + fm_default_credits model - 1) div fm_default_credits model))"

definition run_price :: "FalModel \<Rightarrow> int \<Rightarrow> int option \<Rightarrow> string option \<Rightarrow> string option \<Rightarrow> bool \<Rightarrow> int" where
  "run_price model base_credits num_images duration resolution generate_audio =
     (if fm_kind model = KIND_IMAGE
      then image_unit_credits model resolution base_credits * price_multiplier model num_images None
      else let packs = price_multiplier model None duration;
               res_mult = (case resolution of None \<Rightarrow> 1 | Some r \<Rightarrow> or_default (map_of (fm_resolution_multipliers model) r) 1);
               total = base_credits * packs * res_mult in
           case fm_audio_multiplier model of
             Some (num, den) \<Rightarrow> if generate_audio then max 1 (ceil_div (total * num) den) else total
           | None \<Rightarrow> total)"

section \<open>Operator overrides and the tariff overlay\<close>

text \<open>\<open>Settings.media_model_credits\<close> of the parsed document.\<close>

definition media_model_credits :: "json option \<Rightarrow> (string \<times> int) list" where
  "media_model_credits parsed =
     (case parsed of
        Some (JObj d) \<Rightarrow> List.map_filter (\<lambda>(k, x). case x of JInt i \<Rightarrow> if i \<le> 0 then None else Some (k, i) | _ \<Rightarrow> None) d
      | _ \<Rightarrow> [])"

definition base_credits_for :: "(string \<times> int) list \<Rightarrow> FalModel \<Rightarrow> int" where
  "base_credits_for overrides model = or_default (map_of overrides (fm_id model)) (fm_default_credits model)"

definition tariff_segment :: "string \<Rightarrow> string" where
  "tariff_segment s = py_lower (py_strip s)"

definition photo_tariff_id :: "string \<Rightarrow> string \<Rightarrow> string" where
  "photo_tariff_id model_id resolution = ''photo:'' @ tariff_segment model_id @ '':'' @ tariff_segment resolution"

definition video_tariff_id :: "string \<Rightarrow> string option \<Rightarrow> int \<Rightarrow> bool \<Rightarrow> string" where
  "video_tariff_id model_id resolution secs audio =
     ''video:'' @ tariff_segment model_id @ '':'' @ (if or_default resolution [] = [] then ''na'' else tariff_segment (or_default resolution []))
     @ '':'' @ int_str secs @ '':'' @ (if audio then ''1'' else ''0'')"

type_synonym overlay = "string \<Rightarrow> int option"

definition has_audio_dimension :: "FalModel \<Rightarrow> bool" where
  "has_audio_dimension model = (fm_supports_audio model \<and> fm_audio_multiplier model \<noteq> None)"

definition effective_resolution :: "FalModel \<Rightarrow> string option \<Rightarrow> string option" where
  "effective_resolution model resolution =
     (let table = fm_resolution_credits model in
      if table = [] then None
      else if resolution \<noteq> None \<and> map_of table (or_default resolution []) \<noteq> None then resolution
      else if map_of table ''1K'' \<noteq> None then Some ''1K'' else Some (fst (hd table)))"

definition photo_unit_credits :: "(string \<times> int) list \<Rightarrow> overlay \<Rightarrow> FalModel \<Rightarrow> string option \<Rightarrow> int" where
  "photo_unit_credits overrides tariffs model resolution =
     (case (case effective_resolution model resolution of None \<Rightarrow> None | Some r \<Rightarrow> tariffs (photo_tariff_id (fm_id model) r)) of
        Some tokens \<Rightarrow> tokens
      | None \<Rightarrow> image_unit_credits model resolution (base_credits_for overrides model))"

definition media_run_price ::
  "(string \<times> int) list \<Rightarrow> overlay \<Rightarrow> FalModel \<Rightarrow> int option \<Rightarrow> string option \<Rightarrow> string option \<Rightarrow> bool \<Rightarrow> int" where
  "media_run_price overrides tariffs model num_images duration resolution generate_audio =
     (if fm_kind model = KIND_IMAGE
      then photo_unit_credits overrides tariffs model resolution * max 1 (case num_images of None \<Rightarrow> 1 | Some n \<Rightarrow> if n = 0 then 1 else n)
      else case (case duration of
                   None \<Rightarrow> None
                 | Some d \<Rightarrow> if d = [] then None
                     else (case duration_seconds d of
                             None \<Rightarrow> None
                           | Some secs \<Rightarrow> tariffs (video_tariff_id (fm_id model) resolution secs (generate_audio \<and> has_audio_dimension model)))) of
          Some tokens \<Rightarrow> tokens
        | None \<Rightarrow> run_price model (base_credits_for overrides model) num_images duration resolution generate_audio)"

end
