(* ===== verification/Media_Pricing.thy ===== *)
theory Media_Pricing
  imports Media_Catalog
begin

text \<open>
  The price table of a video model and the aggregate older apps read (\<open>instance_config/media_pricing.py\<close>): base
  credits, a whole multiplier per resolution and one for sound, from which such an app computes a price itself.
  The aggregate must never come out below what a run is charged, whatever the operator's tariff says. A
  multiplier for sound is a number of twentieths.
\<close>

section \<open>The cells of a model\<close>

record VideoCell =
  vc_resolution :: "string option"
  vc_duration :: string
  vc_seconds :: int
  vc_audio :: bool
  vc_tariff_id :: string

definition video_cells :: "FalModel \<Rightarrow> VideoCell list" where
  "video_cells model =
     (let resolutions = (if fm_resolution_multipliers model = [] then [None] else map (Some \<circ> fst) (fm_resolution_multipliers model));
          audios = (if has_audio_dimension model then [False, True] else [False]) in
      concat (map (\<lambda>res. concat (map (\<lambda>d. (case duration_seconds d of
            None \<Rightarrow> []
          | Some secs \<Rightarrow> map (\<lambda>audio. \<lparr>vc_resolution = res, vc_duration = d, vc_seconds = secs, vc_audio = audio,
              vc_tariff_id = video_tariff_id (fm_id model) res secs audio\<rparr>) audios))
        (fv_durations (fm_text_variant model)))) resolutions))"

definition cell_price :: "(string \<times> int) list \<Rightarrow> overlay \<Rightarrow> FalModel \<Rightarrow> VideoCell \<Rightarrow> int" where
  "cell_price overrides tariffs model c = media_run_price overrides tariffs model None (Some (vc_duration c)) (vc_resolution c) (vc_audio c)"

definition cell_packs :: "FalModel \<Rightarrow> VideoCell \<Rightarrow> int" where
  "cell_packs model c = price_multiplier model None (Some (vc_duration c))"

text \<open>A dict comprehension keyed by the tariff identifier: a later cell replaces an earlier one with the same key.\<close>

definition by_tariff :: "(VideoCell \<Rightarrow> int) \<Rightarrow> VideoCell list \<Rightarrow> string \<Rightarrow> int" where
  "by_tariff f cells k = or_default (map_of (rev (map (\<lambda>c. (vc_tariff_id c, f c)) cells)) k) 0"

section \<open>The aggregate\<close>

text \<open>The first resolution with the least multiplier.\<close>

definition base_resolution :: "FalModel \<Rightarrow> string option" where
  "base_resolution model =
     (case fm_resolution_multipliers model of
        [] \<Rightarrow> None
      | table \<Rightarrow> map_option fst (find (\<lambda>(r, m). m = Min (set (map snd table))) table))"

definition max_of :: "int list \<Rightarrow> int" where
  "max_of xs = fold max xs 1"

definition base_pack_credits :: "VideoCell list \<Rightarrow> (string \<Rightarrow> int) \<Rightarrow> (string \<Rightarrow> int) \<Rightarrow> string option \<Rightarrow> int" where
  "base_pack_credits cells prices packs base =
     max 1 (max_of (map (\<lambda>c. ceil_div (prices (vc_tariff_id c)) (packs (vc_tariff_id c)))
       (filter (\<lambda>c. \<not> vc_audio c \<and> vc_resolution c = base) cells)))"

definition resolution_multiplier :: "VideoCell list \<Rightarrow> (string \<Rightarrow> int) \<Rightarrow> (string \<Rightarrow> int) \<Rightarrow> int \<Rightarrow> string \<Rightarrow> int" where
  "resolution_multiplier cells prices packs credits r =
     max_of (map (\<lambda>c. max 1 (ceil_div (prices (vc_tariff_id c)) (credits * packs (vc_tariff_id c))))
       (filter (\<lambda>c. \<not> vc_audio c \<and> vc_resolution c = Some r) cells))"

definition resolution_factor :: "VideoCell \<Rightarrow> (string \<times> int) list option \<Rightarrow> int" where
  "resolution_factor c multipliers =
     (case (multipliers, vc_resolution c) of (Some ms, Some r) \<Rightarrow> or_default (map_of ms r) 1 | _ \<Rightarrow> 1)"

definition minimal_audio_multiplier ::
  "VideoCell list \<Rightarrow> (string \<Rightarrow> int) \<Rightarrow> (string \<Rightarrow> int) \<Rightarrow> int \<Rightarrow> (string \<times> int) list option \<Rightarrow> int" where
  "minimal_audio_multiplier audio_cells prices packs credits multipliers =
     fold (\<lambda>c minimal. let base = credits * packs (vc_tariff_id c) * resolution_factor c multipliers in
         if base \<le> 0 then minimal else max minimal (20 * (prices (vc_tariff_id c) - 1) div base + 1)) audio_cells 1"

text \<open>What an older app computes. The source goes through the number of units, which 1/20 divides exactly.\<close>

definition legacy_client_price :: "VideoCell \<Rightarrow> int \<Rightarrow> (string \<times> int) list option \<Rightarrow> int option \<Rightarrow> int \<Rightarrow> int" where
  "legacy_client_price c credits multipliers audio_steps packs =
     (let base = credits * packs * resolution_factor c multipliers in
      case audio_steps of
        None \<Rightarrow> base
      | Some step \<Rightarrow> if vc_audio c then ceil_div (base * step) 20 else base)"

record LegacyVideoPricing =
  lp_credits :: int
  lp_resolution_multipliers :: "(string \<times> int) list option"
  lp_audio_steps :: "int option"
  lp_over_quotes :: bool

definition derive_legacy_video_pricing :: "(string \<times> int) list \<Rightarrow> overlay \<Rightarrow> FalModel \<Rightarrow> LegacyVideoPricing" where
  "derive_legacy_video_pricing overrides tariffs model =
     (let cells = video_cells model;
          prices = by_tariff (cell_price overrides tariffs model) cells;
          packs = by_tariff (cell_packs model) cells;
          credits = base_pack_credits cells prices packs (base_resolution model);
          multipliers = (if fm_resolution_multipliers model = [] then None
            else Some (map (\<lambda>(r, m). (r, resolution_multiplier cells prices packs credits r)) (fm_resolution_multipliers model)));
          audio_cells = filter vc_audio cells;
          audio = (if audio_cells = [] then None else Some (minimal_audio_multiplier audio_cells prices packs credits multipliers)) in
      \<lparr>lp_credits = credits, lp_resolution_multipliers = multipliers, lp_audio_steps = audio,
       lp_over_quotes = list_ex (\<lambda>c. prices (vc_tariff_id c) < legacy_client_price c credits multipliers audio (packs (vc_tariff_id c))) cells\<rparr>)"

text \<open>The base price for display.\<close>

definition media_base_credits :: "(string \<times> int) list \<Rightarrow> overlay \<Rightarrow> FalModel \<Rightarrow> int" where
  "media_base_credits overrides tariffs model =
     (if fm_kind model = KIND_IMAGE then photo_unit_credits overrides tariffs model None
      else let cells = video_cells model in
           base_pack_credits cells (by_tariff (cell_price overrides tariffs model) cells) (by_tariff (cell_packs model) cells)
             (base_resolution model))"

section \<open>Arithmetic\<close>

lemma le_int_div_iff: "0 < b \<Longrightarrow> c \<le> a div b \<longleftrightarrow> c * b \<le> (a :: int)"
proof
  assume b: "0 < b"
  have a: "a div b * b + a mod b = a" by (rule div_mult_mod_eq)
  { assume "c \<le> a div b"
    then have "c * b \<le> a div b * b" using b by (intro mult_right_mono) simp_all
    also have "\<dots> \<le> a" using a pos_mod_sign[OF b, of a] by linarith
    finally show "c * b \<le> a" .
  next
    assume le: "c * b \<le> a"
    show "c \<le> a div b"
    proof (rule ccontr)
      assume "\<not> c \<le> a div b"
      then have "(a div b + 1) * b \<le> c * b" using b by (intro mult_right_mono) simp_all
      then have "a div b * b + b \<le> c * b" by (simp only: distrib_right mult_1)
      with le a pos_mod_bound[OF b, of a] show False by linarith
    qed }
qed

lemma ceil_div_le_iff: "0 < b \<Longrightarrow> ceil_div a b \<le> c \<longleftrightarrow> a \<le> c * b"
  using le_int_div_iff[of b "- c" "- a"] by (auto simp: ceil_div_def)

lemma ceil_div_ge: "0 < b \<Longrightarrow> a \<le> ceil_div a b * b"
  using ceil_div_le_iff[of b a "ceil_div a b"] by simp

lemma less_ceil_div_iff: "0 < b \<Longrightarrow> c < ceil_div a b \<longleftrightarrow> c * b < a"
  using ceil_div_le_iff[of b a c] by linarith

lemma fold_max_ge: "x \<le> fold max xs (x :: int)" "y \<in> set xs \<Longrightarrow> y \<le> fold max xs x"
proof (induction xs arbitrary: x)
  case (Cons z zs)
  { case 1 show ?case using Cons(1)[of "max z x"] by simp }
  { case 2 then show ?case using Cons(1)[of "max z x"] Cons(2)[of "max z x"] by auto }
qed simp_all

lemma fold_max_le: "(\<And>y. y \<in> set xs \<Longrightarrow> y \<le> b) \<Longrightarrow> x \<le> b \<Longrightarrow> fold max xs x \<le> (b :: int)"
  by (induction xs arbitrary: x) auto

lemma max_of_ge: "1 \<le> max_of xs" "y \<in> set xs \<Longrightarrow> y \<le> max_of xs"
  unfolding max_of_def by (rule fold_max_ge, erule fold_max_ge)

section \<open>The dictionaries\<close>

definition separate :: "VideoCell list \<Rightarrow> bool" where
  "separate cells \<longleftrightarrow> distinct (map vc_tariff_id cells)"

lemma by_tariff_cell:
  assumes "separate cells" and "c \<in> set cells"
  shows "by_tariff f cells (vc_tariff_id c) = f c"
proof -
  have "distinct (map fst (rev (map (\<lambda>c. (vc_tariff_id c, f c)) cells)))"
    using assms(1) by (simp add: separate_def rev_map[symmetric] comp_def)
  moreover have "(vc_tariff_id c, f c) \<in> set (rev (map (\<lambda>c. (vc_tariff_id c, f c)) cells))"
    using assms(2) by auto
  ultimately show ?thesis unfolding by_tariff_def by (simp add: map_of_is_SomeI)
qed

text \<open>The aggregate of any table: \<open>p\<close> the price and \<open>n\<close> the packs of a cell.\<close>

definition covers :: "(VideoCell \<Rightarrow> int) \<Rightarrow> (VideoCell \<Rightarrow> int) \<Rightarrow> VideoCell list \<Rightarrow> int \<Rightarrow> (string \<times> int) list option \<Rightarrow> int option \<Rightarrow> bool" where
  "covers p n cells credits multipliers audio \<longleftrightarrow>
     (\<forall>c \<in> set cells. p c \<le> legacy_client_price c credits multipliers audio (n c))"

lemma base_pack_credits_ge:
  assumes "c \<in> set cells" and "\<not> vc_audio c" and "vc_resolution c = base"
  shows "ceil_div (prices (vc_tariff_id c)) (packs (vc_tariff_id c)) \<le> base_pack_credits cells prices packs base"
    and "1 \<le> base_pack_credits cells prices packs base"
  using assms max_of_ge(2)[of "ceil_div (prices (vc_tariff_id c)) (packs (vc_tariff_id c))"]
  unfolding base_pack_credits_def by (auto intro: le_max_iff_disj[THEN iffD2])

lemma base_pack_credits_pos: "1 \<le> base_pack_credits cells prices packs base"
  by (simp add: base_pack_credits_def)

lemma resolution_multiplier_ge:
  "1 \<le> resolution_multiplier cells prices packs credits r"
  "c \<in> set cells \<Longrightarrow> \<not> vc_audio c \<Longrightarrow> vc_resolution c = Some r \<Longrightarrow>
    ceil_div (prices (vc_tariff_id c)) (credits * packs (vc_tariff_id c)) \<le> resolution_multiplier cells prices packs credits r"
proof -
  show "1 \<le> resolution_multiplier cells prices packs credits r" by (simp add: resolution_multiplier_def max_of_ge)
  assume "c \<in> set cells" "\<not> vc_audio c" "vc_resolution c = Some r"
  then have "max 1 (ceil_div (prices (vc_tariff_id c)) (credits * packs (vc_tariff_id c))) \<le> resolution_multiplier cells prices packs credits r"
    unfolding resolution_multiplier_def by (intro max_of_ge(2)) auto
  then show "ceil_div (prices (vc_tariff_id c)) (credits * packs (vc_tariff_id c)) \<le> resolution_multiplier cells prices packs credits r"
    by simp
qed

text \<open>The closed formula is the least number of twentieths that covers every cell with sound.\<close>

definition audio_covered :: "VideoCell list \<Rightarrow> (string \<Rightarrow> int) \<Rightarrow> (string \<Rightarrow> int) \<Rightarrow> int \<Rightarrow> (string \<times> int) list option \<Rightarrow> int \<Rightarrow> bool" where
  "audio_covered cells prices packs credits multipliers m \<longleftrightarrow>
     (\<forall>c \<in> set cells. prices (vc_tariff_id c) \<le> ceil_div (credits * packs (vc_tariff_id c) * resolution_factor c multipliers * m) 20)"

lemma audio_bound:
  assumes "0 < base"
  shows "p \<le> ceil_div (base * m) 20 \<longleftrightarrow> 20 * (p - 1) div base + 1 \<le> m"
proof -
  have "p \<le> ceil_div (base * m) 20 \<longleftrightarrow> (p - 1) * 20 < base * m"
    using less_ceil_div_iff[of 20 "p - 1" "base * m"] by auto
  also have "\<dots> \<longleftrightarrow> \<not> m * base \<le> 20 * (p - 1)" by (auto simp: algebra_simps)
  also have "\<dots> \<longleftrightarrow> \<not> m \<le> 20 * (p - 1) div base" using le_int_div_iff[OF assms] by simp
  finally show ?thesis by linarith
qed

lemma fold_audio:
  assumes "\<forall>c \<in> set cells. (0 :: int) < base c"
  shows "fold (\<lambda>c minimal. if base c \<le> 0 then minimal else max minimal (g c)) cells x = fold max (map g cells) (x :: int)"
proof -
  have "a \<in> set cells \<Longrightarrow> \<not> base a \<le> 0" for a using assms by (simp add: not_le)
  then show ?thesis by (induction cells arbitrary: x) (simp_all add: max.commute)
qed

lemma minimal_audio_multiplier_least:
  assumes "\<forall>c \<in> set cells. 0 < credits * packs (vc_tariff_id c) * resolution_factor c multipliers"
    and m_def: "m = minimal_audio_multiplier cells prices packs credits multipliers"
  shows "1 \<le> m" and "audio_covered cells prices packs credits multipliers m"
    and "1 \<le> m' \<Longrightarrow> audio_covered cells prices packs credits multipliers m' \<Longrightarrow> m \<le> m'"
proof -
  let ?base = "\<lambda>c. credits * packs (vc_tariff_id c) * resolution_factor c multipliers"
  let ?g = "\<lambda>c. 20 * (prices (vc_tariff_id c) - 1) div ?base c + 1"
  have m: "m = fold max (map ?g cells) 1"
    unfolding m_def minimal_audio_multiplier_def Let_def using fold_audio[OF assms(1), of ?g 1] by simp
  show "1 \<le> m" unfolding m by (rule fold_max_ge)
  have "?g c \<le> m" if "c \<in> set cells" for c unfolding m using that by (intro fold_max_ge(2)) auto
  then show "audio_covered cells prices packs credits multipliers m"
    unfolding audio_covered_def using audio_bound assms(1) by blast
  show "m \<le> m'" if "1 \<le> m'" "audio_covered cells prices packs credits multipliers m'"
    unfolding m using that audio_bound assms(1) unfolding audio_covered_def by (intro fold_max_le) auto
qed

section \<open>The aggregate covers every cell\<close>

lemma catalog_separate: "model \<in> set MODELS \<Longrightarrow> separate (video_cells model)"
proof -
  have "list_all (\<lambda>m. separate (video_cells m)) MODELS" by code_simp
  then show "model \<in> set MODELS \<Longrightarrow> separate (video_cells model)" by (simp add: list_all_iff)
qed

lemma cell_packs_pos: "1 \<le> cell_packs model c"
  by (simp add: cell_packs_def price_multiplier_def split: option.split)

lemma video_cells_resolution:
  assumes "c \<in> set (video_cells model)"
  shows "if fm_resolution_multipliers model = [] then vc_resolution c = None
    else \<exists>r \<in> fst ` set (fm_resolution_multipliers model). vc_resolution c = Some r"
proof -
  have "vc_resolution c \<in> set (if fm_resolution_multipliers model = [] then [None] else map (Some \<circ> fst) (fm_resolution_multipliers model))"
    using assms by (force simp: video_cells_def Let_def split: option.splits if_splits)
  then show ?thesis by (auto split: if_splits)
qed

lemma map_of_const_map: "r \<in> fst ` set xs \<Longrightarrow> map_of (map (\<lambda>(r, m). (r, f r)) xs) r = Some (f r)"
  by (induction xs) auto

text \<open>The parts of the aggregate, by their definitions.\<close>

lemma aggregate_parts:
  fixes overrides tariffs model
  defines "cells \<equiv> video_cells model"
  defines "prices \<equiv> by_tariff (cell_price overrides tariffs model) cells"
  defines "packs \<equiv> by_tariff (cell_packs model) cells"
  defines "lp \<equiv> derive_legacy_video_pricing overrides tariffs model"
  shows "lp_credits lp = base_pack_credits cells prices packs (base_resolution model)"
    and "lp_resolution_multipliers lp = (if fm_resolution_multipliers model = [] then None
            else Some (map (\<lambda>(r, m). (r, resolution_multiplier cells prices packs (lp_credits lp) r)) (fm_resolution_multipliers model)))"
    and "lp_audio_steps lp = (if filter vc_audio cells = [] then None
            else Some (minimal_audio_multiplier (filter vc_audio cells) prices packs (lp_credits lp) (lp_resolution_multipliers lp)))"
  unfolding lp_def cells_def prices_def packs_def by (simp_all add: derive_legacy_video_pricing_def Let_def)

lemma aggregate_covers:
  assumes "separate (video_cells model)" and "c \<in> set (video_cells model)"
    and lp_def: "lp = derive_legacy_video_pricing overrides tariffs model"
  shows "0 < lp_credits lp * cell_packs model c * resolution_factor c (lp_resolution_multipliers lp)"
    and "cell_price overrides tariffs model c
      \<le> legacy_client_price c (lp_credits lp) (lp_resolution_multipliers lp) (lp_audio_steps lp) (cell_packs model c)"
proof -
  let ?cells = "video_cells model"
  define prices where "prices = by_tariff (cell_price overrides tariffs model) ?cells"
  define packs where "packs = by_tariff (cell_packs model) ?cells"
  note parts = aggregate_parts[of overrides tariffs model, folded lp_def prices_def packs_def]
  let ?X = "lp_credits lp" and ?ms = "lp_resolution_multipliers lp"
  have look: "prices (vc_tariff_id x) = cell_price overrides tariffs model x" "packs (vc_tariff_id x) = cell_packs model x"
    if "x \<in> set ?cells" for x
    unfolding prices_def packs_def using by_tariff_cell[OF assms(1) that] by simp_all
  have X: "1 \<le> ?X" unfolding parts(1) by (rule base_pack_credits_pos)
  have factor: "1 \<le> resolution_factor x ?ms" if mem: "x \<in> set ?cells" for x
  proof (cases "fm_resolution_multipliers model = []")
    case False
    then obtain r where "r \<in> fst ` set (fm_resolution_multipliers model)" "vc_resolution x = Some r"
      using video_cells_resolution[OF mem] by auto
    then show ?thesis using False resolution_multiplier_ge(1) unfolding parts(2)
      by (simp add: resolution_factor_def map_of_const_map)
  qed (simp add: parts(2) resolution_factor_def)
  have base: "0 < ?X * cell_packs model x * resolution_factor x ?ms" if "x \<in> set ?cells" for x
    using X cell_packs_pos[of model x] factor[OF that] by simp
  show "0 < ?X * cell_packs model c * resolution_factor c ?ms" by (rule base) fact
  show "cell_price overrides tariffs model c \<le> legacy_client_price c ?X ?ms (lp_audio_steps lp) (cell_packs model c)"
  proof (cases "vc_audio c")
    case True
    let ?audio = "filter vc_audio ?cells"
    have mine: "c \<in> set ?audio" using True assms(2) by simp
    have "\<forall>x \<in> set ?audio. 0 < ?X * packs (vc_tariff_id x) * resolution_factor x ?ms" using base look(2) by simp
    from minimal_audio_multiplier_least(2)[OF this refl, of prices] mine
    have "prices (vc_tariff_id c)
      \<le> ceil_div (?X * packs (vc_tariff_id c) * resolution_factor c ?ms * minimal_audio_multiplier ?audio prices packs ?X ?ms) 20"
      unfolding audio_covered_def by blast
    moreover have "lp_audio_steps lp = Some (minimal_audio_multiplier ?audio prices packs ?X ?ms)"
      using mine unfolding parts(3) by (auto simp: filter_empty_conv)
    ultimately show ?thesis using True look[OF assms(2)] by (simp add: legacy_client_price_def Let_def)
  next
    case False
    have "cell_price overrides tariffs model c \<le> ?X * cell_packs model c * resolution_factor c ?ms"
    proof (cases "fm_resolution_multipliers model = []")
      case True
      then have res: "vc_resolution c = base_resolution model" "resolution_factor c ?ms = 1"
        using video_cells_resolution[OF assms(2)] by (simp_all add: base_resolution_def resolution_factor_def split: option.split)
      from base_pack_credits_ge(1)[OF assms(2) False res(1), where prices = prices and packs = packs]
      have "ceil_div (cell_price overrides tariffs model c) (cell_packs model c) \<le> ?X"
        unfolding parts(1) look[OF assms(2)] .
      then show ?thesis using ceil_div_le_iff[of "cell_packs model c"] cell_packs_pos[of model c] res(2) by simp
    next
      case nonempty: False
      then obtain r where r: "r \<in> fst ` set (fm_resolution_multipliers model)" "vc_resolution c = Some r"
        using video_cells_resolution[OF assms(2)] by auto
      let ?m = "resolution_multiplier ?cells prices packs ?X r"
      have f: "resolution_factor c ?ms = ?m" using r nonempty unfolding parts(2) by (simp add: resolution_factor_def map_of_const_map)
      have "ceil_div (cell_price overrides tariffs model c) (?X * cell_packs model c) \<le> ?m"
        using resolution_multiplier_ge(2)[OF assms(2) False r(2), where prices = prices and packs = packs and credits = "?X"] unfolding look[OF assms(2)] .
      moreover have "0 < ?X * cell_packs model c" using X cell_packs_pos[of model c] by simp
      ultimately show ?thesis unfolding f using ceil_div_le_iff by (simp add: algebra_simps)
    qed
    then show ?thesis using False by (simp add: legacy_client_price_def Let_def split: option.split)
  qed
qed

text \<open>
  The price an older app shows is never below the charge. Whatever the operator put into the tariff overlay
  and the price overrides, for every combination a catalog model can run, the price computed from the
  aggregate (credits, packs, resolution multiplier, sound multiplier, rounded up) is at least what the run is
  charged; and the multiplier for sound is the least number of twentieths for which that holds.
\<close>

theorem aggregate_never_underquotes:
  assumes "model \<in> set MODELS" and "lp = derive_legacy_video_pricing overrides tariffs model"
  shows "(\<forall>c \<in> set (video_cells model). cell_price overrides tariffs model c
      \<le> legacy_client_price c (lp_credits lp) (lp_resolution_multipliers lp) (lp_audio_steps lp) (cell_packs model c))
    \<and> (\<forall>m m'. lp_audio_steps lp = Some m \<and> 1 \<le> m' \<and>
        (\<forall>c \<in> set (video_cells model). vc_audio c \<longrightarrow> cell_price overrides tariffs model c
          \<le> legacy_client_price c (lp_credits lp) (lp_resolution_multipliers lp) (Some m') (cell_packs model c)) \<longrightarrow> m \<le> m')"
proof (intro conjI ballI allI impI)
  note sep = catalog_separate[OF assms(1)]
  show "cell_price overrides tariffs model c
      \<le> legacy_client_price c (lp_credits lp) (lp_resolution_multipliers lp) (lp_audio_steps lp) (cell_packs model c)"
    if "c \<in> set (video_cells model)" for c
    using that by (rule aggregate_covers(2)[OF sep _ assms(2)])
  let ?cells = "filter vc_audio (video_cells model)"
  let ?prices = "by_tariff (cell_price overrides tariffs model) (video_cells model)" and ?packs = "by_tariff (cell_packs model) (video_cells model)"
  fix m m'
  assume m: "lp_audio_steps lp = Some m \<and> 1 \<le> m' \<and>
        (\<forall>c \<in> set (video_cells model). vc_audio c \<longrightarrow> cell_price overrides tariffs model c
          \<le> legacy_client_price c (lp_credits lp) (lp_resolution_multipliers lp) (Some m') (cell_packs model c))"
  have "m = minimal_audio_multiplier ?cells ?prices ?packs (lp_credits lp) (lp_resolution_multipliers lp)"
    using m aggregate_parts(3)[of overrides tariffs model] unfolding assms(2) by (simp split: if_splits)
  moreover have "\<forall>c \<in> set ?cells. 0 < lp_credits lp * ?packs (vc_tariff_id c) * resolution_factor c (lp_resolution_multipliers lp)"
    using aggregate_covers(1)[OF sep _ assms(2)] by_tariff_cell[OF sep] by simp
  moreover have "audio_covered ?cells ?prices ?packs (lp_credits lp) (lp_resolution_multipliers lp) m'"
    using m by_tariff_cell[OF sep] by (simp add: audio_covered_def legacy_client_price_def Let_def)
  ultimately show "m \<le> m'" using m minimal_audio_multiplier_least(3) by blast
qed

theorem aggregate_never_underquotes_witness:
  "let T = [''video:veo-3.1:4k:8:1'' \<mapsto> 999]; lp = derive_legacy_video_pricing [] T veo_31;
       c = \<lparr>vc_resolution = Some ''4k'', vc_duration = ''8s'', vc_seconds = 8, vc_audio = True, vc_tariff_id = ''video:veo-3.1:4k:8:1''\<rparr> in
     cell_price [] T veo_31 c = 999
       \<and> 999 \<le> legacy_client_price c (lp_credits lp) (lp_resolution_multipliers lp) (lp_audio_steps lp) (cell_packs veo_31 c)"
proof -
  let ?T = "[''video:veo-3.1:4k:8:1'' \<mapsto> 999]"
  let ?c = "\<lparr>vc_resolution = Some ''4k'', vc_duration = ''8s'', vc_seconds = 8, vc_audio = True, vc_tariff_id = ''video:veo-3.1:4k:8:1''\<rparr>"
  have price: "cell_price [] ?T veo_31 ?c = 999" by code_simp
  have "veo_31 \<in> set MODELS" by (simp add: MODELS_def)
  moreover have "?c \<in> set (video_cells veo_31)"
  proof -
    have "List.member (video_cells veo_31) ?c" by code_simp
    then show ?thesis by (simp only: List.member_iff)
  qed
  ultimately show ?thesis
    using conjunct1[OF aggregate_never_underquotes[OF _ refl, of veo_31 "[]" ?T]] price by (fastforce simp only: Let_def)
qed

end
