(* ===== verification/Media_Callback.thy ===== *)
theory Media_Callback
  imports Complex_Main Media_Catalog Errors
begin

text \<open>
  What a proxy callback says (\<open>media_generation/webhook.py\<close>) and the normalized result it carries
  (\<open>media_generation/service.py\<close>, \<open>asset_hosts.py\<close>, \<open>proxy_client.mask_secret_text\<close>). \<open>loads\<close> is \<open>json.loads\<close>
  (\<open>None\<close> is its \<open>ValueError\<close>), \<open>urlsplit\<close> gives the scheme and the host name of a URL (\<open>None\<close>: \<open>ValueError\<close>),
  \<open>dec\<close> is the \<open>decimal.Decimal\<close> constructor on text (\<open>None\<close>: \<open>InvalidOperation\<close>). Money is in millionths
  of a dollar, the scale of the columns. A normalized result is a record: all its writers build that shape.
\<close>

section \<open>Status\<close>

definition TERMINAL_FAIL :: "string list" where
  "TERMINAL_FAIL = [''failed'', ''fail'', ''error'', ''canceled'', ''cancelled'', ''moderated'']"

definition TERMINAL_OK :: "string list" where
  "TERMINAL_OK = [''completed'', ''success'', ''succeeded'', ''ok'']"

definition FAILURE_CODES :: "int list" where
  "FAILURE_CODES = [400, 500, 501]"

definition status_of :: "json \<Rightarrow> string option" where
  "status_of source =
     (case source of
        JObj d \<Rightarrow> first_some (\<lambda>k. case jget k d of JStr s \<Rightarrow> if s \<noteq> [] then Some (py_lower (py_strip s)) else None | _ \<Rightarrow> None)
          [''status'', ''state'']
      | _ \<Rightarrow> None)"

definition status_token :: "json_obj \<Rightarrow> string" where
  "status_token body = or_default (first_some status_of [JObj body, jget ''data'' body]) []"

definition webhook_failed :: "json_obj \<Rightarrow> bool" where
  "webhook_failed body =
     (let status = status_token body in
      if status \<in> set TERMINAL_FAIL then True
      else if status \<in> set TERMINAL_OK then False
      else (case jget ''code'' body of JInt i \<Rightarrow> i \<in> set FAILURE_CODES | _ \<Rightarrow> False) \<or> jget ''error'' body = JBool True)"

section \<open>Asset URLs\<close>

definition looks_like_asset :: "string \<Rightarrow> bool" where
  "looks_like_asset url = list_ex (\<lambda>t. py_contains t (py_lower url))
     [''.png'', ''.jpg'', ''.jpeg'', ''.webp'', ''.mp4'', ''/files/'', ''fal.media'', ''sosana.'', ''aiquickdraw'', ''storage.'']"

definition is_https :: "string \<Rightarrow> bool" where
  "is_https url = py_startswith ''https://'' url"

definition unique_urls :: "string list \<Rightarrow> string list" where
  "unique_urls urls = rev (remdups (rev urls))"

definition URL_KEYS :: "string list" where
  "URL_KEYS = [''result_file_url'', ''resultFileUrl'', ''resultImageUrl'', ''url'', ''mediaUrl'', ''output_url'']"

definition LIST_KEYS :: "string list" where
  "LIST_KEYS = [''output_urls'', ''image_urls'', ''images'', ''videos'', ''assets'']"

definition NESTED_KEYS :: "string list" where
  "NESTED_KEYS = [''data'', ''payload'', ''result'', ''video'', ''image'', ''info'', ''resultJson'']"

definition https_text :: "json \<Rightarrow> string option" where
  "https_text v = (case v of JStr s \<Rightarrow> if is_https s then Some s else None | _ \<Rightarrow> None)"

text \<open>The number is \<open>7 - _depth\<close>: the levels still to be read.\<close>

fun collect_urls :: "json_reader \<Rightarrow> nat \<Rightarrow> json \<Rightarrow> string list" where
  "collect_urls loads 0 v = []"
| "collect_urls loads (Suc n) v =
     (case v of
        JStr s \<Rightarrow>
          if is_https s \<and> looks_like_asset s then [s]
          else if py_startswith ''{'' s \<or> py_startswith ''['' s
          then (case loads s of None \<Rightarrow> [] | Some inner \<Rightarrow> collect_urls loads n inner)
          else []
      | JArr items \<Rightarrow> unique_urls (concat (map (collect_urls loads n) items))
      | JObj d \<Rightarrow> unique_urls
          (List.map_filter (\<lambda>k. https_text (jget k d)) URL_KEYS
           @ (case jget ''resultUrls'' d of JArr urls \<Rightarrow> List.map_filter https_text urls | _ \<Rightarrow> [])
           @ concat (map (\<lambda>k. collect_urls loads n (jget k d)) (LIST_KEYS @ NESTED_KEYS)))
      | _ \<Rightarrow> [])"

abbreviation urls_of :: "json_reader \<Rightarrow> json_obj \<Rightarrow> string list" where
  "urls_of loads body \<equiv> collect_urls loads 7 (JObj body)"

datatype callback_class = Callback_failed | Callback_completed | Callback_pending

definition webhook_outcome :: "json_reader \<Rightarrow> json_obj \<Rightarrow> callback_class" where
  "webhook_outcome loads body =
     (if webhook_failed body then Callback_failed
      else if status_token body \<in> set TERMINAL_OK then Callback_completed
      else if urls_of loads body \<noteq> [] then Callback_completed else Callback_pending)"

section \<open>The vendor's error text\<close>

definition plain_message :: "bool \<Rightarrow> json \<Rightarrow> string option" where
  "plain_message drop_flags v =
     (case v of
        JStr s \<Rightarrow> if py_strip s = [] \<or> drop_flags \<and> py_lower (py_strip s) \<in> {''error'', ''true''} then None
                  else Some (take 500 (py_join_words (py_words [] s)))
      | _ \<Rightarrow> None)"

definition error_message :: "json_obj \<Rightarrow> string option" where
  "error_message body =
     opt_or (first_some (\<lambda>k. plain_message True (jget k body)) [''error'', ''failMsg'', ''message'', ''msg''])
       (case jget ''data'' body of
          JObj d \<Rightarrow> first_some (\<lambda>k. plain_message False (jget k d)) [''error'', ''failMsg'', ''message'']
        | _ \<Rightarrow> None)"

definition webhook_error_message :: "json_obj \<Rightarrow> string" where
  "webhook_error_message body =
     (case error_message body of None \<Rightarrow> ''generation failed upstream''
      | Some m \<Rightarrow> if m = [] then ''generation failed upstream'' else m)"

text \<open>\<open>_SECRET_TEXT.sub\<close>: at each place the alternatives in order. \<open>prev\<close> is the character before; the number
  counts the characters of a match still to be skipped. \<open>\<s>+\<close> takes all the white space there is: with
  less, the next character would be white space, which the class after it excludes.\<close>

definition key_end :: "char \<Rightarrow> bool" where
  "key_end c = (py_isspace c \<or> c = CHR 0x22 \<or> c = CHR 0x27 \<or> c = CHR '','')"

definition bearer_match :: "string \<Rightarrow> (string \<times> nat) option" where
  "bearer_match s =
     (if py_lower (take 6 s) \<noteq> ''bearer'' then None
      else let gap = takeWhile py_isspace (drop 6 s); rest = takeWhile (\<lambda>c. \<not> key_end c) (drop (6 + length gap) s) in
           if gap = [] \<or> rest = [] then None else Some (take 6 s @ gap, 6 + length gap + length rest))"

definition sk_match :: "char option \<Rightarrow> string \<Rightarrow> (string \<times> nat) option" where
  "sk_match prev s =
     (if (case prev of None \<Rightarrow> False | Some c \<Rightarrow> word_char c) \<or> py_lower (take 3 s) \<noteq> ''sk_'' then None
      else let rest = takeWhile (\<lambda>c. (word_char c \<and> of_char c < (128 :: nat)) \<or> c = CHR ''-'') (drop 3 s) in
           if rest = [] then None else Some ([], 3 + length rest))"

definition assigned_match :: "string \<Rightarrow> (string \<times> nat) option" where
  "assigned_match s =
     first_some (\<lambda>name. if py_lower (take (length name) s) \<noteq> name then None
       else let rest = takeWhile (\<lambda>c. \<not> key_end c \<and> c \<noteq> CHR ''&'') (drop (length name) s) in
            if rest = [] then None else Some (take (length name) s, length name + length rest)) [''token='', ''key='', ''secret='']"

fun mask_keys :: "char option \<Rightarrow> nat \<Rightarrow> string \<Rightarrow> string" where
  "mask_keys prev k [] = []"
| "mask_keys prev (Suc k) (c # cs) = mask_keys (Some c) k cs"
| "mask_keys prev 0 (c # cs) =
     (case opt_or (bearer_match (c # cs)) (opt_or (sk_match prev (c # cs)) (assigned_match (c # cs))) of
        None \<Rightarrow> c # mask_keys (Some c) 0 cs
      | Some (kept, n) \<Rightarrow> kept @ ''***'' @ mask_keys (Some c) (n - 1) cs)"

definition mask_secret_text :: "string list \<Rightarrow> string \<Rightarrow> string" where
  "mask_secret_text secrets text = mask_keys None 0
     (fold (\<lambda>s t. if py_strip s = [] then t else py_replace (py_strip s) ''***'' 0 t) secrets text)"

section \<open>The vendor's price\<close>

datatype decimal = Finite rat | Not_finite

definition VENDOR_PRICE_LIMIT :: rat where "VENDOR_PRICE_LIMIT = 1000000000000"

definition as_decimal :: "(string \<Rightarrow> decimal option) \<Rightarrow> json \<Rightarrow> int option" where
  "as_decimal dec raw =
     (case (case raw of
              JInt i \<Rightarrow> Some (Finite (of_int i))
            | JFloat r t \<Rightarrow> dec r
            | JStr s \<Rightarrow> if py_strip s = [] then None else dec (py_strip s)
            | _ \<Rightarrow> None) of
        Some (Finite x) \<Rightarrow> if x < 0 \<or> VENDOR_PRICE_LIMIT \<le> x then None else Some \<lfloor>x * 1000000 + 1 / 2\<rfloor>
      | _ \<Rightarrow> None)"

definition PRICE_KEYS :: "string list" where
  "PRICE_KEYS = [''vendor_price'', ''vendorPrice'', ''cost'']"

definition parse_vendor_price :: "(string \<Rightarrow> decimal option) \<Rightarrow> json_obj \<Rightarrow> int option" where
  "parse_vendor_price dec body =
     opt_or (first_some (\<lambda>k. as_decimal dec (jget k body)) PRICE_KEYS)
       (case jget ''data'' body of JObj d \<Rightarrow> first_some (\<lambda>k. as_decimal dec (jget k d)) PRICE_KEYS | _ \<Rightarrow> None)"

section \<open>The normalized result\<close>

record MediaAsset =
  ma_url :: string
  ma_content_type :: "string option"
  ma_file_name :: "string option"

record media_result =
  mr_assets :: "MediaAsset list"
  mr_description :: "string option"
  mr_seed :: "json option"

definition opt_text :: "json \<Rightarrow> string option" where
  "opt_text v = (case v of JStr s \<Rightarrow> Some s | _ \<Rightarrow> None)"

definition asset_dict :: "json \<Rightarrow> MediaAsset option" where
  "asset_dict item =
     (case item of
        JObj d \<Rightarrow> (case jget ''url'' d of
            JStr url \<Rightarrow> if url = [] then None
              else Some \<lparr>ma_url = url, ma_content_type = opt_text (jget ''content_type'' d), ma_file_name = opt_text (jget ''file_name'' d)\<rparr>
          | _ \<Rightarrow> None)
      | _ \<Rightarrow> None)"

text \<open>\<open>for item in value or []\<close>; \<open>None\<close> is the \<open>TypeError\<close> of a value that cannot be iterated.\<close>

definition iterated :: "json \<Rightarrow> json list option" where
  "iterated v =
     (if \<not> truthy v then Some []
      else case v of
        JArr items \<Rightarrow> Some items
      | JObj d \<Rightarrow> Some (map (JStr \<circ> fst) d)
      | JStr s \<Rightarrow> Some (map (\<lambda>c. JStr [c]) s)
      | _ \<Rightarrow> None)"

definition assets_under :: "string \<Rightarrow> string \<Rightarrow> json_obj \<Rightarrow> exn + MediaAsset list" where
  "assets_under single many body =
     (case iterated (jget many body) of
        None \<Rightarrow> Inl (PyFault ''TypeError'')
      | Some items \<Rightarrow> Inr (List.map_filter asset_dict (jget single body # items)))"

definition normalize_result :: "json_obj \<Rightarrow> string \<Rightarrow> exn + media_result" where
  "normalize_result body kind =
     (case (if kind = KIND_IMAGE then assets_under ''image'' ''images'' body
            else if kind = KIND_VIDEO then assets_under ''video'' ''videos'' body else Inr []) of
        Inl e \<Rightarrow> Inl e
      | Inr assets \<Rightarrow> Inr \<lparr>mr_assets = assets,
          mr_description = (case jget ''description'' body of JStr s \<Rightarrow> if s = [] then None else Some s | _ \<Rightarrow> None),
          mr_seed = (case jget ''seed'' body of JInt i \<Rightarrow> Some (JInt i) | JBool b \<Rightarrow> Some (JBool b) | _ \<Rightarrow> None)\<rparr>)"

definition is_list :: "json \<Rightarrow> bool" where "is_list v = (case v of JArr _ \<Rightarrow> True | _ \<Rightarrow> False)"
definition is_dict :: "json \<Rightarrow> bool" where "is_dict v = (case v of JObj _ \<Rightarrow> True | _ \<Rightarrow> False)"

definition has_fal_shape :: "json_obj \<Rightarrow> string \<Rightarrow> bool" where
  "has_fal_shape body kind =
     (if kind = KIND_IMAGE then is_list (jget ''images'' body) \<or> is_dict (jget ''image'' body)
      else if kind = KIND_VIDEO then is_dict (jget ''video'' body) \<or> is_list (jget ''videos'' body)
      else False)"

definition fal_shaped_candidates :: "json_obj \<Rightarrow> json_obj list" where
  "fal_shaped_candidates body =
     body # List.map_filter (\<lambda>k. case jget k body of JObj d \<Rightarrow> Some d | _ \<Rightarrow> None) [''payload'', ''data'', ''result'']"

definition assets_from_result :: "media_result option \<Rightarrow> MediaAsset list" where
  "assets_from_result r = (case r of None \<Rightarrow> [] | Some x \<Rightarrow> filter (\<lambda>a. ma_url a \<noteq> []) (mr_assets x))"

text \<open>The first candidate of the right form that has an asset.\<close>

fun first_projection :: "string \<Rightarrow> json_obj list \<Rightarrow> exn + media_result option" where
  "first_projection kind [] = Inr None"
| "first_projection kind (d # ds) =
     (if \<not> has_fal_shape d kind then first_projection kind ds
      else case normalize_result d kind of
          Inl e \<Rightarrow> Inl e
        | Inr r \<Rightarrow> if mr_assets r = [] then first_projection kind ds else Inr (Some r))"

type_synonym url_splitter = "string \<Rightarrow> (string \<times> string option) option"

definition host_of :: "url_splitter \<Rightarrow> string \<Rightarrow> string option" where
  "host_of urlsplit url = (case urlsplit url of Some (s, Some h) \<Rightarrow> if h = [] then None else Some h | _ \<Rightarrow> None)"

definition fal_asset_host_allowed :: "url_splitter \<Rightarrow> string list \<Rightarrow> string \<Rightarrow> exn + bool" where
  "fal_asset_host_allowed urlsplit suffixes url =
     (case urlsplit url of
        None \<Rightarrow> Inl (PyFault ''ValueError'')
      | Some (scheme, hostname) \<Rightarrow>
          if scheme \<noteq> ''https'' \<or> or_default hostname [] = [] then Inr False
          else let host = py_lower (or_default hostname []) in
               Inr (list_ex (\<lambda>suffix. host = dropWhile (\<lambda>c. c = CHR ''.'') suffix \<or> py_endswith suffix host) suffixes))"

fun split_assets :: "url_splitter \<Rightarrow> string list \<Rightarrow> MediaAsset list \<Rightarrow> exn + MediaAsset list \<times> string list" where
  "split_assets urlsplit suffixes [] = Inr ([], [])"
| "split_assets urlsplit suffixes (a # as) =
     (case fal_asset_host_allowed urlsplit suffixes (ma_url a) of
        Inl e \<Rightarrow> Inl e
      | Inr ok \<Rightarrow> (case split_assets urlsplit suffixes as of
            Inl e \<Rightarrow> Inl e
          | Inr (kept, rejected) \<Rightarrow>
              if ok then Inr (a # kept, rejected)
              else Inr (kept, case host_of urlsplit (ma_url a) of None \<Rightarrow> rejected | Some h \<Rightarrow> h # removeAll h rejected)))"

definition callback_result ::
  "json_reader \<Rightarrow> url_splitter \<Rightarrow> string list \<Rightarrow> json_obj \<Rightarrow> string \<Rightarrow> exn + media_result \<times> string list" where
  "callback_result loads urlsplit suffixes body kind =
     (case first_projection kind (fal_shaped_candidates body) of
        Inl e \<Rightarrow> Inl e
      | Inr projected \<Rightarrow>
          let normalized = or_default projected \<lparr>mr_assets =
                map (\<lambda>url. \<lparr>ma_url = url, ma_content_type = None, ma_file_name = None\<rparr>) (urls_of loads body),
                mr_description = None, mr_seed = None\<rparr> in
          (case split_assets urlsplit suffixes (mr_assets normalized) of
             Inl e \<Rightarrow> Inl e
           | Inr (kept, rejected) \<Rightarrow> Inr (normalized\<lparr>mr_assets := kept\<rparr>, rejected)))"

section \<open>What comes out of a callback\<close>

lemma set_unique_urls [simp]: "set (unique_urls urls) = set urls" "distinct (unique_urls urls)"
  by (simp_all add: unique_urls_def)

lemma https_text_Some: "https_text v = Some s \<Longrightarrow> is_https s"
  by (auto simp: https_text_def split: json.splits if_splits)

lemma collect_urls_https: "url \<in> set (collect_urls loads n v) \<Longrightarrow> is_https url"
proof (induction n arbitrary: v)
  case (Suc n)
  show ?case
  proof (cases v)
    case (JStr s)
    from Suc.prems have mem: "url \<in> set (if is_https s \<and> looks_like_asset s then [s]
          else if py_startswith ''{'' s \<or> py_startswith ''['' s
          then (case loads s of None \<Rightarrow> [] | Some inner \<Rightarrow> collect_urls loads n inner) else [])"
      unfolding JStr collect_urls.simps json.case .
    show ?thesis
    proof (cases "is_https s \<and> looks_like_asset s")
      case True
      with mem show ?thesis by simp
    next
      case False
      with mem obtain inner where "url \<in> set (collect_urls loads n inner)"
        by (cases "loads s"; cases "py_startswith ''{'' s \<or> py_startswith ''['' s") (simp_all only: if_False if_True option.case list.set empty_iff)
      then show ?thesis by (rule Suc.IH)
    qed
  next
    case (JArr items)
    with Suc show ?thesis by auto
  next
    case (JObj d)
    have "is_https url" if "url \<in> set (case jget ''resultUrls'' d of JArr urls \<Rightarrow> List.map_filter https_text urls | _ \<Rightarrow> [])"
      using that by (cases "jget ''resultUrls'' d") (auto simp: set_map_filter_iff https_text_Some)
    with JObj Suc show ?thesis
      by (auto simp: set_map_filter_iff https_text_Some)
  qed (use Suc in simp_all)
qed simp

lemma split_assets_allowed:
  "split_assets urlsplit suffixes as = Inr (kept, rejected) \<Longrightarrow>
    set kept \<subseteq> set as \<and> (\<forall>a \<in> set kept. fal_asset_host_allowed urlsplit suffixes (ma_url a) = Inr True)"
proof (induction as arbitrary: kept rejected)
  case (Cons a as)
  from Cons.prems obtain ok kept' rejected' where
    "fal_asset_host_allowed urlsplit suffixes (ma_url a) = Inr ok" "split_assets urlsplit suffixes as = Inr (kept', rejected')"
    "kept = (if ok then a # kept' else kept')"
    by (auto split: sum.splits if_splits)
  then show ?case using Cons.IH by auto
qed simp

lemma callback_result_allowed:
  assumes "callback_result loads urlsplit suffixes body kind = Inr (r, rejected)" and "a \<in> set (mr_assets r)"
  shows "fal_asset_host_allowed urlsplit suffixes (ma_url a) = Inr True"
  using assms split_assets_allowed unfolding callback_result_def
  by (fastforce simp: Let_def split: sum.splits prod.splits)

lemma host_allowed_https: "fal_asset_host_allowed urlsplit suffixes url = Inr True \<Longrightarrow>
    \<exists>h. urlsplit url = Some (''https'', Some h) \<and> h \<noteq> []"
  by (cases "urlsplit url"; cases "snd (the (urlsplit url))")
    (auto simp: fal_asset_host_allowed_def Let_def split: if_splits)

end
