(* ===== verification/Media_Routing.thy ===== *)
theory Media_Routing
  imports Media_Catalog
begin

text \<open>
  The routes of a run through the proxy (\<open>media_generation/routing.py\<close>) and their form in the column
  \<open>remaining_routes\<close> (\<open>service._routes_to_json\<close>, \<open>_routes_from_json\<close>). \<open>float(i)\<close> of an integer is written with
  its \<open>repr\<close>, which has this form below 10 to the 16; \<open>cfg_scale\<close> is between 0 and 1. \<open>aspectRatio\<close> has been
  checked against the model's list, so it is a text or absent.
\<close>

section \<open>Routes\<close>

definition SERVICE_FAL :: string where "SERVICE_FAL = ''fal''"
definition SERVICE_KIE :: string where "SERVICE_KIE = ''kie''"
definition SERVICE_SOSANA :: string where "SERVICE_SOSANA = ''sosana''"

record VendorRoute =
  vr_service :: string
  vr_endpoint :: string
  vr_payload :: json_obj
  vr_catalog_endpoint :: string

definition fal_queue_url :: "string \<Rightarrow> string" where
  "fal_queue_url endpoint = ''https://queue.fal.run/'' @ dropWhile (\<lambda>c. c = CHR ''/'') endpoint"

definition fal_route :: "string \<Rightarrow> json_obj \<Rightarrow> VendorRoute" where
  "fal_route endpoint payload = \<lparr>vr_service = SERVICE_FAL, vr_endpoint = fal_queue_url endpoint, vr_payload = payload, vr_catalog_endpoint = endpoint\<rparr>"

definition as_str :: "json \<Rightarrow> string option" where
  "as_str v = (case v of JStr s \<Rightarrow> Some s | _ \<Rightarrow> None)"

definition as_int :: "json \<Rightarrow> int option" where
  "as_int v = (case v of JInt i \<Rightarrow> Some i | _ \<Rightarrow> None)"

definition as_float :: "json \<Rightarrow> json" where
  "as_float v = (case v of JInt i \<Rightarrow> JFloat (int_str i @ ''.0'') (Some i) | JFloat r t \<Rightarrow> JFloat r t | _ \<Rightarrow> JNull)"

definition opt_json :: "string option \<Rightarrow> json" where
  "opt_json v = (case v of None \<Rightarrow> JNull | Some s \<Rightarrow> JStr s)"

text \<open>The entry \<open>_put\<close> adds.\<close>

definition put_entry :: "string \<Rightarrow> json \<Rightarrow> json_obj" where
  "put_entry key v = (if v = JNull then [] else [(key, v)])"

definition payload_prompt :: "json_obj \<Rightarrow> string" where
  "payload_prompt fal_payload = or_default (as_str (jget ''prompt'' fal_payload)) []"

definition payload_seconds :: "json_obj \<Rightarrow> int option" where
  "payload_seconds fal_payload =
     (case jget ''duration'' fal_payload of JStr s \<Rightarrow> duration_seconds s | v \<Rightarrow> as_int v)"

definition duration_label :: "json_obj \<Rightarrow> json" where
  "duration_label fal_payload = opt_json (map_option int_str (payload_seconds fal_payload))"

section \<open>A shorter negative prompt\<close>

definition rstrip :: "string \<Rightarrow> string" where
  "rstrip s = rev (dropWhile py_isspace (rev s))"

text \<open>The last index of the list at which \<open>p\<close> holds.\<close>

definition last_index :: "(char \<Rightarrow> bool) \<Rightarrow> string \<Rightarrow> nat option" where
  "last_index p s = find (\<lambda>i. p (s ! i)) (rev [0..<length s])"

definition clip_video_prompt :: "string \<Rightarrow> nat \<Rightarrow> string" where
  "clip_video_prompt t limit =
     (if length t \<le> limit then t
      else let short = take limit t in
           case last_index (\<lambda>c. c \<in> {CHR ''.'', CHR ''!'', CHR ''?''}) short of
             Some i \<Rightarrow> if limit div 2 \<le> i then rstrip (take (i + 1) short)
               else (case last_index (\<lambda>c. c = CHR '' '') short of
                       Some j \<Rightarrow> if limit div 2 \<le> j then rstrip (take j short) else rstrip short
                     | None \<Rightarrow> rstrip short)
           | None \<Rightarrow> (case last_index (\<lambda>c. c = CHR '' '') short of
                       Some j \<Rightarrow> if limit div 2 \<le> j then rstrip (take j short) else rstrip short
                     | None \<Rightarrow> rstrip short))"

section \<open>The vendors\<close>

definition SOSANA_RESOLUTIONS :: "string list" where
  "SOSANA_RESOLUTIONS = [''1K'', ''2K'', ''4K'']"

definition sosana_route :: "FalModel \<Rightarrow> FalVariant \<Rightarrow> json_obj \<Rightarrow> json_obj \<Rightarrow> VendorRoute option" where
  "sosana_route model variant vals fal_payload =
     (if \<not> (case jget ''numImages'' vals of JInt i \<Rightarrow> i = 1 | JFloat r t \<Rightarrow> r = ''1.0'' | _ \<Rightarrow> False) then None
      else case jget ''resolution'' vals of
          JStr resolution \<Rightarrow>
            if resolution \<notin> set SOSANA_RESOLUTIONS then None
            else if \<not> (case jget ''aspectRatio'' vals of JNull \<Rightarrow> True | JStr a \<Rightarrow> a \<in> set IMAGE_ASPECT_RATIOS | _ \<Rightarrow> False) then None
            else Some \<lparr>vr_service = SERVICE_SOSANA, vr_endpoint = ''https://api.sosana.art/api/image/create-async'',
              vr_payload =
                [(''prompt'', JStr (payload_prompt fal_payload)),
                 (''model'', JStr (fm_id model @ ''-'' @ py_lower resolution)),
                 (''aspect_ratio'', JStr (case as_str (jget ''aspect_ratio'' fal_payload) of
                     None \<Rightarrow> ''auto'' | Some a \<Rightarrow> if a = [] then ''auto'' else a)),
                 (''prompt_optimization'', JBool False)]
                @ (case jget ''image_urls'' fal_payload of JArr urls \<Rightarrow> if urls = [] then [] else [(''image_urls'', JArr urls)] | _ \<Rightarrow> []),
              vr_catalog_endpoint = fv_endpoint variant\<rparr>
        | _ \<Rightarrow> None)"

type_synonym kie_input = "string \<times> json_obj"

definition kie_kling_25 :: "json_obj \<Rightarrow> string option \<Rightarrow> kie_input" where
  "kie_kling_25 fal_payload image_url =
     (let data = [(''prompt'', JStr (payload_prompt fal_payload))] @ put_entry ''duration'' (duration_label fal_payload)
            @ put_entry ''cfg_scale'' (as_float (jget ''cfg_scale'' fal_payload));
          negative = or_default (as_str (jget ''negative_prompt'' fal_payload)) [] in
      case image_url of
        Some url \<Rightarrow> (''kling/v2-5-turbo-image-to-video-pro'',
          data @ [(''image_url'', JStr url)] @ (if negative = [] then [] else [(''negative_prompt'', JStr (clip_video_prompt negative 500))]))
      | None \<Rightarrow> (''kling/v2-5-turbo-text-to-video-pro'',
          data @ (if negative = [] then [] else [(''negative_prompt'', JStr negative)])
            @ put_entry ''aspect_ratio'' (opt_json (as_str (jget ''aspect_ratio'' fal_payload)))))"

definition kie_kling_v3 :: "json_obj \<Rightarrow> string option \<Rightarrow> kie_input" where
  "kie_kling_v3 fal_payload image_url =
     (''kling-3.0/video'',
      [(''prompt'', JStr (payload_prompt fal_payload)), (''mode'', JStr ''pro''),
       (''sound'', JBool (jget ''generate_audio'' fal_payload = JBool True)), (''multi_shots'', JBool False), (''multi_prompt'', JArr [])]
      @ put_entry ''duration'' (duration_label fal_payload)
      @ (case image_url of
           Some url \<Rightarrow> [(''image_urls'', JArr [JStr url])]
         | None \<Rightarrow> put_entry ''aspect_ratio'' (opt_json (as_str (jget ''aspect_ratio'' fal_payload)))))"

definition kie_veo :: "json_obj \<Rightarrow> string option \<Rightarrow> kie_input" where
  "kie_veo fal_payload image_url =
     (let aspect = as_str (jget ''aspect_ratio'' fal_payload) in
      (''veo-3-1'',
       [(''prompt'', JStr (payload_prompt fal_payload))]
       @ (case image_url of
            Some url \<Rightarrow> [(''image_urls'', JArr [JStr url]), (''generation_type'', JStr ''FIRST_AND_LAST_FRAMES_2_VIDEO'')]
          | None \<Rightarrow> [(''generation_type'', JStr ''TEXT_2_VIDEO'')])
       @ put_entry ''aspect_ratio'' (opt_json (if aspect = Some ''auto'' then Some ''Auto'' else aspect))
       @ put_entry ''resolution'' (opt_json (as_str (jget ''resolution'' fal_payload)))
       @ put_entry ''duration'' (case payload_seconds fal_payload of None \<Rightarrow> JNull | Some i \<Rightarrow> JInt i)))"

definition KIE_BUILDERS :: "string \<Rightarrow> (json_obj \<Rightarrow> string option \<Rightarrow> kie_input) option" where
  "KIE_BUILDERS = [''kling-video'' \<mapsto> kie_kling_25, ''kling-video-v3'' \<mapsto> kie_kling_v3, ''veo-3.1'' \<mapsto> kie_veo]"

definition start_frame :: "json_obj \<Rightarrow> FalModel \<Rightarrow> string option" where
  "start_frame fal_payload model =
     (case fm_image_field model of
        None \<Rightarrow> None
      | Some f \<Rightarrow>
          (case (case jget f fal_payload of JArr xs \<Rightarrow> if xs = [] then JNull else hd xs | v \<Rightarrow> v) of
             JStr s \<Rightarrow> if s = [] then None else Some s
           | _ \<Rightarrow> None))"

definition kie_route :: "FalModel \<Rightarrow> FalVariant \<Rightarrow> json_obj \<Rightarrow> VendorRoute option" where
  "kie_route model variant fal_payload =
     (case KIE_BUILDERS (fm_id model) of
        None \<Rightarrow> None
      | Some builder \<Rightarrow>
          let build = (\<lambda>image_url. case builder fal_payload image_url of (kie_model, kie_input) \<Rightarrow>
                Some \<lparr>vr_service = SERVICE_KIE, vr_endpoint = ''https://api.kie.ai/api/v1/jobs/createTask'',
                  vr_payload = [(''model'', JStr kie_model), (''input'', JObj kie_input)], vr_catalog_endpoint = fv_endpoint variant\<rparr>) in
          if (case fm_image_variant model of None \<Rightarrow> False | Some v \<Rightarrow> fv_endpoint variant = fv_endpoint v)
          then (case start_frame fal_payload model of None \<Rightarrow> None | Some url \<Rightarrow> build (Some url))
          else build None)"

definition candidate_routes :: "FalModel \<Rightarrow> FalVariant \<Rightarrow> json_obj \<Rightarrow> json_obj \<Rightarrow> VendorRoute list" where
  "candidate_routes model variant vals fal_payload =
     (let vendor = (if fm_kind model = KIND_IMAGE then sosana_route model variant vals fal_payload
                    else if fm_kind model = KIND_VIDEO then kie_route model variant fal_payload else None);
          fal = fal_route (fv_endpoint variant) fal_payload in
      case vendor of None \<Rightarrow> [fal] | Some v \<Rightarrow> [v, fal])"

section \<open>Routes as JSON\<close>

definition route_json :: "VendorRoute \<Rightarrow> json" where
  "route_json r = JObj [(''service'', JStr (vr_service r)), (''endpoint'', JStr (vr_endpoint r)),
     (''payload'', JObj (vr_payload r)), (''catalogEndpoint'', JStr (vr_catalog_endpoint r))]"

definition routes_to_json :: "VendorRoute list \<Rightarrow> json option" where
  "routes_to_json routes = (if routes = [] then None else Some (JArr (map route_json routes)))"

definition json_route :: "json \<Rightarrow> VendorRoute option" where
  "json_route item =
     (case item of
        JObj d \<Rightarrow> (case (jget ''service'' d, jget ''endpoint'' d, jget ''payload'' d, jget ''catalogEndpoint'' d) of
            (JStr service, JStr endpoint, JObj payload, JStr catalog_endpoint) \<Rightarrow>
              if service = [] then None
              else Some \<lparr>vr_service = service, vr_endpoint = endpoint, vr_payload = payload, vr_catalog_endpoint = catalog_endpoint\<rparr>
          | _ \<Rightarrow> None)
      | _ \<Rightarrow> None)"

definition routes_from_json :: "json option \<Rightarrow> VendorRoute list" where
  "routes_from_json raw = (case raw of Some (JArr items) \<Rightarrow> List.map_filter json_route items | _ \<Rightarrow> [])"

end
