(* ===== verification/Media_Store.thy ===== *)
theory Media_Store
  imports Media_Callback Media_Routing Wallet
begin

text \<open>
  The table of generation jobs (\<open>models/tables.py\<close>, \<open>MediaJob\<close>) and its queries
  (\<open>media_generation/repository.py\<close>). A job row is an ORM object: a flush writes the attributes that differ
  from what the session loaded, so a session that loaded the row before another one changed it overwrites only
  those (\<open>merge_row\<close>). The columns of our own copy of the files are left out but the two a completion sets.
  Russian texts shown to a user are given in English.
\<close>

section \<open>Rows\<close>

record verdict =
  vd_status :: string
  vd_stage :: "string option"
  vd_categories :: "string list"
  vd_checked_at :: "instant option"
  vd_provider :: "string option"
  vd_model :: "string option"

definition vd_blocked :: "verdict \<Rightarrow> bool" where
  "vd_blocked v = (vd_status v = ''blocked'')"

definition unchecked_verdict :: verdict where
  "unchecked_verdict = \<lparr>vd_status = ''unchecked'', vd_stage = None, vd_categories = [], vd_checked_at = None,
     vd_provider = None, vd_model = None\<rparr>"

record media_job =
  mj_id :: uuid
  mj_user :: uuid
  mj_model :: string
  mj_kind :: string
  mj_endpoint :: string
  mj_request :: string
  mj_status_url :: string
  mj_response_url :: string
  mj_status :: string
  mj_prompt :: string
  mj_charged :: int
  mj_refunded :: bool
  mj_cost :: "int option"
  mj_result :: "media_result option"
  mj_error :: "string option"
  mj_parent :: "uuid option"
  mj_inputs :: "string list option"
  mj_moderation :: "verdict option"
  mj_operation :: string
  mj_operation_input :: "json option"
  mj_visible :: bool
  mj_push_sent :: "instant option"
  mj_provider :: string
  mj_vendor_price :: "int option"
  mj_pending :: "media_result option"
  mj_routes :: "json option"
  mj_asset_store :: string
  mj_expire :: "instant option"
  mj_created :: instant
  mj_updated :: instant

record media_state =
  ms_db :: db
  ms_jobs :: "media_job list"

type_synonym 'a mtx = "media_state \<Rightarrow> (exn, 'a, media_state) outcome"

text \<open>An operation of the wallet inside the same transaction.\<close>

definition on_db :: "'a tx \<Rightarrow> 'a mtx" where
  "on_db f s = (case f (ms_db s) of (r, d) \<Rightarrow> (r, s\<lparr>ms_db := d\<rparr>))"

definition JOB_STATUSES :: "string list" where
  "JOB_STATUSES = [''queued'', ''running'', ''completed'', ''failed'']"

definition ASSET_STORE_STATUSES :: "string list" where
  "ASSET_STORE_STATUSES = ['''', ''pending'', ''stored'', ''failed'', ''missing'', ''expired'']"

definition TERMINAL_JOBS :: "string list" where
  "TERMINAL_JOBS = [''completed'', ''failed'']"

definition NON_TERMINAL_JOBS :: "string list" where
  "NON_TERMINAL_JOBS = [''queued'', ''running'']"

definition terminal :: "media_job \<Rightarrow> bool" where
  "terminal j = (mj_status j \<in> set TERMINAL_JOBS)"

section \<open>Queries\<close>

definition find_job :: "uuid \<Rightarrow> media_state \<Rightarrow> media_job option" where
  "find_job i s = find (\<lambda>j. mj_id j = i) (ms_jobs s)"

definition get_job_row :: "uuid \<Rightarrow> uuid \<Rightarrow> media_state \<Rightarrow> media_job option" where
  "get_job_row i u s = find (\<lambda>j. mj_id j = i \<and> mj_user j = u) (ms_jobs s)"

definition update_job :: "uuid \<Rightarrow> (media_job \<Rightarrow> media_job) \<Rightarrow> media_state \<Rightarrow> media_state" where
  "update_job i f s = s\<lparr>ms_jobs := map (\<lambda>j. if mj_id j = i then f j else j) (ms_jobs s)\<rparr>"

text \<open>\<open>create\<close>: the INSERT with the constraints of the table.\<close>

definition create_job :: "media_job \<Rightarrow> media_job mtx" where
  "create_job j s =
     (if \<not> (- 2147483648 \<le> mj_charged j \<and> mj_charged j \<le> 2147483647) then (Inl (DbFault OutOfRange), s)
      else if mj_status j \<notin> set JOB_STATUSES \<or> mj_asset_store j \<notin> set ASSET_STORE_STATUSES then (Inl (DbFault CheckViolation), s)
      else if find_job (mj_id j) s \<noteq> None then (Inl (DbFault UniqueViolation), s)
      else if users (ms_db s) (mj_user j) = None then (Inl (DbFault ForeignKeyViolation), s)
      else if (case mj_parent j of None \<Rightarrow> False | Some p \<Rightarrow> find_job p s = None) then (Inl (DbFault ForeignKeyViolation), s)
      else (Inr j, s\<lparr>ms_jobs := ms_jobs s @ [j]\<rparr>))"

definition pick :: "'a \<Rightarrow> 'a \<Rightarrow> 'a \<Rightarrow> 'a" where
  "pick loaded new current = (if new = loaded then current else new)"

definition merge_row :: "media_job \<Rightarrow> media_job \<Rightarrow> media_job \<Rightarrow> media_job" where
  "merge_row loaded new row = row\<lparr>
     mj_request := pick (mj_request loaded) (mj_request new) (mj_request row),
     mj_status := pick (mj_status loaded) (mj_status new) (mj_status row),
     mj_refunded := pick (mj_refunded loaded) (mj_refunded new) (mj_refunded row),
     mj_cost := pick (mj_cost loaded) (mj_cost new) (mj_cost row),
     mj_result := pick (mj_result loaded) (mj_result new) (mj_result row),
     mj_error := pick (mj_error loaded) (mj_error new) (mj_error row),
     mj_moderation := pick (mj_moderation loaded) (mj_moderation new) (mj_moderation row),
     mj_provider := pick (mj_provider loaded) (mj_provider new) (mj_provider row),
     mj_vendor_price := pick (mj_vendor_price loaded) (mj_vendor_price new) (mj_vendor_price row),
     mj_pending := pick (mj_pending loaded) (mj_pending new) (mj_pending row),
     mj_routes := pick (mj_routes loaded) (mj_routes new) (mj_routes row),
     mj_asset_store := pick (mj_asset_store loaded) (mj_asset_store new) (mj_asset_store row),
     mj_expire := pick (mj_expire loaded) (mj_expire new) (mj_expire row),
     mj_updated := pick (mj_updated loaded) (mj_updated new) (mj_updated row)\<rparr>"

text \<open>A flush of one changed object: \<open>UPDATE ... WHERE id\<close>, an error when no row is there any more.\<close>

definition flush_job :: "media_job \<Rightarrow> media_job \<Rightarrow> media_job mtx" where
  "flush_job loaded new s =
     (if find_job (mj_id loaded) s = None then (Inl (PyFault ''StaleDataError''), s)
      else (Inr new, update_job (mj_id loaded) (merge_row loaded new) s))"

definition stored_pending :: "instant \<Rightarrow> media_result \<Rightarrow> media_job \<Rightarrow> media_job" where
  "stored_pending now r j = j\<lparr>mj_pending := Some r, mj_updated := now\<rparr>"

definition USD_CONFIRMED_PROXY_SERVICES :: "string list" where
  "USD_CONFIRMED_PROXY_SERVICES = [''fal'', ''sosana'']"

definition PROVIDER_COST_LIMIT :: int where "PROVIDER_COST_LIMIT = 1000000 * 1000000"

definition priced :: "instant \<Rightarrow> int \<Rightarrow> media_job \<Rightarrow> media_job" where
  "priced now price j = j\<lparr>mj_vendor_price := Some price,
     mj_cost := (if mj_provider j \<in> set USD_CONFIRMED_PROXY_SERVICES \<and> price < PROVIDER_COST_LIMIT then Some price else mj_cost j),
     mj_updated := now\<rparr>"

definition switched :: "instant \<Rightarrow> string \<Rightarrow> string \<Rightarrow> json option \<Rightarrow> media_job \<Rightarrow> media_job" where
  "switched now provider request routes j = j\<lparr>mj_provider := provider, mj_request := request, mj_routes := routes, mj_updated := now\<rparr>"

definition mark_running :: "instant \<Rightarrow> media_job \<Rightarrow> media_job mtx" where
  "mark_running now j s =
     (if mj_status j = ''running'' then (Inr j, s)
      else flush_job j (j\<lparr>mj_status := ''running'', mj_updated := now\<rparr>) s)"

definition completed_job :: "int option \<Rightarrow> instant \<Rightarrow> media_result \<Rightarrow> verdict option \<Rightarrow> media_job \<Rightarrow> media_job" where
  "completed_job retention_days now r moderation j =
     j\<lparr>mj_status := ''completed'', mj_result := Some r, mj_error := None, mj_pending := None, mj_routes := None,
       mj_moderation := opt_or moderation (mj_moderation j),
       mj_asset_store := (if retention_days \<noteq> None \<and> assets_from_result (Some r) \<noteq> [] then ''pending'' else mj_asset_store j),
       mj_expire := (case retention_days of
           Some d \<Rightarrow> if assets_from_result (Some r) \<noteq> [] then Some (now + days d) else mj_expire j
         | None \<Rightarrow> mj_expire j),
       mj_updated := now\<rparr>"

definition failed_job :: "instant \<Rightarrow> string \<Rightarrow> bool \<Rightarrow> verdict option \<Rightarrow> media_result option \<Rightarrow> media_job \<Rightarrow> media_job" where
  "failed_job now error refunded moderation r j =
     j\<lparr>mj_status := ''failed'', mj_error := Some error, mj_refunded := refunded, mj_pending := None, mj_routes := None,
       mj_moderation := opt_or moderation (mj_moderation j), mj_result := opt_or r (mj_result j), mj_updated := now\<rparr>"

text \<open>\<open>DELETE\<close>: the children of the row lose their parent (\<open>ON DELETE SET NULL\<close>).\<close>

definition delete_job_row :: "media_job \<Rightarrow> unit mtx" where
  "delete_job_row j s =
     (if find_job (mj_id j) s = None then (Inl (PyFault ''StaleDataError''), s)
      else (Inr (), s\<lparr>ms_jobs := map (\<lambda>x. if mj_parent x = Some (mj_id j) then x\<lparr>mj_parent := None\<rparr> else x)
             (filter (\<lambda>x. mj_id x \<noteq> mj_id j) (ms_jobs s))\<rparr>))"

text \<open>\<open>ORDER BY created_at, id\<close>.\<close>

definition oldest_first :: "media_job list \<Rightarrow> media_job list" where
  "oldest_first js = sort_key mj_created (sort_key (\<lambda>j. uint (mj_id j)) js)"

definition list_non_terminal :: "nat \<Rightarrow> instant option \<Rightarrow> bool \<Rightarrow> media_state \<Rightarrow> media_job list" where
  "list_non_terminal limit created_before include_proxy_jobs s =
     take limit (oldest_first (filter (\<lambda>j. mj_status j \<in> set NON_TERMINAL_JOBS \<and>
       (case created_before of None \<Rightarrow> True
        | Some t \<Rightarrow> include_proxy_jobs \<and> mj_provider j \<noteq> [] \<or> mj_created j < t)) (ms_jobs s)))"

text \<open>\<open>MediaPushService._claim_push_sent\<close>.\<close>

definition claim_media_push :: "instant \<Rightarrow> uuid \<Rightarrow> media_state \<Rightarrow> bool \<times> media_state" where
  "claim_media_push now i s =
     (case find_job i s of
        None \<Rightarrow> (False, s)
      | Some j \<Rightarrow> if mj_status j = ''completed'' \<and> mj_push_sent j = None
          then (True, update_job i (\<lambda>x. x\<lparr>mj_push_sent := Some now\<rparr>) s) else (False, s))"

section \<open>Lemmas\<close>

lemma pick_simps [simp]: "pick a a c = c" "pick a b a = b"
  by (simp_all add: pick_def)

lemma merge_row_same:
  "merge_row j (stored_pending now r j) j = stored_pending now r j"
  "merge_row j (priced now p j) j = priced now p j"
  "merge_row j (switched now a b c j) j = switched now a b c j"
  "merge_row j (j\<lparr>mj_status := st, mj_updated := now\<rparr>) j = j\<lparr>mj_status := st, mj_updated := now\<rparr>"
  "merge_row j (completed_job d now r m j) j = completed_job d now r m j"
  "merge_row j (failed_job now e rf m r' j) j = failed_job now e rf m r' j"
  by (simp_all add: merge_row_def stored_pending_def priced_def switched_def completed_job_def failed_job_def)

end
