(* ===== verification/Media_Jobs.thy ===== *)
theory Media_Jobs
  imports Media_Store
begin

text \<open>
  \<open>media_generation/service.py\<close>: submission, completion and refund of generation jobs. The collaborators the
  service is built with are the arguments in \<open>media_env\<close>: the fal client, the proxy client, the moderation
  service, the completion handler and the library functions the parser uses; what they write elsewhere is not
  part of the state, and an exception of theirs is not a fault of a statement of this session. \<open>now\<close> is the clock
  during the operation. Logs, metrics and \<open>request_logs\<close> (a table of its own session) are left out.
\<close>

section \<open>Collaborators\<close>

definition ProxyTransportError :: error_class where [error_defs]:
  "ProxyTransportError = ErrorClass ''ProxyTransportError'' (Some UpstreamError) None None"

record FalSubmission =
  fs_request :: string
  fs_status_url :: string
  fs_response_url :: string

record FalStatus =
  fst_status :: string
  fst_error :: "string option"

datatype checked = Verdict verdict | Input_rejected string | Check_raised exn

datatype downscaled = Data_uri string | Uncheckable string | Downscale_raised exn

record media_settings =
  md_deadline :: int
  md_proxy_configured :: bool
  md_retention :: "int option"
  md_suffixes :: "string list"
  md_secrets :: "string list"
  md_host :: string

record media_env =
  mv_settings :: media_settings
  mv_overrides :: "(string \<times> int) list"
  mv_tariffs :: overlay
  mv_cost :: "FalModel \<Rightarrow> json_obj \<Rightarrow> int option"
  mv_fal_submit :: "string \<Rightarrow> json_obj \<Rightarrow> exn + FalSubmission"
  mv_fal_status :: "string \<Rightarrow> string \<Rightarrow> exn + FalStatus"
  mv_fal_result :: "string \<Rightarrow> string \<Rightarrow> exn + json_obj"
  mv_rehost :: "string \<Rightarrow> exn + string"
  mv_proxy :: "(VendorRoute \<Rightarrow> string \<Rightarrow> exn + string) option"
  mv_check :: "(string \<Rightarrow> string \<Rightarrow> string option \<Rightarrow> string list \<Rightarrow> checked) option"
  mv_downscale :: "string \<Rightarrow> downscaled"
  mv_complete :: "(media_job \<Rightarrow> MediaAsset list \<Rightarrow> exn + unit) option"
  mv_push :: bool
  mv_loads :: json_reader
  mv_urlsplit :: url_splitter
  mv_dec :: "string \<Rightarrow> decimal option"
  mv_sign :: "uuid \<Rightarrow> string"
  mv_quote :: "string \<Rightarrow> string"

record MediaJobView =
  vw_job :: media_job
  vw_assets :: "MediaAsset list"

section \<open>Moderation\<close>

definition moderate_input :: "media_env \<Rightarrow> string \<Rightarrow> string list \<Rightarrow> exn + verdict" where
  "moderate_input env prompt image_urls =
     (case mv_check env of
        None \<Rightarrow> Inr unchecked_verdict
      | Some check \<Rightarrow>
          (case check ''media_submit'' ''input'' (Some prompt) image_urls of
             Input_rejected c \<Rightarrow> Inl (Raised ValidationFailedError ''the content check could not process this input'')
           | Check_raised e \<Rightarrow> Inl e
           | Verdict v \<Rightarrow> if vd_blocked v then Inl (Raised ContentPolicyViolationError ''request rejected by the content rules'') else Inr v))"

datatype output_check = Not_applicable | Checked verdict | Refused | Unavailable exn

fun output_of :: "checked \<Rightarrow> output_check" where
  "output_of (Verdict v) = Checked v"
| "output_of (Input_rejected c) = Refused"
| "output_of (Check_raised e) = Unavailable e"

fun downscale_all :: "(string \<Rightarrow> downscaled) \<Rightarrow> string list \<Rightarrow> output_check + string list" where
  "downscale_all f [] = Inr []"
| "downscale_all f (u # us) =
     (case f u of
        Uncheckable r \<Rightarrow> Inl Refused
      | Downscale_raised e \<Rightarrow> Inl (Unavailable e)
      | Data_uri d \<Rightarrow> (case downscale_all f us of Inl x \<Rightarrow> Inl x | Inr ds \<Rightarrow> Inr (d # ds)))"

definition moderate_output :: "media_env \<Rightarrow> media_job \<Rightarrow> MediaAsset list \<Rightarrow> output_check" where
  "moderate_output env job assets =
     (case mv_check env of
        None \<Rightarrow> Not_applicable
      | Some check \<Rightarrow>
          if mj_kind job \<noteq> KIND_IMAGE then Not_applicable
          else (case check ''media_result'' ''output'' None (map ma_url assets) of
             Input_rejected c \<Rightarrow>
               if c \<noteq> ''file_too_large'' then Refused
               else (case downscale_all (mv_downscale env) (map ma_url assets) of
                       Inl x \<Rightarrow> x
                     | Inr uris \<Rightarrow> output_of (check ''media_result'' ''output'' None uris))
           | r \<Rightarrow> output_of r))"

section \<open>Transports\<close>

record SubmitHandle =
  sh_provider :: string
  sh_request :: string
  sh_status_url :: string
  sh_response_url :: string
  sh_routes :: "json option"

definition callback_url :: "media_env \<Rightarrow> uuid \<Rightarrow> string \<Rightarrow> exn + string" where
  "callback_url env job_id route =
     (if md_host (mv_settings env) = [] then Inl (Raised MediaGenerationNotConfiguredError ''media generation is not configured'')
      else Inr (''https://'' @ md_host (mv_settings env) @ ''/v1/media/webhooks/proxy/'' @ uuid_str job_id @ ''?token='' @ mv_sign env job_id
        @ ''&route='' @ mv_quote env route))"

definition provider_unavailable :: exn where
  "provider_unavailable = Raised UpstreamError ''generation provider unavailable''"

fun first_accepting ::
  "media_env \<Rightarrow> (VendorRoute \<Rightarrow> string \<Rightarrow> exn + string) \<Rightarrow> uuid \<Rightarrow> exn option \<Rightarrow> VendorRoute list \<Rightarrow> exn + VendorRoute \<times> string \<times> VendorRoute list" where
  "first_accepting env send job_id retryable [] = Inl (or_default retryable provider_unavailable)"
| "first_accepting env send job_id retryable (r # rs) =
     (case callback_url env job_id (vr_service r) of
        Inl e \<Rightarrow> Inl e
      | Inr url \<Rightarrow>
          (case send r url of
             Inr rid \<Rightarrow> Inr (r, rid, rs)
           | Inl e \<Rightarrow>
               if raised_as ProxyTransportError e then Inl e
               else if raised_as ValidationFailedError e
               then (if vr_service r = SERVICE_FAL then Inl e else first_accepting env send job_id retryable rs)
               else if raised_as MediaGenerationNotConfiguredError e
               then (if vr_service r = SERVICE_FAL then Inl e else first_accepting env send job_id (Some e) rs)
               else if raised_as RateLimitedError e \<or> raised_as UpstreamError e
               then first_accepting env send job_id (Some e) rs
               else Inl e))"

definition submit_first_accepting :: "media_env \<Rightarrow> uuid \<Rightarrow> VendorRoute list \<Rightarrow> exn + VendorRoute \<times> string \<times> VendorRoute list" where
  "submit_first_accepting env job_id routes =
     (case mv_proxy env of
        None \<Rightarrow> Inl provider_unavailable
      | Some send \<Rightarrow> first_accepting env send job_id None routes)"

definition submit_direct :: "media_env \<Rightarrow> string \<Rightarrow> json_obj \<Rightarrow> exn + SubmitHandle" where
  "submit_direct env endpoint payload =
     (case mv_fal_submit env endpoint payload of
        Inl e \<Rightarrow> Inl e
      | Inr f \<Rightarrow> Inr \<lparr>sh_provider = [], sh_request = fs_request f, sh_status_url = fs_status_url f, sh_response_url = fs_response_url f,
          sh_routes = None\<rparr>)"

definition submit_via_proxy :: "media_env \<Rightarrow> uuid \<Rightarrow> VendorRoute list \<Rightarrow> exn + SubmitHandle" where
  "submit_via_proxy env job_id routes =
     (case submit_first_accepting env job_id routes of
        Inl e \<Rightarrow> Inl e
      | Inr (r, rid, remaining) \<Rightarrow> Inr \<lparr>sh_provider = vr_service r, sh_request = rid, sh_status_url = [], sh_response_url = [],
          sh_routes = routes_to_json remaining\<rparr>)"

definition proxy_enabled :: "media_env \<Rightarrow> bool" where
  "proxy_enabled env = (mv_proxy env \<noteq> None \<and> md_proxy_configured (mv_settings env))"

section \<open>Submission\<close>

definition resolve_model :: "string \<Rightarrow> string \<Rightarrow> exn + FalModel" where
  "resolve_model model_id kind =
     (case find_model model_id of
        None \<Rightarrow> Inl (Raised ValidationFailedError (''unknown model: '' @ model_id))
      | Some m \<Rightarrow>
          if fm_kind m \<noteq> kind
          then let expected = (if kind = KIND_IMAGE then ''images'' else ''videos'');
                   actual = (if fm_kind m = KIND_IMAGE then ''images'' else ''videos'') in
               Inl (Raised ValidationFailedError (''model '' @ fm_id m @ '' generates '' @ actual @ '', not '' @ expected
                 @ ''; use /v1/media/'' @ actual))
          else Inr m)"

definition validate_enum :: "string \<Rightarrow> json \<Rightarrow> FalVariant \<Rightarrow> exn option" where
  "validate_enum field v variant =
     (if v = JNull then None
      else let listed = variant_allowed field variant in
           if listed = [] then Some (Raised ValidationFailedError (field @ '' is not supported by this model in this mode''))
           else if (case v of JStr s \<Rightarrow> s \<in> set listed | _ \<Rightarrow> False) then None
           else Some (Raised ValidationFailedError (field @ '' must be one of: '' @ comma_sep listed)))"

definition assets_of_source :: "uuid \<Rightarrow> uuid \<Rightarrow> nat \<Rightarrow> media_state \<Rightarrow> exn + string list" where
  "assets_of_source user source limit s =
     (case get_job_row source user s of
        None \<Rightarrow> Inl (Raised NotFoundError ''media job not found'')
      | Some j \<Rightarrow>
          if mj_status j \<noteq> ''completed'' then Inl (Raised ValidationFailedError ''sourceJobId must reference a completed generation'')
          else if mj_kind j \<noteq> KIND_IMAGE then Inl (Raised ValidationFailedError ''sourceJobId must reference an image generation'')
          else let urls = map ma_url (assets_from_result (mj_result j)) in
               if urls = [] then Inl (Raised ValidationFailedError ''sourceJobId references a generation with no output'')
               else Inr (take (max 1 limit) urls))"

fun rehost_all :: "(string \<Rightarrow> exn + string) \<Rightarrow> string list \<Rightarrow> exn + string list" where
  "rehost_all f [] = Inr []"
| "rehost_all f (u # us) =
     (case f u of Inl e \<Rightarrow> Inl e
      | Inr v \<Rightarrow> (case rehost_all f us of Inl e \<Rightarrow> Inl e | Inr vs \<Rightarrow> Inr (v # vs)))"

definition as_bool :: "json \<Rightarrow> bool option" where
  "as_bool v = (case v of JBool b \<Rightarrow> Some b | _ \<Rightarrow> None)"

text \<open>\<open>price_of\<close> on the resolved values; \<open>None\<close> and \<open>False\<close> are the same to it.\<close>

definition price_of :: "media_env \<Rightarrow> FalModel \<Rightarrow> json_obj \<Rightarrow> int" where
  "price_of env model vals = media_run_price (mv_overrides env) (mv_tariffs env) model (as_int (jget ''numImages'' vals))
     (as_str (jget ''duration'' vals)) (as_str (jget ''resolution'' vals)) (as_bool (jget ''generateAudio'' vals) = Some True)"

record submit_request =
  sq_user :: uuid
  sq_kind :: string
  sq_model :: string
  sq_prompt :: string
  sq_images :: "string list"
  sq_params :: json_obj
  sq_source :: "uuid option"

text \<open>What \<open>submit\<close> works out before it touches the wallet.\<close>

record run_plan =
  rp_model :: FalModel
  rp_variant :: FalVariant
  rp_values :: json_obj
  rp_images :: "string list"
  rp_verdict :: verdict

definition merged_values :: "string \<Rightarrow> json_obj \<Rightarrow> json_obj" where
  "merged_values prompt params = (''prompt'', or_default (map_of params ''prompt'') (JStr prompt)) # filter (\<lambda>(k, v). k \<noteq> ''prompt'') params"

definition source_images :: "submit_request \<Rightarrow> FalModel \<Rightarrow> media_state \<Rightarrow> exn + string list" where
  "source_images rq model s =
     (case sq_source rq of
        None \<Rightarrow> Inr (sq_images rq)
      | Some source \<Rightarrow>
          if sq_images rq \<noteq> [] then Inl (Raised ValidationFailedError ''sourceJobId and imageUrls/imageUrl are mutually exclusive'')
          else assets_of_source (sq_user rq) source (fm_max_input_images model) s)"

definition check_run :: "media_env \<Rightarrow> submit_request \<Rightarrow> FalModel \<Rightarrow> string list \<Rightarrow> exn + run_plan" where
  "check_run env rq model images =
     (case variant_for (images \<noteq> []) model of
        None \<Rightarrow> Inl (Raised ValidationFailedError (''model '' @ fm_id model @ '' does not accept a reference image''))
      | Some variant \<Rightarrow>
          if fm_max_input_images model < length images
          then Inl (Raised ValidationFailedError (''model '' @ fm_id model @ '' accepts at most '' @ nat_str (fm_max_input_images model)
            @ '' reference image(s)''))
          else case first_some (\<lambda>field. validate_enum field (jget field (sq_params rq)) variant) [''aspectRatio'', ''resolution'', ''duration''] of
              Some e \<Rightarrow> Inl e
            | None \<Rightarrow>
                (case moderate_input env (sq_prompt rq) (if sq_source rq = None then sq_images rq else []) of
                   Inl e \<Rightarrow> Inl e
                 | Inr v \<Rightarrow> Inr \<lparr>rp_model = model, rp_variant = variant,
                     rp_values = resolve_values variant (merged_values (sq_prompt rq) (sq_params rq)), rp_images = images, rp_verdict = v\<rparr>))"

definition plan_run :: "media_env \<Rightarrow> submit_request \<Rightarrow> media_state \<Rightarrow> exn + run_plan" where
  "plan_run env rq s =
     (case resolve_model (sq_model rq) (sq_kind rq) of
        Inl e \<Rightarrow> Inl e
      | Inr model \<Rightarrow>
          (case source_images rq model s of
             Inl e \<Rightarrow> Inl e
           | Inr images \<Rightarrow>
               (case (if images \<noteq> [] \<and> fm_kind model = KIND_VIDEO then rehost_all (mv_rehost env) images else Inr images) of
                  Inl e \<Rightarrow> Inl e
                | Inr images' \<Rightarrow> check_run env rq model images')))"

definition rp_payload :: "run_plan \<Rightarrow> json_obj" where
  "rp_payload p = build_fal_input (rp_model p) (rp_variant p) (rp_values p) (rp_images p)"

definition media_debit_key :: "uuid \<Rightarrow> string" where
  "media_debit_key i = ''media-gen:'' @ uuid_str i"

definition media_refund_key :: "uuid \<Rightarrow> string" where
  "media_refund_key i = ''media-refund:'' @ uuid_str i"

definition media_meta :: "string \<Rightarrow> string \<Rightarrow> payload" where
  "media_meta model_id kind = [(''source'', Val (JStr ''media_generation'')), (''model'', Val (JStr model_id)), (''kind'', Val (JStr kind))]"

text \<open>A new row, with what the transport returned; its time is the database's.\<close>

definition new_job :: "uuid \<Rightarrow> instant \<Rightarrow> uuid \<Rightarrow> string \<Rightarrow> string \<Rightarrow> string \<Rightarrow> string \<Rightarrow> int \<Rightarrow> string list \<Rightarrow> verdict \<Rightarrow> SubmitHandle \<Rightarrow> media_job" where
  "new_job i now user model_id kind endpoint prompt credits images v h =
     \<lparr>mj_id = i, mj_user = user, mj_model = model_id, mj_kind = kind, mj_endpoint = endpoint, mj_request = sh_request h,
      mj_status_url = sh_status_url h, mj_response_url = sh_response_url h, mj_status = ''queued'', mj_prompt = prompt,
      mj_charged = credits, mj_refunded = False, mj_cost = None, mj_result = None, mj_error = None, mj_parent = None,
      mj_inputs = (if images = [] then None else Some images), mj_moderation = Some v, mj_operation = ''generation'',
      mj_operation_input = None, mj_visible = True, mj_push_sent = None, mj_provider = sh_provider h, mj_vendor_price = None,
      mj_pending = None, mj_routes = sh_routes h, mj_asset_store = [], mj_expire = None, mj_created = now, mj_updated = now\<rparr>"

text \<open>The savepoint both submissions share: debit, transport, row.\<close>

definition debit_and_create :: "uuid \<Rightarrow> uuid \<Rightarrow> int \<Rightarrow> bool \<Rightarrow> payload \<Rightarrow> exn + SubmitHandle \<Rightarrow> (SubmitHandle \<Rightarrow> media_job) \<Rightarrow> media_job mtx" where
  "debit_and_create i user credits debit meta transport row =
     session_scope (\<lambda>s.
       and_then (if debit then and_then (on_db (wallet_consume user credits (media_debit_key i) meta None) s) (\<lambda>_ s. (Inr (), s))
                 else (Inr (), s)) (\<lambda>_ s.
       case transport of
         Inl e \<Rightarrow> (Inl e, s)
       | Inr h \<Rightarrow> create_job (row h) s))"

definition submit_job :: "media_env \<Rightarrow> uuid \<Rightarrow> submit_request \<Rightarrow> MediaJobView mtx" where
  "submit_job env i rq s =
     (case plan_run env rq s of
        Inl e \<Rightarrow> (Inl e, s)
      | Inr p \<Rightarrow>
          let model = rp_model p; variant = rp_variant p; cost = price_of env model (rp_values p) in
          and_then (debit_and_create i (sq_user rq) cost True (media_meta (fm_id model) (fm_kind model))
            (if proxy_enabled env then submit_via_proxy env i (candidate_routes model variant (rp_values p) (rp_payload p))
             else submit_direct env (fv_endpoint variant) (rp_payload p))
            (\<lambda>h. (new_job i (sql_now (ms_db s)) (sq_user rq) (fm_id model) (fm_kind model) (fv_endpoint variant) (sq_prompt rq) cost (rp_images p) (rp_verdict p) h)
              \<lparr>mj_cost := mv_cost env model (rp_values p), mj_parent := sq_source rq\<rparr>) s) (\<lambda>j s.
          (Inr \<lparr>vw_job = j, vw_assets = []\<rparr>, s)))"

record custom_request =
  cq_user :: uuid
  cq_kind :: string
  cq_model :: string
  cq_endpoint :: string
  cq_payload :: json_obj
  cq_prompt :: string
  cq_images :: "string list"
  cq_credits :: int
  cq_operation :: string
  cq_input :: "json option"
  cq_visible :: bool

definition submit_custom :: "media_env \<Rightarrow> uuid \<Rightarrow> custom_request \<Rightarrow> MediaJobView mtx" where
  "submit_custom env i rq s =
     (if cq_kind rq \<notin> {KIND_IMAGE, KIND_VIDEO} then (Inl (Raised ValidationFailedError ''kind must be image or video''), s)
      else if cq_credits rq < 0 then (Inl (Raised ValidationFailedError ''credits must not be negative''), s)
      else case moderate_input env (cq_prompt rq) (cq_images rq) of
          Inl e \<Rightarrow> (Inl e, s)
        | Inr v \<Rightarrow>
            and_then (debit_and_create i (cq_user rq) (cq_credits rq) (0 < cq_credits rq) (media_meta (cq_model rq) (cq_kind rq))
              (if proxy_enabled env then submit_via_proxy env i [fal_route (cq_endpoint rq) (cq_payload rq)]
               else submit_direct env (cq_endpoint rq) (cq_payload rq))
              (\<lambda>h. (new_job i (sql_now (ms_db s)) (cq_user rq) (cq_model rq) (cq_kind rq) (cq_endpoint rq) (cq_prompt rq) (cq_credits rq) (cq_images rq) v
                  (h\<lparr>sh_routes := None\<rparr>))
                \<lparr>mj_operation := cq_operation rq, mj_operation_input := cq_input rq, mj_visible := cq_visible rq\<rparr>) s) (\<lambda>j s.
            (Inr \<lparr>vw_job = j, vw_assets = []\<rparr>, s)))"

section \<open>Failure and completion\<close>

definition CONTENT_POLICY_MARKERS :: "string list" where
  "CONTENT_POLICY_MARKERS = [''content policy'', ''content_policy'', ''safety'', ''nsfw'', ''prohibited content'', ''flagged'', ''moderation'']"

definition looks_like_provider_content_refusal :: "string \<Rightarrow> bool" where
  "looks_like_provider_content_refusal error = list_ex (\<lambda>m. py_contains m (py_lower error)) CONTENT_POLICY_MARKERS"

definition refund_meta :: "media_job \<Rightarrow> payload" where
  "refund_meta job = [(''source'', Val (JStr ''media_generation_refund'')), (''model'', Val (JStr (mj_model job)))]"

text \<open>The refund both failures share; returns \<open>refunded\<close>.\<close>

definition refund_job :: "media_job \<Rightarrow> bool mtx" where
  "refund_job job s =
     (if \<not> mj_refunded job \<and> 0 < mj_charged job
      then and_then (on_db (wallet_grant (mj_user job) (mj_charged job) (media_refund_key (mj_id job)) (refund_meta job) ''media_generation_failed'') s)
             (\<lambda>_ s. (Inr True, s))
      else (Inr (mj_refunded job), s))"

definition fail_run :: "instant \<Rightarrow> string \<Rightarrow> media_job \<Rightarrow> MediaJobView mtx" where
  "fail_run now error job s =
     and_then (refund_job job s) (\<lambda>refunded s.
     and_then (flush_job job (failed_job now (take 500 error) refunded
        (if looks_like_provider_content_refusal error
         then Some \<lparr>vd_status = ''blocked'', vd_stage = Some ''output'', vd_categories = [], vd_checked_at = Some now,
                vd_provider = Some (if mj_provider job = [] then ''fal'' else mj_provider job), vd_model = Some (mj_model job)\<rparr>
         else None) None job) s) (\<lambda>j s.
     (Inr \<lparr>vw_job = j, vw_assets = []\<rparr>, s)))"

definition block_run :: "instant \<Rightarrow> verdict \<Rightarrow> media_job \<Rightarrow> MediaJobView mtx" where
  "block_run now v job s =
     and_then (refund_job job s) (\<lambda>refunded s.
     and_then (flush_job job (failed_job now ''result rejected by the content rules'' refunded (Some v)
        (Some \<lparr>mr_assets = [], mr_description = None, mr_seed = None\<rparr>) job) s) (\<lambda>j s.
     (Inr \<lparr>vw_job = j, vw_assets = []\<rparr>, s)))"

text \<open>\<open>_TransientCompletionError\<close> is a value of its own: each caller decides what it means.\<close>

datatype completion = Settled MediaJobView | Transient exn

definition settled :: "(exn, MediaJobView, media_state) outcome \<Rightarrow> (exn, completion, media_state) outcome" where
  "settled r = and_then r (\<lambda>v s. (Inr (Settled v), s))"

definition finish_run :: "media_env \<Rightarrow> instant \<Rightarrow> media_result \<Rightarrow> MediaAsset list \<Rightarrow> verdict option \<Rightarrow> media_job \<Rightarrow> MediaJobView mtx" where
  "finish_run env now r assets v job s =
     and_then (flush_job job (completed_job (md_retention (mv_settings env)) now r v job) s) (\<lambda>j s.
       (Inr \<lparr>vw_job = j, vw_assets = assets\<rparr>,
        if mv_push env \<and> assets \<noteq> [] \<and> mj_visible j then snd (claim_media_push now (mj_id j) s) else s))"

definition complete_run :: "media_env \<Rightarrow> instant \<Rightarrow> media_result \<Rightarrow> MediaAsset list \<Rightarrow> media_job \<Rightarrow> completion mtx" where
  "complete_run env now r assets job s =
     (let go_on = (\<lambda>v.
            case mv_complete env of
              None \<Rightarrow> settled (finish_run env now r assets v job s)
            | Some handler \<Rightarrow>
                (case handler job assets of
                   Inr _ \<Rightarrow> settled (finish_run env now r assets v job s)
                 | Inl (Raised c m) \<Rightarrow>
                     if is_a c ValidationFailedError then settled (fail_run now m job s) else (Inr (Transient (Raised c m)), s)
                 | Inl e \<Rightarrow> (Inr (Transient e), s))) in
      case moderate_output env job assets of
        Refused \<Rightarrow> settled (fail_run now ''result image could not be checked'' job s)
      | Unavailable e \<Rightarrow> (Inr (Transient e), s)
      | Checked v \<Rightarrow> if vd_blocked v then settled (block_run now v job s) else go_on (Some v)
      | Not_applicable \<Rightarrow> go_on None)"

definition close_if_overdue :: "media_env \<Rightarrow> instant \<Rightarrow> media_job \<Rightarrow> MediaJobView option mtx" where
  "close_if_overdue env now job s =
     (if now - mj_created job \<le> seconds (md_deadline (mv_settings env)) then (Inr None, s)
      else and_then (fail_run now ''generation did not complete in time'' job s) (\<lambda>v s. (Inr (Some v), s)))"

text \<open>\<open>_close_if_overdue\<close>, and what its callers do when it leaves the job alone: raise, or mark it running.\<close>

definition close_or_raise :: "media_env \<Rightarrow> instant \<Rightarrow> exn \<Rightarrow> media_job \<Rightarrow> MediaJobView mtx" where
  "close_or_raise env now e job s =
     and_then (close_if_overdue env now job s) (\<lambda>c s. case c of Some v \<Rightarrow> (Inr v, s) | None \<Rightarrow> (Inl e, s))"

definition close_or_running :: "media_env \<Rightarrow> instant \<Rightarrow> media_job \<Rightarrow> MediaJobView mtx" where
  "close_or_running env now job s =
     and_then (close_if_overdue env now job s) (\<lambda>c s.
       case c of
         Some v \<Rightarrow> (Inr v, s)
       | None \<Rightarrow> and_then (mark_running now job s) (\<lambda>j s. (Inr \<lparr>vw_job = j, vw_assets = []\<rparr>, s)))"

definition complete_or_close :: "media_env \<Rightarrow> instant \<Rightarrow> media_result \<Rightarrow> MediaAsset list \<Rightarrow> media_job \<Rightarrow> MediaJobView mtx" where
  "complete_or_close env now r assets job s =
     and_then (complete_run env now r assets job s) (\<lambda>c s.
       case c of Settled v \<Rightarrow> (Inr v, s) | Transient e \<Rightarrow> close_or_raise env now e job s)"

end
