(* ===== verification/Media_Lifecycle.thy ===== *)
theory Media_Lifecycle
  imports Media_Jobs
begin

text \<open>
  What moves a job after its submission: a client's poll, the background reconciler, the proxy's callback and
  the deletion by its owner (\<open>media_generation/service.py\<close>, \<open>reconciler.py\<close>, \<open>webhook.py\<close> and the callback route
  of \<open>api_gateway/routers/media_webhooks.py\<close>). An operation gets the row its session has loaded; a job of the
  direct fal client is advanced on that copy, a proxy job is locked and read again first.
\<close>

section \<open>Advancing a job\<close>

definition refused_message :: "error_class list \<Rightarrow> exn \<Rightarrow> string option" where
  "refused_message classes e = (case e of Raised c m \<Rightarrow> if list_ex (is_a c) classes then Some m else None | _ \<Rightarrow> None)"

text \<open>A job of the direct client: one poll of fal. \<open>job\<close> is the row as the session loaded it.\<close>

definition apply_fal_result :: "media_env \<Rightarrow> instant \<Rightarrow> media_job \<Rightarrow> MediaJobView mtx" where
  "apply_fal_result env now job s =
     (case mv_fal_result env (mj_response_url job) (mj_endpoint job) of
        Inl e \<Rightarrow> (case refused_message [ValidationFailedError] e of
            Some m \<Rightarrow> fail_run now m job s
          | None \<Rightarrow> close_or_raise env now e job s)
      | Inr body \<Rightarrow>
          (case normalize_result body (mj_kind job) of
             Inl e \<Rightarrow> close_or_raise env now e job s
           | Inr r \<Rightarrow>
               let assets = assets_from_result (Some r) in
               if assets = [] then fail_run now ''generation produced no output'' job s
               else complete_or_close env now r assets job s))"

definition advance_direct :: "media_env \<Rightarrow> instant \<Rightarrow> media_job \<Rightarrow> MediaJobView mtx" where
  "advance_direct env now job s =
     (case mv_fal_status env (mj_status_url job) (mj_endpoint job) of
        Inl e \<Rightarrow> (case refused_message [ValidationFailedError, UpstreamJobGoneError] e of
            Some m \<Rightarrow> fail_run now m job s
          | None \<Rightarrow> close_or_raise env now e job s)
      | Inr status \<Rightarrow>
          if fst_status status = ''COMPLETED'' then apply_fal_result env now job s
          else if fst_status status \<in> {''FAILED'', ''CANCELED''}
          then fail_run now (case fst_error status of None \<Rightarrow> ''generation failed upstream''
             | Some m \<Rightarrow> if m = [] then ''generation failed upstream'' else m) job s
          else close_or_running env now job s)"

text \<open>A proxy job. \<open>held\<close>: another session holds the lock of the row.\<close>

definition advance_proxy :: "media_env \<Rightarrow> instant \<Rightarrow> bool \<Rightarrow> bool \<Rightarrow> media_job \<Rightarrow> MediaJobView mtx" where
  "advance_proxy env now skip_locked held job s =
     (case (if skip_locked \<and> held then None else find_job (mj_id job) s) of
        None \<Rightarrow> if skip_locked then (Inr \<lparr>vw_job = job, vw_assets = []\<rparr>, s) else (Inl (Raised NotFoundError ''media job not found''), s)
      | Some row \<Rightarrow>
          if terminal row then (Inr \<lparr>vw_job = row, vw_assets = assets_from_result (mj_result row)\<rparr>, s)
          else (case mj_pending row of
                  Some r \<Rightarrow>
                    let assets = assets_from_result (Some r) in
                    if assets = [] then fail_run now ''generation produced no output'' row s
                    else complete_or_close env now r assets row s
                | None \<Rightarrow> close_or_running env now row s))"

definition advance_job :: "media_env \<Rightarrow> instant \<Rightarrow> bool \<Rightarrow> bool \<Rightarrow> media_job \<Rightarrow> MediaJobView mtx" where
  "advance_job env now skip_locked held job s =
     (if terminal job then (Inr \<lparr>vw_job = job, vw_assets = assets_from_result (mj_result job)\<rparr>, s)
      else if mj_provider job \<noteq> [] then advance_proxy env now skip_locked held job s
      else advance_direct env now job s)"

definition get_job :: "media_env \<Rightarrow> instant \<Rightarrow> uuid \<Rightarrow> uuid \<Rightarrow> MediaJobView mtx" where
  "get_job env now user i s =
     (case get_job_row i user s of
        None \<Rightarrow> (Inl (Raised NotFoundError ''media job not found''), s)
      | Some job \<Rightarrow> advance_job env now False False job s)"

definition delete_job :: "uuid \<Rightarrow> uuid \<Rightarrow> unit mtx" where
  "delete_job user i s =
     (case get_job_row i user s of
        None \<Rightarrow> (Inl (Raised NotFoundError ''media job not found''), s)
      | Some job \<Rightarrow>
          if \<not> terminal job
          then (Inl (Raised JobNotTerminalError ''job is still running; poll it until it completes or fails before deleting''), s)
          else delete_job_row job s)"

section \<open>The proxy's callback\<close>

datatype proxy_outcome =
  Duplicate_terminal | Stale_attempt | Result_already_received | Resubmitted | Webhook_failed | Webhook_pending
  | No_usable_asset | Webhook_completed | Completion_failed | Completion_deferred

text \<open>\<open>_resubmit_to_next_route\<close>: whether the job was handed on.\<close>

definition resubmit_to_next_route :: "media_env \<Rightarrow> instant \<Rightarrow> media_job \<Rightarrow> bool mtx" where
  "resubmit_to_next_route env now job s =
     (if mj_provider job \<notin> {SERVICE_SOSANA, SERVICE_KIE} then (Inr False, s)
      else let routes = routes_from_json (mj_routes job) in
        if routes = [] \<or> seconds (md_deadline (mv_settings env)) < now - mj_created job then (Inr False, s)
        else case submit_first_accepting env (mj_id job) routes of
            Inl (Raised c m) \<Rightarrow> if is_a c AppError then (Inr False, s) else (Inl (Raised c m), s)
          | Inl e \<Rightarrow> (Inl e, s)
          | Inr (r, rid, remaining) \<Rightarrow>
              and_then (flush_job job (switched now (vr_service r) rid (routes_to_json remaining) job) s) (\<lambda>j s.
              and_then (mark_running now j s) (\<lambda>_ s. (Inr True, s))))"

text \<open>\<open>_complete_in_savepoint\<close>: a transient fault undoes the savepoint and no more.\<close>

definition complete_in_savepoint :: "media_env \<Rightarrow> instant \<Rightarrow> media_result \<Rightarrow> media_job \<Rightarrow> proxy_outcome mtx" where
  "complete_in_savepoint env now r job s =
     (let assets = assets_from_result (Some r) in
      if assets = [] then and_then (fail_run now ''generation produced no output'' job s) (\<lambda>_ s. (Inr No_usable_asset, s))
      else case complete_run env now r assets job s of
          (Inl e, t) \<Rightarrow> (Inl e, s)
        | (Inr (Transient e), t) \<Rightarrow> (Inr Completion_deferred, s)
        | (Inr (Settled v), t) \<Rightarrow> (Inr (if mj_status (vw_job v) = ''completed'' then Webhook_completed else Completion_failed), t))"

text \<open>The part of \<open>_apply_callback\<close> after the vendor's price is recorded.\<close>

definition apply_outcome :: "media_env \<Rightarrow> instant \<Rightarrow> json_obj \<Rightarrow> media_job \<Rightarrow> proxy_outcome mtx" where
  "apply_outcome env now body job s =
     (case (mj_pending job, webhook_outcome (mv_loads env) body) of
        (Some r, Callback_completed) \<Rightarrow> complete_in_savepoint env now r job s
      | (Some r, _) \<Rightarrow> (Inr Result_already_received, s)
      | (None, Callback_failed) \<Rightarrow>
          and_then (resubmit_to_next_route env now job s) (\<lambda>again s.
          if again then (Inr Resubmitted, s)
          else and_then (fail_run now (mask_secret_text (md_secrets (mv_settings env)) (webhook_error_message body)) job s)
                 (\<lambda>_ s. (Inr Webhook_failed, s)))
      | (None, Callback_pending) \<Rightarrow> and_then (mark_running now job s) (\<lambda>_ s. (Inr Webhook_pending, s))
      | (None, Callback_completed) \<Rightarrow>
          (case callback_result (mv_loads env) (mv_urlsplit env) (md_suffixes (mv_settings env)) body (mj_kind job) of
             Inl e \<Rightarrow> (Inl e, s)
           | Inr (r, rejected) \<Rightarrow>
               if assets_from_result (Some r) = []
               then and_then (resubmit_to_next_route env now job s) (\<lambda>again s.
                    if again then (Inr Resubmitted, s)
                    else and_then (fail_run now ''generation produced no output'' job s) (\<lambda>_ s. (Inr No_usable_asset, s)))
               else and_then (flush_job job (stored_pending now r job) s) (\<lambda>j s. complete_in_savepoint env now r j s)))"

definition apply_callback :: "media_env \<Rightarrow> instant \<Rightarrow> json_obj \<Rightarrow> string option \<Rightarrow> media_job \<Rightarrow> proxy_outcome mtx" where
  "apply_callback env now body route job s =
     (if terminal job then (Inr Duplicate_terminal, s)
      else if route \<noteq> None \<and> route \<noteq> Some (mj_provider job) then (Inr Stale_attempt, s)
      else case parse_vendor_price (mv_dec env) body of
          None \<Rightarrow> apply_outcome env now body job s
        | Some price \<Rightarrow> and_then (flush_job job (priced now price job) s) (\<lambda>j s. apply_outcome env now body j s))"

definition handle_proxy_webhook :: "media_env \<Rightarrow> instant \<Rightarrow> uuid \<Rightarrow> json_obj \<Rightarrow> string option \<Rightarrow> proxy_outcome mtx" where
  "handle_proxy_webhook env now i body route s =
     (case find_job i s of
        None \<Rightarrow> (Inl (Raised NotFoundError ''media job not found''), s)
      | Some job \<Rightarrow> if mj_provider job = [] then (Inl (Raised NotFoundError ''media job not found''), s)
          else apply_callback env now body route job s)"

text \<open>The token of a callback; \<open>secret\<close> is \<open>webhook_secret\<close>.\<close>

definition verify_webhook_token :: "media_env \<Rightarrow> string \<Rightarrow> uuid \<Rightarrow> string option \<Rightarrow> bool" where
  "verify_webhook_token env secret i token =
     (case token of None \<Rightarrow> False
      | Some t \<Rightarrow> t \<noteq> [] \<and> length t \<le> 128 \<and> secret \<noteq> [] \<and> t = mv_sign env i)"

text \<open>The route: \<open>raw\<close> is the body as \<open>json.loads\<close> reads it, \<open>None\<close> when it cannot.\<close>

definition proxy_media_webhook ::
  "media_env \<Rightarrow> instant \<Rightarrow> string \<Rightarrow> string \<Rightarrow> string option \<Rightarrow> string option \<Rightarrow> json option \<Rightarrow> proxy_outcome mtx" where
  "proxy_media_webhook env now secret job_id token route raw s =
     (case uuid_parse job_id of
        None \<Rightarrow> (Inl (Raised UnauthorizedError ''invalid webhook token''), s)
      | Some i \<Rightarrow>
          if \<not> verify_webhook_token env secret i token then (Inl (Raised UnauthorizedError ''invalid webhook token''), s)
          else (case raw of
                  Some (JObj body) \<Rightarrow> session_scope (handle_proxy_webhook env now i body (if route = Some [] then None else route)) s
                | _ \<Rightarrow> (Inl (Raised ValidationFailedError ''webhook body must be a JSON object''), s)))"

section \<open>The reconciler\<close>

fun is_db_fault :: "exn \<Rightarrow> bool" where
  "is_db_fault (DbFault f) = True"
| "is_db_fault _ = False"

text \<open>
  One batch in one transaction. An exception of one job is swallowed and what the job wrote before it stays;
  after a fault of a database statement PostgreSQL refuses every further one, so nothing is committed
  (\<open>None\<close>). Each job is the row as \<open>list_non_terminal\<close> loaded it.
\<close>

fun advance_all :: "media_env \<Rightarrow> instant \<Rightarrow> uuid set \<Rightarrow> media_job list \<Rightarrow> media_state \<Rightarrow> (nat \<times> media_state) option" where
  "advance_all env now held [] s = Some (0, s)"
| "advance_all env now held (j # js) s =
     (case advance_job env now True (mj_id j \<in> held) j s of
        (Inl e, t) \<Rightarrow> if is_db_fault e then None else advance_all env now held js t
      | (Inr v, t) \<Rightarrow> map_option (\<lambda>(n, u). (n + 1, u)) (advance_all env now held js t))"

definition reconcile_batch :: "bool \<Rightarrow> media_env \<Rightarrow> instant \<Rightarrow> nat \<Rightarrow> media_state \<Rightarrow> media_job list" where
  "reconcile_batch fal_configured env now batch_size s =
     sort_key (\<lambda>j. if mj_provider j = [] then 0 else 1 :: nat)
       (list_non_terminal (max 1 batch_size)
         (if fal_configured then None else Some (now - seconds (md_deadline (mv_settings env)))) True s)"

definition reconcile_once :: "bool \<Rightarrow> media_env \<Rightarrow> instant \<Rightarrow> uuid set \<Rightarrow> nat \<Rightarrow> media_state \<Rightarrow> nat option \<times> media_state" where
  "reconcile_once fal_configured env now held batch_size s =
     (case advance_all env now held (reconcile_batch fal_configured env now batch_size s) s of
        None \<Rightarrow> (None, s)
      | Some (n, t) \<Rightarrow> (Some n, t))"

end
