(* ===== verification/Media_Billing.thy ===== *)
theory Media_Billing
  imports Media_Lifecycle
begin

text \<open>
  What the lifecycle of the generation jobs does to the wallets. \<open>media_ok\<close> ties each row to its ledger entries:
  the debit of its price, and the refund exactly when the run failed. \<open>credits\<close> is a user's balance together with
  what the runs of that user hold; no operation but the deletion of a delivered run changes it. \<open>moves\<close> is what one
  operation on one job may do.
\<close>

section \<open>Keys\<close>

lemma media_keys_differ [simp]:
  "media_refund_key a = media_refund_key b \<longleftrightarrow> a = b"
  "media_debit_key a = media_debit_key b \<longleftrightarrow> a = b"
  "media_refund_key a \<noteq> media_debit_key b"
  "media_debit_key a \<noteq> media_refund_key b"
  by (simp_all add: media_refund_key_def media_debit_key_def)

section \<open>The invariant\<close>

definition job_ok :: "db \<Rightarrow> media_job \<Rightarrow> bool" where
  "job_ok d j \<longleftrightarrow>
     mj_status j \<in> set JOB_STATUSES \<and> 0 \<le> mj_charged j \<and> mj_charged j \<le> 2147483647
     \<and> (mj_refunded j \<longleftrightarrow> mj_status j = ''failed'' \<and> 0 < mj_charged j)
     \<and> (case existing_tx (mj_user j) (media_refund_key (mj_id j)) d of
          None \<Rightarrow> \<not> mj_refunded j
        | Some x \<Rightarrow> mj_refunded j \<and> tx_type x = Credit \<and> tx_amount x = mj_charged j)
     \<and> (0 < mj_charged j \<longrightarrow> (\<exists>x. existing_tx (mj_user j) (media_debit_key (mj_id j)) d = Some x \<and> tx_type x = Debit
           \<and> tx_amount x = mj_charged j))
     \<and> (terminal j \<longrightarrow> mj_pending j = None \<and> mj_routes j = None)"

definition media_ok :: "media_state \<Rightarrow> bool" where
  "media_ok s \<longleftrightarrow> wallet_ok (ms_db s) \<and> distinct (map mj_id (ms_jobs s)) \<and> (\<forall>j \<in> set (ms_jobs s). job_ok (ms_db s) j)"

definition stake_of :: "uuid \<Rightarrow> media_job \<Rightarrow> int" where
  "stake_of u j = (if mj_user j = u \<and> mj_status j \<noteq> ''failed'' then mj_charged j else 0)"

definition stake :: "uuid \<Rightarrow> media_state \<Rightarrow> int" where
  "stake u s = sum_list (map (stake_of u) (ms_jobs s))"

definition credits :: "uuid \<Rightarrow> media_state \<Rightarrow> int" where
  "credits u s = current_balance u (ms_db s) + stake u s"

text \<open>What may happen to a row: its price and owner stay, a settled row stays as it is, and a job of the proxy gets
  only results with the property \<open>A\<close>.\<close>

definition legal_results :: "(media_result \<Rightarrow> bool) \<Rightarrow> media_job \<Rightarrow> media_job \<Rightarrow> bool" where
  "legal_results A j j' \<longleftrightarrow> (mj_provider j' = [] \<longleftrightarrow> mj_provider j = []) \<and>
     (mj_provider j \<noteq> [] \<longrightarrow> (\<forall>r. mj_pending j' = Some r \<or> mj_result j' = Some r \<longrightarrow> mj_pending j = Some r \<or> mj_result j = Some r \<or> A r))"

definition legal_move :: "(media_result \<Rightarrow> bool) \<Rightarrow> media_job \<Rightarrow> media_job \<Rightarrow> bool" where
  "legal_move A j j' \<longleftrightarrow> mj_id j' = mj_id j \<and> mj_user j' = mj_user j \<and> mj_charged j' = mj_charged j \<and> mj_created j' = mj_created j
     \<and> (if terminal j then j' = j else mj_status j' \<in> {mj_status j, ''running'', ''completed'', ''failed''}) \<and> legal_results A j j'"

definition moves :: "(media_result \<Rightarrow> bool) \<Rightarrow> uuid \<Rightarrow> media_state \<Rightarrow> media_state \<Rightarrow> bool" where
  "moves A i s t \<longleftrightarrow> media_ok t \<and> list_all2 (legal_move A) (ms_jobs s) (ms_jobs t) \<and> (\<forall>u. credits u t = credits u s)
     \<and> (\<forall>k. k \<noteq> i \<longrightarrow> find_job k t = find_job k s) \<and> users (ms_db t) = users (ms_db s)"

section \<open>Rows of the table\<close>

lemma find_job_SomeD: "find_job i s = Some j \<Longrightarrow> j \<in> set (ms_jobs s) \<and> mj_id j = i"
  unfolding find_job_def by (drule find_SomeD) auto

lemma find_job_iff: "distinct (map mj_id (ms_jobs s)) \<Longrightarrow> find_job i s = Some j \<longleftrightarrow> j \<in> set (ms_jobs s) \<and> mj_id j = i"
  unfolding find_job_def by (induction "ms_jobs s" arbitrary: s) (auto simp: find_Some_iff distinct_conv_nth in_set_conv_nth)

lemma find_job_unique:
  assumes "distinct (map mj_id (ms_jobs s))" and "find_job i s = Some j" and "x \<in> set (ms_jobs s)" and "mj_id x = i"
  shows "x = j"
  using find_job_iff[OF assms(1), of i x] assms(2-4) by simp

lemma find_replaced:
  assumes "\<And>x. g x = i \<Longrightarrow> g (f x) = i"
  shows "find (\<lambda>x. g x = k) (map (\<lambda>x. if g x = i then f x else x) xs) =
    (if k = i then map_option f (find (\<lambda>x. g x = i) xs) else find (\<lambda>x. g x = k) xs)"
  using assms by (induction xs) auto

lemma find_update_job:
  assumes "\<And>x. mj_id x = i \<Longrightarrow> mj_id (f x) = i"
  shows "find_job k (update_job i f s) = (if k = i then map_option f (find_job i s) else find_job k s)"
  using find_replaced[of mj_id i f k "ms_jobs s"] assms by (simp add: find_job_def update_job_def)

lemma sum_list_replaced:
  fixes h :: "'a \<Rightarrow> int"
  assumes "distinct (map g xs)" and "find (\<lambda>x. g x = i) xs = Some j"
  shows "sum_list (map h (map (\<lambda>x. if g x = i then f x else x) xs)) = sum_list (map h xs) - h j + h (f j)"
  using assms
proof (induction xs)
  case (Cons x xs)
  show ?case
  proof (cases "g x = i")
    case True
    with Cons.prems(1) have "\<forall>y \<in> set xs. g y \<noteq> i" by (auto simp: image_iff)
    then have "map (\<lambda>x. if g x = i then f x else x) xs = xs" by (intro map_idI) auto
    with True Cons.prems show ?thesis by (simp add: comp_def)
  next
    case False
    with Cons show ?thesis by simp
  qed
qed simp

lemma update_job_const:
  assumes "distinct (map mj_id (ms_jobs s))" and "find_job i s = Some j"
  shows "update_job i f s = update_job i (\<lambda>_. f j) s"
proof -
  have "x = j" if "x \<in> set (ms_jobs s)" "mj_id x = i" for x
    using find_job_unique[OF assms that] .
  then show ?thesis unfolding update_job_def by auto
qed

section \<open>Moves\<close>

lemma legal_move_refl [simp]: "legal_move A j j"
  by (simp add: legal_move_def legal_results_def)

lemma legal_results_trans: "legal_results A a b \<Longrightarrow> legal_results A b c \<Longrightarrow> legal_results A a c"
  unfolding legal_results_def by metis

lemma legal_move_settled: "legal_move A a b \<Longrightarrow> terminal a \<Longrightarrow> b = a"
  by (simp add: legal_move_def)

lemma insert_chain: "c \<in> insert b S \<Longrightarrow> b \<in> insert a S \<Longrightarrow> c \<in> insert a S"
  by auto

lemma legal_move_trans:
  assumes "legal_move A a b" and "legal_move A b c"
  shows "legal_move A a c"
proof (cases "terminal a \<or> terminal b")
  case True
  then show ?thesis using assms legal_move_settled by metis
next
  case False
  then have "mj_status c \<in> {mj_status b, ''running'', ''completed'', ''failed''}" "mj_status b \<in> {mj_status a, ''running'', ''completed'', ''failed''}"
    using assms by (simp_all only: legal_move_def if_False disj_not1 de_Morgan_disj)
  then have "mj_status c \<in> {mj_status a, ''running'', ''completed'', ''failed''}" by (rule insert_chain)
  moreover have "legal_results A a c" using assms legal_results_trans unfolding legal_move_def by blast
  ultimately show ?thesis using assms False unfolding legal_move_def by simp
qed

lemma moves_refl: "media_ok s \<Longrightarrow> moves A i s s"
  by (simp add: moves_def list_all2_refl)

lemma moves_trans: "moves A i s t \<Longrightarrow> moves A i t v \<Longrightarrow> moves A i s v"
  unfolding moves_def using list_all2_trans[of "legal_move A" "legal_move A" "legal_move A"] legal_move_trans by fastforce

lemma moves_ok: "moves A i s t \<Longrightarrow> media_ok t"
  by (simp add: moves_def)

lemma media_ok_job: "media_ok s \<Longrightarrow> find_job i s = Some j \<Longrightarrow> job_ok (ms_db s) j \<and> mj_id j = i"
  unfolding media_ok_def using find_job_SomeD by blast

lemma job_ok_frame:
  assumes "job_ok d j" and "\<And>k. k \<in> {media_refund_key (mj_id j), media_debit_key (mj_id j)} \<Longrightarrow> existing_tx (mj_user j) k d' = existing_tx (mj_user j) k d"
  shows "job_ok d' j"
  using assms unfolding job_ok_def by simp

text \<open>The rule for one changed row, with what the wallet did on the way.\<close>

lemma moves_change:
  assumes ok: "media_ok s" and job: "find_job i s = Some j" and legal: "legal_move A j j'" and wallet: "wallet_ok d"
    and keys: "\<And>u k. (u, k) \<noteq> (mj_user j, media_refund_key i) \<Longrightarrow> existing_tx u k d = existing_tx u k (ms_db s)"
    and new: "job_ok d j'" and users: "users d = users (ms_db s)"
    and balance: "\<And>u. current_balance u d + stake_of u j' = current_balance u (ms_db s) + stake_of u j"
  shows "moves A i s ((update_job i (\<lambda>_. j') s)\<lparr>ms_db := d\<rparr>)"
proof -
  let ?t = "(update_job i (\<lambda>_. j') s)\<lparr>ms_db := d\<rparr>"
  have dist: "distinct (map mj_id (ms_jobs s))" and old: "\<forall>x \<in> set (ms_jobs s). job_ok (ms_db s) x"
    using ok by (simp_all add: media_ok_def)
  have ids: "mj_id j = i" "mj_id j' = i" using media_ok_job[OF ok job] legal by (simp_all add: legal_move_def)
  have unique: "x = j" if "x \<in> set (ms_jobs s)" "mj_id x = i" for x
    using find_job_unique[OF dist job that] .
  have rows: "ms_jobs ?t = map (\<lambda>x. if mj_id x = i then j' else x) (ms_jobs s)" by (simp add: update_job_def)
  have map_ids: "map mj_id (ms_jobs ?t) = map mj_id (ms_jobs s)" unfolding rows using ids by (simp add: comp_def)
  have "job_ok d x" if "x \<in> set (ms_jobs s)" "mj_id x \<noteq> i" for x
  proof (rule job_ok_frame)
    show "job_ok (ms_db s) x" using old that by blast
    show "existing_tx (mj_user x) k d = existing_tx (mj_user x) k (ms_db s)"
      if "k \<in> {media_refund_key (mj_id x), media_debit_key (mj_id x)}" for k
      using that \<open>mj_id x \<noteq> i\<close> by (intro keys) auto
  qed
  then have "\<forall>x \<in> set (ms_jobs ?t). job_ok d x" unfolding rows using new by auto
  moreover have "distinct (map mj_id (ms_jobs ?t))" using dist by (simp only: map_ids)
  ultimately have "media_ok ?t" using wallet unfolding media_ok_def by simp
  moreover have "list_all2 (legal_move A) (ms_jobs s) (ms_jobs ?t)"
    unfolding rows list_all2_map2 using unique legal by (auto intro!: list.rel_refl_strong)
  moreover have "credits u ?t = credits u s" for u
    using sum_list_replaced[OF dist, of i j "stake_of u" "\<lambda>_. j'"] job balance[of u]
    unfolding credits_def stake_def rows find_job_def by (simp add: update_job_def)
  moreover have "find_job k ?t = find_job k s" if "k \<noteq> i" for k
    using find_update_job[of i "\<lambda>_. j'" k s] ids that by (simp add: find_job_def)
  ultimately show ?thesis using users unfolding moves_def by simp
qed

text \<open>A flush on the row as it is stored.\<close>

lemma flush_stored:
  assumes "media_ok s" and "find_job (mj_id j) s = Some j" and "merge_row j new j = new"
  shows "flush_job j new s = (Inr new, update_job (mj_id j) (\<lambda>_. new) s)"
  using assms update_job_const[of s "mj_id j" j "merge_row j new"] by (simp add: flush_job_def media_ok_def)

lemma terminal_iff: "terminal j \<longleftrightarrow> mj_status j = ''completed'' \<or> mj_status j = ''failed''"
  by (simp add: terminal_def TERMINAL_JOBS_def)

lemma status_differ [simp]:
  "''completed'' \<noteq> ''failed''" "''failed'' \<noteq> ''completed''" "''running'' \<noteq> ''failed''" "''failed'' \<noteq> ''running''"
  "''queued'' \<noteq> ''failed''" "''failed'' \<noteq> ''queued''" "''running'' \<noteq> ''completed''" "''completed'' \<noteq> ''running''"
  "''queued'' \<noteq> ''completed''" "''completed'' \<noteq> ''queued''" "''queued'' \<noteq> ''running''" "''running'' \<noteq> ''queued''"
  by simp_all

lemma open_job:
  assumes "job_ok d j" and "\<not> terminal j"
  shows "\<not> mj_refunded j" and "existing_tx (mj_user j) (media_refund_key (mj_id j)) d = None" and "mj_status j = ''queued'' \<or> mj_status j = ''running''"
proof -
  show "mj_status j = ''queued'' \<or> mj_status j = ''running''"
    using assms by (simp add: job_ok_def JOB_STATUSES_def terminal_iff)
  show 1: "\<not> mj_refunded j" using assms by (simp add: job_ok_def terminal_iff)
  show "existing_tx (mj_user j) (media_refund_key (mj_id j)) d = None"
    using assms(1) 1 by (cases "existing_tx (mj_user j) (media_refund_key (mj_id j)) d") (simp_all add: job_ok_def)
qed

lemma job_ok_open:
  assumes "job_ok d j" and "\<not> terminal j" and "mj_id new = mj_id j" "mj_user new = mj_user j" "mj_charged new = mj_charged j"
    "mj_refunded new = mj_refunded j" and "mj_status new = mj_status j \<or> mj_status new = ''running''
      \<or> mj_status new = ''completed'' \<and> mj_pending new = None \<and> mj_routes new = None"
  shows "job_ok d new"
proof -
  have "mj_status new \<in> set JOB_STATUSES" "mj_status new \<noteq> ''failed''" "terminal new \<longrightarrow> mj_pending new = None \<and> mj_routes new = None"
    using open_job(3)[OF assms(1,2)] assms(7) by (elim disjE conjE; simp add: JOB_STATUSES_def terminal_iff)+
  then show ?thesis using assms(1,3-6) open_job(1,2)[OF assms(1,2)] by (simp add: job_ok_def)
qed

text \<open>A change of the open row alone.\<close>

lemma moves_row:
  assumes ok: "media_ok s" and job: "find_job (mj_id j) s = Some j" and live: "\<not> terminal j"
    and same: "mj_id new = mj_id j" "mj_user new = mj_user j" "mj_charged new = mj_charged j" "mj_created new = mj_created j"
      "mj_refunded new = mj_refunded j"
    and status: "mj_status new = mj_status j \<or> mj_status new = ''running''
      \<or> mj_status new = ''completed'' \<and> mj_pending new = None \<and> mj_routes new = None"
    and results: "legal_results A j new"
  shows "moves A (mj_id j) s (update_job (mj_id j) (\<lambda>_. new) s)" and "find_job (mj_id j) (update_job (mj_id j) (\<lambda>_. new) s) = Some new"
proof -
  let ?t = "(update_job (mj_id j) (\<lambda>_. new) s)\<lparr>ms_db := ms_db s\<rparr>"
  note jok = conjunct1[OF media_ok_job[OF ok job]]
  note facts = open_job[OF jok live]
  have t: "?t = update_job (mj_id j) (\<lambda>_. new) s" by (simp add: update_job_def)
  have "job_ok (ms_db s) new"
    by (rule job_ok_open[OF jok live same(1-3,5) status])
  moreover have "wallet_ok (ms_db s)" using ok by (simp add: media_ok_def)
  moreover have "legal_move A j new" using same status live results by (elim disjE conjE; simp add: legal_move_def)
  moreover have "stake_of u new = stake_of u j" for u
    using facts(3) status same by (elim disjE conjE; simp add: stake_of_def)
  ultimately have "moves A (mj_id j) s ?t" by (intro moves_change[OF ok job]) simp_all
  then show "moves A (mj_id j) s (update_job (mj_id j) (\<lambda>_. new) s)" unfolding t .
  show "find_job (mj_id j) (update_job (mj_id j) (\<lambda>_. new) s) = Some new"
    using find_update_job[of "mj_id j" "\<lambda>_. new" "mj_id j" s] same(1) job by simp
qed

lemma update_job_twice: "mj_id new = i \<Longrightarrow> update_job i f (update_job i (\<lambda>_. new) s) = update_job i (\<lambda>_. f new) s"
  by (simp add: update_job_def)

lemma update_job_db [simp]: "ms_db (update_job i f s) = ms_db s"
  by (simp add: update_job_def)

section \<open>Failure\<close>

text \<open>A refund of an open job posts its price, or meets an overflow of the balance.\<close>

lemma refund_open:
  assumes ok: "media_ok s" and job: "find_job (mj_id j) s = Some j" and live: "\<not> terminal j" and paid: "0 < mj_charged j"
  obtains (overflow) t where "refund_job j s = (Inl (DbFault OutOfRange), t)" and "\<not> bigint_ok (current_balance (mj_user j) (ms_db s) + mj_charged j)"
  | (posted) row where "bigint_ok (current_balance (mj_user j) (ms_db s) + mj_charged j)" and
      "refund_job j s = (Inr True, s\<lparr>ms_db := post_tx (mj_user j) Credit (mj_charged j) (refund_meta j) (media_refund_key (mj_id j))
         (current_balance (mj_user j) (ms_db s) + mj_charged j) row (ms_db s)\<rparr>)"
proof -
  note jok = conjunct1[OF media_ok_job[OF ok job]]
  note facts = open_job[OF jok live]
  have wallet: "wallet_ok (ms_db s)" using ok by (simp add: media_ok_def)
  obtain x where x: "existing_tx (mj_user j) (media_debit_key (mj_id j)) (ms_db s) = Some x"
    using jok paid unfolding job_ok_def by blast
  have user: "users (ms_db s) (mj_user j) \<noteq> None" by (rule wallet_ok_row(2)[OF wallet x])
  have int: "bigint_ok (mj_charged j)" using jok by (simp add: job_ok_def bigint_ok_def)
  let ?f = "wallet_grant (mj_user j) (mj_charged j) (media_refund_key (mj_id j)) (refund_meta j) ''media_generation_failed''"
  note run = grant_committed[OF wallet, of "mj_user j" "mj_charged j" "media_refund_key (mj_id j)" "refund_meta j" "''media_generation_failed''"]
  show thesis
  proof (cases "bigint_ok (current_balance (mj_user j) (ms_db s) + mj_charged j)")
    case True
    note raw = grant_posts[OF wallet user paid int True facts(2), of "refund_meta j" "''media_generation_failed''"]
    show thesis by (rule posted[OF True]) (simp add: refund_job_def facts(1) paid on_db_def raw)
  next
    case False
    with run user int paid facts(2) have "session_scope ?f (ms_db s) = (Inl (DbFault OutOfRange), ms_db s)" by simp
    then obtain d where "?f (ms_db s) = (Inl (DbFault OutOfRange), d)" using session_scope_InlD by metis
    then have "refund_job j s = (Inl (DbFault OutOfRange), s\<lparr>ms_db := d\<rparr>)" by (simp add: refund_job_def facts(1) paid on_db_def)
    then show thesis by (rule overflow) fact
  qed
qed

text \<open>The row and the wallet after a failure; \<open>d\<close> is the database after the refund.\<close>

lemma moves_failed:
  assumes ok: "media_ok s" and job: "find_job (mj_id j) s = Some j" and live: "\<not> terminal j"
    and d: "if 0 < mj_charged j
       then bigint_ok (current_balance (mj_user j) (ms_db s) + mj_charged j) \<and>
         d = post_tx (mj_user j) Credit (mj_charged j) meta (media_refund_key (mj_id j)) (current_balance (mj_user j) (ms_db s) + mj_charged j) row (ms_db s)
       else d = ms_db s"
    and new: "new = failed_job now e (0 < mj_charged j) m r j" and empty: "\<And>x. r = Some x \<Longrightarrow> A x"
  shows "moves A (mj_id j) s ((update_job (mj_id j) (\<lambda>_. new) s)\<lparr>ms_db := d\<rparr>)"
proof -
  note jok = conjunct1[OF media_ok_job[OF ok job]]
  note facts = open_job[OF jok live]
  have wallet: "wallet_ok (ms_db s)" using ok by (simp add: media_ok_def)
  have same: "mj_id new = mj_id j" "mj_user new = mj_user j" "mj_charged new = mj_charged j" "mj_created new = mj_created j"
    "mj_refunded new = (0 < mj_charged j)" "mj_status new = ''failed''" "mj_pending new = None" "mj_routes new = None"
    by (simp_all add: new failed_job_def)
  have "legal_results A j new" using empty by (cases r) (simp_all add: legal_results_def new failed_job_def)
  then have legal: "legal_move A j new" using same live by (simp add: legal_move_def)
  have stake: "stake_of u new = 0" "stake_of u j = (if mj_user j = u then mj_charged j else 0)" for u
    using facts(3) same by (auto simp: stake_of_def)
  show ?thesis
  proof (cases "0 < mj_charged j")
    case True
    with d have room: "bigint_ok (current_balance (mj_user j) (ms_db s) + mj_charged j)" and d': "d = post_tx (mj_user j) Credit (mj_charged j) meta
        (media_refund_key (mj_id j)) (current_balance (mj_user j) (ms_db s) + mj_charged j) row (ms_db s)"
      by simp_all
    obtain x where x: "existing_tx (mj_user j) (media_debit_key (mj_id j)) (ms_db s) = Some x" "tx_type x = Debit" "tx_amount x = mj_charged j"
      using jok True unfolding job_ok_def by blast
    note keys = post_tx_existing[OF facts(2), where ty = Credit and a = "mj_charged j" and meta = meta and row = row and
        b = "current_balance (mj_user j) (ms_db s) + mj_charged j", folded d']
    show ?thesis
    proof (rule moves_change[OF ok job legal])
      show "wallet_ok d" unfolding d' using wallet_ok_nonneg[OF wallet, of "mj_user j"] wallet_ok_row(2)[OF wallet x(1)] True room
        by (intro wallet_ok_post[OF wallet facts(2)]) auto
      show "existing_tx u k d = existing_tx u k (ms_db s)" if "(u, k) \<noteq> (mj_user j, media_refund_key (mj_id j))" for u k
        using that unfolding keys by auto
      show "job_ok d new" using jok same True x unfolding job_ok_def keys by (simp add: JOB_STATUSES_def)
      show "current_balance u d + stake_of u new = current_balance u (ms_db s) + stake_of u j" for u
        unfolding stake d' by (cases "u = mj_user j") simp_all
      show "users d = users (ms_db s)" by (simp add: d')
    qed
  next
    case False
    with d have d': "d = ms_db s" by simp
    show ?thesis
    proof (rule moves_change[OF ok job legal])
      show "job_ok d new" using jok same False facts(1,2) unfolding job_ok_def d' by (simp add: JOB_STATUSES_def)
      show "current_balance u d + stake_of u new = current_balance u (ms_db s) + stake_of u j" for u
        using jok False unfolding stake d' by (simp add: job_ok_def)
    qed (simp_all add: d' wallet)
  qed
qed

definition settle_failed :: "instant \<Rightarrow> string \<Rightarrow> verdict option \<Rightarrow> media_result option \<Rightarrow> media_job \<Rightarrow> MediaJobView mtx" where
  "settle_failed now e m r job s =
     and_then (refund_job job s) (\<lambda>refunded s.
     and_then (flush_job job (failed_job now e refunded m r job) s) (\<lambda>j s. (Inr \<lparr>vw_job = j, vw_assets = []\<rparr>, s)))"

lemma failures_settle:
  "\<exists>e' m. fail_run now e j s = settle_failed now e' m None j s"
  "block_run now v j s = settle_failed now ''result rejected by the content rules'' (Some v)
     (Some \<lparr>mr_assets = [], mr_description = None, mr_seed = None\<rparr>) j s"
  unfolding fail_run_def block_run_def settle_failed_def by blast+

lemma settle_failed_cases:
  assumes ok: "media_ok s" and job: "find_job (mj_id j) s = Some j" and live: "\<not> terminal j" and empty: "\<And>x. r = Some x \<Longrightarrow> A x"
  obtains (overflow) t where "settle_failed now e m r j s = (Inl (DbFault OutOfRange), t)"
      and "\<not> bigint_ok (current_balance (mj_user j) (ms_db s) + mj_charged j)"
  | (failed) v t where "settle_failed now e m r j s = (Inr v, t)" and "moves A (mj_id j) s t" and "find_job (mj_id j) t = Some (vw_job v)"
      and "mj_status (vw_job v) = ''failed''" and "mj_refunded (vw_job v) = (0 < mj_charged j)" and "vw_assets v = []"
      and "mj_provider (vw_job v) = mj_provider j" and "mj_result (vw_job v) = opt_or r (mj_result j)"
      and "current_balance (mj_user j) (ms_db t) = current_balance (mj_user j) (ms_db s) + mj_charged j"
proof -
  note jok = conjunct1[OF media_ok_job[OF ok job]]
  note facts = open_job[OF jok live]
  let ?new = "failed_job now e (0 < mj_charged j) m r j"
  have finish: thesis if rf: "refund_job j s = (Inr (0 < mj_charged j), s\<lparr>ms_db := d\<rparr>)"
    and d: "if 0 < mj_charged j
       then bigint_ok (current_balance (mj_user j) (ms_db s) + mj_charged j) \<and>
         d = post_tx (mj_user j) Credit (mj_charged j) meta (media_refund_key (mj_id j)) (current_balance (mj_user j) (ms_db s) + mj_charged j) row (ms_db s)
       else d = ms_db s" for d meta row
  proof -
    have dist: "distinct (map mj_id (ms_jobs s))" using ok by (simp add: media_ok_def)
    have "update_job (mj_id j) (merge_row j ?new) (s\<lparr>ms_db := d\<rparr>) = (update_job (mj_id j) (\<lambda>_. ?new) s)\<lparr>ms_db := d\<rparr>"
      using arg_cong[OF update_job_const[OF dist job, of "merge_row j ?new"], of ms_jobs] by (simp add: update_job_def merge_row_same)
    moreover have "find_job (mj_id j) (s\<lparr>ms_db := d\<rparr>) = Some j" using job by (simp add: find_job_def)
    ultimately have "settle_failed now e m r j s = (Inr \<lparr>vw_job = ?new, vw_assets = []\<rparr>, (update_job (mj_id j) (\<lambda>_. ?new) s)\<lparr>ms_db := d\<rparr>)"
      by (simp add: settle_failed_def rf flush_job_def)
    then show thesis
    proof (rule failed)
      show "moves A (mj_id j) s ((update_job (mj_id j) (\<lambda>_. ?new) s)\<lparr>ms_db := d\<rparr>)" by (rule moves_failed[OF ok job live d refl empty])
      show "find_job (mj_id j) ((update_job (mj_id j) (\<lambda>_. ?new) s)\<lparr>ms_db := d\<rparr>) = Some (vw_job \<lparr>vw_job = ?new, vw_assets = []\<rparr>)"
        using find_update_job[of "mj_id j" "\<lambda>_. ?new" "mj_id j" s] job by (simp add: find_job_def failed_job_def)
      show "current_balance (mj_user j) (ms_db ((update_job (mj_id j) (\<lambda>_. ?new) s)\<lparr>ms_db := d\<rparr>)) = current_balance (mj_user j) (ms_db s) + mj_charged j"
        using d jok by (cases "0 < mj_charged j") (auto simp: job_ok_def)
    qed (simp_all add: failed_job_def)
  qed
  show thesis
  proof (cases "0 < mj_charged j")
    case True
    show thesis
    proof (cases rule: refund_open[OF ok job live True])
      case (1 t)
      then show thesis by (intro overflow[of t]) (simp_all add: settle_failed_def)
    next
      case (2 row)
      then show thesis using True by (intro finish) simp_all
    qed
  next
    case False
    then show thesis by (intro finish[of "ms_db s"]) (simp_all add: refund_job_def facts(1))
  qed
qed

section \<open>Operations on an open job\<close>

definition open_at :: "media_state \<Rightarrow> media_job \<Rightarrow> bool" where
  "open_at s j \<longleftrightarrow> media_ok s \<and> find_job (mj_id j) s = Some j \<and> \<not> terminal j"

definition no_room :: "media_state \<Rightarrow> media_job \<Rightarrow> bool" where
  "no_room s j \<longleftrightarrow> \<not> bigint_ok (current_balance (mj_user j) (ms_db s) + mj_charged j)"

text \<open>The operation settles the job; only an overflow of the balance keeps it from that.\<close>

definition ends :: "(media_result \<Rightarrow> bool) \<Rightarrow> media_job \<Rightarrow> media_state \<Rightarrow> (exn, MediaJobView, media_state) outcome \<Rightarrow> bool" where
  "ends A j s out \<longleftrightarrow>
     (case fst out of
        Inl e \<Rightarrow> e = DbFault OutOfRange \<and> no_room s j
      | Inr v \<Rightarrow> moves A (mj_id j) s (snd out) \<and> terminal (vw_job v)
          \<and> (\<exists>row. find_job (mj_id j) (snd out) = Some row \<and> mj_status row = mj_status (vw_job v)))"

text \<open>The operation moves the job, or raises without a lasting effect but that of a legal move.\<close>

definition serves :: "(media_result \<Rightarrow> bool) \<Rightarrow> uuid \<Rightarrow> media_state \<Rightarrow> (exn, 'a, media_state) outcome \<Rightarrow> bool" where
  "serves A i s out \<longleftrightarrow> (case fst out of Inl e \<Rightarrow> is_db_fault e \<or> moves A i s (snd out) | Inr v \<Rightarrow> moves A i s (snd out))"

lemma ends_serves: "ends A j s out \<Longrightarrow> serves A (mj_id j) s out"
  by (auto simp: ends_def serves_def split: sum.splits)

lemma serves_then:
  assumes "serves A i s out" and "\<And>v t. out = (Inr v, t) \<Longrightarrow> moves A i s t \<Longrightarrow> serves A i t (k v t)"
  shows "serves A i s (and_then out k)"
proof (cases rule: and_then_cases[of out k])
  case (raised e t)
  with assms(1) show ?thesis by (simp add: serves_def)
next
  case (returned v t)
  with assms(1) have m: "moves A i s t" by (simp add: serves_def)
  from assms(2)[OF returned(1) m] show ?thesis
    unfolding returned(2) serves_def using moves_trans[OF m] by (auto split: sum.splits)
qed

lemma serves_same: "media_ok s \<Longrightarrow> serves A i s (r, s)"
  by (cases r) (simp_all add: serves_def moves_refl)

lemma settle_failed_ends:
  assumes "open_at s j" and "\<And>x. r = Some x \<Longrightarrow> A x"
  shows "ends A j s (settle_failed now e m r j s)"
  using assms(1) unfolding open_at_def
proof (elim conjE)
  assume "media_ok s" "find_job (mj_id j) s = Some j" "\<not> terminal j"
  then show ?thesis
    by (cases rule: settle_failed_cases[of s j r A now e m]) (use assms(2) in \<open>simp_all add: ends_def no_room_def terminal_iff\<close>)
qed

lemma fail_run_ends: "open_at s j \<Longrightarrow> ends A j s (fail_run now e j s)"
  using failures_settle(1)[of now e j s] settle_failed_ends[of s j None A] by force

lemma block_run_ends:
  assumes "open_at s j" and "A \<lparr>mr_assets = [], mr_description = None, mr_seed = None\<rparr>"
  shows "ends A j s (block_run now v j s)"
  unfolding failures_settle(2) by (rule settle_failed_ends[OF assms(1)]) (use assms(2) in simp)

lemma finish_run_ends:
  assumes "open_at s j" and "mj_provider j = [] \<or> A r \<or> mj_pending j = Some r"
  shows "ends A j s (finish_run env now r assets v j s)"
proof -
  from assms(1) have ok: "media_ok s" and job: "find_job (mj_id j) s = Some j" and live: "\<not> terminal j"
    by (simp_all add: open_at_def)
  let ?new = "completed_job (md_retention (mv_settings env)) now r v j"
  have same: "mj_id ?new = mj_id j" "mj_user ?new = mj_user j" "mj_charged ?new = mj_charged j" "mj_created ?new = mj_created j"
    "mj_refunded ?new = mj_refunded j" "mj_status ?new = ''completed''" "mj_pending ?new = None" "mj_routes ?new = None"
    "mj_provider ?new = mj_provider j" "mj_result ?new = Some r" "mj_push_sent ?new = mj_push_sent j"
    by (simp_all add: completed_job_def)
  have moved: "moves A (mj_id j) s (update_job (mj_id j) (\<lambda>_. new) s)"
    "find_job (mj_id j) (update_job (mj_id j) (\<lambda>_. new) s) = Some new" if "new \<in> {?new, ?new\<lparr>mj_push_sent := Some now\<rparr>}" for new
    using that same assms(2) by (auto intro!: moves_row[OF ok job live] simp: legal_results_def)
  let ?t = "update_job (mj_id j) (\<lambda>_. ?new) s"
  have flush: "flush_job j ?new s = (Inr ?new, ?t)" by (rule flush_stored[OF ok job]) (rule merge_row_same)
  have "snd (claim_media_push now (mj_id j) ?t) \<in> {?t, update_job (mj_id j) (\<lambda>_. ?new\<lparr>mj_push_sent := Some now\<rparr>) s}"
    by (simp add: claim_media_push_def moved(2) same update_job_twice)
  then show ?thesis
    using moved same unfolding ends_def finish_run_def flush by (auto simp: terminal_iff)
qed

definition blank_result :: media_result where
  "blank_result = \<lparr>mr_assets = [], mr_description = None, mr_seed = None\<rparr>"

text \<open>How a completion comes out.\<close>

definition run_end :: "media_env \<Rightarrow> instant \<Rightarrow> media_result \<Rightarrow> MediaAsset list \<Rightarrow> media_job \<Rightarrow> media_state
    \<Rightarrow> (exn, MediaJobView, media_state) outcome \<Rightarrow> bool" where
  "run_end env now r assets j s out \<longleftrightarrow>
     (\<exists>m. out = fail_run now m j s) \<or> (\<exists>v. out = block_run now v j s) \<or> (\<exists>v. out = finish_run env now r assets v j s)"

lemma run_ends [intro]:
  "run_end env now r assets j s (fail_run now m j s)" "run_end env now r assets j s (block_run now v j s)"
  "run_end env now r assets j s (finish_run env now r assets w j s)"
  unfolding run_end_def by blast+

lemma complete_run_forms:
  obtains (faulted) e where "complete_run env now r assets j s = (Inr (Transient e), s)"
  | (settles) out where "complete_run env now r assets j s = settled out" and "run_end env now r assets j s out"
proof -
  have go_on: thesis if "complete_run env now r assets j s = (case mv_complete env of
              None \<Rightarrow> settled (finish_run env now r assets v j s)
            | Some handler \<Rightarrow>
                (case handler j assets of
                   Inr _ \<Rightarrow> settled (finish_run env now r assets v j s)
                 | Inl (Raised c m) \<Rightarrow>
                     if is_a c ValidationFailedError then settled (fail_run now m j s) else (Inr (Transient (Raised c m)), s)
                 | Inl e \<Rightarrow> (Inr (Transient e), s)))" for v
  proof (cases "mv_complete env")
    case None
    with that show thesis by (intro settles[OF _ run_ends(3)]) simp
  next
    case (Some handler)
    show thesis
    proof (cases "handler j assets")
      case (Inr u)
      with that Some show thesis by (intro settles[OF _ run_ends(3)]) simp
    next
      case (Inl e)
      show thesis
      proof (cases "\<exists>c m. e = Raised c m \<and> is_a c ValidationFailedError")
        case True
        then obtain c m where "e = Raised c m" "is_a c ValidationFailedError" by blast
        with that Some Inl show thesis by (intro settles[OF _ run_ends(1)]) simp
      next
        case False
        with that Some Inl show thesis by (intro faulted[of e]) (auto split: exn.split)
      qed
    qed
  qed
  show thesis
  proof (cases "moderate_output env j assets")
    case Not_applicable
    then show thesis by (intro go_on[of None]) (simp add: complete_run_def Let_def)
  next
    case (Checked v)
    show thesis
    proof (cases "vd_blocked v")
      case True
      with Checked show thesis by (intro settles[OF _ run_ends(2)]) (simp add: complete_run_def Let_def)
    next
      case False
      with Checked show thesis by (intro go_on[of "Some v"]) (simp add: complete_run_def Let_def)
    qed
  next
    case Refused
    then show thesis by (intro settles[OF _ run_ends(1)]) (simp add: complete_run_def Let_def)
  next
    case (Unavailable e)
    then show thesis by (intro faulted[of e]) (simp add: complete_run_def Let_def)
  qed
qed

lemma complete_run_cases:
  assumes at: "open_at s j" and blank: "A blank_result" and result: "mj_provider j = [] \<or> A r \<or> mj_pending j = Some r"
  obtains (transient) e where "complete_run env now r assets j s = (Inr (Transient e), s)"
  | (ended) out where "complete_run env now r assets j s = settled out" and "ends A j s out"
proof (cases rule: complete_run_forms[of env now r assets j s])
  case (settles out)
  then have "ends A j s out"
    using fail_run_ends[OF at, of A] block_run_ends[OF at, of A, OF blank[unfolded blank_result_def]] finish_run_ends[OF at, of A r, OF result]
    unfolding run_end_def by metis
  with settles(1) show thesis by (rule ended)
qed (rule transient)

end
