(* ===== verification/Media_Settle.thy ===== *)
theory Media_Settle
  imports Media_Billing
begin

text \<open>
  The operations on a job keep the invariant of \<open>Media_Billing\<close>: each poll, callback, reconciler batch, submission
  and deletion, on every branch. \<open>attends\<close> is what a poll promises: it makes a legal move, and it settles a job
  that is past its deadline whatever the collaborators answer.
\<close>

section \<open>Polls\<close>

definition overdue :: "media_env \<Rightarrow> instant \<Rightarrow> media_job \<Rightarrow> bool" where
  "overdue env now j \<longleftrightarrow> seconds (md_deadline (mv_settings env)) < now - mj_created j"

definition attends ::
  "(media_result \<Rightarrow> bool) \<Rightarrow> media_env \<Rightarrow> instant \<Rightarrow> media_job \<Rightarrow> media_state \<Rightarrow> (exn, MediaJobView, media_state) outcome \<Rightarrow> bool" where
  "attends A env now j s out \<longleftrightarrow> serves A (mj_id j) s out \<and> (overdue env now j \<longrightarrow> ends A j s out)"

lemma ends_attends: "ends A j s out \<Longrightarrow> attends A env now j s out"
  by (simp add: attends_def ends_serves)

lemma open_at_ok: "open_at s j \<Longrightarrow> media_ok s"
  by (simp add: open_at_def)

lemma fail_run_attends: "open_at s j \<Longrightarrow> attends A env now' j s (fail_run now e j s)"
  by (rule ends_attends) (rule fail_run_ends)

lemma ends_Some:
  assumes "ends A j s out"
  shows "ends A j s (and_then (and_then out (\<lambda>v s. (Inr (Some v), s))) (\<lambda>c s. case c of Some v \<Rightarrow> (Inr v, s) | None \<Rightarrow> k s))"
  using assms by (cases out; cases "fst out") (auto simp: ends_def)

lemma close_overdue:
  assumes "open_at s j" and "overdue env now j"
  shows "ends A j s (and_then (close_if_overdue env now j s) (\<lambda>c s. case c of Some v \<Rightarrow> (Inr v, s) | None \<Rightarrow> k s))"
proof -
  have "\<not> now - mj_created j \<le> seconds (md_deadline (mv_settings env))" using assms(2) by (simp add: overdue_def)
  then have "close_if_overdue env now j s = and_then (fail_run now ''generation did not complete in time'' j s) (\<lambda>v s. (Inr (Some v), s))"
    by (simp only: close_if_overdue_def if_False)
  then show ?thesis using ends_Some[OF fail_run_ends[OF assms(1)]] by (simp only:)
qed

lemma close_young: "\<not> overdue env now j \<Longrightarrow> close_if_overdue env now j s = (Inr None, s)"
  by (simp add: overdue_def close_if_overdue_def)

lemma close_or_raise_attends:
  assumes "open_at s j"
  shows "attends A env now j s (close_or_raise env now e j s)"
proof (cases "overdue env now j")
  case True
  show ?thesis unfolding close_or_raise_def by (rule ends_attends[OF close_overdue[OF assms True]])
next
  case False
  then show ?thesis using serves_same[OF open_at_ok[OF assms]] by (simp add: close_or_raise_def attends_def close_young)
qed

lemma running_row:
  assumes "open_at s j"
  obtains j' t where "mark_running now j s = (Inr j', t)" and "moves A (mj_id j) s t" and "open_at t j'" and "mj_id j' = mj_id j"
    and "mj_pending j' = mj_pending j" and "ms_db t = ms_db s"
proof (cases "mj_status j = ''running''")
  case True
  then show thesis using assms moves_refl[OF open_at_ok[OF assms]] by (intro that[of j s]) (simp_all add: mark_running_def)
next
  case False
  let ?new = "j\<lparr>mj_status := ''running'', mj_updated := now\<rparr>"
  from assms have ok: "media_ok s" and job: "find_job (mj_id j) s = Some j" and live: "\<not> terminal j" by (simp_all add: open_at_def)
  have m: "moves A (mj_id j) s (update_job (mj_id j) (\<lambda>_. ?new) s)" "find_job (mj_id j) (update_job (mj_id j) (\<lambda>_. ?new) s) = Some ?new"
    by (rule moves_row[OF ok job live]; simp add: legal_results_def)+
  have "flush_job j ?new s = (Inr ?new, update_job (mj_id j) (\<lambda>_. ?new) s)" by (rule flush_stored[OF ok job]) (rule merge_row_same)
  then show thesis using m False moves_ok[OF m(1)]
    by (intro that[of ?new "update_job (mj_id j) (\<lambda>_. ?new) s"]) (simp_all add: mark_running_def open_at_def terminal_iff)
qed

lemma close_or_running_attends:
  assumes "open_at s j"
  shows "attends A env now j s (close_or_running env now j s)"
proof (cases "overdue env now j")
  case True
  show ?thesis unfolding close_or_running_def by (rule ends_attends[OF close_overdue[OF assms True]])
next
  case False
  obtain j' t where "mark_running now j s = (Inr j', t)" "moves A (mj_id j) s t" by (rule running_row[OF assms])
  then show ?thesis using False by (simp add: close_or_running_def attends_def close_young serves_def)
qed

lemma complete_or_close_attends:
  assumes at: "open_at s j" and blank: "A blank_result" and result: "mj_provider j = [] \<or> A r \<or> mj_pending j = Some r"
  shows "attends A env now j s (complete_or_close env now r assets j s)"
proof (cases rule: complete_run_cases[OF at, of A, OF blank result, of env now assets])
  case (1 e)
  then show ?thesis using close_or_raise_attends[OF at] by (simp add: complete_or_close_def)
next
  case (2 out)
  then have "complete_or_close env now r assets j s = out"
    by (cases out; cases "fst out") (simp_all add: complete_or_close_def settled_def)
  then show ?thesis using ends_attends[OF 2(2)] by simp
qed

lemma advance_direct_attends:
  assumes at: "open_at s j" and blank: "A blank_result" and direct: "mj_provider j = []"
  shows "attends A env now j s (advance_direct env now j s)"
proof -
  note facts = fail_run_attends[OF at] close_or_raise_attends[OF at] close_or_running_attends[OF at]
    complete_or_close_attends[OF at, of A, OF blank disjI1[OF direct]]
  have "attends A env now j s (apply_fal_result env now j s)"
    unfolding apply_fal_result_def Let_def by (auto split: sum.splits option.splits intro: facts)
  then show ?thesis unfolding advance_direct_def by (auto split: sum.splits option.splits intro: facts)
qed

lemma advance_proxy_attends:
  assumes at: "open_at s j" and blank: "A blank_result"
  shows "attends A env now j s (advance_proxy env now skip False j s)"
proof -
  note facts = fail_run_attends[OF at] close_or_running_attends[OF at] complete_or_close_attends[OF at, of A, OF blank disjI2[OF disjI2]]
  from at have "find_job (mj_id j) s = Some j" "\<not> terminal j" by (simp_all add: open_at_def)
  then show ?thesis unfolding advance_proxy_def by (auto simp: Let_def split: option.splits intro: facts)
qed

lemma advance_job_attends:
  assumes "open_at s j" and "A blank_result"
  shows "attends A env now j s (advance_job env now skip False j s)"
  using advance_direct_attends[of s j A, OF assms] advance_proxy_attends[of s j A, OF assms] assms(1)
  by (simp add: advance_job_def open_at_def)

lemma advance_job_serves:
  assumes ok: "media_ok s" and job: "find_job (mj_id j) s = Some j" and blank: "A blank_result"
  shows "serves A (mj_id j) s (advance_job env now True held j s)"
proof (cases "terminal j \<or> (held \<and> mj_provider j \<noteq> [])")
  case True
  then show ?thesis using serves_same[OF ok] by (auto simp: advance_job_def advance_proxy_def)
next
  case False
  then have "advance_job env now True held j s = advance_job env now True False j s"
    by (auto simp: advance_job_def advance_proxy_def)
  moreover have "open_at s j" using ok job False by (simp add: open_at_def)
  ultimately show ?thesis using advance_job_attends[of s j A] blank by (simp add: attends_def)
qed

section \<open>Callbacks\<close>

lemma job_row_ids [simp]:
  "mj_id (stored_pending now r j) = mj_id j" "mj_id (priced now p j) = mj_id j" "mj_id (switched now a b c j) = mj_id j"
  by (simp_all add: stored_pending_def priced_def switched_def)

definition allowed_result :: "media_env \<Rightarrow> media_result \<Rightarrow> bool" where
  "allowed_result env r \<longleftrightarrow>
     (\<forall>a \<in> set (mr_assets r). fal_asset_host_allowed (mv_urlsplit env) (md_suffixes (mv_settings env)) (ma_url a) = Inr True)"

lemma blank_allowed: "allowed_result env blank_result"
  by (simp add: allowed_result_def blank_result_def)

lemma serves_after: "moves A i s t \<Longrightarrow> serves A i t out \<Longrightarrow> serves A i s out"
  unfolding serves_def using moves_trans by (auto split: sum.splits)

lemma serves_ignore: "serves A i s out \<Longrightarrow> serves A i s (and_then out (\<lambda>_ t. (Inr x, t)))"
  by (cases out; cases "fst out") (simp_all add: serves_def)

lemma fail_run_serves: "open_at s j \<Longrightarrow> serves A (mj_id j) s (and_then (fail_run now e j s) (\<lambda>_ t. (Inr x, t)))"
  by (intro serves_ignore ends_serves fail_run_ends)

text \<open>A flush of the open row that leaves its status.\<close>

lemma flush_open:
  assumes at: "open_at s j" and "merge_row j new j = new"
    and "mj_id new = mj_id j" "mj_user new = mj_user j" "mj_charged new = mj_charged j" "mj_created new = mj_created j"
      "mj_refunded new = mj_refunded j" "mj_status new = mj_status j" and "legal_results A j new"
  obtains t where "flush_job j new s = (Inr new, t)" and "moves A (mj_id j) s t" and "open_at t new"
proof
  from at have ok: "media_ok s" and job: "find_job (mj_id j) s = Some j" and live: "\<not> terminal j" by (simp_all add: open_at_def)
  note m = moves_row[OF ok job live assms(3-7) disjI1[OF assms(8)] assms(9)]
  show "flush_job j new s = (Inr new, update_job (mj_id j) (\<lambda>_. new) s)" by (rule flush_stored[OF ok job assms(2)])
  show "moves A (mj_id j) s (update_job (mj_id j) (\<lambda>_. new) s)" by (rule m)
  show "open_at (update_job (mj_id j) (\<lambda>_. new) s) new"
    using m(2) moves_ok[OF m(1)] live assms(3,8) by (simp add: open_at_def terminal_iff)
qed

lemma first_accepting_route:
  "first_accepting env send i e0 routes = Inr (r, rid, rest) \<Longrightarrow>
    r \<in> set routes \<and> set rest \<subseteq> set routes \<and> length rest < length routes \<and> (\<exists>url. send r url = Inr rid)"
  by (induction routes arbitrary: e0) (fastforce split: sum.splits if_splits)+

lemma json_route_named: "json_route item = Some r \<Longrightarrow> vr_service r \<noteq> []"
  unfolding json_route_def by (auto split: json.split_asm if_split_asm)

lemma routes_named: "r \<in> set (routes_from_json raw) \<Longrightarrow> vr_service r \<noteq> []"
  using json_route_named by (cases raw; cases "the raw") (auto simp: routes_from_json_def set_map_filter_iff)

lemma resubmit_cases:
  assumes at: "open_at s j"
  obtains (kept) "resubmit_to_next_route env now j s = (Inr False, s)"
  | (raised) e where "resubmit_to_next_route env now j s = (Inl e, s)"
  | (handed) t where "resubmit_to_next_route env now j s = (Inr True, t)" and "moves A (mj_id j) s t"
proof (cases "mj_provider j \<notin> {SERVICE_SOSANA, SERVICE_KIE} \<or> routes_from_json (mj_routes j) = []
    \<or> seconds (md_deadline (mv_settings env)) < now - mj_created j")
  case True
  then show thesis by (intro kept) (auto simp: resubmit_to_next_route_def Let_def)
next
  case False
  show thesis
  proof (cases "submit_first_accepting env (mj_id j) (routes_from_json (mj_routes j))")
    case (Inl e)
    then have "resubmit_to_next_route env now j s = (Inr False, s) \<or> resubmit_to_next_route env now j s = (Inl e, s)"
      using False by (cases e) (auto simp: resubmit_to_next_route_def Let_def)
    then show thesis using kept raised by blast
  next
    case (Inr x)
    obtain r rid rest where x: "x = (r, rid, rest)" by (cases x)
    with Inr obtain send where "first_accepting env send (mj_id j) None (routes_from_json (mj_routes j)) = Inr (r, rid, rest)"
      by (auto simp: submit_first_accepting_def split: option.splits)
    then have named: "vr_service r \<noteq> []" using first_accepting_route routes_named by blast
    let ?new = "switched now (vr_service r) rid (routes_to_json rest) j"
    have results: "legal_results A j ?new"
      using False named by (auto simp: legal_results_def switched_def SERVICE_KIE_def SERVICE_SOSANA_def)
    obtain t where t: "flush_job j ?new s = (Inr ?new, t)" "moves A (mj_id j) s t" "open_at t ?new"
      by (rule flush_open[OF at merge_row_same(3) _ _ _ _ _ _ results]) (simp_all add: switched_def)
    obtain j' t' where run: "mark_running now ?new t = (Inr j', t')" "moves A (mj_id ?new) t t'" by (rule running_row[OF t(3)])
    show thesis
    proof (rule handed)
      show "resubmit_to_next_route env now j s = (Inr True, t')"
        using False by (auto simp: resubmit_to_next_route_def Let_def Inr x t(1) run(1))
      show "moves A (mj_id j) s t'" using moves_trans[OF t(2)] run(2) by (simp add: switched_def)
    qed
  qed
qed

lemma complete_in_savepoint_serves:
  assumes at: "open_at s j" and blank: "A blank_result" and result: "mj_provider j = [] \<or> A r \<or> mj_pending j = Some r"
  shows "serves A (mj_id j) s (complete_in_savepoint env now r j s)"
proof (cases "assets_from_result (Some r) = []")
  case True
  then show ?thesis using fail_run_serves[OF at] by (simp add: complete_in_savepoint_def Let_def)
next
  case False
  note same = serves_same[OF open_at_ok[OF at]]
  show ?thesis
  proof (cases rule: complete_run_cases[OF at, of A, OF blank result, of env now "assets_from_result (Some r)"])
    case (1 e)
    then show ?thesis using False same by (simp add: complete_in_savepoint_def Let_def)
  next
    case (2 out)
    then show ?thesis
      using False same by (cases out; cases "fst out") (auto simp: complete_in_savepoint_def Let_def settled_def ends_def serves_def moves_refl open_at_ok[OF at])
  qed
qed

lemma apply_outcome_serves:
  assumes at: "open_at s j" and A: "A = allowed_result env"
  shows "serves A (mj_id j) s (apply_outcome env now body j s)"
proof -
  have blank: "A blank_result" unfolding A by (rule blank_allowed)
  note same = serves_same[OF open_at_ok[OF at]]
  have again: "serves A (mj_id j) s (and_then (resubmit_to_next_route env now j s) (\<lambda>again s.
          if again then (Inr Resubmitted, s) else and_then (fail_run now e j s) (\<lambda>_ s. (Inr x, s))))" for e x
  proof (cases rule: resubmit_cases[OF at, where A = A and env = env and now = now])
    case 1
    then show ?thesis using fail_run_serves[OF at] by simp
  next
    case (2 e)
    then show ?thesis using same by simp
  next
    case (3 t)
    then show ?thesis by (simp add: serves_def)
  qed
  have run: "serves A (mj_id j) s (and_then (mark_running now j s) (\<lambda>_ s. (Inr x, s)))" for x
    by (rule running_row[OF at, of now A]) (simp add: serves_def)
  have completed: "serves A (mj_id j) s (and_then (flush_job j (stored_pending now r j) s) (\<lambda>j s. complete_in_savepoint env now r j s))"
    if "A r" for r
  proof -
    let ?new = "stored_pending now r j"
    have results: "legal_results A j ?new" using that by (auto simp: legal_results_def stored_pending_def)
    obtain t where t: "flush_job j ?new s = (Inr ?new, t)" "moves A (mj_id j) s t" "open_at t ?new"
      by (rule flush_open[OF at merge_row_same(1) _ _ _ _ _ _ results]) (simp_all add: stored_pending_def)
    have "serves A (mj_id ?new) t (complete_in_savepoint env now r ?new t)"
      by (rule complete_in_savepoint_serves[OF t(3), of A, OF blank]) (simp add: stored_pending_def)
    with serves_after[OF t(2)] show ?thesis by (simp add: t(1))
  qed
  show ?thesis
  proof (cases "mj_pending j")
    case (Some r)
    then show ?thesis using complete_in_savepoint_serves[OF at, of A, OF blank] same
      by (cases "webhook_outcome (mv_loads env) body") (simp_all add: apply_outcome_def)
  next
    case None
    show ?thesis
    proof (cases "webhook_outcome (mv_loads env) body")
      case Callback_completed
      show ?thesis
      proof (cases "callback_result (mv_loads env) (mv_urlsplit env) (md_suffixes (mv_settings env)) body (mj_kind j)")
        case (Inl e)
        with None Callback_completed same show ?thesis by (simp add: apply_outcome_def)
      next
        case (Inr x)
        obtain r rejected where x: "x = (r, rejected)" by (cases x)
        have "A r" unfolding A allowed_result_def using callback_result_allowed[OF Inr[unfolded x]] by blast
        with None Callback_completed Inr x again completed show ?thesis by (simp add: apply_outcome_def)
      qed
    qed (use None again run in \<open>simp_all add: apply_outcome_def\<close>)
  qed
qed

lemma apply_callback_serves:
  assumes ok: "media_ok s" and job: "find_job (mj_id j) s = Some j" and A: "A = allowed_result env"
  shows "serves A (mj_id j) s (apply_callback env now body route j s)"
proof (cases "terminal j \<or> (route \<noteq> None \<and> route \<noteq> Some (mj_provider j))")
  case True
  then have "\<exists>r. apply_callback env now body route j s = (Inr r, s)" by (cases "terminal j") (auto simp: apply_callback_def)
  then show ?thesis using serves_same[OF ok] by force
next
  case False
  then have at: "open_at s j" using ok job by (simp add: open_at_def)
  have fresh: "\<not> (route \<noteq> None \<and> route \<noteq> Some (mj_provider j))" "\<not> terminal j" using False by simp_all
  note skip = apply_callback_def if_not_P[OF fresh(1)] if_not_P[OF fresh(2)]
  show ?thesis
  proof (cases "parse_vendor_price (mv_dec env) body")
    case None
    then show ?thesis using apply_outcome_serves[OF at A] by (simp only: skip option.case)
  next
    case (Some price)
    let ?new = "priced now price j"
    obtain t where t: "flush_job j ?new s = (Inr ?new, t)" "moves A (mj_id j) s t" "open_at t ?new"
      by (rule flush_open[OF at merge_row_same(2), where A = A]) (simp_all add: priced_def legal_results_def)
    have "serves A (mj_id ?new) t (apply_outcome env now body ?new t)" by (rule apply_outcome_serves[OF t(3) A])
    with serves_after[OF t(2)] show ?thesis using Some by (simp only: skip option.case t(1) and_then_simps job_row_ids)
  qed
qed

end
