(* ===== verification/Media_Purchase.thy ===== *)
theory Media_Purchase
  imports Media_Jobs
begin

text \<open>
  What a user pays for is what the provider is asked to run: the price is computed from the values that end up in
  the payload, and the fields of a vendor route give the same price, with one exception: Veo over Kie has no field
  for the sound.
\<close>

section \<open>The payload\<close>

lemma jget_map_of: "jget k d = (case map_of d k of None \<Rightarrow> JNull | Some v \<Rightarrow> v)"
  by (simp add: jget_def)

lemma map_of_renamed:
  assumes "distinct (map fst d)" and "inj_on f (insert k {x. \<exists>v. (x, v) \<in> set d \<and> P x v})"
  shows "map_of (map (\<lambda>(x, v). (f x, v)) (filter (\<lambda>(x, v). P x v) d)) (f k) =
    (case map_of d k of None \<Rightarrow> None | Some v \<Rightarrow> if P k v then Some v else None)"
  using assms
proof (induction d)
  case (Cons e d)
  obtain x v where e: "e = (x, v)" by (cases e)
  have inj: "inj_on f (insert k {x. \<exists>v. (x, v) \<in> set d \<and> P x v})"
    by (rule inj_on_subset[OF Cons.prems(2)]) (auto simp: e)
  have IH: "map_of (map (\<lambda>(x, v). (f x, v)) (filter (\<lambda>(x, v). P x v) d)) (f k) =
    (case map_of d k of None \<Rightarrow> None | Some v \<Rightarrow> if P k v then Some v else None)"
    using Cons.IH[OF _ inj] Cons.prems(1) by simp
  show ?case
  proof (cases "P x v")
    case True
    then have "f k = f x \<longleftrightarrow> k = x" using Cons.prems(2) by (auto simp: e inj_on_def)
    then show ?thesis using IH True by (simp add: e)
  next
    case False
    moreover have "map_of d k = None" if "x = k" using Cons.prems(1) that by (auto simp: e map_of_eq_None_iff)
    ultimately show ?thesis using IH by (auto simp: e)
  qed
qed simp

definition known_fields :: "string list" where
  "known_fields = map fst FAL_FIELD_NAMES"

lemma fal_names_distinct: "distinct (map fal_field_name known_fields)"
  by (simp add: known_fields_def fal_field_name_def FAL_FIELD_NAMES_def)

lemma fal_names_inj: "inj_on fal_field_name (set known_fields)"
  using fal_names_distinct by (simp add: distinct_map)

text \<open>A field of the variant is read back from the payload as it was resolved; another known field is not there.\<close>

lemma payload_field:
  assumes "distinct (map fst vals)" and "set (fv_fields v) \<subseteq> set known_fields" and "k \<in> set known_fields"
    and "fm_image_field model \<noteq> Some (fal_field_name k)"
  shows "jget (fal_field_name k) (build_fal_input model v vals urls) = (if k \<in> set (fv_fields v) then jget k vals else JNull)"
proof -
  have inj: "inj_on fal_field_name (insert k {x. \<exists>y. (x, y) \<in> set vals \<and> (y \<noteq> JNull \<and> x \<in> set (fv_fields v))})"
    by (rule inj_on_subset[OF fal_names_inj]) (use assms(2,3) in auto)
  have image: "map_of (case fm_image_field model of None \<Rightarrow> [] | Some f \<Rightarrow> if urls = [] then []
      else [(f, if fm_image_field_is_list model then JArr (map JStr urls) else JStr (hd urls))]) (fal_field_name k) = None"
    using assms(4) by (auto split: option.splits)
  show ?thesis
    unfolding build_fal_input_def jget_map_of map_of_append map_add_def image
    using map_of_renamed[OF assms(1) inj] by (auto split: option.splits)
qed

section \<open>The price\<close>

lemma price_congruent:
  assumes "resolution = resolution'" and "if fm_kind model = KIND_IMAGE then num = num' else duration = duration'"
    and "if fm_kind model = KIND_IMAGE \<or> fm_audio_multiplier model = None then True else audio = audio'"
  shows "media_run_price ov tf model num duration resolution audio = media_run_price ov tf model num' duration' resolution' audio'"
proof (cases "fm_kind model = KIND_IMAGE")
  case True
  with assms show ?thesis by (simp add: media_run_price_def)
next
  case False
  have "(audio \<and> has_audio_dimension model) = (audio' \<and> has_audio_dimension model)"
    using assms(3) False by (cases "fm_audio_multiplier model") (simp_all add: has_audio_dimension_def)
  moreover have "run_price model base num duration resolution audio = run_price model base num' duration' resolution' audio'" for base
    using assms False by (cases "fm_audio_multiplier model") (simp_all add: run_price_def)
  moreover have "duration = duration'" using assms(2) False by simp
  ultimately show ?thesis unfolding media_run_price_def assms(1) if_not_P[OF False] by (simp only:)
qed

definition variants_of :: "FalModel \<Rightarrow> FalVariant list" where
  "variants_of m = fm_text_variant m # (case fm_image_variant m of None \<Rightarrow> [] | Some v \<Rightarrow> [v])"

definition priced_fields_present :: "FalModel \<Rightarrow> FalVariant \<Rightarrow> bool" where
  "priced_fields_present m v \<longleftrightarrow> set (fv_fields v) \<subseteq> set known_fields \<and> distinct (map fst (fv_defaults v))
     \<and> (if fm_kind m = KIND_IMAGE then ''numImages'' \<in> set (fv_fields v) \<and> ''resolution'' \<in> set (fv_fields v)
        else ''duration'' \<in> set (fv_fields v) \<and> (fm_audio_multiplier m = None \<or> ''generateAudio'' \<in> set (fv_fields v)))
     \<and> (''resolution'' \<in> set (fv_fields v) \<or> fv_resolutions v = [])
     \<and> (\<forall>k \<in> set known_fields. fm_image_field m \<noteq> Some (fal_field_name k))"

lemma catalog_fields:
  assumes "m \<in> set MODELS" and "v \<in> set (variants_of m)"
  shows "priced_fields_present m v"
proof -
  have "list_all (\<lambda>m. list_all (priced_fields_present m) (variants_of m)) MODELS"
    unfolding priced_fields_present_def by code_simp
  then show ?thesis using assms by (simp add: list_all_iff)
qed

lemma resolved_distinct:
  assumes "distinct (map fst vals)" and "distinct (map fst (fv_defaults v))"
  shows "distinct (map fst (resolve_values v vals))"
proof -
  have sub: "distinct (map fst (filter P d))" if "distinct (map fst d)" for P :: "string \<times> json \<Rightarrow> bool" and d
    using that by (induction d) auto
  show ?thesis unfolding resolve_values_def Let_def using sub assms by force
qed

lemma find_model_mem: "find_model i = Some m \<Longrightarrow> m \<in> set MODELS"
  unfolding find_model_def by (drule find_SomeD) simp

lemma check_run_plan:
  assumes "check_run env rq model images = Inr p"
  shows "rp_model p = model" and "rp_variant p \<in> set (variants_of model)"
    and "rp_values p = resolve_values (rp_variant p) (merged_values (sq_prompt rq) (sq_params rq))"
    and "validate_enum ''resolution'' (jget ''resolution'' (sq_params rq)) (rp_variant p) = None"
    and "validate_enum ''duration'' (jget ''duration'' (sq_params rq)) (rp_variant p) = None"
  using assms unfolding check_run_def variant_for_def variants_of_def
  by (auto split: option.splits if_splits sum.splits)

lemma plan_run_plan:
  assumes "plan_run env rq s = Inr p"
  obtains model images where "find_model (sq_model rq) = Some model" and "fm_kind model = sq_kind rq" and "check_run env rq model images = Inr p"
  using assms unfolding plan_run_def resolve_model_def by (auto simp: Let_def split: option.splits if_splits sum.splits)

lemma merged_distinct: "distinct (map fst params) \<Longrightarrow> distinct (map fst (merged_values prompt params))"
  unfolding merged_values_def by (induction params) auto

lemma map_of_filter:
  assumes "distinct (map fst d)"
  shows "map_of (filter (\<lambda>(k, x). P k x) d) k = (case map_of d k of None \<Rightarrow> None | Some x \<Rightarrow> if P k x then Some x else None)"
  using map_of_renamed[OF assms, of id k P] by (simp add: split_beta')

text \<open>A field the variant does not know has no default.\<close>

lemma resolved_unknown:
  assumes "distinct (map fst vals)" and "k \<notin> set (fv_fields v)"
  shows "jget k (resolve_values v vals) = jget k vals"
proof -
  let ?r = "filter (\<lambda>(k, x). x \<noteq> JNull) vals"
  have none: "map_of (filter (\<lambda>(k, d). k \<in> set (fv_fields v) \<and> k \<notin> fst ` set ?r) (fv_defaults v)) k = None"
    using assms(2) by (auto simp: map_of_eq_None_iff)
  show ?thesis
    unfolding resolve_values_def Let_def jget_map_of map_of_append map_add_def none
    using map_of_filter[OF assms(1), of "\<lambda>k x. x \<noteq> JNull" k] by (auto split: option.splits)
qed

lemma merged_resolution: "jget ''resolution'' (merged_values prompt params) = jget ''resolution'' params"
proof -
  have "map_of (filter (\<lambda>(k, v). k \<noteq> ''prompt'') params) ''resolution'' = map_of params ''resolution''"
    by (induction params) auto
  then show ?thesis by (simp add: merged_values_def jget_def)
qed

definition payload_price :: "media_env \<Rightarrow> FalModel \<Rightarrow> json_obj \<Rightarrow> int" where
  "payload_price env model payload = media_run_price (mv_overrides env) (mv_tariffs env) model (as_int (jget ''num_images'' payload))
     (as_str (jget ''duration'' payload)) (as_str (jget ''resolution'' payload)) (as_bool (jget ''generate_audio'' payload) = Some True)"

section \<open>The routes\<close>

text \<open>
  What the vendor of a route is asked for, read from its own fields, and its price. \<open>sound\<close> is the flag of the
  request, used where the vendor has no field for it.
\<close>

definition kie_input_of :: "VendorRoute \<Rightarrow> json_obj" where
  "kie_input_of r = (case jget ''input'' (vr_payload r) of JObj d \<Rightarrow> d | _ \<Rightarrow> [])"

definition sosana_resolution :: "FalModel \<Rightarrow> json_obj \<Rightarrow> string option" where
  "sosana_resolution model payload =
     find (\<lambda>res. jget ''model'' payload = JStr (fm_id model @ ''-'' @ py_lower res)) SOSANA_RESOLUTIONS"

definition says_sound :: "VendorRoute \<Rightarrow> bool" where
  "says_sound r \<longleftrightarrow> vr_service r = SERVICE_FAL \<or> vr_service r = SERVICE_KIE \<and> as_bool (jget ''sound'' (kie_input_of r)) \<noteq> None"

definition route_price :: "media_env \<Rightarrow> FalModel \<Rightarrow> bool \<Rightarrow> VendorRoute \<Rightarrow> int" where
  "route_price env model sound r =
     (if vr_service r = SERVICE_FAL then payload_price env model (vr_payload r)
      else if vr_service r = SERVICE_SOSANA
      then media_run_price (mv_overrides env) (mv_tariffs env) model (Some 1) None (sosana_resolution model (vr_payload r)) False
      else media_run_price (mv_overrides env) (mv_tariffs env) model None
        (map_option int_str (payload_seconds (kie_input_of r))) (as_str (jget ''resolution'' (kie_input_of r)))
        (or_default (as_bool (jget ''sound'' (kie_input_of r))) sound))"

text \<open>A duration is priced by its seconds.\<close>

lemma price_by_seconds:
  assumes "duration_seconds d = duration_seconds d'" and "d \<noteq> []" and "d' \<noteq> []"
  shows "media_run_price ov tf model num (Some d) resolution audio = media_run_price ov tf model num (Some d') resolution audio"
proof -
  have run: "run_price model base num (Some d) resolution audio = run_price model base num (Some d') resolution audio" for base
    using assms by (simp add: run_price_def price_multiplier_def)
  show ?thesis unfolding media_run_price_def run option.case assms(1) if_not_P[OF assms(2)] if_not_P[OF assms(3)] ..
qed

lemma image_price_one:
  assumes "fm_kind model = KIND_IMAGE" and "num = None \<or> num = Some 1"
  shows "media_run_price ov tf model num duration resolution audio = media_run_price ov tf model (Some 1) None resolution False"
  using assms by (auto simp: media_run_price_def)

lemma video_price_num:
  assumes "fm_kind model \<noteq> KIND_IMAGE"
  shows "media_run_price ov tf model num duration resolution audio = media_run_price ov tf model None duration resolution audio"
  by (rule price_congruent) (use assms in simp_all)

lemma silent_price:
  assumes "fm_kind model \<noteq> KIND_IMAGE" and "fm_audio_multiplier model = None"
  shows "media_run_price ov tf model num duration resolution audio = media_run_price ov tf model num duration resolution audio'"
  by (rule price_congruent) (use assms in simp_all)

lemma jget_no_field: "jget k [] = JNull"
  by (simp add: jget_def)

lemma jget_field: "jget k ((k', v) # d) = (if k = k' then v else jget k d)"
  by (simp add: jget_def)

lemma jget_put: "jget k (put_entry k' v @ d) = (if k = k' \<and> v \<noteq> JNull then v else jget k d)"
  by (simp add: put_entry_def jget_field)

lemma jget_put_last: "jget k (put_entry k' v) = (if k = k' then v else JNull)"
  by (simp add: put_entry_def jget_field jget_no_field)

lemmas jgets = jget_no_field jget_field jget_put jget_put_last

definition priced_durations :: "FalVariant \<Rightarrow> bool" where
  "priced_durations v \<longleftrightarrow> list_all (\<lambda>d. d \<noteq> [] \<and> (case duration_seconds d of None \<Rightarrow> False
     | Some i \<Rightarrow> duration_seconds (int_str i) = Some i \<and> int_str i \<noteq> [])) (fv_durations v)"

definition default_in :: "FalVariant \<Rightarrow> bool" where
  "default_in v \<longleftrightarrow> list_ex (\<lambda>d. jget ''duration'' (fv_defaults v) = JStr d) (fv_durations v)"

lemma catalog_durations:
  assumes "m \<in> set MODELS" and "v \<in> set (variants_of m)" and "fm_kind m = KIND_VIDEO"
  shows "priced_durations v" and "default_in v"
proof -
  have "list_all (\<lambda>m. fm_kind m = KIND_VIDEO \<longrightarrow> list_all (\<lambda>v. priced_durations v \<and> default_in v) (variants_of m)) MODELS"
    unfolding priced_durations_def default_in_def by code_simp
  then show "priced_durations v" "default_in v" using assms by (auto simp: list_all_iff)
qed

lemma resolved_known:
  assumes "distinct (map fst vals)" and "k \<in> set (fv_fields v)" and "distinct (map fst (fv_defaults v))"
  shows "jget k (resolve_values v vals) = (if jget k vals \<noteq> JNull then jget k vals else jget k (fv_defaults v))"
proof -
  let ?r = "filter (\<lambda>(k, x). x \<noteq> JNull) vals"
  have r: "map_of ?r k = (case map_of vals k of None \<Rightarrow> None | Some x \<Rightarrow> if x \<noteq> JNull then Some x else None)"
    by (rule map_of_filter[OF assms(1)])
  have "k \<notin> fst ` set ?r \<longleftrightarrow> map_of ?r k = None" by (simp add: map_of_eq_None_iff)
  then have d: "map_of (filter (\<lambda>(k, d). k \<in> set (fv_fields v) \<and> k \<notin> fst ` set ?r) (fv_defaults v)) k =
    (if map_of ?r k = None then map_of (fv_defaults v) k else None)"
    using map_of_filter[OF assms(3), of "\<lambda>k _. k \<in> set (fv_fields v) \<and> k \<notin> fst ` set ?r" k] assms(2)
    by (simp split: option.split)
  show ?thesis unfolding resolve_values_def Let_def jget_map_of map_of_append map_add_def d unfolding r
    by (auto split: option.splits)
qed

lemma merged_duration: "jget ''duration'' (merged_values prompt params) = jget ''duration'' params"
proof -
  have "map_of (filter (\<lambda>(k, v). k \<noteq> ''prompt'') params) ''duration'' = map_of params ''duration''"
    by (induction params) auto
  then show ?thesis by (simp add: merged_values_def jget_def)
qed

text \<open>The duration of a video is one of the variant's list.\<close>

lemma resolved_duration:
  assumes "distinct (map fst params)" and "''duration'' \<in> set (fv_fields v)" and "distinct (map fst (fv_defaults v))"
    and "validate_enum ''duration'' (jget ''duration'' params) v = None" and "default_in v"
  shows "\<exists>d \<in> set (fv_durations v). jget ''duration'' (resolve_values v (merged_values prompt params)) = JStr d"
proof (cases "jget ''duration'' params = JNull")
  case True
  then have "jget ''duration'' (resolve_values v (merged_values prompt params)) = jget ''duration'' (fv_defaults v)"
    by (simp add: resolved_known[OF merged_distinct[OF assms(1)] assms(2,3)] merged_duration)
  then show ?thesis using assms(5) by (simp add: default_in_def list_ex_iff)
next
  case False
  then have "jget ''duration'' (resolve_values v (merged_values prompt params)) = jget ''duration'' params"
    by (simp add: resolved_known[OF merged_distinct[OF assms(1)] assms(2,3)] merged_duration)
  then show ?thesis using assms(4) False
    by (simp add: validate_enum_def variant_allowed_def Let_def split: if_split_asm json.split_asm)
qed

text \<open>What the inputs of the Kie models carry.\<close>

lemma kie_inputs:
  assumes "payload_seconds payload = Some i" and "duration_seconds (int_str i) = Some i"
  shows "payload_seconds (snd (kie_kling_25 payload url)) = Some i"
    and "jget ''resolution'' (snd (kie_kling_25 payload url)) = JNull"
    and "payload_seconds (snd (kie_kling_v3 payload url)) = Some i"
    and "jget ''resolution'' (snd (kie_kling_v3 payload url)) = JNull"
    and "jget ''sound'' (snd (kie_kling_v3 payload url)) = JBool (jget ''generate_audio'' payload = JBool True)"
    and "payload_seconds (snd (kie_veo payload url)) = Some i"
    and "as_str (jget ''resolution'' (snd (kie_veo payload url))) = as_str (jget ''resolution'' payload)"
    and "jget ''sound'' (snd (kie_veo payload url)) = JNull"
proof -
  have label: "duration_label payload = JStr (int_str i)" by (simp add: duration_label_def assms(1) opt_json_def)
  have opt: "as_str (opt_json x) = x" "opt_json x = JNull \<longleftrightarrow> x = None" for x
    by (simp_all add: as_str_def opt_json_def split: option.split)
  have none: "as_str JNull = None" by (simp add: as_str_def)
  have durations: "jget ''duration'' (snd (kie_kling_25 payload url)) = JStr (int_str i)"
    "jget ''duration'' (snd (kie_kling_v3 payload url)) = JStr (int_str i)" "jget ''duration'' (snd (kie_veo payload url)) = JInt i"
    by (simp_all add: kie_kling_25_def kie_kling_v3_def kie_veo_def Let_def jgets label assms(1) split: option.split)
  show "payload_seconds (snd (kie_kling_25 payload url)) = Some i" "payload_seconds (snd (kie_kling_v3 payload url)) = Some i"
    "payload_seconds (snd (kie_veo payload url)) = Some i"
    by (simp_all add: payload_seconds_def[of "snd _"] durations assms(2) as_int_def)
  show "jget ''resolution'' (snd (kie_kling_25 payload url)) = JNull" "jget ''resolution'' (snd (kie_kling_v3 payload url)) = JNull"
    "jget ''sound'' (snd (kie_kling_v3 payload url)) = JBool (jget ''generate_audio'' payload = JBool True)"
    "as_str (jget ''resolution'' (snd (kie_veo payload url))) = as_str (jget ''resolution'' payload)"
    "jget ''sound'' (snd (kie_veo payload url)) = JNull"
    by (simp_all add: kie_kling_25_def kie_kling_v3_def kie_veo_def Let_def jgets opt none split: option.split)
qed

lemma kie_route_input:
  assumes "kie_route model variant payload = Some r"
  shows "\<exists>builder url. KIE_BUILDERS (fm_id model) = Some builder \<and> vr_service r = SERVICE_KIE
    \<and> kie_input_of r = snd (builder payload url)"
proof -
  obtain builder where b: "KIE_BUILDERS (fm_id model) = Some builder"
    using assms by (auto simp: kie_route_def split: option.splits)
  let ?build = "\<lambda>url. case builder payload url of (kie_model, kie_input) \<Rightarrow>
    Some \<lparr>vr_service = SERVICE_KIE, vr_endpoint = ''https://api.kie.ai/api/v1/jobs/createTask'',
      vr_payload = [(''model'', JStr kie_model), (''input'', JObj kie_input)], vr_catalog_endpoint = fv_endpoint variant\<rparr>"
  have built: "?build url = Some r \<Longrightarrow> vr_service r = SERVICE_KIE \<and> kie_input_of r = snd (builder payload url)" for url
    by (cases "builder payload url") (auto simp: kie_input_of_def jgets)
  let ?edit = "case fm_image_variant model of None \<Rightarrow> False | Some v \<Rightarrow> fv_endpoint variant = fv_endpoint v"
  have route: "(if ?edit then (case start_frame payload model of None \<Rightarrow> None | Some url \<Rightarrow> ?build (Some url)) else ?build None) = Some r"
    using assms unfolding kie_route_def b Let_def option.case .
  have "\<exists>url. ?build url = Some r"
  proof (cases ?edit)
    case True
    with route have "(case start_frame payload model of None \<Rightarrow> None | Some url \<Rightarrow> ?build (Some url)) = Some r" by (simp only: if_True)
    then show ?thesis by (cases "start_frame payload model") (simp, metis option.simps(5))
  next
    case False
    with route have "?build None = Some r" by (simp only: if_False)
    then show ?thesis by blast
  qed
  with b built show ?thesis by blast
qed

lemma video_models:
  assumes "m \<in> set MODELS" and "fm_kind m = KIND_VIDEO"
  shows "m = kling_video \<or> m = kling_video_v3 \<or> m = veo_31"
  using assms by (auto simp: MODELS_def nano_banana_pro_def nano_banana_2_def KIND_IMAGE_def KIND_VIDEO_def)

text \<open>The price of a video whose provider's fields say the same seconds, resolution and sound.\<close>

lemma kie_price:
  assumes "kie_route model variant payload = Some r" and "model \<in> set MODELS" and "fm_kind model = KIND_VIDEO"
    and "jget ''duration'' payload = JStr d" and "d \<noteq> []" and "duration_seconds d = Some i"
    and "duration_seconds (int_str i) = Some i" and "int_str i \<noteq> []"
    and "fm_id model = ''veo-3.1'' \<or> jget ''resolution'' payload = JNull"
    and "fm_audio_multiplier model = None \<or> sound = (as_bool (jget ''generate_audio'' payload) = Some True)"
  shows "payload_price env model payload = route_price env model sound r
    \<and> (says_sound r \<or> fm_audio_multiplier model = None \<or> fm_id model = ''veo-3.1'' \<and> vr_service r = SERVICE_KIE)"
proof -
  obtain builder url where b: "KIE_BUILDERS (fm_id model) = Some builder" "vr_service r = SERVICE_KIE"
    "kie_input_of r = snd (builder payload url)"
    using kie_route_input[OF assms(1)] by blast
  have secs: "payload_seconds payload = Some i" by (simp add: payload_seconds_def assms(4,6))
  note fields = kie_inputs[OF secs assms(7), of url]
  have str: "as_str (jget ''duration'' payload) = Some d" by (simp add: assms(4) as_str_def)
  have kind: "fm_kind model \<noteq> KIND_IMAGE" by (simp add: assms(3) KIND_IMAGE_def KIND_VIDEO_def)
  have service: "SERVICE_KIE \<noteq> SERVICE_FAL" "SERVICE_KIE \<noteq> SERVICE_SOSANA"
    by (simp_all add: SERVICE_KIE_def SERVICE_FAL_def SERVICE_SOSANA_def)
  have direct: "payload_price env model payload = media_run_price (mv_overrides env) (mv_tariffs env) model None (Some (int_str i))
    (as_str (jget ''resolution'' payload)) sound"
    unfolding payload_price_def str video_price_num[OF kind, of _ _ "as_int _"]
      price_by_seconds[of d "int_str i", unfolded assms(6,7), OF refl assms(5,8)]
    by (rule price_congruent) (use assms(10) kind in auto)
  have audio: "as_bool (JBool (jget ''generate_audio'' payload = JBool True)) = Some (as_bool (jget ''generate_audio'' payload) = Some True)"
    by (simp add: as_bool_def split: json.split)
  have routed: "route_price env model sound r = media_run_price (mv_overrides env) (mv_tariffs env) model None
    (map_option int_str (payload_seconds (snd (builder payload url)))) (as_str (jget ''resolution'' (snd (builder payload url))))
    (or_default (as_bool (jget ''sound'' (snd (builder payload url)))) sound)"
    by (simp add: route_price_def b service)
  have null: "as_str JNull = None" "as_bool JNull = None" by (simp_all add: as_str_def as_bool_def)
  consider "model = kling_video" | "model = kling_video_v3" | "model = veo_31"
    using video_models[OF assms(2,3)] by blast
  then show ?thesis
  proof cases
    case 1
    then have "builder = kie_kling_25" "fm_audio_multiplier model = None" "jget ''resolution'' payload = JNull"
      using b(1) assms(9) by (simp_all add: kling_video_def KIE_BUILDERS_def)
    then show ?thesis
      unfolding direct routed using fields(1,2) null silent_price[OF kind, of _ _ None "Some (int_str i)" None sound] by simp
  next
    case 2
    then have "builder = kie_kling_v3" "jget ''resolution'' payload = JNull" "sound = (as_bool (jget ''generate_audio'' payload) = Some True)"
      using b(1) assms(9,10) by (simp_all add: kling_video_v3_def KIE_BUILDERS_def)
    then show ?thesis
      unfolding direct routed says_sound_def using fields(3-5) null audio b by (simp add: or_default_def)
  next
    case 3
    then have "builder = kie_veo" "fm_id model = ''veo-3.1''"
      using b(1) by (simp_all add: veo_31_def KIE_BUILDERS_def)
    then show ?thesis
      unfolding direct routed using fields(6-8) null b by (simp add: or_default_def)
  qed
qed

lemma sosana_price:
  assumes "sosana_route model variant vals payload = Some r" and "fm_kind model = KIND_IMAGE"
  shows "price_of env model vals = route_price env model sound r"
proof -
  obtain resolution where r: "jget ''resolution'' vals = JStr resolution" "resolution \<in> set SOSANA_RESOLUTIONS"
    "vr_service r = SERVICE_SOSANA" "jget ''model'' (vr_payload r) = JStr (fm_id model @ ''-'' @ py_lower resolution)"
    and one: "as_int (jget ''numImages'' vals) = None \<or> as_int (jget ''numImages'' vals) = Some 1"
    using assms(1) unfolding sosana_route_def
    by (auto simp: jgets as_int_def split: if_split_asm json.split_asm)
  have "sosana_resolution model (vr_payload r) = Some resolution"
    using r(2) unfolding sosana_resolution_def r(4) by (auto simp: SOSANA_RESOLUTIONS_def py_lower_def lower_char_def)
  moreover have "SERVICE_SOSANA \<noteq> SERVICE_FAL" by (simp add: SERVICE_FAL_def SERVICE_SOSANA_def)
  ultimately show ?thesis
    unfolding price_of_def route_price_def image_price_one[OF assms(2) one] r(1) by (simp add: r(3) as_str_def)
qed

text \<open>What an accepted request resolves to.\<close>

lemma plan_fields:
  assumes "plan_run env rq s = Inr p" and "distinct (map fst (sq_params rq))"
  shows "rp_model p \<in> set MODELS" and "rp_variant p \<in> set (variants_of (rp_model p))"
    and "priced_fields_present (rp_model p) (rp_variant p)"
    and "rp_values p = resolve_values (rp_variant p) (merged_values (sq_prompt rq) (sq_params rq))"
    and "validate_enum ''duration'' (jget ''duration'' (sq_params rq)) (rp_variant p) = None"
    and "fv_resolutions (rp_variant p) = [] \<Longrightarrow> ''resolution'' \<notin> set (fv_fields (rp_variant p)) \<Longrightarrow> jget ''resolution'' (rp_values p) = JNull"
    and "k \<in> set known_fields \<Longrightarrow>
      jget (fal_field_name k) (rp_payload p) = (if k \<in> set (fv_fields (rp_variant p)) then jget k (rp_values p) else JNull)"
proof -
  obtain model images where m: "find_model (sq_model rq) = Some model" "check_run env rq model images = Inr p"
    by (rule plan_run_plan[OF assms(1)])
  note plan = check_run_plan[OF m(2)]
  show model: "rp_model p \<in> set MODELS" and variant: "rp_variant p \<in> set (variants_of (rp_model p))"
    using find_model_mem[OF m(1)] plan(1,2) by simp_all
  show present: "priced_fields_present (rp_model p) (rp_variant p)" by (rule catalog_fields[OF model variant])
  show "rp_values p = resolve_values (rp_variant p) (merged_values (sq_prompt rq) (sq_params rq))"
    and "validate_enum ''duration'' (jget ''duration'' (sq_params rq)) (rp_variant p) = None"
    by (rule plan(3), rule plan(5))
  note merged = merged_distinct[OF assms(2), of "sq_prompt rq"]
  show "jget ''resolution'' (rp_values p) = JNull" if "fv_resolutions (rp_variant p) = []" "''resolution'' \<notin> set (fv_fields (rp_variant p))"
  proof -
    have "jget ''resolution'' (sq_params rq) = JNull"
      using plan(4) that(1) by (simp add: validate_enum_def variant_allowed_def split: if_splits)
    then show ?thesis unfolding plan(3) resolved_unknown[OF merged that(2)] merged_resolution .
  qed
  have vals: "distinct (map fst (rp_values p))"
    unfolding plan(3) using resolved_distinct[OF merged] present by (simp add: priced_fields_present_def)
  show "jget (fal_field_name k) (rp_payload p) = (if k \<in> set (fv_fields (rp_variant p)) then jget k (rp_values p) else JNull)"
    if "k \<in> set known_fields"
    unfolding rp_payload_def by (rule payload_field[OF vals]) (use present that in \<open>simp_all add: priced_fields_present_def\<close>)
qed

text \<open>The fields that move the price, as the payload has them.\<close>

lemma plan_payload:
  assumes "plan_run env rq s = Inr p" and "distinct (map fst (sq_params rq))"
  shows "jget ''num_images'' (rp_payload p) = (if ''numImages'' \<in> set (fv_fields (rp_variant p)) then jget ''numImages'' (rp_values p) else JNull)"
    and "jget ''duration'' (rp_payload p) = (if ''duration'' \<in> set (fv_fields (rp_variant p)) then jget ''duration'' (rp_values p) else JNull)"
    and "jget ''generate_audio'' (rp_payload p) =
      (if ''generateAudio'' \<in> set (fv_fields (rp_variant p)) then jget ''generateAudio'' (rp_values p) else JNull)"
    and "jget ''resolution'' (rp_payload p) = jget ''resolution'' (rp_values p)"
proof -
  note facts = plan_fields[OF assms]
  have names: "fal_field_name ''numImages'' = ''num_images''" "fal_field_name ''duration'' = ''duration''"
    "fal_field_name ''resolution'' = ''resolution''" "fal_field_name ''generateAudio'' = ''generate_audio''"
    and known: "''numImages'' \<in> set known_fields" "''duration'' \<in> set known_fields" "''resolution'' \<in> set known_fields"
    "''generateAudio'' \<in> set known_fields"
    by (simp_all add: fal_field_name_def known_fields_def FAL_FIELD_NAMES_def)
  note read = facts(7)[OF known(1), unfolded names] facts(7)[OF known(2), unfolded names] facts(7)[OF known(3), unfolded names]
    facts(7)[OF known(4), unfolded names]
  show "jget ''num_images'' (rp_payload p) = (if ''numImages'' \<in> set (fv_fields (rp_variant p)) then jget ''numImages'' (rp_values p) else JNull)"
    "jget ''duration'' (rp_payload p) = (if ''duration'' \<in> set (fv_fields (rp_variant p)) then jget ''duration'' (rp_values p) else JNull)"
    "jget ''generate_audio'' (rp_payload p) =
      (if ''generateAudio'' \<in> set (fv_fields (rp_variant p)) then jget ''generateAudio'' (rp_values p) else JNull)"
    by (rule read(1), rule read(2), rule read(4))
  show "jget ''resolution'' (rp_payload p) = jget ''resolution'' (rp_values p)"
    using read(3) facts(3,6) by (auto simp: priced_fields_present_def)
qed

lemma plan_price:
  assumes "plan_run env rq s = Inr p" and "distinct (map fst (sq_params rq))"
  shows "price_of env (rp_model p) (rp_values p) = payload_price env (rp_model p) (rp_payload p)"
  unfolding price_of_def payload_price_def plan_payload(4)[OF assms]
  by (rule price_congruent) (use plan_fields(3)[OF assms] plan_payload(1-3)[OF assms] in \<open>auto simp: priced_fields_present_def split: if_splits\<close>)

lemma plan_kie_price:
  assumes "plan_run env rq s = Inr p" and "distinct (map fst (sq_params rq))"
    and "fm_kind (rp_model p) = KIND_VIDEO" and "kie_route (rp_model p) (rp_variant p) (rp_payload p) = Some r"
  shows "price_of env (rp_model p) (rp_values p) = route_price env (rp_model p) (as_bool (jget ''generateAudio'' (rp_values p)) = Some True) r
    \<and> (says_sound r \<or> fm_audio_multiplier (rp_model p) = None \<or> fm_id (rp_model p) = ''veo-3.1'' \<and> vr_service r = SERVICE_KIE)"
proof -
  note facts = plan_fields[OF assms(1,2)] and payload = plan_payload[OF assms(1,2)]
  have "fm_kind (rp_model p) \<noteq> KIND_IMAGE" using assms(3) by (simp add: KIND_IMAGE_def KIND_VIDEO_def)
  then have flds: "''duration'' \<in> set (fv_fields (rp_variant p))" "distinct (map fst (fv_defaults (rp_variant p)))"
    and sound: "fm_audio_multiplier (rp_model p) = None \<or> ''generateAudio'' \<in> set (fv_fields (rp_variant p))"
    using facts(3) by (auto simp: priced_fields_present_def)
  note durations = catalog_durations[OF facts(1,2) assms(3)]
  obtain d where d: "d \<in> set (fv_durations (rp_variant p))" "jget ''duration'' (rp_values p) = JStr d"
    using resolved_duration[OF assms(2) flds facts(5) durations(2)] unfolding facts(4) by blast
  then obtain i where i: "d \<noteq> []" "duration_seconds d = Some i" "duration_seconds (int_str i) = Some i" "int_str i \<noteq> []"
    using durations(1) by (auto simp: priced_durations_def list_all_iff split: option.splits)
  have duration: "jget ''duration'' (rp_payload p) = JStr d" using payload(2) flds(1) d(2) by simp
  have veo: "fm_id (rp_model p) = ''veo-3.1'' \<or> jget ''resolution'' (rp_payload p) = JNull"
    using video_models[OF facts(1) assms(3)] facts(2,6)
    by (auto simp: payload(4) variants_of_def kling_video_def kling_video_v3_def veo_31_def video_variant_def KLING_25_FIELDS_def KLING_V3_FIELDS_def)
  have "fm_audio_multiplier (rp_model p) = None
      \<or> (as_bool (jget ''generateAudio'' (rp_values p)) = Some True) = (as_bool (jget ''generate_audio'' (rp_payload p)) = Some True)"
    using sound payload(3) by auto
  then show ?thesis
    unfolding plan_price[OF assms(1,2)] by (rule kie_price[OF assms(4) facts(1) assms(3) duration i veo])
qed

lemma catalog_images_silent: "m \<in> set MODELS \<Longrightarrow> fm_kind m = KIND_IMAGE \<Longrightarrow> fm_audio_multiplier m = None"
  by (auto simp: MODELS_def nano_banana_pro_def nano_banana_2_def kling_video_def kling_video_v3_def veo_31_def KIND_IMAGE_def KIND_VIDEO_def)

lemma candidate_cases:
  assumes "r \<in> set (candidate_routes model v vals payload)"
  obtains "r = fal_route (fv_endpoint v) payload" | "fm_kind model = KIND_IMAGE" "sosana_route model v vals payload = Some r"
    | "fm_kind model = KIND_VIDEO" "kie_route model v payload = Some r"
proof -
  have "r = fal_route (fv_endpoint v) payload \<or> fm_kind model = KIND_IMAGE \<and> sosana_route model v vals payload = Some r
    \<or> fm_kind model = KIND_VIDEO \<and> kie_route model v payload = Some r"
    using assms by (simp add: candidate_routes_def Let_def split: option.split_asm if_split_asm) blast+
  then show thesis using that by blast
qed

text \<open>
  C19. The charge is the price of what is submitted, whichever route takes the run. For every request \<open>submit\<close>
  accepts, whatever the operator's tariff, the price computed from the resolved values is the price of the fal
  payload, read back from the provider's own field names, and of every candidate route, read back from the fields
  of its vendor: the one image and the resolution in the model's name at Sosana, the seconds, the resolution and the
  sound at Kie. The last route is always fal with exactly this payload, and at most one vendor route comes before it.
  One thing that moves the price is not sent to one vendor: Veo over Kie has no field for the sound, and there the
  price is read with the flag of the client's request (the payload is the same with and without it). Every other
  route of a model whose sound is priced says it.
\<close>

theorem charged_as_submitted:
  assumes "plan_run env rq s = Inr p" and "distinct (map fst (sq_params rq))"
  shows "price_of env (rp_model p) (rp_values p) = payload_price env (rp_model p) (rp_payload p)
    \<and> last (candidate_routes (rp_model p) (rp_variant p) (rp_values p) (rp_payload p)) = fal_route (fv_endpoint (rp_variant p)) (rp_payload p)
    \<and> length (candidate_routes (rp_model p) (rp_variant p) (rp_values p) (rp_payload p)) \<le> 2
    \<and> (\<forall>r \<in> set (candidate_routes (rp_model p) (rp_variant p) (rp_values p) (rp_payload p)).
        price_of env (rp_model p) (rp_values p) =
          route_price env (rp_model p) (as_bool (jget ''generateAudio'' (rp_values p)) = Some True) r
        \<and> (says_sound r \<or> fm_audio_multiplier (rp_model p) = None
            \<or> fm_id (rp_model p) = ''veo-3.1'' \<and> vr_service r = SERVICE_KIE))"
proof -
  note price = plan_price[OF assms]
  have "price_of env (rp_model p) (rp_values p) = route_price env (rp_model p) (as_bool (jget ''generateAudio'' (rp_values p)) = Some True) r
      \<and> (says_sound r \<or> fm_audio_multiplier (rp_model p) = None \<or> fm_id (rp_model p) = ''veo-3.1'' \<and> vr_service r = SERVICE_KIE)"
    if "r \<in> set (candidate_routes (rp_model p) (rp_variant p) (rp_values p) (rp_payload p))" for r
    using that
  proof (cases rule: candidate_cases)
    case 1
    then show ?thesis by (simp add: price route_price_def says_sound_def fal_route_def)
  next
    case 2
    then show ?thesis using sosana_price[OF 2(2,1)] catalog_images_silent[OF plan_fields(1)[OF assms]] by simp
  next
    case 3
    then show ?thesis by (rule plan_kie_price[OF assms])
  qed
  then show ?thesis
    using price by (simp add: candidate_routes_def Let_def split: option.split)
qed

section \<open>Witness\<close>

text \<open>A service with the direct client only, and a request for a Veo run at the defaults with sound.\<close>

definition direct_env :: media_env where
  "direct_env = \<lparr>mv_settings = \<lparr>md_deadline = 21600, md_proxy_configured = False, md_retention = None, md_suffixes = [''.fal.media''],
       md_secrets = [], md_host = []\<rparr>,
     mv_overrides = [], mv_tariffs = \<lambda>_. None, mv_cost = \<lambda>_ _. None,
     mv_fal_submit = \<lambda>_ _. Inr \<lparr>fs_request = ''r1'', fs_status_url = ''status'', fs_response_url = ''response''\<rparr>,
     mv_fal_status = \<lambda>_ _. Inr \<lparr>fst_status = ''IN_QUEUE'', fst_error = None\<rparr>, mv_fal_result = \<lambda>_ _. Inr [],
     mv_rehost = Inr, mv_proxy = None, mv_check = None, mv_downscale = \<lambda>_. Uncheckable [], mv_complete = None, mv_push = True,
     mv_loads = \<lambda>_. None, mv_urlsplit = \<lambda>_. None, mv_dec = \<lambda>_. None, mv_sign = \<lambda>_. ''t'', mv_quote = id\<rparr>"

definition veo_request :: submit_request where
  "veo_request = \<lparr>sq_user = 1, sq_kind = KIND_VIDEO, sq_model = ''veo-3.1'', sq_prompt = ''sea'', sq_images = [],
     sq_params = [(''generateAudio'', JBool True)], sq_source = None\<rparr>"

definition funded_state :: media_state where
  "funded_state = \<lparr>ms_db = small_db\<lparr>wallets := [1 \<mapsto> 200],
     ledger := [\<lparr>tx_id = 0, tx_user = 1, tx_type = Credit, tx_amount = 200, tx_meta = [], tx_key = ''k'', tx_created_at = 0\<rparr>]\<rparr>, ms_jobs = []\<rparr>"

definition veo_plan :: run_plan where
  "veo_plan = \<lparr>rp_model = veo_31, rp_variant = fm_text_variant veo_31,
     rp_values = [(''prompt'', JStr ''sea''), (''generateAudio'', JBool True), (''duration'', JStr ''8s''), (''resolution'', JStr ''720p'')],
     rp_images = [], rp_verdict = unchecked_verdict\<rparr>"

lemma veo_plan: "plan_run direct_env veo_request funded_state = Inr veo_plan"
  by (simp add: plan_run_def resolve_model_def find_model_def MODELS_def veo_request_def veo_31_def kling_video_def kling_video_v3_def
      nano_banana_2_def nano_banana_pro_def source_images_def check_run_def variant_for_def validate_enum_def moderate_input_def
      direct_env_def resolve_values_def merged_values_def veo_plan_def video_variant_def VEO_FIELDS_def VEO_DEFAULTS_def Let_def KIND_VIDEO_def KIND_IMAGE_def image_variant_def)

theorem charged_as_submitted_witness:
  "price_of direct_env veo_31 (rp_values veo_plan) = 128 \<and> payload_price direct_env veo_31 (rp_payload veo_plan) = 128"
proof -
  have price: "price_of direct_env veo_31 (rp_values veo_plan) = 128" by code_simp
  show ?thesis using charged_as_submitted[OF veo_plan] price by (simp add: veo_request_def veo_plan_def)
qed

end
