(* ===== verification/Media_Accounts.thy ===== *)
theory Media_Accounts
  imports Media_Settle Media_Purchase
begin

text \<open>
  The properties of the generation jobs as a whole: what a submission charges, what every step of the service keeps
  (\<open>media_step\<close>), that an overdue job ends, and what two overlapping polls of a job of the direct client can do.
\<close>

section \<open>Submission\<close>

text \<open>A fresh \<open>uuid4\<close>: no row and no ledger entry has it.\<close>

definition fresh_id :: "uuid \<Rightarrow> media_state \<Rightarrow> bool" where
  "fresh_id i s \<longleftrightarrow> find_job i s = None \<and>
     (\<forall>u. existing_tx u (media_debit_key i) (ms_db s) = None \<and> existing_tx u (media_refund_key i) (ms_db s) = None)"

lemma find_job_None: "find_job i s = None \<longleftrightarrow> i \<notin> mj_id ` set (ms_jobs s)"
  by (auto simp: find_job_def find_None_iff)

text \<open>A new open row, its debit booked.\<close>

lemma joins:
  assumes ok: "media_ok s" and fresh: "fresh_id i s" and wallet: "wallet_ok d"
    and keys: "\<And>u k. (u, k) \<noteq> (mj_user j, media_debit_key i) \<Longrightarrow> existing_tx u k d = existing_tx u k (ms_db s)"
    and row: "mj_id j = i" "mj_status j = ''queued''" "\<not> mj_refunded j" "0 \<le> mj_charged j" "mj_charged j \<le> 2147483647"
    and debit: "0 < mj_charged j \<Longrightarrow> \<exists>x. existing_tx (mj_user j) (media_debit_key i) d = Some x \<and> tx_type x = Debit \<and> tx_amount x = mj_charged j"
    and balance: "\<And>u. current_balance u d + (if u = mj_user j then mj_charged j else 0) = current_balance u (ms_db s)"
  shows "media_ok (s\<lparr>ms_db := d, ms_jobs := ms_jobs s @ [j]\<rparr>) \<and> (\<forall>u. credits u (s\<lparr>ms_db := d, ms_jobs := ms_jobs s @ [j]\<rparr>) = credits u s)"
proof (intro conjI allI)
  have new: "i \<notin> mj_id ` set (ms_jobs s)" using fresh by (simp add: fresh_id_def find_job_None)
  have old: "job_ok d x" if "x \<in> set (ms_jobs s)" for x
  proof (rule job_ok_frame)
    show "job_ok (ms_db s) x" using ok that by (simp add: media_ok_def)
    have "mj_id x \<noteq> i" using new that by blast
    then show "existing_tx (mj_user x) k d = existing_tx (mj_user x) k (ms_db s)" if "k \<in> {media_refund_key (mj_id x), media_debit_key (mj_id x)}" for k
      using that by (intro keys) auto
  qed
  have "existing_tx (mj_user j) (media_refund_key i) d = None" using keys[of "mj_user j" "media_refund_key i"] fresh by (simp add: fresh_id_def)
  then have "job_ok d j" using row debit by (simp add: job_ok_def JOB_STATUSES_def terminal_iff)
  then show "media_ok (s\<lparr>ms_db := d, ms_jobs := ms_jobs s @ [j]\<rparr>)"
    using ok wallet old new row(1) by (auto simp: media_ok_def)
  show "credits u (s\<lparr>ms_db := d, ms_jobs := ms_jobs s @ [j]\<rparr>) = credits u s" for u
    using balance[of u] row(2) by (cases "u = mj_user j") (simp_all add: credits_def stake_def stake_of_def)
qed

lemma created_row:
  assumes "create_job j s = (Inr j', t)"
  shows "j' = j" and "t = s\<lparr>ms_jobs := ms_jobs s @ [j]\<rparr>" and "mj_charged j \<le> 2147483647"
  using assms by (auto simp: create_job_def split: if_splits)

lemma debit_and_create_cases:
  assumes ok: "media_ok s" and fresh: "fresh_id i s"
    and row: "\<And>h. mj_id (row h) = i \<and> mj_user (row h) = u \<and> mj_charged (row h) = amount \<and> mj_status (row h) = ''queued'' \<and> \<not> mj_refunded (row h)"
    and debit: "if debit then True else amount = 0"
  obtains (refused) e where "debit_and_create i u amount debit meta transport row s = (Inl e, s)"
  | (created) h t where "transport = Inr h" and "debit_and_create i u amount debit meta transport row s = (Inr (row h), t)"
      and "media_ok t" and "ms_jobs t = ms_jobs s @ [row h]" and "\<And>v. credits v t = credits v s" and "0 \<le> amount"
      and "debit \<Longrightarrow> 0 < amount \<and> amount \<le> current_balance u (ms_db s)"
      and "current_balance u (ms_db t) = current_balance u (ms_db s) - amount"
proof (cases "debit_and_create i u amount debit meta transport row s")
  case (Pair out t)
  show thesis
  proof (cases out)
    case (Inl e)
    with Pair have "debit_and_create i u amount debit meta transport row s = (Inl e, s)"
      unfolding debit_and_create_def session_scope_eq by (auto split: prod.splits sum.splits)
    then show thesis by (rule refused)
  next
    case (Inr j)
    note run = session_scope_InrD[OF Pair[unfolded debit_and_create_def Inr]]
    from run obtain s1 where s1: "(if debit then and_then (on_db (wallet_consume u amount (media_debit_key i) meta None) s) (\<lambda>_ s. (Inr (), s))
         else (Inr (), s)) = (Inr (), s1)"
      and rest: "(case transport of Inl e \<Rightarrow> (Inl e, s1) | Inr h \<Rightarrow> create_job (row h) s1) = (Inr j, t)"
      by (elim and_then_InrE) auto
    from rest obtain h where h: "transport = Inr h" "create_job (row h) s1 = (Inr j, t)" by (cases transport) auto
    note made = created_row[OF h(2)]
    have wallet: "wallet_ok (ms_db s)" using ok by (simp add: media_ok_def)
    have finish: thesis if d: "s1 = s\<lparr>ms_db := d\<rparr>" "wallet_ok d" "0 \<le> amount"
        "\<And>v k. (v, k) \<noteq> (u, media_debit_key i) \<Longrightarrow> existing_tx v k d = existing_tx v k (ms_db s)"
        "0 < amount \<Longrightarrow> \<exists>x. existing_tx u (media_debit_key i) d = Some x \<and> tx_type x = Debit \<and> tx_amount x = amount"
        "\<And>v. current_balance v d + (if v = u then amount else 0) = current_balance v (ms_db s)"
        "debit \<Longrightarrow> 0 < amount \<and> amount \<le> current_balance u (ms_db s)" for d
    proof -
      have t: "t = s\<lparr>ms_db := d, ms_jobs := ms_jobs s @ [row h]\<rparr>" using made(2) d(1) by simp
      have R: "mj_id (row h) = i" "mj_user (row h) = u" "mj_charged (row h) = amount" "mj_status (row h) = ''queued''" "\<not> mj_refunded (row h)"
        using row by simp_all
      have j: "media_ok t \<and> (\<forall>v. credits v t = credits v s)"
        unfolding t
      proof (rule joins[OF ok fresh d(2)])
        show "existing_tx v k d = existing_tx v k (ms_db s)" if "(v, k) \<noteq> (mj_user (row h), media_debit_key i)" for v k
          using that unfolding R(2) by (rule d(4))
        show "\<exists>x. existing_tx (mj_user (row h)) (media_debit_key i) d = Some x \<and> tx_type x = Debit \<and> tx_amount x = mj_charged (row h)"
          if "0 < mj_charged (row h)" using d(5) that unfolding R(2,3) .
        show "current_balance v d + (if v = mj_user (row h) then mj_charged (row h) else 0) = current_balance v (ms_db s)" for v
          unfolding R(2,3) by (rule d(6))
        show "0 \<le> mj_charged (row h)" unfolding R(3) by (rule d(3))
      qed (use R made(3) in simp_all)
      show thesis
      proof (rule created[OF h(1)])
        show "debit_and_create i u amount debit meta transport row s = (Inr (row h), t)" using Pair Inr made(1) by simp
        show "current_balance u (ms_db t) = current_balance u (ms_db s) - amount" using d(6)[of u] by (simp add: t)
      qed (use j d(3,7) t in simp_all)
    qed
    show thesis
    proof (cases debit)
      case True
      with s1 obtain r where "on_db (wallet_consume u amount (media_debit_key i) meta None) s = (Inr r, s1)"
        by (auto elim: and_then_InrE)
      then obtain d where d: "wallet_consume u amount (media_debit_key i) meta None (ms_db s) = (Inr r, d)" "s1 = s\<lparr>ms_db := d\<rparr>"
        by (auto simp: on_db_def split: prod.splits)
      have free: "existing_tx u (media_debit_key i) (ms_db s) = None" using fresh by (simp add: fresh_id_def)
      note scoped = session_scope_return[of "wallet_consume u amount (media_debit_key i) meta None", OF d(1)]
      note keeps = consume_keeps_ok[OF wallet scoped]
      from wallet scoped show thesis
      proof (cases rule: consume_returned)
        case (posted row')
        show thesis
          by (rule finish[OF d(2) keeps]) (use posted in \<open>auto simp: post_tx_existing[OF free]\<close>)
      qed (simp add: free)
    next
      case False
      then have "s1 = s" "amount = 0" using s1 debit by simp_all
      then show thesis using False wallet by (intro finish[of "ms_db s"]) simp_all
    qed
  qed
qed

text \<open>The transport that accepted the run.\<close>

definition accepted_by :: "media_env \<Rightarrow> run_plan \<Rightarrow> media_job \<Rightarrow> bool" where
  "accepted_by env p j \<longleftrightarrow>
     (if proxy_enabled env
      then \<exists>send r url. mv_proxy env = Some send \<and> r \<in> set (candidate_routes (rp_model p) (rp_variant p) (rp_values p) (rp_payload p))
             \<and> send r url = Inr (mj_request j) \<and> mj_provider j = vr_service r
      else \<exists>f. mv_fal_submit env (fv_endpoint (rp_variant p)) (rp_payload p) = Inr f \<and> mj_request j = fs_request f \<and> mj_provider j = [])"

lemma first_accepting_sent:
  "submit_first_accepting env i routes = Inr (r, rid, rest) \<Longrightarrow> \<exists>send url. mv_proxy env = Some send \<and> r \<in> set routes \<and> send r url = Inr rid"
  unfolding submit_first_accepting_def using first_accepting_route by (auto split: option.splits)

lemma transport_accepted:
  assumes "(if proxy_enabled env then submit_via_proxy env i (candidate_routes (rp_model p) (rp_variant p) (rp_values p) (rp_payload p))
      else submit_direct env (fv_endpoint (rp_variant p)) (rp_payload p)) = Inr h"
    and "mj_request j = sh_request h" and "mj_provider j = sh_provider h"
  shows "accepted_by env p j"
proof (cases "proxy_enabled env")
  case True
  with assms(1) obtain r rest where
    "submit_first_accepting env i (candidate_routes (rp_model p) (rp_variant p) (rp_values p) (rp_payload p)) = Inr (r, sh_request h, rest)"
    "sh_provider h = vr_service r"
    by (auto simp: submit_via_proxy_def split: sum.splits)
  then show ?thesis using first_accepting_sent True assms(2,3) unfolding accepted_by_def by metis
next
  case False
  with assms show ?thesis by (auto simp: accepted_by_def submit_direct_def split: sum.splits)
qed

lemma submit_job_cases:
  assumes ok: "media_ok s" and fresh: "fresh_id i s"
  obtains (refused) e where "submit_job env i rq s = (Inl e, s)"
  | (created) p v t where "submit_job env i rq s = (Inr v, t)" and "plan_run env rq s = Inr p" and "accepted_by env p (vw_job v)"
      and "media_ok t" and "ms_jobs t = ms_jobs s @ [vw_job v]" and "\<And>u. credits u t = credits u s"
      and "mj_charged (vw_job v) = price_of env (rp_model p) (rp_values p)" and "0 < mj_charged (vw_job v)"
      and "mj_charged (vw_job v) \<le> current_balance (sq_user rq) (ms_db s)" and "mj_user (vw_job v) = sq_user rq"
      and "current_balance (sq_user rq) (ms_db t) = current_balance (sq_user rq) (ms_db s) - mj_charged (vw_job v)"
      and "mj_pending (vw_job v) = None" and "mj_result (vw_job v) = None" and "mj_id (vw_job v) = i"
proof (cases "plan_run env rq s")
  case (Inl e)
  then show thesis by (intro refused[of e]) (simp add: submit_job_def)
next
  case (Inr p)
  let ?cost = "price_of env (rp_model p) (rp_values p)"
  let ?transport = "if proxy_enabled env then submit_via_proxy env i (candidate_routes (rp_model p) (rp_variant p) (rp_values p) (rp_payload p))
      else submit_direct env (fv_endpoint (rp_variant p)) (rp_payload p)"
  let ?row = "\<lambda>h. (new_job i (sql_now (ms_db s)) (sq_user rq) (fm_id (rp_model p)) (fm_kind (rp_model p)) (fv_endpoint (rp_variant p))
     (sq_prompt rq) ?cost (rp_images p) (rp_verdict p) h)\<lparr>mj_cost := mv_cost env (rp_model p) (rp_values p), mj_parent := sq_source rq\<rparr>"
  let ?run = "debit_and_create i (sq_user rq) ?cost True (media_meta (fm_id (rp_model p)) (fm_kind (rp_model p))) ?transport ?row s"
  have eq: "submit_job env i rq s = and_then ?run (\<lambda>j s. (Inr \<lparr>vw_job = j, vw_assets = []\<rparr>, s))"
    by (simp only: submit_job_def Inr sum.case Let_def)
  have row: "mj_id (?row h) = i \<and> mj_user (?row h) = sq_user rq \<and> mj_charged (?row h) = ?cost \<and> mj_status (?row h) = ''queued'' \<and> \<not> mj_refunded (?row h)" for h
    by (simp add: new_job_def)
  have paid: "if True then True else ?cost = 0" by simp
  show thesis
  proof (cases rule: debit_and_create_cases[where row = ?row and meta = "media_meta (fm_id (rp_model p)) (fm_kind (rp_model p))"
      and transport = ?transport and u = "sq_user rq" and amount = ?cost and debit = True, OF ok fresh row paid])
    case (1 e)
    then show thesis by (intro refused[of e]) (simp add: eq)
  next
    case (2 h t)
    show thesis
    proof (rule created)
      show "submit_job env i rq s = (Inr \<lparr>vw_job = ?row h, vw_assets = []\<rparr>, t)" by (simp add: eq 2(2))
      show "plan_run env rq s = Inr p" by (rule Inr)
      show "accepted_by env p (vw_job \<lparr>vw_job = ?row h, vw_assets = []\<rparr>)" by (rule transport_accepted[OF 2(1)]) (simp_all add: new_job_def)
    qed (use 2 in \<open>simp_all add: new_job_def\<close>)
  qed
qed

lemma submit_custom_cases:
  assumes ok: "media_ok s" and fresh: "fresh_id i s"
  obtains (refused) e where "submit_custom env i rq s = (Inl e, s)"
  | (created) j v t where "submit_custom env i rq s = (Inr v, t)" and "media_ok t" and "ms_jobs t = ms_jobs s @ [j]"
      and "\<And>u. credits u t = credits u s" and "mj_pending j = None" and "mj_result j = None" and "mj_id j = i"
proof (cases "cq_kind rq \<notin> {KIND_IMAGE, KIND_VIDEO} \<or> cq_credits rq < 0")
  case True
  then have "\<exists>e. submit_custom env i rq s = (Inl e, s)" by (auto simp: submit_custom_def)
  then show thesis using refused by blast
next
  case False
  show thesis
  proof (cases "moderate_input env (cq_prompt rq) (cq_images rq)")
    case (Inl e)
    with False show thesis by (intro refused[of e]) (simp add: submit_custom_def)
  next
    case (Inr v)
    let ?meta = "media_meta (cq_model rq) (cq_kind rq)"
    let ?transport = "if proxy_enabled env then submit_via_proxy env i [fal_route (cq_endpoint rq) (cq_payload rq)]
               else submit_direct env (cq_endpoint rq) (cq_payload rq)"
    let ?row = "\<lambda>h. (new_job i (sql_now (ms_db s)) (cq_user rq) (cq_model rq) (cq_kind rq) (cq_endpoint rq) (cq_prompt rq) (cq_credits rq)
        (cq_images rq) v (h\<lparr>sh_routes := None\<rparr>))\<lparr>mj_operation := cq_operation rq, mj_operation_input := cq_input rq, mj_visible := cq_visible rq\<rparr>"
    let ?run = "debit_and_create i (cq_user rq) (cq_credits rq) (0 < cq_credits rq) ?meta ?transport ?row s"
    have eq: "submit_custom env i rq s = and_then ?run (\<lambda>j s. (Inr \<lparr>vw_job = j, vw_assets = []\<rparr>, s))"
      using False by (auto simp: submit_custom_def Inr)
    have row: "mj_id (?row h) = i \<and> mj_user (?row h) = cq_user rq \<and> mj_charged (?row h) = cq_credits rq \<and> mj_status (?row h) = ''queued'' \<and> \<not> mj_refunded (?row h)" for h
      by (simp add: new_job_def)
    have paid: "if 0 < cq_credits rq then True else cq_credits rq = 0" using False by simp
    show thesis
    proof (cases rule: debit_and_create_cases[where row = ?row and meta = ?meta and transport = ?transport and u = "cq_user rq"
          and amount = "cq_credits rq" and debit = "0 < cq_credits rq", OF ok fresh row paid])
      case (1 e)
      then show thesis by (intro refused[of e]) (simp add: eq)
    next
      case (2 h t)
      show thesis
        by (rule created[of "\<lparr>vw_job = ?row h, vw_assets = []\<rparr>" t "?row h"]) (use 2 in \<open>simp_all add: eq new_job_def\<close>)
    qed
  qed
qed

section \<open>The steps of the service\<close>

text \<open>Each step is one committed transaction, or the part of one that its caller keeps; \<open>A\<close> is the operator's list of hosts.\<close>

inductive media_step :: "(media_result \<Rightarrow> bool) \<Rightarrow> media_state \<Rightarrow> media_state \<Rightarrow> bool" for A where
  submitted: "fresh_id i s \<Longrightarrow> submit_job env i rq s = (r, t) \<Longrightarrow> media_step A s t"
| custom_submitted: "fresh_id i s \<Longrightarrow> submit_custom env i cr s = (r, t) \<Longrightarrow> media_step A s t"
| polled: "A = allowed_result env \<Longrightarrow> session_scope (get_job env now u i) s = (r, t) \<Longrightarrow> media_step A s t"
| called_back: "A = allowed_result env \<Longrightarrow> proxy_media_webhook env now secret jid token route raw s = (w, t) \<Longrightarrow> media_step A s t"
| reconciled: "A = allowed_result env \<Longrightarrow> reconcile_once fc env now held n s = (k, t) \<Longrightarrow> media_step A s t"
| deleted: "session_scope (delete_job u i) s = (d, t) \<Longrightarrow> media_step A s t"

definition row_kept :: "(media_result \<Rightarrow> bool) \<Rightarrow> media_state \<Rightarrow> media_job \<Rightarrow> bool" where
  "row_kept A t j = (case find_job (mj_id j) t of None \<Rightarrow> terminal j | Some j' \<Rightarrow> legal_move A j (j'\<lparr>mj_parent := mj_parent j\<rparr>))"

definition spent_on :: "uuid \<Rightarrow> media_state \<Rightarrow> media_state \<Rightarrow> int" where
  "spent_on u s t = sum_list (map (stake_of u) (filter (\<lambda>j. find_job (mj_id j) t = None) (ms_jobs s)))"

text \<open>What the properties say of a step.\<close>

definition keeps :: "(media_result \<Rightarrow> bool) \<Rightarrow> media_state \<Rightarrow> media_state \<Rightarrow> bool" where
  "keeps A s t \<longleftrightarrow> media_ok t \<and> (\<forall>j \<in> set (ms_jobs s). row_kept A t j)
     \<and> (\<forall>j \<in> set (ms_jobs t). find_job (mj_id j) s = None \<longrightarrow> mj_pending j = None \<and> mj_result j = None)
     \<and> (\<forall>u. credits u t + spent_on u s t = credits u s)"

lemma legal_move_parent: "legal_move A j j' \<Longrightarrow> legal_move A j (j'\<lparr>mj_parent := mj_parent j\<rparr>)"
  unfolding legal_move_def legal_results_def by (auto split: if_splits)

definition moves_all :: "(media_result \<Rightarrow> bool) \<Rightarrow> media_state \<Rightarrow> media_state \<Rightarrow> bool" where
  "moves_all A s t \<longleftrightarrow> media_ok t \<and> list_all2 (legal_move A) (ms_jobs s) (ms_jobs t) \<and> (\<forall>u. credits u t = credits u s)"

lemma moves_moves_all: "moves A i s t \<Longrightarrow> moves_all A s t"
  by (simp add: moves_def moves_all_def)

lemma moves_all_refl: "media_ok s \<Longrightarrow> moves_all A s s"
  by (simp add: moves_all_def list_all2_refl)

lemma moves_all_trans: "moves_all A s t \<Longrightarrow> moves_all A t v \<Longrightarrow> moves_all A s v"
  unfolding moves_all_def using list_all2_trans[of "legal_move A" "legal_move A" "legal_move A"] legal_move_trans by fastforce

lemma list_all2_ex:
  "list_all2 P xs ys \<Longrightarrow> x \<in> set xs \<Longrightarrow> \<exists>y \<in> set ys. P x y"
  "list_all2 P xs ys \<Longrightarrow> y \<in> set ys \<Longrightarrow> \<exists>x \<in> set xs. P x y"
  by (induction rule: list_all2_induct) auto

lemma moves_all_keeps:
  assumes ok: "media_ok s" and moves: "moves_all A s t"
  shows "keeps A s t"
proof -
  have legal: "list_all2 (legal_move A) (ms_jobs s) (ms_jobs t)" and ok': "media_ok t" and credits: "credits u t = credits u s" for u
    using moves by (simp_all add: moves_all_def)
  have dist: "distinct (map mj_id (ms_jobs t))" using ok' by (simp add: media_ok_def)
  have found: "\<exists>j'. find_job (mj_id j) t = Some j' \<and> legal_move A j j'" if mem: "j \<in> set (ms_jobs s)" for j
  proof -
    obtain j' where j': "j' \<in> set (ms_jobs t)" "legal_move A j j'"
      using list_all2_ex(1)[OF legal mem] by blast
    then have "find_job (mj_id j) t = Some j'" unfolding find_job_iff[OF dist] by (simp add: legal_move_def)
    with j' show ?thesis by blast
  qed
  have "row_kept A t j" if "j \<in> set (ms_jobs s)" for j
    using found[OF that] legal_move_parent by (auto simp: row_kept_def)
  moreover have "filter (\<lambda>j. find_job (mj_id j) t = None) (ms_jobs s) = []" using found by (auto simp: filter_empty_conv)
  moreover have "find_job (mj_id j) s \<noteq> None" if mem: "j \<in> set (ms_jobs t)" for j
  proof -
    obtain j0 where "j0 \<in> set (ms_jobs s)" "legal_move A j0 j"
      using list_all2_ex(2)[OF legal mem] by blast
    then show ?thesis unfolding find_job_None by (force simp: legal_move_def)
  qed
  ultimately show ?thesis using ok' credits unfolding keeps_def spent_on_def by (simp del: not_None_eq)
qed

lemma joined_keeps:
  assumes ok: "media_ok s" and fresh: "find_job (mj_id j) s = None" and ok': "media_ok t" and rows: "ms_jobs t = ms_jobs s @ [j]"
    and credits: "\<And>u. credits u t = credits u s" and new: "mj_pending j = None" "mj_result j = None"
  shows "keeps A s t"
proof -
  have dist: "distinct (map mj_id (ms_jobs t))" using ok' by (simp add: media_ok_def)
  have found: "find_job (mj_id x) t = Some x" if "x \<in> set (ms_jobs s)" for x
    using that unfolding find_job_iff[OF dist] rows by simp
  then have "\<forall>x \<in> set (ms_jobs s). row_kept A t x" by (simp add: row_kept_def)
  moreover have "spent_on u s t = 0" for u using found by (simp add: spent_on_def filter_False)
  moreover have "find_job (mj_id x) s \<noteq> None" if "x \<in> set (ms_jobs s)" for x using that by (auto simp: find_job_None)
  ultimately show ?thesis using ok' credits new unfolding keeps_def rows by (auto simp del: not_None_eq)
qed

lemma advance_all_moves:
  assumes "media_ok s" and "A blank_result" and "distinct (map mj_id js)" and "\<forall>j \<in> set js. find_job (mj_id j) s = Some j"
    and "advance_all env now held js s = Some (n, t)"
  shows "moves_all A s t"
  using assms
proof (induction js arbitrary: s n)
  case Nil
  then show ?case by (simp add: moves_all_refl)
next
  case (Cons j js)
  obtain r u where run: "advance_job env now True (mj_id j \<in> held) j s = (r, u)" by (cases "advance_job env now True (mj_id j \<in> held) j s")
  with Cons.prems(5) obtain m where rest: "advance_all env now held js u = Some (m, t)" and no_fault: "\<And>e. r = Inl e \<Longrightarrow> \<not> is_db_fault e"
    by (cases r) (auto split: if_splits)
  have "serves A (mj_id j) s (r, u)"
    unfolding run[symmetric] by (rule advance_job_serves[where A = A, OF Cons.prems(1) _ Cons.prems(2)]) (use Cons.prems(4) in simp)
  then have m: "moves A (mj_id j) s u" using no_fault by (cases r) (auto simp: serves_def)
  have "find_job (mj_id x) u = Some x" if mem: "x \<in> set js" for x
  proof -
    have "mj_id x \<noteq> mj_id j" using Cons.prems(3) mem by (auto simp: image_iff)
    with m have "find_job (mj_id x) u = find_job (mj_id x) s" by (simp add: moves_def)
    with Cons.prems(4) mem show ?thesis by simp
  qed
  then have "\<forall>x \<in> set js. find_job (mj_id x) u = Some x" by blast
  from Cons.IH[OF moves_ok[OF m] Cons.prems(2) _ this rest] Cons.prems(3) show ?case
    using moves_all_trans[OF moves_moves_all[OF m]] by simp
qed

lemma reconcile_once_keeps:
  assumes ok: "media_ok s" and run: "reconcile_once fc env now held n s = (k, t)" and blank: "A blank_result"
  shows "moves_all A s t"
proof -
  let ?js = "reconcile_batch fc env now n s"
  have dist: "distinct (map mj_id (ms_jobs s))" using ok by (simp add: media_ok_def)
  have sub: "set ?js \<subseteq> set (ms_jobs s)"
    using set_take_subset by (fastforce simp: reconcile_batch_def list_non_terminal_def oldest_first_def)
  have "distinct ?js"
    using dist[unfolded distinct_map] by (simp add: reconcile_batch_def list_non_terminal_def oldest_first_def)
  then have ids: "distinct (map mj_id ?js)"
    using dist sub by (auto simp: distinct_map intro: inj_on_subset)
  have "\<forall>j \<in> set ?js. find_job (mj_id j) s = Some j" using sub find_job_iff[OF dist] by blast
  with advance_all_moves[where A = A, OF ok blank ids] run moves_all_refl[OF ok, of A] show ?thesis
    by (auto simp: reconcile_once_def split: option.splits)
qed

lemma scoped_serves:
  assumes "media_ok s" and "session_scope f s = (r, t)" and "serves A i s (f s)"
  shows "moves_all A s t"
proof (cases "fst (f s)")
  case (Inl e)
  then show ?thesis using assms(1,2) by (simp add: session_scope_def moves_all_refl)
next
  case (Inr v)
  then show ?thesis using assms(2,3) by (auto simp: session_scope_def serves_def intro: moves_moves_all)
qed

lemma get_job_row_eq: "get_job_row i u s = Some j \<Longrightarrow> media_ok s \<Longrightarrow> find_job i s = Some j \<and> mj_user j = u"
  unfolding get_job_row_def media_ok_def by (drule find_SomeD) (auto simp: find_job_iff)

lemma get_job_serves:
  assumes ok: "media_ok s" and blank: "A blank_result"
  shows "\<exists>k. serves A k s (get_job env now u i s)"
proof (cases "get_job_row i u s")
  case None
  then show ?thesis using serves_same[OF ok] by (auto simp: get_job_def)
next
  case (Some j)
  have job: "find_job (mj_id j) s = Some j" using get_job_row_eq[OF Some ok] media_ok_job[OF ok] by auto
  have "serves A (mj_id j) s (advance_job env now False False j s)"
  proof (cases "terminal j")
    case True
    then show ?thesis using serves_same[OF ok] by (simp add: advance_job_def)
  next
    case False
    then have "open_at s j" using ok job by (simp add: open_at_def)
    then show ?thesis using advance_job_attends[of s j A] blank by (simp add: attends_def)
  qed
  then show ?thesis by (auto simp: get_job_def Some)
qed

lemma webhook_moves:
  assumes ok: "media_ok s" and A: "A = allowed_result env"
    and run: "proxy_media_webhook env now secret jid token route raw s = (w, t)"
  shows "moves_all A s t"
proof -
  have "\<exists>k. serves A k s (handle_proxy_webhook env now i body route' s)" for i body route'
  proof (cases "find_job i s")
    case None
    then show ?thesis using serves_same[OF ok] by (auto simp: handle_proxy_webhook_def)
  next
    case (Some j)
    have job: "find_job (mj_id j) s = Some j" using Some media_ok_job[OF ok Some] by simp
    show ?thesis
    proof (cases "mj_provider j = []")
      case True
      then show ?thesis using serves_same[OF ok] by (auto simp: handle_proxy_webhook_def Some)
    next
      case False
      have "serves A (mj_id j) s (handle_proxy_webhook env now i body route' s)"
        using apply_callback_serves[OF ok job A] False by (simp add: handle_proxy_webhook_def Some)
      then show ?thesis ..
    qed
  qed
  then have "moves_all A s t'" if "session_scope (handle_proxy_webhook env now i body route') s = (r, t')" for i body route' r t'
    using scoped_serves[OF ok that] by blast
  then show ?thesis
    using run moves_all_refl[OF ok] unfolding proxy_media_webhook_def by (auto split: option.splits json.splits if_splits)
qed


section \<open>Deletion\<close>

definition orphaned :: "uuid \<Rightarrow> media_job \<Rightarrow> media_job" where
  "orphaned i x = (if mj_parent x = Some i then x\<lparr>mj_parent := None\<rparr> else x)"

lemma orphaned_simps [simp]:
  "mj_id (orphaned i x) = mj_id x" "mj_user (orphaned i x) = mj_user x" "mj_charged (orphaned i x) = mj_charged x"
  "mj_status (orphaned i x) = mj_status x" "job_ok d (orphaned i x) = job_ok d x" "stake_of u (orphaned i x) = stake_of u x"
  "(orphaned i x)\<lparr>mj_parent := mj_parent x\<rparr> = x"
  by (cases "mj_parent x = Some i"; simp add: orphaned_def job_ok_def terminal_def stake_of_def cong: option.case_cong)+

lemma find_orphaned: "find (\<lambda>x. mj_id x = k) (map (orphaned i) xs) = map_option (orphaned i) (find (\<lambda>x. mj_id x = k) xs)"
  by (induction xs) simp_all

lemma find_filter_other: "find (\<lambda>x. g x = k) (filter (\<lambda>x. g x \<noteq> i) xs) = (if k = i then None else find (\<lambda>x. g x = k) xs)"
  by (induction xs) auto

lemma sum_list_unique:
  fixes h :: "'a \<Rightarrow> int"
  assumes "distinct (map g xs)"
  shows "sum_list (map h (filter (\<lambda>x. g x \<noteq> i) xs)) + sum_list (map h (filter (\<lambda>x. g x = i) xs)) = sum_list (map h xs)"
  by (induction xs) auto

lemma delete_keeps:
  assumes ok: "media_ok s" and run: "session_scope (delete_job u i) s = (d, t)"
  shows "keeps A s t"
proof (cases d)
  case (Inl e)
  then have "t = s" using run by (auto simp: session_scope_eq split: prod.splits sum.splits)
  then show ?thesis using moves_all_keeps[OF ok moves_all_refl[OF ok]] by simp
next
  case (Inr v)
  from session_scope_InrD[OF run[unfolded Inr]] obtain job where job: "get_job_row i u s = Some job" and over: "terminal job"
    and row: "delete_job_row job s = (Inr (), t)"
    by (auto simp: delete_job_def split: option.splits if_splits)
  have t: "t = s\<lparr>ms_jobs := map (orphaned i) (filter (\<lambda>x. mj_id x \<noteq> i) (ms_jobs s))\<rparr>"
    using row get_job_row_eq[OF job ok] media_ok_job[OF ok] by (auto simp: delete_job_row_def orphaned_def[abs_def] split: if_splits)
  have dist: "distinct (map mj_id (ms_jobs s))" using ok by (simp add: media_ok_def)
  have found: "find_job k t = (if k = i then None else map_option (orphaned i) (find_job k s))" for k
    by (simp add: find_job_def t find_orphaned find_filter_other)
  have self: "find_job (mj_id x) s = Some x" if "x \<in> set (ms_jobs s)" for x using that find_job_iff[OF dist] by blast
  have "media_ok t"
    using ok by (simp add: media_ok_def t comp_def distinct_map inj_on_def)
  moreover have "row_kept A t x" if "x \<in> set (ms_jobs s)" for x
  proof (cases "mj_id x = i")
    case True
    then have "x = job" using self[OF that] get_job_row_eq[OF job ok] by simp
    then show ?thesis using over True by (simp add: row_kept_def found)
  next
    case False
    then show ?thesis using self[OF that] by (simp add: row_kept_def found)
  qed
  moreover have "find_job (mj_id x) s \<noteq> None" if "x \<in> set (ms_jobs t)" for x
    using that by (auto simp: t find_job_None)
  moreover have "credits v t + spent_on v s t = credits v s" for v
  proof -
    have "filter (\<lambda>x. find_job (mj_id x) t = None) (ms_jobs s) = filter (\<lambda>x. mj_id x = i) (ms_jobs s)"
      by (rule filter_cong) (auto simp: found self)
    then show ?thesis
      using sum_list_unique[OF dist, of "stake_of v" i] by (simp add: credits_def stake_def spent_on_def t comp_def)
  qed
  ultimately show ?thesis unfolding keeps_def by (simp del: not_None_eq)
qed

section \<open>The steps keep the accounts\<close>

lemma submitted_keeps:
  assumes ok: "media_ok s" and fresh: "fresh_id i s" and run: "submit_job env i rq s = (r, t)"
  shows "keeps A s t"
proof (cases rule: submit_job_cases[OF ok fresh, of env rq])
  case (1 e)
  then show ?thesis using run moves_all_keeps[OF ok moves_all_refl[OF ok]] by simp
next
  case (2 p v t')
  have "find_job (mj_id (vw_job v)) s = None" using fresh 2(14) by (simp add: fresh_id_def)
  from joined_keeps[OF ok this 2(4,5,6) 2(12,13)] show ?thesis using run 2(1) by simp
qed

lemma custom_submitted_keeps:
  assumes ok: "media_ok s" and fresh: "fresh_id i s" and run: "submit_custom env i rq s = (r, t)"
  shows "keeps A s t"
proof (cases rule: submit_custom_cases[OF ok fresh, of env rq])
  case (1 e)
  then show ?thesis using run moves_all_keeps[OF ok moves_all_refl[OF ok]] by simp
next
  case (2 j v t')
  have "find_job (mj_id j) s = None" using fresh 2(7) by (simp add: fresh_id_def)
  from joined_keeps[OF ok this 2(2,3,4) 2(5,6)] show ?thesis using run 2(1) by simp
qed

lemma media_step_keeps: "media_step A s t \<Longrightarrow> media_ok s \<Longrightarrow> keeps A s t"
proof (induction rule: media_step.induct)
  case (polled env now u i s r t)
  then obtain k where "serves A k s (get_job env now u i s)" using get_job_serves[where A = A] blank_allowed by metis
  then show ?case using moves_all_keeps scoped_serves polled by metis
next
  case (called_back env now secret jid token route raw s w t)
  then show ?case using webhook_moves[of s A] moves_all_keeps by blast
next
  case (reconciled env fc now held n s k t)
  then show ?case using reconcile_once_keeps[where A = A] moves_all_keeps blank_allowed by metis
qed (auto intro: submitted_keeps custom_submitted_keeps delete_keeps)


text \<open>What the steps make of the results of one job.\<close>

definition results_in :: "(media_result \<Rightarrow> bool) \<Rightarrow> media_state \<Rightarrow> bool" where
  "results_in A s \<longleftrightarrow> (\<forall>j \<in> set (ms_jobs s). mj_provider j = [] \<or> (\<forall>r. mj_pending j \<noteq> Some r \<and> mj_result j \<noteq> Some r \<or> A r))"

lemma keeps_results:
  assumes ok: "media_ok s" and keeps: "keeps A s t" and old: "results_in A s"
  shows "results_in A t"
  unfolding results_in_def
proof
  fix j' assume mem: "j' \<in> set (ms_jobs t)"
  have dist: "distinct (map mj_id (ms_jobs t))" using keeps by (simp add: keeps_def media_ok_def)
  have self: "find_job (mj_id j') t = Some j'" using mem find_job_iff[OF dist] by blast
  show "mj_provider j' = [] \<or> (\<forall>r. mj_pending j' \<noteq> Some r \<and> mj_result j' \<noteq> Some r \<or> A r)"
  proof (cases "find_job (mj_id j') s")
    case None
    then show ?thesis using keeps mem by (simp add: keeps_def)
  next
    case (Some j)
    then have j: "j \<in> set (ms_jobs s)" "mj_id j = mj_id j'" by (auto dest: find_job_SomeD)
    then have "row_kept A t j" using keeps by (simp add: keeps_def)
    then have "legal_results A j j'" using self j(2) by (simp add: row_kept_def legal_move_def legal_results_def)
    moreover have "mj_provider j = [] \<or> (\<forall>r. mj_pending j \<noteq> Some r \<and> mj_result j \<noteq> Some r \<or> A r)"
      using old j(1) by (simp add: results_in_def)
    ultimately show ?thesis unfolding legal_results_def by metis
  qed
qed

lemma media_steps_keep:
  "(media_step A)\<^sup>*\<^sup>* s t \<Longrightarrow> media_ok s \<Longrightarrow> results_in A s \<Longrightarrow> media_ok t \<and> results_in A t"
proof (induction rule: rtranclp_induct)
  case (step t v)
  then have "keeps A t v" using media_step_keeps by blast
  then show ?case using step keeps_results by (auto simp: keeps_def)
qed simp

section \<open>The deadline\<close>

lemma sum_list_member:
  fixes h :: "'a \<Rightarrow> int"
  shows "x \<in> set xs \<Longrightarrow> \<forall>y \<in> set xs. 0 \<le> h y \<Longrightarrow> h x \<le> sum_list (map h xs)"
proof (induction xs)
  case (Cons y xs)
  have "0 \<le> sum_list (map h xs)" using Cons.prems(2) by (intro sum_list_nonneg) auto
  then show ?case using Cons by (cases "x = y") auto
qed simp

lemma room_in_credits:
  assumes at: "open_at s j" and room: "bigint_ok (credits (mj_user j) s)"
  shows "\<not> no_room s j"
proof -
  from at have ok: "media_ok s" and job: "find_job (mj_id j) s = Some j" and live: "\<not> terminal j" by (simp_all add: open_at_def)
  have jok: "job_ok (ms_db s) j" using media_ok_job[OF ok job] by simp
  have "\<forall>y \<in> set (ms_jobs s). 0 \<le> stake_of (mj_user j) y" using ok by (auto simp: media_ok_def job_ok_def stake_of_def)
  then have "stake_of (mj_user j) j \<le> stake (mj_user j) s"
    unfolding stake_def using find_job_SomeD[OF job] by (intro sum_list_member) auto
  moreover have "stake_of (mj_user j) j = mj_charged j" using live by (simp add: stake_of_def terminal_iff)
  moreover have "0 \<le> mj_charged j" using jok by (simp add: job_ok_def)
  moreover have "0 \<le> current_balance (mj_user j) (ms_db s)"
    using ok wallet_ok_nonneg by (simp add: media_ok_def)
  ultimately show ?thesis using room by (simp add: no_room_def bigint_ok_def credits_def)
qed

end
