(* ===== verification/Media_Overlap.thy ===== *)
theory Media_Overlap
  imports Media_Accounts
begin

text \<open>
  Two polls of one job of the direct fal client. The session of each poll loads the row, asks fal and writes
  the columns it changed; the row is not locked and not read again. The second poll may so settle a job the first one
  has settled already.
\<close>

section \<open>Two polls of one job\<close>

lemma and_then_InrD: "and_then m k = (Inr w, u) \<Longrightarrow> \<exists>v t. m = (Inr v, t) \<and> k v t = (Inr w, u)"
  by (elim and_then_InrE) blast

text \<open>What a poll of a direct job that reports \<open>failed\<close> or \<open>completed\<close> has run.\<close>

definition ran_failure :: "media_job \<Rightarrow> media_state \<Rightarrow> (exn, MediaJobView, media_state) outcome \<Rightarrow> bool" where
  "ran_failure j s out \<longleftrightarrow> (\<exists>now e m r. out = settle_failed now e m r j s \<and> (r = None \<or> r = Some blank_result))"

definition ran_finish :: "media_job \<Rightarrow> media_state \<Rightarrow> (exn, MediaJobView, media_state) outcome \<Rightarrow> bool" where
  "ran_finish j s out \<longleftrightarrow> (\<exists>env now r assets m. out = finish_run env now r assets m j s)"

definition ran_running :: "(exn, MediaJobView, media_state) outcome \<Rightarrow> bool" where
  "ran_running out \<longleftrightarrow> (\<forall>v. fst out \<noteq> Inr v \<or> mj_status (vw_job v) = ''running'')"

abbreviation "poll_ran j s out \<equiv> ran_failure j s out \<or> ran_finish j s out \<or> ran_running out"

lemma ran_fail: "poll_ran j s (fail_run now e j s)"
  unfolding ran_failure_def using failures_settle(1)[of now e j s] by metis

lemma ran_block: "poll_ran j s (block_run now v j s)"
  unfolding ran_failure_def blank_result_def failures_settle(2) by blast

lemma ran_end: "poll_ran j s (finish_run env now r assets v j s)"
  unfolding ran_finish_def by blast

lemma ran_raise: "poll_ran j s (Inl e, t)"
  by (simp add: ran_running_def)

lemma and_then_view: "and_then (and_then out (\<lambda>v s. (Inr (Some v), s))) (\<lambda>c s. case c of Some v \<Rightarrow> (Inr v, s) | None \<Rightarrow> k s) = out"
  by (cases out; cases "fst out") auto

lemma ran_close_or_raise: "poll_ran j s (close_or_raise env now e j s)"
proof (cases "overdue env now j")
  case True
  then have "close_or_raise env now e j s = fail_run now ''generation did not complete in time'' j s"
    by (simp add: close_or_raise_def close_if_overdue_def overdue_def and_then_view)
  then show ?thesis using ran_fail by simp
next
  case False
  then show ?thesis using ran_raise by (simp add: close_or_raise_def close_young)
qed

lemma ran_close_or_running: "poll_ran j s (close_or_running env now j s)"
proof (cases "overdue env now j")
  case True
  then have "close_or_running env now j s = fail_run now ''generation did not complete in time'' j s"
    by (simp add: close_or_running_def close_if_overdue_def overdue_def and_then_view)
  then show ?thesis using ran_fail by simp
next
  case False
  then show ?thesis
    by (auto simp: close_or_running_def close_young mark_running_def flush_job_def ran_running_def)
qed


lemma poll_ran_complete: "poll_ran j s (complete_or_close env now r assets j s)"
proof (cases rule: complete_run_forms[of env now r assets j s])
  case (faulted e)
  then show ?thesis using ran_close_or_raise by (simp add: complete_or_close_def)
next
  case (settles out)
  then have "complete_or_close env now r assets j s = out"
    by (cases out; cases "fst out") (simp_all add: complete_or_close_def settled_def)
  then show ?thesis using settles(2) ran_fail ran_block ran_end unfolding run_end_def by metis
qed

lemma advance_direct_ran: "poll_ran j s (advance_direct env now j s)"
  unfolding advance_direct_def apply_fal_result_def Let_def
  using ran_fail[of j s] ran_close_or_raise[of j s] ran_close_or_running[of j s] poll_ran_complete[of j s]
  by (auto simp only: split: option.split sum.split if_splits)

end
