(* ===== verification/Media_Contract.thy ===== *)
theory Media_Contract
  imports Media_Overlap
begin

text \<open>
  The contract of the generation jobs: what a submission charges, what every step keeps, that an overdue job ends, which
  results a proxy job can get, and what two overlapping polls of a direct job can do. The witnesses follow one job
  from its submission.
\<close>

section \<open>A funded user and one paid job\<close>

lemma funded_wallet: "wallet_ok (ms_db funded_state)"
  by (auto simp: funded_state_def wallet_ok_def small_db_def empty_db_def bigint_ok_def net_def signed_amount_def)

lemma funded_ok: "media_ok funded_state"
  using funded_wallet by (simp add: media_ok_def funded_state_def)

lemma fresh_demo: "fresh_id 5 funded_state"
  by (simp add: fresh_id_def funded_state_def find_job_def existing_tx_def find_tx_def media_debit_key_def media_refund_key_def)

definition paid_job :: media_job where
  "paid_job = new_job 5 0 1 ''veo-3.1'' KIND_VIDEO (fv_endpoint (fm_text_variant veo_31)) ''sea'' 128 [] unchecked_verdict
     \<lparr>sh_provider = [], sh_request = ''r1'', sh_status_url = ''status'', sh_response_url = ''response'', sh_routes = None\<rparr>"

lemma paid_run: "\<exists>d. submit_job direct_env 5 veo_request funded_state = (Inr \<lparr>vw_job = paid_job, vw_assets = []\<rparr>, \<lparr>ms_db = d, ms_jobs = [paid_job]\<rparr>)
  \<and> current_balance 1 d = 72"
proof -
  let ?f = "wallet_consume 1 128 (media_debit_key 5) (media_meta ''veo-3.1'' KIND_VIDEO) None"
  have price: "price_of direct_env veo_31 (rp_values veo_plan) = 128" by code_simp
  have "existing_tx 1 (media_debit_key 5) (ms_db funded_state) = None" using fresh_demo by (simp add: fresh_id_def)
  moreover have "users (ms_db funded_state) 1 = Some False" "current_balance 1 (ms_db funded_state) = 200"
    by (simp_all add: funded_state_def small_db_def empty_db_def current_balance_def)
  ultimately obtain r d where "session_scope ?f (ms_db funded_state) = (Inr r, d)" and d: "current_balance 1 d = 72" "users d = users (ms_db funded_state)"
    by (auto simp: consume_committed[OF funded_wallet] session_fault_def bigint_ok_def Let_def)
  from session_scope_InrD[OF this(1)] have run: "?f (ms_db funded_state) = (Inr r, d)" .
  have parts: "rp_model veo_plan = veo_31" "sq_user veo_request = 1" "fm_id veo_31 = ''veo-3.1''" "fm_kind veo_31 = KIND_VIDEO"
    "rp_variant veo_plan = fm_text_variant veo_31" "sq_prompt veo_request = ''sea''" "rp_images veo_plan = []" "rp_verdict veo_plan = unchecked_verdict"
    by (simp_all add: veo_plan_def veo_request_def veo_31_def)
  have "sql_now (ms_db funded_state) = 0" "ms_jobs funded_state = []" "users d 1 = Some False" "sq_source veo_request = None"
    "find_job 5 (funded_state\<lparr>ms_db := d\<rparr>) = None" "funded_state\<lparr>ms_db := d, ms_jobs := [paid_job]\<rparr> = \<lparr>ms_db = d, ms_jobs = [paid_job]\<rparr>"
    "''queued'' \<in> set JOB_STATUSES" "[] \<in> set ASSET_STORE_STATUSES"
    using d(2) by (simp_all add: funded_state_def small_db_def empty_db_def find_job_def veo_request_def JOB_STATUSES_def ASSET_STORE_STATUSES_def)
  then have "submit_job direct_env 5 veo_request funded_state = (Inr \<lparr>vw_job = paid_job, vw_assets = []\<rparr>, \<lparr>ms_db = d, ms_jobs = [paid_job]\<rparr>)"
    unfolding submit_job_def veo_plan sum.case Let_def parts price debit_and_create_def session_scope_eq
    by (simp add: on_db_def run proxy_enabled_def direct_env_def submit_direct_def create_job_def new_job_def paid_job_def)
  with d(1) show ?thesis by blast
qed

lemma paid_values: "mj_charged paid_job = 128" "mj_provider paid_job = []" "mj_created paid_job = 0" "mj_result paid_job = None" "mj_user paid_job = 1" "mj_id paid_job = 5"
  "\<not> terminal paid_job" "mj_kind paid_job = KIND_VIDEO" "\<not> mj_refunded paid_job" "mj_pending paid_job = None" "mj_status paid_job = ''queued''"
  "mj_visible paid_job" "mj_push_sent paid_job = None"
  by (simp_all add: paid_job_def new_job_def terminal_iff)

lemma funded_credits: "credits 1 funded_state = 200"
  by (simp add: credits_def stake_def funded_state_def small_db_def empty_db_def current_balance_def)

lemma paid_stored:
  obtains d where "submit_job direct_env 5 veo_request funded_state = (Inr \<lparr>vw_job = paid_job, vw_assets = []\<rparr>, \<lparr>ms_db = d, ms_jobs = [paid_job]\<rparr>)"
    and "current_balance 1 d = 72" and "media_ok \<lparr>ms_db = d, ms_jobs = [paid_job]\<rparr>" and "open_at \<lparr>ms_db = d, ms_jobs = [paid_job]\<rparr> paid_job"
proof -
  obtain d where d: "submit_job direct_env 5 veo_request funded_state = (Inr \<lparr>vw_job = paid_job, vw_assets = []\<rparr>, \<lparr>ms_db = d, ms_jobs = [paid_job]\<rparr>)"
    "current_balance 1 d = 72" using paid_run by blast
  have ok: "media_ok \<lparr>ms_db = d, ms_jobs = [paid_job]\<rparr>"
    using d(1) by (cases rule: submit_job_cases[OF funded_ok fresh_demo, of direct_env veo_request]) auto
  then have "open_at \<lparr>ms_db = d, ms_jobs = [paid_job]\<rparr> paid_job"
    by (simp add: open_at_def find_job_def paid_job_def new_job_def terminal_iff)
  with d ok show thesis by (rule that)
qed

section \<open>Submission\<close>

text \<open>
  C4. A submission charges once, and only for a run a provider accepted. A refused request leaves database and table as
  they were. An accepted one adds exactly one row, whose request id the transport returned for the route it was
  sent on; the balance falls by the price of the run, which is positive and was covered, and no other user's credits move.
\<close>

theorem submission_charges_once:
  assumes "media_ok s" and "fresh_id i s"
  shows "case submit_job env i rq s of
      (Inl e, t) \<Rightarrow> t = s
    | (Inr v, t) \<Rightarrow> \<exists>p. plan_run env rq s = Inr p \<and> accepted_by env p (vw_job v) \<and> media_ok t
        \<and> ms_jobs t = ms_jobs s @ [vw_job v] \<and> mj_charged (vw_job v) = price_of env (rp_model p) (rp_values p)
        \<and> 0 < mj_charged (vw_job v) \<and> mj_charged (vw_job v) \<le> current_balance (sq_user rq) (ms_db s)
        \<and> current_balance (sq_user rq) (ms_db t) = current_balance (sq_user rq) (ms_db s) - mj_charged (vw_job v)
        \<and> (\<forall>u. credits u t = credits u s)"
proof (cases rule: submit_job_cases[OF assms, of env rq])
  case (1 e)
  then show ?thesis by simp
next
  case (2 p v t)
  then show ?thesis by auto
qed

theorem submission_charges_once_witness:
  "\<exists>v t. submit_job direct_env 5 veo_request funded_state = (Inr v, t) \<and> mj_charged (vw_job v) = 128 \<and> length (ms_jobs t) = 1
     \<and> current_balance 1 (ms_db t) = 72 \<and> credits 1 t = 200"
proof -
  obtain d where d: "submit_job direct_env 5 veo_request funded_state = (Inr \<lparr>vw_job = paid_job, vw_assets = []\<rparr>, \<lparr>ms_db = d, ms_jobs = [paid_job]\<rparr>)"
    "current_balance 1 d = 72" using paid_run by blast
  from submission_charges_once[OF funded_ok fresh_demo, of direct_env veo_request] have "\<forall>u. credits u \<lparr>ms_db = d, ms_jobs = [paid_job]\<rparr> = credits u funded_state"
    unfolding d(1) by (simp only: prod.case sum.case) blast
  then show ?thesis using funded_credits by (simp add: d paid_values)
qed

section \<open>The accounts\<close>

text \<open>
  C5. The runs never make or lose credits. Whatever step the service takes (a submission, a poll, a callback
  of the proxy, a batch of the reconciler, a deletion; with any answers of the providers, the moderation and the
  handlers), the rows still agree with the ledger: one debit of the price, one refund exactly when the run failed. What
  a user has and what the runs of that user hold stay the same sum, up to delivered runs the user deletes.
\<close>

theorem runs_conserve_credits:
  assumes "media_step A s t" and "media_ok s"
  shows "media_ok t \<and> (\<forall>u. credits u t + spent_on u s t = credits u s)"
  using media_step_keeps[OF assms] by (simp add: keeps_def)

theorem runs_conserve_credits_witness:
  "\<exists>t. media_step (\<lambda>_. True) funded_state t \<and> current_balance 1 (ms_db t) = 72 \<and> credits 1 t + spent_on 1 funded_state t = 200"
proof -
  obtain d where d: "submit_job direct_env 5 veo_request funded_state = (Inr \<lparr>vw_job = paid_job, vw_assets = []\<rparr>, \<lparr>ms_db = d, ms_jobs = [paid_job]\<rparr>)"
    "current_balance 1 d = 72" using paid_run by blast
  have step: "media_step (\<lambda>_. True) funded_state \<lparr>ms_db = d, ms_jobs = [paid_job]\<rparr>" by (rule submitted[OF fresh_demo d(1)])
  with funded_credits runs_conserve_credits[OF step funded_ok] step d(2) show ?thesis by force
qed

text \<open>
  A settled run stays settled. In every step, a row keeps its owner and its price; a completed or failed one keeps
  its status, its result and its refund, and only such a row can be deleted. A refund is recorded exactly for a failed paid run.
\<close>

theorem settled_runs_final:
  assumes "media_step A s t" and "media_ok s" and "find_job i s = Some j"
  shows "case find_job i t of
      None \<Rightarrow> terminal j
    | Some j' \<Rightarrow> mj_user j' = mj_user j \<and> mj_charged j' = mj_charged j \<and> mj_refunded j' = (mj_status j' = ''failed'' \<and> 0 < mj_charged j)
        \<and> (if terminal j then j'\<lparr>mj_parent := mj_parent j\<rparr> = j else mj_status j' \<in> {mj_status j, ''running'', ''completed'', ''failed''})"
proof -
  have keeps: "keeps A s t" by (rule media_step_keeps[OF assms(1,2)])
  have j: "j \<in> set (ms_jobs s)" "mj_id j = i" using find_job_SomeD[OF assms(3)] by simp_all
  with keeps have row: "row_kept A t j" by (simp add: keeps_def)
  show ?thesis
  proof (cases "find_job i t")
    case None
    then show ?thesis using row j by (simp add: row_kept_def)
  next
    case (Some j')
    have "job_ok (ms_db t) j'" using keeps media_ok_job[OF _ Some] by (simp add: keeps_def)
    then show ?thesis using row j Some by (simp add: row_kept_def legal_move_def job_ok_def split: if_splits)
  qed
qed

theorem settled_runs_final_witness:
  "\<exists>d. media_step (\<lambda>_. True) funded_state \<lparr>ms_db = d, ms_jobs = [paid_job]\<rparr>
     \<and> (\<exists>j. find_job 5 (snd (session_scope (delete_job 1 5) \<lparr>ms_db = d, ms_jobs = [paid_job]\<rparr>)) = Some j \<and> mj_charged j = 128 \<and> \<not> mj_refunded j)"
proof -
  obtain d where d: "submit_job direct_env 5 veo_request funded_state = (Inr \<lparr>vw_job = paid_job, vw_assets = []\<rparr>, \<lparr>ms_db = d, ms_jobs = [paid_job]\<rparr>)"
    "media_ok \<lparr>ms_db = d, ms_jobs = [paid_job]\<rparr>"
    by (rule paid_stored)
  let ?s = "\<lparr>ms_db = d, ms_jobs = [paid_job]\<rparr>" and ?t = "snd (session_scope (delete_job 1 5) \<lparr>ms_db = d, ms_jobs = [paid_job]\<rparr>)"
  have step: "media_step (\<lambda>_. True) ?s ?t" by (rule deleted[OF surjective_pairing])
  have row: "find_job 5 ?s = Some paid_job" by (simp add: find_job_def paid_values)
  have "find_job 5 ?t \<noteq> None"
    using settled_runs_final[OF step d(2) row] paid_values(7) by (cases "find_job 5 ?t") (simp_all only: option.case not_False_eq_True option.distinct)
  then obtain j where j: "find_job 5 ?t = Some j" by blast
  with settled_runs_final[OF step d(2) row] have "mj_charged j = 128" "mj_refunded j = (mj_status j = ''failed'')"
    by (simp_all add: paid_values)
  have "?t = ?s" by (simp add: session_scope_eq delete_job_def get_job_row_def paid_values)
  then have "\<not> mj_refunded j" using j row paid_values(9) by simp
  with j \<open>mj_charged j = 128\<close> submitted[OF fresh_demo d(1)] show ?thesis by blast
qed

section \<open>Results\<close>

text \<open>
  C20. No address outside the operator's list is stored for a proxy job. After any sequence of steps from a state
  without such results, every asset that waits for its completion or is delivered has a host on the list, whatever the
  proxy's callbacks hold.
\<close>

theorem stored_results_allowed:
  assumes "(media_step (allowed_result env))\<^sup>*\<^sup>* s t" and "media_ok s" and "results_in (allowed_result env) s"
    and "j \<in> set (ms_jobs t)" and "mj_provider j \<noteq> []" and "mj_pending j = Some r \<or> mj_result j = Some r" and "a \<in> set (mr_assets r)"
  shows "fal_asset_host_allowed (mv_urlsplit env) (md_suffixes (mv_settings env)) (ma_url a) = Inr True"
proof -
  have "results_in (allowed_result env) t" using media_steps_keep[OF assms(1-3)] by blast
  then have "allowed_result env r" using assms(4-6) unfolding results_in_def by metis
  then show ?thesis using assms(7) by (simp add: allowed_result_def)
qed

text \<open>A callback with the result of a video job, its host on the list.\<close>

definition proxy_env :: media_env where
  "proxy_env = direct_env\<lparr>mv_urlsplit := \<lambda>url. Some (''https'', Some (if url = ''https://v3.fal.media/a.mp4'' then ''v3.fal.media'' else ''evil.example''))\<rparr>"

definition proxy_job :: media_job where
  "proxy_job = paid_job\<lparr>mj_provider := ''fal''\<rparr>"

definition good_result :: media_result where
  "good_result = \<lparr>mr_assets = [\<lparr>ma_url = ''https://v3.fal.media/a.mp4'', ma_content_type = None, ma_file_name = None\<rparr>],
     mr_description = None, mr_seed = None\<rparr>"

definition good_body :: json_obj where
  "good_body = [(''status'', JStr ''completed''), (''resultUrls'', JArr [JStr ''https://v3.fal.media/a.mp4'', JStr ''https://evil.example/b.mp4''])]"

lemma good_callback:
  "callback_result (\<lambda>_. None) (mv_urlsplit proxy_env) [''.fal.media''] good_body KIND_VIDEO = Inr (good_result, [''evil.example''])"
  "webhook_outcome (\<lambda>_. None) good_body = Callback_completed"
  "parse_vendor_price (\<lambda>_. None) good_body = None"
  by code_simp+

lemma good_projection: "assets_from_result (Some good_result) = mr_assets good_result" "mr_assets good_result \<noteq> []"
  by (simp_all add: assets_from_result_def good_result_def)

lemma proxy_values: "mj_provider proxy_job = ''fal''" "mj_id proxy_job = 5" "\<not> terminal proxy_job" "mj_pending proxy_job = None"
  "mj_kind proxy_job = KIND_VIDEO" "mj_result proxy_job = None"
  using paid_values by (simp_all add: proxy_job_def terminal_def)

text \<open>The callback completes the job; its step ends in some state with the result on the row.\<close>

lemma proxy_called_back:
  assumes "media_ok \<lparr>ms_db = d, ms_jobs = [proxy_job]\<rparr>"
  shows "\<exists>w t j. proxy_media_webhook proxy_env 10 ''s'' (uuid_str 5) (Some ''t'') None (Some (JObj good_body)) \<lparr>ms_db = d, ms_jobs = [proxy_job]\<rparr> = (w, t)
    \<and> j \<in> set (ms_jobs t) \<and> mj_provider j = ''fal'' \<and> mj_result j = Some good_result"
proof -
  let ?s = "\<lparr>ms_db = d, ms_jobs = [proxy_job]\<rparr>" and ?p = "stored_pending 10 good_result proxy_job"
  let ?u = "update_job 5 (\<lambda>_. ?p) ?s"
  have row: "find_job (mj_id proxy_job) ?s = Some proxy_job" by (simp add: find_job_def proxy_values)
  have flush: "flush_job proxy_job ?p ?s = (Inr ?p, ?u)"
    using flush_stored[OF assms row merge_row_same(1), of 10 good_result] by (simp add: proxy_values)
  have env: "mv_loads proxy_env = (\<lambda>_. None)" "md_suffixes (mv_settings proxy_env) = [''.fal.media'']" "mv_dec proxy_env = (\<lambda>_. None)"
    "mv_complete proxy_env = None" "mv_check proxy_env = None" "mv_sign proxy_env 5 = ''t''" "md_retention (mv_settings proxy_env) = None" "mv_push proxy_env"
    by (simp_all add: proxy_env_def direct_env_def)
  obtain w t where go: "complete_in_savepoint proxy_env 10 good_result ?p ?u = (Inr w, t)" "\<exists>j. ms_jobs t = [j] \<and> mj_provider j = ''fal'' \<and> mj_result j = Some good_result"
    using good_projection
    by (auto simp: complete_in_savepoint_def complete_run_def Let_def moderate_output_def env settled_def finish_run_def flush_job_def find_job_def
        update_job_def merge_row_def completed_job_def stored_pending_def proxy_values claim_media_push_def terminal_def)
  have "apply_callback proxy_env 10 good_body None proxy_job ?s = (Inr w, t)"
    by (simp add: apply_callback_def proxy_values good_callback env apply_outcome_def good_projection flush go)
  then have "proxy_media_webhook proxy_env 10 ''s'' (uuid_str 5) (Some ''t'') None (Some (JObj good_body)) ?s = (Inr w, t)"
    using row by (simp add: proxy_media_webhook_def uuid_parse_str verify_webhook_token_def env handle_proxy_webhook_def proxy_values session_scope_eq)
  with go(2) show ?thesis by (metis list.set_intros(1))
qed

theorem stored_results_allowed_witness:
  "\<exists>d t j. (media_step (allowed_result proxy_env))\<^sup>*\<^sup>* \<lparr>ms_db = d, ms_jobs = [proxy_job]\<rparr> t \<and> j \<in> set (ms_jobs t) \<and> mj_result j = Some good_result
     \<and> fal_asset_host_allowed (mv_urlsplit proxy_env) [''.fal.media''] ''https://v3.fal.media/a.mp4'' = Inr True"
proof -
  obtain d where ok: "media_ok \<lparr>ms_db = d, ms_jobs = [paid_job]\<rparr>" by (rule paid_stored)
  let ?s = "\<lparr>ms_db = d, ms_jobs = [proxy_job]\<rparr>"
  have "job_ok d proxy_job = job_ok d paid_job" by (simp add: job_ok_def proxy_job_def terminal_def cong: option.case_cong)
  then have ok': "media_ok ?s" using ok by (simp add: media_ok_def)
  obtain w t j where run: "proxy_media_webhook proxy_env 10 ''s'' (uuid_str 5) (Some ''t'') None (Some (JObj good_body)) ?s = (w, t)"
    and j: "j \<in> set (ms_jobs t)" "mj_provider j = ''fal''" "mj_result j = Some good_result"
    using proxy_called_back[OF ok'] by blast
  have step: "(media_step (allowed_result proxy_env))\<^sup>*\<^sup>* ?s t" by (rule r_into_rtranclp) (rule called_back[OF refl run])
  have none: "results_in (allowed_result proxy_env) ?s" by (simp add: results_in_def proxy_values)
  have "fal_asset_host_allowed (mv_urlsplit proxy_env) (md_suffixes (mv_settings proxy_env)) (ma_url a) = Inr True" if "a \<in> set (mr_assets good_result)" for a
    using stored_results_allowed[OF step ok' none j(1) _ disjI2[OF j(3)] that] j(2) by simp
  then show ?thesis using step j by (auto simp: good_result_def proxy_env_def direct_env_def)
qed

section \<open>The deadline\<close>

text \<open>
  C21. No run hangs. The first poll after the deadline settles the job, completed or failed with its refund,
  whatever the provider, the proxy, the moderation or the completion handler answer or raise; the poll itself returns.
\<close>

theorem overdue_run_ends:
  assumes "media_ok s" and "get_job_row i u s = Some j" and "\<not> terminal j" and "overdue env now j" and "bigint_ok (credits u s)"
  shows "case get_job env now u i s of
      (Inl e, t) \<Rightarrow> False
    | (Inr v, t) \<Rightarrow> terminal (vw_job v) \<and> media_ok t
        \<and> (\<exists>row. find_job i t = Some row \<and> mj_status row = mj_status (vw_job v) \<and> mj_refunded row = (mj_status row = ''failed'' \<and> 0 < mj_charged row))"
proof -
  have job: "find_job i s = Some j" "mj_user j = u" using get_job_row_eq[OF assms(2,1)] by simp_all
  then have i: "mj_id j = i" using media_ok_job[OF assms(1)] by blast
  have at: "open_at s j" using assms(1,3) job i by (simp add: open_at_def)
  have "ends (allowed_result env) j s (advance_job env now False False j s)"
    using advance_job_attends[of s j "allowed_result env", OF at blank_allowed] assms(4) by (simp add: attends_def)
  moreover have "\<not> no_room s j" using room_in_credits[OF at] assms(5) job(2) by simp
  ultimately obtain v t row where run: "get_job env now u i s = (Inr v, t)" and v: "terminal (vw_job v)" "media_ok t"
      "find_job i t = Some row" "mj_status row = mj_status (vw_job v)"
    by (cases "advance_job env now False False j s"; cases "fst (advance_job env now False False j s)")
      (auto simp: ends_def get_job_def assms(2) i dest: moves_ok)
  moreover have "mj_refunded row = (mj_status row = ''failed'' \<and> 0 < mj_charged row)" using media_ok_job[OF v(2,3)] by (simp add: job_ok_def)
  ultimately show ?thesis by simp
qed

theorem overdue_run_ends_witness:
  "\<exists>d v t row. get_job direct_env (seconds 21601) 1 5 \<lparr>ms_db = d, ms_jobs = [paid_job]\<rparr> = (Inr v, t) \<and> find_job 5 t = Some row \<and> terminal (vw_job v)
     \<and> mj_refunded row = (mj_status row = ''failed'' \<and> 0 < mj_charged row)"
proof -
  obtain d where d: "current_balance 1 d = 72" "media_ok \<lparr>ms_db = d, ms_jobs = [paid_job]\<rparr>"
    by (rule paid_stored)
  let ?s = "\<lparr>ms_db = d, ms_jobs = [paid_job]\<rparr>"
  have row: "get_job_row 5 1 ?s = Some paid_job" by (simp add: get_job_row_def paid_values)
  have late: "overdue direct_env (seconds 21601) paid_job" by (simp add: overdue_def paid_values direct_env_def)
  have "bigint_ok (credits 1 ?s)" using d(1) by (simp add: credits_def stake_def stake_of_def paid_values bigint_ok_def)
  from overdue_run_ends[OF d(2) row paid_values(7) late this] show ?thesis
    by (cases "get_job direct_env (seconds 21601) 1 5 ?s"; cases "fst (get_job direct_env (seconds 21601) 1 5 ?s)") auto
qed

section \<open>Overlapping polls\<close>

lemma failed_poll:
  assumes at: "open_at s j" and run: "advance_direct env now j s = (Inr v, t)" and failed: "mj_status (vw_job v) = ''failed''"
  shows "find_job (mj_id j) t = Some (vw_job v)" and "mj_refunded (vw_job v) = (0 < mj_charged j)"
    and "current_balance (mj_user j) (ms_db t) = current_balance (mj_user j) (ms_db s) + mj_charged j"
proof -
  have "ran_failure j s (Inr v, t)"
    using advance_direct_ran[of j s env now] failed unfolding run
    by (auto simp: ran_running_def ran_finish_def finish_run_def flush_job_def completed_job_def split: if_splits)
  then obtain now' e m r where set: "settle_failed now' e m r j s = (Inr v, t)" unfolding ran_failure_def by metis
  from at have "media_ok s" "find_job (mj_id j) s = Some j" "\<not> terminal j" by (simp_all add: open_at_def)
  then have "find_job (mj_id j) t = Some (vw_job v) \<and> mj_refunded (vw_job v) = (0 < mj_charged j)
    \<and> current_balance (mj_user j) (ms_db t) = current_balance (mj_user j) (ms_db s) + mj_charged j"
    by (cases rule: settle_failed_cases[of s j r "\<lambda>_. True" now' e m]) (use set in auto)
  then show "find_job (mj_id j) t = Some (vw_job v)" "mj_refunded (vw_job v) = (0 < mj_charged j)"
    "current_balance (mj_user j) (ms_db t) = current_balance (mj_user j) (ms_db s) + mj_charged j"
    by simp_all
qed

lemma settle_failed_view:
  assumes "settle_failed now e m r j s = (Inr v, t)"
  shows "mj_status (vw_job v) = ''failed''"
  using assms unfolding settle_failed_def by (auto simp: flush_job_def failed_job_def elim!: and_then_InrE split: if_splits)

lemma finished_poll:
  assumes run: "advance_direct env now j t = (Inr w, u)" and completed: "mj_status (vw_job w) = ''completed''" and live: "\<not> terminal j"
    and row: "find_job (mj_id j) t = Some x" and new: "mj_result j = None" "\<not> mj_refunded j"
  shows "\<exists>y r. find_job (mj_id j) u = Some y \<and> mj_status y = ''completed'' \<and> mj_refunded y = mj_refunded x \<and> mj_result y = Some r
     \<and> mj_result (vw_job w) = Some r \<and> ms_db u = ms_db t"
proof -
  have "ran_finish j t (Inr w, u)"
    using advance_direct_ran[of j t env now] completed unfolding run
    by (auto simp: ran_running_def ran_failure_def dest!: settle_failed_view[OF sym])
  then obtain env' now' r assets m where fin: "(Inr w, u) = finish_run env' now' r assets m j t" unfolding ran_finish_def by blast
  let ?new = "completed_job (md_retention (mv_settings env')) now' r m j"
  let ?t = "update_job (mj_id j) (merge_row j ?new) t"
  have x: "mj_id x = mj_id j" using find_job_SomeD[OF row] by simp
  have y: "find_job (mj_id j) ?t = Some (merge_row j ?new x)" using row by (subst find_update_job) (simp_all add: merge_row_def)
  have cols: "mj_status (merge_row j ?new x) = ''completed''" "mj_refunded (merge_row j ?new x) = mj_refunded x" "mj_result (merge_row j ?new x) = Some r"
    using live new by (auto simp: merge_row_def completed_job_def pick_def terminal_iff)
  from fin have w: "vw_job w = ?new" and u: "u = ?t \<or> u = snd (claim_media_push now' (mj_id j) ?t)"
    by (auto simp: finish_run_def flush_job_def row completed_job_def split: if_splits)
  have "\<exists>y. find_job (mj_id j) u = Some y \<and> mj_status y = ''completed'' \<and> mj_refunded y = mj_refunded x \<and> mj_result y = Some r \<and> ms_db u = ms_db t"
    using u
  proof
    assume "u = ?t"
    then show ?thesis using y cols by simp
  next
    assume "u = snd (claim_media_push now' (mj_id j) ?t)"
    moreover have "find_job (mj_id j) (update_job (mj_id j) (\<lambda>x. x\<lparr>mj_push_sent := Some now'\<rparr>) ?t) = Some ((merge_row j ?new x)\<lparr>mj_push_sent := Some now'\<rparr>)"
      using y by (subst find_update_job) simp_all
    ultimately show ?thesis using y cols by (auto simp: claim_media_push_def split: if_splits)
  qed
  moreover have "mj_result (vw_job w) = Some r" by (simp add: w completed_job_def)
  ultimately show ?thesis by blast
qed

text \<open>
  C22. Two overlapping polls of a job of the direct client can refund a run and deliver it. Both load the open row; the first
  settles it as failed, the second, on the row it loaded before, as completed. The poll writes only the columns
  it changed, so the row ends \<open>completed\<close> with the result and \<open>credits_refunded\<close>, and the user has the price back.
\<close>

theorem overlapping_polls_refund_and_deliver:
  assumes "open_at s j" and "mj_provider j = []" and "0 < mj_charged j" and "mj_result j = None"
    and "advance_job env1 now1 False False j s = (Inr v, t)" and "mj_status (vw_job v) = ''failed''"
    and "advance_job env2 now2 False False j t = (Inr w, u)" and "mj_status (vw_job w) = ''completed''"
  shows "\<exists>row. find_job (mj_id j) u = Some row \<and> mj_status row = ''completed'' \<and> mj_refunded row \<and> mj_result row = mj_result (vw_job w)
     \<and> mj_result row \<noteq> None \<and> current_balance (mj_user j) (ms_db u) = current_balance (mj_user j) (ms_db s) + mj_charged j"
proof -
  from assms(1) have live: "\<not> terminal j" and ok: "media_ok s" "find_job (mj_id j) s = Some j" by (simp_all add: open_at_def)
  have run1: "advance_direct env1 now1 j s = (Inr v, t)" and run2: "advance_direct env2 now2 j t = (Inr w, u)"
    using assms(2,5,7) live by (simp_all add: advance_job_def)
  note first = failed_poll[OF assms(1) run1 assms(6)]
  have "\<not> mj_refunded j" using open_job(1) media_ok_job[OF ok] live by blast
  from finished_poll[OF run2 assms(8) live first(1) assms(4) this] first(2,3) assms(3) show ?thesis by auto
qed

text \<open>The deadline has passed: one poll cannot reach fal, the other one gets the finished video.\<close>

definition fal_down :: media_env where
  "fal_down = direct_env\<lparr>mv_fal_status := \<lambda>_ _. Inl (Raised UpstreamError ''down'')\<rparr>"

definition fal_ready :: media_env where
  "fal_ready = direct_env\<lparr>mv_fal_status := \<lambda>_ _. Inr \<lparr>fst_status = ''COMPLETED'', fst_error = None\<rparr>,
     mv_fal_result := \<lambda>_ _. Inr [(''video'', JObj [(''url'', JStr ''https://v3.fal.media/a.mp4'')])]\<rparr>"

lemma late_failure:
  assumes at: "open_at \<lparr>ms_db = d, ms_jobs = [paid_job]\<rparr> paid_job" and room: "current_balance 1 d = 72"
  shows "\<exists>v t. advance_job fal_down (seconds 21601) False False paid_job \<lparr>ms_db = d, ms_jobs = [paid_job]\<rparr> = (Inr v, t)
    \<and> mj_status (vw_job v) = ''failed'' \<and> find_job 5 t = Some (vw_job v)"
proof -
  let ?s = "\<lparr>ms_db = d, ms_jobs = [paid_job]\<rparr>" and ?e = "Raised UpstreamError ''down''"
  have "overdue fal_down (seconds 21601) paid_job" by (simp add: overdue_def paid_values fal_down_def direct_env_def)
  then have "close_or_raise fal_down (seconds 21601) ?e paid_job ?s = fail_run (seconds 21601) ''generation did not complete in time'' paid_job ?s"
    by (simp add: close_or_raise_def close_if_overdue_def overdue_def and_then_view)
  then have eq: "advance_job fal_down (seconds 21601) False False paid_job ?s = fail_run (seconds 21601) ''generation did not complete in time'' paid_job ?s"
    by (simp add: advance_job_def advance_direct_def fal_down_def paid_values refused_message_def error_defs)
  obtain e m where set: "fail_run (seconds 21601) ''generation did not complete in time'' paid_job ?s = settle_failed (seconds 21601) e m None paid_job ?s"
    using failures_settle(1) by blast
  from at have "media_ok ?s" "find_job (mj_id paid_job) ?s = Some paid_job" "\<not> terminal paid_job" by (simp_all add: open_at_def)
  then show ?thesis unfolding eq set
    by (cases rule: settle_failed_cases[of ?s paid_job None "\<lambda>_. True" "seconds 21601" e m]) (use room in \<open>auto simp: paid_values bigint_ok_def\<close>)
qed

lemma late_success:
  assumes "find_job 5 t = Some x"
  shows "\<exists>w u. advance_job fal_ready (seconds 21601) False False paid_job t = (Inr w, u) \<and> mj_status (vw_job w) = ''completed''"
proof -
  have body: "normalize_result [(''video'', JObj [(''url'', JStr ''https://v3.fal.media/a.mp4'')])] KIND_VIDEO = Inr good_result"
    by code_simp
  show ?thesis
    using assms good_projection
    by (simp add: advance_job_def advance_direct_def apply_fal_result_def fal_ready_def direct_env_def paid_values body complete_or_close_def complete_run_def
        moderate_output_def settled_def finish_run_def flush_job_def completed_job_def)
qed

theorem overlapping_polls_refund_and_deliver_witness:
  "\<exists>d v t u row. advance_job fal_down (seconds 21601) False False paid_job \<lparr>ms_db = d, ms_jobs = [paid_job]\<rparr> = (Inr v, t)
     \<and> snd (advance_job fal_ready (seconds 21601) False False paid_job t) = u
     \<and> find_job 5 u = Some row \<and> mj_status row = ''completed'' \<and> mj_refunded row \<and> mj_result row \<noteq> None \<and> current_balance 1 (ms_db u) = 200"
proof -
  obtain d where d: "current_balance 1 d = 72" "open_at \<lparr>ms_db = d, ms_jobs = [paid_job]\<rparr> paid_job"
    by (rule paid_stored)
  obtain v t where v: "advance_job fal_down (seconds 21601) False False paid_job \<lparr>ms_db = d, ms_jobs = [paid_job]\<rparr> = (Inr v, t)"
    "mj_status (vw_job v) = ''failed''" "find_job 5 t = Some (vw_job v)"
    using late_failure[OF d(2,1)] by blast
  obtain w u where w: "advance_job fal_ready (seconds 21601) False False paid_job t = (Inr w, u)" "mj_status (vw_job w) = ''completed''"
    using late_success[OF v(3)] by blast
  have "0 < mj_charged paid_job" by (simp add: paid_values)
  from overlapping_polls_refund_and_deliver[OF d(2) paid_values(2) this paid_values(4) v(1,2) w] d(1)
  obtain row where "find_job 5 u = Some row" "mj_status row = ''completed''" "mj_refunded row" "mj_result row \<noteq> None" "current_balance 1 (ms_db u) = 200"
    unfolding paid_values by (elim exE conjE) simp
  moreover have "snd (advance_job fal_ready (seconds 21601) False False paid_job t) = u" by (simp only: w(1) snd_conv)
  ultimately show ?thesis using v(1) by blast
qed

end
