(* ===== verification/Rate_Limit.thy ===== *)
theory Rate_Limit
  imports PyJson
begin

text \<open>
  \<open>api_gateway/rate_limit.py\<close>: the sliding windows in Redis. A key holds a sorted set with one member per call, scored with
  its time, and a time to live. \<open>allow\<close> is the \<open>MULTI\<close> block of one check, \<open>checks_of\<close> the buckets a request is charged
  to, in the order of the code, \<open>enforce\<close> the check of a request. The members are fresh UUIDs, so \<open>ZADD\<close> always adds.
  Redis and the application read one clock; when Redis does not answer (\<open>link\<close>), the block may or may not have run.
\<close>

record zset =
  zs_scores :: "instant list"
  zs_expires :: instant

type_synonym redis = "string \<Rightarrow> zset option"

definition live_scores :: "instant \<Rightarrow> zset option \<Rightarrow> instant list" where
  "live_scores now z = (case z of None \<Rightarrow> [] | Some z' \<Rightarrow> if zs_expires z' \<le> now then [] else zs_scores z')"

section \<open>One bucket\<close>

definition zrem_by_score :: "instant \<Rightarrow> instant \<Rightarrow> instant list \<Rightarrow> instant list" where
  "zrem_by_score lo hi xs = filter (\<lambda>x. \<not> (lo \<le> x \<and> x \<le> hi)) xs"

definition expire :: "string \<Rightarrow> int \<Rightarrow> instant \<Rightarrow> instant list \<Rightarrow> redis \<Rightarrow> redis" where
  "expire key window_seconds now xs r =
     r(key := if window_seconds \<le> 0 then None
              else Some \<lparr>zs_scores = xs, zs_expires = now + seconds window_seconds\<rparr>)"

definition allow :: "string \<Rightarrow> int \<Rightarrow> int \<Rightarrow> instant \<Rightarrow> redis \<Rightarrow> bool \<times> redis" where
  "allow key limit window_seconds now r =
     (let cutoff = now - seconds window_seconds;
          xs = zrem_by_score 0 cutoff (live_scores now (r key)) @ [now]
      in (int (length xs) \<le> limit, expire key window_seconds now xs r))"

datatype link = Answers | Lost_before | Lost_after

definition allow_over :: "link \<Rightarrow> string \<Rightarrow> int \<Rightarrow> int \<Rightarrow> instant \<Rightarrow> redis \<Rightarrow> (unit, bool, redis) outcome" where
  "allow_over l key limit window_seconds now r =
     (case l of
        Answers \<Rightarrow> (Inr (fst (allow key limit window_seconds now r)), snd (allow key limit window_seconds now r))
      | Lost_before \<Rightarrow> (Inl (), r)
      | Lost_after \<Rightarrow> (Inl (), snd (allow key limit window_seconds now r)))"

section \<open>The limiters\<close>

record rate_settings =
  rate_limit_chat_per_user :: int
  rate_limit_chat_per_device :: int
  rate_limit_chat_per_ip :: int
  rate_limit_other_per_user :: int
  rate_limit_window_seconds :: int
  admin_rate_limit_per_min :: int
  admin_economics_rate_limit_per_min :: int
  auth_rate_limit_per_ip :: int
  cloudpayments_webhook_rate_limit_per_ip :: int
  tts_rate_limit_per_min :: int

definition rate_defaults :: rate_settings where
  "rate_defaults = \<lparr>rate_limit_chat_per_user = 30, rate_limit_chat_per_device = 60, rate_limit_chat_per_ip = 120,
     rate_limit_other_per_user = 60, rate_limit_window_seconds = 60, admin_rate_limit_per_min = 10,
     admin_economics_rate_limit_per_min = 120, auth_rate_limit_per_ip = 10,
     cloudpayments_webhook_rate_limit_per_ip = 120, tts_rate_limit_per_min = 10\<rparr>"

text \<open>\<open>None\<close> and the empty string are the two falsy values of an optional text.\<close>

definition given :: "string option \<Rightarrow> string option" where
  "given t = (if t = Some [] then None else t)"

definition bucket :: "string option \<Rightarrow> string" where
  "bucket ip = (case given ip of None \<Rightarrow> ''unknown'' | Some i \<Rightarrow> i)"

datatype limited =
    Chat_request uuid "string option" "string option"
  | Admin_request "string option"
  | Economics_request "string option"
  | Auth_request "string option"
  | Payment_callback "string option"
  | Pay_page "string option" int
  | Other_request uuid
  | Experiment_request uuid
  | Speech_request uuid

fun checks_of :: "rate_settings \<Rightarrow> limited \<Rightarrow> (string \<times> int) list" where
  "checks_of cfg (Chat_request user device ip) =
     (''rl:user:'' @ uuid_str user, rate_limit_chat_per_user cfg)
     # (case given device of None \<Rightarrow> [] | Some d \<Rightarrow> [(''rl:dev:'' @ d, rate_limit_chat_per_device cfg)])
     @ (case given ip of None \<Rightarrow> [] | Some i \<Rightarrow> [(''rl:ip:'' @ i, rate_limit_chat_per_ip cfg)])"
| "checks_of cfg (Admin_request ip) = [(''rl:admin:'' @ bucket ip, admin_rate_limit_per_min cfg)]"
| "checks_of cfg (Economics_request ip) = [(''rl:admin_econ:'' @ bucket ip, admin_economics_rate_limit_per_min cfg)]"
| "checks_of cfg (Auth_request ip) = [(''rl:auth:'' @ bucket ip, auth_rate_limit_per_ip cfg)]"
| "checks_of cfg (Payment_callback ip) = [(''rl:cpwebhook:'' @ bucket ip, cloudpayments_webhook_rate_limit_per_ip cfg)]"
| "checks_of cfg (Pay_page ip limit) = [(''rl:cppage:'' @ bucket ip, limit)]"
| "checks_of cfg (Other_request user) = [(''rl:other:'' @ uuid_str user, rate_limit_other_per_user cfg)]"
| "checks_of cfg (Experiment_request user) = [(''rl:experiments:'' @ uuid_str user, rate_limit_other_per_user cfg)]"
| "checks_of cfg (Speech_request user) = [(''rl:speech:'' @ uuid_str user, tts_rate_limit_per_min cfg)]"

text \<open>The loop over the checks stops at the first bucket that is full; an unreachable Redis lets the request in.\<close>

fun run_checks ::
  "(string \<Rightarrow> link) \<Rightarrow> int \<Rightarrow> instant \<Rightarrow> (string \<times> int) list \<Rightarrow> redis \<Rightarrow> bool \<times> redis" where
  "run_checks links window now [] r = (True, r)"
| "run_checks links window now ((key, limit) # rest) r =
     (case allow_over (links key) key limit window now r of
        (Inl _, r') \<Rightarrow> (True, r')
      | (Inr ok, r') \<Rightarrow> if ok then run_checks links window now rest r' else (False, r'))"

definition enforce :: "rate_settings \<Rightarrow> (string \<Rightarrow> link) \<Rightarrow> limited \<Rightarrow> instant \<Rightarrow> redis \<Rightarrow> bool \<times> redis" where
  "enforce cfg links req now r = run_checks links (rate_limit_window_seconds cfg) now (checks_of cfg req) r"

section \<open>What a bucket remembers\<close>

text \<open>The bucket of a key remembers the calls \<open>ts\<close> up to \<open>now\<close>: at any later time it holds exactly those the window
  still covers.\<close>

definition remembers :: "int \<Rightarrow> instant \<Rightarrow> instant list \<Rightarrow> zset option \<Rightarrow> bool" where
  "remembers w now ts z \<longleftrightarrow> (\<forall>x \<in> set ts. x \<le> now) \<and> (\<forall>t \<ge> now. set (live_scores t z) \<subseteq> set ts) \<and>
     (\<forall>t \<ge> now. \<forall>c \<ge> t - seconds w. filter (\<lambda>x. c < x) (live_scores t z) = filter (\<lambda>x. c < x) ts)"

lemma remembers_later: "remembers w now ts z \<Longrightarrow> now \<le> t \<Longrightarrow> remembers w t ts z"
  unfolding remembers_def by (meson order_trans)

lemma remembers_nothing: "remembers w now [] None"
  by (simp add: remembers_def live_scores_def)

lemma filter_nothing: "(\<And>x. x \<in> set xs \<Longrightarrow> x \<le> c) \<Longrightarrow> filter (\<lambda>x. (c :: instant) < x) xs = []"
  by (simp add: filter_empty_conv linorder_not_less)

lemma filter_length_mono: "(\<And>x. P x \<Longrightarrow> Q x) \<Longrightarrow> length (filter P xs) \<le> length (filter Q xs)"
  by (induction xs) auto

lemma zrem_above: "hi \<le> c \<Longrightarrow> filter (\<lambda>x. c < x) (zrem_by_score lo hi xs) = filter (\<lambda>x. c < x) xs"
  unfolding zrem_by_score_def by (induction xs) auto

lemma allow_scores:
  "0 < w \<Longrightarrow> snd (allow key limit w now r) key =
     Some \<lparr>zs_scores = zrem_by_score 0 (now - seconds w) (live_scores now (r key)) @ [now], zs_expires = now + seconds w\<rparr>"
  by (simp add: allow_def expire_def Let_def)

lemma allow_other: "key \<noteq> k \<Longrightarrow> snd (allow key limit w now r) k = r k"
  by (simp add: allow_def expire_def Let_def)

text \<open>After a check the bucket remembers the call too; the time to live forgets nothing inside the window.\<close>

lemma allow_remembers:
  assumes w: "0 < w" and mem: "remembers w now ts (r key)"
  shows "remembers w now (ts @ [now]) (snd (allow key limit w now r) key)"
proof -
  define xs where "xs = zrem_by_score 0 (now - seconds w) (live_scores now (r key)) @ [now]"
  have z: "snd (allow key limit w now r) key = Some \<lparr>zs_scores = xs, zs_expires = now + seconds w\<rparr>"
    using allow_scores [OF w] by (simp add: xs_def)
  have old: "filter (\<lambda>x. c < x) xs = filter (\<lambda>x. c < x) (ts @ [now])" if "now - seconds w \<le> c" for c
    using mem that zrem_above [OF that, of 0 "live_scores now (r key)"] by (simp add: xs_def remembers_def)
  have "filter (\<lambda>x. c < x) (live_scores t (Some \<lparr>zs_scores = xs, zs_expires = now + seconds w\<rparr>)) = filter (\<lambda>x. c < x) (ts @ [now])"
    if t: "now \<le> t" and c: "t - seconds w \<le> c" for t c
  proof (cases "now + seconds w \<le> t")
    case True
    then have "filter (\<lambda>x. c < x) (ts @ [now]) = []"
      using c mem by (intro filter_nothing) (auto simp: remembers_def)
    then show ?thesis
      using True by (simp add: live_scores_def)
  next
    case False
    then show ?thesis
      using old [of c] t c by (simp add: live_scores_def)
  qed
  moreover have "set (live_scores t (snd (allow key limit w now r) key)) \<subseteq> set (ts @ [now])" if "now \<le> t" for t
    using mem that unfolding z xs_def by (auto simp: live_scores_def zrem_by_score_def remembers_def split: if_splits)
  ultimately show ?thesis
    using mem by (auto simp: z remembers_def)
qed

text \<open>So a call is let through exactly when the window holds at most \<open>limit\<close> calls with it, refused ones included.\<close>

lemma allow_verdict:
  assumes w: "0 < w" and mem: "remembers w now ts (r key)" and pos: "\<forall>x \<in> set ts. 0 \<le> x"
  shows "fst (allow key limit w now r) \<longleftrightarrow> int (length (filter (\<lambda>x. now - seconds w < x) ts)) < limit"
proof -
  have "zrem_by_score 0 (now - seconds w) (live_scores now (r key)) = filter (\<lambda>x. now - seconds w < x) (live_scores now (r key))"
    using mem pos unfolding zrem_by_score_def by (intro filter_cong) (auto simp: remembers_def)
  then have "zrem_by_score 0 (now - seconds w) (live_scores now (r key)) = filter (\<lambda>x. now - seconds w < x) ts"
    using mem by (simp add: remembers_def)
  then show ?thesis
    by (simp add: allow_def Let_def) arith
qed

lemma allow_bounded:
  assumes w: "0 < w" and mem: "remembers w now ts (r key)" and ok: "fst (allow key limit w now r)"
  shows "int (length (filter (\<lambda>x. now - seconds w < x) (ts @ [now]))) \<le> limit"
proof -
  define xs where "xs = zrem_by_score 0 (now - seconds w) (live_scores now (r key)) @ [now]"
  have "filter (\<lambda>x. now - seconds w < x) xs = filter (\<lambda>x. now - seconds w < x) (ts @ [now])"
    using mem by (simp add: xs_def zrem_above remembers_def)
  then have "length (filter (\<lambda>x. now - seconds w < x) (ts @ [now])) \<le> length xs"
    by (metis length_filter_le)
  then show ?thesis
    using ok by (simp add: allow_def Let_def xs_def)
qed

section \<open>A service under load\<close>

text \<open>\<open>run_requests\<close> is the history of an instance: the requests in the order Redis sees them, each with its verdict.\<close>

fun run_requests ::
  "rate_settings \<Rightarrow> (string \<Rightarrow> link) \<Rightarrow> (instant \<times> limited) list \<Rightarrow> redis \<Rightarrow> ((instant \<times> limited) \<times> bool) list \<times> redis" where
  "run_requests cfg links [] r = ([], r)"
| "run_requests cfg links ((now, q) # rest) r =
     (case enforce cfg links q now r of (ok, r') \<Rightarrow>
       (case run_requests cfg links rest r' of (vs, r'') \<Rightarrow> (((now, q), ok) # vs, r'')))"

abbreviation answers :: "string \<Rightarrow> link" where "answers \<equiv> (\<lambda>_. Answers)"
abbreviation no_keys :: redis where "no_keys \<equiv> (\<lambda>_. None)"

lemma run_requests_snoc:
  "run_requests cfg links (reqs @ [(now, q)]) r =
     (case run_requests cfg links reqs r of (vs, r') \<Rightarrow>
       (vs @ [((now, q), fst (enforce cfg links q now r'))], snd (enforce cfg links q now r')))"
  by (induction reqs arbitrary: r) (auto split: prod.splits)

lemma run_requests_served: "map fst (fst (run_requests cfg links reqs r)) = reqs"
  by (induction reqs arbitrary: r) (auto simp: case_prod_beta)

lemma checks_distinct: "distinct (map fst (checks_of cfg q))"
  by (cases q) (auto split: option.splits)

lemma run_checks_other: "k \<notin> fst ` set checks \<Longrightarrow> snd (run_checks answers w now checks r) k = r k"
  by (induction checks arbitrary: r) (auto simp: allow_over_def allow_other)

lemma run_checks_touch:
  assumes w: "0 < w" and mem: "remembers w now ts (r k)" and "distinct (map fst checks)"
  obtains reached where "remembers w now (if reached then ts @ [now] else ts) (snd (run_checks answers w now checks r) k)"
    and "reached \<Longrightarrow> k \<in> fst ` set checks"
    and "\<And>l. fst (run_checks answers w now checks r) \<Longrightarrow> (k, l) \<in> set checks \<Longrightarrow>
           reached \<and> int (length (filter (\<lambda>x. now - seconds w < x) (ts @ [now]))) \<le> l"
  using mem assms(3)
proof (induction checks arbitrary: r thesis)
  case Nil
  show ?case
    by (rule Nil(1) [of False]) (use Nil(2) in simp_all)
next
  case (Cons c rest)
  obtain key limit where c: "c = (key, limit)"
    by (cases c)
  define r' where "r' = snd (allow key limit w now r)"
  have dist: "distinct (map fst rest)" and fresh: "key \<notin> fst ` set rest"
    using Cons.prems(3) by (simp_all add: c)
  show ?case
  proof (cases "key = k")
    case True
    have mem': "remembers w now (ts @ [now]) (r' k)"
      using allow_remembers [OF w, of now ts r key limit] Cons.prems(2) True by (simp add: r'_def)
    have rest: "snd (run_checks answers w now rest r') k = r' k"
      using fresh True run_checks_other [of k rest] by simp
    show ?thesis
      by (rule Cons.prems(1) [of True])
        (use mem' rest allow_bounded [OF w, of now ts r key limit] Cons.prems(2) fresh True in
          \<open>auto simp: c allow_over_def r'_def image_iff split: if_splits\<close>)
  next
    case False
    have mem': "remembers w now ts (r' k)"
      using Cons.prems(2) allow_other [OF False] by (simp add: r'_def)
    show ?thesis
    proof (cases "fst (allow key limit w now r)")
      case passed: True
      obtain reached where r: "remembers w now (if reached then ts @ [now] else ts) (snd (run_checks answers w now rest r') k)"
        "reached \<Longrightarrow> k \<in> fst ` set rest"
        "\<And>l. fst (run_checks answers w now rest r') \<Longrightarrow> (k, l) \<in> set rest \<Longrightarrow>
           reached \<and> int (length (filter (\<lambda>x. now - seconds w < x) (ts @ [now]))) \<le> l"
        using Cons.IH [of r'] mem' dist by blast
      show ?thesis
        by (rule Cons.prems(1) [of reached]) (use r False passed in \<open>auto simp: c allow_over_def r'_def\<close>)
    next
      case refused: False
      show ?thesis
        by (rule Cons.prems(1) [of False]) (use mem' refused in \<open>auto simp: c allow_over_def r'_def\<close>)
    qed
  qed
qed

text \<open>The state of the service after any history: every bucket remembers some calls, among them all that were let through,
  and no window of accepted requests is longer than its limit.\<close>

definition charged :: "rate_settings \<Rightarrow> string \<Rightarrow> ((instant \<times> limited) \<times> bool) list \<Rightarrow> instant list" where
  "charged cfg k vs = map (fst \<circ> fst) (filter (\<lambda>((now, q), ok). ok \<and> k \<in> fst ` set (checks_of cfg q)) vs)"

definition let_through :: "rate_settings \<Rightarrow> string \<times> int \<Rightarrow> instant \<Rightarrow> ((instant \<times> limited) \<times> bool) list \<Rightarrow> nat" where
  "let_through cfg check start vs =
     length (filter (\<lambda>((now, q), ok). ok \<and> check \<in> set (checks_of cfg q)
       \<and> start < now \<and> now \<le> start + seconds (rate_limit_window_seconds cfg)) vs)"

lemma history:
  assumes w: "0 < rate_limit_window_seconds cfg" and "sorted (map fst reqs)" and "\<forall>t \<in> fst ` set reqs. t \<le> now"
  obtains ts where
    "remembers (rate_limit_window_seconds cfg) now ts (snd (run_requests cfg answers reqs no_keys) k)"
    "\<And>c. length (filter (\<lambda>x. c < x) (charged cfg k (fst (run_requests cfg answers reqs no_keys)))) \<le> length (filter (\<lambda>x. c < x) ts)"
  using assms(2,3)
proof (induction reqs arbitrary: now thesis rule: rev_induct)
  case Nil
  show ?case
    by (rule Nil(1) [of "[]"]) (simp_all add: remembers_nothing charged_def)
next
  case (snoc e reqs)
  obtain t q where e: "e = (t, q)"
    by (cases e)
  obtain ts where ts: "remembers (rate_limit_window_seconds cfg) t ts (snd (run_requests cfg answers reqs no_keys) k)"
    "\<And>c. length (filter (\<lambda>x. c < x) (charged cfg k (fst (run_requests cfg answers reqs no_keys)))) \<le> length (filter (\<lambda>x. c < x) ts)"
    by (rule snoc.IH [of t]) (use snoc.prems e in \<open>auto simp: sorted_append\<close>)
  obtain reached where r: "remembers (rate_limit_window_seconds cfg) t (if reached then ts @ [t] else ts)
      (snd (enforce cfg answers q t (snd (run_requests cfg answers reqs no_keys))) k)"
    and at: "\<And>l. fst (enforce cfg answers q t (snd (run_requests cfg answers reqs no_keys))) \<Longrightarrow> (k, l) \<in> set (checks_of cfg q) \<Longrightarrow>
      reached \<and> int (length (filter (\<lambda>x. t - seconds (rate_limit_window_seconds cfg) < x) (ts @ [t]))) \<le> l"
    using run_checks_touch [where r = "snd (run_requests cfg answers reqs no_keys)" and k = k, OF w ts(1) checks_distinct [of cfg q]]
    unfolding enforce_def by blast
  have hit: "fst (enforce cfg answers q t (snd (run_requests cfg answers reqs no_keys))) \<Longrightarrow> k \<in> fst ` set (checks_of cfg q) \<Longrightarrow> reached"
    using at by auto
  show ?case
  proof (rule snoc.prems(1) [of "if reached then ts @ [t] else ts"])
    show "remembers (rate_limit_window_seconds cfg) now (if reached then ts @ [t] else ts) (snd (run_requests cfg answers (reqs @ [e]) no_keys) k)"
      using remembers_later [OF r, of now] snoc.prems(3) by (simp add: e run_requests_snoc case_prod_beta)
    show "length (filter (\<lambda>x. c < x) (charged cfg k (fst (run_requests cfg answers (reqs @ [e]) no_keys))))
        \<le> length (filter (\<lambda>x. c < x) (if reached then ts @ [t] else ts))" for c
      using ts(2) [of c] hit by (cases reached) (auto simp: e run_requests_snoc case_prod_beta charged_def)
  qed
qed

lemma window_bounded:
  assumes w: "0 < rate_limit_window_seconds cfg" and "sorted (map fst reqs)"
  shows "let_through cfg (k, l) start (fst (run_requests cfg answers reqs no_keys)) \<le> nat l"
  using assms(2)
proof (induction reqs rule: rev_induct)
  case Nil
  show ?case
    by (simp add: let_through_def)
next
  case (snoc e reqs)
  obtain t q where e: "e = (t, q)"
    by (cases e)
  let ?vs = "fst (run_requests cfg answers reqs no_keys)" and ?r = "snd (run_requests cfg answers reqs no_keys)"
  have ih: "let_through cfg (k, l) start ?vs \<le> nat l"
    using snoc by (simp add: sorted_append)
  obtain ts where ts: "remembers (rate_limit_window_seconds cfg) t ts (?r k)"
    "\<And>c. length (filter (\<lambda>x. c < x) (charged cfg k ?vs)) \<le> length (filter (\<lambda>x. c < x) ts)"
    using history [OF w, of reqs t k] snoc.prems by (auto simp: sorted_append e)
  show ?case
  proof (cases "fst (enforce cfg answers q t ?r) \<and> (k, l) \<in> set (checks_of cfg q) \<and> start < t \<and> t \<le> start + seconds (rate_limit_window_seconds cfg)")
    case True
    have bound: "int (length (filter (\<lambda>x. t - seconds (rate_limit_window_seconds cfg) < x) (ts @ [t]))) \<le> l"
      using run_checks_touch [where r = ?r and k = k, OF w ts(1) checks_distinct [of cfg q]] True
      unfolding enforce_def by metis
    have "let_through cfg (k, l) start ?vs \<le> length (filter (\<lambda>x. t - seconds (rate_limit_window_seconds cfg) < x) (charged cfg k ?vs))"
      unfolding let_through_def charged_def filter_map length_map filter_filter
      by (rule filter_length_mono) (use True in \<open>auto intro: rev_image_eqI\<close>)
    then have "int (Suc (let_through cfg (k, l) start ?vs)) \<le> l"
      using bound ts(2) [of "t - seconds (rate_limit_window_seconds cfg)"] w by simp
    then show ?thesis
      using True by (simp add: let_through_def e run_requests_snoc case_prod_beta)
  next
    case False
    then show ?thesis
      using ih by (auto simp: let_through_def e run_requests_snoc case_prod_beta)
  qed
qed

section \<open>Buckets of their own\<close>

text \<open>What the docstrings promise of the limiters with one bucket: calls share a bucket when they are of the same kind and
  come from the same address or user, and from nothing else. A pay page and its limit share the bucket of the address.\<close>

datatype source =
    Admin_from string | Economics_from string | Auth_from string | Callback_from string | Page_from string
  | Other_by uuid | Experiment_by uuid | Speech_by uuid

fun source_of :: "limited \<Rightarrow> source option" where
  "source_of (Chat_request _ _ _) = None"
| "source_of (Admin_request ip) = Some (Admin_from (bucket ip))"
| "source_of (Economics_request ip) = Some (Economics_from (bucket ip))"
| "source_of (Auth_request ip) = Some (Auth_from (bucket ip))"
| "source_of (Payment_callback ip) = Some (Callback_from (bucket ip))"
| "source_of (Pay_page ip _) = Some (Page_from (bucket ip))"
| "source_of (Other_request user) = Some (Other_by user)"
| "source_of (Experiment_request user) = Some (Experiment_by user)"
| "source_of (Speech_request user) = Some (Speech_by user)"

definition one_bucket :: "limited \<Rightarrow> bool" where
  "one_bucket q \<longleftrightarrow> source_of q \<noteq> None"

definition same_bucket :: "limited \<Rightarrow> limited \<Rightarrow> bool" where
  "same_bucket p q \<longleftrightarrow> one_bucket p \<and> source_of p = source_of q"

lemma key_same_bucket: "checks_of cfg q = [(k, l)] \<Longrightarrow> one_bucket q \<Longrightarrow> k \<in> fst ` set (checks_of cfg q') \<longleftrightarrow> same_bucket q' q"
  by (cases q; cases q') (auto simp: one_bucket_def same_bucket_def split: option.splits)

lemma one_bucket_key: "one_bucket q \<Longrightarrow> \<exists>k l. checks_of cfg q = [(k, l)]"
  by (cases q) (auto simp: one_bucket_def)

lemma run_checks_one:
  "run_checks answers w now [(k, l)] r = (fst (allow k l w now r), snd (allow k l w now r))"
  by (simp add: allow_over_def prod_eq_iff)

lemma run_checks_first:
  assumes "0 < w" and "remembers w now ts (r k)" and "checks = [(k, l)]"
  shows "remembers w now (ts @ [now]) (snd (run_checks answers w now checks r) k)"
  unfolding assms(3) run_checks_one snd_conv by (rule allow_remembers [where r = r and key = k, OF assms(1,2)])

text \<open>Between limiters with one bucket the log is exact.\<close>

lemma history_exact:
  assumes w: "0 < rate_limit_window_seconds cfg" and q: "checks_of cfg q = [(k, l)]" "one_bucket q"
    and "sorted (map fst reqs)" and "\<forall>t \<in> fst ` set reqs. t \<le> now"
  shows "remembers (rate_limit_window_seconds cfg) now (map fst (filter (\<lambda>(t, q'). same_bucket q' q) reqs))
           (snd (run_requests cfg answers reqs no_keys) k)"
  using assms(4,5)
proof (induction reqs arbitrary: now rule: rev_induct)
  case Nil
  show ?case
    by (simp add: remembers_nothing)
next
  case (snoc e reqs)
  obtain t p where e: "e = (t, p)"
    by (cases e)
  let ?r = "snd (run_requests cfg answers reqs no_keys)" and ?ts = "map fst (filter (\<lambda>(t, q'). same_bucket q' q) reqs)"
  have ih: "remembers (rate_limit_window_seconds cfg) t ?ts (?r k)"
    by (rule snoc.IH) (use snoc.prems in \<open>auto simp: e sorted_append\<close>)
  have "remembers (rate_limit_window_seconds cfg) t (map fst (filter (\<lambda>(t, q'). same_bucket q' q) (reqs @ [e])))
      (snd (run_checks answers (rate_limit_window_seconds cfg) t (checks_of cfg p) ?r) k)"
  proof (cases "same_bucket p q")
    case True
    then have "one_bucket p"
      by (simp add: same_bucket_def)
    then obtain k' l' where p: "checks_of cfg p = [(k', l')]"
      using one_bucket_key by blast
    moreover have "k' = k"
      using key_same_bucket [OF q, of p] True p by simp
    ultimately show ?thesis
      using run_checks_first [where r = ?r and k = k, OF w ih, of "checks_of cfg p" l'] True by (simp add: e)
  next
    case False
    then show ?thesis
      using key_same_bucket [OF q, of p] ih run_checks_other [of k "checks_of cfg p"] by (simp add: e)
  qed
  from remembers_later [OF this, of now] snoc.prems(2) show ?case
    by (simp add: e run_requests_snoc split_def enforce_def)
qed

section \<open>The properties\<close>

text \<open>
  C23. In a history that Redis answered, the requests let through under one limit never exceed it in any stretch of
  \<open>rate_limit_window_seconds\<close>, whatever other requests are mixed in; for a chat turn this holds for the user, the device
  and the address at once.
\<close>

theorem windows_hold:
  assumes "0 < rate_limit_window_seconds cfg" and "sorted (map fst reqs)"
  shows "let_through cfg (k, l) start (fst (run_requests cfg answers reqs no_keys)) \<le> nat l"
  by (rule window_bounded [OF assms])

text \<open>Turns of one user, ten in a second.\<close>

definition burst :: "nat \<Rightarrow> (instant \<times> limited) list" where
  "burst n = map (\<lambda>i. (seconds 100 + 100000 * int i, Chat_request 7 (Some ''d'') None)) [0..<n]"

theorem windows_hold_witness:
  "let_through rate_defaults (''rl:dev:d'', 60) (seconds 99) (fst (run_requests rate_defaults answers (burst 3) no_keys)) \<le> 60
   \<and> map snd (fst (run_requests (rate_defaults\<lparr>rate_limit_chat_per_user := 2\<rparr>) answers (burst 3) no_keys)) = [True, True, False]"
proof
  have "let_through rate_defaults (''rl:dev:d'', 60) (seconds 99) (fst (run_requests rate_defaults answers (burst 3) no_keys)) \<le> nat 60"
    by (rule windows_hold) (simp_all add: rate_defaults_def burst_def upt_rec)
  then show "let_through rate_defaults (''rl:dev:d'', 60) (seconds 99) (fst (run_requests rate_defaults answers (burst 3) no_keys)) \<le> 60"
    by simp
  show "map snd (fst (run_requests (rate_defaults\<lparr>rate_limit_chat_per_user := 2\<rparr>) answers (burst 3) no_keys)) = [True, True, False]"
    by code_simp
qed

text \<open>
  For the limiters with one bucket the verdict is exact: a request is let through when fewer than \<open>limit\<close> requests of
  its kind and source came within the window. Refused requests count, so a client that keeps calling at more than
  the limit is never let in; requests of another kind or source do not count, so no limiter spends the budget of another.
\<close>

theorem verdict_exact:
  assumes "0 < rate_limit_window_seconds cfg" and "sorted (map fst reqs)" and "\<forall>t \<in> fst ` set reqs. 0 \<le> t \<and> t \<le> now"
    and "one_bucket q" and "checks_of cfg q = [(k, limit)]"
  shows "fst (enforce cfg answers q now (snd (run_requests cfg answers reqs no_keys))) \<longleftrightarrow>
    int (length (filter (\<lambda>(t, q'). same_bucket q' q \<and> now - seconds (rate_limit_window_seconds cfg) < t) reqs)) < limit"
proof -
  let ?ts = "map fst (filter (\<lambda>(t, q'). same_bucket q' q) reqs)"
  have "remembers (rate_limit_window_seconds cfg) now ?ts (snd (run_requests cfg answers reqs no_keys) k)"
    using history_exact [OF assms(1,5,4,2)] assms(3) by blast
  then have "fst (allow k limit (rate_limit_window_seconds cfg) now (snd (run_requests cfg answers reqs no_keys))) \<longleftrightarrow>
      int (length (filter (\<lambda>x. now - seconds (rate_limit_window_seconds cfg) < x) ?ts)) < limit"
    by (rule allow_verdict [OF assms(1)]) (use assms(3) in auto)
  then show ?thesis
    unfolding enforce_def assms(5) run_checks_one fst_conv by (simp add: filter_map comp_def split_def)
qed

theorem verdict_exact_witness:
  "\<not> fst (enforce (rate_defaults\<lparr>admin_rate_limit_per_min := 2\<rparr>) answers (Admin_request None) (seconds 61)
       (snd (run_requests (rate_defaults\<lparr>admin_rate_limit_per_min := 2\<rparr>) answers
          [(seconds 1, Admin_request (Some [])), (seconds 2, Economics_request None), (seconds 3, Admin_request None),
           (seconds 4, Admin_request None)] no_keys)))"
proof -
  have eq: "fst (enforce (rate_defaults\<lparr>admin_rate_limit_per_min := 2\<rparr>) answers (Admin_request None) (seconds 61)
       (snd (run_requests (rate_defaults\<lparr>admin_rate_limit_per_min := 2\<rparr>) answers
          [(seconds 1, Admin_request (Some [])), (seconds 2, Economics_request None), (seconds 3, Admin_request None),
           (seconds 4, Admin_request None)] no_keys))) \<longleftrightarrow>
    int (length (filter (\<lambda>(t, q'). same_bucket q' (Admin_request None)
        \<and> seconds 61 - seconds (rate_limit_window_seconds (rate_defaults\<lparr>admin_rate_limit_per_min := 2\<rparr>)) < t)
      [(seconds 1, Admin_request (Some [])), (seconds 2, Economics_request None), (seconds 3, Admin_request None),
       (seconds 4, Admin_request None)])) < 2"
    by (rule verdict_exact) (simp_all add: rate_defaults_def one_bucket_def)
  show ?thesis
    unfolding eq by code_simp
qed

end
