(* ===== verification/Llm_Settings.thy ===== *)
theory Llm_Settings
  imports Products "HOL-Library.AList"
begin

text \<open>
  Which provider serves a chat and which models a client may choose: the LLM methods of \<open>config.Settings\<close>, the built-in
  catalog (\<open>chat/product_catalog.py\<close>) and the part of the operator's overlay that concerns them
  (\<open>instance_config/effective.py\<close>). A dictionary is the list of its items in insertion order; \<open>AList.update\<close> is an
  item assignment. \<open>json.loads\<close> is an argument.
\<close>

record llm_settings =
  llm_provider :: string
  llm_providers_raw :: string
  anthropic_models_raw :: string
  openai_models_raw :: string
  openai_api_key :: string
  openai_api_key_backup :: string
  openai_model :: string
  anthropic_api_key :: string
  anthropic_api_key_backup :: string
  anthropic_model :: string
  anthropic_chat_fallback_openai_model :: string
  openai_chat_fallback_anthropic_model :: string

abbreviation openai :: string where "openai \<equiv> ''openai''"
abbreviation anthropic :: string where "anthropic \<equiv> ''anthropic''"

section \<open>The overlay\<close>

definition other_provider :: "string \<Rightarrow> string" where
  "other_provider p = (if p = openai then anthropic else openai)"

definition normalized_provider :: "string \<Rightarrow> string" where
  "normalized_provider v = (if py_lower (py_strip v) = openai then openai else anthropic)"

text \<open>The rows \<open>llm.provider\<close> and \<open>llm.dual_enabled\<close> and the credentials of the snapshot, by the field they replace.\<close>

record llm_overlay =
  ov_credentials :: "(string \<times> string) list"
  ov_provider :: "string option"
  ov_dual :: "bool option"

definition overlaid_credential :: "llm_overlay \<Rightarrow> string \<Rightarrow> string \<Rightarrow> string" where
  "overlaid_credential ov field base = or_default (map_of (ov_credentials ov) field) base"

definition overlay_updates :: "llm_overlay \<Rightarrow> llm_settings \<Rightarrow> llm_settings" where
  "overlay_updates ov base =
     (let provider = or_default (ov_provider ov) (llm_provider base) in
      base\<lparr>llm_provider := provider,
           llm_providers_raw := (case ov_dual ov of None \<Rightarrow> llm_providers_raw base
             | Some dual \<Rightarrow> if dual then other_provider (normalized_provider provider) else []),
           openai_api_key := overlaid_credential ov ''openai_api_key'' (openai_api_key base),
           openai_api_key_backup := overlaid_credential ov ''openai_api_key_backup'' (openai_api_key_backup base),
           anthropic_api_key := overlaid_credential ov ''anthropic_api_key'' (anthropic_api_key base),
           anthropic_api_key_backup := overlaid_credential ov ''anthropic_api_key_backup'' (anthropic_api_key_backup base)\<rparr>)"

section \<open>Providers\<close>

definition normalized_llm_provider :: "llm_settings \<Rightarrow> string" where
  "normalized_llm_provider cfg = (if py_lower (py_strip (llm_provider cfg)) = openai then openai else anthropic)"

definition default_model :: "llm_settings \<Rightarrow> string" where
  "default_model cfg = (if normalized_llm_provider cfg = openai then openai_model cfg else anthropic_model cfg)"

definition credits_api_key_configured :: "llm_settings \<Rightarrow> string \<Rightarrow> bool" where
  "credits_api_key_configured cfg provider =
     (if provider = openai then py_strip (openai_api_key cfg) \<noteq> [] else py_strip (anthropic_api_key cfg) \<noteq> [])"

fun dedup_nonempty :: "string list \<Rightarrow> string list \<Rightarrow> string list" where
  "dedup_nonempty seen [] = seen"
| "dedup_nonempty seen (v # vs) =
     (let stripped = py_strip v
      in dedup_nonempty (if stripped \<noteq> [] \<and> stripped \<notin> set seen then seen @ [stripped] else seen) vs)"

definition openai_api_key_chain :: "llm_settings \<Rightarrow> string list" where
  "openai_api_key_chain cfg = dedup_nonempty [] [openai_api_key cfg, openai_api_key_backup cfg]"

definition anthropic_api_key_chain :: "llm_settings \<Rightarrow> string list" where
  "anthropic_api_key_chain cfg = dedup_nonempty [] [anthropic_api_key cfg, anthropic_api_key_backup cfg]"

fun extra_providers :: "llm_settings \<Rightarrow> string list \<Rightarrow> string list \<Rightarrow> string list" where
  "extra_providers cfg extras [] = extras"
| "extra_providers cfg extras (part # parts) =
     (let provider = py_lower (py_strip part) in
      if provider \<notin> {openai, anthropic} \<or> provider = normalized_llm_provider cfg then extra_providers cfg extras parts
      else if \<not> credits_api_key_configured cfg provider then extra_providers cfg extras parts
      else extra_providers cfg (if provider \<in> set extras then extras else extras @ [provider]) parts)"

definition credits_providers :: "llm_settings \<Rightarrow> string list" where
  "credits_providers cfg = normalized_llm_provider cfg # extra_providers cfg [] (comma_split (llm_providers_raw cfg))"

section \<open>Models\<close>

definition OPENAI_PRODUCT_MODELS :: "(string \<times> string) list" where
  "OPENAI_PRODUCT_MODELS =
     [(''gpt-5.1'', ''GPT-5.1''), (''gpt-5'', ''GPT-5''), (''gpt-5-mini'', ''GPT-5 mini''), (''gpt-4.1'', ''GPT-4.1''),
      (''gpt-4o'', ''GPT-4o'')]"

definition ANTHROPIC_PRODUCT_MODELS :: "(string \<times> string) list" where
  "ANTHROPIC_PRODUCT_MODELS =
     [(''claude-opus-5'', ''Claude Opus 5''), (''claude-sonnet-5'', ''Claude Sonnet 5''),
      (''claude-fable-5'', ''Claude Fable 5''), (''claude-opus-4-7'', ''Claude Opus 4.7''),
      (''claude-sonnet-4-6'', ''Claude Sonnet 4.6''), (''claude-opus-4-6'', ''Claude Opus 4.6''),
      (''claude-haiku-4-5-20251001'', ''Claude Haiku 4.5''), (''claude-sonnet-4-5'', ''Claude Sonnet 4.5'')]"

definition product_models_for :: "string \<Rightarrow> (string \<times> string) list" where
  "product_models_for provider =
     (if py_lower (py_strip provider) = openai then OPENAI_PRODUCT_MODELS else ANTHROPIC_PRODUCT_MODELS)"

text \<open>The loop over the items of the environment map: a stripped key keeps its first place and takes its last name.\<close>

fun parsed_models :: "(string \<times> string) list \<Rightarrow> json_obj \<Rightarrow> (string \<times> string) list" where
  "parsed_models acc [] = acc"
| "parsed_models acc ((key, v) # items) =
     (let stripped = py_strip key in
      if stripped = [] then parsed_models acc items
      else (case v of
          JStr name \<Rightarrow> if name = [] then parsed_models acc items else parsed_models (AList.update stripped name acc) items
        | _ \<Rightarrow> parsed_models acc items))"

definition env_models :: "json_reader \<Rightarrow> string \<Rightarrow> (string \<times> string) list" where
  "env_models loads raw =
     (case loads (if raw = [] then ''{}'' else raw) of Some (JObj d) \<Rightarrow> parsed_models [] d | _ \<Rightarrow> [])"

text \<open>The loop \<open>if model_id not in merged\<close>: the first entry of an id stays.\<close>

fun add_missing :: "(string \<times> 'n) list \<Rightarrow> (string \<times> 'n) list \<Rightarrow> (string \<times> 'n) list" where
  "add_missing merged [] = merged"
| "add_missing merged ((i, n) # items) =
     add_missing (if i \<in> fst ` set merged then merged else merged @ [(i, n)]) items"

definition allowed_models_for :: "json_reader \<Rightarrow> llm_settings \<Rightarrow> string \<Rightarrow> (string \<times> string) list" where
  "allowed_models_for loads cfg provider =
     (let is_openai = (py_lower (py_strip provider) = openai);
          parsed = env_models loads (if is_openai then openai_models_raw cfg else anthropic_models_raw cfg);
          builtin = product_models_for (if is_openai then openai else anthropic);
          dflt = (if is_openai then openai_model cfg else anthropic_model cfg);
          default_name = (case map_of parsed dflt of Some n \<Rightarrow> n | None \<Rightarrow> or_default (map_of builtin dflt) dflt)
      in add_missing (add_missing [(dflt, default_name)] (map (\<lambda>(i, n). (i, or_default (map_of parsed i) n)) builtin)) parsed)"

definition allowed_models :: "json_reader \<Rightarrow> llm_settings \<Rightarrow> (string \<times> string) list" where
  "allowed_models loads cfg = allowed_models_for loads cfg (normalized_llm_provider cfg)"

definition allowed_models_union :: "json_reader \<Rightarrow> llm_settings \<Rightarrow> (string \<times> string) list" where
  "allowed_models_union loads cfg = foldl (\<lambda>merged provider. add_missing merged (allowed_models_for loads cfg provider)) [] (credits_providers cfg)"

definition credits_provider_for_model :: "json_reader \<Rightarrow> llm_settings \<Rightarrow> string option \<Rightarrow> string" where
  "credits_provider_for_model loads cfg model =
     (case model of
        None \<Rightarrow> normalized_llm_provider cfg
      | Some i \<Rightarrow>
          (case find (\<lambda>provider. i \<in> fst ` set (allowed_models_for loads cfg provider)) (credits_providers cfg) of
             Some provider \<Rightarrow> provider
           | None \<Rightarrow> normalized_llm_provider cfg))"

record model_row =
  mo_id :: string
  mo_name :: string
  mo_default :: bool
  mo_provider :: string

fun add_rows :: "string \<Rightarrow> model_row list \<Rightarrow> (string \<times> string) list \<Rightarrow> model_row list" where
  "add_rows provider rows [] = rows"
| "add_rows provider rows ((i, n) # items) =
     add_rows provider (if i \<in> mo_id ` set rows then rows
       else rows @ [\<lparr>mo_id = i, mo_name = n, mo_default = False, mo_provider = provider\<rparr>]) items"

definition catalog_models :: "json_reader \<Rightarrow> llm_settings \<Rightarrow> model_row list" where
  "catalog_models loads cfg =
     (let default_id = default_model cfg;
          active = hd (credits_providers cfg);
          default_display = or_default (map_of (allowed_models_for loads cfg active) default_id) default_id
      in foldl (\<lambda>rows provider. add_rows provider rows (allowed_models_for loads cfg provider))
           [\<lparr>mo_id = default_id, mo_name = default_display, mo_default = True, mo_provider = active\<rparr>] (credits_providers cfg))"

text \<open>\<open>orchestrator._model_for_provider\<close>: a model the provider does not offer is not sent to it.\<close>

definition model_for_provider :: "json_reader \<Rightarrow> llm_settings \<Rightarrow> string option \<Rightarrow> string \<Rightarrow> string option" where
  "model_for_provider loads cfg model provider =
     (case model of None \<Rightarrow> None
      | Some i \<Rightarrow> if i \<in> fst ` set (allowed_models_for loads cfg provider) then Some i else None)"

section \<open>The catalog tells the truth\<close>

lemma map_of_add_missing:
  "map_of (add_missing merged items) i = (case map_of merged i of Some n \<Rightarrow> Some n | None \<Rightarrow> map_of items i)"
proof (induction merged items rule: add_missing.induct)
  case (2 merged j n items)
  have "map_of merged j \<noteq> None" if "j \<in> fst ` set merged"
    using that by (simp add: map_of_eq_None_iff)
  then show ?case
    using 2 by (cases "j \<in> fst ` set merged") (auto split: option.splits simp: map_add_def)
qed (simp split: option.split)

lemma distinct_add_missing: "distinct (map fst merged) \<Longrightarrow> distinct (map fst (add_missing merged items))"
  by (induction merged items rule: add_missing.induct) (auto simp: image_iff)

lemma map_of_add_all:
  "map_of (foldl (\<lambda>merged p. add_missing merged (f p)) m ps) i =
     (case map_of m i of Some n \<Rightarrow> Some n | None \<Rightarrow> first_some (\<lambda>p. map_of (f p) i) ps)"
  by (induction ps arbitrary: m) (auto simp: map_of_add_missing split: option.splits)

lemma distinct_add_all: "distinct (map fst m) \<Longrightarrow> distinct (map fst (foldl (\<lambda>merged p. add_missing merged (f p)) m ps))"
  by (induction ps arbitrary: m) (auto simp: distinct_add_missing)

definition listed :: "model_row list \<Rightarrow> (string \<times> model_row) list" where
  "listed rows = map (\<lambda>r. (mo_id r, r)) rows"

definition plain_rows :: "string \<Rightarrow> (string \<times> string) list \<Rightarrow> (string \<times> model_row) list" where
  "plain_rows provider items = map (\<lambda>(i, n). (i, \<lparr>mo_id = i, mo_name = n, mo_default = False, mo_provider = provider\<rparr>)) items"

lemma listed_add_rows: "listed (add_rows provider rows items) = add_missing (listed rows) (plain_rows provider items)"
  by (induction provider rows items rule: add_rows.induct) (auto simp: listed_def plain_rows_def image_image)

lemma listed_catalog:
  "listed (foldl (\<lambda>rows p. add_rows p rows (f p)) rows ps) = foldl (\<lambda>m p. add_missing m (plain_rows p (f p))) (listed rows) ps"
  by (induction ps arbitrary: rows) (simp_all add: listed_add_rows)

lemma map_of_listed: "distinct (map fst (listed rows)) \<Longrightarrow> r \<in> set rows \<Longrightarrow> map_of (listed rows) (mo_id r) = Some r"
  by (rule map_of_is_SomeI) (auto simp: listed_def)

lemma map_of_plain_rows:
  "map_of (plain_rows p items) i = map_option (\<lambda>n. \<lparr>mo_id = i, mo_name = n, mo_default = False, mo_provider = p\<rparr>) (map_of items i)"
  unfolding plain_rows_def by (induction items) auto

lemma provider_names [simp]:
  "py_lower (py_strip openai) = openai" "py_lower (py_strip anthropic) = anthropic"
  "normalized_llm_provider cfg = openai \<or> normalized_llm_provider cfg = anthropic"
  by (code_simp, code_simp, simp add: normalized_llm_provider_def)

lemma default_allowed: "default_model cfg \<in> fst ` set (allowed_models_for loads cfg (normalized_llm_provider cfg))"
proof -
  have "map_of (allowed_models_for loads cfg (normalized_llm_provider cfg)) (default_model cfg) \<noteq> None"
  proof (cases "normalized_llm_provider cfg = openai")
    case True
    then show ?thesis
      by (simp add: allowed_models_for_def Let_def map_of_add_missing default_model_def)
  next
    case False
    then have "normalized_llm_provider cfg = anthropic"
      using provider_names(3) by blast
    then show ?thesis
      by (simp add: allowed_models_for_def Let_def map_of_add_missing default_model_def)
  qed
  then show ?thesis
    by (simp add: map_of_eq_None_iff)
qed

lemma hd_providers: "credits_providers cfg = normalized_llm_provider cfg # tl (credits_providers cfg)"
  by (simp add: credits_providers_def)

lemma first_provider:
  assumes "first_some (\<lambda>p. map_of (plain_rows p (f p)) i) ps = Some r"
  shows "find (\<lambda>p. i \<in> fst ` set (f p)) ps = Some (mo_provider r) \<and> map_of (f (mo_provider r)) i = Some (mo_name r)
    \<and> \<not> mo_default r \<and> mo_id r = i"
  using assms
proof (induction ps)
  case (Cons p ps)
  then show ?case
    by (cases "map_of (f p) i") (auto simp: map_of_plain_rows map_of_eq_None_iff dest: map_of_SomeD intro: rev_image_eqI)
qed simp

lemma no_provider:
  "first_some (\<lambda>p. map_of (f p) i) ps = None \<longleftrightarrow> first_some (\<lambda>p. map_of (plain_rows p (f p)) i) ps = None"
  by (induction ps) (auto simp: map_of_plain_rows split: option.splits)

definition default_row :: "json_reader \<Rightarrow> llm_settings \<Rightarrow> model_row" where
  "default_row loads cfg =
     \<lparr>mo_id = default_model cfg,
      mo_name = or_default (map_of (allowed_models_for loads cfg (normalized_llm_provider cfg)) (default_model cfg)) (default_model cfg),
      mo_default = True, mo_provider = normalized_llm_provider cfg\<rparr>"

lemma default_row_simps [simp]:
  "mo_id (default_row loads cfg) = default_model cfg" "mo_provider (default_row loads cfg) = normalized_llm_provider cfg"
  "mo_default (default_row loads cfg)"
  by (simp_all add: default_row_def)

lemma catalog_as_listed:
  "listed (catalog_models loads cfg) =
     foldl (\<lambda>m p. add_missing m (plain_rows p (allowed_models_for loads cfg p))) [(default_model cfg, default_row loads cfg)] (credits_providers cfg)"
  unfolding catalog_models_def Let_def listed_catalog by (simp add: listed_def default_row_def credits_providers_def)

lemma catalog_distinct: "distinct (map fst (listed (catalog_models loads cfg)))"
  unfolding catalog_as_listed by (rule distinct_add_all) simp

lemma catalog_lookup:
  "map_of (listed (catalog_models loads cfg)) i =
     (if i = default_model cfg then Some (default_row loads cfg)
      else first_some (\<lambda>p. map_of (plain_rows p (allowed_models_for loads cfg p)) i) (credits_providers cfg))"
  unfolding catalog_as_listed map_of_add_all by simp

lemma catalog_row_cases:
  assumes "r \<in> set (catalog_models loads cfg)"
  obtains "r = default_row loads cfg"
  | "mo_id r \<noteq> default_model cfg"
    and "first_some (\<lambda>p. map_of (plain_rows p (allowed_models_for loads cfg p)) (mo_id r)) (credits_providers cfg) = Some r"
  using map_of_listed [OF catalog_distinct assms] unfolding catalog_lookup by (auto split: if_splits)

lemma add_rows_prefix: "\<exists>more. add_rows p rows items = rows @ more"
  by (induction p rows items rule: add_rows.induct) (auto split: if_splits)

lemma all_rows_prefix: "\<exists>more. foldl (\<lambda>rows p. add_rows p rows (f p)) rows ps = rows @ more"
proof (induction ps arbitrary: rows)
  case (Cons p ps)
  obtain m where m: "add_rows p rows (f p) = rows @ m"
    using add_rows_prefix by blast
  show ?case
    using Cons [of "rows @ m"] by (auto simp: m)
qed simp

lemma catalog_head: "\<exists>more. catalog_models loads cfg = default_row loads cfg # more"
  using all_rows_prefix [of "allowed_models_for loads cfg" "[default_row loads cfg]" "credits_providers cfg"]
  by (simp add: catalog_models_def Let_def default_row_def credits_providers_def)

lemma default_row_serves:
  "credits_provider_for_model loads cfg (Some (default_model cfg)) = normalized_llm_provider cfg
   \<and> map_of (allowed_models_for loads cfg (normalized_llm_provider cfg)) (default_model cfg) = Some (mo_name (default_row loads cfg))"
proof -
  obtain n where n: "map_of (allowed_models_for loads cfg (normalized_llm_provider cfg)) (default_model cfg) = Some n"
    using default_allowed [of cfg loads] by (metis map_of_eq_None_iff option.exhaust)
  then have "mo_name (default_row loads cfg) = n"
    by (simp only: default_row_def model_row.simps or_default_simps)
  moreover have "credits_provider_for_model loads cfg (Some (default_model cfg)) = normalized_llm_provider cfg"
    unfolding credits_provider_for_model_def credits_providers_def option.case find.simps
    using default_allowed [of cfg loads] by (simp only: if_True option.case)
  ultimately show ?thesis
    using n by simp
qed

lemma catalog_row_serves:
  assumes "r \<in> set (catalog_models loads cfg)"
  shows "credits_provider_for_model loads cfg (Some (mo_id r)) = mo_provider r
    \<and> map_of (allowed_models_for loads cfg (mo_provider r)) (mo_id r) = Some (mo_name r) \<and> (mo_default r \<longleftrightarrow> r = default_row loads cfg)"
  using assms
proof (cases rule: catalog_row_cases)
  case 1
  then show ?thesis
    using default_row_serves [of loads cfg] by simp
next
  case 2
  then show ?thesis
    using first_provider [OF 2(2)] by (auto simp: credits_provider_for_model_def)
qed

lemma catalog_ids: "mo_id ` set (catalog_models loads cfg) = fst ` set (allowed_models_union loads cfg)"
proof -
  have "i \<in> fst ` set (listed (catalog_models loads cfg)) \<longleftrightarrow> i \<in> fst ` set (allowed_models_union loads cfg)" for i
  proof -
    have "map_of (allowed_models_union loads cfg) (default_model cfg) \<noteq> None"
      using default_row_serves [of loads cfg]
      by (simp add: allowed_models_union_def map_of_add_all credits_providers_def map_of_add_missing)
    then have "map_of (listed (catalog_models loads cfg)) i = None \<longleftrightarrow> map_of (allowed_models_union loads cfg) i = None"
      using no_provider [of "allowed_models_for loads cfg" i "credits_providers cfg"]
      by (auto simp: catalog_lookup allowed_models_union_def map_of_add_all)
    then show ?thesis
      by (simp add: map_of_eq_None_iff)
  qed
  then show ?thesis
    by (auto simp: listed_def image_image)
qed

text \<open>
  Every row of the catalog says which provider serves its model: sending the row's id to the server routes the chat to
  exactly the provider of the row, which offers the model under the name shown and is asked for it unchanged. The ids
  are distinct, the default is the first row and the only one marked so, and the ids are those the server accepts.
\<close>

theorem catalog_truthful:
  "distinct (map mo_id (catalog_models loads cfg))
   \<and> map mo_default (catalog_models loads cfg) = True # replicate (length (catalog_models loads cfg) - 1) False
   \<and> mo_id (hd (catalog_models loads cfg)) = default_model cfg
   \<and> mo_id ` set (catalog_models loads cfg) = fst ` set (allowed_models_union loads cfg)
   \<and> (\<forall>r \<in> set (catalog_models loads cfg).
        credits_provider_for_model loads cfg (Some (mo_id r)) = mo_provider r
        \<and> model_for_provider loads cfg (Some (mo_id r)) (mo_provider r) = Some (mo_id r)
        \<and> map_of (allowed_models_for loads cfg (mo_provider r)) (mo_id r) = Some (mo_name r))"
proof -
  obtain more where more: "catalog_models loads cfg = default_row loads cfg # more"
    using catalog_head by blast
  have ids: "distinct (map mo_id (catalog_models loads cfg))"
    using catalog_distinct [of loads cfg] by (simp add: listed_def comp_def)
  have "map mo_default more = replicate (length more) False"
  proof (rule replicate_eqI)
    show "d = False" if "d \<in> set (map mo_default more)" for d
      using that ids catalog_row_serves [of _ loads cfg] unfolding more by force
  qed simp
  then have "map mo_default (catalog_models loads cfg) = True # replicate (length (catalog_models loads cfg) - 1) False"
    by (simp add: more)
  moreover have "model_for_provider loads cfg (Some (mo_id r)) (mo_provider r) = Some (mo_id r)" if "r \<in> set (catalog_models loads cfg)" for r
    using catalog_row_serves [OF that] by (auto simp: model_for_provider_def dest!: map_of_SomeD intro: rev_image_eqI)
  moreover have "mo_id (hd (catalog_models loads cfg)) = default_model cfg"
    by (simp add: more)
  ultimately show ?thesis
    using ids catalog_row_serves [of _ loads cfg] catalog_ids [of loads cfg] by blast
qed

text \<open>An OpenAI instance with both providers and one model added by the operator.\<close>

definition dual_instance :: llm_settings where
  "dual_instance =
     \<lparr>llm_provider = '' OpenAI '', llm_providers_raw = ''openai, Anthropic'', anthropic_models_raw = ''{}'', openai_models_raw = ''m'',
      openai_api_key = ''k1'', openai_api_key_backup = ''k2'', openai_model = ''gpt-5'', anthropic_api_key = ''k3'',
      anthropic_api_key_backup = [], anthropic_model = ''claude-sonnet-4-5'', anthropic_chat_fallback_openai_model = [],
      openai_chat_fallback_anthropic_model = ''claude-sonnet-5''\<rparr>"

definition demo_loads :: json_reader where
  "demo_loads raw = (if raw = ''m'' then Some (JObj [('' gpt-6 '', JStr ''GPT-6''), (''gpt-5'', JInt 1)]) else Some (JObj []))"

lemma dual_catalog:
  "map (\<lambda>r. (mo_id r, mo_provider r)) (catalog_models demo_loads dual_instance) =
     (''gpt-5'', openai) # map (\<lambda>i. (i, openai)) [''gpt-5.1'', ''gpt-5-mini'', ''gpt-4.1'', ''gpt-4o'', ''gpt-6'']
     @ map (\<lambda>i. (i, anthropic)) [''claude-sonnet-4-5'', ''claude-opus-5'', ''claude-sonnet-5'', ''claude-fable-5'',
         ''claude-opus-4-7'', ''claude-sonnet-4-6'', ''claude-opus-4-6'', ''claude-haiku-4-5-20251001'']"
  by code_simp

theorem catalog_truthful_witness:
  "credits_provider_for_model demo_loads dual_instance (Some ''claude-opus-5'') = anthropic"
proof -
  have "(''claude-opus-5'', anthropic) \<in> set (map (\<lambda>r. (mo_id r, mo_provider r)) (catalog_models demo_loads dual_instance))"
    unfolding dual_catalog by simp
  then obtain r where "r \<in> set (catalog_models demo_loads dual_instance)" "mo_id r = ''claude-opus-5''" "mo_provider r = anthropic"
    by auto
  then show ?thesis
    using catalog_truthful [of demo_loads dual_instance] by metis
qed

end
