(* ===== verification/Key_Failover.thy ===== *)
theory Key_Failover
  imports Llm_Settings Errors
begin

text \<open>
  \<open>chat/key_failover.py\<close> and the loop \<open>_credits_llm_with_failover\<close> of \<open>chat/orchestrator.py\<close>: which keys a credits chat
  tries and when it leaves one. Python exceptions live in a list (\<open>exc_heap\<close>); \<open>__cause__\<close> and \<open>__context__\<close> are
  positions in it. \<open>json.dumps\<close>, \<open>json.loads\<close> and the LLM clients (\<open>ask\<close>, which also counts the calls) are arguments.
\<close>

section \<open>Exceptions\<close>

record exc_node =
  ex_name :: string
  ex_class :: "error_class option"
  ex_status :: "int option"
  ex_body :: json
  ex_response_text :: "string option"
  ex_str :: string
  ex_cause :: "nat option"
  ex_context :: "nat option"

type_synonym exc_heap = "exc_node list"

definition is_auth_error :: "exc_node \<Rightarrow> bool" where
  "is_auth_error x \<longleftrightarrow> ex_name x \<in> {''OpenAIAuthError'', ''AnthropicAuthError''}"

definition is_upstream :: "exc_node \<Rightarrow> bool" where
  "is_upstream x \<longleftrightarrow> (case ex_class x of None \<Rightarrow> False | Some c \<Rightarrow> is_a c UpstreamError)"

text \<open>\<open>_walk\<close>: the exception and what it was raised from, each once.\<close>

function walk :: "exc_heap \<Rightarrow> nat list \<Rightarrow> nat option \<Rightarrow> exc_node list" where
  "walk h seen None = []"
| "walk h seen (Some i) =
     (if i < length h \<and> i \<notin> set seen then h ! i # walk h (i # seen) (opt_or (ex_cause (h ! i)) (ex_context (h ! i))) else [])"
  by pat_completeness auto

termination walk
proof (relation "measure (\<lambda>(h, seen, c). card ({..< length h} - set seen))")
  fix h :: exc_heap and seen i
  assume "i < length h \<and> i \<notin> set seen"
  then have "{..< length h} - set (i # seen) \<subset> {..< length h} - set seen"
    by auto
  then show "((h, i # seen, opt_or (ex_cause (h ! i)) (ex_context (h ! i))), h, seen, Some i)
      \<in> measure (\<lambda>(h, seen, c). card ({..< length h} - set seen))"
    by (simp add: psubset_card_mono)
qed simp

definition body_of :: "(json_obj \<Rightarrow> string) \<Rightarrow> exc_node \<Rightarrow> string" where
  "body_of dumps x =
     (case ex_body x of
        JObj d \<Rightarrow> dumps d
      | raw \<Rightarrow> (case (case raw of JStr s \<Rightarrow> s | _ \<Rightarrow> []) of
            c # cs \<Rightarrow> c # cs
          | [] \<Rightarrow> (case ex_response_text x of Some (c # cs) \<Rightarrow> c # cs | _ \<Rightarrow> ex_str x)))"

definition status_from_attrs :: "(json_obj \<Rightarrow> string) \<Rightarrow> exc_node \<Rightarrow> int option \<times> string" where
  "status_from_attrs dumps x =
     (if ex_class x \<noteq> None then (None, ex_str x)
      else (case ex_status x of None \<Rightarrow> (None, ex_str x) | Some n \<Rightarrow> (Some n, body_of dumps x)))"

fun first_status :: "(json_obj \<Rightarrow> string) \<Rightarrow> string option \<Rightarrow> exc_node list \<Rightarrow> (int \<times> string) option" where
  "first_status dumps auth [] = (case auth of None \<Rightarrow> None | Some text \<Rightarrow> Some (401, text))"
| "first_status dumps auth (x # xs) =
     (case status_from_attrs dumps x of
        (Some n, body) \<Rightarrow> Some (n, body)
      | (None, _) \<Rightarrow> first_status dumps (if is_auth_error x then Some (ex_str x) else auth) xs)"

text \<open>\<open>_status_and_body\<close>: the caller reads the text only when there is a status.\<close>

definition status_and_body :: "(json_obj \<Rightarrow> string) \<Rightarrow> exc_heap \<Rightarrow> nat \<Rightarrow> (int \<times> string) option" where
  "status_and_body dumps h e = first_status dumps None (walk h [] (Some e))"

definition error_object :: "json_reader \<Rightarrow> string \<Rightarrow> json_obj" where
  "error_object loads body =
     (if CHR ''{'' \<notin> set body \<or> CHR ''}'' \<notin> set body then []
      else let start = length (takeWhile (\<lambda>c. c \<noteq> CHR ''{'') body);
               stop = length body - length (takeWhile (\<lambda>c. c \<noteq> CHR ''}'') (rev body))
           in (case loads (drop start (take stop body)) of
                 Some (JObj payload) \<Rightarrow> as_dict (jget ''error'' payload)
               | _ \<Rightarrow> []))"

section \<open>When a key is left\<close>

definition QUOTA_MARKERS :: "string list" where
  "QUOTA_MARKERS = [''insufficient_quota'', ''credit_balance_exhausted'', ''billing_hard_limit_reached'', ''account_deactivated'']"

definition RATE_LIMIT_MARKERS :: "string list" where
  "RATE_LIMIT_MARKERS = [''rate_limit_exceeded'', ''rate_limit_error'', ''overloaded_error'']"

definition QUOTA_TEXT_MARKERS :: "string list" where
  "QUOTA_TEXT_MARKERS =
     [''credit balance is too low'', ''credit balance'', ''no credits remaining'', ''insufficient_quota'',
      ''insufficient credits'', ''quota'', ''billing'']"

definition machine_codes :: "json_obj \<Rightarrow> string list" where
  "machine_codes error =
     List.map_filter (\<lambda>f. case jget f error of JStr s \<Rightarrow> Some (py_lower (py_strip s)) | _ \<Rightarrow> None) [''type'', ''code'']"

definition quota_text :: "json_obj \<Rightarrow> string \<Rightarrow> bool" where
  "quota_text error body =
     (let haystack = (case jget ''message'' error of JStr s \<Rightarrow> py_lower s | _ \<Rightarrow> py_lower body)
      in list_ex (\<lambda>marker. py_contains marker haystack) QUOTA_TEXT_MARKERS)"

definition is_credential_failure :: "json_reader \<Rightarrow> (json_obj \<Rightarrow> string) \<Rightarrow> exc_heap \<Rightarrow> nat \<Rightarrow> bool" where
  "is_credential_failure loads dumps h e =
     (case status_and_body dumps h e of
        None \<Rightarrow> False
      | Some (status, body) \<Rightarrow>
          if status \<in> {401, 403} then True
          else if status \<notin> {400, 429} then False
          else let error = error_object loads body; codes = machine_codes error in
            if list_ex (\<lambda>c. c \<in> set QUOTA_MARKERS) codes then True
            else if list_ex (\<lambda>c. c \<in> set RATE_LIMIT_MARKERS) codes then False
            else quota_text error body)"

definition is_anthropic_upstream_failure :: "exc_heap \<Rightarrow> nat \<Rightarrow> bool" where
  "is_anthropic_upstream_failure h e =
     (if ex_name (h ! e) = ''AnthropicAuthError'' then False
      else list_ex (\<lambda>x. is_upstream x \<or> ex_name x \<in> {''APITimeoutError'', ''APIConnectionError'', ''APIStatusError''})
             (walk h [] (Some e)))"

section \<open>The candidates\<close>

record attempt =
  at_provider :: string
  at_key_index :: nat
  at_api_key :: "string option"
  at_model :: "string option"

definition stripped_or_none :: "string \<Rightarrow> string option" where
  "stripped_or_none raw = (let target = py_strip raw in if target = [] then None else Some target)"

definition key_attempts :: "string \<Rightarrow> string option \<Rightarrow> string list \<Rightarrow> attempt list" where
  "key_attempts provider model keys =
     (if keys = [] then [\<lparr>at_provider = provider, at_key_index = 0, at_api_key = None, at_model = model\<rparr>]
      else map (\<lambda>(i, key). \<lparr>at_provider = provider, at_key_index = i, at_api_key = Some key, at_model = model\<rparr>) (enumerate 0 keys))"

definition build_attempt_chain :: "json_reader \<Rightarrow> llm_settings \<Rightarrow> string option \<Rightarrow> attempt list" where
  "build_attempt_chain loads cfg session_model =
     (let primary = credits_provider_for_model loads cfg session_model;
          claude_first = (primary = anthropic);
          secondary = (if claude_first then openai else anthropic);
          primary_keys = (if claude_first then anthropic_api_key_chain cfg else openai_api_key_chain cfg);
          secondary_keys = (if claude_first then openai_api_key_chain cfg else anthropic_api_key_chain cfg);
          crossover = stripped_or_none (if claude_first then anthropic_chat_fallback_openai_model cfg else openai_chat_fallback_anthropic_model cfg)
      in key_attempts primary None primary_keys
         @ (case crossover of None \<Rightarrow> [] | Some m \<Rightarrow> key_attempts secondary (Some m) secondary_keys))"

definition next_attempt_index ::
  "json_reader \<Rightarrow> (json_obj \<Rightarrow> string) \<Rightarrow> attempt list \<Rightarrow> nat \<Rightarrow> exc_heap \<Rightarrow> nat \<Rightarrow> nat option" where
  "next_attempt_index loads dumps attempts i h e =
     (if is_credential_failure loads dumps h e then (if i + 1 < length attempts then Some (i + 1) else None)
      else if at_provider (attempts ! i) = anthropic \<and> is_anthropic_upstream_failure h e
      then find (\<lambda>j. at_provider (attempts ! j) \<noteq> anthropic) [i + 1 ..< length attempts]
      else None)"

section \<open>The loop\<close>

text \<open>What is sent: the model of a crossover candidate, or the session's model unless the provider does not offer it; the
  stored provider state only to an OpenAI candidate.\<close>

definition provider_state_for_attempt :: "attempt \<Rightarrow> json_obj option \<Rightarrow> json_obj option" where
  "provider_state_for_attempt a stored =
     (case stored of None \<Rightarrow> None
      | Some st \<Rightarrow> if at_provider a \<noteq> openai then None
                  else if jget ''provider'' st \<notin> {JNull, JStr openai} then None else Some st)"

record llm_request =
  rq_provider :: string
  rq_api_key :: "string option"
  rq_model :: "string option"
  rq_state :: "json_obj option"

definition attempt_request :: "json_reader \<Rightarrow> llm_settings \<Rightarrow> string option \<Rightarrow> json_obj option \<Rightarrow> attempt \<Rightarrow> llm_request" where
  "attempt_request loads cfg session_model stored a =
     \<lparr>rq_provider = at_provider a, rq_api_key = at_api_key a,
      rq_model = (case at_model a of Some m \<Rightarrow> Some m | None \<Rightarrow> model_for_provider loads cfg session_model (at_provider a)),
      rq_state = provider_state_for_attempt a stored\<rparr>"

text \<open>How a call to a client ends. Anything the \<open>except\<close> clause does not name leaves the loop as it is.\<close>

datatype 'r answer = Answered 'r | Failed exc_heap nat

definition handled :: "exc_heap \<Rightarrow> nat \<Rightarrow> bool" where
  "handled h e \<longleftrightarrow> is_auth_error (h ! e) \<or> is_upstream (h ! e)"

text \<open>What the loop returns: a result with the provider that gave it, or the error that leaves it. \<open>New_upstream\<close> is the
  \<open>UpstreamError\<close> raised in place of a client's authorization error.\<close>

datatype 'r chat_answer = Chat_result 'r string | Chat_error exc_heap nat | New_upstream exc_heap nat

function failover ::
  "json_reader \<Rightarrow> (json_obj \<Rightarrow> string) \<Rightarrow> (nat \<Rightarrow> attempt \<Rightarrow> 'r answer) \<Rightarrow> attempt list \<Rightarrow> nat \<Rightarrow> nat \<Rightarrow> 'r chat_answer \<times> nat list" where
  "failover loads dumps ask attempts calls i =
     (case ask calls (attempts ! i) of
        Answered r \<Rightarrow> (Chat_result r (at_provider (attempts ! i)), [i])
      | Failed h e \<Rightarrow>
          if \<not> handled h e then (Chat_error h e, [i])
          else (case next_attempt_index loads dumps attempts i h e of
              None \<Rightarrow> (if is_auth_error (h ! e) then New_upstream h e else Chat_error h e, [i])
            | Some j \<Rightarrow> (case failover loads dumps ask attempts (calls + 1) j of (res, tried) \<Rightarrow> (res, i # tried))))"
  by pat_completeness auto

lemma next_attempt_later: "next_attempt_index loads dumps attempts i h e = Some j \<Longrightarrow> i < j \<and> j < length attempts"
  unfolding next_attempt_index_def by (auto split: if_splits dest!: find_SomeD)

termination failover
proof (relation "measure (\<lambda>(_, _, _, attempts, _, i). length attempts - i)")
  fix loads dumps ask attempts calls i h e j
  assume "next_attempt_index loads dumps attempts i h e = Some j"
  from next_attempt_later [OF this]
  show "((loads, dumps, ask, attempts, calls + 1, j), loads, dumps, ask, attempts, calls, i)
      \<in> measure (\<lambda>(_, _, _, attempts, _, i). length attempts - i)"
    by auto
qed simp

declare failover.simps [simp del]

definition credits_llm_with_failover ::
  "json_reader \<Rightarrow> (json_obj \<Rightarrow> string) \<Rightarrow> llm_settings \<Rightarrow> (nat \<Rightarrow> llm_request \<Rightarrow> 'r answer) \<Rightarrow> string option \<Rightarrow> json_obj option
     \<Rightarrow> 'r chat_answer \<times> nat list" where
  "credits_llm_with_failover loads dumps cfg ask session_model stored =
     failover loads dumps (\<lambda>calls a. ask calls (attempt_request loads cfg session_model stored a))
       (build_attempt_chain loads cfg session_model) 0 0"

section \<open>Which candidates a turn tries\<close>

definition moved_on ::
  "json_reader \<Rightarrow> (json_obj \<Rightarrow> string) \<Rightarrow> (nat \<Rightarrow> attempt \<Rightarrow> 'r answer) \<Rightarrow> attempt list \<Rightarrow> nat \<Rightarrow> nat \<Rightarrow> nat \<Rightarrow> bool" where
  "moved_on loads dumps ask attempts n i j \<longleftrightarrow>
     (case ask n (attempts ! i) of
        Answered _ \<Rightarrow> False
      | Failed h e \<Rightarrow> handled h e \<and>
          (if is_credential_failure loads dumps h e then j = Suc i
           else at_provider (attempts ! i) = anthropic \<and> is_anthropic_upstream_failure h e \<and> at_provider (attempts ! j) \<noteq> anthropic))"

definition ended_with ::
  "json_reader \<Rightarrow> (json_obj \<Rightarrow> string) \<Rightarrow> (nat \<Rightarrow> attempt \<Rightarrow> 'r answer) \<Rightarrow> attempt list \<Rightarrow> nat \<Rightarrow> nat \<Rightarrow> 'r chat_answer \<Rightarrow> bool" where
  "ended_with loads dumps ask attempts n i res \<longleftrightarrow>
     (case res of
        Chat_result r p \<Rightarrow> ask n (attempts ! i) = Answered r \<and> p = at_provider (attempts ! i)
      | Chat_error h e \<Rightarrow> ask n (attempts ! i) = Failed h e
          \<and> (handled h e \<longrightarrow> next_attempt_index loads dumps attempts i h e = None \<and> \<not> is_auth_error (h ! e))
      | New_upstream h e \<Rightarrow> ask n (attempts ! i) = Failed h e \<and> is_auth_error (h ! e)
          \<and> next_attempt_index loads dumps attempts i h e = None)"

lemma next_attempt_moves:
  "ask n (attempts ! i) = Failed h e \<Longrightarrow> handled h e \<Longrightarrow> next_attempt_index loads dumps attempts i h e = Some j
   \<Longrightarrow> moved_on loads dumps ask attempts n i j"
  unfolding next_attempt_index_def moved_on_def by (auto split: if_splits dest!: find_SomeD)

definition trace_ok ::
  "json_reader \<Rightarrow> (json_obj \<Rightarrow> string) \<Rightarrow> (nat \<Rightarrow> attempt \<Rightarrow> 'r answer) \<Rightarrow> attempt list \<Rightarrow> nat \<Rightarrow> nat list \<Rightarrow> 'r chat_answer \<Rightarrow> bool" where
  "trace_ok loads dumps ask attempts n tried res \<longleftrightarrow>
     tried \<noteq> [] \<and> sorted_wrt (<) tried \<and> set tried \<subseteq> {..< length attempts}
     \<and> (\<forall>k. Suc k < length tried \<longrightarrow> moved_on loads dumps ask attempts (n + k) (tried ! k) (tried ! Suc k))
     \<and> ended_with loads dumps ask attempts (n + length tried - 1) (List.last tried) res"

lemma trace_ok_single:
  "i < length attempts \<Longrightarrow> ended_with loads dumps ask attempts n i res \<Longrightarrow> trace_ok loads dumps ask attempts n [i] res"
  by (simp add: trace_ok_def)

lemma trace_ok_cons:
  assumes "trace_ok loads dumps ask attempts (n + 1) (j # tried) res" and "i < j" and "moved_on loads dumps ask attempts n i j"
  shows "trace_ok loads dumps ask attempts n (i # j # tried) res"
proof -
  have steps: "moved_on loads dumps ask attempts (n + k) ((i # j # tried) ! k) ((j # tried) ! k)"
    if "Suc k < length (i # j # tried)" for k
  proof (cases k)
    case (Suc m)
    then have "moved_on loads dumps ask attempts (n + 1 + m) ((j # tried) ! m) ((j # tried) ! Suc m)"
      using assms(1) that unfolding trace_ok_def by auto
    then show ?thesis
      using Suc by simp
  qed (use assms(3) in simp)
  have "j < x" if "x \<in> set tried" for x
    using assms(1) that by (simp add: trace_ok_def)
  then show ?thesis
    using assms(1,2) steps by (auto simp: trace_ok_def intro: less_trans)
qed

lemma failover_trace:
  assumes "i < length attempts"
  shows "hd (snd (failover loads dumps ask attempts n i)) = i
    \<and> trace_ok loads dumps ask attempts n (snd (failover loads dumps ask attempts n i)) (fst (failover loads dumps ask attempts n i))"
  using assms
proof (induction loads dumps ask attempts n i rule: failover.induct)
  case (1 loads dumps ask attempts n i)
  note unfold = failover.simps [of loads dumps ask attempts n i]
  show ?case
  proof (cases "ask n (attempts ! i)")
    case (Answered r)
    then show ?thesis
      using 1(2) by (simp add: unfold trace_ok_single ended_with_def)
  next
    case failed: (Failed h e)
    show ?thesis
    proof (cases "handled h e")
      case False
      then show ?thesis
        using 1(2) failed by (simp add: unfold trace_ok_single ended_with_def)
    next
      case True
      show ?thesis
      proof (cases "next_attempt_index loads dumps attempts i h e")
        case None
        then show ?thesis
          using 1(2) failed True by (simp add: unfold trace_ok_single ended_with_def)
      next
        case (Some j)
        note later = next_attempt_later [OF Some]
        obtain res tried where rec: "failover loads dumps ask attempts (n + 1) j = (res, tried)"
          by fastforce
        have ih: "hd tried = j" "trace_ok loads dumps ask attempts (n + 1) tried res"
          using 1(1) [OF failed _ Some] True later rec by simp_all
        then obtain rest where rest: "tried = j # rest"
          by (cases tried) (auto simp: trace_ok_def)
        have "trace_ok loads dumps ask attempts n (i # j # rest) res"
          using trace_ok_cons [OF ih(2) [unfolded rest]] later next_attempt_moves [where ask = ask, OF failed True Some] by blast
        then show ?thesis
          using failed True Some rec rest by (simp add: unfold)
      qed
    qed
  qed
qed

section \<open>The chain\<close>

lemma dedup_distinct: "distinct seen \<Longrightarrow> distinct (dedup_nonempty seen vs)"
  by (induction seen vs rule: dedup_nonempty.induct) (auto simp: Let_def)

lemma dedup_length: "length (dedup_nonempty seen vs) \<le> length seen + length vs"
proof (induction seen vs rule: dedup_nonempty.induct)
  case (2 seen v vs)
  then show ?case
    by (cases "py_strip v \<noteq> [] \<and> py_strip v \<notin> set seen") (auto simp: Let_def)
qed simp

lemma key_chains:
  "distinct (openai_api_key_chain cfg)" "length (openai_api_key_chain cfg) \<le> 2"
  "distinct (anthropic_api_key_chain cfg)" "length (anthropic_api_key_chain cfg) \<le> 2"
  unfolding openai_api_key_chain_def anthropic_api_key_chain_def
  using dedup_length [of "[]" "[openai_api_key cfg, openai_api_key_backup cfg]"]
    dedup_length [of "[]" "[anthropic_api_key cfg, anthropic_api_key_backup cfg]"]
  by (simp_all del: dedup_nonempty.simps add: dedup_distinct)

definition offered :: "attempt \<Rightarrow> string \<times> string option" where
  "offered a = (at_provider a, at_api_key a)"

lemma key_attempts_facts:
  assumes "distinct keys" and "length keys \<le> 2"
  shows "distinct (map offered (key_attempts p m keys))" "length (key_attempts p m keys) \<le> 2" "key_attempts p m keys \<noteq> []"
    "\<And>a. a \<in> set (key_attempts p m keys) \<Longrightarrow> at_provider a = p"
proof -
  have "map offered (key_attempts p m keys) = map (Pair p) (if keys = [] then [None] else map Some keys)"
    by (rule nth_equalityI) (auto simp: key_attempts_def offered_def nth_enumerate_eq)
  then show "distinct (map offered (key_attempts p m keys))"
    using assms(1) by (simp add: distinct_map inj_on_def)
  show "length (key_attempts p m keys) \<le> 2" "key_attempts p m keys \<noteq> []"
    using assms(2) by (auto simp: key_attempts_def enumerate_eq_zip)
  show "\<And>a. a \<in> set (key_attempts p m keys) \<Longrightarrow> at_provider a = p"
    by (auto simp: key_attempts_def split: if_splits)
qed

lemma chain_facts:
  "distinct (map offered (build_attempt_chain loads cfg model)) \<and> build_attempt_chain loads cfg model \<noteq> []
   \<and> length (build_attempt_chain loads cfg model) \<le> 4"
proof -
  define primary where "primary = credits_provider_for_model loads cfg model"
  define pk where "pk = (if primary = anthropic then anthropic_api_key_chain cfg else openai_api_key_chain cfg)"
  define sk where "sk = (if primary = anthropic then openai_api_key_chain cfg else anthropic_api_key_chain cfg)"
  define sec where "sec = (if primary = anthropic then openai else anthropic)"
  have keys: "distinct pk" "length pk \<le> 2" "distinct sk" "length sk \<le> 2"
    by (simp_all add: pk_def sk_def key_chains)
  define crossover where "crossover = stripped_or_none (if primary = anthropic then anthropic_chat_fallback_openai_model cfg
      else openai_chat_fallback_anthropic_model cfg)"
  have chain: "build_attempt_chain loads cfg model =
      key_attempts primary None pk @ (case crossover of None \<Rightarrow> [] | Some m \<Rightarrow> key_attempts sec (Some m) sk)"
    unfolding build_attempt_chain_def Let_def primary_def [symmetric] pk_def sk_def sec_def crossover_def ..
  have apart: "offered a \<noteq> offered b" if "a \<in> set (key_attempts primary None pk)" "b \<in> set (key_attempts sec (Some m) sk)" for a b m
    using key_attempts_facts(4) [OF keys(1,2) that(1)] key_attempts_facts(4) [OF keys(3,4) that(2)]
    by (auto simp: offered_def sec_def split: if_splits)
  then have "offered ` set (key_attempts primary None pk) \<inter> offered ` set (key_attempts sec (Some m) sk) = {}" for m
    by blast
  then show ?thesis
    using key_attempts_facts(1-3) [OF keys(1,2), of primary None] key_attempts_facts(1-3) [OF keys(3,4), of sec]
    unfolding chain by (cases crossover) (auto intro: add_mono [where b = 2 and d = 2, simplified])
qed

lemma inj_on_nth_map: "distinct (map f xs) \<Longrightarrow> inj_on (\<lambda>i. f (xs ! i)) {..< length xs}"
  by (rule inj_onI) (metis lessThan_iff length_map nth_eq_iff_index_eq nth_map)

lemma credits_trace:
  assumes "credits_llm_with_failover loads dumps cfg ask session_model stored = (res, tried)"
  shows "hd tried = 0"
    and "trace_ok loads dumps (\<lambda>n a. ask n (attempt_request loads cfg session_model stored a)) (build_attempt_chain loads cfg session_model) 0 tried res"
proof -
  have "0 < length (build_attempt_chain loads cfg session_model)"
    using chain_facts by blast
  from failover_trace [OF this, of loads dumps "\<lambda>n a. ask n (attempt_request loads cfg session_model stored a)" 0] assms
  show "hd tried = 0"
    and "trace_ok loads dumps (\<lambda>n a. ask n (attempt_request loads cfg session_model stored a)) (build_attempt_chain loads cfg session_model) 0 tried res"
    by (simp_all add: credits_llm_with_failover_def)
qed

lemma credits_bound: "length (snd (credits_llm_with_failover loads dumps cfg ask session_model stored)) \<le> 4"
proof -
  obtain res tried where run: "credits_llm_with_failover loads dumps cfg ask session_model stored = (res, tried)"
    by fastforce
  note trace = credits_trace(2) [OF run]
  have "distinct tried" and "set tried \<subseteq> {..< length (build_attempt_chain loads cfg session_model)}"
    using trace by (simp_all add: trace_ok_def strict_sorted_iff)
  then have "length tried \<le> length (build_attempt_chain loads cfg session_model)"
    using card_mono [OF finite_lessThan] by (metis card_lessThan distinct_card)
  then show ?thesis
    using run chain_facts [of loads cfg session_model] by simp
qed

section \<open>The properties\<close>

text \<open>
  C24. A credits turn always ends its search: it tries candidates of the chain in increasing order, starting with the first,
  never the same key of the same provider twice and at most four in all. It leaves a candidate only after a failure of
  the key, for the neighbour, or after another failure of Anthropic, for a candidate of the other provider; what it
  returns is the result or the error of the last candidate it tried, with a client's authorization error turned
  into an upstream error.
\<close>

theorem failover_forward:
  assumes "credits_llm_with_failover loads dumps cfg ask session_model stored = (res, tried)"
  shows "hd tried = 0 \<and> length tried \<le> 4
    \<and> distinct (map (\<lambda>i. offered (build_attempt_chain loads cfg session_model ! i)) tried)
    \<and> trace_ok loads dumps (\<lambda>n a. ask n (attempt_request loads cfg session_model stored a)) (build_attempt_chain loads cfg session_model) 0 tried res"
proof -
  let ?chain = "build_attempt_chain loads cfg session_model"
  note trace = credits_trace [OF assms]
  from trace have inc: "sorted_wrt (<) tried" and range: "set tried \<subseteq> {..< length ?chain}"
    by (simp_all add: trace_ok_def)
  have dist: "distinct tried"
    using inc by (simp add: strict_sorted_iff)
  have "length tried \<le> length ?chain"
    using card_mono [OF _ range] distinct_card [OF dist] by simp
  moreover have "inj_on (\<lambda>i. offered (?chain ! i)) (set tried)"
    using inj_on_subset [OF inj_on_nth_map range] chain_facts [of loads cfg session_model] by blast
  then have "distinct (map (\<lambda>i. offered (?chain ! i)) tried)"
    using dist by (simp add: distinct_map)
  ultimately show ?thesis
    using trace chain_facts [of loads cfg session_model] by auto
qed

definition refused :: "string \<Rightarrow> int \<Rightarrow> json \<Rightarrow> exc_heap" where
  "refused name status body =
     [\<lparr>ex_name = ''UpstreamError'', ex_class = Some UpstreamError, ex_status = Some 502, ex_body = JNull, ex_response_text = None,
       ex_str = ''llm request failed'', ex_cause = Some 1, ex_context = None\<rparr>,
      \<lparr>ex_name = name, ex_class = None, ex_status = Some status, ex_body = body, ex_response_text = None, ex_str = [],
       ex_cause = None, ex_context = Some 0\<rparr>]"

definition demo_dumps :: "json_obj \<Rightarrow> string" where
  "demo_dumps d = str_or_empty (jget ''error'' d)"

definition quota_loads :: json_reader where
  "quota_loads raw =
     (if raw = ''{q}'' then Some (JObj [(''error'', JObj [(''code'', JStr ''insufficient_quota'')])])
      else if raw = ''{r}'' then Some (JObj [(''error'', JObj [(''type'', JStr ''rate_limit_error''), (''message'', JStr ''see billing'')])])
      else if raw = ''m'' then Some (JObj []) else None)"

text \<open>The first OpenAI key is revoked, the spare one out of quota, the Anthropic key works.\<close>

definition dead_keys :: "nat \<Rightarrow> llm_request \<Rightarrow> string answer" where
  "dead_keys n q =
     (if n = 0 then Failed (refused ''AuthenticationError'' 401 JNull) 0
      else if n = 1 then Failed (refused ''RateLimitError'' 429 (JStr ''x{q}y'')) 0
      else Answered (or_default (rq_model q) []))"

lemma dead_keys_run:
  "credits_llm_with_failover quota_loads demo_dumps dual_instance dead_keys None None = (Chat_result ''claude-sonnet-5'' anthropic, [0, 1, 2])"
  by code_simp

theorem failover_forward_witness:
  "trace_ok quota_loads demo_dumps
     (\<lambda>n a. dead_keys n (attempt_request quota_loads dual_instance None None a))
     (build_attempt_chain quota_loads dual_instance None) 0 [0, 1, 2] (Chat_result ''claude-sonnet-5'' anthropic)"
  using failover_forward [OF dead_keys_run] by blast

text \<open>
  A plain rate limit never spends another key of the same provider: when the provider answers 429 with a machine code of
  a rate limit and none of an exhausted quota, an OpenAI candidate ends the search, whatever the text of the message says,
  and an Anthropic candidate is followed by a candidate of the other provider at most.
\<close>

theorem rate_limit_stays:
  assumes "credits_llm_with_failover loads dumps cfg ask session_model stored = (res, tried)"
    and "k < length tried"
    and "ask k (attempt_request loads cfg session_model stored (build_attempt_chain loads cfg session_model ! (tried ! k))) = Failed h e"
    and "status_and_body dumps h e = Some (429, body)"
    and "list_ex (\<lambda>c. c \<in> set RATE_LIMIT_MARKERS) (machine_codes (error_object loads body))"
    and "\<not> list_ex (\<lambda>c. c \<in> set QUOTA_MARKERS) (machine_codes (error_object loads body))"
  shows "Suc k = length tried
    \<or> at_provider (build_attempt_chain loads cfg session_model ! (tried ! k)) = anthropic
      \<and> at_provider (build_attempt_chain loads cfg session_model ! (tried ! Suc k)) \<noteq> anthropic"
proof (cases "Suc k = length tried")
  case False
  have "\<not> is_credential_failure loads dumps h e"
    using assms(4-6) by (simp add: is_credential_failure_def)
  moreover have "moved_on loads dumps (\<lambda>n a. ask n (attempt_request loads cfg session_model stored a))
      (build_attempt_chain loads cfg session_model) k (tried ! k) (tried ! Suc k)"
    using credits_trace(2) [OF assms(1)] assms(2) False unfolding trace_ok_def by fastforce
  ultimately show ?thesis
    using assms(3) by (simp add: moved_on_def)
qed simp

definition busy :: "nat \<Rightarrow> llm_request \<Rightarrow> string answer" where
  "busy n q = Failed (refused ''RateLimitError'' 429 (JStr ''{r}'')) 0"

theorem rate_limit_stays_witness:
  "snd (credits_llm_with_failover quota_loads demo_dumps dual_instance busy None None) = [0]
   \<and> is_credential_failure quota_loads demo_dumps (refused ''RateLimitError'' 429 (JStr ''{b: billing}'')) 0
   \<and> at_provider (build_attempt_chain quota_loads dual_instance None ! 0) = openai"
proof -
  have run: "credits_llm_with_failover quota_loads demo_dumps dual_instance busy None None
      = (Chat_error (refused ''RateLimitError'' 429 (JStr ''{r}'')) 0, [0])"
    by code_simp
  have openai_first: "at_provider (build_attempt_chain quota_loads dual_instance None ! 0) = openai"
    by code_simp
  have "Suc 0 = length [0 :: nat]
    \<or> at_provider (build_attempt_chain quota_loads dual_instance None ! ([0] ! 0)) = anthropic
      \<and> at_provider (build_attempt_chain quota_loads dual_instance None ! ([0] ! Suc 0)) \<noteq> anthropic"
    by (rule rate_limit_stays [OF run, where h = "refused ''RateLimitError'' 429 (JStr ''{r}'')" and e = 0 and body = "''{r}''"])
      (simp add: busy_def, simp add: busy_def, code_simp, code_simp, code_simp)
  moreover have "is_credential_failure quota_loads demo_dumps (refused ''RateLimitError'' 429 (JStr ''{b: billing}'')) 0"
    by code_simp
  ultimately show ?thesis
    using run openai_first by simp
qed

end
