(* ===== verification/Chat_Tools.thy ===== *)
theory Chat_Tools
  imports Products
begin

text \<open>
  The tool registry of the chat (\<open>chat/tools.py\<close>): who executes a tool, on which axes a tool is offered to the model, and
  the names under which it travels. A \<open>frozenset\<close> is a list of its members; the argument schemas (pydantic models) and the
  descriptions are not modelled, a definition is its name.
\<close>

section \<open>The registry\<close>

definition SERVER_SIDE_TOOLS :: "string list" where
  "SERVER_SIDE_TOOLS =
     [''site.write_file'', ''site.preview'', ''site.list'', ''site.read'', ''site.delete'']"

definition GLOBAL_SERVER_SIDE_TOOLS :: "string list" where
  "GLOBAL_SERVER_SIDE_TOOLS =
     [''time.now'', ''quiz.generate'', ''media.generate_image'', ''media.generate_video'', ''media.ask_params'',
     ''document.create'', ''document.list'', ''document.read'', ''document.update'']"

definition DISABLEABLE_TOOL_FAMILIES :: "string list" where
  "DISABLEABLE_TOOL_FAMILIES =
     [''files'', ''calendar'', ''reminders'', ''site'']"

definition MEDIA_CHAT_TOOLS :: "string list" where
  "MEDIA_CHAT_TOOLS =
     [''media.generate_image'', ''media.generate_video'', ''media.ask_params'']"

definition MAPS_TOOLS :: "string list" where
  "MAPS_TOOLS =
     [''maps.show_place'', ''maps.geocode'', ''maps.reverse_geocode'', ''maps.route'', ''maps.search_places'']"

definition TOOL_GENERATION_MODES :: "(string \<times> string list) list" where
  "TOOL_GENERATION_MODES = [(''quiz.generate'', [''study_learn''])]"

definition ARGS_DEGRADE_TOOLS :: "string list" where
  "ARGS_DEGRADE_TOOLS =
     [''quiz.generate'', ''media.generate_image'', ''media.generate_video'', ''media.ask_params'',
     ''document.create'', ''document.list'', ''document.read'', ''document.update'', ''files.patch'',
     ''maps.show_place'', ''maps.geocode'', ''maps.reverse_geocode'', ''maps.route'', ''maps.search_places'']"

definition CODE_TOOLS :: "string list" where
  "CODE_TOOLS =
     [''files.delete'', ''files.move'', ''files.search'', ''files.patch'', ''git.status'', ''git.diff'', ''git.log'',
     ''git.commit'', ''git.branch'', ''git.push'']"

definition CONFIRM_TOOLS :: "string list" where
  "CONFIRM_TOOLS =
     [''files.write'', ''files.mkdir'', ''files.delete'', ''files.move'', ''files.patch'', ''git.commit'',
     ''git.branch'', ''git.push'']"

definition ALL_TOOL_NAMES :: "string list" where
  "ALL_TOOL_NAMES =
     [''files.read'', ''files.write'', ''files.list'', ''files.mkdir'', ''calendar.read'', ''calendar.create_events'',
     ''reminders.read'', ''reminders.create'']
     @ CODE_TOOLS @ MAPS_TOOLS @ SERVER_SIDE_TOOLS @ GLOBAL_SERVER_SIDE_TOOLS"

definition MUTATING_TOOLS :: "string list" where
  "MUTATING_TOOLS =
     [''files.write'', ''files.mkdir'', ''calendar.create_events'', ''reminders.create'', ''site.write_file'',
     ''site.delete'', ''document.create'', ''document.update'', ''files.delete'', ''files.move'', ''files.patch'',
     ''git.commit'', ''git.branch'', ''git.push'']"

text \<open>The keys of \<open>_ARGS_BY_TOOL\<close>, in the order of the dictionary.\<close>

definition ARGS_BY_TOOL :: "string list" where
  "ARGS_BY_TOOL =
     [''files.read'', ''files.write'', ''files.list'', ''files.mkdir'', ''files.delete'', ''files.move'',
     ''files.search'', ''files.patch'', ''git.status'', ''git.diff'', ''git.log'', ''git.commit'', ''git.branch'',
     ''git.push'', ''calendar.read'', ''calendar.create_events'', ''reminders.read'', ''reminders.create'',
     ''maps.show_place'', ''maps.geocode'', ''maps.reverse_geocode'', ''maps.route'', ''maps.search_places'',
     ''site.write_file'', ''site.preview'', ''site.list'', ''site.read'', ''site.delete'', ''time.now'',
     ''quiz.generate'', ''media.generate_image'', ''media.generate_video'', ''media.ask_params'', ''document.create'',
     ''document.list'', ''document.read'', ''document.update'']"

definition DOMAIN_TO_ANTHROPIC :: "(string \<times> string) list" where
  "DOMAIN_TO_ANTHROPIC =
     [(''files.read'', ''files_read''), (''files.write'', ''files_write''), (''files.list'', ''files_list''),
     (''files.mkdir'', ''files_mkdir''), (''files.delete'', ''files_delete''), (''files.move'', ''files_move''),
     (''files.search'', ''files_search''), (''files.patch'', ''files_patch''), (''git.status'', ''git_status''),
     (''git.diff'', ''git_diff''), (''git.log'', ''git_log''), (''git.commit'', ''git_commit''),
     (''git.branch'', ''git_branch''), (''git.push'', ''git_push''), (''calendar.read'', ''calendar_read''),
     (''calendar.create_events'', ''calendar_create_events''), (''reminders.read'', ''reminders_read''),
     (''reminders.create'', ''reminders_create''), (''maps.show_place'', ''maps_show_place''),
     (''maps.geocode'', ''maps_geocode''), (''maps.reverse_geocode'', ''maps_reverse_geocode''),
     (''maps.route'', ''maps_route''), (''maps.search_places'', ''maps_search_places''),
     (''site.write_file'', ''site_write_file''), (''site.preview'', ''site_preview''), (''site.list'', ''site_list''),
     (''site.read'', ''site_read''), (''site.delete'', ''site_delete''), (''time.now'', ''time_now''),
     (''quiz.generate'', ''quiz_generate''), (''media.generate_image'', ''media_generate_image''),
     (''media.generate_video'', ''media_generate_video''), (''media.ask_params'', ''media_ask_params''),
     (''document.create'', ''document_create''), (''document.list'', ''document_list''),
     (''document.read'', ''document_read''), (''document.update'', ''document_update'')]"

definition ANTHROPIC_TO_DOMAIN :: "(string \<times> string) list" where
  "ANTHROPIC_TO_DOMAIN = map (\<lambda>(d, a). (a, d)) DOMAIN_TO_ANTHROPIC"

text \<open>\<open>None\<close> is \<open>UnknownToolNameError\<close>.\<close>

definition to_anthropic_tool_name :: "string \<Rightarrow> string option" where
  "to_anthropic_tool_name d = map_of DOMAIN_TO_ANTHROPIC d"

definition to_domain_tool_name :: "string \<Rightarrow> string option" where
  "to_domain_tool_name a = map_of ANTHROPIC_TO_DOMAIN a"

section \<open>What is offered\<close>

definition offered_media_chat_tool :: "string \<Rightarrow> bool \<Rightarrow> bool" where
  "offered_media_chat_tool name include_media = (if name \<notin> set MEDIA_CHAT_TOOLS then True else include_media)"

definition tool_family :: "string \<Rightarrow> string" where
  "tool_family name = takeWhile (\<lambda>c. c \<noteq> CHR ''.'') name"

fun parse_families :: "string list \<Rightarrow> string list \<times> string list" where
  "parse_families [] = ([], [])"
| "parse_families (part # parts) =
     (let token = py_lower (py_strip part) in
      case parse_families parts of (accepted, unknown) \<Rightarrow>
        if token = [] then (accepted, unknown)
        else if token \<in> set DISABLEABLE_TOOL_FAMILIES then (token # accepted, unknown)
        else (accepted, token # unknown))"

definition parse_disabled_tool_families :: "string \<Rightarrow> string list \<times> string list" where
  "parse_disabled_tool_families raw = parse_families (comma_split raw)"

definition offered_tool_family :: "string \<Rightarrow> string list \<Rightarrow> bool" where
  "offered_tool_family name disabled_families \<longleftrightarrow> tool_family name \<notin> set disabled_families"

definition offered_code_tool :: "string \<Rightarrow> bool \<Rightarrow> bool" where
  "offered_code_tool name code_tools_enabled \<longleftrightarrow> code_tools_enabled \<or> name \<notin> set CODE_TOOLS"

definition offered_maps_tool :: "string \<Rightarrow> bool \<Rightarrow> bool" where
  "offered_maps_tool name maps_tools_enabled \<longleftrightarrow> maps_tools_enabled \<or> name \<notin> set MAPS_TOOLS"

definition offered_in_generation_mode :: "string \<Rightarrow> string \<Rightarrow> bool" where
  "offered_in_generation_mode name generation_mode =
     (case map_of TOOL_GENERATION_MODES name of None \<Rightarrow> True | Some modes \<Rightarrow> generation_mode \<in> set modes)"

record tool_axes =
  ax_project :: bool
  ax_mode :: string
  ax_media :: bool
  ax_disabled :: "string list"
  ax_code :: bool
  ax_maps :: bool

definition offered_to_model :: "tool_axes \<Rightarrow> string \<Rightarrow> bool" where
  "offered_to_model ax name =
     (if \<not> ax_project ax \<and> name \<in> set SERVER_SIDE_TOOLS then False
      else if \<not> offered_code_tool name (ax_code ax) then False
      else if \<not> offered_maps_tool name (ax_maps ax) then False
      else if \<not> offered_in_generation_mode name (ax_mode ax) then False
      else if \<not> offered_media_chat_tool name (ax_media ax) then False
      else offered_tool_family name (ax_disabled ax))"

definition neutral_tool_definitions :: "tool_axes \<Rightarrow> string list" where
  "neutral_tool_definitions ax = filter (offered_to_model ax) ARGS_BY_TOOL"

definition anthropic_tool_definitions :: "tool_axes \<Rightarrow> string option list" where
  "anthropic_tool_definitions ax = map to_anthropic_tool_name (filter (offered_to_model ax) ARGS_BY_TOOL)"

record catalog_tool =
  ct_name :: string
  ct_mutating :: bool
  ct_server :: bool
  ct_requires_confirmation :: bool

definition tool_catalog :: "string list \<Rightarrow> catalog_tool list" where
  "tool_catalog disabled_families =
     map (\<lambda>name. \<lparr>ct_name = name, ct_mutating = (name \<in> set MUTATING_TOOLS),
            ct_server = (name \<in> set SERVER_SIDE_TOOLS \<or> name \<in> set GLOBAL_SERVER_SIDE_TOOLS),
            ct_requires_confirmation = (name \<in> set CONFIRM_TOOLS)\<rparr>)
       (filter (\<lambda>name. offered_tool_family name disabled_families) ARGS_BY_TOOL)"

text \<open>Who answers a call: everything that is not executed here waits for the device.\<close>

definition client_side :: "string \<Rightarrow> bool" where
  "client_side name \<longleftrightarrow> name \<notin> set SERVER_SIDE_TOOLS \<and> name \<notin> set GLOBAL_SERVER_SIDE_TOOLS"

section \<open>The registry is coherent\<close>

text \<open>What Anthropic accepts as a tool name: \<open>^[a-zA-Z0-9_-]{1,128}$\<close>.\<close>

definition anthropic_char :: "char \<Rightarrow> bool" where
  "anthropic_char c = (let n = of_char c :: nat in
     (97 \<le> n \<and> n \<le> 122) \<or> (65 \<le> n \<and> n \<le> 90) \<or> (48 \<le> n \<and> n \<le> 57) \<or> n = 95 \<or> n = 45)"

definition anthropic_name :: "string \<Rightarrow> bool" where
  "anthropic_name a \<longleftrightarrow> a \<noteq> [] \<and> length a \<le> 128 \<and> list_all anthropic_char a"

definition travels :: "string \<Rightarrow> bool" where
  "travels name = (case to_anthropic_tool_name name of
     None \<Rightarrow> False | Some a \<Rightarrow> anthropic_name a \<and> to_domain_tool_name a = Some name)"

lemma all_travel: "list_all travels ARGS_BY_TOOL"
  by code_simp

lemma registries:
  "distinct ARGS_BY_TOOL" "list_all (\<lambda>n. n \<in> set ARGS_BY_TOOL) ALL_TOOL_NAMES" "list_all (\<lambda>n. n \<in> set ALL_TOOL_NAMES) ARGS_BY_TOOL"
  "list_all (\<lambda>n. n \<notin> set GLOBAL_SERVER_SIDE_TOOLS) SERVER_SIDE_TOOLS"
  "list_all (\<lambda>(d, a). d \<in> set ARGS_BY_TOOL) DOMAIN_TO_ANTHROPIC"
  by code_simp+

lemma domain_names_registered: "to_domain_tool_name a = Some name \<Longrightarrow> name \<in> set ARGS_BY_TOOL"
  using registries(5) unfolding to_domain_tool_name_def ANTHROPIC_TO_DOMAIN_def
  by (auto simp: list_all_iff dest!: map_of_SomeD)

text \<open>
  Every tool of the registry has an argument schema, once; it travels to Anthropic under a name Anthropic accepts and comes
  back as itself, and a name the provider invents comes back as no tool. A tool is offered only if it is registered and
  its family, its mode and its switches allow it; the tools of a project and the global ones are disjoint, so each
  tool has one executor.
\<close>

theorem tools_travel:
  "distinct ARGS_BY_TOOL \<and> set ARGS_BY_TOOL = set ALL_TOOL_NAMES \<and> set SERVER_SIDE_TOOLS \<inter> set GLOBAL_SERVER_SIDE_TOOLS = {}
   \<and> (\<forall>name \<in> set ALL_TOOL_NAMES. \<exists>a. to_anthropic_tool_name name = Some a \<and> anthropic_name a \<and> to_domain_tool_name a = Some name)
   \<and> (\<forall>a name. to_domain_tool_name a = Some name \<longrightarrow> name \<in> set ALL_TOOL_NAMES)
   \<and> set (anthropic_tool_definitions ax) = (\<lambda>name. to_anthropic_tool_name name) ` set (neutral_tool_definitions ax)
   \<and> None \<notin> set (anthropic_tool_definitions ax)"
proof -
  have same: "set ARGS_BY_TOOL = set ALL_TOOL_NAMES"
    using registries(2,3) by (auto simp: list_all_iff)
  have travel: "\<exists>a. to_anthropic_tool_name name = Some a \<and> anthropic_name a \<and> to_domain_tool_name a = Some name"
    if "name \<in> set ARGS_BY_TOOL" for name
    using all_travel that by (fastforce simp: list_all_iff travels_def split: option.splits)
  have "None \<notin> set (anthropic_tool_definitions ax)"
    using travel by (force simp: anthropic_tool_definitions_def)
  moreover have "set SERVER_SIDE_TOOLS \<inter> set GLOBAL_SERVER_SIDE_TOOLS = {}"
    using registries(4) by (auto simp: list_all_iff)
  ultimately show ?thesis
    using same travel registries(1) domain_names_registered
    by (simp add: anthropic_tool_definitions_def neutral_tool_definitions_def)
qed

theorem tools_travel_witness:
  "\<exists>a. to_anthropic_tool_name ''media.ask_params'' = Some a \<and> anthropic_name a \<and> to_domain_tool_name a = Some ''media.ask_params''"
  using tools_travel by (simp add: ALL_TOOL_NAMES_def GLOBAL_SERVER_SIDE_TOOLS_def)

end
