(* ===== verification/Chat_Store.thy ===== *)
theory Chat_Store
  imports Chat_Tools Wallet Policy
begin

text \<open>
  The chat tables (\<open>ChatSession\<close>, \<open>ChatStep\<close>, \<open>ToolCall\<close>, \<open>ChatAttachment\<close> of \<open>models/tables.py\<close>) and the queries of
  \<open>chat/repository.py\<close>. A table is the list of its rows in insertion order; \<open>seq\<close> is the identity column of \<open>chat_steps\<close>.
  Database-generated identifiers and the clock are arguments. A step's \<open>payload\<close> is the JSON object it stores.
\<close>

section \<open>Tables\<close>

record chat_session =
  cs_user :: uuid
  cs_project :: "string option"
  cs_mode :: string
  cs_assistant_mode :: string
  cs_title :: "string option"
  cs_model :: "string option"
  cs_character :: "string option"
  cs_workspace :: "uuid option"
  cs_provider_state :: "json_obj option"
  cs_backend :: "string option"
  cs_pinned :: bool
  cs_temporary :: bool
  cs_updated :: instant

datatype role = User | Assistant | Tool

record chat_step =
  sp_id :: uuid
  sp_seq :: nat
  sp_session :: uuid
  sp_message :: uuid
  sp_role :: role
  sp_payload :: json_obj
  sp_usage :: "json_obj option"

datatype call_status = Pending | Completed | Errored

record tool_call =
  tc_id :: uuid
  tc_session :: uuid
  tc_message :: uuid
  tc_tool :: string
  tc_provider_id :: string
  tc_args :: json_obj
  tc_status :: call_status
  tc_result :: json
  tc_created :: instant

record chat_attachment =
  ca_id :: uuid
  ca_user :: uuid
  ca_session :: uuid
  ca_message :: uuid
  ca_position :: nat
  ca_type :: string
  ca_created :: instant

record chat_db =
  cd_sessions :: "uuid \<rightharpoonup> chat_session"
  cd_steps :: "chat_step list"
  cd_next_seq :: nat
  cd_calls :: "tool_call list"
  cd_attachments :: "chat_attachment list"

record world =
  w_db :: db
  w_chat :: chat_db

type_synonym 'a chat_op = "chat_db \<Rightarrow> (exn, 'a, chat_db) outcome"

section \<open>Sessions\<close>

definition derive_title :: "string \<Rightarrow> string option" where
  "derive_title message =
     (let normalized = py_join_words (py_words [] message) in if normalized = [] then None else Some (take 60 normalized))"

text \<open>\<open>UPDATE users SET trial_used = TRUE WHERE id = :uid AND trial_used = FALSE RETURNING id\<close>\<close>

definition mark_trial_used :: "uuid \<Rightarrow> bool tx" where
  "mark_trial_used u s =
     (if users s u = Some False then (Inr True, s\<lparr>users := (users s)(u \<mapsto> True)\<rparr>) else (Inr False, s))"

definition get_chat_session :: "uuid \<Rightarrow> uuid \<Rightarrow> chat_db \<Rightarrow> chat_session option" where
  "get_chat_session i u s = (case cd_sessions s i of None \<Rightarrow> None | Some r \<Rightarrow> if cs_user r = u then Some r else None)"

definition is_expired :: "int \<Rightarrow> instant \<Rightarrow> chat_session \<Rightarrow> bool" where
  "is_expired session_soft_ttl_seconds now r \<longleftrightarrow> seconds session_soft_ttl_seconds < now - cs_updated r"

definition will_create_session :: "int \<Rightarrow> instant \<Rightarrow> uuid \<Rightarrow> uuid option \<Rightarrow> chat_db \<Rightarrow> bool" where
  "will_create_session ttl now u i s =
     (case i of None \<Rightarrow> True
      | Some i' \<Rightarrow> (case get_chat_session i' u s of None \<Rightarrow> True | Some r \<Rightarrow> is_expired ttl now r))"

text \<open>The row a creation inserts is an argument: its columns are those the caller passes.\<close>

definition insert_session :: "uuid \<Rightarrow> chat_session \<Rightarrow> world \<Rightarrow> (exn, unit, world) outcome" where
  "insert_session i row w =
     (if cd_sessions (w_chat w) i \<noteq> None then (Inl (DbFault UniqueViolation), w)
      else if users (w_db w) (cs_user row) = None then (Inl (DbFault ForeignKeyViolation), w)
      else (Inr (), w\<lparr>w_db := (w_db w)\<lparr>chat_sessions := (chat_sessions (w_db w))(i \<mapsto> cs_user row)\<rparr>,
                      w_chat := (w_chat w)\<lparr>cd_sessions := (cd_sessions (w_chat w))(i \<mapsto> row)\<rparr>\<rparr>))"

definition get_or_create_session ::
  "int \<Rightarrow> instant \<Rightarrow> uuid \<Rightarrow> uuid option \<Rightarrow> bool \<Rightarrow> uuid \<Rightarrow> chat_session \<Rightarrow> world \<Rightarrow> (exn, uuid \<times> bool, world) outcome" where
  "get_or_create_session ttl now u session_id resume_only new_id row w =
     (let create = and_then (insert_session new_id row w) (\<lambda>_ w. (Inr (new_id, True), w)) in
      case session_id of
        Some i \<Rightarrow>
          (case get_chat_session i u (w_chat w) of
             Some existing \<Rightarrow> if resume_only \<or> \<not> is_expired ttl now existing then (Inr (i, False), w) else create
           | None \<Rightarrow> if resume_only then (Inl (Raised SessionNotFoundError ''planned session no longer exists''), w) else create)
      | None \<Rightarrow> if resume_only then (Inl (Raised SessionNotFoundError ''resume_only requires a session id''), w) else create)"

definition on_session :: "uuid \<Rightarrow> (chat_session \<Rightarrow> chat_session) \<Rightarrow> chat_db \<Rightarrow> chat_db" where
  "on_session i f s = (case cd_sessions s i of None \<Rightarrow> s | Some r \<Rightarrow> s\<lparr>cd_sessions := (cd_sessions s)(i \<mapsto> f r)\<rparr>)"

definition set_title_if_absent :: "uuid \<Rightarrow> string option \<Rightarrow> chat_db \<Rightarrow> chat_db" where
  "set_title_if_absent i title s =
     on_session i (\<lambda>r. if or_default (cs_title r) [] \<noteq> [] \<or> or_default title [] = [] then r else r\<lparr>cs_title := title\<rparr>) s"

definition touch_session :: "uuid \<Rightarrow> instant \<Rightarrow> chat_db \<Rightarrow> chat_db" where
  "touch_session i now s = on_session i (\<lambda>r. r\<lparr>cs_updated := now\<rparr>) s"

definition set_generation_backend :: "uuid \<Rightarrow> string option \<Rightarrow> chat_db \<Rightarrow> chat_db" where
  "set_generation_backend i b s = on_session i (\<lambda>r. r\<lparr>cs_backend := b\<rparr>) s"

definition set_provider_state :: "uuid \<Rightarrow> json_obj option \<Rightarrow> chat_db \<Rightarrow> chat_db" where
  "set_provider_state i st s = on_session i (\<lambda>r. r\<lparr>cs_provider_state := st\<rparr>) s"

definition clear_provider_state :: "uuid \<Rightarrow> chat_db \<Rightarrow> chat_db" where
  "clear_provider_state i s = set_provider_state i None s"

section \<open>Steps\<close>

definition add_step :: "uuid \<Rightarrow> uuid \<Rightarrow> uuid \<Rightarrow> role \<Rightarrow> json_obj \<Rightarrow> json_obj option \<Rightarrow> uuid chat_op" where
  "add_step new_id session message r payload usage s =
     (if cd_sessions s session = None then (Inl (DbFault ForeignKeyViolation), s)
      else if \<exists>p \<in> set (cd_steps s). sp_id p = new_id then (Inl (DbFault UniqueViolation), s)
      else (Inr new_id,
            s\<lparr>cd_steps := cd_steps s @ [\<lparr>sp_id = new_id, sp_seq = cd_next_seq s, sp_session = session, sp_message = message,
                 sp_role = r, sp_payload = payload, sp_usage = usage\<rparr>],
              cd_next_seq := Suc (cd_next_seq s)\<rparr>))"

definition list_steps :: "uuid \<Rightarrow> chat_db \<Rightarrow> chat_step list" where
  "list_steps session s = sort_key sp_seq (filter (\<lambda>p. sp_session p = session) (cd_steps s))"

definition turn_steps :: "uuid \<Rightarrow> uuid \<Rightarrow> role \<Rightarrow> chat_db \<Rightarrow> chat_step list" where
  "turn_steps session message r s = filter (\<lambda>p. sp_message p = message \<and> sp_role p = r) (list_steps session s)"

definition get_assistant_step :: "uuid \<Rightarrow> uuid \<Rightarrow> chat_db \<Rightarrow> chat_step option" where
  "get_assistant_step session step_id s =
     find (\<lambda>p. sp_id p = step_id \<and> sp_session p = session \<and> sp_role p = Assistant) (cd_steps s)"

definition block_type :: "json \<Rightarrow> json" where
  "block_type b = (case b of JObj d \<Rightarrow> jget ''type'' d | _ \<Rightarrow> JNull)"

definition is_terminal_assistant_payload :: "json_obj \<Rightarrow> bool" where
  "is_terminal_assistant_payload payload =
     (if jget ''turnFailed'' payload \<noteq> JNull \<or> jget ''interrupted'' payload \<noteq> JNull then True
      else (case jget ''content'' payload of
          JArr content \<Rightarrow> \<not> list_ex (\<lambda>b. block_type b = JStr ''tool_use'') content
        | _ \<Rightarrow> True))"

definition has_terminal_assistant_step :: "uuid \<Rightarrow> uuid \<Rightarrow> chat_db \<Rightarrow> bool" where
  "has_terminal_assistant_step session message s =
     list_ex (\<lambda>p. is_terminal_assistant_payload (sp_payload p)) (turn_steps session message Assistant s)"

definition generation_mode_for_message_step :: "uuid \<Rightarrow> uuid \<Rightarrow> chat_db \<Rightarrow> string" where
  "generation_mode_for_message_step session message s =
     (case turn_steps session message User s of
        [] \<Rightarrow> ''general''
      | p # _ \<Rightarrow> (case jget ''generationMode'' (sp_payload p) of
            JStr v \<Rightarrow> if v \<in> {''general'', ''research'', ''reasoning'', ''study_learn''} then v else ''general''
          | _ \<Rightarrow> ''general''))"

definition recent_user_payloads :: "nat \<Rightarrow> uuid \<Rightarrow> chat_db \<Rightarrow> json_obj list" where
  "recent_user_payloads limit session s = take (max 1 limit) (map sp_payload (filter (\<lambda>p. sp_role p = User) (rev (list_steps session s))))"

definition user_step_payload :: "uuid \<Rightarrow> uuid \<Rightarrow> chat_db \<Rightarrow> json_obj option" where
  "user_step_payload session message s =
     (case turn_steps session message User s of [] \<Rightarrow> None | p # _ \<Rightarrow> Some (sp_payload p))"

definition assistant_tool_step_id :: "uuid \<Rightarrow> uuid \<Rightarrow> chat_db \<Rightarrow> uuid option" where
  "assistant_tool_step_id session message s =
     (case rev (turn_steps session message Assistant s) of [] \<Rightarrow> None | p # _ \<Rightarrow> Some (sp_id p))"

definition first_non_marker :: "chat_step list \<Rightarrow> chat_step option" where
  "first_non_marker rows = find (\<lambda>p. jget ''turnFailed'' (sp_payload p) = JNull) rows"

definition next_step_after :: "uuid \<Rightarrow> uuid \<Rightarrow> uuid \<Rightarrow> chat_db \<Rightarrow> chat_step option" where
  "next_step_after session message after s =
     (case filter (\<lambda>p. jget ''toolCallId'' (sp_payload p) = JStr (uuid_str after)) (turn_steps session message Tool s) of
        anchor # _ \<Rightarrow> first_non_marker (filter (\<lambda>p. sp_seq anchor < sp_seq p) (turn_steps session message Assistant s))
      | [] \<Rightarrow> first_non_marker (rev (turn_steps session message Assistant s)))"

section \<open>Tool calls\<close>

definition create_tool_call :: "uuid \<Rightarrow> uuid \<Rightarrow> uuid \<Rightarrow> string \<Rightarrow> json_obj \<Rightarrow> string \<Rightarrow> instant \<Rightarrow> unit chat_op" where
  "create_tool_call new_id session message tool args provider_id now s =
     (if cd_sessions s session = None then (Inl (DbFault ForeignKeyViolation), s)
      else if \<exists>c \<in> set (cd_calls s). tc_id c = new_id then (Inl (DbFault UniqueViolation), s)
      else (Inr (), s\<lparr>cd_calls := cd_calls s @ [\<lparr>tc_id = new_id, tc_session = session, tc_message = message, tc_tool = tool,
                tc_provider_id = provider_id, tc_args = args, tc_status = Pending, tc_result = JNull, tc_created = now\<rparr>]\<rparr>))"

definition get_tool_call :: "uuid \<Rightarrow> chat_db \<Rightarrow> tool_call option" where
  "get_tool_call i s = find (\<lambda>c. tc_id c = i) (cd_calls s)"

definition list_tool_calls_for_step :: "uuid \<Rightarrow> uuid \<Rightarrow> chat_db \<Rightarrow> tool_call list" where
  "list_tool_calls_for_step session message s =
     sort_key tc_created (sort_key (\<lambda>c. uint (tc_id c)) (filter (\<lambda>c. tc_session c = session \<and> tc_message c = message) (cd_calls s)))"

text \<open>\<open>UPDATE tool_calls SET status = ... WHERE id = :id AND status = 'pending' RETURNING id\<close>\<close>

definition complete_tool_call :: "uuid \<Rightarrow> call_status \<Rightarrow> json \<Rightarrow> chat_db \<Rightarrow> bool \<times> chat_db" where
  "complete_tool_call i status result s =
     (list_ex (\<lambda>c. tc_id c = i \<and> tc_status c = Pending) (cd_calls s),
      s\<lparr>cd_calls := map (\<lambda>c. if tc_id c = i \<and> tc_status c = Pending then c\<lparr>tc_status := status, tc_result := result\<rparr> else c) (cd_calls s)\<rparr>)"

section \<open>Edit and regenerate\<close>

definition truncate_from_message_step :: "uuid \<Rightarrow> uuid \<Rightarrow> chat_db \<Rightarrow> nat option \<times> chat_db" where
  "truncate_from_message_step session message s =
     (case turn_steps session message User s of
        [] \<Rightarrow> (None, s)
      | anchor # _ \<Rightarrow>
          (let gone = filter (\<lambda>p. sp_session p = session \<and> sp_seq anchor \<le> sp_seq p) (cd_steps s);
               turns = map sp_message gone
           in (Some (length gone),
               s\<lparr>cd_calls := filter (\<lambda>c. \<not> (tc_session c = session \<and> tc_message c \<in> set turns)) (cd_calls s),
                 cd_attachments := filter (\<lambda>a. \<not> (ca_session a = session \<and> ca_message a \<in> set turns)) (cd_attachments s),
                 cd_steps := filter (\<lambda>p. \<not> (sp_session p = session \<and> sp_seq anchor \<le> sp_seq p)) (cd_steps s)\<rparr>)))"

section \<open>Attachments\<close>

definition add_attachments :: "chat_attachment list \<Rightarrow> chat_db \<Rightarrow> chat_db" where
  "add_attachments rows s = s\<lparr>cd_attachments := cd_attachments s @ rows\<rparr>"

definition turn_attachments :: "uuid \<Rightarrow> uuid \<Rightarrow> chat_db \<Rightarrow> chat_attachment list" where
  "turn_attachments session message s =
     sort_key ca_position (filter (\<lambda>a. ca_session a = session \<and> ca_message a = message) (cd_attachments s))"

definition latest_image_attachment :: "uuid \<Rightarrow> chat_db \<Rightarrow> chat_attachment option" where
  "latest_image_attachment session s =
     (case rev (sort_key ca_created (sort_key ca_position (filter (\<lambda>a. ca_session a = session \<and> ca_type a = ''image'') (cd_attachments s)))) of
        [] \<Rightarrow> None | a # _ \<Rightarrow> Some a)"

end
