(* ===== verification/Chat_History.thy ===== *)
theory Chat_History
  imports Chat_Store
begin

text \<open>
  The history a provider is shown (\<open>_neutral_history_from_steps\<close> of \<open>chat/orchestrator.py\<close>) and the reading of stored
  assistant payloads (\<open>chats/provider_blocks.py\<close>). A tool call that a newer user message has superseded is closed with a
  synthetic result. Positions are indices into the list of steps, as in the source; \<open>json.loads\<close> is an argument.
\<close>

section \<open>Stored assistant payloads\<close>

definition is_openai_assistant_message :: "json \<Rightarrow> bool" where
  "is_openai_assistant_message block =
     (case block of JObj d \<Rightarrow> jget ''role'' d = JStr ''assistant'' \<and> map_of d ''type'' = None | _ \<Rightarrow> False)"

definition is_chat_completions_message :: "json \<Rightarrow> bool" where
  "is_chat_completions_message content =
     (case content of JArr [block] \<Rightarrow> is_openai_assistant_message block | _ \<Rightarrow> False)"

definition parse_arguments :: "json_reader \<Rightarrow> json \<Rightarrow> json" where
  "parse_arguments loads arguments =
     (case arguments of
        JObj d \<Rightarrow> JObj d
      | JStr s \<Rightarrow> if py_strip s = [] then JObj [] else (case loads s of Some (JObj d) \<Rightarrow> JObj d | _ \<Rightarrow> JObj [])
      | _ \<Rightarrow> JObj [])"

definition text_block :: "string \<Rightarrow> json" where
  "text_block s = JObj [(''type'', JStr ''text''), (''text'', JStr s)]"

definition message_text :: "json \<Rightarrow> json list" where
  "message_text text =
     (case text of
        JStr s \<Rightarrow> if s = [] then [] else [text_block s]
      | JArr parts \<Rightarrow> List.map_filter (\<lambda>part. case part of
            JObj d \<Rightarrow> if jget ''type'' d = JStr ''text''
                      then (case jget ''text'' d of JStr s \<Rightarrow> if s = [] then None else Some (text_block s) | _ \<Rightarrow> None) else None
          | _ \<Rightarrow> None) parts
      | _ \<Rightarrow> [])"

definition message_call :: "json_reader \<Rightarrow> json \<Rightarrow> json option" where
  "message_call loads call =
     (case call of
        JObj d \<Rightarrow> (case jget ''function'' d of
            JObj f \<Rightarrow> (case jget ''name'' f of
                JStr name \<Rightarrow> Some (JObj [(''type'', JStr ''tool_use''), (''id'', jget ''id'' d), (''name'', JStr name),
                                    (''input'', parse_arguments loads (jget ''arguments'' f))])
              | _ \<Rightarrow> None)
          | _ \<Rightarrow> None)
      | _ \<Rightarrow> None)"

definition from_openai_assistant_message :: "json_reader \<Rightarrow> json_obj \<Rightarrow> json list" where
  "from_openai_assistant_message loads message =
     message_text (jget ''content'' message)
     @ (case jget ''tool_calls'' message of JArr calls \<Rightarrow> List.map_filter (message_call loads) calls | _ \<Rightarrow> [])"

definition to_domain_blocks :: "json_reader \<Rightarrow> json \<Rightarrow> json list" where
  "to_domain_blocks loads content =
     (case content of
        JArr blocks \<Rightarrow>
          if is_chat_completions_message content
          then (case hd blocks of JObj message \<Rightarrow> from_openai_assistant_message loads message | _ \<Rightarrow> [])
          else blocks
      | _ \<Rightarrow> [])"

definition replayable_call :: "json \<Rightarrow> (string \<times> string) option" where
  "replayable_call block =
     (case block of
        JObj d \<Rightarrow> if jget ''type'' d \<noteq> JStr ''tool_use'' then None
                  else (case (jget ''id'' d, jget ''name'' d) of
                      (JStr i, JStr n) \<Rightarrow> if i \<noteq> [] \<and> n \<noteq> [] then Some (i, n) else None
                    | _ \<Rightarrow> None)
      | _ \<Rightarrow> None)"

definition replayable_tool_calls :: "json_reader \<Rightarrow> json \<Rightarrow> (string \<times> string) list" where
  "replayable_tool_calls loads blocks = List.map_filter replayable_call (to_domain_blocks loads blocks)"

section \<open>The history\<close>

record NeutralMessage =
  nm_role :: role
  nm_content :: json
  nm_tool_call_id :: json
  nm_provider_id :: json
  nm_tool_name :: json
  nm_result :: json
  nm_error :: json

definition content_message :: "role \<Rightarrow> json \<Rightarrow> NeutralMessage" where
  "content_message r content =
     \<lparr>nm_role = r, nm_content = content, nm_tool_call_id = JNull, nm_provider_id = JNull, nm_tool_name = JNull,
      nm_result = JNull, nm_error = JNull\<rparr>"

definition tool_step_message :: "json_obj \<Rightarrow> NeutralMessage" where
  "tool_step_message payload =
     \<lparr>nm_role = Tool, nm_content = JArr [], nm_tool_call_id = jget ''toolCallId'' payload,
      nm_provider_id = jget ''providerToolUseId'' payload, nm_tool_name = jget ''toolName'' payload,
      nm_result = jget ''result'' payload, nm_error = jget ''error'' payload\<rparr>"

text \<open>The message text is Russian in the source (\<open>orchestrator.py:932\<close>); here it is its translation.\<close>

definition SUPERSEDED_TOOL_RESULT_ERROR :: json where
  "SUPERSEDED_TOOL_RESULT_ERROR = JObj [(''code'', JStr ''tool_result_missing''), (''message'', JStr ''Tool result not received.'')]"

definition synthetic_result :: "string \<times> string \<Rightarrow> NeutralMessage" where
  "synthetic_result call =
     \<lparr>nm_role = Tool, nm_content = JArr [], nm_tool_call_id = JNull, nm_provider_id = JStr (fst call),
      nm_tool_name = JStr (snd call), nm_result = JNull, nm_error = SUPERSEDED_TOOL_RESULT_ERROR\<rparr>"

definition next_user :: "chat_step list \<Rightarrow> nat \<Rightarrow> nat option" where
  "next_user steps i = find (\<lambda>j. sp_role (steps ! j) = User) [i ..< length steps]"

definition tool_indices :: "chat_step list \<Rightarrow> string \<Rightarrow> nat list" where
  "tool_indices steps provider_id =
     filter (\<lambda>j. sp_role (steps ! j) = Tool \<and> jget ''providerToolUseId'' (sp_payload (steps ! j)) = JStr provider_id) [0 ..< length steps]"

text \<open>\<open>close_superseded\<close>: the calls that stay open, and those that are closed here.\<close>

definition still_awaited :: "chat_step list \<Rightarrow> nat \<Rightarrow> string \<times> string \<Rightarrow> bool" where
  "still_awaited steps index call =
     (case next_user steps index of
        None \<Rightarrow> True
      | Some user_index \<Rightarrow> list_ex (\<lambda>i. index < i \<and> i < user_index) (tool_indices steps (fst call)))"

fun replay_from ::
  "json_reader \<Rightarrow> chat_step list \<Rightarrow> nat \<Rightarrow> chat_step list \<Rightarrow> (string \<times> string) list \<Rightarrow> string list \<Rightarrow> exn + NeutralMessage list" where
  "replay_from loads steps index [] open_calls closed = Inr []"
| "replay_from loads steps index (step # rest) open_calls closed =
     (let payload = sp_payload step;
          more = (\<lambda>ms r. case r of Inl e \<Rightarrow> Inl e | Inr xs \<Rightarrow> Inr (ms @ xs)) in
      case sp_role step of
        Tool \<Rightarrow>
          (case jget ''providerToolUseId'' payload of
             JArr _ \<Rightarrow> Inl (PyFault ''TypeError'')
           | JObj _ \<Rightarrow> Inl (PyFault ''TypeError'')
           | provider_id \<Rightarrow>
               if provider_id \<in> JStr ` set closed then replay_from loads steps (Suc index) rest open_calls closed
               else if map_of payload ''providerToolUseId'' = None then Inl (PyFault ''KeyError'')
               else more [tool_step_message payload]
                      (replay_from loads steps (Suc index) rest (filter (\<lambda>call. JStr (fst call) \<noteq> provider_id) open_calls) closed))
      | r \<Rightarrow>
          (let awaited = filter (still_awaited steps index) open_calls;
               superseded = filter (\<lambda>call. \<not> still_awaited steps index call) open_calls in
           case map_of payload ''content'' of
             None \<Rightarrow> Inl (PyFault ''KeyError'')
           | Some content \<Rightarrow>
               more (map synthetic_result superseded @ [content_message r content])
                 (replay_from loads steps (Suc index) rest
                    (if r = Assistant then awaited @ replayable_tool_calls loads content else awaited)
                    (closed @ map fst superseded))))"

definition neutral_history_from_steps :: "json_reader \<Rightarrow> chat_step list \<Rightarrow> exn + NeutralMessage list" where
  "neutral_history_from_steps loads steps = replay_from loads steps 0 steps [] []"

section \<open>The same history without positions\<close>

definition calls_of :: "json_reader \<Rightarrow> chat_step \<Rightarrow> string list" where
  "calls_of loads p =
     (if sp_role p = Assistant then map fst (replayable_tool_calls loads (jget ''content'' (sp_payload p))) else [])"

definition answer_of :: "chat_step \<Rightarrow> string list" where
  "answer_of p =
     (if sp_role p = Tool then (case jget ''providerToolUseId'' (sp_payload p) of JStr i \<Rightarrow> [i] | _ \<Rightarrow> []) else [])"

abbreviation calls_in :: "json_reader \<Rightarrow> chat_step list \<Rightarrow> string list" where
  "calls_in loads steps \<equiv> concat (map (calls_of loads) steps)"

abbreviation answers_in :: "chat_step list \<Rightarrow> string list" where
  "answers_in steps \<equiv> concat (map answer_of steps)"

text \<open>The shape of the rows the service writes: a tool step carries the provider's identifier, the others a content.\<close>

definition step_ok :: "chat_step \<Rightarrow> bool" where
  "step_ok p \<longleftrightarrow> (if sp_role p = Tool then (\<exists>i. jget ''providerToolUseId'' (sp_payload p) = JStr i)
                 else map_of (sp_payload p) ''content'' \<noteq> None)"

definition has_user :: "chat_step list \<Rightarrow> bool" where
  "has_user steps \<longleftrightarrow> (\<exists>p \<in> set steps. sp_role p = User)"

definition before_user :: "chat_step list \<Rightarrow> chat_step list" where
  "before_user steps = takeWhile (\<lambda>p. sp_role p \<noteq> User) steps"

definition awaited_here :: "chat_step list \<Rightarrow> string \<times> string \<Rightarrow> bool" where
  "awaited_here suffix call \<longleftrightarrow>
     (has_user suffix \<longrightarrow> sp_role (hd suffix) \<noteq> User \<and> fst call \<in> set (answers_in (before_user (tl suffix))))"

fun plain_history ::
  "json_reader \<Rightarrow> chat_step list \<Rightarrow> (string \<times> string) list \<Rightarrow> string list \<Rightarrow> NeutralMessage list" where
  "plain_history loads [] open_calls closed = []"
| "plain_history loads (p # rest) open_calls closed =
     (if sp_role p = Tool then
        (if set (answer_of p) \<subseteq> set closed then plain_history loads rest open_calls closed
         else tool_step_message (sp_payload p)
              # plain_history loads rest (filter (\<lambda>call. fst call \<notin> set (answer_of p)) open_calls) closed)
      else map synthetic_result (filter (\<lambda>call. \<not> awaited_here (p # rest) call) open_calls)
           @ content_message (sp_role p) (jget ''content'' (sp_payload p))
           # plain_history loads rest
               (filter (awaited_here (p # rest)) open_calls
                @ (if sp_role p = Assistant then replayable_tool_calls loads (jget ''content'' (sp_payload p)) else []))
               (closed @ map fst (filter (\<lambda>call. \<not> awaited_here (p # rest) call) open_calls)))"

lemma find_suffix:
  "find (\<lambda>j. P ((pre @ xs) ! j)) [length pre ..< length (pre @ xs)] =
     (if \<exists>x \<in> set xs. P x then Some (length pre + length (takeWhile (\<lambda>x. \<not> P x) xs)) else None)"
proof (induction xs arbitrary: pre)
  case (Cons x xs)
  have upt: "[length pre ..< length (pre @ x # xs)] = length pre # [length (pre @ [x]) ..< length ((pre @ [x]) @ xs)]"
    using upt_conv_Cons [of "length pre" "length (pre @ x # xs)"] by simp
  show ?case
    unfolding upt find.simps using Cons [of "pre @ [x]"] by simp
qed simp

lemma next_user_suffix:
  "next_user (pre @ suffix) (length pre) = (if has_user suffix then Some (length pre + length (before_user suffix)) else None)"
  using find_suffix [of "\<lambda>p. sp_role p = User" pre suffix] by (simp add: next_user_def has_user_def before_user_def)

lemma answer_iff: "i \<in> set (answer_of p) \<longleftrightarrow> sp_role p = Tool \<and> jget ''providerToolUseId'' (sp_payload p) = JStr i"
proof (cases "sp_role p = Tool")
  case True
  then show ?thesis
    by (cases "jget ''providerToolUseId'' (sp_payload p)") (auto simp: answer_of_def)
next
  case False
  then show ?thesis
    by (simp add: answer_of_def)
qed

lemma tool_indices_filter:
  "tool_indices steps c = filter (\<lambda>j. c \<in> set (answer_of (steps ! j))) [0 ..< length steps]"
  by (simp add: tool_indices_def answer_iff)

lemma list_ex_filter_upt: "list_ex P (filter Q [0 ..< n]) \<longleftrightarrow> (\<exists>i < n. Q i \<and> P i)"
  by (auto simp: list_ex_iff)

lemma tool_between:
  assumes "n \<le> length rest"
  shows "list_ex (\<lambda>i. length pre < i \<and> i < length pre + Suc n) (tool_indices (pre @ p # rest) c) \<longleftrightarrow> c \<in> set (answers_in (take n rest))"
proof -
  have "(\<exists>i < length (pre @ p # rest). c \<in> set (answer_of ((pre @ p # rest) ! i)) \<and> length pre < i \<and> i < length pre + Suc n)
      \<longleftrightarrow> (\<exists>k < n. c \<in> set (answer_of (rest ! k)))"
  proof
    assume "\<exists>i < length (pre @ p # rest). c \<in> set (answer_of ((pre @ p # rest) ! i)) \<and> length pre < i \<and> i < length pre + Suc n"
    then obtain i where i: "c \<in> set (answer_of ((pre @ p # rest) ! i))" "length pre < i" "i < length pre + Suc n"
      by blast
    define k where "k = i - length pre - 1"
    have "i = length pre + Suc k" "k < n"
      using i by (simp_all add: k_def)
    then show "\<exists>k < n. c \<in> set (answer_of (rest ! k))"
      using i(1) by (auto simp: nth_append)
  next
    assume "\<exists>k < n. c \<in> set (answer_of (rest ! k))"
    then obtain k where "k < n" "c \<in> set (answer_of (rest ! k))"
      by blast
    then show "\<exists>i < length (pre @ p # rest). c \<in> set (answer_of ((pre @ p # rest) ! i)) \<and> length pre < i \<and> i < length pre + Suc n"
      using assms by (intro exI [of _ "length pre + Suc k"]) (auto simp: nth_append)
  qed
  also have "(\<exists>k < n. c \<in> set (answer_of (rest ! k))) \<longleftrightarrow> c \<in> set (answers_in (take n rest))"
    using nth_image [OF assms, symmetric] by auto
  finally show ?thesis
    unfolding tool_indices_filter list_ex_filter_upt .
qed

lemma still_awaited_suffix: "still_awaited (pre @ p # rest) (length pre) call = awaited_here (p # rest) call"
proof (cases "has_user (p # rest)")
  case True
  show ?thesis
  proof (cases "sp_role p = User")
    case user: True
    then show ?thesis
      using True by (simp add: still_awaited_def next_user_suffix awaited_here_def before_user_def list_ex_iff)
  next
    case False
    then have len: "length (before_user (p # rest)) = Suc (length (before_user rest))"
      by (simp add: before_user_def)
    have "length (before_user rest) \<le> length rest" and "take (length (before_user rest)) rest = before_user rest"
      unfolding before_user_def by (simp_all add: length_takeWhile_le takeWhile_eq_take [symmetric])
    then show ?thesis
      using tool_between [of "length (before_user rest)" rest pre p "fst call"] True False
      unfolding still_awaited_def next_user_suffix len awaited_here_def by simp
  qed
next
  case False
  then show ?thesis
    by (simp add: still_awaited_def next_user_suffix awaited_here_def)
qed

lemma still_awaited_fun: "still_awaited (pre @ p # rest) (length pre) = awaited_here (p # rest)"
  by (rule ext) (rule still_awaited_suffix)

lemma replay_plain:
  assumes "list_all step_ok rest"
  shows "replay_from loads (pre @ rest) (length pre) rest open_calls closed = Inr (plain_history loads rest open_calls closed)"
  using assms
proof (induction rest arbitrary: pre open_calls closed)
  case (Cons p rest)
  have IH: "replay_from loads (pre @ p # rest) (Suc (length pre)) rest cs ds = Inr (plain_history loads rest cs ds)" for cs ds
    using Cons.IH [of "pre @ [p]"] Cons.prems by simp
  show ?case
  proof (cases "sp_role p = Tool")
    case True
    then obtain i where i: "jget ''providerToolUseId'' (sp_payload p) = JStr i"
      using Cons.prems by (auto simp: step_ok_def)
    then have "map_of (sp_payload p) ''providerToolUseId'' \<noteq> None"
      by (auto simp: jget_def split: option.splits)
    then show ?thesis
      using True i by (auto simp: IH answer_of_def Let_def)
  next
    case False
    then obtain content where c: "map_of (sp_payload p) ''content'' = Some content"
      using Cons.prems by (auto simp: step_ok_def)
    then have "jget ''content'' (sp_payload p) = content"
      by (simp add: jget_def)
    then show ?thesis
      using False c by (cases "sp_role p") (simp_all add: IH still_awaited_fun Let_def)
  qed
qed simp

section \<open>Every superseded call is answered once\<close>

definition answers :: "string \<Rightarrow> NeutralMessage list \<Rightarrow> nat" where
  "answers c ms = length (filter (\<lambda>m. nm_role m = Tool \<and> nm_provider_id m = JStr c) ms)"

lemma message_roles [simp]:
  "nm_role (tool_step_message payload) = Tool" "nm_role (content_message r content) = r" "nm_role (synthetic_result call) = Tool"
  by (simp_all add: tool_step_message_def content_message_def synthetic_result_def)

lemma answers_simps [simp]:
  "answers c [] = 0" "answers c (ms @ ns) = answers c ms + answers c ns"
  "answers c (tool_step_message (sp_payload p) # ms) =
     answers c ms + (if jget ''providerToolUseId'' (sp_payload p) = JStr c then 1 else 0)"
  "r \<noteq> Tool \<Longrightarrow> answers c (content_message r content # ms) = answers c ms"
  by (simp_all add: answers_def tool_step_message_def content_message_def)

lemma answers_synthetic: "answers c (map synthetic_result calls) = count_list (map fst calls) c"
  by (induction calls) (auto simp: answers_def synthetic_result_def)

lemma count_none: "c \<notin> set xs \<Longrightarrow> count_list xs c = 0"
  by (simp add: count_notin)

text \<open>A call that is neither open nor opened later, and whose result does not come or comes too late, is not answered.\<close>

lemma not_answered:
  assumes "c \<notin> fst ` set open_calls" and "c \<notin> set (calls_in loads steps)" and "c \<in> set closed \<or> c \<notin> set (answers_in steps)"
    and "list_all step_ok steps"
  shows "answers c (plain_history loads steps open_calls closed) = 0"
  using assms
proof (induction steps arbitrary: open_calls closed)
  case (Cons p rest)
  show ?case
  proof (cases "sp_role p = Tool")
    case True
    then obtain i where i: "jget ''providerToolUseId'' (sp_payload p) = JStr i"
      using Cons.prems by (auto simp: step_ok_def)
    then show ?thesis
      using True Cons.prems Cons.IH [of open_calls closed]
        Cons.IH [of "filter (\<lambda>call. fst call \<notin> set (answer_of p)) open_calls" closed]
      by (auto simp: answer_of_def image_iff)
  next
    case False
    let ?gone = "filter (\<lambda>call. \<not> awaited_here (p # rest) call) open_calls"
    let ?next = "filter (awaited_here (p # rest)) open_calls
      @ (if sp_role p = Assistant then replayable_tool_calls loads (jget ''content'' (sp_payload p)) else [])"
    have "c \<notin> fst ` set ?next"
      using Cons.prems(1,2) by (auto simp: calls_of_def)
    moreover have "answer_of p = []"
      using False by (simp add: answer_of_def)
    ultimately have "answers c (plain_history loads rest ?next (closed @ map fst ?gone)) = 0"
      by (intro Cons.IH) (use Cons.prems in \<open>auto\<close>)
    moreover have "count_list (map fst ?gone) c = 0"
      using Cons.prems(1) by (intro count_none) auto
    ultimately show ?thesis
      using False by (simp add: answers_synthetic)
  qed
qed simp

lemma awaited_cons:
  assumes "has_user rest" and "sp_role p \<noteq> User"
  shows "awaited_here (p # rest) call \<longleftrightarrow> fst call \<in> set (answers_in (before_user rest))"
  using assms by (simp add: awaited_here_def has_user_def)

lemma count_filter_kept: "(\<And>x. x \<in> set xs \<Longrightarrow> fst x = c \<Longrightarrow> P x) \<Longrightarrow> count_list (map fst (filter P xs)) c = count_list (map fst xs) c"
  by (induction xs) auto

lemma count_filter_gone: "(\<And>x. x \<in> set xs \<Longrightarrow> fst x = c \<Longrightarrow> \<not> P x) \<Longrightarrow> count_list (map fst (filter P xs)) c = 0"
  by (induction xs) auto

lemma history_splits:
  assumes "\<not> has_user seg" and "sp_role u = User"
  shows "\<exists>M1 M2. plain_history loads (seg @ u # post) open_calls closed =
      M1 @ content_message User (jget ''content'' (sp_payload u)) # M2 \<and> (\<forall>m \<in> set M1. nm_role m \<noteq> User)"
  using assms(1)
proof (induction seg arbitrary: open_calls closed)
  case Nil
  have "plain_history loads (u # post) open_calls closed
      = map synthetic_result (filter (\<lambda>call. \<not> awaited_here (u # post) call) open_calls)
        @ content_message User (jget ''content'' (sp_payload u))
        # plain_history loads post (filter (awaited_here (u # post)) open_calls)
            (closed @ map fst (filter (\<lambda>call. \<not> awaited_here (u # post) call) open_calls))"
    using assms(2) by simp
  moreover have "\<forall>m \<in> set (map synthetic_result (filter (\<lambda>call. \<not> awaited_here (u # post) call) open_calls)). nm_role m \<noteq> User"
    by (simp add: synthetic_result_def)
  ultimately show ?case
    unfolding append_Nil by blast
next
  case (Cons p seg)
  have p: "sp_role p \<noteq> User" "\<not> has_user seg"
    using Cons.prems by (auto simp: has_user_def)
  have add: "\<exists>M1 M2. ms @ rest = M1 @ content_message User (jget ''content'' (sp_payload u)) # M2 \<and> (\<forall>m \<in> set M1. nm_role m \<noteq> User)"
    if "\<exists>M1 M2. rest = M1 @ content_message User (jget ''content'' (sp_payload u)) # M2 \<and> (\<forall>m \<in> set M1. nm_role m \<noteq> User)"
      and "\<forall>m \<in> set ms. nm_role m \<noteq> User" for ms rest
    using that by (elim exE conjE) (rule_tac x = "ms @ M1" in exI, rule_tac x = M2 in exI, auto)
  show ?case
  proof (cases "sp_role p = Tool")
    case True
    then show ?thesis
      using Cons.IH [OF p(2)] add [of "plain_history loads (seg @ u # post) _ _" "[tool_step_message (sp_payload p)]"]
      by (simp add: tool_step_message_def)
  next
    case False
    then show ?thesis
      using add [OF Cons.IH [OF p(2)], of "map synthetic_result _ @ [content_message (sp_role p) (jget ''content'' (sp_payload p))]"] p(1)
      by (simp add: content_message_def synthetic_result_def)
  qed
qed

text \<open>An open call of a turn that a user message follows is answered once before that message, and never after.\<close>

lemma answered_before_user:
  assumes "count_list (map fst open_calls) c = 1" and "c \<notin> set closed" and "c \<notin> set (calls_in loads (seg @ u # post))"
    and "count_list (answers_in (seg @ u # post)) c \<le> 1" and "\<not> has_user seg" and "sp_role u = User"
    and "list_all step_ok (seg @ u # post)"
  shows "\<exists>M1 M2. plain_history loads (seg @ u # post) open_calls closed =
      M1 @ content_message User (jget ''content'' (sp_payload u)) # M2
    \<and> answers c M1 = 1 \<and> answers c M2 = 0 \<and> (\<forall>m \<in> set M1. nm_role m \<noteq> User)"
  using assms
proof (induction seg arbitrary: open_calls closed)
  case Nil
  let ?gone = "filter (\<lambda>call. \<not> awaited_here (u # post) call) open_calls"
  have all: "?gone = open_calls" "filter (awaited_here (u # post)) open_calls = []"
    using Nil(6) by (simp_all add: awaited_here_def has_user_def)
  have "answers c (plain_history loads post [] (closed @ map fst open_calls)) = 0"
    using Nil by (intro not_answered) (auto simp: count_list_0_iff [symmetric])
  moreover have "answers c (map synthetic_result open_calls) = 1"
    using Nil(1) by (simp add: answers_synthetic)
  moreover have "\<forall>m \<in> set (map synthetic_result open_calls). nm_role m \<noteq> User"
    by (simp add: synthetic_result_def)
  moreover have "plain_history loads (u # post) open_calls closed = map synthetic_result open_calls
      @ content_message User (jget ''content'' (sp_payload u)) # plain_history loads post [] (closed @ map fst open_calls)"
    using Nil(6) all by simp
  ultimately show ?case
    unfolding append_Nil by blast
next
  case (Cons p seg)
  have p: "sp_role p \<noteq> User" "\<not> has_user seg" "step_ok p" "list_all step_ok (seg @ u # post)"
    using Cons.prems by (auto simp: has_user_def)
  have user: "has_user (p # seg @ u # post)" and before: "before_user (seg @ u # post) = seg"
    using Cons.prems(6) p(2) by (auto simp: has_user_def before_user_def intro!: takeWhile_append2 [THEN trans])
  have later: "c \<notin> set (calls_in loads (seg @ u # post))" "c \<notin> set (calls_of loads p)"
    using Cons.prems(3) by simp_all
  have prefix: "\<exists>M1 M2. ms @ rest = M1 @ content_message User (jget ''content'' (sp_payload u)) # M2
      \<and> answers c M1 = 1 \<and> answers c M2 = 0 \<and> (\<forall>m \<in> set M1. nm_role m \<noteq> User)"
    if "\<exists>M1 M2. rest = M1 @ content_message User (jget ''content'' (sp_payload u)) # M2
      \<and> answers c M1 = 1 \<and> answers c M2 = 0 \<and> (\<forall>m \<in> set M1. nm_role m \<noteq> User)"
      and "answers c ms = 0" and "\<forall>m \<in> set ms. nm_role m \<noteq> User" for ms rest
    using that by (elim exE conjE) (rule_tac x = "ms @ M1" in exI, rule_tac x = M2 in exI, auto)
  show ?case
  proof (cases "sp_role p = Tool")
    case True
    then obtain i where i: "jget ''providerToolUseId'' (sp_payload p) = JStr i" and ans: "answer_of p = [i]"
      using p(3) by (auto simp: step_ok_def answer_of_def)
    show ?thesis
    proof (cases "i = c")
      case same: True
      let ?rest = "plain_history loads (seg @ u # post) (filter (\<lambda>call. fst call \<notin> set (answer_of p)) open_calls) closed"
      have "answers c ?rest = 0"
        by (rule not_answered) (use later Cons.prems(4) same ans p(4) in \<open>auto simp: count_list_0_iff\<close>)
      moreover obtain M1 M2 where "?rest = M1 @ content_message User (jget ''content'' (sp_payload u)) # M2" "\<forall>m \<in> set M1. nm_role m \<noteq> User"
        using history_splits [OF p(2) Cons.prems(6)] by blast
      ultimately show ?thesis
        using True same i ans Cons.prems(2)
        by (rule_tac exI [of _ "tool_step_message (sp_payload p) # M1"], rule_tac exI [of _ M2]) simp
    next
      case other: False
      have IH: "\<exists>M1 M2. plain_history loads (seg @ u # post) cs closed = M1 @ content_message User (jget ''content'' (sp_payload u)) # M2
          \<and> answers c M1 = 1 \<and> answers c M2 = 0 \<and> (\<forall>m \<in> set M1. nm_role m \<noteq> User)"
        if "count_list (map fst cs) c = 1" for cs
        by (rule Cons.IH) (use that Cons.prems later p other ans in auto)
      show ?thesis
      proof (cases "i \<in> set closed")
        case closed: True
        then show ?thesis
          using IH [OF Cons.prems(1)] True ans by simp
      next
        case False
        have "count_list (map fst (filter (\<lambda>call. fst call \<notin> set (answer_of p)) open_calls)) c = 1"
          using count_filter_kept [of open_calls c "\<lambda>call. fst call \<notin> set (answer_of p)"] Cons.prems(1) other ans by simp
        from prefix [OF IH [OF this], of "[tool_step_message (sp_payload p)]"] show ?thesis
          using True False ans other i by simp
      qed
    qed
  next
    case False
    let ?A = "awaited_here (p # seg @ u # post)"
    let ?gone = "filter (\<lambda>call. \<not> ?A call) open_calls"
    let ?ms = "map synthetic_result ?gone @ [content_message (sp_role p) (jget ''content'' (sp_payload p))]"
    let ?next = "filter ?A open_calls @ (if sp_role p = Assistant then replayable_tool_calls loads (jget ''content'' (sp_payload p)) else [])"
    let ?rest = "plain_history loads (seg @ u # post) ?next (closed @ map fst ?gone)"
    have eq: "plain_history loads ((p # seg) @ u # post) open_calls closed = ?ms @ ?rest"
      using False by simp
    have no_user: "\<forall>m \<in> set ?ms. nm_role m \<noteq> User"
      using p(1) by (auto simp: synthetic_result_def content_message_def)
    have awaits: "?A call \<longleftrightarrow> fst call \<in> set (answers_in seg)" for call
      using awaited_cons [of "seg @ u # post" p call] user p(1) before Cons.prems(6) by (auto simp: has_user_def)
    have fresh: "count_list (map fst (if sp_role p = Assistant then replayable_tool_calls loads (jget ''content'' (sp_payload p)) else [])) c = 0"
      using later(2) by (intro count_none) (auto simp: calls_of_def)
    show ?thesis
    proof (cases "c \<in> set (answers_in seg)")
      case True
      then have "count_list (map fst ?next) c = 1" "count_list (map fst ?gone) c = 0"
        using count_filter_kept [of open_calls c ?A] count_filter_gone [of open_calls c "\<lambda>call. \<not> ?A call"] Cons.prems(1) awaits fresh by simp_all
      then have "\<exists>M1 M2. ?rest = M1 @ content_message User (jget ''content'' (sp_payload u)) # M2
          \<and> answers c M1 = 1 \<and> answers c M2 = 0 \<and> (\<forall>m \<in> set M1. nm_role m \<noteq> User)"
        by (intro Cons.IH) (use Cons.prems later p False in \<open>auto simp: answer_of_def count_list_0_iff\<close>)
      from prefix [OF this _ no_user] show ?thesis
        unfolding eq using \<open>count_list (map fst ?gone) c = 0\<close> False by (simp add: answers_synthetic)
    next
      case gone: False
      then have one: "count_list (map fst ?gone) c = 1" and none: "count_list (map fst ?next) c = 0"
        using count_filter_kept [of open_calls c "\<lambda>call. \<not> ?A call"] count_filter_gone [of open_calls c ?A] Cons.prems(1) awaits fresh by simp_all
      then have "c \<in> set (map fst ?gone)" "c \<notin> set (map fst ?next)"
        by (metis count_notin zero_neq_one) (metis count_list_0_iff none)
      then have "answers c ?rest = 0"
        by (intro not_answered) (use later p in auto)
      moreover obtain M1 M2 where "?rest = M1 @ content_message User (jget ''content'' (sp_payload u)) # M2" "\<forall>m \<in> set M1. nm_role m \<noteq> User"
        using history_splits [OF p(2) Cons.prems(6)] by blast
      ultimately show ?thesis
        unfolding eq using one no_user False
        by (rule_tac exI [of _ "?ms @ M1"], rule_tac exI [of _ M2]) (auto simp: answers_synthetic)
    qed
  qed
qed

lemma count_distinct: "distinct xs \<Longrightarrow> count_list xs c = (if c \<in> set xs then 1 else 0)"
  by (induction xs) auto

text \<open>What lies before an assistant step says nothing about its calls.\<close>

lemma history_prefix:
  assumes "list_all step_ok (pre @ suffix)" and "c \<notin> fst ` set open_calls" and "c \<notin> set closed"
    and "c \<notin> set (calls_in loads pre)" and "c \<notin> set (answers_in pre)"
  shows "\<exists>M0 open' closed'. plain_history loads (pre @ suffix) open_calls closed = M0 @ plain_history loads suffix open' closed'
    \<and> answers c M0 = 0 \<and> c \<notin> fst ` set open' \<and> c \<notin> set closed'"
  using assms
proof (induction pre arbitrary: open_calls closed)
  case Nil
  then show ?case
    by (rule_tac exI [of _ "[]"], rule_tac exI [of _ open_calls], rule_tac exI [of _ closed]) simp
next
  case (Cons p pre)
  have more: "\<exists>M0 open' closed'. ms @ rest = M0 @ plain_history loads suffix open' closed'
      \<and> answers c M0 = 0 \<and> c \<notin> fst ` set open' \<and> c \<notin> set closed'"
    if "\<exists>M0 open' closed'. rest = M0 @ plain_history loads suffix open' closed'
      \<and> answers c M0 = 0 \<and> c \<notin> fst ` set open' \<and> c \<notin> set closed'" and "answers c ms = 0" for ms rest
    using that by (elim exE conjE) (rule_tac x = "ms @ M0" in exI, auto)
  show ?case
  proof (cases "sp_role p = Tool")
    case True
    then obtain i where i: "jget ''providerToolUseId'' (sp_payload p) = JStr i" and ans: "answer_of p = [i]"
      using Cons.prems(1) by (auto simp: step_ok_def answer_of_def)
    have IH: "\<exists>M0 open' closed'. plain_history loads (pre @ suffix) cs closed = M0 @ plain_history loads suffix open' closed'
        \<and> answers c M0 = 0 \<and> c \<notin> fst ` set open' \<and> c \<notin> set closed'" if "c \<notin> fst ` set cs" for cs
      by (rule Cons.IH) (use that Cons.prems in auto)
    show ?thesis
      using True i ans Cons.prems(2,5) IH [OF Cons.prems(2)]
        more [OF IH [of "filter (\<lambda>call. fst call \<notin> set (answer_of p)) open_calls"], of "[tool_step_message (sp_payload p)]"]
      by (auto simp: image_iff)
  next
    case False
    let ?A = "awaited_here (p # pre @ suffix)"
    let ?gone = "filter (\<lambda>call. \<not> ?A call) open_calls"
    let ?next = "filter ?A open_calls @ (if sp_role p = Assistant then replayable_tool_calls loads (jget ''content'' (sp_payload p)) else [])"
    have "c \<notin> fst ` set ?next" "c \<notin> set (closed @ map fst ?gone)"
      using Cons.prems(2,3,4) by (auto simp: calls_of_def)
    then have IH: "\<exists>M0 open' closed'. plain_history loads (pre @ suffix) ?next (closed @ map fst ?gone) = M0 @ plain_history loads suffix open' closed'
        \<and> answers c M0 = 0 \<and> c \<notin> fst ` set open' \<and> c \<notin> set closed'"
      by (intro Cons.IH) (use Cons.prems in auto)
    have "count_list (map fst ?gone) c = 0"
      using Cons.prems(2) by (intro count_none) auto
    then show ?thesis
      using more [OF IH, of "map synthetic_result ?gone @ [content_message (sp_role p) (jget ''content'' (sp_payload p))]"] False
      by (simp add: answers_synthetic)
  qed
qed

text \<open>
  C25. A chat never stays poisoned by an unanswered tool call: when the identifiers of the calls are distinct and each result is
  stored once, the history built from the steps answers every tool call that a user message follows exactly once, before
  that message and after the call, with the device's result when it came in time and with a synthetic error
  otherwise; a result that came too late is not shown.
\<close>

theorem superseded_calls_closed:
  assumes "list_all step_ok (pre @ a # seg @ u # post)" and "sp_role a = Assistant" and "sp_role u = User" and "\<not> has_user seg"
    and "c \<in> set (calls_of loads a)"
    and "distinct (calls_in loads (pre @ a # seg @ u # post))" and "distinct (answers_in (pre @ a # seg @ u # post))"
    and "c \<notin> set (answers_in pre)"
  shows "\<exists>M0 M1 M2. neutral_history_from_steps loads (pre @ a # seg @ u # post) =
      Inr (M0 @ content_message Assistant (jget ''content'' (sp_payload a)) # M1
             @ content_message User (jget ''content'' (sp_payload u)) # M2)
    \<and> answers c M0 = 0 \<and> answers c M1 = 1 \<and> answers c M2 = 0 \<and> (\<forall>m \<in> set M1. nm_role m \<noteq> User)"
proof -
  let ?steps = "a # seg @ u # post"
  have calls: "c \<notin> set (calls_in loads pre)" "c \<notin> set (calls_in loads (seg @ u # post))" "count_list (calls_of loads a) c = 1"
    using assms(5,6) by (auto simp: count_distinct)
  obtain M0 cs ds where pre: "plain_history loads (pre @ ?steps) [] [] = M0 @ plain_history loads ?steps cs ds"
    "answers c M0 = 0" "c \<notin> fst ` set cs" "c \<notin> set ds"
    using history_prefix [OF assms(1), of c "[]" "[]" loads] calls(1) assms(8) by auto
  let ?gone = "filter (\<lambda>call. \<not> awaited_here ?steps call) cs"
  let ?next = "filter (awaited_here ?steps) cs @ replayable_tool_calls loads (jget ''content'' (sp_payload a))"
  have "count_list (map fst ?next) c = 1"
    using calls(3) pre(3) assms(2) by (auto simp: calls_of_def intro!: count_none)
  moreover have "distinct (answers_in (seg @ u # post))"
    using assms(7) by simp
  then have "count_list (answers_in (seg @ u # post)) c \<le> 1"
    unfolding count_distinct [OF \<open>distinct (answers_in (seg @ u # post))\<close>] by simp
  ultimately obtain M1 M2 where
    post: "plain_history loads (seg @ u # post) ?next (ds @ map fst ?gone) = M1 @ content_message User (jget ''content'' (sp_payload u)) # M2"
    "answers c M1 = 1" "answers c M2 = 0" "\<forall>m \<in> set M1. nm_role m \<noteq> User"
    using answered_before_user [of ?next c "ds @ map fst ?gone" loads seg u post] calls(2) pre(3,4) assms(1,3,4) by auto
  have "count_list (map fst ?gone) c = 0"
    using pre(3) by (intro count_none) auto
  then have "answers c (M0 @ map synthetic_result ?gone) = 0"
    using pre(2) by (simp add: answers_synthetic)
  moreover have "neutral_history_from_steps loads (pre @ ?steps) =
      Inr ((M0 @ map synthetic_result ?gone) @ content_message Assistant (jget ''content'' (sp_payload a)) # M1
             @ content_message User (jget ''content'' (sp_payload u)) # M2)"
    using replay_plain [OF assms(1), of loads "[]" "[]" "[]"] pre(1) post(1) assms(2) by (simp add: neutral_history_from_steps_def)
  ultimately show ?thesis
    using post(2-4) by blast
qed

definition demo_step :: "nat \<Rightarrow> role \<Rightarrow> json_obj \<Rightarrow> chat_step" where
  "demo_step n r payload =
     \<lparr>sp_id = word_of_nat n, sp_seq = n, sp_session = 1, sp_message = 2, sp_role = r, sp_payload = payload, sp_usage = None\<rparr>"

definition call_block :: "string \<Rightarrow> json" where
  "call_block i = JObj [(''type'', JStr ''tool_use''), (''id'', JStr i), (''name'', JStr ''files_read''), (''input'', JObj [])]"

definition asks :: chat_step where
  "asks = demo_step 1 Assistant [(''content'', JArr [call_block ''t1'', call_block ''t2''])]"

definition replies :: "nat \<Rightarrow> string \<Rightarrow> chat_step" where
  "replies n i = demo_step n Tool [(''toolCallId'', JStr ''x''), (''providerToolUseId'', JStr i), (''result'', JObj [])]"

definition says :: "nat \<Rightarrow> chat_step" where
  "says n = demo_step n User [(''content'', JArr [text_block ''never mind''])]"

text \<open>The device answers one of two calls, the user writes on, the second result comes late.\<close>

theorem superseded_calls_closed_witness:
  "(\<exists>M0 M1 M2. neutral_history_from_steps (\<lambda>_. None) ([] @ asks # [replies 2 ''t1''] @ says 3 # [replies 4 ''t2'']) =
      Inr (M0 @ content_message Assistant (jget ''content'' (sp_payload asks)) # M1
             @ content_message User (jget ''content'' (sp_payload (says 3))) # M2)
    \<and> answers ''t2'' M0 = 0 \<and> answers ''t2'' M1 = 1 \<and> answers ''t2'' M2 = 0 \<and> (\<forall>m \<in> set M1. nm_role m \<noteq> User))
   \<and> map_sum id (map nm_role) (neutral_history_from_steps (\<lambda>_. None) [asks, replies 2 ''t1'', says 3, replies 4 ''t2'']) =
       Inr [Assistant, Tool, Tool, User]"
proof
  show "\<exists>M0 M1 M2. neutral_history_from_steps (\<lambda>_. None) ([] @ asks # [replies 2 ''t1''] @ says 3 # [replies 4 ''t2'']) =
      Inr (M0 @ content_message Assistant (jget ''content'' (sp_payload asks)) # M1
             @ content_message User (jget ''content'' (sp_payload (says 3))) # M2)
    \<and> answers ''t2'' M0 = 0 \<and> answers ''t2'' M1 = 1 \<and> answers ''t2'' M2 = 0 \<and> (\<forall>m \<in> set M1. nm_role m \<noteq> User)"
    by (rule superseded_calls_closed)
      (simp_all add: asks_def replies_def says_def demo_step_def call_block_def step_ok_def has_user_def calls_of_def answer_of_def
         replayable_tool_calls_def to_domain_blocks_def is_chat_completions_message_def replayable_call_def List.map_filter_simps)
  show "map_sum id (map nm_role) (neutral_history_from_steps (\<lambda>_. None) [asks, replies 2 ''t1'', says 3, replies 4 ''t2'']) =
      Inr [Assistant, Tool, Tool, User]"
    by code_simp
qed

end
