(* ===== verification/Chat_Turn.thy ===== *)
theory Chat_Turn
  imports Chat_History Key_Failover
begin

text \<open>
  One leg of a chat turn: \<open>_generate_loop\<close> of \<open>chat/orchestrator.py\<close> and what it calls, and the two ways a leg is closed
  when it does not end by itself (\<open>_finalize_interrupted\<close>, \<open>_mark_turn_failed\<close>). A leg works on a connection (\<open>conn\<close>): the
  world its open transaction sees, the committed one, the identifiers drawn, and the rounds and the calls of provider clients so far
  (\<open>cn_calls\<close> is read by no code, it is there to be counted). Other
  requests run while a provider is asked, which is where the source holds no transaction (\<open>te_meanwhile\<close>).

  Arguments (\<open>turn_env\<close>): the settings in force, the LLM clients, the tools executed here with their argument schemas, the
  texts of the source that are not ASCII or are advice to the model, \<open>uuid4\<close> and the clock. Left out: logging, metrics, the indexing of a
  finished turn for the memory search, and the cards of quiz, documents and media choices a response is decorated with.
  The session row is read where the source reads the object its connection has loaded.
\<close>

section \<open>Results of a provider and of a tool\<close>

record llm_usage =
  lu_input :: int
  lu_output :: int
  lu_model :: string
  lu_cache_read :: int
  lu_cache_write :: int
  lu_reasoning :: int
  lu_web_search :: int

definition usage_dict :: "llm_usage \<Rightarrow> json_obj" where
  "usage_dict u =
     [(''inputTokens'', JInt (lu_input u)), (''outputTokens'', JInt (lu_output u)), (''model'', JStr (lu_model u)),
      (''cacheReadTokens'', JInt (lu_cache_read u)), (''cacheWriteTokens'', JInt (lu_cache_write u))]
     @ (if lu_reasoning u \<noteq> 0 then [(''reasoningTokens'', JInt (lu_reasoning u))] else [])
     @ (if lu_web_search u \<noteq> 0 then [(''webSearchRequests'', JInt (lu_web_search u))] else [])"

record tool_use =
  tu_id :: string
  tu_name :: string
  tu_input :: json_obj

record llm_result =
  lr_stop :: "string option"
  lr_content :: "json list"
  lr_usage :: llm_usage
  lr_text :: string
  lr_tool_uses :: "tool_use list"
  lr_response_id :: "string option"

record tool_execution =
  tx_result :: "json_obj option"
  tx_is_error :: bool
  tx_error_code :: "string option"
  tx_error_message :: "string option"

definition tool_error :: "string \<Rightarrow> string \<Rightarrow> tool_execution" where
  "tool_error c message = \<lparr>tx_result = None, tx_is_error = True, tx_error_code = Some c, tx_error_message = Some message\<rparr>"

definition json_opt :: "string option \<Rightarrow> json" where
  "json_opt v = (case v of None \<Rightarrow> JNull | Some s \<Rightarrow> JStr s)"

definition obj_opt :: "json_obj option \<Rightarrow> json" where
  "obj_opt v = (case v of None \<Rightarrow> JNull | Some d \<Rightarrow> JObj d)"

definition to_tool_result_payload :: "tool_execution \<Rightarrow> json_obj" where
  "to_tool_result_payload x =
     (if tx_is_error x
      then [(''error'', JObj [(''code'', json_opt (tx_error_code x)), (''message'', json_opt (tx_error_message x))])]
      else [(''result'', obj_opt (tx_result x))])"

definition execution_status :: "tool_execution \<Rightarrow> call_status" where
  "execution_status x = (if tx_is_error x then Errored else Completed)"

definition status_text :: "call_status \<Rightarrow> string" where
  "status_text st = (case st of Pending \<Rightarrow> ''pending'' | Completed \<Rightarrow> ''completed'' | Errored \<Rightarrow> ''errored'')"

record server_tool =
  so_call :: uuid
  so_tool :: string
  so_status :: call_status
  so_summary :: string

definition server_tool_summary :: "tool_execution \<Rightarrow> string" where
  "server_tool_summary x =
     (if tx_is_error x then take 120 (case tx_error_code x of Some (c # cs) \<Rightarrow> c # cs | _ \<Rightarrow> ''errored'') else ''ok'')"

section \<open>The turn\<close>

record billing_plan =
  bp_debit :: bool
  bp_trial :: bool
  bp_amount :: int
  bp_expose :: bool

definition billing_plan_for :: "Mode \<Rightarrow> PolicyState \<Rightarrow> int \<Rightarrow> bool \<Rightarrow> billing_plan" where
  "billing_plan_for mode state credit_amount expose =
     (if mode = Mode_byok then \<lparr>bp_debit = False, bp_trial = False, bp_amount = 0, bp_expose = expose\<rparr>
      else if subscription_status state = Sub_active
      then \<lparr>bp_debit = True, bp_trial = False, bp_amount = max 1 credit_amount, bp_expose = expose\<rparr>
      else if subscription_status state = Sub_none \<and> \<not> trial_used state
      then \<lparr>bp_debit = False, bp_trial = True, bp_amount = 0, bp_expose = expose\<rparr>
      else \<lparr>bp_debit = False, bp_trial = False, bp_amount = 0, bp_expose = expose\<rparr>)"

text \<open>What a leg is about: the arguments of \<open>_generate_loop\<close>.\<close>

record turn =
  tn_user :: uuid
  tn_session :: uuid
  tn_message :: uuid
  tn_mode :: Mode
  tn_billing :: billing_plan
  tn_api_key :: "string option"
  tn_byok_provider :: "string option"
  tn_system_prompt :: string
  tn_has_project :: bool
  tn_attachments :: "json option"
  tn_model :: "string option"
  tn_generation_mode :: string
  tn_v2 :: bool

text \<open>The keyword arguments of a call besides key, model and provider state.\<close>

record llm_args =
  la_generation_client :: bool
  la_system_prompt :: string
  la_messages :: "NeutralMessage list"
  la_tools :: "string list"
  la_attachments :: "json option"
  la_generation_mode :: string

record tool_request =
  tq_tool :: string
  tq_args :: json_obj
  tq_user :: uuid
  tq_session :: uuid
  tq_project :: "string option"
  tq_attachments :: "json option"

datatype turn_fault = Fails exn | Interrupted string string nat

record turn_env =
  te_loads :: json_reader
  te_dumps :: "json_obj \<Rightarrow> string"
  te_cfg :: llm_settings
  te_default_model :: string
  te_byok_default :: "string \<times> string"
  te_media_tools :: bool
  te_disabled :: "string list"
  te_code_tools :: bool
  te_maps_tools :: bool
  te_legacy_search :: bool
  te_max_rounds :: nat
  te_ask :: "nat \<Rightarrow> nat \<Rightarrow> llm_request \<Rightarrow> llm_args \<Rightarrow> llm_result answer"
  te_interruption :: "exc_heap \<Rightarrow> nat \<Rightarrow> string \<times> string \<times> nat"
  te_meanwhile :: "nat \<Rightarrow> world \<Rightarrow> world"
  te_validate :: "string \<Rightarrow> json_obj \<Rightarrow> (string \<times> string) + json_obj"
  te_tool :: "nat \<Rightarrow> tool_request \<Rightarrow> world \<Rightarrow> (exn, tool_execution, world) outcome"
  te_hint :: "string \<Rightarrow> string"
  te_failed_texts :: "(string \<times> string) list"
  te_uuid :: "nat \<Rightarrow> uuid"
  te_now :: "nat \<Rightarrow> instant"

definition effective_generation_mode :: "turn_env \<Rightarrow> string \<Rightarrow> bool \<Rightarrow> string" where
  "effective_generation_mode env mode v2 =
     (if v2 then (if mode \<in> {''general'', ''research'', ''reasoning'', ''study_learn''} then mode else ''general'')
      else if te_legacy_search env then ''research'' else ''general'')"

abbreviation turn_mode :: "turn_env \<Rightarrow> turn \<Rightarrow> string" where
  "turn_mode env t \<equiv> effective_generation_mode env (tn_generation_mode t) (tn_v2 t)"

section \<open>The connection\<close>

record conn =
  cn_now :: world
  cn_saved :: world
  cn_draws :: nat
  cn_rounds :: nat
  cn_calls :: nat

type_synonym 'a leg = "conn \<Rightarrow> (turn_fault, 'a, conn) outcome"

definition commit :: "conn \<Rightarrow> conn" where "commit c = c\<lparr>cn_saved := cn_now c\<rparr>"

definition rollback :: "conn \<Rightarrow> conn" where "rollback c = c\<lparr>cn_now := cn_saved c\<rparr>"

definition lift_fault :: "exn + 'a \<Rightarrow> turn_fault + 'a" where
  "lift_fault r = (case r of Inl e \<Rightarrow> Inl (Fails e) | Inr a \<Rightarrow> Inr a)"

definition on_chat :: "'a chat_op \<Rightarrow> 'a leg" where
  "on_chat f c = (case f (w_chat (cn_now c)) of (r, s) \<Rightarrow> (lift_fault r, c\<lparr>cn_now := (cn_now c)\<lparr>w_chat := s\<rparr>\<rparr>))"

definition on_db :: "'a tx \<Rightarrow> 'a leg" where
  "on_db f c = (case f (w_db (cn_now c)) of (r, s) \<Rightarrow> (lift_fault r, c\<lparr>cn_now := (cn_now c)\<lparr>w_db := s\<rparr>\<rparr>))"

definition on_tool :: "turn_env \<Rightarrow> tool_request \<Rightarrow> tool_execution leg" where
  "on_tool env rq c =
     (case te_tool env (cn_draws c) rq (cn_now c) of (r, w) \<Rightarrow> (lift_fault r, c\<lparr>cn_now := w, cn_draws := Suc (cn_draws c)\<rparr>))"

text \<open>\<open>uuid.uuid4()\<close>, and the identifier a row gets from the database\<close>

definition draw :: "turn_env \<Rightarrow> uuid leg" where
  "draw env c = (Inr (te_uuid env (cn_draws c)), c\<lparr>cn_draws := Suc (cn_draws c)\<rparr>)"

text \<open>What other requests commit while the provider is asked.\<close>

definition elapse :: "turn_env \<Rightarrow> conn \<Rightarrow> conn" where
  "elapse env c =
     (let w = te_meanwhile env (cn_rounds c) (cn_saved c) in c\<lparr>cn_now := w, cn_saved := w, cn_rounds := Suc (cn_rounds c)\<rparr>)"

definition store_step :: "turn_env \<Rightarrow> turn \<Rightarrow> role \<Rightarrow> json_obj \<Rightarrow> json_obj option \<Rightarrow> uuid leg" where
  "store_step env t r payload usage c =
     and_then (draw env c) (\<lambda>i. on_chat (add_step i (tn_session t) (tn_message t) r payload usage))"

definition audit_turn :: "turn \<Rightarrow> string \<Rightarrow> payload \<Rightarrow> unit leg" where
  "audit_turn t event p = on_db (audit_record (Some (tn_user t)) (Some (tn_session t)) event p)"

definition audit_call :: "turn \<Rightarrow> string \<Rightarrow> uuid \<Rightarrow> string \<Rightarrow> payload \<Rightarrow> unit leg" where
  "audit_call t event i tool extra =
     audit_turn t event ([(''toolCallId'', Val (JStr (uuid_str i))), (''toolName'', Val (JStr tool))] @ extra)"

section \<open>What a leg answers\<close>

datatype turn_status = Assistant_message | Tool_call | Blocked

record tool_call_out =
  to_id :: uuid
  to_name :: string
  to_args :: json_obj

record chat_run_out =
  ro_status :: turn_status
  ro_session :: uuid
  ro_message :: "string option"
  ro_calls :: "tool_call_out list"
  ro_block :: "BlockReason option"
  ro_usage :: "json_obj option"
  ro_message_step :: "uuid option"
  ro_step :: "uuid option"
  ro_server_tools :: "server_tool list"
  ro_media_jobs :: "json_obj list"
  ro_spent :: int

definition blocked_out :: "uuid \<Rightarrow> BlockReason option \<Rightarrow> chat_run_out" where
  "blocked_out session reason =
     \<lparr>ro_status = Blocked, ro_session = session, ro_message = None, ro_calls = [],
      ro_block = Some (case reason of None \<Rightarrow> Block_policy_denied | Some r \<Rightarrow> r), ro_usage = None, ro_message_step = None,
      ro_step = None, ro_server_tools = [], ro_media_jobs = [], ro_spent = 0\<rparr>"

definition text_or_none :: "string \<Rightarrow> string option" where
  "text_or_none s = (if s = [] then None else Some s)"

text \<open>The accumulators of a call that reach its result: executed server tools and submitted media jobs.\<close>

record turn_acc =
  ac_server :: "server_tool list"
  ac_media :: "json_obj list"

section \<open>Tools\<close>

text \<open>\<open>_persist_tool_execution\<close>; a project tool is recorded the same way.\<close>

definition persist_tool_execution :: "turn_env \<Rightarrow> turn \<Rightarrow> uuid \<Rightarrow> tool_use \<Rightarrow> tool_execution \<Rightarrow> turn_acc \<Rightarrow> turn_acc leg" where
  "persist_tool_execution env t i b x acc c =
     (let p = to_tool_result_payload x; st = execution_status x in
      and_then (on_chat (\<lambda>s. case complete_tool_call i st (JObj p) s of (_, s') \<Rightarrow> (Inr (), s')) c) (\<lambda>_ c.
      and_then (store_step env t Tool
        [(''toolCallId'', JStr (uuid_str i)), (''providerToolUseId'', JStr (tu_id b)), (''toolName'', JStr (tu_name b)),
         (''result'', jget ''result'' p), (''error'', jget ''error'' p)] None c) (\<lambda>_ c.
      and_then (audit_call t ''tool_call_completed'' i (tu_name b) [(''status'', Val (JStr (status_text st)))] c) (\<lambda>_ c.
        (Inr (acc\<lparr>ac_server := ac_server acc @ [\<lparr>so_call = i, so_tool = tu_name b, so_status = st, so_summary = server_tool_summary x\<rparr>]\<rparr>), c)))))"

definition start_tool_call :: "turn_env \<Rightarrow> turn \<Rightarrow> tool_use \<Rightarrow> json_obj \<Rightarrow> uuid leg" where
  "start_tool_call env t b args c =
     and_then (draw env c) (\<lambda>i c.
     and_then (on_chat (create_tool_call i (tn_session t) (tn_message t) (tu_name b) args (tu_id b) (te_now env (cn_draws c))) c) (\<lambda>_ c.
     and_then (audit_call t ''tool_call_initiated'' i (tu_name b) [] c) (\<lambda>_ c. (Inr i, c))))"

definition record_refused_tool_call :: "turn_env \<Rightarrow> turn \<Rightarrow> tool_use \<Rightarrow> tool_execution \<Rightarrow> turn_acc \<Rightarrow> turn_acc leg" where
  "record_refused_tool_call env t b x acc c =
     and_then (start_tool_call env t b (tu_input b) c) (\<lambda>i. persist_tool_execution env t i b x acc)"

definition external_project_id :: "turn \<Rightarrow> string leg" where
  "external_project_id t c =
     (case cd_sessions (w_chat (cn_now c)) (tn_session t) of
        None \<Rightarrow> (Inl (Fails (Raised NotFoundError ''session not found'')), c)
      | Some r \<Rightarrow> (case cs_project r of
            None \<Rightarrow> (Inl (Fails (Raised UpstreamError ''site.* resolution attempted for a project-less session'')), c)
          | Some p \<Rightarrow> (Inr p, c)))"

definition execute_tool :: "turn_env \<Rightarrow> turn \<Rightarrow> uuid \<Rightarrow> tool_use \<Rightarrow> json_obj \<Rightarrow> string option \<Rightarrow> turn_acc \<Rightarrow> (tool_execution \<times> turn_acc) leg" where
  "execute_tool env t i b args project acc c =
     and_then (on_tool env \<lparr>tq_tool = tu_name b, tq_args = args, tq_user = tn_user t, tq_session = tn_session t,
                 tq_project = project, tq_attachments = tn_attachments t\<rparr> c) (\<lambda>x c.
     and_then (persist_tool_execution env t i b x acc c) (\<lambda>acc c. (Inr (x, acc), c)))"

definition DOCUMENT_TOOL_NAMES :: "string list" where
  "DOCUMENT_TOOL_NAMES = [''document.create'', ''document.list'', ''document.read'', ''document.update'']"

definition MEDIA_TOOL_NAMES :: "string list" where
  "MEDIA_TOOL_NAMES = [''media.generate_image'', ''media.generate_video'']"

text \<open>The code and message of a refusal for malformed arguments; the advice to the model is an argument.\<close>

definition degraded :: "turn_env \<Rightarrow> string \<Rightarrow> string \<Rightarrow> tool_execution" where
  "degraded env tool description =
     (if tool = ''quiz.generate'' then tool_error ''invalid_quiz'' (description @ ''; '' @ te_hint env ''invalid_quiz'')
      else if tool = ''files.patch'' then tool_error ''invalid_patch'' (description @ ''; '' @ te_hint env ''invalid_patch'')
      else if tool \<in> set DOCUMENT_TOOL_NAMES
      then tool_error ''invalid_document_request'' (description @ ''; '' @ te_hint env ''invalid_document_request'')
      else if tool \<in> set MAPS_TOOLS then tool_error ''invalid_maps_args'' (description @ ''; '' @ te_hint env ''invalid_maps_args'')
      else tool_error ''invalid_media_request'' description)"

definition not_available :: "string \<Rightarrow> string \<Rightarrow> tool_execution" where
  "not_available tool place = tool_error ''tool_not_available'' (''tool '' @ tool @ '' is not available '' @ place)"

text \<open>The guards in the order of the source. \<open>Some\<close> is a refusal the turn survives.\<close>

definition soft_refusal :: "turn_env \<Rightarrow> turn \<Rightarrow> string \<Rightarrow> tool_execution option" where
  "soft_refusal env t name =
     (if map_of TOOL_GENERATION_MODES name \<noteq> None \<and> \<not> offered_in_generation_mode name (turn_mode env t)
      then Some (not_available name ''in this generation mode'')
      else if \<not> offered_tool_family name (te_disabled env) then Some (not_available name ''on this instance'')
      else if name \<in> set MEDIA_CHAT_TOOLS \<and> \<not> offered_media_chat_tool name (te_media_tools env)
      then Some (not_available name ''on this instance'')
      else if name \<in> set MAPS_TOOLS \<and> \<not> offered_maps_tool name (te_maps_tools env) then Some (not_available name ''on this instance'')
      else None)"

text \<open>One block of \<open>result.tool_uses\<close>: the accumulators and the client call it adds.\<close>

definition handle_block ::
  "turn_env \<Rightarrow> turn \<Rightarrow> string option \<Rightarrow> tool_use \<Rightarrow> turn_acc \<Rightarrow> (turn_acc \<times> tool_call_out list) leg" where
  "handle_block env t project b acc c =
     (let name = tu_name b; refused = (\<lambda>x. and_then (record_refused_tool_call env t b x acc c) (\<lambda>acc c. (Inr (acc, []), c))) in
      if name \<in> set SERVER_SIDE_TOOLS \<and> \<not> tn_has_project t
      then (Inl (Fails (Raised UpstreamError ''server-side site.* tool requested for a project-less session'')), c)
      else case soft_refusal env t name of
        Some x \<Rightarrow> refused x
      | None \<Rightarrow> (case te_validate env name (tu_input b) of
            Inl (message, description) \<Rightarrow>
              if name \<notin> set ARGS_DEGRADE_TOOLS then (Inl (Fails (Raised ValidationFailedError message)), c)
              else refused (degraded env name description)
          | Inr args \<Rightarrow>
              and_then (start_tool_call env t b args c) (\<lambda>i c.
              if name \<in> set GLOBAL_SERVER_SIDE_TOOLS then
                and_then (execute_tool env t i b args None acc c) (\<lambda>r c.
                  (Inr (case r of (x, acc) \<Rightarrow>
                     (case tx_result x of
                        Some d \<Rightarrow> if name \<in> set MEDIA_TOOL_NAMES \<and> \<not> tx_is_error x then acc\<lparr>ac_media := ac_media acc @ [d]\<rparr> else acc
                      | None \<Rightarrow> acc), []), c))
              else if name \<in> set SERVER_SIDE_TOOLS then
                and_then (execute_tool env t i b args project acc c) (\<lambda>r c. (Inr (snd r, []), c))
              else (Inr (acc, [\<lparr>to_id = i, to_name = name, to_args = args\<rparr>]), c))))"

fun handle_blocks ::
  "turn_env \<Rightarrow> turn \<Rightarrow> string option \<Rightarrow> tool_use list \<Rightarrow> turn_acc \<Rightarrow> (turn_acc \<times> tool_call_out list) leg" where
  "handle_blocks env t project [] acc c = (Inr (acc, []), c)"
| "handle_blocks env t project (b # bs) acc c =
     and_then (handle_block env t project b acc c) (\<lambda>r c.
     and_then (handle_blocks env t project bs (fst r) c) (\<lambda>r' c. (Inr (fst r', snd r @ snd r'), c)))"

text \<open>\<open>_handle_tool_use\<close>: \<open>None\<close> is a round executed here entirely.\<close>

definition handle_tool_use :: "turn_env \<Rightarrow> turn \<Rightarrow> llm_result \<Rightarrow> json_obj \<Rightarrow> turn_acc \<Rightarrow> (turn_acc \<times> chat_run_out option) leg" where
  "handle_tool_use env t r usage acc c =
     and_then (store_step env t Assistant [(''content'', JArr (lr_content r))] (Some usage) c) (\<lambda>step c.
     and_then (if tn_has_project t then and_then (external_project_id t c) (\<lambda>p c. (Inr (Some p), c)) else (Inr None, c)) (\<lambda>project c.
     and_then (handle_blocks env t project (lr_tool_uses r) acc c) (\<lambda>res c.
       (Inr (fst res,
             if snd res = [] then None
             else Some \<lparr>ro_status = Tool_call, ro_session = tn_session t, ro_message = text_or_none (lr_text r), ro_calls = snd res,
               ro_block = None, ro_usage = Some usage, ro_message_step = Some (tn_message t), ro_step = Some step,
               ro_server_tools = ac_server (fst res), ro_media_jobs = [], ro_spent = 0\<rparr>), c))))"

section \<open>The end of a leg\<close>

definition handle_max_tokens :: "turn_env \<Rightarrow> turn \<Rightarrow> llm_result \<Rightarrow> json_obj \<Rightarrow> turn_acc \<Rightarrow> chat_run_out leg" where
  "handle_max_tokens env t r usage acc c =
     and_then (store_step env t Assistant [(''content'', JArr (lr_content r))] (Some usage) c) (\<lambda>step c.
     and_then (audit_turn t ''chat_step''
       [(''sessionId'', Val (JStr (uuid_str (tn_session t)))), (''role'', Val (JStr ''assistant'')), (''blockReason'', Val (JStr ''max_tokens'')),
        (''model'', Val (jget ''model'' usage)), (''usage'', Val (JObj usage))] c) (\<lambda>_ c.
       (Inr \<lparr>ro_status = Blocked, ro_session = tn_session t, ro_message = text_or_none (lr_text r), ro_calls = [],
          ro_block = Some Block_max_tokens, ro_usage = Some usage, ro_message_step = Some (tn_message t), ro_step = Some step,
          ro_server_tools = ac_server acc, ro_media_jobs = [], ro_spent = 0\<rparr>, commit c)))"

text \<open>\<open>str(usage.get("generationMode") or "general")\<close>\<close>

definition charged_mode :: "json_obj \<Rightarrow> string" where
  "charged_mode usage = (case jget ''generationMode'' usage of JStr (x # xs) \<Rightarrow> x # xs | _ \<Rightarrow> ''general'')"

definition debit_turn :: "turn \<Rightarrow> json_obj \<Rightarrow> int leg" where
  "debit_turn t usage c =
     (let amount = bp_amount (tn_billing t) in
      and_then (on_db (wallet_consume (tn_user t) amount (uuid_str (tn_message t))
        [(''usage'', Val (JObj usage)), (''model'', Val (jget ''model'' usage)), (''generationMode'', Val (JStr (charged_mode usage))),
         (''creditsCharged'', Val (JInt amount))] (Some (tn_session t))) c) (\<lambda>res c.
      (Inr (if idempotent_replay res then 0 else amount), c)))"

definition with_key :: "string \<Rightarrow> json \<Rightarrow> json_obj \<Rightarrow> json_obj" where
  "with_key k v d = (if map_of d k = None then d @ [(k, v)] else map (\<lambda>(k', v'). (k', if k' = k then v else v')) d)"

text \<open>Debit, trial or nothing.\<close>

definition bill_turn :: "turn \<Rightarrow> json_obj \<Rightarrow> int leg" where
  "bill_turn t usage c =
     (if bp_debit (tn_billing t) then debit_turn t usage c
      else if bp_trial (tn_billing t) then and_then (on_db (mark_trial_used (tn_user t)) c) (\<lambda>_ c. (Inr 0, c))
      else (Inr 0, c))"

text \<open>After the bill: a balance that no longer covers the turn undoes the message, anything else that failed is raised.\<close>

definition close_message ::
  "turn_env \<Rightarrow> turn \<Rightarrow> string \<Rightarrow> json_obj \<Rightarrow> server_tool list \<Rightarrow> json_obj list \<Rightarrow> uuid \<Rightarrow> (turn_fault, int, conn) outcome
     \<Rightarrow> (turn_fault, chat_run_out, conn) outcome" where
  "close_message env t reply_text usage server media step billed =
     (case fst billed of
        Inl f \<Rightarrow>
          if bp_debit (tn_billing t) \<and> (case f of Fails e \<Rightarrow> raised_as InsufficientCreditsError e | _ \<Rightarrow> False)
          then (Inr (blocked_out (tn_session t) (Some Block_credits_empty)), rollback (snd billed))
          else (Inl f, snd billed)
      | Inr spent \<Rightarrow>
          and_then (on_chat (\<lambda>s. (Inr (), touch_session (tn_session t) (te_now env (cn_draws (snd billed))) s)) (snd billed)) (\<lambda>_ c.
          (Inr \<lparr>ro_status = Assistant_message, ro_session = tn_session t, ro_message = Some reply_text, ro_calls = [], ro_block = None,
             ro_usage = Some usage, ro_message_step = Some (tn_message t), ro_step = Some step, ro_server_tools = server,
             ro_media_jobs = media, ro_spent = spent\<rparr>, commit c)))"

definition message_usage :: "billing_plan \<Rightarrow> json_obj \<Rightarrow> json_obj" where
  "message_usage b usage = (if bp_debit b \<and> bp_expose b then with_key ''creditsCharged'' (JInt (bp_amount b)) usage else usage)"

definition finalize_assistant ::
  "turn_env \<Rightarrow> turn \<Rightarrow> json list \<Rightarrow> string \<Rightarrow> json_obj \<Rightarrow> server_tool list \<Rightarrow> json_obj list \<Rightarrow> json_obj \<Rightarrow> chat_run_out leg" where
  "finalize_assistant env t content reply_text usage0 server media extra c =
     (let usage = message_usage (tn_billing t) usage0;
          p = [(''content'', JArr content)] @ (if media = [] then [] else [(''mediaJobs'', JArr (map JObj media))]) @ extra in
      and_then (store_step env t Assistant p (Some usage) c) (\<lambda>step c.
      and_then (audit_turn t ''chat_step''
        [(''sessionId'', Val (JStr (uuid_str (tn_session t)))), (''role'', Val (JStr ''assistant'')), (''model'', Val (jget ''model'' usage)),
         (''usage'', Val (JObj usage))] c) (\<lambda>_ c.
      close_message env t reply_text usage server media step (bill_turn t usage c))))"

definition maybe_update_provider_state :: "turn \<Rightarrow> string \<Rightarrow> llm_result \<Rightarrow> chat_db \<Rightarrow> chat_db" where
  "maybe_update_provider_state t provider r s =
     (if tn_mode t = Mode_byok \<or> provider \<noteq> openai then s
      else if lr_stop r = Some ''max_tokens'' then clear_provider_state (tn_session t) s
      else case lr_response_id r of
        Some (x # xs) \<Rightarrow> set_provider_state (tn_session t)
          (Some [(''provider'', JStr openai), (''responseId'', JStr (x # xs)), (''model'', JStr (lu_model (lr_usage r)))]) s
      | _ \<Rightarrow> s)"

section \<open>The loop\<close>

text \<open>\<open>ax\<close>: the axes on which tools are offered in this turn.\<close>

definition turn_axes :: "turn_env \<Rightarrow> turn \<Rightarrow> chat_session option \<Rightarrow> tool_axes" where
  "turn_axes env t sess =
     \<lparr>ax_project = tn_has_project t, ax_mode = turn_mode env t, ax_media = te_media_tools env, ax_disabled = te_disabled env,
      ax_code = (te_code_tools env \<and> (case sess of None \<Rightarrow> False | Some r \<Rightarrow> cs_assistant_mode r = ''code'')),
      ax_maps = te_maps_tools env\<rparr>"

text \<open>An exception that leaves a client, as the handlers of the turn see it.\<close>

definition fault_of :: "turn_env \<Rightarrow> exc_heap \<Rightarrow> nat \<Rightarrow> turn_fault" where
  "fault_of env h e =
     (if ex_name (h ! e) = ''TurnInterrupted'' then (case te_interruption env h e of (text, reason, spoken) \<Rightarrow> Interrupted text reason spoken)
      else case ex_class (h ! e) of Some cls \<Rightarrow> Fails (Raised cls (ex_str (h ! e))) | None \<Rightarrow> Fails (PyFault (ex_name (h ! e))))"

text \<open>Who answers a BYOK turn, with the model; \<open>None\<close> is a key of unknown provider.\<close>

definition byok_request :: "turn_env \<Rightarrow> turn \<Rightarrow> llm_request option" where
  "byok_request env t =
     (case tn_byok_provider t of
        None \<Rightarrow> None
      | Some p \<Rightarrow> Some \<lparr>rq_provider = p, rq_api_key = tn_api_key t,
          rq_model = (case model_for_provider (te_loads env) (te_cfg env) (tn_model t) p of
              Some m \<Rightarrow> Some m
            | None \<Rightarrow> Some (if py_lower (py_strip p) = openai then snd (te_byok_default env) else fst (te_byok_default env))),
          rq_state = None\<rparr>)"

definition credits_model :: "turn_env \<Rightarrow> turn \<Rightarrow> string option" where
  "credits_model env t =
     (case tn_model t of
        Some m \<Rightarrow> Some m
      | None \<Rightarrow> if te_default_model env \<noteq> default_model (te_cfg env) then Some (te_default_model env) else None)"

datatype asked = Replied llm_result string | Key_rejected | Broken turn_fault

definition ask_provider :: "turn_env \<Rightarrow> turn \<Rightarrow> llm_request option \<Rightarrow> nat \<Rightarrow> llm_args \<Rightarrow> json_obj option \<Rightarrow> asked" where
  "ask_provider env t byok n args stored =
     (case byok of
        Some rq \<Rightarrow> (case te_ask env n 0 rq args of
            Answered r \<Rightarrow> Replied r (rq_provider rq)
          | Failed h e \<Rightarrow> if is_auth_error (h ! e) then Key_rejected else Broken (fault_of env h e))
      | None \<Rightarrow> (case fst (credits_llm_with_failover (te_loads env) (te_dumps env) (te_cfg env) (\<lambda>k rq. te_ask env n k rq args)
                        (credits_model env t) stored) of
            Chat_result r p \<Rightarrow> Replied r p
          | Chat_error h e \<Rightarrow> Broken (fault_of env h e)
          | New_upstream h e \<Rightarrow> Broken (Fails (Raised UpstreamError ''llm provider unavailable''))))"

text \<open>How often \<open>ask_provider\<close> calls a client: once for a BYOK turn, once for each candidate that is tried for a credits turn.\<close>

definition requests_sent :: "turn_env \<Rightarrow> turn \<Rightarrow> llm_request option \<Rightarrow> nat \<Rightarrow> llm_args \<Rightarrow> json_obj option \<Rightarrow> nat" where
  "requests_sent env t byok n args stored =
     (case byok of
        Some rq \<Rightarrow> 1
      | None \<Rightarrow> length (snd (credits_llm_with_failover (te_loads env) (te_dumps env) (te_cfg env) (\<lambda>k rq. te_ask env n k rq args)
                    (credits_model env t) stored)))"

text \<open>\<open>BYOKService.mark_expired\<close>\<close>

definition mark_expired :: "uuid \<Rightarrow> unit tx" where
  "mark_expired u s =
     (case byok_keys s u of
        None \<Rightarrow> (Inr (), s)
      | Some k \<Rightarrow> audit_record (Some u) None ''byok_change''
          [(''action'', Val (JStr ''runtime_expire'')), (''keyStatus'', Val (JStr ''expired''))]
          (s\<lparr>byok_keys := (byok_keys s)(u \<mapsto> k\<lparr>bk_key_status := Byok_expired, bk_enabled := False\<rparr>)\<rparr>))"

definition stored_state :: "turn \<Rightarrow> chat_session option \<Rightarrow> json_obj option" where
  "stored_state t sess = (if tn_mode t \<noteq> Mode_byok \<and> tn_v2 t then Option.bind sess cs_provider_state else None)"

definition round_usage :: "turn \<Rightarrow> llm_result \<Rightarrow> json_obj" where
  "round_usage t r =
     (let u = usage_dict (lr_usage r) in if tn_v2 t then with_key ''generationMode'' (JStr (tn_generation_mode t)) u else u)"

text \<open>What the answer of a provider leads to. \<open>Inl\<close> goes on with the loop.\<close>

definition take_reply :: "turn_env \<Rightarrow> turn \<Rightarrow> turn_acc \<Rightarrow> asked \<Rightarrow> (turn_acc + chat_run_out) leg" where
  "take_reply env t acc reply c =
     (case reply of
        Broken f \<Rightarrow> (Inl f, c)
      | Key_rejected \<Rightarrow> and_then (on_db (mark_expired (tn_user t)) c) (\<lambda>_ c.
          (Inr (Inr (blocked_out (tn_session t) (Some Block_byok_invalid))), commit c))
      | Replied r provider \<Rightarrow>
          (let usage = round_usage t r;
               c = (if tn_v2 t then c\<lparr>cn_now := (cn_now c)\<lparr>w_chat := maybe_update_provider_state t provider r (w_chat (cn_now c))\<rparr>\<rparr> else c) in
           if lr_stop r = Some ''max_tokens''
           then and_then (handle_max_tokens env t r usage acc c) (\<lambda>out c. (Inr (Inr out), c))
           else if lr_stop r = Some ''tool_use'' \<and> lr_tool_uses r \<noteq> []
           then and_then (handle_tool_use env t r usage acc c) (\<lambda>res c.
             (Inr (case snd res of Some out \<Rightarrow> Inr out | None \<Rightarrow> Inl (fst res)), commit c))
           else and_then (finalize_assistant env t (lr_content r) (lr_text r) usage (ac_server acc) (ac_media acc) [] c)
             (\<lambda>out c. (Inr (Inr out), c))))"

text \<open>One iteration: what the provider is shown and asked, and what its answer leads to.\<close>

definition loop_round ::
  "turn_env \<Rightarrow> turn \<Rightarrow> llm_request option \<Rightarrow> json option \<Rightarrow> turn_acc \<Rightarrow> (turn_acc + chat_run_out) leg" where
  "loop_round env t byok attachments acc c =
     (let s = w_chat (cn_now c); sess = cd_sessions s (tn_session t) in
      case neutral_history_from_steps (te_loads env) (list_steps (tn_session t) s) of
        Inl e \<Rightarrow> (Inl (Fails e), c)
      | Inr messages \<Rightarrow>
          (let c = commit c; n = cn_rounds c;
               args = \<lparr>la_generation_client = (tn_v2 t \<or> te_legacy_search env), la_system_prompt = tn_system_prompt t,
                 la_messages = messages, la_tools = neutral_tool_definitions (turn_axes env t sess), la_attachments = attachments,
                 la_generation_mode = turn_mode env t\<rparr>;
               c = (elapse env c)\<lparr>cn_calls := cn_calls c + requests_sent env t byok n args (stored_state t sess)\<rparr> in
           take_reply env t acc (ask_provider env t byok n args (stored_state t sess)) c))"

text \<open>\<open>for _ in range(max_rounds + 1)\<close>; the attachments go with the first call only.\<close>

fun loop_rounds :: "turn_env \<Rightarrow> turn \<Rightarrow> llm_request option \<Rightarrow> nat \<Rightarrow> json option \<Rightarrow> turn_acc \<Rightarrow> chat_run_out leg" where
  "loop_rounds env t byok 0 attachments acc c =
     and_then (audit_turn t ''chat_step''
       [(''sessionId'', Val (JStr (uuid_str (tn_session t)))), (''error'', Val (JStr ''max_server_tool_rounds_exceeded'')),
        (''maxRounds'', Val (JInt (int (te_max_rounds env))))] c) (\<lambda>_ c.
       (Inl (Fails (Raised UpstreamError ''server-side tool loop exceeded maximum rounds'')), commit c))"
| "loop_rounds env t byok (Suc n) attachments acc c =
     and_then (loop_round env t byok attachments acc c) (\<lambda>r c.
       case r of Inr out \<Rightarrow> (Inr out, c) | Inl acc' \<Rightarrow> loop_rounds env t byok n None acc' c)"

definition generate_loop :: "turn_env \<Rightarrow> turn \<Rightarrow> chat_run_out leg" where
  "generate_loop env t c =
     (let start = (\<lambda>byok. loop_rounds env t byok (Suc (te_max_rounds env)) (tn_attachments t) \<lparr>ac_server = [], ac_media = []\<rparr> c) in
      if tn_mode t = Mode_byok then
        (case byok_request env t of
           None \<Rightarrow> (Inr (blocked_out (tn_session t) (Some Block_byok_invalid)), commit c)
         | Some rq \<Rightarrow>
             if py_lower (py_strip (rq_provider rq)) \<notin> {openai, anthropic} then (Inl (Fails (PyFault ''ValueError'')), c)
             else start (Some rq))
      else start None)"

section \<open>Closing a leg\<close>

definition finalize_interrupted :: "turn_env \<Rightarrow> turn \<Rightarrow> string \<Rightarrow> string \<Rightarrow> nat \<Rightarrow> chat_run_out leg" where
  "finalize_interrupted env t text reason spoken c =
     finalize_assistant env t [text_block text] text (if tn_v2 t then [(''generationMode'', JStr (tn_generation_mode t))] else []) [] []
       [(''interrupted'', JObj [(''reason'', JStr reason), (''spokenSegments'', JInt (int spoken))])] c"

text \<open>\<open>_turn_failed_text\<close>: the table is an argument, its Russian entry is not ASCII.\<close>

definition turn_failed_text :: "turn_env \<Rightarrow> string option \<Rightarrow> string" where
  "turn_failed_text env locale =
     (let lang = py_lower (py_strip (takeWhile (\<lambda>ch. ch \<noteq> CHR ''_'') (takeWhile (\<lambda>ch. ch \<noteq> CHR ''-'') (or_default locale []))));
          english = or_default (map_of (te_failed_texts env) ''en'') [] in
      case map_of (te_failed_texts env) lang of Some (x # xs) \<Rightarrow> x # xs | _ \<Rightarrow> english)"

text \<open>\<open>type(exc).__name__\<close>\<close>

definition exn_name :: "exn \<Rightarrow> string" where
  "exn_name e = (case e of Raised cls m \<Rightarrow> class_name cls | DbFault f \<Rightarrow> ''DBAPIError'' | PyFault n \<Rightarrow> n)"

text \<open>A statement that failed has aborted the transaction: the marker's own statements fail then, and are swallowed.\<close>

definition mark_turn_failed :: "turn_env \<Rightarrow> turn \<Rightarrow> string option \<Rightarrow> exn \<Rightarrow> conn \<Rightarrow> conn" where
  "mark_turn_failed env t locale e c =
     (case e of
        DbFault f \<Rightarrow> c
      | _ \<Rightarrow>
          if has_terminal_assistant_step (tn_session t) (tn_message t) (w_chat (cn_now c)) then c
          else (case store_step env t Assistant
                 [(''content'', JArr [text_block (turn_failed_text env locale)]), (''turnFailed'', JObj [(''reason'', JStr (exn_name e))])] None c of
               (Inr _, c') \<Rightarrow> commit c'
             | (Inl _, c') \<Rightarrow> c'))"

text \<open>The loop with the two handlers around it. An error leaves with the request, whose transaction is rolled back.\<close>

definition run_leg :: "turn_env \<Rightarrow> turn \<Rightarrow> string option \<Rightarrow> conn \<Rightarrow> (exn, chat_run_out, conn) outcome" where
  "run_leg env t locale c =
     (case generate_loop env t c of
        (Inr out, c') \<Rightarrow> (Inr out, commit c')
      | (Inl (Fails e), c') \<Rightarrow> (Inl e, rollback (mark_turn_failed env t locale e c'))
      | (Inl (Interrupted text reason spoken), c') \<Rightarrow>
          (case finalize_interrupted env t text reason spoken c' of
             (Inr out, c'') \<Rightarrow> (Inr out, commit c'')
           | (Inl (Fails e), c'') \<Rightarrow> (Inl e, rollback c'')
           | (Inl (Interrupted _ _ _), c'') \<Rightarrow> (Inl (PyFault ''TurnInterrupted''), rollback c'')))"

end
