(* ===== verification/Chat_Charge.thy ===== *)
theory Chat_Charge
  imports Chat_Turn
begin

text \<open>
  What a leg keeps and what it charges. \<open>leg_keeps\<close> states once what every statement of a leg owes an invariant of the
  connection; its lemmas carry the invariant through tools, rounds and the whole loop up to the final message. The
  ledger row of the turn is one such invariant, and gives the charge of a leg.
\<close>

section \<open>Invariants of a leg\<close>

text \<open>How a leg ended: with the invariant kept and no final message, or by the final message, written from a state that had it.\<close>

definition ended_by :: "turn_env \<Rightarrow> turn \<Rightarrow> (conn \<Rightarrow> bool) \<Rightarrow> turn_fault + chat_run_out \<Rightarrow> conn \<Rightarrow> bool" where
  "ended_by env t P r c' \<longleftrightarrow>
     (P c' \<and> (\<forall>out. r = Inr out \<longrightarrow> ro_status out \<noteq> Assistant_message \<and> ro_spent out = 0))
     \<or> (\<exists>content text usage server media c0. P c0 \<and> (r, c') = finalize_assistant env t content text usage server media [] c0)"

lemma ended_final: "P c0 \<Longrightarrow> ended_by env t P (fst (finalize_assistant env t content text usage server media [] c0))
    (snd (finalize_assistant env t content text usage server media [] c0))"
  unfolding ended_by_def by (rule disjI2, intro exI conjI, assumption) simp

lemma ended_kept: "P c \<Longrightarrow> (\<And>out. r = Inr out \<Longrightarrow> ro_status out \<noteq> Assistant_message \<and> ro_spent out = 0) \<Longrightarrow> ended_by env t P r c"
  unfolding ended_by_def by blast

lemma ended_failed: "P c \<Longrightarrow> ended_by env t P (Inl f) c"
  by (simp add: ended_by_def)

lemma ended_blocked: "P c \<Longrightarrow> ended_by env t P (Inr (blocked_out session reason)) c"
  by (simp add: ended_by_def blocked_out_def)

definition round_ended :: "turn_env \<Rightarrow> turn \<Rightarrow> (conn \<Rightarrow> bool) \<Rightarrow> (turn_fault, turn_acc + chat_run_out, conn) outcome \<Rightarrow> bool" where
  "round_ended env t P m \<longleftrightarrow>
     (case fst m of Inl f \<Rightarrow> ended_by env t P (Inl f) (snd m) | Inr (Inl acc) \<Rightarrow> P (snd m)
      | Inr (Inr out) \<Rightarrow> ended_by env t P (Inr out) (snd m))"

lemma answered_round_ended:
  "ended_by env t P (fst m) (snd m) \<Longrightarrow> round_ended env t P (and_then m (\<lambda>out c. (Inr (Inr out), c)))"
  by (cases m; cases "fst m") (auto simp: round_ended_def)

text \<open>The statements of a leg between two calls to a provider.\<close>

locale leg_writes =
  fixes env :: turn_env and t :: turn and P :: "conn \<Rightarrow> bool"
  assumes stepped: "P c \<Longrightarrow> P (snd (on_chat (add_step i (tn_session t) (tn_message t) r payload usage) c))"
    and called: "P c \<Longrightarrow> P (snd (on_chat (create_tool_call i (tn_session t) (tn_message t) tool args provider_id now) c))"
    and completed: "P c \<Longrightarrow> P (snd (on_chat (\<lambda>s. case complete_tool_call i st res s of (_, s') \<Rightarrow> (Inr (), s')) c))"
    and drawn: "P c \<Longrightarrow> P (c\<lparr>cn_draws := n\<rparr>)"
    and audited: "P c \<Longrightarrow> P (snd (audit_turn t event p c))"
    and committed: "P c \<Longrightarrow> P (commit c)"
    and tooled: "P c \<Longrightarrow> P (snd (on_tool env rq c))"
begin

lemma then_keeps: "P (snd r) \<Longrightarrow> (\<And>a c. P c \<Longrightarrow> P (snd (k a c))) \<Longrightarrow> P (snd (and_then r k))"
  by (cases r; cases "fst r") (auto simp: and_then_def)

lemma returned_keeps: "P c \<Longrightarrow> P (snd (r, c))"
  by simp

lemma draw_keeps: "P c \<Longrightarrow> P (snd (draw env c))"
  by (simp add: draw_def drawn)

lemma store_step_keeps: "P c \<Longrightarrow> P (snd (store_step env t r payload usage c))"
  unfolding store_step_def by (intro then_keeps draw_keeps stepped)

lemma audit_call_keeps: "P c \<Longrightarrow> P (snd (audit_call t event i tool extra c))"
  by (simp add: audit_call_def audited)

lemma persist_keeps: "P c \<Longrightarrow> P (snd (persist_tool_execution env t i b x acc c))"
  unfolding persist_tool_execution_def Let_def
  by (intro then_keeps completed store_step_keeps audit_call_keeps returned_keeps)

lemma start_keeps: "P c \<Longrightarrow> P (snd (start_tool_call env t b args c))"
  unfolding start_tool_call_def by (intro then_keeps draw_keeps called audit_call_keeps returned_keeps)

lemma refused_keeps: "P c \<Longrightarrow> P (snd (record_refused_tool_call env t b x acc c))"
  unfolding record_refused_tool_call_def by (intro then_keeps start_keeps persist_keeps)

lemma execute_keeps: "P c \<Longrightarrow> P (snd (execute_tool env t i b args project acc c))"
  unfolding execute_tool_def by (intro then_keeps tooled persist_keeps returned_keeps)

lemma project_keeps: "P c \<Longrightarrow> P (snd (external_project_id t c))"
  by (simp add: external_project_id_def split: option.split)

lemmas block_keeps = then_keeps refused_keeps start_keeps execute_keeps returned_keeps

lemma handle_block_keeps: "P c \<Longrightarrow> P (snd (handle_block env t project b acc c))"
  unfolding handle_block_def Let_def
  by (cases "soft_refusal env t (tu_name b)"; cases "te_validate env (tu_name b) (tu_input b)")
    (simp_all add: if_distrib [of snd] split_beta, (intro conjI impI block_keeps | simp)+)

lemma handle_blocks_keeps: "P c \<Longrightarrow> P (snd (handle_blocks env t project bs acc c))"
proof (induction bs arbitrary: acc c)
  case (Cons b bs)
  then show ?case
    unfolding handle_blocks.simps by (intro then_keeps handle_block_keeps returned_keeps)
qed simp

lemma given_project_keeps:
  "P c \<Longrightarrow> P (snd (if tn_has_project t then and_then (external_project_id t c) (\<lambda>p c. (Inr (Some p), c)) else (Inr None, c)))"
  by (simp add: then_keeps project_keeps)

lemma handle_tool_use_keeps: "P c \<Longrightarrow> P (snd (handle_tool_use env t r usage acc c))"
  unfolding handle_tool_use_def by (intro then_keeps store_step_keeps given_project_keeps handle_blocks_keeps returned_keeps)

lemma handle_max_tokens_keeps: "P c \<Longrightarrow> P (snd (handle_max_tokens env t r usage acc c))"
  unfolding handle_max_tokens_def by (intro then_keeps store_step_keeps audited returned_keeps committed)

lemma mark_turn_failed_keeps:
  assumes "P c"
  shows "P (mark_turn_failed env t locale e c)"
proof -
  have "P (case store_step env t Assistant p None c of (Inr x, c') \<Rightarrow> commit c' | (Inl f, c') \<Rightarrow> c')" for p
    using store_step_keeps [OF assms, of Assistant p None] committed by (auto split: prod.split sum.split)
  then show ?thesis
    using assms by (simp add: mark_turn_failed_def split: exn.split)
qed

end

lemma tool_use_status:
  "fst (handle_tool_use env t r usage acc c) = Inr (acc', Some out) \<Longrightarrow> ro_status out \<noteq> Assistant_message \<and> ro_spent out = 0"
  unfolding handle_tool_use_def
  by (auto simp: and_then_def split: sum.splits if_splits)

lemma max_tokens_status:
  "fst (handle_max_tokens env t r usage acc c) = Inr out \<Longrightarrow> ro_status out \<noteq> Assistant_message \<and> ro_spent out = 0"
  unfolding handle_max_tokens_def by (auto simp: and_then_def split: sum.splits)

text \<open>And around the calls: other requests commit, the handle of the provider is stored, a rejected key is marked.\<close>

locale leg_keeps = leg_writes +
  assumes elapsed: "P c \<Longrightarrow> P (elapse env c)"
    and counted: "P c \<Longrightarrow> P (c\<lparr>cn_calls := k\<rparr>)"
    and state_stored: "P c \<Longrightarrow> P (c\<lparr>cn_now := (cn_now c)\<lparr>w_chat := maybe_update_provider_state t provider res (w_chat (cn_now c))\<rparr>\<rparr>)"
    and expired: "P c \<Longrightarrow> P (snd (on_db (mark_expired (tn_user t)) c))"
begin

lemma tool_round_ended:
  assumes "P c"
  shows "round_ended env t P (and_then (handle_tool_use env t r usage acc c) (\<lambda>res c.
    (Inr (case snd res of Some out \<Rightarrow> Inr out | None \<Rightarrow> Inl (fst res)), commit c)))"
proof -
  obtain x c' where m: "handle_tool_use env t r usage acc c = (x, c')"
    by fastforce
  then have P: "P c'"
    using handle_tool_use_keeps [OF assms, of r usage acc] by simp
  show ?thesis
  proof (cases x)
    case (Inl f)
    then show ?thesis
      using P m by (simp add: round_ended_def ended_failed)
  next
    case (Inr res)
    show ?thesis
    proof (cases "snd res")
      case (Some out)
      then have "ro_status out \<noteq> Assistant_message \<and> ro_spent out = 0"
        using tool_use_status [of env t r usage acc c "fst res" out] m Inr by (cases res) simp
      then have "ended_by env t P (Inr out) (commit c')"
        using P by (intro ended_kept committed) auto
      then show ?thesis
        using m Inr Some by (simp add: round_ended_def)
    qed (use P m Inr in \<open>simp add: round_ended_def committed\<close>)
  qed
qed

lemma replied_ended:
  assumes "P c"
  shows "round_ended env t P
      (if lr_stop r = Some ''max_tokens'' then and_then (handle_max_tokens env t r usage acc c) (\<lambda>out c. (Inr (Inr out), c))
        else if lr_stop r = Some ''tool_use'' \<and> lr_tool_uses r \<noteq> []
        then and_then (handle_tool_use env t r usage acc c) (\<lambda>res c.
          (Inr (case snd res of Some out \<Rightarrow> Inr out | None \<Rightarrow> Inl (fst res)), commit c))
        else and_then (finalize_assistant env t (lr_content r) (lr_text r) usage (ac_server acc) (ac_media acc) [] c)
          (\<lambda>out c. (Inr (Inr out), c)))"
proof -
  have "ended_by env t P (fst (handle_max_tokens env t r usage acc c)) (snd (handle_max_tokens env t r usage acc c))"
    by (rule ended_kept, rule handle_max_tokens_keeps, rule assms, rule max_tokens_status)
  then show ?thesis
    by (simp only: answered_round_ended tool_round_ended ended_final assms split: if_split) simp
qed

lemma take_reply_ended:
  assumes "P c"
  shows "round_ended env t P (take_reply env t acc a c)"
proof -
  have "round_ended env t P (and_then (on_db (mark_expired (tn_user t)) c) (\<lambda>_ c.
      (Inr (Inr (blocked_out (tn_session t) (Some Block_byok_invalid))), commit c)))" if "P c" for c
    using expired [OF that] committed
    by (cases "on_db (mark_expired (tn_user t)) c"; cases "fst (on_db (mark_expired (tn_user t)) c)")
      (auto simp: round_ended_def intro!: ended_blocked ended_failed)
  moreover have "round_ended env t P (Inl f, c)" if "P c" for f c
    using that by (simp add: round_ended_def ended_failed)
  ultimately show ?thesis
    using assms replied_ended state_stored unfolding take_reply_def by (cases a) (simp_all add: Let_def)
qed

lemma loop_round_ended:
  assumes "P c"
  shows "round_ended env t P (loop_round env t byok attachments acc c)"
proof -
  have asking: "P ((elapse env (commit c))\<lparr>cn_calls := k\<rparr>)" for k
    by (intro counted elapsed committed assms)
  show ?thesis
  proof (cases "neutral_history_from_steps (te_loads env) (list_steps (tn_session t) (w_chat (cn_now c)))")
    case (Inl e)
    then show ?thesis
      using assms by (simp add: loop_round_def round_ended_def ended_failed)
  next
    case (Inr messages)
    then show ?thesis
      by (simp only: loop_round_def Let_def sum.case take_reply_ended asking)
  qed
qed

lemma loop_rounds_ended:
  "P c \<Longrightarrow> ended_by env t P (fst (loop_rounds env t byok n attachments acc c)) (snd (loop_rounds env t byok n attachments acc c))"
proof (induction n arbitrary: attachments acc c)
  case 0
  obtain x c' where m: "audit_turn t ''chat_step''
       [(''sessionId'', Val (JStr (uuid_str (tn_session t)))), (''error'', Val (JStr ''max_server_tool_rounds_exceeded'')),
        (''maxRounds'', Val (JInt (int (te_max_rounds env))))] c = (x, c')"
    by fastforce
  then have "P c'"
    using audited [OF 0, of "''chat_step''"] by (metis snd_conv)
  then show ?case
    using m committed by (cases x) (auto intro!: ended_failed)
next
  case (Suc n)
  obtain x c' where m: "loop_round env t byok attachments acc c = (x, c')"
    by fastforce
  show ?case
    using loop_round_ended [OF Suc.prems, of byok attachments acc] Suc.IH m
    by (auto simp: round_ended_def split: sum.splits)
qed

lemma generate_loop_ended:
  assumes "P c"
  shows "ended_by env t P (fst (generate_loop env t c)) (snd (generate_loop env t c))"
proof -
  have "ended_by env t P (Inr (blocked_out (tn_session t) (Some Block_byok_invalid))) (commit c)"
    by (intro ended_blocked committed assms)
  moreover have "ended_by env t P (Inl f) c" for f
    by (intro ended_failed assms)
  ultimately show ?thesis
    using assms by (auto simp: generate_loop_def Let_def loop_rounds_ended simp del: loop_rounds.simps split: option.split)
qed

end

section \<open>The ledger row of the turn\<close>

abbreviation turn_key :: "turn \<Rightarrow> string" where
  "turn_key t \<equiv> uuid_str (tn_message t)"

definition paid :: "turn \<Rightarrow> world \<Rightarrow> ledger_tx option" where
  "paid t w = existing_tx (tn_user t) (turn_key t) (w_db w)"

text \<open>What is asked of the tools and of the requests that run meanwhile: none of them posts under the key of this turn.\<close>

definition key_left_alone :: "turn_env \<Rightarrow> turn \<Rightarrow> bool" where
  "key_left_alone env t \<longleftrightarrow>
     (\<forall>n w. paid t (te_meanwhile env n w) = paid t w) \<and> (\<forall>n rq w. paid t (snd (te_tool env n rq w)) = paid t w)"

definition payment_is :: "turn \<Rightarrow> ledger_tx option \<Rightarrow> conn \<Rightarrow> bool" where
  "payment_is t p c \<longleftrightarrow> paid t (cn_now c) = p \<and> paid t (cn_saved c) = p"

lemma payment_simps [simp]:
  "payment_is t p (c\<lparr>cn_now := (cn_now c)\<lparr>w_chat := s\<rparr>\<rparr>) = payment_is t p c"
  "payment_is t p (c\<lparr>cn_draws := n\<rparr>) = payment_is t p c"
  "payment_is t p (c\<lparr>cn_calls := n\<rparr>) = payment_is t p c"
  "payment_is t p c \<Longrightarrow> payment_is t p (commit c)"
  "payment_is t p c \<Longrightarrow> payment_is t p (rollback c)"
  by (simp_all add: payment_is_def paid_def commit_def rollback_def)

lemma on_db_payment:
  assumes "payment_is t p c" and "\<And>s. existing_tx (tn_user t) (turn_key t) (snd (f s)) = existing_tx (tn_user t) (turn_key t) s"
  shows "payment_is t p (snd (on_db f c))"
  using assms by (auto simp: payment_is_def paid_def on_db_def split: prod.split) (metis snd_conv)+

lemma audit_record_ledger: "ledger (snd (audit_record u i e p s)) = ledger s"
  by (cases rule: audit_record_cases [of u i e p s]) auto

text \<open>The invariant of a leg: under that hypothesis the row of the turn is what it was.\<close>

definition payment_kept :: "turn_env \<Rightarrow> turn \<Rightarrow> ledger_tx option \<Rightarrow> conn \<Rightarrow> bool" where
  "payment_kept env t p c \<longleftrightarrow> (key_left_alone env t \<longrightarrow> payment_is t p c)"

lemma payment_elapse: "key_left_alone env t \<Longrightarrow> payment_is t p c \<Longrightarrow> payment_is t p (elapse env c)"
  by (simp add: elapse_def Let_def payment_is_def key_left_alone_def)

lemma payment_tool: "key_left_alone env t \<Longrightarrow> payment_is t p c \<Longrightarrow> payment_is t p (snd (on_tool env rq c))"
  by (simp add: on_tool_def payment_is_def key_left_alone_def split: prod.split) (metis snd_conv)

lemma on_chat_payment [simp]: "payment_is t p (snd (on_chat f c)) = payment_is t p c"
  by (simp add: on_chat_def split: prod.split)

interpretation payment: leg_keeps env t "payment_kept env t p" for env t p
proof
  fix c n event pl rq i r payload usage tool args provider_id now st res provider lr
  assume P: "payment_kept env t p c"
  then show "payment_kept env t p (snd (on_chat (add_step i (tn_session t) (tn_message t) r payload usage) c))"
    "payment_kept env t p (snd (on_chat (create_tool_call i (tn_session t) (tn_message t) tool args provider_id now) c))"
    "payment_kept env t p (snd (on_chat (\<lambda>s. case complete_tool_call i st res s of (_, s') \<Rightarrow> (Inr (), s')) c))"
    "payment_kept env t p (c\<lparr>cn_draws := n\<rparr>)" "payment_kept env t p (commit c)" "payment_kept env t p (c\<lparr>cn_calls := n\<rparr>)"
    "payment_kept env t p (c\<lparr>cn_now := (cn_now c)\<lparr>w_chat := maybe_update_provider_state t provider lr (w_chat (cn_now c))\<rparr>\<rparr>)"
    by (simp_all add: payment_kept_def)
  show "payment_kept env t p (snd (audit_turn t event pl c))"
    using P by (auto simp: payment_kept_def audit_turn_def existing_tx_def audit_record_ledger intro!: on_db_payment)
  show "payment_kept env t p (elapse env c)" "payment_kept env t p (snd (on_tool env rq c))"
    using P by (simp_all add: payment_kept_def payment_elapse payment_tool)
  show "payment_kept env t p (snd (on_db (mark_expired (tn_user t)) c))"
    using P by (auto simp: payment_kept_def existing_tx_def audit_record_ledger mark_expired_def intro!: on_db_payment split: option.split)
qed

section \<open>The final debit\<close>

definition debited :: "ledger_tx option \<Rightarrow> int \<Rightarrow> ledger_tx option \<Rightarrow> bool" where
  "debited p amount q \<longleftrightarrow> (if p = None then (\<exists>tx. q = Some tx \<and> tx_type tx = Debit \<and> tx_amount tx = amount) else q = p)"

definition payment_outcome :: "uuid \<Rightarrow> string \<Rightarrow> int \<Rightarrow> db \<Rightarrow> (exn, ledger_result, db) outcome \<Rightarrow> bool" where
  "payment_outcome u key amount s m \<longleftrightarrow>
     (case fst m of
        Inr res \<Rightarrow> idempotent_replay res = (existing_tx u key s \<noteq> None) \<and> debited (existing_tx u key s) amount (existing_tx u key (snd m))
      | Inl e \<Rightarrow> raised_as InsufficientCreditsError e \<or> (\<exists>f. e = DbFault f) \<or> existing_tx u key (snd m) = existing_tx u key s)"

lemma payment_refused: "payment_outcome u key amount s (Inl e, s)"
  by (simp add: payment_outcome_def)

lemma payment_insufficient: "payment_outcome u key amount s (Inl (Raised InsufficientCreditsError m), s')"
  by (simp add: payment_outcome_def)

lemma payment_fault: "payment_outcome u key amount s (Inl (DbFault f), s')"
  by (simp add: payment_outcome_def)

lemma payment_replay: "payment_outcome u key amount s (replay u Debit amount key s)"
  by (auto simp: replay_def payment_outcome_def debited_def split: option.split)

lemma debit_wallet_ledger: "ledger (snd (debit_wallet u amount s)) = ledger s"
  by (simp add: debit_wallet_def split: option.split)

lemma payment_posted:
  assumes "existing_tx u key s = None"
    and "s' = s\<lparr>ledger := ledger s @ [\<lparr>tx_id = i, tx_user = u, tx_type = Debit, tx_amount = amount, tx_meta = meta, tx_key = key,
            tx_created_at = at\<rparr>], next_id := n\<rparr>"
  shows "payment_outcome u key amount s
    (and_then (debit_wallet u amount s') (\<lambda>updated s. case updated of
       None \<Rightarrow> (Inl (Raised InsufficientCreditsError m), s)
     | Some b \<Rightarrow> and_then (audit_record (Some u) session event (p b) s) (\<lambda>_ s.
         (Inr \<lparr>new_balance = b, ledger_tx_id = i, idempotent_replay = False\<rparr>, s))))"
proof -
  have row: "debited None amount (existing_tx u key v)" if "ledger v = ledger s'" for v
    using that assms by (simp add: debited_def existing_tx_def find_tx_append tx_ref_def)
  show ?thesis
  proof (cases "wallets s' u")
    case None
    then show ?thesis
      by (simp add: debit_wallet_def payment_insufficient)
  next
    case (Some b)
    define v where "v = s'\<lparr>wallets := (wallets s')(u \<mapsto> b - amount)\<rparr>"
    show ?thesis
    proof (cases "amount \<le> b")
      case True
      show ?thesis
        using Some True assms(1) row [of "snd (audit_record (Some u) session event (p (b - amount)) v)"]
        by (cases rule: audit_record_cases [of "Some u" session event "p (b - amount)" v])
          (simp_all add: debit_wallet_def v_def [symmetric] payment_fault, simp_all add: payment_outcome_def v_def)
    qed (use Some in \<open>simp add: debit_wallet_def payment_insufficient\<close>)
  qed
qed

lemma payment_checked: "payment_outcome u key amount s (consume_checked u amount key meta session s)"
proof -
  obtain r v where wallet: "ensure_wallet u s = (r, v)"
    by fastforce
  then have same: "existing_tx u key v = existing_tx u key s"
    by (auto simp: ensure_wallet_def existing_tx_def split: if_splits)
  have moved: "payment_outcome u key amount s m" if "payment_outcome u key amount v m" for m
    using that unfolding payment_outcome_def same .
  show ?thesis
  proof (cases r)
    case (Inl e)
    then show ?thesis
      using wallet by (auto simp: consume_checked_def ensure_wallet_def payment_fault split: if_splits)
  next
    case (Inr x)
    then have run: "consume_checked u amount key meta session s =
        and_then (insert_ledger u Debit amount meta key v) (\<lambda>inserted s.
          case inserted of None \<Rightarrow> replay u Debit amount key s
          | Some i \<Rightarrow> and_then (debit_wallet u amount s) (\<lambda>updated s. case updated of
                None \<Rightarrow> (Inl (Raised InsufficientCreditsError ''insufficient_credits''), s)
              | Some b \<Rightarrow> and_then (audit_record (Some u) session ''billing_debit''
                   [(''ledgerTxId'', RowId i), (''amount'', Val (JInt amount)), (''newBalance'', Val (JInt b)),
                    (''sessionId'', opt_str (map_option uuid_str session)), (''model'', pget ''model'' meta)] s) (\<lambda>_ s.
                   (Inr \<lparr>new_balance = b, ledger_tx_id = i, idempotent_replay = False\<rparr>, s))))"
      using wallet by (simp add: consume_checked_def)
    show ?thesis
      unfolding run by (rule moved)
        (auto simp: insert_ledger_def payment_fault payment_replay intro!: payment_posted)
  qed
qed

lemma consume_payment: "payment_outcome u key amount s (wallet_consume u amount key meta session s)"
  by (auto simp: wallet_consume_def validate_session_def payment_refused payment_checked split: option.split)

text \<open>The row of the turn after a leg that began with \<open>p\<close>, and what the answer says was spent.\<close>

definition turn_settled :: "turn \<Rightarrow> ledger_tx option \<Rightarrow> 'e + chat_run_out \<Rightarrow> world \<Rightarrow> bool" where
  "turn_settled t p r w \<longleftrightarrow>
     (case r of
        Inr out \<Rightarrow>
          if ro_status out = Assistant_message \<and> bp_debit (tn_billing t)
          then debited p (bp_amount (tn_billing t)) (paid t w) \<and> ro_spent out = (if p = None then bp_amount (tn_billing t) else 0)
          else paid t w = p \<and> ro_spent out = 0
      | Inl e \<Rightarrow> paid t w = p)"

text \<open>How the final message leaves the connection: settled, or with an error that leaves the row to the rollback.\<close>

definition message_left :: "turn \<Rightarrow> ledger_tx option \<Rightarrow> (turn_fault, chat_run_out, conn) outcome \<Rightarrow> bool" where
  "message_left t p m \<longleftrightarrow>
     turn_settled t p (fst m) (cn_saved (snd m)) \<and> (\<not> isl (fst m) \<longrightarrow> turn_settled t p (fst m) (cn_now (snd m)))
     \<and> (\<forall>f. fst m = Inl f \<longrightarrow> payment_is t p (snd m) \<or> (\<exists>e. f = Fails (DbFault e)))"

lemma message_failed: "payment_is t p c \<Longrightarrow> message_left t p (Inl f, c)"
  by (simp add: message_left_def turn_settled_def payment_is_def)

lemma debit_outcome:
  assumes "payment_is t p c" and "debit_turn t usage c = (r, c')"
  shows "cn_saved c' = cn_saved c"
    and "r = Inr spent \<Longrightarrow> debited p (bp_amount (tn_billing t)) (paid t (cn_now c')) \<and> spent = (if p = None then bp_amount (tn_billing t) else 0)"
    and "r = Inl f \<Longrightarrow> (\<exists>e. f = Fails e \<and> (raised_as InsufficientCreditsError e \<or> (\<exists>g. e = DbFault g) \<or> payment_is t p c'))"
proof -
  define m where "m = wallet_consume (tn_user t) (bp_amount (tn_billing t)) (turn_key t)
        [(''usage'', Val (JObj usage)), (''model'', Val (jget ''model'' usage)), (''generationMode'', Val (JStr (charged_mode usage))),
         (''creditsCharged'', Val (JInt (bp_amount (tn_billing t))))] (Some (tn_session t)) (w_db (cn_now c))"
  have pay: "payment_outcome (tn_user t) (turn_key t) (bp_amount (tn_billing t)) (w_db (cn_now c)) m"
    unfolding m_def by (rule consume_payment)
  have now: "existing_tx (tn_user t) (turn_key t) (w_db (cn_now c)) = p" and saved: "paid t (cn_saved c) = p"
    using assms(1) by (simp_all add: payment_is_def paid_def)
  have run: "debit_turn t usage c = and_then (lift_fault (fst m), c\<lparr>cn_now := (cn_now c)\<lparr>w_db := snd m\<rparr>\<rparr>)
      (\<lambda>res c. (Inr (if idempotent_replay res then 0 else bp_amount (tn_billing t)), c))"
    by (simp add: debit_turn_def Let_def on_db_def m_def split: prod.split)
  note facts = run [unfolded assms(2)] pay [unfolded payment_outcome_def now]
  show "cn_saved c' = cn_saved c"
    using facts by (cases "fst m") (simp_all add: lift_fault_def)
  show "r = Inr spent \<Longrightarrow> debited p (bp_amount (tn_billing t)) (paid t (cn_now c')) \<and> spent = (if p = None then bp_amount (tn_billing t) else 0)"
    using facts by (cases "fst m") (auto simp: lift_fault_def paid_def)
  show "r = Inl f \<Longrightarrow> (\<exists>e. f = Fails e \<and> (raised_as InsufficientCreditsError e \<or> (\<exists>g. e = DbFault g) \<or> payment_is t p c'))"
    using facts saved by (cases "fst m") (auto simp: lift_fault_def payment_is_def paid_def)
qed

lemma close_settles:
  assumes "key_left_alone env t" and "payment_kept env t p c"
  shows "message_left t p (close_message env t text usage server media step (bill_turn t usage' c))"
proof -
  have P: "payment_is t p c"
    using assms by (simp add: payment_kept_def)
  show ?thesis
  proof (cases "bp_debit (tn_billing t)")
    case True
    obtain r c' where bill: "debit_turn t usage' c = (r, c')"
      by fastforce
    note facts = debit_outcome [OF P bill]
    show ?thesis
      using True P bill facts
      by (cases r) (auto simp: close_message_def bill_turn_def message_left_def turn_settled_def blocked_out_def rollback_def
         commit_def on_chat_def lift_fault_def payment_is_def paid_def)
  next
    case False
    have trial: "payment_is t p (snd (on_db (mark_trial_used (tn_user t)) c))"
      by (rule on_db_payment [OF P]) (simp add: mark_trial_used_def existing_tx_def)
    have "\<exists>x. fst (on_db (mark_trial_used (tn_user t)) c) = Inr x"
      by (simp add: on_db_def mark_trial_used_def lift_fault_def)
    then show ?thesis
      using False P trial
      by (auto simp: close_message_def bill_turn_def message_left_def turn_settled_def and_then_def
         commit_def on_chat_def lift_fault_def payment_is_def paid_def)
  qed
qed

lemma finalize_settles:
  assumes "key_left_alone env t" and "payment_kept env t p c"
  shows "message_left t p (finalize_assistant env t content text usage server media extra c)"
proof -
  have failed: "message_left t p (Inl f, c')" if "payment_kept env t p c'" for f c'
    using that assms(1) by (intro message_failed) (simp add: payment_kept_def)
  have seq: "message_left t p (and_then m k)"
    if "payment_kept env t p (snd m)" "\<And>a c. payment_kept env t p c \<Longrightarrow> message_left t p (k a c)"
    for m :: "(turn_fault, 'a, conn) outcome" and k
    using that failed by (cases m; cases "fst m") auto
  show ?thesis
    unfolding finalize_assistant_def Let_def
    by (intro seq payment.store_step_keeps payment.audited close_settles assms)
qed

section \<open>The number of calls\<close>

text \<open>The rounds of a connection and the calls made in them.\<close>

definition asked_so_far :: "conn \<Rightarrow> nat \<times> nat" where
  "asked_so_far c = (cn_rounds c, cn_calls c)"

lemma on_chat_rounds [simp]: "asked_so_far (snd (on_chat f c)) = asked_so_far c"
  by (simp add: asked_so_far_def on_chat_def split: prod.split)

lemma on_db_rounds [simp]: "asked_so_far (snd (on_db f c)) = asked_so_far c"
  by (simp add: asked_so_far_def on_db_def split: prod.split)

lemma other_rounds [simp]:
  "asked_so_far (commit c) = asked_so_far c" "asked_so_far (rollback c) = asked_so_far c"
  "asked_so_far (c\<lparr>cn_now := w\<rparr>) = asked_so_far c" "asked_so_far (c\<lparr>cn_draws := n\<rparr>) = asked_so_far c"
  "asked_so_far ((elapse env c)\<lparr>cn_calls := k\<rparr>) = (Suc (cn_rounds c), k)"
  by (simp_all add: asked_so_far_def commit_def rollback_def elapse_def Let_def)

interpretation rounds: leg_writes env t "\<lambda>c. asked_so_far c = n" for env t n
  by unfold_locales (simp_all add: audit_turn_def on_tool_def split: prod.split)

text \<open>At most \<open>k\<close> more rounds, with at most four calls in each.\<close>

definition rounds_within :: "nat \<Rightarrow> conn \<Rightarrow> conn \<Rightarrow> bool" where
  "rounds_within k c c' \<longleftrightarrow> cn_rounds c' \<le> cn_rounds c + k \<and> cn_calls c' \<le> cn_calls c + 4 * k"

lemma rounds_within_same: "asked_so_far c' = asked_so_far c \<Longrightarrow> rounds_within k c c'"
  by (simp add: rounds_within_def asked_so_far_def)

lemma rounds_within_trans: "rounds_within j c c1 \<Longrightarrow> rounds_within k c1 c2 \<Longrightarrow> rounds_within (j + k) c c2"
  by (simp add: rounds_within_def)

lemma rounds_within_after: "rounds_within k c c1 \<Longrightarrow> asked_so_far c2 = asked_so_far c1 \<Longrightarrow> rounds_within k c c2"
  by (simp add: rounds_within_def asked_so_far_def)

lemma requests_bound: "requests_sent env t byok n args stored \<le> 4"
  by (simp add: requests_sent_def credits_bound split: option.split)

lemma bill_rounds: "asked_so_far (snd (bill_turn t usage c)) = asked_so_far c"
proof -
  have "asked_so_far (snd (debit_turn t usage c)) = asked_so_far c"
    unfolding debit_turn_def Let_def by (rule rounds.then_keeps) simp_all
  moreover have "asked_so_far (snd (and_then (on_db (mark_trial_used (tn_user t)) c) (\<lambda>_ c. (Inr 0, c)) :: (turn_fault, int, conn) outcome)) = asked_so_far c"
    by (rule rounds.then_keeps) simp_all
  ultimately show ?thesis
    by (simp add: bill_turn_def)
qed

lemma close_rounds: "asked_so_far (snd (close_message env t text usage server media step m)) = asked_so_far (snd m)"
  by (auto simp: close_message_def on_chat_def lift_fault_def split: sum.split turn_fault.split)

lemma finalize_rounds: "asked_so_far (snd (finalize_assistant env t content text usage server media extra c)) = asked_so_far c"
  unfolding finalize_assistant_def Let_def
  by (intro rounds.then_keeps rounds.store_step_keeps rounds.audited) (simp_all add: close_rounds bill_rounds)

lemma take_reply_rounds: "asked_so_far (snd (take_reply env t acc a c)) = asked_so_far c"
proof -
  have expired: "asked_so_far (snd (and_then (on_db (mark_expired u) c) (\<lambda>_ c. (x, commit c)))) = asked_so_far c" for u x c
    by (rule rounds.then_keeps) simp_all
  have truncated: "asked_so_far (snd (and_then (handle_max_tokens env t r usage acc c) (\<lambda>out c. (Inr (Inr out), c)))) = asked_so_far c" for r usage acc c
    by (intro rounds.then_keeps rounds.handle_max_tokens_keeps) simp_all
  have tools: "asked_so_far (snd (and_then (handle_tool_use env t r usage acc c) (\<lambda>res c. (x res, commit c)))) = asked_so_far c" for r usage acc c x
    by (intro rounds.then_keeps rounds.handle_tool_use_keeps) simp_all
  have final: "asked_so_far (snd (and_then (finalize_assistant env t content reply usage server media extra c) (\<lambda>out c. (Inr (Inr out), c)))) = asked_so_far c"
    for content reply usage server media extra c
    by (rule rounds.then_keeps) (simp_all add: finalize_rounds)
  show ?thesis
    by (cases a) (simp_all add: take_reply_def Let_def expired truncated tools final)
qed

lemma loop_round_rounds: "rounds_within 1 c (snd (loop_round env t byok attachments acc c))"
proof -
  have sent: "rounds_within 1 c ((elapse env (commit c))\<lparr>cn_calls := cn_calls (commit c) + requests_sent env t byok n args stored\<rparr>)" for n args stored
    using requests_bound by (simp add: rounds_within_def elapse_def Let_def commit_def)
  show ?thesis
    by (simp only: loop_round_def Let_def rounds_within_after [OF sent] take_reply_rounds split: sum.split)
      (simp add: rounds_within_same)
qed

lemma loop_rounds_rounds: "rounds_within n c (snd (loop_rounds env t byok n attachments acc c))"
proof (induction n arbitrary: attachments acc c)
  case 0
  show ?case
    unfolding loop_rounds.simps by (intro rounds_within_same rounds.then_keeps rounds.audited) simp_all
next
  case (Suc n)
  obtain x c' where m: "loop_round env t byok attachments acc c = (x, c')"
    by fastforce
  then have once: "rounds_within 1 c c'"
    using loop_round_rounds [of c env t byok attachments acc] by simp
  then have "rounds_within (Suc n) c c'"
    by (simp add: rounds_within_def)
  then show ?case
    using m rounds_within_trans [OF once Suc.IH] by (cases x) (auto split: sum.split)
qed

lemma generate_loop_rounds: "rounds_within (Suc (te_max_rounds env)) c (snd (generate_loop env t c))"
  using loop_rounds_rounds [of "Suc (te_max_rounds env)" c env t _ "tn_attachments t" "\<lparr>ac_server = [], ac_media = []\<rparr>"]
  by (auto simp: generate_loop_def Let_def rounds_within_same simp del: loop_rounds.simps split: option.split)

section \<open>A leg\<close>

lemma leg_closed: "run_leg env t locale c = (r, c') \<Longrightarrow> cn_now c' = cn_saved c'"
  by (auto simp: run_leg_def commit_def rollback_def split: prod.splits sum.splits turn_fault.splits)

lemma run_leg_rounds:
  assumes "run_leg env t locale c = (r, c')"
  shows "rounds_within (Suc (te_max_rounds env)) c c'"
proof -
  have marked: "asked_so_far (mark_turn_failed env t locale e d) = asked_so_far d" for e d
    by (rule rounds.mark_turn_failed_keeps) simp
  have interrupted: "asked_so_far (snd (finalize_interrupted env t reply reason spoken d)) = asked_so_far d" for reply reason spoken d
    by (simp add: finalize_interrupted_def finalize_rounds)
  obtain x d where run: "generate_loop env t c = (x, d)"
    by fastforce
  have "asked_so_far c' = asked_so_far d"
    using assms run marked interrupted
    by (auto simp: run_leg_def split: prod.splits sum.splits turn_fault.splits) (metis snd_conv)+
  then show ?thesis
    using rounds_within_after generate_loop_rounds [of env c t] run by simp
qed

lemma generate_loop_left:
  assumes "key_left_alone env t" and "payment_is t p c"
  shows "message_left t p (generate_loop env t c)"
proof -
  obtain r c' where run: "generate_loop env t c = (r, c')"
    by fastforce
  have "payment_kept env t p c"
    using assms by (simp add: payment_kept_def)
  from payment.generate_loop_ended [OF this] run have "ended_by env t (payment_kept env t p) r c'"
    by simp
  then consider (kept) "payment_kept env t p c'" "\<forall>out. r = Inr out \<longrightarrow> ro_status out \<noteq> Assistant_message \<and> ro_spent out = 0"
    | (final) content reply usage server media c0 where "payment_kept env t p c0"
        "(r, c') = finalize_assistant env t content reply usage server media [] c0"
    unfolding ended_by_def by blast
  then show ?thesis
  proof cases
    case kept
    then show ?thesis
      using assms(1) run by (auto simp: message_left_def turn_settled_def payment_kept_def payment_is_def split: sum.split)
  next
    case final
    then show ?thesis
      using finalize_settles [OF assms(1) final(1)] run by simp
  qed
qed

lemma marked_settles:
  assumes "key_left_alone env t" and "message_left t p (Inl (Fails e), d)"
  shows "paid t (cn_saved (mark_turn_failed env t locale e d)) = p"
proof (cases "payment_is t p d")
  case True
  then have "payment_kept env t p (mark_turn_failed env t locale e d)"
    by (intro payment.mark_turn_failed_keeps) (simp add: payment_kept_def)
  then show ?thesis
    using assms(1) by (simp add: payment_kept_def payment_is_def)
next
  case False
  then have "\<exists>g. e = DbFault g"
    using assms(2) by (auto simp: message_left_def)
  then show ?thesis
    using assms(2) by (auto simp: mark_turn_failed_def message_left_def turn_settled_def)
qed

lemma leg_settles:
  assumes "key_left_alone env t" and "payment_is t p c" and "run_leg env t locale c = (r, c')"
  shows "turn_settled t p r (cn_saved c')"
proof -
  obtain x d where run: "generate_loop env t c = (x, d)"
    by fastforce
  have left: "message_left t p (x, d)"
    using generate_loop_left [OF assms(1,2)] run by simp
  show ?thesis
  proof (cases x)
    case (Inr out)
    then show ?thesis
      using assms(3) run left by (auto simp: run_leg_def message_left_def commit_def turn_settled_def)
  next
    case (Inl f)
    show ?thesis
    proof (cases f)
      case (Fails e)
      then show ?thesis
        using marked_settles [OF assms(1) left [unfolded Inl Fails]] assms(3) run Inl
        by (auto simp: run_leg_def rollback_def turn_settled_def)
    next
      case (Interrupted reply reason spoken)
      then have "payment_is t p d"
        using left Inl by (auto simp: message_left_def)
      then have "message_left t p (finalize_interrupted env t reply reason spoken d)"
        unfolding finalize_interrupted_def using assms(1) by (intro finalize_settles) (simp_all add: payment_kept_def)
      then show ?thesis
        using assms(3) run Inl Interrupted
        by (auto simp: run_leg_def rollback_def commit_def message_left_def turn_settled_def split: prod.splits sum.splits turn_fault.splits)
    qed
  qed
qed

end
