(* ===== verification/Chat_Legs.thy ===== *)
theory Chat_Legs
  imports Chat_Charge
begin

text \<open>
  What a leg of a turn promises: its charge and the number of its calls.
\<close>

section \<open>The charge of a leg\<close>

text \<open>
  C7. Let no tool and no other request post under the key of the turn, which is its message identifier, and let \<open>p\<close> be the ledger row
  under that key when a leg starts. A leg that ends with a final message under a debit plan leaves exactly the debit of the plan
  there: a new one, reported as spent, if there was none, and the old one, with nothing spent, if there was. Any other end of a leg - a
  request for device tools, a refusal, a truncated answer, a trial or BYOK message, an error, a failed debit - leaves the row as it
  was and reports nothing spent; and what a leg leaves is committed. A leg has at most one round more than the limit of tool
  rounds, and calls a provider client at most four times in each, once for every candidate the failover tries.
\<close>

theorem turn_charged_once:
  assumes "key_left_alone env t" and "payment_is t p c" and "run_leg env t locale c = (r, c')"
  shows "turn_settled t p r (cn_saved c') \<and> cn_now c' = cn_saved c' \<and> cn_rounds c' \<le> cn_rounds c + te_max_rounds env + 1
     \<and> cn_calls c' \<le> cn_calls c + 4 * (te_max_rounds env + 1)"
  using leg_settles [OF assms] leg_closed [OF assms(3)] run_leg_rounds [OF assms(3)] by (simp add: rounds_within_def)

section \<open>A covered answer\<close>

lemma first_answers:
  "(\<And>k rq. ask k rq = Answered r) \<Longrightarrow> \<exists>p tried. credits_llm_with_failover loads dumps cfg ask m stored = (Chat_result r p, tried)"
  by (simp add: credits_llm_with_failover_def failover.simps)

lemma asked_answers:
  assumes "\<And>k rq args. te_ask env n k rq args = Answered r"
  shows "\<exists>p. ask_provider env t None n args stored = Replied r p"
  using first_answers [of "\<lambda>k rq. te_ask env n k rq args" r "te_loads env" "te_dumps env" "te_cfg env" "credits_model env t" stored] assms
  by (auto simp: ask_provider_def)

text \<open>What the world must be like when the answer arrives for its message to be stored and charged.\<close>

definition can_conclude :: "turn_env \<Rightarrow> turn \<Rightarrow> nat \<Rightarrow> world \<Rightarrow> bool" where
  "can_conclude env t draws w \<longleftrightarrow>
     wallet_ok (w_db w) \<and> users (w_db w) (tn_user t) \<noteq> None \<and> chat_sessions (w_db w) (tn_session t) = Some (tn_user t)
     \<and> cd_sessions (w_chat w) (tn_session t) \<noteq> None \<and> te_uuid env draws \<notin> sp_id ` set (cd_steps (w_chat w))
     \<and> paid t w = None \<and> bp_debit (tn_billing t) \<and> 0 < bp_amount (tn_billing t) \<and> bigint_ok (bp_amount (tn_billing t))
     \<and> bp_amount (tn_billing t) \<le> current_balance (tn_user t) (w_db w)"

lemma covered_debit:
  assumes "can_conclude env t draws w" and "cn_now c = w\<lparr>w_db := (w_db w)\<lparr>audit_log := log\<rparr>, w_chat := s\<rparr>"
  shows "\<exists>db'. debit_turn t usage c = (Inr (bp_amount (tn_billing t)), c\<lparr>cn_now := (cn_now c)\<lparr>w_db := db'\<rparr>\<rparr>)
     \<and> wallet_ok db' \<and> current_balance (tn_user t) db' = current_balance (tn_user t) (w_db w) - bp_amount (tn_billing t)"
proof -
  define db1 where "db1 = (w_db w)\<lparr>audit_log := log\<rparr>"
  have ok: "wallet_ok db1"
    using assms(1) by (simp add: db1_def can_conclude_def)
  have facts: "session_fault (tn_user t) (Some (tn_session t)) db1 = None" "users db1 (tn_user t) \<noteq> None"
    "existing_tx (tn_user t) (turn_key t) db1 = None" "0 \<le> current_balance (tn_user t) db1 - bp_amount (tn_billing t)"
    "bigint_ok (bp_amount (tn_billing t))" "\<not> bp_amount (tn_billing t) \<le> 0"
    "current_balance (tn_user t) db1 = current_balance (tn_user t) (w_db w)"
    using assms(1) by (auto simp: db1_def can_conclude_def session_fault_def paid_def existing_tx_def current_balance_def)
  define meta where "meta = [(''usage'', Val (JObj usage)), (''model'', Val (jget ''model'' usage)),
      (''generationMode'', Val (JStr (charged_mode usage))), (''creditsCharged'', Val (JInt (bp_amount (tn_billing t))))]"
  define b where "b = current_balance (tn_user t) db1 - bp_amount (tn_billing t)"
  define db' where "db' = post_tx (tn_user t) Debit (bp_amount (tn_billing t)) meta (turn_key t) b
      (debit_row (tn_user t) (Some (tn_session t)) (bp_amount (tn_billing t)) meta b db1) db1"
  have "session_scope (wallet_consume (tn_user t) (bp_amount (tn_billing t)) (turn_key t) meta (Some (tn_session t))) db1 =
      (Inr \<lparr>new_balance = b, ledger_tx_id = next_id db1, idempotent_replay = False\<rparr>, db')"
    unfolding consume_committed [OF ok] b_def db'_def using facts by (simp add: Let_def)
  note scoped = this
  then have run: "wallet_consume (tn_user t) (bp_amount (tn_billing t)) (turn_key t) meta (Some (tn_session t)) db1 =
      (Inr \<lparr>new_balance = b, ledger_tx_id = next_id db1, idempotent_replay = False\<rparr>, db')"
    by (rule session_scope_InrD)
  have "debit_turn t usage c = (Inr (bp_amount (tn_billing t)), c\<lparr>cn_now := (cn_now c)\<lparr>w_db := db'\<rparr>\<rparr>)"
    using run assms(2) by (simp add: debit_turn_def Let_def on_db_def meta_def db1_def lift_fault_def)
  moreover have "wallet_ok db'"
    by (rule consume_keeps_ok [OF ok scoped])
  ultimately show ?thesis
    using facts(7) by (auto simp: db'_def b_def)
qed

lemma can_conclude_state [simp]:
  "can_conclude env t d (w\<lparr>w_chat := maybe_update_provider_state t provider r (w_chat w)\<rparr>) = can_conclude env t d w"
  by (auto simp: can_conclude_def paid_def maybe_update_provider_state_def clear_provider_state_def set_provider_state_def
    on_session_def split: option.split list.split)

text \<open>The answer has been appended to the steps.\<close>

definition answer_stored :: "turn \<Rightarrow> uuid \<Rightarrow> json list \<Rightarrow> chat_db \<Rightarrow> chat_db \<Rightarrow> bool" where
  "answer_stored t i content s s' \<longleftrightarrow>
     (\<exists>row. cd_steps s' = cd_steps s @ [row] \<and> sp_seq row = cd_next_seq s \<and> sp_id row = i \<and> sp_session row = tn_session t
        \<and> sp_message row = tn_message t \<and> sp_role row = Assistant \<and> jget ''content'' (sp_payload row) = JArr content)"

lemma on_session_steps [simp]: "cd_steps (on_session i f s) = cd_steps s"
  by (simp add: on_session_def split: option.split)

lemma stored_step:
  assumes "can_conclude env t (cn_draws c) (cn_now c)"
  shows "\<exists>s. store_step env t Assistant payload usage c =
      (Inr (te_uuid env (cn_draws c)), c\<lparr>cn_draws := Suc (cn_draws c), cn_now := (cn_now c)\<lparr>w_chat := s\<rparr>\<rparr>)
    \<and> (jget ''content'' payload = JArr content \<longrightarrow> answer_stored t (te_uuid env (cn_draws c)) content (w_chat (cn_now c)) s)"
proof -
  define row where "row = \<lparr>sp_id = te_uuid env (cn_draws c), sp_seq = cd_next_seq (w_chat (cn_now c)), sp_session = tn_session t,
      sp_message = tn_message t, sp_role = Assistant, sp_payload = payload, sp_usage = usage\<rparr>"
  define s where "s = (w_chat (cn_now c))\<lparr>cd_steps := cd_steps (w_chat (cn_now c)) @ [row], cd_next_seq := Suc (cd_next_seq (w_chat (cn_now c)))\<rparr>"
  have "\<not> (\<exists>p \<in> set (cd_steps (w_chat (cn_now c))). sp_id p = te_uuid env (cn_draws c))"
    using assms unfolding can_conclude_def by force
  then have "store_step env t Assistant payload usage c =
      (Inr (te_uuid env (cn_draws c)), c\<lparr>cn_draws := Suc (cn_draws c), cn_now := (cn_now c)\<lparr>w_chat := s\<rparr>\<rparr>)"
    using assms by (simp add: can_conclude_def store_step_def draw_def on_chat_def add_step_def lift_fault_def s_def row_def)
  moreover have "answer_stored t (te_uuid env (cn_draws c)) content (w_chat (cn_now c)) s" if "jget ''content'' payload = JArr content"
    unfolding answer_stored_def using that by (intro exI [of _ row]) (simp add: s_def row_def)
  ultimately show ?thesis
    by blast
qed

lemma recorded:
  assumes "can_conclude env t d w" and "w_db (cn_now c) = w_db w"
  shows "\<exists>log. audit_turn t event p c = (Inr (), c\<lparr>cn_now := (cn_now c)\<lparr>w_db := (w_db w)\<lparr>audit_log := log\<rparr>\<rparr>\<rparr>)"
  using assms by (auto simp: can_conclude_def audit_turn_def on_db_def audit_record_def lift_fault_def)

lemma message_concluded:
  assumes "can_conclude env t (cn_draws c) (cn_now c)"
  shows "\<exists>out c'. finalize_assistant env t content reply usage server media extra c = (Inr out, c')
     \<and> ro_status out = Assistant_message \<and> ro_message out = Some reply \<and> ro_step out = Some (te_uuid env (cn_draws c))
     \<and> ro_spent out = bp_amount (tn_billing t)
     \<and> cn_now c' = cn_saved c' \<and> wallet_ok (w_db (cn_saved c'))
     \<and> current_balance (tn_user t) (w_db (cn_saved c')) = current_balance (tn_user t) (w_db (cn_now c)) - bp_amount (tn_billing t)
     \<and> answer_stored t (te_uuid env (cn_draws c)) content (w_chat (cn_now c)) (w_chat (cn_saved c'))"
proof -
  define u where "u = message_usage (tn_billing t) usage"
  define pl where "pl = [(''content'', JArr content)] @ (if media = [] then [] else [(''mediaJobs'', JArr (map JObj media))]) @ extra"
  have "jget ''content'' pl = JArr content"
    by (simp add: pl_def)
  with stored_step [OF assms, of pl "Some u" content] obtain s where
    step: "store_step env t Assistant pl (Some u) c =
      (Inr (te_uuid env (cn_draws c)), c\<lparr>cn_draws := Suc (cn_draws c), cn_now := (cn_now c)\<lparr>w_chat := s\<rparr>\<rparr>)"
    and says: "answer_stored t (te_uuid env (cn_draws c)) content (w_chat (cn_now c)) s"
    by blast
  define c1 where "c1 = c\<lparr>cn_draws := Suc (cn_draws c), cn_now := (cn_now c)\<lparr>w_chat := s\<rparr>\<rparr>"
  obtain log where audit: "audit_turn t ''chat_step''
        [(''sessionId'', Val (JStr (uuid_str (tn_session t)))), (''role'', Val (JStr ''assistant'')), (''model'', Val (jget ''model'' u)),
         (''usage'', Val (JObj u))] c1 = (Inr (), c1\<lparr>cn_now := (cn_now c1)\<lparr>w_db := (w_db (cn_now c))\<lparr>audit_log := log\<rparr>\<rparr>\<rparr>)"
    using recorded [OF assms, of c1] by (auto simp: c1_def)
  define c2 where "c2 = c1\<lparr>cn_now := (cn_now c1)\<lparr>w_db := (w_db (cn_now c))\<lparr>audit_log := log\<rparr>\<rparr>\<rparr>"
  have now: "cn_now c2 = (cn_now c)\<lparr>w_db := (w_db (cn_now c))\<lparr>audit_log := log\<rparr>, w_chat := s\<rparr>"
    by (simp add: c2_def c1_def)
  obtain db' where bill: "debit_turn t u c2 = (Inr (bp_amount (tn_billing t)), c2\<lparr>cn_now := (cn_now c2)\<lparr>w_db := db'\<rparr>\<rparr>)"
    and money: "wallet_ok db'" "current_balance (tn_user t) db' = current_balance (tn_user t) (w_db (cn_now c)) - bp_amount (tn_billing t)"
    using covered_debit [OF assms now, of u] by blast
  have debits: "bp_debit (tn_billing t)"
    using assms by (simp add: can_conclude_def)
  have run: "finalize_assistant env t content reply usage server media extra c =
      close_message env t reply u server media (te_uuid env (cn_draws c)) (debit_turn t u c2)"
    using debits
    by (simp only: finalize_assistant_def Let_def u_def [symmetric] pl_def [symmetric] step c1_def [symmetric] and_then_simps audit
      c2_def [symmetric] bill_turn_def if_True)
  show ?thesis
    unfolding run bill using money says now
    by (simp add: close_message_def on_chat_def lift_fault_def commit_def answer_stored_def touch_session_def)
qed

lemma leg_answers:
  assumes "tn_mode t = Mode_credits"
    and "neutral_history_from_steps (te_loads env) (list_steps (tn_session t) (w_chat (cn_now c))) = Inr messages"
    and "\<And>k rq args. te_ask env (cn_rounds c) k rq args = Answered r"
    and "lr_stop r \<noteq> Some ''max_tokens''" and "lr_stop r = Some ''tool_use'' \<Longrightarrow> lr_tool_uses r = []"
    and "w = te_meanwhile env (cn_rounds c) (cn_now c)" and "can_conclude env t (cn_draws c) w"
  shows "\<exists>out c'. run_leg env t locale c = (Inr out, c')
     \<and> ro_status out = Assistant_message \<and> ro_message out = Some (lr_text r) \<and> ro_step out = Some (te_uuid env (cn_draws c))
     \<and> ro_spent out = bp_amount (tn_billing t) \<and> wallet_ok (w_db (cn_saved c'))
     \<and> current_balance (tn_user t) (w_db (cn_saved c')) = current_balance (tn_user t) (w_db w) - bp_amount (tn_billing t)
     \<and> answer_stored t (te_uuid env (cn_draws c)) (lr_content r) (w_chat w) (w_chat (cn_saved c'))"
proof -
  define args where "args = \<lparr>la_generation_client = (tn_v2 t \<or> te_legacy_search env), la_system_prompt = tn_system_prompt t,
       la_messages = messages, la_tools = neutral_tool_definitions (turn_axes env t (cd_sessions (w_chat (cn_now c)) (tn_session t))),
       la_attachments = tn_attachments t, la_generation_mode = turn_mode env t\<rparr>"
  define stored where "stored = stored_state t (cd_sessions (w_chat (cn_now c)) (tn_session t))"
  define c1 where "c1 = (elapse env (commit c))\<lparr>cn_calls := cn_calls (commit c) + requests_sent env t None (cn_rounds (commit c)) args stored\<rparr>"
  have c1: "cn_now c1 = w" "cn_draws c1 = cn_draws c"
    by (simp_all add: c1_def elapse_def Let_def commit_def assms(6))
  obtain p where asked: "ask_provider env t None (cn_rounds (commit c)) args stored = Replied r p"
    using asked_answers [OF assms(3)] by (fastforce simp: commit_def)
  define c2 where "c2 = (if tn_v2 t then c1\<lparr>cn_now := (cn_now c1)\<lparr>w_chat := maybe_update_provider_state t p r (w_chat (cn_now c1))\<rparr>\<rparr> else c1)"
  have c2: "can_conclude env t (cn_draws c2) (cn_now c2)" "w_db (cn_now c2) = w_db w" "cn_draws c2 = cn_draws c"
    using assms(7) by (simp_all add: c2_def c1)
  have steps: "cd_steps (w_chat (cn_now c2)) = cd_steps (w_chat w)" "cd_next_seq (w_chat (cn_now c2)) = cd_next_seq (w_chat w)"
    by (simp_all add: c2_def c1 maybe_update_provider_state_def clear_provider_state_def set_provider_state_def on_session_def
      split: option.split list.split)
  have same: "answer_stored t i content (w_chat (cn_now c2)) s = answer_stored t i content (w_chat w) s" for i content s
    by (simp add: answer_stored_def steps)
  have final: "\<not> (lr_stop r = Some ''tool_use'' \<and> lr_tool_uses r \<noteq> [])"
    using assms(5) by blast
  have "loop_round env t None (tn_attachments t) acc c =
      and_then (finalize_assistant env t (lr_content r) (lr_text r) (round_usage t r) (ac_server acc) (ac_media acc) [] c2) (\<lambda>out c. (Inr (Inr out), c))" for acc
    using assms(4) final
    unfolding loop_round_def Let_def assms(2) sum.case args_def [symmetric] stored_def [symmetric] c1_def [symmetric] asked
    by (auto simp: take_reply_def Let_def c2_def)
  then show ?thesis
    using message_concluded [OF c2(1), of "lr_content r" "lr_text r" "round_usage t r" "[]" "[]" "[]"] assms(1) c2(2,3) same
    by (auto simp: run_leg_def generate_loop_def commit_def)
qed

text \<open>
  Let a credits leg with a debit plan start, let the provider answer its first call with a final message, and let the world the
  answer arrives in know the user and the session, hold a consistent ledger without a row of this turn and a
  balance that covers the price. Then the leg ends with that message: it is stored under the identifier the answer
  carries, the balance falls by exactly the price, which the answer reports, the ledger stays consistent, and all of it is committed.
\<close>

theorem covered_answer_delivered:
  assumes "tn_mode t = Mode_credits"
    and "neutral_history_from_steps (te_loads env) (list_steps (tn_session t) (w_chat (cn_now c))) = Inr messages"
    and "\<And>k rq args. te_ask env (cn_rounds c) k rq args = Answered r"
    and "lr_stop r \<noteq> Some ''max_tokens''" and "lr_stop r = Some ''tool_use'' \<Longrightarrow> lr_tool_uses r = []"
    and "w = te_meanwhile env (cn_rounds c) (cn_now c)" and "can_conclude env t (cn_draws c) w"
  shows "\<exists>out c'. run_leg env t locale c = (Inr out, c')
     \<and> ro_status out = Assistant_message \<and> ro_message out = Some (lr_text r) \<and> ro_step out = Some (te_uuid env (cn_draws c))
     \<and> ro_spent out = bp_amount (tn_billing t) \<and> wallet_ok (w_db (cn_saved c'))
     \<and> current_balance (tn_user t) (w_db (cn_saved c')) = current_balance (tn_user t) (w_db w) - bp_amount (tn_billing t)
     \<and> answer_stored t (te_uuid env (cn_draws c)) (lr_content r) (w_chat w) (w_chat (cn_saved c'))"
  using leg_answers [OF assms] .

section \<open>An answered turn\<close>

text \<open>A user with 40 credits asks the time and is answered.\<close>

definition demo_world :: world where
  "demo_world =
     \<lparr>w_db = small_db\<lparr>chat_sessions := [5 \<mapsto> 1]\<rparr>,
      w_chat = \<lparr>cd_sessions = [5 \<mapsto> \<lparr>cs_user = 1, cs_project = None, cs_mode = ''credits'', cs_assistant_mode = ''chat'', cs_title = None,
          cs_model = None, cs_character = None, cs_workspace = None, cs_provider_state = None, cs_backend = Some ''v2'',
          cs_pinned = False, cs_temporary = False, cs_updated = 0\<rparr>],
        cd_steps = [\<lparr>sp_id = 50, sp_seq = 0, sp_session = 5, sp_message = 7, sp_role = User,
          sp_payload = [(''content'', JArr [text_block ''what time is it''])], sp_usage = None\<rparr>],
        cd_next_seq = 1, cd_calls = [], cd_attachments = []\<rparr>\<rparr>"

definition demo_result :: "string \<Rightarrow> tool_use list \<Rightarrow> llm_result" where
  "demo_result stop uses =
     \<lparr>lr_stop = Some stop, lr_content = [text_block ''noon''],
      lr_usage = \<lparr>lu_input = 10, lu_output = 3, lu_model = ''gpt-5.1'', lu_cache_read = 0, lu_cache_write = 0, lu_reasoning = 0, lu_web_search = 0\<rparr>,
      lr_text = ''noon'', lr_tool_uses = uses, lr_response_id = None\<rparr>"

definition demo_env :: "(nat \<Rightarrow> llm_result answer) \<Rightarrow> turn_env" where
  "demo_env script =
     \<lparr>te_loads = (\<lambda>_. None), te_dumps = (\<lambda>_. []), te_cfg = dual_instance, te_default_model = default_model dual_instance,
      te_byok_default = ([], []), te_media_tools = False, te_disabled = [], te_code_tools = False, te_maps_tools = False,
      te_legacy_search = False, te_max_rounds = 16, te_ask = (\<lambda>n _ _ _. script n), te_interruption = (\<lambda>_ _. ([], [], 0)),
      te_meanwhile = (\<lambda>_ w. w), te_validate = (\<lambda>tool args. if tool \<in> set ARGS_BY_TOOL then Inr args else Inl ([], [])),
      te_tool = (\<lambda>_ _ w. (Inr \<lparr>tx_result = Some [], tx_is_error = False, tx_error_code = None, tx_error_message = None\<rparr>, w)),
      te_hint = (\<lambda>_. []), te_failed_texts = [(''en'', ''failed'')], te_uuid = (\<lambda>n. of_nat (100 + n)), te_now = (\<lambda>_. 1)\<rparr>"

definition demo_turn :: turn where
  "demo_turn =
     \<lparr>tn_user = 1, tn_session = 5, tn_message = 7, tn_mode = Mode_credits,
      tn_billing = billing_plan_for Mode_credits \<lparr>subscription_status = Sub_active, trial_used = False, credits_balance = 40,
        byok_enabled = False, byok_status = Byok_missing\<rparr> 3 True,
      tn_api_key = None, tn_byok_provider = None, tn_system_prompt = [], tn_has_project = False, tn_attachments = None,
      tn_model = None, tn_generation_mode = ''general'', tn_v2 = True\<rparr>"

definition demo_conn :: conn where
  "demo_conn = \<lparr>cn_now = demo_world, cn_saved = demo_world, cn_draws = 0, cn_rounds = 0, cn_calls = 0\<rparr>"

lemma demo_left_alone: "key_left_alone (demo_env script) t"
  by (simp add: key_left_alone_def demo_env_def)

lemma demo_unpaid: "payment_is demo_turn None demo_conn"
  by (simp add: payment_is_def paid_def demo_conn_def demo_world_def demo_turn_def existing_tx_def find_tx_def small_db_def empty_db_def) code_simp

definition noon :: "nat \<Rightarrow> llm_result answer" where
  "noon _ = Answered (demo_result ''end_turn'' [])"

lemma demo_env_simps [simp]:
  "te_loads (demo_env script) = (\<lambda>_. None)" "te_ask (demo_env script) = (\<lambda>n _ _ _. script n)" "te_meanwhile (demo_env script) = (\<lambda>_ w. w)"
  "te_max_rounds (demo_env script) = 16" "te_uuid (demo_env script) = (\<lambda>n. of_nat (100 + n))"
  by (simp_all add: demo_env_def)

lemma demo_turn_simps [simp]:
  "tn_user demo_turn = 1" "tn_session demo_turn = 5" "tn_message demo_turn = 7" "tn_mode demo_turn = Mode_credits" "tn_v2 demo_turn"
  "tn_billing demo_turn = \<lparr>bp_debit = True, bp_trial = False, bp_amount = 3, bp_expose = True\<rparr>"
  by (simp_all add: demo_turn_def billing_plan_for_def)

lemma demo_history:
  "neutral_history_from_steps (\<lambda>_. None) (list_steps 5 (w_chat demo_world)) =
     Inr [content_message User (JArr [text_block ''what time is it''])]"
  by code_simp


lemma demo_can_conclude: "can_conclude (demo_env noon) demo_turn 0 demo_world"
proof -
  have "paid demo_turn demo_world = None"
    using demo_unpaid by (simp add: payment_is_def demo_conn_def)
  then show ?thesis
    using small_db_ok
    by (simp add: can_conclude_def demo_world_def bigint_ok_def current_balance_def)
      (simp add: small_db_def wallet_ok_def)
qed

lemma demo_tables:
  "w_chat (cn_now demo_conn) = w_chat demo_world" "cn_rounds demo_conn = 0" "cn_draws demo_conn = 0" "cn_saved demo_conn = demo_world"
  "cn_now demo_conn = demo_world"
  by (simp_all add: demo_conn_def)

lemma noon_answers: "te_ask (demo_env noon) (cn_rounds demo_conn) k rq args = Answered (demo_result ''end_turn'' [])"
  by (simp add: noon_def)

theorem covered_answer_delivered_witness:
  "\<exists>out c'. run_leg (demo_env noon) demo_turn None demo_conn = (Inr out, c')
     \<and> ro_status out = Assistant_message \<and> ro_message out = Some ''noon'' \<and> ro_spent out = 3
     \<and> current_balance 1 (w_db (cn_saved c')) = 37"
proof -
  have "current_balance 1 (w_db demo_world) = 40"
    by (simp add: demo_world_def current_balance_def small_db_def)
  then show ?thesis
    using covered_answer_delivered [of demo_turn "demo_env noon" demo_conn, OF _ _ noon_answers, of _ demo_world None] demo_can_conclude
    by (fastforce simp: demo_tables demo_history noon_def demo_result_def)
qed

theorem turn_charged_once_witness:
  "\<exists>out c' tx. run_leg (demo_env noon) demo_turn None demo_conn = (Inr out, c') \<and> paid demo_turn (cn_saved c') = Some tx \<and> tx_amount tx = 3"
proof -
  obtain out c' where run: "run_leg (demo_env noon) demo_turn None demo_conn = (Inr out, c')" and "ro_status out = Assistant_message"
    using leg_answers [of demo_turn "demo_env noon" demo_conn, OF _ _ noon_answers, of _ demo_world None] demo_can_conclude
    by (fastforce simp: demo_tables demo_history noon_def demo_result_def)
  then show ?thesis
    using turn_charged_once [OF demo_left_alone demo_unpaid run] by (auto simp: turn_settled_def debited_def)
qed

end
