(* ===== verification/Chat_Continue.thy ===== *)
theory Chat_Continue
  imports Chat_Legs
begin

text \<open>
  \<open>ChatOrchestrator.tool_result\<close> of \<open>chat/orchestrator.py\<close>: the results a device sends back, the barrier of the turn, and the leg
  that continues it. Arguments (\<open>leg_inputs\<close>): the price of a turn, the decrypted BYOK key, the system prompt and the clock of the
  policy.
\<close>

section \<open>Applying results\<close>

record tool_result_in =
  ti_call :: uuid
  ti_result :: "json_obj option"
  ti_error :: "json_obj option"

record leg_inputs =
  in_cost :: "string option \<Rightarrow> int"
  in_byok_key :: "uuid \<Rightarrow> world \<Rightarrow> (string \<times> string option) option"
  in_prompt :: "chat_session \<Rightarrow> string \<Rightarrow> world \<Rightarrow> string"
  in_policy_now :: instant

definition ensure_session_backend :: "uuid \<Rightarrow> bool \<Rightarrow> bool \<Rightarrow> unit chat_op" where
  "ensure_session_backend session v2 allow_upgrade s =
     (let actual_v2 = (case cd_sessions s session of None \<Rightarrow> False | Some r \<Rightarrow> cs_backend r = Some ''v2'') in
      if actual_v2 = v2 then (Inr (), s)
      else if \<not> v2 then (Inl (Raised ValidationFailedError ''session belongs to chat v2; use /v1/chat/v2/run''), s)
      else if \<not> allow_upgrade then (Inl (Raised ValidationFailedError ''session belongs to legacy chat; use /v1/chat/tool-result''), s)
      else (Inr (), clear_provider_state session (set_generation_backend session (Some ''v2'') s)))"

text \<open>The calls the results name: all of this session and of one turn.\<close>

fun resolve_results :: "uuid \<Rightarrow> tool_result_in list \<Rightarrow> uuid option \<Rightarrow> chat_db \<Rightarrow> exn + (tool_result_in \<times> tool_call) list \<times> uuid option" where
  "resolve_results session [] message s = Inr ([], message)"
| "resolve_results session (x # xs) message s =
     (case get_tool_call (ti_call x) s of
        None \<Rightarrow> Inl (Raised NotFoundError ''tool call not found for session'')
      | Some tc \<Rightarrow>
          if tc_session tc \<noteq> session then Inl (Raised NotFoundError ''tool call not found for session'')
          else if message \<noteq> None \<and> message \<noteq> Some (tc_message tc)
          then Inl (Raised ValidationFailedError ''all results must belong to the same turn'')
          else (case resolve_results session xs (Some (tc_message tc)) s of
              Inl e \<Rightarrow> Inl e
            | Inr (rs, m) \<Rightarrow> Inr ((x, tc) # rs, m)))"

text \<open>The device's calls of a turn that have no result yet.\<close>

definition open_client_calls :: "uuid \<Rightarrow> uuid \<Rightarrow> chat_db \<Rightarrow> tool_call list" where
  "open_client_calls session message s =
     filter (\<lambda>tc. client_side (tc_tool tc) \<and> tc_status tc = Pending) (list_tool_calls_for_step session message s)"

definition turn_superseded :: "uuid \<Rightarrow> uuid \<Rightarrow> chat_db \<Rightarrow> bool" where
  "turn_superseded session message s =
     (case assistant_tool_step_id session message s of
        None \<Rightarrow> False
      | Some anchor \<Rightarrow> (case dropWhile (\<lambda>p. sp_id p \<noteq> anchor) (list_steps session s) of
            [] \<Rightarrow> False
          | _ # later \<Rightarrow> list_ex (\<lambda>p. sp_role p = User) later))"

definition apply_tool_result :: "turn_env \<Rightarrow> turn \<Rightarrow> tool_result_in \<Rightarrow> tool_call \<Rightarrow> unit leg" where
  "apply_tool_result env t x tc c =
     (let st = (if ti_error x \<noteq> None then Errored else Completed);
          status = [(''status'', Val (JStr (status_text st)))] in
      and_then (on_chat (\<lambda>s. case complete_tool_call (tc_id tc) st (obj_opt (if ti_result x \<noteq> None then ti_result x else ti_error x)) s of
          (transitioned, s') \<Rightarrow> (Inr transitioned, s')) c) (\<lambda>transitioned c.
      if \<not> transitioned then (Inr (), c)
      else and_then (store_step env t Tool
          [(''toolCallId'', JStr (uuid_str (tc_id tc))), (''providerToolUseId'', JStr (tc_provider_id tc)), (''toolName'', JStr (tc_tool tc)),
           (''result'', obj_opt (ti_result x)), (''error'', obj_opt (ti_error x))] None c) (\<lambda>_ c.
        and_then (if tc_tool tc \<in> set MUTATING_TOOLS then audit_call t ''tool_mutation'' (tc_id tc) (tc_tool tc) status c else (Inr (), c)) (\<lambda>_ c.
          audit_call t ''tool_call_completed'' (tc_id tc) (tc_tool tc) status c))))"

fun apply_results :: "turn_env \<Rightarrow> turn \<Rightarrow> (tool_result_in \<times> tool_call) list \<Rightarrow> unit leg" where
  "apply_results env t [] c = (Inr (), c)"
| "apply_results env t ((x, tc) # rs) c =
     (if tc_status tc \<noteq> Pending then apply_results env t rs c
      else and_then (apply_tool_result env t x tc c) (\<lambda>_. apply_results env t rs))"

text \<open>\<open>_all_already_done_before\<close> reads rows that \<open>list_tool_calls_for_step\<close> has just refreshed.\<close>

definition all_done :: "(tool_result_in \<times> tool_call) list \<Rightarrow> chat_db \<Rightarrow> bool" where
  "all_done rs s = list_all (\<lambda>(x, tc). case get_tool_call (tc_id tc) s of None \<Rightarrow> tc_status tc \<noteq> Pending | Some r \<Rightarrow> tc_status r \<noteq> Pending) rs"

text \<open>\<open>block.get("text", "")\<close>: the concatenation fails on a value that is no string.\<close>

fun joined_text :: "json list \<Rightarrow> exn + string" where
  "joined_text [] = Inr []"
| "joined_text (b # bs) =
     (case b of
        JObj d \<Rightarrow>
          if jget ''type'' d = JStr ''text''
          then (case (case map_of d ''text'' of None \<Rightarrow> JStr [] | Some v \<Rightarrow> v) of
              JStr s \<Rightarrow> (case joined_text bs of Inl e \<Rightarrow> Inl e | Inr more_text \<Rightarrow> Inr (s @ more_text))
            | _ \<Rightarrow> Inl (PyFault ''TypeError''))
          else joined_text bs
      | _ \<Rightarrow> Inl (PyFault ''AttributeError''))"

definition render_saved_step :: "uuid \<Rightarrow> uuid \<Rightarrow> chat_step \<Rightarrow> exn + chat_run_out" where
  "render_saved_step session message p =
     (case (case map_of (sp_payload p) ''content'' of
         None \<Rightarrow> Inr [] | Some (JArr bs) \<Rightarrow> joined_text bs | Some (JStr []) \<Rightarrow> Inr [] | Some (JObj []) \<Rightarrow> Inr []
       | Some (JStr cs) \<Rightarrow> Inl (PyFault ''AttributeError'') | Some (JObj d) \<Rightarrow> Inl (PyFault ''AttributeError'')
       | Some v \<Rightarrow> Inl (PyFault ''TypeError'')) of
        Inl e \<Rightarrow> Inl e
      | Inr reply \<Rightarrow> Inr \<lparr>ro_status = Assistant_message, ro_session = session, ro_message = Some reply, ro_calls = [], ro_block = None,
          ro_usage = sp_usage p, ro_message_step = Some message, ro_step = Some (sp_id p), ro_server_tools = [], ro_media_jobs = [],
          ro_spent = 0\<rparr>)"

section \<open>Access\<close>

definition mode_text :: "Mode \<Rightarrow> string" where
  "mode_text m = (case m of Mode_credits \<Rightarrow> ''credits'' | Mode_byok \<Rightarrow> ''byok'')"

definition session_mode :: "chat_session \<Rightarrow> Mode" where
  "session_mode r = (if cs_mode r = ''byok'' then Mode_byok else Mode_credits)"

definition block_text :: "BlockReason \<Rightarrow> string" where
  "block_text r = (case r of
     Block_trial_used \<Rightarrow> ''trial_used'' | Block_subscription_required \<Rightarrow> ''subscription_required''
   | Block_subscription_expired \<Rightarrow> ''subscription_expired'' | Block_credits_empty \<Rightarrow> ''credits_empty''
   | Block_byok_disabled \<Rightarrow> ''byok_disabled'' | Block_byok_invalid \<Rightarrow> ''byok_invalid'' | Block_rate_limited \<Rightarrow> ''rate_limited''
   | Block_policy_denied \<Rightarrow> ''policy_denied'' | Block_max_tokens \<Rightarrow> ''max_tokens'')"

definition evaluate_turn :: "leg_inputs \<Rightarrow> turn \<Rightarrow> int \<Rightarrow> (Decision \<times> PolicyState) leg" where
  "evaluate_turn inp t required c =
     (let state = load_policy_state (in_policy_now inp) (tn_user t) (w_db (cn_now c));
          decision = evaluate state (tn_mode t) required in
      and_then (audit_turn t ''policy_decision''
        [(''mode'', Val (JStr (mode_text (tn_mode t)))), (''decision'', Val (JStr (if allow decision then ''allow'' else ''blocked''))),
         (''blockReason'', opt_str (map_option block_text (block_reason decision))), (''requiredCredits'', Val (JInt (max 1 required)))] c)
        (\<lambda>_ c. (Inr (decision, state), c)))"

definition resolve_api_key :: "leg_inputs \<Rightarrow> turn \<Rightarrow> (string option \<times> string option) leg" where
  "resolve_api_key inp t c =
     (if tn_mode t = Mode_byok then
        (case in_byok_key inp (tn_user t) (cn_now c) of
           None \<Rightarrow> (Inl (Fails (Raised ValidationFailedError ''byok key unavailable'')), c)
         | Some (key, provider) \<Rightarrow> (Inr (Some key, provider), c))
      else (Inr (None, None), c))"

text \<open>From an allowed turn to the leg: the answer when access is refused, else the turn with its bill and key.\<close>

definition admit_turn :: "leg_inputs \<Rightarrow> turn \<Rightarrow> (chat_run_out + turn) leg" where
  "admit_turn inp t c =
     (let cost = in_cost inp (tn_model t) in
      and_then (evaluate_turn inp t cost c) (\<lambda>res c. case res of (decision, state) \<Rightarrow>
        if \<not> allow decision then (Inr (Inl (blocked_out (tn_session t) (block_reason decision))), c)
        else and_then (resolve_api_key inp t c) (\<lambda>key c.
          (Inr (Inr (t\<lparr>tn_api_key := fst key, tn_byok_provider := snd key,
             tn_billing := billing_plan_for (tn_mode t) state cost (tn_v2 t)\<rparr>)), c))))"

text \<open>\<open>sess.model or None\<close>\<close>

definition turn_of :: "leg_inputs \<Rightarrow> chat_session \<Rightarrow> uuid \<Rightarrow> uuid \<Rightarrow> uuid \<Rightarrow> string \<Rightarrow> bool \<Rightarrow> world \<Rightarrow> turn" where
  "turn_of inp sess user session message mode v2 w =
     \<lparr>tn_user = user, tn_session = session, tn_message = message, tn_mode = session_mode sess,
      tn_billing = \<lparr>bp_debit = False, bp_trial = False, bp_amount = 0, bp_expose = v2\<rparr>, tn_api_key = None, tn_byok_provider = None,
      tn_system_prompt = in_prompt inp sess mode w, tn_has_project = (cs_project sess \<noteq> None), tn_attachments = None,
      tn_model = (case cs_model sess of Some (x # xs) \<Rightarrow> Some (x # xs) | _ \<Rightarrow> None), tn_generation_mode = mode, tn_v2 = v2\<rparr>"

section \<open>The operation\<close>

text \<open>The answer while the barrier is open.\<close>

definition awaiting_out :: "uuid \<Rightarrow> uuid \<Rightarrow> tool_call list \<Rightarrow> chat_db \<Rightarrow> chat_run_out" where
  "awaiting_out session message pending s =
     \<lparr>ro_status = Tool_call, ro_session = session, ro_message = None,
      ro_calls = map (\<lambda>tc. \<lparr>to_id = tc_id tc, to_name = tc_tool tc, to_args = tc_args tc\<rparr>) pending, ro_block = None, ro_usage = None,
      ro_message_step = Some message, ro_step = assistant_tool_step_id session message s, ro_server_tools = [], ro_media_jobs = [],
      ro_spent = 0\<rparr>"

definition superseded_conflict :: turn_fault where
  "superseded_conflict = Fails (Raised ConflictError ''tool call superseded by a newer user message'')"

text \<open>After the results are applied: wait, replay the saved answer, or go on with the turn.\<close>

definition after_results ::
  "leg_inputs \<Rightarrow> chat_session \<Rightarrow> turn \<Rightarrow> (tool_result_in \<times> tool_call) list \<Rightarrow> bool \<Rightarrow> (chat_run_out + turn) leg" where
  "after_results inp sess t rs was_open c =
     (let s = w_chat (cn_now c); session = tn_session t; message = tn_message t; pending = open_client_calls session message s;
          go_on = (if was_open \<and> turn_superseded session message s then (Inl superseded_conflict, c)
                   else admit_turn inp (turn_of inp sess (tn_user t) session message (tn_generation_mode t) (tn_v2 t) (cn_now c)) c) in
      if pending \<noteq> [] then (Inr (Inl (awaiting_out session message pending s)), commit c)
      else case next_step_after session message (tc_id (snd (hd rs))) s of
        None \<Rightarrow> go_on
      | Some p \<Rightarrow>
          if all_done rs s then (case render_saved_step session message p of Inl e \<Rightarrow> (Inl (Fails e), c) | Inr out \<Rightarrow> (Inr (Inl out), c))
          else go_on)"

definition tool_result_body ::
  "turn_env \<Rightarrow> leg_inputs \<Rightarrow> uuid \<Rightarrow> uuid \<Rightarrow> tool_result_in list \<Rightarrow> bool \<Rightarrow> (chat_run_out + turn) leg" where
  "tool_result_body env inp user session results v2 c =
     (case get_chat_session session user (w_chat (cn_now c)) of
        None \<Rightarrow> (Inl (Fails (Raised NotFoundError ''session not found'')), c)
      | Some sess \<Rightarrow>
          and_then (on_chat (ensure_session_backend session v2 False) c) (\<lambda>_ c.
          let s = w_chat (cn_now c) in
          case resolve_results session results None s of
            Inl e \<Rightarrow> (Inl (Fails e), c)
          | Inr (rs, None) \<Rightarrow> (Inl (Fails (Raised ValidationFailedError ''results must be non-empty'')), c)
          | Inr (rs, Some message) \<Rightarrow>
              (let mode = (if v2 then generation_mode_for_message_step session message s else effective_generation_mode env ''general'' False);
                   t = turn_of inp sess user session message mode v2 (cn_now c);
                   was_open = (open_client_calls session message s \<noteq> []) in
               if was_open \<and> turn_superseded session message s then (Inl superseded_conflict, c)
               else and_then (apply_results env t rs c) (\<lambda>_. after_results inp sess t rs was_open))))"

definition tool_result :: "turn_env \<Rightarrow> leg_inputs \<Rightarrow> uuid \<Rightarrow> uuid \<Rightarrow> tool_result_in list \<Rightarrow> bool \<Rightarrow> conn \<Rightarrow> (exn, chat_run_out, conn) outcome" where
  "tool_result env inp user session results v2 c =
     (case tool_result_body env inp user session results v2 c of
        (Inr (Inl out), c') \<Rightarrow> (Inr out, commit c')
      | (Inr (Inr t), c') \<Rightarrow> run_leg env t None c'
      | (Inl (Fails e), c') \<Rightarrow> (Inl e, rollback c')
      | (Inl (Interrupted _ _ _), c') \<Rightarrow> (Inl (PyFault ''TurnInterrupted''), rollback c'))"

end
