(* ===== verification/Chat_Barrier.thy ===== *)
theory Chat_Barrier
  imports Chat_Continue
begin

text \<open>
  The barrier of a turn over \<open>tool_result\<close> of theory \<open>Chat_Continue\<close>: what applying a batch of results changes (\<open>applied\<close>),
  that no provider is asked while the device owes a call, that a late result is refused, and where replaying a saved answer
  goes wrong.
\<close>

section \<open>The barrier\<close>

lemma open_iff:
  "tc \<in> set (open_client_calls session message s) \<longleftrightarrow>
     tc \<in> set (cd_calls s) \<and> tc_session tc = session \<and> tc_message tc = message \<and> client_side (tc_tool tc) \<and> tc_status tc = Pending"
  by (auto simp: open_client_calls_def list_tool_calls_for_step_def)

text \<open>What applying results of the calls \<open>ids\<close> does: those calls are no longer open, and beside the tables of the chat only the
  audit log has moved.\<close>

definition applied :: "uuid set \<Rightarrow> conn \<Rightarrow> conn \<Rightarrow> bool" where
  "applied ids c c' \<longleftrightarrow>
     cn_saved c' = cn_saved c \<and> cn_rounds c' = cn_rounds c
     \<and> (w_db (cn_now c'))\<lparr>audit_log := []\<rparr> = (w_db (cn_now c))\<lparr>audit_log := []\<rparr>
     \<and> map tc_id (cd_calls (w_chat (cn_now c'))) = map tc_id (cd_calls (w_chat (cn_now c)))
     \<and> {tc \<in> set (cd_calls (w_chat (cn_now c'))). tc_status tc = Pending} =
          {tc \<in> set (cd_calls (w_chat (cn_now c))). tc_status tc = Pending \<and> tc_id tc \<notin> ids}"

lemma applied_open:
  assumes "applied ids c c'"
  shows "set (open_client_calls session message (w_chat (cn_now c'))) =
    {tc \<in> set (open_client_calls session message (w_chat (cn_now c))). tc_id tc \<notin> ids}"
proof -
  have "(tc \<in> set (cd_calls (w_chat (cn_now c'))) \<and> tc_status tc = Pending) \<longleftrightarrow>
      tc \<in> set (cd_calls (w_chat (cn_now c))) \<and> tc_status tc = Pending \<and> tc_id tc \<notin> ids" for tc
    using assms unfolding applied_def by blast
  then show ?thesis
    unfolding set_eq_iff mem_Collect_eq open_iff by blast
qed

lemma applied_refl [simp]: "applied {} c c"
  by (simp add: applied_def)

lemma applied_trans:
  assumes "applied A c c'" and "applied B c' c''"
  shows "applied (A \<union> B) c c''"
proof -
  have "{tc \<in> set (cd_calls (w_chat (cn_now c''))). tc_status tc = Pending} =
      {tc \<in> {tc \<in> set (cd_calls (w_chat (cn_now c'))). tc_status tc = Pending}. tc_id tc \<notin> B}"
    using assms(2) unfolding applied_def by blast
  also have "\<dots> = {tc \<in> set (cd_calls (w_chat (cn_now c))). tc_status tc = Pending \<and> tc_id tc \<notin> A \<union> B}"
    using assms(1) unfolding applied_def by blast
  finally show ?thesis
    using assms unfolding applied_def by simp
qed

lemma completed_pending:
  assumes "st \<noteq> Pending"
  shows "{tc \<in> set (cd_calls (snd (complete_tool_call i st res s))). tc_status tc = Pending} =
    {tc \<in> set (cd_calls s). tc_status tc = Pending \<and> tc_id tc \<noteq> i}"
  using assms by (force simp: complete_tool_call_def image_iff)

lemma applied_then: "applied A c (snd m) \<Longrightarrow> (\<And>a c. applied {} c (snd (k a c))) \<Longrightarrow> applied A c (snd (and_then m k))"
  using applied_trans [of A c _ "{}"] by (cases m; cases "fst m") (auto simp: and_then_def)

lemma applied_audit: "applied {} c (snd (audit_turn t event p c))"
  by (rule audit_record_cases [of "Some (tn_user t)" "Some (tn_session t)" event p "w_db (cn_now c)"])
    (simp_all add: audit_turn_def on_db_def applied_def)

lemma applied_call: "applied {} c (snd (audit_call t event i tool extra c))"
  by (simp add: audit_call_def applied_audit)

lemma applied_stepped: "applied {} c (snd (on_chat (add_step i session message r payload usage) c))"
  by (simp add: applied_def on_chat_def add_step_def)

lemma applied_drawn: "applied {} c (snd (draw env c))"
  by (simp add: applied_def draw_def)

lemma applied_step: "applied {} c (snd (store_step env t r payload usage c))"
  unfolding store_step_def by (intro applied_then applied_drawn applied_stepped)

lemma applied_returned: "applied {} c (snd (r, c))"
  by simp

lemma applied_completed:
  "st \<noteq> Pending \<Longrightarrow> applied {i} c (snd (on_chat (\<lambda>s. case complete_tool_call i st res s of (b, s') \<Rightarrow> (Inr b, s')) c))"
  using completed_pending [of st] by (simp add: applied_def on_chat_def split_beta) (simp add: complete_tool_call_def comp_def)

lemma applied_result: "applied {tc_id tc} c (snd (apply_tool_result env t x tc c))"
proof -
  have st: "(if ti_error x \<noteq> None then Errored else Completed) \<noteq> Pending"
    by simp
  have rest: "applied {} c' (snd (if \<not> b then (Inr (), c') else and_then m k))"
    if "applied {} c' (snd m)" and "\<And>a c. applied {} c (snd (k a c))" for b c' and m :: "(turn_fault, 'x, conn) outcome" and k
    using applied_then [OF that] by simp
  show ?thesis
    unfolding apply_tool_result_def Let_def
    by (rule applied_then, rule applied_completed [OF st], rule rest, rule applied_step, rule applied_then)
      (simp_all add: applied_call)
qed

text \<open>The batch as a whole; when a statement fails the request rolls back what the earlier results did.\<close>

abbreviation pending_ids :: "(tool_result_in \<times> tool_call) list \<Rightarrow> uuid set" where
  "pending_ids rs \<equiv> {tc_id tc | x tc. (x, tc) \<in> set rs \<and> tc_status tc = Pending}"

lemma applied_results:
  "\<exists>ids. applied ids c (snd (apply_results env t rs c)) \<and> (fst (apply_results env t rs c) = Inr () \<longrightarrow> ids = pending_ids rs)"
proof (induction rs arbitrary: c)
  case Nil
  have "applied {} c c"
    by simp
  then show ?case
    by (intro exI [of _ "{}"]) simp
next
  case (Cons a rs)
  obtain x tc where a: "a = (x, tc)"
    by (cases a)
  show ?case
  proof (cases "tc_status tc = Pending")
    case False
    then have "pending_ids (a # rs) = pending_ids rs"
      by (auto simp: a)
    then show ?thesis
      using Cons.IH [of c] False by (simp add: a)
  next
    case True
    have ids: "pending_ids (a # rs) = {tc_id tc} \<union> pending_ids rs"
      using True by (auto simp: a)
    obtain r c1 where one: "apply_tool_result env t x tc c = (r, c1)"
      by (cases "apply_tool_result env t x tc c")
    have first: "applied {tc_id tc} c c1"
      using applied_result [of tc c env t x] by (simp add: one)
    show ?thesis
    proof (cases r)
      case (Inl f)
      then show ?thesis
        using first True by (auto simp: a one)
    next
      case (Inr u)
      obtain ids where "applied ids c1 (snd (apply_results env t rs c1))"
        and "fst (apply_results env t rs c1) = Inr () \<longrightarrow> ids = pending_ids rs"
        using Cons.IH [of c1] by blast
      then show ?thesis
        using applied_trans [OF first] True Inr unfolding ids by (intro exI [of _ "{tc_id tc} \<union> ids"]) (simp add: a one)
    qed
  qed
qed

lemma resolved:
  assumes "resolve_results session results m s = Inr (rs, m')"
  shows "map fst rs = results \<and> (m \<noteq> None \<longrightarrow> m' = m)
    \<and> (\<forall>(x, tc) \<in> set rs. get_tool_call (ti_call x) s = Some tc \<and> tc_session tc = session \<and> m' = Some (tc_message tc))"
  using assms
proof (induction results arbitrary: m rs)
  case (Cons x xs)
  from Cons.prems obtain tc rs' where tc: "get_tool_call (ti_call x) s = Some tc" "tc_session tc = session"
    and m: "m = None \<or> m = Some (tc_message tc)" and rest: "resolve_results session xs (Some (tc_message tc)) s = Inr (rs', m')"
    and rs: "rs = (x, tc) # rs'"
    by (auto split: option.splits if_splits sum.splits)
  show ?case
    using Cons.IH [OF rest] tc m by (auto simp: rs)
qed simp

lemma found_call: "get_tool_call i s = Some tc \<Longrightarrow> tc \<in> set (cd_calls s) \<and> tc_id tc = i"
  by (auto simp: get_tool_call_def find_Some_iff)

lemma same_backend: "snd (on_chat (ensure_session_backend session v2 False) c) = c"
  by (simp add: on_chat_def ensure_session_backend_def Let_def)

lemma open_resolved:
  assumes "distinct (map tc_id (cd_calls s))" and "resolve_results session results None s = Inr (rs, m)"
    and "tc \<in> set (open_client_calls session message s)"
  shows "tc_id tc \<in> pending_ids rs \<longleftrightarrow> tc_id tc \<in> ti_call ` set results"
proof -
  note found = resolved [OF assms(2)]
  have tc: "tc \<in> set (cd_calls s)" "tc_status tc = Pending"
    using assms(3) by (auto simp: open_iff)
  have same: "a = tc" if "a \<in> set (cd_calls s)" "tc_id a = tc_id tc" for a
    using assms(1) tc(1) that by (auto simp: distinct_map inj_on_def)
  show ?thesis
  proof
    assume "tc_id tc \<in> pending_ids rs"
    then obtain x a where "(x, a) \<in> set rs" and "tc_id tc = tc_id a"
      by blast
    moreover from this have "get_tool_call (ti_call x) s = Some a" and "x \<in> set results"
      using found by force+
    ultimately show "tc_id tc \<in> ti_call ` set results"
      using found_call by force
  next
    assume "tc_id tc \<in> ti_call ` set results"
    then obtain x where x: "x \<in> set results" "tc_id tc = ti_call x"
      by blast
    then obtain a where a: "(x, a) \<in> set rs"
      using found by force
    then have "get_tool_call (ti_call x) s = Some a"
      using found by blast
    then have "a = tc"
      using found_call same x(2) by metis
    then show "tc_id tc \<in> pending_ids rs"
      using a tc(2) by blast
  qed
qed

definition call_out :: "tool_call \<Rightarrow> tool_call_out" where
  "call_out tc = \<lparr>to_id = tc_id tc, to_name = tc_tool tc, to_args = tc_args tc\<rparr>"

text \<open>What an answer says while the device still owes the calls \<open>owed\<close>: nothing asked, nothing spent, those calls listed.\<close>

definition awaits :: "conn \<Rightarrow> tool_call set \<Rightarrow> exn + chat_run_out \<Rightarrow> conn \<Rightarrow> bool" where
  "awaits c owed r c' \<longleftrightarrow>
     cn_rounds c' = cn_rounds c
     \<and> (case r of
         Inl e \<Rightarrow> cn_saved c' = cn_saved c
       | Inr out \<Rightarrow> ro_status out = Tool_call \<and> ro_spent out = 0 \<and> set (ro_calls out) = call_out ` owed
           \<and> (w_db (cn_saved c'))\<lparr>audit_log := []\<rparr> = (w_db (cn_now c))\<lparr>audit_log := []\<rparr>)"

lemma barrier_kept:
  assumes "applied ids c c1" and "open_client_calls (tn_session t) (tn_message t) (w_chat (cn_now c1)) = p # ps"
  shows "\<exists>out. after_results inp sess t rs was_open c1 = (Inr (Inl out), commit c1) \<and>
    awaits c {tc \<in> set (open_client_calls (tn_session t) (tn_message t) (w_chat (cn_now c))). tc_id tc \<notin> ids} (Inr out) (commit (commit c1))"
proof -
  define out where "out = awaiting_out (tn_session t) (tn_message t) (p # ps) (w_chat (cn_now c1))"
  have "set (p # ps) = {tc \<in> set (open_client_calls (tn_session t) (tn_message t) (w_chat (cn_now c))). tc_id tc \<notin> ids}"
    using applied_open [OF assms(1), of "tn_session t" "tn_message t"] assms(2) by simp
  note owed = this
  have "after_results inp sess t rs was_open c1 = (Inr (Inl out), commit c1)"
    by (simp add: after_results_def assms(2) out_def Let_def)
  moreover have "set (ro_calls out) = call_out ` set (p # ps)"
    by (simp add: out_def awaiting_out_def call_out_def)
  ultimately show ?thesis
    using assms(1) unfolding awaits_def owed by (auto simp: applied_def commit_def out_def awaiting_out_def)
qed

lemma awaits_fault: "cn_rounds c1 = cn_rounds c \<Longrightarrow> cn_saved c1 = cn_saved c \<Longrightarrow> awaits c owed (Inl e) (rollback c1)"
  by (simp add: awaits_def rollback_def)

text \<open>What the body does before the results are applied leaves the connection alone.\<close>

lemma body_cases:
  obtains (refused) e where "tool_result_body env inp user session results v2 c = (Inl (Fails e), c)"
  | (applying) sess rs message t was_open where "get_chat_session session user (w_chat (cn_now c)) = Some sess"
      and "resolve_results session results None (w_chat (cn_now c)) = Inr (rs, Some message)"
      and "t = turn_of inp sess user session message (if v2 then generation_mode_for_message_step session message (w_chat (cn_now c))
         else effective_generation_mode env ''general'' False) v2 (cn_now c)"
      and "was_open = (open_client_calls session message (w_chat (cn_now c)) \<noteq> [])"
      and "tool_result_body env inp user session results v2 c =
         and_then (apply_results env t rs c) (\<lambda>_. after_results inp sess t rs was_open)"
proof (cases "get_chat_session session user (w_chat (cn_now c))")
  case None
  then show ?thesis
    by (intro refused) (simp add: tool_result_body_def)
next
  case (Some sess)
  obtain b where b: "on_chat (ensure_session_backend session v2 False) c = (b, c)"
    using same_backend [of session v2 c] by (cases "on_chat (ensure_session_backend session v2 False) c") simp
  have faults: "\<exists>e. f = Fails e" if "b = Inl f" for f
    using b that by (auto simp: on_chat_def lift_fault_def split: prod.splits sum.splits)
  show ?thesis
  proof (cases b)
    case (Inl f)
    then obtain e where "f = Fails e"
      using faults by blast
    then show ?thesis
      using Inl by (intro refused [of e]) (simp add: tool_result_body_def Some b)
  next
    case (Inr u)
    note body = tool_result_body_def [of env inp user session results v2 c]
    show ?thesis
    proof (cases "resolve_results session results None (w_chat (cn_now c))")
      case (Inl e)
      then show ?thesis
        using Inr by (intro refused [of e]) (simp add: body Some b)
    next
      case r: (Inr res)
      obtain rs m where res: "res = (rs, m)"
        by (cases res)
      show ?thesis
      proof (cases m)
        case None
        then show ?thesis
          using Inr r res by (intro refused) (simp add: body Some b)
      next
        case m: (Some message)
        show ?thesis
        proof (cases "open_client_calls session message (w_chat (cn_now c)) \<noteq> [] \<and> turn_superseded session message (w_chat (cn_now c))")
          case True
          then show ?thesis
            using Inr r res m by (intro refused) (simp add: body Some b Let_def superseded_conflict_def)
        next
          case False
          then show ?thesis
            using Inr r res m by (intro applying [OF Some _ refl refl]) (auto simp: body Some b Let_def)
        qed
      qed
    qed
  qed
qed

text \<open>
  C6. The barrier of a turn. While the device still owes a result for a call of the turn the results name, the request asks no
  provider and spends nothing: it ends with the calls still owed, exactly those of the turn that were open and that the batch does not
  name, and of the tables outside the chat only the audit log has moved; when it fails, nothing is saved.
\<close>

theorem barrier_holds:
  assumes "distinct (map tc_id (cd_calls (w_chat (cn_now c))))"
    and "x \<in> set results" and "get_tool_call (ti_call x) (w_chat (cn_now c)) = Some a"
    and "b \<in> set (open_client_calls session (tc_message a) (w_chat (cn_now c)))" and "tc_id b \<notin> ti_call ` set results"
    and "tool_result env inp user session results v2 c = (r, c')"
  shows "awaits c {tc \<in> set (open_client_calls session (tc_message a) (w_chat (cn_now c))). tc_id tc \<notin> ti_call ` set results} r c'"
proof (rule body_cases [of env inp user session results v2 c])
  fix e
  assume "tool_result_body env inp user session results v2 c = (Inl (Fails e), c)"
  then show ?thesis
    using assms(6) awaits_fault by (auto simp: tool_result_def)
next
  fix sess rs message t was_open
  assume res: "resolve_results session results None (w_chat (cn_now c)) = Inr (rs, Some message)"
    and t: "t = turn_of inp sess user session message (if v2 then generation_mode_for_message_step session message (w_chat (cn_now c))
         else effective_generation_mode env ''general'' False) v2 (cn_now c)"
    and body: "tool_result_body env inp user session results v2 c =
         and_then (apply_results env t rs c) (\<lambda>_. after_results inp sess t rs was_open)"
  have here: "tn_session t = session" "tn_message t = message"
    by (simp_all add: t turn_of_def)
  have message: "tc_message a = message"
    using resolved [OF res] assms(2,3) by force
  obtain r1 c1 where one: "apply_results env t rs c = (r1, c1)"
    by (cases "apply_results env t rs c")
  obtain ids where ids: "applied ids c c1" "r1 = Inr () \<longrightarrow> ids = pending_ids rs"
    using applied_results [of c env t rs] by (auto simp: one)
  show ?thesis
  proof (cases r1)
    case (Inl f)
    then show ?thesis
      using ids(1) assms(6) body one by (cases f) (auto simp: tool_result_def applied_def intro: awaits_fault)
  next
    case (Inr u)
    have "{tc \<in> set (open_client_calls session message (w_chat (cn_now c))). tc_id tc \<notin> ids} =
        {tc \<in> set (open_client_calls session message (w_chat (cn_now c))). tc_id tc \<notin> ti_call ` set results}" (is "_ = ?owed")
      using open_resolved [OF assms(1) res] ids(2) Inr by (intro Collect_cong conj_cong refl) simp
    note owed = this
    have "set (open_client_calls session message (w_chat (cn_now c1))) = ?owed"
      unfolding owed [symmetric] by (rule applied_open [OF ids(1)])
    then obtain p ps where "open_client_calls session message (w_chat (cn_now c1)) = p # ps"
      using assms(4,5) by (cases "open_client_calls session message (w_chat (cn_now c1))") (auto simp: message)
    then show ?thesis
      using barrier_kept [OF ids(1), of t p ps inp sess rs was_open] assms(6) Inr
      unfolding here owed message by (auto simp: tool_result_def body one)
  qed
qed

text \<open>
  A result that comes too late. When a call of the turn is still open and the user has written since, the request is refused
  with a conflict, and neither the tables nor the transaction have moved.
\<close>

theorem superseded_result_refused:
  assumes "get_chat_session session user (w_chat (cn_now c)) = Some sess" and "(cs_backend sess = Some ''v2'') = v2"
    and "resolve_results session results None (w_chat (cn_now c)) = Inr (rs, Some message)"
    and "open_client_calls session message (w_chat (cn_now c)) \<noteq> []" and "turn_superseded session message (w_chat (cn_now c))"
  shows "tool_result env inp user session results v2 c =
    (Inl (Raised ConflictError ''tool call superseded by a newer user message''), rollback c)"
proof -
  have "cd_sessions (w_chat (cn_now c)) session = Some sess"
    using assms(1) by (auto simp: get_chat_session_def split: option.splits if_splits)
  then have "on_chat (ensure_session_backend session v2 False) c = (Inr (), c)"
    using assms(2) by (simp add: on_chat_def ensure_session_backend_def Let_def lift_fault_def)
  then have "tool_result_body env inp user session results v2 c = (Inl superseded_conflict, c)"
    using assms by (simp add: tool_result_body_def Let_def)
  then show ?thesis
    by (simp add: tool_result_def superseded_conflict_def)
qed

section \<open>The saved answer\<close>

text \<open>\<open>seq\<close> is drawn from a sequence: a new step comes last.\<close>

definition seq_fresh :: "chat_db \<Rightarrow> bool" where
  "seq_fresh s \<longleftrightarrow> (\<forall>p \<in> set (cd_steps s). sp_seq p < cd_next_seq s)"

lemma insort_key_snoc: "f a \<le> f x \<Longrightarrow> insort_key f a (ys @ [x]) = insort_key f a ys @ [x]"
  by (induction ys) auto

lemma sort_key_snoc: "\<forall>p \<in> set xs. f p \<le> f x \<Longrightarrow> sort_key f (xs @ [x]) = sort_key f xs @ [x]"
  by (induction xs) (simp_all add: insort_key_snoc)

text \<open>What stays while results are applied: the tool step of the call, the assistant steps of its turn, so also the saved answer.\<close>

definition answer_saved :: "uuid \<Rightarrow> uuid \<Rightarrow> uuid \<Rightarrow> chat_step \<Rightarrow> chat_db \<Rightarrow> bool" where
  "answer_saved session message i p s \<longleftrightarrow>
     seq_fresh s \<and> list_ex (\<lambda>q. jget ''toolCallId'' (sp_payload q) = JStr (uuid_str i)) (turn_steps session message Tool s)
     \<and> next_step_after session message i s = Some p"

lemma steps_after:
  assumes "seq_fresh s" and "add_step new_id session message r payload usage s = (Inr x, s')"
  obtains q where "sp_role q = r" and "turn_steps session' message' k s' = turn_steps session' message' k s @ filter (\<lambda>p. sp_session p = session' \<and> sp_message p = message' \<and> sp_role p = k) [q]"
proof -
  define q where "q = \<lparr>sp_id = new_id, sp_seq = cd_next_seq s, sp_session = session, sp_message = message, sp_role = r,
      sp_payload = payload, sp_usage = usage\<rparr>"
  have s': "cd_steps s' = cd_steps s @ [q]"
    using assms(2) by (auto simp: add_step_def q_def split: if_splits)
  have "\<forall>p \<in> set (filter (\<lambda>p. sp_session p = session') (cd_steps s)). sp_seq p \<le> sp_seq q"
    using assms(1) by (auto simp: seq_fresh_def q_def)
  then have "turn_steps session' message' k s' = turn_steps session' message' k s @ filter (\<lambda>p. sp_session p = session' \<and> sp_message p = message' \<and> sp_role p = k) [q]"
    by (simp add: turn_steps_def list_steps_def s' sort_key_snoc)
  then show ?thesis
    by (rule that [rotated]) (simp add: q_def)
qed

lemma answer_stays:
  assumes "answer_saved session message i p s" and "add_step new_id session' message' Tool payload usage s = (r, s')"
  shows "answer_saved session message i p s'"
proof (cases r)
  case (Inl e)
  then show ?thesis
    using assms by (auto simp: add_step_def split: if_splits)
next
  case (Inr x)
  note stored = assms(2) [unfolded Inr]
  have fresh: "seq_fresh s" "seq_fresh s'"
    using assms(1) stored by (auto simp: answer_saved_def seq_fresh_def add_step_def less_Suc_eq split: if_splits)
  have answers: "turn_steps session message Assistant s' = turn_steps session message Assistant s"
    using steps_after [OF fresh(1) stored, of session message Assistant] by auto
  obtain qs where tools: "turn_steps session message Tool s' = turn_steps session message Tool s @ qs"
    using steps_after [OF fresh(1) stored, of session message Tool] by blast
  obtain q rest where "filter (\<lambda>p. jget ''toolCallId'' (sp_payload p) = JStr (uuid_str i)) (turn_steps session message Tool s) = q # rest"
    using assms(1) by (cases "filter (\<lambda>p. jget ''toolCallId'' (sp_payload p) = JStr (uuid_str i)) (turn_steps session message Tool s)")
      (auto simp: answer_saved_def list_ex_iff filter_empty_conv)
  then have "next_step_after session message i s' = next_step_after session message i s"
    by (simp add: next_step_after_def answers tools)
  then show ?thesis
    using assms(1) fresh(2) by (simp add: answer_saved_def tools)
qed

definition saved_in :: "uuid \<Rightarrow> uuid \<Rightarrow> uuid \<Rightarrow> chat_step \<Rightarrow> conn \<Rightarrow> bool" where
  "saved_in session message i p c = answer_saved session message i p (w_chat (cn_now c))"

lemma saved_then:
  "saved_in session message i p (snd m) \<Longrightarrow> (\<And>a c. saved_in session message i p c \<Longrightarrow> saved_in session message i p (snd (k a c)))
   \<Longrightarrow> saved_in session message i p (snd (and_then m k))"
  by (cases m; cases "fst m") (auto simp: and_then_def)

lemma saved_audit: "saved_in session message i p c \<Longrightarrow> saved_in session message i p (snd (audit_turn t event pl c))"
  by (simp add: saved_in_def audit_turn_def on_db_def split_beta)

lemma saved_call: "saved_in session message i p c \<Longrightarrow> saved_in session message i p (snd (audit_call t event j tool extra c))"
  by (simp add: audit_call_def saved_audit)

lemma saved_tool_step: "saved_in session message i p c \<Longrightarrow> saved_in session message i p (snd (store_step env t Tool payload usage c))"
proof -
  assume "saved_in session message i p c"
  then have "saved_in session message i p (snd (on_chat (add_step n (tn_session t) (tn_message t) Tool payload usage) (snd (draw env c))))" for n
    using answer_stays by (auto simp: saved_in_def on_chat_def draw_def split: prod.split)
  then show ?thesis
    by (simp add: store_step_def draw_def)
qed

lemma turn_steps_calls [simp]: "turn_steps session message r (s\<lparr>cd_calls := x\<rparr>) = turn_steps session message r s"
  by (simp add: turn_steps_def list_steps_def)

lemma next_step_calls [simp]: "next_step_after session message i (s\<lparr>cd_calls := x\<rparr>) = next_step_after session message i s"
  by (simp only: next_step_after_def turn_steps_calls)

lemma saved_if:
  "saved_in session message i p c \<Longrightarrow> saved_in session message i p (snd m) \<Longrightarrow> saved_in session message i p (snd (if b then (r, c) else m))"
  by simp

lemma saved_if_call:
  "saved_in session message i p c \<Longrightarrow> saved_in session message i p (snd (if b then audit_call t event j tool extra c else (r, c)))"
  by (simp add: saved_call)

lemma saved_completed:
  "saved_in session message i p c \<Longrightarrow>
   saved_in session message i p (snd (on_chat (\<lambda>s. case complete_tool_call j st res s of (b, s') \<Rightarrow> (Inr b, s')) c))"
  by (simp add: saved_in_def on_chat_def complete_tool_call_def answer_saved_def seq_fresh_def)

lemma saved_results: "saved_in session message i p c \<Longrightarrow> saved_in session message i p (snd (apply_results env t rs c))"
proof (induction rs arbitrary: c)
  case (Cons a rs)
  obtain x tc where a: "a = (x, tc)"
    by (cases a)
  have one: "saved_in session message i p (snd (apply_tool_result env t x tc c))"
    using Cons.prems unfolding apply_tool_result_def Let_def
    by (intro saved_then saved_completed saved_if saved_tool_step saved_if_call saved_call)
  show ?case
    using Cons.IH [OF Cons.prems] by (simp add: a) (intro impI saved_then one Cons.IH)
qed simp

text \<open>The rows are read again after the results are applied: every call of the batch is done by then.\<close>

lemma batch_done:
  assumes "distinct (map tc_id (cd_calls (w_chat (cn_now c))))"
    and "resolve_results session results None (w_chat (cn_now c)) = Inr (rs, m)" and "applied (pending_ids rs) c c1"
  shows "all_done rs (w_chat (cn_now c1))"
proof -
  have "tc_status r \<noteq> Pending" if "(x, tc) \<in> set rs" and "get_tool_call (tc_id tc) (w_chat (cn_now c1)) = Some r" for x tc r
  proof
    assume "tc_status r = Pending"
    moreover have r: "r \<in> set (cd_calls (w_chat (cn_now c1)))" "tc_id r = tc_id tc"
      using found_call [OF that(2)] by auto
    ultimately have old: "r \<in> set (cd_calls (w_chat (cn_now c)))" "tc_id r \<notin> pending_ids rs"
      using assms(3) unfolding applied_def by blast+
    have "get_tool_call (ti_call x) (w_chat (cn_now c)) = Some tc"
      using resolved [OF assms(2)] that(1) by blast
    then have "tc = r"
      using found_call assms(1) old(1) r(2) by (fastforce simp: distinct_map inj_on_def)
    then show False
      using old(2) that(1) \<open>tc_status r = Pending\<close> by blast
  qed
  moreover have "get_tool_call (tc_id tc) (w_chat (cn_now c1)) \<noteq> None" if "(x, tc) \<in> set rs" for x tc
  proof -
    have "get_tool_call (ti_call x) (w_chat (cn_now c)) = Some tc"
      using resolved [OF assms(2)] that by blast
    then have "tc_id tc \<in> set (map tc_id (cd_calls (w_chat (cn_now c1))))"
      using found_call assms(3) by (force simp: applied_def)
    then show ?thesis
      by (auto simp: get_tool_call_def find_None_iff)
  qed
  ultimately show ?thesis
    by (fastforce simp: all_done_def list_all_iff split: option.split)
qed

text \<open>
  C26. A finding. A batch that carries the last result a turn waits for, behind one delivered before, does not continue the turn: if an
  assistant step follows the earlier result, the request answers with that step as the final message and no provider is asked.
\<close>

theorem repeated_result_hides_new:
  assumes "distinct (map tc_id (cd_calls (w_chat (cn_now c))))"
    and "get_chat_session session user (w_chat (cn_now c)) = Some sess" and "(cs_backend sess = Some ''v2'') = v2"
    and "resolve_results session results None (w_chat (cn_now c)) = Inr ((x, old) # rs, Some message)"
    and "open_client_calls session message (w_chat (cn_now c)) \<noteq> []" and "\<not> turn_superseded session message (w_chat (cn_now c))"
    and "tc_id ` set (open_client_calls session message (w_chat (cn_now c))) \<subseteq> ti_call ` set results"
    and "answer_saved session message (tc_id old) p (w_chat (cn_now c))" and "render_saved_step session message p = Inr saved"
    and "tool_result env inp user session results v2 c = (r, c')"
  shows "cn_rounds c' = cn_rounds c \<and> (case r of Inl e \<Rightarrow> cn_saved c' = cn_saved c | Inr out \<Rightarrow> out = saved)"
proof (rule body_cases [of env inp user session results v2 c])
  fix e
  assume "tool_result_body env inp user session results v2 c = (Inl (Fails e), c)"
  then show ?thesis
    using assms(10) by (auto simp: tool_result_def rollback_def)
next
  fix sess' rs' message' t was_open
  assume res: "resolve_results session results None (w_chat (cn_now c)) = Inr (rs', Some message')"
    and t: "t = turn_of inp sess' user session message' (if v2 then generation_mode_for_message_step session message' (w_chat (cn_now c))
         else effective_generation_mode env ''general'' False) v2 (cn_now c)"
    and body: "tool_result_body env inp user session results v2 c =
         and_then (apply_results env t rs' c) (\<lambda>_. after_results inp sess' t rs' was_open)"
  have same: "rs' = (x, old) # rs" "message' = message"
    using res assms(4) by auto
  have here: "tn_session t = session" "tn_message t = message"
    by (simp_all add: t turn_of_def same)
  obtain r1 c1 where one: "apply_results env t rs' c = (r1, c1)"
    by (cases "apply_results env t rs' c")
  obtain ids where ids: "applied ids c c1" "r1 = Inr () \<longrightarrow> ids = pending_ids rs'"
    using applied_results [of c env t rs'] by (auto simp: one)
  show ?thesis
  proof (cases r1)
    case (Inl f)
    then show ?thesis
      using ids(1) assms(10) body one by (cases f) (auto simp: tool_result_def applied_def rollback_def)
  next
    case (Inr u)
    have "saved_in session message (tc_id old) p c1"
      using saved_results [of session message "tc_id old" p c env t rs'] assms(8) by (simp add: one saved_in_def)
    then have answer: "next_step_after session message (tc_id old) (w_chat (cn_now c1)) = Some p"
      by (simp add: saved_in_def answer_saved_def)
    have "set (open_client_calls session message (w_chat (cn_now c1))) = {}"
      unfolding applied_open [OF ids(1)]
    proof (intro equals0I, elim CollectE conjE)
      fix tc
      assume "tc \<in> set (open_client_calls session message (w_chat (cn_now c)))" and "tc_id tc \<notin> ids"
      then show False
        using open_resolved [OF assms(1) res] ids(2) Inr assms(7) by force
    qed
    moreover have "all_done rs' (w_chat (cn_now c1))"
      using batch_done [OF assms(1) res] ids Inr by simp
    ultimately have "after_results inp sess' t rs' was_open c1 = (Inr (Inl saved), c1)"
      using answer assms(9) by (simp add: after_results_def here Let_def same)
    then show ?thesis
      using assms(10) ids(1) Inr by (auto simp: tool_result_def body one applied_def commit_def)
  qed
qed

text \<open>
  A finding. The saved answer of a Chat Completions provider is stored as its message; its text reaches the history, but the
  replayed answer is empty.
\<close>

theorem replayed_message_empty:
  assumes "map_of (sp_payload p) ''content'' = Some (JArr [JObj [(''role'', JStr ''assistant''), (''content'', JStr (a # as))]])"
  shows "to_domain_blocks loads (jget ''content'' (sp_payload p)) = [text_block (a # as)]
    \<and> map_sum id ro_message (render_saved_step session message p) = Inr (Some [])"
  using assms by (simp add: render_saved_step_def to_domain_blocks_def is_chat_completions_message_def from_openai_assistant_message_def
    message_text_def is_openai_assistant_message_def jget_def)

section \<open>A turn with two calls\<close>

text \<open>A user asks, the model reads a file, the device answers call 20, the model reads another one and waits for call 21.\<close>

definition demo_reply :: "string \<Rightarrow> string \<Rightarrow> json_obj" where
  "demo_reply said i =
     [(''content'', JArr [text_block said, JObj [(''type'', JStr ''tool_use''), (''id'', JStr i), (''name'', JStr ''files.read'')]])]"

definition demo_row :: "nat \<Rightarrow> uuid \<Rightarrow> role \<Rightarrow> json_obj \<Rightarrow> chat_step" where
  "demo_row n message r payload = \<lparr>sp_id = of_nat (50 + n), sp_seq = n, sp_session = 5, sp_message = message, sp_role = r,
     sp_payload = payload, sp_usage = None\<rparr>"

definition demo_call :: "uuid \<Rightarrow> string \<Rightarrow> call_status \<Rightarrow> tool_call" where
  "demo_call i pid st = \<lparr>tc_id = i, tc_session = 5, tc_message = 7, tc_tool = ''files.read'', tc_provider_id = pid, tc_args = [],
     tc_status = st, tc_result = JNull, tc_created = 0\<rparr>"

definition demo_waiting :: "chat_step list \<Rightarrow> conn" where
  "demo_waiting later =
     demo_conn\<lparr>cn_now := demo_world\<lparr>w_chat := (w_chat demo_world)\<lparr>
       cd_steps := [demo_row 0 7 User [(''content'', JArr [text_block ''compare them''])], demo_row 1 7 Assistant (demo_reply ''first'' ''t1''),
         demo_row 2 7 Tool [(''toolCallId'', JStr (uuid_str 20))], demo_row 3 7 Assistant (demo_reply ''second'' ''t2'')] @ later,
       cd_next_seq := 9, cd_calls := [demo_call 20 ''t1'' Completed, demo_call 21 ''t2'' Pending]\<rparr>\<rparr>\<rparr>"

definition demo_inputs :: leg_inputs where
  "demo_inputs = \<lparr>in_cost = (\<lambda>_. 3), in_byok_key = (\<lambda>_ _. None), in_prompt = (\<lambda>_ _ _. []), in_policy_now = 0\<rparr>"

definition demo_in :: "uuid \<Rightarrow> tool_result_in" where
  "demo_in i = \<lparr>ti_call = i, ti_result = Some [], ti_error = None\<rparr>"

lemma demo_chat: "w_chat (cn_now (demo_waiting later)) = (w_chat demo_world)\<lparr>
       cd_steps := [demo_row 0 7 User [(''content'', JArr [text_block ''compare them''])], demo_row 1 7 Assistant (demo_reply ''first'' ''t1''),
         demo_row 2 7 Tool [(''toolCallId'', JStr (uuid_str 20))], demo_row 3 7 Assistant (demo_reply ''second'' ''t2'')] @ later,
       cd_next_seq := 9, cd_calls := [demo_call 20 ''t1'' Completed, demo_call 21 ''t2'' Pending]\<rparr>"
  by (simp add: demo_waiting_def)

lemma demo_facts:
  "distinct (map tc_id (cd_calls (w_chat (cn_now (demo_waiting later)))))"
  "open_client_calls 5 7 (w_chat (cn_now (demo_waiting later))) = [demo_call 21 ''t2'' Pending]"
  "get_tool_call 20 (w_chat (cn_now (demo_waiting later))) = Some (demo_call 20 ''t1'' Completed)"
  "get_tool_call 21 (w_chat (cn_now (demo_waiting later))) = Some (demo_call 21 ''t2'' Pending)"
  "get_chat_session 5 1 (w_chat (cn_now (demo_waiting later))) = cd_sessions (w_chat demo_world) 5"
  by (simp_all add: demo_chat demo_call_def open_client_calls_def list_tool_calls_for_step_def get_tool_call_def get_chat_session_def
    demo_world_def client_side_def SERVER_SIDE_TOOLS_def GLOBAL_SERVER_SIDE_TOOLS_def)

lemma demo_superseded:
  "turn_superseded 5 7 (w_chat (cn_now (demo_waiting [demo_row 4 8 User []])))"
  "\<not> turn_superseded 5 7 (w_chat (cn_now (demo_waiting [])))"
  by (simp_all add: turn_superseded_def assistant_tool_step_id_def turn_steps_def list_steps_def demo_chat demo_row_def)

lemma demo_resolved:
  "resolve_results 5 [demo_in 20, demo_in 21] None (w_chat (cn_now (demo_waiting later))) =
     Inr ([(demo_in 20, demo_call 20 ''t1'' Completed), (demo_in 21, demo_call 21 ''t2'' Pending)], Some 7)"
  using demo_facts by (simp add: demo_in_def) (simp add: demo_call_def)

theorem barrier_holds_witness:
  "\<exists>r c'. tool_result (demo_env noon) demo_inputs 1 5 [demo_in 20] True (demo_waiting []) = (r, c') \<and>
     awaits (demo_waiting []) {demo_call 21 ''t2'' Pending} r c'"
proof -
  obtain r c' where run: "tool_result (demo_env noon) demo_inputs 1 5 [demo_in 20] True (demo_waiting []) = (r, c')"
    by (cases "tool_result (demo_env noon) demo_inputs 1 5 [demo_in 20] True (demo_waiting [])")
  have "{tc \<in> set (open_client_calls 5 (tc_message (demo_call 20 ''t1'' Completed)) (w_chat (cn_now (demo_waiting [])))).
      tc_id tc \<notin> ti_call ` set [demo_in 20]} = {demo_call 21 ''t2'' Pending}"
    using demo_facts(2) [of "[]"] by (auto simp: demo_in_def demo_call_def)
  moreover have "awaits (demo_waiting []) {tc \<in> set (open_client_calls 5 (tc_message (demo_call 20 ''t1'' Completed)) (w_chat (cn_now (demo_waiting [])))).
      tc_id tc \<notin> ti_call ` set [demo_in 20]} r c'"
    by (rule barrier_holds [OF demo_facts(1) _ _ _ _ run, of "demo_in 20" _ "demo_call 21 ''t2'' Pending"])
      (use demo_facts [of "[]"] in \<open>simp_all add: demo_in_def demo_call_def\<close>)
  ultimately show ?thesis
    using run by auto
qed

theorem superseded_result_refused_witness:
  "fst (tool_result (demo_env noon) demo_inputs 1 5 [demo_in 20, demo_in 21] True (demo_waiting [demo_row 4 8 User []])) =
     Inl (Raised ConflictError ''tool call superseded by a newer user message'')"
proof -
  obtain sess where "cd_sessions (w_chat demo_world) 5 = Some sess" and "cs_backend sess = Some ''v2''"
    by (simp add: demo_world_def)
  then show ?thesis
    using superseded_result_refused [OF _ _ demo_resolved, of 1 "[demo_row 4 8 User []]" sess True] demo_superseded(1)
    by (simp add: demo_facts)
qed

theorem repeated_result_hides_new_witness:
  "\<exists>r c'. tool_result (demo_env noon) demo_inputs 1 5 [demo_in 20, demo_in 21] True (demo_waiting []) = (r, c') \<and> cn_rounds c' = 0 \<and>
     (\<forall>out. r = Inr out \<longrightarrow> ro_status out = Assistant_message \<and> ro_message out = Some ''second'')"
proof -
  obtain r c' where run: "tool_result (demo_env noon) demo_inputs 1 5 [demo_in 20, demo_in 21] True (demo_waiting []) = (r, c')"
    by (cases "tool_result (demo_env noon) demo_inputs 1 5 [demo_in 20, demo_in 21] True (demo_waiting [])")
  obtain sess where sess: "cd_sessions (w_chat demo_world) 5 = Some sess" "cs_backend sess = Some ''v2''"
    by (simp add: demo_world_def)
  have kept: "answer_saved 5 7 20 (demo_row 3 7 Assistant (demo_reply ''second'' ''t2'')) (w_chat (cn_now (demo_waiting [])))"
    by (simp add: answer_saved_def seq_fresh_def next_step_after_def first_non_marker_def turn_steps_def list_steps_def demo_chat
      demo_row_def demo_reply_def)
  obtain saved where saved: "render_saved_step 5 7 (demo_row 3 7 Assistant (demo_reply ''second'' ''t2'')) = Inr saved"
    and "ro_status saved = Assistant_message" "ro_message saved = Some ''second''"
    by (simp add: render_saved_step_def demo_row_def demo_reply_def text_block_def)
  moreover have "cn_rounds c' = cn_rounds (demo_waiting []) \<and> (case r of Inl e \<Rightarrow> cn_saved c' = cn_saved (demo_waiting []) | Inr out \<Rightarrow> out = saved)"
    by (rule repeated_result_hides_new [OF demo_facts(1) _ _ demo_resolved _ demo_superseded(2) _ _ saved run, of sess])
      (use sess kept in \<open>simp_all add: demo_facts\<close>, simp_all add: demo_call_def demo_in_def)
  ultimately show ?thesis
    using run by (auto simp: demo_waiting_def demo_conn_def)
qed

theorem replayed_message_empty_witness:
  "map_sum id ro_message (render_saved_step 5 7 (demo_row 3 7 Assistant [(''content'', JArr [JObj [(''role'', JStr ''assistant''), (''content'', JStr ''noon'')]])])) =
     Inr (Some [])"
  using replayed_message_empty [of "demo_row 3 7 Assistant [(''content'', JArr [JObj [(''role'', JStr ''assistant''), (''content'', JStr ''noon'')]])]"]
  by (simp add: demo_row_def)

end
