(* ===== verification/Chat_Context.thy ===== *)
theory Chat_Context
  imports Chat_History
begin

text \<open>
  The conversation settings of a message (\<open>context\<close> of a run): the block \<open>chat/orchestrator.py\<close> renders in front of the text of the user
  step, and the stripping of that block in \<open>chats/repository.py\<close>, before the text is shown again.
\<close>

section \<open>The block\<close>

definition CONTEXT_FREE_STRING_MAX :: "string \<rightharpoonup> nat" where
  "CONTEXT_FREE_STRING_MAX = [''codeLanguage'' \<mapsto> 200, ''tone'' \<mapsto> 40, ''locale'' \<mapsto> 35]"

definition CONTEXT_ENUMS :: "string \<rightharpoonup> string list" where
  "CONTEXT_ENUMS = [''responseStyle'' \<mapsto> [''concise'', ''balanced'', ''detailed''], ''verbosity'' \<mapsto> [''low'', ''medium'', ''high'']]"

definition context_locale_char :: "char \<Rightarrow> bool" where
  "context_locale_char c \<longleftrightarrow>
     c \<in> set ''abcdefghijklmnopqrstuvwxyzABCDEFGHIJKLMNOPQRSTUVWXYZ0123456789_-''"

definition CONTEXT_KEY_ORDER :: "string list" where
  "CONTEXT_KEY_ORDER = [''codeLanguage'', ''responseStyle'', ''verbosity'', ''tone'', ''locale'']"

definition sanitize_context_value :: "string \<Rightarrow> string" where
  "sanitize_context_value s =
     py_join_words (py_words [] (map (\<lambda>c. if c \<in> {CHR 10, CHR 13, CHR '';'', CHR ''=''} then CHR '' '' else c) s))"

definition validated_context_value :: "string \<Rightarrow> json \<Rightarrow> string option" where
  "validated_context_value key raw =
     (case raw of
        JStr s \<Rightarrow>
          (let v = py_strip s in
           if v = [] then None
           else case CONTEXT_ENUMS key of
             Some vs \<Rightarrow> if py_lower v \<in> set vs then Some (py_lower v) else None
           | None \<Rightarrow>
               if key = ''locale'' then (if 35 < length v \<or> \<not> list_all context_locale_char v then None else Some v)
               else case CONTEXT_FREE_STRING_MAX key of
                 None \<Rightarrow> None
               | Some n \<Rightarrow>
                   if n < length v then None
                   else (case sanitize_context_value v of [] \<Rightarrow> None | x # xs \<Rightarrow> Some (x # xs)))
      | _ \<Rightarrow> None)"

fun py_join :: "string \<Rightarrow> string list \<Rightarrow> string" where
  "py_join sep [] = []"
| "py_join sep [w] = w"
| "py_join sep (w # v # ws) = w @ sep @ py_join sep (v # ws)"

definition context_part :: "json_obj \<Rightarrow> string \<Rightarrow> string option" where
  "context_part context key =
     (case map_of context key of
        None \<Rightarrow> None
      | Some raw \<Rightarrow> map_option (\<lambda>v. key @ ''='' @ v) (validated_context_value key raw))"

definition CONTEXT_PREFIX :: string where
  "CONTEXT_PREFIX = ''[Conversation settings for this message: ''"

definition render_context_block :: "json_obj option \<Rightarrow> string option" where
  "render_context_block context =
     (case context of
        None \<Rightarrow> None
      | Some d \<Rightarrow> (case List.map_filter (context_part d) CONTEXT_KEY_ORDER of
            [] \<Rightarrow> None
          | p # ps \<Rightarrow> Some (CONTEXT_PREFIX @ py_join ''; '' (p # ps) @ '']'')))"

definition compose_turn0_text :: "string option \<Rightarrow> string \<Rightarrow> string" where
  "compose_turn0_text block msg =
     (if py_strip msg = [] then (case block of None \<Rightarrow> [] | Some b \<Rightarrow> b)
      else case block of None \<Rightarrow> msg | Some b \<Rightarrow> b @ [CHR 10, CHR 10] @ msg)"

section \<open>Stripping\<close>

text \<open>\<open>^\[Conversation settings for this message: [^\]]*\](?:\n\n|\Z)\<close>, replaced once.\<close>

definition strip_context_block :: "string \<Rightarrow> string" where
  "strip_context_block s =
     (if \<not> py_startswith CONTEXT_PREFIX s then s
      else case dropWhile (\<lambda>c. c \<noteq> CHR '']'') (drop (length CONTEXT_PREFIX) s) of
        [] \<Rightarrow> s
      | _ # tail \<Rightarrow> if tail = [] then [] else if py_startswith [CHR 10, CHR 10] tail then drop 2 tail else s)"

section \<open>The block is one line\<close>

definition no_newline :: "string \<Rightarrow> bool" where
  "no_newline s \<longleftrightarrow> CHR 10 \<notin> set s"

lemma join_words_plain: "(\<And>w. w \<in> set ws \<Longrightarrow> no_newline w) \<Longrightarrow> no_newline (py_join_words ws)"
  by (induction ws rule: py_join_words.induct) (auto simp: no_newline_def)

lemma words_plain: "x \<in> set (py_words w s) \<Longrightarrow> (\<And>c. c \<in> set w \<Longrightarrow> \<not> py_isspace c) \<Longrightarrow> c \<in> set x \<Longrightarrow> \<not> py_isspace c"
proof (induction w s rule: py_words.induct)
  case (2 w a cs)
  show ?case
  proof (cases "py_isspace a")
    case True
    then have "x \<in> set (py_words [] cs) \<or> x = w"
      using 2(3) by (auto split: if_splits)
    then show ?thesis
      using 2(1) [OF True] 2(4,5) by fastforce
  next
    case False
    then have "x \<in> set (py_words (w @ [a]) cs)"
      using 2(3) by simp
    then show ?thesis
      using 2(2) [OF False] 2(4,5) False by fastforce
  qed
qed (auto split: if_splits)

lemma newline_space: "py_isspace (CHR 10)"
  by (simp add: py_isspace_def)

lemma sanitized_plain: "no_newline (sanitize_context_value s)"
proof -
  have "no_newline w" if "w \<in> set (py_words [] t)" for w t
    using words_plain [OF that] newline_space by (auto simp: no_newline_def)
  then show ?thesis
    unfolding sanitize_context_value_def by (rule join_words_plain)
qed

lemma enums_plain: "CONTEXT_ENUMS key = Some vs \<Longrightarrow> list_all (\<lambda>v. no_newline v \<and> CHR '']'' \<notin> set v) vs"
  by (auto simp: CONTEXT_ENUMS_def no_newline_def split: if_splits)

lemma locale_chars: "\<not> context_locale_char (CHR 10)" "\<not> context_locale_char (CHR '']'')"
  unfolding context_locale_char_def by code_simp+

lemma locale_plain: "list_all context_locale_char v \<Longrightarrow> no_newline v \<and> CHR '']'' \<notin> set v"
  using locale_chars unfolding list_all_iff no_newline_def by blast

lemma validated_plain: "validated_context_value key raw = Some v \<Longrightarrow> no_newline v"
  using enums_plain [of key] locale_plain sanitized_plain
  by (auto simp: validated_context_value_def Let_def list_all_iff split: json.splits option.splits if_splits list.splits)

text \<open>Only the two free strings can hold a closing bracket.\<close>

lemma bracket_key: "validated_context_value key raw = Some v \<Longrightarrow> CHR '']'' \<in> set v \<Longrightarrow> key \<in> {''codeLanguage'', ''tone''}"
  using enums_plain [of key] locale_plain
  by (auto simp: validated_context_value_def Let_def list_all_iff CONTEXT_FREE_STRING_MAX_def split: json.splits option.splits if_splits)

section \<open>Rendering and stripping\<close>

lemma join_set: "set (py_join sep ws) \<subseteq> set sep \<union> \<Union> (set ` set ws)"
  by (induction sep ws rule: py_join.induct) auto

lemma join_contains: "w \<in> set ws \<Longrightarrow> set w \<subseteq> set (py_join sep ws)"
  by (induction sep ws rule: py_join.induct) auto

lemma dropWhile_to: "c \<notin> set xs \<Longrightarrow> dropWhile (\<lambda>x. x \<noteq> c) (xs @ c # ys) = c # ys"
  by (induction xs) auto

lemma bracketless_block:
  assumes "CHR '']'' \<notin> set inner"
  shows "strip_context_block (CONTEXT_PREFIX @ inner @ '']'') = []"
    and "strip_context_block ((CONTEXT_PREFIX @ inner @ '']'') @ [CHR 10, CHR 10] @ msg) = msg"
  using assms by (simp_all add: strip_context_block_def py_startswith_def dropWhile_to)

lemma dropWhile_at: "c \<in> set xs \<Longrightarrow> \<exists>ys. dropWhile (\<lambda>x. x \<noteq> c) (xs @ zs) = c # ys @ zs \<and> set ys \<subseteq> set xs"
proof (induction xs)
  case (Cons x xs)
  show ?case
  proof (cases "x = c")
    case False
    then obtain ys where "dropWhile (\<lambda>x. x \<noteq> c) (xs @ zs) = c # ys @ zs" and "set ys \<subseteq> set xs"
      using Cons by auto
    then show ?thesis
      using False by (intro exI [of _ ys]) auto
  qed auto
qed simp

lemma bracketed_block:
  assumes "CHR '']'' \<in> set inner" and "no_newline inner"
  shows "strip_context_block (CONTEXT_PREFIX @ inner @ CHR '']'' # rest) = CONTEXT_PREFIX @ inner @ CHR '']'' # rest"
proof -
  obtain ys where "dropWhile (\<lambda>x. x \<noteq> CHR '']'') (inner @ CHR '']'' # rest) = CHR '']'' # ys @ CHR '']'' # rest" and "set ys \<subseteq> set inner"
    using dropWhile_at [OF assms(1)] by blast
  moreover from this have "\<not> py_startswith [CHR 10, CHR 10] (ys @ CHR '']'' # rest)"
    using assms(2) by (cases ys) (auto simp: py_startswith_def no_newline_def)
  ultimately show ?thesis
    by (simp add: strip_context_block_def py_startswith_def)
qed

text \<open>What a key shows of itself in the block.\<close>

definition shown :: "json_obj \<Rightarrow> string \<Rightarrow> string option" where
  "shown d key = Option.bind (map_of d key) (validated_context_value key)"

lemma context_part_shown: "context_part d key = map_option (\<lambda>v. key @ ''='' @ v) (shown d key)"
  by (simp add: context_part_def shown_def split: option.split)

lemma keys_plain: "key \<in> set CONTEXT_KEY_ORDER \<Longrightarrow> no_newline key \<and> CHR '']'' \<notin> set key"
  by (auto simp: CONTEXT_KEY_ORDER_def no_newline_def)

lemma rendered:
  assumes "render_context_block (Some d) = Some b"
  obtains inner where "b = CONTEXT_PREFIX @ inner @ '']''" and "no_newline inner"
    and "CHR '']'' \<in> set inner \<longleftrightarrow> (\<exists>key \<in> {''codeLanguage'', ''tone''}. \<exists>v. shown d key = Some v \<and> CHR '']'' \<in> set v)"
proof -
  define parts where "parts = List.map_filter (context_part d) CONTEXT_KEY_ORDER"
  have b: "b = CONTEXT_PREFIX @ py_join ''; '' parts @ '']''"
    using assms by (auto simp: render_context_block_def parts_def split: list.splits)
  have parts: "w \<in> set parts \<longleftrightarrow> (\<exists>key \<in> set CONTEXT_KEY_ORDER. \<exists>v. shown d key = Some v \<and> w = key @ ''='' @ v)" for w
    unfolding parts_def List.map_filter_def context_part_shown by force
  have plain: "no_newline v" if "shown d key = Some v" for key v
    using that validated_plain by (auto simp: shown_def bind_eq_Some_conv)
  have "no_newline w" if "w \<in> set parts" for w
    using that plain keys_plain by (auto simp: parts no_newline_def)
  then have line: "no_newline (py_join ''; '' parts)"
    using join_set [of "''; ''" parts] by (auto simp: no_newline_def)
  have "CHR '']'' \<in> set (py_join ''; '' parts) \<longleftrightarrow> (\<exists>w \<in> set parts. CHR '']'' \<in> set w)"
    using join_set [of "''; ''" parts] join_contains [of _ parts "''; ''"] by auto
  also have "\<dots> \<longleftrightarrow> (\<exists>key \<in> set CONTEXT_KEY_ORDER. \<exists>v. shown d key = Some v \<and> CHR '']'' \<in> set (key @ ''='' @ v))"
    unfolding Bex_def parts by blast
  also have "\<dots> \<longleftrightarrow> (\<exists>key \<in> set CONTEXT_KEY_ORDER. \<exists>v. shown d key = Some v \<and> CHR '']'' \<in> set v)"
    using keys_plain by (intro bex_cong refl) auto
  also have "\<dots> \<longleftrightarrow> (\<exists>key \<in> {''codeLanguage'', ''tone''}. \<exists>v. shown d key = Some v \<and> CHR '']'' \<in> set v)"
    using bracket_key by (fastforce simp: shown_def bind_eq_Some_conv CONTEXT_KEY_ORDER_def)
  finally show ?thesis
    using that b line by blast
qed

text \<open>
  C27. The settings block a run renders in front of a message is removed again exactly: what is left is the message, or nothing when
  the message was blank. The exception is a free value, \<open>codeLanguage\<close> or \<open>tone\<close>, that holds a closing bracket: then the pattern
  does not match and the text keeps the whole block.
\<close>

theorem context_block_stripped:
  assumes "render_context_block (Some d) = Some b"
  shows "strip_context_block (compose_turn0_text (Some b) msg) =
    (if \<exists>key \<in> {''codeLanguage'', ''tone''}. \<exists>v. shown d key = Some v \<and> CHR '']'' \<in> set v then compose_turn0_text (Some b) msg
     else if py_strip msg = [] then [] else msg)"
proof -
  obtain inner where b: "b = CONTEXT_PREFIX @ inner @ '']''" and line: "no_newline inner"
    and iff: "CHR '']'' \<in> set inner \<longleftrightarrow> (\<exists>key \<in> {''codeLanguage'', ''tone''}. \<exists>v. shown d key = Some v \<and> CHR '']'' \<in> set v)"
    using rendered [OF assms] by blast
  show ?thesis
    using bracketed_block [OF _ line, of "[]"] bracketed_block [OF _ line, of "[CHR 10, CHR 10] @ msg"] bracketless_block [of inner]
    unfolding iff [symmetric] b by (cases "CHR '']'' \<in> set inner") (auto simp: compose_turn0_text_def)
qed

theorem context_block_stripped_witness:
  "strip_context_block (compose_turn0_text (render_context_block (Some [(''tone'', JStr ''dry'')])) ''hi'') = ''hi''
   \<and> strip_context_block (compose_turn0_text (render_context_block (Some [(''tone'', JStr ''dry]'')])) ''hi'') \<noteq> ''hi''"
proof (rule conjI)
  have dry: "render_context_block (Some [(''tone'', JStr ''dry'')]) = Some (CONTEXT_PREFIX @ ''tone=dry]'')"
    and bracket: "render_context_block (Some [(''tone'', JStr ''dry]'')]) = Some (CONTEXT_PREFIX @ ''tone=dry]]'')"
    and shows_tone: "shown [(''tone'', JStr ''dry'')] ''tone'' = Some ''dry''" "shown [(''tone'', JStr ''dry]'')] ''tone'' = Some ''dry]''"
      "shown [(''tone'', v)] ''codeLanguage'' = None" for v
    by (code_simp | simp add: shown_def)+
  show "strip_context_block (compose_turn0_text (render_context_block (Some [(''tone'', JStr ''dry'')])) ''hi'') = ''hi''"
    unfolding dry context_block_stripped [OF dry] using shows_tone by (simp add: py_strip_def strip_by_def py_isspace_def)
  show "strip_context_block (compose_turn0_text (render_context_block (Some [(''tone'', JStr ''dry]'')])) ''hi'') \<noteq> ''hi''"
    unfolding bracket context_block_stripped [OF bracket] using shows_tone by (simp add: compose_turn0_text_def CONTEXT_PREFIX_def)
qed

end
