(* ===== verification/Chat_Run.thy ===== *)
theory Chat_Run
  imports Chat_Barrier Chat_Context
begin

text \<open>
  \<open>ChatOrchestrator.run\<close> without a voice message and without the media wizard: opening or creating the session, editing an
  earlier turn, the user step, and the first leg. Arguments (\<open>run_inputs\<close>): the settings a new session is checked against, the
  preparation and the moderation of attachments, and what is only read for the system prompt.
\<close>

section \<open>Arguments\<close>

record prepared_attachments =
  pp_placeholders :: "json list"
  pp_has_images :: bool
  pp_parts :: "json option"

record chat_request =
  cr_session :: "uuid option"
  cr_message :: string
  cr_mode :: string
  cr_assistant_mode :: "string option"
  cr_model :: "string option"
  cr_character :: "string option"
  cr_workspace :: "uuid option"
  cr_project :: "string option"
  cr_context :: "json_obj option"
  cr_edit :: "uuid option"
  cr_attachments :: "json list"
  cr_generation_mode :: string
  cr_v2 :: bool
  cr_temporary :: bool
  cr_resume_only :: bool

record run_inputs =
  ri_leg :: leg_inputs
  ri_soft_ttl :: int
  ri_now :: instant
  ri_selectable :: "string \<Rightarrow> bool"
  ri_characters :: bool
  ri_known_character :: "string \<Rightarrow> bool"
  ri_owns_workspace :: "uuid \<Rightarrow> uuid \<Rightarrow> world \<Rightarrow> bool"
  ri_default_assistant_mode :: "uuid \<Rightarrow> world \<Rightarrow> string"
  ri_as_request :: "chat_attachment \<Rightarrow> json"
  ri_placeholder_suffix :: string
  ri_prepare :: "json list \<Rightarrow> exn + prepared_attachments"
  ri_moderate :: "string \<Rightarrow> json list \<Rightarrow> exn option"
  ri_records :: "json list \<Rightarrow> uuid \<Rightarrow> uuid \<Rightarrow> json list \<times> chat_attachment list"
  ri_prompt :: "chat_request \<Rightarrow> bool \<Rightarrow> bool \<Rightarrow> uuid \<Rightarrow> world \<Rightarrow> exn + string"
  ri_first_turn :: "prepared_attachments option \<Rightarrow> uuid \<Rightarrow> world \<Rightarrow> json option"

section \<open>The session\<close>

definition on_world :: "(world \<Rightarrow> (exn, 'a, world) outcome) \<Rightarrow> 'a leg" where
  "on_world f c = (case f (cn_now c) of (r, w) \<Rightarrow> (lift_fault r, c\<lparr>cn_now := w\<rparr>))"

definition quoted :: "string \<Rightarrow> string \<Rightarrow> string" where
  "quoted what name = what @ '' '' @ [CHR 0x27] @ name @ [CHR 0x27] @ '' is not available on this instance''"

text \<open>The refusals of a field that a new session would fix.\<close>

definition creation_refused :: "run_inputs \<Rightarrow> uuid \<Rightarrow> chat_request \<Rightarrow> world \<Rightarrow> exn option" where
  "creation_refused inp user rq w =
     (case map_option py_strip (cr_model rq) of
        Some m \<Rightarrow> if \<not> ri_selectable inp m then Some (Raised ValidationFailedError (quoted ''model'' m)) else None
      | None \<Rightarrow> None)"

definition character_refused :: "run_inputs \<Rightarrow> chat_request \<Rightarrow> exn option" where
  "character_refused inp rq =
     (case map_option py_strip (cr_character rq) of
        Some ch \<Rightarrow>
          if \<not> ri_characters inp then Some (Raised CharactersDisabledError ''character selection is not enabled on this instance'')
          else if \<not> ri_known_character inp ch then Some (Raised UnknownCharacterError (quoted ''character'' ch)) else None
      | None \<Rightarrow> None)"

definition workspace_refused :: "run_inputs \<Rightarrow> uuid \<Rightarrow> chat_request \<Rightarrow> world \<Rightarrow> exn option" where
  "workspace_refused inp user rq w =
     (case cr_workspace rq of
        Some i \<Rightarrow> if \<not> ri_owns_workspace inp i user w then Some (Raised WorkspaceNotFoundError ''workspace not found'') else None
      | None \<Rightarrow> None)"

definition session_refused :: "run_inputs \<Rightarrow> uuid \<Rightarrow> chat_request \<Rightarrow> world \<Rightarrow> exn option" where
  "session_refused inp user rq w =
     (case creation_refused inp user rq w of Some e \<Rightarrow> Some e
      | None \<Rightarrow> (case character_refused inp rq of Some e \<Rightarrow> Some e | None \<Rightarrow> workspace_refused inp user rq w))"

definition new_session_row :: "run_inputs \<Rightarrow> uuid \<Rightarrow> chat_request \<Rightarrow> bool \<Rightarrow> string option \<Rightarrow> world \<Rightarrow> chat_session" where
  "new_session_row inp user rq will_create title w =
     \<lparr>cs_user = user, cs_project = cr_project rq, cs_mode = cr_mode rq,
      cs_assistant_mode = (case cr_assistant_mode rq of Some m \<Rightarrow> m | None \<Rightarrow> ri_default_assistant_mode inp user w),
      cs_title = title, cs_model = map_option py_strip (cr_model rq),
      cs_character = (if will_create then map_option py_strip (cr_character rq) else None),
      cs_workspace = (if will_create then cr_workspace rq else None), cs_provider_state = None,
      cs_backend = Some (if cr_v2 rq then ''v2'' else ''legacy''), cs_pinned = False, cs_temporary = (will_create \<and> cr_temporary rq), cs_updated = ri_now inp\<rparr>"

definition open_session :: "turn_env \<Rightarrow> run_inputs \<Rightarrow> uuid \<Rightarrow> chat_request \<Rightarrow> string option \<Rightarrow> (uuid \<times> bool) leg" where
  "open_session env inp user rq title c =
     (let w = cn_now c;
          will_create = (\<not> cr_resume_only rq \<and> will_create_session (ri_soft_ttl inp) (ri_now inp) user (cr_session rq) (w_chat w)) in
      case (if will_create then session_refused inp user rq w else None) of
        Some e \<Rightarrow> (Inl (Fails e), c)
      | None \<Rightarrow>
          and_then (draw env c) (\<lambda>new_id c.
          and_then (on_world (get_or_create_session (ri_soft_ttl inp) (ri_now inp) user (cr_session rq) (cr_resume_only rq) new_id
            (new_session_row inp user rq will_create title w)) c) (\<lambda>res c.
          and_then (on_chat (ensure_session_backend (fst res) (cr_v2 rq) (cr_v2 rq)) c) (\<lambda>_ c. (Inr res, c)))))"

section \<open>An edited turn\<close>

definition is_attachment_placeholder :: "string \<Rightarrow> string \<Rightarrow> bool" where
  "is_attachment_placeholder suffix s \<longleftrightarrow> py_startswith ''[attachment: '' s \<and> py_endswith suffix s"

text \<open>\<open>str(first.get("text") or "")\<close>; the text of a stored block is a string.\<close>

definition inherited_message :: "string \<Rightarrow> uuid \<Rightarrow> uuid \<Rightarrow> chat_db \<Rightarrow> string" where
  "inherited_message suffix session message s =
     (case user_step_payload session message s of
        None \<Rightarrow> []
      | Some payload \<Rightarrow>
          (case jget ''content'' payload of
             JArr (JObj first # _) \<Rightarrow>
               if jget ''type'' first \<noteq> JStr ''text'' then []
               else (case jget ''text'' first of
                   JStr t \<Rightarrow> if is_attachment_placeholder suffix t then [] else strip_context_block t
                 | _ \<Rightarrow> [])
           | _ \<Rightarrow> []))"

text \<open>The request as the edit completes it, with what it inherited; then everything from the edited turn on is gone.\<close>

definition edit_turn :: "run_inputs \<Rightarrow> uuid \<Rightarrow> bool \<Rightarrow> chat_request \<Rightarrow> (chat_request \<times> bool) leg" where
  "edit_turn inp session is_new rq c =
     (case cr_edit rq of
        None \<Rightarrow> (Inr (rq, False), c)
      | Some message \<Rightarrow>
          if is_new then (Inl (Fails (Raised MessageNotFoundError ''message_not_found'')), c)
          else (let s = w_chat (cn_now c);
                    stored = map (ri_as_request inp) (turn_attachments session message s);
                    inherits = (cr_attachments rq = [] \<and> stored \<noteq> []);
                    files = (if cr_attachments rq = [] then stored else cr_attachments rq);
                    reply = (if py_strip (cr_message rq) = [] then inherited_message (ri_placeholder_suffix inp) session message s else cr_message rq) in
                if py_strip reply = [] \<and> files = []
                then (Inl (Fails (Raised ValidationFailedError ''message or at least one attachment is required'')), c)
                else and_then (on_chat (\<lambda>s. case truncate_from_message_step session message s of
                    (None, s') \<Rightarrow> (Inl (Raised MessageNotFoundError ''message_not_found''), s')
                  | (Some n, s') \<Rightarrow> (Inr (), clear_provider_state session s')) c) (\<lambda>_ c.
                  (Inr (rq\<lparr>cr_message := reply, cr_attachments := files\<rparr>, inherits), c))))"

section \<open>The user step\<close>

definition user_step_content :: "chat_request \<Rightarrow> prepared_attachments option \<Rightarrow> json list" where
  "user_step_content rq prepared =
     (let t = compose_turn0_text (render_context_block (cr_context rq)) (cr_message rq) in
      (if t = [] then [] else [text_block t]) @ (case prepared of None \<Rightarrow> [] | Some p \<Rightarrow> pp_placeholders p))"

definition prepare_turn :: "run_inputs \<Rightarrow> chat_request \<Rightarrow> bool \<Rightarrow> exn + prepared_attachments option" where
  "prepare_turn inp rq inherited =
     (if cr_attachments rq = [] then Inr None
      else case ri_prepare inp (cr_attachments rq) of
        Inl e \<Rightarrow> Inl e
      | Inr p \<Rightarrow>
          (case (if inherited then None else ri_moderate inp (cr_message rq) (cr_attachments rq)) of Some e \<Rightarrow> Inl e | None \<Rightarrow> Inr (Some p)))"

definition user_payload :: "chat_request \<Rightarrow> prepared_attachments option \<Rightarrow> json list \<Rightarrow> json_obj" where
  "user_payload rq prepared refs =
     [(''content'', JArr (user_step_content rq prepared))]
     @ (if cr_v2 rq then [(''generationMode'', JStr (cr_generation_mode rq))] else [])
     @ (if refs = [] then [] else [(''attachmentRefs'', JArr refs)])"

definition attachment_records :: "run_inputs \<Rightarrow> chat_request \<Rightarrow> uuid \<Rightarrow> uuid \<Rightarrow> json list \<times> chat_attachment list" where
  "attachment_records inp rq session message =
     (if cr_attachments rq = [] then ([], []) else ri_records inp (cr_attachments rq) session message)"

definition store_user_step :: "turn_env \<Rightarrow> turn \<Rightarrow> chat_request \<Rightarrow> prepared_attachments option \<Rightarrow> json list \<times> chat_attachment list \<Rightarrow> unit leg" where
  "store_user_step env t rq prepared rows c =
     and_then (store_step env t User (user_payload rq prepared (fst rows)) None c) (\<lambda>_ c.
       on_chat (\<lambda>s. (Inr (), add_attachments (snd rows) s)) c)"

section \<open>The run\<close>

definition opened_turn :: "turn_env \<Rightarrow> chat_session \<Rightarrow> uuid \<Rightarrow> uuid \<Rightarrow> uuid \<Rightarrow> chat_request \<Rightarrow> string \<Rightarrow> json option \<Rightarrow> turn" where
  "opened_turn env sess user session message rq prompt files =
     \<lparr>tn_user = user, tn_session = session, tn_message = message, tn_mode = session_mode sess,
      tn_billing = \<lparr>bp_debit = False, bp_trial = False, bp_amount = 0, bp_expose = cr_v2 rq\<rparr>, tn_api_key = None, tn_byok_provider = None,
      tn_system_prompt = prompt, tn_has_project = (cs_project sess \<noteq> None), tn_attachments = files,
      tn_model = (case cs_model sess of Some (x # xs) \<Rightarrow> Some (x # xs) | _ \<Rightarrow> None),
      tn_generation_mode = effective_generation_mode env (cr_generation_mode rq) (cr_v2 rq), tn_v2 = cr_v2 rq\<rparr>"

definition run_opened :: "turn_env \<Rightarrow> run_inputs \<Rightarrow> uuid \<Rightarrow> uuid \<Rightarrow> uuid \<Rightarrow> bool \<Rightarrow> chat_request \<Rightarrow> (chat_run_out + turn) leg" where
  "run_opened env inp user message session is_new rq0 c =
     and_then (edit_turn inp session is_new rq0 c) (\<lambda>edited c. case edited of (rq, inherited) \<Rightarrow>
       (case cd_sessions (w_chat (cn_now c)) session of
          None \<Rightarrow> (Inl (Fails (DbFault ForeignKeyViolation)), c)
        | Some sess \<Rightarrow>
            (case prepare_turn inp rq inherited of
               Inl e \<Rightarrow> (Inl (Fails e), c)
             | Inr prepared \<Rightarrow>
                 (case ri_prompt inp rq is_new (case prepared of None \<Rightarrow> False | Some p \<Rightarrow> pp_has_images p) session (cn_now c) of
                    Inl e \<Rightarrow> (Inl (Fails e), c)
                  | Inr prompt \<Rightarrow>
                      (let t = opened_turn env sess user session message rq prompt (ri_first_turn inp prepared session (cn_now c)) in
                       and_then (store_user_step env t rq prepared (attachment_records inp rq session message) c)
                         (\<lambda>_. admit_turn (ri_leg inp) t))))))"

definition run_body :: "turn_env \<Rightarrow> run_inputs \<Rightarrow> uuid \<Rightarrow> chat_request \<Rightarrow> (chat_run_out + turn) leg" where
  "run_body env inp user rq c =
     and_then (draw env c) (\<lambda>message c.
     and_then (open_session env inp user rq (derive_title (cr_message rq)) c) (\<lambda>res.
       run_opened env inp user message (fst res) (snd res) rq))"

definition run_turn :: "turn_env \<Rightarrow> run_inputs \<Rightarrow> uuid \<Rightarrow> chat_request \<Rightarrow> conn \<Rightarrow> (exn, chat_run_out, conn) outcome" where
  "run_turn env inp user rq c =
     (case run_body env inp user rq c of
        (Inr (Inl out), c') \<Rightarrow> (Inr out, commit c')
      | (Inr (Inr t), c') \<Rightarrow> run_leg env t (case Option.bind (cr_context rq) (\<lambda>d. map_of d ''locale'') of
            None \<Rightarrow> None | Some v \<Rightarrow> validated_context_value ''locale'' v) c'
      | (Inl (Fails e), c') \<Rightarrow> (Inl e, rollback c')
      | (Inl (Interrupted _ _ _), c') \<Rightarrow> (Inl (PyFault ''TurnInterrupted''), rollback c'))"

end
