(* ===== verification/Chat_Account.thy ===== *)
theory Chat_Account
  imports Chat_Charge
begin

text \<open>
  The account of a user, seen from one message: the ledger rows under the key of the message, the rows under other keys, and the
  balance. What a leg does to it: it posts no row but its own debit, and the wallet moves by exactly the rows.
\<close>

section \<open>The account\<close>

definition own_rows :: "uuid \<Rightarrow> uuid \<Rightarrow> world \<Rightarrow> ledger_tx list" where
  "own_rows user message w = filter (\<lambda>x. tx_user x = user \<and> tx_key x = uuid_str message) (ledger (w_db w))"

definition other_rows :: "uuid \<Rightarrow> uuid \<Rightarrow> world \<Rightarrow> ledger_tx list" where
  "other_rows user message w = filter (\<lambda>x. tx_user x = user \<and> tx_key x \<noteq> uuid_str message) (ledger (w_db w))"

text \<open>
  Between two worlds, the message posted the rows \<open>own\<close>, other rows were posted which all satisfy \<open>foreign\<close>, and the balance
  moved by what was posted.
\<close>

definition accounts_for :: "(ledger_tx \<Rightarrow> bool) \<Rightarrow> uuid \<Rightarrow> uuid \<Rightarrow> ledger_tx list \<Rightarrow> world \<Rightarrow> world \<Rightarrow> bool" where
  "accounts_for foreign user message own w w' \<longleftrightarrow>
     own_rows user message w' = own_rows user message w @ own
     \<and> (\<exists>xs. list_all foreign xs \<and> other_rows user message w' = other_rows user message w @ xs
          \<and> current_balance user (w_db w') = current_balance user (w_db w) + net user (xs @ own))"

lemma net_both [simp]: "net u (xs @ ys) = net u xs + net u ys"
  by (simp add: net_def)

lemma net_Nil [simp]: "net u [] = 0"
  by (simp add: net_def)

lemma accounts_refl: "accounts_for foreign user message [] w w"
  by (auto simp: accounts_for_def)

lemma accounts_trans:
  assumes "accounts_for foreign user message own w w1" and "accounts_for foreign user message own' w1 w2"
  shows "accounts_for foreign user message (own @ own') w w2"
proof -
  obtain xs ys where "list_all foreign xs" "other_rows user message w1 = other_rows user message w @ xs"
      "current_balance user (w_db w1) = current_balance user (w_db w) + net user (xs @ own)"
    and "list_all foreign ys" "other_rows user message w2 = other_rows user message w1 @ ys"
      "current_balance user (w_db w2) = current_balance user (w_db w1) + net user (ys @ own')"
    using assms unfolding accounts_for_def by blast
  then have "list_all foreign (xs @ ys) \<and> other_rows user message w2 = other_rows user message w @ (xs @ ys)
      \<and> current_balance user (w_db w2) = current_balance user (w_db w) + net user ((xs @ ys) @ (own @ own'))"
    by simp
  moreover have "own_rows user message w2 = own_rows user message w @ (own @ own')"
    using assms by (simp add: accounts_for_def)
  ultimately show ?thesis
    unfolding accounts_for_def by blast
qed

lemmas accounts_quiet = accounts_trans [where own' = "[]", simplified]

definition same_account :: "uuid \<Rightarrow> db \<Rightarrow> db \<Rightarrow> bool" where
  "same_account user s s' \<longleftrightarrow> ledger s' = ledger s \<and> current_balance user s' = current_balance user s"

lemma accounts_same:
  assumes "accounts_for foreign user message own w w1" and "same_account user (w_db w1) (w_db w2)"
  shows "accounts_for foreign user message own w w2"
  using assms by (simp add: accounts_for_def same_account_def own_rows_def other_rows_def)

lemma accounts_chat [simp]:
  "accounts_for foreign user message own w (w1\<lparr>w_chat := s\<rparr>) = accounts_for foreign user message own w w1"
  by (simp add: accounts_for_def own_rows_def other_rows_def)

text \<open>The invariant: both worlds of a connection account for the rows since \<open>w0\<close>.\<close>

definition account_at :: "(ledger_tx \<Rightarrow> bool) \<Rightarrow> uuid \<Rightarrow> uuid \<Rightarrow> ledger_tx list \<Rightarrow> world \<Rightarrow> conn \<Rightarrow> bool" where
  "account_at foreign user message own w0 c \<longleftrightarrow>
     accounts_for foreign user message own w0 (cn_now c) \<and> accounts_for foreign user message own w0 (cn_saved c)"

lemma account_simps [simp]:
  "account_at foreign user message own w0 (c\<lparr>cn_now := (cn_now c)\<lparr>w_chat := s\<rparr>\<rparr>) = account_at foreign user message own w0 c"
  "account_at foreign user message own w0 (c\<lparr>cn_draws := n\<rparr>) = account_at foreign user message own w0 c"
  "account_at foreign user message own w0 (c\<lparr>cn_calls := n\<rparr>) = account_at foreign user message own w0 c"
  "account_at foreign user message own w0 c \<Longrightarrow> account_at foreign user message own w0 (commit c)"
  "account_at foreign user message own w0 c \<Longrightarrow> account_at foreign user message own w0 (rollback c)"
  "account_at foreign user message own w0 (snd (on_chat f c)) = account_at foreign user message own w0 c"
  "account_at foreign user message own w0 (snd (draw env c)) = account_at foreign user message own w0 c"
  by (simp_all add: account_at_def commit_def rollback_def on_chat_def draw_def split: prod.split)

lemma account_on_db:
  assumes "account_at foreign user message own w0 c" and "\<And>s. same_account user s (snd (f s))"
  shows "account_at foreign user message own w0 (snd (on_db f c))"
proof -
  obtain r s where run: "f (w_db (cn_now c)) = (r, s)"
    by fastforce
  then have "same_account user (w_db (cn_now c)) s"
    using assms(2) [of "w_db (cn_now c)"] by simp
  then show ?thesis
    using assms(1) accounts_same [of foreign user message own w0 "cn_now c" "(cn_now c)\<lparr>w_db := s\<rparr>"]
    by (simp add: account_at_def on_db_def run)
qed

lemma audit_same_account: "same_account user s (snd (audit_record u i e p s))"
  by (cases rule: audit_record_cases [of u i e p s]) (simp_all add: same_account_def current_balance_def)

lemma account_audit [simp]: "account_at foreign user message own w0 c \<Longrightarrow> account_at foreign user message own w0 (snd (audit_turn t e p c))"
  unfolding audit_turn_def by (rule account_on_db) (auto simp: audit_same_account)

text \<open>
  What is asked of the tools and of the requests that run meanwhile: they post no row under the key of the message, every row they
  post satisfies \<open>foreign\<close>, and the balance follows the rows.
\<close>

definition posts_apart :: "(ledger_tx \<Rightarrow> bool) \<Rightarrow> uuid \<Rightarrow> uuid \<Rightarrow> turn_env \<Rightarrow> bool" where
  "posts_apart foreign user message env \<longleftrightarrow>
     (\<forall>n w. accounts_for foreign user message [] w (te_meanwhile env n w))
     \<and> (\<forall>n rq w. accounts_for foreign user message [] w (snd (te_tool env n rq w)))"

lemma account_elapse:
  "posts_apart foreign user message env \<Longrightarrow> account_at foreign user message own w0 c \<Longrightarrow> account_at foreign user message own w0 (elapse env c)"
  by (auto simp: elapse_def Let_def account_at_def posts_apart_def intro: accounts_quiet)

lemma account_tool:
  assumes "posts_apart foreign user message env" and "account_at foreign user message own w0 c"
  shows "account_at foreign user message own w0 (snd (on_tool env rq c))"
proof -
  obtain r w where run: "te_tool env (cn_draws c) rq (cn_now c) = (r, w)"
    by fastforce
  then have "accounts_for foreign user message [] (cn_now c) w"
    using assms(1) unfolding posts_apart_def by (metis snd_conv)
  then show ?thesis
    using assms(2) accounts_quiet by (auto simp: on_tool_def run account_at_def)
qed

definition account_kept :: "(ledger_tx \<Rightarrow> bool) \<Rightarrow> turn_env \<Rightarrow> turn \<Rightarrow> ledger_tx list \<Rightarrow> world \<Rightarrow> conn \<Rightarrow> bool" where
  "account_kept foreign env t own w0 c \<longleftrightarrow>
     (posts_apart foreign (tn_user t) (tn_message t) env \<longrightarrow> account_at foreign (tn_user t) (tn_message t) own w0 c)"

lemma expired_same_account: "same_account user s (snd (mark_expired u s))"
  by (cases "byok_keys s u") (use audit_same_account in \<open>simp_all add: mark_expired_def same_account_def current_balance_def\<close>)

interpretation account: leg_keeps env t "account_kept foreign env t own w0" for env t foreign own w0
proof
  fix c n event pl rq i r payload usage tool args provider_id now st res provider lr
  assume P: "account_kept foreign env t own w0 c"
  then show "account_kept foreign env t own w0 (snd (on_chat (add_step i (tn_session t) (tn_message t) r payload usage) c))"
    "account_kept foreign env t own w0 (snd (on_chat (create_tool_call i (tn_session t) (tn_message t) tool args provider_id now) c))"
    "account_kept foreign env t own w0 (snd (on_chat (\<lambda>s. case complete_tool_call i st res s of (_, s') \<Rightarrow> (Inr (), s')) c))"
    "account_kept foreign env t own w0 (c\<lparr>cn_draws := n\<rparr>)" "account_kept foreign env t own w0 (commit c)"
    "account_kept foreign env t own w0 (c\<lparr>cn_calls := n\<rparr>)" "account_kept foreign env t own w0 (snd (audit_turn t event pl c))"
    "account_kept foreign env t own w0 (c\<lparr>cn_now := (cn_now c)\<lparr>w_chat := maybe_update_provider_state t provider lr (w_chat (cn_now c))\<rparr>\<rparr>)"
    by (simp_all add: account_kept_def)
  show "account_kept foreign env t own w0 (elapse env c)" "account_kept foreign env t own w0 (snd (on_tool env rq c))"
    using P by (simp_all add: account_kept_def account_elapse account_tool)
  show "account_kept foreign env t own w0 (snd (on_db (mark_expired (tn_user t)) c))"
    using P by (auto simp: account_kept_def intro!: account_on_db expired_same_account)
qed

section \<open>The debit\<close>

text \<open>The rows of a message: as they were with nothing spent, or one debit of what was spent where there was none.\<close>

definition own_moved :: "ledger_tx list \<Rightarrow> int \<Rightarrow> ledger_tx list \<Rightarrow> bool" where
  "own_moved own spent own' \<longleftrightarrow>
     spent = 0 \<and> own' = own
     \<or> own = [] \<and> 0 < spent \<and> (\<exists>tx. own' = [tx] \<and> tx_type tx = Debit \<and> tx_amount tx = spent)"

lemma own_rows_user: "x \<in> set (own_rows user message w) \<Longrightarrow> tx_user x = user"
  by (simp add: own_rows_def)

lemma net_own:
  assumes "own_rows user message w = [tx]" and "tx_type tx = Debit"
  shows "net user [tx] = - tx_amount tx"
  using own_rows_user [of tx user message w] assms by (simp add: net_def signed_amount_def)

lemma own_still [simp]: "own_moved own 0 own' \<longleftrightarrow> own' = own"
  by (auto simp: own_moved_def)

definition debit_posted :: "uuid \<Rightarrow> string \<Rightarrow> int \<Rightarrow> db \<Rightarrow> db \<Rightarrow> bool" where
  "debit_posted u key amount s s' \<longleftrightarrow>
     existing_tx u key s = None \<and> 0 < amount \<and> current_balance u s' = current_balance u s - amount
     \<and> (\<exists>tx. ledger s' = ledger s @ [tx] \<and> tx_user tx = u \<and> tx_key tx = key \<and> tx_type tx = Debit \<and> tx_amount tx = amount)"

definition consumed :: "uuid \<Rightarrow> string \<Rightarrow> int \<Rightarrow> db \<Rightarrow> (exn, ledger_result, db) outcome \<Rightarrow> bool" where
  "consumed u key amount s m \<longleftrightarrow>
     (case fst m of
        Inr res \<Rightarrow> if idempotent_replay res then same_account u s (snd m) else debit_posted u key amount s (snd m)
      | Inl e \<Rightarrow> raised_as InsufficientCreditsError e \<or> (\<exists>f. e = DbFault f) \<or> same_account u s (snd m))"

lemma same_account_refl [simp]: "same_account u s s"
  by (simp add: same_account_def)

lemma consumed_error: "same_account u s s' \<Longrightarrow> consumed u key amount s (Inl e, s')"
  by (simp add: consumed_def)

lemma consumed_fault: "consumed u key amount s (Inl (DbFault f), s')"
  by (simp add: consumed_def)

lemma consumed_insufficient: "consumed u key amount s (Inl (Raised InsufficientCreditsError m), s')"
  by (simp add: consumed_def)

lemma consumed_replay: "same_account u s v \<Longrightarrow> consumed u key amount s (replay u Debit amount key v)"
  by (simp add: consumed_def replay_def split: option.split)

lemma consumed_posted:
  assumes "existing_tx u key s = None" and "same_account u s v" and "0 < amount"
    and "v' = v\<lparr>ledger := ledger v @ [\<lparr>tx_id = i, tx_user = u, tx_type = Debit, tx_amount = amount, tx_meta = meta, tx_key = key,
            tx_created_at = at\<rparr>], next_id := n\<rparr>"
  shows "consumed u key amount s
    (and_then (debit_wallet u amount v') (\<lambda>updated s. case updated of
       None \<Rightarrow> (Inl (Raised InsufficientCreditsError m), s)
     | Some b \<Rightarrow> and_then (audit_record (Some u) session event (p b) s) (\<lambda>_ s.
         (Inr \<lparr>new_balance = b, ledger_tx_id = i, idempotent_replay = False\<rparr>, s))))"
proof (cases "wallets v' u")
  case None
  then show ?thesis
    by (simp add: debit_wallet_def consumed_insufficient)
next
  case (Some b)
  define z where "z = v'\<lparr>wallets := (wallets v')(u \<mapsto> b - amount)\<rparr>"
  have row: "debit_posted u key amount s z'" if "same_account u z z'" for z'
    using that assms Some by (auto simp: debit_posted_def same_account_def z_def current_balance_def)
  show ?thesis
  proof (cases "amount \<le> b")
    case True
    show ?thesis
      using Some True row [OF audit_same_account]
      by (cases rule: audit_record_cases [of "Some u" session event "p (b - amount)" z])
        (simp_all add: debit_wallet_def z_def [symmetric] consumed_fault, simp add: consumed_def, metis snd_conv)
  qed (use Some in \<open>simp add: debit_wallet_def consumed_insufficient\<close>)
qed

lemma ensured_same_account: "same_account u s (snd (ensure_wallet u s))"
  by (auto simp: ensure_wallet_def same_account_def current_balance_def)

lemma consumed_checked:
  assumes "0 < amount"
  shows "consumed u key amount s (consume_checked u amount key meta session s)"
proof -
  obtain r v where wallet: "ensure_wallet u s = (r, v)"
    by fastforce
  then have same: "same_account u s v"
    using ensured_same_account [of u s] by simp
  then have existing: "existing_tx u key v = existing_tx u key s"
    by (simp add: same_account_def existing_tx_def)
  show ?thesis
  proof (cases r)
    case (Inl e)
    then show ?thesis
      using wallet by (auto simp: consume_checked_def ensure_wallet_def consumed_fault split: if_splits)
  next
    case (Inr x)
    then have run: "consume_checked u amount key meta session s =
        and_then (insert_ledger u Debit amount meta key v) (\<lambda>inserted s.
          case inserted of None \<Rightarrow> replay u Debit amount key s
          | Some i \<Rightarrow> and_then (debit_wallet u amount s) (\<lambda>updated s. case updated of
                None \<Rightarrow> (Inl (Raised InsufficientCreditsError ''insufficient_credits''), s)
              | Some b \<Rightarrow> and_then (audit_record (Some u) session ''billing_debit''
                   [(''ledgerTxId'', RowId i), (''amount'', Val (JInt amount)), (''newBalance'', Val (JInt b)),
                    (''sessionId'', opt_str (map_option uuid_str session)), (''model'', pget ''model'' meta)] s) (\<lambda>_ s.
                   (Inr \<lparr>new_balance = b, ledger_tx_id = i, idempotent_replay = False\<rparr>, s))))"
      using wallet by (simp add: consume_checked_def)
    show ?thesis
      unfolding run
      by (auto simp: insert_ledger_def consumed_fault same existing assms intro!: consumed_posted consumed_replay)
  qed
qed

lemma wallet_consumed: "consumed u key amount s (wallet_consume u amount key meta session s)"
  by (auto simp: wallet_consume_def validate_session_def consumed_error consumed_checked split: option.split)

lemma accounts_posted:
  assumes "accounts_for foreign user message own w0 w" and "debit_posted user (uuid_str message) amount (w_db w) s"
  shows "\<exists>own'. own_moved own amount own' \<and> accounts_for foreign user message own' w0 (w\<lparr>w_db := s\<rparr>)"
proof -
  obtain tx where tx: "ledger s = ledger (w_db w) @ [tx]" "tx_user tx = user" "tx_key tx = uuid_str message" "tx_type tx = Debit" "tx_amount tx = amount"
    and facts: "existing_tx user (uuid_str message) (w_db w) = None" "0 < amount"
      "current_balance user s = current_balance user (w_db w) - amount"
    using assms(2) unfolding debit_posted_def by blast
  have none: "own_rows user message w = []"
    using facts(1) by (auto simp: own_rows_def existing_tx_def find_tx_def find_None_iff filter_empty_conv)
  then have own: "own = []" and start: "own_rows user message w0 = []"
    using assms(1) by (simp_all add: accounts_for_def)
  have "accounts_for foreign user message [tx] w (w\<lparr>w_db := s\<rparr>)"
    using tx facts(3) by (auto simp: accounts_for_def own_rows_def other_rows_def net_def signed_amount_def)
  then have "accounts_for foreign user message [tx] w0 (w\<lparr>w_db := s\<rparr>)"
    using accounts_trans [OF assms(1)] own by fastforce
  then show ?thesis
    using own tx(4,5) facts(2) by (intro exI [of _ "[tx]"]) (simp add: own_moved_def)
qed

lemma debit_accounts:
  assumes "account_at foreign (tn_user t) (tn_message t) own w0 c" and "debit_turn t usage c = (r, c')"
  shows "cn_saved c' = cn_saved c"
    and "r = Inr spent \<Longrightarrow> \<exists>own'. own_moved own spent own' \<and> accounts_for foreign (tn_user t) (tn_message t) own' w0 (cn_now c')"
    and "r = Inl f \<Longrightarrow> \<exists>e. f = Fails e \<and> (raised_as InsufficientCreditsError e \<or> (\<exists>g. e = DbFault g)
           \<or> account_at foreign (tn_user t) (tn_message t) own w0 c')"
proof -
  define m where "m = wallet_consume (tn_user t) (bp_amount (tn_billing t)) (turn_key t)
        [(''usage'', Val (JObj usage)), (''model'', Val (jget ''model'' usage)), (''generationMode'', Val (JStr (charged_mode usage))),
         (''creditsCharged'', Val (JInt (bp_amount (tn_billing t))))] (Some (tn_session t)) (w_db (cn_now c))"
  have pay: "consumed (tn_user t) (turn_key t) (bp_amount (tn_billing t)) (w_db (cn_now c)) m"
    unfolding m_def by (rule wallet_consumed)
  have run: "debit_turn t usage c = and_then (lift_fault (fst m), c\<lparr>cn_now := (cn_now c)\<lparr>w_db := snd m\<rparr>\<rparr>)
      (\<lambda>res c. (Inr (if idempotent_replay res then 0 else bp_amount (tn_billing t)), c))"
    by (simp add: debit_turn_def Let_def on_db_def m_def split: prod.split)
  have now: "accounts_for foreign (tn_user t) (tn_message t) own w0 (cn_now c)"
    and saved: "accounts_for foreign (tn_user t) (tn_message t) own w0 (cn_saved c)"
    using assms(1) by (simp_all add: account_at_def)
  have kept: "accounts_for foreign (tn_user t) (tn_message t) own w0 ((cn_now c)\<lparr>w_db := snd m\<rparr>)" if "same_account (tn_user t) (w_db (cn_now c)) (snd m)"
    using accounts_same [OF now] that by simp
  note facts = run [unfolded assms(2)] pay [unfolded consumed_def]
  show "cn_saved c' = cn_saved c"
    using facts(1) by (cases "fst m") (simp_all add: lift_fault_def)
  show "\<exists>own'. own_moved own spent own' \<and> accounts_for foreign (tn_user t) (tn_message t) own' w0 (cn_now c')" if "r = Inr spent"
  proof (cases "fst m")
    case (Inr res)
    then show ?thesis
      using facts kept accounts_posted [OF now] that
      by (cases "idempotent_replay res") (auto simp: lift_fault_def)
  qed (use facts(1) that in \<open>simp add: lift_fault_def\<close>)
  show "\<exists>e. f = Fails e \<and> (raised_as InsufficientCreditsError e \<or> (\<exists>g. e = DbFault g)
      \<or> account_at foreign (tn_user t) (tn_message t) own w0 c')" if "r = Inl f"
  proof (cases "fst m")
    case (Inl e)
    then show ?thesis
      using facts kept saved that by (auto simp: lift_fault_def account_at_def)
  qed (use facts(1) that in \<open>simp add: lift_fault_def\<close>)
qed

section \<open>A leg\<close>

definition spent_by :: "'e + chat_run_out \<Rightarrow> int" where
  "spent_by r = (case r of Inl e \<Rightarrow> 0 | Inr out \<Rightarrow> ro_spent out)"

text \<open>How the final message leaves the connection: accounted for, or with an error that leaves that to the rollback.\<close>

definition account_left :: "(ledger_tx \<Rightarrow> bool) \<Rightarrow> turn \<Rightarrow> ledger_tx list \<Rightarrow> world \<Rightarrow> (turn_fault, chat_run_out, conn) outcome \<Rightarrow> bool" where
  "account_left foreign t own w0 m \<longleftrightarrow>
     (case fst m of
        Inr out \<Rightarrow> \<exists>own'. own_moved own (ro_spent out) own' \<and> account_at foreign (tn_user t) (tn_message t) own' w0 (snd m)
      | Inl f \<Rightarrow> accounts_for foreign (tn_user t) (tn_message t) own w0 (cn_saved (snd m))
          \<and> (account_at foreign (tn_user t) (tn_message t) own w0 (snd m) \<or> (\<exists>e. f = Fails (DbFault e))))"

lemma account_left_error: "account_at foreign (tn_user t) (tn_message t) own w0 c \<Longrightarrow> account_left foreign t own w0 (Inl f, c)"
  by (simp add: account_left_def account_at_def)

lemma account_left_answer:
  "account_at foreign (tn_user t) (tn_message t) own w0 c \<Longrightarrow> ro_spent out = 0 \<Longrightarrow> account_left foreign t own w0 (Inr out, c)"
  by (simp add: account_left_def)

lemma accounts_closed:
  assumes "accounts_for foreign user message own w0 (cn_now c)"
  shows "account_at foreign user message own w0 (commit (snd (on_chat f c)))"
  using assms by (simp add: account_at_def commit_def on_chat_def split: prod.split)

lemma close_accounts:
  assumes "account_at foreign (tn_user t) (tn_message t) own w0 c"
  shows "account_left foreign t own w0 (close_message env t text usage server media step (bill_turn t usage' c))"
proof -
  have paid: "account_left foreign t own w0 (close_message env t text usage server media step (Inr spent, d))"
    if "own_moved own spent own'" "accounts_for foreign (tn_user t) (tn_message t) own' w0 (cn_now d)" for spent d own'
  proof -
    obtain e where e: "on_chat (\<lambda>s. (Inr (), touch_session (tn_session t) (te_now env (cn_draws d)) s)) d = (Inr (), e)"
      by (simp add: on_chat_def lift_fault_def)
    then have "account_at foreign (tn_user t) (tn_message t) own' w0 (commit e)"
      using accounts_closed [OF that(2)] by (metis snd_conv)
    then show ?thesis
      using that(1) e by (auto simp: close_message_def account_left_def)
  qed
  show ?thesis
  proof (cases "bp_debit (tn_billing t)")
    case True
    obtain r d where bill: "debit_turn t usage' c = (r, d)"
      by fastforce
    note facts = debit_accounts [OF assms bill]
    have undone: "account_at foreign (tn_user t) (tn_message t) own w0 (rollback d)"
      using assms facts(1) by (simp add: account_at_def rollback_def)
    show ?thesis
    proof (cases r)
      case (Inr spent)
      then show ?thesis
        using facts(2) paid True bill by (auto simp: bill_turn_def)
    next
      case (Inl f)
      have saved: "accounts_for foreign (tn_user t) (tn_message t) own w0 (cn_saved d)"
        using assms facts(1) by (simp add: account_at_def)
      show ?thesis
        using facts(3) [OF Inl] undone saved True bill Inl
        by (auto simp: bill_turn_def close_message_def account_left_def blocked_out_def)
    qed
  next
    case False
    have trial: "account_at foreign (tn_user t) (tn_message t) own w0 (snd (on_db (mark_trial_used (tn_user t)) c))"
      by (rule account_on_db [OF assms]) (simp add: mark_trial_used_def same_account_def current_balance_def)
    have "\<exists>x. fst (on_db (mark_trial_used (tn_user t)) c) = Inr x"
      by (simp add: on_db_def mark_trial_used_def lift_fault_def)
    then have "\<exists>d. bill_turn t usage' c = (Inr 0, d) \<and> account_at foreign (tn_user t) (tn_message t) own w0 d"
      using False trial assms by (auto simp: bill_turn_def and_then_def split: prod.split)
    then show ?thesis
      using paid by (auto simp: account_at_def)
  qed
qed

lemma finalize_accounts:
  assumes "posts_apart foreign (tn_user t) (tn_message t) env" and "account_at foreign (tn_user t) (tn_message t) own w0 c"
  shows "account_left foreign t own w0 (finalize_assistant env t content text usage server media extra c)"
proof -
  have seq: "account_left foreign t own w0 (and_then m k)"
    if "account_kept foreign env t own w0 (snd m)" "\<And>a c. account_kept foreign env t own w0 c \<Longrightarrow> account_left foreign t own w0 (k a c)"
    for m :: "(turn_fault, 'a, conn) outcome" and k
    using that assms(1) account_left_error by (cases m; cases "fst m") (auto simp: account_kept_def)
  have closing: "account_left foreign t own w0 (close_message env t text usage server media step (bill_turn t usage' d))"
    if "account_kept foreign env t own w0 d" for usage usage' step d
    using that assms(1) by (intro close_accounts) (simp add: account_kept_def)
  have "account_kept foreign env t own w0 c"
    using assms by (simp add: account_kept_def)
  then show ?thesis
    unfolding finalize_assistant_def Let_def
    by (intro seq account.store_step_keeps account.audited closing)
qed

lemma generate_loop_accounts:
  assumes "posts_apart foreign (tn_user t) (tn_message t) env" and "account_at foreign (tn_user t) (tn_message t) own w0 c"
  shows "account_left foreign t own w0 (generate_loop env t c)"
proof -
  obtain r c' where run: "generate_loop env t c = (r, c')"
    by fastforce
  have "account_kept foreign env t own w0 c"
    using assms by (simp add: account_kept_def)
  from account.generate_loop_ended [OF this] run have "ended_by env t (account_kept foreign env t own w0) r c'"
    by simp
  then consider (kept) "account_kept foreign env t own w0 c'" "\<forall>out. r = Inr out \<longrightarrow> ro_status out \<noteq> Assistant_message \<and> ro_spent out = 0"
    | (final) content reply usage server media c0 where "account_kept foreign env t own w0 c0"
        "(r, c') = finalize_assistant env t content reply usage server media [] c0"
    unfolding ended_by_def by blast
  then show ?thesis
  proof cases
    case kept
    then show ?thesis
      using assms(1) run account_left_error account_left_answer by (cases r) (auto simp: account_kept_def)
  next
    case final
    then show ?thesis
      using finalize_accounts [OF assms(1), of own w0 c0] assms(1) run by (simp add: account_kept_def)
  qed
qed

lemma marked_accounts:
  assumes "posts_apart foreign (tn_user t) (tn_message t) env" and "account_left foreign t own w0 (Inl (Fails e), d)"
  shows "accounts_for foreign (tn_user t) (tn_message t) own w0 (cn_saved (mark_turn_failed env t locale e d))"
proof (cases "account_at foreign (tn_user t) (tn_message t) own w0 d")
  case True
  then have "account_kept foreign env t own w0 (mark_turn_failed env t locale e d)"
    by (intro account.mark_turn_failed_keeps) (simp add: account_kept_def)
  then show ?thesis
    using assms(1) by (simp add: account_kept_def account_at_def)
next
  case False
  then have "\<exists>g. e = DbFault g"
    using assms(2) by (auto simp: account_left_def)
  then show ?thesis
    using assms(2) by (auto simp: mark_turn_failed_def account_left_def)
qed

text \<open>A leg posts nothing but its own debit, of what it reports as spent, and never a second one.\<close>

lemma leg_accounts:
  assumes "posts_apart foreign (tn_user t) (tn_message t) env" and "account_at foreign (tn_user t) (tn_message t) own w0 c"
    and "run_leg env t locale c = (r, c')"
  shows "\<exists>own'. own_moved own (spent_by r) own' \<and> account_at foreign (tn_user t) (tn_message t) own' w0 c'"
proof -
  obtain x d where run: "generate_loop env t c = (x, d)"
    by fastforce
  have left: "account_left foreign t own w0 (x, d)"
    using generate_loop_accounts [OF assms(1,2)] run by simp
  have undone: "accounts_for foreign (tn_user t) (tn_message t) own w0 (cn_saved e) \<Longrightarrow>
      account_at foreign (tn_user t) (tn_message t) own w0 (rollback e)" for e
    by (simp add: account_at_def rollback_def)
  show ?thesis
  proof (cases x)
    case (Inr out)
    then show ?thesis
      using assms(3) run left by (auto simp: run_leg_def account_left_def spent_by_def)
  next
    case (Inl f)
    show ?thesis
    proof (cases f)
      case (Fails e)
      then show ?thesis
        using undone [OF marked_accounts [OF assms(1) left [unfolded Inl Fails]]] assms(3) run Inl
        by (auto simp: run_leg_def spent_by_def)
    next
      case (Interrupted reply reason spoken)
      then have "account_at foreign (tn_user t) (tn_message t) own w0 d"
        using left Inl by (simp add: account_left_def)
      then have final: "account_left foreign t own w0 (finalize_interrupted env t reply reason spoken d)"
        unfolding finalize_interrupted_def by (rule finalize_accounts [OF assms(1)])
      obtain y e where closed: "finalize_interrupted env t reply reason spoken d = (y, e)"
        by fastforce
      then have "account_left foreign t own w0 (y, e)"
        using final by simp
      then show ?thesis
        using assms(3) run Inl Interrupted closed undone [of e]
        by (auto simp: run_leg_def account_left_def spent_by_def split: sum.splits turn_fault.splits)
    qed
  qed
qed

end
