(* ===== verification/Chat_Total.thy ===== *)
theory Chat_Total
  imports Chat_Run Chat_Account
begin

text \<open>
  A turn over its whole life: the run that starts it, the device results that continue it, and everything else that happens between.
  What its answers report as spent is what its one ledger row holds and what the wallet has lost to it.
\<close>

section \<open>Around a leg\<close>

definition charge :: "uuid \<Rightarrow> uuid \<Rightarrow> world \<Rightarrow> ledger_tx option" where
  "charge user message w = existing_tx user (uuid_str message) (w_db w)"

lemma account_then:
  "account_at foreign user message own w0 (snd r) \<Longrightarrow>
   (\<And>a c. account_at foreign user message own w0 c \<Longrightarrow> account_at foreign user message own w0 (snd (k a c)))
   \<Longrightarrow> account_at foreign user message own w0 (snd (and_then r k))"
  by (cases r; cases "fst r") (auto simp: and_then_def)

lemma account_applied:
  assumes "applied ids c c'" and "account_at foreign user message own w0 c"
  shows "account_at foreign user message own w0 c'"
proof -
  have db: "(w_db (cn_now c'))\<lparr>audit_log := []\<rparr> = (w_db (cn_now c))\<lparr>audit_log := []\<rparr>"
    using assms(1) by (simp add: applied_def)
  have "ledger (w_db (cn_now c')) = ledger (w_db (cn_now c))" "wallets (w_db (cn_now c')) = wallets (w_db (cn_now c))"
    using arg_cong [OF db, of ledger] arg_cong [OF db, of wallets] by simp_all
  then have "same_account user (w_db (cn_now c)) (w_db (cn_now c'))"
    by (simp add: same_account_def current_balance_def)
  then show ?thesis
    using assms accounts_same by (auto simp: account_at_def applied_def)
qed

lemma account_admitted: "account_at foreign user message own w0 c \<Longrightarrow> account_at foreign user message own w0 (snd (admit_turn inp t c))"
  unfolding admit_turn_def evaluate_turn_def resolve_api_key_def Let_def
  by (intro account_then) (auto simp: account_then split: prod.splits option.splits)

lemma admitted_turn:
  assumes "fst (admit_turn inp t c) = Inr (Inr t')"
  shows "tn_user t' = tn_user t \<and> tn_message t' = tn_message t"
  using assms by (auto simp: admit_turn_def and_then_def Let_def split: sum.splits prod.splits if_splits)

lemma admitted_out:
  assumes "fst (admit_turn inp t c) = Inr (Inl out)"
  shows "ro_spent out = 0"
  using assms by (auto simp: admit_turn_def and_then_def Let_def blocked_out_def split: sum.splits prod.splits if_splits)

section \<open>One request\<close>

text \<open>The body of a request, then its answer or its leg.\<close>

definition answered :: "turn_env \<Rightarrow> string option \<Rightarrow> (turn_fault, chat_run_out + turn, conn) outcome \<Rightarrow> (exn, chat_run_out, conn) outcome" where
  "answered env locale m =
     (case m of
        (Inr (Inl out), c') \<Rightarrow> (Inr out, commit c')
      | (Inr (Inr t), c') \<Rightarrow> run_leg env t locale c'
      | (Inl (Fails e), c') \<Rightarrow> (Inl e, rollback c')
      | (Inl (Interrupted _ _ _), c') \<Rightarrow> (Inl (PyFault ''TurnInterrupted''), rollback c'))"

lemma tool_result_answered: "tool_result env inp user session results v2 c = answered env None (tool_result_body env inp user session results v2 c)"
  by (simp add: tool_result_def answered_def)

lemma run_turn_answered: "run_turn env inp user rq c =
    answered env (case Option.bind (cr_context rq) (\<lambda>d. map_of d ''locale'') of
            None \<Rightarrow> None | Some v \<Rightarrow> validated_context_value ''locale'' v) (run_body env inp user rq c)"
  by (simp add: run_turn_def answered_def)

text \<open>What a body hands over: no row posted, nothing spent, a leg of the same turn.\<close>

definition hands_over ::
  "(ledger_tx \<Rightarrow> bool) \<Rightarrow> uuid \<Rightarrow> uuid \<Rightarrow> ledger_tx list \<Rightarrow> world \<Rightarrow> (turn_fault, chat_run_out + turn, conn) outcome \<Rightarrow> bool" where
  "hands_over foreign user message own w0 m \<longleftrightarrow>
     account_at foreign user message own w0 (snd m) \<and> (\<forall>out. fst m = Inr (Inl out) \<longrightarrow> ro_spent out = 0)
     \<and> (\<forall>t. fst m = Inr (Inr t) \<longrightarrow> tn_user t = user \<and> tn_message t = message)"

lemma handed_accounts:
  assumes "posts_apart foreign user message env" and "hands_over foreign user message own w0 m" and "answered env locale m = (r, c')"
  shows "\<exists>own'. own_moved own (spent_by r) own' \<and> account_at foreign user message own' w0 c'"
proof -
  obtain x d where m: "m = (x, d)"
    by (cases m)
  have d: "account_at foreign user message own w0 d"
    using assms(2) by (simp add: hands_over_def m)
  show ?thesis
  proof (cases x)
    case (Inl f)
    then show ?thesis
      using assms(3) d by (cases f) (auto simp: m answered_def spent_by_def)
  next
    case (Inr y)
    show ?thesis
    proof (cases y)
      case (Inl out)
      then show ?thesis
        using assms(2,3) Inr d by (auto simp: m answered_def spent_by_def hands_over_def)
    next
      case t: (Inr t)
      then have "run_leg env t locale d = (r, c')" and "tn_user t = user" "tn_message t = message"
        using assms(2,3) Inr by (simp_all add: m answered_def hands_over_def)
      then show ?thesis
        using leg_accounts [of foreign t env own w0 d "locale" r c'] assms(1) d by simp
    qed
  qed
qed

lemma hands_fault: "account_at foreign user message own w0 c \<Longrightarrow> hands_over foreign user message own w0 (Inl f, c)"
  by (simp add: hands_over_def)

lemma hands_answer:
  "account_at foreign user message own w0 c \<Longrightarrow> ro_spent out = 0 \<Longrightarrow> hands_over foreign user message own w0 (Inr (Inl out), c)"
  by (simp add: hands_over_def)

lemma hands_admitted:
  "account_at foreign user message own w0 c \<Longrightarrow> tn_user t = user \<Longrightarrow> tn_message t = message
   \<Longrightarrow> hands_over foreign user message own w0 (admit_turn inp t c)"
  using admitted_turn [of inp t c] admitted_out [of inp t c] by (auto simp: hands_over_def account_admitted)

lemma hands_then:
  "account_at foreign user message own w0 (snd r) \<Longrightarrow>
   (\<And>a c. account_at foreign user message own w0 c \<Longrightarrow> hands_over foreign user message own w0 (k a c))
   \<Longrightarrow> hands_over foreign user message own w0 (and_then r k)"
  by (cases r; cases "fst r") (auto simp: hands_fault)

lemma results_hand_over:
  assumes "resolve_results session results None (w_chat (cn_now c)) = Inr (rs, Some message)" and "account_at foreign user message own w0 c"
  shows "hands_over foreign user message own w0 (tool_result_body env inp user session results v2 c)"
proof (rule body_cases [of env inp user session results v2 c])
  fix e
  assume "tool_result_body env inp user session results v2 c = (Inl (Fails e), c)"
  then show ?thesis
    using assms(2) by (simp add: hands_fault)
next
  fix sess rs' message' t was_open
  assume "resolve_results session results None (w_chat (cn_now c)) = Inr (rs', Some message')"
    and t: "t = turn_of inp sess user session message' (if v2 then generation_mode_for_message_step session message' (w_chat (cn_now c))
         else effective_generation_mode env ''general'' False) v2 (cn_now c)"
    and body: "tool_result_body env inp user session results v2 c =
         and_then (apply_results env t rs' c) (\<lambda>_. after_results inp sess t rs' was_open)"
  then have here: "tn_user t = user" "tn_session t = session" "tn_message t = message"
    using assms(1) by (simp_all add: t turn_of_def)
  obtain ids where "applied ids c (snd (apply_results env t rs' c))"
    using applied_results by blast
  then have "account_at foreign user message own w0 (snd (apply_results env t rs' c))"
    using assms(2) by (rule account_applied)
  then show ?thesis
    unfolding body
  proof (rule hands_then)
    fix u c1
    assume c1: "account_at foreign user message own w0 c1"
    have on: "hands_over foreign user message own w0 (admit_turn inp (turn_of inp sess user session message mode v2' (cn_now c1)) c1)" for mode v2'
      using c1 by (rule hands_admitted) (simp_all add: turn_of_def)
    have saved: "ro_spent out = 0" if "render_saved_step session message q = Inr out" for q out
      using that by (auto simp: render_saved_step_def split: sum.splits)
    show "hands_over foreign user message own w0 (after_results inp sess t rs' was_open c1)"
      using c1 on saved unfolding after_results_def Let_def here
      by (auto simp: hands_fault hands_answer awaiting_out_def superseded_conflict_def split: option.split sum.split)
  qed
qed

section \<open>The run\<close>

lemma account_world:
  assumes "account_at foreign user message own w0 c" and "\<And>w. same_account user (w_db w) (w_db (snd (f w)))"
  shows "account_at foreign user message own w0 (snd (on_world f c))"
proof -
  obtain r w where run: "f (cn_now c) = (r, w)"
    by fastforce
  then have "same_account user (w_db (cn_now c)) (w_db w)"
    using assms(2) [of "cn_now c"] by simp
  then show ?thesis
    using assms(1) accounts_same by (auto simp: account_at_def on_world_def run)
qed

lemma created_account: "same_account user (w_db w) (w_db (snd (get_or_create_session ttl now u i resume_only new_id row w)))"
  by (auto simp: get_or_create_session_def insert_session_def Let_def same_account_def current_balance_def split: option.split)

lemma account_opened: "account_at foreign user message own w0 c \<Longrightarrow> account_at foreign user message own w0 (snd (open_session env inp u rq title c))"
  unfolding open_session_def Let_def
  by (auto intro!: account_then account_world created_account split: option.split)

lemma account_edited: "account_at foreign user message own w0 c \<Longrightarrow> account_at foreign user message own w0 (snd (edit_turn inp session is_new rq c))"
  unfolding edit_turn_def Let_def by (auto intro!: account_then split: option.split)

lemma account_user_step: "account_at foreign user message own w0 c \<Longrightarrow> account_at foreign user message own w0 (snd (store_user_step env t rq prepared rows c))"
  unfolding store_user_step_def store_step_def by (auto intro!: account_then)

lemma run_hands_over:
  assumes "account_at foreign user (te_uuid env (cn_draws c)) own w0 c"
  shows "hands_over foreign user (te_uuid env (cn_draws c)) own w0 (run_body env inp user rq c)"
proof -
  define message where "message = te_uuid env (cn_draws c)"
  have opened: "hands_over foreign user message own w0 (run_opened env inp user message session is_new rq' c1)" if "account_at foreign user message own w0 c1" for session is_new rq' c1
    unfolding run_opened_def
  proof (rule hands_then [OF account_edited [OF that]])
    fix edited c2
    assume c2: "account_at foreign user message own w0 c2"
    show "hands_over foreign user message own w0 (case edited of (rq, inherited) \<Rightarrow>
       (case cd_sessions (w_chat (cn_now c2)) session of
          None \<Rightarrow> (Inl (Fails (DbFault ForeignKeyViolation)), c2)
        | Some sess \<Rightarrow>
            (case prepare_turn inp rq inherited of
               Inl e \<Rightarrow> (Inl (Fails e), c2)
             | Inr prepared \<Rightarrow>
                 (case ri_prompt inp rq is_new (case prepared of None \<Rightarrow> False | Some p \<Rightarrow> pp_has_images p) session (cn_now c2) of
                    Inl e \<Rightarrow> (Inl (Fails e), c2)
                  | Inr prompt \<Rightarrow>
                      (let t = opened_turn env sess user session message rq prompt (ri_first_turn inp prepared session (cn_now c2)) in
                       and_then (store_user_step env t rq prepared (attachment_records inp rq session message) c2)
                         (\<lambda>_. admit_turn (ri_leg inp) t))))))"
      using c2 by (auto simp: Let_def opened_turn_def hands_fault intro!: hands_then account_user_step hands_admitted split: prod.split option.split sum.split)
  qed
  have "account_at foreign user message own w0 c"
    using assms by (simp add: message_def)
  then show ?thesis
    unfolding message_def [symmetric]
    by (simp add: run_body_def draw_def message_def [symmetric]) (intro hands_then account_opened opened, simp_all)
qed

section \<open>The life of a turn\<close>

text \<open>
  The number is the sum of what the answers of the turn reported as spent. Between two of its requests anything may be committed that
  posts no row under the key of the message and, besides, only rows that satisfy \<open>foreign\<close>.
\<close>

inductive turn_life :: "(ledger_tx \<Rightarrow> bool) \<Rightarrow> turn_env \<Rightarrow> uuid \<Rightarrow> uuid \<Rightarrow> conn \<Rightarrow> int \<Rightarrow> conn \<Rightarrow> bool" for foreign env user message where
  started: "run_turn env inp user rq c = (r, c') \<Longrightarrow> te_uuid env (cn_draws c) = message \<Longrightarrow>
    turn_life foreign env user message c (spent_by r) c'"
| continued: "turn_life foreign env user message c n c1 \<Longrightarrow>
    resolve_results session results None (w_chat (cn_now c1)) = Inr (rs, Some message) \<Longrightarrow>
    tool_result env inp user session results v2 c1 = (r, c2) \<Longrightarrow> turn_life foreign env user message c (n + spent_by r) c2"
| elsewhere: "turn_life foreign env user message c n c1 \<Longrightarrow> accounts_for foreign user message [] (cn_saved c1) w \<Longrightarrow>
    turn_life foreign env user message c n (c1\<lparr>cn_now := w, cn_saved := w\<rparr>)"

lemma own_moved_trans: "own_moved [] n own \<Longrightarrow> own_moved own k own' \<Longrightarrow> own_moved [] (n + k) own'"
  by (auto simp: own_moved_def)

lemma total_is_ledger:
  assumes "turn_life foreign env user message c n c'" and "posts_apart foreign user message env" and "cn_now c = cn_saved c"
  shows "\<exists>own. own_moved [] n own \<and> account_at foreign user message own (cn_saved c) c'"
  using assms(1,3)
proof (induction rule: turn_life.induct)
  case (started inp rq c r c')
  have "account_at foreign user message [] (cn_saved c) c"
    using started(3) by (simp add: account_at_def accounts_refl)
  then have "hands_over foreign user message [] (cn_saved c) (run_body env inp user rq c)"
    using run_hands_over [of foreign user env c "[]" "cn_saved c" inp rq] started(2) by simp
  from handed_accounts [OF assms(2) this started(1) [unfolded run_turn_answered]] show ?case .
next
  case (continued c n c1 session results rs inp v2 r c2)
  then obtain own where own: "own_moved [] n own" "account_at foreign user message own (cn_saved c) c1"
    by blast
  from handed_accounts [OF assms(2) results_hand_over [OF continued(2) own(2)] continued(3) [unfolded tool_result_answered]] show ?case
    using own_moved_trans [OF own(1)] by blast
next
  case (elsewhere c n c1 w)
  then obtain own where own: "own_moved [] n own" "account_at foreign user message own (cn_saved c) c1"
    by blast
  then have "accounts_for foreign user message own (cn_saved c) w"
    using accounts_quiet elsewhere(2) by (auto simp: account_at_def)
  then show ?case
    using own(1) by (auto simp: account_at_def)
qed

end
