(* ===== verification/Chat_Edit.thy ===== *)
theory Chat_Edit
  imports Chat_Total
begin

text \<open>
  What a run writes before its leg: the plain message of a resumed chat, asked or refused by the policy, and the edit of an
  earlier turn.
\<close>

section \<open>A plain message\<close>

text \<open>A text message to a chat that exists, in credits mode, in a world that knows both.\<close>

definition plain_run :: "turn_env \<Rightarrow> run_inputs \<Rightarrow> uuid \<Rightarrow> chat_request \<Rightarrow> uuid \<Rightarrow> chat_session \<Rightarrow> string \<Rightarrow> conn \<Rightarrow> bool" where
  "plain_run env inp user rq session sess prompt c \<longleftrightarrow>
     cr_session rq = Some session \<and> cr_edit rq = None \<and> cr_attachments rq = []
     \<and> get_chat_session session user (w_chat (cn_now c)) = Some sess
     \<and> (cr_resume_only rq \<or> \<not> is_expired (ri_soft_ttl inp) (ri_now inp) sess) \<and> (cs_backend sess = Some ''v2'') = cr_v2 rq
     \<and> session_mode sess = Mode_credits
     \<and> (\<forall>w. ri_prompt inp rq False False session w = Inr prompt)
     \<and> users (w_db (cn_now c)) user \<noteq> None \<and> chat_sessions (w_db (cn_now c)) session = Some user
     \<and> te_uuid env (cn_draws c + 2) \<notin> sp_id ` set (cd_steps (w_chat (cn_now c)))"

definition asked_row :: "turn_env \<Rightarrow> chat_request \<Rightarrow> uuid \<Rightarrow> conn \<Rightarrow> chat_step" where
  "asked_row env rq session c =
     \<lparr>sp_id = te_uuid env (cn_draws c + 2), sp_seq = cd_next_seq (w_chat (cn_now c)), sp_session = session,
      sp_message = te_uuid env (cn_draws c), sp_role = User, sp_payload = user_payload rq None [], sp_usage = None\<rparr>"

definition asked_chat :: "turn_env \<Rightarrow> chat_request \<Rightarrow> uuid \<Rightarrow> conn \<Rightarrow> chat_db" where
  "asked_chat env rq session c =
     (w_chat (cn_now c))\<lparr>cd_steps := cd_steps (w_chat (cn_now c)) @ [asked_row env rq session c],
        cd_next_seq := Suc (cd_next_seq (w_chat (cn_now c)))\<rparr>"

definition plain_turn :: "turn_env \<Rightarrow> run_inputs \<Rightarrow> uuid \<Rightarrow> chat_request \<Rightarrow> uuid \<Rightarrow> chat_session \<Rightarrow> string \<Rightarrow> conn \<Rightarrow> turn" where
  "plain_turn env inp user rq session sess prompt c =
     opened_turn env sess user session (te_uuid env (cn_draws c)) rq prompt (ri_first_turn inp None session (cn_now c))"

definition run_state :: "run_inputs \<Rightarrow> uuid \<Rightarrow> conn \<Rightarrow> PolicyState" where
  "run_state inp user c = load_policy_state (in_policy_now (ri_leg inp)) user (w_db (cn_now c))"

definition run_cost :: "run_inputs \<Rightarrow> chat_session \<Rightarrow> int" where
  "run_cost inp sess = in_cost (ri_leg inp) (case cs_model sess of Some (x # xs) \<Rightarrow> Some (x # xs) | _ \<Rightarrow> None)"

lemma plain_session:
  assumes "plain_run env inp user rq session sess prompt c"
  shows "cd_sessions (w_chat (cn_now c)) session = Some sess" and "cs_user sess = user"
  using assms by (auto simp: plain_run_def get_chat_session_def split: option.splits if_splits)

lemma plain_opened:
  assumes "plain_run env inp user rq session sess prompt c"
  shows "open_session env inp user rq title (c\<lparr>cn_draws := Suc (cn_draws c)\<rparr>) = (Inr (session, False), c\<lparr>cn_draws := cn_draws c + 2\<rparr>)"
proof -
  have "cr_resume_only rq \<or> \<not> will_create_session (ri_soft_ttl inp) (ri_now inp) user (Some session) (w_chat (cn_now c))"
    using assms by (auto simp: plain_run_def will_create_session_def)
  moreover have "get_or_create_session (ri_soft_ttl inp) (ri_now inp) user (Some session) (cr_resume_only rq) new_id row (cn_now c) =
      (Inr (session, False), cn_now c)" for new_id row
    using assms by (auto simp: plain_run_def get_or_create_session_def Let_def)
  moreover have "ensure_session_backend session (cr_v2 rq) (cr_v2 rq) (w_chat (cn_now c)) = (Inr (), w_chat (cn_now c))"
    using assms plain_session [OF assms] by (simp add: ensure_session_backend_def plain_run_def Let_def)
  moreover have "cr_session rq = Some session"
    using assms by (simp add: plain_run_def)
  ultimately show ?thesis
    by (cases "cr_resume_only rq") (simp_all add: open_session_def Let_def draw_def on_world_def on_chat_def lift_fault_def)
qed

lemma plain_stored:
  assumes "plain_run env inp user rq session sess prompt c"
  shows "store_user_step env (plain_turn env inp user rq session sess prompt c) rq None ([], []) (c\<lparr>cn_draws := cn_draws c + 2\<rparr>) =
    (Inr (), c\<lparr>cn_draws := cn_draws c + 3, cn_now := (cn_now c)\<lparr>w_chat := asked_chat env rq session c\<rparr>\<rparr>)"
proof -
  have "\<not> (\<exists>p \<in> set (cd_steps (w_chat (cn_now c))). sp_id p = te_uuid env (Suc (Suc (cn_draws c))))"
    using assms by (force simp: plain_run_def)
  moreover have "cd_sessions (w_chat (cn_now c)) session \<noteq> None"
    using plain_session [OF assms] by simp
  ultimately show ?thesis
    by (simp add: store_user_step_def store_step_def draw_def on_chat_def add_step_def lift_fault_def add_attachments_def plain_turn_def
      opened_turn_def asked_chat_def asked_row_def)
qed

lemma plain_body:
  assumes "plain_run env inp user rq session sess prompt c"
  shows "\<exists>log. run_body env inp user rq c =
    (Inr (if allow (evaluate (run_state inp user c) Mode_credits (run_cost inp sess))
          then Inr ((plain_turn env inp user rq session sess prompt c)\<lparr>tn_api_key := None, tn_byok_provider := None,
             tn_billing := billing_plan_for Mode_credits (run_state inp user c) (run_cost inp sess) (cr_v2 rq)\<rparr>)
          else Inl (blocked_out session (block_reason (evaluate (run_state inp user c) Mode_credits (run_cost inp sess))))),
     c\<lparr>cn_draws := cn_draws c + 3,
       cn_now := (cn_now c)\<lparr>w_chat := asked_chat env rq session c, w_db := (w_db (cn_now c))\<lparr>audit_log := log\<rparr>\<rparr>\<rparr>)"
proof -
  define t where "t = plain_turn env inp user rq session sess prompt c"
  define c3 where "c3 = c\<lparr>cn_draws := cn_draws c + 3, cn_now := (cn_now c)\<lparr>w_chat := asked_chat env rq session c\<rparr>\<rparr>"
  have t: "tn_user t = user" "tn_session t = session" "tn_mode t = Mode_credits" "in_cost (ri_leg inp) (tn_model t) = run_cost inp sess" "tn_v2 t = cr_v2 rq"
    using assms by (simp_all add: t_def plain_turn_def opened_turn_def plain_run_def run_cost_def)
  have "\<exists>log. audit_turn t ''policy_decision'' p c3 = (Inr (), c3\<lparr>cn_now := (cn_now c)\<lparr>w_chat := asked_chat env rq session c, w_db := (w_db (cn_now c))\<lparr>audit_log := log\<rparr>\<rparr>\<rparr>)" for p
    using assms by (auto simp: audit_turn_def on_db_def audit_record_def t plain_run_def c3_def lift_fault_def)
  then obtain log where log: "\<And>p. audit_turn t ''policy_decision'' p c3 =
      (Inr (), c3\<lparr>cn_now := (cn_now c)\<lparr>w_chat := asked_chat env rq session c, w_db := (w_db (cn_now c))\<lparr>audit_log := log p\<rparr>\<rparr>\<rparr>)"
    by metis
  have opened: "run_body env inp user rq c = admit_turn (ri_leg inp) t c3"
    using assms plain_opened [OF assms, of "derive_title (cr_message rq)"] plain_session [OF assms] plain_stored [OF assms]
    by (simp add: run_body_def draw_def run_opened_def edit_turn_def prepare_turn_def plain_run_def attachment_records_def Let_def
      plain_turn_def [symmetric] t_def [symmetric] c3_def [symmetric])
  have state: "load_policy_state (in_policy_now (ri_leg inp)) user (w_db (cn_now c3)) = run_state inp user c"
    by (simp add: c3_def run_state_def)
  have "\<exists>p. run_body env inp user rq c =
    (Inr (if allow (evaluate (run_state inp user c) Mode_credits (run_cost inp sess))
          then Inr (t\<lparr>tn_api_key := None, tn_byok_provider := None,
             tn_billing := billing_plan_for Mode_credits (run_state inp user c) (run_cost inp sess) (cr_v2 rq)\<rparr>)
          else Inl (blocked_out session (block_reason (evaluate (run_state inp user c) Mode_credits (run_cost inp sess))))),
     c3\<lparr>cn_now := (cn_now c)\<lparr>w_chat := asked_chat env rq session c, w_db := (w_db (cn_now c))\<lparr>audit_log := log p\<rparr>\<rparr>\<rparr>)"
    unfolding opened
    by (simp add: admit_turn_def evaluate_turn_def Let_def t state log resolve_api_key_def del: ex_simps) blast
  then show ?thesis
    unfolding c3_def t_def by auto
qed

section \<open>Refused by the policy\<close>

lemma asked_steps:
  assumes "seq_fresh (w_chat (cn_now c))"
  shows "list_steps session (asked_chat env rq session c) = list_steps session (w_chat (cn_now c)) @ [asked_row env rq session c]"
proof -
  have "\<forall>p \<in> set (filter (\<lambda>p. sp_session p = session) (cd_steps (w_chat (cn_now c)))). sp_seq p \<le> sp_seq (asked_row env rq session c)"
    using assms by (auto simp: seq_fresh_def asked_row_def)
  then show ?thesis
    by (simp add: list_steps_def asked_chat_def sort_key_snoc) (simp add: asked_row_def)
qed

text \<open>
  C28. A finding. A run the policy refuses still stores the message of the user, and leaves it without an answer: the refusal is
  committed with the user step, no assistant step and no marker follow, and the next turn of the chat replays both messages.
\<close>

theorem refused_run_leaves_question:
  assumes "plain_run env inp user rq session sess prompt c" and "seq_fresh (w_chat (cn_now c))"
    and "\<not> allow (evaluate (run_state inp user c) Mode_credits (run_cost inp sess))"
    and "te_uuid env (cn_draws c) \<notin> sp_message ` set (cd_steps (w_chat (cn_now c)))"
  shows "\<exists>out c'. run_turn env inp user rq c = (Inr out, c') \<and> ro_status out = Blocked \<and> cn_rounds c' = cn_rounds c
     \<and> list_steps session (w_chat (cn_saved c')) = list_steps session (w_chat (cn_now c)) @ [asked_row env rq session c]
     \<and> turn_steps session (te_uuid env (cn_draws c)) Assistant (w_chat (cn_saved c')) = []"
proof -
  obtain log where body: "run_body env inp user rq c =
      (Inr (Inl (blocked_out session (block_reason (evaluate (run_state inp user c) Mode_credits (run_cost inp sess))))),
       c\<lparr>cn_draws := cn_draws c + 3,
         cn_now := (cn_now c)\<lparr>w_chat := asked_chat env rq session c, w_db := (w_db (cn_now c))\<lparr>audit_log := log\<rparr>\<rparr>\<rparr>)"
    using plain_body [OF assms(1)] assms(3) by auto
  have steps: "list_steps session (asked_chat env rq session c) = list_steps session (w_chat (cn_now c)) @ [asked_row env rq session c]"
    by (rule asked_steps [OF assms(2)])
  have "turn_steps session (te_uuid env (cn_draws c)) Assistant (asked_chat env rq session c) = []"
    using assms(4) by (auto simp: turn_steps_def steps filter_empty_conv asked_row_def) (force simp: list_steps_def)
  then show ?thesis
    using steps by (simp add: run_turn_def body blocked_out_def commit_def)
qed

section \<open>Answered\<close>

lemma appended_step:
  assumes "cd_steps s' = cd_steps s @ [row]" and "\<forall>p \<in> set (cd_steps s). sp_seq p \<le> sp_seq row" and "sp_session row = session"
  shows "list_steps session s' = list_steps session s @ [row]"
  using assms by (simp add: list_steps_def sort_key_snoc)

lemma message_answered:
  assumes "plain_run env inp user rq session sess prompt c" and "subscription_status (run_state inp user c) = Sub_active"
    and "wallet_ok (w_db (cn_now c))" and "price = max 1 (run_cost inp sess)" and "bigint_ok price"
    and "price \<le> current_balance user (w_db (cn_now c))" and "charge user (te_uuid env (cn_draws c)) (cn_now c) = None"
    and "te_uuid env (cn_draws c + 3) \<notin> insert (te_uuid env (cn_draws c + 2)) (sp_id ` set (cd_steps (w_chat (cn_now c))))"
    and "neutral_history_from_steps (te_loads env) (list_steps session (asked_chat env rq session c)) = Inr messages"
    and "\<And>k rq args. te_ask env (cn_rounds c) k rq args = Answered r" and "te_meanwhile env (cn_rounds c) = id"
    and "lr_stop r \<noteq> Some ''max_tokens''" and "lr_stop r = Some ''tool_use'' \<Longrightarrow> lr_tool_uses r = []"
    and "seq_fresh (w_chat (cn_now c))"
  shows "\<exists>out c'. run_turn env inp user rq c = (Inr out, c')
     \<and> ro_status out = Assistant_message \<and> ro_message out = Some (lr_text r) \<and> ro_spent out = price
     \<and> current_balance user (w_db (cn_saved c')) = current_balance user (w_db (cn_now c)) - price
     \<and> (\<exists>row. list_steps session (w_chat (cn_saved c')) =
            list_steps session (w_chat (cn_now c)) @ [asked_row env rq session c, row]
          \<and> sp_role row = Assistant \<and> sp_message row = te_uuid env (cn_draws c) \<and> ro_step out = Some (sp_id row)
          \<and> jget ''content'' (sp_payload row) = JArr (lr_content r))"
proof -
  define t where "t = (plain_turn env inp user rq session sess prompt c)\<lparr>tn_api_key := None, tn_byok_provider := None,
             tn_billing := billing_plan_for Mode_credits (run_state inp user c) (run_cost inp sess) (cr_v2 rq)\<rparr>"
  have t: "tn_user t = user" "tn_session t = session" "tn_message t = te_uuid env (cn_draws c)" "tn_mode t = Mode_credits"
    "tn_billing t = \<lparr>bp_debit = True, bp_trial = False, bp_amount = price, bp_expose = cr_v2 rq\<rparr>"
    using assms(1,2,4) by (simp_all add: t_def plain_turn_def opened_turn_def plain_run_def billing_plan_for_def)
  have "credits_balance (run_state inp user c) = current_balance user (w_db (cn_now c))"
    by (simp add: run_state_def load_policy_state_def current_balance_def)
  then have "allow (evaluate (run_state inp user c) Mode_credits (run_cost inp sess))"
    using assms(2,4,6) by (auto simp: evaluate_def less_max_iff_disj)
  then obtain log where body: "run_body env inp user rq c = (Inr (Inr t), c\<lparr>cn_draws := cn_draws c + 3,
      cn_now := (cn_now c)\<lparr>w_chat := asked_chat env rq session c, w_db := (w_db (cn_now c))\<lparr>audit_log := log\<rparr>\<rparr>\<rparr>)"
    using plain_body [OF assms(1)] by (auto simp: t_def)
  define c3 where "c3 = c\<lparr>cn_draws := cn_draws c + 3,
      cn_now := (cn_now c)\<lparr>w_chat := asked_chat env rq session c, w_db := (w_db (cn_now c))\<lparr>audit_log := log\<rparr>\<rparr>\<rparr>"
  have now: "cn_now c3 = (cn_now c)\<lparr>w_chat := asked_chat env rq session c, w_db := (w_db (cn_now c))\<lparr>audit_log := log\<rparr>\<rparr>"
    "cn_draws c3 = cn_draws c + 3" "cn_rounds c3 = cn_rounds c"
    by (simp_all add: c3_def)
  have world: "cn_now c3 = te_meanwhile env (cn_rounds c3) (cn_now c3)"
    using assms(11) by (simp add: c3_def)
  have concludes: "can_conclude env t (cn_draws c3) (cn_now c3)"
    using assms(1,3,5,6,7,8) plain_session [OF assms(1)] assms(4) unfolding now
    by (auto simp: can_conclude_def t plain_run_def paid_def charge_def existing_tx_def current_balance_def asked_chat_def asked_row_def)
  have history: "neutral_history_from_steps (te_loads env) (list_steps (tn_session t) (w_chat (cn_now c3))) = Inr messages"
    using assms(9) by (simp add: t now)
  obtain out c' where "run_leg env t (case Option.bind (cr_context rq) (\<lambda>d. map_of d ''locale'') of
            None \<Rightarrow> None | Some v \<Rightarrow> validated_context_value ''locale'' v) c3 = (Inr out, c')"
    and "ro_status out = Assistant_message \<and> ro_message out = Some (lr_text r) \<and> ro_spent out = bp_amount (tn_billing t)
     \<and> current_balance (tn_user t) (w_db (cn_saved c')) = current_balance (tn_user t) (w_db (cn_now c3)) - bp_amount (tn_billing t)
     \<and> ro_step out = Some (te_uuid env (cn_draws c3))
     \<and> answer_stored t (te_uuid env (cn_draws c3)) (lr_content r) (asked_chat env rq session c) (w_chat (cn_saved c'))"
    using leg_answers [OF t(4) history _ assms(12,13) world concludes] assms(10) by (fastforce simp: now)
  moreover then obtain row where "cd_steps (w_chat (cn_saved c')) = cd_steps (asked_chat env rq session c) @ [row]"
      "sp_seq row = cd_next_seq (asked_chat env rq session c)" "sp_session row = session"
    and row: "sp_role row = Assistant" "sp_message row = te_uuid env (cn_draws c)" "sp_id row = te_uuid env (cn_draws c + 3)"
      "jget ''content'' (sp_payload row) = JArr (lr_content r)"
    by (auto simp: answer_stored_def t now)
  then have "list_steps session (w_chat (cn_saved c')) = list_steps session (asked_chat env rq session c) @ [row]"
    using assms(14) by (intro appended_step) (auto simp: asked_chat_def asked_row_def seq_fresh_def less_Suc_eq)
  then have "list_steps session (w_chat (cn_saved c')) = list_steps session (w_chat (cn_now c)) @ [asked_row env rq session c, row]"
    by (simp add: asked_steps [OF assms(14)])
  ultimately show ?thesis
    using row by (auto simp: run_turn_def body c3_def [symmetric] t now current_balance_def)
qed

text \<open>
  C8. Let a user with an active subscription send a plain message, in credits mode, to an open chat; let the balance cover the price, the
  provider answer the first call with a final message, and nothing else be committed while it is asked. Then the message is
  stored and answered: the chat is what it was with the step of the message and the step of the answer after it, the balance has fallen
  by exactly the price, which the answer reports, and all of it is committed.
\<close>

theorem covered_message_answered:
  assumes "plain_run env inp user rq session sess prompt c" and "subscription_status (run_state inp user c) = Sub_active"
    and "wallet_ok (w_db (cn_now c))" and "price = max 1 (run_cost inp sess)" and "bigint_ok price"
    and "price \<le> current_balance user (w_db (cn_now c))" and "charge user (te_uuid env (cn_draws c)) (cn_now c) = None"
    and "te_uuid env (cn_draws c + 3) \<notin> insert (te_uuid env (cn_draws c + 2)) (sp_id ` set (cd_steps (w_chat (cn_now c))))"
    and "neutral_history_from_steps (te_loads env) (list_steps session (asked_chat env rq session c)) = Inr messages"
    and "\<And>k rq args. te_ask env (cn_rounds c) k rq args = Answered r" and "te_meanwhile env (cn_rounds c) = id"
    and "lr_stop r \<noteq> Some ''max_tokens''" and "lr_stop r = Some ''tool_use'' \<Longrightarrow> lr_tool_uses r = []"
    and "seq_fresh (w_chat (cn_now c))"
  shows "\<exists>out c'. run_turn env inp user rq c = (Inr out, c')
     \<and> ro_status out = Assistant_message \<and> ro_message out = Some (lr_text r) \<and> ro_spent out = price
     \<and> current_balance user (w_db (cn_saved c')) = current_balance user (w_db (cn_now c)) - price
     \<and> (\<exists>row. list_steps session (w_chat (cn_saved c')) =
            list_steps session (w_chat (cn_now c)) @ [asked_row env rq session c, row]
          \<and> sp_role row = Assistant \<and> sp_message row = te_uuid env (cn_draws c) \<and> ro_step out = Some (sp_id row)
          \<and> jget ''content'' (sp_payload row) = JArr (lr_content r))"
  using message_answered [OF assms] .

section \<open>An edit\<close>

definition steps_are :: "chat_step list \<Rightarrow> nat \<Rightarrow> conn \<Rightarrow> bool" where
  "steps_are ps n c \<longleftrightarrow> cd_steps (w_chat (cn_now c)) = ps \<and> cd_next_seq (w_chat (cn_now c)) = n"

lemma steps_then:
  "steps_are ps n (snd m) \<Longrightarrow> (\<And>a c. steps_are ps n c \<Longrightarrow> steps_are ps n (snd (k a c))) \<Longrightarrow> steps_are ps n (snd (and_then m k))"
  by (cases m; cases "fst m") (auto simp: and_then_def)

lemma steps_on_chat:
  "(\<And>s. cd_steps (snd (f s)) = cd_steps s \<and> cd_next_seq (snd (f s)) = cd_next_seq s) \<Longrightarrow> steps_are ps n c \<Longrightarrow> steps_are ps n (snd (on_chat f c))"
  by (simp add: steps_are_def on_chat_def split: prod.split) (metis snd_conv)

lemma steps_on_world:
  "(\<And>w. cd_steps (w_chat (snd (f w))) = cd_steps (w_chat w) \<and> cd_next_seq (w_chat (snd (f w))) = cd_next_seq (w_chat w)) \<Longrightarrow>
   steps_are ps n c \<Longrightarrow> steps_are ps n (snd (on_world f c))"
  by (simp add: steps_are_def on_world_def split: prod.split) (metis snd_conv)

lemma session_next_seq [simp]: "cd_next_seq (on_session i f s) = cd_next_seq s"
  by (simp add: on_session_def split: option.split)

lemma opened_steps: "steps_are ps n c \<Longrightarrow> steps_are ps n (snd (open_session env inp user rq title c))"
proof -
  assume c: "steps_are ps n c"
  have made: "cd_steps (w_chat (snd (get_or_create_session ttl now u i resume_only new_id row w))) = cd_steps (w_chat w)
      \<and> cd_next_seq (w_chat (snd (get_or_create_session ttl now u i resume_only new_id row w))) = cd_next_seq (w_chat w)"
    for ttl now u i resume_only new_id row w
    by (auto simp: get_or_create_session_def insert_session_def Let_def split: option.split)
  have upgraded: "cd_steps (snd (ensure_session_backend i v2 up s)) = cd_steps s \<and> cd_next_seq (snd (ensure_session_backend i v2 up s)) = cd_next_seq s"
    for i v2 up s
    by (simp add: ensure_session_backend_def Let_def clear_provider_state_def set_provider_state_def set_generation_backend_def)
  have drawn: "steps_are ps n (snd (draw env c))"
    using c by (simp add: steps_are_def draw_def)
  have "steps_are ps n (snd (and_then (draw env c) (\<lambda>new_id c.
          and_then (on_world (get_or_create_session (ri_soft_ttl inp) (ri_now inp) user (cr_session rq) resume new_id row) c) (\<lambda>res c.
          and_then (on_chat (ensure_session_backend (fst res) (cr_v2 rq) (cr_v2 rq)) c) (\<lambda>_ c. (Inr res, c))))))" for row resume
    by (intro steps_then drawn steps_on_world steps_on_chat made upgraded) simp_all
  then show ?thesis
    using c by (simp add: open_session_def Let_def split: option.split)
qed

lemma opened_existing:
  assumes "open_session env inp user rq title c = (Inr (session, False), c')"
  shows "cr_session rq = Some session"
  using assms
  by (auto simp: open_session_def Let_def draw_def on_world_def and_then_def get_or_create_session_def insert_session_def lift_fault_def
    split: option.splits prod.splits sum.splits if_splits)

lemma added_steps:
  assumes "seq_fresh s" and "add_step i session message r payload usage s = (Inr x, s')"
  shows "\<exists>row. sp_role row = r \<and> sp_message row = message \<and> sp_payload row = payload \<and>
    (\<forall>other. list_steps other s' = list_steps other s @ (if other = session then [row] else []))"
proof -
  define row where "row = \<lparr>sp_id = i, sp_seq = cd_next_seq s, sp_session = session, sp_message = message, sp_role = r,
      sp_payload = payload, sp_usage = usage\<rparr>"
  have "cd_steps s' = cd_steps s @ [row]"
    using assms(2) by (auto simp: add_step_def row_def split: if_splits)
  moreover have "\<forall>p \<in> set (filter (\<lambda>p. sp_session p = other) (cd_steps s)). sp_seq p \<le> sp_seq row" for other
    using assms(1) by (auto simp: seq_fresh_def row_def)
  ultimately have "list_steps other s' = list_steps other s @ (if other = session then [row] else [])" for other
    by (simp add: list_steps_def sort_key_snoc) (simp add: row_def)
  then show ?thesis
    by (intro exI [of _ row]) (simp add: row_def)
qed

lemma truncated_steps:
  assumes "truncate_from_message_step session message s = (Some n, s')" and "seq_fresh s"
  shows "seq_fresh s' \<and> (\<exists>anchor \<in> set (turn_steps session message User s). \<forall>other. list_steps other s' =
    (if other = session then filter (\<lambda>p. sp_seq p < sp_seq anchor) (list_steps session s) else list_steps other s))"
proof -
  obtain anchor rest where anchor: "turn_steps session message User s = anchor # rest"
    using assms(1) by (auto simp: truncate_from_message_step_def split: list.splits)
  then have s': "cd_steps s' = filter (\<lambda>p. \<not> (sp_session p = session \<and> sp_seq anchor \<le> sp_seq p)) (cd_steps s)" "cd_next_seq s' = cd_next_seq s"
    using assms(1) by (auto simp: truncate_from_message_step_def Let_def)
  have "list_steps other s' = (if other = session then filter (\<lambda>p. sp_seq p < sp_seq anchor) (list_steps session s) else list_steps other s)" for other
    by (auto simp: list_steps_def s' filter_sort not_le conj_commute intro!: arg_cong [of _ _ "sort_key sp_seq"] filter_cong)
  then show ?thesis
    using assms(2) anchor by (auto simp: seq_fresh_def s')
qed

lemma audited_steps: "steps_are ps n c \<Longrightarrow> steps_are ps n (snd (audit_turn t event p c))"
  by (simp add: steps_are_def audit_turn_def on_db_def split: prod.split)

lemma keyed_steps: "steps_are ps n c \<Longrightarrow> steps_are ps n (snd (resolve_api_key inp t c))"
  by (simp add: resolve_api_key_def split: option.split)

lemma admitted_steps: "steps_are ps n c \<Longrightarrow> steps_are ps n (snd (admit_turn inp t c))"
  unfolding admit_turn_def evaluate_turn_def Let_def
  by (intro steps_then audited_steps) (auto intro!: steps_then keyed_steps)

lemma stored_user:
  assumes "store_user_step env t rq prepared rows c = (Inr (), c')"
  shows "\<exists>s'. add_step (te_uuid env (cn_draws c)) (tn_session t) (tn_message t) User (user_payload rq prepared (fst rows)) None (w_chat (cn_now c)) =
      (Inr (te_uuid env (cn_draws c)), s') \<and> w_chat (cn_now c') = add_attachments (snd rows) s'"
proof -
  obtain r s' where "add_step (te_uuid env (cn_draws c)) (tn_session t) (tn_message t) User (user_payload rq prepared (fst rows)) None
      (w_chat (cn_now c)) = (r, s')"
    by fastforce
  then show ?thesis
    using assms
    by (cases r) (auto simp: store_user_step_def store_step_def draw_def on_chat_def lift_fault_def, auto simp: add_step_def split: if_splits)
qed

lemma edited_steps:
  assumes "edit_turn inp session is_new rq c = (Inr res, c')" and "cr_edit rq = Some message" and "seq_fresh (w_chat (cn_now c))"
  shows "\<not> is_new \<and> seq_fresh (w_chat (cn_now c')) \<and> (\<exists>anchor \<in> set (turn_steps session message User (w_chat (cn_now c))).
    \<forall>other. list_steps other (w_chat (cn_now c')) =
      (if other = session then filter (\<lambda>p. sp_seq p < sp_seq anchor) (list_steps session (w_chat (cn_now c)))
       else list_steps other (w_chat (cn_now c))))"
proof -
  have "\<not> is_new"
    using assms(1,2) by (auto simp: edit_turn_def split: if_splits)
  then obtain n s1 where cut: "truncate_from_message_step session message (w_chat (cn_now c)) = (Some n, s1)"
    and c': "w_chat (cn_now c') = clear_provider_state session s1"
    using assms(1,2)
    by (auto simp: edit_turn_def Let_def on_chat_def lift_fault_def and_then_def split: if_splits prod.splits option.splits)
  show ?thesis
    using \<open>\<not> is_new\<close> truncated_steps [OF cut assms(3)]
    by (simp add: c' clear_provider_state_def set_provider_state_def seq_fresh_def list_steps_def)
qed

lemma opened_run:
  assumes "run_opened env inp user message session is_new rq c = (Inr x, c')"
  obtains rq' inherited c2 t prepared c3 where "edit_turn inp session is_new rq c = (Inr (rq', inherited), c2)"
    and "store_user_step env t rq' prepared (attachment_records inp rq' session message) c2 = (Inr (), c3)"
    and "admit_turn (ri_leg inp) t c3 = (Inr x, c')" and "tn_session t = session" and "tn_message t = message"
  using assms
  by (auto simp: run_opened_def Let_def opened_turn_def split: option.splits sum.splits elim!: and_then_InrE)

lemma user_step_added:
  assumes "store_user_step env t rq prepared rows c = (Inr (), c')" and "seq_fresh (w_chat (cn_now c))"
  shows "\<exists>row. sp_role row = User \<and> sp_message row = tn_message t \<and>
    (\<forall>other. list_steps other (w_chat (cn_now c')) = list_steps other (w_chat (cn_now c)) @ (if other = tn_session t then [row] else []))"
  using stored_user [OF assms(1)] added_steps [OF assms(2)] by (fastforce simp: add_attachments_def list_steps_def)

text \<open>
  C9. An edit that gets as far as its leg has replaced the turn: of the chat it edits, the steps before the edited message are left, followed
  by one new user step under the identifier of the new turn; every other chat is as it was.
\<close>

theorem edit_replaces_turn:
  assumes "run_body env inp user rq c = (Inr x, c')" and "cr_edit rq = Some message" and "seq_fresh (w_chat (cn_now c))"
  shows "\<exists>session row. \<exists>anchor \<in> set (turn_steps session message User (w_chat (cn_now c))).
     cr_session rq = Some session \<and> sp_role row = User \<and> sp_message row = te_uuid env (cn_draws c)
     \<and> (\<forall>other. list_steps other (w_chat (cn_now c')) =
          (if other = session then filter (\<lambda>p. sp_seq p < sp_seq anchor) (list_steps session (w_chat (cn_now c))) @ [row]
           else list_steps other (w_chat (cn_now c))))"
proof -
  define new where "new = te_uuid env (cn_draws c)"
  define c0 where "c0 = c\<lparr>cn_draws := Suc (cn_draws c)\<rparr>"
  obtain session is_new c1 where opened: "open_session env inp user rq (derive_title (cr_message rq)) c0 = (Inr (session, is_new), c1)"
    and run: "run_opened env inp user new session is_new rq c1 = (Inr x, c')"
    using assms(1) by (auto simp: run_body_def draw_def new_def c0_def elim!: and_then_InrE)
  have "steps_are (cd_steps (w_chat (cn_now c))) (cd_next_seq (w_chat (cn_now c))) c0"
    by (simp add: steps_are_def c0_def)
  from opened_steps [OF this, of env inp user rq "derive_title (cr_message rq)"]
  have same: "list_steps other (w_chat (cn_now c1)) = list_steps other (w_chat (cn_now c))" "seq_fresh (w_chat (cn_now c1))" for other
    using opened assms(3) by (simp_all add: steps_are_def list_steps_def seq_fresh_def)
  obtain rq' inherited c2 t prepared c3 where edit: "edit_turn inp session is_new rq c1 = (Inr (rq', inherited), c2)"
    and stored: "store_user_step env t rq' prepared (attachment_records inp rq' session new) c2 = (Inr (), c3)"
    and admitted: "admit_turn (ri_leg inp) t c3 = (Inr x, c')" and t: "tn_session t = session" "tn_message t = new"
    using opened_run [OF run] by blast
  note edited = edited_steps [OF edit assms(2) same(2)]
  then have here: "cr_session rq = Some session" and fresh: "seq_fresh (w_chat (cn_now c2))"
    using opened_existing opened by simp_all
  obtain row where row: "sp_role row = User" "sp_message row = new"
    and appended: "\<And>other. list_steps other (w_chat (cn_now c3)) = list_steps other (w_chat (cn_now c2)) @ (if other = session then [row] else [])"
    using user_step_added [OF stored fresh] t by auto
  have "list_steps other (w_chat (cn_now c')) = list_steps other (w_chat (cn_now c3))" for other
    using admitted_steps [of "cd_steps (w_chat (cn_now c3))" "cd_next_seq (w_chat (cn_now c3))" c3 "ri_leg inp" t] admitted
    by (simp add: steps_are_def list_steps_def)
  then show ?thesis
    using here row edited unfolding new_def turn_steps_def same(1) appended by fastforce
qed

section \<open>The whole turn\<close>

text \<open>
  C1. Take the whole life of a message: its run, then any number of deliveries of device results, repeated, late or partial, with anything
  committed in between. Let \<open>foreign\<close> be any property of ledger rows, and let the tools, the requests that run meanwhile and what is
  committed in between post no row under the key of the message, post only rows that satisfy \<open>foreign\<close>, and move the balance by
  the rows they post. If the user has no row under the key at the start, then what the answers of the turn report as spent adds up to
  \<open>n\<close> where: under the key there is no row and \<open>n\<close> is 0, or there is exactly one, the debit of \<open>n\<close>, which is positive; every other row
  the user has got satisfies \<open>foreign\<close>, so the turn has debited under no other key; and the balance has moved by those rows and
  fallen by \<open>n\<close>, by nothing else.
\<close>

theorem turn_total_is_ledger:
  assumes "turn_life foreign env user message c n c'" and "posts_apart foreign user message env"
    and "cn_now c = cn_saved c" and "own_rows user message (cn_saved c) = []"
  shows "(own_rows user message (cn_saved c') = [] \<and> n = 0
        \<or> 0 < n \<and> (\<exists>tx. own_rows user message (cn_saved c') = [tx] \<and> tx_type tx = Debit \<and> tx_amount tx = n))
     \<and> (\<exists>xs. list_all foreign xs \<and> other_rows user message (cn_saved c') = other_rows user message (cn_saved c) @ xs
          \<and> current_balance user (w_db (cn_saved c')) = current_balance user (w_db (cn_saved c)) + net user xs - n)"
proof -
  obtain own where moved: "own_moved [] n own" and at: "account_at foreign user message own (cn_saved c) c'"
    using total_is_ledger [OF assms(1-3)] by blast
  then obtain xs where xs: "list_all foreign xs" "other_rows user message (cn_saved c') = other_rows user message (cn_saved c) @ xs"
      "current_balance user (w_db (cn_saved c')) = current_balance user (w_db (cn_saved c)) + (net user xs + net user own)"
    and own: "own_rows user message (cn_saved c') = own"
    using assms(4) by (auto simp: account_at_def accounts_for_def)
  have "net user own = - n"
    using moved own by (auto simp: own_moved_def net_own)
  then show ?thesis
    using moved own xs by (auto simp: own_moved_def)
qed

section \<open>A chat in use\<close>

text \<open>The chat of theory \<open>Chat_Legs\<close>, with a subscription that has ended or goes on, and a settings context.\<close>

definition demo_sub :: "SubscriptionStatus \<Rightarrow> conn" where
  "demo_sub st = demo_conn\<lparr>cn_now := demo_world\<lparr>w_db := (w_db demo_world)\<lparr>subscriptions := [1 \<mapsto> \<lparr>sub_status = st, sub_plan = None,
      sub_expires_at = None, sub_will_renew = None, sub_updated_at = 0\<rparr>]\<rparr>\<rparr>,
    cn_saved := demo_world\<lparr>w_db := (w_db demo_world)\<lparr>subscriptions := [1 \<mapsto> \<lparr>sub_status = st, sub_plan = None,
      sub_expires_at = None, sub_will_renew = None, sub_updated_at = 0\<rparr>]\<rparr>\<rparr>\<rparr>"

definition demo_request :: "uuid option \<Rightarrow> chat_request" where
  "demo_request edit =
     \<lparr>cr_session = Some 5, cr_message = ''and now'', cr_mode = ''credits'', cr_assistant_mode = None, cr_model = None,
      cr_character = None, cr_workspace = None, cr_project = None, cr_context = None, cr_edit = edit, cr_attachments = [],
      cr_generation_mode = ''general'', cr_v2 = True, cr_temporary = False, cr_resume_only = True\<rparr>"

definition demo_run_inputs :: run_inputs where
  "demo_run_inputs =
     \<lparr>ri_leg = demo_inputs, ri_soft_ttl = 0, ri_now = 0, ri_selectable = (\<lambda>_. True), ri_characters = False, ri_known_character = (\<lambda>_. False),
      ri_owns_workspace = (\<lambda>_ _ _. False), ri_default_assistant_mode = (\<lambda>_ _. ''chat''), ri_as_request = (\<lambda>_. JNull),
      ri_placeholder_suffix = [], ri_prepare = (\<lambda>_. Inl (PyFault [])), ri_moderate = (\<lambda>_ _. None), ri_records = (\<lambda>_ _ _. ([], [])),
      ri_prompt = (\<lambda>_ _ _ _ _. Inr []), ri_first_turn = (\<lambda>_ _ _. None)\<rparr>"

lemma demo_row_facts:
  "sp_id ` set (cd_steps (w_chat demo_world)) = {50}" "sp_message ` set (cd_steps (w_chat demo_world)) = {7}"
  "cd_next_seq (w_chat demo_world) = 1" "seq_fresh (w_chat demo_world)"
  by (simp_all add: demo_world_def seq_fresh_def)

lemma demo_sub_facts:
  "w_chat (cn_now (demo_sub st)) = w_chat demo_world" "cn_draws (demo_sub st) = 0" "cn_rounds (demo_sub st) = 0"
  "users (w_db (cn_now (demo_sub st))) = [1 \<mapsto> False]" "chat_sessions (w_db (cn_now (demo_sub st))) = [5 \<mapsto> 1]"
  "ledger (w_db (cn_now (demo_sub st))) = ledger small_db" "wallets (w_db (cn_now (demo_sub st))) = wallets small_db"
  by (simp_all add: demo_sub_def demo_conn_def demo_world_def)

lemma demo_request_facts [simp]:
  "cr_session (demo_request e) = Some 5" "cr_edit (demo_request e) = e" "cr_attachments (demo_request e) = []" "cr_resume_only (demo_request e)"
  "cr_v2 (demo_request e)" "cr_context (demo_request e) = None" "cr_message (demo_request e) = ''and now''"
  by (simp_all add: demo_request_def)

lemma demo_inputs_facts [simp]:
  "ri_prompt demo_run_inputs = (\<lambda>_ _ _ _ _. Inr [])" "in_cost (ri_leg demo_run_inputs) = (\<lambda>_. 3)"
  by (simp_all add: demo_run_inputs_def demo_inputs_def)

lemma demo_plain:
  "\<exists>sess. plain_run (demo_env noon) demo_run_inputs 1 (demo_request None) 5 sess [] (demo_sub st) \<and> run_cost demo_run_inputs sess = 3"
proof -
  obtain sess where sess: "cd_sessions (w_chat demo_world) 5 = Some sess" "cs_user sess = 1" "cs_backend sess = Some ''v2''"
    "cs_mode sess = ''credits''"
    by (simp add: demo_world_def)
  then have "get_chat_session 5 1 (w_chat demo_world) = Some sess" and "session_mode sess = Mode_credits"
    by (simp_all add: get_chat_session_def session_mode_def)
  then have "plain_run (demo_env noon) demo_run_inputs 1 (demo_request None) 5 sess [] (demo_sub st)"
    using sess unfolding plain_run_def demo_sub_facts demo_row_facts by simp
  then show ?thesis
    by (auto simp: run_cost_def)
qed

lemma demo_policy: "subscription_status (run_state demo_run_inputs 1 (demo_sub st)) = (if st = Sub_active then Sub_active else
    if st = Sub_expired then Sub_expired else Sub_none)"
  by (cases st) (simp_all add: run_state_def load_policy_state_def demo_sub_def effective_subscription_status_def demo_conn_def)

theorem refused_run_leaves_question_witness:
  "\<exists>out c'. run_turn (demo_env noon) demo_run_inputs 1 (demo_request None) (demo_sub Sub_expired) = (Inr out, c') \<and> ro_status out = Blocked
     \<and> map sp_role (list_steps 5 (w_chat (cn_saved c'))) = [User, User]"
proof -
  obtain sess where sess: "plain_run (demo_env noon) demo_run_inputs 1 (demo_request None) 5 sess [] (demo_sub Sub_expired)"
    using demo_plain by blast
  have "\<not> allow (evaluate (run_state demo_run_inputs 1 (demo_sub Sub_expired)) Mode_credits (run_cost demo_run_inputs sess))"
    using demo_policy [of Sub_expired] by (simp add: evaluate_def)
  moreover have "seq_fresh (w_chat (cn_now (demo_sub Sub_expired)))"
    and "te_uuid (demo_env noon) (cn_draws (demo_sub Sub_expired)) \<notin> sp_message ` set (cd_steps (w_chat (cn_now (demo_sub Sub_expired))))"
    by (simp_all add: demo_sub_facts demo_row_facts)
  ultimately obtain out c' where "run_turn (demo_env noon) demo_run_inputs 1 (demo_request None) (demo_sub Sub_expired) = (Inr out, c')"
    and "ro_status out = Blocked" and "list_steps 5 (w_chat (cn_saved c')) =
      list_steps 5 (w_chat demo_world) @ [asked_row (demo_env noon) (demo_request None) 5 (demo_sub Sub_expired)]"
    using refused_run_leaves_question [OF sess] unfolding demo_sub_facts(1) by blast
  moreover have "map sp_role (list_steps 5 (w_chat demo_world)) = [User]"
    by (simp add: list_steps_def demo_world_def)
  ultimately show ?thesis
    by (simp add: asked_row_def)
qed

text \<open>With the subscription running, the same message is answered and charged.\<close>

lemma k_no_uuid: "''k'' \<noteq> uuid_str u"
proof
  assume "''k'' = uuid_str u"
  then have "length ''k'' = length (uuid_str u)"
    by (rule arg_cong)
  then show False
    by (simp add: uuid_str_length)
qed

lemma demo_wallet: "wallet_ok (w_db (cn_now (demo_sub st)))" "current_balance 1 (w_db (cn_now (demo_sub st))) = 40"
  "charge 1 i (cn_now (demo_sub st)) = None" "own_rows 1 i (cn_saved (demo_sub st)) = []" "cn_now (demo_sub st) = cn_saved (demo_sub st)"
  using small_db_ok k_no_uuid
  by (simp_all add: demo_sub_def demo_conn_def demo_world_def current_balance_def charge_def own_rows_def existing_tx_def small_db_def find_tx_def empty_db_def wallet_ok_def)

lemma demo_asked:
  "neutral_history_from_steps (\<lambda>_. None) (list_steps 5 (asked_chat (demo_env noon) (demo_request None) 5 (demo_sub Sub_active))) =
     Inr [content_message User (JArr [text_block ''what time is it'']), content_message User (JArr [text_block ''and now''])]"
proof -
  have "list_steps 5 (w_chat demo_world) = [\<lparr>sp_id = 50, sp_seq = 0, sp_session = 5, sp_message = 7, sp_role = User,
          sp_payload = [(''content'', JArr [text_block ''what time is it''])], sp_usage = None\<rparr>]"
    by (simp add: list_steps_def demo_world_def)
  moreover have "user_payload (demo_request None) None [] = [(''content'', JArr [text_block ''and now'']), (''generationMode'', JStr ''general'')]"
    by (simp add: user_payload_def user_step_content_def render_context_block_def compose_turn0_text_def demo_request_def py_strip_def
      strip_by_def py_isspace_def)
  ultimately have "list_steps 5 (asked_chat (demo_env noon) (demo_request None) 5 (demo_sub Sub_active)) =
     [\<lparr>sp_id = 50, sp_seq = 0, sp_session = 5, sp_message = 7, sp_role = User,
          sp_payload = [(''content'', JArr [text_block ''what time is it''])], sp_usage = None\<rparr>,
      \<lparr>sp_id = 102, sp_seq = 1, sp_session = 5, sp_message = 100, sp_role = User,
          sp_payload = [(''content'', JArr [text_block ''and now'']), (''generationMode'', JStr ''general'')], sp_usage = None\<rparr>]"
    using asked_steps [of "demo_sub Sub_active" 5 "demo_env noon" "demo_request None"]
    by (simp add: demo_sub_facts demo_row_facts asked_row_def)
  then show ?thesis
    by (simp only:) code_simp
qed

lemma demo_covered:
  "\<exists>sess. plain_run (demo_env noon) demo_run_inputs 1 (demo_request None) 5 sess [] (demo_sub Sub_active)
     \<and> run_cost demo_run_inputs sess = 3
     \<and> subscription_status (run_state demo_run_inputs 1 (demo_sub Sub_active)) = Sub_active
     \<and> te_uuid (demo_env noon) (cn_draws (demo_sub Sub_active) + 3) \<notin>
      insert (te_uuid (demo_env noon) (cn_draws (demo_sub Sub_active) + 2)) (sp_id ` set (cd_steps (w_chat (cn_now (demo_sub Sub_active)))))"
proof -
  have "te_uuid (demo_env noon) (cn_draws (demo_sub Sub_active) + 3) \<notin>
      insert (te_uuid (demo_env noon) (cn_draws (demo_sub Sub_active) + 2)) (sp_id ` set (cd_steps (w_chat (cn_now (demo_sub Sub_active)))))"
    by (simp add: demo_sub_facts demo_row_facts)
  then show ?thesis
    using demo_policy [of Sub_active] demo_plain [of Sub_active] by auto
qed

lemma demo_answered:
  "\<exists>out c'. run_turn (demo_env noon) demo_run_inputs 1 (demo_request None) (demo_sub Sub_active) = (Inr out, c') \<and> ro_spent out = 3"
proof -
  have "bigint_ok 3" and "seq_fresh (w_chat (cn_now (demo_sub Sub_active)))"
    by (simp_all add: bigint_ok_def demo_sub_facts demo_row_facts)
  then show ?thesis
    using demo_covered message_answered [of "demo_env noon" demo_run_inputs 1 "demo_request None" 5 _ "[]" "demo_sub Sub_active" 3 _ "demo_result ''end_turn'' []"]
      demo_asked demo_wallet
    by (fastforce simp: noon_def demo_result_def id_def)
qed

theorem covered_message_answered_witness:
  "\<exists>out c'. run_turn (demo_env noon) demo_run_inputs 1 (demo_request None) (demo_sub Sub_active) = (Inr out, c')
     \<and> ro_status out = Assistant_message \<and> ro_message out = Some ''noon'' \<and> ro_spent out = 3
     \<and> current_balance 1 (w_db (cn_saved c')) = 37
     \<and> map sp_role (list_steps 5 (w_chat (cn_saved c'))) = map sp_role (list_steps 5 (w_chat demo_world)) @ [User, Assistant]"
proof -
  obtain sess where plain: "plain_run (demo_env noon) demo_run_inputs 1 (demo_request None) 5 sess [] (demo_sub Sub_active)"
    and price: "3 = max 1 (run_cost demo_run_inputs sess)"
    and active: "subscription_status (run_state demo_run_inputs 1 (demo_sub Sub_active)) = Sub_active"
    and fresh_id: "te_uuid (demo_env noon) (cn_draws (demo_sub Sub_active) + 3) \<notin>
      insert (te_uuid (demo_env noon) (cn_draws (demo_sub Sub_active) + 2)) (sp_id ` set (cd_steps (w_chat (cn_now (demo_sub Sub_active)))))"
    using demo_covered by auto
  have "bigint_ok 3" and covers: "3 \<le> current_balance 1 (w_db (cn_now (demo_sub Sub_active)))"
    and fresh: "seq_fresh (w_chat (cn_now (demo_sub Sub_active)))"
    by (simp_all add: bigint_ok_def demo_sub_facts demo_row_facts demo_wallet(2))
  note given = plain active demo_wallet(1) price this(1) covers demo_wallet(3) fresh_id
  have history: "neutral_history_from_steps (te_loads (demo_env noon)) (list_steps 5 (asked_chat (demo_env noon) (demo_request None) 5 (demo_sub Sub_active))) =
     Inr [content_message User (JArr [text_block ''what time is it'']), content_message User (JArr [text_block ''and now''])]"
    by (simp add: demo_asked)
  have answers: "te_ask (demo_env noon) (cn_rounds (demo_sub Sub_active)) k rq args = Answered (demo_result ''end_turn'' [])" for k rq args
    by (simp add: noon_def)
  have ends: "te_meanwhile (demo_env noon) (cn_rounds (demo_sub Sub_active)) = id" "lr_stop (demo_result ''end_turn'' []) \<noteq> Some ''max_tokens''"
    "lr_tool_uses (demo_result ''end_turn'' []) = []" "lr_text (demo_result ''end_turn'' []) = ''noon''"
    by (simp_all add: demo_result_def id_def)
  from covered_message_answered [OF given history answers ends(1,2) ends(3) fresh]
  obtain out c' row where run: "run_turn (demo_env noon) demo_run_inputs 1 (demo_request None) (demo_sub Sub_active) = (Inr out, c')"
      "ro_status out = Assistant_message" "ro_message out = Some (lr_text (demo_result ''end_turn'' []))" "ro_spent out = 3"
      "current_balance 1 (w_db (cn_saved c')) = current_balance 1 (w_db (cn_now (demo_sub Sub_active))) - 3"
    and steps: "list_steps 5 (w_chat (cn_saved c')) = list_steps 5 (w_chat (cn_now (demo_sub Sub_active)))
        @ [asked_row (demo_env noon) (demo_request None) 5 (demo_sub Sub_active), row]" "sp_role row = Assistant"
    by (elim exE conjE) blast
  have "map sp_role (list_steps 5 (w_chat (cn_saved c'))) = map sp_role (list_steps 5 (w_chat demo_world)) @ [User, Assistant]"
    using steps by (simp add: demo_sub_facts asked_row_def)
  then show ?thesis
    using run ends(4) demo_wallet(2) [of Sub_active] by (intro exI conjI) simp_all
qed

theorem turn_total_is_ledger_witness:
  "\<exists>c' tx. turn_life (\<lambda>_. False) (demo_env noon) 1 100 (demo_sub Sub_active) 3 c'
     \<and> own_rows 1 100 (cn_saved c') = [tx] \<and> tx_amount tx = 3 \<and> current_balance 1 (w_db (cn_saved c')) = 37"
proof -
  obtain out c' where run: "run_turn (demo_env noon) demo_run_inputs 1 (demo_request None) (demo_sub Sub_active) = (Inr out, c')"
    and "ro_spent out = 3"
    using demo_answered by blast
  then have life: "turn_life (\<lambda>_. False) (demo_env noon) 1 100 (demo_sub Sub_active) 3 c'"
    using started [OF run, of 100] by (simp add: demo_sub_facts spent_by_def)
  have "posts_apart (\<lambda>_. False) 1 100 (demo_env noon)"
    by (simp add: posts_apart_def demo_env_def accounts_refl)
  from turn_total_is_ledger [OF life this demo_wallet(5,4)] have "\<exists>tx. own_rows 1 100 (cn_saved c') = [tx] \<and> tx_amount tx = 3"
    "\<exists>xs. list_all (\<lambda>_. False) xs \<and> current_balance 1 (w_db (cn_saved c')) = 40 + net 1 xs - 3"
    using demo_wallet(2) [of Sub_active] unfolding demo_wallet(5) by auto
  moreover have "xs = []" if "list_all (\<lambda>_. False) xs" for xs :: "ledger_tx list"
    using that by (cases xs) simp_all
  ultimately show ?thesis
    using life by fastforce
qed

text \<open>Editing the first message drops it.\<close>

lemma demo_edited:
  "\<exists>x c'. run_body (demo_env noon) demo_run_inputs 1 (demo_request (Some 7)) (demo_sub Sub_active) = (Inr x, c')"
proof -
  define c where "c = demo_sub Sub_active"
  have chat: "w_chat (cn_now c) = w_chat demo_world" "users (w_db (cn_now c)) = [1 \<mapsto> False]" "chat_sessions (w_db (cn_now c)) = [5 \<mapsto> 1]" "cn_draws c = 0"
    by (simp_all add: c_def demo_sub_facts)
  obtain sess where sess: "cd_sessions (w_chat demo_world) 5 = Some sess" "cs_user sess = 1" "cs_backend sess = Some ''v2''" "cs_mode sess = ''credits''"
    by (simp add: demo_world_def)
  have opened: "open_session (demo_env noon) demo_run_inputs 1 (demo_request (Some 7)) title (c\<lparr>cn_draws := Suc 0\<rparr>) = (Inr (5, False), c\<lparr>cn_draws := 2\<rparr>)" for title
    using sess by (simp add: open_session_def draw_def on_world_def get_or_create_session_def get_chat_session_def chat lift_fault_def
      on_chat_def ensure_session_backend_def Let_def)
  have admitted: "\<exists>x c''. admit_turn inp t c' = (Inr x, c'')" if "tn_user t = 1" "tn_session t = 5" "tn_mode t = Mode_credits"
    "users (w_db (cn_now c')) = [1 \<mapsto> False]" "chat_sessions (w_db (cn_now c')) = [5 \<mapsto> 1]" for inp t c'
    using that by (auto simp: admit_turn_def evaluate_turn_def audit_turn_def on_db_def audit_record_def lift_fault_def Let_def resolve_api_key_def)
  obtain s' where cut: "truncate_from_message_step 5 7 (w_chat demo_world) = (Some 1, s')"
    and s': "cd_sessions s' = cd_sessions (w_chat demo_world)" "cd_steps s' = []"
    by (simp add: truncate_from_message_step_def turn_steps_def list_steps_def demo_world_def)
  have files: "turn_attachments 5 7 (w_chat demo_world) = []"
    by (simp add: turn_attachments_def demo_world_def)
  have "\<exists>x c'. run_opened (demo_env noon) demo_run_inputs 1 100 5 False (demo_request (Some 7)) (c\<lparr>cn_draws := 2\<rparr>) = (Inr x, c')"
    using sess
    by (simp add: run_opened_def edit_turn_def chat files Let_def on_chat_def cut lift_fault_def clear_provider_state_def set_provider_state_def on_session_def s'
      prepare_turn_def opened_turn_def store_user_step_def store_step_def draw_def add_step_def attachment_records_def py_strip_def strip_by_def py_isspace_def
      session_mode_def admitted)
  then show ?thesis
    unfolding c_def [symmetric] by (simp add: run_body_def draw_def chat opened)
qed

theorem edit_replaces_turn_witness:
  "\<exists>x c' row. run_body (demo_env noon) demo_run_inputs 1 (demo_request (Some 7)) (demo_sub Sub_active) = (Inr x, c')
     \<and> sp_message row = 100 \<and> list_steps 5 (w_chat (cn_now c')) = [row]"
proof -
  obtain x c' where run: "run_body (demo_env noon) demo_run_inputs 1 (demo_request (Some 7)) (demo_sub Sub_active) = (Inr x, c')"
    using demo_edited by blast
  have one: "list_steps 5 (w_chat demo_world) = [a] \<longrightarrow> turn_steps 5 7 User (w_chat demo_world) = [a]" "list_steps 5 (w_chat demo_world) \<noteq> []"
    "length (list_steps 5 (w_chat demo_world)) = 1" for a
    by (auto simp: turn_steps_def list_steps_def demo_world_def)
  then obtain a where steps: "list_steps 5 (w_chat demo_world) = [a]" "turn_steps 5 7 User (w_chat demo_world) = [a]"
    by (cases "list_steps 5 (w_chat demo_world)") auto
  have "seq_fresh (w_chat (cn_now (demo_sub Sub_active)))"
    by (simp add: demo_sub_facts demo_row_facts)
  from edit_replaces_turn [OF run _ this, of 7] show ?thesis
    using run steps by (auto simp: demo_sub_facts)
qed

end
