(* ===== verification/Signed_Url.thy ===== *)
theory Signed_Url
  imports PyBytes PyText
begin

text \<open>
  Signed links: \<open>chats/attachment_url.py\<close> (stored attachments of a chat), \<open>media_generation/signed_url.py\<close> (results of a run) and
  \<open>website/signed_url.py\<close> (previews of a site). A token is the Base64 text of its expiry and of a MAC over what it opens. HMAC-SHA256 is the
  argument \<open>mac\<close> (key, then message, as byte lists); the secret and the clock are arguments too.
\<close>

section \<open>Tokens\<close>

definition rstrip_pad :: "string \<Rightarrow> string" where
  "rstrip_pad s = rev (dropWhile (\<lambda>c. c = CHR ''='') (rev s))"

definition b64url_encode :: "nat list \<Rightarrow> string" where
  "b64url_encode bs = rstrip_pad (urlsafe_b64encode bs)"

definition b64url_decode :: "string \<Rightarrow> nat list option" where
  "b64url_decode s =
     Option.bind (ascii_encode (s @ replicate ((4 - length s mod 4) mod 4) (CHR ''=''))) urlsafe_b64decode"

text \<open>What a token opens, and the text that is signed.\<close>

datatype signed_object =
    Chat_attachment uuid uuid uuid
  | Media_asset uuid uuid int
  | Site_preview uuid uuid

definition attachment_canonical :: "uuid \<Rightarrow> uuid \<Rightarrow> uuid \<Rightarrow> int \<Rightarrow> string" where
  "attachment_canonical attachment session owner exp =
     ''chat-attachment|'' @ uuid_str attachment @ ''|'' @ uuid_str session @ ''|'' @ uuid_str owner @ ''|'' @ int_str exp"

definition media_canonical :: "uuid \<Rightarrow> uuid \<Rightarrow> int \<Rightarrow> int \<Rightarrow> string" where
  "media_canonical job owner index exp =
     ''media-asset|'' @ uuid_str job @ ''|'' @ uuid_str owner @ ''|'' @ int_str index @ ''|'' @ int_str exp"

definition preview_canonical :: "uuid \<Rightarrow> uuid \<Rightarrow> int \<Rightarrow> string" where
  "preview_canonical project owner exp = uuid_str project @ ''|'' @ uuid_str owner @ ''|'' @ int_str exp"

definition canonical :: "signed_object \<Rightarrow> int \<Rightarrow> string" where
  "canonical x exp =
     (case x of
        Chat_attachment a s owner \<Rightarrow> attachment_canonical a s owner exp
      | Media_asset job owner i \<Rightarrow> media_canonical job owner i exp
      | Site_preview project owner \<Rightarrow> preview_canonical project owner exp)"

type_synonym keyed_hash = "nat list \<Rightarrow> nat list \<Rightarrow> nat list"

definition sign :: "keyed_hash \<Rightarrow> string \<Rightarrow> signed_object \<Rightarrow> int \<Rightarrow> nat list" where
  "sign mac secret x exp = mac (utf8_encode secret) (utf8_encode (canonical x exp))"

text \<open>\<open>None\<close> is \<open>PreviewSecretMissingError\<close>.\<close>

definition build_token :: "keyed_hash \<Rightarrow> string \<Rightarrow> int \<Rightarrow> signed_object \<Rightarrow> int \<Rightarrow> (string \<times> int) option" where
  "build_token mac secret ttl x now =
     (if secret = [] then None
      else let exp = now + ttl in
        Some (b64url_encode (map of_char (int_str exp)) @ ''.'' @ b64url_encode (sign mac secret x exp), exp))"

fun split_at_dots :: "string \<Rightarrow> string list" where
  "split_at_dots [] = [[]]"
| "split_at_dots (c # cs) =
     (if c = CHR ''.'' then [] # split_at_dots cs
      else case split_at_dots cs of w # ws \<Rightarrow> (c # w) # ws | [] \<Rightarrow> [[c]])"

definition token_parts :: "string \<Rightarrow> (int \<times> nat list) option" where
  "token_parts token =
     (case split_at_dots token of
        [exp_part, mac_part] \<Rightarrow>
          Option.bind (b64url_decode exp_part) (\<lambda>bs.
          if \<not> list_all (\<lambda>b. b < 128) bs then None
          else Option.bind (py_int_base 10 (map char_of bs)) (\<lambda>exp.
          map_option (Pair exp) (b64url_decode mac_part)))
      | _ \<Rightarrow> None)"

text \<open>The expiry of a token that opens \<open>x\<close> at \<open>now\<close>. A missing secret refuses every token; for a preview it is raised instead.\<close>

definition verify_token :: "keyed_hash \<Rightarrow> string \<Rightarrow> signed_object \<Rightarrow> string \<Rightarrow> int \<Rightarrow> int option" where
  "verify_token mac secret x token now =
     (case token_parts token of
        None \<Rightarrow> None
      | Some (exp, presented) \<Rightarrow>
          if secret = [] then None
          else if presented = sign mac secret x exp \<and> now \<le> exp then Some exp else None)"

text \<open>The address around a token of an attachment; \<open>lk_domain\<close> is \<open>normalized_service_domain()\<close>.\<close>

record link_settings =
  lk_mac :: keyed_hash
  lk_secret :: string
  lk_ttl :: int
  lk_domain :: string
  lk_iso :: "int \<Rightarrow> string"

definition attachment_path :: "uuid \<Rightarrow> uuid \<Rightarrow> string \<Rightarrow> string" where
  "attachment_path session attachment token =
     ''/v1/chats/'' @ uuid_str session @ ''/attachments/'' @ uuid_str attachment @ ''/'' @ token"

definition build_attachment_url :: "link_settings \<Rightarrow> uuid \<Rightarrow> uuid \<Rightarrow> uuid \<Rightarrow> int \<Rightarrow> (string \<times> int) option" where
  "build_attachment_url lk attachment session owner now =
     map_option (\<lambda>(token, exp).
         (let path = attachment_path session attachment token in
          (if lk_domain lk = [] then path else ''https://'' @ lk_domain lk @ path, exp)))
       (build_token (lk_mac lk) (lk_secret lk) (lk_ttl lk) (Chat_attachment attachment session owner) now)"

section \<open>The Base64 text without padding\<close>

lemma plain_char: "v < 64 \<Longrightarrow> b64_char v \<noteq> CHR ''='' \<and> b64_char v \<noteq> CHR ''.'' \<and> CHR ''='' \<noteq> b64_char v \<and> CHR ''.'' \<noteq> b64_char v"
  using b64_char_code [of v] by (auto split: if_splits dest: arg_cong [of _ _ "of_char :: char \<Rightarrow> nat"])

lemma encode_shape:
  assumes "\<forall>b \<in> set bs. b < 256"
  shows "\<exists>body n. urlsafe_b64encode bs = body @ replicate n (CHR ''='') \<and> CHR ''='' \<notin> set body \<and> CHR ''.'' \<notin> set body
    \<and> n = (4 - length body mod 4) mod 4"
  using assms
proof (induction bs rule: urlsafe_b64encode.induct)
  case 1
  show ?case
    by (intro exI [of _ "[]"] exI [of _ 0]) simp
next
  case (2 a)
  then have "a div 4 < 64" "a mod 4 * 16 < 64" by simp_all
  then show ?case
    by (intro exI [of _ "[b64_char (a div 4), b64_char (a mod 4 * 16)]"] exI [of _ 2])
      (auto simp: numeral_2_eq_2 plain_char)
next
  case (3 a b)
  then have "a div 4 < 64" "b div 16 < 16" "a mod 4 * 16 + b div 16 < 64" "b mod 16 * 4 < 64" by auto
  then show ?case
    by (intro exI [of _ "[b64_char (a div 4), b64_char (a mod 4 * 16 + b div 16), b64_char (b mod 16 * 4)]"] exI [of _ 1])
      (auto simp: plain_char)
next
  case (4 a b c r)
  then obtain body n where "urlsafe_b64encode r = body @ replicate n (CHR ''='')" "CHR ''='' \<notin> set body" "CHR ''.'' \<notin> set body"
    "n = (4 - length body mod 4) mod 4"
    by auto
  moreover have "a div 4 < 64" "b div 16 < 16" "c div 64 < 4" "c mod 64 < 64"
    "a mod 4 * 16 + b div 16 < 64" "b mod 16 * 4 + c div 64 < 64" using 4(2) by auto
  ultimately show ?case
    by (intro exI [of _ "b64_char (a div 4) # b64_char (a mod 4 * 16 + b div 16) # b64_char (b mod 16 * 4 + c div 64) # b64_char (c mod 64) # body"]
      exI [of _ n]) (auto simp: plain_char)
qed

lemma rstrip_shape: "CHR ''='' \<notin> set body \<Longrightarrow> rstrip_pad (body @ replicate n (CHR ''='')) = body"
proof -
  assume body: "CHR ''='' \<notin> set body"
  have "dropWhile (\<lambda>c. c = CHR ''='') (replicate n (CHR ''='') @ rev body) = rev body"
    using body by (induction n) (simp_all add: dropWhile_eq_self_iff hd_rev, metis last_in_set)
  then show ?thesis
    by (simp add: rstrip_pad_def)
qed

lemma b64url_decode_encode: "\<forall>b \<in> set bs. b < 256 \<Longrightarrow> b64url_decode (b64url_encode bs) = Some bs"
proof -
  assume bytes: "\<forall>b \<in> set bs. b < 256"
  obtain body n where shape: "urlsafe_b64encode bs = body @ replicate n (CHR ''='')" "CHR ''='' \<notin> set body"
    "n = (4 - length body mod 4) mod 4"
    using encode_shape [OF bytes] by blast
  have "ascii_encode (urlsafe_b64encode bs) = Some (map of_char (urlsafe_b64encode bs))"
    using urlsafe_b64encode_ascii [OF bytes] by (simp add: ascii_encode_def)
  then show ?thesis
    using base64_roundtrip [OF bytes] shape by (simp add: b64url_decode_def b64url_encode_def rstrip_shape)
qed

lemma b64url_no_dot: "\<forall>b \<in> set bs. b < 256 \<Longrightarrow> CHR ''.'' \<notin> set (b64url_encode bs)"
  using encode_shape [of bs] by (auto simp: b64url_encode_def rstrip_shape)

lemma split_plain: "CHR ''.'' \<notin> set s \<Longrightarrow> split_at_dots s = [s]"
  by (induction s) auto

lemma split_pair: "CHR ''.'' \<notin> set s \<Longrightarrow> CHR ''.'' \<notin> set t \<Longrightarrow> split_at_dots (s @ ''.'' @ t) = [s, t]"
  by (induction s) (auto simp: split_plain)

section \<open>The decimal text of an integer\<close>

lemma nat_str_fixed: "\<exists>k. nat_str n = fixed_digits 10 (Suc k) n \<and> n < 10 ^ Suc k"
proof (induction n rule: nat_str.induct)
  case (1 n)
  show ?case
  proof (cases "n < 10")
    case True
    then show ?thesis
      by (intro exI [of _ 0]) (simp add: nat_str.simps [of n])
  next
    case False
    then obtain k where "nat_str (n div 10) = fixed_digits 10 (Suc k) (n div 10)" and "n div 10 < 10 ^ Suc k"
      using 1 by blast
    then show ?thesis
      using False by (intro exI [of _ "Suc k"]) (auto simp: nat_str.simps [of n])
  qed
qed

lemma nat_str_digits: "c \<in> set (nat_str n) \<Longrightarrow> \<exists>d < 10. c = digit_char d"
proof -
  assume c: "c \<in> set (nat_str n)"
  obtain k where "nat_str n = fixed_digits 10 (Suc k) n"
    using nat_str_fixed by blast
  then have "c \<in> digit_char ` {..<10}"
    using c fixed_digits_set [of 10 "Suc k" n] by (auto simp del: fixed_digits.simps)
  then show ?thesis
    by auto
qed

lemma nat_str_value: "int_digits 10 0 False (nat_str n) = Some n"
proof -
  obtain k where "nat_str n = fixed_digits 10 (Suc k) n" and "n < 10 ^ Suc k"
    using nat_str_fixed by blast
  then show ?thesis
    using int_digits_fixed [of 10 "Suc k" n] by (simp del: fixed_digits.simps)
qed

lemma int_str_chars: "c \<in> set (int_str i) \<Longrightarrow> c = CHR ''-'' \<or> (\<exists>d < 10. c = digit_char d)"
  using nat_str_digits by (auto simp: int_str_def split: if_splits)

lemma int_str_value:
  assumes "length (int_str i) \<le> 4300"
  shows "py_int_base 10 (int_str i) = Some i"
proof -
  have plain: "\<not> py_isspace c" if "c \<in> set (int_str i)" for c
    using int_str_chars [OF that] digit_char_plain(9) by (auto simp: py_isspace_def)
  have "py_strip (int_str i) = int_str i"
    unfolding py_strip_def by (rule strip_by_idle) (use plain in auto)
  moreover have "length (filter (\<lambda>c. digit_value c \<noteq> None) (int_str i)) \<le> 4300"
    using assms length_filter_le order_trans by blast
  moreover have body: "int_body 10 (nat_str n) = Some n" for n
    by (simp add: int_body_def nat_str_value)
  moreover obtain c cs where "nat_str (nat \<bar>i\<bar>) = c # cs" and "c \<noteq> CHR ''-''" "c \<noteq> CHR ''+''"
    using nat_str_digits [of "hd (nat_str (nat \<bar>i\<bar>))" "nat \<bar>i\<bar>"] digit_char_plain(2,3) nat_str_fixed [of "nat \<bar>i\<bar>"]
    by (cases "nat_str (nat \<bar>i\<bar>)") auto
  ultimately show ?thesis
    using body [of "nat \<bar>i\<bar>"] by (auto simp: py_int_base_def Let_def int_str_def)
qed

section \<open>What a token opens\<close>

definition bytes_ok :: "nat list \<Rightarrow> bool" where
  "bytes_ok bs \<longleftrightarrow> (\<forall>b \<in> set bs. b < 256)"

lemma text_codes:
  "(\<And>c. c \<in> set s \<Longrightarrow> of_char c < (128 :: nat)) \<Longrightarrow>
   list_all (\<lambda>b. b < (128 :: nat)) (map of_char s) \<and> map char_of (map of_char s :: nat list) = s"
  by (auto simp: list_all_iff comp_def)

lemma int_str_ascii: "c \<in> set (int_str i) \<Longrightarrow> of_char c < (128 :: nat)"
  using int_str_chars [of c i] digit_char_code by (auto split: if_splits)

lemma token_parts_built:
  assumes "length (int_str exp) \<le> 4300" and "bytes_ok m"
  shows "token_parts (b64url_encode (map of_char (int_str exp)) @ ''.'' @ b64url_encode m) = Some (exp, m)"
proof -
  have codes: "\<forall>b \<in> set (map of_char (int_str exp)). b < (256 :: nat)"
    by auto
  have m: "\<forall>b \<in> set m. b < 256"
    using assms(2) by (simp add: bytes_ok_def)
  have exact: "list_all (\<lambda>b. b < (128 :: nat)) (map of_char (int_str exp))" "map char_of (map of_char (int_str exp) :: nat list) = int_str exp"
    using text_codes [of "int_str exp"] int_str_ascii by blast+
  show ?thesis
    unfolding token_parts_def split_pair [OF b64url_no_dot [OF codes] b64url_no_dot [OF m]]
    using exact by (simp add: b64url_decode_encode [OF codes] b64url_decode_encode [OF m] int_str_value [OF assms(1)] del: map_map)
qed

text \<open>The signed texts of different objects differ.\<close>

lemma bar_split: "CHR ''|'' \<notin> set a \<Longrightarrow> CHR ''|'' \<notin> set b \<Longrightarrow> a @ CHR ''|'' # r = b @ CHR ''|'' # s \<longleftrightarrow> a = b \<and> r = s"
proof (induction a arbitrary: b)
  case Nil
  then show ?case
    by (cases b) auto
next
  case (Cons c a)
  then show ?case
    by (cases b) auto
qed

lemma digit_not_bar: "d < 16 \<Longrightarrow> digit_char d \<noteq> CHR ''|''"
  using digit_char_code [of d] by (auto split: if_splits)

lemma uuid_no_bar: "CHR ''|'' \<notin> set (uuid_str u)"
proof
  assume "CHR ''|'' \<in> set (uuid_str u)"
  then have "CHR ''|'' \<in> set (uuid_hex u)"
    using uuid_str_set [of "CHR ''|''" u] by auto
  then obtain d where "d < 16" "CHR ''|'' = digit_char d"
    using fixed_digits_set [of 16 32 "unat u"] unfolding uuid_hex_def by auto
  then show False
    using digit_not_bar [of d] by simp
qed

lemma int_no_bar: "CHR ''|'' \<notin> set (int_str i)"
proof
  assume "CHR ''|'' \<in> set (int_str i)"
  then have "\<exists>d < 10. CHR ''|'' = digit_char d"
    using int_str_chars [of "CHR ''|''" i] by auto
  then obtain d where "d < 10" "digit_char d = CHR ''|''"
    by auto
  then show False
    using digit_not_bar [of d] by simp
qed

lemma nat_str_inject: "nat_str m = nat_str n \<Longrightarrow> m = n"
  using nat_str_value by (metis option.inject)

lemma nat_str_not_minus: "nat_str n \<noteq> CHR ''-'' # s"
proof
  assume "nat_str n = CHR ''-'' # s"
  then obtain d where "d < 10" "CHR ''-'' = digit_char d"
    using nat_str_digits [of "CHR ''-''" n] by auto
  then show False
    using digit_char_plain(2) [of d] by simp
qed

lemma int_str_inject: "int_str i = int_str j \<longleftrightarrow> i = j"
  using nat_str_inject [of "nat (- i)" "nat (- j)"] nat_str_inject [of "nat i" "nat j"] nat_str_not_minus nat_str_not_minus [symmetric]
  by (auto simp: int_str_def split: if_splits)

lemma media_prefix: "CHR ''|'' \<notin> set ''media-asset''" and attachment_prefix: "CHR ''|'' \<notin> set ''chat-attachment''"
  by code_simp+

lemma media_not_uuid: "uuid_str u \<noteq> ''media-asset''" and attachment_not_uuid: "uuid_str u \<noteq> ''chat-attachment''"
  by (rule notI, drule arg_cong [of _ _ length], simp add: uuid_str_length)+

lemmas canonical_parts = attachment_canonical_def media_canonical_def preview_canonical_def canonical_def

lemmas bar_cuts = bar_split [OF attachment_prefix media_prefix] bar_split [OF media_prefix attachment_prefix]
  bar_split [OF attachment_prefix attachment_prefix] bar_split [OF media_prefix media_prefix]
  bar_split [OF attachment_prefix uuid_no_bar] bar_split [OF media_prefix uuid_no_bar]
  bar_split [OF uuid_no_bar attachment_prefix] bar_split [OF uuid_no_bar media_prefix]
  bar_split [OF uuid_no_bar uuid_no_bar] bar_split [OF int_no_bar int_no_bar] bar_split [OF uuid_no_bar int_no_bar]

lemma attachment_text: "attachment_canonical a s o' e = ''chat-attachment'' @ CHR ''|'' # uuid_str a @ CHR ''|'' # uuid_str s @ CHR ''|'' # uuid_str o' @ CHR ''|'' # int_str e"
  by (simp add: attachment_canonical_def)

lemma media_text: "media_canonical j o' i e = ''media-asset'' @ CHR ''|'' # uuid_str j @ CHR ''|'' # uuid_str o' @ CHR ''|'' # int_str i @ CHR ''|'' # int_str e"
  by (simp add: media_canonical_def)

lemma preview_text: "preview_canonical p o' e = uuid_str p @ CHR ''|'' # uuid_str o' @ CHR ''|'' # int_str e"
  by (simp add: preview_canonical_def)

lemma canonical_inject: "canonical x e = canonical y e' \<longleftrightarrow> x = y \<and> e = e'"
  unfolding canonical_def
  by (cases x; cases y; simp only: signed_object.case attachment_text media_text preview_text bar_cuts
      media_not_uuid attachment_not_uuid media_not_uuid [symmetric] attachment_not_uuid [symmetric])
    (auto simp: int_str_inject)

lemma utf8_inject: "utf8_encode s = utf8_encode t \<longleftrightarrow> s = t"
proof
  assume "utf8_encode s = utf8_encode t"
  then have "map of_char s = (map of_char t :: nat list)"
    using utf8_roundtrip [of s] utf8_roundtrip [of t] by simp
  then have "map char_of (map of_char s :: nat list) = map char_of (map of_char t :: nat list)"
    by (rule arg_cong)
  then show "s = t"
    by (simp add: comp_def)
qed simp

lemma built_verified:
  assumes "build_token mac secret ttl x now = Some (token, exp)"
    and "bytes_ok (sign mac secret x exp)" and "length (int_str exp) \<le> 4300"
  shows "verify_token mac secret y token later =
    (if sign mac secret x exp = sign mac secret y exp \<and> later \<le> exp then Some exp else None)"
  using assms token_parts_built [of exp "sign mac secret x exp"]
  by (auto simp: build_token_def Let_def verify_token_def split: if_splits)

text \<open>
  C29. A signed link opens the object it was issued for, until it expires, and nothing else: neither another object of the same kind nor one
  of another kind (an attachment link never opens a result of a run or a preview), whatever the time. The hypotheses are what HMAC-SHA256
  gives: its digest is a list of bytes, and the two texts at hand do not collide under the secret; and that the expiry has at most 4300 digits.
\<close>

theorem signed_link_opens_its_object:
  assumes built: "build_token mac secret ttl x now = Some (token, exp)"
    and "\<And>s. bytes_ok (mac (utf8_encode secret) (utf8_encode s))"
    and no_collision: "\<And>s t. s \<in> {canonical x exp, canonical y exp} \<Longrightarrow> t \<in> {canonical x exp, canonical y exp} \<Longrightarrow>
      mac (utf8_encode secret) (utf8_encode s) = mac (utf8_encode secret) (utf8_encode t) \<Longrightarrow> utf8_encode s = utf8_encode t"
    and "length (int_str exp) \<le> 4300"
  shows "verify_token mac secret y token later = (if y = x \<and> later \<le> exp then Some exp else None) \<and> exp = now + ttl"
proof -
  have "sign mac secret x exp = sign mac secret y exp \<longleftrightarrow> x = y"
    using no_collision [of "canonical x exp" "canonical y exp"] by (auto simp: sign_def utf8_inject canonical_inject)
  moreover have "exp = now + ttl"
    using built by (auto simp: build_token_def Let_def split: if_splits)
  ultimately show ?thesis
    using built_verified [OF built] assms by (auto simp: sign_def)
qed

lemma signed_link_opens_its_object_witness:
  "(case build_token (\<lambda>k t. t) ''s'' 900 (Media_asset 1 2 0) 1000 of None \<Rightarrow> False
    | Some (token, exp) \<Rightarrow> exp = 1900
      \<and> verify_token (\<lambda>k t. t) ''s'' (Media_asset 1 2 0) token 1900 = Some 1900
      \<and> verify_token (\<lambda>k t. t) ''s'' (Media_asset 1 2 0) token 1901 = None
      \<and> verify_token (\<lambda>k t. t) ''s'' (Media_asset 1 2 1) token 1000 = None)"
proof -
  define token where "token = fst (the (build_token (\<lambda>k t. t) ''s'' 900 (Media_asset 1 2 0) 1000))"
  have built: "build_token (\<lambda>k t. t) ''s'' 900 (Media_asset 1 2 0) 1000 = Some (token, 1900)"
    by (simp add: token_def build_token_def Let_def)
  have "length (int_str 1900) \<le> 4300"
    by code_simp
  note opens = signed_link_opens_its_object [OF built _ _ this]
  show ?thesis
    using opens [of "Media_asset 1 2 0" 1900] opens [of "Media_asset 1 2 0" 1901] opens [of "Media_asset 1 2 1" 1000]
    by (simp add: built bytes_ok_def utf8_encode_bytes)
qed

end
