(* ===== verification/Chats_View.thy ===== *)
theory Chats_View
  imports Chat_Context Chat_Turn Signed_Url
begin

text \<open>
  What a user sees of a chat: \<open>chats/service.py\<close>, \<open>chats/repository.py\<close> and the cursor of the history in \<open>chats/cursor.py\<close>. The reads
  work on the tables of \<open>Chat_Store\<close>; a payload is changed only on the way out. Arguments (\<open>chats_env\<close>): \<open>json.loads\<close>, the settings of
  signed links and the clock, the creation times of steps, the two summaries of a tool call (Russian text in the source), and the reading of a
  cursor that leaves Latin-1. Left out: the time shown with a step, and the removal of the memory chunks of a deleted chat.
\<close>

section \<open>Arguments\<close>

record ChatHistoryCursor =
  hc_seq :: int
  hc_id :: uuid

record chats_env =
  cv_loads :: json_reader
  cv_links :: link_settings
  cv_now :: int
  cv_created :: "uuid \<Rightarrow> instant"
  cv_call_text :: "json \<Rightarrow> string"
  cv_result_text :: "json \<Rightarrow> string"
  cv_wide :: "nat list \<Rightarrow> ChatHistoryCursor option"

section \<open>The cursor of the history\<close>

definition history_cursor_encode :: "ChatHistoryCursor \<Rightarrow> string" where
  "history_cursor_encode c = urlsafe_b64encode (utf8_encode (int_str (hc_seq c) @ ''|'' @ uuid_str (hc_id c)))"

definition history_cursor_fields :: "string \<Rightarrow> ChatHistoryCursor option" where
  "history_cursor_fields raw =
     (case dropWhile (\<lambda>c. c \<noteq> CHR ''|'') raw of
        [] \<Rightarrow> None
      | bar # id_str \<Rightarrow>
          Option.bind (py_int_base 10 (takeWhile (\<lambda>c. c \<noteq> CHR ''|'') raw)) (\<lambda>n.
          map_option (\<lambda>u. \<lparr>hc_seq = n, hc_id = u\<rparr>) (uuid_parse id_str)))"

definition history_cursor_decode :: "chats_env \<Rightarrow> string \<Rightarrow> ChatHistoryCursor option" where
  "history_cursor_decode env s =
     Option.bind (ascii_encode s) (\<lambda>codes.
     Option.bind (urlsafe_b64decode codes) (\<lambda>bs.
     Option.bind (utf8_decode bs) (\<lambda>ps.
       if list_ex (\<lambda>p. 256 \<le> p) ps then cv_wide env ps else history_cursor_fields (map char_of ps))))"

section \<open>Queries\<close>

definition before_history_cursor :: "ChatHistoryCursor option \<Rightarrow> chat_step \<Rightarrow> bool" where
  "before_history_cursor cursor p =
     (case cursor of
        None \<Rightarrow> True
      | Some c \<Rightarrow> int (sp_seq p) < hc_seq c \<or> (int (sp_seq p) = hc_seq c \<and> sp_id p < hc_id c))"

definition list_steps_page :: "uuid \<Rightarrow> nat \<Rightarrow> ChatHistoryCursor option \<Rightarrow> chat_db \<Rightarrow> chat_step list \<times> string option" where
  "list_steps_page session limit cursor s =
     (let rows = take (limit + 1) (filter (before_history_cursor cursor) (rev (list_steps session s)));
          page = rev (take limit rows) in
      (page, case page of
           [] \<Rightarrow> None
         | oldest # _ \<Rightarrow> if limit < length rows then Some (history_cursor_encode \<lparr>hc_seq = int (sp_seq oldest), hc_id = sp_id oldest\<rparr>) else None))"

definition list_steps_for_message_steps :: "uuid \<Rightarrow> uuid list \<Rightarrow> chat_db \<Rightarrow> chat_step list" where
  "list_steps_for_message_steps session turns s = filter (\<lambda>p. sp_message p \<in> set turns) (list_steps session s)"

definition latest_message_step_id :: "uuid \<Rightarrow> chat_db \<Rightarrow> uuid option" where
  "latest_message_step_id session s = (case rev (list_steps session s) of [] \<Rightarrow> None | p # _ \<Rightarrow> Some (sp_message p))"

definition steps_for_message :: "uuid \<Rightarrow> uuid \<Rightarrow> chat_db \<Rightarrow> chat_step list" where
  "steps_for_message session message s = filter (\<lambda>p. sp_message p = message) (list_steps session s)"

text \<open>A dictionary built from rows keeps the last one of a key.\<close>

definition by_key :: "('a \<Rightarrow> 'k) \<Rightarrow> 'a list \<Rightarrow> 'k \<rightharpoonup> 'a" where
  "by_key f rows = map_of (rev (map (\<lambda>r. (f r, r)) rows))"

definition tool_calls_for_message :: "uuid \<Rightarrow> uuid \<Rightarrow> chat_db \<Rightarrow> tool_call list" where
  "tool_calls_for_message session message s = filter (\<lambda>c. tc_session c = session \<and> tc_message c = message) (cd_calls s)"

definition provider_id_to_domain_id :: "uuid \<Rightarrow> chat_db \<Rightarrow> string \<rightharpoonup> uuid" where
  "provider_id_to_domain_id session s i = map_option tc_id (by_key tc_provider_id (filter (\<lambda>c. tc_session c = session) (cd_calls s)) i)"

section \<open>The text of a chat in the list\<close>

text \<open>\<open>str(block.get("text", ""))\<close>\<close>

definition dict_text :: "json_obj \<Rightarrow> string" where
  "dict_text d = (case map_of d ''text'' of None \<Rightarrow> [] | Some v \<Rightarrow> py_str v)"

definition text_parts :: "json_reader \<Rightarrow> json_obj \<Rightarrow> string list" where
  "text_parts loads payload =
     filter (\<lambda>t. t \<noteq> []) (List.map_filter (\<lambda>b. case b of
         JObj d \<Rightarrow> if jget ''type'' d = JStr ''text'' then Some (dict_text d) else None
       | _ \<Rightarrow> None) (to_domain_blocks loads (jget ''content'' payload)))"

definition text_from_payload :: "json_reader \<Rightarrow> json_obj \<Rightarrow> string" where
  "text_from_payload loads payload = py_strip (py_join '' '' (text_parts loads payload))"

definition truncate_words :: "nat \<Rightarrow> string \<Rightarrow> string" where
  "truncate_words n s = take n (py_join_words (py_words [] s))"

definition latest_spoken :: "(uuid \<Rightarrow> instant) \<Rightarrow> uuid \<Rightarrow> chat_db \<Rightarrow> chat_step option" where
  "latest_spoken created session s =
     (case rev (sort_key (\<lambda>p. created (sp_id p)) (sort_key (\<lambda>p. uint (sp_id p))
          (filter (\<lambda>p. sp_session p = session \<and> sp_role p \<noteq> Tool) (cd_steps s)))) of
        [] \<Rightarrow> None | p # _ \<Rightarrow> Some p)"

definition preview :: "chats_env \<Rightarrow> uuid \<Rightarrow> chat_db \<Rightarrow> string option" where
  "preview env session s =
     (case latest_spoken (cv_created env) session s of
        None \<Rightarrow> None
      | Some p \<Rightarrow>
          (let t = text_from_payload (cv_loads env) (sp_payload p);
               t' = (if sp_role p = User \<and> t \<noteq> [] then strip_context_block t else t) in
           if t' = [] then None else Some (truncate_words 160 t')))"

section \<open>The history: turns with a quiz, media jobs\<close>

definition quiz_turn_ids :: "chat_step list \<Rightarrow> uuid list" where
  "quiz_turn_ids steps =
     map sp_message (filter (\<lambda>p. sp_role p = Tool \<and> jget ''toolName'' (sp_payload p) = JStr ''quiz.generate''
       \<and> truthy (jget ''result'' (sp_payload p))) steps)"

definition last_assistant_step_ids :: "chat_step list \<Rightarrow> uuid \<rightharpoonup> uuid" where
  "last_assistant_step_ids steps turn = map_option sp_id (by_key sp_message (filter (\<lambda>p. sp_role p = Assistant) steps) turn)"

definition media_job_ref :: "json \<Rightarrow> json_obj option" where
  "media_job_ref raw =
     (case raw of
        JObj d \<Rightarrow>
          if truthy (jget ''jobId'' d)
          then Some ((''jobId'', JStr (py_str (jget ''jobId'' d)))
            # List.map_filter (\<lambda>k. if jget k d = JNull then None else Some (k, jget k d)) [''kind'', ''status'', ''model'', ''creditsCharged''])
          else None
      | _ \<Rightarrow> None)"

text \<open>What a step says of jobs.\<close>

definition step_jobs :: "chat_step \<Rightarrow> json list" where
  "step_jobs p =
     (let d = sp_payload p in
      case sp_role p of
        Tool \<Rightarrow> if jget ''toolName'' d \<in> {JStr ''media.generate_image'', JStr ''media.generate_video''} then [jget ''result'' d] else []
      | Assistant \<Rightarrow> (case jget ''mediaJobs'' d of JArr jobs \<Rightarrow> jobs | _ \<Rightarrow> [])
      | User \<Rightarrow> (case jget ''mediaWizard'' d of
            JObj w \<Rightarrow> if truthy (jget ''jobId'' w)
              then [JObj [(''jobId'', jget ''jobId'' w), (''kind'', jget ''kind'' w),
                     (''model'', jget ''model'' (as_dict (jget ''answers'' w))), (''status'', JStr ''queued'')]]
              else []
          | _ \<Rightarrow> []))"

definition add_job :: "json_obj list \<Rightarrow> json \<Rightarrow> json_obj list" where
  "add_job refs raw =
     (case media_job_ref raw of
        None \<Rightarrow> refs
      | Some r \<Rightarrow> if jget ''jobId'' r \<in> set (map (jget ''jobId'') refs) then refs else refs @ [r])"

definition media_jobs_by_turn :: "chat_step list \<Rightarrow> uuid \<Rightarrow> json_obj list" where
  "media_jobs_by_turn steps = fold (\<lambda>p m. m(sp_message p := foldl add_job (m (sp_message p)) (step_jobs p))) steps (\<lambda>_. [])"

section \<open>The history: what is taken out of a payload\<close>

definition without :: "string \<Rightarrow> json_obj \<Rightarrow> json_obj" where
  "without k d = filter (\<lambda>e. fst e \<noteq> k) d"

definition sign_attachment_ref :: "chats_env \<Rightarrow> uuid \<Rightarrow> uuid \<Rightarrow> json \<Rightarrow> json" where
  "sign_attachment_ref env session owner r =
     (case r of
        JObj d \<Rightarrow>
          if \<not> truthy (jget ''attachmentId'' d) then r
          else (case uuid_parse (py_str (jget ''attachmentId'' d)) of
              None \<Rightarrow> r
            | Some a \<Rightarrow>
                (let bare = without ''expiresAt'' (without ''url'' d) in
                 case build_attachment_url (cv_links env) a session owner (cv_now env) of
                   None \<Rightarrow> JObj bare
                 | Some (url, exp) \<Rightarrow>
                     JObj (with_key ''expiresAt'' (JStr (lk_iso (cv_links env) exp)) (with_key ''url'' (JStr url) bare))))
      | _ \<Rightarrow> r)"

definition sign_attachment_refs :: "chats_env \<Rightarrow> uuid \<Rightarrow> uuid \<Rightarrow> json_obj \<Rightarrow> json_obj" where
  "sign_attachment_refs env session owner d =
     (case jget ''attachmentRefs'' d of
        JArr refs \<Rightarrow> with_key ''attachmentRefs'' (JArr (map (sign_attachment_ref env session owner) refs)) d
      | _ \<Rightarrow> d)"

text \<open>The key \<open>k\<close> of a dictionary that is the value of \<open>outer\<close> goes.\<close>

definition without_inner :: "string \<Rightarrow> string \<Rightarrow> json_obj \<Rightarrow> json_obj" where
  "without_inner outer k d = (case jget outer d of JObj w \<Rightarrow> with_key outer (JObj (without k w)) d | _ \<Rightarrow> d)"

definition strip_media_wizard_prompt :: "json_obj \<Rightarrow> json_obj" where
  "strip_media_wizard_prompt d = without_inner ''mediaWizard'' ''prompt'' d"

definition strip_media_tool_result_prompt :: "json_obj \<Rightarrow> json_obj" where
  "strip_media_tool_result_prompt d =
     (if jget ''toolName'' d \<noteq> JStr ''media.ask_params'' then d else without_inner ''result'' ''prompt'' d)"

definition MEDIA_PROMPT_TOOLS :: "string list" where
  "MEDIA_PROMPT_TOOLS = [''media.ask_params'', ''media.generate_image'', ''media.generate_video'']"

definition redact_media_tool_use_prompt :: "json_obj \<Rightarrow> json_obj" where
  "redact_media_tool_use_prompt d =
     (if jget ''name'' d \<notin> JStr ` set MEDIA_PROMPT_TOOLS then d
      else case jget ''input'' d of
        JObj i \<Rightarrow> if map_of i ''prompt'' = None then d else with_key ''input'' (JObj (with_key ''prompt'' (JStr ''[redacted]'') i)) d
      | _ \<Rightarrow> d)"

fun strip_leading_context_block :: "json list \<Rightarrow> json list" where
  "strip_leading_context_block [] = []"
| "strip_leading_context_block (b # bs) =
     (case b of
        JObj d \<Rightarrow> if jget ''type'' d = JStr ''text'' then JObj (with_key ''text'' (JStr (strip_context_block (dict_text d))) d) # bs
                  else b # strip_leading_context_block bs
      | _ \<Rightarrow> b # strip_leading_context_block bs)"

text \<open>The provider's identifier under \<open>k\<close> becomes that of the call's row.\<close>

definition domain_id :: "(string \<rightharpoonup> uuid) \<Rightarrow> string \<Rightarrow> json_obj \<Rightarrow> json_obj" where
  "domain_id ids k d =
     (case jget k d of
        JStr i \<Rightarrow> (case ids i of Some u \<Rightarrow> with_key k (JStr (uuid_str u)) d | None \<Rightarrow> d)
      | _ \<Rightarrow> d)"

definition normalize_tool_use_block :: "(string \<rightharpoonup> uuid) \<Rightarrow> json_obj \<Rightarrow> json_obj" where
  "normalize_tool_use_block ids d =
     domain_id ids ''id''
       (case jget ''name'' d of
          JStr n \<Rightarrow> (case to_domain_tool_name n of Some x \<Rightarrow> with_key ''name'' (JStr x) d | None \<Rightarrow> d)
        | _ \<Rightarrow> d)"

definition normalize_tool_result_block :: "(string \<rightharpoonup> uuid) \<Rightarrow> json_obj \<Rightarrow> json_obj" where
  "normalize_tool_result_block ids d = domain_id ids ''tool_use_id'' d"

definition normalize_block :: "(string \<rightharpoonup> uuid) \<Rightarrow> json \<Rightarrow> json" where
  "normalize_block ids b =
     (case b of
        JObj d \<Rightarrow>
          if jget ''type'' d = JStr ''tool_use'' then JObj (redact_media_tool_use_prompt (normalize_tool_use_block ids d))
          else if jget ''type'' d = JStr ''tool_result'' then JObj (normalize_tool_result_block ids d)
          else b
      | _ \<Rightarrow> b)"

definition hide_quiz_text :: "uuid list \<Rightarrow> chat_step \<Rightarrow> json list \<Rightarrow> json list" where
  "hide_quiz_text quiz p blocks =
     (if sp_role p = Assistant \<and> sp_message p \<in> set quiz then filter (\<lambda>b. block_type b \<noteq> JStr ''text'') blocks else blocks)"

definition shown_content :: "chats_env \<Rightarrow> (string \<rightharpoonup> uuid) \<Rightarrow> uuid list \<Rightarrow> chat_step \<Rightarrow> json list \<Rightarrow> json list" where
  "shown_content env ids quiz p content =
     (let blocks = to_domain_blocks (cv_loads env) (JArr content);
          own = (if sp_role p = User then strip_leading_context_block blocks else blocks) in
      map (normalize_block ids) (hide_quiz_text quiz p own))"

text \<open>The payload before its content is looked at.\<close>

definition outer_payload :: "chats_env \<Rightarrow> uuid \<Rightarrow> chat_step \<Rightarrow> json_obj" where
  "outer_payload env owner p =
     (let d = without ''providerToolUseId'' (sp_payload p) in
      case sp_role p of
        User \<Rightarrow> sign_attachment_refs env (sp_session p) owner (strip_media_wizard_prompt d)
      | Tool \<Rightarrow> strip_media_tool_result_prompt d
      | Assistant \<Rightarrow> d)"

definition normalize_step_payload :: "chats_env \<Rightarrow> (string \<rightharpoonup> uuid) \<Rightarrow> uuid list \<Rightarrow> uuid \<Rightarrow> chat_step \<Rightarrow> json_obj" where
  "normalize_step_payload env ids quiz owner p =
     (let d = outer_payload env owner p in
      case jget ''content'' d of
        JArr content \<Rightarrow> with_key ''content'' (JArr (shown_content env ids quiz p content)) d
      | _ \<Rightarrow> d)"

section \<open>The history\<close>

record ChatStepView =
  sv_id :: uuid
  sv_message :: uuid
  sv_role :: role
  sv_payload :: json_obj
  sv_usage :: "json_obj option"

record ChatHistoryView =
  hv_id :: uuid
  hv_title :: "string option"
  hv_assistant_mode :: string
  hv_character :: "string option"
  hv_mode :: string
  hv_steps :: "ChatStepView list"
  hv_next :: "string option"

text \<open>A step as it is shown, beside the steps \<open>turn\<close> of at least its own turn.\<close>

definition step_view :: "chats_env \<Rightarrow> (string \<rightharpoonup> uuid) \<Rightarrow> uuid \<Rightarrow> chat_step list \<Rightarrow> chat_step \<Rightarrow> ChatStepView" where
  "step_view env ids owner enrich p =
     (let payload = normalize_step_payload env ids (quiz_turn_ids enrich) owner p; jobs = media_jobs_by_turn enrich (sp_message p) in
      \<lparr>sv_id = sp_id p, sv_message = sp_message p, sv_role = sp_role p,
       sv_payload = (if sp_role p = Assistant \<and> last_assistant_step_ids enrich (sp_message p) = Some (sp_id p) \<and> jobs \<noteq> []
                     then with_key ''mediaJobs'' (JArr (map JObj jobs)) payload else payload),
       sv_usage = sp_usage p\<rparr>)"

definition HISTORY_LIMIT_MAX :: int where
  "HISTORY_LIMIT_MAX = 100"

text \<open>The steps to show, those they are shown beside, and the cursor of the next page.\<close>

definition history_window ::
  "uuid \<Rightarrow> int option \<Rightarrow> ChatHistoryCursor option \<Rightarrow> chat_db \<Rightarrow> exn + chat_step list \<times> chat_step list \<times> string option" where
  "history_window session limit cursor s =
     (case limit of
        None \<Rightarrow>
          if cursor \<noteq> None then Inl (Raised ValidationFailedError ''cursor requires limit'')
          else Inr (list_steps session s, list_steps session s, None)
      | Some n \<Rightarrow>
          if n < 1 \<or> HISTORY_LIMIT_MAX < n then Inl (Raised ValidationFailedError ''limit must be between 1 and 100'')
          else (case list_steps_page session (nat n) cursor s of
              (steps, more_at) \<Rightarrow> Inr (steps, list_steps_for_message_steps session (map sp_message steps) s, more_at)))"

definition get_history :: "chats_env \<Rightarrow> uuid \<Rightarrow> uuid \<Rightarrow> int option \<Rightarrow> string option \<Rightarrow> chat_db \<Rightarrow> exn + ChatHistoryView" where
  "get_history env session user limit cursor s =
     (case get_chat_session session user s of
        None \<Rightarrow> Inl (Raised NotFoundError ''chat not found'')
      | Some r \<Rightarrow>
          (let decoded = map_option (history_cursor_decode env) cursor in
           if decoded = Some None then Inl (Raised ValidationFailedError ''invalid cursor'')
           else case history_window session limit (Option.bind decoded id) s of
             Inl e \<Rightarrow> Inl e
           | Inr (steps, enrich, more_at) \<Rightarrow>
               Inr \<lparr>hv_id = session, hv_title = cs_title r, hv_assistant_mode = cs_assistant_mode r, hv_character = cs_character r,
                    hv_mode = cs_mode r, hv_steps = map (step_view env (provider_id_to_domain_id session s) (cs_user r) enrich) steps,
                    hv_next = more_at\<rparr>))"

section \<open>One turn as a list of steps\<close>

datatype step_kind = Reasoning | Call_step | Result_step | Message_step

record StepsViewStep =
  vs_kind :: step_kind
  vs_tool :: json
  vs_summary :: string
  vs_args :: "json_obj option"
  vs_result :: "json_obj option"
  vs_error :: "json_obj option"

definition text_summary :: "json_reader \<Rightarrow> json_obj \<Rightarrow> string" where
  "text_summary loads payload = truncate_words 120 (py_join '' '' (text_parts loads payload))"

definition dict_or_none :: "json \<Rightarrow> json_obj option" where
  "dict_or_none v = (case v of JObj d \<Rightarrow> Some d | _ \<Rightarrow> None)"

definition call_step :: "chats_env \<Rightarrow> (string \<rightharpoonup> tool_call) \<Rightarrow> json \<Rightarrow> StepsViewStep option" where
  "call_step env by_provider b =
     (case b of
        JObj d \<Rightarrow>
          if jget ''type'' d \<noteq> JStr ''tool_use'' then None
          else (let name = (case by_provider (py_str (jget ''id'' d)) of None \<Rightarrow> JNull | Some c \<Rightarrow> JStr (tc_tool c)) in
            Some \<lparr>vs_kind = Call_step, vs_tool = name, vs_summary = cv_call_text env name, vs_args = dict_or_none (jget ''input'' d),
                  vs_result = None, vs_error = None\<rparr>)
      | _ \<Rightarrow> None)"

text \<open>The name of the tool a result belongs to: stored with it, or that of the row it names.\<close>

definition result_tool :: "(uuid \<rightharpoonup> tool_call) \<Rightarrow> json_obj \<Rightarrow> json" where
  "result_tool calls d =
     (if jget ''toolName'' d = JNull \<and> jget ''toolCallId'' d \<noteq> JNull
      then (case Option.bind (uuid_parse (py_str (jget ''toolCallId'' d))) calls of None \<Rightarrow> JNull | Some c \<Rightarrow> JStr (tc_tool c))
      else jget ''toolName'' d)"

definition render_step :: "chats_env \<Rightarrow> (uuid \<rightharpoonup> tool_call) \<Rightarrow> (string \<rightharpoonup> tool_call) \<Rightarrow> bool \<Rightarrow> chat_step \<Rightarrow> StepsViewStep list" where
  "render_step env calls by_provider is_quiz p =
     (let d = sp_payload p in
      case sp_role p of
        User \<Rightarrow> []
      | Assistant \<Rightarrow>
          (let content = to_domain_blocks (cv_loads env) (jget ''content'' d);
               has_call = list_ex (\<lambda>b. block_type b = JStr ''tool_use'') content;
               summary = (if is_quiz then [] else text_summary (cv_loads env) d) in
           (if summary = [] then []
            else [\<lparr>vs_kind = (if has_call then Reasoning else Message_step), vs_tool = JNull, vs_summary = summary, vs_args = None,
                   vs_result = None, vs_error = None\<rparr>])
           @ List.map_filter (call_step env by_provider) content)
      | Tool \<Rightarrow>
          [\<lparr>vs_kind = Result_step, vs_tool = result_tool calls d, vs_summary = cv_result_text env (result_tool calls d), vs_args = None,
            vs_result = dict_or_none (jget ''result'' d), vs_error = dict_or_none (jget ''error'' d)\<rparr>])"

definition steps_view :: "chats_env \<Rightarrow> uuid \<Rightarrow> uuid \<Rightarrow> uuid option \<Rightarrow> chat_db \<Rightarrow> exn + uuid \<times> StepsViewStep list" where
  "steps_view env session user message s =
     (case get_chat_session session user s of
        None \<Rightarrow> Inl (Raised NotFoundError ''chat not found'')
      | Some r \<Rightarrow>
          (case opt_or message (latest_message_step_id session s) of
             None \<Rightarrow> Inl (Raised NotFoundError ''no steps for chat'')
           | Some target \<Rightarrow>
               (let steps = steps_for_message session target s; rows = tool_calls_for_message session target s in
                if steps = [] then Inl (Raised NotFoundError ''message step not found'')
                else Inr (target, concat (map (render_step env (by_key tc_id rows) (by_key tc_provider_id rows) (quiz_turn_ids steps \<noteq> [])) steps)))))"

section \<open>Attachments, names, deletion\<close>

definition signed_attachment :: "chats_env \<Rightarrow> uuid \<Rightarrow> uuid \<Rightarrow> string \<Rightarrow> chat_db \<Rightarrow> exn + chat_attachment \<times> int" where
  "signed_attachment env session attachment token s =
     (case find (\<lambda>a. ca_id a = attachment \<and> ca_session a = session) (cd_attachments s) of
        None \<Rightarrow> Inl (Raised NotFoundError ''attachment not found'')
      | Some a \<Rightarrow>
          (case verify_token (lk_mac (cv_links env)) (lk_secret (cv_links env)) (Chat_attachment attachment session (ca_user a)) token (cv_now env) of
             None \<Rightarrow> Inl (Raised NotFoundError ''attachment not found'')
           | Some exp \<Rightarrow>
               (case find (\<lambda>a. ca_id a = attachment) (cd_attachments s) of
                  None \<Rightarrow> Inl (Raised NotFoundError ''attachment not found'')
                | Some row \<Rightarrow> Inr (row, exp))))"

definition update_metadata ::
  "uuid \<Rightarrow> string option option \<Rightarrow> bool option \<Rightarrow> uuid option option \<Rightarrow> instant \<Rightarrow> chat_db \<Rightarrow> chat_db" where
  "update_metadata session title pinned workspace now s =
     on_session session (\<lambda>r. r\<lparr>cs_title := or_default title (cs_title r), cs_pinned := or_default pinned (cs_pinned r),
       cs_workspace := or_default workspace (cs_workspace r), cs_updated := now\<rparr>) s"

definition rename_or_pin ::
  "(uuid \<Rightarrow> uuid \<Rightarrow> bool) \<Rightarrow> uuid \<Rightarrow> uuid \<Rightarrow> string option option \<Rightarrow> bool option \<Rightarrow> uuid option option \<Rightarrow> instant \<Rightarrow> unit chat_op" where
  "rename_or_pin owns_workspace session user title pinned workspace now s =
     (case get_chat_session session user s of
        None \<Rightarrow> (Inl (Raised NotFoundError ''chat not found''), s)
      | Some r \<Rightarrow>
          (case Option.bind workspace id of
             Some w \<Rightarrow>
               if owns_workspace w user then (Inr (), update_metadata session title pinned workspace now s)
               else (Inl (Raised WorkspaceNotFoundError ''workspace not found''), s)
           | None \<Rightarrow> (Inr (), update_metadata session title pinned workspace now s)))"

text \<open>The delete of the session with what its foreign keys take along.\<close>

definition delete_session :: "uuid \<Rightarrow> world \<Rightarrow> world" where
  "delete_session session w =
     w\<lparr>w_db := (w_db w)\<lparr>chat_sessions := (chat_sessions (w_db w))(session := None),
                audit_log := map (\<lambda>a. if au_session a = Some session then a\<lparr>au_session := None\<rparr> else a) (audit_log (w_db w))\<rparr>,
       w_chat := (w_chat w)\<lparr>cd_sessions := (cd_sessions (w_chat w))(session := None),
                cd_steps := filter (\<lambda>p. sp_session p \<noteq> session) (cd_steps (w_chat w)),
                cd_calls := filter (\<lambda>c. tc_session c \<noteq> session) (cd_calls (w_chat w)),
                cd_attachments := filter (\<lambda>a. ca_session a \<noteq> session) (cd_attachments (w_chat w))\<rparr>\<rparr>"

definition delete_chat :: "uuid \<Rightarrow> uuid \<Rightarrow> world \<Rightarrow> (exn, unit, world) outcome" where
  "delete_chat session user w =
     (if get_chat_session session user (w_chat w) = None then (Inl (Raised NotFoundError ''chat not found''), w)
      else (Inr (), delete_session session w))"

end
