(* ===== verification/Chats_Pages.thy ===== *)
theory Chats_Pages
  imports Chats_View Keyset
begin

text \<open>
  Paging through a chat. A client that follows \<open>nextCursor\<close> ends, and its pages put together are the history a request without a limit is
  answered: each step is shown the same on whatever page it comes, although a page knows only the turns it touches.
\<close>

section \<open>The cursor\<close>

lemma nat_str_length: "n < 10 ^ Suc k \<Longrightarrow> length (nat_str n) \<le> Suc k"
proof (induction k arbitrary: n)
  case 0
  then show ?case
    by (simp add: nat_str.simps [of n])
next
  case (Suc k)
  then have "n div 10 < 10 ^ Suc k"
    by simp
  then show ?case
    using Suc.IH [of "n div 10"] by (auto simp: nat_str.simps [of n])
qed

lemma seq_str_length: "n < 2 ^ 63 \<Longrightarrow> length (int_str (int n)) \<le> 4300"
  using nat_str_length [of n 18] by (simp add: int_str_def)

lemma history_cursor_decode_encode:
  assumes "length (int_str (hc_seq c)) \<le> 4300"
  shows "history_cursor_decode env (history_cursor_encode c) = Some c"
proof -
  let ?raw = "int_str (hc_seq c) @ CHR ''|'' # uuid_str (hc_id c)"
  have bytes: "\<forall>b \<in> set (utf8_encode ?raw). b < 256"
    using utf8_encode_bytes by blast
  have "ascii_encode (history_cursor_encode c) = Some (map of_char (history_cursor_encode c))"
    using urlsafe_b64encode_ascii [OF bytes] by (auto simp: ascii_encode_def history_cursor_encode_def)
  moreover have "urlsafe_b64decode (map of_char (history_cursor_encode c)) = Some (utf8_encode ?raw)"
    using base64_roundtrip [OF bytes] by (simp add: history_cursor_encode_def)
  moreover have "\<not> list_ex (\<lambda>p. (256 :: nat) \<le> p) (map of_char ?raw)"
    by (auto simp: list_ex_iff not_le)
  moreover have "map (char_of :: nat \<Rightarrow> char) (map of_char ?raw) = ?raw"
    unfolding map_map by (rule map_idI) simp
  moreover have "history_cursor_fields ?raw = Some c"
  proof -
    have "\<forall>x \<in> set (int_str (hc_seq c)). x \<noteq> CHR ''|''"
      using int_no_bar by metis
    then have "dropWhile (\<lambda>x. x \<noteq> CHR ''|'') ?raw = CHR ''|'' # uuid_str (hc_id c)" "takeWhile (\<lambda>x. x \<noteq> CHR ''|'') ?raw = int_str (hc_seq c)"
      by simp_all
    then show ?thesis
      by (simp add: history_cursor_fields_def int_str_value [OF assms] uuid_parse_str)
  qed
  ultimately show ?thesis
    by (simp add: history_cursor_decode_def utf8_roundtrip del: map_append map_map)
qed

section \<open>The order of the steps\<close>

text \<open>\<open>seq\<close> is an identity column of 64 bits.\<close>

definition seq_ok :: "chat_db \<Rightarrow> bool" where
  "seq_ok s \<longleftrightarrow> distinct (map sp_seq (cd_steps s)) \<and> (\<forall>p \<in> set (cd_steps s). sp_seq p < 2 ^ 63)"

lemma list_steps_set: "set (list_steps session s) = {p \<in> set (cd_steps s). sp_session p = session}"
  by (simp add: list_steps_def)

lemma newest_first: "seq_ok s \<Longrightarrow> sorted_wrt (\<lambda>x y. sp_seq y < sp_seq x) (rev (list_steps session s))"
proof -
  assume "seq_ok s"
  then have "distinct (map sp_seq (list_steps session s))"
    by (auto simp: seq_ok_def list_steps_def distinct_map intro: inj_on_subset)
  moreover have "sorted (map sp_seq (list_steps session s))"
    by (simp add: list_steps_def)
  ultimately have "sorted_wrt (<) (map sp_seq (list_steps session s))"
    by (simp add: strict_sorted_iff)
  then show ?thesis
    by (simp add: sorted_wrt_map sorted_wrt_rev)
qed

definition step_mark :: "chat_step \<Rightarrow> string" where
  "step_mark p = history_cursor_encode \<lparr>hc_seq = int (sp_seq p), hc_id = sp_id p\<rparr>"

definition step_cursor :: "chat_step list \<Rightarrow> ChatHistoryCursor option" where
  "step_cursor A = (if A = [] then None else Some \<lparr>hc_seq = int (sp_seq (List.last A)), hc_id = sp_id (List.last A)\<rparr>)"

lemma older_rest:
  assumes "sorted_wrt (\<lambda>x y. sp_seq y < sp_seq x) (A @ B)"
  shows "filter (before_history_cursor (step_cursor A)) (A @ B) = B"
proof (cases A rule: rev_cases)
  case Nil
  then show ?thesis
    by (simp add: step_cursor_def before_history_cursor_def)
next
  case (snoc A' x)
  have cursor: "before_history_cursor (step_cursor A) p \<longleftrightarrow> sp_seq p < sp_seq x \<or> (sp_seq p = sp_seq x \<and> sp_id p < sp_id x)" for p
    by (simp add: snoc step_cursor_def before_history_cursor_def)
  have "\<not> before_history_cursor (step_cursor A) p" if "p \<in> set A'" for p
    using assms that unfolding cursor by (fastforce simp: snoc sorted_wrt_append)
  moreover have "before_history_cursor (step_cursor A) p" if "p \<in> set B" for p
    using assms that unfolding cursor by (auto simp: snoc sorted_wrt_append)
  moreover have "\<not> before_history_cursor (step_cursor A) x"
    unfolding cursor by simp
  ultimately show ?thesis
    by (simp add: snoc filter_empty_conv)
qed

lemma page_shape:
  assumes "sorted_wrt (\<lambda>x y. sp_seq y < sp_seq x) (A @ B)" and "rev (list_steps session s) = A @ B" and "0 < limit"
  shows "list_steps_page session limit (step_cursor A) s =
    (rev (take limit B), if limit < length B then place step_mark (A @ take limit B) else None)"
proof -
  have rows: "filter (before_history_cursor (step_cursor A)) (rev (list_steps session s)) = B"
    unfolding assms(2) by (rule older_rest) fact
  show ?thesis
  proof (cases "rev (take limit B)")
    case Nil
    then show ?thesis
      using assms(3) by (simp add: list_steps_page_def Let_def rows)
  next
    case (Cons p ps)
    then have "take limit B = rev ps @ [p]"
      by (simp add: rev_swap)
    then show ?thesis
      using Cons by (simp add: list_steps_page_def Let_def rows min_def place_def step_mark_def)
  qed
qed

section \<open>A step beside the steps of its turn\<close>

abbreviation of_turn :: "uuid \<Rightarrow> chat_step list \<Rightarrow> chat_step list" where
  "of_turn turn xs \<equiv> filter (\<lambda>p. sp_message p = turn) xs"

lemma quiz_turn_iff: "turn \<in> set (quiz_turn_ids xs) \<longleftrightarrow> quiz_turn_ids (of_turn turn xs) \<noteq> []"
  by (auto simp: quiz_turn_ids_def filter_empty_conv)

lemma by_key_turn: "by_key sp_message (filter P xs) turn = by_key sp_message (filter P (of_turn turn xs)) turn"
  by (induction xs rule: rev_induct) (auto simp: by_key_def)

lemma media_jobs_turn: "media_jobs_by_turn xs turn = foldl (\<lambda>refs p. foldl add_job refs (step_jobs p)) [] (of_turn turn xs)"
  by (induction xs rule: rev_induct) (auto simp: media_jobs_by_turn_def)

lemma normalize_quiz:
  assumes "sp_message p \<in> set q \<longleftrightarrow> sp_message p \<in> set q'"
  shows "normalize_step_payload env ids q owner p = normalize_step_payload env ids q' owner p"
proof -
  have "shown_content env ids q p = shown_content env ids q' p"
    by (rule ext) (simp add: shown_content_def hide_quiz_text_def assms)
  then show ?thesis
    by (simp only: normalize_step_payload_def)
qed

lemma step_view_turn:
  assumes "of_turn (sp_message p) xs = of_turn (sp_message p) ys"
  shows "step_view env ids owner xs p = step_view env ids owner ys p"
proof -
  have "normalize_step_payload env ids (quiz_turn_ids xs) owner p = normalize_step_payload env ids (quiz_turn_ids ys) owner p"
    by (rule normalize_quiz) (simp add: quiz_turn_iff assms)
  moreover have "last_assistant_step_ids xs (sp_message p) = last_assistant_step_ids ys (sp_message p)"
    unfolding last_assistant_step_ids_def by (subst (1 2) by_key_turn) (simp add: assms)
  ultimately show ?thesis
    by (simp add: step_view_def media_jobs_turn assms)
qed

lemma page_beside:
  assumes "p \<in> set page" and "set page \<subseteq> set (list_steps session s)"
  shows "step_view env ids owner (list_steps_for_message_steps session (map sp_message page) s) p = step_view env ids owner (list_steps session s) p"
  by (rule step_view_turn) (use assms in \<open>auto simp: list_steps_for_message_steps_def intro!: filter_cong\<close>)

section \<open>The pages of a chat\<close>

definition readable_chat :: "uuid \<Rightarrow> uuid \<Rightarrow> chat_db \<Rightarrow> bool" where
  "readable_chat session user s \<longleftrightarrow> seq_ok s \<and> get_chat_session session user s \<noteq> None"

definition shown_steps :: "chats_env \<Rightarrow> uuid \<Rightarrow> uuid \<Rightarrow> chat_db \<Rightarrow> chat_step list \<Rightarrow> ChatStepView list" where
  "shown_steps env session user s rows =
     map (step_view env (provider_id_to_domain_id session s) user (list_steps session s)) (rev rows)"

text \<open>One request for a page, as its client sees it.\<close>

definition history_page :: "chats_env \<Rightarrow> uuid \<Rightarrow> uuid \<Rightarrow> chat_db \<Rightarrow> nat \<Rightarrow> string option \<Rightarrow> exn + ChatStepView list \<times> string option" where
  "history_page env session user s limit cursor =
     map_sum id (\<lambda>v. (hv_steps v, hv_next v)) (get_history env session user (Some (int limit)) cursor s)"

lemma owner_of: "get_chat_session session user s = Some r \<Longrightarrow> cs_user r = user"
  by (auto simp: get_chat_session_def split: option.splits if_splits)

lemma history_page_at:
  assumes ok: "readable_chat session user s" and limit: "0 < limit \<and> limit \<le> 100" and split: "rev (list_steps session s) = A @ B"
  shows "history_page env session user s limit (place step_mark A) =
    Inr (shown_steps env session user s (take limit B), if limit < length B then place step_mark (A @ take limit B) else None)"
proof -
  obtain r where r: "get_chat_session session user s = Some r" and "seq_ok s"
    using ok by (auto simp: readable_chat_def)
  have sorted: "sorted_wrt (\<lambda>x y. sp_seq y < sp_seq x) (A @ B)"
    using newest_first [OF \<open>seq_ok s\<close>, of session] by (simp add: split)
  have members: "set A \<union> set B = set (list_steps session s)"
    using split by (metis set_append set_rev)
  have decoded: "map_option (history_cursor_decode env) (place step_mark A) = map_option Some (step_cursor A)"
  proof (cases "A = []")
    case False
    then have "List.last A \<in> set (list_steps session s)"
      using members last_in_set [OF False] by blast
    then have "sp_seq (List.last A) < 2 ^ 63"
      using \<open>seq_ok s\<close> by (simp add: seq_ok_def list_steps_set)
    then show ?thesis
      using False by (simp add: place_def step_cursor_def step_mark_def history_cursor_decode_encode seq_str_length)
  qed (simp add: step_cursor_def)
  have window: "history_window session (Some (int limit)) (step_cursor A) s =
      Inr (rev (take limit B), list_steps_for_message_steps session (map sp_message (rev (take limit B))) s,
        if limit < length B then place step_mark (A @ take limit B) else None)"
    using limit page_shape [OF sorted split] by (simp add: history_window_def HISTORY_LIMIT_MAX_def)
  have "set (rev (take limit B)) \<subseteq> set (list_steps session s)"
    using members set_take_subset [of limit B] by simp blast
  then have shown: "map (step_view env ids user (list_steps_for_message_steps session (map sp_message (rev (take limit B))) s)) (rev (take limit B))
      = map (step_view env ids user (list_steps session s)) (rev (take limit B))" for ids
    by (intro map_cong refl page_beside) auto
  have bound: "Option.bind (map_option Some (step_cursor A)) id = step_cursor A"
    by (cases "step_cursor A") simp_all
  show ?thesis
    unfolding history_page_def get_history_def r decoded
    using owner_of [OF r] by (simp add: Let_def bound window shown shown_steps_def del: map_append)
qed

interpretation history: keyset "readable_chat session user" "\<lambda>s. rev (list_steps session s)" "\<lambda>_. step_mark" "shown_steps env session user"
    "history_page env session user" "\<lambda>limit. 0 < limit \<and> limit \<le> 100"
  for env session user
  by unfold_locales (simp_all add: history_page_at)

text \<open>
  C30. Paging through \<open>GET /v1/chats/{id}\<close> terminates and agrees with the whole history: whatever the page size, a client that follows
  \<open>nextCursor\<close> until it is null receives finitely many pages, all but the last full, and put together from the last to the first they are
  exactly the steps the request without a limit answers - with the same identifiers, the same text taken out of a turn with a quiz and
  the same media jobs, although each page is rendered beside the steps of its own turns only.
\<close>

theorem history_pages_reassemble:
  assumes "seq_ok s" and "0 < limit" and "limit \<le> 100" and "get_history env session user None None s = Inr v"
  shows "\<exists>pages. follow (history_page env session user s limit) None = Some (Inr pages) \<and> concat (rev pages) = hv_steps v
    \<and> (\<forall>p \<in> set (butlast pages). length p = limit) \<and> length (List.last pages) \<le> limit"
proof -
  obtain r where r: "get_chat_session session user s = Some r"
    using assms(4) by (cases "get_chat_session session user s") (auto simp: get_history_def)
  have steps: "hv_steps v = shown_steps env session user s (rev (list_steps session s))"
    using assms(4) owner_of [OF r] by (auto simp: get_history_def r history_window_def shown_steps_def)
  have "readable_chat session user s"
    using assms(1) r by (simp add: readable_chat_def)
  then obtain chunks where chunks: "follow (history_page env session user s limit) None = Some (Inr (map (shown_steps env session user s) chunks))"
    "concat chunks = rev (list_steps session s)" "chunks \<noteq> []" "\<forall>p \<in> set (butlast chunks). length p = limit" "length (List.last chunks) \<le> limit"
    using history.follow_reads_all assms(2,3) by blast
  have joined: "concat (rev (map (shown_steps env session user s) xs)) = shown_steps env session user s (concat xs)" for xs
    by (induction xs) (simp_all add: shown_steps_def)
  then show ?thesis
    using chunks joined [of chunks] steps
    by (intro exI [of _ "map (shown_steps env session user s) chunks"])
      (auto simp: map_butlast [symmetric] last_map shown_steps_def)
qed

section \<open>A chat with a quiz\<close>

text \<open>A question, a call of the quiz tool with a text, the quiz, and the closing text.\<close>

definition demo_chats_env :: chats_env where
  "demo_chats_env = \<lparr>cv_loads = (\<lambda>_. None),
     cv_links = \<lparr>lk_mac = (\<lambda>k t. t), lk_secret = ''s'', lk_ttl = 900, lk_domain = [], lk_iso = int_str\<rparr>,
     cv_now = 1000, cv_created = (\<lambda>i. uint i), cv_call_text = (\<lambda>_. ''call''), cv_result_text = (\<lambda>_. ''result''), cv_wide = (\<lambda>_. None)\<rparr>"

definition demo_chat_step :: "nat \<Rightarrow> role \<Rightarrow> json_obj \<Rightarrow> chat_step" where
  "demo_chat_step n r payload = \<lparr>sp_id = of_nat n, sp_seq = n, sp_session = 5, sp_message = 7, sp_role = r, sp_payload = payload, sp_usage = None\<rparr>"

definition demo_quiz_call :: json where
  "demo_quiz_call = JObj [(''type'', JStr ''tool_use''), (''id'', JStr ''toolu_1''), (''name'', JStr ''quiz_generate''), (''input'', JObj [])]"

definition demo_quiz_chat :: "chat_step list \<Rightarrow> chat_db" where
  "demo_quiz_chat steps = \<lparr>cd_sessions = [5 \<mapsto> \<lparr>cs_user = 1, cs_project = None, cs_mode = ''credits'', cs_assistant_mode = ''chat'', cs_title = None,
        cs_model = None, cs_character = None, cs_workspace = None, cs_provider_state = None, cs_backend = Some ''v2'', cs_pinned = False,
        cs_temporary = False, cs_updated = 0\<rparr>],
     cd_steps = steps, cd_next_seq = 9,
     cd_calls = [\<lparr>tc_id = 20, tc_session = 5, tc_message = 7, tc_tool = ''quiz.generate'', tc_provider_id = ''toolu_1'', tc_args = [],
        tc_status = Completed, tc_result = JNull, tc_created = 0\<rparr>],
     cd_attachments = []\<rparr>"

definition demo_quiz_steps :: "chat_step list" where
  "demo_quiz_steps =
     [demo_chat_step 1 User [(''content'', JArr [text_block ''Test me''])],
      demo_chat_step 2 Assistant [(''content'', JArr [text_block ''Answer: 4'', demo_quiz_call])],
      demo_chat_step 3 Tool [(''toolName'', JStr ''quiz.generate''), (''result'', JObj [(''quiz'', JStr ''2+2'')]), (''providerToolUseId'', JStr ''toolu_1'')],
      demo_chat_step 4 Assistant [(''content'', JArr [text_block ''The answer is 4''])]]"

lemma demo_quiz_listed: "list_steps 5 (demo_quiz_chat demo_quiz_steps) = demo_quiz_steps"
  by (simp add: list_steps_def demo_quiz_chat_def demo_quiz_steps_def demo_chat_step_def)

lemma demo_quiz_session: "\<exists>r. get_chat_session 5 1 (demo_quiz_chat steps) = Some r"
  by (simp add: get_chat_session_def demo_quiz_chat_def)

lemma demo_quiz_seq: "seq_ok (demo_quiz_chat demo_quiz_steps)"
  by (simp add: seq_ok_def demo_quiz_chat_def demo_quiz_steps_def demo_chat_step_def)

lemma history_whole:
  assumes "get_chat_session session user s = Some r"
  shows "\<exists>v. get_history env session user None None s = Inr v \<and> map sv_id (hv_steps v) = map sp_id (list_steps session s)"
  by (simp add: get_history_def assms history_window_def step_view_def Let_def comp_def)

lemma demo_quiz_history:
  "\<exists>v. get_history demo_chats_env 5 1 None None (demo_quiz_chat demo_quiz_steps) = Inr v \<and> map sv_id (hv_steps v) = [1, 2, 3, 4]"
proof -
  have "map sp_id demo_quiz_steps = [1, 2, 3, 4]"
    by (simp add: demo_quiz_steps_def demo_chat_step_def)
  then show ?thesis
    using demo_quiz_session [of demo_quiz_steps] history_whole [of 5 1 "demo_quiz_chat demo_quiz_steps" _ demo_chats_env]
    by (auto simp: demo_quiz_listed)
qed

lemma history_pages_reassemble_witness:
  "\<exists>pages. follow (history_page demo_chats_env 5 1 (demo_quiz_chat demo_quiz_steps) 3) None = Some (Inr pages)
     \<and> map sv_id (concat (rev pages)) = [1, 2, 3, 4]"
proof -
  obtain v where v: "get_history demo_chats_env 5 1 None None (demo_quiz_chat demo_quiz_steps) = Inr v" "map sv_id (hv_steps v) = [1, 2, 3, 4]"
    using demo_quiz_history by (elim exE conjE)
  have "\<exists>pages. follow (history_page demo_chats_env 5 1 (demo_quiz_chat demo_quiz_steps) 3) None = Some (Inr pages) \<and> concat (rev pages) = hv_steps v
    \<and> (\<forall>p \<in> set (butlast pages). length p = 3) \<and> length (List.last pages) \<le> 3"
    by (rule history_pages_reassemble [OF demo_quiz_seq _ _ v(1)]) simp_all
  then obtain pages where "follow (history_page demo_chats_env 5 1 (demo_quiz_chat demo_quiz_steps) 3) None = Some (Inr pages)"
    and "concat (rev pages) = hv_steps v"
    by (elim exE conjE)
  with v(2) show ?thesis
    by metis
qed

end
