(* ===== verification/Chats_Shown.thy ===== *)
theory Chats_Shown
  imports Chats_Pages Chat_Run
begin

text \<open>
  What the three reads of a chat show of what its steps store: the history takes the internals out; the list of chats and the view of one
  turn do not always.
\<close>

section \<open>Dictionaries\<close>

lemma map_of_with_key: "map_of (with_key k v d) = (map_of d)(k \<mapsto> v)"
proof -
  have "map_of (map (\<lambda>(k', v'). (k', if k' = k then v else v')) d) k' = (if k' = k then map_option (\<lambda>_. v) (map_of d k) else map_of d k')" for k'
    by (induction d) auto
  then show ?thesis
    by (auto simp: with_key_def fun_eq_iff map_add_def split: option.splits)
qed

lemma jget_with_key [simp]: "jget k' (with_key k v d) = (if k' = k then v else jget k' d)"
  by (simp add: jget_def map_of_with_key)

lemma map_of_without: "map_of (without k d) = (map_of d)(k := None)"
  by (induction d) (auto simp: without_def fun_eq_iff)

lemma jget_without [simp]: "jget k' (without k d) = (if k' = k then JNull else jget k' d)"
  by (simp add: jget_def map_of_without)

lemma jget_without_inner: "jget k (without_inner outer i d) =
    (if k = outer then (case jget outer d of JObj w \<Rightarrow> JObj (without i w) | v \<Rightarrow> v) else jget k d)"
  by (auto simp: without_inner_def split: json.splits)

section \<open>What is public\<close>

text \<open>No identifier of a provider under which a call of the chat is recorded.\<close>

definition id_public :: "tool_call list \<Rightarrow> json \<Rightarrow> bool" where
  "id_public calls v \<longleftrightarrow> (\<forall>i. v = JStr i \<longrightarrow> i \<in> tc_provider_id ` set calls \<longrightarrow> i \<in> uuid_str ` tc_id ` set calls)"

text \<open>No name that only a provider knows a tool by.\<close>

definition name_public :: "json_obj \<Rightarrow> bool" where
  "name_public d \<longleftrightarrow> (\<forall>n. jget ''name'' d = JStr n \<longrightarrow> to_domain_tool_name n = None)"

text \<open>Of a prompt for the generation of media, only that there is one, whichever of its two names the tool is called by.\<close>

definition prompt_public :: "json_obj \<Rightarrow> bool" where
  "prompt_public d \<longleftrightarrow>
     ((\<exists>n. jget ''name'' d = JStr n \<and> or_default (to_domain_tool_name n) n \<in> set MEDIA_PROMPT_TOOLS) \<longrightarrow>
      (\<forall>i. jget ''input'' d = JObj i \<longrightarrow> map_of i ''prompt'' \<in> {None, Some (JStr ''[redacted]'')}))"

definition block_public :: "tool_call list \<Rightarrow> json \<Rightarrow> bool" where
  "block_public calls b \<longleftrightarrow> (\<forall>d. b = JObj d \<longrightarrow>
     (jget ''type'' d = JStr ''tool_use'' \<longrightarrow> id_public calls (jget ''id'' d) \<and> name_public d \<and> prompt_public d)
     \<and> (jget ''type'' d = JStr ''tool_result'' \<longrightarrow> id_public calls (jget ''tool_use_id'' d)))"

definition inner_public :: "string \<Rightarrow> json_obj \<Rightarrow> bool" where
  "inner_public outer d \<longleftrightarrow> (\<forall>w. jget outer d = JObj w \<longrightarrow> map_of w ''prompt'' = None)"

text \<open>The payload of a step of role \<open>r\<close>, of a turn with a quiz or without.\<close>

definition payload_public :: "tool_call list \<Rightarrow> role \<Rightarrow> bool \<Rightarrow> json_obj \<Rightarrow> bool" where
  "payload_public calls r quiz d \<longleftrightarrow> map_of d ''providerToolUseId'' = None
     \<and> (r = User \<longrightarrow> inner_public ''mediaWizard'' d)
     \<and> (r = Tool \<and> jget ''toolName'' d = JStr ''media.ask_params'' \<longrightarrow> inner_public ''result'' d)
     \<and> (\<forall>bs. jget ''content'' d = JArr bs \<longrightarrow>
          (\<forall>b \<in> set bs. block_public calls b \<and> (r = Assistant \<and> quiz \<longrightarrow> block_type b \<noteq> JStr ''text'')))"

section \<open>The history\<close>

abbreviation calls_of_chat :: "uuid \<Rightarrow> chat_db \<Rightarrow> tool_call list" where
  "calls_of_chat session s \<equiv> filter (\<lambda>c. tc_session c = session) (cd_calls s)"

lemma by_key_cases: "(by_key f rows k = None \<and> k \<notin> f ` set rows) \<or> (\<exists>r \<in> set rows. f r = k \<and> by_key f rows k = Some r)"
proof (cases "by_key f rows k")
  case None
  then show ?thesis
    by (simp add: by_key_def map_of_eq_None_iff image_image)
next
  case (Some r)
  then have "(k, r) \<in> set (rev (map (\<lambda>r. (f r, r)) rows))"
    unfolding by_key_def by (rule map_of_SomeD)
  then have "r \<in> set rows" and "f r = k"
    by auto
  then show ?thesis
    using Some by blast
qed

lemma domain_id_public: "id_public (calls_of_chat session s) (jget k (domain_id (provider_id_to_domain_id session s) k d))"
proof (cases "jget k d")
  case (JStr i)
  consider "by_key tc_provider_id (calls_of_chat session s) i = None" "i \<notin> tc_provider_id ` set (calls_of_chat session s)"
    | r where "r \<in> set (calls_of_chat session s)" "by_key tc_provider_id (calls_of_chat session s) i = Some r"
    using by_key_cases [of tc_provider_id "calls_of_chat session s" i] by metis
  then show ?thesis
  proof cases
    case 1
    then show ?thesis
      using JStr by (simp add: domain_id_def provider_id_to_domain_id_def id_public_def)
  next
    case 2
    then have "uuid_str (tc_id r) \<in> uuid_str ` tc_id ` set (calls_of_chat session s)"
      by blast
    then show ?thesis
      using JStr 2(2) by (simp add: domain_id_def provider_id_to_domain_id_def id_public_def)
  qed
qed (simp_all add: domain_id_def id_public_def)

lemma domain_id_other: "k' \<noteq> k \<Longrightarrow> jget k' (domain_id ids k d) = jget k' d"
  by (auto simp: domain_id_def split: json.splits option.splits)

lemma redact_public: "name_public d \<Longrightarrow> prompt_public (redact_media_tool_use_prompt d)"
  by (auto simp: prompt_public_def name_public_def redact_media_tool_use_prompt_def map_of_with_key or_default_def split: json.splits)

lemma redact_other: "k \<noteq> ''input'' \<Longrightarrow> jget k (redact_media_tool_use_prompt d) = jget k d"
  by (auto simp: redact_media_tool_use_prompt_def split: json.splits)

text \<open>The names of the registry are no provider's.\<close>

lemma domain_name_final:
  assumes "to_domain_tool_name a = Some n"
  shows "to_domain_tool_name n = None"
proof -
  have "list_all (\<lambda>n. to_domain_tool_name n = None) ARGS_BY_TOOL"
    by code_simp
  then show ?thesis
    using domain_names_registered [OF assms] by (simp add: list_all_iff)
qed

lemma normalized_name_public: "name_public (normalize_tool_use_block ids d)"
proof (cases "jget ''name'' d")
  case (JStr n)
  then show ?thesis
    by (cases "to_domain_tool_name n") (auto simp: name_public_def normalize_tool_use_block_def domain_id_other dest: domain_name_final)
qed (simp_all add: name_public_def normalize_tool_use_block_def domain_id_other)

lemma redact_name: "name_public d \<Longrightarrow> name_public (redact_media_tool_use_prompt d)"
  by (simp add: name_public_def redact_other)

lemma normalize_use_type: "jget ''type'' (normalize_tool_use_block ids d) = jget ''type'' d"
  by (auto simp: normalize_tool_use_block_def domain_id_other split: json.splits option.splits)

lemma normalized_use_public:
  "id_public (calls_of_chat session s) (jget ''id'' (normalize_tool_use_block (provider_id_to_domain_id session s) d))"
  unfolding normalize_tool_use_block_def by (rule domain_id_public)

lemma normalized_result_public:
  "id_public (calls_of_chat session s) (jget ''tool_use_id'' (normalize_tool_result_block (provider_id_to_domain_id session s) d))"
  unfolding normalize_tool_result_block_def by (rule domain_id_public)

lemma normalized_public: "block_public (calls_of_chat session s) (normalize_block (provider_id_to_domain_id session s) b)"
proof (cases b)
  case (JObj d)
  have result_type: "jget ''type'' (normalize_tool_result_block ids d) = jget ''type'' d" for ids
    by (simp add: normalize_tool_result_block_def domain_id_other)
  consider (use) "jget ''type'' d = JStr ''tool_use''" | (result) "jget ''type'' d = JStr ''tool_result''"
    | (other) "jget ''type'' d \<noteq> JStr ''tool_use''" "jget ''type'' d \<noteq> JStr ''tool_result''"
    by blast
  then show ?thesis
  proof cases
    case use
    then show ?thesis
      using normalized_use_public normalized_name_public
      by (simp add: JObj block_public_def normalize_block_def redact_other normalize_use_type redact_name redact_public)
  next
    case result
    then show ?thesis
      using normalized_result_public by (simp add: JObj block_public_def normalize_block_def result_type)
  qed (simp add: JObj block_public_def normalize_block_def)
qed (simp_all add: block_public_def normalize_block_def)

lemma normalize_block_type: "block_type (normalize_block ids b) = block_type b"
  by (auto simp: normalize_block_def block_type_def redact_other normalize_use_type normalize_tool_result_block_def domain_id_other split: json.splits)

lemma hidden_text: "b \<in> set (hide_quiz_text quiz p blocks) \<Longrightarrow> sp_role p = Assistant \<Longrightarrow> sp_message p \<in> set quiz \<Longrightarrow> block_type b \<noteq> JStr ''text''"
  by (simp add: hide_quiz_text_def)

lemma shown_public:
  assumes "b \<in> set (shown_content env (provider_id_to_domain_id session s) quiz p content)"
  shows "block_public (calls_of_chat session s) b
    \<and> (sp_role p = Assistant \<and> sp_message p \<in> set quiz \<longrightarrow> block_type b \<noteq> JStr ''text'')"
proof -
  obtain b' blocks where b: "b = normalize_block (provider_id_to_domain_id session s) b'" and "b' \<in> set (hide_quiz_text quiz p blocks)"
    using assms unfolding shown_content_def Let_def set_map by (rule imageE)
  then show ?thesis
    using hidden_text [of b' quiz p blocks] normalized_public unfolding b normalize_block_type by blast
qed

lemma sign_other: "k \<noteq> ''attachmentRefs'' \<Longrightarrow> map_of (sign_attachment_refs env session owner d) k = map_of d k"
  by (simp add: sign_attachment_refs_def map_of_with_key split: json.split)

lemma inner_other: "k \<noteq> outer \<Longrightarrow> map_of (without_inner outer i d) k = map_of d k"
  by (simp add: without_inner_def map_of_with_key split: json.split)

lemma inner_stripped: "inner_public outer (without_inner outer ''prompt'' d)"
  by (simp add: inner_public_def without_inner_def map_of_without split: json.split)

lemma inner_sign: "outer \<noteq> ''attachmentRefs'' \<Longrightarrow> inner_public outer (sign_attachment_refs env session owner d) = inner_public outer d"
  by (simp add: inner_public_def jget_def sign_other)

lemma provider_id_dropped: "map_of (outer_payload env owner p) ''providerToolUseId'' = None"
  by (cases "sp_role p") (simp_all add: outer_payload_def Let_def sign_other strip_media_wizard_prompt_def strip_media_tool_result_prompt_def inner_other map_of_without)

lemma wizard_prompt_dropped: "sp_role p = User \<Longrightarrow> inner_public ''mediaWizard'' (outer_payload env owner p)"
  by (simp add: outer_payload_def inner_sign strip_media_wizard_prompt_def inner_stripped)

lemma result_prompt_dropped:
  assumes "sp_role p = Tool" and "jget ''toolName'' (outer_payload env owner p) = JStr ''media.ask_params''"
  shows "inner_public ''result'' (outer_payload env owner p)"
proof -
  have "jget ''toolName'' (strip_media_tool_result_prompt d) = jget ''toolName'' d" for d
    by (simp add: jget_def strip_media_tool_result_prompt_def inner_other)
  then show ?thesis
    using assms by (simp add: outer_payload_def) (simp add: strip_media_tool_result_prompt_def inner_stripped)
qed

lemma inner_content: "outer \<noteq> ''content'' \<Longrightarrow> inner_public outer (with_key ''content'' v d) = inner_public outer d"
  by (simp add: inner_public_def)

lemma normalized_payload_public:
  "payload_public (calls_of_chat session s) (sp_role p) (sp_message p \<in> set quiz)
     (normalize_step_payload env (provider_id_to_domain_id session s) quiz owner p)"
proof (cases "\<exists>content. jget ''content'' (outer_payload env owner p) = JArr content")
  case True
  then obtain content where "normalize_step_payload env (provider_id_to_domain_id session s) quiz owner p =
      with_key ''content'' (JArr (shown_content env (provider_id_to_domain_id session s) quiz p content)) (outer_payload env owner p)"
    by (auto simp: normalize_step_payload_def Let_def)
  then show ?thesis
    using provider_id_dropped [of env owner p] wizard_prompt_dropped [of p env owner] result_prompt_dropped [of p env owner] shown_public
    by (simp add: payload_public_def map_of_with_key inner_content)
next
  case False
  then have "normalize_step_payload env (provider_id_to_domain_id session s) quiz owner p = outer_payload env owner p"
    by (auto simp: normalize_step_payload_def Let_def split: json.split)
  then show ?thesis
    using provider_id_dropped [of env owner p] wizard_prompt_dropped [of p env owner] result_prompt_dropped [of p env owner] False
    by (simp add: payload_public_def)
qed

lemma public_with_jobs: "payload_public calls r q d \<Longrightarrow> payload_public calls r q (with_key ''mediaJobs'' v d)"
  by (simp add: payload_public_def inner_public_def map_of_with_key)

lemma step_view_public:
  "payload_public (calls_of_chat session s) (sp_role p) (sp_message p \<in> set (quiz_turn_ids enrich))
     (sv_payload (step_view env (provider_id_to_domain_id session s) owner enrich p))"
  unfolding step_view_def Let_def ChatStepView.select_convs
  by (auto simp only: split: if_split intro: public_with_jobs normalized_payload_public)

text \<open>The turns of a chat that have a quiz.\<close>

definition quiz_turn :: "uuid \<Rightarrow> uuid \<Rightarrow> chat_db \<Rightarrow> bool" where
  "quiz_turn session turn s \<longleftrightarrow> turn \<in> set (quiz_turn_ids (list_steps session s))"

lemma quiz_turn_beside:
  assumes "of_turn turn xs = of_turn turn (list_steps session s)"
  shows "turn \<in> set (quiz_turn_ids xs) \<longleftrightarrow> quiz_turn session turn s"
  unfolding quiz_turn_def quiz_turn_iff [of turn xs] quiz_turn_iff [of turn "list_steps session s"] assms ..

lemma history_window_beside:
  assumes "history_window session limit cursor s = Inr (steps, enrich, more_at)" and "p \<in> set steps"
  shows "p \<in> set (list_steps session s) \<and> of_turn (sp_message p) enrich = of_turn (sp_message p) (list_steps session s)"
proof (cases limit)
  case None
  then show ?thesis
    using assms by (auto simp: history_window_def split: if_splits)
next
  case (Some n)
  then have window: "steps = fst (list_steps_page session (nat n) cursor s)" "enrich = list_steps_for_message_steps session (map sp_message steps) s"
    using assms(1) by (auto simp: history_window_def split: if_splits prod.splits)
  then have "p \<in> set (list_steps session s)"
    using assms(2) by (auto simp: list_steps_page_def Let_def dest!: in_set_takeD)
  moreover have "of_turn (sp_message p) enrich = of_turn (sp_message p) (list_steps session s)"
    unfolding window(2) list_steps_for_message_steps_def filter_filter using assms(2) by (intro filter_cong) auto
  ultimately show ?thesis ..
qed

lemma history_stepE:
  assumes "get_history env session user limit cursor s = Inr v" and "x \<in> set (hv_steps v)"
  obtains p enrich r where "get_chat_session session user s = Some r" and "p \<in> set (list_steps session s)"
    and "of_turn (sp_message p) enrich = of_turn (sp_message p) (list_steps session s)"
    and "x = step_view env (provider_id_to_domain_id session s) (cs_user r) enrich p"
proof -
  obtain r where r: "get_chat_session session user s = Some r"
    using assms(1) by (cases "get_chat_session session user s") (auto simp: get_history_def)
  then obtain steps enrich more_at where
    window: "history_window session limit (Option.bind (map_option (history_cursor_decode env) cursor) id) s = Inr (steps, enrich, more_at)"
    and steps: "hv_steps v = map (step_view env (provider_id_to_domain_id session s) (cs_user r) enrich) steps"
    using assms(1) by (auto simp: get_history_def Let_def split: if_splits sum.splits)
  obtain p where p: "p \<in> set steps" and x: "x = step_view env (provider_id_to_domain_id session s) (cs_user r) enrich p"
    using assms(2) by (auto simp: steps)
  show ?thesis
    using that [OF r _ _ x] history_window_beside [OF window p] by blast
qed

lemma step_view_simps [simp]:
  "sv_id (step_view env ids owner enrich p) = sp_id p" "sv_message (step_view env ids owner enrich p) = sp_message p"
  "sv_role (step_view env ids owner enrich p) = sp_role p"
  by (simp_all add: step_view_def Let_def)

lemma history_payload_public:
  assumes "get_history env session user limit cursor s = Inr v" and "x \<in> set (hv_steps v)"
  shows "payload_public (calls_of_chat session s) (sv_role x) (quiz_turn session (sv_message x) s) (sv_payload x)"
proof (rule history_stepE [OF assms])
  fix p enrich r
  assume beside: "of_turn (sp_message p) enrich = of_turn (sp_message p) (list_steps session s)"
    and x: "x = step_view env (provider_id_to_domain_id session s) (cs_user r) enrich p"
  show ?thesis
    using step_view_public [of session s p enrich env "cs_user r"] unfolding x step_view_simps quiz_turn_beside [OF beside] .
qed

text \<open>
  C31. The history of a chat shows nothing internal, whatever page is asked for and whatever form a provider's answer was stored in. Every step
  it shows is a step of that chat, which belongs to the reader; its payload carries no provider identifier of a tool call recorded for the
  chat, neither on the step nor in a block; a call names its tool as the product does, never as a provider does; no prompt for the generation of media is left in the clear - not in the wizard, not in
  the result of a question about parameters, not in the arguments of a call; and in a turn that has a quiz no answer has text.
\<close>

theorem history_hides_internals:
  assumes "get_history env session user limit cursor s = Inr v" and "x \<in> set (hv_steps v)"
  shows "(\<exists>r. cd_sessions s session = Some r \<and> cs_user r = user)
    \<and> (\<exists>p \<in> set (cd_steps s). sp_session p = session \<and> sp_id p = sv_id x \<and> sp_message p = sv_message x \<and> sp_role p = sv_role x)
    \<and> payload_public (calls_of_chat session s) (sv_role x) (quiz_turn session (sv_message x) s) (sv_payload x)"
proof (rule history_stepE [OF assms])
  fix p enrich r
  assume "get_chat_session session user s = Some r" and p: "p \<in> set (list_steps session s)"
    and x: "x = step_view env (provider_id_to_domain_id session s) (cs_user r) enrich p"
  then have "cd_sessions s session = Some r" "cs_user r = user"
    by (auto simp: get_chat_session_def split: option.splits if_splits)
  moreover have "\<exists>p \<in> set (cd_steps s). sp_session p = session \<and> sp_id p = sv_id x \<and> sp_message p = sv_message x \<and> sp_role p = sv_role x"
    by (rule bexI [of _ p]) (use p in \<open>simp_all add: x list_steps_set\<close>)
  ultimately show ?thesis
    using history_payload_public [OF assms] by blast
qed

section \<open>The view of one turn\<close>

text \<open>
  A finding. The view of a turn (\<open>GET /v1/chats/{id}/steps\<close>) serves the prompts the history takes out: for every call of a media
  tool that a stored answer makes with a prompt, it shows the arguments as they are stored, while the history of the same chat, on any page,
  leaves only \<open>[redacted]\<close> there. The contract of the view says its arguments are what the history already shows.
\<close>

theorem steps_view_shows_prompts:
  assumes "steps_view env session user message s = Inr (turn, xs)"
    and "p \<in> set (steps_for_message session turn s)" and "sp_role p = Assistant"
    and "JObj d \<in> set (to_domain_blocks (cv_loads env) (jget ''content'' (sp_payload p)))" and "jget ''type'' d = JStr ''tool_use''"
    and "jget ''input'' d = JObj i" and "map_of i ''prompt'' = Some prompt"
  shows "(\<exists>x \<in> set xs. vs_kind x = Call_step \<and> vs_args x = Some i)
    \<and> (\<forall>limit cursor v x b. get_history env session user limit cursor s = Inr v \<and> x \<in> set (hv_steps v) \<and> sv_role x = Assistant \<longrightarrow>
         (\<forall>bs. jget ''content'' (sv_payload x) = JArr bs \<and> JObj b \<in> set bs \<and> jget ''type'' b = JStr ''tool_use'' \<longrightarrow> prompt_public b))"
proof (intro conjI allI impI)
  have xs: "xs = concat (map (render_step env (by_key tc_id (tool_calls_for_message session turn s))
      (by_key tc_provider_id (tool_calls_for_message session turn s)) (quiz_turn_ids (steps_for_message session turn s) \<noteq> []))
      (steps_for_message session turn s))"
    using assms(1) by (auto simp: steps_view_def Let_def split: option.splits if_splits)
  obtain x where x: "call_step env (by_key tc_provider_id (tool_calls_for_message session turn s)) (JObj d) = Some x"
    and "vs_kind x = Call_step" "vs_args x = Some i"
    using assms(5,6) by (simp add: call_step_def Let_def dict_or_none_def)
  moreover have "x \<in> set (render_step env calls (by_key tc_provider_id (tool_calls_for_message session turn s)) quiz p)" for calls quiz
    using assms(3,4) x by (auto simp: render_step_def Let_def set_map_filter_iff)
  ultimately show "\<exists>x \<in> set xs. vs_kind x = Call_step \<and> vs_args x = Some i"
    using assms(2) unfolding xs by auto
next
  fix limit cursor v x b bs
  assume at: "get_history env session user limit cursor s = Inr v \<and> x \<in> set (hv_steps v) \<and> sv_role x = Assistant"
    and b: "jget ''content'' (sv_payload x) = JArr bs \<and> JObj b \<in> set bs \<and> jget ''type'' b = JStr ''tool_use''"
  have "payload_public (calls_of_chat session s) Assistant (quiz_turn session (sv_message x) s) (sv_payload x)"
    using history_payload_public [of env session user limit cursor s v x] at by metis
  then show "prompt_public b"
    using b by (auto simp: payload_public_def block_public_def)
qed

section \<open>The list of chats\<close>

lemma strip_text:
  assumes "\<not> py_isspace x" and "\<not> py_isspace y"
  obtains zs' where "py_strip (x # xs @ y # zs) = x # xs @ y # zs'"
proof -
  have "\<exists>ws. dropWhile py_isspace (rev zs @ y # us) = ws @ y # us" for us
    using assms(2) by (induction zs rule: rev_induct) auto
  then obtain ws where "dropWhile py_isspace (rev zs @ y # rev xs @ [x]) = ws @ y # rev xs @ [x]"
    by blast
  then have "py_strip (x # xs @ y # zs) = x # xs @ y # rev ws"
    using assms(1) by (simp add: py_strip_def strip_by_def)
  then show ?thesis
    by (rule that)
qed

lemma unseparated_block: "no_newline inner \<Longrightarrow>
    strip_context_block (CONTEXT_PREFIX @ inner @ CHR '']'' # CHR '' '' # rest) = CONTEXT_PREFIX @ inner @ CHR '']'' # CHR '' '' # rest"
proof (cases "CHR '']'' \<in> set inner")
  case False
  then show ?thesis
    by (simp add: strip_context_block_def py_startswith_def dropWhile_to)
qed (rule bracketed_block)

lemma words_prefix: "py_words [] (CONTEXT_PREFIX @ s) =
    [''[Conversation'', ''settings'', ''for'', ''this'', ''message:''] @ py_words [] s"
  by (simp add: CONTEXT_PREFIX_def py_isspace_def)

lemma truncated_prefix: "py_startswith ''[Conversation settings for this message:'' (truncate_words 160 (CONTEXT_PREFIX @ s))"
  unfolding truncate_words_def words_prefix by (cases "py_words [] s") (simp_all add: py_startswith_def)

text \<open>
  A finding. The preview of a chat whose last message was sent with settings and attachments but without text begins with the settings
  block: the texts of its blocks are joined with a space before the block is looked for, so the separator the pattern asks for is not there.
  The preview of a message never begins with the block, says the contract of the list.
\<close>

theorem preview_of_image_message:
  assumes "latest_spoken (cv_created env) session s = Some p" and "sp_role p = User" and "sp_payload p = user_payload rq (Some files) refs"
    and "py_strip (cr_message rq) = []" and "cr_context rq = Some d" and "render_context_block (Some d) = Some b"
    and "pp_placeholders files = text_block (''[attachment: '' @ name) # others"
  shows "\<exists>t. preview env session s = Some t \<and> py_startswith ''[Conversation settings for this message:'' t"
proof -
  obtain inner where b: "b = CONTEXT_PREFIX @ inner @ '']''" and line: "no_newline inner"
    using rendered [OF assms(6)] by metis
  have "compose_turn0_text (render_context_block (cr_context rq)) (cr_message rq) = b" and "b \<noteq> []"
    using assms(4-6) by (simp_all add: compose_turn0_text_def b CONTEXT_PREFIX_def)
  then have "jget ''content'' (sp_payload p) = JArr (text_block b # text_block (''[attachment: '' @ name) # others)"
    using assms(7) by (simp add: assms(3) user_payload_def user_step_content_def Let_def)
  then obtain ts where "text_parts (cv_loads env) (sp_payload p) = b # (''[attachment: '' @ name) # ts"
    using \<open>b \<noteq> []\<close> by (simp add: text_parts_def to_domain_blocks_def is_chat_completions_message_def text_block_def dict_text_def)
  then obtain zs where joined: "py_join '' '' (text_parts (cv_loads env) (sp_payload p)) = b @ '' '' @ ''[attachment: '' @ zs"
    by (cases ts) auto
  then obtain zs' where stored: "text_from_payload (cv_loads env) (sp_payload p) = b @ '' '' @ CHR ''['' # zs'"
  proof -
    have "b @ '' '' @ ''[attachment: '' @ zs = CHR ''['' # (tl CONTEXT_PREFIX @ inner @ '']'' @ '' '') @ CHR ''['' # ''attachment: '' @ zs"
      by (simp add: b CONTEXT_PREFIX_def)
    moreover have "\<not> py_isspace (CHR ''['')"
      by (simp add: py_isspace_def)
    ultimately obtain ys where "py_strip (b @ '' '' @ ''[attachment: '' @ zs) = CHR ''['' # (tl CONTEXT_PREFIX @ inner @ '']'' @ '' '') @ CHR ''['' # ys"
      using strip_text by metis
    then show ?thesis
      using that [of ys] joined by (simp add: text_from_payload_def b CONTEXT_PREFIX_def)
  qed
  then show ?thesis
    using assms(1,2) truncated_prefix unseparated_block [OF line] by (simp add: preview_def Let_def b)
qed

text \<open>
  A finding. While the last answer of a chat belongs to a turn with a quiz, its text, which the history takes out so that it does not
  give the answers away, is the preview of the chat in the list. The decision record says the rule holds for the preview too.
\<close>

theorem preview_shows_quiz_text:
  assumes "latest_spoken (cv_created env) session s = Some p" and "sp_role p = Assistant" and "quiz_turn session (sp_message p) s"
    and "text_from_payload (cv_loads env) (sp_payload p) \<noteq> []"
  shows "preview env session s = Some (truncate_words 160 (text_from_payload (cv_loads env) (sp_payload p)))
    \<and> (\<forall>user limit cursor v x bs b. get_history env session user limit cursor s = Inr v \<and> x \<in> set (hv_steps v)
         \<and> sv_message x = sp_message p \<and> sv_role x = Assistant \<and> jget ''content'' (sv_payload x) = JArr bs \<and> b \<in> set bs
         \<longrightarrow> block_type b \<noteq> JStr ''text'')"
proof (intro conjI allI impI)
  show "preview env session s = Some (truncate_words 160 (text_from_payload (cv_loads env) (sp_payload p)))"
    using assms by (simp add: preview_def Let_def)
next
  fix user limit cursor v x bs b
  assume at: "get_history env session user limit cursor s = Inr v \<and> x \<in> set (hv_steps v)
         \<and> sv_message x = sp_message p \<and> sv_role x = Assistant \<and> jget ''content'' (sv_payload x) = JArr bs \<and> b \<in> set bs"
  then have "payload_public (calls_of_chat session s) Assistant True (sv_payload x)"
    using history_payload_public [of env session user limit cursor s v x] assms(3) by simp
  then show "block_type b \<noteq> JStr ''text''"
    using at by (simp add: payload_public_def)
qed

section \<open>The findings on small chats\<close>

lemma demo_quiz_turn: "quiz_turn 5 7 (demo_quiz_chat demo_quiz_steps)"
  unfolding quiz_turn_def demo_quiz_listed by (simp add: demo_quiz_steps_def demo_chat_step_def quiz_turn_ids_def)

lemma history_hides_internals_witness:
  "\<exists>v x. get_history demo_chats_env 5 1 None None (demo_quiz_chat demo_quiz_steps) = Inr v \<and> x \<in> set (hv_steps v) \<and> sv_id x = 2
     \<and> payload_public (calls_of_chat 5 (demo_quiz_chat demo_quiz_steps)) (sv_role x) (quiz_turn 5 (sv_message x) (demo_quiz_chat demo_quiz_steps))
         (sv_payload x)"
proof -
  obtain v where v: "get_history demo_chats_env 5 1 None None (demo_quiz_chat demo_quiz_steps) = Inr v" and ids: "map sv_id (hv_steps v) = [1, 2, 3, 4]"
    using demo_quiz_history by (elim exE conjE)
  have "2 \<in> set (map sv_id (hv_steps v))"
    unfolding ids by simp
  then obtain x where "x \<in> set (hv_steps v)" "sv_id x = 2"
    by auto
  then show ?thesis
    using history_hides_internals [OF v] v by blast
qed

definition demo_media_steps :: "chat_step list" where
  "demo_media_steps = [demo_chat_step 1 Assistant [(''content'', JArr [JObj [(''type'', JStr ''tool_use''), (''id'', JStr ''toolu_1''),
     (''name'', JStr ''media_generate_image''), (''input'', JObj [(''prompt'', JStr ''a cat'')])]])]]"

lemma demo_media_listed: "list_steps 5 (demo_quiz_chat demo_media_steps) = demo_media_steps"
  by (simp add: list_steps_def demo_quiz_chat_def demo_media_steps_def demo_chat_step_def)

lemma steps_view_shows_prompts_witness:
  "\<exists>xs. steps_view demo_chats_env 5 1 (Some 7) (demo_quiz_chat demo_media_steps) = Inr (7, xs)
     \<and> (\<exists>x \<in> set xs. vs_kind x = Call_step \<and> vs_args x = Some [(''prompt'', JStr ''a cat'')])"
proof -
  obtain p where p: "steps_for_message 5 7 (demo_quiz_chat demo_media_steps) = [p]" "sp_role p = Assistant"
    "jget ''content'' (sp_payload p) = JArr [JObj [(''type'', JStr ''tool_use''), (''id'', JStr ''toolu_1''),
       (''name'', JStr ''media_generate_image''), (''input'', JObj [(''prompt'', JStr ''a cat'')])]]"
    by (simp add: steps_for_message_def demo_media_listed) (simp add: demo_media_steps_def demo_chat_step_def)
  obtain xs where "steps_view demo_chats_env 5 1 (Some 7) (demo_quiz_chat demo_media_steps) = Inr (7, xs)"
    using demo_quiz_session [of demo_media_steps] by (auto simp: steps_view_def Let_def p(1))
  then show ?thesis
    using steps_view_shows_prompts [of demo_chats_env 5 1 "Some 7" "demo_quiz_chat demo_media_steps" 7 xs p, unfolded p(1)] p(2,3)
    by (simp add: to_domain_blocks_def is_chat_completions_message_def is_openai_assistant_message_def)
qed

definition demo_image_request :: chat_request where
  "demo_image_request = \<lparr>cr_session = Some 5, cr_message = [], cr_mode = ''credits'', cr_assistant_mode = None, cr_model = None,
     cr_character = None, cr_workspace = None, cr_project = None, cr_context = Some [(''tone'', JStr ''dry'')], cr_edit = None,
     cr_attachments = [JNull], cr_generation_mode = ''general'', cr_v2 = True, cr_temporary = False, cr_resume_only = False\<rparr>"

definition demo_image_step :: chat_step where
  "demo_image_step = demo_chat_step 1 User (user_payload demo_image_request
     (Some \<lparr>pp_placeholders = [text_block ''[attachment: a.png]''], pp_has_images = True, pp_parts = None\<rparr>) [])"

lemma demo_image_last: "latest_spoken (cv_created demo_chats_env) 5 (demo_quiz_chat [demo_image_step]) = Some demo_image_step"
  by (simp add: latest_spoken_def demo_quiz_chat_def) (simp add: demo_image_step_def demo_chat_step_def)

lemma preview_of_image_message_witness:
  "\<exists>t. preview demo_chats_env 5 (demo_quiz_chat [demo_image_step]) = Some t \<and> py_startswith ''[Conversation settings for this message:'' t"
proof -
  have dry: "render_context_block (Some [(''tone'', JStr ''dry'')]) = Some (CONTEXT_PREFIX @ ''tone=dry]'')"
    by code_simp
  show ?thesis
    by (rule preview_of_image_message [OF demo_image_last _ _ _ _ dry, where rq = demo_image_request and refs = "[]"
          and files = "\<lparr>pp_placeholders = [text_block ''[attachment: a.png]''], pp_has_images = True, pp_parts = None\<rparr>" and name = "''a.png]''" and others = "[]"])
      (simp_all add: demo_image_step_def demo_chat_step_def demo_image_request_def py_strip_def strip_by_def)
qed

lemma demo_quiz_last: "latest_spoken (cv_created demo_chats_env) 5 (demo_quiz_chat demo_quiz_steps) =
    Some (demo_chat_step 4 Assistant [(''content'', JArr [text_block ''The answer is 4''])])"
  by (simp add: latest_spoken_def demo_quiz_chat_def demo_quiz_steps_def demo_chat_step_def demo_chats_env_def)

lemma preview_shows_quiz_text_witness: "preview demo_chats_env 5 (demo_quiz_chat demo_quiz_steps) = Some ''The answer is 4''"
proof -
  have "text_from_payload (cv_loads demo_chats_env) [(''content'', JArr [text_block ''The answer is 4''])] = ''The answer is 4''"
    by code_simp
  moreover have "truncate_words 160 ''The answer is 4'' = ''The answer is 4''"
    by code_simp
  ultimately show ?thesis
    using preview_shows_quiz_text [OF demo_quiz_last] demo_quiz_turn by (simp add: demo_chat_step_def)
qed

end
