(* ===== verification/PyBase64.thy ===== *)
theory PyBase64
  imports PyBytes
begin

text \<open>
  \<open>base64.b64encode\<close> and \<open>base64.b64decode(s, validate=True)\<close>, as CPython 3.11 and 3.12 have them: the standard alphabet, and a decoder that takes
  nothing but whole groups of four, the last one padded; bits the padding leaves over are ignored. After a group without padding any
  number of padding characters is taken and ignored. \<open>None\<close> is \<open>binascii.Error\<close> or, for text outside ASCII, \<open>ValueError\<close>.
\<close>

definition std_char :: "nat \<Rightarrow> char" where
  "std_char v = (if v < 26 then char_of (65 + v) else if v < 52 then char_of (71 + v)
     else if v < 62 then char_of (v - 4) else if v = 62 then CHR ''+'' else CHR ''/'')"

definition std_value :: "char \<Rightarrow> nat option" where
  "std_value c = (let n = of_char c :: nat in
     if 65 \<le> n \<and> n \<le> 90 then Some (n - 65) else if 97 \<le> n \<and> n \<le> 122 then Some (n - 71)
     else if 48 \<le> n \<and> n \<le> 57 then Some (n + 4) else if n = 43 then Some 62 else if n = 47 then Some 63 else None)"

fun b64encode :: "nat list \<Rightarrow> string" where
  "b64encode [] = []"
| "b64encode [a] = [std_char (a div 4), std_char (a mod 4 * 16), CHR ''='', CHR ''='']"
| "b64encode [a, b] = [std_char (a div 4), std_char (a mod 4 * 16 + b div 16), std_char (b mod 16 * 4), CHR ''='']"
| "b64encode (a # b # c # r) =
     std_char (a div 4) # std_char (a mod 4 * 16 + b div 16) # std_char (b mod 16 * 4 + c div 64) # std_char (c mod 64) # b64encode r"

definition padding :: "string \<Rightarrow> bool" where
  "padding s \<longleftrightarrow> list_all (\<lambda>c. c = CHR ''='') s"

fun b64_groups :: "string \<Rightarrow> nat list option" where
  "b64_groups [] = Some []"
| "b64_groups (a # b # c # d # r) =
     (if padding (a # b # c # d # r) then Some []
      else case (std_value a, std_value b) of
        (Some v, Some w) \<Rightarrow>
          (case std_value c of
             None \<Rightarrow> if c = CHR ''='' \<and> d = CHR ''='' \<and> r = [] then Some [v * 4 + w div 16] else None
           | Some x \<Rightarrow>
               (case std_value d of
                  None \<Rightarrow> if d = CHR ''='' \<and> r = [] then Some [v * 4 + w div 16, w mod 16 * 16 + x div 4] else None
                | Some y \<Rightarrow>
                    map_option (\<lambda>bs. (v * 4 + w div 16) # (w mod 16 * 16 + x div 4) # (x mod 4 * 64 + y) # bs) (b64_groups r)))
      | _ \<Rightarrow> None)"
| "b64_groups s = (if padding s then Some [] else None)"

definition b64decode_strict :: "string \<Rightarrow> nat list option" where
  "b64decode_strict s = (if s \<noteq> [] \<and> hd s = CHR ''='' then None else b64_groups s)"

lemma std_char_value [simp]: "v < 64 \<Longrightarrow> std_value (std_char v) = Some v"
  by (auto simp: std_char_def std_value_def Let_def of_char_of)

lemma pad_value [simp]: "std_value (CHR ''='') = None"
  by (simp add: std_value_def)

lemma std_char_no_pad [simp]: "v < 64 \<Longrightarrow> std_char v \<noteq> CHR ''=''"
  using std_char_value [of v] by (metis option.discI pad_value)

lemma padding_Cons [simp]: "padding (c # s) \<longleftrightarrow> c = CHR ''='' \<and> padding s" and padding_Nil [simp]: "padding []"
  by (simp_all add: padding_def)

lemma b64_groups_roundtrip: "\<forall>b \<in> set bs. b < 256 \<Longrightarrow> b64_groups (b64encode bs) = Some bs"
proof (induction bs rule: b64encode.induct)
  case (2 a)
  then have "a div 4 < 64" "a mod 4 * 16 < 64" by simp_all
  then show ?case by simp
next
  case (3 a b)
  then have "a div 4 < 64" "b div 16 < 16" "a mod 4 * 16 + b div 16 < 64" "b mod 16 * 4 < 64" by auto
  then show ?case by simp
next
  case (4 a b c r)
  then have "a div 4 < 64" "b div 16 < 16" "c div 64 < 4" "c mod 64 < 64"
    "a mod 4 * 16 + b div 16 < 64" "b mod 16 * 4 + c div 64 < 64" by auto
  then show ?case using 4 by simp
qed simp

lemma b64encode_head: "\<forall>b \<in> set bs. b < 256 \<Longrightarrow> b64encode bs \<noteq> [] \<Longrightarrow> hd (b64encode bs) \<noteq> CHR ''=''"
proof (induction bs rule: b64encode.induct)
  case (2 a)
  then have "a div 4 < 64" by simp
  then show ?case by simp
next
  case (3 a b)
  then have "a div 4 < 64" by auto
  then show ?case by simp
next
  case (4 a b c r)
  then have "a div 4 < 64" by auto
  then show ?case by simp
qed simp

lemma b64_strict_roundtrip: "\<forall>b \<in> set bs. b < 256 \<Longrightarrow> b64decode_strict (b64encode bs) = Some bs"
  using b64encode_head b64_groups_roundtrip by (auto simp: b64decode_strict_def)

lemma std_value_bound: "std_value c = Some v \<Longrightarrow> v < 64"
  by (auto simp: std_value_def Let_def split: if_splits)

text \<open>What a text that decodes looks like, and how many bytes it holds.\<close>

definition holds :: "string \<Rightarrow> nat list \<Rightarrow> bool" where
  "holds s bs \<longleftrightarrow> (\<exists>body k. s = body @ replicate k (CHR ''='') \<and> body \<noteq> [] \<and> 4 dvd length body \<and> (k = 0 \<or> CHR ''='' \<notin> set body)
     \<and> CHR ''='' \<notin> set (take (length body - 2) body) \<and> length bs + length (filter (\<lambda>c. c = CHR ''='') body) = length body div 4 * 3)"

lemma padding_replicate: "padding s \<Longrightarrow> s = replicate (length s) (CHR ''='')"
  by (induction s) simp_all

lemma value_no_pad: "std_value c = Some v \<Longrightarrow> c \<noteq> CHR ''=''"
  by auto

lemma four_dvd [simp]: "4 dvd Suc (Suc (Suc (Suc n))) \<longleftrightarrow> 4 dvd n"
  by presburger

lemma holds_group:
  assumes "a \<noteq> CHR ''=''" "b \<noteq> CHR ''=''" "c \<noteq> CHR ''=''" "d \<noteq> CHR ''=''" "padding r \<and> bs = [] \<or> holds r bs"
  shows "holds (a # b # c # d # r) (x # y # z # bs)"
  using assms(5)
proof
  assume "padding r \<and> bs = []"
  then show ?thesis
    unfolding holds_def using assms(1-4) padding_replicate [of r] by (intro exI [of _ "[a, b, c, d]"] exI [of _ "length r"]) simp
next
  assume "holds r bs"
  then obtain body k where r: "r = body @ replicate k (CHR ''='')" "body \<noteq> []" "4 dvd length body" "k = 0 \<or> CHR ''='' \<notin> set body"
    "CHR ''='' \<notin> set (take (length body - 2) body)" "length bs + length (filter (\<lambda>c. c = CHR ''='') body) = length body div 4 * 3"
    by (auto simp: holds_def)
  then obtain n where "length body = 4 * Suc n"
    by (metis dvdE length_0_conv mult_0_right not0_implies_Suc)
  then have "length (a # b # c # d # body) - 2 = Suc (Suc (Suc (Suc (length body - 2))))"
    by simp
  then have "take (length (a # b # c # d # body) - 2) (a # b # c # d # body) = a # b # c # d # take (length body - 2) body"
    by (simp only: take_Suc_Cons)
  then show ?thesis
    unfolding holds_def using assms(1-4) r by (intro exI [of _ "a # b # c # d # body"] exI [of _ k]) auto
qed

lemma b64_groups_shape: "b64_groups s = Some bs \<Longrightarrow> padding s \<and> bs = [] \<or> holds s bs"
proof (induction s arbitrary: bs rule: b64_groups.induct)
  case (2 a b c d r)
  have short: "holds [a, b, c, d] bs" if "a \<noteq> CHR ''=''" "b \<noteq> CHR ''=''" "length bs + length (filter (\<lambda>c. c = CHR ''='') [c, d]) = 3" for bs c d
    unfolding holds_def using that by (intro exI [of _ "[a, b, c, d]"] exI [of _ 0]) simp
  show ?case
  proof (cases "padding (a # b # c # d # r)")
    case True
    then show ?thesis
      using 2 by simp
  next
    case False
    then obtain v w where v: "std_value a = Some v" "std_value b = Some w"
      using "2.prems" by (auto split: option.splits)
    then have plain: "a \<noteq> CHR ''=''" "b \<noteq> CHR ''=''"
      using value_no_pad by blast+
    show ?thesis
    proof (cases "std_value c")
      case None
      then show ?thesis
        using "2.prems" False v plain by (auto intro!: short split: if_splits)
    next
      case x: (Some x)
      then have c: "c \<noteq> CHR ''=''"
        by (rule value_no_pad)
      show ?thesis
      proof (cases "std_value d")
        case None
        then show ?thesis
          using "2.prems" False v x plain c by (auto intro!: short split: if_splits)
      next
        case (Some y)
        then obtain bs' where "b64_groups r = Some bs'" "bs = (v * 4 + w div 16) # (w mod 16 * 16 + x div 4) # (x mod 4 * 64 + y) # bs'"
          using "2.prems" False v x by auto
        moreover from this have "padding r \<and> bs' = [] \<or> holds r bs'"
          using "2.IH" False v x Some by blast
        ultimately show ?thesis
          using holds_group [OF plain c value_no_pad [OF Some]] by blast
      qed
    qed
  qed
qed (auto split: if_splits)

lemma b64_groups_bytes: "b64_groups s = Some bs \<Longrightarrow> b \<in> set bs \<Longrightarrow> b < 256"
proof (induction s arbitrary: bs rule: b64_groups.induct)
  case (2 a e c d r)
  have bound: "v < 64 \<Longrightarrow> w < 64 \<Longrightarrow> v * 4 + w div 16 < 256" "w < 64 \<Longrightarrow> x < 64 \<Longrightarrow> w mod 16 * 16 + x div 4 < 256"
    "x < 64 \<Longrightarrow> y < 64 \<Longrightarrow> x mod 4 * 64 + y < 256" for v w x y :: nat
    by auto
  show ?case
    using 2 by (auto split: option.splits if_splits dest!: std_value_bound intro: bound)
qed (auto split: if_splits)

lemma b64decode_strict_bytes: "b64decode_strict s = Some bs \<Longrightarrow> b \<in> set bs \<Longrightarrow> b < 256"
  using b64_groups_bytes by (auto simp: b64decode_strict_def split: if_splits)

lemma b64decode_strict_shape: "b64decode_strict s = Some bs \<Longrightarrow> s = [] \<and> bs = [] \<or> holds s bs"
  using b64_groups_shape [of s bs] by (cases s) (auto simp: b64decode_strict_def split: if_splits)

end
