(* ===== verification/Website.thy ===== *)
theory Website
  imports PyBase64 Chat_Turn Signed_Url
begin

text \<open>
  The site builder: \<open>website/paths.py\<close>, \<open>website/service.py\<close> and the handlers of \<open>website/tools.py\<close> a chat turn calls. Tables are lists of
  rows; a row's size is stored beside its content. Arguments (\<open>site_env\<close>): the limits of the settings, the settings of signed links and
  their clock, the rank a path has in the database's collation, and what decoded text outside Latin-1 is in JSON.
  Owner and project come with the call, never from the arguments of the model. Metrics are left out.
\<close>

section \<open>Paths\<close>

fun split_on :: "char \<Rightarrow> string \<Rightarrow> string list" where
  "split_on x [] = [[]]"
| "split_on x (c # cs) =
     (if c = x then [] # split_on x cs
      else case split_on x cs of w # ws \<Rightarrow> (c # w) # ws | [] \<Rightarrow> [[c]])"

fun kept_segments :: "string list \<Rightarrow> string + string list" where
  "kept_segments [] = Inr []"
| "kept_segments (s # ss) =
     (if s = [] \<or> s = ''.'' then kept_segments ss
      else if s = ''..'' then Inl (''path must not contain '' @ [CHR 0x27] @ ''..'' @ [CHR 0x27] @ '' traversal'')
      else map_sum id (Cons s) (kept_segments ss))"

fun join_slash :: "string list \<Rightarrow> string" where
  "join_slash [] = []"
| "join_slash [w] = w"
| "join_slash (w # v # ws) = w @ CHR ''/'' # join_slash (v # ws)"

text \<open>\<open>Inl\<close> is the message of \<open>InvalidPathError\<close>.\<close>

definition normalize_site_path :: "string \<Rightarrow> string + string" where
  "normalize_site_path raw =
     (if raw = [] then Inl ''path must not be empty''
      else if CHR 0x00 \<in> set raw then Inl ''path must not contain NUL''
      else if CHR 0x5C \<in> set raw then Inl ''path must not contain backslash''
      else if hd raw = CHR ''/'' then Inl ''path must be relative, not absolute''
      else case kept_segments (split_on (CHR ''/'') raw) of
        Inl m \<Rightarrow> Inl m
      | Inr [] \<Rightarrow> Inl ''path resolves to empty''
      | Inr segments \<Rightarrow> Inr (join_slash segments))"

section \<open>Tables\<close>

record project_row =
  pr_id :: uuid
  pr_user :: uuid
  pr_external :: string

record site_file =
  sf_project :: uuid
  sf_path :: string
  sf_content :: "nat list"
  sf_type :: string
  sf_size :: int

record site_state =
  si_db :: db
  si_projects :: "project_row list"
  si_files :: "site_file list"

record site_env =
  se_max_file_bytes :: int
  se_max_project_bytes :: int
  se_max_files :: int
  se_links :: link_settings
  se_now :: int
  se_rank :: "string \<Rightarrow> nat"
  se_wide :: "nat list \<Rightarrow> json"

datatype site_fault = SiteFileError string string | Site_exn exn

type_synonym 'a site_op = "site_state \<Rightarrow> (site_fault, 'a, site_state) outcome"

definition PREVIEW_CONTENT_TYPE_ALLOWLIST :: "string list" where
  "PREVIEW_CONTENT_TYPE_ALLOWLIST = [''text/html'', ''text/css'', ''text/javascript'', ''application/json'', ''image/png'', ''image/jpeg'',
     ''image/svg+xml'', ''image/gif'', ''image/webp'', ''font/woff2'', ''text/plain'']"

section \<open>The service\<close>

definition get_existing_project :: "uuid \<Rightarrow> string \<Rightarrow> site_state \<Rightarrow> project_row option" where
  "get_existing_project user external s = find (\<lambda>p. pr_user p = user \<and> pr_external p = external) (si_projects s)"

text \<open>\<open>INSERT ... ON CONFLICT (user_id, external_project_id) DO NOTHING\<close>, then the row; \<open>new_id\<close> is the database's.\<close>

definition resolve_project :: "uuid \<Rightarrow> uuid \<Rightarrow> string \<Rightarrow> project_row site_op" where
  "resolve_project new_id user external s =
     (case get_existing_project user external s of
        Some p \<Rightarrow> (Inr p, s)
      | None \<Rightarrow>
          if users (si_db s) user = None then (Inl (Site_exn (DbFault ForeignKeyViolation)), s)
          else if \<exists>p \<in> set (si_projects s). pr_id p = new_id then (Inl (Site_exn (DbFault UniqueViolation)), s)
          else (let p = \<lparr>pr_id = new_id, pr_user = user, pr_external = external\<rparr> in (Inr p, s\<lparr>si_projects := si_projects s @ [p]\<rparr>)))"

definition files_of :: "uuid \<Rightarrow> site_state \<Rightarrow> site_file list" where
  "files_of project s = filter (\<lambda>f. sf_project f = project) (si_files s)"

definition project_stats :: "uuid \<Rightarrow> site_state \<Rightarrow> int \<times> int" where
  "project_stats project s = (int (length (files_of project s)), sum_list (map sf_size (files_of project s)))"

definition site_file_at :: "uuid \<Rightarrow> string \<Rightarrow> site_state \<Rightarrow> site_file option" where
  "site_file_at project path s = find (\<lambda>f. sf_project f = project \<and> sf_path f = path) (si_files s)"

record WriteResult =
  wr_path :: string
  wr_bytes_written :: int
  wr_file_count :: int
  wr_project_bytes :: int

definition store_site_file :: "uuid \<Rightarrow> string \<Rightarrow> nat list \<Rightarrow> string \<Rightarrow> site_state \<Rightarrow> site_state" where
  "store_site_file project path content ctype s =
     (let row = \<lparr>sf_project = project, sf_path = path, sf_content = content, sf_type = ctype, sf_size = int (length content)\<rparr> in
      s\<lparr>si_files := (if site_file_at project path s = None then si_files s @ [row]
                    else map (\<lambda>f. if sf_project f = project \<and> sf_path f = path then row else f) (si_files s))\<rparr>)"

definition write_file :: "site_env \<Rightarrow> uuid \<Rightarrow> string \<Rightarrow> nat list \<Rightarrow> string \<Rightarrow> WriteResult site_op" where
  "write_file env project path content ctype s =
     (if ctype \<notin> set PREVIEW_CONTENT_TYPE_ALLOWLIST then (Inl (SiteFileError ''invalid_content_type'' (''content_type not allowed: '' @ ctype)), s)
      else case normalize_site_path path of
        Inl m \<Rightarrow> (Inl (SiteFileError ''invalid_path'' m), s)
      | Inr n \<Rightarrow>
          (let size = int (length content); old = site_file_at project n s;
               projected_bytes = snd (project_stats project s) - (case old of None \<Rightarrow> 0 | Some f \<Rightarrow> sf_size f) + size;
               projected_count = fst (project_stats project s) + (if old = None then 1 else 0) in
           if se_max_file_bytes env < size then (Inl (SiteFileError ''file_too_large'' ''file exceeds the per-file size limit''), s)
           else if se_max_project_bytes env < projected_bytes then (Inl (SiteFileError ''project_too_large'' ''project exceeds the total size limit''), s)
           else if se_max_files env < projected_count then (Inl (SiteFileError ''too_many_files'' ''project exceeds the maximum number of files''), s)
           else (let s' = store_site_file project n content ctype s in
             (Inr \<lparr>wr_path = n, wr_bytes_written = size, wr_file_count = fst (project_stats project s'),
                   wr_project_bytes = snd (project_stats project s')\<rparr>, s'))))"

definition read_file :: "uuid \<Rightarrow> string \<Rightarrow> site_state \<Rightarrow> site_file option" where
  "read_file project path s = (case normalize_site_path path of Inl m \<Rightarrow> None | Inr n \<Rightarrow> site_file_at project n s)"

definition list_files :: "site_env \<Rightarrow> uuid \<Rightarrow> site_state \<Rightarrow> site_file list" where
  "list_files env project s = sort_key (\<lambda>f. se_rank env (sf_path f)) (files_of project s)"

definition delete_file :: "uuid \<Rightarrow> string \<Rightarrow> (bool \<times> int \<times> int) site_op" where
  "delete_file project path s =
     (case normalize_site_path path of
        Inl m \<Rightarrow> (Inl (SiteFileError ''invalid_path'' m), s)
      | Inr n \<Rightarrow>
          (let s' = (if site_file_at project n s = None then s
                     else s\<lparr>si_files := filter (\<lambda>f. \<not> (sf_project f = project \<and> sf_path f = n)) (si_files s)\<rparr>) in
           (Inr (site_file_at project n s \<noteq> None, project_stats project s'), s')))"

section \<open>The handlers\<close>

definition tool_ok :: "json_obj \<Rightarrow> tool_execution" where
  "tool_ok result = \<lparr>tx_result = Some result, tx_is_error = False, tx_error_code = None, tx_error_message = None\<rparr>"

definition decode_content :: "string \<Rightarrow> string \<Rightarrow> nat list option" where
  "decode_content content encoding =
     (if encoding = ''utf8'' then Some (utf8_encode content)
      else if \<forall>c \<in> set content. of_char c < (128 :: nat) then b64decode_strict content else None)"

definition site_audit :: "uuid \<Rightarrow> uuid \<Rightarrow> payload \<Rightarrow> unit site_op" where
  "site_audit user session p s =
     (case audit_record (Some user) (Some session) ''tool_mutation'' p (si_db s) of
        (Inl e, d) \<Rightarrow> (Inl (Site_exn e), s\<lparr>si_db := d\<rparr>)
      | (Inr x, d) \<Rightarrow> (Inr (), s\<lparr>si_db := d\<rparr>))"

definition write_file_tool :: "site_env \<Rightarrow> uuid \<Rightarrow> json_obj \<Rightarrow> uuid \<Rightarrow> string \<Rightarrow> uuid \<Rightarrow> tool_execution site_op" where
  "write_file_tool env new_id args user external session s =
     (case decode_content (py_str (jget ''content'' args)) (py_str (jget ''encoding'' args)) of
        None \<Rightarrow> (Inr (tool_error ''invalid_encoding'' ''content is not valid base64''), s)
      | Some content \<Rightarrow>
          and_then (resolve_project new_id user external s) (\<lambda>p s.
          and_then (write_file env (pr_id p) (py_str (jget ''path'' args)) content (py_str (jget ''contentType'' args)) s) (\<lambda>r s.
          and_then (site_audit user session
              [(''toolName'', Val (JStr ''site.write_file'')), (''projectId'', Val (JStr (uuid_str (pr_id p)))),
               (''path'', Val (JStr (wr_path r))), (''bytesWritten'', Val (JInt (wr_bytes_written r)))] s) (\<lambda>_ s.
            (Inr (tool_ok [(''path'', JStr (wr_path r)), (''bytesWritten'', JInt (wr_bytes_written r)),
                (''fileCount'', JInt (wr_file_count r)), (''projectBytes'', JInt (wr_project_bytes r))]), s)))))"

definition preview_tool :: "site_env \<Rightarrow> json_obj \<Rightarrow> uuid \<Rightarrow> string \<Rightarrow> site_state \<Rightarrow> tool_execution" where
  "preview_tool env args user external s =
     (case get_existing_project user external s of
        None \<Rightarrow> tool_error ''project_not_found'' ''no project to preview''
      | Some p \<Rightarrow>
          (let entry = (if truthy (jget ''entry'' args) then py_str (jget ''entry'' args) else ''index.html''); lk = se_links env in
           case build_token (lk_mac lk) (lk_secret lk) (lk_ttl lk) (Site_preview (pr_id p) user) (se_now env) of
             None \<Rightarrow> tool_error ''preview_unavailable'' ''PREVIEW_URL_SECRET is not configured''
           | Some (token, exp) \<Rightarrow>
               tool_ok [(''url'', JStr ((if lk_domain lk = [] then [] else ''https://'' @ lk_domain lk)
                   @ ''/v1/preview/'' @ uuid_str (pr_id p) @ ''/'' @ token @ ''/'' @ entry)),
                 (''expiresAt'', JStr (lk_iso lk exp))]))"

definition list_tool :: "site_env \<Rightarrow> uuid \<Rightarrow> string \<Rightarrow> site_state \<Rightarrow> tool_execution" where
  "list_tool env user external s =
     (case get_existing_project user external s of
        None \<Rightarrow> tool_ok [(''files'', JArr []), (''fileCount'', JInt 0), (''projectBytes'', JInt 0)]
      | Some p \<Rightarrow>
          tool_ok [(''files'', JArr (map (\<lambda>f. JObj [(''path'', JStr (sf_path f)), (''contentType'', JStr (sf_type f)), (''size'', JInt (sf_size f))])
                (list_files env (pr_id p) s))),
            (''fileCount'', JInt (fst (project_stats (pr_id p) s))), (''projectBytes'', JInt (snd (project_stats (pr_id p) s)))])"

text \<open>The content of a file and the encoding it is returned in.\<close>

definition encoded_content :: "site_env \<Rightarrow> site_file \<Rightarrow> json \<times> string" where
  "encoded_content env f =
     (let b64 = (JStr (b64encode (sf_content f)), ''base64'') in
      if py_startswith ''text/'' (sf_type f) \<or> sf_type f = ''application/json''
      then (case utf8_decode (sf_content f) of
          None \<Rightarrow> b64
        | Some ps \<Rightarrow> (if list_ex (\<lambda>p. 256 \<le> p) ps then se_wide env ps else JStr (map char_of ps), ''utf8''))
      else b64)"

definition read_tool :: "site_env \<Rightarrow> json_obj \<Rightarrow> uuid \<Rightarrow> string \<Rightarrow> site_state \<Rightarrow> tool_execution" where
  "read_tool env args user external s =
     (case Option.bind (get_existing_project user external s) (\<lambda>p. read_file (pr_id p) (py_str (jget ''path'' args)) s) of
        None \<Rightarrow> tool_error ''file_not_found'' ''file not found''
      | Some f \<Rightarrow>
          tool_ok [(''path'', JStr (sf_path f)), (''content'', fst (encoded_content env f)), (''encoding'', JStr (snd (encoded_content env f))),
            (''contentType'', JStr (sf_type f)), (''size'', JInt (sf_size f))])"

definition delete_tool :: "json_obj \<Rightarrow> uuid \<Rightarrow> string \<Rightarrow> uuid \<Rightarrow> tool_execution site_op" where
  "delete_tool args user external session s =
     (let path = JStr (py_str (jget ''path'' args)) in
      case get_existing_project user external s of
        None \<Rightarrow> (Inr (tool_ok [(''path'', path), (''deleted'', JBool False), (''fileCount'', JInt 0), (''projectBytes'', JInt 0)]), s)
      | Some p \<Rightarrow>
          and_then (delete_file (pr_id p) (py_str (jget ''path'' args)) s) (\<lambda>r s.
          and_then (site_audit user session
              [(''toolName'', Val (JStr ''site.delete'')), (''projectId'', Val (JStr (uuid_str (pr_id p)))),
               (''path'', Val path), (''deleted'', Val (JBool (fst r)))] s) (\<lambda>_ s.
            (Inr (tool_ok [(''path'', path), (''deleted'', JBool (fst r)), (''fileCount'', JInt (fst (snd r))),
                (''projectBytes'', JInt (snd (snd r)))]), s))))"

text \<open>The dispatch; a \<open>SiteFileError\<close> becomes an error of the tool and keeps what was written before it.\<close>

definition site_handler :: "site_env \<Rightarrow> uuid \<Rightarrow> string \<Rightarrow> json_obj \<Rightarrow> uuid \<Rightarrow> string \<Rightarrow> uuid \<Rightarrow> tool_execution site_op" where
  "site_handler env new_id name args user external session s =
     (if name = ''site.write_file'' then write_file_tool env new_id args user external session s
      else if name = ''site.preview'' then (Inr (preview_tool env args user external s), s)
      else if name = ''site.list'' then (Inr (list_tool env user external s), s)
      else if name = ''site.read'' then (Inr (read_tool env args user external s), s)
      else if name = ''site.delete'' then delete_tool args user external session s
      else (Inr (tool_error ''unknown_tool'' (''unknown server-side tool: '' @ name)), s))"

definition execute_site :: "site_env \<Rightarrow> uuid \<Rightarrow> string \<Rightarrow> json_obj \<Rightarrow> uuid \<Rightarrow> string \<Rightarrow> uuid \<Rightarrow> site_state \<Rightarrow> (exn, tool_execution, site_state) outcome" where
  "execute_site env new_id name args user external session s =
     (case site_handler env new_id name args user external session s of
        (Inr x, s') \<Rightarrow> (Inr x, s')
      | (Inl (SiteFileError c m), s') \<Rightarrow> (Inr (tool_error c m), s')
      | (Inl (Site_exn e), s') \<Rightarrow> (Inl e, s'))"

end
