(* ===== verification/Website_Files.thy ===== *)
theory Website_Files
  imports Website
begin

text \<open>
  What the tools of the site builder promise: a path has one form and stays inside its project, a project stays within its limits and belongs
  to its owner, a write is a write of the file it names, and what is written is what is read.
\<close>

section \<open>Paths\<close>

lemma split_on_plain: "x \<notin> set s \<Longrightarrow> split_on x s = [s]"
  by (induction s) auto

lemma split_on_ne [simp]: "split_on x s \<noteq> []"
  by (induction s) (auto split: list.splits)

lemma split_on_at: "x \<notin> set s \<Longrightarrow> split_on x (s @ x # t) = s # split_on x t"
  by (induction s) (auto split: list.splits)

lemma split_join: "segs \<noteq> [] \<Longrightarrow> \<forall>w \<in> set segs. CHR ''/'' \<notin> set w \<Longrightarrow> split_on (CHR ''/'') (join_slash segs) = segs"
  by (induction segs rule: join_slash.induct) (auto simp: split_on_plain split_on_at)

lemma split_on_parts: "w \<in> set (split_on x s) \<Longrightarrow> x \<notin> set w \<and> set w \<subseteq> set s"
proof (induction s arbitrary: w)
  case (Cons c s)
  obtain u us where us: "split_on x s = u # us"
    using split_on_ne [of x s] by (cases "split_on x s") simp_all
  have "x \<notin> set v \<and> set v \<subseteq> set s" if "v \<in> set (u # us)" for v
    using Cons.IH that us by simp
  then show ?case
    using Cons.prems by (cases "c = x") (fastforce simp: us)+
qed simp

definition plain_segment :: "string \<Rightarrow> bool" where
  "plain_segment w \<longleftrightarrow> w \<noteq> [] \<and> w \<noteq> ''.'' \<and> w \<noteq> ''..'' \<and> CHR ''/'' \<notin> set w"

lemma kept_plain: "kept_segments ss = Inr ws \<Longrightarrow> \<forall>s \<in> set ss. CHR ''/'' \<notin> set s \<Longrightarrow> w \<in> set ws \<Longrightarrow> plain_segment w \<and> w \<in> set ss"
proof (induction ss arbitrary: ws)
  case (Cons s ss)
  then show ?case
    by (cases "kept_segments ss") (auto simp: plain_segment_def split: if_splits)
qed simp

lemma kept_all: "\<forall>w \<in> set ws. plain_segment w \<Longrightarrow> kept_segments ws = Inr ws"
  by (induction ws) (auto simp: plain_segment_def)

lemma join_slash_set: "set (join_slash ws) \<subseteq> (\<Union>w \<in> set ws. set w) \<union> {CHR ''/''}"
  by (induction ws rule: join_slash.induct) auto

lemma join_head: "ws \<noteq> [] \<Longrightarrow> \<forall>w \<in> set ws. plain_segment w \<Longrightarrow> join_slash ws \<noteq> [] \<and> hd (join_slash ws) \<noteq> CHR ''/''"
proof (cases ws)
  case (Cons w vs)
  assume "\<forall>w \<in> set ws. plain_segment w"
  then have "plain_segment w"
    by (simp add: Cons)
  then have w: "w \<noteq> []" "CHR ''/'' \<notin> set w"
    by (simp_all add: plain_segment_def)
  then have h: "hd w \<noteq> CHR ''/''"
    using hd_in_set [of w] by metis
  show ?thesis
    using w(1) h unfolding Cons by (cases vs) simp_all
qed simp

text \<open>A stored path: the text of plain segments.\<close>

definition site_path_ok :: "string \<Rightarrow> bool" where
  "site_path_ok p \<longleftrightarrow> normalize_site_path p = Inr p \<and> CHR 0x00 \<notin> set p \<and> CHR 0x5C \<notin> set p
     \<and> (\<forall>w \<in> set (split_on (CHR ''/'') p). plain_segment w)"

lemma normalized_ok:
  assumes "normalize_site_path raw = Inr p"
  shows "site_path_ok p"
proof -
  obtain ws where ws: "kept_segments (split_on (CHR ''/'') raw) = Inr ws" "ws \<noteq> []" and p: "p = join_slash ws"
    and raw: "CHR 0x00 \<notin> set raw" "CHR 0x5C \<notin> set raw"
    using assms by (auto simp: normalize_site_path_def split: if_splits sum.splits list.splits)
  have plain: "\<forall>w \<in> set ws. plain_segment w" and within: "\<forall>w \<in> set ws. set w \<subseteq> set raw"
    using kept_plain [OF ws(1)] split_on_parts by blast+
  have split: "split_on (CHR ''/'') p = ws"
    unfolding p using plain by (intro split_join ws(2)) (auto simp: plain_segment_def)
  have "set p \<subseteq> set raw \<union> {CHR ''/''}"
    using join_slash_set [of ws] within unfolding p by blast
  then have chars: "CHR 0x00 \<notin> set p" "CHR 0x5C \<notin> set p"
    using raw by auto
  moreover have "p \<noteq> [] \<and> hd p \<noteq> CHR ''/''"
    unfolding p using join_head [OF ws(2) plain] .
  ultimately have "normalize_site_path p = Inr p"
    using ws(2) split by (auto simp: normalize_site_path_def kept_all [OF plain] p neq_Nil_conv)
  then show ?thesis
    using chars plain by (simp add: site_path_ok_def split)
qed

section \<open>What a state keeps\<close>

definition site_key :: "site_file \<Rightarrow> uuid \<times> string" where
  "site_key f = (sf_project f, sf_path f)"

definition stored_ok :: "site_env \<Rightarrow> site_state \<Rightarrow> site_file \<Rightarrow> bool" where
  "stored_ok env s f \<longleftrightarrow> sf_project f \<in> pr_id ` set (si_projects s) \<and> site_path_ok (sf_path f)
     \<and> sf_type f \<in> set PREVIEW_CONTENT_TYPE_ALLOWLIST \<and> sf_size f = int (length (sf_content f)) \<and> sf_size f \<le> se_max_file_bytes env
     \<and> fst (project_stats (sf_project f) s) \<le> se_max_files env \<and> snd (project_stats (sf_project f) s) \<le> se_max_project_bytes env"

definition site_ok :: "site_env \<Rightarrow> site_state \<Rightarrow> bool" where
  "site_ok env s \<longleftrightarrow> distinct (map pr_id (si_projects s)) \<and> distinct (map (\<lambda>p. (pr_user p, pr_external p)) (si_projects s))
     \<and> distinct (map site_key (si_files s)) \<and> (\<forall>f \<in> set (si_files s). stored_ok env s f)"

lemma site_at_iff: "sf_project f = p \<and> sf_path f = n \<longleftrightarrow> site_key f = (p, n)"
  by (auto simp: site_key_def)

lemma find_key:
  "distinct (map site_key fs) \<Longrightarrow> find (\<lambda>f. site_key f = k) fs = Some f \<longleftrightarrow> f \<in> set fs \<and> site_key f = k"
  by (induction fs) (auto simp: image_iff)

lemma replaced_keys:
  "site_key row = k \<Longrightarrow> map site_key (map (\<lambda>g. if site_key g = k then row else g) fs) = map site_key fs"
  by (induction fs) auto

lemma replaced_other:
  "site_key row = k \<Longrightarrow> p \<noteq> fst k \<Longrightarrow>
   filter (\<lambda>f. sf_project f = p) (map (\<lambda>g. if site_key g = k then row else g) fs) = filter (\<lambda>f. sf_project f = p) fs"
  by (induction fs) (auto simp: site_key_def)

lemma replaced_size:
  assumes "distinct (map site_key fs)" "f \<in> set fs" "site_key f = k" "site_key row = k"
  shows "sum_list (map sf_size (filter (\<lambda>f. sf_project f = fst k) (map (\<lambda>g. if site_key g = k then row else g) fs)))
    = sum_list (map sf_size (filter (\<lambda>f. sf_project f = fst k) fs)) - sf_size f + sf_size row"
  using assms
proof (induction fs)
  case (Cons a fs)
  have own: "sf_project f = fst k" "sf_project row = fst k"
    using Cons.prems by (auto simp: site_key_def)
  show ?case
  proof (cases "a = f")
    case True
    then have "map (\<lambda>g. if site_key g = k then row else g) fs = fs"
      using Cons.prems by (intro map_idI) (auto simp: image_iff)
    then show ?thesis
      using True own Cons.prems by simp
  next
    case False
    then have "site_key a \<noteq> k" "f \<in> set fs"
      using Cons.prems by (auto simp: image_iff)
    then show ?thesis
      using Cons by simp
  qed
qed simp

lemma replaced_count:
  "site_key row = k \<Longrightarrow>
   length (filter (\<lambda>f. sf_project f = p) (map (\<lambda>g. if site_key g = k then row else g) fs)) = length (filter (\<lambda>f. sf_project f = p) fs)"
  by (induction fs) (auto simp: site_key_def)

section \<open>One write\<close>

lemma stored_stats:
  assumes "distinct (map site_key (si_files s))"
  shows "project_stats p (store_site_file p n content ctype s) =
    (fst (project_stats p s) + (if site_file_at p n s = None then 1 else 0),
     snd (project_stats p s) - (case site_file_at p n s of None \<Rightarrow> 0 | Some f \<Rightarrow> sf_size f) + int (length content))"
proof (cases "site_file_at p n s")
  case None
  then show ?thesis
    by (simp add: store_site_file_def project_stats_def files_of_def Let_def)
next
  case (Some f)
  then have f: "f \<in> set (si_files s)" "site_key f = (p, n)"
    by (simp_all add: site_file_at_def site_at_iff find_key assms)
  let ?row = "\<lparr>sf_project = p, sf_path = n, sf_content = content, sf_type = ctype, sf_size = int (length content)\<rparr>"
  have row: "site_key ?row = (p, n)"
    by (simp add: site_key_def)
  show ?thesis
    using replaced_size [OF assms f row] replaced_count [OF row, of p "si_files s"] Some
    by (simp add: store_site_file_def project_stats_def files_of_def Let_def site_at_iff)
qed

lemma stored_other:
  "q \<noteq> p \<Longrightarrow> files_of q (store_site_file p n content ctype s) = files_of q s"
  using replaced_other [of "\<lparr>sf_project = p, sf_path = n, sf_content = content, sf_type = ctype, sf_size = int (length content)\<rparr>" "(p, n)" q "si_files s"]
  by (simp add: store_site_file_def files_of_def Let_def site_at_iff) (simp add: site_key_def)

lemma stored_set:
  "f \<in> set (si_files (store_site_file p n content ctype s)) \<Longrightarrow>
   f = \<lparr>sf_project = p, sf_path = n, sf_content = content, sf_type = ctype, sf_size = int (length content)\<rparr>
     \<or> f \<in> set (si_files s) \<and> site_key f \<noteq> (p, n)"
  by (auto simp: store_site_file_def Let_def site_at_iff site_file_at_def find_None_iff split: if_splits)

lemma stored_keys:
  assumes "distinct (map site_key (si_files s))"
  shows "distinct (map site_key (si_files (store_site_file p n content ctype s)))"
proof -
  let ?row = "\<lparr>sf_project = p, sf_path = n, sf_content = content, sf_type = ctype, sf_size = int (length content)\<rparr>"
  have row: "site_key ?row = (p, n)"
    by (simp add: site_key_def)
  show ?thesis
    using assms replaced_keys [OF row, of "si_files s"]
    by (auto simp: store_site_file_def Let_def site_at_iff site_file_at_def find_None_iff row simp del: map_map)
qed

lemma replaced_find:
  "site_key row = k \<Longrightarrow> find (\<lambda>f. site_key f = j) (map (\<lambda>g. if site_key g = k then row else g) fs)
    = (if j = k \<and> (\<exists>f \<in> set fs. site_key f = k) then Some row else find (\<lambda>f. site_key f = j) fs)"
  by (induction fs) auto

lemma stored_find:
  "site_file_at q m (store_site_file p n content ctype s) =
    (if (q, m) = (p, n) then Some \<lparr>sf_project = p, sf_path = n, sf_content = content, sf_type = ctype, sf_size = int (length content)\<rparr>
     else site_file_at q m s)"
proof -
  let ?row = "\<lparr>sf_project = p, sf_path = n, sf_content = content, sf_type = ctype, sf_size = int (length content)\<rparr>"
  have row: "site_key ?row = (p, n)"
    by (simp add: site_key_def)
  show ?thesis
  proof (cases "\<exists>f \<in> set (si_files s). site_key f = (p, n)")
    case True
    then have "site_file_at p n s \<noteq> None"
      by (auto simp: site_file_at_def site_at_iff find_None_iff simp del: not_None_eq)
    then have "site_file_at q m (store_site_file p n content ctype s)
        = find (\<lambda>f. site_key f = (q, m)) (map (\<lambda>g. if site_key g = (p, n) then ?row else g) (si_files s))"
      by (cases s) (simp only: store_site_file_def site_file_at_def [of q] site_at_iff Let_def if_False site_state.simps)
    then show ?thesis
      using True by (simp only: replaced_find [OF row] site_file_at_def [of q] site_at_iff simp_thms)
  next
    case False
    then have "find (\<lambda>f. site_key f = (p, n)) (si_files s) = None"
      by (auto simp: find_None_iff)
    then show ?thesis
      by (auto simp: store_site_file_def site_file_at_def site_at_iff Let_def find_None_append row split: option.splits)
  qed
qed

section \<open>The operations\<close>

lemma stored_ok_keep:
  "stored_ok env s f \<Longrightarrow> set (si_projects s) \<subseteq> set (si_projects t) \<Longrightarrow> files_of (sf_project f) t = files_of (sf_project f) s \<Longrightarrow> stored_ok env t f"
  by (auto simp: stored_ok_def project_stats_def)

text \<open>What an operation of the owner of project \<open>p\<close> may do.\<close>

definition site_step :: "site_env \<Rightarrow> uuid \<Rightarrow> string \<Rightarrow> site_state \<Rightarrow> site_state \<Rightarrow> bool" where
  "site_step env user external s t \<longleftrightarrow> (site_ok env s \<longrightarrow> site_ok env t)
     \<and> (\<forall>p \<in> set (si_projects s). \<not> (pr_user p = user \<and> pr_external p = external) \<longrightarrow> site_ok env s \<longrightarrow> files_of (pr_id p) t = files_of (pr_id p) s)
     \<and> set (si_projects s) \<subseteq> set (si_projects t)"

lemma site_step_refl [simp]: "site_step env user external s s"
  by (simp add: site_step_def)

lemma site_step_trans: "site_step env user external s t \<Longrightarrow> site_step env user external t u \<Longrightarrow> site_step env user external s u"
  unfolding site_step_def by (metis subsetD subset_trans)

lemma site_audit_same: "site_audit user session p s = (r, t) \<Longrightarrow> si_files t = si_files s \<and> si_projects t = si_projects s"
  by (auto simp: site_audit_def split: prod.splits sum.splits)

lemma same_tables: "si_files t = si_files s \<Longrightarrow> si_projects t = si_projects s \<Longrightarrow> site_step env user external s t"
  by (auto simp: site_step_def site_ok_def stored_ok_def project_stats_def files_of_def)

lemma site_audit_step: "site_audit u i p s = (r, t) \<Longrightarrow> site_step env user external s t"
  using site_audit_same same_tables by metis

lemma existing_project:
  "get_existing_project user external s = Some p \<Longrightarrow> p \<in> set (si_projects s) \<and> pr_user p = user \<and> pr_external p = external"
  by (auto simp: get_existing_project_def dest: find_SomeD)

lemma new_project_step:
  assumes "get_existing_project user external s = None" "\<forall>p \<in> set (si_projects s). pr_id p \<noteq> new_id"
  shows "site_step env user external s (s\<lparr>si_projects := si_projects s @ [\<lparr>pr_id = new_id, pr_user = user, pr_external = external\<rparr>]\<rparr>)"
  (is "site_step env user external s ?t")
proof -
  have same: "files_of p ?t = files_of p s" for p
    by (simp add: files_of_def)
  have "site_ok env ?t" if "site_ok env s"
    unfolding site_ok_def
  proof (intro conjI ballI)
    show "stored_ok env ?t f" if "f \<in> set (si_files ?t)" for f
      using that \<open>site_ok env s\<close> by (intro stored_ok_keep [OF _ _ same]) (auto simp: site_ok_def)
  qed (use that assms in \<open>auto simp: site_ok_def get_existing_project_def find_None_iff\<close>)
  then show ?thesis
    by (auto simp: site_step_def same)
qed

lemma resolve_step: "resolve_project new_id user external s = (r, t) \<Longrightarrow> site_step env user external s t"
  by (cases "get_existing_project user external s") (auto simp: resolve_project_def Let_def intro: new_project_step split: if_splits)

lemma resolve_owner: "resolve_project new_id user external s = (Inr p, t) \<Longrightarrow> get_existing_project user external t = Some p"
  by (auto simp: resolve_project_def get_existing_project_def find_None_append Let_def split: option.splits if_splits)

text \<open>Two projects of one state do not share their identifier.\<close>

lemma other_project:
  "site_ok env s \<Longrightarrow> p \<in> set (si_projects s) \<Longrightarrow> q \<in> set (si_projects s) \<Longrightarrow> pr_id q = pr_id p \<Longrightarrow> q = p"
  by (auto simp: site_ok_def distinct_map inj_on_def)

text \<open>A write within the limits.\<close>

lemma store_site_step:
  assumes owner: "get_existing_project user external s = Some p"
    and ctype: "ctype \<in> set PREVIEW_CONTENT_TYPE_ALLOWLIST" and n: "site_path_ok n"
    and size: "int (length content) \<le> se_max_file_bytes env"
    and count: "fst (project_stats (pr_id p) (store_site_file (pr_id p) n content ctype s)) \<le> se_max_files env"
    and bytes: "snd (project_stats (pr_id p) (store_site_file (pr_id p) n content ctype s)) \<le> se_max_project_bytes env"
  shows "site_step env user external s (store_site_file (pr_id p) n content ctype s)" (is "site_step env user external s ?t")
proof -
  have tables: "si_projects ?t = si_projects s"
    by (simp add: store_site_file_def Let_def)
  have p: "p \<in> set (si_projects s)" "pr_user p = user" "pr_external p = external"
    using existing_project [OF owner] by simp_all
  have "stored_ok env ?t f" if ok: "site_ok env s" and f: "f \<in> set (si_files ?t)" for f
  proof (cases "sf_project f = pr_id p")
    case True
    have "pr_id p \<in> pr_id ` set (si_projects ?t)"
      using p(1) by (simp add: tables)
    moreover have "site_path_ok (sf_path f) \<and> sf_type f \<in> set PREVIEW_CONTENT_TYPE_ALLOWLIST
        \<and> sf_size f = int (length (sf_content f)) \<and> sf_size f \<le> se_max_file_bytes env"
      using stored_set [OF f] ok ctype n size by (auto simp only: stored_ok_def site_ok_def site_file.simps)
    ultimately show ?thesis
      using count bytes by (simp add: stored_ok_def True)
  next
    case False
    then have "f \<in> set (si_files s)"
      using stored_set [OF f] by auto
    then have "stored_ok env s f"
      using ok by (simp only: site_ok_def)
    then show ?thesis
      by (rule stored_ok_keep) (simp_all only: tables subset_refl stored_other [OF False])
  qed
  then have "site_ok env ?t" if "site_ok env s"
    using that stored_keys [of s] by (simp add: site_ok_def tables)
  moreover have "files_of (pr_id q) ?t = files_of (pr_id q) s"
    if "site_ok env s" "q \<in> set (si_projects s)" "\<not> (pr_user q = user \<and> pr_external q = external)" for q
    using that p other_project [of env s p q] by (intro stored_other) auto
  ultimately show ?thesis
    by (simp add: site_step_def tables)
qed

lemma write_file_Inr:
  assumes "write_file env p path content ctype s = (Inr r, t)"
  obtains n old where "normalize_site_path path = Inr n" "ctype \<in> set PREVIEW_CONTENT_TYPE_ALLOWLIST"
    "int (length content) \<le> se_max_file_bytes env" "t = store_site_file p n content ctype s" "wr_path r = n"
    "fst (project_stats p s) + (if site_file_at p n s = None then 1 else 0) \<le> se_max_files env"
    "snd (project_stats p s) - (case site_file_at p n s of None \<Rightarrow> 0 | Some f \<Rightarrow> sf_size f) + int (length content) \<le> se_max_project_bytes env"
  using assms by (auto simp: write_file_def Let_def split: if_splits sum.splits)

lemma write_file_Inl: "write_file env p path content ctype s = (Inl e, t) \<Longrightarrow> t = s"
  by (auto simp: write_file_def Let_def split: if_splits sum.splits)

lemma write_file_step:
  assumes owner: "get_existing_project user external s = Some p" and w: "write_file env (pr_id p) path content ctype s = (r, t)"
  shows "site_step env user external s t"
proof (cases "site_ok env s")
  case ok: True
  show ?thesis
  proof (cases r)
    case (Inr x)
    obtain n where n: "normalize_site_path path = Inr n" "ctype \<in> set PREVIEW_CONTENT_TYPE_ALLOWLIST"
      "int (length content) \<le> se_max_file_bytes env" and t: "t = store_site_file (pr_id p) n content ctype s"
      and limits: "fst (project_stats (pr_id p) t) \<le> se_max_files env" "snd (project_stats (pr_id p) t) \<le> se_max_project_bytes env"
      using w ok unfolding Inr by (auto elim!: write_file_Inr simp: stored_stats site_ok_def)
    show ?thesis
      using limits n(2,3) unfolding t by (intro store_site_step owner normalized_ok [OF n(1)])
  next
    case (Inl e)
    then show ?thesis
      using write_file_Inl w by (metis site_step_refl)
  qed
next
  case False
  then show ?thesis
    using w by (cases r) (auto simp: site_step_def dest: write_file_Inl elim!: write_file_Inr simp: store_site_file_def Let_def)
qed

lemma deleted_other:
  "q \<noteq> p \<Longrightarrow> files_of q (s\<lparr>si_files := filter (\<lambda>f. \<not> (sf_project f = p \<and> sf_path f = n)) (si_files s)\<rparr>) = files_of q s"
  by (auto simp: files_of_def intro!: filter_cong)

lemma filter_sum_le: "\<forall>f \<in> set fs. 0 \<le> g f \<Longrightarrow> sum_list (map g (filter P fs)) \<le> (sum_list (map g fs) :: int)"
  by (induction fs) auto

lemma deleted_stats:
  assumes "\<forall>f \<in> set (si_files s). 0 \<le> sf_size f"
  shows "fst (project_stats q (s\<lparr>si_files := filter P (si_files s)\<rparr>)) \<le> fst (project_stats q s)"
    "snd (project_stats q (s\<lparr>si_files := filter P (si_files s)\<rparr>)) \<le> snd (project_stats q s)"
proof -
  have files: "files_of q (s\<lparr>si_files := filter P (si_files s)\<rparr>) = filter P (files_of q s)"
    by (simp add: files_of_def conj_commute)
  show "fst (project_stats q (s\<lparr>si_files := filter P (si_files s)\<rparr>)) \<le> fst (project_stats q s)"
    by (simp add: project_stats_def files)
  show "snd (project_stats q (s\<lparr>si_files := filter P (si_files s)\<rparr>)) \<le> snd (project_stats q s)"
    unfolding project_stats_def files snd_conv by (rule filter_sum_le) (use assms in \<open>auto simp: files_of_def\<close>)
qed

lemma deleted_step:
  assumes owner: "get_existing_project user external s = Some p"
  shows "site_step env user external s (s\<lparr>si_files := filter (\<lambda>f. \<not> (sf_project f = pr_id p \<and> sf_path f = n)) (si_files s)\<rparr>)"
    (is "site_step env user external s ?t")
proof -
  have p: "p \<in> set (si_projects s)" "pr_user p = user" "pr_external p = external"
    using existing_project [OF owner] by simp_all
  have "site_ok env ?t" if ok: "site_ok env s"
    unfolding site_ok_def
  proof (intro conjI ballI)
    have sizes: "\<forall>f \<in> set (si_files s). 0 \<le> sf_size f"
      using ok by (auto simp: site_ok_def stored_ok_def)
    show "stored_ok env ?t f" if "f \<in> set (si_files ?t)" for f
    proof -
      have "stored_ok env s f"
        using ok that by (simp add: site_ok_def)
      then show ?thesis
        using deleted_stats [OF sizes, of "sf_project f" "\<lambda>f. \<not> (sf_project f = pr_id p \<and> sf_path f = n)"]
        unfolding stored_ok_def by simp
    qed
  qed (use ok in \<open>auto simp: site_ok_def intro: distinct_map_filter\<close>)
  moreover have "files_of (pr_id q) ?t = files_of (pr_id q) s"
    if "site_ok env s" "q \<in> set (si_projects s)" "\<not> (pr_user q = user \<and> pr_external q = external)" for q
    using that p other_project [of env s p q] by (intro deleted_other) auto
  ultimately show ?thesis
    by (simp add: site_step_def)
qed

lemma delete_file_step:
  "get_existing_project user external s = Some p \<Longrightarrow> delete_file (pr_id p) path s = (r, t) \<Longrightarrow> site_step env user external s t"
  by (auto simp: delete_file_def Let_def intro: deleted_step simp del: de_Morgan_conj split: sum.splits if_splits)

section \<open>The handlers\<close>

lemma and_then_step:
  assumes "and_then m k = (r, t)" "\<And>e u. m = (Inl e, u) \<Longrightarrow> site_step env user external s u"
    and "\<And>a u. m = (Inr a, u) \<Longrightarrow> site_step env user external s u \<and> site_step env user external u (snd (k a u))"
  shows "site_step env user external s t"
proof (cases rule: and_then_cases [of m k])
  case (raised e u)
  then show ?thesis
    using assms by simp
next
  case (returned a u)
  then show ?thesis
    using assms(1) assms(3) [OF returned(1)] by (metis site_step_trans snd_conv)
qed

lemma write_tool_step: "site_step env user external s (snd (write_file_tool env new_id args user external session s))"
proof (cases "decode_content (py_str (jget ''content'' args)) (py_str (jget ''encoding'' args))")
  case None
  then show ?thesis by (simp add: write_file_tool_def)
next
  case (Some content)
  show ?thesis
    unfolding write_file_tool_def Some option.case
    by (rule and_then_step [OF prod.collapse [symmetric]])
      (auto intro!: and_then_step [OF prod.collapse [symmetric]] intro: resolve_step write_file_step site_audit_step dest: resolve_owner)
qed

lemma delete_tool_step: "site_step env user external s (snd (delete_tool args user external session s))"
proof (cases "get_existing_project user external s")
  case None
  then show ?thesis by (simp add: delete_tool_def Let_def)
next
  case (Some p)
  show ?thesis
    unfolding delete_tool_def Some option.case Let_def
    by (rule and_then_step [OF prod.collapse [symmetric]])
      (auto intro!: and_then_step [OF prod.collapse [symmetric]] intro: delete_file_step [OF Some] site_audit_step)
qed

lemma execute_step: "execute_site env new_id name args user external session s = (r, t) \<Longrightarrow> site_step env user external s t"
  using write_tool_step [of env user external s new_id args session] delete_tool_step [of env user external s args session]
  by (auto simp: execute_site_def site_handler_def split: if_splits prod.splits sum.splits site_fault.splits)

text \<open>What the read tools look at.\<close>

lemma file_at_files: "site_file_at p n s = find (\<lambda>f. sf_path f = n) (files_of p s)"
proof -
  have "find (\<lambda>f. sf_project f = p \<and> sf_path f = n) fs = find (\<lambda>f. sf_path f = n) (filter (\<lambda>f. sf_project f = p) fs)" for fs
    by (induction fs) auto
  then show ?thesis
    by (simp add: site_file_at_def files_of_def)
qed

lemma answer_own:
  assumes "get_existing_project user external t = get_existing_project user external s"
    and "\<And>p. get_existing_project user external s = Some p \<Longrightarrow> files_of (pr_id p) t = files_of (pr_id p) s"
  shows "list_tool env user external t = list_tool env user external s" (is ?list)
    and "read_tool env args user external t = read_tool env args user external s" (is ?read)
    and "preview_tool env args user external t = preview_tool env args user external s" (is ?preview)
proof (atomize (full), cases "get_existing_project user external s")
  case None
  then show "?list \<and> ?read \<and> ?preview"
    using assms(1) by (simp add: list_tool_def read_tool_def preview_tool_def)
next
  case (Some p)
  then have "site_file_at (pr_id p) n t = site_file_at (pr_id p) n s" for n
    using assms(2) by (simp add: file_at_files)
  then have "read_file (pr_id p) q t = read_file (pr_id p) q s" for q
    by (simp add: read_file_def split: sum.split)
  then show "?list \<and> ?read \<and> ?preview"
    using Some assms(1) assms(2) [OF Some]
    by (simp add: list_tool_def list_files_def project_stats_def read_tool_def preview_tool_def)
qed

lemma execute_answers:
  "execute_site env new_id ''site.preview'' args user external session s = (Inr (preview_tool env args user external s), s)"
  "execute_site env new_id ''site.list'' args user external session s = (Inr (list_tool env user external s), s)"
  "execute_site env new_id ''site.read'' args user external session s = (Inr (read_tool env args user external s), s)"
  by (simp_all add: execute_site_def site_handler_def)

text \<open>The value of a write.\<close>

lemma written:
  assumes "execute_site env new_id ''site.write_file'' args user external session s = (Inr x, t)" "\<not> tx_is_error x"
    and "decode_content (py_str (jget ''content'' args)) (py_str (jget ''encoding'' args)) = Some bytes"
  obtains p n where "get_existing_project user external t = Some p" "normalize_site_path (py_str (jget ''path'' args)) = Inr n"
    "site_file_at (pr_id p) n t = Some \<lparr>sf_project = pr_id p, sf_path = n, sf_content = bytes,
       sf_type = py_str (jget ''contentType'' args), sf_size = int (length bytes)\<rparr>"
proof -
  obtain y where y: "write_file_tool env new_id args user external session s = (Inr y, t)"
    using assms(1,2) by (auto simp: execute_site_def site_handler_def tool_error_def split: prod.splits sum.splits site_fault.splits)
  obtain p u where p: "resolve_project new_id user external s = (Inr p, u)"
    using y assms(3) by (auto simp: write_file_tool_def elim!: and_then_InrE)
  obtain r v where r: "write_file env (pr_id p) (py_str (jget ''path'' args)) bytes (py_str (jget ''contentType'' args)) u = (Inr r, v)"
    using y p assms(3) by (auto simp: write_file_tool_def elim!: and_then_InrE)
  have same: "si_files t = si_files v" "si_projects t = si_projects v"
    using y p r assms(3) by (auto simp: write_file_tool_def elim!: and_then_InrE dest: site_audit_same)
  obtain n where n: "normalize_site_path (py_str (jget ''path'' args)) = Inr n"
    and v: "v = store_site_file (pr_id p) n bytes (py_str (jget ''contentType'' args)) u"
    using r by (auto elim!: write_file_Inr)
  have "get_existing_project user external t = Some p"
    using resolve_owner [OF p] by (simp add: get_existing_project_def same v store_site_file_def Let_def)
  moreover have "site_file_at (pr_id p) n t = site_file_at (pr_id p) n v"
    by (simp add: site_file_at_def same)
  ultimately show ?thesis
    using that n by (simp add: v stored_find)
qed

section \<open>Content\<close>

lemma utf8_pair:
  assumes "194 \<le> a" "continuation b" "(a - 192) * 64 + (b - 128) < 256"
  shows "utf8_char ((a - 192) * 64 + (b - 128)) = [a, b]"
proof -
  obtain e c where ec: "a = 194 + e" "b = 128 + c" "c < 64"
    using assms(1,2) by (auto simp: continuation_def le_iff_add)
  have "((2 + e) * 64 + c) div 64 = 2 + e" "((2 + e) * 64 + c) mod 64 = c"
    using ec(3) by (simp, simp only: mod_mult_self3 mod_less)
  then show ?thesis
    using ec(3) by (simp add: utf8_char_def ec(1,2))
qed

lemma utf8_latin1_cons:
  "n < 256 \<Longrightarrow> utf8_encode (char_of n # cs) = utf8_char n @ utf8_encode cs"
  by (simp add: utf8_encode_def of_char_of)

lemma utf8_latin1: "utf8_decode bs = Some ps \<Longrightarrow> \<forall>p \<in> set ps. p < 256 \<Longrightarrow> utf8_encode (map char_of ps) = bs"
proof (induction bs arbitrary: ps rule: utf8_decode.induct)
  case (2 a bs)
  consider "a < 128" | b r where "194 \<le> a" "a < 224" "bs = b # r" "continuation b" | (wide) q qs where "ps = q # qs" "2048 \<le> q"
    using 2(5) by (auto simp: Let_def split: if_splits list.splits)
  then show ?case
  proof cases
    case 1
    then obtain qs where "utf8_decode bs = Some qs" "ps = a # qs"
      using 2(5) by auto
    then show ?thesis
      using 1 2(1) 2(6) by (simp add: utf8_latin1_cons utf8_char_def)
  next
    case (2 b r)
    then obtain qs where "utf8_decode r = Some qs" "ps = ((a - 192) * 64 + (b - 128)) # qs"
      using "2.prems"(1) by auto
    then show ?thesis
      using 2 "2.IH"(2) "2.prems"(2) by (simp add: utf8_latin1_cons utf8_pair)
  next
    case wide
    then show ?thesis
      using 2(6) by simp
  qed
qed (simp add: utf8_encode_def)

lemma std_char_ascii: "v < 64 \<Longrightarrow> of_char (std_char v) < (128 :: nat)"
  by (auto simp: std_char_def)

lemma b64encode_ascii: "\<forall>b \<in> set bs. b < 256 \<Longrightarrow> \<forall>c \<in> set (b64encode bs). of_char c < (128 :: nat)"
proof (induction bs rule: b64encode.induct)
  case (2 a)
  then have "a div 4 < 64" "a mod 4 * 16 < 64" by simp_all
  then show ?case by (simp add: std_char_ascii)
next
  case (3 a b)
  then have "a div 4 < 64" "b div 16 < 16" "a mod 4 * 16 + b div 16 < 64" "b mod 16 * 4 < 64" by auto
  then show ?case by (simp add: std_char_ascii)
next
  case (4 a b c r)
  then have "a div 4 < 64" "b div 16 < 16" "c div 64 < 4" "c mod 64 < 64"
    "a mod 4 * 16 + b div 16 < 64" "b mod 16 * 4 + c div 64 < 64" by auto
  then show ?case using 4 by (simp add: std_char_ascii)
qed simp

lemma decoded_bytes: "decode_content c e = Some bs \<Longrightarrow> \<forall>b \<in> set bs. b < 256"
  by (auto simp: decode_content_def utf8_encode_bytes b64decode_strict_bytes split: if_splits)

lemma content_roundtrip:
  assumes "\<forall>b \<in> set (sf_content f). b < 256" "\<And>ps p. utf8_decode (sf_content f) = Some ps \<Longrightarrow> p \<in> set ps \<Longrightarrow> p < 256"
  obtains c e where "encoded_content env f = (JStr c, e)" "decode_content c e = Some (sf_content f)"
proof -
  have b64: "decode_content (b64encode (sf_content f)) ''base64'' = Some (sf_content f)"
    using assms(1) b64_strict_roundtrip b64encode_ascii by (simp add: decode_content_def)
  have wide: "\<not> list_ex (\<lambda>p. 256 \<le> p) ps" if "utf8_decode (sf_content f) = Some ps" for ps
    using assms(2) [OF that] by (auto simp: list_ex_iff not_le [symmetric] simp del: not_le)
  show ?thesis
  proof (cases "py_startswith ''text/'' (sf_type f) \<or> sf_type f = ''application/json''")
    case False
    then show ?thesis
      using b64 by (intro that) (simp_all add: encoded_content_def)
  next
    case True
    show ?thesis
    proof (cases "utf8_decode (sf_content f)")
      case None
      then show ?thesis
        using b64 by (intro that [of "b64encode (sf_content f)" "''base64''"]) (simp_all add: encoded_content_def Let_def)
    next
      case (Some ps)
      then have "utf8_encode (map char_of ps) = sf_content f"
        using assms(2) by (intro utf8_latin1) auto
      then show ?thesis
        using True Some wide [OF Some] by (intro that [of "map char_of ps" "''utf8''"]) (simp_all add: encoded_content_def decode_content_def)
    qed
  qed
qed

section \<open>What the tools promise\<close>

text \<open>C32. Whatever a turn asks of the site builder, its tables keep their limits: no path is stored twice in a project, every path is in
  normal form and leads nowhere outside the project, every file has an allowed type and its true size, no file, project or count of
  files is above its limit.\<close>

theorem site_tools_keep_limits:
  assumes "site_ok env s" and "execute_site env new_id name args user external session s = (r, t)"
  shows "site_ok env t"
  using execute_step [OF assms(2)] assms(1) by (simp add: site_step_def)

text \<open>C33. The tools stay in the project of their caller: every other project keeps its files, and an answer is a function of the
  caller's own project, whatever the tables hold of others.\<close>

theorem site_tools_confined:
  assumes "site_ok env s" and "execute_site env new_id name args user external session s = (r, t)"
  shows "(\<forall>p \<in> set (si_projects s). \<not> (pr_user p = user \<and> pr_external p = external) \<longrightarrow>
        p \<in> set (si_projects t) \<and> files_of (pr_id p) t = files_of (pr_id p) s)
    \<and> (name \<in> {''site.preview'', ''site.list'', ''site.read''} \<longrightarrow>
        (\<forall>u. get_existing_project user external u = get_existing_project user external s
           \<and> (\<forall>p. get_existing_project user external s = Some p \<longrightarrow> files_of (pr_id p) u = files_of (pr_id p) s) \<longrightarrow>
           fst (execute_site env new_id name args user external session u) = r))"
proof -
  have "fst (execute_site env new_id name args user external session u) = r"
    if "name \<in> {''site.preview'', ''site.list'', ''site.read''}"
      "get_existing_project user external u = get_existing_project user external s"
      "\<forall>p. get_existing_project user external s = Some p \<longrightarrow> files_of (pr_id p) u = files_of (pr_id p) s" for u
    using assms(2) answer_own [of user external u s, OF that(2)] that(1,3)
    by (elim insertE emptyE) (simp_all only: execute_answers fst_conv prod.inject, metis+)
  then show ?thesis
    using execute_step [OF assms(2)] assms(1) by (auto simp: site_step_def)
qed

text \<open>What is written is what is read: after a write that succeeds, a read of the same file, by whatever name that normalizes to it,
  returns the content in an encoding that decodes to the bytes written, with the type and size of the write (files whose text has
  characters outside Latin-1 left aside).\<close>

theorem site_write_read:
  assumes "execute_site env new_id ''site.write_file'' args user external session s = (Inr x, t)" and "\<not> tx_is_error x"
    and "decode_content (py_str (jget ''content'' args)) (py_str (jget ''encoding'' args)) = Some bytes"
    and "\<And>ps p. utf8_decode bytes = Some ps \<Longrightarrow> p \<in> set ps \<Longrightarrow> p < 256"
    and "normalize_site_path (py_str (jget ''path'' rargs)) = normalize_site_path (py_str (jget ''path'' args))"
  shows "\<exists>n content encoding. normalize_site_path (py_str (jget ''path'' args)) = Inr n \<and> decode_content content encoding = Some bytes
     \<and> execute_site env new_id' ''site.read'' rargs user external session' t =
        (Inr (tool_ok [(''path'', JStr n), (''content'', JStr content), (''encoding'', JStr encoding),
           (''contentType'', JStr (py_str (jget ''contentType'' args))), (''size'', JInt (int (length bytes)))]), t)"
proof -
  obtain p n where p: "get_existing_project user external t = Some p" and n: "normalize_site_path (py_str (jget ''path'' args)) = Inr n"
    and f: "site_file_at (pr_id p) n t = Some \<lparr>sf_project = pr_id p, sf_path = n, sf_content = bytes,
       sf_type = py_str (jget ''contentType'' args), sf_size = int (length bytes)\<rparr>" (is "_ = Some ?f")
    using written [OF assms(1-3)] .
  obtain c e where c: "encoded_content env ?f = (JStr c, e)" "decode_content c e = Some bytes"
    using content_roundtrip [of ?f env] decoded_bytes [OF assms(3)] assms(4) by auto
  have "read_tool env rargs user external t = tool_ok [(''path'', JStr n), (''content'', JStr c), (''encoding'', JStr e),
      (''contentType'', JStr (py_str (jget ''contentType'' args))), (''size'', JInt (int (length bytes)))]"
    by (simp add: read_tool_def p read_file_def assms(5) n f c(1))
  then show ?thesis
    using n c(2) by (auto simp: execute_answers)
qed

section \<open>A small project\<close>

definition demo_site_env :: site_env where
  "demo_site_env = \<lparr>se_max_file_bytes = 10, se_max_project_bytes = 12, se_max_files = 2,
     se_links = \<lparr>lk_mac = (\<lambda>k m. k @ m), lk_secret = [], lk_ttl = 60, lk_domain = [], lk_iso = (\<lambda>n. [])\<rparr>,
     se_now = 0, se_rank = length, se_wide = (\<lambda>ps. JNull)\<rparr>"

definition demo_site :: site_state where
  "demo_site = \<lparr>si_db = empty_db\<lparr>users := [1 \<mapsto> False, 2 \<mapsto> False], chat_sessions := [9 \<mapsto> 1]\<rparr>,
     si_projects = [\<lparr>pr_id = 3, pr_user = 2, pr_external = ''shop''\<rparr>],
     si_files = [\<lparr>sf_project = 3, sf_path = ''a.css'', sf_content = [98], sf_type = ''text/css'', sf_size = 1\<rparr>]\<rparr>"

definition demo_write :: json_obj where
  "demo_write = [(''path'', JStr ''./x//a.txt''), (''content'', JStr ''hi''), (''encoding'', JStr ''utf8''), (''contentType'', JStr ''text/plain'')]"

lemma demo_site_ok: "site_ok demo_site_env demo_site"
  by code_simp

lemma site_audit_stored:
  "users (si_db s) user \<noteq> None \<Longrightarrow> chat_sessions (si_db s) session \<noteq> None \<Longrightarrow> \<exists>d. site_audit user session p s = (Inr (), s\<lparr>si_db := d\<rparr>)"
  by (auto simp: site_audit_def audit_record_def)

definition demo_stored :: site_state where
  "demo_stored = demo_site\<lparr>si_projects := si_projects demo_site @ [\<lparr>pr_id = 4, pr_user = 1, pr_external = ''shop''\<rparr>],
     si_files := si_files demo_site @ [\<lparr>sf_project = 4, sf_path = ''x/a.txt'', sf_content = [104, 105], sf_type = ''text/plain'', sf_size = 2\<rparr>]\<rparr>"

lemma demo_path: "normalize_site_path ''./x//a.txt'' = Inr ''x/a.txt''"
  by code_simp

lemma demo_project: "resolve_project 4 1 ''shop'' demo_site =
    (Inr \<lparr>pr_id = 4, pr_user = 1, pr_external = ''shop''\<rparr>, demo_site\<lparr>si_projects := si_projects demo_site @ [\<lparr>pr_id = 4, pr_user = 1, pr_external = ''shop''\<rparr>]\<rparr>)"
  by (simp add: resolve_project_def get_existing_project_def demo_site_def Let_def)

lemma demo_file: "write_file demo_site_env 4 ''./x//a.txt'' [104, 105] ''text/plain''
      (demo_site\<lparr>si_projects := si_projects demo_site @ [\<lparr>pr_id = 4, pr_user = 1, pr_external = ''shop''\<rparr>]\<rparr>) =
    (Inr \<lparr>wr_path = ''x/a.txt'', wr_bytes_written = 2, wr_file_count = 1, wr_project_bytes = 2\<rparr>, demo_stored)"
  by (simp add: write_file_def demo_path PREVIEW_CONTENT_TYPE_ALLOWLIST_def site_file_at_def project_stats_def files_of_def
      store_site_file_def demo_site_env_def demo_stored_def demo_site_def Let_def)

lemma demo_written: "\<exists>d. execute_site demo_site_env 4 ''site.write_file'' demo_write 1 ''shop'' 9 demo_site =
  (Inr (tool_ok [(''path'', JStr ''x/a.txt''), (''bytesWritten'', JInt 2), (''fileCount'', JInt 1), (''projectBytes'', JInt 2)]), demo_stored\<lparr>si_db := d\<rparr>)"
proof -
  have content: "decode_content ''hi'' ''utf8'' = Some [104, 105]"
    by code_simp
  obtain d where "site_audit 1 9 [(''toolName'', Val (JStr ''site.write_file'')), (''projectId'', Val (JStr (uuid_str 4))),
      (''path'', Val (JStr ''x/a.txt'')), (''bytesWritten'', Val (JInt 2))] demo_stored = (Inr (), demo_stored\<lparr>si_db := d\<rparr>)"
    using site_audit_stored [of demo_stored 1 9] by (auto simp: demo_stored_def demo_site_def simp del: not_None_eq)
  then have "write_file_tool demo_site_env 4 demo_write 1 ''shop'' 9 demo_site =
      (Inr (tool_ok [(''path'', JStr ''x/a.txt''), (''bytesWritten'', JInt 2), (''fileCount'', JInt 1), (''projectBytes'', JInt 2)]), demo_stored\<lparr>si_db := d\<rparr>)"
    by (simp add: write_file_tool_def demo_write_def content demo_project demo_file)
  then show ?thesis
    by (auto simp: execute_site_def site_handler_def)
qed

theorem site_tools_keep_limits_witness: "\<exists>d. site_ok demo_site_env (demo_stored\<lparr>si_db := d\<rparr>)"
  using demo_written site_tools_keep_limits [OF demo_site_ok] by metis

theorem site_tools_confined_witness: "\<exists>d. files_of 3 (demo_stored\<lparr>si_db := d\<rparr>) = files_of 3 demo_site \<and> files_of 3 demo_site \<noteq> []"
proof -
  obtain d where d: "execute_site demo_site_env 4 ''site.write_file'' demo_write 1 ''shop'' 9 demo_site =
      (Inr (tool_ok [(''path'', JStr ''x/a.txt''), (''bytesWritten'', JInt 2), (''fileCount'', JInt 1), (''projectBytes'', JInt 2)]), demo_stored\<lparr>si_db := d\<rparr>)"
    using demo_written by blast
  have "\<lparr>pr_id = 3, pr_user = 2, pr_external = ''shop''\<rparr> \<in> set (si_projects demo_site)"
    by (simp add: demo_site_def)
  from bspec [OF conjunct1 [OF site_tools_confined [OF demo_site_ok d]] this]
  have "files_of 3 (demo_stored\<lparr>si_db := d\<rparr>) = files_of 3 demo_site"
    by simp
  moreover have "files_of 3 demo_site \<noteq> []"
    by (simp add: files_of_def demo_site_def)
  ultimately show ?thesis
    by blast
qed

theorem site_write_read_witness: "\<exists>d content encoding. decode_content content encoding = Some [104, 105]
   \<and> execute_site demo_site_env 5 ''site.read'' [(''path'', JStr ''x/a.txt'')] 1 ''shop'' 9 (demo_stored\<lparr>si_db := d\<rparr>) =
      (Inr (tool_ok [(''path'', JStr ''x/a.txt''), (''content'', JStr content), (''encoding'', JStr encoding),
         (''contentType'', JStr ''text/plain''), (''size'', JInt 2)]), demo_stored\<lparr>si_db := d\<rparr>)"
proof -
  obtain d where d: "execute_site demo_site_env 4 ''site.write_file'' demo_write 1 ''shop'' 9 demo_site =
      (Inr (tool_ok [(''path'', JStr ''x/a.txt''), (''bytesWritten'', JInt 2), (''fileCount'', JInt 1), (''projectBytes'', JInt 2)]), demo_stored\<lparr>si_db := d\<rparr>)"
    using demo_written by blast
  have content: "decode_content (py_str (jget ''content'' demo_write)) (py_str (jget ''encoding'' demo_write)) = Some [104, 105]"
    by code_simp
  have latin: "p < 256" if "utf8_decode [104, 105] = Some ps" "p \<in> set ps" for ps p
    using that by auto
  have same: "normalize_site_path ''x/a.txt'' = Inr ''x/a.txt''"
    by code_simp
  have path: "py_str (jget ''path'' demo_write) = ''./x//a.txt''" "py_str (jget ''contentType'' demo_write) = ''text/plain''"
    by (simp_all add: demo_write_def)
  show ?thesis
    using site_write_read [OF d _ content, of "[(''path'', JStr ''x/a.txt'')]" 5 9] latin
    by (auto simp: path same demo_path tool_ok_def)
qed

end
