(* ===== verification/Website_Preview.thy ===== *)
theory Website_Preview
  imports Website_Files
begin

text \<open>
  \<open>api_gateway/routers/preview.py\<close>: the public address of a project's files, authorized by a signed link alone. It joins the tables of
  \<open>Website\<close> to the links of \<open>Signed_Url\<close>; the arguments of the route arrive decoded.
\<close>

record preview_response =
  pv_status :: int
  pv_content :: "nat list"
  pv_type :: "string option"
  pv_headers :: "(string \<times> string) list"

definition SECURITY_HEADERS :: "(string \<times> string) list" where
  "SECURITY_HEADERS =
     [(''Content-Security-Policy'', ''sandbox allow-scripts allow-forms; default-src '' @ [CHR 0x27] @ ''self'' @ [CHR 0x27]
         @ ''; frame-ancestors '' @ [CHR 0x27] @ ''self'' @ [CHR 0x27]),
      (''X-Content-Type-Options'', ''nosniff''), (''X-Frame-Options'', ''SAMEORIGIN''), (''Cache-Control'', ''private, no-store'')]"

definition preview_refused :: "int \<Rightarrow> preview_response" where
  "preview_refused status = \<lparr>pv_status = status, pv_content = [], pv_type = None, pv_headers = SECURITY_HEADERS\<rparr>"

definition get_project_by_id :: "uuid \<Rightarrow> site_state \<Rightarrow> project_row option" where
  "get_project_by_id project s = find (\<lambda>p. pr_id p = project) (si_projects s)"

text \<open>A missing secret is 403 whatever the token, as a token that does not verify is.\<close>

definition get_preview :: "link_settings \<Rightarrow> int \<Rightarrow> uuid \<Rightarrow> string \<Rightarrow> string \<Rightarrow> site_state \<Rightarrow> preview_response" where
  "get_preview lk now project token path s =
     (case get_project_by_id project s of
        None \<Rightarrow> preview_refused 404
      | Some p \<Rightarrow>
          if verify_token (lk_mac lk) (lk_secret lk) (Site_preview project (pr_user p)) token now = None then preview_refused 403
          else case read_file project path s of
            None \<Rightarrow> preview_refused 404
          | Some f \<Rightarrow> \<lparr>pv_status = 200, pv_content = sf_content f, pv_type = Some (sf_type f), pv_headers = SECURITY_HEADERS\<rparr>)"

section \<open>What a link shows\<close>

lemma project_found: "site_ok env s \<Longrightarrow> p \<in> set (si_projects s) \<Longrightarrow> get_project_by_id (pr_id p) s = Some p"
proof -
  assume "site_ok env s" "p \<in> set (si_projects s)"
  then have "find (\<lambda>q. pr_id q = pr_id p) (si_projects s) \<noteq> None"
    by (auto simp: find_None_iff simp del: not_None_eq)
  then obtain q where "find (\<lambda>q. pr_id q = pr_id p) (si_projects s) = Some q"
    by blast
  moreover from this have "q \<in> set (si_projects s)" "pr_id q = pr_id p"
    by (auto dest: find_SomeD)
  then have "q = p"
    by (intro other_project [OF \<open>site_ok env s\<close> \<open>p \<in> set (si_projects s)\<close>])
  ultimately show ?thesis
    by (simp add: get_project_by_id_def)
qed

lemma read_allowed:
  assumes "site_ok env s" "read_file project path s = Some f"
  shows "f \<in> set (files_of project s) \<and> sf_type f \<in> set PREVIEW_CONTENT_TYPE_ALLOWLIST"
proof -
  obtain n where "site_file_at project n s = Some f"
    using assms(2) by (auto simp: read_file_def split: sum.splits)
  then have f: "f \<in> set (si_files s)" "sf_project f = project"
    by (auto simp: site_file_at_def dest!: find_SomeD)
  then have "stored_ok env s f"
    using assms(1) by (simp only: site_ok_def)
  then show ?thesis
    using f by (simp only: stored_ok_def files_of_def set_filter mem_Collect_eq simp_thms)
qed

lemma preview_link:
  assumes "preview_tool env args user external s = x" "\<not> tx_is_error x"
  obtains p token exp where "get_existing_project user external s = Some p"
    "build_token (lk_mac (se_links env)) (lk_secret (se_links env)) (lk_ttl (se_links env)) (Site_preview (pr_id p) user) (se_now env) = Some (token, exp)"
    "x = tool_ok [(''url'', JStr ((if lk_domain (se_links env) = [] then [] else ''https://'' @ lk_domain (se_links env))
       @ ''/v1/preview/'' @ uuid_str (pr_id p) @ ''/'' @ token @ ''/''
       @ (if truthy (jget ''entry'' args) then py_str (jget ''entry'' args) else ''index.html''))),
       (''expiresAt'', JStr (lk_iso (se_links env) exp))]"
  using assms by (auto simp: preview_tool_def tool_error_def Let_def split: option.splits prod.splits if_splits)

lemma signed_distinct:
  "canonical (Site_preview p u) e = canonical (Site_preview q v) e \<longleftrightarrow> p = q \<and> u = v"
  by (simp add: canonical_inject)

text \<open>C34. The link a turn is given shows the project it was given for, as it stands when the link is followed: until it expires every path
  is answered with the stored bytes and type or with 404, afterwards with 403, and under the identifier of any other project of the
  service the same token is answered with 403. Whatever is served has a type of the list and the headers of the sandbox. The hypotheses
  on the hash are those of the signed links.\<close>

theorem preview_link_shows_project:
  assumes link: "execute_site env new_id ''site.preview'' args user external session s = (Inr x, s')" "\<not> tx_is_error x"
    and bytes: "\<And>m. bytes_ok (lk_mac (se_links env) (utf8_encode (lk_secret (se_links env))) (utf8_encode m))"
    and digits: "length (int_str (se_now env + lk_ttl (se_links env))) \<le> 4300"
    and later: "site_ok env t" "set (si_projects s) \<subseteq> set (si_projects t)"
    and no_collision: "\<And>p q. p \<in> set (si_projects t) \<Longrightarrow> q \<in> set (si_projects t) \<Longrightarrow>
      sign (lk_mac (se_links env)) (lk_secret (se_links env)) (Site_preview (pr_id p) (pr_user p)) (se_now env + lk_ttl (se_links env)) =
      sign (lk_mac (se_links env)) (lk_secret (se_links env)) (Site_preview (pr_id q) (pr_user q)) (se_now env + lk_ttl (se_links env)) \<Longrightarrow>
      canonical (Site_preview (pr_id p) (pr_user p)) (se_now env + lk_ttl (se_links env)) =
      canonical (Site_preview (pr_id q) (pr_user q)) (se_now env + lk_ttl (se_links env))"
  shows "\<exists>p token rest. get_existing_project user external s = Some p
    \<and> jget ''url'' (the (tx_result x)) = JStr ((if lk_domain (se_links env) = [] then [] else ''https://'' @ lk_domain (se_links env))
         @ ''/v1/preview/'' @ uuid_str (pr_id p) @ ''/'' @ token @ ''/'' @ rest)
    \<and> (\<forall>q \<in> set (si_projects t). \<forall>now path. get_preview (se_links env) now (pr_id q) token path t =
       (if q \<noteq> p \<or> se_now env + lk_ttl (se_links env) < now then preview_refused 403
        else case read_file (pr_id p) path t of
          None \<Rightarrow> preview_refused 404
        | Some f \<Rightarrow> \<lparr>pv_status = 200, pv_content = sf_content f, pv_type = Some (sf_type f), pv_headers = SECURITY_HEADERS\<rparr>))
    \<and> (\<forall>path f. read_file (pr_id p) path t = Some f \<longrightarrow> f \<in> set (files_of (pr_id p) t) \<and> sf_type f \<in> set PREVIEW_CONTENT_TYPE_ALLOWLIST)"
proof -
  have "preview_tool env args user external s = x"
    using link(1) by (auto simp: execute_answers)
  then obtain p token exp where p: "get_existing_project user external s = Some p"
    and token: "build_token (lk_mac (se_links env)) (lk_secret (se_links env)) (lk_ttl (se_links env)) (Site_preview (pr_id p) user) (se_now env) = Some (token, exp)"
    and url: "x = tool_ok [(''url'', JStr ((if lk_domain (se_links env) = [] then [] else ''https://'' @ lk_domain (se_links env))
       @ ''/v1/preview/'' @ uuid_str (pr_id p) @ ''/'' @ token @ ''/''
       @ (if truthy (jget ''entry'' args) then py_str (jget ''entry'' args) else ''index.html''))),
       (''expiresAt'', JStr (lk_iso (se_links env) exp))]"
    using preview_link link(2) by metis
  have exp: "exp = se_now env + lk_ttl (se_links env)"
    using token by (auto simp: build_token_def Let_def split: if_splits)
  have owner: "p \<in> set (si_projects t)" "pr_user p = user"
    using existing_project [OF p] later(2) by auto
  have "get_preview (se_links env) now (pr_id q) token path t =
       (if q \<noteq> p \<or> se_now env + lk_ttl (se_links env) < now then preview_refused 403
        else case read_file (pr_id p) path t of
          None \<Rightarrow> preview_refused 404
        | Some f \<Rightarrow> \<lparr>pv_status = 200, pv_content = sf_content f, pv_type = Some (sf_type f), pv_headers = SECURITY_HEADERS\<rparr>)"
    if q: "q \<in> set (si_projects t)" for q now path
  proof -
    have same: "pr_id p = pr_id q \<and> user = pr_user q \<longleftrightarrow> q = p"
      using other_project [OF later(1) owner(1) q] owner(2) by fastforce
    have "verify_token (lk_mac (se_links env)) (lk_secret (se_links env)) (Site_preview (pr_id q) (pr_user q)) token now
        = (if q = p \<and> now \<le> exp then Some exp else None)"
      using built_verified [OF token, of "Site_preview (pr_id q) (pr_user q)" now] bytes digits no_collision [OF owner(1) q] same owner(2)
      by (auto simp: sign_def exp signed_distinct)
    then show ?thesis
      using project_found [OF later(1) q] by (auto simp: get_preview_def exp)
  qed
  moreover have "jget ''url'' (the (tx_result x)) = JStr ((if lk_domain (se_links env) = [] then [] else ''https://'' @ lk_domain (se_links env))
         @ ''/v1/preview/'' @ uuid_str (pr_id p) @ ''/'' @ token @ ''/''
         @ (if truthy (jget ''entry'' args) then py_str (jget ''entry'' args) else ''index.html''))"
    by (simp add: url tool_ok_def)
  ultimately show ?thesis
    using p read_allowed [OF later(1)] by blast
qed

text \<open>The page of \<open>demo_stored\<close>, followed a minute later and under the other project.\<close>

definition demo_link_env :: site_env where
  "demo_link_env = demo_site_env\<lparr>se_links := \<lparr>lk_mac = (\<lambda>k m. m), lk_secret = ''s'', lk_ttl = 60, lk_domain = [], lk_iso = (\<lambda>n. [])\<rparr>\<rparr>"

lemma demo_stored_ok: "site_ok demo_link_env demo_stored"
  by code_simp

theorem preview_link_shows_project_witness:
  "\<exists>token. get_preview (se_links demo_link_env) 60 4 token ''x/a.txt'' demo_stored =
      \<lparr>pv_status = 200, pv_content = [104, 105], pv_type = Some ''text/plain'', pv_headers = SECURITY_HEADERS\<rparr>
    \<and> get_preview (se_links demo_link_env) 61 4 token ''x/a.txt'' demo_stored = preview_refused 403
    \<and> get_preview (se_links demo_link_env) 60 3 token ''a.css'' demo_stored = preview_refused 403"
proof -
  let ?p = "\<lparr>pr_id = 4, pr_user = 1, pr_external = ''shop''\<rparr>"
  let ?q = "\<lparr>pr_id = 3, pr_user = 2, pr_external = ''shop''\<rparr>"
  let ?x = "preview_tool demo_link_env [] 1 ''shop'' demo_stored"
  have p: "get_existing_project 1 ''shop'' demo_stored = Some ?p" and rows: "set (si_projects demo_stored) = {?p, ?q}"
    by (auto simp: get_existing_project_def demo_stored_def demo_site_def)
  have read: "read_file 4 ''x/a.txt'' demo_stored = Some \<lparr>sf_project = 4, sf_path = ''x/a.txt'', sf_content = [104, 105], sf_type = ''text/plain'', sf_size = 2\<rparr>"
    by code_simp
  have env: "lk_secret (se_links demo_link_env) = ''s''" "lk_mac (se_links demo_link_env) = (\<lambda>k m. m)" "lk_ttl (se_links demo_link_env) = 60"
    "se_now demo_link_env = 0"
    by (simp_all add: demo_link_env_def demo_site_env_def)
  have answered: "execute_site demo_link_env 0 ''site.preview'' [] 1 ''shop'' 9 demo_stored = (Inr ?x, demo_stored)"
    by (simp add: execute_answers)
  have granted: "\<not> tx_is_error ?x"
    by (simp add: preview_tool_def p build_token_def env Let_def tool_ok_def)
  have bytes: "bytes_ok (lk_mac (se_links demo_link_env) (utf8_encode (lk_secret (se_links demo_link_env))) (utf8_encode m))" for m
    using utf8_encode_bytes by (auto simp: env bytes_ok_def)
  have digits: "length (int_str (se_now demo_link_env + lk_ttl (se_links demo_link_env))) \<le> 4300"
    unfolding env by code_simp
  have injective: "canonical a e = canonical b e" if "sign (lk_mac (se_links demo_link_env)) (lk_secret (se_links demo_link_env)) a e
      = sign (lk_mac (se_links demo_link_env)) (lk_secret (se_links demo_link_env)) b e" for a b e
    using that by (simp add: sign_def env utf8_inject)
  obtain p' token rest where "get_existing_project 1 ''shop'' demo_stored = Some p'"
    and all: "\<forall>q \<in> set (si_projects demo_stored). \<forall>now path. get_preview (se_links demo_link_env) now (pr_id q) token path demo_stored =
       (if q \<noteq> p' \<or> se_now demo_link_env + lk_ttl (se_links demo_link_env) < now then preview_refused 403
        else case read_file (pr_id p') path demo_stored of
          None \<Rightarrow> preview_refused 404
        | Some f \<Rightarrow> \<lparr>pv_status = 200, pv_content = sf_content f, pv_type = Some (sf_type f), pv_headers = SECURITY_HEADERS\<rparr>)"
    using preview_link_shows_project [OF answered granted bytes digits demo_stored_ok order_refl injective] by blast
  then have p': "p' = ?p"
    using p by simp
  show ?thesis
    using all [unfolded rows p' env] by (intro exI [of _ token]) (auto simp: read)
qed

end
