(* ===== verification/Documents.thy ===== *)
theory Documents
  imports Website
begin

text \<open>
  The documents of a chat: \<open>documents/service.py\<close>, the \<open>document.*\<close> tools of \<open>chat/global_tools.py\<close> and the download of
  \<open>api_gateway/routers/documents.py\<close>. A document belongs to a user and a session; the table is a list of rows, and rows created at the same
  instant are listed in its order. Generated identifiers and the clock of the process are arguments; the clock of the database is
  \<open>sql_now\<close>.
\<close>

section \<open>The table\<close>

record document_settings =
  dl_max_bytes :: int
  dl_max_count :: int
  dl_total_bytes :: int
  dl_context_max_chars :: int

record chat_document =
  do_id :: uuid
  do_user :: uuid
  do_session :: uuid
  do_filename :: string
  do_media_type :: string
  do_content :: string
  do_size :: int
  do_version :: int
  do_created_by :: string
  do_created :: instant
  do_updated :: instant

record doc_state =
  ds_db :: db
  ds_docs :: "chat_document list"

type_synonym 'a doc_op = "doc_state \<Rightarrow> (exn, 'a, doc_state) outcome"

definition ALLOWED_MEDIA_TYPES :: "string list" where
  "ALLOWED_MEDIA_TYPES = [''text/markdown'', ''text/plain'', ''text/csv'', ''application/json'']"

definition EXTENSION_BY_TYPE :: "(string \<times> string) list" where
  "EXTENSION_BY_TYPE = [(''text/markdown'', ''.md''), (''text/plain'', ''.txt''), (''text/csv'', ''.csv''), (''application/json'', ''.json'')]"

text \<open>\<open>DocumentView.of\<close>: the row, its content only when it is asked for.\<close>

record DocumentView =
  dv_id :: uuid
  dv_filename :: string
  dv_media_type :: string
  dv_size_bytes :: int
  dv_version :: int
  dv_created_by :: string
  dv_created_at :: instant
  dv_updated_at :: instant
  dv_content :: "string option"

definition document_view :: "bool \<Rightarrow> chat_document \<Rightarrow> DocumentView" where
  "document_view with_content d =
     \<lparr>dv_id = do_id d, dv_filename = do_filename d, dv_media_type = do_media_type d, dv_size_bytes = do_size d, dv_version = do_version d,
      dv_created_by = do_created_by d, dv_created_at = do_created d, dv_updated_at = do_updated d,
      dv_content = (if with_content then Some (do_content d) else None)\<rparr>"

section \<open>File names\<close>

text \<open>\<open>s.rpartition(".")\<close>\<close>

definition rpartition_dot :: "string \<Rightarrow> string \<times> string \<times> string" where
  "rpartition_dot s =
     (if CHR ''.'' \<notin> set s then ([], [], s)
      else let ext = rev (takeWhile (\<lambda>c. c \<noteq> CHR ''.'') (rev s)) in (take (length s - length ext - 1) s, ''.'', ext))"

definition plain_name :: "string \<Rightarrow> string" where
  "plain_name filename =
     (let raw = (if filename = [] then ''document'' else filename);
          part = List.last (split_on (CHR ''/'') (map (\<lambda>c. if c = CHR 0x5C then CHR ''/'' else c) raw));
          name = py_strip part in
      if name = [] then ''document'' else name)"

definition with_extension :: "string \<Rightarrow> string \<Rightarrow> string" where
  "with_extension name expected =
     (if py_endswith expected (py_lower name) then name
      else (case rpartition_dot name of (stem, dot, ext) \<Rightarrow>
        (if dot \<noteq> [] \<and> ''.'' @ py_lower ext \<in> set (map snd EXTENSION_BY_TYPE) then (if stem \<noteq> [] then stem else name) else name) @ expected))"

definition normalize_filename :: "string \<Rightarrow> string \<Rightarrow> string" where
  "normalize_filename filename media_type =
     take 200 (case map_of EXTENSION_BY_TYPE media_type of
         None \<Rightarrow> plain_name filename
       | Some expected \<Rightarrow> with_extension (plain_name filename) expected)"

section \<open>The service\<close>

definition docs_of :: "uuid \<Rightarrow> uuid \<Rightarrow> doc_state \<Rightarrow> chat_document list" where
  "docs_of user session s = filter (\<lambda>d. do_user d = user \<and> do_session d = session) (ds_docs s)"

definition assert_session :: "uuid \<Rightarrow> uuid \<Rightarrow> unit doc_op" where
  "assert_session user session s =
     (if chat_sessions (ds_db s) session = Some user then (Inr (), s) else (Inl (Raised SessionNotFoundError ''session not found''), s))"

definition document_row :: "uuid \<Rightarrow> uuid \<Rightarrow> uuid \<Rightarrow> chat_document doc_op" where
  "document_row user session document s =
     (case find (\<lambda>d. do_id d = document \<and> do_user d = user \<and> do_session d = session) (ds_docs s) of
        None \<Rightarrow> (Inl (Raised DocumentNotFoundError ''document not found''), s)
      | Some d \<Rightarrow> (Inr d, s))"

definition check_media_type :: "string \<Rightarrow> unit doc_op" where
  "check_media_type media_type s =
     (if media_type \<in> set ALLOWED_MEDIA_TYPES then (Inr (), s)
      else (Inl (Raised UnsupportedMediaTypeError (''unsupported_media_type: '' @ media_type)), s))"

definition check_single_size :: "document_settings \<Rightarrow> int \<Rightarrow> unit doc_op" where
  "check_single_size cfg n s =
     (if dl_max_bytes cfg < n then (Inl (Raised DocumentTooLargeError ''document exceeds the maximum size''), s) else (Inr (), s))"

definition check_session_budget :: "document_settings \<Rightarrow> uuid \<Rightarrow> uuid \<Rightarrow> int \<Rightarrow> int option \<Rightarrow> unit doc_op" where
  "check_session_budget cfg user session incoming replacing s =
     (let count = int (length (docs_of user session s)); total = sum_list (map do_size (docs_of user session s)) in
      if replacing = None \<and> dl_max_count cfg \<le> count then (Inl (Raised TooManyDocumentsError ''too many documents in this chat''), s)
      else if dl_total_bytes cfg < total - or_default replacing 0 + incoming
      then (Inl (Raised DocumentsTotalTooLargeError ''documents exceed the total size limit for this chat''), s)
      else (Inr (), s))"

definition insert_document :: "chat_document \<Rightarrow> unit doc_op" where
  "insert_document d s =
     (if users (ds_db s) (do_user d) = None \<or> chat_sessions (ds_db s) (do_session d) = None then (Inl (DbFault ForeignKeyViolation), s)
      else if \<exists>e \<in> set (ds_docs s). do_id e = do_id d then (Inl (DbFault UniqueViolation), s)
      else (Inr (), s\<lparr>ds_docs := ds_docs s @ [d]\<rparr>))"

definition create_document ::
  "document_settings \<Rightarrow> uuid \<Rightarrow> uuid \<Rightarrow> uuid \<Rightarrow> string \<Rightarrow> string \<Rightarrow> string \<Rightarrow> string \<Rightarrow> DocumentView doc_op" where
  "create_document cfg new_id user session filename media_type content created_by s =
     (let size = int (length (utf8_encode content)) in
      and_then (check_media_type media_type s) (\<lambda>_ s.
      and_then (check_single_size cfg size s) (\<lambda>_ s.
      and_then (check_session_budget cfg user session size None s) (\<lambda>_ s.
      (let row = \<lparr>do_id = new_id, do_user = user, do_session = session, do_filename = normalize_filename filename media_type,
             do_media_type = media_type, do_content = content, do_size = size, do_version = 1, do_created_by = created_by,
             do_created = sql_now (ds_db s), do_updated = sql_now (ds_db s)\<rparr> in
       and_then (insert_document row s) (\<lambda>_ s. (Inr (document_view False row), s)))))))"

definition update_document :: "document_settings \<Rightarrow> instant \<Rightarrow> uuid \<Rightarrow> uuid \<Rightarrow> uuid \<Rightarrow> string \<Rightarrow> DocumentView doc_op" where
  "update_document cfg now user session document content s =
     and_then (document_row user session document s) (\<lambda>row s.
     (let size = int (length (utf8_encode content)) in
      and_then (check_single_size cfg size s) (\<lambda>_ s.
      and_then (check_session_budget cfg user session size (Some (do_size row)) s) (\<lambda>_ s.
      (let row = row\<lparr>do_content := content, do_size := size, do_version := do_version row + 1, do_updated := now\<rparr> in
       (Inr (document_view False row), s\<lparr>ds_docs := map (\<lambda>d. if do_id d = document then row else d) (ds_docs s)\<rparr>))))))"

text \<open>\<open>POST /v1/chats/{id}/documents\<close>, its content decoded.\<close>

definition post_document ::
  "document_settings \<Rightarrow> uuid \<Rightarrow> uuid \<Rightarrow> uuid \<Rightarrow> string \<Rightarrow> string \<Rightarrow> string \<Rightarrow> DocumentView doc_op" where
  "post_document cfg new_id user session filename media_type content s =
     and_then (assert_session user session s) (\<lambda>_ s. create_document cfg new_id user session filename media_type content ''user'' s)"

definition delete_document :: "uuid \<Rightarrow> uuid \<Rightarrow> uuid \<Rightarrow> unit doc_op" where
  "delete_document user session document s =
     and_then (document_row user session document s) (\<lambda>row s.
     (Inr (), s\<lparr>ds_docs := filter (\<lambda>d. do_id d \<noteq> document) (ds_docs s)\<rparr>))"

definition list_documents :: "uuid \<Rightarrow> uuid \<Rightarrow> doc_state \<Rightarrow> DocumentView list" where
  "list_documents user session s = map (document_view False) (sort_key do_created (docs_of user session s))"

definition get_document :: "uuid \<Rightarrow> uuid \<Rightarrow> uuid \<Rightarrow> DocumentView doc_op" where
  "get_document user session document s =
     and_then (document_row user session document s) (\<lambda>row s. (Inr (document_view True row), s))"

fun join_semicolon :: "string list \<Rightarrow> string" where
  "join_semicolon [] = []"
| "join_semicolon [w] = w"
| "join_semicolon (w # v # ws) = w @ ''; '' @ join_semicolon (v # ws)"

definition context_line :: "document_settings \<Rightarrow> uuid \<Rightarrow> uuid \<Rightarrow> doc_state \<Rightarrow> string option" where
  "context_line cfg user session s =
     (case list_documents user session s of
        [] \<Rightarrow> None
      | docs \<Rightarrow>
          (let line = ''This chat has stored documents you can read and update with the document.* tools: ''
                 @ join_semicolon (map (\<lambda>d. dv_filename d @ '' (id='' @ uuid_str (dv_id d) @ '')'') docs) @ ''.'';
               n = dl_context_max_chars cfg in
           Some (if 0 \<le> n then take (nat n) line else take (length line - nat (- n)) line)))"

section \<open>The tools of the model\<close>

definition doc_brief :: "DocumentView \<Rightarrow> json_obj" where
  "doc_brief v =
     [(''documentId'', JStr (uuid_str (dv_id v))), (''filename'', JStr (dv_filename v)), (''mediaType'', JStr (dv_media_type v)),
      (''size'', JInt (dv_size_bytes v)), (''version'', JInt (dv_version v))]"

definition document_tool ::
  "document_settings \<Rightarrow> uuid \<Rightarrow> instant \<Rightarrow> string \<Rightarrow> json_obj \<Rightarrow> uuid \<Rightarrow> uuid \<Rightarrow> tool_execution doc_op" where
  "document_tool cfg new_id now name args user session s =
     (let text_arg = (\<lambda>k d. if truthy (jget k args) then py_str (jget k args) else d) in
      if name = ''document.list''
      then (Inr (tool_ok [(''documents'', JArr (map (\<lambda>v. JObj (doc_brief v)) (list_documents user session s)))]), s)
      else if name = ''document.create''
      then (if \<not> truthy (jget ''content'' args)
            then (Inr (tool_error ''invalid_document_request'' ''content is required and must not be empty''), s)
            else and_then (create_document cfg new_id user session (text_arg ''filename'' ''document'') (text_arg ''mediaType'' ''text/markdown'')
                   (text_arg ''content'' []) ''assistant'' s)
                 (\<lambda>v s. (Inr (tool_ok (doc_brief v)), s)))
      else case uuid_parse (py_str (jget ''documentId'' args)) of
        None \<Rightarrow> (Inr (tool_error ''invalid_document_request'' ''documentId is not a uuid''), s)
      | Some document \<Rightarrow>
          if name = ''document.read''
          then and_then (get_document user session document s)
                 (\<lambda>v s. (Inr (tool_ok (doc_brief v @ [(''content'', JStr (or_default (dv_content v) []))])), s))
          else and_then (update_document cfg now user session document (text_arg ''content'' []) s)
                 (\<lambda>v s. (Inr (tool_ok (doc_brief v)), s)))"

text \<open>\<open>_document\<close>: what the service refuses becomes an error of the tool. \<open>user\<close> or \<open>session\<close> may be unknown to the caller.\<close>

definition execute_document ::
  "document_settings \<Rightarrow> uuid \<Rightarrow> instant \<Rightarrow> string \<Rightarrow> json_obj \<Rightarrow> uuid option \<Rightarrow> uuid option \<Rightarrow> tool_execution doc_op" where
  "execute_document cfg new_id now name args user session s =
     (case (user, session) of
        (Some u, Some i) \<Rightarrow>
          (case document_tool cfg new_id now name args u i s of
             (Inr x, s') \<Rightarrow> (Inr x, s')
           | (Inl e, s') \<Rightarrow>
               (case e of
                  Raised c m \<Rightarrow>
                    if is_a c NotFoundError then (Inr (tool_error ''invalid_document_request'' ''document not found''), s')
                    else if is_a c ValidationFailedError then (Inr (tool_error (code c) (take 400 m)), s')
                    else (Inl e, s')
                | _ \<Rightarrow> (Inl e, s')))
      | _ \<Rightarrow> (Inr (tool_error ''documents_not_available'' ''documents are not available in this context''), s))"

section \<open>The download\<close>

definition percent_char :: "nat \<Rightarrow> char" where
  "percent_char n = (if n < 10 then char_of (48 + n) else char_of (55 + n))"

text \<open>\<open>urllib.parse.quote(s, safe="")\<close>\<close>

definition unreserved_byte :: "nat \<Rightarrow> bool" where
  "unreserved_byte b \<longleftrightarrow> (48 \<le> b \<and> b \<le> 57) \<or> (65 \<le> b \<and> b \<le> 90) \<or> (97 \<le> b \<and> b \<le> 122) \<or> b = 45 \<or> b = 46 \<or> b = 95 \<or> b = 126"

definition url_quote :: "string \<Rightarrow> string" where
  "url_quote s = concat (map (\<lambda>b. if unreserved_byte b then [char_of b] else [CHR ''%'', percent_char (b div 16), percent_char (b mod 16)]) (utf8_encode s))"

definition ascii_fallback :: "string \<Rightarrow> string" where
  "ascii_fallback filename =
     (let ascii_name = py_strip (filter (\<lambda>c. c \<noteq> CHR 0x22) (filter (\<lambda>c. of_char c < (128 :: nat)) filename)) in
      case rpartition_dot ascii_name of (stem, dot, ext) \<Rightarrow>
        (let name = (if stem = [] then (if dot \<noteq> [] then ''document'' @ dot @ ext else []) else ascii_name) in
         if name = [] then ''document'' else name))"

definition content_disposition :: "string \<Rightarrow> string" where
  "content_disposition filename =
     ''attachment; filename='' @ [CHR 0x22] @ ascii_fallback filename @ [CHR 0x22] @ ''; filename*=UTF-8'' @ [CHR 0x27, CHR 0x27] @ url_quote filename"

record document_response =
  dr_content :: "nat list"
  dr_media_type :: string
  dr_headers :: "(string \<times> string) list"

definition download_document :: "uuid \<Rightarrow> uuid \<Rightarrow> uuid \<Rightarrow> document_response doc_op" where
  "download_document user session document s =
     and_then (get_document user session document s) (\<lambda>v s.
     (Inr \<lparr>dr_content = utf8_encode (or_default (dv_content v) []), dr_media_type = dv_media_type v,
        dr_headers = [(''Content-Disposition'', content_disposition (dv_filename v)), (''Cache-Control'', ''private, no-store'')]\<rparr>, s))"

end
