(* ===== verification/Documents_Kept.thy ===== *)
theory Documents_Kept
  imports Documents Website_Files
begin

text \<open>
  What the documents of a chat keep through every operation, of the API and of the tools: limits, names, versions and owners. \<open>doc_change\<close>
  is the little an operation can do to the table. Two theorems show what the tools and the download do against their documentation.
\<close>

section \<open>One operation\<close>

inductive doc_step :: "document_settings \<Rightarrow> uuid \<Rightarrow> uuid \<Rightarrow> doc_state \<Rightarrow> doc_state \<Rightarrow> bool"
  for cfg user session s t where
    posted: "post_document cfg new_id user session filename media_type content s = (r, t) \<Longrightarrow> doc_step cfg user session s t"
  | updated: "update_document cfg now user session document content s = (r', t) \<Longrightarrow> doc_step cfg user session s t"
  | deleted: "delete_document user session document s = (r'', t) \<Longrightarrow> doc_step cfg user session s t"
  | tool: "execute_document cfg new_id now name args (Some user) (Some session) s = (x, t) \<Longrightarrow> doc_step cfg user session s t"

definition fits :: "document_settings \<Rightarrow> uuid \<Rightarrow> uuid \<Rightarrow> int \<Rightarrow> doc_state \<Rightarrow> bool" where
  "fits cfg user session n s \<longleftrightarrow> sum_list (map do_size (docs_of user session s)) + n \<le> dl_total_bytes cfg"

inductive doc_change :: "document_settings \<Rightarrow> uuid \<Rightarrow> uuid \<Rightarrow> doc_state \<Rightarrow> doc_state \<Rightarrow> bool"
  for cfg user session s where
    same: "doc_change cfg user session s s"
  | added: "do_user d = user \<Longrightarrow> do_session d = session \<Longrightarrow> do_id d \<notin> do_id ` set (ds_docs s) \<Longrightarrow> do_version d = 1 \<Longrightarrow>
      do_media_type d \<in> set ALLOWED_MEDIA_TYPES \<Longrightarrow> do_size d = int (length (utf8_encode (do_content d))) \<Longrightarrow>
      do_filename d = normalize_filename name (do_media_type d) \<Longrightarrow>
      do_size d \<le> dl_max_bytes cfg \<Longrightarrow> int (length (docs_of user session s)) < dl_max_count cfg \<Longrightarrow> fits cfg user session (do_size d) s \<Longrightarrow>
      doc_change cfg user session s (s\<lparr>ds_docs := ds_docs s @ [d]\<rparr>)"
  | replaced: "d \<in> set (docs_of user session s) \<Longrightarrow> n = int (length (utf8_encode content)) \<Longrightarrow> n \<le> dl_max_bytes cfg \<Longrightarrow>
      fits cfg user session (n - do_size d) s \<Longrightarrow>
      doc_change cfg user session s (s\<lparr>ds_docs := map (\<lambda>e. if do_id e = do_id d
        then d\<lparr>do_content := content, do_size := n, do_version := do_version d + 1, do_updated := now\<rparr> else e) (ds_docs s)\<rparr>)"
  | removed: "d \<in> set (docs_of user session s) \<Longrightarrow>
      doc_change cfg user session s (s\<lparr>ds_docs := filter (\<lambda>e. do_id e \<noteq> do_id d) (ds_docs s)\<rparr>)"

lemma document_row_cases:
  obtains d where "document_row user session document s = (Inr d, s)" "d \<in> set (docs_of user session s)" "do_id d = document"
  | "document_row user session document s = (Inl (Raised DocumentNotFoundError ''document not found''), s)"
    "document \<notin> do_id ` set (docs_of user session s)"
proof (cases "find (\<lambda>d. do_id d = document \<and> do_user d = user \<and> do_session d = session) (ds_docs s)")
  case None
  then have "document \<notin> do_id ` set (docs_of user session s)"
    by (auto simp: find_None_iff docs_of_def)
  with None show ?thesis
    by (intro that(2)) (simp_all add: document_row_def)
next
  case (Some d)
  then show ?thesis
    using that(1) [of d] by (auto simp: document_row_def docs_of_def dest: find_SomeD)
qed

lemma checks_simps:
  "check_media_type m s = (if m \<in> set ALLOWED_MEDIA_TYPES then (Inr (), s) else (Inl (Raised UnsupportedMediaTypeError (''unsupported_media_type: '' @ m)), s))"
  "check_single_size cfg n s = (if dl_max_bytes cfg < n then (Inl (Raised DocumentTooLargeError ''document exceeds the maximum size''), s) else (Inr (), s))"
  by (simp_all add: check_media_type_def check_single_size_def)

lemma budget_cases:
  obtains "check_session_budget cfg user session n replacing s = (Inr (), s)" "fits cfg user session (n - or_default replacing 0) s"
    "replacing = None \<longrightarrow> int (length (docs_of user session s)) < dl_max_count cfg"
  | e where "check_session_budget cfg user session n replacing s = (Inl e, s)"
proof (cases "replacing = None \<and> dl_max_count cfg \<le> int (length (docs_of user session s))")
  case True
  then show ?thesis
    by (intro that(2)) (simp add: check_session_budget_def Let_def)
next
  case False
  show ?thesis
  proof (cases "fits cfg user session (n - or_default replacing 0) s")
    case True
    with False show ?thesis
      by (intro that(1)) (auto simp: check_session_budget_def fits_def Let_def)
  next
    case not_fitting: False
    with False show ?thesis
      by (intro that(2)) (auto simp: check_session_budget_def fits_def Let_def)
  qed
qed

lemma create_change:
  assumes "create_document cfg new_id user session filename media_type content created_by s = (r, t)"
  shows "doc_change cfg user session s t"
proof (cases rule: budget_cases [of cfg user session "int (length (utf8_encode content))" None s])
  case 1
  let ?d = "\<lparr>do_id = new_id, do_user = user, do_session = session, do_filename = normalize_filename filename media_type,
             do_media_type = media_type, do_content = content, do_size = int (length (utf8_encode content)), do_version = 1,
             do_created_by = created_by, do_created = sql_now (ds_db s), do_updated = sql_now (ds_db s)\<rparr>"
  show ?thesis
  proof (cases "t = s")
    case False
    then have "t = s\<lparr>ds_docs := ds_docs s @ [?d]\<rparr>" "new_id \<notin> do_id ` set (ds_docs s)" "media_type \<in> set ALLOWED_MEDIA_TYPES"
      "int (length (utf8_encode content)) \<le> dl_max_bytes cfg"
      using assms 1(1) by (auto simp: create_document_def checks_simps insert_document_def Let_def split: if_splits)
    then show ?thesis
      using added [of ?d user session s filename cfg] 1(2,3) by simp
  qed (simp add: same)
next
  case (2 e)
  then show ?thesis
    using assms by (auto simp: create_document_def checks_simps Let_def intro: same split: if_splits)
qed

lemma update_change:
  assumes "update_document cfg now user session document content s = (r, t)"
  shows "doc_change cfg user session s t"
proof (cases rule: document_row_cases [of user session document s])
  case (1 d)
  show ?thesis
  proof (cases rule: budget_cases [of cfg user session "int (length (utf8_encode content))" "Some (do_size d)" s])
    case budget: 1
    then show ?thesis
      using assms 1 replaced [OF 1(2) refl, of content cfg now]
      by (auto simp: update_document_def checks_simps Let_def intro: same split: if_splits)
  next
    case (2 e)
    then show ?thesis
      using assms 1 by (auto simp: update_document_def checks_simps Let_def intro: same split: if_splits)
  qed
next
  case 2
  then show ?thesis
    using assms by (auto simp: update_document_def intro: same)
qed

lemma delete_change: "delete_document user session document s = (r, t) \<Longrightarrow> doc_change cfg user session s t"
  by (cases rule: document_row_cases [of user session document s]) (auto simp: delete_document_def intro: same removed)

lemma post_change: "post_document cfg new_id user session filename media_type content s = (r, t) \<Longrightarrow> doc_change cfg user session s t"
  by (auto simp: post_document_def assert_session_def intro: same create_change split: if_splits)

lemma get_same: "get_document user session document s = (r, t) \<Longrightarrow> t = s"
  by (cases rule: document_row_cases [of user session document s]) (auto simp: get_document_def)

lemma passed_change: "and_then m (\<lambda>v s. (Inr (k v), s)) = (r, t) \<Longrightarrow> (\<And>r t. m = (r, t) \<Longrightarrow> P t) \<Longrightarrow> P t"
  by (cases rule: and_then_cases [of m "\<lambda>v s. (Inr (k v), s)"]) auto

lemma tool_change: "document_tool cfg new_id now name args user session s = (r, t) \<Longrightarrow> doc_change cfg user session s t"
  unfolding document_tool_def Let_def
  by (auto intro: same create_change update_change dest: get_same elim!: passed_change split: if_splits option.splits)

lemma step_change: "doc_step cfg user session s t \<Longrightarrow> doc_change cfg user session s t"
proof (induction rule: doc_step.induct)
  case (tool new_id now name args x)
  then show ?case
    using tool_change [of cfg new_id now name args user session s]
    by (auto simp: execute_document_def split: prod.splits sum.splits exn.splits if_splits)
qed (auto intro: post_change update_change delete_change)

section \<open>File names\<close>

definition filename_ok :: "string \<Rightarrow> bool" where
  "filename_ok n \<longleftrightarrow> n \<noteq> [] \<and> length n \<le> 200 \<and> CHR ''/'' \<notin> set n \<and> CHR 0x5C \<notin> set n"

lemma strip_subset: "c \<in> set (py_strip s) \<Longrightarrow> c \<in> set s"
  by (auto simp: py_strip_def strip_by_def dest!: set_dropWhileD)

lemma document_plain: "CHR ''/'' \<notin> set ''document''" "CHR 0x5C \<notin> set ''document''"
  by code_simp+

lemma plain_name_ok: "plain_name f \<noteq> [] \<and> CHR ''/'' \<notin> set (plain_name f) \<and> CHR 0x5C \<notin> set (plain_name f)"
proof -
  let ?raw = "map (\<lambda>c. if c = CHR 0x5C then CHR ''/'' else c) (if f = [] then ''document'' else f)"
  have part: "List.last (split_on (CHR ''/'') ?raw) \<in> set (split_on (CHR ''/'') ?raw)"
    by simp
  have "CHR 0x5C \<notin> set (map (\<lambda>c. if c = CHR 0x5C then CHR ''/'' else c) r)" for r
    by (induction r) simp_all
  then have "CHR ''/'' \<notin> set (List.last (split_on (CHR ''/'') ?raw)) \<and> CHR 0x5C \<notin> set (List.last (split_on (CHR ''/'') ?raw))"
    using split_on_parts [OF part] by blast
  then have "CHR ''/'' \<notin> set (py_strip (List.last (split_on (CHR ''/'') ?raw))) \<and> CHR 0x5C \<notin> set (py_strip (List.last (split_on (CHR ''/'') ?raw)))"
    using strip_subset by blast
  then show ?thesis
    using document_plain by (simp only: plain_name_def Let_def split: if_split) simp
qed

lemma rpartition_stem: "rpartition_dot s = (stem, dot, ext) \<Longrightarrow> c \<in> set stem \<Longrightarrow> c \<in> set s"
  by (auto simp: rpartition_dot_def Let_def dest: in_set_takeD split: if_splits)

lemma extension_plain:
  "map_of EXTENSION_BY_TYPE m = Some e \<Longrightarrow> e \<noteq> [] \<and> CHR ''/'' \<notin> set e \<and> CHR 0x5C \<notin> set e"
  by (auto simp: EXTENSION_BY_TYPE_def split: if_splits)

lemma with_extension_ok:
  assumes "n \<noteq> []" "x \<notin> set n" "x \<notin> set e"
  shows "with_extension n e \<noteq> [] \<and> x \<notin> set (with_extension n e)"
proof -
  obtain stem dot ext where r: "rpartition_dot n = (stem, dot, ext)"
    by (cases "rpartition_dot n") auto
  then have "x \<notin> set stem"
    using rpartition_stem assms(2) by blast
  then show ?thesis
    using assms by (simp add: with_extension_def r)
qed

lemma normalized_filename_ok: "filename_ok (normalize_filename f m)"
proof (cases "map_of EXTENSION_BY_TYPE m")
  case None
  then show ?thesis
    using plain_name_ok [of f] by (auto simp: filename_ok_def normalize_filename_def dest: in_set_takeD)
next
  case (Some e)
  then have "with_extension (plain_name f) e \<noteq> []" "CHR ''/'' \<notin> set (with_extension (plain_name f) e)" "CHR 0x5C \<notin> set (with_extension (plain_name f) e)"
    using plain_name_ok [of f] extension_plain [OF Some] with_extension_ok by blast+
  with Some show ?thesis
    by (auto simp: filename_ok_def normalize_filename_def dest: in_set_takeD)
qed

section \<open>What every operation keeps\<close>

definition document_ok :: "document_settings \<Rightarrow> doc_state \<Rightarrow> chat_document \<Rightarrow> bool" where
  "document_ok cfg s d \<longleftrightarrow> do_media_type d \<in> set ALLOWED_MEDIA_TYPES \<and> filename_ok (do_filename d) \<and> 1 \<le> do_version d
     \<and> do_size d = int (length (utf8_encode (do_content d))) \<and> do_size d \<le> dl_max_bytes cfg
     \<and> int (length (docs_of (do_user d) (do_session d) s)) \<le> dl_max_count cfg \<and> fits cfg (do_user d) (do_session d) 0 s"

definition documents_ok :: "document_settings \<Rightarrow> doc_state \<Rightarrow> bool" where
  "documents_ok cfg s \<longleftrightarrow> distinct (map do_id (ds_docs s)) \<and> (\<forall>d \<in> set (ds_docs s). document_ok cfg s d)"

text \<open>A document as it may be found again: of the same chat, under the same name, and changed only with its version.\<close>

definition later_version :: "chat_document \<Rightarrow> chat_document \<Rightarrow> bool" where
  "later_version d e \<longleftrightarrow> do_user e = do_user d \<and> do_session e = do_session d \<and> do_filename e = do_filename d
     \<and> do_media_type e = do_media_type d \<and> do_created_by e = do_created_by d \<and> do_created e = do_created d
     \<and> (e = d \<or> do_version e = do_version d + 1)"

lemma docs_of_add: "docs_of u i (s\<lparr>ds_docs := ds_docs s @ [d]\<rparr>) = docs_of u i s @ (if do_user d = u \<and> do_session d = i then [d] else [])"
  by (simp add: docs_of_def)

lemma same_id: "distinct (map do_id ds) \<Longrightarrow> d \<in> set ds \<Longrightarrow> e \<in> set ds \<Longrightarrow> do_id e = do_id d \<Longrightarrow> e = d"
  by (auto simp: distinct_map inj_on_def)

lemma replaced_docs:
  assumes "distinct (map do_id ds)" "d \<in> set ds" "do_id r = do_id d" "do_user r = do_user d" "do_session r = do_session d"
  defines "ds' \<equiv> map (\<lambda>e. if do_id e = do_id d then r else e) ds"
  shows "filter (\<lambda>e. do_user e = u \<and> do_session e = i) ds' = map (\<lambda>e. if do_id e = do_id d then r else e) (filter (\<lambda>e. do_user e = u \<and> do_session e = i) ds)"
  using assms same_id [OF assms(1,2)] unfolding ds'_def filter_map comp_def by (intro arg_cong [of _ _ "map _"] filter_cong) auto

lemma replaced_sum:
  assumes "distinct (map do_id ds)" "d \<in> set ds"
  shows "sum_list (map do_size (map (\<lambda>e. if do_id e = do_id d then r else e) ds)) = sum_list (map do_size ds) - do_size d + do_size r"
  using assms
proof (induction ds)
  case (Cons a ds)
  show ?case
  proof (cases "a = d")
    case True
    then have "map (\<lambda>e. if do_id e = do_id d then r else e) ds = ds"
      using Cons.prems by (intro map_idI) (auto simp: image_iff)
    then show ?thesis
      using True by simp
  next
    case False
    then have "do_id a \<noteq> do_id d" "d \<in> set ds"
      using Cons.prems by (auto simp: image_iff)
    then show ?thesis
      using Cons by simp
  qed
qed simp

lemma document_ok_keep:
  "document_ok cfg s d \<Longrightarrow> docs_of (do_user d) (do_session d) t = docs_of (do_user d) (do_session d) s \<Longrightarrow> document_ok cfg t d"
  by (simp add: document_ok_def fits_def)

lemma docs_of_mem: "d \<in> set (docs_of u i s) \<longleftrightarrow> d \<in> set (ds_docs s) \<and> do_user d = u \<and> do_session d = i"
  by (auto simp: docs_of_def)

text \<open>Each change, seen from one chat.\<close>

lemma changed_docs:
  assumes "doc_change cfg user session s t" "distinct (map do_id (ds_docs s))" "(u, i) \<noteq> (user, session)"
  shows "docs_of u i t = docs_of u i s"
  using assms
proof (induction rule: doc_change.induct)
  case (added d name)
  then show ?case
    by (auto simp: docs_of_add)
next
  case (replaced d n content now)
  let ?r = "d\<lparr>do_content := content, do_size := n, do_version := do_version d + 1, do_updated := now\<rparr>"
  have d: "d \<in> set (ds_docs s)" "do_user d = user" "do_session d = session"
    using replaced(1) by (simp_all add: docs_of_mem)
  have other: "do_id e \<noteq> do_id d" if "e \<in> set (docs_of u i s)" for e
    using that same_id [OF replaced(5) d(1)] d(2,3) replaced(6) by (auto simp: docs_of_mem)
  show ?case
    using replaced_docs [OF replaced(5) d(1), of ?r u i] other unfolding docs_of_def by (auto intro!: map_idI)
next
  case (removed d)
  then have d: "d \<in> set (ds_docs s)" "do_user d = user" "do_session d = session"
    by (simp_all add: docs_of_mem)
  have "e = d" if "e \<in> set (ds_docs s)" "do_id e = do_id d" for e
    using that same_id [OF removed(2) d(1)] by blast
  then show ?case
    using d(2,3) removed(3) by (auto simp: docs_of_def intro!: filter_cong)
qed simp

lemma removed_sum: "\<forall>d \<in> set ds. 0 \<le> do_size d \<Longrightarrow> sum_list (map do_size (filter P ds)) \<le> sum_list (map do_size ds)"
  by (rule filter_sum_le)

lemma changed_limits:
  assumes "doc_change cfg user session s t" "documents_ok cfg s" "docs_of user session t \<noteq> []"
  shows "int (length (docs_of user session t)) \<le> dl_max_count cfg \<and> fits cfg user session 0 t"
  using assms
proof (induction rule: doc_change.induct)
  case same
  then obtain d where "d \<in> set (docs_of user session s)"
    by (cases "docs_of user session s") auto
  then show ?case
    using same(1) by (auto simp: documents_ok_def document_ok_def docs_of_mem)
next
  case (added d name)
  then show ?case
    by (simp add: docs_of_add fits_def)
next
  case (replaced d n content now)
  let ?r = "d\<lparr>do_content := content, do_size := n, do_version := do_version d + 1, do_updated := now\<rparr>"
  have d: "d \<in> set (ds_docs s)" "do_user d = user" "do_session d = session" and ids: "distinct (map do_id (ds_docs s))"
    using replaced(1,5) by (simp_all add: docs_of_mem documents_ok_def)
  have "document_ok cfg s d"
    using d(1) replaced(5) by (simp add: documents_ok_def)
  moreover have "docs_of user session (s\<lparr>ds_docs := map (\<lambda>e. if do_id e = do_id d then ?r else e) (ds_docs s)\<rparr>)
      = map (\<lambda>e. if do_id e = do_id d then ?r else e) (docs_of user session s)"
    using replaced_docs [OF ids d(1), of ?r user session] by (simp add: docs_of_def)
  moreover have "sum_list (map do_size (map (\<lambda>e. if do_id e = do_id d then ?r else e) (docs_of user session s)))
      = sum_list (map do_size (docs_of user session s)) - do_size d + n"
    using replaced_sum [OF _ replaced(1), of ?r] ids by (simp add: docs_of_def distinct_map_filter)
  ultimately show ?case
    using replaced(4) d(2,3) by (simp add: document_ok_def fits_def)
next
  case (removed d)
  have d: "d \<in> set (ds_docs s)" "do_user d = user" "do_session d = session"
    using removed(1) by (simp_all add: docs_of_mem)
  then have ok: "document_ok cfg s d"
    using removed(2) by (simp add: documents_ok_def)
  have sizes: "\<forall>e \<in> set (docs_of user session s). 0 \<le> do_size e"
    using removed(2) by (auto simp: documents_ok_def document_ok_def docs_of_mem)
  have "docs_of user session (s\<lparr>ds_docs := filter (\<lambda>e. do_id e \<noteq> do_id d) (ds_docs s)\<rparr>)
      = filter (\<lambda>e. do_id e \<noteq> do_id d) (docs_of user session s)"
    by (simp add: docs_of_def conj_ac)
  then show ?case
    using ok d(2,3) removed_sum [OF sizes, of "\<lambda>e. do_id e \<noteq> do_id d"] length_filter_le [of "\<lambda>e. do_id e \<noteq> do_id d" "docs_of user session s"]
    by (simp add: document_ok_def fits_def del: length_filter_le)
qed

lemma changed_row:
  assumes "doc_change cfg user session s t" "documents_ok cfg s" "e \<in> set (ds_docs t)"
  shows "do_media_type e \<in> set ALLOWED_MEDIA_TYPES \<and> filename_ok (do_filename e) \<and> 1 \<le> do_version e
    \<and> do_size e = int (length (utf8_encode (do_content e))) \<and> do_size e \<le> dl_max_bytes cfg"
  using assms
proof (induction rule: doc_change.induct)
  case (added d name)
  then show ?case
    using normalized_filename_ok by (auto simp: documents_ok_def document_ok_def)
next
  case (replaced d n content now)
  then have "document_ok cfg s d"
    by (simp add: documents_ok_def docs_of_mem)
  then show ?case
    using replaced by (auto simp: documents_ok_def document_ok_def)
qed (auto simp: documents_ok_def document_ok_def)

lemma changed_ids:
  assumes "doc_change cfg user session s t" "distinct (map do_id (ds_docs s))"
  shows "distinct (map do_id (ds_docs t))"
  using assms
proof (induction rule: doc_change.induct)
  case (replaced d n content now)
  have "map do_id (map (\<lambda>e. if do_id e = do_id d then d\<lparr>do_content := content, do_size := n, do_version := do_version d + 1, do_updated := now\<rparr> else e) ds)
      = map do_id ds" for ds
    by (induction ds) auto
  then show ?case
    using replaced by (simp del: map_map)
qed (auto intro: distinct_map_filter)

lemma changed_ok:
  assumes "doc_change cfg user session s t" "documents_ok cfg s"
  shows "documents_ok cfg t"
  unfolding documents_ok_def
proof (intro conjI ballI)
  show "distinct (map do_id (ds_docs t))"
    using changed_ids assms by (auto simp: documents_ok_def)
  fix d
  assume d: "d \<in> set (ds_docs t)"
  show "document_ok cfg t d"
  proof (cases "(do_user d, do_session d) = (user, session)")
    case True
    then have "docs_of user session t \<noteq> []"
      using d docs_of_mem [of d user session t] by auto
    then show ?thesis
      using changed_limits [OF assms] changed_row [OF assms d] True by (simp add: document_ok_def)
  next
    case False
    then have same: "docs_of (do_user d) (do_session d) t = docs_of (do_user d) (do_session d) s"
      using changed_docs [OF assms(1)] assms(2) by (auto simp: documents_ok_def)
    then have "d \<in> set (ds_docs s)"
      using d docs_of_mem [of d "do_user d" "do_session d" t] docs_of_mem [of d "do_user d" "do_session d" s] by simp
    then have "document_ok cfg s d"
      using assms(2) by (simp only: documents_ok_def)
    then show ?thesis
      by (rule document_ok_keep [OF _ same])
  qed
qed

lemma changed_versions:
  assumes "doc_change cfg user session s t" "documents_ok cfg s" "d \<in> set (ds_docs s)" "e \<in> set (ds_docs t)" "do_id e = do_id d"
  shows "later_version d e"
proof -
  have ids: "distinct (map do_id (ds_docs s))"
    using assms(2) by (simp add: documents_ok_def)
  show ?thesis
    using assms
  proof (induction rule: doc_change.induct)
    case (replaced a n content now)
    then have a: "a \<in> set (ds_docs s)"
      by (simp add: docs_of_mem)
    show ?case
    proof (cases "do_id a = do_id d")
      case True
      then have "a = d"
        using same_id [OF ids replaced.prems(2) a] by simp
      then have "e \<in> {d, d\<lparr>do_content := content, do_size := n, do_version := do_version d + 1, do_updated := now\<rparr>}"
        using replaced.prems(3,4) by (auto split: if_splits)
      then show ?thesis
        by (auto simp: later_version_def)
    next
      case False
      then have "e \<in> set (ds_docs s)"
        using replaced.prems(3,4) by (auto split: if_splits)
      then show ?thesis
        using same_id [OF ids replaced.prems(2) _ replaced.prems(4)] by (simp add: later_version_def)
    qed
  qed (auto simp: later_version_def dest: same_id [OF ids])
qed

section \<open>What the documents promise\<close>

text \<open>C35. Every operation on documents, of the API or of a tool, whatever its arguments, keeps the table well formed: identifiers are
  unique, types are those allowed, sizes are true, no document, chat or count is above its limit, and no stored name is empty, longer than
  200 characters or has a separator of paths in it. A document that is there before and after is of the same chat and name, and its version
  tells whether it changed: it is the same row, or the next version.\<close>

theorem documents_kept:
  assumes "doc_step cfg user session s t" and "documents_ok cfg s"
  shows "documents_ok cfg t \<and> (\<forall>d \<in> set (ds_docs s). \<forall>e \<in> set (ds_docs t). do_id e = do_id d \<longrightarrow> later_version d e)"
  using changed_ok [OF step_change [OF assms(1)] assms(2)] changed_versions [OF step_change [OF assms(1)] assms(2)] by blast

lemma foreign_row: "document \<notin> do_id ` set (docs_of user session s) \<Longrightarrow>
    document_row user session document s = (Inl (Raised DocumentNotFoundError ''document not found''), s)"
  by (cases rule: document_row_cases [of user session document s]) auto

text \<open>C36. A chat's documents are its own: an operation of one user on one chat leaves the documents of every other chat and user as they
  are, and a document of another chat or user cannot be told from one that does not exist, whatever is tried on it.\<close>

theorem documents_confined:
  assumes "doc_step cfg user session s t" and "documents_ok cfg s" and "document \<notin> do_id ` set (docs_of user session s)"
  shows "(\<forall>u i. (u, i) \<noteq> (user, session) \<longrightarrow> docs_of u i t = docs_of u i s)
    \<and> get_document user session document s = (Inl (Raised DocumentNotFoundError ''document not found''), s)
    \<and> download_document user session document s = (Inl (Raised DocumentNotFoundError ''document not found''), s)
    \<and> update_document cfg now user session document content s = (Inl (Raised DocumentNotFoundError ''document not found''), s)
    \<and> delete_document user session document s = (Inl (Raised DocumentNotFoundError ''document not found''), s)"
  using changed_docs [OF step_change [OF assms(1)]] assms(2) foreign_row [OF assms(3)]
  by (auto simp: documents_ok_def get_document_def download_document_def update_document_def delete_document_def)

text \<open>A finding. An update without its content is accepted and erases the document: the tool answers with the next version, and the
  stored text is empty. The arguments are documented to become an error of the tool when one is left out.\<close>

theorem update_without_content_erases:
  assumes "documents_ok cfg s" and "d \<in> set (ds_docs s)" and "uuid_parse (py_str (jget ''documentId'' args)) = Some (do_id d)"
    and "jget ''content'' args = JNull"
  shows "\<exists>t. execute_document cfg new_id now ''document.update'' args (Some (do_user d)) (Some (do_session d)) s =
      (Inr (tool_ok [(''documentId'', JStr (uuid_str (do_id d))), (''filename'', JStr (do_filename d)), (''mediaType'', JStr (do_media_type d)),
         (''size'', JInt 0), (''version'', JInt (do_version d + 1))]), t)
    \<and> (\<exists>e \<in> set (ds_docs t). do_id e = do_id d \<and> do_content e = [])"
proof -
  have mem: "d \<in> set (docs_of (do_user d) (do_session d) s)"
    using assms(2) by (simp add: docs_of_mem)
  have row: "document_row (do_user d) (do_session d) (do_id d) s = (Inr d, s)"
  proof (cases rule: document_row_cases [of "do_user d" "do_session d" "do_id d" s])
    case (1 e)
    then show ?thesis
      using same_id [of "ds_docs s" d e] assms(1,2) by (simp add: documents_ok_def docs_of_mem)
  next
    case 2
    then show ?thesis
      using mem by auto
  qed
  have ok: "document_ok cfg s d"
    using assms(1,2) by (simp only: documents_ok_def)
  then have room: "0 \<le> dl_max_bytes cfg"
    by (simp add: document_ok_def)
  have "check_session_budget cfg (do_user d) (do_session d) 0 (Some (do_size d)) s = (Inr (), s)"
    using ok by (auto simp: check_session_budget_def document_ok_def fits_def Let_def)
  then have "execute_document cfg new_id now ''document.update'' args (Some (do_user d)) (Some (do_session d)) s =
      (Inr (tool_ok (doc_brief (document_view False (d\<lparr>do_content := [], do_size := 0, do_version := do_version d + 1, do_updated := now\<rparr>)))),
       s\<lparr>ds_docs := map (\<lambda>e. if do_id e = do_id d then d\<lparr>do_content := [], do_size := 0, do_version := do_version d + 1, do_updated := now\<rparr> else e) (ds_docs s)\<rparr>)"
    using assms(3,4) row room by (simp add: execute_document_def document_tool_def update_document_def check_single_size_def utf8_encode_def Let_def)
  moreover have "\<exists>e \<in> set (map (\<lambda>e. if do_id e = do_id d then d\<lparr>do_content := [], do_size := 0, do_version := do_version d + 1, do_updated := now\<rparr> else e) (ds_docs s)).
      do_id e = do_id d \<and> do_content e = []"
    unfolding set_map by (rule bexI [OF _ imageI [OF assms(2)]]) simp
  ultimately show ?thesis
    by (simp add: doc_brief_def document_view_def)
qed

text \<open>A name takes a line break into the header of the download, and a name of 200 letters loses the extension of its type.\<close>

lemma name_breaks_header:
  "normalize_filename (''a'' @ [CHR 0x0D, CHR 0x0A] @ ''X: b.md'') ''text/markdown'' = ''a'' @ [CHR 0x0D, CHR 0x0A] @ ''X: b.md''"
  "take 26 (content_disposition (''a'' @ [CHR 0x0D, CHR 0x0A] @ ''X: b.md'')) = ''attachment; filename='' @ [CHR 0x22] @ ''a'' @ [CHR 0x0D, CHR 0x0A] @ ''X''"
  by code_simp+

lemma long_name_loses_extension:
  "normalize_filename (replicate 200 (CHR ''a'')) ''text/markdown'' = replicate 200 (CHR ''a'')"
  by code_simp

section \<open>Two documents\<close>

definition demo_document :: "uuid \<Rightarrow> uuid \<Rightarrow> uuid \<Rightarrow> chat_document" where
  "demo_document i user session = \<lparr>do_id = i, do_user = user, do_session = session, do_filename = ''a.md'', do_media_type = ''text/markdown'',
     do_content = ''old'', do_size = 3, do_version = 1, do_created_by = ''user'', do_created = 0, do_updated = 0\<rparr>"

definition demo_documents :: doc_state where
  "demo_documents = \<lparr>ds_db = empty_db\<lparr>users := [1 \<mapsto> False, 2 \<mapsto> False], chat_sessions := [9 \<mapsto> 1, 8 \<mapsto> 2]\<rparr>,
     ds_docs = [demo_document 5 1 9, demo_document 6 2 8]\<rparr>"

definition demo_doc_limits :: document_settings where
  "demo_doc_limits = \<lparr>dl_max_bytes = 10, dl_max_count = 2, dl_total_bytes = 12, dl_context_max_chars = 50\<rparr>"

lemma demo_documents_ok: "documents_ok demo_doc_limits demo_documents"
  by code_simp

definition demo_updated :: doc_state where
  "demo_updated = demo_documents\<lparr>ds_docs := [(demo_document 5 1 9)\<lparr>do_content := ''new text'', do_size := 8, do_version := 2, do_updated := 7\<rparr>,
     demo_document 6 2 8]\<rparr>"

lemma demo_update: "\<exists>r. update_document demo_doc_limits 7 1 9 5 ''new text'' demo_documents = (r, demo_updated)"
proof -
  have "int (length (utf8_encode ''new text'')) = 8"
    by code_simp
  then show ?thesis
    by (simp add: update_document_def document_row_def checks_simps check_session_budget_def docs_of_def demo_documents_def demo_document_def
        demo_doc_limits_def demo_updated_def Let_def)
qed

theorem documents_kept_witness: "documents_ok demo_doc_limits demo_updated
    \<and> later_version (demo_document 5 1 9) ((demo_document 5 1 9)\<lparr>do_content := ''new text'', do_size := 8, do_version := 2, do_updated := 7\<rparr>)"
proof -
  obtain r where "update_document demo_doc_limits 7 1 9 5 ''new text'' demo_documents = (r, demo_updated)"
    using demo_update by blast
  then show ?thesis
    using documents_kept [OF doc_step.updated demo_documents_ok, of 7 1 9 5 "''new text''" r demo_updated]
    by (auto simp: demo_updated_def demo_documents_def demo_document_def)
qed

theorem documents_confined_witness:
  "docs_of 2 8 demo_updated = [demo_document 6 2 8]
   \<and> get_document 1 9 6 demo_documents = (Inl (Raised DocumentNotFoundError ''document not found''), demo_documents)"
proof -
  obtain r where update: "update_document demo_doc_limits 7 1 9 5 ''new text'' demo_documents = (r, demo_updated)"
    using demo_update by blast
  have foreign: "6 \<notin> do_id ` set (docs_of 1 9 demo_documents)"
    by (simp add: docs_of_def demo_documents_def demo_document_def)
  have "docs_of 2 8 demo_documents = [demo_document 6 2 8]"
    by (simp add: docs_of_def demo_documents_def demo_document_def)
  then show ?thesis
    using documents_confined [OF doc_step.updated [OF update] demo_documents_ok foreign, of 0 "[]"] by simp
qed

theorem update_without_content_erases_witness:
  "\<exists>t. execute_document demo_doc_limits 0 7 ''document.update'' [(''documentId'', JStr (uuid_str 5))] (Some 1) (Some 9) demo_documents =
      (Inr (tool_ok [(''documentId'', JStr (uuid_str 5)), (''filename'', JStr ''a.md''), (''mediaType'', JStr ''text/markdown''),
         (''size'', JInt 0), (''version'', JInt 2)]), t)
    \<and> (\<exists>e \<in> set (ds_docs t). do_id e = 5 \<and> do_content e = [])"
  using update_without_content_erases [OF demo_documents_ok, of "demo_document 5 1 9" "[(''documentId'', JStr (uuid_str 5))]" 0 7]
  by (simp add: demo_documents_def demo_document_def uuid_parse_str)

end
