(* ===== verification/Attachments.thy ===== *)
theory Attachments
  imports PyBase64 PyJson Errors
begin

text \<open>
  \<open>chat/attachments.py\<close>: the checks an inline attachment passes before a turn, the neutral parts made of it and their rendering for a
  provider; and the replacement of voice messages by their text in \<open>chat/orchestrator.py\<close>. What Pillow and pypdf say of a file, the JSON
  parser and the transcription service are arguments, as is the suffix of a placeholder, which is not Latin-1. Text decoded from a file is a
  list of code points.
\<close>

section \<open>Requests, settings, results\<close>

record attachment_in =
  ai_type :: string
  ai_media_type :: string
  ai_filename :: "string option"
  ai_data :: string

datatype image_probe = Image_size int int bool | Image_bomb | Image_broken

datatype pdf_probe = Pdf_pages int | Pdf_encrypted | Pdf_broken

record attachment_env =
  ae_max_count :: int
  ae_max_image :: int
  ae_max_document :: int
  ae_max_audio :: int
  ae_total :: int
  ae_max_pixels :: int
  ae_max_pages :: int
  ae_image :: "nat list \<Rightarrow> image_probe"
  ae_pdf :: "nat list \<Rightarrow> pdf_probe"
  ae_json_ok :: "nat list \<Rightarrow> bool"
  ae_suffix :: string
  ae_wide :: "nat list \<Rightarrow> json"

record AttachmentPart =
  ap_kind :: string
  ap_media_type :: string
  ap_filename :: string
  ap_data :: "string option"
  ap_text :: "nat list option"

record ImageAttachmentRef =
  ir_media_type :: string
  ir_filename :: string
  ir_data :: string

record PreparedAttachments =
  pa_parts :: "AttachmentPart list"
  pa_placeholders :: "json list"
  pa_images :: "ImageAttachmentRef list"

definition IMAGE_TYPES :: "string list" where
  "IMAGE_TYPES = [''image/jpeg'', ''image/png'', ''image/gif'', ''image/webp'']"

definition ATTACHMENT_ALLOWLIST :: "(string \<times> string list) list" where
  "ATTACHMENT_ALLOWLIST =
     [(''image'', IMAGE_TYPES), (''document'', [''application/pdf'']),
      (''text'', [''text/plain'', ''text/markdown'', ''text/csv'', ''application/json'']),
      (''audio'', [''audio/mp4'', ''audio/m4a'', ''audio/mpeg'', ''audio/wav'', ''audio/webm'', ''audio/ogg''])]"

definition MAGIC_PREFIXES :: "(string \<times> nat list list) list" where
  "MAGIC_PREFIXES =
     [(''image/jpeg'', [[255, 216, 255]]), (''image/png'', [[137, 80, 78, 71, 13, 10, 26, 10]]),
      (''image/gif'', [[71, 73, 70, 56, 55, 97], [71, 73, 70, 56, 57, 97]]), (''application/pdf'', [[37, 80, 68, 70, 45]])]"

section \<open>Checks\<close>

definition max_bytes_for :: "attachment_env \<Rightarrow> string \<Rightarrow> int" where
  "max_bytes_for env kind =
     (if kind = ''document'' then ae_max_document env else if kind = ''audio'' then ae_max_audio env else ae_max_image env)"

definition decoded_len_from_base64 :: "string \<Rightarrow> int" where
  "decoded_len_from_base64 data =
     (let stripped = py_strip data; n = length stripped in
      if n = 0 then 0
      else int (n div 4 * 3) - int (length (filter (\<lambda>c. c = CHR ''='') (drop (n - 2) stripped))))"

definition decode_base64 :: "string \<Rightarrow> nat list option" where
  "decode_base64 data = (if \<forall>c \<in> set data. of_char c < (128 :: nat) then b64decode_strict data else None)"

definition check_magic_bytes :: "string \<Rightarrow> nat list \<Rightarrow> exn + unit" where
  "check_magic_bytes media_type decoded =
     (let mismatch = Inl (Raised AttachmentMediaTypeMismatchError ''attachment content does not match declared mediaType'') in
      if media_type = ''image/webp''
      then (if take 4 decoded = [82, 73, 70, 70] \<and> take 4 (drop 8 decoded) = [87, 69, 66, 80] then Inr () else mismatch)
      else case map_of MAGIC_PREFIXES media_type of
        None \<Rightarrow> Inr ()
      | Some prefixes \<Rightarrow> if list_ex (\<lambda>p. take (length p) decoded = p) prefixes then Inr () else mismatch)"

definition check_image_decodes :: "attachment_env \<Rightarrow> nat list \<Rightarrow> exn + unit" where
  "check_image_decodes env decoded =
     (let big = Inl (Raised AttachmentTooLargeError ''image exceeds the maximum number of pixels'') in
      case ae_image env decoded of
        Image_size w h verifies \<Rightarrow>
          if ae_max_pixels env < w * h then big
          else if verifies then Inr ()
          else Inl (Raised AttachmentMediaTypeMismatchError ''image could not be decoded'')
      | Image_bomb \<Rightarrow> big
      | Image_broken \<Rightarrow> Inl (Raised AttachmentMediaTypeMismatchError ''image could not be decoded''))"

definition decode_text :: "attachment_env \<Rightarrow> string \<Rightarrow> nat list \<Rightarrow> exn + nat list" where
  "decode_text env media_type decoded =
     (case utf8_decode decoded of
        None \<Rightarrow> Inl (Raised AttachmentMediaTypeMismatchError ''text attachment is not valid UTF-8'')
      | Some t \<Rightarrow>
          if media_type = ''application/json'' \<and> \<not> ae_json_ok env t
          then Inl (Raised AttachmentMediaTypeMismatchError ''attachment content does not match declared mediaType'')
          else Inr t)"

definition check_pdf_pages :: "attachment_env \<Rightarrow> nat list \<Rightarrow> exn + unit" where
  "check_pdf_pages env decoded =
     (case ae_pdf env decoded of
        Pdf_pages n \<Rightarrow> if ae_max_pages env < n then Inl (Raised PdfTooManyPagesError ''PDF exceeds the maximum allowed number of pages'') else Inr ()
      | Pdf_encrypted \<Rightarrow> Inl (Raised PdfUnreadableError ''password-protected PDF is not accepted'')
      | Pdf_broken \<Rightarrow> Inl (Raised PdfUnreadableError ''PDF could not be parsed''))"

section \<open>Parts\<close>

text \<open>\<open>x or d\<close> on a name that may be missing.\<close>

definition name_or :: "string option \<Rightarrow> string \<Rightarrow> string" where
  "name_or n d = (case n of None \<Rightarrow> d | Some x \<Rightarrow> if x = [] then d else x)"

definition attachment_placeholder :: "attachment_env \<Rightarrow> attachment_in \<Rightarrow> nat \<Rightarrow> json" where
  "attachment_placeholder env a decoded_size =
     JObj [(''type'', JStr ''text''),
       (''text'', JStr (''[attachment: '' @ ai_media_type a @ '' '' @ [CHR 0x22] @ name_or (ai_filename a) ''file'' @ [CHR 0x22] @ '', ''
         @ int_str (int decoded_size) @ ''B '' @ ae_suffix env))]"

definition text_part_text :: "attachment_in \<Rightarrow> nat list option \<Rightarrow> nat list" where
  "text_part_text a t =
     map of_char (name_or (ai_filename a) ''file'' @ [CHR 0x0A] @ ''```'' @ [CHR 0x0A]) @ (case t of None \<Rightarrow> [] | Some body \<Rightarrow> body)
       @ map of_char ([CHR 0x0A] @ ''```'')"

definition part_for :: "attachment_in \<Rightarrow> nat list option \<Rightarrow> AttachmentPart" where
  "part_for a t =
     (if ai_type a = ''image'' \<or> ai_type a = ''document''
      then \<lparr>ap_kind = ai_type a, ap_media_type = ai_media_type a, ap_filename = name_or (ai_filename a) ''file'', ap_data = Some (ai_data a), ap_text = None\<rparr>
      else \<lparr>ap_kind = ''text'', ap_media_type = ai_media_type a, ap_filename = name_or (ai_filename a) ''file'', ap_data = None,
        ap_text = Some (text_part_text a t)\<rparr>)"

text \<open>The type-specific checks, and the text of a text attachment.\<close>

definition checked_text :: "attachment_env \<Rightarrow> attachment_in \<Rightarrow> nat list \<Rightarrow> exn + nat list option" where
  "checked_text env a decoded =
     (if ai_type a = ''audio'' then Inl (Raised UnsupportedMediaTypeError ''audio must be transcribed before block assembly'')
      else if ai_type a = ''image''
      then (case check_magic_bytes (ai_media_type a) decoded of
          Inl e \<Rightarrow> Inl e
        | Inr _ \<Rightarrow> map_sum id (\<lambda>_. None) (check_image_decodes env decoded))
      else if ai_type a = ''document''
      then (case check_magic_bytes (ai_media_type a) decoded of
          Inl e \<Rightarrow> Inl e
        | Inr _ \<Rightarrow> map_sum id (\<lambda>_. None) (check_pdf_pages env decoded))
      else map_sum id Some (decode_text env (ai_media_type a) decoded))"

text \<open>The loop; the number is what the attachments before hold.\<close>

fun prepare_from :: "attachment_env \<Rightarrow> int \<Rightarrow> attachment_in list \<Rightarrow> exn + PreparedAttachments" where
  "prepare_from env held [] = Inr \<lparr>pa_parts = [], pa_placeholders = [], pa_images = []\<rparr>"
| "prepare_from env held (a # as) =
     (if ai_media_type a \<notin> set (case map_of ATTACHMENT_ALLOWLIST (ai_type a) of None \<Rightarrow> [] | Some types \<Rightarrow> types)
      then Inl (Raised UnsupportedMediaTypeError (''unsupported_media_type: '' @ ai_media_type a))
      else let approx = decoded_len_from_base64 (ai_data a) in
        if max_bytes_for env (ai_type a) < approx then Inl (Raised AttachmentTooLargeError ''attachment exceeds the maximum size'')
        else if ae_total env < held + approx then Inl (Raised AttachmentsTotalTooLargeError ''attachments exceed the total size limit'')
        else case decode_base64 (ai_data a) of
          None \<Rightarrow> Inl (Raised InvalidBase64Error ''attachment data is not valid base64'')
        | Some decoded \<Rightarrow>
            (case checked_text env a decoded of
               Inl e \<Rightarrow> Inl e
             | Inr t \<Rightarrow>
                 map_sum id (\<lambda>p. \<lparr>pa_parts = part_for a t # pa_parts p, pa_placeholders = attachment_placeholder env a (length decoded) # pa_placeholders p,
                     pa_images = (if ai_type a = ''image''
                       then [\<lparr>ir_media_type = ai_media_type a, ir_filename = name_or (ai_filename a) ''image.jpg'', ir_data = ai_data a\<rparr>] else []) @ pa_images p\<rparr>)
                   (prepare_from env (held + approx) as)))"

definition prepare_attachments :: "attachment_env \<Rightarrow> attachment_in list \<Rightarrow> exn + PreparedAttachments" where
  "prepare_attachments env atts =
     (if ae_max_count env < int (length atts) then Inl (Raised TooManyAttachmentsError ''too many attachments'') else prepare_from env 0 atts)"

section \<open>Rendering\<close>

definition text_json :: "attachment_env \<Rightarrow> nat list \<Rightarrow> json" where
  "text_json env t = (if list_ex (\<lambda>p. 256 \<le> p) t then ae_wide env t else JStr (map char_of t))"

definition unrenderable :: "exn" where
  "unrenderable = PyFault ''UnrenderableAttachmentError''"

definition required_data :: "AttachmentPart \<Rightarrow> exn + string" where
  "required_data p = (case ap_data p of None \<Rightarrow> Inl unrenderable | Some d \<Rightarrow> if d = [] then Inl unrenderable else Inr d)"

definition text_part_block :: "attachment_env \<Rightarrow> AttachmentPart \<Rightarrow> exn + json" where
  "text_part_block env p =
     (case ap_text p of None \<Rightarrow> Inl unrenderable | Some t \<Rightarrow> Inr (JObj [(''type'', JStr ''text''), (''text'', text_json env t)]))"

definition anthropic_block :: "attachment_env \<Rightarrow> AttachmentPart \<Rightarrow> exn + json" where
  "anthropic_block env p =
     (if ap_kind p = ''image'' \<or> ap_kind p = ''document''
      then map_sum id (\<lambda>d. JObj [(''type'', JStr (ap_kind p)),
          (''source'', JObj [(''type'', JStr ''base64''), (''media_type'', JStr (ap_media_type p)), (''data'', JStr d)])]) (required_data p)
      else if ap_kind p = ''text'' then text_part_block env p
      else Inl unrenderable)"

definition openai_block :: "attachment_env \<Rightarrow> AttachmentPart \<Rightarrow> exn + json" where
  "openai_block env p =
     (let uri = (\<lambda>d. JStr (''data:'' @ ap_media_type p @ '';base64,'' @ d)) in
      if ap_kind p = ''image''
      then map_sum id (\<lambda>d. JObj [(''type'', JStr ''image_url''), (''image_url'', JObj [(''url'', uri d)])]) (required_data p)
      else if ap_kind p = ''document''
      then map_sum id (\<lambda>d. JObj [(''type'', JStr ''file''), (''file'', JObj [(''filename'', JStr (ap_filename p)), (''file_data'', uri d)])]) (required_data p)
      else if ap_kind p = ''text'' then text_part_block env p
      else Inl unrenderable)"

fun each_block :: "('a \<Rightarrow> 'e + 'b) \<Rightarrow> 'a list \<Rightarrow> 'e + 'b list" where
  "each_block f [] = Inr []"
| "each_block f (x # xs) = (case f x of Inl e \<Rightarrow> Inl e | Inr b \<Rightarrow> map_sum id (Cons b) (each_block f xs))"

definition render_attachment_blocks :: "attachment_env \<Rightarrow> AttachmentPart list \<Rightarrow> string \<Rightarrow> exn + json list" where
  "render_attachment_blocks env parts provider =
     (if provider = ''anthropic'' then each_block (anthropic_block env) parts
      else if provider = ''openai'' then each_block (openai_block env) parts
      else Inl unrenderable)"

text \<open>Files of a workspace come before those of the request.\<close>

definition merge_attachments :: "PreparedAttachments option \<Rightarrow> PreparedAttachments option \<Rightarrow> PreparedAttachments option" where
  "merge_attachments chat workspace =
     (if chat = None \<and> workspace = None then None
      else Some \<lparr>pa_parts = (case workspace of None \<Rightarrow> [] | Some w \<Rightarrow> pa_parts w) @ (case chat of None \<Rightarrow> [] | Some c \<Rightarrow> pa_parts c),
        pa_placeholders = (case chat of None \<Rightarrow> [] | Some c \<Rightarrow> pa_placeholders c), pa_images = (case chat of None \<Rightarrow> [] | Some c \<Rightarrow> pa_images c)\<rparr>)"

section \<open>Voice messages\<close>

definition py_isalpha :: "char \<Rightarrow> bool" where
  "py_isalpha c = (let n = of_char c :: nat in
     (65 \<le> n \<and> n \<le> 90) \<or> (97 \<le> n \<and> n \<le> 122) \<or> n \<in> {170, 181, 186} \<or> (192 \<le> n \<and> n \<noteq> 215 \<and> n \<noteq> 247))"

definition language_of :: "string option \<Rightarrow> string option" where
  "language_of loc =
     (let code = py_lower (py_strip (takeWhile (\<lambda>c. c \<noteq> CHR ''_'') (takeWhile (\<lambda>c. c \<noteq> CHR ''-'') (case loc of None \<Rightarrow> [] | Some l \<Rightarrow> l)))) in
      if length code = 2 \<and> list_all py_isalpha code then Some code else None)"

type_synonym transcriber = "nat list \<Rightarrow> string \<Rightarrow> string option \<Rightarrow> exn + string"

text \<open>The recognized texts that are not empty. A message that is not Base64 raises \<open>binascii.Error\<close>, which nothing catches.\<close>

fun transcripts :: "transcriber \<Rightarrow> string option \<Rightarrow> attachment_in list \<Rightarrow> exn + string list" where
  "transcripts transcribe language [] = Inr []"
| "transcripts transcribe language (a # as) =
     (case decode_base64 (ai_data a) of
        None \<Rightarrow> Inl (PyFault ''binascii.Error'')
      | Some audio \<Rightarrow>
          (case transcribe audio (ai_media_type a) language of
             Inl e \<Rightarrow> Inl e
           | Inr t \<Rightarrow> map_sum id (\<lambda>ts. if t \<noteq> [] then t # ts else ts) (transcripts transcribe language as)))"

fun join_lines :: "string list \<Rightarrow> string" where
  "join_lines [] = []"
| "join_lines [w] = w"
| "join_lines (w # v # ws) = w @ CHR 0x0A # join_lines (v # ws)"

text \<open>The message, the attachments left (\<open>[]\<close> is \<open>None\<close>) and the transcript.\<close>

definition transcribe_voice ::
  "bool \<Rightarrow> transcriber \<Rightarrow> string \<Rightarrow> attachment_in list \<Rightarrow> string option \<Rightarrow> exn + string \<times> attachment_in list \<times> string option" where
  "transcribe_voice voice_input_enabled transcribe message atts loc =
     (let voice = filter (\<lambda>a. ai_type a = ''audio'') atts; rest = filter (\<lambda>a. ai_type a \<noteq> ''audio'') atts in
      if voice = [] then Inr (message, atts, None)
      else if \<not> voice_input_enabled then Inl (Raised ValidationFailedError ''voice input is not enabled on this instance'')
      else case transcripts transcribe (language_of loc) voice of
        Inl e \<Rightarrow> Inl e
      | Inr parts \<Rightarrow>
          (let transcript = join_lines parts in
           if transcript = [] \<and> py_strip message = [] \<and> rest = []
           then Inl (Raised ValidationFailedError ''voice message contains no recognizable speech'')
           else Inr (if py_strip message \<noteq> [] then py_strip (message @ CHR 0x0A # transcript) else transcript, rest,
             if transcript = [] then None else Some transcript)))"

text \<open>The attachments of a run: the voice messages first, the others through \<open>prepare_attachments\<close>.\<close>

definition run_attachments ::
  "attachment_env \<Rightarrow> bool \<Rightarrow> transcriber \<Rightarrow> string \<Rightarrow> attachment_in list \<Rightarrow> string option \<Rightarrow> exn + string \<times> PreparedAttachments option" where
  "run_attachments env voice_input_enabled transcribe message atts loc =
     (case transcribe_voice voice_input_enabled transcribe message atts loc of
        Inl e \<Rightarrow> Inl e
      | Inr (text', rest, transcript) \<Rightarrow>
          if rest = [] then Inr (text', None) else map_sum id (\<lambda>p. (text', Some p)) (prepare_attachments env rest))"

end
