(* ===== verification/Attachments_Kept.thy ===== *)
theory Attachments_Kept
  imports Attachments
begin

text \<open>
  What the checks of attachments give a turn: bounds on what was decoded, parts every provider can be shown, placeholders without data; and
  two things voice messages escape.
\<close>

section \<open>The length before decoding\<close>

lemma b64_groups_chars: "b64_groups s = Some bs \<Longrightarrow> c \<in> set s \<Longrightarrow> c = CHR ''='' \<or> std_value c \<noteq> None"
proof (induction s arbitrary: bs rule: b64_groups.induct)
  case (2 a b c' d r)
  then show ?case
    by (cases "padding (a # b # c' # d # r)") (auto simp: padding_def list_all_iff split: option.splits if_splits)
qed (auto simp: padding_def list_all_iff split: if_splits)

lemma std_value_space: "std_value c \<noteq> None \<Longrightarrow> \<not> py_isspace c"
  by (auto simp: std_value_def py_isspace_def Let_def split: if_splits)

lemma decoded_strip: "decode_base64 data = Some bs \<Longrightarrow> py_strip data = data"
proof -
  assume "decode_base64 data = Some bs"
  then have "b64_groups data = Some bs"
    by (auto simp: decode_base64_def b64decode_strict_def split: if_splits)
  moreover have "\<not> py_isspace (CHR ''='')"
    by (simp add: py_isspace_def)
  ultimately have "\<not> py_isspace c" if "c \<in> set data" for c
    using b64_groups_chars that std_value_space by metis
  then show ?thesis
    unfolding py_strip_def by (rule strip_by_idle)
qed

lemma decoded_length:
  assumes "decode_base64 data = Some bs"
  shows "int (length bs) \<le> decoded_len_from_base64 data + 2"
proof -
  have "data = [] \<and> bs = [] \<or> holds data bs"
    using assms b64decode_strict_shape by (auto simp: decode_base64_def split: if_splits)
  then show ?thesis
  proof
    assume "holds data bs"
    then obtain body k where data: "data = body @ replicate k (CHR ''='')" "body \<noteq> []" "4 dvd length body" "k = 0 \<or> CHR ''='' \<notin> set body"
      "CHR ''='' \<notin> set (take (length body - 2) body)" "length bs + length (filter (\<lambda>c. c = CHR ''='') body) = length body div 4 * 3"
      by (auto simp: holds_def)
    let ?eq = "\<lambda>c. c = CHR ''=''"
    let ?tail = "filter ?eq (drop (length data - 2) data)"
    have nonempty: "data \<noteq> []"
      using data(1,2) by simp
    have approx: "decoded_len_from_base64 data = int (length data div 4 * 3) - int (length ?tail)"
      using nonempty by (simp add: decoded_len_from_base64_def decoded_strip [OF assms] Let_def)
    show ?thesis
    proof (cases "k = 0")
      case True
      have "filter ?eq body = filter ?eq (take (length body - 2) body) @ filter ?eq (drop (length body - 2) body)"
        by (simp flip: filter_append)
      also have "filter ?eq (take (length body - 2) body) = []"
        using data(5) by (auto simp: filter_empty_conv)
      finally have "length bs + length ?tail = length data div 4 * 3"
        using data(1,6) True by simp
      then show ?thesis
        unfolding approx by linarith
    next
      case False
      have "filter ?eq body = []"
        using data(4) False by (auto simp: filter_empty_conv)
      then have "length bs = length body div 4 * 3"
        using data(6) by simp
      also have "\<dots> \<le> length data div 4 * 3"
        using data(1) by (simp add: div_le_mono)
      finally have "length bs \<le> length data div 4 * 3" .
      moreover have "length ?tail \<le> 2"
        by (rule order_trans [OF length_filter_le]) simp
      ultimately show ?thesis
        unfolding approx by linarith
    qed
  qed (simp add: decoded_len_from_base64_def py_strip_def strip_by_def)
qed

section \<open>Accepted attachments\<close>

definition accepted :: "attachment_env \<Rightarrow> attachment_in \<Rightarrow> nat list \<Rightarrow> bool" where
  "accepted env a bs \<longleftrightarrow> decode_base64 (ai_data a) = Some bs \<and> int (length bs) \<le> max_bytes_for env (ai_type a) + 2
     \<and> (\<exists>types. map_of ATTACHMENT_ALLOWLIST (ai_type a) = Some types \<and> ai_media_type a \<in> set types) \<and> ai_type a \<noteq> ''audio''
     \<and> (ai_type a \<in> {''image'', ''document''} \<longrightarrow> check_magic_bytes (ai_media_type a) bs = Inr ())
     \<and> (ai_type a = ''text'' \<longrightarrow> utf8_decode bs \<noteq> None)"

definition renderable :: "AttachmentPart \<Rightarrow> bool" where
  "renderable p \<longleftrightarrow> (ap_kind p \<in> {''image'', ''document''} \<and> (\<exists>d. ap_data p = Some d \<and> d \<noteq> [])) \<or> (ap_kind p = ''text'' \<and> ap_text p \<noteq> None)"

lemma magic_of_nothing: "m \<in> set IMAGE_TYPES \<or> m = ''application/pdf'' \<Longrightarrow> check_magic_bytes m [] \<noteq> Inr ()"
  by (auto simp: check_magic_bytes_def IMAGE_TYPES_def MAGIC_PREFIXES_def Let_def)

lemma checked_accepted:
  assumes "ai_media_type a \<in> set (case map_of ATTACHMENT_ALLOWLIST (ai_type a) of None \<Rightarrow> [] | Some types \<Rightarrow> types)"
    and "decoded_len_from_base64 (ai_data a) \<le> max_bytes_for env (ai_type a)"
    and "decode_base64 (ai_data a) = Some bs" and "checked_text env a bs = Inr t"
  shows "accepted env a bs \<and> renderable (part_for a t)"
proof -
  obtain types where types: "map_of ATTACHMENT_ALLOWLIST (ai_type a) = Some types" "ai_media_type a \<in> set types"
    using assms(1) by (cases "map_of ATTACHMENT_ALLOWLIST (ai_type a)") auto
  have kinds: "ai_type a \<in> {''image'', ''document'', ''text'', ''audio''}"
    using types(1) by (auto simp: ATTACHMENT_ALLOWLIST_def split: if_splits)
  have audio: "ai_type a \<noteq> ''audio''"
    using assms(4) by (auto simp: checked_text_def)
  have magic: "check_magic_bytes (ai_media_type a) bs = Inr ()" if "ai_type a \<in> {''image'', ''document''}"
    using assms(4) that by (auto simp: checked_text_def split: sum.splits)
  have text_ok: "utf8_decode bs \<noteq> None" if "ai_type a = ''text''"
    using assms(4) that by (auto simp: checked_text_def decode_text_def split: option.splits)
  have "ai_data a \<noteq> []" if "ai_type a \<in> {''image'', ''document''}"
  proof
    assume "ai_data a = []"
    then have "bs = []"
      using assms(3) by (simp add: decode_base64_def b64decode_strict_def)
    moreover have "ai_media_type a \<in> set IMAGE_TYPES \<or> ai_media_type a = ''application/pdf''"
      using types that by (auto simp: ATTACHMENT_ALLOWLIST_def split: if_splits)
    ultimately show False
      using magic [OF that] magic_of_nothing by blast
  qed
  then have "renderable (part_for a t)"
    using kinds audio by (auto simp: renderable_def part_for_def)
  moreover have "accepted env a bs"
    unfolding accepted_def using decoded_length [OF assms(3)] assms(2,3) types audio magic text_ok by auto
  ultimately show ?thesis
    by blast
qed

lemma prepare_from_accepted:
  "prepare_from env held atts = Inr p \<Longrightarrow> \<exists>files. list_all2 (accepted env) atts files
     \<and> held + sum_list (map (\<lambda>bs. int (length bs)) files) \<le> max held (ae_total env) + 2 * int (length atts)
     \<and> pa_placeholders p = map (\<lambda>(a, bs). attachment_placeholder env a (length bs)) (zip atts files)
     \<and> list_all renderable (pa_parts p) \<and> length (pa_parts p) = length atts"
proof (induction env held atts arbitrary: p rule: prepare_from.induct)
  case (1 env held)
  then have "p = \<lparr>pa_parts = [], pa_placeholders = [], pa_images = []\<rparr>"
    by simp
  then show ?case
    by (intro exI [of _ "[]"]) simp
next
  case (2 env held a as)
  let ?approx = "decoded_len_from_base64 (ai_data a)"
  have types: "ai_media_type a \<in> set (case map_of ATTACHMENT_ALLOWLIST (ai_type a) of None \<Rightarrow> [] | Some types \<Rightarrow> types)"
    and sizes: "?approx \<le> max_bytes_for env (ai_type a)" "held + ?approx \<le> ae_total env"
    using 2(2) by (auto simp: Let_def split: if_splits)
  obtain bs t q where bs: "decode_base64 (ai_data a) = Some bs" "checked_text env a bs = Inr t" "prepare_from env (held + ?approx) as = Inr q"
    and p: "pa_parts p = part_for a t # pa_parts q" "pa_placeholders p = attachment_placeholder env a (length bs) # pa_placeholders q"
    using 2(2) types sizes by (cases "prepare_from env (held + ?approx) as") (auto simp: Let_def split: if_splits option.splits sum.splits)
  have "\<exists>files. list_all2 (accepted env) as files
      \<and> held + ?approx + sum_list (map (\<lambda>bs. int (length bs)) files) \<le> max (held + ?approx) (ae_total env) + 2 * int (length as)
      \<and> pa_placeholders q = map (\<lambda>(a, bs). attachment_placeholder env a (length bs)) (zip as files)
      \<and> list_all renderable (pa_parts q) \<and> length (pa_parts q) = length as"
    by (rule 2(1) [OF _ refl, of bs]) (use types sizes bs in \<open>auto simp: not_less\<close>)
  then obtain files where files: "list_all2 (accepted env) as files"
    "held + ?approx + sum_list (map (\<lambda>bs. int (length bs)) files) \<le> max (held + ?approx) (ae_total env) + 2 * int (length as)"
    "pa_placeholders q = map (\<lambda>(a, bs). attachment_placeholder env a (length bs)) (zip as files)"
    "list_all renderable (pa_parts q)" "length (pa_parts q) = length as"
    by (elim exE conjE)
  show ?case
    using checked_accepted [OF types sizes(1) bs(1,2)] decoded_length [OF bs(1)] files sizes(2)
    by (intro exI [of _ "bs # files"]) (auto simp: p)
qed

lemma each_block_total: "list_all (\<lambda>x. \<exists>b. f x = Inr b) xs \<Longrightarrow> \<exists>bs. each_block f xs = Inr bs \<and> length bs = length xs"
  by (induction xs) auto

lemma renderable_blocks: "renderable p \<Longrightarrow> \<exists>b. anthropic_block env p = Inr b" "renderable p \<Longrightarrow> \<exists>b. openai_block env p = Inr b"
  by (auto simp: renderable_def anthropic_block_def openai_block_def required_data_def text_part_block_def Let_def)

section \<open>What the checks promise\<close>

text \<open>C37. Attachments that pass are safe to hold and to send: no more of them than the limit, every one decodes, has a type of its class
  whose signature its content bears, and together and alone they keep their limits but for the two bytes of padding each the estimate
  does not see; what is stored in their place names type, name and size only; and both providers can be sent one block per attachment, none
  dropped.\<close>

theorem prepared_attachments_safe:
  assumes "prepare_attachments env atts = Inr p"
  shows "int (length atts) \<le> ae_max_count env
    \<and> (\<exists>files. list_all2 (accepted env) atts files
       \<and> sum_list (map (\<lambda>bs. int (length bs)) files) \<le> max 0 (ae_total env) + 2 * int (length atts)
       \<and> pa_placeholders p = map (\<lambda>(a, bs). attachment_placeholder env a (length bs)) (zip atts files))
    \<and> (\<forall>provider \<in> {''anthropic'', ''openai''}. \<exists>blocks. render_attachment_blocks env (pa_parts p) provider = Inr blocks
         \<and> length blocks = length atts)"
proof -
  have loop: "prepare_from env 0 atts = Inr p" and count: "int (length atts) \<le> ae_max_count env"
    using assms by (auto simp: prepare_attachments_def split: if_splits)
  obtain files where files: "list_all2 (accepted env) atts files"
    "sum_list (map (\<lambda>bs. int (length bs)) files) \<le> max 0 (ae_total env) + 2 * int (length atts)"
    "pa_placeholders p = map (\<lambda>(a, bs). attachment_placeholder env a (length bs)) (zip atts files)"
    "list_all renderable (pa_parts p)" "length (pa_parts p) = length atts"
    using prepare_from_accepted [OF loop] by auto
  have "list_all (\<lambda>x. \<exists>b. anthropic_block env x = Inr b) (pa_parts p)" "list_all (\<lambda>x. \<exists>b. openai_block env x = Inr b) (pa_parts p)"
    using files(4) renderable_blocks by (auto simp: list_all_iff)
  then show ?thesis
    using count files each_block_total by (fastforce simp: render_attachment_blocks_def)
qed

text \<open>A finding. A voice message meets none of these checks: whatever its length, the ceiling for audio is not applied to it, and one
  that is not Base64 is answered with 500, where any other attachment with the same data is answered with 422.\<close>

theorem voice_message_unchecked:
  assumes "ai_type a = ''audio''" and "0 < ae_max_count env" and "decoded_len_from_base64 (ai_data a) \<le> min (ae_max_image env) (ae_total env)"
  shows "(\<forall>bs t. decode_base64 (ai_data a) = Some bs \<and> transcribe bs (ai_media_type a) (language_of loc) = Inr t \<and> t \<noteq> [] \<longrightarrow>
       run_attachments (env\<lparr>ae_max_audio := limit\<rparr>) True transcribe [] [a] loc = Inr (t, None))
    \<and> (decode_base64 (ai_data a) = None \<longrightarrow>
       (\<exists>e f. run_attachments env True transcribe [] [a] loc = Inl e \<and> fst (error_response e) = 500
          \<and> run_attachments env True transcribe [] [a\<lparr>ai_type := ''text'', ai_media_type := ''text/plain''\<rparr>] loc = Inl f
          \<and> fst (error_response f) = 422))"
proof -
  have status: "status_code InvalidBase64Error = 422"
    by code_simp
  show ?thesis
    using assms by (auto simp: run_attachments_def transcribe_voice_def py_strip_def strip_by_def prepare_attachments_def ATTACHMENT_ALLOWLIST_def
        max_bytes_for_def status Let_def)
qed

section \<open>A text and a voice message\<close>

definition demo_attachment_env :: attachment_env where
  "demo_attachment_env = \<lparr>ae_max_count = 2, ae_max_image = 3, ae_max_document = 3, ae_max_audio = 1, ae_total = 3, ae_max_pixels = 9, ae_max_pages = 1,
     ae_image = (\<lambda>b. Image_broken), ae_pdf = (\<lambda>b. Pdf_broken), ae_json_ok = (\<lambda>t. False), ae_suffix = ''- sent]'', ae_wide = (\<lambda>t. JNull)\<rparr>"

definition demo_attachment :: "string \<Rightarrow> string \<Rightarrow> string \<Rightarrow> attachment_in" where
  "demo_attachment kind media data = \<lparr>ai_type = kind, ai_media_type = media, ai_filename = None, ai_data = data\<rparr>"

text \<open>Three bytes that the estimate takes for one: the data of \<open>YWJj\<close> with two characters of padding too many.\<close>

lemma demo_prepared: "\<exists>p. prepare_attachments (demo_attachment_env\<lparr>ae_max_image := 1\<rparr>) [demo_attachment ''text'' ''text/plain'' ''YWJj==''] = Inr p"
proof -
  have "decode_base64 ''YWJj=='' = Some [97, 98, 99]" "decoded_len_from_base64 ''YWJj=='' = 1" "utf8_decode [97, 98, 99] = Some [97, 98, 99]"
    by code_simp+
  then show ?thesis
    by (simp add: prepare_attachments_def demo_attachment_def demo_attachment_env_def ATTACHMENT_ALLOWLIST_def max_bytes_for_def checked_text_def
        decode_text_def Let_def)
qed

theorem prepared_attachments_safe_witness:
  "\<exists>files. list_all2 (accepted (demo_attachment_env\<lparr>ae_max_image := 1\<rparr>)) [demo_attachment ''text'' ''text/plain'' ''YWJj==''] files
     \<and> files = [[97, 98, 99]]"
proof -
  obtain p where "prepare_attachments (demo_attachment_env\<lparr>ae_max_image := 1\<rparr>) [demo_attachment ''text'' ''text/plain'' ''YWJj==''] = Inr p"
    using demo_prepared by blast
  then obtain files where files: "list_all2 (accepted (demo_attachment_env\<lparr>ae_max_image := 1\<rparr>)) [demo_attachment ''text'' ''text/plain'' ''YWJj==''] files"
    using prepared_attachments_safe by blast
  have "decode_base64 ''YWJj=='' = Some [97, 98, 99]"
    by code_simp
  then have "files = [[97, 98, 99]]"
    using files by (cases files) (auto simp: accepted_def demo_attachment_def)
  then show ?thesis
    using files by blast
qed

theorem voice_message_unchecked_witness:
  "run_attachments (demo_attachment_env\<lparr>ae_max_audio := 1\<rparr>) True (\<lambda>b m l. Inr ''hello'') [] [demo_attachment ''audio'' ''audio/mp4'' ''YWJj''] None =
     Inr (''hello'', None)"
proof -
  have "decode_base64 ''YWJj'' = Some [97, 98, 99]" "decoded_len_from_base64 ''YWJj'' = 3"
    by code_simp+
  then show ?thesis
    using voice_message_unchecked [of "demo_attachment ''audio'' ''audio/mp4'' ''YWJj''" demo_attachment_env "\<lambda>b m l. Inr ''hello''" None 1]
    by (simp add: demo_attachment_def demo_attachment_env_def)
qed

end
