(* ===== verification/Workspaces.thy ===== *)
theory Workspaces
  imports Attachments Cursor Store
begin

text \<open>
  Folders of chats with their texts: \<open>workspaces/service.py\<close>, \<open>repository.py\<close>, \<open>cursor.py\<close> and \<open>text_extract.py\<close>. The table of chats appears
  as the repository sees it (\<open>wz_chats\<close>: session, folder, temporary). The text pypdf extracts is an argument. Every operation commits.
\<close>

section \<open>Tables\<close>

record workspace_row =
  wp_id :: uuid
  wp_user :: uuid
  wp_name :: string
  wp_description :: "string option"
  wp_instructions :: "string option"
  wp_created :: instant
  wp_updated :: instant

record workspace_file =
  wf_id :: uuid
  wf_workspace :: uuid
  wf_filename :: string
  wf_content :: "nat list"
  wf_media_type :: string
  wf_size :: int
  wf_text :: "nat list option"
  wf_created :: instant

record ws_state =
  wz_db :: db
  wz_rows :: "workspace_row list"
  wz_files :: "workspace_file list"
  wz_chats :: "(uuid \<times> uuid option \<times> bool) list"

record workspace_settings =
  wl_max_count :: int
  wl_max_bytes :: int
  wl_total_bytes :: int
  wl_context_max_chars :: int
  wl_checks :: attachment_env
  wl_pdf_text :: "nat list \<Rightarrow> nat list option"

type_synonym 'a ws_op = "ws_state \<Rightarrow> (exn, 'a, ws_state) outcome"

section \<open>The cursor\<close>

text \<open>The module is the one of the scheduled chats with \<open>updated_at\<close> for \<open>created_at\<close>.\<close>

record WorkspaceCursor =
  wc_updated_at :: instant
  wc_id :: uuid

definition workspace_cursor_encode :: "(instant \<Rightarrow> string) \<Rightarrow> WorkspaceCursor \<Rightarrow> string" where
  "workspace_cursor_encode iso_text c = cursor_encode iso_text \<lparr>cur_created_at = wc_updated_at c, cur_id = wc_id c\<rparr>"

definition workspace_cursor_decode :: "iso_reader \<Rightarrow> wide_reader \<Rightarrow> string \<Rightarrow> WorkspaceCursor option" where
  "workspace_cursor_decode from_iso wide s =
     map_option (\<lambda>c. \<lparr>wc_updated_at = cur_created_at c, wc_id = cur_id c\<rparr>) (cursor_decode from_iso wide s)"

section \<open>The repository\<close>

definition create_workspace_row :: "uuid \<Rightarrow> uuid \<Rightarrow> string \<Rightarrow> string option \<Rightarrow> string option \<Rightarrow> workspace_row ws_op" where
  "create_workspace_row new_id user name description instructions s =
     (if users (wz_db s) user = None then (Inl (DbFault ForeignKeyViolation), s)
      else if \<exists>w \<in> set (wz_rows s). wp_id w = new_id then (Inl (DbFault UniqueViolation), s)
      else (let row = \<lparr>wp_id = new_id, wp_user = user, wp_name = name, wp_description = description, wp_instructions = instructions,
              wp_created = sql_now (wz_db s), wp_updated = sql_now (wz_db s)\<rparr> in
            (Inr row, s\<lparr>wz_rows := wz_rows s @ [row]\<rparr>)))"

definition get_workspace :: "uuid \<Rightarrow> uuid \<Rightarrow> ws_state \<Rightarrow> workspace_row option" where
  "get_workspace workspace user s = find (\<lambda>w. wp_id w = workspace \<and> wp_user w = user) (wz_rows s)"

definition get_instructions :: "uuid \<Rightarrow> uuid \<Rightarrow> ws_state \<Rightarrow> string option" where
  "get_instructions workspace user s = Option.bind (get_workspace workspace user s) wp_instructions"

text \<open>\<open>ORDER BY updated_at DESC, id DESC\<close>\<close>

definition recent_first :: "workspace_row list \<Rightarrow> workspace_row list" where
  "recent_first rows = rev (sort_key wp_updated (sort_key wp_id rows))"

definition before_workspace :: "WorkspaceCursor option \<Rightarrow> workspace_row \<Rightarrow> bool" where
  "before_workspace cursor w \<longleftrightarrow>
     (case cursor of
        None \<Rightarrow> True
      | Some c \<Rightarrow> wp_updated w < wc_updated_at c \<or> (wp_updated w = wc_updated_at c \<and> wp_id w < wc_id c))"

definition file_count :: "uuid \<Rightarrow> ws_state \<Rightarrow> int" where
  "file_count workspace s = int (length (filter (\<lambda>f. wf_workspace f = workspace) (wz_files s)))"

definition chat_count :: "uuid \<Rightarrow> ws_state \<Rightarrow> int" where
  "chat_count workspace s = int (length (filter (\<lambda>(i, w, temporary). w = Some workspace \<and> \<not> temporary) (wz_chats s)))"

definition total_bytes :: "uuid \<Rightarrow> ws_state \<Rightarrow> int" where
  "total_bytes workspace s = sum_list (map wf_size (filter (\<lambda>f. wf_workspace f = workspace) (wz_files s)))"

record WorkspaceListItem =
  wi_workspace :: workspace_row
  wi_file_count :: int
  wi_chat_count :: int

definition list_item :: "ws_state \<Rightarrow> workspace_row \<Rightarrow> WorkspaceListItem" where
  "list_item s w = \<lparr>wi_workspace = w, wi_file_count = file_count (wp_id w) s, wi_chat_count = chat_count (wp_id w) s\<rparr>"

text \<open>The page and \<open>next_cursor\<close>.\<close>

definition list_workspace_rows ::
  "(instant \<Rightarrow> string) \<Rightarrow> uuid \<Rightarrow> WorkspaceCursor option \<Rightarrow> nat \<Rightarrow> ws_state \<Rightarrow> WorkspaceListItem list \<times> string option" where
  "list_workspace_rows iso_text user cursor limit s =
     (let rows = take (limit + 1) (recent_first (filter (\<lambda>w. wp_user w = user \<and> before_workspace cursor w) (wz_rows s)));
          page_rows = take limit rows in
      (map (list_item s) page_rows,
       if limit < length rows \<and> page_rows \<noteq> []
       then Some (workspace_cursor_encode iso_text \<lparr>wc_updated_at = wp_updated (List.last page_rows), wc_id = wp_id (List.last page_rows)\<rparr>)
       else None))"

definition update_workspace_row ::
  "instant \<Rightarrow> workspace_row \<Rightarrow> string option \<Rightarrow> string option option \<Rightarrow> string option option \<Rightarrow> workspace_row ws_op" where
  "update_workspace_row now w name set_description set_instructions s =
     (let row = w\<lparr>wp_name := (case name of None \<Rightarrow> wp_name w | Some n \<Rightarrow> n),
            wp_description := (case set_description of None \<Rightarrow> wp_description w | Some d \<Rightarrow> d),
            wp_instructions := (case set_instructions of None \<Rightarrow> wp_instructions w | Some i \<Rightarrow> i), wp_updated := now\<rparr> in
      (Inr row, s\<lparr>wz_rows := map (\<lambda>x. if wp_id x = wp_id w then row else x) (wz_rows s)\<rparr>))"

text \<open>\<open>DELETE\<close>: the files cascade, the chats lose their folder.\<close>

definition delete_workspace_row :: "uuid \<Rightarrow> uuid \<Rightarrow> bool ws_op" where
  "delete_workspace_row workspace user s =
     (if get_workspace workspace user s = None then (Inr False, s)
      else (Inr True, s\<lparr>wz_rows := filter (\<lambda>w. wp_id w \<noteq> workspace) (wz_rows s), wz_files := filter (\<lambda>f. wf_workspace f \<noteq> workspace) (wz_files s),
        wz_chats := map (\<lambda>(i, w, temporary). (i, if w = Some workspace then None else w, temporary)) (wz_chats s)\<rparr>))"

definition workspace_files :: "uuid \<Rightarrow> ws_state \<Rightarrow> workspace_file list" where
  "workspace_files workspace s = sort_key wf_created (sort_key wf_id (filter (\<lambda>f. wf_workspace f = workspace) (wz_files s)))"

definition delete_file_row :: "uuid \<Rightarrow> uuid \<Rightarrow> bool ws_op" where
  "delete_file_row workspace file_id s =
     (let gone = (\<lambda>f. wf_id f = file_id \<and> wf_workspace f = workspace) in
      (Inr (list_ex gone (wz_files s)), s\<lparr>wz_files := filter (\<lambda>f. \<not> gone f) (wz_files s)\<rparr>))"

section \<open>An uploaded file\<close>

record ExtractedFile =
  ef_content :: "nat list"
  ef_text :: "nat list option"

definition validate_and_extract :: "workspace_settings \<Rightarrow> attachment_in \<Rightarrow> exn + ExtractedFile" where
  "validate_and_extract cfg a =
     (let types = (if ai_type a = ''audio'' then None else map_of ATTACHMENT_ALLOWLIST (ai_type a));
          too_large = Inl (Raised PayloadTooLargeError ''file exceeds the maximum allowed size'') in
      if ai_media_type a \<notin> set (case types of None \<Rightarrow> [] | Some ts \<Rightarrow> ts)
      then Inl (Raised ValidationFailedError (''unsupported_media_type: '' @ ai_media_type a))
      else if wl_max_bytes cfg < decoded_len_from_base64 (ai_data a) then too_large
      else case decode_base64 (ai_data a) of
        None \<Rightarrow> Inl (Raised InvalidBase64Error ''attachment data is not valid base64'')
      | Some decoded \<Rightarrow>
          if wl_max_bytes cfg < int (length decoded) then too_large
          else if ai_type a = ''image''
          then map_sum id (\<lambda>_. \<lparr>ef_content = decoded, ef_text = None\<rparr>) (check_magic_bytes (ai_media_type a) decoded)
          else if ai_type a = ''document''
          then (case check_magic_bytes (ai_media_type a) decoded of
              Inl e \<Rightarrow> Inl e
            | Inr _ \<Rightarrow>
                (case check_pdf_pages (wl_checks cfg) decoded of
                   Inl e \<Rightarrow> Inl e
                 | Inr _ \<Rightarrow>
                     (case wl_pdf_text cfg decoded of
                        None \<Rightarrow> Inl (Raised ValidationFailedError ''PDF could not be parsed'')
                      | Some t \<Rightarrow> Inr \<lparr>ef_content = decoded, ef_text = Some t\<rparr>)))
          else map_sum id (\<lambda>t. \<lparr>ef_content = decoded, ef_text = Some t\<rparr>) (decode_text (wl_checks cfg) (ai_media_type a) decoded))"

section \<open>The service\<close>

definition not_found :: "string \<Rightarrow> exn" where
  "not_found what = Raised NotFoundError (what @ '' not found'')"

definition require_workspace :: "uuid \<Rightarrow> uuid \<Rightarrow> workspace_row ws_op" where
  "require_workspace workspace user s =
     (case get_workspace workspace user s of None \<Rightarrow> (Inl (not_found ''workspace''), s) | Some w \<Rightarrow> (Inr w, s))"

definition create_workspace :: "uuid \<Rightarrow> uuid \<Rightarrow> string \<Rightarrow> string option \<Rightarrow> string option \<Rightarrow> workspace_row ws_op" where
  "create_workspace new_id user name description instructions s = create_workspace_row new_id user (py_strip name) description instructions s"

definition list_workspaces ::
  "(instant \<Rightarrow> string) \<Rightarrow> iso_reader \<Rightarrow> wide_reader \<Rightarrow> uuid \<Rightarrow> string option \<Rightarrow> nat \<Rightarrow> ws_state \<Rightarrow> exn + WorkspaceListItem list \<times> string option" where
  "list_workspaces iso_text from_iso wide user cursor limit s =
     (case cursor of
        None \<Rightarrow> Inr (list_workspace_rows iso_text user None limit s)
      | Some c \<Rightarrow>
          if c = [] then Inr (list_workspace_rows iso_text user None limit s)
          else case workspace_cursor_decode from_iso wide c of
            None \<Rightarrow> Inl (Raised ValidationFailedError ''invalid cursor'')
          | Some d \<Rightarrow> Inr (list_workspace_rows iso_text user (Some d) limit s))"

definition workspace_detail :: "uuid \<Rightarrow> uuid \<Rightarrow> (workspace_row \<times> workspace_file list) ws_op" where
  "workspace_detail workspace user s =
     and_then (require_workspace workspace user s) (\<lambda>w s. (Inr (w, workspace_files workspace s), s))"

definition update_workspace ::
  "instant \<Rightarrow> uuid \<Rightarrow> uuid \<Rightarrow> string option \<Rightarrow> string option option \<Rightarrow> string option option \<Rightarrow> (workspace_row \<times> workspace_file list) ws_op" where
  "update_workspace now workspace user name set_description set_instructions s =
     and_then (require_workspace workspace user s) (\<lambda>w s.
     and_then (update_workspace_row now w (map_option py_strip name) set_description set_instructions s) (\<lambda>w s.
     (Inr (w, workspace_files workspace s), s)))"

definition delete_workspace :: "uuid \<Rightarrow> uuid \<Rightarrow> unit ws_op" where
  "delete_workspace workspace user s =
     and_then (delete_workspace_row workspace user s) (\<lambda>deleted s. (if deleted then Inr () else Inl (not_found ''workspace''), s))"

definition upload_file :: "workspace_settings \<Rightarrow> uuid \<Rightarrow> uuid \<Rightarrow> uuid \<Rightarrow> attachment_in \<Rightarrow> string \<Rightarrow> workspace_file ws_op" where
  "upload_file cfg new_id workspace user req filename s =
     and_then (require_workspace workspace user s) (\<lambda>w s.
     if wl_max_count cfg \<le> file_count workspace s then (Inl (Raised ValidationFailedError ''workspace file count limit exceeded''), s)
     else case validate_and_extract cfg req of
       Inl e \<Rightarrow> (Inl e, s)
     | Inr extracted \<Rightarrow>
         if wl_total_bytes cfg < total_bytes workspace s + int (length (ef_content extracted))
         then (Inl (Raised ValidationFailedError ''workspace total size limit exceeded''), s)
         else if \<exists>f \<in> set (wz_files s). wf_id f = new_id then (Inl (DbFault UniqueViolation), s)
         else (let row = \<lparr>wf_id = new_id, wf_workspace = workspace, wf_filename = filename, wf_content = ef_content extracted,
                 wf_media_type = ai_media_type req, wf_size = int (length (ef_content extracted)), wf_text = ef_text extracted,
                 wf_created = sql_now (wz_db s)\<rparr> in
           (Inr row, s\<lparr>wz_files := wz_files s @ [row]\<rparr>)))"

definition list_workspace_files :: "uuid \<Rightarrow> uuid \<Rightarrow> workspace_file list ws_op" where
  "list_workspace_files workspace user s =
     and_then (require_workspace workspace user s) (\<lambda>w s. (Inr (workspace_files workspace s), s))"

definition delete_workspace_file :: "uuid \<Rightarrow> uuid \<Rightarrow> uuid \<Rightarrow> unit ws_op" where
  "delete_workspace_file workspace user file_id s =
     and_then (require_workspace workspace user s) (\<lambda>w s.
     and_then (delete_file_row workspace file_id s) (\<lambda>deleted s. (if deleted then Inr () else Inl (not_found ''file''), s)))"

definition owns_workspace :: "uuid \<Rightarrow> uuid \<Rightarrow> ws_state \<Rightarrow> bool" where
  "owns_workspace workspace user s \<longleftrightarrow> get_workspace workspace user s \<noteq> None"

text \<open>\<open>x or None\<close>\<close>

definition unless_empty :: "string option \<Rightarrow> string option" where
  "unless_empty x = (if x = Some [] then None else x)"

definition instructions_for_session :: "uuid \<Rightarrow> uuid \<Rightarrow> ws_state \<Rightarrow> string option" where
  "instructions_for_session workspace user s = unless_empty (get_instructions workspace user s)"

text \<open>The line before the text of a file; it begins with the words the source has in Russian.\<close>

definition file_heading :: "string \<Rightarrow> nat list" where
  "file_heading filename =
     [91, 1060, 1072, 1081, 1083, 32, 1087, 1088, 1086, 1077, 1082, 1090, 1072, 58, 32] @ map of_char filename @ [93, 10]"

definition text_part :: "workspace_file \<Rightarrow> nat list \<Rightarrow> AttachmentPart" where
  "text_part f snippet =
     \<lparr>ap_kind = ''text'', ap_media_type = wf_media_type f, ap_filename = wf_filename f, ap_data = None,
      ap_text = Some (file_heading (wf_filename f) @ snippet)\<rparr>"

definition image_part :: "workspace_file \<Rightarrow> AttachmentPart" where
  "image_part f =
     \<lparr>ap_kind = ''image'', ap_media_type = wf_media_type f, ap_filename = wf_filename f, ap_data = Some (b64encode (wf_content f)), ap_text = None\<rparr>"

fun file_parts :: "int \<Rightarrow> int \<Rightarrow> workspace_file list \<Rightarrow> AttachmentPart list" where
  "file_parts max_chars used [] = []"
| "file_parts max_chars used (f # fs) =
     (if wf_media_type f \<in> set IMAGE_TYPES then image_part f # file_parts max_chars used fs
      else case wf_text f of
        None \<Rightarrow> file_parts max_chars used fs
      | Some t \<Rightarrow>
          if t = [] \<or> max_chars \<le> used then file_parts max_chars used fs
          else let snippet = take (nat (max_chars - used)) t in
            text_part f snippet # file_parts max_chars (used + int (length snippet)) fs)"

definition build_file_attachments :: "workspace_settings \<Rightarrow> workspace_file list \<Rightarrow> PreparedAttachments option" where
  "build_file_attachments cfg files =
     (case file_parts (wl_context_max_chars cfg) 0 files of
        [] \<Rightarrow> None
      | parts \<Rightarrow> Some \<lparr>pa_parts = parts, pa_placeholders = [], pa_images = []\<rparr>)"

text \<open>Instructions and files; \<open>None\<close> when the folder is gone or another user's.\<close>

definition context_for_session ::
  "workspace_settings \<Rightarrow> uuid \<Rightarrow> uuid \<Rightarrow> ws_state \<Rightarrow> (string option \<times> PreparedAttachments option) option" where
  "context_for_session cfg workspace user s =
     map_option (\<lambda>w. (unless_empty (wp_instructions w), build_file_attachments cfg (workspace_files workspace s))) (get_workspace workspace user s)"

end
