(* ===== verification/Workspaces_Kept.thy ===== *)
theory Workspaces_Kept
  imports Workspaces Attachments_Kept Keyset
begin

text \<open>
  The list of folders by cursor, and what of their files a turn is given: a prefix of all texts within the budget, and every picture.
\<close>

section \<open>The list by cursor\<close>

definition folder_cursor :: "(instant \<Rightarrow> string) \<Rightarrow> workspace_row \<Rightarrow> string" where
  "folder_cursor iso_text w = workspace_cursor_encode iso_text \<lparr>wc_updated_at = wp_updated w, wc_id = wp_id w\<rparr>"

definition folders_of :: "uuid \<Rightarrow> ws_state \<Rightarrow> workspace_row list" where
  "folders_of user s = recent_first (filter (\<lambda>w. wp_user w = user) (wz_rows s))"

definition folders_ok :: "(instant \<Rightarrow> string) \<Rightarrow> iso_reader \<Rightarrow> uuid \<Rightarrow> ws_state \<Rightarrow> bool" where
  "folders_ok iso_text from_iso user s \<longleftrightarrow> distinct (map wp_id (wz_rows s)) \<and> (\<forall>w \<in> set (wz_rows s). iso_ok iso_text from_iso (wp_updated w))"

lemma recent_first_descending: "recent_first = descending wp_updated wp_id"
  by (simp add: recent_first_def descending_def fun_eq_iff)

lemma folder_cursor_read:
  "iso_ok iso_text from_iso (wp_updated w) \<Longrightarrow>
   workspace_cursor_decode from_iso wide (folder_cursor iso_text w) = Some \<lparr>wc_updated_at = wp_updated w, wc_id = wp_id w\<rparr>"
  by (simp add: workspace_cursor_decode_def folder_cursor_def workspace_cursor_encode_def cursor_decode_encode)

lemma folder_cursor_nonempty: "iso_ok iso_text from_iso (wp_updated w) \<Longrightarrow> folder_cursor iso_text w \<noteq> []"
proof
  assume iso: "iso_ok iso_text from_iso (wp_updated w)" and "folder_cursor iso_text w = []"
  then have "workspace_cursor_decode from_iso (\<lambda>p. None) [] = Some \<lparr>wc_updated_at = wp_updated w, wc_id = wp_id w\<rparr>"
    using folder_cursor_read [OF iso, of "\<lambda>p. None"] by simp
  moreover have "urlsafe_b64decode [] = Some []"
    by code_simp
  then have "workspace_cursor_decode from_iso (\<lambda>p. None) [] = None"
    by (simp add: workspace_cursor_decode_def cursor_decode_def ascii_encode_def cursor_fields_def)
  ultimately show False
    by simp
qed

lemma before_cursor: "before_workspace (Some \<lparr>wc_updated_at = wp_updated x, wc_id = wp_id x\<rparr>) = (\<lambda>r. precedes wp_updated wp_id r x)"
  by (simp add: before_workspace_def precedes_def fun_eq_iff)

lemma page_rows:
  assumes "folders_of user s = A @ B" "0 < limit" "filter (before_workspace cursor) (folders_of user s) = B"
  shows "list_workspace_rows iso_text user cursor limit s =
    (map (list_item s) (take limit B), if limit < length B then place (folder_cursor iso_text) (A @ take limit B) else None)"
proof -
  have rows: "recent_first (filter (\<lambda>w. wp_user w = user \<and> before_workspace cursor w) (wz_rows s)) = B"
    using assms(3) by (simp add: folders_of_def recent_first_descending descending_filter conj_commute)
  have more: "limit < length (take (limit + 1) B) \<longleftrightarrow> limit < length B"
    by auto
  have "place (folder_cursor iso_text) (A @ take limit B) = Some (folder_cursor iso_text (List.last (take limit B)))" if "limit < length B"
    using that assms(2) by (cases B) (auto simp: place_def)
  then show ?thesis
    using assms(2) by (auto simp: list_workspace_rows_def rows Let_def folder_cursor_def min_def)
qed

interpretation folders: keyset "folders_ok iso_text from_iso user" "folders_of user" "\<lambda>_. folder_cursor iso_text"
    "\<lambda>s. map (list_item s)" "\<lambda>s limit c. list_workspaces iso_text from_iso wide user c limit s" "\<lambda>limit. 0 < limit"
  for iso_text from_iso wide user
proof unfold_locales
  fix s and limit :: nat and A B
  assume ok: "folders_ok iso_text from_iso user s" and limit: "0 < limit" and split: "folders_of user s = A @ B"
  show "list_workspaces iso_text from_iso wide user (place (folder_cursor iso_text) A) limit s =
      Inr (map (list_item s) (take limit B), if limit < length B then place (folder_cursor iso_text) (A @ take limit B) else None)"
  proof (cases A rule: rev_cases)
    case Nil
    then show ?thesis
      using page_rows [OF split limit, of None iso_text] split by (simp add: list_workspaces_def before_workspace_def)
  next
    case (snoc A' x)
    have iso: "iso_ok iso_text from_iso (wp_updated x)"
    proof -
      have "set (folders_of user s) \<subseteq> set (wz_rows s)"
        by (auto simp: folders_of_def recent_first_descending)
      then show ?thesis
        using ok split by (auto simp: folders_ok_def snoc)
    qed
    have "sorted_wrt (\<lambda>x y. precedes wp_updated wp_id y x) (A' @ x # B)"
      using descending_sorted [of wp_id "filter (\<lambda>w. wp_user w = user) (wz_rows s)" wp_updated] ok split
      by (simp add: folders_ok_def folders_of_def snoc recent_first_descending distinct_map_filter)
    then have "filter (before_workspace (Some \<lparr>wc_updated_at = wp_updated x, wc_id = wp_id x\<rparr>)) (folders_of user s) = B"
      using filter_precedes [of wp_updated wp_id A' x B] split by (simp add: snoc before_cursor)
    from page_rows [OF split limit this, of iso_text] show ?thesis
      by (simp add: list_workspaces_def snoc folder_cursor_read [OF iso] folder_cursor_nonempty [OF iso])
  qed
qed simp

text \<open>Following the cursors of the list ends and has read every folder of the user once, the last changed first.\<close>

lemma folders_reassemble:
  assumes "folders_ok iso_text from_iso user s" and "0 < limit"
  shows "\<exists>pages. follow (\<lambda>c. list_workspaces iso_text from_iso wide user c limit s) None = Some (Inr pages)
    \<and> concat pages = map (list_item s) (folders_of user s)"
  using folders.follow_reads_all [OF assms, of wide] by (metis map_concat)

section \<open>The context of a turn\<close>

text \<open>The files that are texts, and the pictures.\<close>

definition pictures :: "workspace_file list \<Rightarrow> workspace_file list" where
  "pictures files = filter (\<lambda>f. wf_media_type f \<in> set IMAGE_TYPES) files"

definition file_texts :: "workspace_file list \<Rightarrow> nat list list" where
  "file_texts files = map (\<lambda>f. or_default (wf_text f) []) (filter (\<lambda>f. wf_media_type f \<notin> set IMAGE_TYPES) files)"

definition kind_parts :: "string \<Rightarrow> AttachmentPart list \<Rightarrow> AttachmentPart list" where
  "kind_parts k parts = filter (\<lambda>p. ap_kind p = k) parts"

lemma part_kinds [simp]: "ap_kind (text_part f t) = ''text''" "ap_kind (image_part f) = ''image''"
  by (simp_all add: text_part_def image_part_def)

lemma image_parts: "kind_parts ''image'' (file_parts n used files) = map image_part (pictures files)"
  by (induction n used files rule: file_parts.induct) (auto simp: kind_parts_def pictures_def Let_def split: option.splits)

lemma text_parts_prefix:
  "\<exists>snippets. kind_parts ''text'' (file_parts n used files) = map (\<lambda>(f, t). text_part f t) snippets
     \<and> concat (map snd snippets) = take (nat (n - used)) (concat (file_texts files)) \<and> list_all (\<lambda>(f, t). f \<in> set files \<and> t \<noteq> []) snippets"
proof (induction n used files rule: file_parts.induct)
  case (1 n used)
  then show ?case
    by (simp add: kind_parts_def file_texts_def)
next
  case (2 n used f fs)
  have later: "list_all (\<lambda>(g, t). g \<in> set (f # fs) \<and> t \<noteq> []) snippets" if "list_all (\<lambda>(g, t). g \<in> set fs \<and> t \<noteq> []) snippets" for snippets
    using that by (auto simp: list_all_iff)
  show ?case
  proof (cases "wf_media_type f \<in> set IMAGE_TYPES")
    case True
    then show ?thesis
      using 2(1) later by (fastforce simp: kind_parts_def file_texts_def)
  next
    case False
    show ?thesis
    proof (cases "wf_text f = None \<or> wf_text f = Some [] \<or> n \<le> used")
      case True
      then have same: "file_parts n used (f # fs) = file_parts n used fs" "take (nat (n - used)) (concat (file_texts (f # fs))) = take (nat (n - used)) (concat (file_texts fs))"
        using False by (auto simp: file_texts_def split: option.splits)
      obtain snippets where "kind_parts ''text'' (file_parts n used fs) = map (\<lambda>(f, t). text_part f t) snippets"
        "concat (map snd snippets) = take (nat (n - used)) (concat (file_texts fs))" "list_all (\<lambda>(f, t). f \<in> set fs \<and> t \<noteq> []) snippets"
        using True 2(2,3) False by (cases "wf_text f") auto
      then show ?thesis
        using later unfolding same by blast
    next
      case shown: False
      then obtain t where t: "wf_text f = Some t" "t \<noteq> []" "used < n"
        by auto
      let ?snippet = "take (nat (n - used)) t"
      obtain snippets where rest: "kind_parts ''text'' (file_parts n (used + int (length ?snippet)) fs) = map (\<lambda>(f, t). text_part f t) snippets"
        "concat (map snd snippets) = take (nat (n - (used + int (length ?snippet)))) (concat (file_texts fs))"
        "list_all (\<lambda>(f, t). f \<in> set fs \<and> t \<noteq> []) snippets"
        using 2(4) [OF False t(1) _ refl] t by auto
      have "nat (n - (used + int (length ?snippet))) = nat (n - used) - length t"
        by auto
      then have "concat (map snd ((f, ?snippet) # snippets)) = take (nat (n - used)) (concat (file_texts (f # fs)))"
        using rest(2) False t(1) by (simp add: file_texts_def)
      moreover have "kind_parts ''text'' (file_parts n used (f # fs)) = map (\<lambda>(f, t). text_part f t) ((f, ?snippet) # snippets)"
        using rest(1) False t by (simp add: kind_parts_def Let_def)
      moreover have "list_all (\<lambda>(g, t). g \<in> set (f # fs) \<and> t \<noteq> []) ((f, ?snippet) # snippets)"
        using later [OF rest(3)] t by simp
      ultimately show ?thesis
        by blast
    qed
  qed
qed

text \<open>C40. What a turn is given of a folder: nothing to anybody but its owner, who gets every picture, and of the texts exactly the first
  \<open>WORKSPACE_CONTEXT_MAX_CHARS\<close> characters of them all together, oldest file first, in parts that each carry the name of their file and are
  never empty.\<close>

theorem workspace_context_is_prefix:
  assumes "context_for_session cfg workspace user s = Some (instructions, attachments)"
  shows "owns_workspace workspace user s
    \<and> (let parts = (case attachments of None \<Rightarrow> [] | Some p \<Rightarrow> pa_parts p); files = workspace_files workspace s in
       kind_parts ''image'' parts = map image_part (pictures files)
       \<and> (\<exists>snippets. kind_parts ''text'' parts = map (\<lambda>(f, t). text_part f t) snippets
           \<and> concat (map snd snippets) = take (nat (wl_context_max_chars cfg)) (concat (file_texts files))
           \<and> list_all (\<lambda>(f, t). f \<in> set files \<and> t \<noteq> []) snippets))"
proof -
  have parts: "(case build_file_attachments cfg files of None \<Rightarrow> [] | Some p \<Rightarrow> pa_parts p) = file_parts (wl_context_max_chars cfg) 0 files" for files
    by (simp add: build_file_attachments_def split: list.splits)
  have "owns_workspace workspace user s" and attachments: "attachments = build_file_attachments cfg (workspace_files workspace s)"
    using assms by (auto simp: context_for_session_def owns_workspace_def)
  then show ?thesis
    using image_parts [of "wl_context_max_chars cfg" 0 "workspace_files workspace s"]
      text_parts_prefix [of "wl_context_max_chars cfg" 0 "workspace_files workspace s"]
    by (simp add: attachments parts Let_def)
qed

section \<open>One operation\<close>

inductive ws_step :: "workspace_settings \<Rightarrow> uuid \<Rightarrow> ws_state \<Rightarrow> ws_state \<Rightarrow> bool" for cfg user s t where
    created: "create_workspace new_id user name description instructions s = (r, t) \<Longrightarrow> ws_step cfg user s t"
  | updated: "update_workspace now workspace user name' set_description set_instructions s = (r', t) \<Longrightarrow> ws_step cfg user s t"
  | deleted: "delete_workspace workspace user s = (r'', t) \<Longrightarrow> ws_step cfg user s t"
  | uploaded: "upload_file cfg new_id workspace user req filename s = (x, t) \<Longrightarrow> ws_step cfg user s t"
  | removed: "delete_workspace_file workspace user file_id s = (y, t) \<Longrightarrow> ws_step cfg user s t"

definition file_ok :: "workspace_settings \<Rightarrow> workspace_file \<Rightarrow> bool" where
  "file_ok cfg f \<longleftrightarrow> wf_size f = int (length (wf_content f)) \<and> wf_size f \<le> wl_max_bytes cfg
     \<and> (wf_media_type f \<in> set IMAGE_TYPES \<longleftrightarrow> wf_text f = None)
     \<and> wf_media_type f \<in> set IMAGE_TYPES \<union> {''application/pdf'', ''text/plain'', ''text/markdown'', ''text/csv'', ''application/json''}"

definition within :: "workspace_settings \<Rightarrow> ws_state \<Rightarrow> uuid \<Rightarrow> bool" where
  "within cfg s w \<longleftrightarrow> file_count w s \<le> wl_max_count cfg \<and> total_bytes w s \<le> wl_total_bytes cfg"

definition workspaces_ok :: "workspace_settings \<Rightarrow> ws_state \<Rightarrow> bool" where
  "workspaces_ok cfg s \<longleftrightarrow> distinct (map wp_id (wz_rows s)) \<and> distinct (map wf_id (wz_files s)) \<and> list_all (file_ok cfg) (wz_files s)
     \<and> (\<forall>f \<in> set (wz_files s). wf_workspace f \<in> wp_id ` set (wz_rows s) \<and> within cfg s (wf_workspace f))"

text \<open>The four changes an operation can make.\<close>

inductive ws_change :: "workspace_settings \<Rightarrow> uuid \<Rightarrow> ws_state \<Rightarrow> ws_state \<Rightarrow> bool" for cfg user s where
    same: "ws_change cfg user s s"
  | added: "wp_user w = user \<Longrightarrow> wp_id w \<notin> wp_id ` set (wz_rows s) \<Longrightarrow> ws_change cfg user s (s\<lparr>wz_rows := wz_rows s @ [w]\<rparr>)"
  | edited: "w \<in> set (wz_rows s) \<Longrightarrow> wp_user w = user \<Longrightarrow> wp_id row = wp_id w \<Longrightarrow> wp_user row = user \<Longrightarrow>
      ws_change cfg user s (s\<lparr>wz_rows := map (\<lambda>x. if wp_id x = wp_id w then row else x) (wz_rows s)\<rparr>)"
  | dropped: "w \<in> set (wz_rows s) \<Longrightarrow> wp_user w = user \<Longrightarrow>
      ws_change cfg user s (s\<lparr>wz_rows := filter (\<lambda>x. wp_id x \<noteq> wp_id w) (wz_rows s), wz_files := filter (\<lambda>f. wf_workspace f \<noteq> wp_id w) (wz_files s),
        wz_chats := map (\<lambda>(i, c, temporary). (i, if c = Some (wp_id w) then None else c, temporary)) (wz_chats s)\<rparr>)"
  | stored: "w \<in> set (wz_rows s) \<Longrightarrow> wp_user w = user \<Longrightarrow> wf_workspace f = wp_id w \<Longrightarrow> wf_id f \<notin> wf_id ` set (wz_files s) \<Longrightarrow> file_ok cfg f \<Longrightarrow>
      file_count (wp_id w) s < wl_max_count cfg \<Longrightarrow> total_bytes (wp_id w) s + wf_size f \<le> wl_total_bytes cfg \<Longrightarrow>
      ws_change cfg user s (s\<lparr>wz_files := wz_files s @ [f]\<rparr>)"
  | unstored: "w \<in> set (wz_rows s) \<Longrightarrow> wp_user w = user \<Longrightarrow>
      ws_change cfg user s (s\<lparr>wz_files := filter (\<lambda>f. \<not> (wf_id f = file_id \<and> wf_workspace f = wp_id w)) (wz_files s)\<rparr>)"

lemma found_workspace: "get_workspace workspace user s = Some w \<Longrightarrow> w \<in> set (wz_rows s) \<and> wp_id w = workspace \<and> wp_user w = user"
  unfolding get_workspace_def find_Some_iff by (auto dest: nth_mem)

lemma extracted_ok:
  assumes "validate_and_extract cfg a = Inr x" and "wf_size f = int (length (ef_content x))" and "wf_content f = ef_content x"
    and "wf_media_type f = ai_media_type a" and "wf_text f = ef_text x"
  shows "file_ok cfg f"
proof -
  have fits: "int (length (ef_content x)) \<le> wl_max_bytes cfg"
    and kind: "(ai_type a = ''image'' \<longleftrightarrow> ef_text x = None) \<and> ai_type a \<in> {''image'', ''document'', ''text''}"
    using assms(1) by (auto simp: validate_and_extract_def ATTACHMENT_ALLOWLIST_def Let_def map_sum_def split: if_splits option.splits sum.splits)
  have "ai_media_type a \<in> set (case map_of ATTACHMENT_ALLOWLIST (ai_type a) of None \<Rightarrow> [] | Some ts \<Rightarrow> ts)"
    using assms(1) kind by (auto simp: validate_and_extract_def Let_def split: if_splits)
  then show ?thesis
    using fits kind by (auto simp: file_ok_def assms ATTACHMENT_ALLOWLIST_def IMAGE_TYPES_def)
qed

lemma folder_step_change: "ws_step cfg user s t \<Longrightarrow> ws_change cfg user s t"
proof (induction rule: ws_step.induct)
  case (created new_id name description instructions r)
  then show ?case
    by (auto simp: create_workspace_def create_workspace_row_def Let_def intro!: ws_change.intros split: if_splits)
next
  case (updated now workspace name' set_description set_instructions r')
  then show ?case
    by (cases "get_workspace workspace user s")
      (auto simp: update_workspace_def require_workspace_def update_workspace_row_def Let_def dest: found_workspace intro: ws_change.same
        intro!: ws_change.edited)
next
  case (deleted workspace r'')
  show ?case
  proof (cases "get_workspace workspace user s")
    case None
    then show ?thesis
      using deleted by (auto simp: delete_workspace_def delete_workspace_row_def intro: ws_change.same)
  next
    case (Some w)
    then show ?thesis
      using deleted found_workspace [OF Some] ws_change.dropped [of w s user cfg] by (auto simp: delete_workspace_def delete_workspace_row_def)
  qed
next
  case (uploaded new_id workspace req filename x)
  show ?case
  proof (cases "get_workspace workspace user s")
    case None
    then show ?thesis
      using uploaded by (auto simp: upload_file_def require_workspace_def intro: ws_change.same)
  next
    case (Some w)
    then show ?thesis
      using uploaded found_workspace [OF Some]
      by (auto simp: upload_file_def require_workspace_def Let_def not_le not_less intro: ws_change.same
          intro!: ws_change.stored [of w] extracted_ok split: if_splits sum.splits)
  qed
next
  case (removed workspace file_id y)
  show ?case
  proof (cases "get_workspace workspace user s")
    case None
    then show ?thesis
      using removed by (auto simp: delete_workspace_file_def require_workspace_def intro: ws_change.same)
  next
    case (Some w)
    then show ?thesis
      using removed found_workspace [OF Some] ws_change.unstored [of w s user cfg file_id]
      by (auto simp: delete_workspace_file_def require_workspace_def delete_file_row_def Let_def)
  qed
qed

lemma fewer_files:
  assumes "list_all (file_ok cfg) (wz_files s)" and "wz_files t = filter P (wz_files s)" and "within cfg s w"
  shows "within cfg t w"
proof -
  have "length (filter (\<lambda>f. wf_workspace f = w) (filter P xs)) \<le> length (filter (\<lambda>f. wf_workspace f = w) xs)" for xs
    by (induction xs) auto
  moreover have "sum_list (map wf_size (filter (\<lambda>f. wf_workspace f = w) (filter P xs))) \<le> sum_list (map wf_size (filter (\<lambda>f. wf_workspace f = w) xs))"
    if "list_all (file_ok cfg) xs" for xs
    using that by (induction xs) (auto simp: file_ok_def)
  ultimately show ?thesis
    using assms unfolding within_def file_count_def total_bytes_def by (metis (no_types, lifting) order_trans of_nat_le_iff)
qed

lemma within_cong: "wz_files t = wz_files s \<Longrightarrow> within cfg t = within cfg s"
  by (simp add: within_def file_count_def total_bytes_def fun_eq_iff)

lemma one_owner: "workspaces_ok cfg s \<Longrightarrow> v \<in> set (wz_rows s) \<Longrightarrow> w \<in> set (wz_rows s) \<Longrightarrow> wp_id v = wp_id w \<Longrightarrow> v = w"
  unfolding workspaces_ok_def by (metis distinct_map inj_onD)

lemma folder_changed_ok:
  assumes "ws_change cfg user s t" and ok: "workspaces_ok cfg s"
  shows "workspaces_ok cfg t"
  using assms(1)
proof cases
  case same
  then show ?thesis
    using ok by simp
next
  case (added w)
  then show ?thesis
    using ok within_cong [of t s] by (auto simp: workspaces_ok_def)
next
  case (edited w row)
  have ids: "map wp_id (wz_rows t) = map wp_id (wz_rows s)"
    using edited(4) by (simp add: edited(1))
  then have "wp_id ` set (wz_rows t) = wp_id ` set (wz_rows s)"
    by (metis list.set_map)
  moreover have files: "wz_files t = wz_files s"
    by (simp add: edited(1))
  ultimately show ?thesis
    using ok ids unfolding workspaces_ok_def within_cong [OF files] by (metis (no_types, lifting))
next
  case (dropped w)
  have "within cfg t (wf_workspace f)" if "f \<in> set (wz_files s)" for f
    using fewer_files [of cfg s t "\<lambda>f. wf_workspace f \<noteq> wp_id w"] ok dropped(1) that by (simp add: workspaces_ok_def)
  then show ?thesis
    using ok dropped(1) by (auto simp: workspaces_ok_def distinct_map_filter list_all_iff)
next
  case (stored w f)
  have here: "within cfg t (wp_id w)"
    using stored(1,4,7,8) by (simp add: within_def file_count_def total_bytes_def)
  have "within cfg t v" if "v \<noteq> wp_id w" "within cfg s v" for v
    using that stored(1,4) by (simp add: within_def file_count_def total_bytes_def)
  then have "within cfg t (wf_workspace g)" if "g \<in> set (wz_files s)" for g
    using that ok here by (cases "wf_workspace g = wp_id w") (auto simp: workspaces_ok_def)
  moreover have "wz_files t = wz_files s @ [f]" "wz_rows t = wz_rows s"
    by (simp_all add: stored(1))
  ultimately show ?thesis
    using ok stored(2,4,5,6) here by (simp add: workspaces_ok_def)
next
  case (unstored w file_id)
  have "within cfg t (wf_workspace f)" if "f \<in> set (wz_files s)" for f
    using fewer_files [of cfg s t "\<lambda>f. \<not> (wf_id f = file_id \<and> wf_workspace f = wp_id w)"] ok unstored(1) that by (simp add: workspaces_ok_def)
  then show ?thesis
    using ok unstored(1) by (auto simp: workspaces_ok_def distinct_map_filter list_all_iff)
qed

definition chats_in :: "uuid \<Rightarrow> ws_state \<Rightarrow> (uuid \<times> uuid option \<times> bool) list" where
  "chats_in w s = filter (\<lambda>(i, c, temporary). c = Some w) (wz_chats s)"

lemma chats_left: "v \<noteq> w \<Longrightarrow> filter (\<lambda>(i, c, temporary). c = Some v) (map (\<lambda>(i, c, temporary). (i, if c = Some w then None else c, temporary)) xs)
    = filter (\<lambda>(i, c, temporary). c = Some v) xs"
  by (induction xs) (auto split: if_splits)

lemma rows_of_others:
  assumes "ws_change cfg user s t" and ok: "workspaces_ok cfg s" and "u \<noteq> user"
  shows "filter (\<lambda>w. wp_user w = u) (wz_rows t) = filter (\<lambda>w. wp_user w = u) (wz_rows s)"
  using assms(1)
proof cases
  case (edited w row)
  have "filter (\<lambda>w. wp_user w = u) (map (\<lambda>x. if wp_id x = wp_id w then row else x) xs) = filter (\<lambda>w. wp_user w = u) xs" if "set xs \<subseteq> set (wz_rows s)" for xs
    using that one_owner [OF ok _ edited(2)] edited(3,5) assms(3) by (induction xs) auto
  then show ?thesis
    by (simp add: edited(1))
next
  case (dropped w)
  have "filter (\<lambda>w. wp_user w = u) (filter (\<lambda>x. wp_id x \<noteq> wp_id w) xs) = filter (\<lambda>w. wp_user w = u) xs" if "set xs \<subseteq> set (wz_rows s)" for xs
    using that one_owner [OF ok _ dropped(2)] dropped(3) assms(3) by (induction xs) auto
  then show ?thesis
    by (simp add: dropped(1))
qed (use assms(3) in auto)

lemma content_of_others:
  assumes "ws_change cfg user s t" and ok: "workspaces_ok cfg s" and v: "v \<in> set (wz_rows s)" "wp_user v \<noteq> user"
  shows "workspace_files (wp_id v) t = workspace_files (wp_id v) s \<and> chats_in (wp_id v) t = chats_in (wp_id v) s"
proof -
  have other: "wp_id v \<noteq> wp_id w" if "w \<in> set (wz_rows s)" "wp_user w = user" for w
    using one_owner [OF ok v(1) that(1)] that(2) v(2) by auto
  have files: "filter (\<lambda>f. wf_workspace f = wp_id v) (filter P (wz_files s)) = filter (\<lambda>f. wf_workspace f = wp_id v) (wz_files s)"
    if "\<And>f. wf_workspace f = wp_id v \<Longrightarrow> P f" for P
    using that by (auto intro!: filter_cong)
  have "filter (\<lambda>f. wf_workspace f = wp_id v) (wz_files t) = filter (\<lambda>f. wf_workspace f = wp_id v) (wz_files s)
      \<and> chats_in (wp_id v) t = chats_in (wp_id v) s"
    using assms(1)
  proof cases
    case (dropped w)
    note apart = other [OF dropped(2,3)]
    show ?thesis
      using files [of "\<lambda>f. wf_workspace f \<noteq> wp_id w"] chats_left [OF apart] apart by (simp add: dropped(1) chats_in_def)
  next
    case (stored w f)
    show ?thesis
      using other [OF stored(2,3)] by (simp add: stored(1,4) chats_in_def)
  next
    case (unstored w file_id)
    show ?thesis
      using files [of "\<lambda>f. \<not> (wf_id f = file_id \<and> wf_workspace f = wp_id w)"] other [OF unstored(2,3)] by (simp add: unstored(1) chats_in_def)
  qed (simp_all add: chats_in_def)
  then show ?thesis
    by (simp add: workspace_files_def)
qed

text \<open>C38. Every operation on folders, whatever its arguments, keeps the tables well formed: identifiers are unique, every file is in a folder
  that exists, has one of the types the product accepts, its true size and a text unless it is a picture, and no file and no folder is
  above its limits.\<close>

theorem folders_kept:
  assumes "ws_step cfg user s t" and "workspaces_ok cfg s"
  shows "workspaces_ok cfg t"
  by (rule folder_changed_ok [OF folder_step_change [OF assms(1)] assms(2)])

text \<open>C39. Folders are private: an operation of one user leaves the folders, the files and the chats in the folders of every other user as they
  are, and a folder of another user cannot be told from one that does not exist, whatever is tried on it.\<close>

theorem folders_confined:
  assumes "ws_step cfg user s t" and "workspaces_ok cfg s" and "workspace \<notin> wp_id ` set (folders_of user s)"
  shows "(\<forall>u. u \<noteq> user \<longrightarrow> folders_of u t = folders_of u s
        \<and> (\<forall>v \<in> set (folders_of u s). workspace_files (wp_id v) t = workspace_files (wp_id v) s \<and> chats_in (wp_id v) t = chats_in (wp_id v) s))
    \<and> workspace_detail workspace user s = (Inl (Raised NotFoundError ''workspace not found''), s)
    \<and> update_workspace now workspace user name d i s = (Inl (Raised NotFoundError ''workspace not found''), s)
    \<and> delete_workspace workspace user s = (Inl (Raised NotFoundError ''workspace not found''), s)
    \<and> upload_file cfg new_id workspace user req filename s = (Inl (Raised NotFoundError ''workspace not found''), s)
    \<and> list_workspace_files workspace user s = (Inl (Raised NotFoundError ''workspace not found''), s)
    \<and> delete_workspace_file workspace user file_id s = (Inl (Raised NotFoundError ''workspace not found''), s)
    \<and> context_for_session cfg workspace user s = None"
proof -
  have change: "ws_change cfg user s t"
    using folder_step_change assms(1) .
  have mine: "set (folders_of u s) = {w \<in> set (wz_rows s). wp_user w = u}" for u
    by (auto simp: folders_of_def recent_first_def)
  have "get_workspace workspace user s = None"
    using found_workspace [of workspace user s] assms(3) by (cases "get_workspace workspace user s") (auto simp: mine)
  then show ?thesis
    using rows_of_others [OF change assms(2)] content_of_others [OF change assms(2)] mine
    by (auto simp: folders_of_def workspace_detail_def update_workspace_def delete_workspace_def delete_workspace_row_def upload_file_def
        list_workspace_files_def delete_workspace_file_def context_for_session_def require_workspace_def not_found_def)
qed

section \<open>Two folders\<close>

definition demo_ws_limits :: workspace_settings where
  "demo_ws_limits = \<lparr>wl_max_count = 3, wl_max_bytes = 9, wl_total_bytes = 9, wl_context_max_chars = 4, wl_checks = demo_attachment_env,
     wl_pdf_text = (\<lambda>b. None)\<rparr>"

definition demo_file :: "uuid \<Rightarrow> uuid \<Rightarrow> nat list \<Rightarrow> instant \<Rightarrow> workspace_file" where
  "demo_file i w bs at = \<lparr>wf_id = i, wf_workspace = w, wf_filename = ''a.txt'', wf_content = bs, wf_media_type = ''text/plain'',
     wf_size = int (length bs), wf_text = Some bs, wf_created = at\<rparr>"

definition demo_folder :: "uuid \<Rightarrow> uuid \<Rightarrow> workspace_row" where
  "demo_folder i u = \<lparr>wp_id = i, wp_user = u, wp_name = ''n'', wp_description = None, wp_instructions = None, wp_created = 0, wp_updated = 0\<rparr>"

definition demo_folders :: ws_state where
  "demo_folders = \<lparr>wz_db = empty_db\<lparr>users := [1 \<mapsto> False, 2 \<mapsto> False]\<rparr>, wz_rows = [demo_folder 4 1, demo_folder 5 2],
     wz_files = [demo_file 6 4 [97, 98, 99] 0, demo_file 7 4 [100, 101] 1, demo_file 8 5 [102] 2], wz_chats = [(9, Some 4, False), (10, Some 5, False)]\<rparr>"

definition demo_cleared :: ws_state where
  "demo_cleared = demo_folders\<lparr>wz_rows := [demo_folder 5 2], wz_files := [demo_file 8 5 [102] 2], wz_chats := [(9, None, False), (10, Some 5, False)]\<rparr>"

lemma demo_folders_ok: "workspaces_ok demo_ws_limits demo_folders"
  by (simp add: workspaces_ok_def demo_folders_def demo_folder_def demo_file_def file_ok_def within_def file_count_def total_bytes_def
      demo_ws_limits_def IMAGE_TYPES_def)

lemma demo_cleared: "\<exists>r. delete_workspace 4 1 demo_folders = (r, demo_cleared)"
  by (simp add: delete_workspace_def delete_workspace_row_def get_workspace_def demo_folders_def demo_cleared_def demo_folder_def demo_file_def)

lemma demo_files: "workspace_files 4 demo_folders = [demo_file 6 4 [97, 98, 99] 0, demo_file 7 4 [100, 101] 1]"
  by (simp add: workspace_files_def demo_folders_def demo_file_def)

theorem folders_kept_witness: "workspaces_ok demo_ws_limits demo_cleared \<and> file_count 4 demo_cleared = 0"
proof -
  obtain r where "delete_workspace 4 1 demo_folders = (r, demo_cleared)"
    using demo_cleared by blast
  then have "workspaces_ok demo_ws_limits demo_cleared"
    using folders_kept [OF ws_step.deleted demo_folders_ok] by blast
  then show ?thesis
    by (simp add: file_count_def demo_cleared_def demo_file_def)
qed

theorem folders_confined_witness:
  "folders_of 2 demo_cleared = folders_of 2 demo_folders \<and> chats_in 5 demo_cleared = [(10, Some 5, False)]
   \<and> delete_workspace 5 1 demo_folders = (Inl (Raised NotFoundError ''workspace not found''), demo_folders)"
proof -
  obtain r where cleared: "delete_workspace 4 1 demo_folders = (r, demo_cleared)"
    using demo_cleared by blast
  have one_neq_two: "(2 :: uuid) \<noteq> 1"
    by simp
  have foreign: "5 \<notin> wp_id ` set (folders_of 1 demo_folders)" and mine: "demo_folder 5 2 \<in> set (folders_of 2 demo_folders)"
    by (simp_all add: folders_of_def recent_first_def demo_folders_def demo_folder_def)
  have "chats_in 5 demo_folders = [(10, Some 5, False)]" "wp_id (demo_folder 5 2) = 5"
    by (simp_all add: chats_in_def demo_folders_def demo_folder_def)
  moreover have "folders_of 2 demo_cleared = folders_of 2 demo_folders"
      "chats_in (wp_id (demo_folder 5 2)) demo_cleared = chats_in (wp_id (demo_folder 5 2)) demo_folders"
      "delete_workspace 5 1 demo_folders = (Inl (Raised NotFoundError ''workspace not found''), demo_folders)"
    using folders_confined [OF ws_step.deleted [OF cleared] demo_folders_ok foreign] mine one_neq_two by blast+
  ultimately show ?thesis
    by simp
qed

theorem workspace_context_is_prefix_witness:
  "\<exists>p snippets. context_for_session demo_ws_limits 4 1 demo_folders = Some (None, Some p)
     \<and> kind_parts ''text'' (pa_parts p) = map (\<lambda>(f, t). text_part f t) snippets \<and> concat (map snd snippets) = [97, 98, 99, 100]"
proof -
  obtain p where p: "context_for_session demo_ws_limits 4 1 demo_folders = Some (None, Some p)"
  proof
    show "context_for_session demo_ws_limits 4 1 demo_folders = Some (None, Some
        \<lparr>pa_parts = [text_part (demo_file 6 4 [97, 98, 99] 0) [97, 98, 99], text_part (demo_file 7 4 [100, 101] 1) [100]],
         pa_placeholders = [], pa_images = []\<rparr>)"
      by (simp add: context_for_session_def get_workspace_def build_file_attachments_def demo_files Let_def)
        (simp add: demo_folders_def demo_folder_def demo_file_def demo_ws_limits_def unless_empty_def IMAGE_TYPES_def Let_def)
  qed
  have "take (nat (wl_context_max_chars demo_ws_limits)) (concat (file_texts (workspace_files 4 demo_folders))) = [97, 98, 99, 100]"
    unfolding demo_files by (simp add: file_texts_def demo_file_def demo_ws_limits_def IMAGE_TYPES_def or_default_def)
  then show ?thesis
    using workspace_context_is_prefix [OF p] p by (auto simp: Let_def)
qed

end
