(* ===== verification/Spec2Isabelle.thy ===== *)
theory Spec2Isabelle
  imports Error_Codes Admin_Grant Adapty Cloudpay Storekit Auth Scheduled_Lifecycle Media_Pricing Media_Contract Rate_Limit Key_Failover Chat_Edit Chats_Shown Website_Files Website_Preview Documents_Kept Attachments_Kept Workspaces_Kept
begin

text \<open>
  A verification library for the backend of \<open>claude-ios\<close> (\<open>src/src/app\<close>): an API in front of language-model and media providers that
  sells its answers for credits. This file imports the whole development and says what it models.

  \<^bold>\<open>The program.\<close> A user is a device with refresh tokens. Credits enter a wallet from four channels (StoreKit sync and token packs, the
  Adapty webhook, the CloudPayments webhook, an operator) and leave it by chat turns and generation jobs; every movement is a row of the
  ledger under an idempotency key. A chat turn starts with a message (\<open>POST /v1/chat/run\<close>), may stop to wait for results of tools that
  the device runs (\<open>/v1/chat/tool_result\<close>), and ends with one stored answer, billed once. A generation job is charged when it is
  submitted and refunded when it fails; polls, callbacks of a proxy and a reconciler move it. Scheduled chats are claimed and run by
  workers through the chat turn. All of it shares one PostgreSQL database: a request is a transaction (\<open>db.session_scope\<close>), and the chat
  turn commits several times because it holds no transaction while a provider is asked.

  \<^bold>\<open>How it is modelled.\<close> A row is a \<open>record\<close>, a table a list or a map of rows in a database record; a statement is a function from a database to
  \<open>(exn + value, database)\<close> (\<open>outcome\<close> in \<open>Prelude\<close>), with the unique keys, foreign keys and checks the service relies on; a sequence of
  statements is \<open>and_then\<close>; \<open>session_scope\<close> rolls back on an exception. Python exceptions are values: \<open>Raised\<close> a class of \<open>errors.py\<close>,
  \<open>DbFault\<close> an integrity error, \<open>PyFault\<close> any other. Python integers are \<open>int\<close>, columns of 64 bits are checked by \<open>bigint_ok\<close>, identifiers are
  \<open>128 word\<close>, instants are microseconds, JSON is the datatype \<open>json\<close>. A character is a HOL \<open>char\<close>, hence Latin-1; where a decoder can leave
  it, the rest is an argument. What is not under \<open>src/\<close> (providers, JWT and X.509 libraries, HMAC, Redis, \<open>datetime\<close> and \<open>json\<close> parsers,
  the clock, generated identifiers) is an argument of the definitions that use it; what a theorem needs of it is a named hypothesis.
  Concurrency is explicit: steps of several workers interleave (\<open>world_step\<close>), a request reads a snapshot before another commits
  (\<open>flush_job\<close>, \<open>merge_row\<close>), and other requests run while a provider is asked (\<open>te_meanwhile\<close>).

  \<^bold>\<open>Theories and sources.\<close>
  \<^item> \<open>Prelude\<close>, \<open>PyText\<close>, \<open>PyBytes\<close>, \<open>PyBase64\<close>, \<open>PyJson\<close>: transactions, and the parts of Python's library the sources use (text, numerals, UUIDs,
    UTF-8, the two forms of Base64, JSON values). \<open>Errors\<close>, \<open>Error_Codes\<close>: \<open>errors.py\<close> and the handlers of \<open>main.py\<close>. \<open>Redaction\<close>:
    \<open>observability/redaction.py\<close>.
  \<^item> \<open>Store\<close>: the billing tables of \<open>models/tables.py\<close> and \<open>audit/service.py\<close>. \<open>Wallet\<close>: \<open>wallet/service.py\<close>, with an abstract account it
    refines. \<open>Single_Grant\<close>: \<open>billing_common/single_grant.py\<close>, over the locale \<open>credit_ledger\<close> that \<open>Wallet\<close> interprets. \<open>Policy\<close>:
    \<open>policy/\<close>. \<open>Products\<close>: \<open>instance_config/products.py\<close> and the product settings. \<open>Resolve\<close>: \<open>billing_common/resolve.py\<close>.
  \<^item> \<open>Storekit\<close>, \<open>Subscription_Sync\<close>, \<open>Token_Purchase\<close>: \<open>subscription/\<close>, \<open>token_purchase/\<close>. \<open>Adapty_Parser\<close>, \<open>Adapty\<close>: \<open>billing_adapty/\<close>.
    \<open>Cloudpay_Parser\<close>, \<open>Cloudpay\<close>: \<open>billing_cloudpayments/\<close>. \<open>Event_Journal\<close> is what the two webhooks share: its locale \<open>event_journal\<close> is
    interpreted on both journals. \<open>Admin_Grant\<close>: \<open>admin/service.py\<close>. \<open>Auth\<close>: \<open>auth/\<close>.
  \<^item> \<open>Cursor\<close>, \<open>Scheduled\<close>, \<open>Scheduled_Pages\<close>, \<open>Scheduled_Worker\<close>, \<open>Scheduled_Lifecycle\<close>: \<open>scheduled_chats/\<close>: the cursor, the five
    operations of the API, listing by cursor, the poll of a worker, and what any interleaving of workers and requests keeps.
  \<^item> \<open>Media_Catalog\<close>, \<open>Media_Pricing\<close>, \<open>Media_Routing\<close>, \<open>Media_Purchase\<close>, \<open>Media_Callback\<close>: catalog, prices, vendor routes and the parser of
    callbacks (\<open>media_generation/\<close>, \<open>instance_config/media_pricing.py\<close>, \<open>tariffs.py\<close>). \<open>Media_Store\<close>, \<open>Media_Jobs\<close>, \<open>Media_Lifecycle\<close>: the
    job table, submission, and every later transition (\<open>repository.py\<close>, \<open>service.py\<close>, \<open>reconciler.py\<close>). \<open>Media_Billing\<close>, \<open>Media_Settle\<close>,
    \<open>Media_Accounts\<close>, \<open>Media_Overlap\<close>, \<open>Media_Contract\<close>: the invariant that ties jobs to the ledger, its preservation by each operation, and
    the properties.
  \<^item> \<open>Rate_Limit\<close>: \<open>api_gateway/rate_limit.py\<close>. \<open>Llm_Settings\<close>: the provider and model methods of \<open>config.py\<close>. \<open>Key_Failover\<close>:
    \<open>chat/key_failover.py\<close>.
  \<^item> \<open>Chat_Tools\<close>: the registry of \<open>chat/tools.py\<close>. \<open>Chat_Store\<close>: the chat tables and \<open>chat/repository.py\<close>. \<open>Chat_History\<close>: the history replayed
    to a provider and \<open>chats/provider_blocks.py\<close>. \<open>Chat_Context\<close>: the settings block of a message. \<open>Chat_Turn\<close>, \<open>Chat_Continue\<close>, \<open>Chat_Run\<close>:
    \<open>_generate_loop\<close>, \<open>tool_result\<close> and \<open>run\<close> of \<open>chat/orchestrator.py\<close>. \<open>Chat_Charge\<close>, \<open>Chat_Account\<close>, \<open>Chat_Legs\<close>, \<open>Chat_Barrier\<close>,
    \<open>Chat_Total\<close>, \<open>Chat_Edit\<close>: their properties; the locales \<open>leg_writes\<close> and \<open>leg_keeps\<close> state what a statement of a leg owes an invariant, and are interpreted on the model.
  \<^item> \<open>Keyset\<close>: listing by cursor for any table: the locale \<open>keyset\<close> and the loop of a client (\<open>follow\<close>), interpreted as \<open>tasks\<close> in
    \<open>Scheduled_Pages\<close>, as \<open>history\<close> in \<open>Chats_Pages\<close> and as \<open>folders\<close> in \<open>Workspaces_Kept\<close>.
  \<^item> \<open>Chats_View\<close>: what a reader is shown of a chat (\<open>chats/service.py\<close>, \<open>chats/repository.py\<close>, \<open>chats/cursor.py\<close>): the history and its
    pages, the steps of a turn, the preview, renaming and deletion. \<open>Chats_Pages\<close>, \<open>Chats_Shown\<close>: the pages put together, and what the
    views show and hide.
  \<^item> \<open>Website\<close>: the site builder (\<open>website/paths.py\<close>, \<open>service.py\<close>, \<open>tools.py\<close>). \<open>Website_Files\<close>: the invariant \<open>site_ok\<close> of its tables and
    \<open>site_step\<close>, what one call may change. Calls are taken one after another: the limits are read before they are enforced, in the same
    transaction but without a lock.
    \<open>Website_Preview\<close>: the public address of a project (\<open>api_gateway/routers/preview.py\<close>).
  \<^item> \<open>Documents\<close>: the texts of a chat (\<open>documents/service.py\<close>, the \<open>document.*\<close> tools of \<open>chat/global_tools.py\<close>, the download of
    \<open>api_gateway/routers/documents.py\<close>). \<open>Documents_Kept\<close>: the invariant \<open>documents_ok\<close> and \<open>doc_change\<close>, what one operation may change.
  \<^item> \<open>Attachments\<close>: the checks of inline attachments and their rendering for the providers (\<open>chat/attachments.py\<close>), and voice messages.
    \<open>Attachments_Kept\<close>: what passes the checks.
  \<^item> \<open>Workspaces\<close>: folders of chats and their files (\<open>workspaces/\<close>). \<open>Workspaces_Kept\<close>: the list by cursor, the invariant \<open>workspaces_ok\<close>, and
    what a turn is given of the files.
  \<^item> \<open>Signed_Url\<close>: the signed links of \<open>chats/attachment_url.py\<close>, \<open>media_generation/signed_url.py\<close> and \<open>website/signed_url.py\<close>.

  \<^bold>\<open>What the lemmas show.\<close> The wallet refines an abstract account, and a key is credited or debited once
  (\<open>Wallet\<close>, \<open>Single_Grant\<close>). Every payment channel credits what the catalog says, once per store payment, and a
  stale report never shortens a subscription, unless it withdraws the purchase. A chat turn, over all its requests, takes from the wallet what its one ledger row says and
  its answers report; it waits for every result it is owed; an edit removes exactly the turns it replaces; the history a provider sees
  closes every superseded call. A job is charged once, refunded when it fails and never both kept and refunded unless two polls of the
  direct client overlap; its price is that of what every route submits, but for the
  sound of Veo over Kie, which is not sent. Refresh chains are revoked on reuse. Scheduled chats run and
  notify at most once and end; their statuses follow the life cycle unless a request flushes what it read before a worker's claim. Windows
  of the rate limiter hold. Signed links open one object. Pages of a history or of a list of tasks reassemble to the whole. The history
  hides prompts and provider identifiers. The site builder keeps its limits and its owners' projects apart, documents and folders theirs;
  a turn is given at most its share of a folder's texts. Attachments that pass decode and bear the signature of their type. Several
  theorems show what the code does against its own documentation; they are the ones whose text calls them a finding.

  \<^bold>\<open>Bounds and fuel.\<close> \<open>collect_urls\<close> descends at most the 7 levels the source allows, which is its own argument and not a bound of the model.
  \<open>loop_rounds\<close> runs \<open>max_rounds + 1\<close> times as the source's \<open>for\<close> does. The failover walks a list of at most four candidates and
  \<open>failover_forward\<close> shows it never returns to one; \<open>cn_calls\<close> counts the calls it makes. Chains of exceptions are walked with the set of those seen, with a termination proof.
  The client's walk along cursors is a \<open>partial_function (option)\<close>, and its termination is a theorem. \<open>int()\<close> refuses more than 4300 digits, as
  Python does.

  \<^bold>\<open>Not modelled.\<close> FastAPI routes, middleware and schemas (they read, call one service, and render); the three provider clients and the voice
  websocket (wire formats and asyncio); the texts of prompts, characters, presets and cards, quizzes and the media wizard inside a turn; what Pillow and pypdf find in a file;
  memory search and moderation, whose verdicts are arguments; the object store of pictures and media; the operator's read-only reports and the registry of overrides; encryption of provider keys; metrics and logs, except the redaction. SQL isolation is modelled where two
  requests meet in a theorem, not in general. Times are integers, so leap seconds and time zones are what \<open>datetime\<close> makes of them.
\<close>

end
